(* ===== verification/Js_Number.thy ===== *)
theory Js_Number
  imports Main "HOL-Library.Log_Nat" "HOL-Library.Code_Target_Nat"
begin

text \<open>
  The numbers of the program: ECMAScript \<open>Number\<close> values, that is IEEE-754 binary64.
  A finite value is the rational it denotes; every arithmetic result is the exact rational
  result rounded to nearest, ties to even (\<open>fl\<close>), with overflow to an infinity and with
  gradual underflow. Negative zero is identified with zero: the modelled code compares with
  \<open>===\<close> and \<open><\<close> only and normalises \<open>-0\<close> before it stores a number.
  The two facts the components use are that \<open>fl\<close> is exact on integers up to
  \<open>2 ^ 53\<close> and that it is monotone.
\<close>

datatype jsnum = Fin rat | PInf | NInf | NaN

subsection \<open>Rounding to binary64\<close>

definition ilog2 :: "rat \<Rightarrow> int" where
  "ilog2 x = (let (p, q) = quotient_of x;
                  k = int (floorlog 2 (nat p)) - int (floorlog 2 (nat q))
              in if 2 powi k \<le> x then k else k - 1)"

definition round_half_even :: "rat \<Rightarrow> int" where
  "round_half_even x = (let f = \<lfloor>x\<rfloor>; d = x - of_int f in
     if d < 1 / 2 then f else if d > 1 / 2 then f + 1 else if even f then f else f + 1)"

definition ulp_exp :: "rat \<Rightarrow> int" where
  "ulp_exp x = max (ilog2 x - 52) (- 1074)"

definition fl_pos :: "rat \<Rightarrow> rat" where
  "fl_pos x = of_int (round_half_even (x / 2 powi (ulp_exp x))) * 2 powi (ulp_exp x)"

definition fl :: "rat \<Rightarrow> jsnum" where
  "fl x = (if x = 0 then Fin 0
           else if 0 < x then (let y = fl_pos x in if 2 ^ 1024 \<le> y then PInf else Fin y)
           else (let y = fl_pos (- x) in if 2 ^ 1024 \<le> y then NInf else Fin (- y)))"

lemma floorlog2_bounds:
  assumes "0 < (p::int)"
  shows "(2::rat) ^ (floorlog 2 (nat p) - 1) \<le> of_int p" and "of_int p < (2::rat) ^ floorlog 2 (nat p)"
    and "0 < floorlog 2 (nat p)"
proof -
  have pn: "0 < nat p" using assms by simp
  from floorlog_bounds [of "nat p" 2] pn
  have b: "2 ^ (floorlog 2 (nat p) - 1) \<le> nat p" "nat p < 2 ^ floorlog 2 (nat p)" by auto
  have e: "(of_int p :: rat) = of_nat (nat p)" using assms by simp
  show "(2::rat) ^ (floorlog 2 (nat p) - 1) \<le> of_int p"
    unfolding e using b(1) by (metis of_nat_le_iff of_nat_numeral of_nat_power)
  show "of_int p < (2::rat) ^ floorlog 2 (nat p)"
    unfolding e using b(2) by (metis of_nat_less_iff of_nat_numeral of_nat_power)
  show "0 < floorlog 2 (nat p)" using pn by (simp add: floorlog_def)
qed

lemma ilog2_bounds:
  assumes "0 < x"
  shows "2 powi (ilog2 x) \<le> x" and "x < 2 powi (ilog2 x + 1)"
proof -
  obtain p q where pq: "quotient_of x = (p, q)" by (cases "quotient_of x")
  have q: "0 < q" using quotient_of_denom_pos [OF pq] .
  have x: "x = of_int p / of_int q" using quotient_of_div [OF pq] .
  have p: "0 < p" using assms q x by (simp add: zero_less_divide_iff)
  define a where "a = floorlog 2 (nat p)"
  define b where "b = floorlog 2 (nat q)"
  have P: "(2::rat) ^ (a - 1) \<le> of_int p" "of_int p < (2::rat) ^ a" "0 < a"
    using floorlog2_bounds [OF p] by (auto simp: a_def)
  have Q: "(2::rat) ^ (b - 1) \<le> of_int q" "of_int q < (2::rat) ^ b" "0 < b"
    using floorlog2_bounds [OF q] by (auto simp: b_def)
  have up: "x < 2 powi (int a - int b + 1)"
  proof -
    have "x < 2 ^ a / of_int q" unfolding x using P q by (simp add: divide_strict_right_mono)
    also have "\<dots> \<le> 2 ^ a / 2 ^ (b - 1)" using Q q by (intro divide_left_mono) auto
    also have "\<dots> = 2 powi (int a - int (b - 1))"
      by (simp add: power_int_diff)
    also have "int a - int (b - 1) = int a - int b + 1" using Q by simp
    finally show ?thesis .
  qed
  have lo: "2 powi (int a - int b - 1) < x"
  proof -
    have "(2::rat) powi (int a - int b - 1) = 2 powi (int (a - 1) - int b)"
      using P by (simp add: algebra_simps)
    also have "\<dots> = 2 ^ (a - 1) / 2 ^ b" by (simp add: power_int_diff)
    also have "\<dots> < 2 ^ (a - 1) / of_int q" using Q q by (intro divide_strict_left_mono) auto
    also have "\<dots> \<le> x" unfolding x using P q by (intro divide_right_mono) auto
    finally show ?thesis .
  qed
  have il: "ilog2 x = (if 2 powi (int a - int b) \<le> x then int a - int b else int a - int b - 1)"
    by (simp add: ilog2_def pq a_def b_def Let_def)
  show "2 powi (ilog2 x) \<le> x" using lo unfolding il by auto
  show "x < 2 powi (ilog2 x + 1)" using up unfolding il by auto
qed

lemma powi_two_le_iff: "(2::rat) powi i \<le> 2 powi j \<longleftrightarrow> i \<le> j"
proof
  assume "(2::rat) powi i \<le> 2 powi j"
  then show "i \<le> j" by (metis not_le one_less_numeral_iff power_int_strict_increasing semiring_norm(76))
next
  assume "i \<le> j"
  then show "(2::rat) powi i \<le> 2 powi j" by (rule power_int_increasing) simp
qed

lemma powi_two_less_iff: "(2::rat) powi i < 2 powi j \<longleftrightarrow> i < j"
  by (meson not_less powi_two_le_iff)

lemma ilog2_mono:
  assumes "0 < x" "x \<le> y"
  shows "ilog2 x \<le> ilog2 y"
proof -
  have "2 powi (ilog2 x) < (2::rat) powi (ilog2 y + 1)"
    using ilog2_bounds(1) [of x] ilog2_bounds(2) [of y] assms by linarith
  then show ?thesis by (simp add: powi_two_less_iff)
qed

lemma round_half_even_int: "round_half_even (of_int n) = n"
  by (simp add: round_half_even_def)

lemma round_half_even_bounds:
  "of_int (round_half_even x) \<le> x + 1 / 2" "x - 1 / 2 \<le> of_int (round_half_even x)"
proof -
  have f: "of_int \<lfloor>x\<rfloor> \<le> x" "x < of_int \<lfloor>x\<rfloor> + 1" by linarith+
  then show "of_int (round_half_even x) \<le> x + 1 / 2" "x - 1 / 2 \<le> of_int (round_half_even x)"
    unfolding round_half_even_def Let_def by (simp_all split: if_split) linarith+
qed

lemma round_half_even_mono:
  assumes "x \<le> y"
  shows "round_half_even x \<le> round_half_even y"
proof (cases "\<lfloor>x\<rfloor> = \<lfloor>y\<rfloor>")
  case True
  have "x - of_int \<lfloor>y\<rfloor> \<le> y - of_int \<lfloor>y\<rfloor>" using assms by simp
  then show ?thesis using assms
    by (simp add: round_half_even_def Let_def True)
next
  case False
  then have "\<lfloor>x\<rfloor> + 1 \<le> \<lfloor>y\<rfloor>" using floor_mono [OF assms] by linarith
  moreover have "round_half_even x \<le> \<lfloor>x\<rfloor> + 1" "\<lfloor>y\<rfloor> \<le> round_half_even y"
    by (auto simp: round_half_even_def Let_def)
  ultimately show ?thesis by linarith
qed

lemma round_half_even_le_int: "x \<le> of_int n \<Longrightarrow> round_half_even x \<le> n"
  using round_half_even_mono [of x "of_int n"] by (simp add: round_half_even_int)

lemma round_half_even_ge_int: "of_int n \<le> x \<Longrightarrow> n \<le> round_half_even x"
  using round_half_even_mono [of "of_int n" x] by (simp add: round_half_even_int)

text \<open>The significand of a positive value never exceeds \<open>2 ^ 53\<close>, and a normal one has 53 bits.\<close>

lemma significand_upper:
  assumes "0 < x"
  shows "fl_pos x \<le> 2 powi (ulp_exp x + 53)"
proof -
  have "x < 2 powi (ilog2 x + 1)" using ilog2_bounds(2) [OF assms] .
  also have "\<dots> \<le> 2 powi (ulp_exp x + 53)" by (simp add: powi_two_le_iff ulp_exp_def)
  finally have "x / 2 powi (ulp_exp x) \<le> of_int (2 ^ 53)"
    by (simp add: field_simps power_int_add)
  from round_half_even_le_int [OF this]
  have "of_int (round_half_even (x / 2 powi (ulp_exp x))) \<le> (2::rat) ^ 53"
    by (metis of_int_le_iff of_int_numeral of_int_power)
  then show ?thesis
    by (simp add: fl_pos_def power_int_add mult_right_mono)
qed

lemma significand_lower:
  assumes "0 < x" "- 1074 < ulp_exp x"
  shows "2 powi (ilog2 x) \<le> fl_pos x"
proof -
  have e: "ulp_exp x = ilog2 x - 52" using assms by (auto simp: ulp_exp_def)
  have "2 powi (ilog2 x) \<le> x" using ilog2_bounds(1) [OF assms(1)] .
  then have "of_int (2 ^ 52) \<le> x / 2 powi (ulp_exp x)"
    unfolding e by (simp add: field_simps power_int_diff)
  from round_half_even_ge_int [OF this]
  have "(2::rat) ^ 52 \<le> of_int (round_half_even (x / 2 powi (ulp_exp x)))"
    by (metis of_int_le_iff of_int_numeral of_int_power)
  then have "2 ^ 52 * 2 powi (ulp_exp x) \<le> fl_pos x"
    by (simp add: fl_pos_def mult_right_mono)
  then show ?thesis unfolding e by (simp add: power_int_diff)
qed

lemma fl_pos_mono:
  assumes "0 < x" "x \<le> y"
  shows "fl_pos x \<le> fl_pos y"
proof (cases "ulp_exp x = ulp_exp y")
  case True
  have "x / 2 powi (ulp_exp y) \<le> y / 2 powi (ulp_exp y)" using assms by (simp add: divide_right_mono)
  from round_half_even_mono [OF this] show ?thesis
    by (simp add: fl_pos_def True mult_right_mono)
next
  case False
  have lt: "ulp_exp x < ulp_exp y" using ilog2_mono [OF assms] False by (auto simp: ulp_exp_def)
  then have n: "- 1074 < ulp_exp y" by (auto simp: ulp_exp_def)
  have "fl_pos x \<le> 2 powi (ulp_exp x + 53)" using significand_upper [OF assms(1)] .
  also have "\<dots> \<le> 2 powi (ilog2 y)" using lt n by (auto simp: powi_two_le_iff ulp_exp_def)
  also have "\<dots> \<le> fl_pos y" using significand_lower n assms by auto
  finally show ?thesis .
qed

lemma fl_pos_int:
  assumes "0 < n" "n \<le> 2 ^ 53"
  shows "fl_pos (of_int n) = of_int n"
proof -
  have pos: "(0::rat) < of_int n" using assms by simp
  have lo: "0 \<le> ilog2 (of_int n)"
  proof -
    have "(1::rat) < 2 powi (ilog2 (of_int n) + 1)"
      using ilog2_bounds(2) [OF pos] assms(1) by linarith
    then have "2 powi 0 < (2::rat) powi (ilog2 (of_int n) + 1)" by simp
    then show ?thesis by (simp only: powi_two_less_iff)
  qed
  then have e: "ulp_exp (of_int n) = ilog2 (of_int n) - 52" by (simp add: ulp_exp_def)
  have hi: "ilog2 (of_int n) \<le> 53"
  proof -
    have "(of_int n :: rat) \<le> of_int (2 ^ 53)" using assms(2) by (simp only: of_int_le_iff)
    moreover have "(of_int (2 ^ 53) :: rat) = 2 powi 53" by simp
    ultimately have "2 powi (ilog2 (of_int n)) \<le> (2::rat) powi 53"
      using ilog2_bounds(1) [OF pos] by linarith
    then show ?thesis by (simp only: powi_two_le_iff)
  qed
  have "\<exists>m::int. (of_int n :: rat) / 2 powi (ulp_exp (of_int n)) = of_int m"
  proof (cases "ulp_exp (of_int n) \<le> 0")
    case True
    define k where "k = nat (- ulp_exp (of_int n))"
    have k: "ulp_exp (of_int n) = - int k" using True by (simp add: k_def)
    have "(of_int n :: rat) / 2 powi (- int k) = of_int (n * 2 ^ k)"
      by (simp add: power_int_minus divide_inverse)
    then show ?thesis unfolding k by blast
  next
    case False
    then have e1: "ulp_exp (of_int n) = 1" and il: "ilog2 (of_int n) = 53" using e hi by auto
    have "(2::rat) powi 53 \<le> of_int n" using ilog2_bounds(1) [OF pos] il by simp
    moreover have "(of_int (2 ^ 53) :: rat) = 2 powi 53" by simp
    ultimately have "(of_int (2 ^ 53) :: rat) \<le> of_int n" by linarith
    then have "n = 2 ^ 53" using assms(2) by (simp only: of_int_le_iff)
    then have "(of_int n :: rat) / 2 powi 1 = of_int (2 ^ 52)" by simp
    then have "(of_int n :: rat) / 2 powi (ulp_exp (of_int n)) = of_int (2 ^ 52)" by (simp only: e1)
    then show ?thesis by blast
  qed
  then obtain m :: int where m: "(of_int n :: rat) / 2 powi (ulp_exp (of_int n)) = of_int m" by blast
  then have "of_int m * 2 powi (ulp_exp (of_int n)) = (of_int n :: rat)" by (simp add: field_simps)
  then show ?thesis by (simp add: fl_pos_def m round_half_even_int)
qed

lemma fl_of_int:
  assumes "\<bar>n\<bar> \<le> 2 ^ 53"
  shows "fl (of_int n) = Fin (of_int n)"
proof -
  have small: "\<not> (2::rat) ^ 1024 \<le> of_int m" if "m \<le> 2 ^ 53" for m :: int
  proof -
    have "(of_int m :: rat) \<le> of_int (2 ^ 53)" using that by (simp only: of_int_le_iff)
    also have "\<dots> = (2::rat) ^ 53" by simp
    also have "\<dots> < 2 ^ 1024" by (rule power_strict_increasing) simp_all
    finally show ?thesis by simp
  qed
  consider "n = 0" | "0 < n" | "n < 0" by linarith
  then show ?thesis
  proof cases
    case 1
    then show ?thesis by (simp add: fl_def)
  next
    case 2
    then show ?thesis using assms small [of n] fl_pos_int [of n] by (simp add: fl_def)
  next
    case 3
    then show ?thesis using assms small [of "- n"] fl_pos_int [of "- n"] by (simp add: fl_def)
  qed
qed

lemma fl_pos_nonneg: "0 \<le> x \<Longrightarrow> 0 \<le> fl_pos x"
proof -
  assume "0 \<le> x"
  then have "0 \<le> round_half_even (x / 2 powi (ulp_exp x))" by (intro round_half_even_ge_int) simp
  then show ?thesis by (simp add: fl_pos_def)
qed

text \<open>An equation for evaluation: integers up to \<open>2 ^ 53\<close> and moderate values need no test for overflow.\<close>

lemma fl_pos_no_overflow:
  assumes "0 < x" "ilog2 x < 1022"
  shows "\<not> 2 ^ 1024 \<le> fl_pos x"
proof -
  have "fl_pos x \<le> 2 powi (ulp_exp x + 53)" using significand_upper [OF assms(1)] .
  also have "\<dots> < 2 powi 1024" using assms(2) by (simp only: powi_two_less_iff) (simp add: ulp_exp_def)
  also have "(2::rat) powi 1024 = 2 ^ 1024" by (simp only: power_int_numeral)
  finally show ?thesis by simp
qed

lemma fl_code [code]:
  "fl x = (case quotient_of x of (p, q) \<Rightarrow>
     if q = 1 \<and> \<bar>p\<bar> \<le> 9007199254740992 then Fin x
     else if 0 < x then
       (if ilog2 x < 1022 then Fin (fl_pos x) else let y = fl_pos x in if 2 ^ 1024 \<le> y then PInf else Fin y)
     else (if ilog2 (- x) < 1022 then Fin (- fl_pos (- x)) else let y = fl_pos (- x) in if 2 ^ 1024 \<le> y then NInf else Fin (- y)))"
proof -
  obtain p q where pq: "quotient_of x = (p, q)" by (cases "quotient_of x")
  have x: "x = of_int p / of_int q" using quotient_of_div [OF pq] .
  show ?thesis
  proof (cases "q = 1 \<and> \<bar>p\<bar> \<le> 9007199254740992")
    case True
    then have "x = of_int p" "\<bar>p\<bar> \<le> 2 ^ 53" using x by simp_all
    then show ?thesis using fl_of_int [of p] True pq by simp
  next
    case False
    have "x = 0 \<Longrightarrow> quotient_of x = (0, 1)" by simp
    then have "x \<noteq> 0" using False pq by auto
    then show ?thesis
      using False pq fl_pos_no_overflow [of x] fl_pos_no_overflow [of "- x"] by (auto simp: fl_def Let_def)
  qed
qed

text \<open>Integer arithmetic for the evaluation of \<open>fl_pos\<close> and \<open>ilog2\<close>.\<close>

definition div_even :: "int \<Rightarrow> int \<Rightarrow> int" where
  "div_even a b = (let q = a div b; r = 2 * (a mod b) in if r < b then q else if b < r then q + 1 else if even q then q else q + 1)"

lemma round_half_even_div:
  assumes "0 < b"
  shows "round_half_even (of_int a / of_int b) = div_even a b"
proof -
  have f: "\<lfloor>of_int a / (of_int b :: rat)\<rfloor> = a div b" by (rule floor_divide_of_int_eq)
  have b: "(0::rat) < of_int b" using assms by simp
  have "(of_int a :: rat) = of_int (a div b) * of_int b + of_int (a mod b)" by (metis div_mult_mod_eq of_int_add of_int_mult)
  then have d: "of_int a / of_int b - of_int (a div b) = (of_int (a mod b) :: rat) / of_int b" using b by (simp add: field_simps)
  have half: "(of_int (a mod b) :: rat) / of_int b < 1 / 2 \<longleftrightarrow> 2 * (a mod b) < b" "(1::rat) / 2 < of_int (a mod b) / of_int b \<longleftrightarrow> b < 2 * (a mod b)"
  proof -
    have "(of_int (a mod b) :: rat) / of_int b < 1 / 2 \<longleftrightarrow> of_int (2 * (a mod b)) < (of_int b :: rat)" using b by (simp add: field_simps)
    then show "(of_int (a mod b) :: rat) / of_int b < 1 / 2 \<longleftrightarrow> 2 * (a mod b) < b" by (simp only: of_int_less_iff)
    have "(1::rat) / 2 < of_int (a mod b) / of_int b \<longleftrightarrow> of_int b < (of_int (2 * (a mod b)) :: rat)" using b by (simp add: field_simps)
    then show "(1::rat) / 2 < of_int (a mod b) / of_int b \<longleftrightarrow> b < 2 * (a mod b)" by (simp only: of_int_less_iff)
  qed
  show ?thesis unfolding round_half_even_def Let_def f d half div_even_def ..
qed

lemma powi_two_split: "(2::rat) powi e = (if 0 \<le> e then of_int (2 ^ nat e) else 1 / of_int (2 ^ nat (- e)))"
  by (simp add: power_int_def inverse_eq_divide power_one_over)

lemma fl_pos_code [code]:
  "fl_pos x = (case quotient_of x of (p, q) \<Rightarrow> let e = ulp_exp x in
     if 0 \<le> e then of_int (div_even p (q * 2 ^ nat e) * 2 ^ nat e)
     else of_int (div_even (p * 2 ^ nat (- e)) q) / of_int (2 ^ nat (- e)))"
proof -
  obtain p q where pq: "quotient_of x = (p, q)" by (cases "quotient_of x")
  have q: "0 < q" using quotient_of_denom_pos [OF pq] .
  have x: "x = of_int p / of_int q" using quotient_of_div [OF pq] .
  define e where "e = ulp_exp x"
  show ?thesis
  proof (cases "0 \<le> e")
    case True
    have "x / 2 powi e = of_int p / of_int (q * 2 ^ nat e)" using True x by (simp add: powi_two_split)
    then have "round_half_even (x / 2 powi e) = div_even p (q * 2 ^ nat e)" using round_half_even_div [of "q * 2 ^ nat e" p] q by simp
    then show ?thesis using True pq by (simp add: fl_pos_def e_def [symmetric] powi_two_split)
  next
    case False
    have "x / 2 powi e = of_int (p * 2 ^ nat (- e)) / of_int q" using False x by (simp add: powi_two_split)
    then have "round_half_even (x / 2 powi e) = div_even (p * 2 ^ nat (- e)) q" using round_half_even_div [of q "p * 2 ^ nat (- e)"] q by simp
    then show ?thesis using False pq by (simp add: fl_pos_def e_def [symmetric] powi_two_split)
  qed
qed

lemma ilog2_code [code]:
  "ilog2 x = (case quotient_of x of (p, q) \<Rightarrow>
     let k = bitlen p - bitlen q
     in if (if 0 \<le> k then 2 ^ nat k * q \<le> p else q \<le> p * 2 ^ nat (- k)) then k else k - 1)"
proof -
  obtain p q where pq: "quotient_of x = (p, q)" by (cases "quotient_of x")
  have q: "(0::rat) < of_int q" using quotient_of_denom_pos [OF pq] by simp
  have x: "x = of_int p / of_int q" using quotient_of_div [OF pq] .
  have "2 powi k \<le> x \<longleftrightarrow> (if 0 \<le> k then 2 ^ nat k * q \<le> p else q \<le> p * 2 ^ nat (- k))" for k
  proof (cases "0 \<le> k")
    case True
    have "2 powi k \<le> x \<longleftrightarrow> of_int (2 ^ nat k * q) \<le> (of_int p :: rat)"
      using True q by (simp add: powi_two_split x field_simps)
    then show ?thesis using True by (simp only: of_int_le_iff) simp
  next
    case False
    have "2 powi k \<le> x \<longleftrightarrow> of_int q \<le> (of_int (p * 2 ^ nat (- k)) :: rat)"
      using False q by (simp add: powi_two_split x field_simps)
    then show ?thesis using False by (simp only: of_int_le_iff) simp
  qed
  then show ?thesis by (simp add: ilog2_def pq Let_def bitlen_def)
qed

subsection \<open>The operations the code uses\<close>

fun num_less :: "jsnum \<Rightarrow> jsnum \<Rightarrow> bool" where
  "num_less (Fin a) (Fin b) = (a < b)"
| "num_less (Fin a) PInf = True"
| "num_less NInf (Fin b) = True"
| "num_less NInf PInf = True"
| "num_less _ _ = False"

fun num_le :: "jsnum \<Rightarrow> jsnum \<Rightarrow> bool" where
  "num_le (Fin a) (Fin b) = (a \<le> b)"
| "num_le (Fin a) PInf = True"
| "num_le NInf (Fin b) = True"
| "num_le NInf PInf = True"
| "num_le PInf PInf = True"
| "num_le NInf NInf = True"
| "num_le _ _ = False"

text \<open>\<open>===\<close> on numbers: \<open>NaN\<close> differs from everything, itself included.\<close>

definition num_eq :: "jsnum \<Rightarrow> jsnum \<Rightarrow> bool" where
  "num_eq a b \<longleftrightarrow> a = b \<and> a \<noteq> NaN"

fun num_add :: "jsnum \<Rightarrow> jsnum \<Rightarrow> jsnum" where
  "num_add (Fin a) (Fin b) = fl (a + b)"
| "num_add (Fin a) PInf = PInf"
| "num_add (Fin a) NInf = NInf"
| "num_add PInf (Fin b) = PInf"
| "num_add NInf (Fin b) = NInf"
| "num_add PInf PInf = PInf"
| "num_add NInf NInf = NInf"
| "num_add _ _ = NaN"

fun num_neg :: "jsnum \<Rightarrow> jsnum" where
  "num_neg (Fin a) = Fin (- a)"
| "num_neg PInf = NInf"
| "num_neg NInf = PInf"
| "num_neg NaN = NaN"

definition num_sub :: "jsnum \<Rightarrow> jsnum \<Rightarrow> jsnum" where
  "num_sub a b = num_add a (num_neg b)"

fun num_mul :: "jsnum \<Rightarrow> jsnum \<Rightarrow> jsnum" where
  "num_mul (Fin a) (Fin b) = fl (a * b)"
| "num_mul (Fin a) PInf = (if a = 0 then NaN else if 0 < a then PInf else NInf)"
| "num_mul (Fin a) NInf = (if a = 0 then NaN else if 0 < a then NInf else PInf)"
| "num_mul PInf (Fin b) = (if b = 0 then NaN else if 0 < b then PInf else NInf)"
| "num_mul NInf (Fin b) = (if b = 0 then NaN else if 0 < b then NInf else PInf)"
| "num_mul PInf PInf = PInf"
| "num_mul PInf NInf = NInf"
| "num_mul NInf PInf = NInf"
| "num_mul NInf NInf = PInf"
| "num_mul _ _ = NaN"

fun num_abs :: "jsnum \<Rightarrow> jsnum" where
  "num_abs (Fin a) = Fin \<bar>a\<bar>"
| "num_abs PInf = PInf"
| "num_abs NInf = PInf"
| "num_abs NaN = NaN"

definition num_max :: "jsnum \<Rightarrow> jsnum \<Rightarrow> jsnum" where
  "num_max a b = (if a = NaN \<or> b = NaN then NaN else if num_less a b then b else a)"

definition num_min :: "jsnum \<Rightarrow> jsnum \<Rightarrow> jsnum" where
  "num_min a b = (if a = NaN \<or> b = NaN then NaN else if num_less b a then b else a)"

fun num_isFinite :: "jsnum \<Rightarrow> bool" where
  "num_isFinite (Fin a) = True"
| "num_isFinite _ = False"

fun num_isInteger :: "jsnum \<Rightarrow> bool" where
  "num_isInteger (Fin a) = (of_int \<lfloor>a\<rfloor> = a)"
| "num_isInteger _ = False"

definition MAX_SAFE_INTEGER :: int where
  "MAX_SAFE_INTEGER = 2 ^ 53 - 1"

fun num_isSafeInteger :: "jsnum \<Rightarrow> bool" where
  "num_isSafeInteger (Fin a) = (of_int \<lfloor>a\<rfloor> = a \<and> \<bar>\<lfloor>a\<rfloor>\<bar> \<le> MAX_SAFE_INTEGER)"
| "num_isSafeInteger _ = False"

abbreviation num_of_int :: "int \<Rightarrow> jsnum" where
  "num_of_int n \<equiv> Fin (of_int n)"

lemma num_isSafeInteger_iff:
  "num_isSafeInteger x \<longleftrightarrow> (\<exists>n. x = num_of_int n \<and> \<bar>n\<bar> \<le> MAX_SAFE_INTEGER)"
proof (cases x)
  case (Fin a)
  then show ?thesis by (metis floor_of_int jsnum.inject num_isSafeInteger.simps(1))
qed auto

lemma num_isInteger_iff: "num_isInteger x \<longleftrightarrow> (\<exists>n. x = num_of_int n)"
proof (cases x)
  case (Fin a)
  then show ?thesis by (metis floor_of_int jsnum.inject num_isInteger.simps(1))
qed auto

lemma num_isSafeInteger_isInteger: "num_isSafeInteger x \<Longrightarrow> num_isInteger x"
  by (auto simp: num_isSafeInteger_iff)

lemma num_add_ints:
  "\<bar>a + b\<bar> \<le> 2 ^ 53 \<Longrightarrow> num_add (num_of_int a) (num_of_int b) = num_of_int (a + b)"
  using fl_of_int [of "a + b"] by simp

lemma num_sub_ints:
  "\<bar>a - b\<bar> \<le> 2 ^ 53 \<Longrightarrow> num_sub (num_of_int a) (num_of_int b) = num_of_int (a - b)"
  using fl_of_int [of "a - b"] by (simp add: num_sub_def)

lemma num_mul_ints:
  "\<bar>a * b\<bar> \<le> 2 ^ 53 \<Longrightarrow> num_mul (num_of_int a) (num_of_int b) = num_of_int (a * b)"
  using fl_of_int [of "a * b"] by simp

text \<open>An exact sum at or above an integer bound stays at or above it after rounding.\<close>

lemma num_add_ge_int:
  assumes "0 \<le> k" "k \<le> 2 ^ 53" "k \<le> a + b"
  shows "num_le (num_of_int k) (num_add (num_of_int a) (num_of_int b))"
proof (cases "k = 0")
  case True
  then have "(0::rat) \<le> of_int (a + b)" using assms by simp
  then show ?thesis using True fl_pos_nonneg [of "of_int a + of_int b"] by (simp add: fl_def Let_def)
next
  case False
  then have k: "0 < k" using assms by simp
  have le: "(of_int k :: rat) \<le> of_int a + of_int b" using assms(3) by (metis of_int_add of_int_le_iff)
  have pos: "(0::rat) < of_int a + of_int b" using le k by (metis le_less_trans of_int_0_less_iff order_less_le_trans)
  have "(of_int k :: rat) = fl_pos (of_int k)" using fl_pos_int k assms(2) by simp
  also have "\<dots> \<le> fl_pos (of_int a + of_int b)" using le k by (intro fl_pos_mono) auto
  finally show ?thesis using pos by (simp add: fl_def Let_def)
qed

lemma num_less_imp_le: "num_less a b \<Longrightarrow> num_le a b"
  by (cases "(a, b)" rule: num_less.cases) auto

lemma num_le_less_trans: "num_le a b \<Longrightarrow> num_less b c \<Longrightarrow> num_less a c"
  by (cases a; cases b; cases c) auto

lemma num_less_irrefl: "\<not> num_less a a"
  by (cases a) auto

end
