(* ===== verification/Js_Prelude.thy ===== *)
theory Js_Prelude
  imports Js_Number "HOL-Library.AList" "HOL-Library.Char_ord" "HOL-Library.List_Lexorder"
    "HOL-Library.Sublist"
begin

text \<open>
  What the modelled sources use of the language, and the lemmas every component shares.
  \<^item> Values (\<open>jsval\<close>): the plain data the code exchanges. An object is the list of its
    own properties in insertion order; keys are never array indices, so that order is also
    the language's enumeration order. A string is a list of code units below 256.
    Identity of objects is not tracked: \<open>===\<close> on two objects is structural equality.
  \<^item> Errors (\<open>js_error\<close>): a thrown \<open>TypeError\<close>, or an error of one of the program's
    classes with its \<open>code\<close>. Messages and detail objects are not kept.
  \<^item> Fallible code returns \<open>'a res\<close>, the error on the left; \<open>rbind\<close> is the sequencing
    that stops at the first throw, \<open>mapR\<close> and \<open>foldR\<close> the loops.
  \<^item> \<open>platform\<close> collects what the program takes from its host: the hash, the date and
    number conversions, the locale's string order and the JSON reader.
\<close>

section \<open>Values, errors, results\<close>

datatype jsval =
    JUndef
  | JNull
  | JBool bool
  | JNum jsnum
  | JStr string
  | JArr "jsval list"
  | JObj "(string \<times> jsval) list"

datatype js_error = TypeError | Thrown (err_class: string) (err_code: string)

type_synonym 'a res = "js_error + 'a"

definition rbind :: "'a res \<Rightarrow> ('a \<Rightarrow> 'b res) \<Rightarrow> 'b res" where
  "rbind m f = (case m of Inl e \<Rightarrow> Inl e | Inr x \<Rightarrow> f x)"

fun mapR :: "('a \<Rightarrow> 'b res) \<Rightarrow> 'a list \<Rightarrow> 'b list res" where
  "mapR f [] = Inr []"
| "mapR f (x # xs) = rbind (f x) (\<lambda>y. rbind (mapR f xs) (\<lambda>ys. Inr (y # ys)))"

fun foldR :: "('s \<Rightarrow> 'a \<Rightarrow> 's res) \<Rightarrow> 's \<Rightarrow> 'a list \<Rightarrow> 's res" where
  "foldR f s [] = Inr s"
| "foldR f s (x # xs) = rbind (f s x) (\<lambda>s'. foldR f s' xs)"

named_theorems res_simps \<open>inversion of successful results\<close>

lemma rbind_simps [simp]: "rbind (Inl e) f = Inl e" "rbind (Inr x) f = f x"
  by (simp_all add: rbind_def)

lemma rbind_eq_Inr [res_simps]: "rbind m f = Inr y \<longleftrightarrow> (\<exists>x. m = Inr x \<and> f x = Inr y)"
  by (cases m) auto

lemma rbind_eq_Inl [res_simps]:
  "rbind m f = Inl e \<longleftrightarrow> m = Inl e \<or> (\<exists>x. m = Inr x \<and> f x = Inl e)"
  by (cases m) auto

lemma rbind_assoc: "rbind (rbind m f) g = rbind m (\<lambda>x. rbind (f x) g)"
  by (cases m) auto

lemma rbind_cong:
  "m = m' \<Longrightarrow> (\<And>x. m' = Inr x \<Longrightarrow> f x = f' x) \<Longrightarrow> rbind m f = rbind m' f'"
  by (cases m') auto

lemma if_throw_eq_Inr [simp]: "((if c then Inl e else r) = Inr y) \<longleftrightarrow> \<not> c \<and> r = Inr y"
  by simp

lemma option_throw_eq_Inr: "(case m of None \<Rightarrow> Inl e | Some x \<Rightarrow> f x) = Inr y \<longleftrightarrow> (\<exists>x. m = Some x \<and> f x = Inr y)"
  by (cases m) auto

lemma if_return_eq_Inl [simp]: "((if c then Inr x else r) = Inl e) \<longleftrightarrow> \<not> c \<and> r = Inl e"
  by simp

lemma list_all2_map_eq: "list_all2 (\<lambda>x y. x = f y) xs ys \<longleftrightarrow> xs = map f ys"
  by (induction ys arbitrary: xs) (auto simp: list_all2_Cons2)

lemma mapR_eq_Inr: "mapR f xs = Inr ys \<longleftrightarrow> list_all2 (\<lambda>x y. f x = Inr y) xs ys"
  by (induction xs arbitrary: ys) (auto simp: res_simps list_all2_Cons1)

lemma mapR_length: "mapR f xs = Inr ys \<Longrightarrow> length ys = length xs"
  by (auto simp: mapR_eq_Inr dest: list_all2_lengthD)

lemma mapR_member:
  assumes "mapR f xs = Inr ys" "y \<in> set ys"
  shows "\<exists>x\<in>set xs. f x = Inr y"
  using assms by (induction xs arbitrary: ys) (auto simp: res_simps)

lemma mapR_member_in:
  assumes "mapR f xs = Inr ys" "x \<in> set xs"
  shows "\<exists>y\<in>set ys. f x = Inr y"
  using assms by (induction xs arbitrary: ys) (auto simp: res_simps)

lemma mapR_append: "mapR f (xs @ ys) = rbind (mapR f xs) (\<lambda>us. rbind (mapR f ys) (\<lambda>vs. Inr (us @ vs)))"
  by (induction xs) (auto simp: rbind_assoc rbind_def split: sum.splits)

lemma mapR_Inr_map: "(\<And>x. x \<in> set xs \<Longrightarrow> f x = Inr (g x)) \<Longrightarrow> mapR f xs = Inr (map g xs)"
  by (induction xs) auto

lemma foldR_append: "foldR f s (xs @ ys) = rbind (foldR f s xs) (\<lambda>s'. foldR f s' ys)"
  by (induction xs arbitrary: s) (auto simp: rbind_def split: sum.splits)

text \<open>The invariant rule of a loop that may throw.\<close>

lemma foldR_inv:
  assumes "foldR f s xs = Inr s'" "I s"
    and "\<And>s x s'. x \<in> set xs \<Longrightarrow> I s \<Longrightarrow> f s x = Inr s' \<Longrightarrow> I s'"
  shows "I s'"
  using assms
proof (induction xs arbitrary: s)
  case (Cons x xs)
  then obtain s1 where s1: "f s x = Inr s1" "foldR f s1 xs = Inr s'" by (auto simp: res_simps)
  show ?case by (rule Cons.IH [OF s1(2)]) (use Cons.prems s1(1) in auto)
qed simp

text \<open>A loop that only checks: it succeeds when every element passes.\<close>

lemma foldR_check:
  assumes "foldR (\<lambda>_ x. rbind (f x) (\<lambda>_. Inr ())) () xs = Inr u"
  shows "\<forall>x\<in>set xs. \<exists>y. f x = Inr y"
  using assms by (induction xs) (auto simp: res_simps)

definition forR :: "('a \<Rightarrow> unit res) \<Rightarrow> 'a list \<Rightarrow> unit res" where
  "forR f xs = foldR (\<lambda>_ x. f x) () xs"

lemma forR_simps [simp]: "forR f [] = Inr ()" "forR f (x # xs) = rbind (f x) (\<lambda>_. forR f xs)"
  by (simp_all add: forR_def)

lemma forR_eq_Inr: "forR f xs = Inr u \<longleftrightarrow> (\<forall>x\<in>set xs. f x = Inr ())"
  by (induction xs) (auto simp: res_simps)

fun filterR :: "('a \<Rightarrow> bool res) \<Rightarrow> 'a list \<Rightarrow> 'a list res" where
  "filterR p [] = Inr []"
| "filterR p (x # xs) = rbind (p x) (\<lambda>b. rbind (filterR p xs) (\<lambda>ys. Inr (if b then x # ys else ys)))"

lemma filterR_set: "filterR p xs = Inr ys \<Longrightarrow> set ys = {x \<in> set xs. p x = Inr True}"
  by (induction xs arbitrary: ys) (auto simp: res_simps split: if_splits)

lemma filterR_ok: "filterR p xs = Inr ys \<Longrightarrow> x \<in> set xs \<Longrightarrow> \<exists>b. p x = Inr b"
  by (induction xs arbitrary: ys) (auto simp: res_simps)

text \<open>\<open>xs.find(p)\<close> and \<open>xs.some(p)\<close> with a predicate that may throw: they stop at the first hit.\<close>

fun findR :: "('a \<Rightarrow> bool res) \<Rightarrow> 'a list \<Rightarrow> 'a option res" where
  "findR p [] = Inr None"
| "findR p (x # xs) = rbind (p x) (\<lambda>b. if b then Inr (Some x) else findR p xs)"

lemma findR_Some: "findR p xs = Inr (Some x) \<Longrightarrow> x \<in> set xs \<and> p x = Inr True"
  by (induction xs) (auto simp: res_simps split: if_splits)

lemma findR_None: "findR p xs = Inr None \<longleftrightarrow> (\<forall>x\<in>set xs. p x = Inr False)"
  by (induction xs) (auto simp: res_simps split: if_splits)

lemma findR_pure: "(\<And>x. x \<in> set xs \<Longrightarrow> p x = Inr (q x)) \<Longrightarrow> findR p xs = Inr (find q xs)"
  by (induction xs) auto

section \<open>Properties of values\<close>

definition nullish :: "jsval \<Rightarrow> bool" where
  "nullish v \<longleftrightarrow> v = JUndef \<or> v = JNull"

lemma nullish_simps [simp]:
  "nullish JUndef" "nullish JNull" "\<not> nullish (JBool b)" "\<not> nullish (JNum n)" "\<not> nullish (JStr s)"
  "\<not> nullish (JArr xs)" "\<not> nullish (JObj ps)"
  by (simp_all add: nullish_def)

text \<open>\<open>a ?? b\<close>.\<close>

definition coalesce :: "jsval \<Rightarrow> jsval \<Rightarrow> jsval" where
  "coalesce a b = (if nullish a then b else a)"

text \<open>A parameter with the default \<open>{}\<close>.\<close>

definition defaulted :: "jsval \<Rightarrow> jsval" where
  "defaulted v = (if v = JUndef then JObj [] else v)"

lemma coalesce_simps [simp]:
  "coalesce JUndef b = b" "coalesce JNull b = b" "coalesce (JBool t) b = JBool t"
  "coalesce (JNum n) b = JNum n" "coalesce (JStr s) b = JStr s" "coalesce (JArr xs) b = JArr xs"
  "coalesce (JObj ps) b = JObj ps"
  by (simp_all add: coalesce_def)

fun truthy :: "jsval \<Rightarrow> bool" where
  "truthy JUndef = False"
| "truthy JNull = False"
| "truthy (JBool b) = b"
| "truthy (JNum n) = (n \<noteq> Fin 0 \<and> n \<noteq> NaN)"
| "truthy (JStr s) = (s \<noteq> [])"
| "truthy (JArr xs) = True"
| "truthy (JObj ps) = True"

abbreviation jint :: "int \<Rightarrow> jsval" where
  "jint n \<equiv> JNum (num_of_int n)"

abbreviation jnat :: "nat \<Rightarrow> jsval" where
  "jnat n \<equiv> JNum (num_of_int (int n))"

text \<open>
  Reading a property. \<open>own k v\<close> is \<open>v?.k\<close>, which is undefined on null and undefined;
  \<open>prop k v\<close> is \<open>v.k\<close>, which throws there.
\<close>

fun own :: "string \<Rightarrow> jsval \<Rightarrow> jsval" where
  "own k (JObj ps) = (case map_of ps k of None \<Rightarrow> JUndef | Some v \<Rightarrow> v)"
| "own k (JArr xs) = (if k = ''length'' then jnat (length xs) else JUndef)"
| "own k (JStr s) = (if k = ''length'' then jnat (length s) else JUndef)"
| "own k _ = JUndef"

definition prop_of :: "string \<Rightarrow> jsval \<Rightarrow> jsval res" where
  "prop_of k v = (if nullish v then Inl TypeError else Inr (own k v))"

fun isArr :: "jsval \<Rightarrow> bool" where
  "isArr (JArr xs) = True"
| "isArr _ = False"

fun isStr :: "jsval \<Rightarrow> bool" where
  "isStr (JStr s) = True"
| "isStr _ = False"

fun isBool :: "jsval \<Rightarrow> bool" where
  "isBool (JBool b) = True"
| "isBool _ = False"

text \<open>\<open>value !== null && typeof value === "object" && !Array.isArray(value)\<close>.\<close>

fun isObj :: "jsval \<Rightarrow> bool" where
  "isObj (JObj ps) = True"
| "isObj _ = False"

fun keys :: "jsval \<Rightarrow> string list" where
  "keys (JObj ps) = map fst ps"
| "keys _ = []"

fun entries :: "jsval \<Rightarrow> (string \<times> jsval) list" where
  "entries (JObj ps) = ps"
| "entries _ = []"

definition hasOwn :: "jsval \<Rightarrow> string \<Rightarrow> bool" where
  "hasOwn v k \<longleftrightarrow> k \<in> set (keys v)"

fun oset :: "string \<Rightarrow> jsval \<Rightarrow> jsval \<Rightarrow> jsval" where
  "oset k x (JObj ps) = JObj (AList.update k x ps)"
| "oset k x v = v"

text \<open>\<open>{ ...a, ...b }\<close>; spreading null or undefined adds nothing.\<close>

definition spread :: "jsval \<Rightarrow> jsval \<Rightarrow> jsval" where
  "spread a b = foldl (\<lambda>o' (k, x). oset k x o') a (entries b)"

definition odelete :: "string \<Rightarrow> jsval \<Rightarrow> jsval" where
  "odelete k v = (case v of JObj ps \<Rightarrow> JObj (AList.delete k ps) | _ \<Rightarrow> v)"

text \<open>\<open>===\<close> (objects compared structurally).\<close>

definition js_eq :: "jsval \<Rightarrow> jsval \<Rightarrow> bool" where
  "js_eq a b \<longleftrightarrow> a = b \<and> a \<noteq> JNum NaN"

lemma js_eq_simps [simp]:
  "js_eq a (JStr s) \<longleftrightarrow> a = JStr s" "js_eq (JStr s) a \<longleftrightarrow> a = JStr s"
  "js_eq a (JBool b) \<longleftrightarrow> a = JBool b" "js_eq (JBool b) a \<longleftrightarrow> a = JBool b"
  "js_eq a JNull \<longleftrightarrow> a = JNull" "js_eq JNull a \<longleftrightarrow> a = JNull"
  "js_eq a JUndef \<longleftrightarrow> a = JUndef" "js_eq JUndef a \<longleftrightarrow> a = JUndef"
  "js_eq a (JNum (Fin n)) \<longleftrightarrow> a = JNum (Fin n)" "js_eq (JNum (Fin n)) a \<longleftrightarrow> a = JNum (Fin n)"
  by (auto simp: js_eq_def)

fun isSafeInteger :: "jsval \<Rightarrow> bool" where
  "isSafeInteger (JNum n) = num_isSafeInteger n"
| "isSafeInteger _ = False"

fun isInteger :: "jsval \<Rightarrow> bool" where
  "isInteger (JNum n) = num_isInteger n"
| "isInteger _ = False"

fun isFiniteNumber :: "jsval \<Rightarrow> bool" where
  "isFiniteNumber (JNum n) = num_isFinite n"
| "isFiniteNumber _ = False"

lemma isSafeInteger_iff: "isSafeInteger v \<longleftrightarrow> (\<exists>n. v = jint n \<and> \<bar>n\<bar> \<le> MAX_SAFE_INTEGER)"
  by (cases v) (auto simp: num_isSafeInteger_iff)

lemma isObj_iff: "isObj v \<longleftrightarrow> (\<exists>ps. v = JObj ps)"
  by (cases v) auto

lemma isArr_iff: "isArr v \<longleftrightarrow> (\<exists>xs. v = JArr xs)"
  by (cases v) auto

lemma isStr_iff: "isStr v \<longleftrightarrow> (\<exists>s. v = JStr s)"
  by (cases v) auto

lemma isBool_iff: "isBool v \<longleftrightarrow> (\<exists>b. v = JBool b)"
  by (cases v) auto

lemma own_oset: "isObj v \<Longrightarrow> own k (oset j x v) = (if k = j then x else own k v)"
  by (cases v) (auto simp: update_conv')

lemma isObj_oset [simp]: "isObj (oset k x v) = isObj v"
  by (cases v) auto

lemma isObj_spread [simp]: "isObj (spread a b) = isObj a"
proof -
  have "isObj (foldl (\<lambda>o' (k, x). oset k x o') a ps) = isObj a" for ps
  proof (induction ps arbitrary: a)
    case (Cons p ps)
    show ?case by (cases p) (simp add: Cons.IH)
  qed simp
  then show ?thesis by (simp add: spread_def)
qed

lemma own_foldl_oset:
  "isObj a \<Longrightarrow> own k (foldl (\<lambda>o' (k, x). oset k x o') a ps) =
     (case map_of (rev ps) k of Some x \<Rightarrow> x | None \<Rightarrow> own k a)"
proof (induction ps arbitrary: a)
  case (Cons p ps)
  obtain j x where p: "p = (j, x)" by (cases p)
  show ?case using Cons.IH [of "oset j x a"] Cons.prems
    by (cases "map_of (rev ps) k") (auto simp: p own_oset map_add_def)
qed simp

text \<open>\<open>v.includes(x)\<close> on an array or a string, \<open>v.filter\<close>, \<open>v.map\<close> and \<open>v.some\<close> on an array.\<close>

fun js_includes :: "jsval \<Rightarrow> jsval \<Rightarrow> bool res" where
  "js_includes (JArr xs) x = Inr (x \<in> set xs)"
| "js_includes (JStr s) (JStr t) = Inr (sublist t s)"
| "js_includes _ _ = Inl TypeError"

fun arr_of :: "jsval \<Rightarrow> jsval list res" where
  "arr_of (JArr xs) = Inr xs"
| "arr_of _ = Inl TypeError"

fun items :: "jsval \<Rightarrow> jsval list" where
  "items (JArr xs) = xs"
| "items _ = []"

lemma arr_of_Inr [simp]: "arr_of v = Inr xs \<longleftrightarrow> v = JArr xs"
  by (cases v) auto

lemma prop_of_Inr [simp]: "prop_of k v = Inr w \<longleftrightarrow> \<not> nullish v \<and> w = own k v"
  by (auto simp: prop_of_def)

lemma own_append: "k \<in> fst ` set ps \<Longrightarrow> own k (JObj (ps @ qs)) = own k (JObj ps)"
  "k \<notin> fst ` set ps \<Longrightarrow> own k (JObj (ps @ qs)) = own k (JObj qs)"
proof -
  show "k \<in> fst ` set ps \<Longrightarrow> own k (JObj (ps @ qs)) = own k (JObj ps)"
    by (induction ps) auto
  show "k \<notin> fst ` set ps \<Longrightarrow> own k (JObj (ps @ qs)) = own k (JObj qs)"
    by (induction ps) auto
qed

lemma own_odelete: "own k (odelete j v) = (if k = j \<and> isObj v then JUndef else own k v)"
  by (cases v) (auto simp: odelete_def delete_conv')

text \<open>A property is smaller than the object it is read from, which bounds recursion into values.\<close>

lemma size_own: "own k v = w \<Longrightarrow> isArr w \<or> isObj w \<Longrightarrow> size w < size v"
proof (cases v)
  case (JObj ps)
  assume w: "own k v = w" "isArr w \<or> isObj w"
  have "map_of ps k = Some w" using w JObj by (auto split: option.splits)
  then have "(k, w) \<in> set ps" by (rule map_of_SomeD)
  then have "size w \<le> size_list (\<lambda>x. Suc (size (snd x))) ps"
    by (induction ps) auto
  then show ?thesis by (simp add: JObj size_prod_simp)
qed (auto split: if_splits)

section \<open>Strings\<close>

definition lower_alnum :: "char \<Rightarrow> bool" where
  "lower_alnum c \<longleftrightarrow> c \<in> set ''abcdefghijklmnopqrstuvwxyz0123456789''"

definition is_hex :: "char \<Rightarrow> bool" where
  "is_hex c \<longleftrightarrow> c \<in> set ''abcdef0123456789''"

definition is_digit :: "char \<Rightarrow> bool" where
  "is_digit c \<longleftrightarrow> c \<in> set ''0123456789''"

definition is_alpha :: "char \<Rightarrow> bool" where
  "is_alpha c \<longleftrightarrow> c \<in> set ''abcdefghijklmnopqrstuvwxyzABCDEFGHIJKLMNOPQRSTUVWXYZ''"

definition is_upper :: "char \<Rightarrow> bool" where
  "is_upper c \<longleftrightarrow> c \<in> set ''ABCDEFGHIJKLMNOPQRSTUVWXYZ''"

definition id_char :: "char \<Rightarrow> bool" where
  "id_char c \<longleftrightarrow> lower_alnum c \<or> c \<in> set ''._:-''"

text \<open>
  The two families of identifier patterns, \<open>/^[a-z0-9][a-z0-9._:-]{0,n}$/\<close> and
  \<open>/^[a-z0-9][a-z0-9-]{0,n}$/\<close>, with the number of further characters as argument.
\<close>

fun re_ident :: "(char \<Rightarrow> bool) \<Rightarrow> nat \<Rightarrow> string \<Rightarrow> bool" where
  "re_ident p n [] = False"
| "re_ident p n (c # cs) = (lower_alnum c \<and> list_all p cs \<and> length cs \<le> n)"

definition DOMAIN_ID :: "string \<Rightarrow> bool" where
  "DOMAIN_ID = re_ident id_char 127"

definition re_hexes :: "string \<Rightarrow> nat \<Rightarrow> string \<Rightarrow> bool" where
  "re_hexes pre n s \<longleftrightarrow> take (length pre) s = pre \<and> length s = length pre + n
     \<and> list_all is_hex (drop (length pre) s)"

definition SHA256 :: "string \<Rightarrow> bool" where
  "SHA256 = re_hexes ''sha256:'' 64"

definition GIT_COMMIT :: "string \<Rightarrow> bool" where
  "GIT_COMMIT = re_hexes '''' 40"

text \<open>\<open>s.split(c)\<close> for a single character, and \<open>parts.join(c)\<close>.\<close>

fun split_on :: "char \<Rightarrow> string \<Rightarrow> string list" where
  "split_on c [] = [[]]"
| "split_on c (x # xs) = (if x = c then [] # split_on c xs
     else (case split_on c xs of [] \<Rightarrow> [[x]] | y # ys \<Rightarrow> (x # y) # ys))"

fun join_on :: "string \<Rightarrow> string list \<Rightarrow> string" where
  "join_on s [] = []"
| "join_on s [x] = x"
| "join_on s (x # y # ys) = x @ s @ join_on s (y # ys)"

lemma split_on_not_Nil [simp]: "split_on c s \<noteq> []"
  by (induction s) (auto split: list.splits)

lemma split_on_append_sep: "split_on c (a @ c # b) = split_on c a @ split_on c b"
proof (induction a)
  case (Cons x a)
  obtain y ys where "split_on c a = y # ys" by (cases "split_on c a") simp_all
  with Cons show ?case by simp
qed simp

lemma split_on_no_sep: "c \<notin> set s \<Longrightarrow> split_on c s = [s]"
  by (induction s) auto

lemma split_on_parts: "p \<in> set (split_on c s) \<Longrightarrow> c \<notin> set p"
  by (induction s arbitrary: p) (auto split: if_splits list.splits)

lemma join_split_on: "join_on [c] (split_on c s) = s"
proof (induction s)
  case (Cons x s)
  obtain y ys where e: "split_on c s = y # ys" by (cases "split_on c s") simp_all
  show ?case using Cons e by (cases ys) auto
qed simp

text \<open>\<open>s.replace(/\/$/u, "")\<close>: one trailing slash removed.\<close>

definition strip_slash :: "string \<Rightarrow> string" where
  "strip_slash s = (if s \<noteq> [] \<and> last s = CHR ''/'' then butlast s else s)"

section \<open>The host\<close>

record platform =
  num_str :: "jsnum \<Rightarrow> string"      \<comment> \<open>\<open>String(n)\<close> of a number that is no integer below \<open>1e21\<close>\<close>
  sha256_hex :: "string \<Rightarrow> string"  \<comment> \<open>\<open>createHash("sha256").update(s).digest("hex")\<close>\<close>
  locale_le :: "string \<Rightarrow> string \<Rightarrow> bool"  \<comment> \<open>\<open>a.localeCompare(b) <= 0\<close>\<close>
  date_parse :: "string \<Rightarrow> jsnum"   \<comment> \<open>\<open>Date.parse\<close>\<close>
  iso_string :: "jsnum \<Rightarrow> string"   \<comment> \<open>\<open>new Date(ms).toISOString()\<close>\<close>
  json_parse :: "string \<Rightarrow> jsval option"  \<comment> \<open>\<open>JSON.parse\<close>, \<open>None\<close> for a SyntaxError\<close>
  json_error :: "string \<Rightarrow> string"  \<comment> \<open>the message of that SyntaxError\<close>
  to_number :: "jsval \<Rightarrow> jsnum"     \<comment> \<open>\<open>Number(v)\<close> of a string, an array or an object\<close>

text \<open>Decimal text of an integer, \<open>String(v)\<close> and the relational operators.\<close>

fun digits10 :: "nat \<Rightarrow> string" where
  "digits10 n = (if n < 10 then [''0123456789'' ! n] else digits10 (n div 10) @ [''0123456789'' ! (n mod 10)])"

declare digits10.simps [simp del]

definition int_text :: "int \<Rightarrow> string" where
  "int_text n = (if n < 0 then CHR ''-'' # digits10 (nat (- n)) else digits10 (nat n))"

definition num_text :: "platform \<Rightarrow> jsnum \<Rightarrow> string" where
  "num_text P n = (case n of Fin a \<Rightarrow> (if of_int \<lfloor>a\<rfloor> = a \<and> \<bar>a\<bar> < 10 ^ 21 then int_text \<lfloor>a\<rfloor> else num_str P n)
     | PInf \<Rightarrow> ''Infinity'' | NInf \<Rightarrow> ''-Infinity'' | NaN \<Rightarrow> ''NaN'')"

fun js_string :: "platform \<Rightarrow> jsval \<Rightarrow> string" and js_strings :: "platform \<Rightarrow> jsval list \<Rightarrow> string list" where
  "js_string P JUndef = ''undefined''"
| "js_string P JNull = ''null''"
| "js_string P (JBool b) = (if b then ''true'' else ''false'')"
| "js_string P (JNum n) = num_text P n"
| "js_string P (JStr s) = s"
| "js_string P (JArr xs) = join_on '','' (js_strings P xs)"
| "js_string P (JObj ps) = ''[object Object]''"
| "js_strings P [] = []"
| "js_strings P (x # xs) = (if nullish x then [] else js_string P x) # js_strings P xs"

fun js_number :: "platform \<Rightarrow> jsval \<Rightarrow> jsnum" where
  "js_number P JUndef = NaN"
| "js_number P JNull = Fin 0"
| "js_number P (JBool b) = Fin (if b then 1 else 0)"
| "js_number P (JNum n) = n"
| "js_number P v = to_number P v"

fun js_less :: "platform \<Rightarrow> jsval \<Rightarrow> jsval \<Rightarrow> bool" where
  "js_less P (JStr a) (JStr b) = (a < b)"
| "js_less P a b = num_less (js_number P a) (js_number P b)"

fun js_le :: "platform \<Rightarrow> jsval \<Rightarrow> jsval \<Rightarrow> bool" where
  "js_le P (JStr a) (JStr b) = (a \<le> b)"
| "js_le P a b = num_le (js_number P a) (js_number P b)"

text \<open>\<open>[...v]\<close>: what a spread or a \<open>for of\<close> iterates over.\<close>

fun iterate :: "jsval \<Rightarrow> jsval list res" where
  "iterate (JArr xs) = Inr xs"
| "iterate (JStr s) = Inr (map (\<lambda>c. JStr [c]) s)"
| "iterate _ = Inl TypeError"

text \<open>\<open>Array.prototype.sort()\<close> without a comparator: undefined last, the rest by their text.\<close>

definition js_sort :: "platform \<Rightarrow> jsval list \<Rightarrow> jsval list" where
  "js_sort P xs = sort_key (js_string P) (filter (\<lambda>v. v \<noteq> JUndef) xs) @ filter (\<lambda>v. v = JUndef) xs"

text \<open>\<open>[...new Set(xs)]\<close>: first occurrences, in order.\<close>

fun js_uniq :: "'a list \<Rightarrow> 'a list" where
  "js_uniq [] = []"
| "js_uniq (x # xs) = x # js_uniq (filter (\<lambda>y. y \<noteq> x) xs)"

text \<open>Stable sorting by the locale's order.\<close>

fun insert_by :: "('a \<Rightarrow> 'a \<Rightarrow> bool) \<Rightarrow> 'a \<Rightarrow> 'a list \<Rightarrow> 'a list" where
  "insert_by le x [] = [x]"
| "insert_by le x (y # ys) = (if le x y then x # y # ys else y # insert_by le x ys)"

definition sort_by :: "('a \<Rightarrow> 'a \<Rightarrow> bool) \<Rightarrow> 'a list \<Rightarrow> 'a list" where
  "sort_by le xs = foldr (insert_by le) xs []"

lemma set_js_uniq [simp]: "set (js_uniq xs) = set xs"
  by (induction xs rule: js_uniq.induct) auto

lemma distinct_js_uniq [simp]: "distinct (js_uniq xs)"
  by (induction xs rule: js_uniq.induct) auto

lemma set_insert_by [simp]: "set (insert_by le x xs) = insert x (set xs)"
  by (induction xs) auto

lemma set_sort_by [simp]: "set (sort_by le xs) = set xs"
  by (induction xs) (auto simp: sort_by_def)

lemma mset_insert_length [simp]: "length (insert_by le x xs) = Suc (length xs)"
  by (induction xs) auto

lemma length_sort_by [simp]: "length (sort_by le xs) = length xs"
  by (induction xs) (auto simp: sort_by_def)

lemma distinct_map_insert_by [simp]:
  "distinct (map f (insert_by le x xs)) \<longleftrightarrow> distinct (map f (x # xs))"
  by (induction xs) auto

lemma distinct_map_sort_by [simp]: "distinct (map f (sort_by le xs)) \<longleftrightarrow> distinct (map f xs)"
proof (induction xs)
  case (Cons x xs)
  have "sort_by le (x # xs) = insert_by le x (sort_by le xs)" by (simp add: sort_by_def)
  with Cons show ?case by auto
qed (simp add: sort_by_def)

lemma set_js_sort [simp]: "set (js_sort P xs) = set xs"
  by (auto simp: js_sort_def)

text \<open>A plain host for evaluating the definitions: a constant digest and the code unit order.\<close>

definition plain_host :: platform where
  "plain_host = \<lparr> num_str = (\<lambda>_. ''0.5''), sha256_hex = (\<lambda>_. replicate 64 (CHR ''0'')),
     locale_le = (\<lambda>a b. a \<le> b), date_parse = (\<lambda>_. Fin 0),
     iso_string = (\<lambda>_. ''1970-01-01T00:00:00.000Z''),
     json_parse = (\<lambda>_. None), json_error = (\<lambda>_. ''Unexpected end of JSON input''), to_number = (\<lambda>_. NaN) \<rparr>"

definition zero_digest :: jsval where
  "zero_digest = JStr (''sha256:'' @ replicate 64 (CHR ''0''))"

lemma not_isl_Inr: "\<not> isl r \<Longrightarrow> \<exists>x. r = Inr x"
  by (cases r) auto

text \<open>Evaluation of property reads on an object given by its property list.\<close>

lemma own_Nil [simp]: "own k (JObj []) = JUndef"
  by simp

lemma own_Cons [simp]: "own k (JObj (p # ps)) = (if k = fst p then snd p else own k (JObj ps))"
  by (cases p) simp

declare own.simps(1) [simp del]

end
