(* ===== verification/State_Codec.thy ===== *)
theory State_Codec
  imports Js_Prelude
begin

text \<open>
  Canonical JSON and digests: \<open>packages/subagents/state/codec.mjs\<close> and the canonicalisation
  and digest of \<open>packages/subagents/domain/shared.mjs\<close> (the plan compiler and the goal
  authority carry copies of the same two functions). \<open>JSON.stringify\<close> is written out on
  values; \<open>JSON.parse(JSON.stringify(v))\<close> is the value whose text was written (\<open>json_view\<close>),
  and on a canonical value that is the value itself. The lemmas show that canonicalisation is
  idempotent, does not depend on the order of an object's properties, and keeps every property.
\<close>

section \<open>JSON text\<close>

definition hex_digit :: "nat \<Rightarrow> char" where
  "hex_digit n = ''0123456789abcdef'' ! n"

definition json_char :: "char \<Rightarrow> string" where
  "json_char c = (let n = (of_char c :: nat) in
     if n = 34 then [CHR 0x5C, CHR 0x22]
     else if n = 92 then [CHR 0x5C, CHR 0x5C]
     else if n = 8 then [CHR 0x5C, CHR ''b'']
     else if n = 9 then [CHR 0x5C, CHR ''t'']
     else if n = 10 then [CHR 0x5C, CHR ''n'']
     else if n = 12 then [CHR 0x5C, CHR ''f'']
     else if n = 13 then [CHR 0x5C, CHR ''r'']
     else if n < 32 then [CHR 0x5C] @ ''u00'' @ [hex_digit (n div 16), hex_digit (n mod 16)]
     else [c])"

definition json_quote :: "string \<Rightarrow> string" where
  "json_quote s = CHR 0x22 # concat (map json_char s) @ [CHR 0x22]"

fun stringify :: "platform \<Rightarrow> jsval \<Rightarrow> string option"
  and stringify_items :: "platform \<Rightarrow> jsval list \<Rightarrow> string list"
  and stringify_members :: "platform \<Rightarrow> (string \<times> jsval) list \<Rightarrow> string list" where
  "stringify P JUndef = None"
| "stringify P JNull = Some ''null''"
| "stringify P (JBool b) = Some (if b then ''true'' else ''false'')"
| "stringify P (JNum n) = Some (if num_isFinite n then num_text P n else ''null'')"
| "stringify P (JStr s) = Some (json_quote s)"
| "stringify P (JArr xs) = Some (''['' @ join_on '','' (stringify_items P xs) @ '']'')"
| "stringify P (JObj ps) = Some (''{'' @ join_on '','' (stringify_members P ps) @ ''}'')"
| "stringify_items P [] = []"
| "stringify_items P (x # xs) =
     (case stringify P x of None \<Rightarrow> ''null'' | Some t \<Rightarrow> t) # stringify_items P xs"
| "stringify_members P [] = []"
| "stringify_members P ((k, x) # ps) =
     (case stringify P x of None \<Rightarrow> stringify_members P ps
      | Some t \<Rightarrow> (json_quote k @ '':'' @ t) # stringify_members P ps)"

text \<open>The value read back from the text of a value: \<open>JSON.parse(JSON.stringify(v))\<close>.\<close>

fun json_view :: "jsval \<Rightarrow> jsval"
  and json_view_members :: "(string \<times> jsval) list \<Rightarrow> (string \<times> jsval) list" where
  "json_view (JNum n) = (if num_isFinite n then JNum n else JNull)"
| "json_view (JArr xs) = JArr (map (\<lambda>x. if x = JUndef then JNull else json_view x) xs)"
| "json_view (JObj ps) = JObj (json_view_members ps)"
| "json_view v = v"
| "json_view_members [] = []"
| "json_view_members ((k, x) # ps) =
     (if x = JUndef then json_view_members ps else (k, json_view x) # json_view_members ps)"

section \<open>codec.mjs\<close>

fun canonicalValue :: "jsval \<Rightarrow> jsval res"
  and canonicalValues :: "jsval list \<Rightarrow> jsval list res"
  and canonicalMembers :: "(string \<times> jsval) list \<Rightarrow> (string \<times> jsval) list res" where
  "canonicalValue JUndef = Inl TypeError"
| "canonicalValue JNull = Inr JNull"
| "canonicalValue (JBool b) = Inr (JBool b)"
| "canonicalValue (JNum n) = (if \<not> num_isFinite n then Inl TypeError else Inr (JNum n))"
| "canonicalValue (JStr s) = Inr (JStr s)"
| "canonicalValue (JArr xs) = rbind (canonicalValues xs) (\<lambda>ys. Inr (JArr ys))"
| "canonicalValue (JObj ps) = rbind (canonicalMembers ps) (\<lambda>qs. Inr (JObj (sort_key fst qs)))"
| "canonicalValues [] = Inr []"
| "canonicalValues (x # xs) =
     rbind (canonicalValue x) (\<lambda>y. rbind (canonicalValues xs) (\<lambda>ys. Inr (y # ys)))"
| "canonicalMembers [] = Inr []"
| "canonicalMembers ((k, x) # ps) =
     rbind (canonicalValue x) (\<lambda>y. rbind (canonicalMembers ps) (\<lambda>qs. Inr ((k, y) # qs)))"

definition json_text :: "platform \<Rightarrow> jsval \<Rightarrow> string res" where
  "json_text P v = (case stringify P v of None \<Rightarrow> Inl TypeError | Some t \<Rightarrow> Inr t)"

definition canonicalJson :: "platform \<Rightarrow> jsval \<Rightarrow> string res" where
  "canonicalJson P v = rbind (canonicalValue v) (json_text P)"

definition sha256_text :: "platform \<Rightarrow> string \<Rightarrow> string" where
  "sha256_text P s = ''sha256:'' @ sha256_hex P s"

definition sha256 :: "platform \<Rightarrow> jsval \<Rightarrow> string res" where
  "sha256 P v = (case v of JStr s \<Rightarrow> Inr (sha256_text P s)
     | _ \<Rightarrow> rbind (canonicalJson P v) (\<lambda>t. Inr (sha256_text P t)))"

definition jsonClone :: "jsval \<Rightarrow> jsval res" where
  "jsonClone v = canonicalValue v"

definition assertPlainJson :: "jsval \<Rightarrow> jsval res" where
  "assertPlainJson v = (case jsonClone v of Inl e \<Rightarrow> Inl TypeError | Inr w \<Rightarrow> Inr w)"

definition withoutKey :: "jsval \<Rightarrow> string \<Rightarrow> jsval" where
  "withoutKey v k = JObj (filter (\<lambda>(name, _). name \<noteq> k) (entries v))"

section \<open>domain/shared.mjs: canonicalize, digestValue\<close>

fun canonicalize :: "jsval \<Rightarrow> jsval"
  and canonicalize_members :: "(string \<times> jsval) list \<Rightarrow> (string \<times> jsval) list" where
  "canonicalize (JArr xs) = JArr (map canonicalize xs)"
| "canonicalize (JObj ps) = JObj (sort_key fst (canonicalize_members ps))"
| "canonicalize v = v"
| "canonicalize_members [] = []"
| "canonicalize_members ((k, x) # ps) = (k, canonicalize x) # canonicalize_members ps"

definition digestValue :: "platform \<Rightarrow> jsval \<Rightarrow> string res" where
  "digestValue P v = (case v of JStr s \<Rightarrow> Inr (sha256_text P s)
     | _ \<Rightarrow> rbind (json_text P (canonicalize v)) (\<lambda>t. Inr (sha256_text P t)))"

section \<open>Evaluation\<close>

text \<open>The same text built from its end, for the evaluation of examples.\<close>

fun chars_onto :: "string \<Rightarrow> string \<Rightarrow> string" where
  "chars_onto [] acc = acc"
| "chars_onto (c # cs) acc = json_char c @ chars_onto cs acc"

definition quote_onto :: "string \<Rightarrow> string \<Rightarrow> string" where
  "quote_onto s acc = CHR 0x22 # chars_onto s (CHR 0x22 # acc)"

fun text_onto :: "platform \<Rightarrow> jsval \<Rightarrow> string \<Rightarrow> string"
  and items_onto :: "platform \<Rightarrow> bool \<Rightarrow> jsval list \<Rightarrow> string \<Rightarrow> string"
  and members_onto :: "platform \<Rightarrow> bool \<Rightarrow> (string \<times> jsval) list \<Rightarrow> string \<Rightarrow> string" where
  "text_onto P JUndef acc = ''null'' @ acc"
| "text_onto P JNull acc = ''null'' @ acc"
| "text_onto P (JBool b) acc = (if b then ''true'' else ''false'') @ acc"
| "text_onto P (JNum n) acc = (if num_isFinite n then num_text P n else ''null'') @ acc"
| "text_onto P (JStr s) acc = quote_onto s acc"
| "text_onto P (JArr xs) acc = CHR ''['' # items_onto P False xs (CHR '']'' # acc)"
| "text_onto P (JObj ps) acc = CHR ''{'' # members_onto P False ps (CHR ''}'' # acc)"
| "items_onto P sep [] acc = acc"
| "items_onto P sep (x # xs) acc = (if sep then [CHR '','']  else []) @ text_onto P x (items_onto P True xs acc)"
| "members_onto P sep [] acc = acc"
| "members_onto P sep ((k, x) # ps) acc =
     (if x = JUndef then members_onto P sep ps acc
      else (if sep then [CHR '',''] else []) @ quote_onto k (CHR '':'' # text_onto P x (members_onto P True ps acc)))"

lemma quote_onto: "quote_onto s acc = json_quote s @ acc"
proof -
  have "chars_onto s acc = concat (map json_char s) @ acc" for acc by (induction s) simp_all
  then show ?thesis by (simp add: quote_onto_def json_quote_def)
qed

lemma join_on_Cons: "join_on s (x # xs) = x @ (if xs = [] then [] else s @ join_on s xs)"
  by (cases xs) simp_all

lemma text_onto:
  "text_onto P v acc = (case stringify P v of None \<Rightarrow> ''null'' | Some t \<Rightarrow> t) @ acc"
  "items_onto P sep xs acc = (if sep \<and> xs \<noteq> [] then '','' else []) @ join_on '','' (stringify_items P xs) @ acc"
  "members_onto P sep ps acc = (if sep \<and> stringify_members P ps \<noteq> [] then '','' else []) @ join_on '','' (stringify_members P ps) @ acc"
proof (induction P v acc and P sep xs acc and P sep ps acc rule: text_onto_items_onto_members_onto.induct)
  case (9 P sep x xs acc)
  have "stringify_items P xs = [] \<longleftrightarrow> xs = []" by (cases xs) simp_all
  then show ?case using 9 by (simp add: join_on_Cons)
next
  case (11 P sep k x ps acc)
  then show ?case
  proof (cases "x = JUndef")
    case False
    then obtain t where "stringify P x = Some t" by (cases x) auto
    then show ?thesis using 11 False by (simp add: join_on_Cons quote_onto)
  qed simp
qed (auto simp: quote_onto)

lemma stringify_code [code]: "stringify P v = (case v of JUndef \<Rightarrow> None | _ \<Rightarrow> Some (text_onto P v []))"
  using text_onto(1) [of P v "[]"] by (cases v) simp_all

definition control_text :: "char \<Rightarrow> string" where
  "control_text c = (if c = CHR 0x08 then [CHR 0x5C, CHR ''b'']
     else if c = CHR 0x09 then [CHR 0x5C, CHR ''t'']
     else if c = CHR 0x0A then [CHR 0x5C, CHR ''n'']
     else if c = CHR 0x0C then [CHR 0x5C, CHR ''f'']
     else if c = CHR 0x0D then [CHR 0x5C, CHR ''r'']
     else [CHR 0x5C] @ ''u00'' @ [hex_digit (of_char c div 16), hex_digit (of_char c mod 16)])"

lemma control_char: "(of_char c :: nat) < 32 \<longleftrightarrow> \<not> digit5 c \<and> \<not> digit6 c \<and> \<not> digit7 c"
  by (cases c) (auto simp: of_bool_def)

lemma json_char_split: "json_char c = (if c = CHR 0x22 then [CHR 0x5C, CHR 0x22] else if c = CHR 0x5C then [CHR 0x5C, CHR 0x5C]
     else if digit5 c \<or> digit6 c \<or> digit7 c then [c] else control_text c)"
proof -
  have e: "(of_char c = (of_char d :: nat)) \<longleftrightarrow> c = d" for d by simp
  show ?thesis
    using e [of "CHR 0x22"] e [of "CHR 0x5C"] e [of "CHR 0x08"] e [of "CHR 0x09"] e [of "CHR 0x0A"] e [of "CHR 0x0C"] e [of "CHR 0x0D"] control_char [of c]
    by (auto simp: json_char_def control_text_def Let_def)
qed

lemma json_char_code [code]: "json_char (Char b0 b1 b2 b3 b4 b5 b6 b7) = (
     if b7 then [Char b0 b1 b2 b3 b4 b5 b6 b7]
     else if b6 then (if b5 then [Char b0 b1 b2 b3 b4 b5 b6 b7]
       else if b4 then (if b3 \<and> b2 \<and> \<not> b1 \<and> \<not> b0 then [CHR 0x5C, CHR 0x5C] else [Char b0 b1 b2 b3 b4 b5 b6 b7]) else [Char b0 b1 b2 b3 b4 b5 b6 b7])
     else if b5 then (if b4 then [Char b0 b1 b2 b3 b4 b5 b6 b7]
       else if b1 \<and> \<not> b0 \<and> \<not> b2 \<and> \<not> b3 then [CHR 0x5C, CHR 0x22] else [Char b0 b1 b2 b3 b4 b5 b6 b7])
     else control_text (Char b0 b1 b2 b3 b4 b5 b6 b7))"
  unfolding json_char_split by (cases b7; cases b6; cases b5; cases b4) simp_all

section \<open>Lemmas\<close>

lemma canonicalMembers_keys: "canonicalMembers ps = Inr qs \<Longrightarrow> map fst qs = map fst ps"
  by (induction ps arbitrary: qs) (auto simp: res_simps)

lemma canonicalMembers_lookup:
  assumes "canonicalMembers ps = Inr qs"
  shows "map_of qs k = (case map_of ps k of None \<Rightarrow> None
           | Some x \<Rightarrow> (case canonicalValue x of Inl e \<Rightarrow> None | Inr y \<Rightarrow> Some y))"
  using assms by (induction ps arbitrary: qs) (auto simp: res_simps)

lemma canonicalMembers_Cons: "canonicalMembers (p # ps) =
    rbind (canonicalValue (snd p)) (\<lambda>y. rbind (canonicalMembers ps) (\<lambda>qs. Inr ((fst p, y) # qs)))"
  by (cases p) simp

lemma canonicalMembers_insort:
  "canonicalMembers (insort_key fst p ps) =
     rbind (canonicalValue (snd p)) (\<lambda>y. rbind (canonicalMembers ps) (\<lambda>qs. Inr (insort_key fst (fst p, y) qs)))"
  if "canonicalMembers ps = Inr qs0" "canonicalValue (snd p) = Inr y0"
  using that
proof (induction ps arbitrary: qs0)
  case Nil
  then show ?case by (simp add: canonicalMembers_Cons)
next
  case (Cons q ps)
  from Cons.prems obtain z zs where z: "canonicalValue (snd q) = Inr z" "canonicalMembers ps = Inr zs"
    and qs0: "qs0 = (fst q, z) # zs"
    by (auto simp: canonicalMembers_Cons res_simps)
  show ?case using Cons.IH [OF z(2) Cons.prems(2)] Cons.prems(2) z
    by (auto simp: canonicalMembers_Cons)
qed

lemma canonicalMembers_sort:
  "canonicalMembers ps = Inr qs \<Longrightarrow> canonicalMembers (sort_key fst ps) = Inr (sort_key fst qs)"
proof (induction ps arbitrary: qs)
  case (Cons p ps)
  from Cons.prems obtain z zs where z: "canonicalValue (snd p) = Inr z" "canonicalMembers ps = Inr zs"
    and qs: "qs = (fst p, z) # zs"
    by (auto simp: canonicalMembers_Cons res_simps)
  show ?case using Cons.IH [OF z(2)] canonicalMembers_insort [OF Cons.IH [OF z(2)] z(1)] z(1)
    by (simp add: qs)
qed simp

lemma sort_key_sorted: "sorted (map f xs) \<Longrightarrow> sort_key f xs = xs"
  by (induction xs) (auto simp: insort_is_Cons)

lemma canonicalMembers_ok:
  "canonicalMembers ps = Inr qs \<Longrightarrow> (k, x) \<in> set ps \<Longrightarrow> \<exists>y. canonicalValue x = Inr y"
  by (induction ps arbitrary: qs) (auto simp: res_simps)

lemma canonicalMembers_set:
  "canonicalMembers ps = Inr qs \<Longrightarrow> set qs = {(k, y). \<exists>x. (k, x) \<in> set ps \<and> canonicalValue x = Inr y}"
  by (induction ps arbitrary: qs) (auto simp: res_simps, blast+)

text \<open>A canonical value is its own canonical form.\<close>

lemma canonicalValue_idem_aux:
  "\<forall>w. canonicalValue v = Inr w \<longrightarrow> canonicalValue w = Inr w"
  "\<forall>ws. canonicalValues vs = Inr ws \<longrightarrow> canonicalValues ws = Inr ws"
  "\<forall>qs. canonicalMembers ps = Inr qs \<longrightarrow> canonicalMembers qs = Inr qs"
proof (induction v and vs and ps rule: canonicalValue_canonicalValues_canonicalMembers.induct)
  case (7 ps)
  show ?case
  proof (intro allI impI)
    fix w assume "canonicalValue (JObj ps) = Inr w"
    then obtain qs where qs: "canonicalMembers ps = Inr qs" "w = JObj (sort_key fst qs)"
      by (auto simp: res_simps)
    then have "canonicalMembers qs = Inr qs" using 7 by auto
    from canonicalMembers_sort [OF this] show "canonicalValue w = Inr w"
      by (simp add: qs(2) sort_key_sorted)
  qed
qed (auto simp: res_simps)

lemmas canonicalValue_idem = canonicalValue_idem_aux(1) [rule_format]

lemma canonicalValue_isObj: "canonicalValue v = Inr w \<Longrightarrow> isObj w = isObj v"
  by (cases v) (auto simp: res_simps)

lemma map_of_sort_key_fst:
  assumes "distinct (map fst ps)"
  shows "map_of (sort_key fst ps) k = map_of ps k"
proof -
  have "distinct (map fst (sort_key fst ps))" using assms by (simp add: distinct_map)
  then have "map_of (sort_key fst ps) k = Some y \<longleftrightarrow> map_of ps k = Some y" for y
    using assms by (simp add: map_of_eq_Some_iff)
  then show ?thesis by (metis not_Some_eq)
qed

text \<open>A canonical object has the properties of its source, canonicalised.\<close>

lemma canonicalValue_own:
  assumes "canonicalValue (JObj ps) = Inr w" "distinct (map fst ps)" "own k (JObj ps) \<noteq> JUndef"
  shows "canonicalValue (own k (JObj ps)) = Inr (own k w)"
proof -
  from assms(1) obtain qs where qs: "canonicalMembers ps = Inr qs" "w = JObj (sort_key fst qs)"
    by (auto simp: res_simps)
  have d: "distinct (map fst qs)" using canonicalMembers_keys [OF qs(1)] assms(2) by simp
  from assms(3) obtain x where x: "map_of ps k = Some x" by (auto simp: own.simps(1) split: option.splits)
  have "\<exists>y. canonicalValue x = Inr y" using canonicalMembers_ok [OF qs(1) map_of_SomeD [OF x]] .
  then show ?thesis
    using canonicalMembers_lookup [OF qs(1), of k] x
    by (auto simp: qs(2) map_of_sort_key_fst [OF d] own.simps(1))
qed

lemma canonicalMembers_swap:
  assumes "canonicalMembers ps = Inr qs" "distinct (map fst ps)" "set ps' = set ps" "distinct (map fst ps')"
  shows "\<exists>qs'. canonicalMembers ps' = Inr qs' \<and> set qs' = set qs \<and> distinct (map fst qs')"
proof -
  have "\<forall>(k, x) \<in> set ps'. \<exists>y. canonicalValue x = Inr y"
    using assms(3) canonicalMembers_ok [OF assms(1)] by auto
  then obtain qs' where qs': "canonicalMembers ps' = Inr qs'"
    by (induction ps') (auto simp: res_simps)
  show ?thesis
    using qs' canonicalMembers_set [OF qs'] canonicalMembers_set [OF assms(1)] assms(3,4)
      canonicalMembers_keys [OF qs']
    by (intro exI [of _ qs']) simp
qed

text \<open>The canonical form does not depend on the order in which properties were set.\<close>

lemma canonicalValue_order:
  assumes "set ps' = set ps" "distinct (map fst ps)" "distinct (map fst ps')"
    and "canonicalValue (JObj ps) = Inr w"
  shows "canonicalValue (JObj ps') = Inr w"
proof -
  from assms(4) obtain qs where qs: "canonicalMembers ps = Inr qs" "w = JObj (sort_key fst qs)"
    by (auto simp: res_simps)
  from canonicalMembers_swap [OF qs(1) assms(2,1,3)] obtain qs'
    where qs': "canonicalMembers ps' = Inr qs'" "set qs' = set qs" "distinct (map fst qs')" by blast
  have d: "distinct (map fst qs)" using canonicalMembers_keys [OF qs(1)] assms(2) by simp
  have "sort_key fst qs' = sort_key fst qs"
  proof (rule map_sorted_distinct_set_unique [of fst])
    show "inj_on fst (set (sort_key fst qs') \<union> set (sort_key fst qs))"
      using d qs'(2) by (simp add: distinct_map)
    show "sorted (map fst (sort_key fst qs'))" "sorted (map fst (sort_key fst qs))" by simp_all
    show "distinct (map fst (sort_key fst qs'))" "distinct (map fst (sort_key fst qs))"
      using qs'(3) d by (simp_all add: distinct_map)
    show "set (sort_key fst qs') = set (sort_key fst qs)" using qs'(2) by simp
  qed
  then show ?thesis by (simp add: qs'(1) qs(2))
qed

text \<open>Reading a property commutes with the JSON copy.\<close>

lemma own_json_view:
  "distinct (map fst ps) \<Longrightarrow> own k (json_view (JObj ps)) = json_view (own k (JObj ps))"
proof (induction ps)
  case (Cons p ps)
  obtain j x where p: "p = (j, x)" by (cases p)
  have "map_of (json_view_members qs) j = None" if "j \<notin> fst ` set qs" for qs
    using that by (induction qs) auto
  moreover have "map_of ps j = None" using Cons.prems p by (simp add: map_of_eq_None_iff)
  ultimately show ?case using Cons by (auto simp: p own.simps(1))
qed simp

lemma isObj_json_view [simp]: "isObj (json_view v) = isObj v"
  by (cases v) auto

lemma json_view_simps [simp]:
  "json_view v = JStr s \<longleftrightarrow> v = JStr s" "json_view v = JBool b \<longleftrightarrow> v = JBool b"
  "json_view v = JUndef \<longleftrightarrow> v = JUndef"
  by (cases v; simp)+

lemma json_view_strings [simp]:
  "map ((\<lambda>x. if x = JUndef then JNull else json_view x) \<circ> JStr) ss = map JStr ss"
  by simp

lemma stringify_canonical: "canonicalValue v = Inr w \<Longrightarrow> \<exists>t. stringify P w = Some t"
  by (cases v) (auto simp: res_simps)

lemma canonicalJson_ok: "canonicalValue v = Inr w \<Longrightarrow> \<exists>t. canonicalJson P v = Inr t"
  using stringify_canonical [of v w P] by (auto simp: canonicalJson_def json_text_def)

lemma withoutKey_own: "isObj v \<Longrightarrow> own j (withoutKey v k) = (if j = k then JUndef else own j v)"
proof (cases v)
  case (JObj ps)
  have "map_of (filter (\<lambda>(n, _). n \<noteq> k) ps) j = (if j = k then None else map_of ps j)"
    by (induction ps) auto
  then show ?thesis by (simp add: withoutKey_def JObj own.simps(1))
qed auto

end
