(* ===== verification/Domain_Shared.thy ===== *)
theory Domain_Shared
  imports State_Codec
begin

text \<open>
  \<open>packages/subagents/domain/shared.mjs\<close> and \<open>errors.mjs\<close>: the argument checks every domain
  constructor uses, contained relative paths, redaction and the bounded projection of values
  that go into receipts, and the error values. The lemmas say what a successful check
  guarantees, that a contained path has no empty and no parent part, and that redaction
  leaves nothing under a sensitive name and bounds depth, width and string length.
\<close>

section \<open>Checks\<close>

definition assertRecord :: "jsval \<Rightarrow> jsval res" where
  "assertRecord v = (if \<not> isObj v then Inl TypeError else Inr v)"

definition assertString :: "nat \<Rightarrow> nat \<Rightarrow> jsval \<Rightarrow> string res" where
  "assertString minimum maximum v = (case v of
     JStr s \<Rightarrow> (if length s < minimum \<or> length s > maximum \<or> CHR 0x00 \<in> set s then Inl TypeError else Inr s)
   | _ \<Rightarrow> Inl TypeError)"

definition assertDomainId :: "jsval \<Rightarrow> string res" where
  "assertDomainId v = rbind (assertString 1 128 v) (\<lambda>s. if \<not> DOMAIN_ID s then Inl TypeError else Inr s)"

definition assertOpaqueId :: "jsval \<Rightarrow> string res" where
  "assertOpaqueId v = rbind (assertString 1 512 v) (\<lambda>s.
     if CHR 0x0D \<in> set s \<or> CHR 0x0A \<in> set s then Inl TypeError else Inr s)"

definition assertSha256 :: "jsval \<Rightarrow> string res" where
  "assertSha256 v = (case v of JStr s \<Rightarrow> (if \<not> SHA256 s then Inl TypeError else Inr s) | _ \<Rightarrow> Inl TypeError)"

definition assertBoolean :: "jsval \<Rightarrow> bool res" where
  "assertBoolean v = (case v of JBool b \<Rightarrow> Inr b | _ \<Rightarrow> Inl TypeError)"

definition assertSafeInteger :: "int \<Rightarrow> int \<Rightarrow> jsval \<Rightarrow> int res" where
  "assertSafeInteger minimum maximum v = (case v of
     JNum (Fin a) \<Rightarrow> (if \<not> num_isSafeInteger (Fin a) \<or> a < of_int minimum \<or> a > of_int maximum
                     then Inl TypeError else Inr \<lfloor>a\<rfloor>)
   | _ \<Rightarrow> Inl TypeError)"

definition normalizeStringSet :: "bool \<Rightarrow> nat \<Rightarrow> jsval \<Rightarrow> string list res" where
  "normalizeStringSet idset maximumItems v = (case v of
     JArr xs \<Rightarrow>
       (if length xs > maximumItems then Inl TypeError
        else rbind (mapR (if idset then assertDomainId else assertString 1 256) xs) (\<lambda>output.
          if \<not> distinct output then Inl TypeError else Inr (sort output)))
   | _ \<Rightarrow> Inl TypeError)"

definition assertRelativePath :: "jsval \<Rightarrow> string res" where
  "assertRelativePath v = rbind (assertString 1 1024 v) (\<lambda>s.
     let normalized = map (\<lambda>c. if c = CHR 0x5C then CHR ''/'' else c) s;
         parts = split_on (CHR ''/'') normalized
     in if prefix ''/'' normalized
           \<or> (length normalized \<ge> 3 \<and> is_alpha (normalized ! 0) \<and> normalized ! 1 = CHR '':''
               \<and> normalized ! 2 = CHR ''/'')
           \<or> ''..'' \<in> set parts \<or> [] \<in> set parts
        then Inl TypeError else Inr normalized)"

text \<open>\<open>immutable\<close> freezes a JSON copy; the copy is what matters to readers.\<close>

definition immutable :: "jsval \<Rightarrow> jsval" where
  "immutable v = json_view v"

text \<open>
  \<open>immutable({ ...value, hashKey: digestValue(value) })\<close>: how every domain constructor seals
  the value it returns.
\<close>

definition sealed :: "platform \<Rightarrow> (string \<times> jsval) list \<Rightarrow> string \<Rightarrow> jsval res" where
  "sealed P value hashKey = rbind (digestValue P (JObj value)) (\<lambda>h.
     Inr (immutable (JObj (value @ [(hashKey, JStr h)]))))"

section \<open>Redaction\<close>

definition ascii_lower :: "char \<Rightarrow> char" where
  "ascii_lower c = (let n = (of_char c :: nat) in if 65 \<le> n \<and> n \<le> 90 then char_of (n + 32) else c)"

definition SENSITIVE_KEY :: "string \<Rightarrow> bool" where
  "SENSITIVE_KEY k \<longleftrightarrow> (\<exists>w \<in> set [''apikey'', ''api-key'', ''api_key'', ''authorization'', ''credential'',
      ''password'', ''prompt'', ''reasoning'', ''secret'', ''token'']. sublist w (map ascii_lower k))"

fun redacted :: "nat \<Rightarrow> jsval \<Rightarrow> jsval"
  and redacted_items :: "nat \<Rightarrow> jsval list \<Rightarrow> jsval list"
  and redacted_members :: "nat \<Rightarrow> (string \<times> jsval) list \<Rightarrow> (string \<times> jsval) list" where
  "redacted depth v = (if depth > 6 then JStr ''[depth-limit]'' else (case v of
       JStr s \<Rightarrow> JStr (take 512 s)
     | JNum n \<Rightarrow> (if num_isFinite n then JNum n else JNull)
     | JBool b \<Rightarrow> JBool b
     | JNull \<Rightarrow> JNull
     | JArr xs \<Rightarrow> JArr (take 32 (redacted_items (depth + 1) xs))
     | JUndef \<Rightarrow> JStr ''undefined''
     | JObj ps \<Rightarrow> JObj (take 64 (sort_key fst (redacted_members (depth + 1) ps)))))"
| "redacted_items depth [] = []"
| "redacted_items depth (x # xs) = redacted depth x # redacted_items depth xs"
| "redacted_members depth [] = []"
| "redacted_members depth ((k, x) # ps) =
     (k, if SENSITIVE_KEY k then JStr ''[redacted]'' else redacted depth x) # redacted_members depth ps"

declare redacted.simps [simp del]

definition redactDetails :: "jsval \<Rightarrow> jsval" where
  "redactDetails v = immutable (redacted 0 v)"

definition utf8_length :: "string \<Rightarrow> nat" where
  "utf8_length s = sum_list (map (\<lambda>c. if (of_char c :: nat) < 128 then 1 else 2) s)"

definition boundedProjection :: "platform \<Rightarrow> int \<Rightarrow> jsval \<Rightarrow> jsval res" where
  "boundedProjection P maximumBytes v =
     rbind (assertSafeInteger 256 (1024 * 1024) (jint maximumBytes)) (\<lambda>_.
     let projected = redactDetails v in
     rbind (json_text P projected) (\<lambda>serialized.
     if int (utf8_length serialized) \<le> maximumBytes then Inr projected
     else rbind (digestValue P (JStr serialized)) (\<lambda>d.
       Inr (immutable (JObj [(''truncated'', JBool True), (''digest'', JStr d),
                             (''originalBytes'', jnat (utf8_length serialized))])))))"

section \<open>errors.mjs\<close>

definition SUBAGENT_ERROR_CATEGORIES :: "string list" where
  "SUBAGENT_ERROR_CATEGORIES = [''validation'', ''capability'', ''policy'', ''transport'', ''backend'',
     ''timeout'', ''cancelled'', ''correlation'', ''unavailable'', ''internal'']"

record subagents_error =
  se_message :: string
  se_code :: string
  se_category :: string
  se_retryable :: bool
  se_details :: "jsval option"

definition new_SubagentsError :: "string \<Rightarrow> string \<Rightarrow> string \<Rightarrow> jsval \<Rightarrow> jsval \<Rightarrow> subagents_error" where
  "new_SubagentsError message code category retryable details =
     \<lparr> se_message = message, se_code = code,
       se_category = (if category \<in> set SUBAGENT_ERROR_CATEGORIES then category else ''internal''),
       se_retryable = js_eq retryable (JBool True),
       se_details = (if details = JUndef then None else Some (redactDetails details)) \<rparr>"

text \<open>An error reaching the runtime: one of its own, or a foreign one seen through name and code.\<close>

datatype any_error = OwnError subagents_error | ForeignError jsval jsval

definition normalizeSubagentsError :: "any_error \<Rightarrow> subagents_error" where
  "normalizeSubagentsError e = (case e of OwnError x \<Rightarrow> x
     | ForeignError name code \<Rightarrow> new_SubagentsError ''Subagent operation failed'' ''SUBAGENTS_ERROR''
         ''internal'' (JBool False) (JObj [(''upstreamName'', name), (''upstreamCode'', code)]))"

definition errorReceiptProjection :: "any_error \<Rightarrow> jsval" where
  "errorReceiptProjection e = (let n = normalizeSubagentsError e in
     JObj ([(''code'', JStr (se_code n)), (''category'', JStr (se_category n)),
            (''retryable'', JBool (se_retryable n)), (''message'', JStr (take 512 (se_message n)))]
           @ (case se_details n of None \<Rightarrow> [] | Some d \<Rightarrow> [(''details'', d)])))"

text \<open>\<open>fail(message, code, ...)\<close> of the domain throws a \<open>SubagentsError\<close>.\<close>

definition failSub :: "string \<Rightarrow> 'a res" where
  "failSub code = Inl (Thrown ''SubagentsError'' code)"

section \<open>What the checks guarantee\<close>

lemma failSub_neq_Inr [simp]: "failSub c = Inr x \<longleftrightarrow> False"
  by (simp add: failSub_def)

lemma if_failSub_eq_Inr [simp]: "((if c then failSub e else r) = Inr y) \<longleftrightarrow> \<not> c \<and> r = Inr y"
  by simp

lemmas res_inv = rbind_eq_Inr option_throw_eq_Inr if_throw_eq_Inr if_failSub_eq_Inr arr_of_Inr prop_of_Inr Let_def

lemma assertRecord_Inr [simp]: "assertRecord v = Inr w \<longleftrightarrow> isObj v \<and> w = v"
  by (auto simp: assertRecord_def)

lemma assertString_Inr [simp]:
  "assertString lo hi v = Inr s \<longleftrightarrow> v = JStr s \<and> lo \<le> length s \<and> length s \<le> hi \<and> CHR 0x00 \<notin> set s"
  by (cases v) (auto simp: assertString_def)

lemma assertDomainId_Inr [simp]:
  "assertDomainId v = Inr s \<longleftrightarrow> v = JStr s \<and> length s \<le> 128 \<and> CHR 0x00 \<notin> set s \<and> DOMAIN_ID s"
  by (cases s) (auto simp: assertDomainId_def res_simps DOMAIN_ID_def)

lemma assertOpaqueId_Inr:
  "assertOpaqueId v = Inr s \<longleftrightarrow> v = JStr s \<and> 1 \<le> length s \<and> length s \<le> 512
     \<and> set s \<inter> {CHR 0x00, CHR 0x0A, CHR 0x0D} = {}"
  by (auto simp: assertOpaqueId_def res_simps)

lemma assertSha256_Inr [simp]: "assertSha256 v = Inr s \<longleftrightarrow> v = JStr s \<and> SHA256 s"
  by (cases v) (auto simp: assertSha256_def)

lemma assertBoolean_Inr [simp]: "assertBoolean v = Inr b \<longleftrightarrow> v = JBool b"
  by (cases v) (auto simp: assertBoolean_def)

lemma assertSafeInteger_Inr:
  "assertSafeInteger lo hi v = Inr n \<longleftrightarrow> v = jint n \<and> \<bar>n\<bar> \<le> MAX_SAFE_INTEGER \<and> lo \<le> n \<and> n \<le> hi"
  by (cases v) (auto simp: assertSafeInteger_def split: jsnum.splits)

lemma normalizeStringSet_Inr:
  assumes "normalizeStringSet i m v = Inr ys"
  shows "distinct ys \<and> sorted ys \<and> length ys \<le> m \<and> (\<exists>xs. v = JArr (map JStr xs) \<and> set ys = set xs)"
proof -
  from assms obtain vs outs where v: "v = JArr vs" "length vs \<le> m"
    and out: "mapR (if i then assertDomainId else assertString 1 256) vs = Inr outs"
    and ys: "distinct outs" "ys = sort outs"
    by (cases v) (auto simp: normalizeStringSet_def res_simps)
  have str: "x = JStr y" if "(if i then assertDomainId else assertString 1 256) x = Inr y" for x y
    using that by (cases i) auto
  have "list_all2 (\<lambda>x y. x = JStr y) vs outs"
    using out unfolding mapR_eq_Inr by (rule list_all2_mono) (rule str)
  then have "vs = map JStr outs"
    by (simp only: list_all2_map_eq)
  then have "v = JArr (map JStr outs) \<and> set ys = set outs" using v ys by simp
  then have "\<exists>xs. v = JArr (map JStr xs) \<and> set ys = set xs" by blast
  moreover have "distinct ys" "sorted ys" "length ys \<le> m" using v ys mapR_length [OF out] by simp_all
  ultimately show ?thesis by blast
qed

lemma sealed_own:
  assumes "sealed P value hk = Inr t" "distinct (map fst value)" "hk \<notin> set (map fst value)" "k \<noteq> hk"
  shows "own k t = json_view (own k (JObj value))"
proof -
  from assms(1) obtain h where t: "t = json_view (JObj (value @ [(hk, JStr h)]))"
    by (auto simp: sealed_def immutable_def res_simps)
  have "own k t = json_view (own k (JObj (value @ [(hk, JStr h)])))"
    unfolding t by (rule own_json_view) (use assms(2,3) in auto)
  also have "own k (JObj (value @ [(hk, JStr h)])) = own k (JObj value)"
    using assms(4) own_append [of k "value" "[(hk, JStr h)]"]
    by (cases "k \<in> fst ` set value") (auto simp: own.simps(1) map_of_eq_None_iff [symmetric] split: option.splits)
  finally show ?thesis .
qed

lemma sealed_hash:
  assumes "sealed P value hk = Inr t" "distinct (map fst value)" "hk \<notin> set (map fst value)"
  shows "\<exists>h. own hk t = JStr h \<and> digestValue P (JObj value) = Inr h"
proof -
  from assms(1) obtain h where h: "digestValue P (JObj value) = Inr h"
    and t: "t = json_view (JObj (value @ [(hk, JStr h)]))"
    by (auto simp: sealed_def immutable_def res_simps)
  have "own hk t = json_view (own hk (JObj (value @ [(hk, JStr h)])))"
    unfolding t by (rule own_json_view) (use assms(2,3) in auto)
  also have "own hk (JObj (value @ [(hk, JStr h)])) = JStr h"
    using assms(3) own_append(2) [of hk "value" "[(hk, JStr h)]"] by auto
  finally show ?thesis using h by simp
qed

lemma sealed_isObj: "sealed P value hk = Inr t \<Longrightarrow> isObj t"
  by (auto simp: sealed_def immutable_def res_simps)

text \<open>A contained relative path: not absolute, no drive, no empty and no parent part.\<close>

lemma assertRelativePath_Inr:
  assumes "assertRelativePath v = Inr p"
  shows "p \<noteq> []" "CHR 0x5C \<notin> set p" "[] \<notin> set (split_on (CHR ''/'') p)" "''..'' \<notin> set (split_on (CHR ''/'') p)"
    "\<not> prefix ''/'' p" "length p \<le> 1024"
proof -
  from assms obtain s where s: "v = JStr s" "1 \<le> length s" "length s \<le> 1024"
    and p: "p = map (\<lambda>c. if c = CHR 0x5C then CHR ''/'' else c) s"
    and parts: "\<not> prefix ''/'' p" "''..'' \<notin> set (split_on (CHR ''/'') p)" "[] \<notin> set (split_on (CHR ''/'') p)"
    by (auto simp: assertRelativePath_def res_simps Let_def)
  show "p \<noteq> []" using s p by auto
  show "CHR 0x5C \<notin> set p" by (auto simp: p)
  show "length p \<le> 1024" using s p by simp
  show "[] \<notin> set (split_on (CHR ''/'') p)" "''..'' \<notin> set (split_on (CHR ''/'') p)" "\<not> prefix ''/'' p"
    using parts by auto
qed

subsection \<open>Redaction\<close>

text \<open>
  \<open>redaction_ok d v\<close>: \<open>v\<close> nests at most \<open>d\<close> levels, its strings have at most 512 characters,
  its arrays at most 32 and its objects at most 64 entries, and a sensitive name maps to the
  redaction mark only.
\<close>

fun redaction_ok :: "nat \<Rightarrow> jsval \<Rightarrow> bool" where
  "redaction_ok d (JStr s) = (length s \<le> 512)"
| "redaction_ok (Suc d) (JArr xs) = (length xs \<le> 32 \<and> list_all (redaction_ok d) xs)"
| "redaction_ok (Suc d) (JObj ps) = (length ps \<le> 64 \<and>
     list_all (\<lambda>(k, x). (SENSITIVE_KEY k \<longrightarrow> x = JStr ''[redacted]'') \<and> redaction_ok d x) ps)"
| "redaction_ok 0 (JArr xs) = False"
| "redaction_ok 0 (JObj ps) = False"
| "redaction_ok d _ = True"

lemma redacted_items_map: "redacted_items d xs = map (redacted d) xs"
  by (induction xs) auto

lemma redacted_members_map:
  "redacted_members d ps = map (\<lambda>(k, x). (k, if SENSITIVE_KEY k then JStr ''[redacted]'' else redacted d x)) ps"
  by (induction ps) auto

lemma redacted_ok: "n \<le> 7 \<Longrightarrow> redaction_ok n (redacted (7 - n) v)"
proof (induction n arbitrary: v)
  case 0
  show ?case by (simp add: redacted.simps)
next
  case (Suc n)
  have IH: "redaction_ok n (redacted (7 - n) w)" for w using Suc by simp
  define e where "e = 7 - Suc n"
  have d: "7 - n = e + 1" "\<not> 6 < e" using Suc.prems by (auto simp: e_def)
  have IHe: "redaction_ok n (redacted (e + 1) w)" for w using IH d by metis
  have "redaction_ok (Suc n) (redacted e v)"
  proof (cases v)
    case (JArr xs)
    have "redaction_ok n x" if "x \<in> set (take 32 (redacted_items (e + 1) xs))" for x
      using in_set_takeD [OF that] IHe by (auto simp: redacted_items_map)
    then show ?thesis using d by (simp add: JArr redacted.simps [of e] list_all_iff)
  next
    case (JObj ps)
    have "list_all (\<lambda>(k, x). (SENSITIVE_KEY k \<longrightarrow> x = JStr ''[redacted]'') \<and> redaction_ok n x)
        (redacted_members (e + 1) ps)"
      using IHe by (auto simp: redacted_members_map list_all_iff)
    then show ?thesis using d
      by (auto simp: JObj redacted.simps [of e] list_all_iff dest!: in_set_takeD)
  qed (use d in \<open>simp_all add: redacted.simps [of e]\<close>)
  then show ?case by (simp only: e_def)
qed

lemma json_view_members_subset: "set (json_view_members qs) \<subseteq> (\<lambda>(k, x). (k, json_view x)) ` set qs"
  by (induction qs) (auto split: if_splits)

lemma json_view_members_length: "length (json_view_members qs) \<le> length qs"
  by (induction qs) auto

lemma json_view_redaction_ok: "redaction_ok d v \<Longrightarrow> redaction_ok d (json_view v)"
proof (induction d v rule: redaction_ok.induct)
  case (2 d xs)
  have "redaction_ok d (if x = JUndef then JNull else json_view x)" if "x \<in> set xs" for x
    using 2 that by (cases d) (auto simp: list_all_iff)
  then show ?case using 2 by (auto simp: list_all_iff)
next
  case (3 d ps)
  have "(SENSITIVE_KEY k \<longrightarrow> y = JStr ''[redacted]'') \<and> redaction_ok d y"
    if "(k, y) \<in> set (json_view_members ps)" for k y
  proof -
    from that json_view_members_subset obtain x where x: "(k, x) \<in> set ps" "y = json_view x" by fast
    then show ?thesis using 3 by (auto simp: list_all_iff)
  qed
  then show ?case using 3 json_view_members_length [of ps] by (auto simp: list_all_iff)
qed auto

lemma redactDetails_ok: "redaction_ok 7 (redactDetails v)"
  using redacted_ok [of 7 v] by (simp add: redactDetails_def immutable_def json_view_redaction_ok)

section \<open>JSON copies\<close>

lemma json_view_idem:
  "json_view (json_view v) = json_view v"
  "json_view_members (json_view_members ps) = json_view_members ps"
  by (induction v and ps rule: json_view_json_view_members.induct) (auto simp: list.map_comp comp_def)

lemma json_view_keys: "distinct (keys v) \<Longrightarrow> distinct (keys (json_view v))"
proof -
  have "fst ` set (json_view_members ps) \<subseteq> fst ` set ps" for ps
    using json_view_members_subset [of ps] by force
  then have "distinct (map fst ps) \<Longrightarrow> distinct (map fst (json_view_members ps))" for ps
    by (induction ps) (auto split: if_splits, force)
  then show "distinct (keys v) \<Longrightarrow> distinct (keys (json_view v))" by (cases v) auto
qed

lemma distinct_keys_oset: "distinct (keys v) \<Longrightarrow> distinct (keys (oset k x v))"
  by (cases v) (auto simp: distinct_update)

lemma own_view: "isObj v \<Longrightarrow> distinct (keys v) \<Longrightarrow> own k (json_view v) = json_view (own k v)"
  by (cases v) (simp_all add: own_json_view [unfolded json_view.simps])

lemma map_of_insort_fst: "map_of (insort_key fst p ps) k = map_of (p # ps) k"
  by (induction ps) auto

lemma map_of_stable_sort: "map_of (sort_key fst ps) k = map_of ps k"
  by (induction ps) (auto simp: map_of_insort_fst)

lemma map_of_take: "map_of (take n ps) k = Some x \<Longrightarrow> map_of ps k = Some x"
  by (induction ps arbitrary: n) (auto simp: take_Cons split: nat.splits if_splits)

lemma redactDetails_own_string:
  assumes "own k (redactDetails v) = JStr s" "isObj v" "distinct (keys v)" "\<not> SENSITIVE_KEY k" "length s < 512"
    "\<not> isObj (own k v)" "own k v \<noteq> JUndef"
  shows "own k v = JStr s"
proof -
  obtain ps where v: "v = JObj ps" using assms(2) by (auto simp: isObj_iff)
  define qs where "qs = take 64 (sort_key fst (redacted_members 1 ps))"
  have dq: "distinct (map fst (redacted_members 1 ps))"
    using assms(3) by (simp add: v redacted_members_map comp_def case_prod_unfold)
  have "distinct (map fst qs)" unfolding qs_def take_map [symmetric]
    by (rule distinct_take) (use dq in \<open>simp add: distinct_map\<close>)
  then have "json_view (own k (JObj qs)) = JStr s"
    using assms(1) own_json_view [of qs k] by (simp add: redactDetails_def immutable_def v redacted.simps [of 0] qs_def)
  then have "map_of qs k = Some (JStr s)" by (auto simp: own.simps(1) split: option.splits)
  then have "map_of (redacted_members 1 ps) k = Some (JStr s)"
    unfolding qs_def by (auto dest: map_of_take simp: map_of_stable_sort)
  then obtain x where x: "(k, x) \<in> set ps" "redacted 1 x = JStr s"
    using assms(4) by (auto dest!: map_of_SomeD simp: redacted_members_map split: if_splits)
  have "own k v = x" using x(1) assms(3) by (simp add: v own.simps(1) map_of_is_SomeI)
  then show ?thesis using x(2) assms(5-7)
    by (cases x) (auto simp: redacted.simps [of "Suc 0"] split: if_splits)
qed

end
