(* ===== verification/Domain_Agent.thy ===== *)
theory Domain_Agent
  imports Domain_Shared
begin

text \<open>
  \<open>packages/subagents/domain/agent.mjs\<close>: agent templates and the resolved agent
  specifications derived from them. A template fixes a ceiling (tools, capabilities, policy,
  writer role, timeout); a resolved specification may only narrow it. The contract of the four
  rank tables is the locale \<open>rank_table\<close>; the lemmas show that what \<open>createResolvedAgentSpec\<close>
  returns never exceeds the template on any surface.
\<close>

section \<open>Tables\<close>

definition MUTATING_TOOLS :: "string list" where
  "MUTATING_TOOLS = [''bash'', ''edit'', ''write'']"

definition WORKSPACE_CANONICAL :: "string \<Rightarrow> string option" where
  "WORKSPACE_CANONICAL = map_of [(''none'', ''none''), (''read-only'', ''shared-read-only''),
     (''shared-read-only'', ''shared-read-only''), (''guarded-write'', ''shared-guarded''),
     (''shared-guarded'', ''shared-guarded''), (''worktree-write'', ''managed-worktree''),
     (''managed-worktree'', ''managed-worktree'')]"

definition WORKSPACE_RANK :: "string \<Rightarrow> nat option" where
  "WORKSPACE_RANK = map_of [(''none'', 0), (''shared-read-only'', 1), (''shared-guarded'', 2), (''managed-worktree'', 3)]"

definition MUTATION_CANONICAL :: "string \<Rightarrow> string option" where
  "MUTATION_CANONICAL = map_of [(''none'', ''none''), (''workspace'', ''guarded''), (''guarded'', ''guarded''),
     (''isolated-worktree'', ''guarded'')]"

definition MUTATION_RANK :: "string \<Rightarrow> nat option" where
  "MUTATION_RANK = map_of [(''none'', 0), (''guarded'', 1)]"

definition APPROVAL_RANK :: "string \<Rightarrow> nat option" where
  "APPROVAL_RANK = map_of [(''deny'', 0), (''ask'', 1), (''inherit'', 2)]"

definition EGRESS_RANK :: "string \<Rightarrow> nat option" where
  "EGRESS_RANK = map_of [(''deny'', 0), (''allow-listed'', 1), (''inherit'', 2)]"

definition EGRESS_KEYS :: "string list" where
  "EGRESS_KEYS = [''web'', ''mcp'', ''provider'', ''extension'']"

text \<open>\<open>TABLE[a] > TABLE[b]\<close>: a missing entry makes the comparison false.\<close>

definition rank_gt :: "platform \<Rightarrow> (string \<Rightarrow> nat option) \<Rightarrow> jsval \<Rightarrow> jsval \<Rightarrow> bool" where
  "rank_gt P R a b = (case (R (js_string P a), R (js_string P b)) of (Some x, Some y) \<Rightarrow> y < x | _ \<Rightarrow> False)"

section \<open>Operations\<close>

definition normalizeTools :: "jsval \<Rightarrow> jsval res" where
  "normalizeTools input =
     rbind (assertRecord input) (\<lambda>_.
     rbind (normalizeStringSet True 256 (coalesce (own ''allow'' input) (JArr []))) (\<lambda>allow.
     rbind (normalizeStringSet True 256 (coalesce (own ''deny'' input) (JArr []))) (\<lambda>deny.
     let overlap = filter (\<lambda>tool. tool \<in> set deny) allow in
     if overlap \<noteq> [] then Inl TypeError
     else Inr (JObj [(''allow'', JArr (map JStr allow)), (''deny'', JArr (map JStr deny))]))))"

definition normalizePolicy :: "platform \<Rightarrow> jsval \<Rightarrow> jsval res" where
  "normalizePolicy P input =
     rbind (assertRecord input) (\<lambda>_.
     case WORKSPACE_CANONICAL (js_string P (own ''workspace'' input)) of None \<Rightarrow> Inl TypeError | Some workspace \<Rightarrow>
     case MUTATION_CANONICAL (js_string P (own ''mutation'' input)) of None \<Rightarrow> Inl TypeError | Some mutation \<Rightarrow>
     if APPROVAL_RANK (js_string P (own ''approval'' input)) = None then Inl TypeError else
     rbind (assertRecord (own ''egress'' input)) (\<lambda>egressIn.
     rbind (mapR (\<lambda>key. if EGRESS_RANK (js_string P (own key egressIn)) = None then Inl TypeError
                        else Inr (key, own key egressIn)) EGRESS_KEYS) (\<lambda>egress.
     Inr (JObj [(''workspace'', JStr workspace), (''mutation'', JStr mutation),
                (''approval'', own ''approval'' input), (''egress'', JObj egress)]))))"

definition assertPolicyNarrower :: "platform \<Rightarrow> jsval \<Rightarrow> jsval \<Rightarrow> unit res" where
  "assertPolicyNarrower P candidate upper =
     rbind (prop_of ''workspace'' candidate) (\<lambda>cw. rbind (prop_of ''workspace'' upper) (\<lambda>lw.
     if rank_gt P WORKSPACE_RANK cw lw then failSub ''AGENT_SPEC_POLICY_ESCALATION'' else
     if rank_gt P MUTATION_RANK (own ''mutation'' candidate) (own ''mutation'' upper)
       then failSub ''AGENT_SPEC_POLICY_ESCALATION'' else
     if rank_gt P APPROVAL_RANK (own ''approval'' candidate) (own ''approval'' upper)
       then failSub ''AGENT_SPEC_POLICY_ESCALATION'' else
     forR (\<lambda>key.
       rbind (prop_of key (own ''egress'' candidate)) (\<lambda>ce. rbind (prop_of key (own ''egress'' upper)) (\<lambda>le.
       if rank_gt P EGRESS_RANK ce le then failSub ''AGENT_SPEC_POLICY_ESCALATION'' else Inr ()))) EGRESS_KEYS))"

definition normalizeSchema :: "platform \<Rightarrow> jsval \<Rightarrow> jsval res" where
  "normalizeSchema P v =
     (if nullish v then Inr JNull
      else if isStr v then
        rbind (assertString 1 512 v) (\<lambda>s. rbind (digestValue P v) (\<lambda>h.
        Inr (JObj [(''ref'', JStr s), (''hash'', JStr h)])))
      else rbind (assertRecord v) (\<lambda>_. rbind (digestValue P v) (\<lambda>h.
        Inr (JObj [(''value'', v), (''hash'', JStr h)]))))"

definition allows_mutating :: "jsval list \<Rightarrow> bool" where
  "allows_mutating allow \<longleftrightarrow> (\<exists>t \<in> set allow. t \<in> set (map JStr MUTATING_TOOLS))"

text \<open>The object literal \<open>createAgentTemplate\<close> seals.\<close>

definition template_value :: "string \<Rightarrow> string \<Rightarrow> string \<Rightarrow> string \<Rightarrow> string \<Rightarrow> jsval \<Rightarrow> string list \<Rightarrow> jsval
    \<Rightarrow> string \<Rightarrow> jsval \<Rightarrow> jsval \<Rightarrow> bool \<Rightarrow> bool \<Rightarrow> bool \<Rightarrow> int \<Rightarrow> jsval \<Rightarrow> (string \<times> jsval) list" where
  "template_value id' version backendAgentId sourceHash promptHash tools requiredCapabilities policyCeiling 
     modelRole inputSchema outputSchema writer continuable resumable timeoutMs redaction =
     [
       (''$schema'', JStr ''https://github.com/Ricardo121380/only-my-pi/schemas/agent-template-v2.schema.json''),
       (''formatVersion'', jint 2),
       (''contractStatus'', JStr ''contract-preview''),
       (''kind'', JStr ''agent-template''),
       (''id'', JStr id'),
       (''version'', JStr version),
       (''backendAgentId'', JStr backendAgentId),
       (''sourceHash'', JStr sourceHash),
       (''promptHash'', JStr promptHash),
       (''tools'', tools),
       (''requiredCapabilities'', JArr (map JStr requiredCapabilities)),
       (''policyCeiling'', policyCeiling),
       (''modelRole'', JStr modelRole),
       (''inputSchema'', inputSchema),
       (''outputSchema'', outputSchema),
       (''writer'', JBool writer),
       (''continuable'', JBool continuable),
       (''resumable'', JBool resumable),
       (''timeoutMs'', jint timeoutMs),
       (''redaction'', redaction)]"

definition createAgentTemplate :: "platform \<Rightarrow> jsval \<Rightarrow> jsval res" where
  "createAgentTemplate P input =
     rbind (assertRecord input) (\<lambda>_.
     rbind (assertDomainId (own ''id'' input)) (\<lambda>id'.
     rbind (assertString 1 128 (own ''version'' input)) (\<lambda>version.
     rbind (assertString 1 256 (coalesce (own ''backendAgentId'' input) (own ''upstreamAgentId'' input))) (\<lambda>backendAgentId.
     rbind (assertSha256 (own ''sourceHash'' input)) (\<lambda>sourceHash.
     rbind (assertSha256 (coalesce (own ''promptHash'' input) (own ''hash'' (own ''prompt'' input)))) (\<lambda>promptHash.
     rbind (normalizeTools (own ''tools'' input)) (\<lambda>tools.
     rbind (normalizeStringSet True 256 (coalesce (own ''requiredCapabilities'' input) (JArr []))) (\<lambda>requiredCapabilities.
     rbind (normalizePolicy P (own ''policyCeiling'' input)) (\<lambda>policyCeiling.
     rbind (assertBoolean (own ''writer'' input)) (\<lambda>writer.
     rbind (assertBoolean (own ''continuable'' input)) (\<lambda>continuable.
     rbind (assertBoolean (own ''resumable'' input)) (\<lambda>resumable.
     rbind (if own ''timeoutMs'' input = JUndef
            then rbind (assertSafeInteger 1 86400 (own ''timeoutSeconds'' input)) (\<lambda>n. Inr (n * 1000))
            else assertSafeInteger 1 86400000 (own ''timeoutMs'' input)) (\<lambda>timeoutMs.
     rbind (arr_of (own ''allow'' tools)) (\<lambda>allow.
     if \<not> writer \<and> allows_mutating allow then failSub ''AGENT_TEMPLATE_MUTATION_CONFLICT'' else
     if own ''mutation'' policyCeiling = JStr ''none'' \<and> allows_mutating allow
       then failSub ''AGENT_TEMPLATE_MUTATION_CONFLICT'' else
     rbind (assertString 1 128 (own ''modelRole'' input)) (\<lambda>modelRole.
     rbind (normalizeSchema P (own ''inputSchema'' input)) (\<lambda>inputSchema.
     rbind (normalizeSchema P (own ''outputSchema'' input)) (\<lambda>outputSchema.
     rbind (if own ''redaction'' input = JUndef then Inr (JObj []) else assertRecord (own ''redaction'' input)) (\<lambda>redaction.
     sealed P (template_value id' version backendAgentId sourceHash promptHash tools requiredCapabilities policyCeiling 
        modelRole inputSchema outputSchema writer continuable resumable timeoutMs redaction)
       ''templateHash''))))))))))))))))))"

definition agentTemplateFromRegistryEntry :: "platform \<Rightarrow> jsval \<Rightarrow> jsval res" where
  "agentTemplateFromRegistryEntry P entry =
     rbind (assertRecord entry) (\<lambda>_.
     rbind (assertRecord (own ''manifest'' entry)) (\<lambda>manifest.
     createAgentTemplate P (spread manifest (JObj [
       (''backendAgentId'', own ''upstreamAgentId'' manifest),
       (''sourceHash'', own ''sourceHash'' entry),
       (''promptHash'', own ''hash'' (own ''prompt'' entry)),
       (''timeoutSeconds'', own ''timeoutSeconds'' manifest)]))))"

text \<open>The tool part of \<open>createResolvedAgentSpec\<close>.\<close>

definition resolveTools :: "platform \<Rightarrow> jsval \<Rightarrow> jsval \<Rightarrow> jsval res" where
  "resolveTools P input template =
     rbind (if own ''tools'' input = JUndef then Inr (own ''tools'' template)
            else normalizeTools (own ''tools'' input)) (\<lambda>requestedTools.
     rbind (prop_of ''allow'' requestedTools) (\<lambda>ra. rbind (arr_of ra) (\<lambda>requestedAllow.
     rbind (filterR (\<lambda>tool. rbind (prop_of ''allow'' (own ''tools'' template)) (\<lambda>ta.
              rbind (js_includes ta tool) (\<lambda>b. Inr (\<not> b)))) requestedAllow) (\<lambda>outsideCeiling.
     if outsideCeiling \<noteq> [] then failSub ''AGENT_SPEC_TOOL_ESCALATION'' else
     rbind (filterR (\<lambda>tool. rbind (prop_of ''deny'' (own ''tools'' template)) (\<lambda>td.
              rbind (js_includes td tool) (\<lambda>b. Inr (\<not> b)))) requestedAllow) (\<lambda>allow.
     rbind (prop_of ''deny'' (own ''tools'' template)) (\<lambda>td. rbind (iterate td) (\<lambda>templateDeny.
     rbind (iterate (own ''deny'' requestedTools)) (\<lambda>requestedDeny.
     Inr (JObj [(''allow'', JArr (js_sort P allow)),
                (''deny'', JArr (js_sort P (js_uniq (templateDeny @ requestedDeny))))])))))))))"

definition resolveCapabilities :: "jsval \<Rightarrow> jsval \<Rightarrow> jsval list res" where
  "resolveCapabilities input template =
     rbind (if own ''requiredCapabilities'' input = JUndef then iterate (own ''requiredCapabilities'' template)
            else rbind (normalizeStringSet True 256 (own ''requiredCapabilities'' input)) (\<lambda>ss. Inr (map JStr ss)))
       (\<lambda>requiredCapabilities.
     rbind (filterR (\<lambda>capability. rbind (js_includes (own ''requiredCapabilities'' template) capability)
              (\<lambda>b. Inr (\<not> b))) requiredCapabilities) (\<lambda>capabilityExpansion.
     if capabilityExpansion \<noteq> [] then failSub ''AGENT_SPEC_CAPABILITY_ESCALATION''
     else Inr requiredCapabilities))"

definition resolveSpecialization :: "platform \<Rightarrow> jsval \<Rightarrow> jsval res" where
  "resolveSpecialization P s =
     (if s = JUndef then Inr JNull
      else rbind (assertRecord s) (\<lambda>_.
        rbind (if own ''prompt'' s = JUndef then assertSha256 (own ''promptDigest'' s)
               else rbind (assertString 1 16384 (own ''prompt'' s)) (\<lambda>t. digestValue P (JStr t))) (\<lambda>promptDigest.
        if own ''promptDigest'' s \<noteq> JUndef \<and> own ''promptDigest'' s \<noteq> JStr promptDigest
          then failSub ''AGENT_SPEC_PROMPT_DIGEST_MISMATCH'' else
        rbind (if own ''promptRef'' s = JUndef then Inr []
               else rbind (assertString 1 512 (own ''promptRef'' s)) (\<lambda>t. Inr [(''promptRef'', JStr t)])) (\<lambda>ref.
        Inr (JObj ((''promptDigest'', JStr promptDigest) # ref))))))"

definition resolveModel :: "jsval \<Rightarrow> jsval \<Rightarrow> jsval res" where
  "resolveModel m template =
     (if m = JUndef then Inr (JObj [(''role'', own ''modelRole'' template)])
      else rbind (assertRecord m) (\<lambda>_.
        rbind (assertString 1 128 (coalesce (own ''role'' m) (own ''modelRole'' template))) (\<lambda>role.
        if JStr role \<noteq> own ''modelRole'' template then failSub ''AGENT_SPEC_MODEL_ROLE_ESCALATION'' else
        if own ''provider'' m \<noteq> JUndef \<and> own ''id'' m = JUndef then Inl TypeError else
        rbind (if own ''provider'' m = JUndef then Inr []
               else rbind (assertString 1 128 (own ''provider'' m)) (\<lambda>t. Inr [(''provider'', JStr t)])) (\<lambda>provider.
        rbind (if own ''id'' m = JUndef then Inr []
               else rbind (assertString 1 256 (own ''id'' m)) (\<lambda>t. Inr [(''id'', JStr t)])) (\<lambda>mid.
        Inr (JObj ((''role'', JStr role) # provider @ mid)))))))"

text \<open>The object literal \<open>createResolvedAgentSpec\<close> seals.\<close>

definition spec_value :: "jsval \<Rightarrow> string \<Rightarrow> jsval \<Rightarrow> jsval list \<Rightarrow> jsval \<Rightarrow> string \<Rightarrow> jsval \<Rightarrow> jsval \<Rightarrow> jsval
    \<Rightarrow> jsval \<Rightarrow> jsval \<Rightarrow> jsval \<Rightarrow> jsval \<Rightarrow> jsval \<Rightarrow> (string \<times> jsval) list" where
  "spec_value template id' tools requiredCapabilities effectivePolicy computedPolicyHash model 
     inputSchema outputSchema writer timeoutMs runtimeMode overlayRequirements specialization =
     [
       (''$schema'', JStr ''https://github.com/Ricardo121380/only-my-pi/schemas/resolved-agent-spec-v1.schema.json''),
       (''formatVersion'', jint 1),
       (''contractStatus'', JStr ''contract-preview''),
       (''kind'', JStr ''resolved-agent-spec''),
       (''id'', JStr id'),
       (''templateId'', own ''id'' template),
       (''templateHash'', own ''templateHash'' template),
       (''backendAgentId'', own ''backendAgentId'' template),
       (''sourceHash'', own ''sourceHash'' template),
       (''tools'', tools),
       (''requiredCapabilities'', JArr requiredCapabilities),
       (''effectivePolicy'', effectivePolicy),
       (''effectivePolicyHash'', JStr computedPolicyHash),
       (''model'', model),
       (''inputSchema'', inputSchema),
       (''outputSchema'', outputSchema),
       (''writer'', writer),
       (''continuable'', own ''continuable'' template),
       (''resumable'', own ''resumable'' template),
       (''timeoutMs'', timeoutMs),
       (''runtimeMode'', runtimeMode),
       (''overlayRequirements'', overlayRequirements),
       (''specialization'', specialization)]"

definition createResolvedAgentSpec :: "platform \<Rightarrow> jsval \<Rightarrow> jsval res" where
  "createResolvedAgentSpec P input =
     rbind (assertRecord input) (\<lambda>_.
     let template = own ''template'' input in
     if own ''kind'' template \<noteq> JStr ''agent-template'' \<or> own ''formatVersion'' template \<noteq> jint 2 then Inl TypeError else
     rbind (resolveTools P input template) (\<lambda>tools.
     rbind (resolveCapabilities input template) (\<lambda>requiredCapabilities.
     rbind (if own ''effectivePolicy'' input = JUndef then Inr (own ''policyCeiling'' template)
            else normalizePolicy P (own ''effectivePolicy'' input)) (\<lambda>effectivePolicy.
     rbind (assertPolicyNarrower P effectivePolicy (own ''policyCeiling'' template)) (\<lambda>_.
     rbind (digestValue P effectivePolicy) (\<lambda>computedPolicyHash.
     rbind (if own ''effectivePolicyHash'' input = JUndef then Inr ()
            else rbind (assertSha256 (own ''effectivePolicyHash'' input)) (\<lambda>given.
              if given \<noteq> computedPolicyHash then failSub ''AGENT_SPEC_POLICY_HASH_MISMATCH'' else Inr ())) (\<lambda>_.
     rbind (if own ''writer'' input = JUndef then Inr (own ''writer'' template)
            else rbind (assertBoolean (own ''writer'' input)) (\<lambda>b. Inr (JBool b))) (\<lambda>writer.
     if truthy writer \<and> \<not> truthy (own ''writer'' template) then failSub ''AGENT_SPEC_WRITER_ESCALATION'' else
     rbind (arr_of (own ''allow'' tools)) (\<lambda>allow.
     if \<not> truthy writer \<and> allows_mutating allow then failSub ''AGENT_SPEC_MUTATION_CONFLICT'' else
     rbind (resolveSpecialization P (own ''specialization'' input)) (\<lambda>specialization.
     rbind (resolveModel (own ''model'' input) template) (\<lambda>model.
     let runtimeMode = coalesce (own ''runtimeMode'' input) (JStr ''REGISTERED_ROLES_ONLY'') in
     if runtimeMode \<notin> {JStr ''REGISTERED_ROLES_ONLY'', JStr ''DYNAMIC_OVERLAY''} then Inl TypeError else
     let overlayRequirements = JObj [
       (''tools'', JBool (stringify P tools \<noteq> stringify P (own ''tools'' template))),
       (''model'', JBool (own ''provider'' model \<noteq> JUndef \<or> own ''id'' model \<noteq> JUndef))] in
     rbind (assertDomainId (coalesce (own ''id'' input) (JStr (js_string P (own ''id'' template) @ ''-resolved'')))) (\<lambda>id'.
     rbind (if own ''inputSchema'' input = JUndef then Inr (own ''inputSchema'' template)
            else normalizeSchema P (own ''inputSchema'' input)) (\<lambda>inputSchema.
     rbind (if own ''outputSchema'' input = JUndef then Inr (own ''outputSchema'' template)
            else normalizeSchema P (own ''outputSchema'' input)) (\<lambda>outputSchema.
     rbind (if own ''timeoutMs'' input = JUndef then Inr (own ''timeoutMs'' template)
            else rbind (assertSafeInteger 1 MAX_SAFE_INTEGER (own ''timeoutMs'' input)) (\<lambda>t.
              Inr (JNum (num_min (js_number P (own ''timeoutMs'' template)) (num_of_int t))))) (\<lambda>timeoutMs.
     sealed P (spec_value template id' tools requiredCapabilities effectivePolicy computedPolicyHash model 
        inputSchema outputSchema writer timeoutMs runtimeMode overlayRequirements specialization)
       ''specHash'')))))))))))))))"

section \<open>Rank tables\<close>

text \<open>
  The contract of a rank table: it ranks exactly the known names, and different names have
  different ranks. The clients use the order it induces: narrowing is reflexive, transitive and
  antisymmetric, and a passed comparison between known names is that order.
\<close>

definition narrows :: "(string \<Rightarrow> nat option) \<Rightarrow> string \<Rightarrow> string \<Rightarrow> bool" where
  "narrows rank a b \<longleftrightarrow> (\<exists>x y. rank a = Some x \<and> rank b = Some y \<and> x \<le> y)"

locale rank_table =
  fixes rank :: "string \<Rightarrow> nat option" and known :: "string list"
  assumes rank_known: "rank s \<noteq> None \<longleftrightarrow> s \<in> set known"
    and rank_inj: "rank s = Some n \<Longrightarrow> rank t = Some n \<Longrightarrow> s = t"
begin

lemma narrows_refl: "a \<in> set known \<Longrightarrow> narrows rank a a"
  using rank_known [of a] by (auto simp: narrows_def)

lemma narrows_trans: "narrows rank a b \<Longrightarrow> narrows rank b c \<Longrightarrow> narrows rank a c"
  by (auto simp: narrows_def)

lemma narrows_antisym: "narrows rank a b \<Longrightarrow> narrows rank b a \<Longrightarrow> a = b"
  by (auto simp: narrows_def intro: rank_inj)

lemma not_gt_narrows:
  assumes "\<not> rank_gt P rank a b" "js_string P a \<in> set known" "js_string P b \<in> set known"
  shows "narrows rank (js_string P a) (js_string P b)"
proof -
  obtain x y where "rank (js_string P a) = Some x" "rank (js_string P b) = Some y"
    using assms(2,3) rank_known by (meson not_None_eq)
  then show ?thesis using assms(1) by (auto simp: rank_gt_def narrows_def)
qed

end

interpretation workspace: rank_table WORKSPACE_RANK "[''none'', ''shared-read-only'', ''shared-guarded'', ''managed-worktree'']"
  by unfold_locales (auto simp: WORKSPACE_RANK_def split: if_splits)

interpretation mutation: rank_table MUTATION_RANK "[''none'', ''guarded'']"
  by unfold_locales (auto simp: MUTATION_RANK_def split: if_splits)

interpretation approval: rank_table APPROVAL_RANK "[''deny'', ''ask'', ''inherit'']"
  by unfold_locales (auto simp: APPROVAL_RANK_def split: if_splits)

interpretation egress: rank_table EGRESS_RANK "[''deny'', ''allow-listed'', ''inherit'']"
  by unfold_locales (auto simp: EGRESS_RANK_def split: if_splits)

section \<open>Policies\<close>

text \<open>A normalised policy names a known rank on every surface.\<close>

definition policy_wf :: "platform \<Rightarrow> jsval \<Rightarrow> bool" where
  "policy_wf P p \<longleftrightarrow> isObj p
     \<and> WORKSPACE_RANK (js_string P (own ''workspace'' p)) \<noteq> None
     \<and> MUTATION_RANK (js_string P (own ''mutation'' p)) \<noteq> None
     \<and> APPROVAL_RANK (js_string P (own ''approval'' p)) \<noteq> None
     \<and> list_all (\<lambda>k. EGRESS_RANK (js_string P (own k (own ''egress'' p))) \<noteq> None) EGRESS_KEYS"

text \<open>\<open>policy_within P a b\<close>: on no surface does \<open>a\<close> rank above \<open>b\<close>.\<close>

definition policy_within :: "platform \<Rightarrow> jsval \<Rightarrow> jsval \<Rightarrow> bool" where
  "policy_within P a b \<longleftrightarrow>
     narrows WORKSPACE_RANK (js_string P (own ''workspace'' a)) (js_string P (own ''workspace'' b))
   \<and> narrows MUTATION_RANK (js_string P (own ''mutation'' a)) (js_string P (own ''mutation'' b))
   \<and> narrows APPROVAL_RANK (js_string P (own ''approval'' a)) (js_string P (own ''approval'' b))
   \<and> list_all (\<lambda>k. narrows EGRESS_RANK (js_string P (own k (own ''egress'' a))) (js_string P (own k (own ''egress'' b)))) EGRESS_KEYS"

lemma policy_within_trans: "policy_within P a b \<Longrightarrow> policy_within P b c \<Longrightarrow> policy_within P a c"
  unfolding policy_within_def list_all_iff
  by (blast intro: workspace.narrows_trans mutation.narrows_trans approval.narrows_trans egress.narrows_trans)

lemma canonical_ranked:
  "WORKSPACE_CANONICAL s = Some w \<Longrightarrow> WORKSPACE_RANK w \<noteq> None"
  "MUTATION_CANONICAL s = Some m \<Longrightarrow> MUTATION_RANK m \<noteq> None"
  by (auto simp: WORKSPACE_CANONICAL_def WORKSPACE_RANK_def MUTATION_CANONICAL_def MUTATION_RANK_def
      split: if_splits)

lemma mapR_pairs_lookup:
  assumes "mapR (\<lambda>k. if Q k then Inl e else Inr (k, g k)) ks = Inr ps" "k \<in> set ks"
  shows "\<not> Q k \<and> map_of ps k = Some (g k)"
  using assms by (induction ks arbitrary: ps) (auto simp: res_simps split: if_splits)

lemma normalizePolicy_wf:
  assumes "normalizePolicy P input = Inr p"
  shows "policy_wf P p"
proof -
  from assms obtain w m eg where
    w: "WORKSPACE_CANONICAL (js_string P (own ''workspace'' input)) = Some w"
    and m: "MUTATION_CANONICAL (js_string P (own ''mutation'' input)) = Some m"
    and a: "APPROVAL_RANK (js_string P (own ''approval'' input)) \<noteq> None"
    and eg: "mapR (\<lambda>key. if EGRESS_RANK (js_string P (own key (own ''egress'' input))) = None then Inl TypeError
                        else Inr (key, own key (own ''egress'' input))) EGRESS_KEYS = Inr eg"
    and p: "p = JObj [(''workspace'', JStr w), (''mutation'', JStr m), (''approval'', own ''approval'' input), (''egress'', JObj eg)]"
    by (auto simp: normalizePolicy_def res_simps split: option.splits)
  have "EGRESS_RANK (js_string P (own k (JObj eg))) \<noteq> None" if "k \<in> set EGRESS_KEYS" for k
    using mapR_pairs_lookup [OF eg that] by (simp add: own.simps(1))
  then show ?thesis using canonical_ranked(1) [OF w] canonical_ranked(2) [OF m] a
    by (simp add: policy_wf_def p list_all_iff)
qed

lemma assertPolicyNarrower_within:
  assumes "assertPolicyNarrower P c u = Inr x" "policy_wf P c" "policy_wf P u"
  shows "policy_within P c u"
proof -
  from assms(1) have g: "\<not> rank_gt P WORKSPACE_RANK (own ''workspace'' c) (own ''workspace'' u)"
    "\<not> rank_gt P MUTATION_RANK (own ''mutation'' c) (own ''mutation'' u)"
    "\<not> rank_gt P APPROVAL_RANK (own ''approval'' c) (own ''approval'' u)"
    "\<forall>k \<in> set EGRESS_KEYS. \<not> rank_gt P EGRESS_RANK (own k (own ''egress'' c)) (own k (own ''egress'' u))"
    by (auto simp: assertPolicyNarrower_def res_simps forR_eq_Inr)
  show ?thesis
    unfolding policy_within_def list_all_iff
    using g assms(2,3) unfolding policy_wf_def list_all_iff
      workspace.rank_known mutation.rank_known approval.rank_known egress.rank_known
    by (blast intro: workspace.not_gt_narrows mutation.not_gt_narrows approval.not_gt_narrows egress.not_gt_narrows)
qed

section \<open>Templates\<close>

text \<open>The layout of a normalised policy.\<close>

definition policy_shape :: "jsval \<Rightarrow> bool" where
  "policy_shape p \<longleftrightarrow> (\<exists>w m a eg. p = JObj [(''workspace'', w), (''mutation'', m), (''approval'', a), (''egress'', JObj eg)]
     \<and> map fst eg = EGRESS_KEYS)"


text \<open>What \<open>createAgentTemplate\<close> guarantees of the template it returns.\<close>

definition template_wf :: "platform \<Rightarrow> jsval \<Rightarrow> bool" where
  "template_wf P t \<longleftrightarrow>
     (\<exists>ta td. own ''tools'' t = JObj [(''allow'', JArr (map JStr ta)), (''deny'', JArr (map JStr td))]
        \<and> set ta \<inter> set td = {}
        \<and> (own ''writer'' t = JBool False \<longrightarrow> \<not> allows_mutating (map JStr ta)))
   \<and> (\<exists>rc. own ''requiredCapabilities'' t = JArr (map JStr rc))
   \<and> policy_wf P (own ''policyCeiling'' t) \<and> policy_shape (own ''policyCeiling'' t)
   \<and> isBool (own ''writer'' t)
   \<and> (\<exists>n. own ''timeoutMs'' t = jint n \<and> 1 \<le> n \<and> n \<le> 86400000)
   \<and> own ''kind'' t = JStr ''agent-template'' \<and> own ''formatVersion'' t = jint 2"

lemma js_string_json_view:
  "CHR '','' \<notin> set (js_string P v) \<Longrightarrow> js_string P v \<notin> {''NaN'', ''Infinity'', ''-Infinity''} \<Longrightarrow>
   js_string P (json_view v) = js_string P v"
proof (induction v)
  case (JNum n)
  then show ?case by (cases n) (auto simp: num_text_def)
next
  case (JArr xs)
  show ?case
  proof (cases xs)
    case (Cons x ys)
    then have "ys = []" using JArr.prems(1) by (cases ys) auto
    moreover have "json_view x \<noteq> JNull" if "x \<noteq> JNull" "js_string P x \<notin> {''NaN'', ''Infinity'', ''-Infinity''}"
      using that by (cases x) (auto simp: num_text_def split: jsnum.splits)
    ultimately show ?thesis using JArr Cons by (cases "nullish x") (auto simp: nullish_def)
  qed simp
qed auto

lemma rank_json_view:
  "WORKSPACE_RANK (js_string P v) \<noteq> None \<Longrightarrow> js_string P (json_view v) = js_string P v"
  "MUTATION_RANK (js_string P v) \<noteq> None \<Longrightarrow> js_string P (json_view v) = js_string P v"
  "APPROVAL_RANK (js_string P v) \<noteq> None \<Longrightarrow> js_string P (json_view v) = js_string P v"
  "EGRESS_RANK (js_string P v) \<noteq> None \<Longrightarrow> js_string P (json_view v) = js_string P v"
  unfolding workspace.rank_known mutation.rank_known approval.rank_known egress.rank_known
  by (rule js_string_json_view; auto)+

lemma mapR_pairs_keys: "mapR (\<lambda>k. if Q k then Inl e else Inr (k, g k)) ks = Inr ps \<Longrightarrow> map fst ps = ks"
  by (induction ks arbitrary: ps) (auto simp: res_simps split: if_splits)

lemma normalizePolicy_shape: "normalizePolicy P input = Inr p \<Longrightarrow> policy_shape p"
  by (auto simp: normalizePolicy_def policy_shape_def res_simps split: option.splits dest: mapR_pairs_keys)

lemma policy_shape_own_view:
  assumes "policy_shape p"
  shows "own k (json_view p) = json_view (own k p)"
    and "own k (json_view (own ''egress'' p)) = json_view (own k (own ''egress'' p))"
proof -
  from assms obtain w m a eg where p: "p = JObj [(''workspace'', w), (''mutation'', m), (''approval'', a), (''egress'', JObj eg)]"
    and eg: "map fst eg = EGRESS_KEYS" by (auto simp: policy_shape_def)
  show k: "own k (json_view p) = json_view (own k p)" for k unfolding p by (rule own_json_view) simp
  show "own k (json_view (own ''egress'' p)) = json_view (own k (own ''egress'' p))"
    using own_json_view [of eg k] by (simp add: p eg EGRESS_KEYS_def)
qed

lemma policy_view:
  assumes "policy_shape p" "policy_wf P p"
  shows "policy_wf P (json_view p)"
    and "js_string P (own ''workspace'' (json_view p)) = js_string P (own ''workspace'' p)"
    and "policy_within P q p \<Longrightarrow> policy_within P q (json_view p)"
    and "policy_within P p q \<Longrightarrow> policy_within P (json_view p) q"
  using assms(2) unfolding policy_wf_def policy_within_def list_all_iff policy_shape_own_view [OF assms(1)]
  by (auto simp: rank_json_view)

lemma normalizeTools_Inr:
  assumes "normalizeTools input = Inr t"
  shows "\<exists>allow deny. t = JObj [(''allow'', JArr (map JStr allow)), (''deny'', JArr (map JStr deny))]
      \<and> set allow \<inter> set deny = {}"
  using assms by (fastforce simp: normalizeTools_def res_simps Let_def filter_empty_conv)

lemma policy_shape_view:
  assumes "policy_shape p" "policy_wf P p"
  shows "policy_shape (json_view p)"
proof -
  from assms obtain w m a eg where p: "p = JObj [(''workspace'', w), (''mutation'', m), (''approval'', a), (''egress'', JObj eg)]"
    and eg: "map fst eg = EGRESS_KEYS" by (auto simp: policy_shape_def)
  have nu: "w \<noteq> JUndef" "m \<noteq> JUndef" "a \<noteq> JUndef"
    using assms(2) by (auto simp: policy_wf_def p WORKSPACE_RANK_def MUTATION_RANK_def APPROVAL_RANK_def)
  from eg obtain x1 x2 x3 x4 where eg4: "eg = [(''web'', x1), (''mcp'', x2), (''provider'', x3), (''extension'', x4)]"
    by (auto simp: EGRESS_KEYS_def)
  have "x1 \<noteq> JUndef" "x2 \<noteq> JUndef" "x3 \<noteq> JUndef" "x4 \<noteq> JUndef"
    using assms(2) by (auto simp: policy_wf_def p eg4 EGRESS_KEYS_def EGRESS_RANK_def)
  then show ?thesis using nu by (simp add: p eg4 policy_shape_def EGRESS_KEYS_def)
qed

lemma template_value_keys: "distinct (map fst (template_value a b c d e f g h i j k l m n p q))"
  "''templateHash'' \<notin> set (map fst (template_value a b c d e f g h i j k l m n p q))"
  by (simp_all add: template_value_def)

lemma createAgentTemplate_wf:
  assumes "createAgentTemplate P input = Inr t"
  shows "template_wf P t"
proof -
  from assms obtain a b c d e tools caps pol role ins outs w cont resu ms red allow where
    seal: "sealed P (template_value a b c d e tools caps pol role ins outs w cont resu ms red) ''templateHash'' = Inr t"
    and tools: "normalizeTools (own ''tools'' input) = Inr tools"
    and pol: "normalizePolicy P (own ''policyCeiling'' input) = Inr pol"
    and allow: "own ''allow'' tools = JArr allow" "\<not> w \<longrightarrow> \<not> allows_mutating allow"
    and ms0: "(if own ''timeoutMs'' input = JUndef
            then rbind (assertSafeInteger 1 86400 (own ''timeoutSeconds'' input)) (\<lambda>n. Inr (n * 1000))
            else assertSafeInteger 1 86400000 (own ''timeoutMs'' input)) = Inr ms"
    unfolding createAgentTemplate_def res_inv by blast
  have ms: "1 \<le> ms" "ms \<le> 86400000" 
    using ms0 by (auto simp: assertSafeInteger_Inr rbind_eq_Inr split: if_splits)
  note own = sealed_own [OF seal template_value_keys]
  have pw: "policy_wf P (json_view pol)" "policy_shape (json_view pol)"
    using policy_view(1) policy_shape_view normalizePolicy_shape [OF pol] normalizePolicy_wf [OF pol] by auto
  obtain ta td where t: "tools = JObj [(''allow'', JArr (map JStr ta)), (''deny'', JArr (map JStr td))]" "set ta \<inter> set td = {}"
    using normalizeTools_Inr [OF tools] by blast
  have f: "own ''tools'' t = JObj [(''allow'', JArr (map JStr ta)), (''deny'', JArr (map JStr td))]"
    "own ''requiredCapabilities'' t = JArr (map JStr caps)" "own ''policyCeiling'' t = json_view pol"
    "own ''writer'' t = JBool w" "own ''timeoutMs'' t = jint ms" "own ''kind'' t = JStr ''agent-template''"
    "own ''formatVersion'' t = jint 2"
    by (simp add: own, simp add: template_value_def t(1))+
  have "allow = map JStr ta" using allow(1) t(1) by simp
  then show ?thesis using allow(2) ms t(2) pw unfolding template_wf_def f by auto
qed

section \<open>Resolved specifications\<close>

text \<open>\<open>spec_narrows P spec template\<close>: the specification exceeds the template on no surface.\<close>

definition spec_narrows :: "platform \<Rightarrow> jsval \<Rightarrow> jsval \<Rightarrow> bool" where
  "spec_narrows P spec template \<longleftrightarrow>
     set (items (own ''allow'' (own ''tools'' spec))) \<subseteq> set (items (own ''allow'' (own ''tools'' template)))
   \<and> set (items (own ''allow'' (own ''tools'' spec))) \<inter> set (items (own ''deny'' (own ''tools'' template))) = {}
   \<and> set (items (own ''deny'' (own ''tools'' template))) \<subseteq> set (items (own ''deny'' (own ''tools'' spec)))
   \<and> set (items (own ''requiredCapabilities'' spec)) \<subseteq> set (items (own ''requiredCapabilities'' template))
   \<and> policy_within P (own ''effectivePolicy'' spec) (own ''policyCeiling'' template)
   \<and> (own ''writer'' spec = JBool True \<longrightarrow> own ''writer'' template = JBool True)
   \<and> (own ''writer'' spec = JBool False \<longrightarrow> \<not> allows_mutating (items (own ''allow'' (own ''tools'' spec))))
   \<and> (\<exists>n m. own ''timeoutMs'' spec = jint n \<and> own ''timeoutMs'' template = jint m \<and> 1 \<le> n \<and> n \<le> m)"

lemma resolveTools_narrow:
  assumes "resolveTools P input t = Inr tools"
    and t: "own ''tools'' t = JObj [(''allow'', JArr (map JStr ta)), (''deny'', JArr (map JStr td))]"
  shows "\<exists>sa sd. tools = JObj [(''allow'', JArr (map JStr sa)), (''deny'', JArr (map JStr sd))]
     \<and> set sa \<subseteq> set ta \<and> set sa \<inter> set td = {} \<and> set td \<subseteq> set sd"
proof -
  from assms(1) obtain rt ra out sa tdl rdl where
    rt: "(if own ''tools'' input = JUndef then Inr (own ''tools'' t) else normalizeTools (own ''tools'' input)) = Inr rt"
    and ra: "own ''allow'' rt = JArr ra"
    and fo: "filterR (\<lambda>tool. rbind (prop_of ''allow'' (own ''tools'' t)) (\<lambda>ta.
              rbind (js_includes ta tool) (\<lambda>b. Inr (\<not> b)))) ra = Inr []"
    and fa: "filterR (\<lambda>tool. rbind (prop_of ''deny'' (own ''tools'' t)) (\<lambda>td.
              rbind (js_includes td tool) (\<lambda>b. Inr (\<not> b)))) ra = Inr sa"
    and td: "iterate (own ''deny'' (own ''tools'' t)) = Inr tdl"
    and rd: "iterate (own ''deny'' rt) = Inr rdl"
    and tools: "tools = JObj [(''allow'', JArr (js_sort P sa)), (''deny'', JArr (js_sort P (js_uniq (tdl @ rdl))))]"
    unfolding resolveTools_def res_inv by blast
  have strs: "\<exists>ss. xs = map JStr ss" if "\<forall>x \<in> set xs. isStr x" for xs :: "jsval list"
    using that by (induction xs) (auto simp: isStr_iff, metis list.simps(9))
  obtain a0 d0 where "rt = JObj [(''allow'', JArr (map JStr a0)), (''deny'', JArr (map JStr d0))]"
  proof (cases "own ''tools'' input = JUndef")
    case True
    then have "rt = own ''tools'' t" using rt by simp
    then show ?thesis using that t by metis
  next
    case False
    then show ?thesis using that rt normalizeTools_Inr [of "own ''tools'' input" rt] by auto
  qed
  then have rd': "\<forall>x \<in> set rdl. isStr x" using rd by auto
  have "{x \<in> set ra. x \<notin> set (map JStr ta)} = {}"
    using filterR_set [OF fo] by (auto simp: t prop_of_def)
  then have sub: "set ra \<subseteq> set (map JStr ta)" by blast
  have sa: "set sa = {x \<in> set ra. x \<notin> set (map JStr td)}"
    using filterR_set [OF fa] by (auto simp: t prop_of_def)
  have "\<forall>x \<in> set (js_sort P sa). isStr x" using sa sub by auto
  then obtain sa' where sa': "js_sort P sa = map JStr sa'" using strs by blast
  have "\<forall>x \<in> set (js_sort P (js_uniq (tdl @ rdl))). isStr x" using td t rd' by auto
  then obtain sd' where sd': "js_sort P (js_uniq (tdl @ rdl)) = map JStr sd'" using strs by blast
  have 1: "JStr ` set sa' = set sa" using arg_cong [OF sa', of set] by simp
  have 2: "JStr ` set sd' = set tdl \<union> set rdl" using arg_cong [OF sd', of set] by simp
  have 3: "set tdl = JStr ` set td" using td t by auto
  have inj: "inj JStr" by (simp add: inj_def)
  have "JStr ` set sa' \<subseteq> JStr ` set ta" using 1 sa sub by auto
  then have "set sa' \<subseteq> set ta" using inj by (simp only: inj_image_subset_iff)
  moreover have "set sa' \<inter> set td = {}" using 1 sa by (auto simp: image_iff)
  moreover have "set td \<subseteq> set sd'" using 2 3 inj by (metis Un_upper1 inj_image_subset_iff)
  ultimately show ?thesis using tools sa' sd' by metis
qed

lemma resolveCapabilities_narrow:
  assumes "resolveCapabilities input t = Inr caps" "own ''requiredCapabilities'' t = JArr (map JStr rc)"
  shows "\<exists>cs. caps = map JStr cs \<and> set cs \<subseteq> set rc"
proof -
  from assms(1) have "filterR (\<lambda>c. rbind (js_includes (own ''requiredCapabilities'' t) c) (\<lambda>b. Inr (\<not> b))) caps = Inr []"
    unfolding resolveCapabilities_def res_inv by auto
  from filterR_set [OF this] have sub: "set caps \<subseteq> JStr ` set rc" by (auto simp: assms(2))
  then have "\<exists>cs. caps = map JStr cs"
    by (induction caps) (auto, metis list.simps(9))
  then obtain cs where cs: "caps = map JStr cs" by blast
  then have "set cs \<subseteq> set rc" using sub by auto
  then show ?thesis using cs by blast
qed

lemma spec_value_keys: "distinct (map fst (spec_value a b c d e f g h i j k l m n))"
  "''specHash'' \<notin> set (map fst (spec_value a b c d e f g h i j k l m n))"
  by (simp_all add: spec_value_def)

lemma createResolvedAgentSpec_fields:
  assumes "createResolvedAgentSpec P input = Inr spec"
  shows "\<exists>id' tools caps pol ph model ins outs w ms mode ovl spc u.
      sealed P (spec_value (own ''template'' input) id' tools caps pol ph model ins outs w ms mode ovl spc) ''specHash'' = Inr spec
    \<and> resolveTools P input (own ''template'' input) = Inr tools
    \<and> resolveCapabilities input (own ''template'' input) = Inr caps
    \<and> (if own ''effectivePolicy'' input = JUndef then Inr (own ''policyCeiling'' (own ''template'' input))
         else normalizePolicy P (own ''effectivePolicy'' input)) = Inr pol
    \<and> assertPolicyNarrower P pol (own ''policyCeiling'' (own ''template'' input)) = Inr u
    \<and> (if own ''writer'' input = JUndef then Inr (own ''writer'' (own ''template'' input))
         else rbind (assertBoolean (own ''writer'' input)) (\<lambda>b. Inr (JBool b))) = Inr w
    \<and> \<not> (truthy w \<and> \<not> truthy (own ''writer'' (own ''template'' input)))
    \<and> (\<exists>allow. own ''allow'' tools = JArr allow \<and> \<not> (\<not> truthy w \<and> allows_mutating allow))
    \<and> (if own ''timeoutMs'' input = JUndef then Inr (own ''timeoutMs'' (own ''template'' input))
         else rbind (assertSafeInteger 1 MAX_SAFE_INTEGER (own ''timeoutMs'' input)) (\<lambda>t.
           Inr (JNum (num_min (js_number P (own ''timeoutMs'' (own ''template'' input))) (num_of_int t))))) = Inr ms"
  using assms unfolding createResolvedAgentSpec_def res_inv
  by (elim exE conjE) (intro exI conjI, assumption+)

text \<open>The narrowing theorem: a specification resolved from a constructed template stays inside it.\<close>

lemma resolved_spec_narrows:
  assumes tmpl: "createAgentTemplate P tin = Inr t" "own ''template'' input = t"
    and spec: "createResolvedAgentSpec P input = Inr spec"
  shows "spec_narrows P spec t"
proof -
  have wf: "template_wf P t" using createAgentTemplate_wf [OF tmpl(1)] .
  then obtain ta td rc m w0 where t: "own ''tools'' t = JObj [(''allow'', JArr (map JStr ta)), (''deny'', JArr (map JStr td))]"
    and rc: "own ''requiredCapabilities'' t = JArr (map JStr rc)"
    and pc: "policy_wf P (own ''policyCeiling'' t)" "policy_shape (own ''policyCeiling'' t)"
    and w0: "own ''writer'' t = JBool w0" and m: "own ''timeoutMs'' t = jint m" "1 \<le> m" "m \<le> 86400000"
    unfolding template_wf_def isBool_iff by blast
  obtain id' tools caps pol ph model ins outs w ms mode ovl spc allow u where
    seal: "sealed P (spec_value t id' tools caps pol ph model ins outs w ms mode ovl spc) ''specHash'' = Inr spec"
    and tools: "resolveTools P input t = Inr tools" and caps: "resolveCapabilities input t = Inr caps"
    and pol: "(if own ''effectivePolicy'' input = JUndef then Inr (own ''policyCeiling'' t)
         else normalizePolicy P (own ''effectivePolicy'' input)) = Inr pol"
    and nar: "assertPolicyNarrower P pol (own ''policyCeiling'' t) = Inr u"
    and w: "(if own ''writer'' input = JUndef then Inr (own ''writer'' t)
         else rbind (assertBoolean (own ''writer'' input)) (\<lambda>b. Inr (JBool b))) = Inr w"
    and wr: "\<not> (truthy w \<and> \<not> truthy (own ''writer'' t))" "own ''allow'' tools = JArr allow" "\<not> (\<not> truthy w \<and> allows_mutating allow)"
    and ms: "(if own ''timeoutMs'' input = JUndef then Inr (own ''timeoutMs'' t)
         else rbind (assertSafeInteger 1 MAX_SAFE_INTEGER (own ''timeoutMs'' input)) (\<lambda>n.
           Inr (JNum (num_min (js_number P (own ''timeoutMs'' t)) (num_of_int n))))) = Inr ms"
    using createResolvedAgentSpec_fields [OF spec] unfolding tmpl(2) by blast
  note own = sealed_own [OF seal spec_value_keys]
  obtain sa sd where sa: "tools = JObj [(''allow'', JArr (map JStr sa)), (''deny'', JArr (map JStr sd))]"
    "set sa \<subseteq> set ta" "set sa \<inter> set td = {}" "set td \<subseteq> set sd"
    using resolveTools_narrow [OF tools t] by blast
  obtain cs where cs: "caps = map JStr cs" "set cs \<subseteq> set rc" using resolveCapabilities_narrow [OF caps rc] by blast
  have ps: "policy_shape pol" "policy_wf P pol"
    using pol pc normalizePolicy_shape normalizePolicy_wf by (auto split: if_splits)
  have pn: "policy_within P (json_view pol) (own ''policyCeiling'' t)"
    using policy_view(4) [OF ps] assertPolicyNarrower_within [OF nar ps(2) pc(1)] by blast
  obtain b where b: "w = JBool b" using w unfolding w0 by (auto simp: rbind_eq_Inr split: if_splits)
  obtain n where n: "ms = jint n" "1 \<le> n" "n \<le> m"
    using ms m(2,3) unfolding m(1) by (auto simp: rbind_eq_Inr assertSafeInteger_Inr num_min_def split: if_splits)
  have f: "own ''tools'' spec = tools" "own ''requiredCapabilities'' spec = JArr caps"
    "own ''effectivePolicy'' spec = json_view pol" "own ''writer'' spec = w" "own ''timeoutMs'' spec = ms"
    by (simp add: own, simp add: spec_value_def sa(1) cs(1) b n(1))+
  have img: "JStr ` set sa \<subseteq> JStr ` set ta" "JStr ` set sa \<inter> JStr ` set td = {}" "JStr ` set td \<subseteq> JStr ` set sd"
    "JStr ` set cs \<subseteq> JStr ` set rc" using sa(2-4) cs(2) by auto
  have mut: "\<not> allows_mutating (map JStr sa)" if "w = JBool False" using wr(2,3) that sa(1) by simp
  have wt: "own ''writer'' t = JBool True" if "w = JBool True" using wr(1) that w0 by simp
  show ?thesis using img pn mut wt n m(1) unfolding spec_narrows_def f t rc sa(1) cs(1) by simp
qed

section \<open>Properties\<close>

definition scout_template_input :: jsval where
  "scout_template_input = JObj [(''id'', JStr ''scout''), (''version'', JStr ''1''), (''backendAgentId'', JStr ''scout''),
    (''sourceHash'', zero_digest), (''promptHash'', zero_digest),
    (''tools'', JObj [(''allow'', JArr [JStr ''read'', JStr ''edit'']), (''deny'', JArr [JStr ''bash''])]),
    (''policyCeiling'', JObj [(''workspace'', JStr ''worktree-write''), (''mutation'', JStr ''workspace''), (''approval'', JStr ''ask''),
       (''egress'', JObj [(''web'', JStr ''deny''), (''mcp'', JStr ''deny''), (''provider'', JStr ''inherit''), (''extension'', JStr ''deny'')])]),
    (''writer'', JBool True), (''continuable'', JBool False), (''resumable'', JBool True), (''timeoutSeconds'', jint 60),
    (''modelRole'', JStr ''fast'')]"

definition scout_spec_input :: "jsval \<Rightarrow> jsval" where
  "scout_spec_input t = JObj [(''template'', t), (''timeoutMs'', jint 5000)]"

lemma scout_resolves:
  "\<exists>t spec. createAgentTemplate plain_host scout_template_input = Inr t
     \<and> createResolvedAgentSpec plain_host (scout_spec_input t) = Inr spec"
proof -
  have "\<not> isl (rbind (createAgentTemplate plain_host scout_template_input)
       (\<lambda>t. createResolvedAgentSpec plain_host (scout_spec_input t)))"
    by code_simp
  from not_isl_Inr [OF this] show ?thesis by (auto simp: rbind_eq_Inr)
qed

text \<open>
  (C2) A specification that \<open>createResolvedAgentSpec\<close> accepts for a template built by
  \<open>createAgentTemplate\<close> exceeds the template on no surface: tools, denied tools, capabilities,
  every policy rank, the writer role and the timeout.
\<close>

theorem spec_never_escalates:
  assumes "createAgentTemplate P tin = Inr t" "own ''template'' input = t"
    and "createResolvedAgentSpec P input = Inr spec"
  shows "spec_narrows P spec t"
  using assms by (rule resolved_spec_narrows)

theorem spec_never_escalates_witness:
  "\<exists>t spec. createAgentTemplate plain_host scout_template_input = Inr t
     \<and> createResolvedAgentSpec plain_host (scout_spec_input t) = Inr spec \<and> spec_narrows plain_host spec t"
proof -
  obtain t spec where t: "createAgentTemplate plain_host scout_template_input = Inr t"
    "createResolvedAgentSpec plain_host (scout_spec_input t) = Inr spec" using scout_resolves by blast
  have "own ''template'' (scout_spec_input t) = t" by (simp add: scout_spec_input_def)
  from spec_never_escalates [OF t(1) this t(2)] show ?thesis using t by blast
qed

end
