(* ===== verification/Domain_Assignment.thy ===== *)
theory Domain_Assignment
  imports Domain_Agent
begin

text \<open>
  \<open>packages/subagents/domain/assignment.mjs\<close>: task assignments. A path claim is covered by an
  allowed path when it is that path or lies below it; on contained paths this is the prefix order
  of the path components (locale \<open>path_cover\<close>). The lemmas show that an assignment never
  exceeds its agent specification and that a writer holds covered claims and a base commit.
\<close>

section \<open>Operations\<close>

definition assignmentPathClaimCovered :: "platform \<Rightarrow> string \<Rightarrow> jsval list \<Rightarrow> bool" where
  "assignmentPathClaimCovered P claim allowedPaths \<longleftrightarrow>
     (let normalizedClaim = strip_slash claim in
      \<exists>allowed \<in> set allowedPaths. case allowed of
          JStr s \<Rightarrow> normalizedClaim = strip_slash s \<or> prefix (strip_slash s @ ''/'') normalizedClaim
        | _ \<Rightarrow> prefix (js_string P allowed @ ''/'') normalizedClaim)"

definition normalizeTask :: "platform \<Rightarrow> jsval \<Rightarrow> jsval res" where
  "normalizeTask P v =
     rbind (if isStr v then Inr (JObj [(''text'', v)]) else assertRecord v) (\<lambda>input.
     rbind (assertString 1 (128 * 1024) (own ''text'' input)) (\<lambda>text'.
     rbind (digestValue P (JStr text')) (\<lambda>digest.
     rbind (if own ''digest'' input = JUndef then Inr ()
            else rbind (assertSha256 (own ''digest'' input)) (\<lambda>given.
              if given \<noteq> digest then failSub ''ASSIGNMENT_TASK_DIGEST_MISMATCH'' else Inr ())) (\<lambda>_.
     rbind (if own ''ref'' input = JUndef then Inr []
            else rbind (assertString 1 512 (own ''ref'' input)) (\<lambda>r. Inr [(''ref'', JStr r)])) (\<lambda>ref.
     Inr (JObj ([(''text'', JStr text'), (''digest'', JStr digest)] @ ref)))))))"

definition relativePaths :: "jsval \<Rightarrow> string list res" where
  "relativePaths v = rbind (arr_of (coalesce v (JArr []))) (\<lambda>vs.
     rbind (mapR assertRelativePath vs) (\<lambda>ps. if \<not> distinct ps then Inl TypeError else Inr ps))"

definition ownership_value :: "jsval \<Rightarrow> string \<Rightarrow> string list \<Rightarrow> string list \<Rightarrow> string option \<Rightarrow> (string \<times> jsval) list" where
  "ownership_value writer workspace allowedPaths fileClaims baseCommit =
     [(''writer'', writer),
      (''workspace'', JStr workspace),
      (''allowedPaths'', JArr (map JStr (sort allowedPaths))),
      (''fileClaims'', JArr (map JStr (sort fileClaims)))]
     @ (case baseCommit of None \<Rightarrow> [] | Some c \<Rightarrow> [(''baseCommit'', JStr c)])"

definition normalizeOwnership :: "platform \<Rightarrow> jsval \<Rightarrow> jsval \<Rightarrow> jsval res" where
  "normalizeOwnership P v agentSpec =
     rbind (if v = JUndef then Inr (JObj []) else assertRecord v) (\<lambda>input.
     let writer = (if own ''writer'' input = JUndef then own ''writer'' agentSpec
                   else JBool (own ''writer'' input = JBool True)) in
     if truthy writer \<and> \<not> truthy (own ''writer'' agentSpec) then failSub ''ASSIGNMENT_WRITER_ESCALATION'' else
     rbind (if nullish (own ''workspace'' input) then prop_of ''workspace'' (own ''effectivePolicy'' agentSpec)
            else Inr (own ''workspace'' input)) (\<lambda>requestedWorkspace.
     case WORKSPACE_CANONICAL (js_string P requestedWorkspace) of None \<Rightarrow> Inl TypeError | Some workspace \<Rightarrow>
     rbind (prop_of ''workspace'' (own ''effectivePolicy'' agentSpec)) (\<lambda>upper.
     if rank_gt P WORKSPACE_RANK (JStr workspace) upper then failSub ''ASSIGNMENT_WORKSPACE_ESCALATION'' else
     rbind (relativePaths (own ''allowedPaths'' input)) (\<lambda>allowedPaths.
     rbind (relativePaths (own ''fileClaims'' input)) (\<lambda>fileClaims.
     rbind (forR (\<lambda>claim. if \<not> assignmentPathClaimCovered P claim (map JStr allowedPaths)
                         then failSub ''ASSIGNMENT_FILE_CLAIM_OUTSIDE_PATHS'' else Inr ()) fileClaims) (\<lambda>_.
     rbind (if own ''baseCommit'' input = JUndef then Inr None
            else rbind (assertString 1 128 (own ''baseCommit'' input)) (\<lambda>c. Inr (Some c))) (\<lambda>baseCommit.
     if baseCommit \<noteq> None \<and> \<not> GIT_COMMIT (the baseCommit) then failSub ''ASSIGNMENT_BASE_COMMIT_INVALID'' else
     if truthy writer \<and> fileClaims = [] then failSub ''ASSIGNMENT_WRITER_CLAIMS_REQUIRED'' else
     if truthy writer \<and> baseCommit = None then failSub ''ASSIGNMENT_WRITER_BASE_COMMIT_REQUIRED'' else
     Inr (JObj (ownership_value writer workspace allowedPaths fileClaims baseCommit)))))))))"

definition IDEMPOTENCY_CLASSES :: "string list" where
  "IDEMPOTENCY_CLASSES = [''read-only'', ''idempotent'', ''side-effect'']"

definition normalizeIdempotency :: "jsval \<Rightarrow> bool \<Rightarrow> jsval res" where
  "normalizeIdempotency v writer =
     rbind (if v = JUndef then Inr (JObj [(''class'', JStr (if writer then ''side-effect'' else ''read-only''))])
            else assertRecord v) (\<lambda>input.
     if own ''class'' input \<notin> set (map JStr IDEMPOTENCY_CLASSES) then Inl TypeError else
     if own ''class'' input = JStr ''read-only'' \<and> writer then failSub ''ASSIGNMENT_IDEMPOTENCY_CONFLICT'' else
     if own ''class'' input = JStr ''idempotent'' \<and> own ''key'' input = JUndef then Inl TypeError else
     rbind (if own ''key'' input = JUndef then Inr []
            else rbind (assertString 1 512 (own ''key'' input)) (\<lambda>k. Inr [(''key'', JStr k)])) (\<lambda>key.
     Inr (JObj ((''class'', own ''class'' input) # key))))"

definition normalizeOutput :: "platform \<Rightarrow> jsval \<Rightarrow> jsval \<Rightarrow> jsval res" where
  "normalizeOutput P v agentSpec =
     (if v = JUndef \<and> own ''outputSchema'' agentSpec = JNull then Inr JNull else
      let input = (if v = JUndef then own ''outputSchema'' agentSpec else v) in
      if truthy (own ''hash'' input) \<and> (own ''value'' input \<noteq> JUndef \<or> own ''ref'' input \<noteq> JUndef) then Inr input else
      if isStr input then rbind (digestValue P input) (\<lambda>h. Inr (JObj [(''ref'', input), (''hash'', JStr h)])) else
      rbind (assertRecord input) (\<lambda>_.
      if own ''schema'' input \<noteq> JUndef then
        rbind (digestValue P (own ''schema'' input)) (\<lambda>h.
        Inr (JObj [(''schema'', own ''schema'' input), (''hash'', JStr h)])) else
      if own ''ref'' input \<noteq> JUndef then
        rbind (assertString 1 512 (own ''ref'' input)) (\<lambda>r.
        rbind (if nullish (own ''hash'' input) then rbind (digestValue P (own ''ref'' input)) (\<lambda>h. Inr (JStr h))
               else Inr (own ''hash'' input)) (\<lambda>h.
        Inr (JObj [(''ref'', JStr r), (''hash'', h)]))) else
      rbind (digestValue P input) (\<lambda>h. Inr (JObj [(''schema'', input), (''hash'', JStr h)]))))"

definition assignment_value :: "string \<Rightarrow> jsval \<Rightarrow> jsval \<Rightarrow> string list \<Rightarrow> jsval \<Rightarrow> jsval \<Rightarrow> string \<Rightarrow> string list \<Rightarrow> jsval
    \<Rightarrow> jsval \<Rightarrow> (string \<times> jsval) list" where
  "assignment_value assignmentId agentSpec task dependencies ownership idempotency contextMode artifactRefs budget output' =
     [(''$schema'', JStr ''https://github.com/Ricardo121380/only-my-pi/schemas/task-assignment-v1.schema.json''),
      (''formatVersion'', jint 1),
      (''contractStatus'', JStr ''contract-preview''),
      (''kind'', JStr ''task-assignment''),
      (''assignmentId'', JStr assignmentId),
      (''agentSpecId'', own ''id'' agentSpec),
      (''agentSpecHash'', own ''specHash'' agentSpec),
      (''task'', task),
      (''dependencies'', JArr (map JStr dependencies)),
      (''ownership'', ownership),
      (''idempotency'', idempotency),
      (''context'', JObj [(''mode'', JStr contextMode), (''artifactRefs'', JArr (map JStr artifactRefs))]),
      (''budget'', budget),
      (''output'', output')]"

definition createTaskAssignment :: "platform \<Rightarrow> jsval \<Rightarrow> jsval res" where
  "createTaskAssignment P input =
     rbind (assertRecord input) (\<lambda>_.
     let agentSpec = own ''agentSpec'' input in
     if own ''kind'' agentSpec \<noteq> JStr ''resolved-agent-spec'' \<or> own ''formatVersion'' agentSpec \<noteq> jint 1 then Inl TypeError else
     rbind (normalizeTask P (own ''task'' input)) (\<lambda>task.
     rbind (normalizeOwnership P (own ''ownership'' input) agentSpec) (\<lambda>ownership.
     rbind (normalizeIdempotency (own ''idempotency'' input) (truthy (own ''writer'' ownership))) (\<lambda>idempotency.
     rbind (if own ''context'' input = JUndef then Inr (JObj []) else assertRecord (own ''context'' input)) (\<lambda>contextInput.
     let contextMode = coalesce (own ''mode'' contextInput) (JStr ''fresh'') in
     if contextMode \<notin> {JStr ''fresh'', JStr ''fork''} then Inl TypeError else
     rbind (normalizeStringSet False 256 (coalesce (own ''artifactRefs'' contextInput) (JArr []))) (\<lambda>artifactRefs.
     rbind (assertDomainId (own ''assignmentId'' input)) (\<lambda>assignmentId.
     rbind (normalizeStringSet True 256 (coalesce (own ''dependencies'' input) (JArr []))) (\<lambda>dependencies.
     rbind (if own ''budget'' input = JUndef then Inr (JObj []) else assertRecord (own ''budget'' input)) (\<lambda>budget.
     rbind (normalizeOutput P (own ''output'' input) agentSpec) (\<lambda>output'.
     let val = assignment_value assignmentId agentSpec task dependencies ownership idempotency
                 (js_string P contextMode) artifactRefs budget output';
         hashProjection = oset ''task'' (JObj ((''digest'', own ''digest'' task) #
             (if truthy (own ''ref'' task) then [(''ref'', own ''ref'' task)] else []))) (JObj val)
     in rbind (digestValue P hashProjection) (\<lambda>h.
        Inr (immutable (JObj (val @ [(''assignmentHash'', JStr h)]))))))))))))))"

definition assignmentReceiptProjection :: "jsval \<Rightarrow> jsval res" where
  "assignmentReceiptProjection assignment =
     (if own ''kind'' assignment \<noteq> JStr ''task-assignment'' then Inl TypeError else
      rbind (prop_of ''digest'' (own ''task'' assignment)) (\<lambda>taskDigest.
      Inr (immutable (JObj [
        (''assignmentId'', own ''assignmentId'' assignment),
        (''assignmentHash'', own ''assignmentHash'' assignment),
        (''agentSpecId'', own ''agentSpecId'' assignment),
        (''agentSpecHash'', own ''agentSpecHash'' assignment),
        (''taskDigest'', taskDigest),
        (''dependencies'', own ''dependencies'' assignment),
        (''ownership'', own ''ownership'' assignment),
        (''idempotency'', own ''idempotency'' assignment),
        (''context'', own ''context'' assignment),
        (''outputHash'', coalesce (own ''hash'' (own ''output'' assignment)) JNull)]))))"

section \<open>Covering paths\<close>

text \<open>
  The contract of a covering check: \<open>covers c a\<close> holds when the components of \<open>a\<close> are a prefix
  of those of \<open>c\<close>. Its clients need that covering is a partial order on the components and that
  two paths that both cover a third are comparable: paths that do not overlap share nothing below them.
\<close>

definition path_parts :: "string \<Rightarrow> string list" where
  "path_parts p = split_on (CHR ''/'') p"

locale path_cover =
  fixes valid :: "string \<Rightarrow> bool" and covers :: "string \<Rightarrow> string \<Rightarrow> bool"
  assumes covers_iff: "valid c \<Longrightarrow> valid a \<Longrightarrow> covers c a \<longleftrightarrow> prefix (path_parts a) (path_parts c)"
begin

lemma covers_refl: "valid a \<Longrightarrow> covers a a"
  by (simp add: covers_iff)

lemma covers_trans: "valid a \<Longrightarrow> valid b \<Longrightarrow> valid c \<Longrightarrow> covers c b \<Longrightarrow> covers b a \<Longrightarrow> covers c a"
  by (auto simp: covers_iff intro: prefix_order.trans)

lemma covers_comparable:
  "valid a \<Longrightarrow> valid b \<Longrightarrow> valid c \<Longrightarrow> covers c a \<Longrightarrow> covers c b \<Longrightarrow> covers a b \<or> covers b a"
  by (auto simp: covers_iff dest: prefix_same_cases)

end

lemma join_split_append:
  "ys \<noteq> [] \<Longrightarrow> join_on [c] (split_on c a @ ys) = a @ c # join_on [c] ys"
proof (induction a)
  case Nil
  then show ?case by (cases ys) auto
next
  case (Cons x a)
  obtain u us where e: "split_on c a = u # us" by (cases "split_on c a") simp_all
  have IH: "join_on [c] (u # us @ ys) = a @ c # join_on [c] ys" using Cons e by simp
  obtain v vs where v: "us @ ys = v # vs" using Cons.prems by (cases "us @ ys") auto
  have IH': "u @ c # join_on [c] (v # vs) = a @ c # join_on [c] ys" using IH v by simp
  have sp: "split_on c (x # a) @ ys = (if x = c then [] # u # v # vs else (x # u) # v # vs)" using e v by simp
  have "join_on [c] (split_on c (x # a) @ ys) = x # u @ c # join_on [c] (v # vs)" unfolding sp by simp
  also have "\<dots> = x # a @ c # join_on [c] ys" using IH' by (simp only:)
  finally show ?case unfolding append_Cons .
qed

text \<open>The string check and the component check agree.\<close>

lemma below_iff_parts: "c = a \<or> prefix (a @ ''/'') c \<longleftrightarrow> prefix (path_parts a) (path_parts c)"
proof
  assume "c = a \<or> prefix (a @ ''/'') c"
  then show "prefix (path_parts a) (path_parts c)"
    by (auto simp: path_parts_def prefix_def split_on_append_sep)
next
  assume "prefix (path_parts a) (path_parts c)"
  then obtain ys where ys: "split_on (CHR ''/'') c = split_on (CHR ''/'') a @ ys"
    by (auto simp: path_parts_def prefix_def)
  show "c = a \<or> prefix (a @ ''/'') c"
  proof (cases "ys = []")
    case True
    then have "c = a" using ys by (metis append_Nil2 join_split_on)
    then show ?thesis ..
  next
    case False
    have "c = a @ CHR ''/'' # join_on ''/'' ys"
      using join_split_append [OF False, of "CHR ''/''" a] ys join_split_on [of "CHR ''/''" c] by simp
    then show ?thesis by (auto simp: prefix_def)
  qed
qed

text \<open>Paths without a trailing slash, as \<open>assertRelativePath\<close> returns them.\<close>

definition clean_path :: "string \<Rightarrow> bool" where
  "clean_path p \<longleftrightarrow> p \<noteq> [] \<and> last p \<noteq> CHR ''/''"

lemma strip_clean: "clean_path p \<Longrightarrow> strip_slash p = p"
  by (simp add: strip_slash_def clean_path_def)

lemma split_on_last: "p \<noteq> [] \<Longrightarrow> last p = c \<Longrightarrow> [] \<in> set (split_on c p)"
proof -
  assume "p \<noteq> []" "last p = c"
  then have "p = butlast p @ [c]" by (metis append_butlast_last_id)
  then have "split_on c p = split_on c (butlast p) @ split_on c []"
    using split_on_append_sep [of c "butlast p" "[]"] by simp
  then show ?thesis by simp
qed

lemma assertRelativePath_clean: "assertRelativePath v = Inr p \<Longrightarrow> clean_path p"
  using assertRelativePath_Inr(1,3) [of v p] split_on_last [of p "CHR ''/''"] by (auto simp: clean_path_def)

interpretation claims: path_cover clean_path "\<lambda>c a. assignmentPathClaimCovered P c [JStr a]" for P
  by unfold_locales (simp add: assignmentPathClaimCovered_def strip_clean below_iff_parts)

lemma covered_iff_parts:
  assumes "clean_path c" "list_all clean_path as"
  shows "assignmentPathClaimCovered P c (map JStr as) \<longleftrightarrow> (\<exists>a \<in> set as. prefix (path_parts a) (path_parts c))"
  using assms by (auto simp: assignmentPathClaimCovered_def strip_clean list_all_iff below_iff_parts Let_def)

section \<open>What an assignment guarantees\<close>

lemma relativePaths_Inr:
  assumes "relativePaths v = Inr ps"
  shows "distinct ps" "list_all clean_path ps"
    "\<forall>p \<in> set ps. ''..'' \<notin> set (path_parts p) \<and> [] \<notin> set (path_parts p)"
proof -
  from assms obtain vs where m: "mapR assertRelativePath vs = Inr ps" and d: "distinct ps"
    unfolding relativePaths_def res_inv by blast
  show "distinct ps" by fact
  show "list_all clean_path ps"
    using mapR_member [OF m] assertRelativePath_clean by (auto simp: list_all_iff)
  show "\<forall>p \<in> set ps. ''..'' \<notin> set (path_parts p) \<and> [] \<notin> set (path_parts p)"
    using mapR_member [OF m] assertRelativePath_Inr by (fastforce simp: path_parts_def)
qed

text \<open>
  \<open>ownership_ok P own spec\<close>: no wider than the specification; every claim is a contained path
  below an allowed path; a writer has a claim and a full base commit.
\<close>

definition ownership_ok :: "platform \<Rightarrow> jsval \<Rightarrow> jsval \<Rightarrow> bool" where
  "ownership_ok P ow spec \<longleftrightarrow>
     (truthy (own ''writer'' ow) \<longrightarrow> truthy (own ''writer'' spec))
   \<and> \<not> rank_gt P WORKSPACE_RANK (own ''workspace'' ow) (own ''workspace'' (own ''effectivePolicy'' spec))
   \<and> (\<exists>w. own ''workspace'' ow = JStr w \<and> WORKSPACE_RANK w \<noteq> None)
   \<and> (\<exists>as cs. own ''allowedPaths'' ow = JArr (map JStr as) \<and> own ''fileClaims'' ow = JArr (map JStr cs)
        \<and> distinct as \<and> distinct cs \<and> list_all clean_path as \<and> list_all clean_path cs
        \<and> (\<forall>p \<in> set as \<union> set cs. ''..'' \<notin> set (path_parts p))
        \<and> (\<forall>c \<in> set cs. \<exists>a \<in> set as. prefix (path_parts a) (path_parts c))
        \<and> (truthy (own ''writer'' ow) \<longrightarrow> cs \<noteq> [] \<and> (\<exists>b. own ''baseCommit'' ow = JStr b \<and> GIT_COMMIT b)))"

lemma ownership_value_own [simp]:
  "own ''writer'' (JObj (ownership_value w ws as cs b)) = w"
  "own ''workspace'' (JObj (ownership_value w ws as cs b)) = JStr ws"
  "own ''allowedPaths'' (JObj (ownership_value w ws as cs b)) = JArr (map JStr (sort as))"
  "own ''fileClaims'' (JObj (ownership_value w ws as cs b)) = JArr (map JStr (sort cs))"
  "own ''baseCommit'' (JObj (ownership_value w ws as cs b)) = (case b of None \<Rightarrow> JUndef | Some c \<Rightarrow> JStr c)"
  by (auto simp: ownership_value_def split: option.splits)

lemma normalizeOwnership_ok:
  assumes "normalizeOwnership P v spec = Inr ow"
  shows "ownership_ok P ow spec"
proof -
  from assms obtain w ws as cs b u requested upper where
    w: "\<not> (truthy w \<and> \<not> truthy (own ''writer'' spec))"
    and ws: "WORKSPACE_CANONICAL (js_string P requested) = Some ws"
    and up: "upper = own ''workspace'' (own ''effectivePolicy'' spec)" "\<not> rank_gt P WORKSPACE_RANK (JStr ws) upper"
    and as: "\<exists>x. relativePaths x = Inr as" and cs: "\<exists>x. relativePaths x = Inr cs"
    and cov: "forR (\<lambda>claim. if \<not> assignmentPathClaimCovered P claim (map JStr as)
                         then failSub ''ASSIGNMENT_FILE_CLAIM_OUTSIDE_PATHS'' else Inr ()) cs = Inr u"
    and b: "\<not> (b \<noteq> None \<and> \<not> GIT_COMMIT (the b))" "\<not> (truthy w \<and> cs = [])" "\<not> (truthy w \<and> b = None)"
    and ow: "ow = JObj (ownership_value w ws as cs b)"
    unfolding normalizeOwnership_def res_inv by blast
  obtain x y where xy: "relativePaths x = Inr as" "relativePaths y = Inr cs" using as cs by blast
  note A = relativePaths_Inr [OF xy(1)] and C = relativePaths_Inr [OF xy(2)]
  have covered: "\<forall>c \<in> set cs. \<exists>a \<in> set as. prefix (path_parts a) (path_parts c)"
  proof
    fix c assume c: "c \<in> set cs"
    then have "assignmentPathClaimCovered P c (map JStr as)" using cov by (auto simp: forR_eq_Inr split: if_splits)
    then show "\<exists>a \<in> set as. prefix (path_parts a) (path_parts c)"
      using covered_iff_parts A(2) C(2) c by (auto simp: list_all_iff)
  qed
  have base: "\<exists>x. own ''baseCommit'' ow = JStr x \<and> GIT_COMMIT x" if "truthy w"
    using b that by (cases b) (auto simp: ow)
  have claims: "truthy w \<Longrightarrow> sort cs \<noteq> []" using b(2) by (metis length_0_conv length_sort)
  have "own ''allowedPaths'' ow = JArr (map JStr (sort as)) \<and> own ''fileClaims'' ow = JArr (map JStr (sort cs))
        \<and> distinct (sort as) \<and> distinct (sort cs) \<and> list_all clean_path (sort as) \<and> list_all clean_path (sort cs)
        \<and> (\<forall>p \<in> set (sort as) \<union> set (sort cs). ''..'' \<notin> set (path_parts p))
        \<and> (\<forall>c \<in> set (sort cs). \<exists>a \<in> set (sort as). prefix (path_parts a) (path_parts c))
        \<and> (truthy (own ''writer'' ow) \<longrightarrow> sort cs \<noteq> [] \<and> (\<exists>b. own ''baseCommit'' ow = JStr b \<and> GIT_COMMIT b))"
    using base claims A C covered by (auto simp: ow list_all_iff)
  moreover have "own ''workspace'' ow = JStr ws \<and> WORKSPACE_RANK ws \<noteq> None"
    using canonical_ranked(1) [OF ws] by (simp add: ow)
  moreover have "truthy (own ''writer'' ow) \<longrightarrow> truthy (own ''writer'' spec)" using w by (simp add: ow)
  moreover have "\<not> rank_gt P WORKSPACE_RANK (own ''workspace'' ow) (own ''workspace'' (own ''effectivePolicy'' spec))"
    using up by (simp add: ow)
  ultimately show ?thesis unfolding ownership_ok_def by blast
qed

end
