(* ===== verification/Domain_Handle.thy ===== *)
theory Domain_Handle
  imports Domain_Assignment
begin

text \<open>
  \<open>packages/subagents/domain/handle.mjs\<close> and \<open>receipt.mjs\<close>: the stable handle of an agent run,
  the chain of backend runs bound to it, the correlation of backend events and the terminal
  receipt. The handles the constructors can produce are the inductive predicate
  \<open>run_handle\<close>; its invariant \<open>handle_wf\<close> says that the bindings form one launch followed by
  resumes of known parents, with distinct requests and a fixed backend.
\<close>

section \<open>handle.mjs\<close>

definition assertHandle :: "jsval \<Rightarrow> jsval res" where
  "assertHandle handle =
     (if own ''formatVersion'' handle \<noteq> jint 1 \<or> own ''kind'' handle \<noteq> JStr ''agent-run-handle''
         \<or> \<not> isStr (own ''handleId'' handle) then Inl TypeError else Inr handle)"

definition handle_local :: "string \<Rightarrow> string \<Rightarrow> string \<Rightarrow> jsval \<Rightarrow> jsval \<Rightarrow> (string \<times> jsval) list" where
  "handle_local runId nodeId attemptId assignment agentSpec =
     [(''runId'', JStr runId), (''nodeId'', JStr nodeId), (''attemptId'', JStr attemptId),
      (''assignmentId'', own ''assignmentId'' assignment),
      (''assignmentHash'', own ''assignmentHash'' assignment),
      (''agentSpecId'', own ''id'' agentSpec),
      (''agentSpecHash'', own ''specHash'' agentSpec)]"

definition handle_value :: "string \<Rightarrow> (string \<times> jsval) list \<Rightarrow> jsval \<Rightarrow> jsval \<Rightarrow> jsval" where
  "handle_value handleId local' continuable resumable = JObj [
     (''formatVersion'', jint 1), (''kind'', JStr ''agent-run-handle''), (''handleId'', JStr handleId),
     (''local'', JObj local'), (''continuable'', continuable), (''resumable'', resumable),
     (''backendId'', JNull), (''backendBindings'', JArr []), (''activeBindingId'', JNull)]"

definition createAgentRunHandle :: "platform \<Rightarrow> jsval \<Rightarrow> jsval res" where
  "createAgentRunHandle P input =
     rbind (assertRecord input) (\<lambda>_.
     let assignment = own ''assignment'' input; agentSpec = own ''agentSpec'' input in
     if own ''kind'' assignment \<noteq> JStr ''task-assignment'' then Inl TypeError else
     if own ''kind'' agentSpec \<noteq> JStr ''resolved-agent-spec'' then Inl TypeError else
     if \<not> js_eq (own ''agentSpecHash'' assignment) (own ''specHash'' agentSpec) then failSub ''HANDLE_AGENT_SPEC_MISMATCH'' else
     rbind (assertDomainId (own ''runId'' input)) (\<lambda>runId.
     rbind (assertDomainId (own ''nodeId'' input)) (\<lambda>nodeId.
     rbind (assertDomainId (own ''attemptId'' input)) (\<lambda>attemptId.
     let local' = handle_local runId nodeId attemptId assignment agentSpec in
     rbind (digestValue P (JObj ((''kind'', JStr ''agent-run-handle'') # local'))) (\<lambda>handleId.
     Inr (immutable (handle_value handleId local' (own ''continuable'' agentSpec) (own ''resumable'' agentSpec))))))))"

text \<open>The \<open>value\<close> literal of \<open>bindBackendRun\<close>, without its optional tail.\<close>

definition binding_value :: "string \<Rightarrow> string \<Rightarrow> jsval \<Rightarrow> jsval \<Rightarrow> string \<Rightarrow> string \<Rightarrow> (string \<times> jsval) list \<Rightarrow> (string \<times> jsval) list" where
  "binding_value backendId backendVersion protocolVersion lifecycle requestId backendRunId optional =
     [(''backendId'', JStr backendId), (''backendVersion'', JStr backendVersion),
      (''protocolVersion'', protocolVersion), (''lifecycle'', lifecycle),
      (''requestId'', JStr requestId), (''backendRunId'', JStr backendRunId)] @ optional"

text \<open>\<open>...(input.k === undefined ? {} : { k: assertOpaqueId(input.k) })\<close>.\<close>

definition optionalOpaque :: "string \<Rightarrow> jsval \<Rightarrow> (string \<times> jsval) list res" where
  "optionalOpaque k input = (if own k input = JUndef then Inr []
     else rbind (assertOpaqueId (own k input)) (\<lambda>s. Inr [(k, JStr s)]))"

definition bindingById :: "jsval \<Rightarrow> jsval list \<Rightarrow> jsval option res" where
  "bindingById bindingId bindings =
     findR (\<lambda>entry. rbind (prop_of ''bindingId'' entry) (\<lambda>b. Inr (js_eq b bindingId))) bindings"

definition bindBackendRun :: "platform \<Rightarrow> jsval \<Rightarrow> jsval \<Rightarrow> jsval res" where
  "bindBackendRun P handle input =
     rbind (assertHandle handle) (\<lambda>_.
     rbind (assertRecord input) (\<lambda>_.
     rbind (assertDomainId (own ''backendId'' input)) (\<lambda>backendId.
     if own ''backendId'' handle \<noteq> JNull \<and> own ''backendId'' handle \<noteq> JStr backendId then failSub ''HANDLE_BACKEND_MISMATCH'' else
     let backendBindings = own ''backendBindings'' handle in
     rbind (prop_of ''length'' backendBindings) (\<lambda>count.
     let lifecycle = coalesce (own ''lifecycle'' input) (JStr (if count = jint 0 then ''launch'' else ''resume'')) in
     if lifecycle \<noteq> JStr ''launch'' \<and> lifecycle \<noteq> JStr ''resume'' then Inl TypeError else
     if lifecycle = JStr ''launch'' \<and> count \<noteq> jint 0 then failSub ''HANDLE_ALREADY_BOUND'' else
     if lifecycle = JStr ''resume'' \<and> count = jint 0 then failSub ''HANDLE_RESUME_WITHOUT_PARENT'' else
     rbind (assertOpaqueId (own ''requestId'' input)) (\<lambda>requestId.
     rbind (assertOpaqueId (own ''backendRunId'' input)) (\<lambda>backendRunId.
     let parentBindingId = (if lifecycle = JStr ''resume''
           then coalesce (own ''parentBindingId'' input) (own ''activeBindingId'' handle) else JNull) in
     rbind (if lifecycle = JStr ''resume''
            then rbind (arr_of backendBindings) (\<lambda>bs. rbind (bindingById parentBindingId bs) (\<lambda>found.
              if found = None then failSub ''HANDLE_BINDING_PARENT_UNKNOWN'' else Inr ()))
            else Inr ()) (\<lambda>_.
     rbind (assertString 1 128 (own ''backendVersion'' input)) (\<lambda>backendVersion.
     rbind (optionalOpaque ''backendAsyncId'' input) (\<lambda>asyncId.
     rbind (optionalOpaque ''backendSessionId'' input) (\<lambda>sessionId.
     let val = binding_value backendId backendVersion (own ''protocolVersion'' input) lifecycle requestId backendRunId
           (asyncId @ sessionId @ (if parentBindingId = JNull then [] else [(''parentBindingId'', parentBindingId)])) in
     if \<not> isSafeInteger (own ''protocolVersion'' input) \<or> js_less P (own ''protocolVersion'' input) (jint 1) then Inl TypeError else
     rbind (digestValue P (JObj ((''handleId'', own ''handleId'' handle) # val))) (\<lambda>bindingId.
     rbind (arr_of backendBindings) (\<lambda>bs.
     rbind (findR (\<lambda>entry. rbind (prop_of ''requestId'' entry) (\<lambda>r. Inr (r = JStr requestId))) bs) (\<lambda>duplicateRequest.
     case duplicateRequest of
       Some d \<Rightarrow> (if own ''bindingId'' d = JStr bindingId then Inr handle else failSub ''HANDLE_REQUEST_ID_CONFLICT'')
     | None \<Rightarrow> Inr (immutable (oset ''activeBindingId'' (JStr bindingId)
          (oset ''backendBindings'' (JArr (bs @ [JObj (val @ [(''bindingId'', JStr bindingId)])]))
          (oset ''backendId'' (JStr backendId) handle)))))))))))))))))"

definition activeBackendBinding :: "jsval \<Rightarrow> jsval res" where
  "activeBackendBinding handle =
     rbind (assertHandle handle) (\<lambda>_.
     if \<not> truthy (own ''activeBindingId'' handle) then failSub ''HANDLE_BACKEND_UNBOUND'' else
     rbind (arr_of (own ''backendBindings'' handle)) (\<lambda>bs.
     rbind (bindingById (own ''activeBindingId'' handle) bs) (\<lambda>binding.
     case binding of None \<Rightarrow> failSub ''HANDLE_BINDING_MISSING'' | Some b \<Rightarrow> Inr b)))"

text \<open>The option \<open>bindingId\<close> is \<open>JUndef\<close> when the caller gives none.\<close>

definition assertBackendCorrelation :: "jsval \<Rightarrow> jsval \<Rightarrow> jsval \<Rightarrow> jsval res" where
  "assertBackendCorrelation handle event bindingId =
     rbind (assertHandle handle) (\<lambda>_.
     rbind (assertRecord event) (\<lambda>_.
     rbind (if bindingId = JUndef then rbind (activeBackendBinding handle) (\<lambda>b. Inr (Some b))
            else rbind (arr_of (own ''backendBindings'' handle)) (bindingById bindingId)) (\<lambda>binding.
     case binding of None \<Rightarrow> failSub ''BACKEND_EVENT_BINDING_UNKNOWN'' | Some b \<Rightarrow>
     let runId = coalesce (coalesce (own ''runId'' event) (own ''id'' event)) (own ''asyncId'' event) in
     if \<not> js_eq runId (own ''backendRunId'' b) \<and> \<not> js_eq runId (own ''backendAsyncId'' b)
       then failSub ''BACKEND_EVENT_CORRELATION_MISMATCH'' else Inr b)))"

section \<open>receipt.mjs\<close>

definition AGENT_TERMINAL_OUTCOMES :: "string list" where
  "AGENT_TERMINAL_OUTCOMES = [''completed'', ''failed'', ''cancelled'', ''interrupted'', ''orphaned'', ''timed-out'',
     ''budget-exhausted'', ''unavailable'']"

definition REQUIRES_OBSERVED_PROCESS :: "string list" where
  "REQUIRES_OBSERVED_PROCESS = [''completed'', ''failed'', ''cancelled'', ''timed-out'', ''budget-exhausted'']"

definition terminalProofProjection :: "platform \<Rightarrow> jsval \<Rightarrow> jsval \<Rightarrow> jsval res" where
  "terminalProofProjection P proof' binding =
     (if nullish proof' then Inr JNull else
      if \<not> isObj proof' \<or> own ''version'' proof' \<noteq> jint 1
         \<or> own ''state'' proof' \<notin> {JStr ''observed'', JStr ''unknown''} then Inl TypeError else
      let proofRunId = own ''runId'' proof' in
      if \<not> js_eq proofRunId (own ''backendRunId'' binding) \<and> \<not> js_eq proofRunId (own ''backendAsyncId'' binding)
        then failSub ''TERMINAL_PROOF_CORRELATION_MISMATCH'' else
      rbind (if own ''state'' proof' = JStr ''observed'' then
               let runner = own ''runnerProcessInstanceId'' proof' in
               if \<not> isStr runner \<or> runner = JStr [] \<or> \<not> isSafeInteger (own ''observedAt'' proof')
                  \<or> \<not> isArr (own ''instances'' proof') then Inl TypeError else
               if \<not> (\<exists>i \<in> set (items (own ''instances'' proof')). own ''processInstanceId'' i = runner) then Inl TypeError
               else Inr ()
             else if \<not> isStr (own ''reason'' proof') \<or> own ''reason'' proof' = JStr [] then Inl TypeError else Inr ()) (\<lambda>_.
      boundedProjection P (32 * 1024) proof'))"

definition receipt_value :: "jsval \<Rightarrow> jsval \<Rightarrow> jsval \<Rightarrow> bool \<Rightarrow> jsval \<Rightarrow> int \<Rightarrow> jsval \<Rightarrow> jsval \<Rightarrow> jsval \<Rightarrow> jsval \<Rightarrow> (string \<times> jsval) list" where
  "receipt_value handle binding outcome authoritative startedAt settledAt completion processTerminal result' error' =
     (let local' = own ''local'' handle in
     [(''$schema'', JStr ''https://github.com/Ricardo121380/only-my-pi/schemas/terminal-receipt-v2.schema.json''),
      (''formatVersion'', jint 2),
      (''contractStatus'', JStr ''contract-preview''),
      (''kind'', JStr ''agent-terminal-receipt''),
      (''handleId'', own ''handleId'' handle),
      (''runId'', own ''runId'' local'),
      (''nodeId'', own ''nodeId'' local'),
      (''attemptId'', own ''attemptId'' local'),
      (''assignmentId'', own ''assignmentId'' local'),
      (''assignmentHash'', own ''assignmentHash'' local'),
      (''agentSpecHash'', own ''agentSpecHash'' local'),
      (''backendId'', own ''backendId'' binding),
      (''bindingId'', own ''bindingId'' binding),
      (''backendRunId'', own ''backendRunId'' binding),
      (''outcome'', outcome),
      (''authoritative'', JBool authoritative),
      (''startedAt'', startedAt),
      (''settledAt'', jint settledAt),
      (''completion'', completion),
      (''processTerminal'', processTerminal),
      (''result'', result'),
      (''error'', error')])"

text \<open>\<open>error\<close> is the argument's \<open>error\<close> property, \<open>None\<close> when it has none.\<close>

definition createTerminalReceipt :: "platform \<Rightarrow> jsval \<Rightarrow> any_error option \<Rightarrow> jsval res" where
  "createTerminalReceipt P input error' =
     rbind (prop_of ''handle'' input) (\<lambda>handle.
     rbind (if own ''bindingId'' input = JUndef then rbind (activeBackendBinding handle) (\<lambda>b. Inr (Some b))
            else rbind (prop_of ''backendBindings'' handle) (\<lambda>bb. rbind (arr_of bb) (bindingById (own ''bindingId'' input)))) (\<lambda>found.
     case found of None \<Rightarrow> failSub ''TERMINAL_BINDING_UNKNOWN'' | Some binding \<Rightarrow>
     if own ''outcome'' input \<notin> set (map JStr AGENT_TERMINAL_OUTCOMES) then Inl TypeError else
     let completion = own ''completion'' input in
     rbind (if \<not> nullish completion then assertBackendCorrelation handle completion (own ''bindingId'' binding) else Inr JUndef) (\<lambda>_.
     rbind (terminalProofProjection P (own ''processTerminal'' input) binding) (\<lambda>processTerminal.
     let authoritative = (own ''state'' processTerminal = JStr ''observed'' \<and> \<not> nullish completion) in
     if own ''outcome'' input \<in> set (map JStr REQUIRES_OBSERVED_PROCESS) \<and> \<not> authoritative then failSub ''TERMINAL_PROOF_REQUIRED'' else
     rbind (assertSafeInteger 0 MAX_SAFE_INTEGER (own ''settledAt'' input)) (\<lambda>settledAt.
     rbind (if nullish (own ''startedAt'' input) then Inr JNull
            else rbind (assertSafeInteger 0 MAX_SAFE_INTEGER (own ''startedAt'' input)) (\<lambda>n. Inr (jint n))) (\<lambda>startedAt.
     if startedAt \<noteq> JNull \<and> js_less P (jint settledAt) startedAt then Inl TypeError else
     rbind (prop_of ''runId'' (own ''local'' handle)) (\<lambda>_.
     rbind (if completion = JUndef then Inr JNull else boundedProjection P (64 * 1024) completion) (\<lambda>completionProjection.
     rbind (if own ''result'' input = JUndef then Inr JNull else boundedProjection P (64 * 1024) (own ''result'' input)) (\<lambda>result'.
     sealed P (receipt_value handle binding (own ''outcome'' input) authoritative startedAt settledAt completionProjection
        processTerminal result' (case error' of None \<Rightarrow> JNull | Some e \<Rightarrow> errorReceiptProjection e)) ''receiptId'')))))))))"

section \<open>The invariant of a handle\<close>

definition binding_chain :: "jsval list \<Rightarrow> bool" where
  "binding_chain bs \<longleftrightarrow> distinct (map (own ''requestId'') bs)
     \<and> (\<forall>i < length bs. isObj (bs ! i) \<and> isStr (own ''bindingId'' (bs ! i)) \<and> own ''bindingId'' (bs ! i) \<noteq> JStr []
          \<and> own ''lifecycle'' (bs ! i) = JStr (if i = 0 then ''launch'' else ''resume'')
          \<and> (0 < i \<longrightarrow> (\<exists>j < i. own ''parentBindingId'' (bs ! i) = own ''bindingId'' (bs ! j))))"

definition handle_wf :: "jsval \<Rightarrow> bool" where
  "handle_wf h \<longleftrightarrow> isObj h \<and> distinct (keys h) \<and> json_view h = h
     \<and> own ''formatVersion'' h = jint 1 \<and> own ''kind'' h = JStr ''agent-run-handle'' \<and> isStr (own ''handleId'' h)
     \<and> (\<exists>bs. own ''backendBindings'' h = JArr bs \<and> binding_chain bs
          \<and> (if bs = [] then own ''activeBindingId'' h = JNull \<and> own ''backendId'' h = JNull
             else own ''activeBindingId'' h = own ''bindingId'' (last bs) \<and> isStr (own ''backendId'' h)
                \<and> (\<forall>b \<in> set bs. own ''backendId'' b = own ''backendId'' h)))"

lemma binding_chain_snoc:
  assumes "binding_chain bs" "isObj b" "own ''bindingId'' b = JStr i" "i \<noteq> []"
    "own ''lifecycle'' b = JStr (if bs = [] then ''launch'' else ''resume'')"
    "own ''requestId'' b \<notin> own ''requestId'' ` set bs"
    "bs \<noteq> [] \<Longrightarrow> own ''parentBindingId'' b \<in> own ''bindingId'' ` set bs"
  shows "binding_chain (bs @ [b])"
proof -
  have "0 < length bs \<Longrightarrow> \<exists>j < length bs. own ''parentBindingId'' b = own ''bindingId'' (bs ! j)"
    using assms(7) by (force simp: in_set_conv_nth)
  then have new: "(0 < length bs \<longrightarrow> (\<exists>j < length bs. own ''parentBindingId'' b = own ''bindingId'' ((bs @ [b]) ! j)))"
    by (auto simp: nth_append)
  have elem: "isObj ((bs @ [b]) ! i) \<and> isStr (own ''bindingId'' ((bs @ [b]) ! i)) \<and> own ''bindingId'' ((bs @ [b]) ! i) \<noteq> JStr []
      \<and> own ''lifecycle'' ((bs @ [b]) ! i) = JStr (if i = 0 then ''launch'' else ''resume'')" if "i < length (bs @ [b])" for i
  proof (cases "i < length bs")
    case True
    then show ?thesis using assms(1) unfolding binding_chain_def by (simp only: nth_append if_True simp_thms)
  next
    case False
    then have "i = length bs" using that by simp
    then show ?thesis using assms(2-5) by simp
  qed
  show ?thesis
    unfolding binding_chain_def
  proof (intro conjI allI impI)
    show "distinct (map (own ''requestId'') (bs @ [b]))" using assms(1,6) by (auto simp: binding_chain_def)
  next
    fix i assume i: "i < length (bs @ [b])"
    show "isObj ((bs @ [b]) ! i)" "isStr (own ''bindingId'' ((bs @ [b]) ! i))" "own ''bindingId'' ((bs @ [b]) ! i) \<noteq> JStr []"
      "own ''lifecycle'' ((bs @ [b]) ! i) = JStr (if i = 0 then ''launch'' else ''resume'')"
      using elem [OF i] by blast+
    assume "0 < i"
    show "\<exists>j < i. own ''parentBindingId'' ((bs @ [b]) ! i) = own ''bindingId'' ((bs @ [b]) ! j)"
    proof (cases "i < length bs")
      case True
      then obtain j where "j < i" "own ''parentBindingId'' (bs ! i) = own ''bindingId'' (bs ! j)"
        using assms(1) \<open>0 < i\<close> unfolding binding_chain_def by blast
      then have "j < i \<and> own ''parentBindingId'' ((bs @ [b]) ! i) = own ''bindingId'' ((bs @ [b]) ! j)"
        using True by (simp only: nth_append if_True less_trans [OF _ True] simp_thms)
      then show ?thesis by blast
    next
      case False
      then have "i = length bs" using i by simp
      then show ?thesis using new \<open>0 < i\<close> by (simp only: nth_append_length)
    qed
  qed
qed

lemma digestValue_nonempty: "digestValue P v = Inr d \<Longrightarrow> d \<noteq> []"
  by (auto simp: digestValue_def sha256_text_def res_simps split: jsval.splits)

lemma optionalOpaque_keys: "optionalOpaque k input = Inr ps \<Longrightarrow> map fst ps \<in> {[], [k]}"
  by (auto simp: optionalOpaque_def res_simps split: if_splits)

text \<open>What a successful \<open>bindBackendRun\<close> did.\<close>

lemma bindBackendRun_cases:
  assumes "bindBackendRun P h input = Inr h'" "own ''backendBindings'' h = JArr bs"
  obtains "h' = h"
  | bid ver lc rid run parent opt bindingId where
      "h' = immutable (oset ''activeBindingId'' (JStr bindingId)
          (oset ''backendBindings'' (JArr (bs @ [JObj (binding_value bid ver (own ''protocolVersion'' input) lc rid run
              (opt @ (if parent = JNull then [] else [(''parentBindingId'', parent)])) @ [(''bindingId'', JStr bindingId)])]))
          (oset ''backendId'' (JStr bid) h)))"
      "own ''backendId'' h = JNull \<or> own ''backendId'' h = JStr bid"
      "lc = JStr (if bs = [] then ''launch'' else ''resume'')"
      "bs \<noteq> [] \<Longrightarrow> parent \<in> own ''bindingId'' ` set bs"
      "bindingId \<noteq> []" "JStr rid \<notin> own ''requestId'' ` set bs"
      "map fst opt \<in> {[], [''backendAsyncId''], [''backendSessionId''], [''backendAsyncId'', ''backendSessionId'']}"
proof -
  from assms(1) obtain bid ver lc rid run parent a s bindingId dup bs' count u where
    b: "\<not> (own ''backendId'' h \<noteq> JNull \<and> own ''backendId'' h \<noteq> JStr bid)"
    and count: "count = own ''length'' (own ''backendBindings'' h)"
    and lc: "lc = coalesce (own ''lifecycle'' input) (JStr (if count = jint 0 then ''launch'' else ''resume''))"
      "\<not> (lc \<noteq> JStr ''launch'' \<and> lc \<noteq> JStr ''resume'')" "\<not> (lc = JStr ''launch'' \<and> count \<noteq> jint 0)"
      "\<not> (lc = JStr ''resume'' \<and> count = jint 0)"
    and parent: "(if lc = JStr ''resume''
            then rbind (arr_of (own ''backendBindings'' h)) (\<lambda>bs. rbind (bindingById parent bs) (\<lambda>found.
              if found = None then failSub ''HANDLE_BINDING_PARENT_UNKNOWN'' else Inr ()))
            else Inr ()) = Inr u"
    and opt: "optionalOpaque ''backendAsyncId'' input = Inr a" "optionalOpaque ''backendSessionId'' input = Inr s"
    and dig: "digestValue P (JObj ((''handleId'', own ''handleId'' h) # binding_value bid ver (own ''protocolVersion'' input) lc rid run
           (a @ s @ (if parent = JNull then [] else [(''parentBindingId'', parent)])))) = Inr bindingId"
    and bs': "own ''backendBindings'' h = JArr bs'"
    and dup: "findR (\<lambda>entry. rbind (prop_of ''requestId'' entry) (\<lambda>r. Inr (r = JStr rid))) bs' = Inr dup"
    and h': "(case dup of
       Some d \<Rightarrow> (if own ''bindingId'' d = JStr bindingId then Inr h else failSub ''HANDLE_REQUEST_ID_CONFLICT'')
     | None \<Rightarrow> Inr (immutable (oset ''activeBindingId'' (JStr bindingId)
          (oset ''backendBindings'' (JArr (bs' @ [JObj (binding_value bid ver (own ''protocolVersion'' input) lc rid run
           (a @ s @ (if parent = JNull then [] else [(''parentBindingId'', parent)])) @ [(''bindingId'', JStr bindingId)])]))
          (oset ''backendId'' (JStr bid) h))))) = Inr h'"
    unfolding bindBackendRun_def res_inv by blast
  have bs: "bs' = bs" "count = jnat (length bs)" using bs' assms(2) count by simp_all
  show thesis
  proof (cases dup)
    case (Some d)
    then have "h' = h" using h' by (simp split: if_splits)
    then show ?thesis by (rule that(1))
  next
    case None
    have lc': "lc = JStr (if bs = [] then ''launch'' else ''resume'')" using lc(2-4) bs(2) by auto
    have par: "parent \<in> own ''bindingId'' ` set bs" if "bs \<noteq> []"
    proof -
      from that parent lc' assms(2) obtain e where "bindingById parent bs = Inr (Some e)"
        by (auto simp: rbind_eq_Inr split: if_splits)
      from findR_Some [OF this [unfolded bindingById_def]] show ?thesis
        by (auto simp: rbind_eq_Inr js_eq_def)
    qed
    have rid: "JStr rid \<notin> own ''requestId'' ` set bs"
      using dup bs(1) None by (auto simp: findR_None rbind_eq_Inr)
    have keys: "map fst (a @ s) \<in> {[], [''backendAsyncId''], [''backendSessionId''], [''backendAsyncId'', ''backendSessionId'']}"
      using optionalOpaque_keys [OF opt(1)] optionalOpaque_keys [OF opt(2)] by auto
    show ?thesis
      by (rule that(2) [of bindingId bid ver lc rid run "a @ s" parent])
        (use h' None bs b lc' par rid keys digestValue_nonempty [OF dig] in auto)
  qed
qed

lemma binding_own:
  assumes "map fst opt \<in> {[], [''backendAsyncId''], [''backendSessionId''], [''backendAsyncId'', ''backendSessionId'']}"
    and b_def: "b = JObj (binding_value bid ver prot lc rid run (opt @ (if parent = JNull then [] else [(''parentBindingId'', parent)]))
      @ [(''bindingId'', JStr bindingId)])"
  shows "distinct (keys b)" "own ''bindingId'' b = JStr bindingId" "own ''requestId'' b = JStr rid"
    "own ''lifecycle'' b = lc" "own ''backendId'' b = JStr bid" "parent \<noteq> JNull \<Longrightarrow> own ''parentBindingId'' b = parent"
proof -
  have notin: "''bindingId'' \<notin> fst ` set opt" "''parentBindingId'' \<notin> fst ` set opt"
    using assms(1) by (auto simp flip: set_map)
  show "distinct (keys b)" using assms(1) by (auto simp: b_def binding_value_def simp flip: set_map)
  show "own ''requestId'' b = JStr rid" "own ''lifecycle'' b = lc" "own ''backendId'' b = JStr bid"
    by (simp_all add: b_def binding_value_def)
  show "own ''bindingId'' b = JStr bindingId"
    using notin by (simp add: b_def binding_value_def own_append)
  show "parent \<noteq> JNull \<Longrightarrow> own ''parentBindingId'' b = parent"
    using notin by (simp add: b_def binding_value_def own_append)
qed

lemma bindBackendRun_wf:
  assumes "handle_wf h" "bindBackendRun P h input = Inr h'"
  shows "handle_wf h'"
proof -
  from assms(1) obtain bs where h: "isObj h" "distinct (keys h)" "json_view h = h"
    "own ''formatVersion'' h = jint 1" "own ''kind'' h = JStr ''agent-run-handle''" "isStr (own ''handleId'' h)"
    and bs: "own ''backendBindings'' h = JArr bs" "binding_chain bs"
    and act: "if bs = [] then own ''activeBindingId'' h = JNull \<and> own ''backendId'' h = JNull
             else own ''activeBindingId'' h = own ''bindingId'' (last bs) \<and> isStr (own ''backendId'' h)
                \<and> (\<forall>b \<in> set bs. own ''backendId'' b = own ''backendId'' h)"
    unfolding handle_wf_def by blast
  from assms(2) bs(1) show ?thesis
  proof (cases rule: bindBackendRun_cases)
    case 1
    then show ?thesis using assms(1) by simp
  next
    case (2 bid ver lc rid run parent opt bindingId)
    define b where "b = JObj (binding_value bid ver (own ''protocolVersion'' input) lc rid run
              (opt @ (if parent = JNull then [] else [(''parentBindingId'', parent)])) @ [(''bindingId'', JStr bindingId)])"
    define g where "g = oset ''activeBindingId'' (JStr bindingId) (oset ''backendBindings'' (JArr (bs @ [b])) (oset ''backendId'' (JStr bid) h))"
    have h': "h' = json_view g" using 2(1) by (simp add: immutable_def g_def b_def)
    have g: "isObj g" "distinct (keys g)" using h(1,2) by (simp_all add: g_def distinct_keys_oset)
    have own_g: "own k g = (if k = ''activeBindingId'' then JStr bindingId else if k = ''backendBindings'' then JArr (bs @ [b])
        else if k = ''backendId'' then JStr bid else own k h)" for k
      using h(1) by (simp add: g_def own_oset)
    have own_h': "own k h' = json_view (own k g)" for k unfolding h' by (rule own_view [OF g])
    note bo = binding_own [OF 2(7) b_def]
    have ob: "own k (json_view b) = json_view (own k b)" for k by (rule own_view) (use bo(1) in \<open>simp_all add: b_def\<close>)
    have "json_view (JArr bs) = JArr bs" using own_view [OF h(1,2), of "''backendBindings''"] h(3) bs(1) by simp
    then have bs_view: "map (\<lambda>x. if x = JUndef then JNull else json_view x) bs = bs" by simp
    have bb: "own ''backendBindings'' h' = JArr (bs @ [json_view b])"
      using bs_view by (simp add: own_h' own_g b_def)
    have parent: "own ''parentBindingId'' (json_view b) \<in> own ''bindingId'' ` set bs" if "bs \<noteq> []"
    proof -
      have p: "parent \<in> own ''bindingId'' ` set bs" by (rule 2(4)) fact
      then have "isStr parent" using bs(2) by (auto simp: binding_chain_def in_set_conv_nth)
      then have "parent \<noteq> JNull" "json_view parent = parent" by (auto simp: isStr_iff)
      then show ?thesis using p bo(6) ob by simp
    qed
    have chain: "binding_chain (bs @ [json_view b])"
    proof (rule binding_chain_snoc [OF bs(2)])
      show "isObj (json_view b)" by (simp add: b_def)
      show "own ''bindingId'' (json_view b) = JStr bindingId" by (simp add: ob bo(2))
      show "bindingId \<noteq> []" by (rule 2(5))
      show "own ''lifecycle'' (json_view b) = JStr (if bs = [] then ''launch'' else ''resume'')" by (simp add: ob bo(4) 2(3))
      show "own ''requestId'' (json_view b) \<notin> own ''requestId'' ` set bs" using 2(6) by (simp add: ob bo(3))
      show "own ''parentBindingId'' (json_view b) \<in> own ''bindingId'' ` set bs" if "bs \<noteq> []" by (rule parent [OF that])
    qed
    have be: "own ''backendId'' c = JStr bid" if "c \<in> set bs" for c
      using act that 2(2) by (cases "bs = []") auto
    have "\<forall>c \<in> set (bs @ [json_view b]). own ''backendId'' c = own ''backendId'' h'"
      using be ob bo(5) by (simp add: own_h' own_g)
    moreover have "own ''activeBindingId'' h' = own ''bindingId'' (last (bs @ [json_view b]))" "isStr (own ''backendId'' h')"
      using ob bo(2) by (simp_all add: own_h' own_g)
    moreover have "own ''formatVersion'' h' = jint 1" "own ''kind'' h' = JStr ''agent-run-handle''" "isStr (own ''handleId'' h')"
      using h(4-6) by (auto simp: own_h' own_g isStr_iff)
    moreover have "isObj h'" "distinct (keys h')" "json_view h' = h'"
      using g json_view_keys by (simp_all add: h' json_view_idem)
    ultimately show ?thesis using bb chain unfolding handle_wf_def by (intro conjI exI [of _ "bs @ [json_view b]"]) simp_all
  qed
qed

lemma createAgentRunHandle_wf:
  assumes "createAgentRunHandle P input = Inr h"
  shows "handle_wf h"
proof -
  from assms obtain hid r n a asg spec c rs where h: "h = json_view (handle_value hid (handle_local r n a asg spec) c rs)"
    unfolding createAgentRunHandle_def immutable_def res_inv by blast
  have ov: "own k h = json_view (own k (handle_value hid (handle_local r n a asg spec) c rs))" for k
    unfolding h by (rule own_view) (simp_all add: handle_value_def)
  have f: "own ''formatVersion'' h = jint 1" "own ''kind'' h = JStr ''agent-run-handle''" "own ''handleId'' h = JStr hid"
    "own ''backendBindings'' h = JArr []" "own ''activeBindingId'' h = JNull" "own ''backendId'' h = JNull"
    by (simp_all add: ov) (simp_all add: handle_value_def)
  have "isObj h" "distinct (keys h)" "json_view h = h"
    using json_view_keys [of "handle_value hid (handle_local r n a asg spec) c rs"] by (simp_all add: h json_view_idem) (simp_all add: handle_value_def)
  then show ?thesis unfolding handle_wf_def f by (simp add: binding_chain_def)
qed

text \<open>The handles a run can hold: a created one, and what binding makes of a held one.\<close>

inductive run_handle :: "platform \<Rightarrow> jsval \<Rightarrow> bool" for P where
  created: "createAgentRunHandle P input = Inr h \<Longrightarrow> run_handle P h"
| bound: "run_handle P h \<Longrightarrow> bindBackendRun P h input = Inr h' \<Longrightarrow> run_handle P h'"

lemma run_handle_wf: "run_handle P h \<Longrightarrow> handle_wf h"
  by (induction rule: run_handle.induct) (auto intro: createAgentRunHandle_wf bindBackendRun_wf)

lemma handle_wf_assert: "handle_wf h \<Longrightarrow> assertHandle h = Inr h"
  by (auto simp: handle_wf_def assertHandle_def)

lemma bindingById_chain:
  assumes "\<forall>b \<in> set bs. isObj b"
  shows "bindingById i bs = Inr (find (\<lambda>b. js_eq (own ''bindingId'' b) i) bs)"
  unfolding bindingById_def
  by (rule findR_pure) (use assms in \<open>auto simp: isObj_iff prop_of_def\<close>)

lemma find_member: "x \<in> set xs \<Longrightarrow> q x \<Longrightarrow> \<exists>y. find q xs = Some y \<and> y \<in> set xs \<and> q y"
  by (metis find_None_iff2 find_Some_iff2 not_None_eq nth_mem)

lemma active_binding_found:
  assumes "handle_wf h"
  shows "if own ''backendBindings'' h = JArr [] then activeBackendBinding h = failSub ''HANDLE_BACKEND_UNBOUND''
    else (\<exists>b. activeBackendBinding h = Inr b \<and> b \<in> set (items (own ''backendBindings'' h))
       \<and> own ''bindingId'' b = own ''activeBindingId'' h)"
proof -
  from assms obtain bs where bs: "own ''backendBindings'' h = JArr bs" "binding_chain bs"
    and act: "if bs = [] then own ''activeBindingId'' h = JNull \<and> own ''backendId'' h = JNull
             else own ''activeBindingId'' h = own ''bindingId'' (last bs) \<and> isStr (own ''backendId'' h)
                \<and> (\<forall>b \<in> set bs. own ''backendId'' b = own ''backendId'' h)"
    unfolding handle_wf_def by blast
  show ?thesis
  proof (cases "bs = []")
    case True
    then show ?thesis using act bs(1) handle_wf_assert [OF assms] by (simp add: activeBackendBinding_def)
  next
    case False
    then have a: "own ''activeBindingId'' h = own ''bindingId'' (last bs)" using act by simp
    have all: "\<forall>b \<in> set bs. isObj b \<and> isStr (own ''bindingId'' b) \<and> own ''bindingId'' b \<noteq> JStr []"
      using bs(2) by (auto simp: binding_chain_def in_set_conv_nth)
    then obtain i where i: "own ''bindingId'' (last bs) = JStr i" "i \<noteq> []"
      using False by (metis isStr_iff last_in_set)
    obtain b where b: "find (\<lambda>b. js_eq (own ''bindingId'' b) (JStr i)) bs = Some b" "b \<in> set bs" "js_eq (own ''bindingId'' b) (JStr i)"
      using find_member [OF last_in_set [OF False], of "\<lambda>b. js_eq (own ''bindingId'' b) (JStr i)"] i(1) by auto
    have "activeBackendBinding h = Inr b"
      using handle_wf_assert [OF assms] a i bs(1) b(1) all
      by (simp add: activeBackendBinding_def bindingById_chain)
    then show ?thesis using b a i bs(1) False by auto
  qed
qed

lemma bind_replay:
  assumes wf: "handle_wf h" and b: "bindBackendRun P h input = Inr h'"
    and resume: "own ''lifecycle'' input = JStr ''resume''" "\<not> nullish (own ''parentBindingId'' input)"
  shows "bindBackendRun P h' input = Inr h'"
proof -
  from wf obtain bs where h: "isObj h" "distinct (keys h)" "json_view h = h" and bs: "own ''backendBindings'' h = JArr bs" "binding_chain bs"
    and hid: "isStr (own ''handleId'' h)"
    unfolding handle_wf_def by blast
  define parent where "parent = own ''parentBindingId'' input"
  have par: "coalesce (own ''parentBindingId'' input) x = parent" for x using resume(2) by (simp add: parent_def coalesce_def)
  have pn: "parent \<noteq> JNull" using resume(2) by (auto simp: parent_def)
  from b obtain u1 u2 bid ver rid run a s bindingId dup u bs' where
    c: "assertHandle h = Inr u1" "assertRecord input = Inr u2" "assertDomainId (own ''backendId'' input) = Inr bid"
      "assertOpaqueId (own ''requestId'' input) = Inr rid" "assertOpaqueId (own ''backendRunId'' input) = Inr run"
    and parent: "rbind (arr_of (own ''backendBindings'' h)) (\<lambda>bs. rbind (bindingById parent bs) (\<lambda>found.
              if found = None then failSub ''HANDLE_BINDING_PARENT_UNKNOWN'' else Inr ())) = Inr u"
    and d: "assertString 1 128 (own ''backendVersion'' input) = Inr ver"
      "optionalOpaque ''backendAsyncId'' input = Inr a" "optionalOpaque ''backendSessionId'' input = Inr s"
      "\<not> (\<not> isSafeInteger (own ''protocolVersion'' input) \<or> js_less P (own ''protocolVersion'' input) (jint 1))"
    and dig: "digestValue P (JObj ((''handleId'', own ''handleId'' h) # binding_value bid ver (own ''protocolVersion'' input) (JStr ''resume'') rid run
           (a @ s @ (if parent = JNull then [] else [(''parentBindingId'', parent)])))) = Inr bindingId"
    and bs': "own ''backendBindings'' h = JArr bs'"
    and dup: "findR (\<lambda>entry. rbind (prop_of ''requestId'' entry) (\<lambda>r. Inr (r = JStr rid))) bs' = Inr dup"
    and h': "(case dup of
       Some d \<Rightarrow> (if own ''bindingId'' d = JStr bindingId then Inr h else failSub ''HANDLE_REQUEST_ID_CONFLICT'')
     | None \<Rightarrow> Inr (immutable (oset ''activeBindingId'' (JStr bindingId)
          (oset ''backendBindings'' (JArr (bs' @ [JObj (binding_value bid ver (own ''protocolVersion'' input) (JStr ''resume'') rid run
           (a @ s @ (if parent = JNull then [] else [(''parentBindingId'', parent)])) @ [(''bindingId'', JStr bindingId)])]))
          (oset ''backendId'' (JStr bid) h))))) = Inr h'"
    unfolding bindBackendRun_def resume(1) coalesce_simps par res_inv simp_thms if_True by blast
  have bs2: "bs' = bs" using bs' bs(1) by simp
  show ?thesis
  proof (cases dup)
    case (Some d)
    then have "h' = h" using h' by (simp split: if_splits)
    then show ?thesis using b by simp
  next
    case None
    define e where "e = JObj (binding_value bid ver (own ''protocolVersion'' input) (JStr ''resume'') rid run
           (a @ s @ (if parent = JNull then [] else [(''parentBindingId'', parent)])) @ [(''bindingId'', JStr bindingId)])"
    define g where "g = oset ''activeBindingId'' (JStr bindingId) (oset ''backendBindings'' (JArr (bs @ [e])) (oset ''backendId'' (JStr bid) h))"
    have h'g: "h' = json_view g" using h' None by (simp add: immutable_def g_def e_def bs2)
    have "isObj g" "distinct (keys g)" using h(1,2) by (simp_all add: g_def distinct_keys_oset)
    then have own_h': "own k h' = json_view (own k g)" for k unfolding h'g by (rule own_view)
    have own_g: "own k g = (if k = ''activeBindingId'' then JStr bindingId else if k = ''backendBindings'' then JArr (bs @ [e])
        else if k = ''backendId'' then JStr bid else own k h)" for k
      using h(1) by (simp add: g_def own_oset)
    have keys: "map fst (a @ s) \<in> {[], [''backendAsyncId''], [''backendSessionId''], [''backendAsyncId'', ''backendSessionId'']}"
      using optionalOpaque_keys [OF d(2)] optionalOpaque_keys [OF d(3)] by auto
    note bo = binding_own [OF keys, of e, unfolded append_assoc, OF e_def]
    have ob: "own k (json_view e) = json_view (own k e)" for k by (rule own_view) (use bo(1) in \<open>simp_all add: e_def\<close>)
    have "json_view (JArr bs) = JArr bs" using own_view [OF h(1,2), of "''backendBindings''"] h(3) bs(1) by simp
    then have bs_view: "map (\<lambda>x. if x = JUndef then JNull else json_view x) bs = bs" by simp
    have bb: "own ''backendBindings'' h' = JArr (bs @ [json_view e])" using bs_view by (simp add: own_h' own_g e_def)
    have objs: "\<forall>x \<in> set bs. isObj x" using bs(2) by (auto simp: binding_chain_def in_set_conv_nth)
    then have objs': "\<forall>x \<in> set (bs @ [json_view e]). isObj x" by (simp add: e_def)
    have p: "find (\<lambda>b. js_eq (own ''bindingId'' b) parent) bs \<noteq> None"
      using parent bs(1) by (auto simp: bindingById_chain [OF objs] split: if_splits)
    then have p': "find (\<lambda>b. js_eq (own ''bindingId'' b) parent) (bs @ [json_view e]) \<noteq> None"
      by (auto simp: find_None_iff)
    have nr: "\<forall>x \<in> set bs. own ''requestId'' x \<noteq> JStr rid"
      using dup None bs2 by (auto simp: findR_None rbind_eq_Inr)
    have found: "findR (\<lambda>entry. rbind (prop_of ''requestId'' entry) (\<lambda>r. Inr (r = JStr rid))) (bs @ [json_view e]) = Inr (Some (json_view e))"
    proof -
      have "find (\<lambda>x. own ''requestId'' x = JStr rid) (bs @ [json_view e]) = Some (json_view e)"
        using nr ob bo(3) by (induction bs) auto
      then show ?thesis
        by (subst findR_pure [where q = "\<lambda>x. own ''requestId'' x = JStr rid"]) (use objs' in \<open>auto simp: isObj_iff prop_of_def\<close>)
    qed
    have hf: "own ''handleId'' h' = own ''handleId'' h" "own ''backendId'' h' = JStr bid"
      using hid by (auto simp: own_h' own_g isStr_iff)
    have ah: "assertHandle h' = Inr h'" using handle_wf_assert [OF bindBackendRun_wf [OF wf b]] .
    have count: "prop_of ''length'' (JArr (bs @ [json_view e])) = Inr (jnat (Suc (length bs)))" by (simp add: prop_of_def)
    have len: "jnat (Suc (length bs)) \<noteq> jint 0" by simp
    have be: "own ''bindingId'' (json_view e) = JStr bindingId" by (simp add: ob bo(2))
    obtain q where q: "find (\<lambda>b. js_eq (own ''bindingId'' b) parent) (bs @ [json_view e]) = Some q" using p' by blast
    show ?thesis
      unfolding bindBackendRun_def ah c rbind_simps hf bb Let_def count resume(1) coalesce_simps par d found
        arr_of.simps bindingById_chain [OF objs'] q
      using len d(4) dig pn q by (simp add: be)
  qed
qed

section \<open>Correlation\<close>

lemma bindingById_Some: "bindingById i bs = Inr (Some b) \<Longrightarrow> b \<in> set bs \<and> js_eq (own ''bindingId'' b) i"
  unfolding bindingById_def by (drule findR_Some) (auto simp: rbind_eq_Inr)

lemma assertBackendCorrelation_Inr:
  assumes "assertBackendCorrelation h e i = Inr b"
  shows "b \<in> set (items (own ''backendBindings'' h))"
    "js_eq (own ''bindingId'' b) (if i = JUndef then own ''activeBindingId'' h else i)"
    "coalesce (coalesce (own ''runId'' e) (own ''id'' e)) (own ''asyncId'' e) \<in> {own ''backendRunId'' b, own ''backendAsyncId'' b}"
proof -
  from assms obtain ob where ob: "(if i = JUndef then rbind (activeBackendBinding h) (\<lambda>b. Inr (Some b))
            else rbind (arr_of (own ''backendBindings'' h)) (bindingById i)) = Inr ob"
    and c: "(case ob of None \<Rightarrow> failSub ''BACKEND_EVENT_BINDING_UNKNOWN'' | Some b \<Rightarrow>
     let runId = coalesce (coalesce (own ''runId'' e) (own ''id'' e)) (own ''asyncId'' e) in
     if \<not> js_eq runId (own ''backendRunId'' b) \<and> \<not> js_eq runId (own ''backendAsyncId'' b)
       then failSub ''BACKEND_EVENT_CORRELATION_MISMATCH'' else Inr b) = Inr b"
    unfolding assertBackendCorrelation_def rbind_eq_Inr by blast
  from c have b: "ob = Some b" and m: "coalesce (coalesce (own ''runId'' e) (own ''id'' e)) (own ''asyncId'' e) \<in> {own ''backendRunId'' b, own ''backendAsyncId'' b}"
    by (auto simp: Let_def js_eq_def split: option.splits if_splits)
  show "coalesce (coalesce (own ''runId'' e) (own ''id'' e)) (own ''asyncId'' e) \<in> {own ''backendRunId'' b, own ''backendAsyncId'' b}" by fact
  obtain bs where "own ''backendBindings'' h = JArr bs"
      "bindingById (if i = JUndef then own ''activeBindingId'' h else i) bs = Inr (Some b)"
    using ob b by (auto simp: activeBackendBinding_def rbind_eq_Inr split: if_splits option.splits)
  then show "b \<in> set (items (own ''backendBindings'' h))"
    "js_eq (own ''bindingId'' b) (if i = JUndef then own ''activeBindingId'' h else i)"
    by (auto dest!: bindingById_Some split: if_splits)
qed

text \<open>An event that names no run at all is accepted for a binding without an asynchronous id.\<close>

lemma correlation_accepts_anonymous:
  assumes "handle_wf h" "activeBackendBinding h = Inr b" "own ''backendAsyncId'' b = JUndef"
  shows "assertBackendCorrelation h (JObj []) JUndef = Inr b"
  using assms handle_wf_assert [OF assms(1)] by (simp add: assertBackendCorrelation_def assertRecord_def)

section \<open>Receipts\<close>

lemma createTerminalReceipt_facts:
  assumes "createTerminalReceipt P input err = Inr r"
  shows "\<exists>h b started settled comp pt res err'.
      sealed P (receipt_value h b (own ''outcome'' input) (own ''state'' pt = JStr ''observed'' \<and> \<not> nullish (own ''completion'' input))
          started settled comp pt res err') ''receiptId'' = Inr r
    \<and> h = own ''handle'' input \<and> own ''outcome'' input \<in> set (map JStr AGENT_TERMINAL_OUTCOMES)
    \<and> (if own ''bindingId'' input = JUndef then rbind (activeBackendBinding h) (\<lambda>b. Inr (Some b))
            else rbind (prop_of ''backendBindings'' h) (\<lambda>bb. rbind (arr_of bb) (bindingById (own ''bindingId'' input)))) = Inr (Some b)
    \<and> (\<exists>x. (if \<not> nullish (own ''completion'' input) then assertBackendCorrelation h (own ''completion'' input) (own ''bindingId'' b) else Inr JUndef) = Inr x)
    \<and> terminalProofProjection P (own ''processTerminal'' input) b = Inr pt
    \<and> \<not> (own ''outcome'' input \<in> set (map JStr REQUIRES_OBSERVED_PROCESS)
         \<and> \<not> (own ''state'' pt = JStr ''observed'' \<and> \<not> nullish (own ''completion'' input)))
    \<and> assertSafeInteger 0 MAX_SAFE_INTEGER (own ''settledAt'' input) = Inr settled
    \<and> \<not> (started \<noteq> JNull \<and> js_less P (jint settled) started)
    \<and> (if nullish (own ''startedAt'' input) then Inr JNull
            else rbind (assertSafeInteger 0 MAX_SAFE_INTEGER (own ''startedAt'' input)) (\<lambda>n. Inr (jint n))) = Inr started"
proof -
  have opt: "(case ob of None \<Rightarrow> failSub e | Some b \<Rightarrow> f b) = Inr r \<longleftrightarrow> (\<exists>b. ob = Some b \<and> f b = Inr r)" for ob e and f :: "jsval \<Rightarrow> jsval res" and r
    by (cases ob) auto
  show ?thesis
    using assms unfolding createTerminalReceipt_def res_inv opt not_not by blast
qed

text \<open>A projected proof that still says \<open>observed\<close> comes from an observed proof with its runner.\<close>

lemma terminalProof_observed:
  assumes "terminalProofProjection P pr b = Inr pt" "own ''state'' pt = JStr ''observed''"
  shows "own ''runId'' pr \<in> {own ''backendRunId'' b, own ''backendAsyncId'' b}"
    "own ''state'' pr = JStr ''observed'' \<Longrightarrow> \<exists>i \<in> set (items (own ''instances'' pr)). own ''processInstanceId'' i = own ''runnerProcessInstanceId'' pr"
    "distinct (keys pr) \<Longrightarrow> own ''state'' pr = JStr ''observed''"
proof -
  have pr: "isObj pr" "own ''state'' pr \<in> {JStr ''observed'', JStr ''unknown''}" "boundedProjection P (32 * 1024) pr = Inr pt"
    using assms by (auto simp: terminalProofProjection_def Let_def rbind_eq_Inr split: if_splits)
  show "own ''runId'' pr \<in> {own ''backendRunId'' b, own ''backendAsyncId'' b}"
    using assms by (auto simp: terminalProofProjection_def js_eq_def Let_def split: if_splits)
  show "own ''state'' pr = JStr ''observed'' \<Longrightarrow> \<exists>i \<in> set (items (own ''instances'' pr)). own ''processInstanceId'' i = own ''runnerProcessInstanceId'' pr"
    using assms by (auto simp: terminalProofProjection_def Let_def rbind_eq_Inr split: if_splits)
  have "pt = redactDetails pr"
    using pr(3) assms(2) by (auto simp: boundedProjection_def Let_def rbind_eq_Inr immutable_def split: if_splits)
  moreover have "\<not> SENSITIVE_KEY ''state''" by code_simp
  ultimately show "distinct (keys pr) \<Longrightarrow> own ''state'' pr = JStr ''observed''"
    using redactDetails_own_string [of "''state''" pr "''observed''"] assms(2) pr by auto
qed

lemma receipt_value_keys: "distinct (map fst (receipt_value h b oc au st se co pt rs er))"
  "''receiptId'' \<notin> set (map fst (receipt_value h b oc au st se co pt rs er))"
  by (simp_all add: receipt_value_def Let_def)

lemma receipt_requires_proof:
  assumes r: "createTerminalReceipt P input err = Inr r"
    and oc: "own ''outcome'' input \<in> set (map JStr REQUIRES_OBSERVED_PROCESS)"
    and keys: "distinct (keys (own ''processTerminal'' input))"
  shows "own ''authoritative'' r = JBool True
    \<and> (\<exists>b \<in> set (items (own ''backendBindings'' (own ''handle'' input))).
         own ''bindingId'' r = json_view (own ''bindingId'' b)
       \<and> (\<exists>c. assertBackendCorrelation (own ''handle'' input) (own ''completion'' input) (own ''bindingId'' b) = Inr c)
       \<and> own ''state'' (own ''processTerminal'' input) = JStr ''observed''
       \<and> own ''runId'' (own ''processTerminal'' input) \<in> {own ''backendRunId'' b, own ''backendAsyncId'' b}
       \<and> (\<exists>i \<in> set (items (own ''instances'' (own ''processTerminal'' input))).
            own ''processInstanceId'' i = own ''runnerProcessInstanceId'' (own ''processTerminal'' input)))"
proof -
  obtain h b started settled comp pt res err' x where
    seal: "sealed P (receipt_value h b (own ''outcome'' input) (own ''state'' pt = JStr ''observed'' \<and> \<not> nullish (own ''completion'' input))
          started settled comp pt res err') ''receiptId'' = Inr r"
    and h: "h = own ''handle'' input"
    and b: "(if own ''bindingId'' input = JUndef then rbind (activeBackendBinding h) (\<lambda>b. Inr (Some b))
            else rbind (prop_of ''backendBindings'' h) (\<lambda>bb. rbind (arr_of bb) (bindingById (own ''bindingId'' input)))) = Inr (Some b)"
    and c: "(if \<not> nullish (own ''completion'' input) then assertBackendCorrelation h (own ''completion'' input) (own ''bindingId'' b) else Inr JUndef) = Inr x"
    and pt: "terminalProofProjection P (own ''processTerminal'' input) b = Inr pt"
    and auth: "\<not> (own ''outcome'' input \<in> set (map JStr REQUIRES_OBSERVED_PROCESS)
         \<and> \<not> (own ''state'' pt = JStr ''observed'' \<and> \<not> nullish (own ''completion'' input)))"
    using createTerminalReceipt_facts [OF r] by blast
  have a: "own ''state'' pt = JStr ''observed''" "\<not> nullish (own ''completion'' input)" using auth oc by blast+
  have mem: "b \<in> set (items (own ''backendBindings'' h))"
    using b by (auto simp: activeBackendBinding_def rbind_eq_Inr dest!: bindingById_Some split: if_splits option.splits)
  note o = sealed_own [OF seal receipt_value_keys]
  have f: "own ''authoritative'' r = JBool True" "own ''bindingId'' r = json_view (own ''bindingId'' b)"
    by (simp add: o, simp add: receipt_value_def Let_def a)+
  have cc: "assertBackendCorrelation h (own ''completion'' input) (own ''bindingId'' b) = Inr x" using c a(2) by simp
  note tp = terminalProof_observed [OF pt a(1)]
  show ?thesis using f mem cc tp(1) tp(3) [OF keys] tp(2) [OF tp(3) [OF keys]] unfolding h by blast
qed

lemma receipt_times:
  assumes "createTerminalReceipt P input err = Inr r"
  shows "\<exists>n. own ''settledAt'' r = jint n \<and> 0 \<le> n \<and> (own ''startedAt'' r = JNull \<or> (\<exists>m. own ''startedAt'' r = jint m \<and> 0 \<le> m \<and> m \<le> n))"
proof -
  obtain h b started n comp pt res err' where
    seal: "sealed P (receipt_value h b (own ''outcome'' input) (own ''state'' pt = JStr ''observed'' \<and> \<not> nullish (own ''completion'' input))
          started n comp pt res err') ''receiptId'' = Inr r"
    and n: "assertSafeInteger 0 MAX_SAFE_INTEGER (own ''settledAt'' input) = Inr n"
    and le: "\<not> (started \<noteq> JNull \<and> js_less P (jint n) started)"
    and st: "(if nullish (own ''startedAt'' input) then Inr JNull
            else rbind (assertSafeInteger 0 MAX_SAFE_INTEGER (own ''startedAt'' input)) (\<lambda>n. Inr (jint n))) = Inr started"
    using createTerminalReceipt_facts [OF assms] by blast
  note o = sealed_own [OF seal receipt_value_keys]
  have s: "started = JNull \<or> (\<exists>m. started = jint m \<and> 0 \<le> m \<and> m \<le> n)"
    using st le by (auto simp: rbind_eq_Inr assertSafeInteger_Inr split: if_splits)
  have f: "own ''settledAt'' r = jint n" "own ''startedAt'' r = json_view started"
    by (simp add: o, simp add: receipt_value_def Let_def)+
  show ?thesis using s n unfolding f by (auto simp: assertSafeInteger_Inr)
qed


section \<open>Properties\<close>

definition demo_handle_input :: jsval where
  "demo_handle_input = JObj [
     (''assignment'', JObj [(''kind'', JStr ''task-assignment''), (''assignmentId'', JStr ''a1''),
        (''assignmentHash'', zero_digest), (''agentSpecHash'', zero_digest)]),
     (''agentSpec'', JObj [(''kind'', JStr ''resolved-agent-spec''), (''id'', JStr ''scout-resolved''), (''specHash'', zero_digest),
        (''continuable'', JBool False), (''resumable'', JBool True)]),
     (''runId'', JStr ''run-1''), (''nodeId'', JStr ''n1''), (''attemptId'', JStr ''t1'')]"

definition demo_launch :: jsval where
  "demo_launch = JObj [(''backendId'', JStr ''pi''), (''backendVersion'', JStr ''1.0''), (''protocolVersion'', jint 1),
     (''requestId'', JStr ''req-1''), (''backendRunId'', JStr ''b1'')]"

definition demo_resume :: jsval where
  "demo_resume = JObj [(''backendId'', JStr ''pi''), (''backendVersion'', JStr ''1.0''), (''protocolVersion'', jint 1),
     (''lifecycle'', JStr ''resume''), (''parentBindingId'', zero_digest),
     (''requestId'', JStr ''req-2''), (''backendRunId'', JStr ''b2''), (''backendAsyncId'', JStr ''x2'')]"

definition demo_receipt_input :: "jsval \<Rightarrow> jsval" where
  "demo_receipt_input h = JObj [(''handle'', h), (''outcome'', JStr ''completed''),
     (''completion'', JObj [(''runId'', JStr ''b1'')]),
     (''processTerminal'', JObj [(''version'', jint 1), (''state'', JStr ''observed''), (''runId'', JStr ''b1''),
        (''runnerProcessInstanceId'', JStr ''p1''), (''observedAt'', jint 5),
        (''instances'', JArr [JObj [(''processInstanceId'', JStr ''p1'')]])]),
     (''startedAt'', jint 1), (''settledAt'', jint 7)]"

lemma demo_handle_runs:
  "\<exists>h1 h2 h3 r. createAgentRunHandle plain_host demo_handle_input = Inr h1
     \<and> bindBackendRun plain_host h1 demo_launch = Inr h2
     \<and> bindBackendRun plain_host h2 demo_resume = Inr h3
     \<and> createTerminalReceipt plain_host (demo_receipt_input h2) None = Inr r"
proof -
  have "\<not> isl (rbind (createAgentRunHandle plain_host demo_handle_input) (\<lambda>h1.
     rbind (bindBackendRun plain_host h1 demo_launch) (\<lambda>h2.
     rbind (bindBackendRun plain_host h2 demo_resume) (\<lambda>h3. createTerminalReceipt plain_host (demo_receipt_input h2) None))))"
    by code_simp
  from not_isl_Inr [OF this] show ?thesis unfolding rbind_eq_Inr by blast
qed

text \<open>
  Whatever sequence of backend runs is bound to a handle: its bindings are one launch followed
  by resumes of earlier bindings, all on one backend, with distinct request ids, and the active
  binding is the last one.
\<close>

theorem handle_binding_chain:
  assumes "run_handle P h"
  shows "handle_wf h"
  using assms by (rule run_handle_wf)

theorem handle_binding_chain_witness:
  "\<exists>h1 h2. createAgentRunHandle plain_host demo_handle_input = Inr h1
     \<and> bindBackendRun plain_host h1 demo_launch = Inr h2 \<and> handle_wf h2"
  using demo_handle_runs handle_binding_chain run_handle.intros by meson

text \<open>
  On every handle a run can hold, \<open>activeBackendBinding\<close> fails with
  \<open>HANDLE_BACKEND_UNBOUND\<close> exactly while nothing is bound, and otherwise returns a binding of
  the handle that carries the active id; the branch \<open>HANDLE_BINDING_MISSING\<close> is unreachable.
\<close>

theorem active_binding_exists:
  assumes "run_handle P h"
  shows "if own ''backendBindings'' h = JArr [] then activeBackendBinding h = failSub ''HANDLE_BACKEND_UNBOUND''
    else (\<exists>b. activeBackendBinding h = Inr b \<and> b \<in> set (items (own ''backendBindings'' h))
       \<and> own ''bindingId'' b = own ''activeBindingId'' h)"
  using active_binding_found [OF run_handle_wf [OF assms]] .

theorem active_binding_exists_witness:
  "\<exists>h1. createAgentRunHandle plain_host demo_handle_input = Inr h1
     \<and> (if own ''backendBindings'' h1 = JArr [] then activeBackendBinding h1 = failSub ''HANDLE_BACKEND_UNBOUND''
    else (\<exists>b. activeBackendBinding h1 = Inr b \<and> b \<in> set (items (own ''backendBindings'' h1))
       \<and> own ''bindingId'' b = own ''activeBindingId'' h1))"
  using demo_handle_runs active_binding_exists run_handle.created by meson

text \<open>
  Binding is idempotent for a resume that names its parent: replaying the same request on
  the resulting handle returns that handle unchanged.
\<close>

theorem resume_replay_idempotent:
  assumes "run_handle P h" "bindBackendRun P h input = Inr h'"
    and "own ''lifecycle'' input = JStr ''resume''" "\<not> nullish (own ''parentBindingId'' input)"
  shows "bindBackendRun P h' input = Inr h'"
  using bind_replay [OF run_handle_wf [OF assms(1)] assms(2-4)] .

theorem resume_replay_idempotent_witness:
  "\<exists>h2 h3. run_handle plain_host h2 \<and> bindBackendRun plain_host h2 demo_resume = Inr h3
     \<and> bindBackendRun plain_host h3 demo_resume = Inr h3"
proof -
  obtain h2 h3 where h: "run_handle plain_host h2" "bindBackendRun plain_host h2 demo_resume = Inr h3"
    using demo_handle_runs run_handle.intros by meson
  have "own ''lifecycle'' demo_resume = JStr ''resume''" "\<not> nullish (own ''parentBindingId'' demo_resume)"
    by (simp_all add: demo_resume_def zero_digest_def)
  from resume_replay_idempotent [OF h this] show ?thesis using h by blast
qed



text \<open>
  Correlation is not enforced for an event that names no run: when the active binding has no
  asynchronous id, both sides of the comparison are undefined and the empty event is accepted.
\<close>

theorem anonymous_event_accepted:
  assumes "run_handle P h" "activeBackendBinding h = Inr b" "own ''backendAsyncId'' b = JUndef"
  shows "assertBackendCorrelation h (JObj []) JUndef = Inr b"
  using correlation_accepts_anonymous [OF run_handle_wf [OF assms(1)] assms(2,3)] .

theorem anonymous_event_accepted_witness:
  "\<exists>h b. run_handle plain_host h \<and> activeBackendBinding h = Inr b \<and> assertBackendCorrelation h (JObj []) JUndef = Inr b"
proof -
  obtain h1 h where h: "createAgentRunHandle plain_host demo_handle_input = Inr h1"
    "bindBackendRun plain_host h1 demo_launch = Inr h" using demo_handle_runs by blast
  have "rbind (createAgentRunHandle plain_host demo_handle_input) (\<lambda>h1. rbind (bindBackendRun plain_host h1 demo_launch)
      (\<lambda>h. rbind (activeBackendBinding h) (\<lambda>b. Inr (own ''backendAsyncId'' b)))) = Inr JUndef"
    by code_simp
  then obtain b where b: "activeBackendBinding h = Inr b" "own ''backendAsyncId'' b = JUndef"
    using h by (auto simp: rbind_eq_Inr)
  have "run_handle plain_host h" using h run_handle.intros by meson
  from anonymous_event_accepted [OF this b] show ?thesis using \<open>run_handle plain_host h\<close> b(1) by blast
qed


end
