(* ===== verification/Domain_Capability.thy ===== *)
theory Domain_Capability
  imports Domain_Shared
begin

text \<open>
  \<open>packages/subagents/domain/capabilities.mjs\<close>: the capability matrix of a backend. The lemmas
  show that a constructed matrix answers every key with a well-formed entry, and which entries
  \<open>requireBackendCapability\<close> lets through.
\<close>

section \<open>Operations\<close>

definition BACKEND_CAPABILITY_STATES :: "string list" where
  "BACKEND_CAPABILITY_STATES = [''SUPPORTED'', ''DEGRADED'', ''UNAVAILABLE'']"

definition BACKEND_CAPABILITY_KEYS :: "string list" where
  "BACKEND_CAPABILITY_KEYS = [''foreground'', ''background'', ''continuableResume'', ''status'', ''steer'', ''interrupt'',
     ''stop'', ''resume'', ''dispose'', ''terminalEvents'', ''processTerminalProof'', ''worktree'', ''perItemResult'',
     ''usageMeter'', ''rateLimitSignal'', ''dynamicConcurrency'', ''modelOverlay'', ''toolOverlay'', ''structuredOutput'']"

definition createBackendCapabilityEntry :: "jsval \<Rightarrow> jsval res" where
  "createBackendCapabilityEntry input =
     rbind (assertRecord input) (\<lambda>_.
     if own ''state'' input \<notin> set (map JStr BACKEND_CAPABILITY_STATES) then Inl TypeError else
     rbind (assertDomainId (own ''reasonCode'' input)) (\<lambda>reasonCode.
     rbind (normalizeStringSet False 32 (coalesce (own ''evidence'' input) (JArr []))) (\<lambda>evidence.
     if evidence = [] then Inl TypeError else
     rbind (if own ''constraints'' input = JUndef then Inr (JObj []) else assertRecord (own ''constraints'' input)) (\<lambda>constraints.
     Inr (immutable (JObj [(''state'', own ''state'' input), (''reasonCode'', JStr reasonCode),
       (''evidence'', JArr (map JStr evidence)), (''constraints'', constraints)]))))))"

definition capability_value :: "string \<Rightarrow> string \<Rightarrow> string \<Rightarrow> int \<Rightarrow> int \<Rightarrow> (string \<times> jsval) list \<Rightarrow> (string \<times> jsval) list" where
  "capability_value backendId backendVersion protocolName protocolVersion observedAt normalized =
     [(''$schema'', JStr ''https://github.com/Ricardo121380/only-my-pi/schemas/backend-capability-v2.schema.json''),
      (''formatVersion'', jint 2),
      (''contractStatus'', JStr ''contract-preview''),
      (''kind'', JStr ''backend-capability-matrix''),
      (''backendId'', JStr backendId),
      (''backendVersion'', JStr backendVersion),
      (''protocol'', JObj [(''name'', JStr protocolName), (''version'', jint protocolVersion)]),
      (''observedAt'', jint observedAt),
      (''capabilities'', JObj normalized)]"

definition createBackendCapabilityV2 :: "platform \<Rightarrow> jsval \<Rightarrow> jsval res" where
  "createBackendCapabilityV2 P input =
     rbind (prop_of ''backendId'' input) (\<lambda>_.
     rbind (assertDomainId (own ''backendId'' input)) (\<lambda>backendId.
     rbind (assertString 1 128 (own ''backendVersion'' input)) (\<lambda>backendVersion.
     rbind (assertRecord (own ''protocol'' input)) (\<lambda>protocol.
     rbind (assertString 1 128 (own ''name'' protocol)) (\<lambda>protocolName.
     rbind (assertSafeInteger 1 1024 (own ''version'' protocol)) (\<lambda>protocolVersion.
     rbind (assertSafeInteger 0 MAX_SAFE_INTEGER
        (if own ''observedAt'' input = JUndef then jint 0 else own ''observedAt'' input)) (\<lambda>observedAt.
     rbind (assertRecord (own ''capabilities'' input)) (\<lambda>capabilities.
     let unknown = filter (\<lambda>key. key \<notin> set BACKEND_CAPABILITY_KEYS) (keys capabilities) in
     if unknown \<noteq> [] then Inl TypeError else
     rbind (mapR (\<lambda>key. if \<not> hasOwn capabilities key then Inl TypeError
              else rbind (createBackendCapabilityEntry (own key capabilities)) (\<lambda>entry. Inr (key, entry)))
            BACKEND_CAPABILITY_KEYS) (\<lambda>normalized.
     sealed P (capability_value backendId backendVersion protocolName protocolVersion observedAt normalized)
       ''capabilityHash'')))))))))"

definition backendCapability :: "jsval \<Rightarrow> string \<Rightarrow> jsval res" where
  "backendCapability matrix key =
     (if own ''formatVersion'' matrix \<noteq> jint 2 \<or> own ''kind'' matrix \<noteq> JStr ''backend-capability-matrix'' then Inl TypeError else
      if key \<notin> set BACKEND_CAPABILITY_KEYS then Inl TypeError else
      prop_of key (own ''capabilities'' matrix))"

definition ascii_upper :: "char \<Rightarrow> char" where
  "ascii_upper c = (let n = (of_char c :: nat) in if 97 \<le> n \<and> n \<le> 122 then char_of (n - 32) else c)"

definition requireBackendCapability :: "jsval \<Rightarrow> string \<Rightarrow> bool \<Rightarrow> jsval res" where
  "requireBackendCapability matrix key allowDegraded =
     rbind (backendCapability matrix key) (\<lambda>entry.
     rbind (prop_of ''state'' entry) (\<lambda>state.
     if state = JStr ''SUPPORTED'' \<or> (allowDegraded \<and> state = JStr ''DEGRADED'') then Inr entry else
     case state of JStr s \<Rightarrow> failSub (''BACKEND_'' @ map ascii_upper key @ ''_'' @ s) | _ \<Rightarrow> Inl TypeError))"

section \<open>Lemmas\<close>

definition capability_entry_ok :: "jsval \<Rightarrow> bool" where
  "capability_entry_ok e \<longleftrightarrow> isObj e \<and> own ''state'' e \<in> set (map JStr BACKEND_CAPABILITY_STATES)
     \<and> (\<exists>r. own ''reasonCode'' e = JStr r \<and> DOMAIN_ID r)
     \<and> (\<exists>ev. own ''evidence'' e = JArr (map JStr ev) \<and> ev \<noteq> [] \<and> distinct ev \<and> sorted ev \<and> length ev \<le> 32)
     \<and> isObj (own ''constraints'' e)"

lemma createBackendCapabilityEntry_ok:
  assumes "createBackendCapabilityEntry input = Inr e"
  shows "capability_entry_ok e \<and> own ''state'' e = own ''state'' input"
proof -
  from assms obtain r ev c where st: "own ''state'' input \<in> set (map JStr BACKEND_CAPABILITY_STATES)"
    and r: "assertDomainId (own ''reasonCode'' input) = Inr r"
    and ev: "normalizeStringSet False 32 (coalesce (own ''evidence'' input) (JArr [])) = Inr ev" "ev \<noteq> []"
    and c: "(if own ''constraints'' input = JUndef then Inr (JObj []) else assertRecord (own ''constraints'' input)) = Inr c"
    and e: "e = immutable (JObj [(''state'', own ''state'' input), (''reasonCode'', JStr r), (''evidence'', JArr (map JStr ev)), (''constraints'', c)])"
    unfolding createBackendCapabilityEntry_def res_inv not_not by blast
  have oc: "isObj c" using c by (auto split: if_splits)
  have ov: "own k e = json_view (own k (JObj [(''state'', own ''state'' input), (''reasonCode'', JStr r), (''evidence'', JArr (map JStr ev)), (''constraints'', c)]))" for k
    unfolding e immutable_def by (rule own_json_view) simp
  obtain s where s: "own ''state'' input = JStr s" using st by auto
  have f: "own ''state'' e = JStr s" "own ''reasonCode'' e = JStr r" "own ''evidence'' e = JArr (map JStr ev)"
    "own ''constraints'' e = json_view c"
    by (simp_all add: ov s)
  have "isObj e" by (simp add: e immutable_def)
  then show ?thesis using st r ev(2) oc normalizeStringSet_Inr [OF ev(1)] unfolding capability_entry_ok_def f s by auto
qed

lemma json_view_object_idem:
  assumes "createBackendCapabilityEntry input = Inr e"
  shows "json_view e = e"
  using assms unfolding createBackendCapabilityEntry_def res_inv by (auto simp: immutable_def json_view_idem)

lemma mapR_entries_lookup:
  assumes "mapR (\<lambda>k. if Q k then Inl err else rbind (f k) (\<lambda>x. Inr (k, x))) ks = Inr ps"
  shows "map fst ps = ks" "k \<in> set ks \<Longrightarrow> \<exists>x. f k = Inr x \<and> map_of ps k = Some x"
proof -
  show "map fst ps = ks" using assms by (induction ks arbitrary: ps) (auto simp: res_simps split: if_splits)
  show "k \<in> set ks \<Longrightarrow> \<exists>x. f k = Inr x \<and> map_of ps k = Some x"
    using assms by (induction ks arbitrary: ps) (auto simp: res_simps split: if_splits)
qed

lemma matrix_lookup:
  assumes "createBackendCapabilityV2 P input = Inr m" "key \<in> set BACKEND_CAPABILITY_KEYS"
  shows "\<exists>e. backendCapability m key = Inr e \<and> createBackendCapabilityEntry (own key (own ''capabilities'' input)) = Inr e"
proof -
  from assms(1) obtain b v pn pv oa norm where seal: "sealed P (capability_value b v pn pv oa norm) ''capabilityHash'' = Inr m"
    and norm: "mapR (\<lambda>key. if \<not> hasOwn (own ''capabilities'' input) key then Inl TypeError
              else rbind (createBackendCapabilityEntry (own key (own ''capabilities'' input))) (\<lambda>entry. Inr (key, entry)))
            BACKEND_CAPABILITY_KEYS = Inr norm"
    unfolding createBackendCapabilityV2_def res_inv assertRecord_Inr by blast
  have d: "distinct (map fst (capability_value b v pn pv oa norm))" "''capabilityHash'' \<notin> set (map fst (capability_value b v pn pv oa norm))"
    by (simp_all add: capability_value_def)
  note o = sealed_own [OF seal d]
  have f: "own ''formatVersion'' m = jint 2" "own ''kind'' m = JStr ''backend-capability-matrix''" "own ''capabilities'' m = json_view (JObj norm)"
    by (simp add: o, simp add: capability_value_def)+
  obtain e where e: "createBackendCapabilityEntry (own key (own ''capabilities'' input)) = Inr e" "map_of norm key = Some e"
    using mapR_entries_lookup(2) [OF norm assms(2)] by blast
  have "distinct (map fst norm)" unfolding mapR_entries_lookup(1) [OF norm] by (simp add: BACKEND_CAPABILITY_KEYS_def)
  then have "own key (json_view (JObj norm)) = json_view (own key (JObj norm))" by (rule own_json_view)
  also have "\<dots> = e" using e by (simp add: own.simps(1) json_view_object_idem [OF e(1)])
  finally show ?thesis using e(1) assms(2) f by (auto simp: backendCapability_def prop_of_def)
qed

lemma require_matrix:
  assumes "createBackendCapabilityV2 P input = Inr m" "key \<in> set BACKEND_CAPABILITY_KEYS"
  shows "\<exists>e s. backendCapability m key = Inr e \<and> capability_entry_ok e \<and> own ''state'' e = JStr s
     \<and> requireBackendCapability m key allow =
        (if s = ''SUPPORTED'' \<or> (allow \<and> s = ''DEGRADED'') then Inr e
         else failSub (''BACKEND_'' @ map ascii_upper key @ ''_'' @ s))"
proof -
  obtain e where e: "backendCapability m key = Inr e" "createBackendCapabilityEntry (own key (own ''capabilities'' input)) = Inr e"
    using matrix_lookup [OF assms] by blast
  have ok: "capability_entry_ok e" using createBackendCapabilityEntry_ok [OF e(2)] by simp
  then obtain s where s: "own ''state'' e = JStr s" "isObj e" by (auto simp: capability_entry_ok_def)
  have st: "prop_of ''state'' e = Inr (JStr s)" using s by (auto simp: isObj_iff prop_of_def)
  have "requireBackendCapability m key allow =
        (if s = ''SUPPORTED'' \<or> (allow \<and> s = ''DEGRADED'') then Inr e
         else failSub (''BACKEND_'' @ map ascii_upper key @ ''_'' @ s))"
    unfolding requireBackendCapability_def e(1) rbind_simps st by simp
  then show ?thesis using e(1) ok s(1) by blast
qed

section \<open>Properties\<close>

definition demo_capabilities :: jsval where
  "demo_capabilities = JObj [(''backendId'', JStr ''pi''), (''backendVersion'', JStr ''1''),
     (''protocol'', JObj [(''name'', JStr ''rpc''), (''version'', jint 1)]),
     (''capabilities'', JObj (map (\<lambda>k. (k, JObj [(''state'', JStr ''DEGRADED''), (''reasonCode'', JStr ''probe''),
        (''evidence'', JArr [JStr ''docs''])])) BACKEND_CAPABILITY_KEYS))]"

text \<open>
  A constructed capability matrix answers every known key with a well-formed entry, and
  \<open>requireBackendCapability\<close> returns that entry when it is supported, or degraded with the
  caller's leave, and otherwise throws the error named after the key and the state.
\<close>

theorem required_capability:
  assumes "createBackendCapabilityV2 P input = Inr m" "key \<in> set BACKEND_CAPABILITY_KEYS"
  shows "\<exists>e s. backendCapability m key = Inr e \<and> capability_entry_ok e \<and> own ''state'' e = JStr s
     \<and> requireBackendCapability m key allow =
        (if s = ''SUPPORTED'' \<or> (allow \<and> s = ''DEGRADED'') then Inr e
         else failSub (''BACKEND_'' @ map ascii_upper key @ ''_'' @ s))"
  using assms by (rule require_matrix)

theorem required_capability_witness:
  "\<exists>m e s. createBackendCapabilityV2 plain_host demo_capabilities = Inr m \<and> backendCapability m ''steer'' = Inr e
     \<and> requireBackendCapability m ''steer'' True =
        (if s = ''SUPPORTED'' \<or> (True \<and> s = ''DEGRADED'') then Inr e
         else failSub (''BACKEND_'' @ map ascii_upper ''steer'' @ ''_'' @ s))"
proof -
  have "\<not> isl (createBackendCapabilityV2 plain_host demo_capabilities)" by code_simp
  then obtain m where m: "createBackendCapabilityV2 plain_host demo_capabilities = Inr m" using not_isl_Inr by blast
  have "''steer'' \<in> set BACKEND_CAPABILITY_KEYS" by (simp add: BACKEND_CAPABILITY_KEYS_def)
  from required_capability [OF m this, of True] show ?thesis using m by blast
qed

end
