(* ===== verification/Json_Reader.thy ===== *)
theory Json_Reader
  imports Domain_Shared
begin

text \<open>
  The host contract the stored state relies on, and a host that meets it. The program reads back
  files it wrote as \<open>canonicalJson(value)\<close>; \<open>host_ok\<close> says that the host's JSON reader returns
  the value whose canonical text it is given (with or without a final newline), that its
  SHA-256 has 64 lower-case hexadecimal digits, that it reads the dates it prints, and that
  number texts stay on one line. \<open>reference_host\<close> is a host with an executable JSON reader for which the
  contract is proved; it instantiates the hypotheses in the witnesses.
\<close>

section \<open>Values with distinct keys\<close>

text \<open>Every object of the value has distinct property names, as every object of the program has.\<close>

fun distinct_names :: "jsval \<Rightarrow> bool" where
  "distinct_names (JArr xs) = list_all distinct_names xs"
| "distinct_names (JObj ps) = (distinct (map fst ps) \<and> list_all (\<lambda>(k, x). distinct_names x) ps)"
| "distinct_names _ = True"

definition canonical :: "jsval \<Rightarrow> bool" where
  "canonical v \<longleftrightarrow> canonicalValue v = Inr v"

definition host_ok :: "platform \<Rightarrow> bool" where
  "host_ok P \<longleftrightarrow>
     (\<forall>v t. canonical v \<and> distinct_names v \<and> stringify P v = Some t
        \<longrightarrow> json_parse P t = Some v \<and> json_parse P (t @ [CHR 0x0A]) = Some v)
   \<and> (\<forall>s. length (sha256_hex P s) = 64 \<and> list_all is_hex (sha256_hex P s))
   \<and> (\<forall>a. \<bar>a\<bar> \<le> 8640000000000000 \<longrightarrow> num_isFinite (date_parse P (iso_string P (Fin a))))
   \<and> (\<forall>n. CHR 0x0A \<notin> set (num_str P n))"

section \<open>A JSON reader\<close>

definition hex_value :: "char \<Rightarrow> nat" where
  "hex_value c = (let n = of_char c in if n < 58 then n - 48 else n - 87)"

definition unescape :: "char \<Rightarrow> char" where
  "unescape c = (if c = CHR ''b'' then CHR 0x08 else if c = CHR ''t'' then CHR 0x09 else if c = CHR ''n'' then CHR 0x0A
     else if c = CHR ''f'' then CHR 0x0C else if c = CHR ''r'' then CHR 0x0D else c)"

fun read_string :: "string \<Rightarrow> (string \<times> string) option" where
  "read_string [] = None"
| "read_string (c # cs) =
     (if c = CHR 0x22 then Some ([], cs)
      else if c = CHR 0x5C then
        (case cs of [] \<Rightarrow> None
         | e # es \<Rightarrow>
           (if e = CHR ''u'' then
              (case es of a # b # x # y # r \<Rightarrow> (case read_string r of None \<Rightarrow> None
                 | Some (s, rest) \<Rightarrow> Some (char_of (16 * hex_value x + hex_value y) # s, rest)) | _ \<Rightarrow> None)
            else (case read_string es of None \<Rightarrow> None | Some (s, rest) \<Rightarrow> Some (unescape e # s, rest))))
      else (case read_string cs of None \<Rightarrow> None | Some (s, rest) \<Rightarrow> Some (c # s, rest)))"

definition digits_value :: "string \<Rightarrow> nat" where
  "digits_value ds = foldl (\<lambda>n d. 10 * n + (of_char d - 48)) 0 ds"

definition read_nat :: "string \<Rightarrow> (nat \<times> string) option" where
  "read_nat s = (let ds = takeWhile is_digit s in if ds = [] then None else Some (digits_value ds, dropWhile is_digit s))"

definition read_int :: "string \<Rightarrow> (int \<times> string) option" where
  "read_int s = (case s of c # cs \<Rightarrow>
       (if c = CHR ''-'' then map_option (\<lambda>(n, r). (- int n, r)) (read_nat cs) else map_option (\<lambda>(n, r). (int n, r)) (read_nat s))
     | [] \<Rightarrow> None)"

definition read_number :: "string \<Rightarrow> (jsval \<times> string) option" where
  "read_number s = (case read_int s of None \<Rightarrow> None
     | Some (p, r) \<Rightarrow> (case r of c # cs \<Rightarrow>
         (if c = CHR ''/'' then map_option (\<lambda>(q, r). (JNum (Fin (of_int p / of_int q)), r)) (read_int cs)
          else Some (jint p, r))
       | [] \<Rightarrow> Some (jint p, [])))"

fun read_value :: "nat \<Rightarrow> string \<Rightarrow> (jsval \<times> string) option"
  and read_items :: "nat \<Rightarrow> string \<Rightarrow> (jsval list \<times> string) option"
  and read_members :: "nat \<Rightarrow> string \<Rightarrow> ((string \<times> jsval) list \<times> string) option" where
  "read_value 0 s = None"
| "read_value (Suc n) s =
     (if prefix ''null'' s then Some (JNull, drop 4 s)
      else if prefix ''true'' s then Some (JBool True, drop 4 s)
      else if prefix ''false'' s then Some (JBool False, drop 5 s)
      else (case s of [] \<Rightarrow> None
        | c # cs \<Rightarrow>
          if c = CHR 0x22 then map_option (\<lambda>(t, r). (JStr t, r)) (read_string cs)
          else if c = CHR ''['' then
            (if prefix '']'' cs then Some (JArr [], drop 1 cs) else map_option (\<lambda>(xs, r). (JArr xs, r)) (read_items n cs))
          else if c = CHR ''{'' then
            (if prefix ''}'' cs then Some (JObj [], drop 1 cs) else map_option (\<lambda>(ps, r). (JObj ps, r)) (read_members n cs))
          else read_number s))"
| "read_items 0 s = None"
| "read_items (Suc n) s = (case read_value n s of None \<Rightarrow> None
     | Some (v, r) \<Rightarrow> (case r of [] \<Rightarrow> None
       | c # cs \<Rightarrow> if c = CHR '']'' then Some ([v], cs)
                 else if c = CHR '','' then map_option (\<lambda>(xs, r). (v # xs, r)) (read_items n cs) else None))"
| "read_members 0 s = None"
| "read_members (Suc n) s = (case s of [] \<Rightarrow> None | q # qs \<Rightarrow>
     (if q \<noteq> CHR 0x22 then None else case read_string qs of None \<Rightarrow> None
      | Some (k, r) \<Rightarrow> (case r of [] \<Rightarrow> None
        | co # cs \<Rightarrow> if co \<noteq> CHR '':'' then None else (case read_value n cs of None \<Rightarrow> None
          | Some (v, r) \<Rightarrow> (case r of [] \<Rightarrow> None
            | c # cs \<Rightarrow> if c = CHR ''}'' then Some ([(k, v)], cs)
                      else if c = CHR '','' then map_option (\<lambda>(ps, r). ((k, v) # ps, r)) (read_members n cs) else None)))))"

definition read_json :: "string \<Rightarrow> jsval option" where
  "read_json s = (case read_value (length s) s of None \<Rightarrow> None
     | Some (v, r) \<Rightarrow> (if r = [] \<or> r = [CHR 0x0A] then Some v else None))"

definition fraction_text :: "jsnum \<Rightarrow> string" where
  "fraction_text n = (case n of Fin a \<Rightarrow> int_text (fst (quotient_of a)) @ ''/'' @ int_text (snd (quotient_of a)) | _ \<Rightarrow> '''')"

definition reference_host :: platform where
  "reference_host = \<lparr> num_str = fraction_text, sha256_hex = (\<lambda>_. replicate 64 (CHR ''0'')),
     locale_le = (\<lambda>a b. a \<le> b),
     date_parse = (\<lambda>s. case read_number s of Some (JNum n, []) \<Rightarrow> n | _ \<Rightarrow> NaN),
     iso_string = (\<lambda>t. case t of Fin a \<Rightarrow> fraction_text t | _ \<Rightarrow> ''Invalid Date''),
     json_parse = read_json, json_error = (\<lambda>_. ''Unexpected end of JSON input''), to_number = (\<lambda>_. NaN) \<rparr>"

section \<open>The reader inverts the printer\<close>

lemma hex_value_digit: "k < 16 \<Longrightarrow> hex_value (hex_digit k) = k"
proof -
  have "\<forall>k \<in> set [0..<16]. hex_value (hex_digit k) = k" by code_simp
  then show "k < 16 \<Longrightarrow> hex_value (hex_digit k) = k" by simp
qed

text \<open>The three forms of an encoded character.\<close>

definition json_char_form :: "char \<Rightarrow> bool" where
  "json_char_form c = (case json_char c of
       [d] \<Rightarrow> d = c \<and> c \<noteq> CHR 0x22 \<and> c \<noteq> CHR 0x5C
     | [b, e] \<Rightarrow> b = CHR 0x5C \<and> e \<noteq> CHR ''u'' \<and> unescape e = c
     | [b, u, z1, z2, x, y] \<Rightarrow> b = CHR 0x5C \<and> u = CHR ''u'' \<and> char_of (16 * hex_value x + hex_value y) = c
     | _ \<Rightarrow> False)"

lemma json_char_form: "json_char_form c"
proof -
  define n where "n = (of_char c :: nat)"
  have c: "c = char_of n" by (simp add: n_def)
  consider "n = 34" | "n = 92" | "n = 8" | "n = 9" | "n = 10" | "n = 12" | "n = 13"
    | "n < 32" "n \<notin> {8, 9, 10, 12, 13}" | "n \<ge> 32" "n \<noteq> 34" "n \<noteq> 92" by auto linarith
  then show ?thesis
  proof cases
    case 8
    then have "json_char c = [CHR 0x5C, CHR ''u'', CHR ''0'', CHR ''0'', hex_digit (n div 16), hex_digit (n mod 16)]"
      by (simp add: json_char_def n_def [symmetric])
    moreover have "char_of (16 * hex_value (hex_digit (n div 16)) + hex_value (hex_digit (n mod 16))) = c"
      using 8(1) by (simp add: hex_value_digit c)
    ultimately show ?thesis by (simp add: json_char_form_def)
  next
    case 9
    then have "json_char c = [c]" by (simp add: json_char_def n_def [symmetric])
    moreover have "c \<noteq> CHR 0x22" "c \<noteq> CHR 0x5C" using 9 n_def by auto
    ultimately show ?thesis by (simp add: json_char_form_def)
  qed (simp_all add: json_char_form_def json_char_def n_def [symmetric] unescape_def, simp_all add: c char_of_def bit_0)
qed

lemma json_char_cases:
  obtains "json_char c = [c]" "c \<noteq> CHR 0x22" "c \<noteq> CHR 0x5C"
  | e where "json_char c = [CHR 0x5C, e]" "e \<noteq> CHR ''u''" "unescape e = c"
  | z1 z2 x y where "json_char c = [CHR 0x5C, CHR ''u'', z1, z2, x, y]" "char_of (16 * hex_value x + hex_value y) = c"
  using json_char_form [of c] unfolding json_char_form_def
  by (auto split: list.splits)

lemma read_string_char:
  "read_string (json_char c @ xs) = map_option (\<lambda>(s, r). (c # s, r)) (read_string xs)"
  by (cases rule: json_char_cases [of c]; cases "read_string xs") auto

lemma read_string_quote: "read_string (concat (map json_char s) @ CHR 0x22 # rest) = Some (s, rest)"
proof (induction s)
  case (Cons c s)
  show ?case using read_string_char [of c "concat (map json_char s) @ CHR 0x22 # rest"] Cons by simp
qed simp

lemma digit_chars: "k < 10 \<Longrightarrow> is_digit (''0123456789'' ! k) \<and> of_char (''0123456789'' ! k) - 48 = k"
proof -
  have "\<forall>k \<in> set [0..<10]. is_digit (''0123456789'' ! k) \<and> of_char (''0123456789'' ! k) - 48 = k" by code_simp
  then show "k < 10 \<Longrightarrow> is_digit (''0123456789'' ! k) \<and> of_char (''0123456789'' ! k) - 48 = k" by simp
qed

lemma digits10_digits: "list_all is_digit (digits10 n) \<and> digits10 n \<noteq> []"
proof (induction n rule: digits10.induct)
  case (1 n)
  show ?case
    unfolding digits10.simps [of n] using 1 digit_chars [of n] digit_chars [of "n mod 10"] by simp
qed

lemma digits10_value: "digits_value (digits10 n) = n"
proof (induction n rule: digits10.induct)
  case (1 n)
  show ?case
  proof (cases "n < 10")
    case True
    then show ?thesis by (subst digits10.simps) (simp add: digits_value_def digit_chars)
  next
    case False
    then have "digits_value (digits10 (n div 10)) = n div 10" by (rule 1)
    moreover have "of_char (''0123456789'' ! (n mod 10)) - 48 = n mod 10" using digit_chars [of "n mod 10"] by simp
    ultimately show ?thesis using False by (subst digits10.simps) (simp add: digits_value_def)
  qed
qed

definition ends :: "(char \<Rightarrow> bool) \<Rightarrow> string \<Rightarrow> bool" where
  "ends p rest = (case rest of [] \<Rightarrow> True | c # _ \<Rightarrow> \<not> p c)"

lemma read_nat_digits: "ends is_digit rest \<Longrightarrow> read_nat (digits10 n @ rest) = Some (n, rest)"
proof -
  assume e: "ends is_digit rest"
  have "takeWhile is_digit (ds @ rest) = ds \<and> dropWhile is_digit (ds @ rest) = rest" if "list_all is_digit ds" for ds
    using that e by (induction ds) (auto simp: ends_def split: list.splits)
  then show ?thesis using digits10_digits [of n] by (simp add: read_nat_def Let_def digits10_value)
qed

lemma digits10_head: "\<exists>c cs. digits10 n = c # cs \<and> is_digit c"
  using digits10_digits [of n] by (cases "digits10 n") auto

lemma read_int_text: "ends is_digit rest \<Longrightarrow> read_int (int_text i @ rest) = Some (i, rest)"
proof -
  assume e: "ends is_digit rest"
  obtain c cs where c: "digits10 (nat i) = c # cs" "is_digit c" using digits10_head by blast
  have "c \<noteq> CHR ''-''" using c(2) by (auto simp: is_digit_def)
  then show ?thesis using read_nat_digits [OF e, of "nat i"] read_nat_digits [OF e, of "nat (- i)"] c
    by (cases "i < 0") (auto simp: read_int_def int_text_def)
qed

definition num_ends :: "string \<Rightarrow> bool" where
  "num_ends rest = ends (\<lambda>c. is_digit c \<or> c = CHR ''/'') rest"

lemma num_ends_digit: "num_ends rest \<Longrightarrow> ends is_digit rest"
  by (auto simp: num_ends_def ends_def split: list.splits)

lemma read_number_int: "num_ends rest \<Longrightarrow> read_number (int_text i @ rest) = Some (jint i, rest)"
  using read_int_text [OF num_ends_digit, of rest i]
  by (auto simp: read_number_def num_ends_def ends_def split: list.splits)

lemma read_number_fraction: "num_ends rest \<Longrightarrow> read_number (fraction_text (Fin a) @ rest) = Some (JNum (Fin a), rest)"
proof -
  assume e: "num_ends rest"
  obtain p q where pq: "quotient_of a = (p, q)" by (cases "quotient_of a")
  have "read_int (int_text p @ CHR ''/'' # (int_text q @ rest)) = Some (p, CHR ''/'' # (int_text q @ rest))"
    by (rule read_int_text) (simp add: ends_def is_digit_def)
  moreover have "read_int (int_text q @ rest) = Some (q, rest)" by (rule read_int_text [OF num_ends_digit [OF e]])
  ultimately have "read_number (fraction_text (Fin a) @ rest) = Some (JNum (Fin (of_int p / of_int q)), rest)"
    by (simp add: read_number_def fraction_text_def pq)
  then show ?thesis using quotient_of_div [OF pq] by simp
qed

lemma read_number_text: "num_ends rest \<Longrightarrow> num_isFinite n \<Longrightarrow> read_number (num_text reference_host n @ rest) = Some (JNum n, rest)"
proof (cases n)
  case (Fin a)
  assume e: "num_ends rest"
  show ?thesis
  proof (cases "of_int \<lfloor>a\<rfloor> = a \<and> \<bar>a\<bar> < 10 ^ 21")
    case True
    then have "num_text reference_host n = int_text \<lfloor>a\<rfloor>" "JNum n = jint \<lfloor>a\<rfloor>" by (auto simp: num_text_def Fin)
    then show ?thesis using read_number_int [OF e] by simp
  next
    case False
    then have "num_text reference_host n = fraction_text (Fin a)" by (auto simp: num_text_def Fin reference_host_def)
    then show ?thesis using read_number_fraction [OF e] by (simp add: Fin)
  qed
qed auto

lemma int_text_head: "\<exists>c cs. int_text i = c # cs \<and> (is_digit c \<or> c = CHR ''-'')"
  using digits10_head [of "nat i"] by (auto simp: int_text_def)

lemma num_text_head: "num_isFinite n \<Longrightarrow> \<exists>c cs. num_text reference_host n = c # cs \<and> (is_digit c \<or> c = CHR ''-'')"
proof (cases n)
  case (Fin a)
  show ?thesis using int_text_head [of "\<lfloor>a\<rfloor>"] int_text_head [of "fst (quotient_of a)"]
    by (auto simp: Fin num_text_def reference_host_def fraction_text_def)
qed auto

text \<open>Values JSON can express: no undefined part, finite numbers.\<close>

fun finite_json :: "jsval \<Rightarrow> bool" where
  "finite_json JUndef = False"
| "finite_json (JNum n) = num_isFinite n"
| "finite_json (JArr xs) = list_all finite_json xs"
| "finite_json (JObj ps) = list_all (\<lambda>(k, x). finite_json x) ps"
| "finite_json _ = True"

lemma canonicalValue_finite:
  "\<forall>w. canonicalValue v = Inr w \<longrightarrow> finite_json v"
  "\<forall>ws. canonicalValues vs = Inr ws \<longrightarrow> list_all finite_json vs"
  "\<forall>qs. canonicalMembers ps = Inr qs \<longrightarrow> list_all (\<lambda>(k, x). finite_json x) ps"
  by (induction v and vs and ps rule: canonicalValue_canonicalValues_canonicalMembers.induct) (auto simp: res_simps)

definition reads_as :: "jsval \<Rightarrow> bool" where
  "reads_as v \<longleftrightarrow> (\<exists>c t. stringify reference_host v = Some (c # t) \<and> c \<noteq> CHR '']'' \<and> c \<noteq> CHR ''}''
     \<and> (\<forall>rest fuel. num_ends rest \<and> length (c # t) \<le> fuel \<longrightarrow> read_value fuel (c # t @ rest) = Some (v, rest)))"

lemma num_ends_simps: "num_ends []" "num_ends (CHR '']'' # r)" "num_ends (CHR ''}'' # r)" "num_ends (CHR '','' # r)" "num_ends [CHR 0x0A]"
  by (simp_all add: num_ends_def ends_def is_digit_def)

lemma reads_items:
  assumes "\<forall>x \<in> set xs. reads_as x" "xs \<noteq> []" "length (join_on '','' (stringify_items reference_host xs)) < fuel"
  shows "read_items fuel (join_on '','' (stringify_items reference_host xs) @ CHR '']'' # rest) = Some (xs, rest)"
  using assms
proof (induction xs arbitrary: fuel)
  case (Cons x xs)
  obtain c t where x: "stringify reference_host x = Some (c # t)"
    "\<forall>rest fuel. num_ends rest \<and> length (c # t) \<le> fuel \<longrightarrow> read_value fuel (c # t @ rest) = Some (x, rest)"
    using Cons.prems(1) by (auto simp: reads_as_def)
  obtain n where n: "fuel = Suc n" using Cons.prems(3) by (cases fuel) auto
  show ?case
  proof (cases xs)
    case Nil
    have "read_value n (c # t @ CHR '']'' # rest) = Some (x, CHR '']'' # rest)"
      using x(2) Cons.prems(3) by (simp add: num_ends_simps Nil x(1) n)
    then show ?thesis by (simp add: Nil x(1) n)
  next
    case (Cons y ys)
    then have ne: "xs \<noteq> []" by simp
    obtain z zs where z: "stringify_items reference_host xs = z # zs" by (simp add: Cons)
    have len: "length (c # t) \<le> n" "length (join_on '','' (stringify_items reference_host xs)) < n"
      using Cons.prems(3) by (simp_all add: x(1) z n)
    have v: "read_value n (c # t @ CHR '','' # join_on '','' (z # zs) @ CHR '']'' # rest)
        = Some (x, CHR '','' # join_on '','' (z # zs) @ CHR '']'' # rest)"
      using x(2) len(1) by (simp add: num_ends_simps)
    have i: "read_items n (join_on '','' (z # zs) @ CHR '']'' # rest) = Some (xs, rest)"
      using Cons.IH [of n] Cons.prems(1) len(2) ne by (simp add: z)
    show ?thesis using v i by (simp add: x(1) z n)
  qed
qed simp

lemma reads_members:
  assumes "\<forall>(k, x) \<in> set ps. reads_as x" "ps \<noteq> []" "length (join_on '','' (stringify_members reference_host ps)) < fuel"
  shows "read_members fuel (join_on '','' (stringify_members reference_host ps) @ CHR ''}'' # rest) = Some (ps, rest)"
  using assms
proof (induction ps arbitrary: fuel)
  case (Cons p ps)
  obtain k v where p: "p = (k, v)" by (cases p)
  obtain c t where x: "stringify reference_host v = Some (c # t)"
    "\<forall>rest fuel. num_ends rest \<and> length (c # t) \<le> fuel \<longrightarrow> read_value fuel (c # t @ rest) = Some (v, rest)"
    using Cons.prems(1) by (auto simp: reads_as_def p)
  obtain n where n: "fuel = Suc n" using Cons.prems(3) by (cases fuel) auto
  have key: "read_string (concat (map json_char k) @ CHR 0x22 # r) = Some (k, r)" for r by (rule read_string_quote)
  show ?case
  proof (cases ps)
    case Nil
    have "read_value n (c # t @ CHR ''}'' # rest) = Some (v, CHR ''}'' # rest)"
      using x(2) Cons.prems(3) by (simp add: num_ends_simps Nil x(1) n p)
    then show ?thesis by (simp add: Nil x(1) n p json_quote_def key)
  next
    case (Cons q qs)
    then have ne: "ps \<noteq> []" by simp
    obtain z zs where z: "stringify_members reference_host ps = z # zs"
    proof -
      have "stringify_members reference_host ps \<noteq> []"
        using Cons.prems(1) by (cases q) (auto simp: Cons reads_as_def)
      then show ?thesis using that by (cases "stringify_members reference_host ps") auto
    qed
    have len: "length (c # t) \<le> n" "length (join_on '','' (stringify_members reference_host ps)) < n"
      using Cons.prems(3) by (simp_all add: x(1) z n p json_quote_def)
    have v: "read_value n (c # t @ CHR '','' # join_on '','' (z # zs) @ CHR ''}'' # rest)
        = Some (v, CHR '','' # join_on '','' (z # zs) @ CHR ''}'' # rest)"
      using x(2) len(1) by (simp add: num_ends_simps)
    have i: "read_members n (join_on '','' (z # zs) @ CHR ''}'' # rest) = Some (ps, rest)"
      using Cons.IH [of n] Cons.prems(1) len(2) ne by (simp add: z)
    show ?thesis using v i by (simp add: x(1) z n p json_quote_def key)
  qed
qed simp

lemma reads_finite: "finite_json v \<Longrightarrow> reads_as v"
proof (induction v)
  case JNull
  show ?case by (auto simp: reads_as_def) (case_tac fuel; simp)
next
  case (JBool b)
  show ?case by (cases b) (auto simp: reads_as_def, (case_tac fuel; simp)+)
next
  case (JNum n)
  then obtain c cs where c: "num_text reference_host n = c # cs" "is_digit c \<or> c = CHR ''-''" using num_text_head [of n] by auto
  have "c \<noteq> CHR '']''" "c \<noteq> CHR ''}''" "c \<noteq> CHR ''n''" "c \<noteq> CHR ''t''" "c \<noteq> CHR ''f''" "c \<noteq> CHR 0x22" "c \<noteq> CHR ''[''" "c \<noteq> CHR ''{''"
    using c(2) by (auto simp: is_digit_def)
  then show ?case using JNum read_number_text [of _ n] c(1)
    by (auto simp: reads_as_def) (case_tac fuel; simp)
next
  case (JStr s)
  show ?case using read_string_quote [of s] by (auto simp: reads_as_def json_quote_def) (case_tac fuel; simp)
next
  case (JArr xs)
  then have x: "\<forall>x \<in> set xs. reads_as x" by (auto simp: list_all_iff)
  show ?case
  proof (cases xs)
    case Nil
    show ?thesis by (auto simp: reads_as_def Nil) (case_tac fuel; simp)
  next
    case (Cons y ys)
    obtain c t where y: "stringify reference_host y = Some (c # t)" "c \<noteq> CHR '']''" using x Cons by (auto simp: reads_as_def)
    obtain t' where h: "join_on '','' (stringify_items reference_host xs) = c # t'"
      by (cases "stringify_items reference_host ys") (auto simp: Cons y)
    have "read_value fuel (CHR ''['' # join_on '','' (stringify_items reference_host xs) @ CHR '']'' # rest) = Some (JArr xs, rest)"
      if "Suc (length (join_on '','' (stringify_items reference_host xs))) < fuel" for fuel rest
      using reads_items [OF x, of "fuel - 1" rest] that y(2) h Cons by (cases fuel) auto
    then show ?thesis by (simp add: reads_as_def)
  qed
next
  case (JObj ps)
  then have x: "\<forall>(k, x) \<in> set ps. reads_as x" by (fastforce simp: list_all_iff)
  show ?case
  proof (cases ps)
    case Nil
    show ?thesis by (auto simp: reads_as_def Nil) (case_tac fuel; simp)
  next
    case (Cons q qs)
    obtain k y where q: "q = (k, y)" by (cases q)
    obtain c t where y: "stringify reference_host y = Some (c # t)" using x Cons q by (auto simp: reads_as_def)
    obtain t' where h: "join_on '','' (stringify_members reference_host ps) = CHR 0x22 # t'"
      by (cases "stringify_members reference_host qs") (auto simp: Cons q y json_quote_def)
    have "read_value fuel (CHR ''{'' # join_on '','' (stringify_members reference_host ps) @ CHR ''}'' # rest) = Some (JObj ps, rest)"
      if "Suc (length (join_on '','' (stringify_members reference_host ps))) < fuel" for fuel rest
      using reads_members [OF x, of "fuel - 1" rest] that h Cons by (cases fuel) auto
    then show ?thesis by (simp add: reads_as_def)
  qed
qed simp

lemma read_json_text:
  assumes "canonical v" "stringify reference_host v = Some t"
  shows "read_json t = Some v" "read_json (t @ [CHR 0x0A]) = Some v"
proof -
  have "reads_as v" using assms(1) canonicalValue_finite(1) [of v] reads_finite by (auto simp: canonical_def)
  then have "read_value fuel (t @ rest) = Some (v, rest)" if "num_ends rest" "length t \<le> fuel" for fuel rest
    using assms(2) that by (auto simp: reads_as_def)
  from this [of "[]" "length t"] this [of "[CHR 0x0A]" "Suc (length t)"]
  show "read_json t = Some v" "read_json (t @ [CHR 0x0A]) = Some v" by (simp_all add: read_json_def num_ends_simps)
qed

lemma newline_free_digits: "CHR 0x0A \<notin> set (digits10 n)"
proof -
  have "\<forall>c \<in> set (digits10 n). is_digit c" using digits10_digits [of n] by (simp add: list_all_iff)
  moreover have "\<not> is_digit (CHR 0x0A)" by (simp add: is_digit_def)
  ultimately show ?thesis by blast
qed

lemma newline_free_int: "CHR 0x0A \<notin> set (int_text i)"
  using newline_free_digits by (simp add: int_text_def)

text \<open>The contract can be met.\<close>

lemma reference_host_ok: "host_ok reference_host"
  unfolding host_ok_def
proof (intro conjI allI impI)
  fix v t assume "canonical v \<and> distinct_names v \<and> stringify reference_host v = Some t"
  then show "json_parse reference_host t = Some v" "json_parse reference_host (t @ [CHR 0x0A]) = Some v"
    using read_json_text by (simp_all add: reference_host_def)
next
  show "length (sha256_hex reference_host s) = 64" "list_all is_hex (sha256_hex reference_host s)" for s
    by (simp_all add: reference_host_def list_all_iff is_hex_def)
next
  show "num_isFinite (date_parse reference_host (iso_string reference_host (Fin a)))" for a
    using read_number_fraction [of "[]"] by (simp add: reference_host_def num_ends_simps)
next
  show "CHR 0x0A \<notin> set (num_str reference_host n)" for n
    by (cases n) (simp_all add: reference_host_def fraction_text_def newline_free_int)
qed

end
