(* ===== verification/Journal_Records.thy ===== *)
theory Journal_Records
  imports Json_Reader
begin

text \<open>
  The records of the run state, \<open>packages/subagents/state/event-journal.mjs\<close>, lines 1 to 420:
  identifiers, event inputs, journal events, writer leases and snapshots, each with its
  validation, the recognition of a partial trailing line and the classification of an incoming
  event. \<open>event_chain\<close> is the contract of a validated journal: contiguous sequence numbers,
  linked digests, fencing tokens that never fall, distinct event ids.
\<close>

section \<open>Identifiers\<close>

definition failRun :: "string \<Rightarrow> 'a res" where
  "failRun code = Inl (Thrown ''RunStateError'' code)"

definition re_ID :: "string \<Rightarrow> bool" where
  "re_ID = re_ident id_char 127"

definition re_EVENT_ID :: "string \<Rightarrow> bool" where
  "re_EVENT_ID = re_ident id_char 191"

definition re_EVENT_TYPE :: "string \<Rightarrow> bool" where
  "re_EVENT_TYPE s = (case s of [] \<Rightarrow> False
     | c # cs \<Rightarrow> is_upper c \<and> list_all (\<lambda>x. is_alpha x \<or> is_digit x) cs \<and> length cs \<le> 63)"

definition re_DIGEST :: "string \<Rightarrow> bool" where
  "re_DIGEST = re_hexes ''sha256:'' 64"

definition ROOT_TERMINAL_TYPES :: "string list" where
  "ROOT_TERMINAL_TYPES = [''RunCompleted'', ''RunFailed'', ''RunCancelled'', ''RunInterrupted'', ''RunOrphaned'']"

definition CHILD_EVENT_TYPES :: "string list" where
  "CHILD_EVENT_TYPES = [''ChildStarted'', ''ChildOutputProjected'', ''ChildTerminal'']"

definition NODE_EVENT_TYPES :: "string list" where
  "NODE_EVENT_TYPES = [''NodeQueued'', ''NodeAdmitted'', ''ChildStarted'', ''ChildOutputProjected'', ''ChildTerminal'',
     ''NodeArtifactPublished'', ''NodeSettled'', ''GateEvaluated'']"

definition EVENT_KEYS :: "string list" where
  "EVENT_KEYS = [''attemptId'', ''childId'', ''eventDigest'', ''eventId'', ''fencingToken'', ''formatVersion'', ''inputDigest'',
     ''nodeId'', ''payload'', ''prevEventDigest'', ''revision'', ''runId'', ''seq'', ''swarmRunId'', ''timestamp'', ''type'', ''writerId'']"

definition LEASE_KEYS :: "string list" where
  "LEASE_KEYS = [''acquiredAt'', ''digest'', ''expiresAt'', ''fencingToken'', ''formatVersion'', ''releasedAt'', ''runId'',
     ''status'', ''writerId'']"

definition SNAPSHOT_KEYS :: "string list" where
  "SNAPSHOT_KEYS = [''activeRevision'', ''createdAt'', ''digest'', ''formatVersion'', ''lastAppliedSeq'', ''lastEventDigest'',
     ''runId'', ''state'']"

definition GENESIS_EVENT_DIGEST :: "platform \<Rightarrow> string" where
  "GENESIS_EVENT_DIGEST P = sha256_text P ''only-my-pi:subagents:event-journal:genesis:v1''"

text \<open>The comparison of the two JSON texts is the comparison of the two sorted key lists.\<close>

definition exactKeys :: "jsval \<Rightarrow> string list \<Rightarrow> string \<Rightarrow> unit res" where
  "exactKeys v expected code = (if sort (keys v) \<noteq> sort expected then failRun code else Inr ())"

definition validateId :: "bool \<Rightarrow> jsval \<Rightarrow> unit res" where
  "validateId nullable v =
     (if nullable \<and> v = JNull then Inr () else
      case v of JStr s \<Rightarrow> (if \<not> re_ID s then failRun ''INVALID_ID'' else Inr ()) | _ \<Rightarrow> failRun ''INVALID_ID'')"

definition validateEventId :: "jsval \<Rightarrow> unit res" where
  "validateEventId v = (case v of JStr s \<Rightarrow> (if \<not> re_EVENT_ID s then failRun ''INVALID_ID'' else Inr ())
     | _ \<Rightarrow> failRun ''INVALID_ID'')"

definition validateDigest :: "string \<Rightarrow> jsval \<Rightarrow> unit res" where
  "validateDigest code v = (case v of JStr s \<Rightarrow> (if \<not> re_DIGEST s then failRun code else Inr ()) | _ \<Rightarrow> failRun code)"

definition validateInteger :: "int \<Rightarrow> jsval \<Rightarrow> unit res" where
  "validateInteger minimum v = (case v of
     JNum n \<Rightarrow> (if \<not> num_isSafeInteger n \<or> num_less n (num_of_int minimum) then failRun ''INVALID_INTEGER'' else Inr ())
   | _ \<Rightarrow> failRun ''INVALID_INTEGER'')"

text \<open>\<open>instant(clock)\<close> on a reading of the clock, given as the date's value.\<close>

definition instant :: "jsnum \<Rightarrow> jsnum res" where
  "instant raw = (if \<not> num_isFinite raw then failRun ''INVALID_CLOCK'' else Inr raw)"

text \<open>\<open>new Date(t).toISOString()\<close> throws outside the range of dates.\<close>

definition toISOString :: "platform \<Rightarrow> jsnum \<Rightarrow> string res" where
  "toISOString P t = (case t of Fin a \<Rightarrow> (if \<bar>a\<bar> \<le> 8640000000000000 then Inr (iso_string P t) else Inl (Thrown ''RangeError'' []))
     | _ \<Rightarrow> Inl (Thrown ''RangeError'' []))"

definition parseDate :: "platform \<Rightarrow> jsval \<Rightarrow> jsnum" where
  "parseDate P v = date_parse P (js_string P v)"

definition isExpired :: "platform \<Rightarrow> jsval \<Rightarrow> jsnum \<Rightarrow> bool" where
  "isExpired P lease now \<longleftrightarrow> num_le (parseDate P (own ''expiresAt'' lease)) now"

section \<open>Events\<close>

definition inputShape :: "jsval \<Rightarrow> jsval" where
  "inputShape event = JObj [
     (''attemptId'', own ''attemptId'' event), (''childId'', own ''childId'' event), (''eventId'', own ''eventId'' event),
     (''nodeId'', own ''nodeId'' event), (''payload'', own ''payload'' event), (''revision'', own ''revision'' event),
     (''swarmRunId'', own ''swarmRunId'' event), (''type'', own ''type'' event)]"

definition normalized_event :: "jsval \<Rightarrow> jsval \<Rightarrow> jsval" where
  "normalized_event input payload = JObj [
     (''eventId'', own ''eventId'' input), (''type'', own ''type'' input),
     (''revision'', coalesce (own ''revision'' input) (jint 0)),
     (''nodeId'', coalesce (own ''nodeId'' input) JNull), (''attemptId'', coalesce (own ''attemptId'' input) JNull),
     (''swarmRunId'', coalesce (own ''swarmRunId'' input) JNull), (''childId'', coalesce (own ''childId'' input) JNull),
     (''payload'', payload)]"

definition normalizeEventInput :: "jsval \<Rightarrow> jsval res" where
  "normalizeEventInput input =
     (if \<not> isObj input then failRun ''INVALID_EVENT'' else
      let allowed = [''attemptId'', ''childId'', ''eventId'', ''nodeId'', ''payload'', ''revision'', ''swarmRunId'', ''type''] in
      if filter (\<lambda>key. key \<notin> set allowed) (keys input) \<noteq> [] then failRun ''INVALID_EVENT'' else
      rbind (validateEventId (own ''eventId'' input)) (\<lambda>_.
      if \<not> (case own ''type'' input of JStr s \<Rightarrow> re_EVENT_TYPE s | _ \<Rightarrow> False) then failRun ''INVALID_EVENT'' else
      rbind (validateInteger 0 (coalesce (own ''revision'' input) (jint 0))) (\<lambda>_.
      rbind (forR (\<lambda>key. validateId True (coalesce (own key input) JNull)) [''attemptId'', ''childId'', ''nodeId'', ''swarmRunId'']) (\<lambda>_.
      rbind (assertPlainJson (coalesce (own ''payload'' input) (JObj []))) (\<lambda>payload.
      Inr (normalized_event input payload))))))"

text \<open>The digests and links \<open>validateEvent\<close> checks after the fields.\<close>

definition validateEventLinks :: "platform \<Rightarrow> jsval \<Rightarrow> jsval \<Rightarrow> jsval res" where
  "validateEventLinks P record previous =
     (let expectedSeq = (if previous = JNull then Fin 1 else num_add (js_number P (own ''seq'' previous)) (Fin 1));
          expectedPrev = (if previous = JNull then JStr (GENESIS_EVENT_DIGEST P) else own ''eventDigest'' previous) in
      if \<not> js_eq (own ''seq'' record) (JNum expectedSeq) then failRun ''EVENT_SEQ_GAP'' else
      if \<not> js_eq (own ''prevEventDigest'' record) expectedPrev then failRun ''EVENT_CHAIN_MISMATCH'' else
      if previous \<noteq> JNull \<and> js_less P (own ''fencingToken'' record) (own ''fencingToken'' previous)
        then failRun ''EVENT_FENCING_REGRESSION'' else
      rbind (sha256 P (inputShape record)) (\<lambda>expectedInputDigest.
      if own ''inputDigest'' record \<noteq> JStr expectedInputDigest then failRun ''EVENT_INPUT_DIGEST_MISMATCH'' else
      rbind (sha256 P (withoutKey record ''eventDigest'')) (\<lambda>expectedEventDigest.
      if own ''eventDigest'' record \<noteq> JStr expectedEventDigest then failRun ''EVENT_DIGEST_MISMATCH'' else
      Inr record)))"

definition validateEvent :: "platform \<Rightarrow> jsval \<Rightarrow> string \<Rightarrow> jsval \<Rightarrow> jsval res" where
  "validateEvent P record expectedRunId previous =
     (if \<not> isObj record then failRun ''INVALID_EVENT_RECORD'' else
      rbind (exactKeys record EVENT_KEYS ''INVALID_EVENT_RECORD'') (\<lambda>_.
      if own ''formatVersion'' record \<noteq> jint 1 \<or> own ''runId'' record \<noteq> JStr expectedRunId then failRun ''INVALID_EVENT_RECORD'' else
      rbind (validateId False (own ''runId'' record)) (\<lambda>_.
      rbind (validateId False (own ''writerId'' record)) (\<lambda>_.
      rbind (validateEventId (own ''eventId'' record)) (\<lambda>_.
      if \<not> (case own ''type'' record of JStr s \<Rightarrow> re_EVENT_TYPE s | _ \<Rightarrow> False) then failRun ''INVALID_EVENT_RECORD'' else
      rbind (validateInteger 1 (own ''seq'' record)) (\<lambda>_.
      rbind (validateInteger 0 (own ''revision'' record)) (\<lambda>_.
      rbind (validateInteger 1 (own ''fencingToken'' record)) (\<lambda>_.
      rbind (forR (\<lambda>key. validateId True (own key record)) [''attemptId'', ''childId'', ''nodeId'', ''swarmRunId'']) (\<lambda>_.
      if \<not> num_isFinite (parseDate P (own ''timestamp'' record)) then failRun ''INVALID_EVENT_RECORD'' else
      rbind (assertPlainJson (own ''payload'' record)) (\<lambda>_.
      rbind (validateDigest ''INVALID_EVENT_RECORD'' (own ''inputDigest'' record)) (\<lambda>_.
      rbind (validateDigest ''INVALID_EVENT_RECORD'' (own ''prevEventDigest'' record)) (\<lambda>_.
      rbind (validateDigest ''INVALID_EVENT_RECORD'' (own ''eventDigest'' record)) (\<lambda>_.
      validateEventLinks P record previous)))))))))))))"

section \<open>Leases and snapshots\<close>

definition leasePayload :: "jsval \<Rightarrow> jsval" where
  "leasePayload lease = withoutKey lease ''digest''"

definition validateLease :: "platform \<Rightarrow> jsval \<Rightarrow> string \<Rightarrow> jsval res" where
  "validateLease P lease expectedRunId =
     (if \<not> isObj lease then failRun ''INVALID_LEASE'' else
      rbind (exactKeys lease LEASE_KEYS ''INVALID_LEASE'') (\<lambda>_.
      if own ''formatVersion'' lease \<noteq> jint 1 \<or> own ''runId'' lease \<noteq> JStr expectedRunId
         \<or> own ''status'' lease \<notin> {JStr ''active'', JStr ''released''} then failRun ''INVALID_LEASE'' else
      rbind (validateId False (own ''runId'' lease)) (\<lambda>_.
      rbind (validateId False (own ''writerId'' lease)) (\<lambda>_.
      rbind (validateInteger 1 (own ''fencingToken'' lease)) (\<lambda>_.
      if \<not> num_isFinite (parseDate P (own ''acquiredAt'' lease)) \<or> \<not> num_isFinite (parseDate P (own ''expiresAt'' lease))
        then failRun ''INVALID_LEASE'' else
      if own ''releasedAt'' lease \<noteq> JNull \<and> \<not> num_isFinite (parseDate P (own ''releasedAt'' lease)) then failRun ''INVALID_LEASE'' else
      if (own ''status'' lease = JStr ''released'') \<noteq> (own ''releasedAt'' lease \<noteq> JNull) then failRun ''INVALID_LEASE'' else
      rbind (validateDigest ''INVALID_LEASE'' (own ''digest'' lease)) (\<lambda>_.
      rbind (sha256 P (leasePayload lease)) (\<lambda>expected.
      if own ''digest'' lease \<noteq> JStr expected then failRun ''LEASE_DIGEST_MISMATCH'' else Inr lease)))))))"

definition snapshotPayload :: "jsval \<Rightarrow> jsval" where
  "snapshotPayload snapshot = withoutKey snapshot ''digest''"

definition validateSnapshot :: "platform \<Rightarrow> jsval \<Rightarrow> string \<Rightarrow> jsval res" where
  "validateSnapshot P snapshot expectedRunId =
     (if \<not> isObj snapshot then failRun ''INVALID_SNAPSHOT'' else
      rbind (exactKeys snapshot SNAPSHOT_KEYS ''INVALID_SNAPSHOT'') (\<lambda>_.
      if own ''formatVersion'' snapshot \<noteq> jint 1 \<or> own ''runId'' snapshot \<noteq> JStr expectedRunId then failRun ''INVALID_SNAPSHOT'' else
      rbind (validateInteger 0 (own ''lastAppliedSeq'' snapshot)) (\<lambda>_.
      rbind (validateInteger 0 (own ''activeRevision'' snapshot)) (\<lambda>_.
      rbind (validateDigest ''INVALID_SNAPSHOT'' (own ''lastEventDigest'' snapshot)) (\<lambda>_.
      rbind (validateDigest ''INVALID_SNAPSHOT'' (own ''digest'' snapshot)) (\<lambda>_.
      if \<not> num_isFinite (parseDate P (own ''createdAt'' snapshot)) then failRun ''INVALID_SNAPSHOT'' else
      rbind (assertPlainJson (own ''state'' snapshot)) (\<lambda>_.
      rbind (sha256 P (snapshotPayload snapshot)) (\<lambda>expected.
      if own ''digest'' snapshot \<noteq> JStr expected then failRun ''SNAPSHOT_DIGEST_MISMATCH'' else
      if own ''lastAppliedSeq'' snapshot = jint 0 \<and> own ''lastEventDigest'' snapshot \<noteq> JStr (GENESIS_EVENT_DIGEST P)
        then failRun ''INVALID_SNAPSHOT'' else
      Inr snapshot))))))))"

section \<open>Partial lines\<close>

definition js_space :: "char \<Rightarrow> bool" where
  "js_space c \<longleftrightarrow> (of_char c :: nat) \<in> {9, 10, 11, 12, 13, 32, 160}"

definition trimStart :: "string \<Rightarrow> string" where
  "trimStart s = dropWhile js_space s"

definition js_trim :: "string \<Rightarrow> string" where
  "js_trim s = rev (dropWhile js_space (rev (dropWhile js_space s)))"

text \<open>\<open>/position\s+(\d+)/iu.exec(message)?.[1]\<close>, as the number it stands for.\<close>

fun re_position :: "string \<Rightarrow> nat option" where
  "re_position [] = None"
| "re_position (c # cs) =
     (let rest = drop 8 (c # cs); gap = takeWhile js_space rest; digits = takeWhile is_digit (dropWhile js_space rest) in
      if map ascii_lower (take 8 (c # cs)) = ''position'' \<and> gap \<noteq> [] \<and> digits \<noteq> []
      then Some (foldl (\<lambda>n d. 10 * n + ((of_char d :: nat) - 48)) 0 digits)
      else re_position cs)"

text \<open>
  The scan of \<open>looksLikeProvableTrailingPartial\<close>: \<open>depth\<close>, \<open>inString\<close> and \<open>escaped\<close> as in the code;
  \<open>None\<close> is the early \<open>return false\<close>.
\<close>

fun scanPartial :: "int \<Rightarrow> bool \<Rightarrow> bool \<Rightarrow> string \<Rightarrow> (int \<times> bool \<times> bool) option" where
  "scanPartial depth inString escaped [] = Some (depth, inString, escaped)"
| "scanPartial depth inString escaped (c # cs) =
     (if inString then
        (if escaped then scanPartial depth True False cs
         else if c = CHR 0x5C then scanPartial depth True True cs
         else if c = CHR 0x22 then scanPartial depth False False cs
         else scanPartial depth True False cs)
      else if c = CHR 0x22 then scanPartial depth True escaped cs
      else if c = CHR ''{'' \<or> c = CHR ''['' then scanPartial (depth + 1) False escaped cs
      else if c = CHR ''}'' \<or> c = CHR '']'' then
        (if depth - 1 < 0 then None
         else if depth - 1 = 0 \<and> length (js_trim cs) > 0 then None
         else scanPartial (depth - 1) False escaped cs)
      else scanPartial depth False escaped cs)"

definition looksLikeProvableTrailingPartial :: "string \<Rightarrow> string \<Rightarrow> bool" where
  "looksLikeProvableTrailingPartial txt message =
     (let trimmed = trimStart txt; low = map ascii_lower message;
          failureAtPhysicalEnd = (sublist ''end of json'' low \<or> sublist ''unterminated'' low
            \<or> (case re_position message of None \<Rightarrow> False | Some p \<Rightarrow> int p \<ge> int (length trimmed) - 1)) in
      if \<not> prefix ''{'' trimmed \<or> \<not> failureAtPhysicalEnd then False else
      (case scanPartial 0 False False trimmed of None \<Rightarrow> False
       | Some (depth, inString, escaped) \<Rightarrow> inString \<or> escaped \<or> depth > 0))"

definition parseCompleteLine :: "platform \<Rightarrow> string \<Rightarrow> jsval \<Rightarrow> string \<Rightarrow> jsval res" where
  "parseCompleteLine P line previous runId =
     (if line = [] then failRun ''JOURNAL_CORRUPT_MIDDLE'' else
      case json_parse P line of None \<Rightarrow> failRun ''JOURNAL_CORRUPT_MIDDLE''
      | Some record \<Rightarrow> validateEvent P record runId previous)"

section \<open>Incoming events\<close>

record classification =
  cl_status :: string
  cl_event :: jsval
  cl_reason :: jsval
  cl_terminalSeq :: jsval

definition classifyIncoming :: "platform \<Rightarrow> jsval list \<Rightarrow> jsval \<Rightarrow> classification res" where
  "classifyIncoming P events normalized =
     rbind (sha256 P (inputShape normalized)) (\<lambda>inputDigest.
     case find (\<lambda>event. js_eq (own ''eventId'' event) (own ''eventId'' normalized)) events of
       Some sameId \<Rightarrow> (if own ''inputDigest'' sameId = JStr inputDigest
         then Inr \<lparr> cl_status = ''DUPLICATE_EVENT'', cl_event = sameId, cl_reason = JStr ''EVENT_ID_REPLAY'', cl_terminalSeq = JUndef \<rparr>
         else failRun ''EVENT_ID_CONFLICT'')
     | None \<Rightarrow>
     case find (\<lambda>event. own ''type'' event \<in> set (map JStr ROOT_TERMINAL_TYPES)) events of
       Some rootTerminal \<Rightarrow> Inr \<lparr> cl_status = ''LATE_EVENT'', cl_event = JNull, cl_reason = JStr ''RUN_ALREADY_TERMINAL'',
         cl_terminalSeq = own ''seq'' rootTerminal \<rparr>
     | None \<Rightarrow>
     case (if own ''attemptId'' normalized \<noteq> JNull \<and> own ''type'' normalized \<in> set (map JStr CHILD_EVENT_TYPES)
           then find (\<lambda>event. own ''type'' event = JStr ''ChildTerminal'' \<and> js_eq (own ''attemptId'' event) (own ''attemptId'' normalized)) events
           else None) of
       Some terminal \<Rightarrow> Inr \<lparr> cl_status = ''LATE_EVENT'', cl_event = JNull, cl_reason = JStr ''ATTEMPT_ALREADY_TERMINAL'',
         cl_terminalSeq = own ''seq'' terminal \<rparr>
     | None \<Rightarrow>
     case (if own ''nodeId'' normalized \<noteq> JNull \<and> own ''type'' normalized \<in> set (map JStr NODE_EVENT_TYPES)
           then find (\<lambda>event. own ''type'' event = JStr ''NodeSettled'' \<and> js_eq (own ''nodeId'' event) (own ''nodeId'' normalized)) events
           else None) of
       Some settled \<Rightarrow> Inr \<lparr> cl_status = ''LATE_EVENT'', cl_event = JNull, cl_reason = JStr ''NODE_ALREADY_SETTLED'',
         cl_terminalSeq = own ''seq'' settled \<rparr>
     | None \<Rightarrow> Inr \<lparr> cl_status = ''NEW_EVENT'', cl_event = JNull, cl_reason = JNull, cl_terminalSeq = JUndef \<rparr>)"

definition validateExpected :: "jsval \<Rightarrow> jsval \<Rightarrow> unit res" where
  "validateExpected expectedSeq expectedDigest =
     rbind (validateInteger 0 expectedSeq) (\<lambda>_. validateDigest ''INVALID_DIGEST'' expectedDigest)"

text \<open>A lease identity, \<open>{ writerId, fencingToken }\<close>.\<close>

record lease_identity =
  li_writerId :: jsval
  li_fencingToken :: jsval

definition leaseIdentity :: "jsval \<Rightarrow> lease_identity res" where
  "leaseIdentity input =
     (if \<not> isObj input \<and> \<not> isArr input then failRun ''INVALID_LEASE'' else
      rbind (validateId False (own ''writerId'' input)) (\<lambda>_.
      rbind (validateInteger 1 (own ''fencingToken'' input)) (\<lambda>_.
      Inr \<lparr> li_writerId = own ''writerId'' input, li_fencingToken = own ''fencingToken'' input \<rparr>)))"

end
