(* ===== verification/Event_Journal.thy ===== *)
theory Event_Journal
  imports Journal_Records
begin

text \<open>
  The append-only event journal of a run, \<open>packages/subagents/state/event-journal.mjs\<close>, lines 423 to
  873. The state is the run directory (\<open>disk\<close>): the texts of the event file, the lease, the
  snapshot and the operation lock. An operation returns its result or its error together with
  the new directory, so that what an aborted operation leaves behind is visible. A \<open>call\<close>
  gives what the operation meets: the readings of the clock, and what other processes do to
  the directory before each attempt to take the lock. File operations are assumed to succeed
  except for the two conditions the code handles, an existing lock and a missing file.
\<close>

section \<open>Directory and operations\<close>

record disk =
  d_events :: "string option"
  d_lease :: "string option"
  d_snapshot :: "string option"
  d_lock :: "string option"

type_synonym 'a op = "disk \<Rightarrow> 'a res \<times> disk"

definition obind :: "'a op \<Rightarrow> ('a \<Rightarrow> 'b op) \<Rightarrow> 'b op" where
  "obind m f d = (case m d of (Inl e, d') \<Rightarrow> (Inl e, d') | (Inr x, d') \<Rightarrow> f x d')"

definition olift :: "'a res \<Rightarrow> 'a op" where
  "olift r d = (r, d)"

record call =
  c_requestedAt :: jsnum
  c_at :: jsnum
  c_lockAt :: "nat \<Rightarrow> jsnum"
  c_world :: "nat \<Rightarrow> disk \<Rightarrow> disk"

record journal =
  j_runId :: string
  j_maxRecordBytes :: jsval
  j_lockRetries :: jsval

definition createAppendOnlyEventJournal :: "jsval \<Rightarrow> jsval \<Rightarrow> jsval \<Rightarrow> jsval \<Rightarrow> journal res" where
  "createAppendOnlyEventJournal runDir runId maxRecordBytes lockRetries =
     (if \<not> isStr runDir \<or> runDir = JStr [] then Inl TypeError else
      rbind (validateId False runId) (\<lambda>_.
      let maxRecordBytes' = coalesce maxRecordBytes (jint (64 * 1024)) in
      rbind (validateInteger 1024 maxRecordBytes') (\<lambda>_.
      let lockRetries' = coalesce lockRetries (jint 2000) in
      rbind (validateInteger 1 lockRetries') (\<lambda>_.
      case runId of JStr r \<Rightarrow> Inr \<lparr> j_runId = r, j_maxRecordBytes = maxRecordBytes', j_lockRetries = lockRetries' \<rparr>
      | _ \<Rightarrow> Inl TypeError))))"

text \<open>\<open>readJson\<close>: a missing file and the text \<open>null\<close> both read as null.\<close>

definition readJson :: "platform \<Rightarrow> string option \<Rightarrow> string \<Rightarrow> jsval res" where
  "readJson P file code = (case file of None \<Rightarrow> Inr JNull
     | Some txt \<Rightarrow> (case json_parse P txt of None \<Rightarrow> failRun code | Some v \<Rightarrow> Inr v))"

definition NL :: string where
  "NL = [CHR 0x0A]"

definition readLeaseUnsafe :: "platform \<Rightarrow> journal \<Rightarrow> disk \<Rightarrow> jsval res" where
  "readLeaseUnsafe P J d = rbind (readJson P (d_lease d) ''INVALID_LEASE'') (\<lambda>v.
     if v = JNull then Inr JNull else validateLease P v (j_runId J))"

definition writeLeaseUnsafe :: "platform \<Rightarrow> jsval \<Rightarrow> jsval op" where
  "writeLeaseUnsafe P v d = (case rbind (sha256 P v) (\<lambda>h. let lease = oset ''digest'' (JStr h) v in
       rbind (canonicalJson P lease) (\<lambda>txt. Inr (lease, txt))) of
     Inl e \<Rightarrow> (Inl e, d) | Inr (lease, txt) \<Rightarrow> (Inr lease, d\<lparr>d_lease := Some (txt @ NL)\<rparr>))"

section \<open>The operation lock\<close>

text \<open>
  \<open>createLock\<close>: at most \<open>n\<close> more attempts. \<open>stale\<close> is the caller's \<open>staleLockRecovery\<close> with its
  own state; \<open>unreadable\<close> is \<open>lastLockReadError !== null\<close>.
\<close>

fun createLock :: "platform \<Rightarrow> call \<Rightarrow> (nat \<Rightarrow> 's \<Rightarrow> jsval \<Rightarrow> disk \<Rightarrow> (bool \<times> 's) res) \<Rightarrow> jsval \<Rightarrow> nat \<Rightarrow> nat \<Rightarrow> bool \<Rightarrow> 's \<Rightarrow> 's op" where
  "createLock P C stale metadata 0 attempt unreadable s d =
     (failRun (if unreadable then ''STATE_LOCK_CORRUPT'' else ''STATE_LOCK_BUSY''), d)"
| "createLock P C stale metadata (Suc n) attempt unreadable s d0 =
     (let d = c_world C attempt d0 in
      case d_lock d of
        None \<Rightarrow> (case canonicalJson P metadata of Inl e \<Rightarrow> (Inl e, d\<lparr>d_lock := Some []\<rparr>)
                | Inr txt \<Rightarrow> (Inr s, d\<lparr>d_lock := Some (txt @ NL)\<rparr>))
      | Some txt \<Rightarrow> (case json_parse P txt of
          None \<Rightarrow> createLock P C stale metadata n (Suc attempt) True s d
        | Some lock \<Rightarrow> (case stale attempt s lock d of
            Inl e \<Rightarrow> (Inl e, d)
          | Inr (True, s') \<Rightarrow> createLock P C stale metadata n (Suc attempt) False s' (d\<lparr>d_lock := None\<rparr>)
          | Inr (False, s') \<Rightarrow> createLock P C stale metadata n (Suc attempt) False s' d)))"

definition retries :: "journal \<Rightarrow> nat" where
  "retries J = (case j_lockRetries J of JNum (Fin a) \<Rightarrow> nat \<lceil>a\<rceil> | _ \<Rightarrow> 0)"

definition withLock :: "platform \<Rightarrow> journal \<Rightarrow> call \<Rightarrow> (nat \<Rightarrow> 's \<Rightarrow> jsval \<Rightarrow> disk \<Rightarrow> (bool \<times> 's) res) \<Rightarrow> 's \<Rightarrow> jsval
    \<Rightarrow> ('s \<Rightarrow> 'a op) \<Rightarrow> 'a op" where
  "withLock P J C stale s metadata operation d =
     (case createLock P C stale metadata (retries J) 0 False s d of
        (Inl e, d') \<Rightarrow> (Inl e, d')
      | (Inr s', d') \<Rightarrow> (case operation s' d' of (r, d'') \<Rightarrow> (r, d''\<lparr>d_lock := None\<rparr>)))"

definition assertCurrentLeaseUnsafe :: "platform \<Rightarrow> journal \<Rightarrow> lease_identity \<Rightarrow> jsnum \<Rightarrow> disk \<Rightarrow> jsval res" where
  "assertCurrentLeaseUnsafe P J identity now d =
     rbind (readLeaseUnsafe P J d) (\<lambda>current.
     if current = JNull \<or> own ''status'' current \<noteq> JStr ''active''
        \<or> \<not> js_eq (own ''writerId'' current) (li_writerId identity)
        \<or> \<not> js_eq (own ''fencingToken'' current) (li_fencingToken identity)
        \<or> isExpired P current now
     then failRun ''STALE_WRITER'' else Inr current)"

definition staleLockForLease :: "platform \<Rightarrow> lease_identity \<Rightarrow> nat \<Rightarrow> unit \<Rightarrow> jsval \<Rightarrow> disk \<Rightarrow> (bool \<times> unit) res" where
  "staleLockForLease P identity attempt s lock d =
     (if \<not> truthy lock \<or> \<not> isSafeInteger (own ''fencingToken'' lock) then Inr (False, s)
      else Inr (js_less P (own ''fencingToken'' lock) (li_fencingToken identity), s))"

text \<open>The metadata of an operation on behalf of a lease.\<close>

definition lockMetadata :: "platform \<Rightarrow> lease_identity \<Rightarrow> string \<Rightarrow> jsnum \<Rightarrow> jsval res" where
  "lockMetadata P identity purpose requestedAt = rbind (toISOString P requestedAt) (\<lambda>createdAt.
     Inr (JObj [(''writerId'', li_writerId identity), (''fencingToken'', li_fencingToken identity),
                (''purpose'', JStr purpose), (''createdAt'', JStr createdAt)]))"

section \<open>Recovery\<close>

record recovery =
  rc_events :: "jsval list"
  rc_lastSeq :: jsval
  rc_lastEventDigest :: jsval
  rc_recovery :: string
  rc_repairedBytes :: int

definition previous_of :: "jsval list \<Rightarrow> jsval" where
  "previous_of events = (if events = [] then JNull else last events)"

definition addEvent :: "jsval list \<Rightarrow> jsval \<Rightarrow> jsval list res" where
  "addEvent events rec = (if own ''eventId'' rec \<in> own ''eventId'' ` set events
     then failRun ''DUPLICATE_EVENT_ID_IN_JOURNAL'' else Inr (events @ [rec]))"

definition recoverLine :: "platform \<Rightarrow> string \<Rightarrow> jsval list \<Rightarrow> string \<Rightarrow> jsval list res" where
  "recoverLine P runId events line =
     rbind (parseCompleteLine P line (previous_of events) runId) (addEvent events)"

definition recovered :: "platform \<Rightarrow> jsval list \<Rightarrow> string \<Rightarrow> int \<Rightarrow> recovery" where
  "recovered P events how bytes =
     \<lparr> rc_events = events, rc_lastSeq = coalesce (own ''seq'' (previous_of events)) (jint 0),
       rc_lastEventDigest = coalesce (own ''eventDigest'' (previous_of events)) (JStr (GENESIS_EVENT_DIGEST P)),
       rc_recovery = how, rc_repairedBytes = bytes \<rparr>"

text \<open>The treatment of an unterminated last line.\<close>

definition recoverTail :: "platform \<Rightarrow> journal \<Rightarrow> bool \<Rightarrow> string \<Rightarrow> string list \<Rightarrow> string \<Rightarrow> jsval list \<Rightarrow> recovery op" where
  "recoverTail P J repair txt completeLines tail events d =
     (case json_parse P tail of
        None \<Rightarrow>
          (if \<not> looksLikeProvableTrailingPartial tail (json_error P tail) then (failRun ''JOURNAL_TRAILING_CORRUPT'', d) else
           if \<not> repair then (failRun ''JOURNAL_TRAILING_PARTIAL'', d) else
           let completeText = (if completeLines = [] then [] else join_on NL completeLines @ NL) in
           (Inr (recovered P events ''TRAILING_PARTIAL_TRUNCATED'' (int (utf8_length txt) - int (utf8_length completeText))),
            d\<lparr>d_events := Some completeText\<rparr>))
      | Some parsed \<Rightarrow>
          (case rbind (validateEvent P parsed (j_runId J) (previous_of events)) (addEvent events) of
             Inl e \<Rightarrow> (Inl e, d)
           | Inr events' \<Rightarrow>
               (if repair then (Inr (recovered P events' ''TRAILING_TERMINATOR_REPAIRED'' (- 1)), d\<lparr>d_events := Some (txt @ NL)\<rparr>)
                else (Inr (recovered P events' ''VALID_UNTERMINATED_RECORD'' 0), d))))"

definition recoverUnsafe :: "platform \<Rightarrow> journal \<Rightarrow> bool \<Rightarrow> recovery op" where
  "recoverUnsafe P J repair d =
     (case d_events d of
        None \<Rightarrow> (Inr (recovered P [] ''CLEAN'' 0), d)
      | Some txt \<Rightarrow>
          if txt = [] then (Inr (recovered P [] ''CLEAN'' 0), d) else
          let terminated = (last txt = CHR 0x0A); segments = split_on (CHR 0x0A) txt; completeLines = butlast segments in
          (case foldR (recoverLine P (j_runId J)) [] completeLines of
             Inl e \<Rightarrow> (Inl e, d)
           | Inr events \<Rightarrow>
               (if \<not> terminated \<and> last segments \<noteq> [] then recoverTail P J repair txt completeLines (last segments) events d
                else (Inr (recovered P events ''CLEAN'' 0), d))))"

text \<open>\<open>jsonClone\<close> of a recovery result.\<close>

definition cloneRecovery :: "recovery \<Rightarrow> recovery res" where
  "cloneRecovery r = rbind (mapR jsonClone (rc_events r)) (\<lambda>events. Inr (r\<lparr>rc_events := events\<rparr>))"

definition recover :: "platform \<Rightarrow> journal \<Rightarrow> call \<Rightarrow> bool \<Rightarrow> jsval \<Rightarrow> recovery op" where
  "recover P J C repairTrailingPartial lease =
     (if \<not> repairTrailingPartial then obind (recoverUnsafe P J False) (\<lambda>r. olift (cloneRecovery r)) else
      obind (olift (leaseIdentity lease)) (\<lambda>identity.
      obind (olift (instant (c_requestedAt C))) (\<lambda>requestedAt.
      obind (olift (lockMetadata P identity ''recover-journal'' requestedAt)) (\<lambda>metadata.
      withLock P J C (staleLockForLease P identity) () metadata (\<lambda>_.
        obind (olift (instant (c_at C))) (\<lambda>now.
        obind (\<lambda>d. (assertCurrentLeaseUnsafe P J identity now d, d)) (\<lambda>_.
        obind (recoverUnsafe P J True) (\<lambda>r. olift (cloneRecovery r)))))))))"

section \<open>Leases\<close>

text \<open>\<open>prove\<close>: the external proof that a writer is dead, remembered by fencing token.\<close>

definition proveDead :: "(jsval \<Rightarrow> bool) option \<Rightarrow> jsval \<Rightarrow> jsval \<Rightarrow> (bool \<times> jsval) res" where
  "proveDead proof' provedToken current =
     (if js_eq provedToken (own ''fencingToken'' current) then Inr (True, provedToken) else
      case proof' of None \<Rightarrow> Inr (False, provedToken)
      | Some f \<Rightarrow> rbind (jsonClone current) (\<lambda>copy.
          if \<not> f copy then Inr (False, provedToken) else Inr (True, own ''fencingToken'' current)))"

definition staleLockForAcquire :: "platform \<Rightarrow> journal \<Rightarrow> call \<Rightarrow> (jsval \<Rightarrow> bool) option \<Rightarrow> nat \<Rightarrow> jsval \<Rightarrow> jsval \<Rightarrow> disk \<Rightarrow> (bool \<times> jsval) res" where
  "staleLockForAcquire P J C proof' attempt provedToken lock d =
     rbind (instant (c_lockAt C attempt)) (\<lambda>now.
     rbind (readLeaseUnsafe P J d) (\<lambda>current.
     if current = JNull \<or> own ''status'' current \<noteq> JStr ''active'' \<or> \<not> isExpired P current now then Inr (False, provedToken) else
     if \<not> truthy lock \<or> \<not> js_eq (own ''fencingToken'' lock) (own ''fencingToken'' current) then Inr (False, provedToken) else
     proveDead proof' provedToken current))"

definition lease_value :: "string \<Rightarrow> jsval \<Rightarrow> jsnum \<Rightarrow> string \<Rightarrow> string \<Rightarrow> jsval" where
  "lease_value runId writerId token acquiredAt expiresAt = JObj [
     (''formatVersion'', jint 1), (''runId'', JStr runId), (''writerId'', writerId), (''fencingToken'', JNum token),
     (''status'', JStr ''active''), (''acquiredAt'', JStr acquiredAt), (''expiresAt'', JStr expiresAt), (''releasedAt'', JNull)]"

definition acquireUnsafe :: "platform \<Rightarrow> journal \<Rightarrow> jsval \<Rightarrow> jsval \<Rightarrow> (jsval \<Rightarrow> bool) option \<Rightarrow> jsnum \<Rightarrow> jsval \<Rightarrow> jsval op" where
  "acquireUnsafe P J writerId ttlMs proof' now provedToken =
     obind (\<lambda>d. (readLeaseUnsafe P J d, d)) (\<lambda>current.
     if current \<noteq> JNull \<and> own ''status'' current = JStr ''active'' \<and> \<not> isExpired P current now then
       (if js_eq (own ''writerId'' current) writerId then olift (jsonClone current) else olift (failRun ''LEASE_HELD''))
     else
       obind (olift (if current \<noteq> JNull \<and> own ''status'' current = JStr ''active'' \<and> isExpired P current now
                     then rbind (proveDead proof' provedToken current) (\<lambda>(dead, _). Inr dead) else Inr True)) (\<lambda>dead.
       if \<not> dead then olift (failRun ''LEASE_RECLAIM_PROOF_REQUIRED'') else
       obind (olift (toISOString P now)) (\<lambda>acquiredAt.
       obind (olift (toISOString P (num_add now (js_number P ttlMs)))) (\<lambda>expiresAt.
       writeLeaseUnsafe P (lease_value (j_runId J) writerId
         (num_add (js_number P (coalesce (own ''fencingToken'' current) (jint 0))) (Fin 1)) acquiredAt expiresAt)))))"

definition acquireWriterLease :: "platform \<Rightarrow> journal \<Rightarrow> call \<Rightarrow> (jsval \<Rightarrow> bool) option \<Rightarrow> jsval \<Rightarrow> jsval op" where
  "acquireWriterLease P J C proof' input =
     (let writerId = own ''writerId'' input; ttlMs = coalesce (own ''ttlMs'' input) (jint 30000) in
      obind (olift (rbind (prop_of ''writerId'' input) (validateId False))) (\<lambda>_.
      obind (olift (validateInteger 1 ttlMs)) (\<lambda>_.
      obind (olift (instant (c_requestedAt C))) (\<lambda>requestedAt.
      obind (olift (toISOString P requestedAt)) (\<lambda>createdAt.
      withLock P J C (staleLockForAcquire P J C proof') JNull
        (JObj [(''fencingToken'', jint 0), (''purpose'', JStr ''acquire-lease''), (''writerId'', writerId), (''createdAt'', JStr createdAt)])
        (\<lambda>provedToken. obind (olift (instant (c_at C))) (\<lambda>now.
           acquireUnsafe P J writerId ttlMs proof' now provedToken)))))))"

definition renewWriterLease :: "platform \<Rightarrow> journal \<Rightarrow> call \<Rightarrow> jsval \<Rightarrow> jsval op" where
  "renewWriterLease P J C input =
     (let ttlMs = coalesce (own ''ttlMs'' input) (jint 30000) in
      obind (olift (rbind (prop_of ''lease'' input) leaseIdentity)) (\<lambda>identity.
      obind (olift (validateInteger 1 ttlMs)) (\<lambda>_.
      obind (olift (instant (c_requestedAt C))) (\<lambda>requestedAt.
      obind (olift (lockMetadata P identity ''renew-lease'' requestedAt)) (\<lambda>metadata.
      withLock P J C (staleLockForLease P identity) () metadata (\<lambda>_.
        obind (olift (instant (c_at C))) (\<lambda>now.
        obind (\<lambda>d. (assertCurrentLeaseUnsafe P J identity now d, d)) (\<lambda>current.
        obind (olift (toISOString P (num_add now (js_number P ttlMs)))) (\<lambda>expiresAt.
        writeLeaseUnsafe P (oset ''expiresAt'' (JStr expiresAt) (leasePayload current)))))))))))"

definition releaseWriterLease :: "platform \<Rightarrow> journal \<Rightarrow> call \<Rightarrow> jsval \<Rightarrow> jsval op" where
  "releaseWriterLease P J C input =
     obind (olift (rbind (prop_of ''lease'' input) leaseIdentity)) (\<lambda>identity.
     obind (olift (instant (c_requestedAt C))) (\<lambda>requestedAt.
     obind (olift (lockMetadata P identity ''release-lease'' requestedAt)) (\<lambda>metadata.
     withLock P J C (staleLockForLease P identity) () metadata (\<lambda>_.
       obind (olift (instant (c_at C))) (\<lambda>now.
       obind (\<lambda>d. (assertCurrentLeaseUnsafe P J identity now d, d)) (\<lambda>current.
       obind (olift (toISOString P now)) (\<lambda>releasedAt.
       writeLeaseUnsafe P (oset ''releasedAt'' (JStr releasedAt) (oset ''status'' (JStr ''released'') (leasePayload current)))))))))) "

definition getWriterLease :: "platform \<Rightarrow> journal \<Rightarrow> disk \<Rightarrow> jsval res" where
  "getWriterLease P J d = rbind (readLeaseUnsafe P J d) (\<lambda>lease. if lease = JNull then Inr JNull else jsonClone lease)"

section \<open>Appending\<close>

record append_result =
  ar_status :: string
  ar_appended :: bool
  ar_reason :: jsval
  ar_terminalSeq :: jsval
  ar_event :: jsval
  ar_lastSeq :: jsval
  ar_lastEventDigest :: jsval

definition event_record :: "string \<Rightarrow> recovery \<Rightarrow> jsval \<Rightarrow> lease_identity \<Rightarrow> string \<Rightarrow> jsnum \<Rightarrow> string \<Rightarrow> (string \<times> jsval) list" where
  "event_record runId state normalized identity timestamp seq inputDigest = [
     (''formatVersion'', jint 1), (''runId'', JStr runId), (''seq'', JNum seq),
     (''eventId'', own ''eventId'' normalized), (''type'', own ''type'' normalized), (''timestamp'', JStr timestamp),
     (''revision'', own ''revision'' normalized), (''nodeId'', own ''nodeId'' normalized),
     (''attemptId'', own ''attemptId'' normalized), (''swarmRunId'', own ''swarmRunId'' normalized),
     (''childId'', own ''childId'' normalized), (''writerId'', li_writerId identity),
     (''fencingToken'', li_fencingToken identity), (''inputDigest'', JStr inputDigest),
     (''prevEventDigest'', rc_lastEventDigest state), (''payload'', own ''payload'' normalized)]"

definition appendNew :: "platform \<Rightarrow> journal \<Rightarrow> recovery \<Rightarrow> jsval \<Rightarrow> lease_identity \<Rightarrow> jsnum \<Rightarrow> append_result op" where
  "appendNew P J state normalized identity now d =
     (case rbind (toISOString P now) (\<lambda>timestamp.
           rbind (sha256 P (inputShape normalized)) (\<lambda>inputDigest.
           let seq = num_add (js_number P (rc_lastSeq state)) (Fin 1);
               draft = event_record (j_runId J) state normalized identity timestamp seq inputDigest in
           rbind (sha256 P (JObj draft)) (\<lambda>digest.
           let rec = JObj (draft @ [(''eventDigest'', JStr digest)]) in
           rbind (canonicalJson P rec) (\<lambda>txt.
           if js_less P (j_maxRecordBytes J) (jnat (utf8_length (txt @ NL))) then failRun ''EVENT_RECORD_TOO_LARGE'' else
           rbind (jsonClone rec) (\<lambda>copy. Inr (txt @ NL, copy, seq, digest)))))) of
        Inl e \<Rightarrow> (Inl e, d)
      | Inr (line, copy, seq, digest) \<Rightarrow>
          (Inr \<lparr> ar_status = ''APPENDED'', ar_appended = True, ar_reason = JNull, ar_terminalSeq = JNull, ar_event = copy,
                 ar_lastSeq = JNum seq, ar_lastEventDigest = JStr digest \<rparr>,
           d\<lparr>d_events := Some ((case d_events d of None \<Rightarrow> [] | Some old \<Rightarrow> old) @ line)\<rparr>))"

definition appendUnsafe :: "platform \<Rightarrow> journal \<Rightarrow> jsval \<Rightarrow> jsval \<Rightarrow> jsval \<Rightarrow> lease_identity \<Rightarrow> jsnum \<Rightarrow> append_result op" where
  "appendUnsafe P J expectedSeq expectedDigest normalized identity now =
     obind (\<lambda>d. (assertCurrentLeaseUnsafe P J identity now d, d)) (\<lambda>_.
     obind (recoverUnsafe P J True) (\<lambda>state.
     obind (olift (classifyIncoming P (rc_events state) normalized)) (\<lambda>classification.
     if cl_status classification \<noteq> ''NEW_EVENT'' then
       olift (rbind (if truthy (cl_event classification) then jsonClone (cl_event classification) else Inr JNull) (\<lambda>event.
         Inr \<lparr> ar_status = cl_status classification, ar_appended = False, ar_reason = cl_reason classification,
               ar_terminalSeq = coalesce (cl_terminalSeq classification) JNull, ar_event = event,
               ar_lastSeq = rc_lastSeq state, ar_lastEventDigest = rc_lastEventDigest state \<rparr>))
     else if \<not> js_eq (rc_lastSeq state) expectedSeq \<or> \<not> js_eq (rc_lastEventDigest state) expectedDigest
     then olift (failRun ''JOURNAL_CAS_MISMATCH'')
     else appendNew P J state normalized identity now)))"

definition appendEvent :: "platform \<Rightarrow> journal \<Rightarrow> call \<Rightarrow> jsval \<Rightarrow> append_result op" where
  "appendEvent P J C input =
     obind (olift (rbind (prop_of ''lease'' input) leaseIdentity)) (\<lambda>identity.
     obind (olift (validateExpected (own ''expectedSeq'' input) (own ''expectedDigest'' input))) (\<lambda>_.
     obind (olift (normalizeEventInput (own ''event'' input))) (\<lambda>normalized.
     obind (olift (instant (c_requestedAt C))) (\<lambda>requestedAt.
     obind (olift (lockMetadata P identity ''append-event'' requestedAt)) (\<lambda>metadata.
     withLock P J C (staleLockForLease P identity) () metadata (\<lambda>_.
       obind (olift (instant (c_at C))) (\<lambda>now.
       appendUnsafe P J (own ''expectedSeq'' input) (own ''expectedDigest'' input) normalized identity now)))))))"

section \<open>Snapshots\<close>

definition snapshot_value :: "string \<Rightarrow> string \<Rightarrow> recovery \<Rightarrow> jsval \<Rightarrow> jsval \<Rightarrow> (string \<times> jsval) list" where
  "snapshot_value runId createdAt state activeRevision snapshotState = [
     (''formatVersion'', jint 1), (''runId'', JStr runId), (''createdAt'', JStr createdAt),
     (''lastAppliedSeq'', rc_lastSeq state), (''lastEventDigest'', rc_lastEventDigest state),
     (''activeRevision'', activeRevision), (''state'', snapshotState)]"

definition writeSnapshot :: "platform \<Rightarrow> (string \<times> jsval) list \<Rightarrow> jsval op" where
  "writeSnapshot P payload d =
     (case rbind (sha256 P (JObj payload)) (\<lambda>h. let snapshot = JObj (payload @ [(''digest'', JStr h)]) in
             rbind (canonicalJson P snapshot) (\<lambda>txt. Inr (snapshot, txt))) of
        Inl e \<Rightarrow> (Inl e, d) | Inr (snapshot, txt) \<Rightarrow> (Inr snapshot, d\<lparr>d_snapshot := Some (txt @ NL)\<rparr>))"

definition publishSnapshot :: "platform \<Rightarrow> journal \<Rightarrow> call \<Rightarrow> jsval \<Rightarrow> jsval op" where
  "publishSnapshot P J C input =
     obind (olift (rbind (prop_of ''lease'' input) leaseIdentity)) (\<lambda>identity.
     obind (olift (validateExpected (own ''expectedSeq'' input) (own ''expectedDigest'' input))) (\<lambda>_.
     obind (olift (validateInteger 0 (own ''activeRevision'' input))) (\<lambda>_.
     obind (olift (assertPlainJson (coalesce (own ''state'' input) (JObj [])))) (\<lambda>snapshotState.
     obind (olift (instant (c_requestedAt C))) (\<lambda>requestedAt.
     obind (olift (lockMetadata P identity ''publish-snapshot'' requestedAt)) (\<lambda>metadata.
     withLock P J C (staleLockForLease P identity) () metadata (\<lambda>_.
       obind (olift (instant (c_at C))) (\<lambda>now.
       obind (\<lambda>d. (assertCurrentLeaseUnsafe P J identity now d, d)) (\<lambda>_.
       obind (recoverUnsafe P J True) (\<lambda>state.
       if \<not> js_eq (rc_lastSeq state) (own ''expectedSeq'' input) \<or> \<not> js_eq (rc_lastEventDigest state) (own ''expectedDigest'' input)
       then olift (failRun ''JOURNAL_CAS_MISMATCH'') else
       obind (olift (toISOString P now)) (\<lambda>createdAt.
       writeSnapshot P (snapshot_value (j_runId J) createdAt state (own ''activeRevision'' input) snapshotState))))))))))))"

text \<open>The check of a snapshot against the recovered journal.\<close>

definition snapshotAgrees :: "platform \<Rightarrow> jsval \<Rightarrow> recovery \<Rightarrow> unit res" where
  "snapshotAgrees P snapshot state =
     (if js_less P (rc_lastSeq state) (own ''lastAppliedSeq'' snapshot) then failRun ''SNAPSHOT_JOURNAL_MISMATCH'' else
      let expectedDigest = (case own ''lastAppliedSeq'' snapshot of
            JNum (Fin a) \<Rightarrow> (if a = 0 then JStr (GENESIS_EVENT_DIGEST P)
              else if nat \<lfloor>a\<rfloor> - 1 < length (rc_events state) then own ''eventDigest'' (rc_events state ! (nat \<lfloor>a\<rfloor> - 1)) else JUndef)
          | _ \<Rightarrow> JUndef) in
      if \<not> js_eq (own ''lastEventDigest'' snapshot) expectedDigest then failRun ''SNAPSHOT_JOURNAL_MISMATCH'' else Inr ())"

definition loadSnapshot :: "platform \<Rightarrow> journal \<Rightarrow> bool \<Rightarrow> disk \<Rightarrow> jsval res" where
  "loadSnapshot P J verifyAgainstJournal d =
     rbind (readJson P (d_snapshot d) ''INVALID_SNAPSHOT'') (\<lambda>v.
     if v = JNull then Inr JNull else
     rbind (validateSnapshot P v (j_runId J)) (\<lambda>snapshot.
     rbind (if \<not> verifyAgainstJournal then Inr () else
       rbind (fst (recoverUnsafe P J False d)) (snapshotAgrees P snapshot)) (\<lambda>_.
     jsonClone snapshot)))"

end
