(* ===== verification/Journal_Proofs.thy ===== *)
theory Journal_Proofs
  imports Event_Journal
begin

text \<open>
  What the run journal guarantees. \<open>event_chain\<close> is the contract of the recovered events;
  \<open>clean_journal\<close> is the abstraction of a directory whose event file holds a given list of
  events. Recovery establishes both, repairing keeps every committed event, appending extends
  the list by exactly one event under a current lease, and nothing is added after a terminal event.
\<close>

section \<open>Inversion of the checks\<close>

lemma failRun_neq_Inr [simp]: "failRun c = Inr x \<longleftrightarrow> False"
  by (simp add: failRun_def)

lemma if_failRun_eq_Inr [simp]: "((if c then failRun e else r) = Inr y) \<longleftrightarrow> \<not> c \<and> r = Inr y"
  by simp

lemma jint_inject: "jint a = jint b \<longleftrightarrow> a = b"
  by simp

lemmas run_inv = rbind_eq_Inr option_throw_eq_Inr if_throw_eq_Inr if_failRun_eq_Inr arr_of_Inr prop_of_Inr Let_def not_not

lemma validateInteger_Inr: "validateInteger m v = Inr u \<longleftrightarrow> (\<exists>n. v = jint n \<and> m \<le> n \<and> \<bar>n\<bar> \<le> MAX_SAFE_INTEGER)"
  by (cases v) (auto simp: validateInteger_def num_isSafeInteger_iff)

lemma validateDigest_Inr: "validateDigest c v = Inr u \<longleftrightarrow> (\<exists>s. v = JStr s \<and> re_DIGEST s)"
  by (cases v) (auto simp: validateDigest_def)

lemma validateId_Inr: "validateId b v = Inr u \<longleftrightarrow> (b \<and> v = JNull) \<or> (\<exists>s. v = JStr s \<and> re_ID s)"
  by (cases v) (auto simp: validateId_def)

lemma validateEventId_Inr: "validateEventId v = Inr u \<longleftrightarrow> (\<exists>s. v = JStr s \<and> re_EVENT_ID s)"
  by (cases v) (auto simp: validateEventId_def)

lemma exactKeys_Inr: "exactKeys v ks c = Inr u \<longleftrightarrow> sort (keys v) = sort ks"
  by (simp add: exactKeys_def)

text \<open>What a validated event satisfies relative to its predecessor.\<close>

lemma validateEvent_facts:
  assumes "validateEvent P e run p = Inr r"
  shows "r = e" "isObj e" "\<exists>n. own ''seq'' e = jint n \<and> 1 \<le> n \<and> n \<le> MAX_SAFE_INTEGER"
    "\<exists>n. own ''fencingToken'' e = jint n \<and> 1 \<le> n \<and> n \<le> MAX_SAFE_INTEGER"
    "\<exists>s. own ''eventId'' e = JStr s" "\<exists>s. own ''eventDigest'' e = JStr s" "own ''runId'' e = JStr run"
    "own ''seq'' e = JNum (if p = JNull then Fin 1 else num_add (js_number P (own ''seq'' p)) (Fin 1))"
    "own ''prevEventDigest'' e = (if p = JNull then JStr (GENESIS_EVENT_DIGEST P) else own ''eventDigest'' p)"
    "p \<noteq> JNull \<longrightarrow> \<not> js_less P (own ''fencingToken'' e) (own ''fencingToken'' p)"
    "\<exists>d. sha256 P (inputShape e) = Inr d \<and> own ''inputDigest'' e = JStr d"
    "\<exists>d. sha256 P (withoutKey e ''eventDigest'') = Inr d \<and> own ''eventDigest'' e = JStr d"
proof -
  from assms obtain u1 u2 u3 where o: "isObj e"
    and seq: "validateInteger 1 (own ''seq'' e) = Inr u1" and tok: "validateInteger 1 (own ''fencingToken'' e) = Inr u2"
    and eid: "validateEventId (own ''eventId'' e) = Inr u3"
    and run: "\<not> (own ''formatVersion'' e \<noteq> jint 1 \<or> own ''runId'' e \<noteq> JStr run)"
    and links: "validateEventLinks P e p = Inr r"
    unfolding validateEvent_def run_inv by blast
  show "isObj e" by fact
  show "\<exists>n. own ''seq'' e = jint n \<and> 1 \<le> n \<and> n \<le> MAX_SAFE_INTEGER"
    "\<exists>n. own ''fencingToken'' e = jint n \<and> 1 \<le> n \<and> n \<le> MAX_SAFE_INTEGER"
    using seq tok unfolding validateInteger_Inr by fastforce+
  show "\<exists>s. own ''eventId'' e = JStr s" "own ''runId'' e = JStr run" using eid run unfolding validateEventId_Inr by auto
  from links obtain d1 d2 where
    l: "js_eq (own ''seq'' e) (JNum (if p = JNull then Fin 1 else num_add (js_number P (own ''seq'' p)) (Fin 1)))"
      "js_eq (own ''prevEventDigest'' e) (if p = JNull then JStr (GENESIS_EVENT_DIGEST P) else own ''eventDigest'' p)"
      "\<not> (p \<noteq> JNull \<and> js_less P (own ''fencingToken'' e) (own ''fencingToken'' p))"
      "sha256 P (inputShape e) = Inr d1" "own ''inputDigest'' e = JStr d1"
      "sha256 P (withoutKey e ''eventDigest'') = Inr d2" "own ''eventDigest'' e = JStr d2" "e = r"
    unfolding validateEventLinks_def run_inv sum.inject by blast
  show "r = e" using l by simp
  show "own ''seq'' e = JNum (if p = JNull then Fin 1 else num_add (js_number P (own ''seq'' p)) (Fin 1))"
    "own ''prevEventDigest'' e = (if p = JNull then JStr (GENESIS_EVENT_DIGEST P) else own ''eventDigest'' p)"
    "p \<noteq> JNull \<longrightarrow> \<not> js_less P (own ''fencingToken'' e) (own ''fencingToken'' p)"
    using l(1-3) by (simp_all only: js_eq_def) blast
  show "\<exists>s. own ''eventDigest'' e = JStr s" "\<exists>d. sha256 P (inputShape e) = Inr d \<and> own ''inputDigest'' e = JStr d"
    "\<exists>d. sha256 P (withoutKey e ''eventDigest'') = Inr d \<and> own ''eventDigest'' e = JStr d"
    using l by blast+
qed

section \<open>The chain of events\<close>

text \<open>
  The contract of a validated journal: the sequence numbers count from one, every event names the
  digest of its predecessor and carries its own, fencing tokens never fall, ids are distinct.
\<close>

definition event_chain :: "platform \<Rightarrow> string \<Rightarrow> jsval list \<Rightarrow> bool" where
  "event_chain P run es \<longleftrightarrow>
     (\<forall>i < length es. isObj (es ! i) \<and> own ''runId'' (es ! i) = JStr run
        \<and> own ''seq'' (es ! i) = jint (int i + 1)
        \<and> own ''prevEventDigest'' (es ! i) = (if i = 0 then JStr (GENESIS_EVENT_DIGEST P) else own ''eventDigest'' (es ! (i - 1)))
        \<and> (\<exists>d. sha256 P (withoutKey (es ! i) ''eventDigest'') = Inr d \<and> own ''eventDigest'' (es ! i) = JStr d)
        \<and> (\<exists>d. sha256 P (inputShape (es ! i)) = Inr d \<and> own ''inputDigest'' (es ! i) = JStr d)
        \<and> (\<exists>n. own ''fencingToken'' (es ! i) = jint n \<and> 1 \<le> n \<and> n \<le> MAX_SAFE_INTEGER
             \<and> (0 < i \<longrightarrow> (\<exists>m. own ''fencingToken'' (es ! (i - 1)) = jint m \<and> m \<le> n))))
     \<and> distinct (map (own ''eventId'') es) \<and> int (length es) \<le> MAX_SAFE_INTEGER"

lemma event_chain_Nil [simp]: "event_chain P run []"
  by (simp add: event_chain_def MAX_SAFE_INTEGER_def)

lemma chain_nth:
  assumes "event_chain P run es" "i < length es"
  shows "isObj (es ! i)" "own ''runId'' (es ! i) = JStr run" "own ''seq'' (es ! i) = jint (int i + 1)"
    "own ''prevEventDigest'' (es ! i) = (if i = 0 then JStr (GENESIS_EVENT_DIGEST P) else own ''eventDigest'' (es ! (i - 1)))"
    "\<exists>d. sha256 P (withoutKey (es ! i) ''eventDigest'') = Inr d \<and> own ''eventDigest'' (es ! i) = JStr d"
    "\<exists>d. sha256 P (inputShape (es ! i)) = Inr d \<and> own ''inputDigest'' (es ! i) = JStr d"
    "\<exists>n. own ''fencingToken'' (es ! i) = jint n \<and> 1 \<le> n \<and> n \<le> MAX_SAFE_INTEGER
             \<and> (0 < i \<longrightarrow> (\<exists>m. own ''fencingToken'' (es ! (i - 1)) = jint m \<and> m \<le> n))"
  using assms unfolding event_chain_def by blast+

lemma previous_of_chain:
  assumes "event_chain P run es"
  shows "if es = [] then previous_of es = JNull
    else previous_of es = es ! (length es - 1) \<and> isObj (previous_of es) \<and> own ''seq'' (previous_of es) = jint (int (length es))
       \<and> (\<exists>d. own ''eventDigest'' (previous_of es) = JStr d)"
proof (cases "es = []")
  case False
  then have l: "length es - 1 < length es" "previous_of es = es ! (length es - 1)" by (simp_all add: previous_of_def last_conv_nth)
  have "int (length es - 1) + 1 = int (length es)" using False by (cases es) auto
  then have "own ''seq'' (es ! (length es - 1)) = jint (int (length es))" using chain_nth(3) [OF assms l(1)] by metis
  then show ?thesis using chain_nth(1,5) [OF assms l(1)] False unfolding l(2) by auto
qed (simp add: previous_of_def)

lemma chain_snoc:
  assumes c: "event_chain P run es" and v: "validateEvent P e run (previous_of es) = Inr e"
    and new: "own ''eventId'' e \<notin> own ''eventId'' ` set es"
  shows "event_chain P run (es @ [e])"
proof -
  note f = validateEvent_facts [OF v]
  note pc = previous_of_chain [OF c]
  have len: "int (length es) \<le> MAX_SAFE_INTEGER" using c by (simp add: event_chain_def)
  have seq: "own ''seq'' e = jint (int (length es) + 1)"
  proof (cases "es = []")
    case True
    then show ?thesis using f(8) pc by simp
  next
    case False
    then have "previous_of es \<noteq> JNull" "own ''seq'' (previous_of es) = jint (int (length es))" using pc by auto
    moreover have "num_add (num_of_int (int (length es))) (num_of_int 1) = num_of_int (int (length es) + 1)"
      by (rule num_add_ints) (use len in \<open>simp add: MAX_SAFE_INTEGER_def\<close>)
    ultimately show ?thesis using f(8) by simp
  qed
  then have len': "int (length es) + 1 \<le> MAX_SAFE_INTEGER" using f(3) by (metis jint_inject)
  obtain n where n: "own ''fencingToken'' e = jint n" "1 \<le> n" "n \<le> MAX_SAFE_INTEGER" using f(4) by blast
  have new_tok: "\<exists>m. own ''fencingToken'' (es ! (length es - 1)) = jint m \<and> m \<le> n" if "es \<noteq> []"
  proof -
    have l: "length es - 1 < length es" using that by simp
    obtain m where m: "own ''fencingToken'' (es ! (length es - 1)) = jint m" using chain_nth(7) [OF c l] by blast
    have "previous_of es = es ! (length es - 1)" "previous_of es \<noteq> JNull" using pc that by auto
    then show ?thesis using f(10) m n(1) by auto
  qed
  have prev: "own ''prevEventDigest'' e = (if es = [] then JStr (GENESIS_EVENT_DIGEST P) else own ''eventDigest'' (es ! (length es - 1)))"
  proof (cases "es = []")
    case True
    then show ?thesis using f(9) pc by simp
  next
    case False
    then have "previous_of es = es ! (length es - 1)" "previous_of es \<noteq> JNull" using pc by auto
    then show ?thesis using f(9) False by simp
  qed
  show ?thesis
    unfolding event_chain_def
  proof (intro conjI allI impI)
    fix i assume i: "i < length (es @ [e])"
    have old: "i < length es \<Longrightarrow> (es @ [e]) ! i = es ! i" "i < length es \<Longrightarrow> (es @ [e]) ! (i - 1) = es ! (i - 1)"
      by (auto simp: nth_append)
    have last: "i \<noteq> length es \<Longrightarrow> i < length es" using i by simp
    have lasti: "(es @ [e]) ! length es = e" "es \<noteq> [] \<Longrightarrow> (es @ [e]) ! (length es - 1) = es ! (length es - 1)" by (simp_all add: nth_append)
    show "isObj ((es @ [e]) ! i)"
      using chain_nth(1) [OF c] old(1) last lasti f(2) by (cases "i = length es") metis+
    show "own ''runId'' ((es @ [e]) ! i) = JStr run"
      using chain_nth(2) [OF c] old(1) last lasti f(7) by (cases "i = length es") metis+
    show "own ''seq'' ((es @ [e]) ! i) = jint (int i + 1)"
      using chain_nth(3) [OF c] old(1) last lasti seq by (cases "i = length es") metis+
    show "own ''prevEventDigest'' ((es @ [e]) ! i) = (if i = 0 then JStr (GENESIS_EVENT_DIGEST P) else own ''eventDigest'' ((es @ [e]) ! (i - 1)))"
      using chain_nth(4) [OF c] old last lasti prev by (cases "i = length es") (metis length_0_conv)+
    show "\<exists>d. sha256 P (withoutKey ((es @ [e]) ! i) ''eventDigest'') = Inr d \<and> own ''eventDigest'' ((es @ [e]) ! i) = JStr d"
      using chain_nth(5) [OF c] old last lasti f(12) by (cases "i = length es") metis+
    show "\<exists>d. sha256 P (inputShape ((es @ [e]) ! i)) = Inr d \<and> own ''inputDigest'' ((es @ [e]) ! i) = JStr d"
      using chain_nth(6) [OF c] old last lasti f(11) by (cases "i = length es") metis+
    show "\<exists>n. own ''fencingToken'' ((es @ [e]) ! i) = jint n \<and> 1 \<le> n \<and> n \<le> MAX_SAFE_INTEGER
             \<and> (0 < i \<longrightarrow> (\<exists>m. own ''fencingToken'' ((es @ [e]) ! (i - 1)) = jint m \<and> m \<le> n))"
    proof (cases "i = length es")
      case True
      then show ?thesis using n new_tok lasti by (metis length_greater_0_conv)
    next
      case False
      then show ?thesis using chain_nth(7) [OF c last [OF False]] old last by metis
    qed
  next
    show "distinct (map (own ''eventId'') (es @ [e]))" using c new by (auto simp: event_chain_def)
    show "int (length (es @ [e])) \<le> MAX_SAFE_INTEGER" using len' by simp
  qed
qed

lemma addEvent_Inr: "addEvent es e = Inr es' \<longleftrightarrow> own ''eventId'' e \<notin> own ''eventId'' ` set es \<and> es' = es @ [e]"
  by (auto simp: addEvent_def)

lemma recoverLine_chain:
  assumes "event_chain P run es" "recoverLine P run es l = Inr es'"
  shows "event_chain P run es' \<and> (\<exists>e. es' = es @ [e] \<and> json_parse P l = Some e)"
proof -
  from assms(2) obtain e e' where e: "json_parse P l = Some e" "validateEvent P e run (previous_of es) = Inr e'"
    "addEvent es e' = Inr es'"
    by (auto simp: recoverLine_def parseCompleteLine_def rbind_eq_Inr split: option.splits)
  have "e' = e" using validateEvent_facts(1) [OF e(2)] .
  then show ?thesis using e chain_snoc [OF assms(1)] by (auto simp: addEvent_Inr)
qed

lemma recoverLines_chain:
  assumes "foldR (recoverLine P run) es ls = Inr es'" "event_chain P run es"
  shows "event_chain P run es'"
  using assms(1) by (rule foldR_inv [where I = "event_chain P run"]) (use assms(2) recoverLine_chain in blast)+


section \<open>Recovery\<close>

abbreviation nl :: char where "nl \<equiv> CHR 0x0A"

lemma NL_eq: "NL = [nl]" by (simp add: NL_def)

text \<open>The event file holds exactly these events, each line terminated.\<close>

definition clean_journal :: "platform \<Rightarrow> journal \<Rightarrow> disk \<Rightarrow> jsval list \<Rightarrow> bool" where
  "clean_journal P J d es = (case d_events d of None \<Rightarrow> es = []
     | Some txt \<Rightarrow> (if txt = [] then es = [] else last txt = nl
         \<and> foldR (recoverLine P (j_runId J)) [] (butlast (split_on nl txt)) = Inr es))"

lemma clean_recover:
  "clean_journal P J d es \<Longrightarrow> recoverUnsafe P J b d = (Inr (recovered P es ''CLEAN'' 0), d)"
  by (auto simp: clean_journal_def recoverUnsafe_def Let_def split: option.splits if_splits)

lemma clean_chain: "clean_journal P J d es \<Longrightarrow> event_chain P (j_runId J) es"
  by (auto simp: clean_journal_def split: option.splits if_splits intro: recoverLines_chain)

lemma split_join: "ls \<noteq> [] \<Longrightarrow> \<forall>l \<in> set ls. c \<notin> set l \<Longrightarrow> split_on c (join_on [c] ls) = ls"
proof (induction ls)
  case (Cons x ls)
  show ?case
  proof (cases ls)
    case Nil
    then show ?thesis using Cons.prems by (simp add: split_on_no_sep)
  next
    case (Cons y ys)
    then have "split_on c (join_on [c] ls) = ls" using Cons.IH Cons.prems by simp
    then show ?thesis using Cons Cons.prems split_on_append_sep [of c x "join_on [c] ls"] by (simp add: split_on_no_sep)
  qed
qed simp

lemma split_on_snoc: "split_on c (s @ [c]) = split_on c s @ [[]]"
  using split_on_append_sep [of c s "[]"] by simp

lemma split_last_empty: "str \<noteq> [] \<Longrightarrow> last str = c \<Longrightarrow> last (split_on c str) = []"
  by (metis append_butlast_last_id last_snoc split_on_snoc)

lemma recoverUnsafe_cases:
  assumes "recoverUnsafe P J b d = (Inr r, d')"
  obtains (clean) es where "clean_journal P J d es" "r = recovered P es ''CLEAN'' 0" "d' = d"
  | (partial) str es where "b" "d_events d = Some str"
      "foldR (recoverLine P (j_runId J)) [] (butlast (split_on nl str)) = Inr es"
      "r = recovered P es ''TRAILING_PARTIAL_TRUNCATED'' (rc_repairedBytes r)"
      "d' = d\<lparr>d_events := Some (if butlast (split_on nl str) = [] then [] else join_on NL (butlast (split_on nl str)) @ NL)\<rparr>"
  | (unterminated) str es e bytes how where "d_events d = Some str" "str \<noteq> []" "last (split_on nl str) \<noteq> []"
      "foldR (recoverLine P (j_runId J)) [] (butlast (split_on nl str)) = Inr es"
      "recoverLine P (j_runId J) es (last (split_on nl str)) = Inr (es @ [e])"
      "r = recovered P (es @ [e]) how bytes"
      "d' = (if b then d\<lparr>d_events := Some (str @ NL)\<rparr> else d)"
proof (cases "d_events d")
  case None
  then have "r = recovered P [] ''CLEAN'' 0" "d' = d" using assms by (simp_all add: recoverUnsafe_def)
  then show thesis by (intro clean [of "[]"]) (simp_all add: clean_journal_def None)
next
  case (Some str)
  show thesis
  proof (cases "str = []")
    case True
    then have "r = recovered P [] ''CLEAN'' 0" "d' = d" using assms Some by (simp_all add: recoverUnsafe_def)
    then show thesis by (intro clean [of "[]"]) (simp_all add: clean_journal_def Some True)
  next
    case False
    then obtain es where es: "foldR (recoverLine P (j_runId J)) [] (butlast (split_on nl str)) = Inr es"
      and r: "(if last str \<noteq> nl \<and> last (split_on nl str) \<noteq> [] then recoverTail P J b str (butlast (split_on nl str)) (last (split_on nl str)) es d
                else (Inr (recovered P es ''CLEAN'' 0), d)) = (Inr r, d')"
      using assms Some by (auto simp: recoverUnsafe_def Let_def split: sum.splits if_splits)
    show thesis
    proof (cases "last str \<noteq> nl \<and> last (split_on nl str) \<noteq> []")
      case True
      then have t: "recoverTail P J b str (butlast (split_on nl str)) (last (split_on nl str)) es d = (Inr r, d')" using r by simp
      show thesis
      proof (cases "json_parse P (last (split_on nl str))")
        case None
        then show thesis using t Some es
          by (intro partial [of str es]) (auto simp: recoverTail_def recovered_def Let_def failRun_def split: if_splits)
      next
        case (Some v)
        obtain es' where es': "rbind (validateEvent P v (j_runId J) (previous_of es)) (addEvent es) = Inr es'"
          using t Some by (auto simp: recoverTail_def split: sum.splits)
        then obtain e where e: "es' = es @ [e]" by (auto simp: rbind_eq_Inr addEvent_Inr)
        have "recoverLine P (j_runId J) es (last (split_on nl str)) = Inr (es @ [e])"
          using es' e Some True by (simp add: recoverLine_def parseCompleteLine_def)
        then show thesis using t Some es es' e True False \<open>d_events d = Some str\<close>
          by (intro unterminated [of str es e "if b then ''TRAILING_TERMINATOR_REPAIRED'' else ''VALID_UNTERMINATED_RECORD''" "if b then -1 else 0"])
            (auto simp: recoverTail_def split: if_splits)
      qed
    next
      case lastc: False
      have l: "last str = nl"
      proof (rule ccontr)
        assume n: "last str \<noteq> nl"
        then have "last (split_on nl str) = []" using lastc by simp
        then have "split_on nl str = butlast (split_on nl str) @ [[]]" by (metis append_butlast_last_id split_on_not_Nil)
        then have "str = join_on [nl] (butlast (split_on nl str) @ [[]])" by (metis join_split_on)
        moreover have "join_on [nl] (us @ [[]]) = [] \<or> last (join_on [nl] (us @ [[]])) = nl" for us
        proof (induction us)
          case (Cons u us)
          then show ?case by (cases us) auto
        qed simp
        ultimately show False using n False by metis
      qed
      then show thesis using r es False Some by (intro clean [of es]) (auto simp: clean_journal_def)
    qed
  qed
qed

lemma recoverUnsafe_chain:
  assumes "recoverUnsafe P J b d = (Inr r, d')"
  shows "event_chain P (j_runId J) (rc_events r)
     \<and> rc_lastSeq r = jint (int (length (rc_events r)))
     \<and> rc_lastEventDigest r = (if rc_events r = [] then JStr (GENESIS_EVENT_DIGEST P) else own ''eventDigest'' (last (rc_events r)))
     \<and> (\<exists>how bytes. r = recovered P (rc_events r) how bytes)"
proof -
  have R: "\<exists>how bytes. r = recovered P (rc_events r) how bytes \<and> event_chain P (j_runId J) (rc_events r)"
    using assms
  proof (cases rule: recoverUnsafe_cases)
    case (clean es)
    then show ?thesis using clean_chain [OF clean(1)] by (auto simp: recovered_def)
  next
    case (partial str es)
    then have "event_chain P (j_runId J) es" using recoverLines_chain by auto
    moreover have "rc_events r = es" using partial(4) by (simp add: recovered_def) (metis recovery.select_convs(1))
    ultimately show ?thesis using partial(4) by metis
  next
    case (unterminated str es e bytes how)
    have "event_chain P (j_runId J) (es @ [e])"
      using recoverLine_chain [OF recoverLines_chain [OF unterminated(4) event_chain_Nil] unterminated(5)] by blast
    then show ?thesis using unterminated(6) by (auto simp: recovered_def)
  qed
  then obtain how bytes where r: "r = recovered P (rc_events r) how bytes" and c: "event_chain P (j_runId J) (rc_events r)" by blast
  note pc = previous_of_chain [OF c]
  have "rc_lastSeq r = coalesce (own ''seq'' (previous_of (rc_events r))) (jint 0)"
    "rc_lastEventDigest r = coalesce (own ''eventDigest'' (previous_of (rc_events r))) (JStr (GENESIS_EVENT_DIGEST P))"
    by (subst r, simp add: recovered_def)+
  then show ?thesis using R c pc by (cases "rc_events r = []") (auto simp: previous_of_def)
qed

text \<open>Repairing leaves a clean file with the same events and touches nothing else.\<close>

lemma repair_clean:
  assumes "recoverUnsafe P J True d = (Inr r, d')"
  shows "clean_journal P J d' (rc_events r) \<and> d'\<lparr>d_events := x\<rparr> = d\<lparr>d_events := x\<rparr>"
  using assms
proof (cases rule: recoverUnsafe_cases)
  case (clean es)
  then show ?thesis by (simp add: recovered_def)
next
  case (partial str es)
  define ls where "ls = butlast (split_on nl str)"
  have ev: "rc_events r = es" using partial(4) by (simp add: recovered_def) (metis recovery.select_convs(1))
  have no: "\<forall>l \<in> set ls. nl \<notin> set l" using split_on_parts in_set_butlastD unfolding ls_def by metis
  have "clean_journal P J d' es"
  proof (cases "ls = []")
    case True
    then show ?thesis using partial(3,5) by (simp add: clean_journal_def ls_def)
  next
    case False
    have "split_on nl (join_on NL ls @ NL) = ls @ [[]]" using split_join [OF False no] by (simp add: NL_eq split_on_snoc)
    then show ?thesis using partial(3,5) False by (simp add: clean_journal_def ls_def NL_eq)
  qed
  then show ?thesis using ev partial(5) by simp
next
  case (unterminated str es e bytes how)
  have "foldR (recoverLine P (j_runId J)) [] (split_on nl str) = Inr (es @ [e])"
    using unterminated(4,5) foldR_append [of "recoverLine P (j_runId J)" "[]" "butlast (split_on nl str)" "[last (split_on nl str)]"] by simp
  then show ?thesis using unterminated by (simp add: clean_journal_def NL_eq split_on_snoc recovered_def)
qed

text \<open>Adding one line.\<close>

lemma clean_append:
  assumes "clean_journal P J d es" "nl \<notin> set line" "recoverLine P (j_runId J) es line = Inr (es @ [e])"
  shows "clean_journal P J (d\<lparr>d_events := Some ((case d_events d of None \<Rightarrow> [] | Some old \<Rightarrow> old) @ line @ NL)\<rparr>) (es @ [e])"
proof -
  define old where "old = (case d_events d of None \<Rightarrow> [] | Some old \<Rightarrow> old)"
  have f: "foldR (recoverLine P (j_runId J)) [] (butlast (split_on nl old)) = Inr es" "old = [] \<or> last old = nl"
    using assms(1) by (auto simp: clean_journal_def old_def split: option.splits if_splits)
  have "split_on nl (old @ line @ [nl]) = butlast (split_on nl old) @ [line, []]"
  proof (cases "old = []")
    case True
    then show ?thesis using assms(2) by (simp add: split_on_snoc split_on_no_sep)
  next
    case False
    then have o: "old = butlast old @ [nl]" using f(2) by (metis append_butlast_last_id)
    have "split_on nl (old @ line @ [nl]) = split_on nl (butlast old) @ split_on nl (line @ [nl])"
      using split_on_append_sep [of nl "butlast old" "line @ [nl]"] o by (metis append.assoc append_Cons append_Nil)
    moreover have "butlast (split_on nl old) = split_on nl (butlast old)" using o split_on_snoc by (metis butlast_snoc)
    ultimately show ?thesis using assms(2) by (simp add: split_on_snoc split_on_no_sep)
  qed
  then have s: "butlast (split_on nl (old @ line @ [nl])) = butlast (split_on nl old) @ [line]" by (simp add: butlast_append)
  show ?thesis using f(1) assms(3)
    by (simp add: clean_journal_def old_def [symmetric] NL_eq s foldR_append)
qed

section \<open>Stored records\<close>

lemma json_char_one_line: "nl \<notin> set (json_char c)"
proof -
  have "\<forall>k \<in> set [0..<16]. hex_digit k \<noteq> nl" by code_simp
  then have h: "k < 16 \<Longrightarrow> hex_digit k \<noteq> nl" for k by auto
  have "(of_char c :: nat) = 10" if "c = nl" using that by simp
  then show ?thesis
    using h [of "of_char c div 16"] h [of "of_char c mod 16"]
    by (auto simp: json_char_def Let_def less_mult_imp_div_less)
qed

lemma join_one_line: "\<forall>l \<in> set ls. nl \<notin> set l \<Longrightarrow> nl \<notin> set s \<Longrightarrow> nl \<notin> set (join_on s ls)"
  by (induction s ls rule: join_on.induct) auto

lemma json_quote_one_line: "nl \<notin> set (json_quote s)"
  using json_char_one_line by (simp add: json_quote_def)

lemma stringify_one_line:
  assumes "\<forall>n. nl \<notin> set (num_str P n)"
  shows "\<forall>t. stringify P v = Some t \<longrightarrow> nl \<notin> set t"
proof -
  have n: "nl \<notin> set (num_text P n)" for n
    using assms newline_free_int by (cases n) (auto simp: num_text_def)
  show ?thesis
  proof (induction v)
    case (JArr xs)
    have "\<forall>t \<in> set (stringify_items P xs). nl \<notin> set t"
      using JArr by (induction xs) (auto split: option.splits)
    then show ?case using join_one_line [of "stringify_items P xs" "'',''"] by auto
  next
    case (JObj ps)
    have "\<forall>t \<in> set (stringify_members P ps). nl \<notin> set t"
      using JObj json_quote_one_line by (induction ps) (fastforce split: option.splits)+
    then show ?case using join_one_line [of "stringify_members P ps" "'',''"] by auto
  qed (use n json_quote_one_line in \<open>auto split: if_splits\<close>)
qed

lemma distinct_fst_sort: "distinct (map fst (sort_key fst ps)) = distinct (map fst ps)"
  by (simp add: distinct_map)

lemma sort_eq_iff_set: "distinct xs \<Longrightarrow> distinct ys \<Longrightarrow> set xs = set ys \<Longrightarrow> sort xs = sort ys" for xs ys :: "string list"
  by (rule sorted_distinct_set_unique) simp_all

lemma canonicalMembers_id: "\<forall>(k, x) \<in> set ps. canonical x \<Longrightarrow> canonicalMembers ps = Inr ps"
  by (induction ps) (auto simp: canonical_def)

lemma canonical_simps [simp]:
  "canonical (JStr s)" "canonical JNull" "canonical (JBool b)" "canonical (JNum (Fin a))"
  by (simp_all add: canonical_def)

lemma canonical_members:
  assumes "canonical (JObj ps)" "(k, x) \<in> set ps"
  shows "canonical x"
proof -
  from assms(1) obtain qs where qs: "canonicalMembers ps = Inr qs" "ps = sort_key fst qs"
    by (auto simp: canonical_def res_simps)
  then have "(k, x) \<in> set qs" using assms(2) by (metis set_sort)
  then obtain y where "canonicalValue y = Inr x" using canonicalMembers_set [OF qs(1)] by auto
  then show ?thesis using canonicalValue_idem by (auto simp: canonical_def)
qed

lemma canonicalValue_canonical: "canonicalValue v = Inr w \<Longrightarrow> canonical w"
  using canonicalValue_idem by (auto simp: canonical_def)

lemma distinct_names_canonical:
  "\<forall>w. canonicalValue v = Inr w \<longrightarrow> distinct_names v \<longrightarrow> distinct_names w"
  "\<forall>ws. canonicalValues vs = Inr ws \<longrightarrow> list_all distinct_names vs \<longrightarrow> list_all distinct_names ws"
  "\<forall>qs. canonicalMembers ps = Inr qs \<longrightarrow> list_all (\<lambda>(k, x). distinct_names x) ps \<longrightarrow> list_all (\<lambda>(k, x). distinct_names x) qs"
proof (induction v and vs and ps rule: canonicalValue_canonicalValues_canonicalMembers.induct)
  case (7 ps)
  then show ?case using canonicalMembers_keys [of ps] by (auto simp: res_simps list_all_iff distinct_fst_sort)
qed (auto simp: res_simps)

text \<open>
  A record sealed with the digest of its other fields and written as canonical text: what is read
  back has the same fields and keys, and its digest still matches.
\<close>

lemma stored_record:
  assumes ps: "distinct (map fst ps)" "\<forall>(k, x) \<in> set ps. canonical x \<and> distinct_names x" "hk \<notin> fst ` set ps"
    and h: "sha256 P (JObj ps) = Inr h"
    and text_eq: "canonicalJson P (JObj (ps @ [(hk, JStr h)])) = Inr t"
    and host: "host_ok P"
  shows "\<exists>c. canonicalValue (JObj (ps @ [(hk, JStr h)])) = Inr c \<and> json_parse P t = Some c \<and> json_parse P (t @ NL) = Some c
     \<and> isObj c \<and> canonical c \<and> distinct_names c
     \<and> (\<forall>k. own k c = own k (JObj (ps @ [(hk, JStr h)]))) \<and> sort (keys c) = sort (hk # map fst ps)
     \<and> sha256 P (withoutKey c hk) = Inr h"
proof -
  define qs where "qs = ps @ [(hk, JStr h)]"
  have d: "distinct (map fst qs)" using ps(1,3) by (auto simp: qs_def)
  have all: "\<forall>(k, x) \<in> set qs. canonical x \<and> distinct_names x" using ps(2) by (auto simp: qs_def)
  then have cm: "canonicalMembers qs = Inr qs" by (intro canonicalMembers_id) auto
  define c where "c = JObj (sort_key fst qs)"
  have cv: "canonicalValue (JObj qs) = Inr c" using cm by (simp add: c_def)
  have can: "canonical c" using canonicalValue_canonical [OF cv] .
  have dn: "distinct_names c" using distinct_names_canonical(1) [of "JObj qs"] cv d all by (auto simp: list_all_iff)
  have st: "stringify P c = Some t" using text_eq cv by (auto simp: canonicalJson_def qs_def json_text_def split: option.splits)
  have parse: "json_parse P t = Some c" "json_parse P (t @ NL) = Some c" using host can dn st by (auto simp: host_ok_def NL_def)
  have ow: "own k c = own k (JObj qs)" for k by (simp add: c_def own.simps(1) map_of_stable_sort)
  have ks: "sort (keys c) = sort (hk # map fst ps)"
    by (rule sort_eq_iff_set) (use d ps(1,3) in \<open>auto simp: c_def qs_def distinct_fst_sort simp del: map_append\<close>)
  have wk: "withoutKey c hk = JObj (filter (\<lambda>(n, _). n \<noteq> hk) (sort_key fst qs))" by (simp add: withoutKey_def c_def)
  have setw: "set (filter (\<lambda>(n, _). n \<noteq> hk) (sort_key fst qs)) = set ps"
    using ps(3) by (force simp: qs_def)
  obtain w where w: "canonicalValue (JObj ps) = Inr w"
    using canonicalMembers_id [of ps] ps(2) by (auto simp: case_prod_unfold)
  have dw: "distinct (map fst (filter (\<lambda>(n, _). n \<noteq> hk) (sort_key fst qs)))"
    using d by (auto simp: distinct_map intro: inj_on_subset)
  have "canonicalValue (withoutKey c hk) = Inr w" unfolding wk by (rule canonicalValue_order [OF setw ps(1) dw w])
  then have "sha256 P (withoutKey c hk) = sha256 P (JObj ps)" using w by (simp add: wk sha256_def canonicalJson_def)
  then show ?thesis using cv parse can dn ow ks h unfolding qs_def by (intro exI [of _ c]) (simp add: c_def)
qed

lemma sha256_digest: "host_ok P \<Longrightarrow> sha256 P v = Inr d \<Longrightarrow> re_DIGEST d"
  by (auto simp: host_ok_def sha256_def sha256_text_def re_DIGEST_def re_hexes_def rbind_eq_Inr split: jsval.splits)

lemma genesis_digest: "host_ok P \<Longrightarrow> re_DIGEST (GENESIS_EVENT_DIGEST P)"
  by (auto simp: host_ok_def GENESIS_EVENT_DIGEST_def sha256_text_def re_DIGEST_def re_hexes_def)


section \<open>The event an append writes\<close>

text \<open>The guarantees of the argument checks of \<open>appendEvent\<close>.\<close>

definition identity_ok :: "lease_identity \<Rightarrow> bool" where
  "identity_ok i \<longleftrightarrow> (\<exists>w. li_writerId i = JStr w \<and> re_ID w)
     \<and> (\<exists>n. li_fencingToken i = jint n \<and> 1 \<le> n \<and> n \<le> MAX_SAFE_INTEGER)"

lemma leaseIdentity_ok: "leaseIdentity v = Inr i \<Longrightarrow> identity_ok i"
  unfolding leaseIdentity_def identity_ok_def
  by (auto simp: run_inv validateId_Inr validateInteger_Inr)

definition event_input_ok :: "jsval \<Rightarrow> bool" where
  "event_input_ok n \<longleftrightarrow> isObj n
     \<and> (\<exists>s. own ''eventId'' n = JStr s \<and> re_EVENT_ID s) \<and> (\<exists>s. own ''type'' n = JStr s \<and> re_EVENT_TYPE s)
     \<and> (\<exists>m. own ''revision'' n = jint m \<and> 0 \<le> m \<and> m \<le> MAX_SAFE_INTEGER)
     \<and> (\<forall>k \<in> set [''attemptId'', ''childId'', ''nodeId'', ''swarmRunId'']. own k n = JNull \<or> (\<exists>s. own k n = JStr s \<and> re_ID s))
     \<and> canonical (own ''payload'' n) \<and> distinct_names (own ''payload'' n)"

lemma normalizeEventInput_ok:
  assumes "normalizeEventInput input = Inr n" "distinct_names (own ''payload'' input)"
  shows "event_input_ok n"
proof -
  from assms(1) obtain u1 u2 u3 p where
    n: "n = normalized_event input p"
    and e: "validateEventId (own ''eventId'' input) = Inr u1"
    and t: "case own ''type'' input of JStr s \<Rightarrow> re_EVENT_TYPE s | _ \<Rightarrow> False"
    and r: "validateInteger 0 (coalesce (own ''revision'' input) (jint 0)) = Inr u2"
    and i: "forR (\<lambda>key. validateId True (coalesce (own key input) JNull)) [''attemptId'', ''childId'', ''nodeId'', ''swarmRunId''] = Inr u3"
    and p: "assertPlainJson (coalesce (own ''payload'' input) (JObj [])) = Inr p"
    unfolding normalizeEventInput_def run_inv by blast
  have ids: "\<forall>k \<in> set [''attemptId'', ''childId'', ''nodeId'', ''swarmRunId'']. coalesce (own k input) JNull = JNull \<or> (\<exists>s. coalesce (own k input) JNull = JStr s \<and> re_ID s)"
    using i unfolding forR_eq_Inr validateId_Inr by blast
  have pc: "canonicalValue (coalesce (own ''payload'' input) (JObj [])) = Inr p"
    using p by (auto simp: assertPlainJson_def jsonClone_def split: sum.splits)
  have dn: "distinct_names p"
    using distinct_names_canonical(1) [of "coalesce (own ''payload'' input) (JObj [])"] pc assms(2) by (auto simp: coalesce_def)
  show ?thesis
    using e t r ids canonicalValue_canonical [OF pc] dn unfolding n event_input_ok_def validateEventId_Inr validateInteger_Inr
    by (auto simp: normalized_event_def split: jsval.splits)
qed

lemma inputShape_cong: "(\<And>k. k \<in> set [''attemptId'', ''childId'', ''eventId'', ''nodeId'', ''payload'', ''revision'', ''swarmRunId'', ''type'']
    \<Longrightarrow> own k a = own k b) \<Longrightarrow> inputShape a = inputShape b"
  by (simp add: inputShape_def)

lemma event_record_keys: "distinct (map fst (event_record run st n i ts seq d))"
  "''eventDigest'' \<notin> fst ` set (event_record run st n i ts seq d)"
  "sort (''eventDigest'' # map fst (event_record run st n i ts seq d)) = sort EVENT_KEYS"
proof -
  show "distinct (map fst (event_record run st n i ts seq d))" by (simp add: event_record_def)
  show "''eventDigest'' \<notin> fst ` set (event_record run st n i ts seq d)" by (simp add: event_record_def)
  show "sort (''eventDigest'' # map fst (event_record run st n i ts seq d)) = sort EVENT_KEYS"
    by (rule sort_eq_iff_set) (auto simp: event_record_def EVENT_KEYS_def)
qed

text \<open>The record an append writes is accepted when the line is read back.\<close>

lemma written_event_accepted:
  assumes host: "host_ok P" and run: "re_ID (j_runId J)" and chain: "event_chain P (j_runId J) es"
    and n: "event_input_ok n" and i: "identity_ok i" and now: "num_isFinite (date_parse P (iso_string P now))"
    and st: "st = recovered P es how bytes" and small: "int (length es) < MAX_SAFE_INTEGER"
    and token: "es \<noteq> [] \<Longrightarrow> \<not> js_less P (li_fencingToken i) (own ''fencingToken'' (last es))"
    and inp: "sha256 P (inputShape n) = Inr inputDigest"
    and draft: "draft = event_record (j_runId J) st n i (iso_string P now) (num_add (js_number P (rc_lastSeq st)) (Fin 1)) inputDigest"
    and dig: "sha256 P (JObj draft) = Inr digest"
    and line: "canonicalJson P (JObj (draft @ [(''eventDigest'', JStr digest)])) = Inr line"
  shows "\<exists>c. canonicalValue (JObj (draft @ [(''eventDigest'', JStr digest)])) = Inr c
     \<and> json_parse P line = Some c \<and> validateEvent P c (j_runId J) (previous_of es) = Inr c
     \<and> own ''eventId'' c = own ''eventId'' n \<and> own ''type'' c = own ''type'' n \<and> own ''payload'' c = own ''payload'' n
     \<and> own ''fencingToken'' c = li_fencingToken i \<and> own ''seq'' c = jint (int (length es) + 1) \<and> own ''eventDigest'' c = JStr digest
     \<and> own ''inputDigest'' c = JStr inputDigest"
proof -
  note pc = previous_of_chain [OF chain]
  have lastSeq: "rc_lastSeq st = jint (int (length es))"
    using pc by (cases "es = []") (auto simp: st recovered_def previous_of_def)
  have lastDigest: "rc_lastEventDigest st = (if es = [] then JStr (GENESIS_EVENT_DIGEST P) else own ''eventDigest'' (previous_of es))"
    using pc by (cases "es = []") (auto simp: st recovered_def previous_of_def)
  have "num_add (num_of_int (int (length es))) (num_of_int 1) = num_of_int (int (length es) + 1)"
    by (rule num_add_ints) (use small in \<open>simp add: MAX_SAFE_INTEGER_def\<close>)
  then have seq: "num_add (js_number P (rc_lastSeq st)) (Fin 1) = num_of_int (int (length es) + 1)" by (simp add: lastSeq)
  obtain pd where pd: "rc_lastEventDigest st = JStr pd" "re_DIGEST pd"
  proof (cases "es = []")
    case True
    then show ?thesis using that lastDigest genesis_digest [OF host] by auto
  next
    case False
    then have "length es - 1 < length es" "previous_of es = es ! (length es - 1)" using pc by auto
    then show ?thesis using that lastDigest False chain_nth(5) [OF chain, of "length es - 1"] sha256_digest [OF host] by metis
  qed
  have ids: "\<forall>k \<in> set [''attemptId'', ''childId'', ''nodeId'', ''swarmRunId'']. own k n = JNull \<or> (\<exists>s. own k n = JStr s \<and> re_ID s)"
    using n unfolding event_input_ok_def by blast
  obtain eid ty rev w tk where f: "own ''eventId'' n = JStr eid" "re_EVENT_ID eid" "own ''type'' n = JStr ty" "re_EVENT_TYPE ty"
    "own ''revision'' n = jint rev" "0 \<le> rev" "rev \<le> MAX_SAFE_INTEGER" "canonical (own ''payload'' n)" "distinct_names (own ''payload'' n)"
    "li_writerId i = JStr w" "re_ID w" "li_fencingToken i = jint tk" "1 \<le> tk" "tk \<le> MAX_SAFE_INTEGER"
    using n i unfolding event_input_ok_def identity_ok_def by blast
  have scal: "canonical (own k n) \<and> distinct_names (own k n)" if "k \<in> set [''attemptId'', ''childId'', ''nodeId'', ''swarmRunId'']" for k
    using ids that by fastforce
  have all: "\<forall>(k, x) \<in> set draft. canonical x \<and> distinct_names x"
    unfolding draft event_record_def seq pd(1) f(1,3,5,10,12)
    using scal [of "''attemptId''"] scal [of "''childId''"] scal [of "''nodeId''"] scal [of "''swarmRunId''"] f(8,9) by simp
  obtain c where c: "canonicalValue (JObj (draft @ [(''eventDigest'', JStr digest)])) = Inr c" "json_parse P line = Some c" "isObj c"
    and ow0: "\<forall>k. own k c = own k (JObj (draft @ [(''eventDigest'', JStr digest)]))"
    and ks: "sort (keys c) = sort (''eventDigest'' # map fst draft)"
    and sh: "sha256 P (withoutKey c ''eventDigest'') = Inr digest"
    using stored_record [OF _ all _ dig line host] event_record_keys(1,2) unfolding draft by blast
  have ow: "own k c = own k (JObj (draft @ [(''eventDigest'', JStr digest)]))" for k using ow0 by blast
  have F: "own ''formatVersion'' c = jint 1" "own ''runId'' c = JStr (j_runId J)" "own ''seq'' c = jint (int (length es) + 1)"
    "own ''eventId'' c = JStr eid" "own ''type'' c = JStr ty" "own ''timestamp'' c = JStr (iso_string P now)"
    "own ''revision'' c = jint rev" "own ''writerId'' c = JStr w" "own ''fencingToken'' c = jint tk"
    "own ''inputDigest'' c = JStr inputDigest" "own ''prevEventDigest'' c = JStr pd" "own ''eventDigest'' c = JStr digest"
    by (simp_all only: ow draft seq, simp_all add: event_record_def pd(1) f)
  have G: "own ''nodeId'' c = own ''nodeId'' n" "own ''attemptId'' c = own ''attemptId'' n" "own ''swarmRunId'' c = own ''swarmRunId'' n"
    "own ''childId'' c = own ''childId'' n" "own ''payload'' c = own ''payload'' n"
    by (simp_all only: ow draft, simp_all add: event_record_def)
  have shape: "inputShape c = inputShape n" by (rule inputShape_cong) (use F G f in auto)
  have links: "validateEventLinks P c (previous_of es) = Inr c"
  proof -
    have p: "own ''prevEventDigest'' c = (if previous_of es = JNull then JStr (GENESIS_EVENT_DIGEST P) else own ''eventDigest'' (previous_of es))"
      using pd lastDigest pc F(11) by (cases "es = []") auto
    have q: "own ''seq'' c = JNum (if previous_of es = JNull then Fin 1 else num_add (js_number P (own ''seq'' (previous_of es))) (Fin 1))"
    proof (cases "es = []")
      case True
      then show ?thesis using F(3) by (simp add: previous_of_def)
    next
      case False
      then have "previous_of es \<noteq> JNull" "own ''seq'' (previous_of es) = jint (int (length es))" using pc by auto
      then show ?thesis using F(3) seq lastSeq by simp
    qed
    have "own ''prevEventDigest'' c \<noteq> JNum NaN" "own ''seq'' c \<noteq> JNum NaN" using F(3,11) by simp_all
    then have e: "js_eq (own ''prevEventDigest'' c) (if previous_of es = JNull then JStr (GENESIS_EVENT_DIGEST P) else own ''eventDigest'' (previous_of es))"
      "js_eq (own ''seq'' c) (JNum (if previous_of es = JNull then Fin 1 else num_add (js_number P (own ''seq'' (previous_of es))) (Fin 1)))"
      unfolding js_eq_def using p q by blast+
    have t: "(previous_of es \<noteq> JNull \<and> js_less P (own ''fencingToken'' c) (own ''fencingToken'' (previous_of es))) = False"
      using token f(12) F(9) by (cases "es = []") (auto simp: previous_of_def)
    show ?thesis unfolding validateEventLinks_def Let_def
      by (simp only: e t shape inp sh F(10,12) rbind_simps simp_thms if_False)
  qed
  have idv: "forR (\<lambda>key. validateId True (own key c)) [''attemptId'', ''childId'', ''nodeId'', ''swarmRunId''] = Inr ()"
    unfolding forR_eq_Inr using ids G by (auto simp: validateId_Inr)
  have plain: "assertPlainJson (own ''payload'' c) = Inr (own ''payload'' n)"
    using f(8) G(5) by (simp add: assertPlainJson_def jsonClone_def canonical_def)
  have ek: "exactKeys c EVENT_KEYS ''INVALID_EVENT_RECORD'' = Inr ()"
    using ks event_record_keys(3) unfolding exactKeys_Inr draft by simp
  have time: "num_isFinite (parseDate P (own ''timestamp'' c))"
    using now by (simp add: F parseDate_def)
  have ints: "validateInteger 1 (own ''seq'' c) = Inr ()" "validateInteger 0 (own ''revision'' c) = Inr ()" "validateInteger 1 (own ''fencingToken'' c) = Inr ()"
    unfolding validateInteger_Inr F using f small by (auto intro: exI [of _ "int (length es) + 1"])
  have names: "validateId False (own ''runId'' c) = Inr ()" "validateId False (own ''writerId'' c) = Inr ()" "validateEventId (own ''eventId'' c) = Inr ()"
    unfolding validateId_Inr validateEventId_Inr F using run f by auto
  have digs: "validateDigest x (own ''inputDigest'' c) = Inr ()" "validateDigest x (own ''prevEventDigest'' c) = Inr ()"
    "validateDigest x (own ''eventDigest'' c) = Inr ()" for x
    unfolding validateDigest_Inr F using sha256_digest [OF host] inp dig pd by auto
  have "validateEvent P c (j_runId J) (previous_of es) = Inr c"
    unfolding validateEvent_def ek names ints digs idv plain links rbind_simps using c(3) F(1,2,5) f(4) time by simp
  then show ?thesis using c F G f by auto
qed

section \<open>Leases\<close>

definition lease_fields :: "platform \<Rightarrow> string \<Rightarrow> jsval \<Rightarrow> bool" where
  "lease_fields P run v \<longleftrightarrow> own ''formatVersion'' v = jint 1 \<and> own ''runId'' v = JStr run
     \<and> own ''status'' v \<in> {JStr ''active'', JStr ''released''}
     \<and> (\<exists>w. own ''writerId'' v = JStr w \<and> re_ID w)
     \<and> (\<exists>n. own ''fencingToken'' v = jint n \<and> 1 \<le> n \<and> n \<le> MAX_SAFE_INTEGER)
     \<and> num_isFinite (parseDate P (own ''acquiredAt'' v)) \<and> num_isFinite (parseDate P (own ''expiresAt'' v))
     \<and> (own ''releasedAt'' v = JNull \<or> num_isFinite (parseDate P (own ''releasedAt'' v)))
     \<and> (own ''status'' v = JStr ''released'') = (own ''releasedAt'' v \<noteq> JNull)"

lemma validateLease_iff:
  "validateLease P L run = Inr r \<longleftrightarrow> r = L \<and> isObj L \<and> sort (keys L) = sort LEASE_KEYS \<and> lease_fields P run L \<and> re_ID run
     \<and> (\<exists>h. own ''digest'' L = JStr h \<and> re_DIGEST h \<and> sha256 P (leasePayload L) = Inr h)"
proof
  assume "validateLease P L run = Inr r"
  then obtain u1 u2 u3 u4 u5 h where o: "isObj L" "exactKeys L LEASE_KEYS ''INVALID_LEASE'' = Inr u1"
    "\<not> (own ''formatVersion'' L \<noteq> jint 1 \<or> own ''runId'' L \<noteq> JStr run \<or> own ''status'' L \<notin> {JStr ''active'', JStr ''released''})"
    "validateId False (own ''runId'' L) = Inr u2" "validateId False (own ''writerId'' L) = Inr u3" "validateInteger 1 (own ''fencingToken'' L) = Inr u4"
    "\<not> (\<not> num_isFinite (parseDate P (own ''acquiredAt'' L)) \<or> \<not> num_isFinite (parseDate P (own ''expiresAt'' L)))"
    "\<not> (own ''releasedAt'' L \<noteq> JNull \<and> \<not> num_isFinite (parseDate P (own ''releasedAt'' L)))"
    "(own ''status'' L = JStr ''released'') = (own ''releasedAt'' L \<noteq> JNull)"
    "validateDigest ''INVALID_LEASE'' (own ''digest'' L) = Inr u5" "sha256 P (leasePayload L) = Inr h" "own ''digest'' L = JStr h" "L = r"
    unfolding validateLease_def run_inv sum.inject by blast
  have run: "re_ID run" using o(3,4) by (auto simp: validateId_Inr)
  have w: "\<exists>w. own ''writerId'' L = JStr w \<and> re_ID w" using o(5) by (simp add: validateId_Inr)
  have t: "\<exists>n. own ''fencingToken'' L = jint n \<and> 1 \<le> n \<and> n \<le> MAX_SAFE_INTEGER" using o(6) unfolding validateInteger_Inr by fastforce
  have d: "\<exists>h. own ''digest'' L = JStr h \<and> re_DIGEST h \<and> sha256 P (leasePayload L) = Inr h" using o(10-12) unfolding validateDigest_Inr by fastforce
  show "r = L \<and> isObj L \<and> sort (keys L) = sort LEASE_KEYS \<and> lease_fields P run L \<and> re_ID run
     \<and> (\<exists>h. own ''digest'' L = JStr h \<and> re_DIGEST h \<and> sha256 P (leasePayload L) = Inr h)"
    using o(1,2,3,7,8,9,13) run w t d unfolding lease_fields_def exactKeys_Inr by blast
next
  assume a: "r = L \<and> isObj L \<and> sort (keys L) = sort LEASE_KEYS \<and> lease_fields P run L \<and> re_ID run
     \<and> (\<exists>h. own ''digest'' L = JStr h \<and> re_DIGEST h \<and> sha256 P (leasePayload L) = Inr h)"
  then obtain h where h: "own ''digest'' L = JStr h" "re_DIGEST h" "sha256 P (leasePayload L) = Inr h" by blast
  have lf: "lease_fields P run L" "re_ID run" using a by blast+
  have v: "exactKeys L LEASE_KEYS ''INVALID_LEASE'' = Inr ()" "validateId False (own ''runId'' L) = Inr ()" "validateId False (own ''writerId'' L) = Inr ()"
    "validateInteger 1 (own ''fencingToken'' L) = Inr ()" "validateDigest ''INVALID_LEASE'' (own ''digest'' L) = Inr ()"
    using a h lf unfolding exactKeys_Inr validateId_Inr validateInteger_Inr validateDigest_Inr lease_fields_def by fastforce+
  show "validateLease P L run = Inr r"
    using lf a h(1,3) unfolding validateLease_def v rbind_simps lease_fields_def by auto
qed

text \<open>The stored lease: it reads back as a valid lease.\<close>

definition stored_lease :: "platform \<Rightarrow> journal \<Rightarrow> disk \<Rightarrow> jsval \<Rightarrow> bool" where
  "stored_lease P J d L \<longleftrightarrow> (\<exists>t. d_lease d = Some t \<and> json_parse P t = Some L)
     \<and> validateLease P L (j_runId J) = Inr L \<and> canonical L \<and> distinct_names L"

lemma stored_lease_read: "stored_lease P J d L \<Longrightarrow> readLeaseUnsafe P J d = Inr L"
  by (auto simp: stored_lease_def readLeaseUnsafe_def readJson_def validateLease_iff)

lemma update_new: "k \<notin> fst ` set ps \<Longrightarrow> AList.update k v ps = ps @ [(k, v)]"
  by (induction ps) auto

lemma written_lease_accepted:
  assumes host: "host_ok P" and run: "re_ID (j_runId J)" and lf: "lease_fields P (j_runId J) (JObj ps)"
    and ks: "distinct (map fst ps)" "set (map fst ps) = set LEASE_KEYS - {''digest''}"
    and all: "\<forall>(k, x) \<in> set ps. canonical x \<and> distinct_names x"
    and w: "writeLeaseUnsafe P (JObj ps) d = (r, d')"
  shows "(\<exists>e. r = Inl e \<and> d' = d) \<or> (\<exists>L x t. r = Inr x \<and> d' = d\<lparr>d_lease := Some t\<rparr> \<and> stored_lease P J d' L
     \<and> (\<forall>k. k \<noteq> ''digest'' \<longrightarrow> own k L = own k (JObj ps)))"
proof (cases r)
  case (Inl e)
  then show ?thesis using w by (auto simp: writeLeaseUnsafe_def split: sum.splits prod.splits)
next
  case (Inr x)
  have nd: "''digest'' \<notin> fst ` set ps" using ks(2) by auto
  obtain h t where h: "sha256 P (JObj ps) = Inr h" "canonicalJson P (JObj (ps @ [(''digest'', JStr h)])) = Inr t"
    and d': "d' = d\<lparr>d_lease := Some (t @ NL)\<rparr>"
    using w Inr by (auto simp: writeLeaseUnsafe_def rbind_def update_new [OF nd] Let_def split: sum.splits prod.splits)
  obtain c where c: "json_parse P (t @ NL) = Some c" "isObj c" "canonical c" "distinct_names c"
    "\<forall>k. own k c = own k (JObj (ps @ [(''digest'', JStr h)]))" "sort (keys c) = sort (''digest'' # map fst ps)"
    "sha256 P (withoutKey c ''digest'') = Inr h"
    using stored_record [OF ks(1) all nd h host] by blast
  have ow: "own k c = own k (JObj ps)" if "k \<noteq> ''digest''" for k
    using c(5) that own_append [of k ps "[(''digest'', JStr h)]"]
    by (cases "k \<in> fst ` set ps") (auto simp: own.simps(1) map_of_eq_None_iff [symmetric] split: option.splits)
  have od: "own ''digest'' c = JStr h" using c(5) own_append(2) [OF nd] by simp
  have keys: "sort (keys c) = sort LEASE_KEYS"
    unfolding c(6) by (rule sort_eq_iff_set) (use ks nd in \<open>auto simp: LEASE_KEYS_def\<close>)
  have e: "own ''formatVersion'' c = own ''formatVersion'' (JObj ps)" "own ''runId'' c = own ''runId'' (JObj ps)"
    "own ''status'' c = own ''status'' (JObj ps)" "own ''writerId'' c = own ''writerId'' (JObj ps)"
    "own ''fencingToken'' c = own ''fencingToken'' (JObj ps)" "own ''acquiredAt'' c = own ''acquiredAt'' (JObj ps)"
    "own ''expiresAt'' c = own ''expiresAt'' (JObj ps)" "own ''releasedAt'' c = own ''releasedAt'' (JObj ps)"
    by (rule ow, simp)+
  have "lease_fields P (j_runId J) c" using lf unfolding lease_fields_def e .
  then have "validateLease P c (j_runId J) = Inr c"
    unfolding validateLease_iff using c(2,7) keys run od sha256_digest [OF host h(1)] by (simp add: leasePayload_def)
  then have "stored_lease P J d' c" using c(1,3,4) d' by (simp add: stored_lease_def)
  then show ?thesis using Inr d' ow by blast
qed

text \<open>Rewriting a field of a stored lease, as renewing and releasing do.\<close>

lemma stored_lease_payload:
  assumes "stored_lease P J d L"
  obtains qs where "leasePayload L = JObj qs" "distinct (map fst qs)" "set (map fst qs) = set LEASE_KEYS - {''digest''}"
    "\<forall>(k, x) \<in> set qs. canonical x \<and> distinct_names x" "\<forall>k. k \<noteq> ''digest'' \<longrightarrow> own k (JObj qs) = own k L"
proof -
  have v: "isObj L" "sort (keys L) = sort LEASE_KEYS" "canonical L" "distinct_names L"
    using assms unfolding stored_lease_def validateLease_iff by blast+
  obtain ps where L: "L = JObj ps" using v(1) by (auto simp: isObj_iff)
  have d: "distinct (map fst ps)" using v(4) L by simp
  have s: "set (map fst ps) = set LEASE_KEYS" using v(2) L by (metis keys.simps(1) set_sort)
  define qs where "qs = filter (\<lambda>(n, _). n \<noteq> ''digest'') ps"
  show thesis
  proof (rule that [of qs])
    show "leasePayload L = JObj qs" by (simp add: leasePayload_def withoutKey_def L qs_def)
    show "distinct (map fst qs)" using d by (auto simp: qs_def distinct_map intro: inj_on_subset)
    have "set (map fst qs) = set (map fst ps) - {''digest''}" by (force simp: qs_def)
    then show "set (map fst qs) = set LEASE_KEYS - {''digest''}" using s by simp
    show "\<forall>(k, x) \<in> set qs. canonical x \<and> distinct_names x"
      using canonical_members v(3,4) L by (fastforce simp: qs_def list_all_iff)
    show "\<forall>k. k \<noteq> ''digest'' \<longrightarrow> own k (JObj qs) = own k L"
      using withoutKey_own [of L _ "''digest''"] v(1) by (simp add: L qs_def withoutKey_def)
  qed
qed

lemma oset_fields:
  assumes "distinct (map fst qs)" "k \<in> set (map fst qs)" "\<forall>(k, x) \<in> set qs. canonical x \<and> distinct_names x"
  shows "\<exists>ps. oset k (JStr s) (JObj qs) = JObj ps \<and> distinct (map fst ps) \<and> set (map fst ps) = set (map fst qs)
     \<and> (\<forall>(k, x) \<in> set ps. canonical x \<and> distinct_names x) \<and> (\<forall>j. own j (JObj ps) = (if j = k then JStr s else own j (JObj qs)))"
proof -
  have "set (AList.update k (JStr s) qs) \<subseteq> insert (k, JStr s) (set qs)"
    by (induction qs) auto
  then have "\<forall>(k, x) \<in> set (AList.update k (JStr s) qs). canonical x \<and> distinct_names x" using assms(3) by fastforce
  moreover have "map fst (AList.update k (JStr s) qs) = map fst qs" using assms(2) by (simp add: update_keys)
  moreover have "own j (JObj (AList.update k (JStr s) qs)) = (if j = k then JStr s else own j (JObj qs))" for j
    using own_oset [of "JObj qs" j k "JStr s"] by simp
  ultimately show ?thesis using assms(1) by (intro exI [of _ "AList.update k (JStr s) qs"]) (simp only: oset.simps simp_thms)
qed

end
