(* ===== verification/Journal_Spec.thy ===== *)
theory Journal_Spec
  imports Journal_Proofs
begin

text \<open>
  The run directory as an abstract machine. Its state is the list of committed events and the
  lease, if any (\<open>dir_state\<close> relates a directory to it). The operations are shown, with a small
  logic of pre- and postconditions for directory operations, to implement the abstract steps:
  an append adds exactly one event for the holder of the lease or changes nothing, acquiring
  raises the fencing token, renewing and releasing rewrite the lease in place, and snapshots
  touch neither. \<open>run_dir\<close> is the closure of the empty directory under all operations.
\<close>

section \<open>Pre- and postconditions\<close>

definition valid_op :: "(disk \<Rightarrow> bool) \<Rightarrow> 'a op \<Rightarrow> ('a res \<Rightarrow> disk \<Rightarrow> bool) \<Rightarrow> bool" where
  "valid_op I m Q \<longleftrightarrow> (\<forall>d r d'. I d \<longrightarrow> m d = (r, d') \<longrightarrow> Q r d')"

lemma valid_opD: "valid_op I m Q \<Longrightarrow> I d \<Longrightarrow> m d = (r, d') \<Longrightarrow> Q r d'"
  by (simp add: valid_op_def)

lemma valid_olift: "(\<And>d. I d \<Longrightarrow> Q r d) \<Longrightarrow> valid_op I (olift r) Q"
  by (auto simp: valid_op_def olift_def)

lemma valid_obind:
  assumes "valid_op I m R" "\<And>e d. R (Inl e) d \<Longrightarrow> Q (Inl e) d" "\<And>x. valid_op (R (Inr x)) (f x) Q"
  shows "valid_op I (obind m f) Q"
  unfolding valid_op_def
proof (intro allI impI)
  fix d r d' assume I: "I d" and o: "obind m f d = (r, d')"
  obtain r1 d1 where m: "m d = (r1, d1)" by (cases "m d")
  then have R: "R r1 d1" using assms(1) I by (auto simp: valid_op_def)
  show "Q r d'"
  proof (cases r1)
    case (Inl e)
    then show ?thesis using o m R assms(2) by (auto simp: obind_def)
  next
    case (Inr x)
    then have "f x d1 = (r, d')" using o m by (simp add: obind_def)
    then show ?thesis using R Inr assms(3) by (auto simp: valid_op_def)
  qed
qed

text \<open>Binding a check that does not touch the directory.\<close>

lemma valid_check:
  assumes "\<And>e d. r = Inl e \<Longrightarrow> I d \<Longrightarrow> Q (Inl e) d" "\<And>x. r = Inr x \<Longrightarrow> valid_op I (f x) Q"
  shows "valid_op I (obind (olift r) f) Q"
  using assms by (cases r) (auto simp: valid_op_def obind_def olift_def)

lemma valid_read:
  assumes "\<And>e d. I d \<Longrightarrow> g d = Inl e \<Longrightarrow> Q (Inl e) d" "\<And>x. valid_op (\<lambda>d. I d \<and> g d = Inr x) (f x) Q"
  shows "valid_op I (obind (\<lambda>d. (g d, d)) f) Q"
  using assms by (auto simp: valid_op_def obind_def split: sum.splits)

lemma valid_pre: "valid_op I m Q \<Longrightarrow> (\<And>d. J d \<Longrightarrow> I d) \<Longrightarrow> valid_op J m Q"
  by (auto simp: valid_op_def)

lemma valid_if: "(c \<Longrightarrow> valid_op I m Q) \<Longrightarrow> (\<not> c \<Longrightarrow> valid_op I n Q) \<Longrightarrow> valid_op I (if c then m else n) Q"
  by simp

text \<open>
  While an operation waits for the lock, other processes may take and release the lock; what they
  commit is a step of its own.
\<close>

definition lock_only :: "call \<Rightarrow> bool" where
  "lock_only C \<longleftrightarrow> (\<forall>i d. (c_world C i d)\<lparr>d_lock := None\<rparr> = d\<lparr>d_lock := None\<rparr>)"

lemma createLock_frame:
  assumes "lock_only C" "createLock P C stale metadata n i u s d = (r, d')"
  shows "d'\<lparr>d_lock := None\<rparr> = d\<lparr>d_lock := None\<rparr>"
  using assms(2)
proof (induction n arbitrary: i u s d)
  case (Suc n)
  define w where "w = c_world C i d"
  have w: "w\<lparr>d_lock := None\<rparr> = d\<lparr>d_lock := None\<rparr>" using assms(1) by (simp add: lock_only_def w_def)
  have IH: "createLock P C stale metadata n i' u' s' d1 = (r, d') \<Longrightarrow> d1\<lparr>d_lock := None\<rparr> = w\<lparr>d_lock := None\<rparr>
      \<Longrightarrow> d'\<lparr>d_lock := None\<rparr> = d\<lparr>d_lock := None\<rparr>" for i' u' s' d1
    using Suc.IH w by metis
  show ?case
  proof (cases "d_lock w")
    case None
    then show ?thesis using Suc.prems w by (auto simp: w_def [symmetric] Let_def split: sum.splits)
  next
    case (Some t)
    show ?thesis
    proof (cases "json_parse P t")
      case None
      then show ?thesis using Suc.prems Some IH by (auto simp: w_def [symmetric] Let_def)
    next
      case (Some lock)
      show ?thesis
      proof (cases "stale i s lock w")
        case (Inl e)
        then show ?thesis using Suc.prems Some \<open>d_lock w = Some t\<close> w by (auto simp: w_def [symmetric] Let_def)
      next
        case (Inr bs)
        obtain b s' where bs: "bs = (b, s')" by (cases bs)
        have "createLock P C stale metadata n (Suc i) False s' (if b then w\<lparr>d_lock := None\<rparr> else w) = (r, d')"
          using Suc.prems Some \<open>d_lock w = Some t\<close> Inr by (cases b) (simp_all add: w_def [symmetric] Let_def bs)
        then show ?thesis using IH by (cases b) simp_all
      qed
    qed
  qed
qed simp

lemma valid_withLock:
  assumes C: "lock_only C" and I: "\<And>d. I (d\<lparr>d_lock := None\<rparr>) = I d" and Q: "\<And>r d. Q r (d\<lparr>d_lock := None\<rparr>) = Q r d"
    and fail: "\<And>e d. I d \<Longrightarrow> Q (Inl e) d" and m: "\<And>s. valid_op I (m s) Q"
  shows "valid_op I (withLock P J C stale s metadata m) Q"
  unfolding valid_op_def
proof (intro allI impI)
  fix d r d' assume "I d" and w: "withLock P J C stale s metadata m d = (r, d')"
  obtain r1 d1 where c: "createLock P C stale metadata (retries J) 0 False s d = (r1, d1)" by (metis surj_pair)
  have I1: "I d1" using createLock_frame [OF C c] I \<open>I d\<close> by metis
  show "Q r d'"
  proof (cases r1)
    case (Inl e)
    then show ?thesis using w c fail [OF I1] by (auto simp: withLock_def)
  next
    case (Inr s')
    obtain r2 d2 where "m s' d1 = (r2, d2)" by (metis surj_pair)
    then show ?thesis using w c Inr valid_opD [OF m I1] Q by (auto simp: withLock_def)
  qed
qed

section \<open>The abstract state\<close>

definition covers_events :: "jsval list \<Rightarrow> jsval \<Rightarrow> bool" where
  "covers_events es L \<longleftrightarrow> (\<exists>m. own ''fencingToken'' L = jint m \<and> (\<forall>e \<in> set es. \<exists>n. own ''fencingToken'' e = jint n \<and> n \<le> m))"

definition dir_state :: "platform \<Rightarrow> journal \<Rightarrow> disk \<Rightarrow> jsval list \<Rightarrow> jsval option \<Rightarrow> bool" where
  "dir_state P J d es lease \<longleftrightarrow> clean_journal P J d es \<and> list_all canonical es
     \<and> (case lease of None \<Rightarrow> d_lease d = None \<and> es = [] | Some L \<Rightarrow> stored_lease P J d L \<and> covers_events es L)"

lemma dir_state_lock [simp]: "dir_state P J (d\<lparr>d_lock := x\<rparr>) es lease = dir_state P J d es lease"
  by (cases lease) (simp_all add: dir_state_def clean_journal_def stored_lease_def)

lemma dir_state_snapshot [simp]: "dir_state P J (d\<lparr>d_snapshot := x\<rparr>) es lease = dir_state P J d es lease"
  by (cases lease) (simp_all add: dir_state_def clean_journal_def stored_lease_def)

lemma dir_recover: "dir_state P J d es lease \<Longrightarrow> recoverUnsafe P J b d = (Inr (recovered P es ''CLEAN'' 0), d)"
  by (simp add: dir_state_def clean_recover)

lemma dir_chain: "dir_state P J d es lease \<Longrightarrow> event_chain P (j_runId J) es"
  unfolding dir_state_def using clean_chain by blast

lemma dir_lease: "dir_state P J d es lease \<Longrightarrow> readLeaseUnsafe P J d = Inr (case lease of None \<Rightarrow> JNull | Some L \<Rightarrow> L)"
  by (cases lease) (simp_all add: dir_state_def stored_lease_read, simp add: readLeaseUnsafe_def readJson_def)

text \<open>The lease check of every writing operation.\<close>

definition holds_lease :: "platform \<Rightarrow> jsval option \<Rightarrow> lease_identity \<Rightarrow> jsnum \<Rightarrow> bool" where
  "holds_lease P lease i now \<longleftrightarrow> (\<exists>L. lease = Some L \<and> own ''status'' L = JStr ''active'' \<and> own ''writerId'' L = li_writerId i
     \<and> own ''fencingToken'' L = li_fencingToken i \<and> \<not> isExpired P L now)"

lemma assertCurrent_holds:
  assumes "dir_state P J d es lease"
  shows "assertCurrentLeaseUnsafe P J i now d = Inr L \<Longrightarrow> holds_lease P lease i now \<and> lease = Some L"
    "assertCurrentLeaseUnsafe P J i now d = Inl e \<Longrightarrow> e = Thrown ''RunStateError'' ''STALE_WRITER''"
  using dir_lease [OF assms]
  by (auto simp: assertCurrentLeaseUnsafe_def holds_lease_def js_eq_def failRun_def split: option.splits if_splits)

lemma chain_tail_token:
  assumes "covers_events es L" "own ''fencingToken'' L = jint n" "es \<noteq> []"
  shows "\<not> js_less P (jint n) (own ''fencingToken'' (last es))"
proof -
  obtain m k where "own ''fencingToken'' L = jint m" "own ''fencingToken'' (last es) = jint k" "k \<le> m"
    using assms(1) last_in_set [OF assms(3)] unfolding covers_events_def by blast
  then show ?thesis using assms(2) by auto
qed


section \<open>Appending\<close>

text \<open>What an append may do to the abstract state.\<close>

definition append_outcome :: "platform \<Rightarrow> journal \<Rightarrow> jsval list \<Rightarrow> jsval option \<Rightarrow> lease_identity \<Rightarrow> jsnum \<Rightarrow> jsval \<Rightarrow> jsval \<Rightarrow> jsval
    \<Rightarrow> append_result res \<Rightarrow> disk \<Rightarrow> bool" where
  "append_outcome P J es lease i now expectedSeq expectedDigest n r d' = (case r of
       Inl e \<Rightarrow> dir_state P J d' es lease
     | Inr x \<Rightarrow> holds_lease P lease i now
         \<and> (if ar_appended x then
              dir_state P J d' (es @ [ar_event x]) lease
            \<and> expectedSeq = jint (int (length es))
            \<and> expectedDigest = (if es = [] then JStr (GENESIS_EVENT_DIGEST P) else own ''eventDigest'' (last es))
            \<and> own ''eventId'' (ar_event x) = own ''eventId'' n \<and> own ''type'' (ar_event x) = own ''type'' n
            \<and> own ''payload'' (ar_event x) = own ''payload'' n \<and> own ''fencingToken'' (ar_event x) = li_fencingToken i
            \<and> ar_lastSeq x = jint (int (length es) + 1) \<and> ar_lastEventDigest x = own ''eventDigest'' (ar_event x)
            \<and> ar_status x = ''APPENDED''
            \<and> (\<forall>e \<in> set es. own ''eventId'' e \<noteq> own ''eventId'' n \<and> own ''type'' e \<notin> set (map JStr ROOT_TERMINAL_TYPES))
            else dir_state P J d' es lease \<and> ar_status x \<in> {''DUPLICATE_EVENT'', ''LATE_EVENT''}))"

lemma classify_new:
  assumes "classifyIncoming P es n = Inr c" "cl_status c = ''NEW_EVENT''" "own ''eventId'' n = JStr s"
  shows "\<forall>e \<in> set es. own ''eventId'' e \<noteq> own ''eventId'' n \<and> own ''type'' e \<notin> set (map JStr ROOT_TERMINAL_TYPES)"
proof -
  define f1 where "f1 = find (\<lambda>event. js_eq (own ''eventId'' event) (own ''eventId'' n)) es"
  define f2 where "f2 = find (\<lambda>event. own ''type'' event \<in> set (map JStr ROOT_TERMINAL_TYPES)) es"
  have "f1 = None" using assms(1,2) unfolding classifyIncoming_def f1_def [symmetric]
    by (cases f1) (auto simp: rbind_eq_Inr split: if_splits)
  moreover have "f2 = None" using assms(1,2) unfolding classifyIncoming_def f1_def [symmetric] f2_def [symmetric] calculation
    by (cases f2) (auto simp: rbind_eq_Inr)
  ultimately show ?thesis using assms(3) by (auto simp: f1_def f2_def find_None_iff)
qed

lemma classify_old: "classifyIncoming P es n = Inr c \<Longrightarrow> cl_status c \<in> {''NEW_EVENT'', ''DUPLICATE_EVENT'', ''LATE_EVENT''}"
  unfolding classifyIncoming_def by (auto simp: rbind_eq_Inr split: option.splits if_splits)

lemma toISOString_Inr: "toISOString P t = Inr s \<Longrightarrow> s = iso_string P t \<and> num_isFinite t \<and> (\<exists>a. t = Fin a \<and> \<bar>a\<bar> \<le> 8640000000000000)"
  by (cases t) (auto simp: toISOString_def split: if_splits)

lemma appendNew_outcome:
  assumes host: "host_ok P" and run: "re_ID (j_runId J)" and dir: "dir_state P J d es (Some L)"
    and n: "event_input_ok n" and i: "identity_ok i" and room: "int (length es) < MAX_SAFE_INTEGER"
    and tok: "own ''fencingToken'' L = li_fencingToken i"
    and new: "\<forall>e \<in> set es. own ''eventId'' e \<noteq> own ''eventId'' n"
    and a: "appendNew P J (recovered P es how bytes) n i now d = (r, d')"
  shows "(\<exists>e. r = Inl e \<and> d' = d) \<or> (\<exists>x. r = Inr x \<and> ar_appended x \<and> dir_state P J d' (es @ [ar_event x]) (Some L)
      \<and> own ''eventId'' (ar_event x) = own ''eventId'' n \<and> own ''type'' (ar_event x) = own ''type'' n
      \<and> own ''payload'' (ar_event x) = own ''payload'' n \<and> own ''fencingToken'' (ar_event x) = li_fencingToken i
      \<and> ar_lastSeq x = jint (int (length es) + 1) \<and> ar_lastEventDigest x = own ''eventDigest'' (ar_event x) \<and> ar_status x = ''APPENDED'')"
proof (cases r)
  case (Inl e)
  then show ?thesis using a by (auto simp: appendNew_def split: sum.splits prod.splits)
next
  case (Inr x)
  define st where "st = recovered P es how bytes"
  obtain ts inputDigest draft digest t copy seq where
    ts: "toISOString P now = Inr ts" and inp: "sha256 P (inputShape n) = Inr inputDigest"
    and seq: "seq = num_add (js_number P (rc_lastSeq st)) (Fin 1)"
    and draft: "draft = event_record (j_runId J) st n i ts seq inputDigest"
    and dig: "sha256 P (JObj draft) = Inr digest"
    and t: "canonicalJson P (JObj (draft @ [(''eventDigest'', JStr digest)])) = Inr t"
    and copy: "canonicalValue (JObj (draft @ [(''eventDigest'', JStr digest)])) = Inr copy"
    and x: "x = \<lparr> ar_status = ''APPENDED'', ar_appended = True, ar_reason = JNull, ar_terminalSeq = JNull, ar_event = copy,
                 ar_lastSeq = JNum seq, ar_lastEventDigest = JStr digest \<rparr>"
    and d': "d' = d\<lparr>d_events := Some ((case d_events d of None \<Rightarrow> [] | Some old \<Rightarrow> old) @ t @ NL)\<rparr>"
    using a Inr unfolding appendNew_def st_def [symmetric]
    by (auto simp: Let_def jsonClone_def rbind_eq_Inr split: sum.splits prod.splits if_splits)
  have now: "num_isFinite (date_parse P (iso_string P now))" "ts = iso_string P now" using toISOString_Inr [OF ts] host by (auto simp: host_ok_def)
  note chain = dir_chain [OF dir]
  have cov: "covers_events es L" "stored_lease P J d L" "clean_journal P J d es" "list_all canonical es" using dir by (auto simp: dir_state_def)
  obtain m where m: "li_fencingToken i = jint m" using i by (auto simp: identity_ok_def)
  have tok': "\<not> js_less P (li_fencingToken i) (own ''fencingToken'' (last es))" if "es \<noteq> []"
    using chain_tail_token [OF cov(1) _ that] tok m by metis
  obtain c where c: "json_parse P t = Some c" "validateEvent P c (j_runId J) (previous_of es) = Inr c"
    and cc: "canonicalValue (JObj (draft @ [(''eventDigest'', JStr digest)])) = Inr c"
    and f: "own ''eventId'' c = own ''eventId'' n" "own ''type'' c = own ''type'' n" "own ''payload'' c = own ''payload'' n"
      "own ''fencingToken'' c = li_fencingToken i" "own ''seq'' c = jint (int (length es) + 1)" "own ''eventDigest'' c = JStr digest"
    using written_event_accepted [OF host run chain n i now(1) st_def room tok' inp draft [unfolded now(2) seq] dig t] by blast
  have ce: "c = copy" using cc copy by simp
  have stc: "stringify P c = Some t" using t cc by (auto simp: canonicalJson_def json_text_def split: option.splits)
  have "nl \<notin> set t" using stringify_one_line [of P c] host stc by (auto simp: host_ok_def)
  moreover have "t \<noteq> []" using stc validateEvent_facts(2) [OF c(2)] by (auto simp: isObj_iff)
  moreover have "own ''eventId'' c \<notin> own ''eventId'' ` set es" using new f(1) by auto
  ultimately have "clean_journal P J d' (es @ [c])"
    unfolding d' using clean_append [OF cov(3), of t c] c
    by (simp add: recoverLine_def parseCompleteLine_def addEvent_def)
  moreover have "covers_events (es @ [c]) L" using cov(1) tok m f(4) by (auto simp: covers_events_def)
  moreover have "stored_lease P J d' L" using cov(2) by (simp add: stored_lease_def d')
  moreover have "list_all canonical (es @ [c])" using cov(4) canonicalValue_canonical [OF cc] by simp
  ultimately have "dir_state P J d' (es @ [c]) (Some L)" by (simp add: dir_state_def)
  moreover have "JNum seq = jint (int (length es) + 1)"
  proof -
    have "rc_lastSeq st = jint (int (length es))"
      using recoverUnsafe_chain [OF dir_recover [OF dir]] by (simp add: st_def recovered_def)
    moreover have "num_add (num_of_int (int (length es))) (num_of_int 1) = num_of_int (int (length es) + 1)"
      by (rule num_add_ints) (use room in \<open>simp add: MAX_SAFE_INTEGER_def\<close>)
    ultimately show ?thesis by (simp add: seq)
  qed
  ultimately show ?thesis using Inr x f ce by auto
qed

lemma recovered_fields:
  assumes "event_chain P run es"
  shows "rc_events (recovered P es how bytes) = es" "rc_lastSeq (recovered P es how bytes) = jint (int (length es))"
    "rc_lastEventDigest (recovered P es how bytes) = (if es = [] then JStr (GENESIS_EVENT_DIGEST P) else own ''eventDigest'' (last es))"
proof -
  note pc = previous_of_chain [OF assms]
  show "rc_events (recovered P es how bytes) = es" by (simp add: recovered_def)
  show "rc_lastSeq (recovered P es how bytes) = jint (int (length es))"
    using pc by (cases "es = []") (auto simp: recovered_def previous_of_def)
  show "rc_lastEventDigest (recovered P es how bytes) = (if es = [] then JStr (GENESIS_EVENT_DIGEST P) else own ''eventDigest'' (last es))"
  proof (cases "es = []")
    case True
    then show ?thesis by (simp add: recovered_def previous_of_def)
  next
    case False
    then obtain x where "own ''eventDigest'' (previous_of es) = JStr x" using pc by auto
    then show ?thesis using False by (simp add: recovered_def previous_of_def)
  qed
qed

lemma appendUnsafe_outcome:
  assumes host: "host_ok P" and run: "re_ID (j_runId J)" and dir: "dir_state P J d es lease"
    and n: "event_input_ok n" and i: "identity_ok i" and room: "int (length es) < MAX_SAFE_INTEGER"
    and a: "appendUnsafe P J expectedSeq expectedDigest n i now d = (r, d')"
  shows "append_outcome P J es lease i now expectedSeq expectedDigest n r d'"
proof (cases "assertCurrentLeaseUnsafe P J i now d")
  case (Inl e)
  then have "r = Inl e" "d' = d" using a by (simp_all add: appendUnsafe_def obind_def)
  then show ?thesis using dir by (simp add: append_outcome_def)
next
  case (Inr L)
  define st where "st = recovered P es ''CLEAN'' 0"
  have h: "holds_lease P lease i now" "lease = Some L" using assertCurrent_holds(1) [OF dir Inr] by blast+
  have tok: "own ''fencingToken'' L = li_fencingToken i" using h by (auto simp: holds_lease_def)
  have st: "rc_lastSeq st = jint (int (length es))" "rc_events st = es"
    "rc_lastEventDigest st = (if es = [] then JStr (GENESIS_EVENT_DIGEST P) else own ''eventDigest'' (last es))"
    unfolding st_def by (rule recovered_fields [OF dir_chain [OF dir]])+
  have rec: "recoverUnsafe P J True d = (Inr st, d)" using dir_recover [OF dir] by (simp add: st_def)
  show ?thesis
  proof (cases "classifyIncoming P es n")
    case (Inl e)
    then have "r = Inl e" "d' = d" using a rec \<open>assertCurrentLeaseUnsafe P J i now d = Inr L\<close> st(2)
      by (simp_all add: appendUnsafe_def obind_def olift_def)
    then show ?thesis using dir by (simp add: append_outcome_def)
  next
    case (Inr c)
    have a': "(if cl_status c \<noteq> ''NEW_EVENT'' then
       olift (rbind (if truthy (cl_event c) then jsonClone (cl_event c) else Inr JNull) (\<lambda>event.
         Inr \<lparr> ar_status = cl_status c, ar_appended = False, ar_reason = cl_reason c,
               ar_terminalSeq = coalesce (cl_terminalSeq c) JNull, ar_event = event,
               ar_lastSeq = rc_lastSeq st, ar_lastEventDigest = rc_lastEventDigest st \<rparr>))
     else if \<not> js_eq (rc_lastSeq st) expectedSeq \<or> \<not> js_eq (rc_lastEventDigest st) expectedDigest
     then olift (failRun ''JOURNAL_CAS_MISMATCH'')
     else appendNew P J st n i now) d = (r, d')"
      using a rec \<open>assertCurrentLeaseUnsafe P J i now d = Inr L\<close> st(2) Inr
      by (simp add: appendUnsafe_def obind_def olift_def)
    show ?thesis
    proof (cases "cl_status c = ''NEW_EVENT''")
      case False
      then show ?thesis using a' dir h(1) classify_old [OF Inr]
        by (auto simp: append_outcome_def olift_def rbind_def split: sum.splits)
    next
      case True
      obtain eid where eid: "own ''eventId'' n = JStr eid" using n by (auto simp: event_input_ok_def)
      note new = classify_new [OF Inr True eid]
      show ?thesis
      proof (cases "js_eq (rc_lastSeq st) expectedSeq \<and> js_eq (rc_lastEventDigest st) expectedDigest")
        case False
        then show ?thesis using a' dir h(1) True by (auto simp: append_outcome_def olift_def failRun_def)
      next
        case cas: True
        then have ap: "appendNew P J (recovered P es ''CLEAN'' 0) n i now d = (r, d')" using a' True by (simp add: st_def)
        have e: "expectedSeq = jint (int (length es))" "expectedDigest = (if es = [] then JStr (GENESIS_EVENT_DIGEST P) else own ''eventDigest'' (last es))"
          using cas st by (auto simp: js_eq_def)
        from appendNew_outcome [OF host run dir [unfolded h(2)] n i room tok _ ap] new
        show ?thesis using dir h e new by (fastforce simp: append_outcome_def)
      qed
    qed
  qed
qed

definition append_room :: "jsval list \<Rightarrow> bool" where
  "append_room es \<longleftrightarrow> int (length es) < MAX_SAFE_INTEGER"

lemma appendEvent_valid:
  assumes host: "host_ok P" and run: "re_ID (j_runId J)" and C: "lock_only C" and room: "append_room es"
    and names: "distinct_names (own ''payload'' (own ''event'' input))"
  shows "valid_op (\<lambda>d. dir_state P J d es lease) (appendEvent P J C input)
    (\<lambda>r d'. case r of Inl e \<Rightarrow> dir_state P J d' es lease
      | Inr x \<Rightarrow> \<exists>i n. leaseIdentity (own ''lease'' input) = Inr i \<and> normalizeEventInput (own ''event'' input) = Inr n
          \<and> append_outcome P J es lease i (c_at C) (own ''expectedSeq'' input) (own ''expectedDigest'' input) n (Inr x) d')"
  unfolding appendEvent_def
proof (rule valid_check, simp, rule valid_check, simp, rule valid_check, simp, rule valid_check, simp, rule valid_check, simp)
  fix i u n t meta
  assume "rbind (prop_of ''lease'' input) leaseIdentity = Inr i" and n: "normalizeEventInput (own ''event'' input) = Inr n"
  then have i: "leaseIdentity (own ''lease'' input) = Inr i" by (auto simp: rbind_eq_Inr)
  let ?Q = "\<lambda>r d'. case r of Inl e \<Rightarrow> dir_state P J d' es lease
      | Inr x \<Rightarrow> \<exists>i n. leaseIdentity (own ''lease'' input) = Inr i \<and> normalizeEventInput (own ''event'' input) = Inr n
          \<and> append_outcome P J es lease i (c_at C) (own ''expectedSeq'' input) (own ''expectedDigest'' input) n (Inr x) d'"
  show "valid_op (\<lambda>d. dir_state P J d es lease)
     (withLock P J C (staleLockForLease P i) () meta (\<lambda>_. obind (olift (instant (c_at C))) (\<lambda>now.
       appendUnsafe P J (own ''expectedSeq'' input) (own ''expectedDigest'' input) n i now))) ?Q"
  proof (rule valid_withLock [OF C])
    show "dir_state P J (d\<lparr>d_lock := None\<rparr>) es lease = dir_state P J d es lease" for d by simp
    show "?Q r (d\<lparr>d_lock := None\<rparr>) = ?Q r d" for r d by (cases r) (simp_all add: append_outcome_def)
    show "dir_state P J d es lease \<Longrightarrow> ?Q (Inl e) d" for e d by simp
    show "valid_op (\<lambda>d. dir_state P J d es lease) (obind (olift (instant (c_at C))) (\<lambda>now.
       appendUnsafe P J (own ''expectedSeq'' input) (own ''expectedDigest'' input) n i now)) ?Q" for s
    proof (rule valid_check)
      fix now assume now: "instant (c_at C) = Inr now"
      then have "now = c_at C" by (auto simp: instant_def split: if_splits)
      show "valid_op (\<lambda>d. dir_state P J d es lease) (appendUnsafe P J (own ''expectedSeq'' input) (own ''expectedDigest'' input) n i now) ?Q"
        unfolding valid_op_def
      proof (intro allI impI)
        fix d r d' assume d: "dir_state P J d es lease"
          and a: "appendUnsafe P J (own ''expectedSeq'' input) (own ''expectedDigest'' input) n i now d = (r, d')"
        have out: "append_outcome P J es lease i now (own ''expectedSeq'' input) (own ''expectedDigest'' input) n r d'"
          by (rule appendUnsafe_outcome [OF host run d normalizeEventInput_ok [OF n names] leaseIdentity_ok [OF i] _ a])
            (use room in \<open>simp add: append_room_def\<close>)
        show "?Q r d'"
        proof (cases r)
          case (Inl e)
          then show ?thesis using out by (simp add: append_outcome_def)
        next
          case (Inr x)
          then show ?thesis using out i n \<open>now = c_at C\<close> by auto
        qed
      qed
    qed simp
  qed
qed

section \<open>Leases\<close>

definition lease_token :: "jsval option \<Rightarrow> int" where
  "lease_token lease = (case lease of None \<Rightarrow> 0 | Some L \<Rightarrow> (case own ''fencingToken'' L of JNum (Fin a) \<Rightarrow> \<lfloor>a\<rfloor> | _ \<Rightarrow> 0))"

lemma stored_lease_fields: "stored_lease P J d L \<Longrightarrow> lease_fields P (j_runId J) L \<and> re_ID (j_runId J)"
  by (auto simp: stored_lease_def validateLease_iff)

lemma stored_lease_token: "stored_lease P J d L \<Longrightarrow> own ''fencingToken'' L = jint (lease_token (Some L)) \<and> 1 \<le> lease_token (Some L)
    \<and> lease_token (Some L) \<le> MAX_SAFE_INTEGER"
  using stored_lease_fields [of P J d L] by (auto simp: lease_fields_def lease_token_def)

lemma dir_state_new_lease:
  assumes "clean_journal P J d es" "list_all canonical es" "stored_lease P J (d\<lparr>d_lease := t\<rparr>) L'" "covers_events es L'"
  shows "dir_state P J (d\<lparr>d_lease := t\<rparr>) es (Some L')"
  using assms by (simp add: dir_state_def clean_journal_def)

lemma covers_events_mono:
  "covers_events es L \<Longrightarrow> own ''fencingToken'' L = jint m \<Longrightarrow> own ''fencingToken'' L' = jint m' \<Longrightarrow> m \<le> m' \<Longrightarrow> covers_events es L'"
  by (fastforce simp: covers_events_def)

text \<open>What acquiring may do: hand back the caller's live lease, or replace a dead one with the next token.\<close>

definition acquire_outcome :: "platform \<Rightarrow> journal \<Rightarrow> jsval list \<Rightarrow> jsval option \<Rightarrow> jsval \<Rightarrow> jsnum \<Rightarrow> jsval res \<Rightarrow> disk \<Rightarrow> bool" where
  "acquire_outcome P J es lease w now r d' = (case r of Inl e \<Rightarrow> dir_state P J d' es lease
     | Inr x \<Rightarrow>
        (\<exists>L. lease = Some L \<and> own ''status'' L = JStr ''active'' \<and> \<not> isExpired P L now \<and> own ''writerId'' L = w \<and> x = L
           \<and> dir_state P J d' es lease)
      \<or> (\<not> (\<exists>L. lease = Some L \<and> own ''status'' L = JStr ''active'' \<and> \<not> isExpired P L now)
         \<and> (\<exists>L'. dir_state P J d' es (Some L') \<and> lease_token (Some L') = lease_token lease + 1
              \<and> own ''status'' L' = JStr ''active'' \<and> own ''writerId'' L' = w)))"

lemma new_lease_accepted:
  assumes host: "host_ok P" and run: "re_ID (j_runId J)" and w: "w = JStr ws" "re_ID ws"
    and a: "toISOString P now = Inr acq" and e: "toISOString P t = Inr ex" and n: "0 \<le> n" "n < MAX_SAFE_INTEGER"
    and wr: "writeLeaseUnsafe P (lease_value (j_runId J) w (num_of_int (n + 1)) acq ex) d = (r, d')"
  shows "(\<exists>e. r = Inl e \<and> d' = d) \<or> (\<exists>L x t. r = Inr x \<and> d' = d\<lparr>d_lease := Some t\<rparr> \<and> stored_lease P J d' L
     \<and> lease_token (Some L) = n + 1 \<and> own ''status'' L = JStr ''active'' \<and> own ''writerId'' L = w)"
proof -
  obtain ps where ps: "lease_value (j_runId J) w (num_of_int (n + 1)) acq ex = JObj ps" by (simp add: lease_value_def)
  have f: "own ''formatVersion'' (JObj ps) = jint 1" "own ''runId'' (JObj ps) = JStr (j_runId J)" "own ''status'' (JObj ps) = JStr ''active''"
    "own ''writerId'' (JObj ps) = w" "own ''fencingToken'' (JObj ps) = jint (n + 1)" "own ''acquiredAt'' (JObj ps) = JStr acq"
    "own ''expiresAt'' (JObj ps) = JStr ex" "own ''releasedAt'' (JObj ps) = JNull"
    unfolding ps [symmetric] by (simp_all add: lease_value_def)
  have dates: "num_isFinite (parseDate P (JStr acq))" "num_isFinite (parseDate P (JStr ex))"
    using toISOString_Inr [OF a] toISOString_Inr [OF e] host by (auto simp: parseDate_def host_ok_def)
  have lf: "lease_fields P (j_runId J) (JObj ps)"
    unfolding lease_fields_def f using w n dates by (auto intro: exI [of _ "n + 1"])
  have ks: "distinct (map fst ps)" "set (map fst ps) = set LEASE_KEYS - {''digest''}" "\<forall>(k, x) \<in> set ps. canonical x \<and> distinct_names x"
    using ps w(1) by (auto simp: lease_value_def LEASE_KEYS_def)
  have tok: "lease_token (Some L) = n + 1" if "own ''fencingToken'' L = jint (n + 1)" for L
    unfolding lease_token_def option.case that by (simp del: of_int_add)
  have g: "own ''status'' L = JStr ''active''" "own ''writerId'' L = w" "own ''fencingToken'' L = jint (n + 1)"
    if "\<forall>k. k \<noteq> ''digest'' \<longrightarrow> own k L = own k (JObj ps)" for L
  proof -
    have "own ''status'' L = own ''status'' (JObj ps)" "own ''writerId'' L = own ''writerId'' (JObj ps)" "own ''fencingToken'' L = own ''fencingToken'' (JObj ps)"
      using that by simp_all
    then show "own ''status'' L = JStr ''active''" "own ''writerId'' L = w" "own ''fencingToken'' L = jint (n + 1)" unfolding f by blast+
  qed
  from written_lease_accepted [OF host run lf ks wr [unfolded ps]] show ?thesis
  proof
    assume "\<exists>L x t. r = Inr x \<and> d' = d\<lparr>d_lease := Some t\<rparr> \<and> stored_lease P J d' L \<and> (\<forall>k. k \<noteq> ''digest'' \<longrightarrow> own k L = own k (JObj ps))"
    then obtain L x t where L: "r = Inr x" "d' = d\<lparr>d_lease := Some t\<rparr>" "stored_lease P J d' L"
      "\<forall>k. k \<noteq> ''digest'' \<longrightarrow> own k L = own k (JObj ps)" by blast
    show ?thesis using L(1-3) g [OF L(4)] tok by (intro disjI2 exI conjI)
  qed blast
qed

lemma obind_read: "g d = Inr x \<Longrightarrow> obind (\<lambda>d. (g d, d)) f d = f x d"
  by (simp add: obind_def)

lemma acquireUnsafe_outcome:
  assumes host: "host_ok P" and run: "re_ID (j_runId J)" and w: "validateId False w = Inr u"
    and room: "lease_token lease < MAX_SAFE_INTEGER" and dir: "dir_state P J d es lease"
    and a: "acquireUnsafe P J w ttl proof' now proved d = (r, d')"
  shows "acquire_outcome P J es lease w now r d'"
proof -
  obtain ws where ws: "w = JStr ws" "re_ID ws" using w by (auto simp: validateId_Inr)
  define cur where "cur = (case lease of None \<Rightarrow> JNull | Some L \<Rightarrow> L)"
  have rd: "readLeaseUnsafe P J d = Inr cur" using dir_lease [OF dir] by (simp add: cur_def)
  have clean: "clean_journal P J d es" "list_all canonical es" using dir by (simp_all add: dir_state_def)
  have sl: "stored_lease P J d L" "covers_events es L" if "lease = Some L" for L using dir that by (simp_all add: dir_state_def)
  have notnull: "L \<noteq> JNull" if "lease = Some L" for L using sl(1) [OF that] by (auto simp: stored_lease_def validateLease_iff)
  define live where "live \<longleftrightarrow> cur \<noteq> JNull \<and> own ''status'' cur = JStr ''active'' \<and> \<not> isExpired P cur now"
  have live_iff: "live \<longleftrightarrow> (\<exists>L. lease = Some L \<and> own ''status'' L = JStr ''active'' \<and> \<not> isExpired P L now)"
    using notnull by (cases lease) (auto simp: live_def cur_def)
  show ?thesis
  proof (cases live)
    case True
    then obtain L where L: "lease = Some L" "own ''status'' L = JStr ''active''" "\<not> isExpired P L now" "cur = L"
      using live_iff by (auto simp: cur_def)
    have "jsonClone L = Inr L" using sl(1) [OF L(1)] by (simp add: stored_lease_def jsonClone_def canonical_def)
    then have "(r, d') = (if js_eq (own ''writerId'' L) w then Inr L else failRun ''LEASE_HELD'', d)"
      using a rd True L by (simp add: acquireUnsafe_def obind_def olift_def live_def split: if_splits)
    then show ?thesis using L dir by (auto simp: acquire_outcome_def js_eq_def failRun_def split: if_splits)
  next
    case False
    have "js_number P (coalesce (own ''fencingToken'' cur) (jint 0)) = num_of_int (lease_token lease) \<and> 0 \<le> lease_token lease"
    proof (cases lease)
      case None
      then show ?thesis by (simp add: cur_def lease_token_def)
    next
      case (Some L)
      have "own ''fencingToken'' cur = jint (lease_token lease)" "1 \<le> lease_token lease"
        using stored_lease_token [OF sl(1) [OF Some]] unfolding cur_def Some option.case by blast+
      then show ?thesis by simp
    qed
    then have tokn: "js_number P (coalesce (own ''fencingToken'' cur) (jint 0)) = num_of_int (lease_token lease)" "0 \<le> lease_token lease" by blast+
    have add: "num_add (num_of_int (lease_token lease)) (num_of_int 1) = num_of_int (lease_token lease + 1)"
      by (rule num_add_ints) (use room tokn(2) in \<open>simp add: MAX_SAFE_INTEGER_def\<close>)
    have add1: "num_add (num_of_int (lease_token lease)) (Fin 1) = num_of_int (lease_token lease + 1)" using add by simp
    have a': "obind (olift (if cur \<noteq> JNull \<and> own ''status'' cur = JStr ''active'' \<and> isExpired P cur now
                     then rbind (proveDead proof' proved cur) (\<lambda>(dead, _). Inr dead) else Inr True)) (\<lambda>dead.
       if \<not> dead then olift (failRun ''LEASE_RECLAIM_PROOF_REQUIRED'') else
       obind (olift (toISOString P now)) (\<lambda>acquiredAt.
       obind (olift (toISOString P (num_add now (js_number P ttl)))) (\<lambda>expiresAt.
       writeLeaseUnsafe P (lease_value (j_runId J) w (num_of_int (lease_token lease + 1)) acquiredAt expiresAt)))) d = (r, d')"
      using a unfolding acquireUnsafe_def obind_read [of "readLeaseUnsafe P J", OF rd] if_not_P [OF False [unfolded live_def]] tokn(1) add1 .
    show ?thesis
    proof (cases r)
      case (Inl e)
      have "d' = d" using a' Inl
        by (auto simp: obind_def olift_def writeLeaseUnsafe_def failRun_def split: sum.splits if_splits prod.splits)
      then show ?thesis using Inl dir by (simp add: acquire_outcome_def)
    next
      case (Inr x)
      obtain acq ex where t: "toISOString P now = Inr acq" "toISOString P (num_add now (js_number P ttl)) = Inr ex"
        and wr: "writeLeaseUnsafe P (lease_value (j_runId J) w (num_of_int (lease_token lease + 1)) acq ex) d = (r, d')"
        using a' Inr by (auto simp: obind_def olift_def failRun_def split: sum.splits if_splits prod.splits)
      obtain L' t' where L': "d' = d\<lparr>d_lease := Some t'\<rparr>" "stored_lease P J d' L'"
        "lease_token (Some L') = lease_token lease + 1" "own ''status'' L' = JStr ''active''" "own ''writerId'' L' = w"
        using new_lease_accepted [OF host run ws t tokn(2) room wr] Inr by blast
      have "covers_events es L'"
      proof (cases lease)
        case None
        then have "es = []" using dir by (simp add: dir_state_def)
        then show ?thesis using stored_lease_token [OF L'(2)] by (auto simp: covers_events_def)
      next
        case (Some L)
        show ?thesis
          by (rule covers_events_mono [OF sl(2) [OF Some] conjunct1 [OF stored_lease_token [OF sl(1) [OF Some]]]
              conjunct1 [OF stored_lease_token [OF L'(2)]]]) (use L'(3) Some in simp)
      qed
      then have "dir_state P J d' es (Some L')" using dir_state_new_lease [OF clean] L'(1,2) by simp
      then show ?thesis using Inr L' False live_iff by (auto simp: acquire_outcome_def)
    qed
  qed
qed

lemma acquire_valid:
  assumes host: "host_ok P" and run: "re_ID (j_runId J)" and C: "lock_only C" and room: "lease_token lease < MAX_SAFE_INTEGER"
  shows "valid_op (\<lambda>d. dir_state P J d es lease) (acquireWriterLease P J C proof' input)
     (acquire_outcome P J es lease (own ''writerId'' input) (c_at C))"
  unfolding acquireWriterLease_def Let_def
proof (rule valid_check, simp add: acquire_outcome_def, rule valid_check, simp add: acquire_outcome_def, rule valid_check,
    simp add: acquire_outcome_def, rule valid_check, simp add: acquire_outcome_def)
  fix u v t s assume "rbind (prop_of ''writerId'' input) (validateId False) = Inr u"
  then have w: "validateId False (own ''writerId'' input) = Inr u" by (auto simp: rbind_eq_Inr)
  show "valid_op (\<lambda>d. dir_state P J d es lease) (withLock P J C (staleLockForAcquire P J C proof') JNull
        (JObj [(''fencingToken'', jint 0), (''purpose'', JStr ''acquire-lease''), (''writerId'', own ''writerId'' input), (''createdAt'', JStr s)])
        (\<lambda>provedToken. obind (olift (instant (c_at C))) (\<lambda>now.
           acquireUnsafe P J (own ''writerId'' input) (coalesce (own ''ttlMs'' input) (jint 30000)) proof' now provedToken)))
     (acquire_outcome P J es lease (own ''writerId'' input) (c_at C))"
  proof (rule valid_withLock [OF C])
    show "acquire_outcome P J es lease (own ''writerId'' input) (c_at C) r (d\<lparr>d_lock := None\<rparr>)
        = acquire_outcome P J es lease (own ''writerId'' input) (c_at C) r d" for r d
      by (cases r) (simp_all add: acquire_outcome_def)
    show "valid_op (\<lambda>d. dir_state P J d es lease) (obind (olift (instant (c_at C))) (\<lambda>now.
           acquireUnsafe P J (own ''writerId'' input) (coalesce (own ''ttlMs'' input) (jint 30000)) proof' now pt))
       (acquire_outcome P J es lease (own ''writerId'' input) (c_at C))" for pt
    proof (rule valid_check)
      fix now assume "instant (c_at C) = Inr now"
      then have now: "now = c_at C" by (auto simp: instant_def split: if_splits)
      show "valid_op (\<lambda>d. dir_state P J d es lease) (acquireUnsafe P J (own ''writerId'' input) (coalesce (own ''ttlMs'' input) (jint 30000)) proof' now pt)
         (acquire_outcome P J es lease (own ''writerId'' input) (c_at C))"
        unfolding valid_op_def now using acquireUnsafe_outcome [OF host run w room] by blast
    qed (simp add: acquire_outcome_def)
  qed (simp_all add: acquire_outcome_def)
qed


text \<open>Renewing and releasing rewrite fields of the held lease and keep its token and writer.\<close>

lemma rewrite_lease:
  assumes host: "host_ok P" and run: "re_ID (j_runId J)" and dir: "dir_state P J d es (Some L)"
    and v: "v = JObj ps" "distinct (map fst ps)" "set (map fst ps) = set LEASE_KEYS - {''digest''}"
      "\<forall>(k, x) \<in> set ps. canonical x \<and> distinct_names x"
    and lf: "lease_fields P (j_runId J) v" and tok: "own ''fencingToken'' v = own ''fencingToken'' L" and wr: "own ''writerId'' v = own ''writerId'' L"
    and w: "writeLeaseUnsafe P v d = (r, d')"
  shows "(\<exists>e. r = Inl e \<and> dir_state P J d' es (Some L)) \<or>
     (\<exists>x L'. r = Inr x \<and> dir_state P J d' es (Some L') \<and> lease_token (Some L') = lease_token (Some L)
        \<and> own ''writerId'' L' = own ''writerId'' L \<and> own ''status'' L' = own ''status'' v)"
proof -
  have clean: "clean_journal P J d es" "list_all canonical es" and cov: "covers_events es L" and sl: "stored_lease P J d L" using dir by (simp_all add: dir_state_def)
  from written_lease_accepted [OF host run lf [unfolded v(1)] v(2-4) w [unfolded v(1)]] show ?thesis
  proof
    assume "\<exists>L' x t. r = Inr x \<and> d' = d\<lparr>d_lease := Some t\<rparr> \<and> stored_lease P J d' L' \<and> (\<forall>k. k \<noteq> ''digest'' \<longrightarrow> own k L' = own k (JObj ps))"
    then obtain L' x t where L': "r = Inr x" "d' = d\<lparr>d_lease := Some t\<rparr>" "stored_lease P J d' L'"
      and ow: "\<forall>k. k \<noteq> ''digest'' \<longrightarrow> own k L' = own k (JObj ps)" by blast
    have f: "own ''fencingToken'' L' = own ''fencingToken'' L" "own ''writerId'' L' = own ''writerId'' L" "own ''status'' L' = own ''status'' v"
      using ow tok wr unfolding v(1) by simp_all
    have cov': "covers_events es L'" using cov f(1) by (simp add: covers_events_def)
    have "dir_state P J d' es (Some L')" using dir_state_new_lease [OF clean _ cov'] L'(2,3) by simp
    then show ?thesis using L'(1) f by (auto simp: lease_token_def)
  qed (use dir in blast)
qed

definition rewrite_outcome :: "platform \<Rightarrow> journal \<Rightarrow> jsval list \<Rightarrow> jsval option \<Rightarrow> lease_identity res \<Rightarrow> jsnum \<Rightarrow> string \<Rightarrow> jsval res \<Rightarrow> disk \<Rightarrow> bool" where
  "rewrite_outcome P J es lease i now status r d' = (case r of Inl e \<Rightarrow> dir_state P J d' es lease
     | Inr x \<Rightarrow> (\<exists>j L L'. i = Inr j \<and> holds_lease P lease j now \<and> lease = Some L \<and> dir_state P J d' es (Some L')
          \<and> lease_token (Some L') = lease_token lease \<and> own ''writerId'' L' = own ''writerId'' L \<and> own ''status'' L' = JStr status))"

lemma rewrite_outcome_lock [simp]: "rewrite_outcome P J es lease i now status r (d\<lparr>d_lock := x\<rparr>) = rewrite_outcome P J es lease i now status r d"
  by (cases r) (simp_all add: rewrite_outcome_def)

lemma rewrite_step:
  assumes host: "host_ok P" and run: "re_ID (j_runId J)"
    and step: "\<And>L d. lease = Some L \<Longrightarrow> holds_lease P lease i now \<Longrightarrow> stored_lease P J d L \<Longrightarrow>
        \<exists>ps. f L = JObj ps \<and> distinct (map fst ps) \<and> set (map fst ps) = set LEASE_KEYS - {''digest''}
          \<and> (\<forall>(k, x) \<in> set ps. canonical x \<and> distinct_names x) \<and> lease_fields P (j_runId J) (f L)
          \<and> own ''fencingToken'' (f L) = own ''fencingToken'' L \<and> own ''writerId'' (f L) = own ''writerId'' L \<and> own ''status'' (f L) = JStr status"
  shows "valid_op (\<lambda>d. dir_state P J d es lease \<and> assertCurrentLeaseUnsafe P J i now d = Inr c)
     (writeLeaseUnsafe P (f c)) (rewrite_outcome P J es lease (Inr i) now status)"
  unfolding valid_op_def
proof (intro allI impI)
  fix d r d' assume a: "dir_state P J d es lease \<and> assertCurrentLeaseUnsafe P J i now d = Inr c" and w: "writeLeaseUnsafe P (f c) d = (r, d')"
  have h: "holds_lease P lease i now" "lease = Some c" using assertCurrent_holds(1) a by blast+
  have dir: "dir_state P J d es (Some c)" using a h by simp
  then have sl: "stored_lease P J d c" by (simp add: dir_state_def)
  obtain ps where ps: "f c = JObj ps" "distinct (map fst ps)" "set (map fst ps) = set LEASE_KEYS - {''digest''}"
    "\<forall>(k, x) \<in> set ps. canonical x \<and> distinct_names x" "lease_fields P (j_runId J) (f c)"
    "own ''fencingToken'' (f c) = own ''fencingToken'' c" "own ''writerId'' (f c) = own ''writerId'' c" "own ''status'' (f c) = JStr status"
    using step [OF h(2,1) sl] by blast
  from rewrite_lease [OF host run dir ps(1-7) w] show "rewrite_outcome P J es lease (Inr i) now status r d'"
    using h ps(8) by (auto simp: rewrite_outcome_def)
qed

lemma parse_iso: "host_ok P \<Longrightarrow> toISOString P t = Inr s \<Longrightarrow> num_isFinite (parseDate P (JStr s))"
  using toISOString_Inr [of P t s] by (auto simp: parseDate_def host_ok_def)

lemma renew_fields:
  assumes host: "host_ok P" and t: "toISOString P t = Inr s" and act: "own ''status'' L = JStr ''active''" and sl: "stored_lease P J d L"
  shows "\<exists>ps. oset ''expiresAt'' (JStr s) (leasePayload L) = JObj ps \<and> distinct (map fst ps) \<and> set (map fst ps) = set LEASE_KEYS - {''digest''}
     \<and> (\<forall>(k, x) \<in> set ps. canonical x \<and> distinct_names x) \<and> lease_fields P (j_runId J) (JObj ps)
     \<and> own ''fencingToken'' (JObj ps) = own ''fencingToken'' L \<and> own ''writerId'' (JObj ps) = own ''writerId'' L \<and> own ''status'' (JObj ps) = JStr ''active''"
proof -
  obtain qs where q: "leasePayload L = JObj qs" "distinct (map fst qs)" "set (map fst qs) = set LEASE_KEYS - {''digest''}"
    "\<forall>(k, x) \<in> set qs. canonical x \<and> distinct_names x" "\<forall>k. k \<noteq> ''digest'' \<longrightarrow> own k (JObj qs) = own k L"
    using stored_lease_payload [OF sl] by blast
  have k: "''expiresAt'' \<in> set (map fst qs)" unfolding q(3) by (simp add: LEASE_KEYS_def)
  obtain ps where p: "oset ''expiresAt'' (JStr s) (JObj qs) = JObj ps" "distinct (map fst ps)" "set (map fst ps) = set (map fst qs)"
    "\<forall>(k, x) \<in> set ps. canonical x \<and> distinct_names x" "\<forall>j. own j (JObj ps) = (if j = ''expiresAt'' then JStr s else own j (JObj qs))"
    using oset_fields [OF q(2) k q(4)] by blast
  have o: "own j (JObj ps) = (if j = ''expiresAt'' then JStr s else own j L)" if "j \<noteq> ''digest''" for j using p(5) q(5) that by simp
  have e: "own ''formatVersion'' (JObj ps) = own ''formatVersion'' L" "own ''runId'' (JObj ps) = own ''runId'' L"
    "own ''status'' (JObj ps) = own ''status'' L" "own ''writerId'' (JObj ps) = own ''writerId'' L"
    "own ''fencingToken'' (JObj ps) = own ''fencingToken'' L" "own ''acquiredAt'' (JObj ps) = own ''acquiredAt'' L"
    "own ''expiresAt'' (JObj ps) = JStr s" "own ''releasedAt'' (JObj ps) = own ''releasedAt'' L"
    by (subst o, simp, simp)+
  have "lease_fields P (j_runId J) L" using stored_lease_fields [OF sl] by blast
  then have "lease_fields P (j_runId J) (JObj ps)" using parse_iso [OF host t] unfolding lease_fields_def e by blast
  then show ?thesis using p(1-4) q(1,3) e act by (intro exI [of _ ps]) simp
qed

lemma release_fields:
  assumes host: "host_ok P" and t: "toISOString P t = Inr s" and sl: "stored_lease P J d L"
  shows "\<exists>ps. oset ''releasedAt'' (JStr s) (oset ''status'' (JStr ''released'') (leasePayload L)) = JObj ps \<and> distinct (map fst ps)
     \<and> set (map fst ps) = set LEASE_KEYS - {''digest''}
     \<and> (\<forall>(k, x) \<in> set ps. canonical x \<and> distinct_names x) \<and> lease_fields P (j_runId J) (JObj ps)
     \<and> own ''fencingToken'' (JObj ps) = own ''fencingToken'' L \<and> own ''writerId'' (JObj ps) = own ''writerId'' L \<and> own ''status'' (JObj ps) = JStr ''released''"
proof -
  obtain qs where q: "leasePayload L = JObj qs" "distinct (map fst qs)" "set (map fst qs) = set LEASE_KEYS - {''digest''}"
    "\<forall>(k, x) \<in> set qs. canonical x \<and> distinct_names x" "\<forall>k. k \<noteq> ''digest'' \<longrightarrow> own k (JObj qs) = own k L"
    using stored_lease_payload [OF sl] by blast
  have k: "''status'' \<in> set (map fst qs)" "''releasedAt'' \<in> set (map fst qs)" unfolding q(3) by (simp_all add: LEASE_KEYS_def)
  obtain rs where r: "oset ''status'' (JStr ''released'') (JObj qs) = JObj rs" "distinct (map fst rs)" "set (map fst rs) = set (map fst qs)"
    "\<forall>(k, x) \<in> set rs. canonical x \<and> distinct_names x" "\<forall>j. own j (JObj rs) = (if j = ''status'' then JStr ''released'' else own j (JObj qs))"
    using oset_fields [OF q(2) k(1) q(4)] by blast
  obtain ps where p: "oset ''releasedAt'' (JStr s) (JObj rs) = JObj ps" "distinct (map fst ps)" "set (map fst ps) = set (map fst rs)"
    "\<forall>(k, x) \<in> set ps. canonical x \<and> distinct_names x" "\<forall>j. own j (JObj ps) = (if j = ''releasedAt'' then JStr s else own j (JObj rs))"
    using oset_fields [OF r(2) k(2) [folded r(3)] r(4)] by blast
  have o: "own j (JObj ps) = (if j = ''releasedAt'' then JStr s else if j = ''status'' then JStr ''released'' else own j L)" if "j \<noteq> ''digest''" for j
    using p(5) r(5) q(5) that by simp
  have e: "own ''formatVersion'' (JObj ps) = own ''formatVersion'' L" "own ''runId'' (JObj ps) = own ''runId'' L"
    "own ''status'' (JObj ps) = JStr ''released''" "own ''writerId'' (JObj ps) = own ''writerId'' L"
    "own ''fencingToken'' (JObj ps) = own ''fencingToken'' L" "own ''acquiredAt'' (JObj ps) = own ''acquiredAt'' L"
    "own ''expiresAt'' (JObj ps) = own ''expiresAt'' L" "own ''releasedAt'' (JObj ps) = JStr s"
    by (subst o, simp, simp)+
  have "lease_fields P (j_runId J) L" using stored_lease_fields [OF sl] by blast
  then have "lease_fields P (j_runId J) (JObj ps)" using parse_iso [OF host t] unfolding lease_fields_def e by blast
  then show ?thesis using p(1-4) r(1,3) q(1,3) e by (intro exI [of _ ps]) simp
qed

text \<open>An operation run under the lock after reading the clock.\<close>

lemma valid_locked:
  assumes C: "lock_only C" and Q: "\<And>r d. Q r (d\<lparr>d_lock := None\<rparr>) = Q r d" and fail: "\<And>e d. dir_state P J d es lease \<Longrightarrow> Q (Inl e) d"
    and m: "valid_op (\<lambda>d. dir_state P J d es lease) (m (c_at C)) Q"
  shows "valid_op (\<lambda>d. dir_state P J d es lease)
    (withLock P J C stale s metadata (\<lambda>_. obind (olift (instant (c_at C))) (\<lambda>now. m now))) Q"
proof (rule valid_withLock [OF C])
  show "valid_op (\<lambda>d. dir_state P J d es lease) (obind (olift (instant (c_at C))) (\<lambda>now. m now)) Q" for s
  proof (rule valid_check)
    fix now assume "instant (c_at C) = Inr now"
    then have "now = c_at C" by (auto simp: instant_def split: if_splits)
    then show "valid_op (\<lambda>d. dir_state P J d es lease) (m now) Q" using m by simp
  qed (rule fail)
qed (use Q fail in simp_all)

lemma rewrite_fail: "dir_state P J d es lease \<Longrightarrow> rewrite_outcome P J es lease i now status (Inl e) d"
  by (simp add: rewrite_outcome_def)

lemma renew_valid:
  assumes host: "host_ok P" and run: "re_ID (j_runId J)" and C: "lock_only C"
  shows "valid_op (\<lambda>d. dir_state P J d es lease) (renewWriterLease P J C input)
     (rewrite_outcome P J es lease (leaseIdentity (own ''lease'' input)) (c_at C) ''active'')"
  unfolding renewWriterLease_def Let_def
proof (rule valid_check, simp add: rewrite_fail, rule valid_check, simp add: rewrite_fail, rule valid_check, simp add: rewrite_fail,
    rule valid_check, simp add: rewrite_fail)
  fix i u t meta assume "rbind (prop_of ''lease'' input) leaseIdentity = Inr i"
  then have i: "leaseIdentity (own ''lease'' input) = Inr i" by (auto simp: rbind_eq_Inr)
  show "valid_op (\<lambda>d. dir_state P J d es lease) (withLock P J C (staleLockForLease P i) () meta (\<lambda>_.
        obind (olift (instant (c_at C))) (\<lambda>now.
        obind (\<lambda>d. (assertCurrentLeaseUnsafe P J i now d, d)) (\<lambda>current.
        obind (olift (toISOString P (num_add now (js_number P (coalesce (own ''ttlMs'' input) (jint 30000)))))) (\<lambda>expiresAt.
        writeLeaseUnsafe P (oset ''expiresAt'' (JStr expiresAt) (leasePayload current)))))))
     (rewrite_outcome P J es lease (leaseIdentity (own ''lease'' input)) (c_at C) ''active'')"
    unfolding i
  proof (rule valid_locked [OF C], simp, simp add: rewrite_fail, rule valid_read, simp add: rewrite_fail, rule valid_check, simp add: rewrite_fail)
    fix c ex assume t: "toISOString P (num_add (c_at C) (js_number P (coalesce (own ''ttlMs'' input) (jint 30000)))) = Inr ex"
    show "valid_op (\<lambda>d. dir_state P J d es lease \<and> assertCurrentLeaseUnsafe P J i (c_at C) d = Inr c)
        (writeLeaseUnsafe P (oset ''expiresAt'' (JStr ex) (leasePayload c))) (rewrite_outcome P J es lease (Inr i) (c_at C) ''active'')"
    proof (rule rewrite_step [OF host run])
      fix L d assume L: "lease = Some L" "holds_lease P lease i (c_at C)" "stored_lease P J d L"
      then have "own ''status'' L = JStr ''active''" by (auto simp: holds_lease_def)
      from renew_fields [OF host t this L(3)]
      show "\<exists>ps. oset ''expiresAt'' (JStr ex) (leasePayload L) = JObj ps \<and> distinct (map fst ps) \<and> set (map fst ps) = set LEASE_KEYS - {''digest''}
          \<and> (\<forall>(k, x) \<in> set ps. canonical x \<and> distinct_names x) \<and> lease_fields P (j_runId J) (oset ''expiresAt'' (JStr ex) (leasePayload L))
          \<and> own ''fencingToken'' (oset ''expiresAt'' (JStr ex) (leasePayload L)) = own ''fencingToken'' L
          \<and> own ''writerId'' (oset ''expiresAt'' (JStr ex) (leasePayload L)) = own ''writerId'' L
          \<and> own ''status'' (oset ''expiresAt'' (JStr ex) (leasePayload L)) = JStr ''active''" by metis
    qed
  qed
qed

lemma release_valid:
  assumes host: "host_ok P" and run: "re_ID (j_runId J)" and C: "lock_only C"
  shows "valid_op (\<lambda>d. dir_state P J d es lease) (releaseWriterLease P J C input)
     (rewrite_outcome P J es lease (leaseIdentity (own ''lease'' input)) (c_at C) ''released'')"
  unfolding releaseWriterLease_def
proof (rule valid_check, simp add: rewrite_fail, rule valid_check, simp add: rewrite_fail, rule valid_check, simp add: rewrite_fail)
  fix i t meta assume "rbind (prop_of ''lease'' input) leaseIdentity = Inr i"
  then have i: "leaseIdentity (own ''lease'' input) = Inr i" by (auto simp: rbind_eq_Inr)
  show "valid_op (\<lambda>d. dir_state P J d es lease) (withLock P J C (staleLockForLease P i) () meta (\<lambda>_.
       obind (olift (instant (c_at C))) (\<lambda>now.
       obind (\<lambda>d. (assertCurrentLeaseUnsafe P J i now d, d)) (\<lambda>current.
       obind (olift (toISOString P now)) (\<lambda>releasedAt.
       writeLeaseUnsafe P (oset ''releasedAt'' (JStr releasedAt) (oset ''status'' (JStr ''released'') (leasePayload current))))))))
     (rewrite_outcome P J es lease (leaseIdentity (own ''lease'' input)) (c_at C) ''released'')"
    unfolding i
  proof (rule valid_locked [OF C], simp, simp add: rewrite_fail, rule valid_read, simp add: rewrite_fail, rule valid_check, simp add: rewrite_fail)
    fix c at' assume t: "toISOString P (c_at C) = Inr at'"
    let ?f = "\<lambda>L. oset ''releasedAt'' (JStr at') (oset ''status'' (JStr ''released'') (leasePayload L))"
    show "valid_op (\<lambda>d. dir_state P J d es lease \<and> assertCurrentLeaseUnsafe P J i (c_at C) d = Inr c)
        (writeLeaseUnsafe P (?f c)) (rewrite_outcome P J es lease (Inr i) (c_at C) ''released'')"
    proof (rule rewrite_step [OF host run])
      fix L d assume L: "stored_lease P J d L"
      from release_fields [OF host t L]
      show "\<exists>ps. ?f L = JObj ps \<and> distinct (map fst ps) \<and> set (map fst ps) = set LEASE_KEYS - {''digest''}
          \<and> (\<forall>(k, x) \<in> set ps. canonical x \<and> distinct_names x) \<and> lease_fields P (j_runId J) (?f L)
          \<and> own ''fencingToken'' (?f L) = own ''fencingToken'' L
          \<and> own ''writerId'' (?f L) = own ''writerId'' L \<and> own ''status'' (?f L) = JStr ''released''" by metis
    qed
  qed
qed

section \<open>Recovery and snapshots\<close>

lemma clone_events: "dir_state P J d es lease \<Longrightarrow> mapR jsonClone es = Inr es"
proof -
  assume "dir_state P J d es lease"
  then have "list_all2 (\<lambda>x y. jsonClone x = Inr y) es es"
    by (auto simp: dir_state_def list_all_iff canonical_def jsonClone_def intro: list_all2_all_nthI)
  then show ?thesis by (simp add: mapR_eq_Inr)
qed

lemma clone_recovered: "dir_state P J d es lease \<Longrightarrow> cloneRecovery (recovered P es how n) = Inr (recovered P es how n)"
  by (simp add: cloneRecovery_def recovered_def clone_events)

lemma recover_valid:
  assumes C: "lock_only C"
  shows "valid_op (\<lambda>d. dir_state P J d es lease) (recover P J C repair l) (\<lambda>r d'. dir_state P J d' es lease
     \<and> (\<forall>x. r = Inr x \<longrightarrow> x = recovered P es ''CLEAN'' 0))"
proof -
  let ?Q = "\<lambda>r d'. dir_state P J d' es lease \<and> (\<forall>x. r = Inr x \<longrightarrow> x = recovered P es ''CLEAN'' 0)"
  have core: "valid_op (\<lambda>d. dir_state P J d es lease) (obind (recoverUnsafe P J b) (\<lambda>r. olift (cloneRecovery r))) ?Q" for b
    unfolding valid_op_def
    by (auto simp: obind_def olift_def clone_recovered dir_recover split: sum.splits)
  show ?thesis
  proof (cases repair)
    case False
    then show ?thesis using core by (simp add: recover_def)
  next
    case True
    have "valid_op (\<lambda>d. dir_state P J d es lease)
      (obind (olift (leaseIdentity l)) (\<lambda>identity.
      obind (olift (instant (c_requestedAt C))) (\<lambda>requestedAt.
      obind (olift (lockMetadata P identity ''recover-journal'' requestedAt)) (\<lambda>metadata.
      withLock P J C (staleLockForLease P identity) () metadata (\<lambda>_.
        obind (olift (instant (c_at C))) (\<lambda>now.
        obind (\<lambda>d. (assertCurrentLeaseUnsafe P J identity now d, d)) (\<lambda>_.
        obind (recoverUnsafe P J True) (\<lambda>r. olift (cloneRecovery r))))))))) ?Q"
    proof (rule valid_check, simp, rule valid_check, simp, rule valid_check, simp, rule valid_locked [OF C], simp, simp, rule valid_read, simp)
      show "valid_op (\<lambda>d. dir_state P J d es lease \<and> assertCurrentLeaseUnsafe P J i now d = Inr x)
         (obind (recoverUnsafe P J True) (\<lambda>r. olift (cloneRecovery r))) ?Q" for i now x
        by (rule valid_pre [OF core]) simp
    qed
    then show ?thesis using True by (simp add: recover_def)
  qed
qed

lemma writeSnapshot_frame: "writeSnapshot P ps d = (r, d') \<Longrightarrow> \<exists>x. d' = d\<lparr>d_snapshot := x\<rparr>"
proof -
  assume "writeSnapshot P ps d = (r, d')"
  then have "d' = d \<or> (\<exists>x. d' = d\<lparr>d_snapshot := x\<rparr>)" by (auto simp: writeSnapshot_def split: sum.splits prod.splits)
  moreover have "d = d\<lparr>d_snapshot := d_snapshot d\<rparr>" by simp
  ultimately show ?thesis by metis
qed

lemma publish_valid:
  assumes C: "lock_only C"
  shows "valid_op (\<lambda>d. dir_state P J d es lease) (publishSnapshot P J C input) (\<lambda>r d'. dir_state P J d' es lease)"
  unfolding publishSnapshot_def
proof (rule valid_check, simp, rule valid_check, simp, rule valid_check, simp, rule valid_check, simp, rule valid_check, simp, rule valid_check, simp,
    rule valid_locked [OF C], simp, simp, rule valid_read, simp)
  fix i s x
  let ?Q = "\<lambda>r d'. dir_state P J d' es lease"
  show "valid_op (\<lambda>d. dir_state P J d es lease \<and> assertCurrentLeaseUnsafe P J i (c_at C) d = Inr x)
     (obind (recoverUnsafe P J True) (\<lambda>state.
       if \<not> js_eq (rc_lastSeq state) (own ''expectedSeq'' input) \<or> \<not> js_eq (rc_lastEventDigest state) (own ''expectedDigest'' input)
       then olift (failRun ''JOURNAL_CAS_MISMATCH'') else
       obind (olift (toISOString P (c_at C))) (\<lambda>createdAt.
       writeSnapshot P (snapshot_value (j_runId J) createdAt state (own ''activeRevision'' input) s)))) ?Q"
  proof (rule valid_obind [where R = ?Q])
    show "valid_op (\<lambda>d. dir_state P J d es lease \<and> assertCurrentLeaseUnsafe P J i (c_at C) d = Inr x) (recoverUnsafe P J True) ?Q"
      by (auto simp: valid_op_def dir_recover)
    show "valid_op (?Q (Inr st)) (if \<not> js_eq (rc_lastSeq st) (own ''expectedSeq'' input) \<or> \<not> js_eq (rc_lastEventDigest st) (own ''expectedDigest'' input)
       then olift (failRun ''JOURNAL_CAS_MISMATCH'') else
       obind (olift (toISOString P (c_at C))) (\<lambda>createdAt.
       writeSnapshot P (snapshot_value (j_runId J) createdAt st (own ''activeRevision'' input) s))) ?Q" for st
    proof (rule valid_if, rule valid_olift, simp, rule valid_check, simp)
      show "valid_op (\<lambda>d. dir_state P J d es lease) (writeSnapshot P ps) ?Q" for ps
        unfolding valid_op_def using writeSnapshot_frame dir_state_snapshot by metis
    qed
  qed
qed

section \<open>Every reachable directory\<close>

inductive run_dir :: "platform \<Rightarrow> journal \<Rightarrow> disk \<Rightarrow> bool" for P J where
  start: "run_dir P J \<lparr> d_events = None, d_lease = None, d_snapshot = None, d_lock = None \<rparr>"
| acquire: "run_dir P J d \<Longrightarrow> lock_only C \<Longrightarrow> (\<And>es l. dir_state P J d es l \<Longrightarrow> lease_token l < MAX_SAFE_INTEGER)
    \<Longrightarrow> acquireWriterLease P J C proof' input d = (r, d') \<Longrightarrow> run_dir P J d'"
| renew: "run_dir P J d \<Longrightarrow> lock_only C \<Longrightarrow> renewWriterLease P J C input d = (r, d') \<Longrightarrow> run_dir P J d'"
| release: "run_dir P J d \<Longrightarrow> lock_only C \<Longrightarrow> releaseWriterLease P J C input d = (r, d') \<Longrightarrow> run_dir P J d'"
| append: "run_dir P J d \<Longrightarrow> lock_only C \<Longrightarrow> (\<And>es l. dir_state P J d es l \<Longrightarrow> append_room es)
    \<Longrightarrow> distinct_names (own ''payload'' (own ''event'' input)) \<Longrightarrow> appendEvent P J C input d = (r', d') \<Longrightarrow> run_dir P J d'"
| recovers: "run_dir P J d \<Longrightarrow> lock_only C \<Longrightarrow> recover P J C b l d = (r'', d') \<Longrightarrow> run_dir P J d'"
| publish: "run_dir P J d \<Longrightarrow> lock_only C \<Longrightarrow> publishSnapshot P J C input d = (r, d') \<Longrightarrow> run_dir P J d'"

lemma run_dir_state:
  assumes "run_dir P J d" "host_ok P" "re_ID (j_runId J)"
  shows "\<exists>es lease. dir_state P J d es lease"
  using assms(1)
proof (induction rule: run_dir.induct)
  case start
  have "dir_state P J \<lparr> d_events = None, d_lease = None, d_snapshot = None, d_lock = None \<rparr> [] None"
    by (simp add: dir_state_def clean_journal_def)
  then show ?case by blast
next
  case (acquire d C proof' input r d')
  then obtain es l where d: "dir_state P J d es l" by blast
  from valid_opD [OF acquire_valid [OF assms(2,3) acquire.hyps(2) acquire.hyps(3) [OF d]] d acquire.hyps(4)]
  show ?case by (auto simp: acquire_outcome_def split: sum.splits)
next
  case (renew d C input r d')
  then obtain es l where d: "dir_state P J d es l" by blast
  from valid_opD [OF renew_valid [OF assms(2,3) renew.hyps(2)] d renew.hyps(3)]
  show ?case by (auto simp: rewrite_outcome_def split: sum.splits)
next
  case (release d C input r d')
  then obtain es l where d: "dir_state P J d es l" by blast
  from valid_opD [OF release_valid [OF assms(2,3) release.hyps(2)] d release.hyps(3)]
  show ?case by (auto simp: rewrite_outcome_def split: sum.splits)
next
  case (append d C input r d')
  then obtain es l where d: "dir_state P J d es l" by blast
  from valid_opD [OF appendEvent_valid [OF assms(2,3) append.hyps(2) append.hyps(3) [OF d] append.hyps(4)] d append.hyps(5)]
  show ?case by (auto simp: append_outcome_def split: sum.splits if_splits)
next
  case (recovers d C b l r d')
  then show ?case using valid_opD [OF recover_valid [OF recovers.hyps(2)]] by blast
next
  case (publish d C input r d')
  then show ?case using valid_opD [OF publish_valid [OF publish.hyps(2)]] by blast
qed

end
