(* ===== verification/Journal_Properties.thy ===== *)
theory Journal_Properties
  imports Journal_Spec
begin

text \<open>
  What the event journal promises its users: the interface of an append-only log as a locale,
  its interpretation on the operations of \<open>Event_Journal\<close>, the properties of recovery,
  appending, leases, locks and snapshots, and a small run directory built by the operations
  themselves on which the properties are applied.
\<close>

section \<open>The interface of an append-only log\<close>

text \<open>
  \<open>hist d es\<close>: the directory \<open>d\<close> holds the events \<open>es\<close>. A reading operation reports the history
  and keeps it; an adding operation keeps it or extends it by the event it reports.
\<close>

locale event_log =
  fixes hist :: "'d \<Rightarrow> 'e list \<Rightarrow> bool"
    and reading :: "'c \<Rightarrow> 'd \<Rightarrow> 'r res \<times> 'd"
    and events_of :: "'r \<Rightarrow> 'e list"
    and adding :: "'a \<Rightarrow> 'd \<Rightarrow> 'x res \<times> 'd"
    and added :: "'x \<Rightarrow> 'e option"
    and calm :: "'c \<Rightarrow> bool"
    and fits :: "'a \<Rightarrow> 'e list \<Rightarrow> bool"
  assumes reading_keeps: "hist d es \<Longrightarrow> calm c \<Longrightarrow> reading c d = (r, d') \<Longrightarrow> hist d' es"
    and reading_reports: "hist d es \<Longrightarrow> calm c \<Longrightarrow> reading c d = (Inr x, d') \<Longrightarrow> events_of x = es"
    and adding_fails: "hist d es \<Longrightarrow> fits a es \<Longrightarrow> adding a d = (Inl e, d') \<Longrightarrow> hist d' es"
    and adding_extends: "hist d es \<Longrightarrow> fits a es \<Longrightarrow> adding a d = (Inr y, d')
      \<Longrightarrow> hist d' (es @ (case added y of None \<Rightarrow> [] | Some e \<Rightarrow> [e]))"
begin

inductive session :: "'d \<Rightarrow> 'd \<Rightarrow> bool" for d where
  opened: "session d d"
| reads: "session d d1 \<Longrightarrow> calm c \<Longrightarrow> reading c d1 = (r, d2) \<Longrightarrow> session d d2"
| adds: "session d d1 \<Longrightarrow> (\<And>es. hist d1 es \<Longrightarrow> fits a es) \<Longrightarrow> adding a d1 = (x, d2) \<Longrightarrow> session d d2"

lemma session_extends:
  assumes "session d d'" "hist d es"
  shows "\<exists>more. hist d' (es @ more)"
  using assms(1)
proof (induction rule: session.induct)
  case opened
  then show ?case using assms(2) by (metis append_Nil2)
next
  case (reads d1 c r d2)
  then show ?case using reading_keeps by blast
next
  case (adds d1 a x d2)
  then obtain more where m: "hist d1 (es @ more)" by blast
  show ?case
  proof (cases x)
    case (Inl e)
    then show ?thesis using adding_fails [OF m adds.hyps(2) [OF m]] adds.hyps(3) by blast
  next
    case (Inr y)
    then show ?thesis using adding_extends [OF m adds.hyps(2) [OF m]] adds.hyps(3) by (metis append.assoc)
  qed
qed

lemma add_then_read:
  assumes "hist d es" "fits a es" "adding a d = (Inr x, d1)" "added x = Some e"
    and "calm c" "reading c d1 = (Inr r, d2)"
  shows "events_of r = es @ [e]"
  using reading_reports [OF adding_extends [OF assms(1-3)] assms(5,6)] assms(4) by simp

end

text \<open>The journal of a run is such a log.\<close>

definition journal_hist :: "platform \<Rightarrow> journal \<Rightarrow> disk \<Rightarrow> jsval list \<Rightarrow> bool" where
  "journal_hist P J d es \<longleftrightarrow> host_ok P \<and> re_ID (j_runId J) \<and> (\<exists>lease. dir_state P J d es lease)"

definition journal_read :: "platform \<Rightarrow> journal \<Rightarrow> call \<times> bool \<times> jsval \<Rightarrow> recovery op" where
  "journal_read P J c = (case c of (C, b, l) \<Rightarrow> recover P J C b l)"

definition journal_add :: "platform \<Rightarrow> journal \<Rightarrow> call \<times> jsval \<Rightarrow> append_result op" where
  "journal_add P J a = (case a of (C, input) \<Rightarrow> appendEvent P J C input)"

definition journal_added :: "append_result \<Rightarrow> jsval option" where
  "journal_added x = (if ar_appended x then Some (ar_event x) else None)"

definition journal_fits :: "call \<times> jsval \<Rightarrow> jsval list \<Rightarrow> bool" where
  "journal_fits a es \<longleftrightarrow> lock_only (fst a) \<and> append_room es \<and> distinct_names (own ''payload'' (own ''event'' (snd a)))"

lemma journal_add_hist:
  assumes "journal_hist P J d es" "journal_fits a es" "journal_add P J a d = (r, d')"
  shows "(\<exists>e. r = Inl e \<and> journal_hist P J d' es)
    \<or> (\<exists>x. r = Inr x \<and> journal_hist P J d' (es @ (case journal_added x of None \<Rightarrow> [] | Some e \<Rightarrow> [e])))"
proof -
  obtain C input where a: "a = (C, input)" by (cases a)
  obtain lease where d: "host_ok P" "re_ID (j_runId J)" "dir_state P J d es lease" using assms(1) by (auto simp: journal_hist_def)
  have f: "lock_only C" "append_room es" "distinct_names (own ''payload'' (own ''event'' input))"
    using assms(2) by (auto simp: journal_fits_def a)
  from valid_opD [OF appendEvent_valid [OF d(1,2) f] d(3), of r d'] assms(3)
  have "case r of Inl e \<Rightarrow> dir_state P J d' es lease
      | Inr x \<Rightarrow> \<exists>i n. leaseIdentity (own ''lease'' input) = Inr i \<and> normalizeEventInput (own ''event'' input) = Inr n
          \<and> append_outcome P J es lease i (c_at C) (own ''expectedSeq'' input) (own ''expectedDigest'' input) n (Inr x) d'"
    by (simp add: journal_add_def a)
  then show ?thesis using d(1,2)
    by (cases r) (auto simp: journal_hist_def journal_added_def append_outcome_def split: if_splits)
qed

lemma journal_read_hist:
  assumes h: "journal_hist P J d es" "lock_only (fst c)" "journal_read P J c d = (r, d')"
  shows "journal_hist P J d' es \<and> (\<forall>x. r = Inr x \<longrightarrow> x = recovered P es ''CLEAN'' 0)"
proof -
  obtain lease where dir: "dir_state P J d es lease" using h(1) by (auto simp: journal_hist_def)
  obtain C b l where c: "c = (C, b, l)" by (cases c)
  from valid_opD [OF recover_valid dir, of C b l r d'] h show ?thesis by (auto simp: journal_read_def journal_hist_def c)
qed

interpretation journal_log: event_log "journal_hist P J" "journal_read P J" rc_events "journal_add P J" journal_added
  "\<lambda>c. lock_only (fst c)" journal_fits for P J
proof unfold_locales
  fix d es r x d' and c :: "call \<times> bool \<times> jsval" assume h: "journal_hist P J d es" "lock_only (fst c)"
  show "journal_read P J c d = (r, d') \<Longrightarrow> journal_hist P J d' es" using journal_read_hist [OF h] by blast
  show "journal_read P J c d = (Inr x, d') \<Longrightarrow> rc_events x = es" using journal_read_hist [OF h] by (fastforce simp: recovered_def)
next
  fix d es a e d' y assume h: "journal_hist P J d es" "journal_fits a es"
  show "journal_add P J a d = (Inl e, d') \<Longrightarrow> journal_hist P J d' es" using journal_add_hist [OF h] by blast
  show "journal_add P J a d = (Inr y, d') \<Longrightarrow> journal_hist P J d' (es @ (case journal_added y of None \<Rightarrow> [] | Some e \<Rightarrow> [e]))"
    using journal_add_hist [OF h] by blast
qed

section \<open>A directory built by the operations\<close>

definition empty_dir :: disk where
  "empty_dir = \<lparr> d_events = None, d_lease = None, d_snapshot = None, d_lock = None \<rparr>"

definition demo_journal :: journal where
  "demo_journal = \<lparr> j_runId = ''run-1'', j_maxRecordBytes = jint 65536, j_lockRetries = jint 3 \<rparr>"

definition demo_call :: call where
  "demo_call = \<lparr> c_requestedAt = Fin 1000, c_at = Fin 1000, c_lockAt = (\<lambda>_. Fin 1000), c_world = (\<lambda>_ d. d) \<rparr>"

definition demo_acquire :: jsval where
  "demo_acquire = JObj [(''writerId'', JStr ''writer-a''), (''ttlMs'', jint 5000)]"

definition demo_leased :: disk where
  "demo_leased = snd (acquireWriterLease reference_host demo_journal demo_call None demo_acquire empty_dir)"

definition demo_lease :: jsval where
  "demo_lease = JObj [(''writerId'', JStr ''writer-a''), (''fencingToken'', jint 1)]"

definition demo_append :: "string \<Rightarrow> string \<Rightarrow> int \<Rightarrow> jsval" where
  "demo_append eventId type seq = JObj [(''lease'', demo_lease), (''expectedSeq'', jint seq), (''expectedDigest'', zero_digest),
     (''event'', JObj [(''eventId'', JStr eventId), (''type'', JStr type), (''payload'', JObj [])])]"

definition demo_started :: disk where
  "demo_started = snd (appendEvent reference_host demo_journal demo_call (demo_append ''e1'' ''RunStarted'' 0) demo_leased)"

definition demo_completed :: disk where
  "demo_completed = snd (appendEvent reference_host demo_journal demo_call (demo_append ''e2'' ''RunCompleted'' 1) demo_started)"

lemma demo_lock_only: "lock_only demo_call"
  by (simp add: lock_only_def demo_call_def)

lemma demo_run: "re_ID (j_runId demo_journal)"
  by code_simp

lemma demo_leased_eval: "\<not> isl (fst (acquireWriterLease reference_host demo_journal demo_call None demo_acquire empty_dir))"
  "d_events demo_leased = None"
  by code_simp+

lemma demo_started_eval:
  "case fst (appendEvent reference_host demo_journal demo_call (demo_append ''e1'' ''RunStarted'' 0) demo_leased) of Inl e \<Rightarrow> False | Inr x \<Rightarrow> ar_appended x"
  by code_simp

lemma demo_completed_eval:
  "case fst (appendEvent reference_host demo_journal demo_call (demo_append ''e2'' ''RunCompleted'' 1) demo_started) of Inl e \<Rightarrow> False | Inr x \<Rightarrow> ar_appended x"
  by code_simp

lemma demo_hist0: "journal_hist reference_host demo_journal empty_dir []"
  using reference_host_ok demo_run by (auto simp: journal_hist_def dir_state_def clean_journal_def empty_dir_def intro!: exI [of _ None])

lemma dir_events_unique: "dir_state P J d es l \<Longrightarrow> dir_state P J d es' l' \<Longrightarrow> es' = es"
  using dir_recover [of P J d es l] dir_recover [of P J d es' l'] by (auto simp: recovered_def)

lemma run_dir_leased: "run_dir reference_host demo_journal demo_leased"
proof (rule run_dir.acquire [OF run_dir.start demo_lock_only])
  show "lease_token l < MAX_SAFE_INTEGER"
    if "dir_state reference_host demo_journal \<lparr>d_events = None, d_lease = None, d_snapshot = None, d_lock = None\<rparr> es l" for es l
    using that by (cases l) (auto simp: dir_state_def stored_lease_def lease_token_def MAX_SAFE_INTEGER_def)
  show "acquireWriterLease reference_host demo_journal demo_call None demo_acquire
      \<lparr>d_events = None, d_lease = None, d_snapshot = None, d_lock = None\<rparr> =
      (fst (acquireWriterLease reference_host demo_journal demo_call None demo_acquire empty_dir), demo_leased)"
    by (simp add: demo_leased_def empty_dir_def)
qed

lemma demo_payload: "distinct_names (own ''payload'' (own ''event'' (demo_append eid ty n)))"
  by (simp add: demo_append_def)

text \<open>Directories of the demonstration: the abstract state follows the operations.\<close>

lemma demo_append_type: "normalizeEventInput (own ''event'' (demo_append eid ty n)) = Inr m \<Longrightarrow> own ''type'' m = JStr ty"
  by (auto simp: demo_append_def normalizeEventInput_def run_inv normalized_event_def)

lemma demo_step:
  assumes d: "dir_state reference_host demo_journal d es l" and room: "append_room es"
    and ok: "case fst (appendEvent reference_host demo_journal demo_call (demo_append eid ty n) d) of Inl e \<Rightarrow> False | Inr x \<Rightarrow> ar_appended x"
  shows "\<exists>e. dir_state reference_host demo_journal (snd (appendEvent reference_host demo_journal demo_call (demo_append eid ty n) d)) (es @ [e]) l
     \<and> own ''type'' e = JStr ty"
proof -
  obtain r d' where a: "appendEvent reference_host demo_journal demo_call (demo_append eid ty n) d = (r, d')" by (metis surj_pair)
  obtain x where x: "r = Inr x" "ar_appended x" using ok a by (cases r) auto
  from valid_opD [OF appendEvent_valid [OF reference_host_ok demo_run demo_lock_only room demo_payload] d a]
  show ?thesis using x a demo_append_type by (fastforce simp: append_outcome_def)
qed

lemma demo_states:
  "\<exists>l. dir_state reference_host demo_journal demo_leased [] l"
  "\<exists>e l. dir_state reference_host demo_journal demo_started [e] l \<and> own ''type'' e = JStr ''RunStarted''"
  "\<exists>e e' l. dir_state reference_host demo_journal demo_completed [e, e'] l \<and> own ''type'' e' = JStr ''RunCompleted''"
proof -
  obtain es l where "dir_state reference_host demo_journal demo_leased es l"
    using run_dir_state [OF run_dir_leased reference_host_ok demo_run] by blast
  moreover have "es = []" using calculation demo_leased_eval(2) by (simp add: dir_state_def clean_journal_def)
  ultimately have l: "dir_state reference_host demo_journal demo_leased [] l" by simp
  then show "\<exists>l. dir_state reference_host demo_journal demo_leased [] l" by blast
  obtain e where e: "dir_state reference_host demo_journal demo_started [e] l" "own ''type'' e = JStr ''RunStarted''"
    using demo_step [OF l _ demo_started_eval] by (auto simp: demo_started_def append_room_def MAX_SAFE_INTEGER_def)
  then show "\<exists>e l. dir_state reference_host demo_journal demo_started [e] l \<and> own ''type'' e = JStr ''RunStarted''" by blast
  obtain e' where "dir_state reference_host demo_journal demo_completed ([e] @ [e']) l" "own ''type'' e' = JStr ''RunCompleted''"
    using demo_step [OF e(1) _ demo_completed_eval] unfolding demo_completed_def [symmetric]
    by (auto simp: append_room_def MAX_SAFE_INTEGER_def)
  then show "\<exists>e e' l. dir_state reference_host demo_journal demo_completed [e, e'] l \<and> own ''type'' e' = JStr ''RunCompleted''" by auto
qed

section \<open>Properties\<close>

text \<open>
  (C4) Whatever a run directory holds, the events that recovery returns form one chain:
  sequence numbers count from one, each event carries the digest of its predecessor and its own,
  fencing tokens never fall and event ids are distinct; the reported last sequence number and
  last digest are those of the chain.
\<close>

theorem recovery_yields_chain:
  assumes "recoverUnsafe P J b d = (Inr r, d')"
  shows "event_chain P (j_runId J) (rc_events r)
     \<and> rc_lastSeq r = jint (int (length (rc_events r)))
     \<and> rc_lastEventDigest r = (if rc_events r = [] then JStr (GENESIS_EVENT_DIGEST P) else own ''eventDigest'' (last (rc_events r)))"
  using recoverUnsafe_chain [OF assms] by blast

lemma demo_recovered: "\<exists>r e. recoverUnsafe reference_host demo_journal b demo_started = (Inr r, demo_started) \<and> rc_events r = [e]"
  using demo_states(2) dir_recover by (metis recovered_def recovery.select_convs(1))

theorem recovery_yields_chain_witness:
  "\<exists>r e. recoverUnsafe reference_host demo_journal False demo_started = (Inr r, demo_started) \<and> rc_events r = [e]
     \<and> event_chain reference_host ''run-1'' [e]"
proof -
  obtain r e where r: "recoverUnsafe reference_host demo_journal False demo_started = (Inr r, demo_started)" "rc_events r = [e]"
    using demo_recovered by blast
  then show ?thesis using recovery_yields_chain [OF r(1)] by (auto simp: demo_journal_def)
qed

text \<open>
  (C5) Repair loses no committed event: after a recovery that repairs a torn tail, reading the
  directory again, with or without repair, finds exactly the events the repair returned, and
  nothing but the event file was touched.
\<close>

theorem repair_keeps_committed:
  assumes "recoverUnsafe P J True d = (Inr r, d')"
  shows "recoverUnsafe P J b d' = (Inr (recovered P (rc_events r) ''CLEAN'' 0), d')
     \<and> d_lease d' = d_lease d \<and> d_snapshot d' = d_snapshot d \<and> d_lock d' = d_lock d"
proof -
  have "clean_journal P J d' (rc_events r)" "d'\<lparr>d_events := None\<rparr> = d\<lparr>d_events := None\<rparr>"
    using repair_clean [OF assms] by blast+
  moreover have "d_lease d' = d_lease d" "d_snapshot d' = d_snapshot d" "d_lock d' = d_lock d"
    using calculation(2) by (cases d; cases d'; simp)+
  ultimately show ?thesis using clean_recover by blast
qed

definition torn_dir :: disk where
  "torn_dir = empty_dir\<lparr>d_events := Some ''{''\<rparr>"

theorem repair_keeps_committed_witness:
  "recoverUnsafe reference_host demo_journal True torn_dir
     = (Inr (recovered reference_host [] ''TRAILING_PARTIAL_TRUNCATED'' 1), empty_dir\<lparr>d_events := Some []\<rparr>)
   \<and> recoverUnsafe reference_host demo_journal False (empty_dir\<lparr>d_events := Some []\<rparr>)
     = (Inr (recovered reference_host [] ''CLEAN'' 0), empty_dir\<lparr>d_events := Some []\<rparr>)"
proof -
  have r: "recoverUnsafe reference_host demo_journal True torn_dir
     = (Inr (recovered reference_host [] ''TRAILING_PARTIAL_TRUNCATED'' 1), empty_dir\<lparr>d_events := Some []\<rparr>)"
    by code_simp
  show ?thesis using r repair_keeps_committed [OF r, of False] by (simp add: recovered_def)
qed

text \<open>
  (C1) Appending implements the abstract log. A refused append leaves the history and the lease
  as they were. A successful one was made by the holder of a live lease; either it reports a
  duplicate or a late event and changes nothing, or it extends the history by exactly one event,
  with the caller's id, type and payload and its own fencing token, under an id that is not in
  the history, on top of the sequence number and digest the caller expected, and the new history
  is what recovery reads back.
\<close>

theorem append_implements_log:
  assumes "host_ok P" "re_ID (j_runId J)" "lock_only C" "append_room es"
    and "distinct_names (own ''payload'' (own ''event'' input))"
    and "dir_state P J d es lease" "appendEvent P J C input d = (r, d')"
  shows "case r of Inl e \<Rightarrow> dir_state P J d' es lease
    | Inr x \<Rightarrow> \<exists>i n. leaseIdentity (own ''lease'' input) = Inr i \<and> normalizeEventInput (own ''event'' input) = Inr n
        \<and> holds_lease P lease i (c_at C)
        \<and> (if ar_appended x then
              dir_state P J d' (es @ [ar_event x]) lease
            \<and> recoverUnsafe P J False d' = (Inr (recovered P (es @ [ar_event x]) ''CLEAN'' 0), d')
            \<and> own ''expectedSeq'' input = jint (int (length es))
            \<and> own ''expectedDigest'' input = (if es = [] then JStr (GENESIS_EVENT_DIGEST P) else own ''eventDigest'' (last es))
            \<and> own ''eventId'' (ar_event x) = own ''eventId'' n \<and> own ''type'' (ar_event x) = own ''type'' n
            \<and> own ''payload'' (ar_event x) = own ''payload'' n \<and> own ''fencingToken'' (ar_event x) = li_fencingToken i
            \<and> own ''eventId'' n \<notin> own ''eventId'' ` set es
            else dir_state P J d' es lease \<and> ar_status x \<in> {''DUPLICATE_EVENT'', ''LATE_EVENT''})"
proof (cases r)
  case (Inl e)
  then show ?thesis using valid_opD [OF appendEvent_valid [OF assms(1-5)] assms(6,7)] by simp
next
  case (Inr x)
  from valid_opD [OF appendEvent_valid [OF assms(1-5)] assms(6,7)]
  obtain i n where n: "leaseIdentity (own ''lease'' input) = Inr i" "normalizeEventInput (own ''event'' input) = Inr n"
    and o: "append_outcome P J es lease i (c_at C) (own ''expectedSeq'' input) (own ''expectedDigest'' input) n (Inr x) d'"
    by (auto simp: Inr)
  have rec: "dir_state P J d' (es @ [ar_event x]) lease \<Longrightarrow>
      recoverUnsafe P J False d' = (Inr (recovered P (es @ [ar_event x]) ''CLEAN'' 0), d')" by (rule dir_recover)
  show ?thesis unfolding Inr sum.case
  proof (intro exI conjI)
    show "leaseIdentity (own ''lease'' input) = Inr i" "normalizeEventInput (own ''event'' input) = Inr n" by (fact n)+
    show "holds_lease P lease i (c_at C)" using o by (simp add: append_outcome_def)
    have "own ''eventId'' n \<notin> own ''eventId'' ` set es" if "\<forall>e \<in> set es. own ''eventId'' e \<noteq> own ''eventId'' n" using that by force
    then show "if ar_appended x then
              dir_state P J d' (es @ [ar_event x]) lease
            \<and> recoverUnsafe P J False d' = (Inr (recovered P (es @ [ar_event x]) ''CLEAN'' 0), d')
            \<and> own ''expectedSeq'' input = jint (int (length es))
            \<and> own ''expectedDigest'' input = (if es = [] then JStr (GENESIS_EVENT_DIGEST P) else own ''eventDigest'' (last es))
            \<and> own ''eventId'' (ar_event x) = own ''eventId'' n \<and> own ''type'' (ar_event x) = own ''type'' n
            \<and> own ''payload'' (ar_event x) = own ''payload'' n \<and> own ''fencingToken'' (ar_event x) = li_fencingToken i
            \<and> own ''eventId'' n \<notin> own ''eventId'' ` set es
            else dir_state P J d' es lease \<and> ar_status x \<in> {''DUPLICATE_EVENT'', ''LATE_EVENT''}"
      using o rec unfolding append_outcome_def sum.case by (cases "ar_appended x") simp_all
  qed
qed

theorem append_implements_log_witness:
  "\<exists>e lease. dir_state reference_host demo_journal demo_started [e] lease
     \<and> recoverUnsafe reference_host demo_journal False demo_started = (Inr (recovered reference_host [e] ''CLEAN'' 0), demo_started)"
proof -
  obtain l where l: "dir_state reference_host demo_journal demo_leased [] l" using demo_states(1) by blast
  obtain r where a: "appendEvent reference_host demo_journal demo_call (demo_append ''e1'' ''RunStarted'' 0) demo_leased = (r, demo_started)"
    by (metis demo_started_def prod.collapse)
  obtain x where x: "r = Inr x" "ar_appended x" using demo_started_eval a by (cases r) auto
  have "append_room []" by (simp add: append_room_def MAX_SAFE_INTEGER_def)
  from append_implements_log [OF reference_host_ok demo_run demo_lock_only this demo_payload l a]
  show ?thesis using x by auto
qed

text \<open>
  A writer that does not hold the live lease (another writer's, an older token, released or
  expired) appends nothing: the call fails and the history and the lease stay as they were.
\<close>

theorem stale_writer_refused:
  assumes "host_ok P" "re_ID (j_runId J)" "lock_only C" "append_room es"
    and "distinct_names (own ''payload'' (own ''event'' input))"
    and "dir_state P J d es lease" "appendEvent P J C input d = (r, d')"
    and "leaseIdentity (own ''lease'' input) = Inr i" "\<not> holds_lease P lease i (c_at C)"
  shows "isl r \<and> dir_state P J d' es lease"
proof (cases r)
  case (Inl e)
  then show ?thesis using valid_opD [OF appendEvent_valid [OF assms(1-5)] assms(6,7)] by simp
next
  case (Inr x)
  then show ?thesis using valid_opD [OF appendEvent_valid [OF assms(1-5)] assms(6,7)] assms(8,9)
    by (auto simp: append_outcome_def)
qed

theorem stale_writer_refused_witness:
  "isl (fst (appendEvent reference_host demo_journal demo_call (demo_append ''e1'' ''RunStarted'' 0) empty_dir))
   \<and> dir_state reference_host demo_journal (snd (appendEvent reference_host demo_journal demo_call (demo_append ''e1'' ''RunStarted'' 0) empty_dir)) [] None"
proof -
  have d: "dir_state reference_host demo_journal empty_dir [] None" by (simp add: dir_state_def clean_journal_def empty_dir_def)
  obtain r d' where a: "appendEvent reference_host demo_journal demo_call (demo_append ''e1'' ''RunStarted'' 0) empty_dir = (r, d')" by (metis surj_pair)
  have i: "leaseIdentity (own ''lease'' (demo_append ''e1'' ''RunStarted'' 0)) = Inr \<lparr> li_writerId = JStr ''writer-a'', li_fencingToken = jint 1 \<rparr>"
    by code_simp
  have "append_room []" by (simp add: append_room_def MAX_SAFE_INTEGER_def)
  from stale_writer_refused [OF reference_host_ok demo_run demo_lock_only this demo_payload d a i]
  show ?thesis using a by (simp add: holds_lease_def)
qed

text \<open>
  Once a root terminal event (completed, failed, cancelled, interrupted, orphaned) is in the
  history, no append ever extends it again, whoever makes it.
\<close>

theorem terminal_run_is_final:
  assumes "host_ok P" "re_ID (j_runId J)" "lock_only C" "append_room es"
    and "distinct_names (own ''payload'' (own ''event'' input))"
    and "dir_state P J d es lease" "appendEvent P J C input d = (r, d')"
    and "e \<in> set es" "own ''type'' e \<in> set (map JStr ROOT_TERMINAL_TYPES)"
  shows "dir_state P J d' es lease \<and> (\<forall>x. r = Inr x \<longrightarrow> \<not> ar_appended x)"
proof (cases r)
  case (Inl e)
  then show ?thesis using valid_opD [OF appendEvent_valid [OF assms(1-5)] assms(6,7)] by simp
next
  case (Inr x)
  from valid_opD [OF appendEvent_valid [OF assms(1-5)] assms(6,7)] obtain i n where
    o: "append_outcome P J es lease i (c_at C) (own ''expectedSeq'' input) (own ''expectedDigest'' input) n (Inr x) d'"
    by (auto simp: Inr)
  then have "\<not> ar_appended x" using assms(8,9) unfolding append_outcome_def sum.case by (auto simp del: set_map)
  then show ?thesis using o Inr by (simp add: append_outcome_def)
qed

theorem terminal_run_is_final_witness:
  "\<exists>e e' l. dir_state reference_host demo_journal (snd (appendEvent reference_host demo_journal demo_call (demo_append ''e3'' ''RunStarted'' 2) demo_completed)) [e, e'] l"
proof -
  obtain e e' l where d: "dir_state reference_host demo_journal demo_completed [e, e'] l" "own ''type'' e' = JStr ''RunCompleted''"
    using demo_states(3) by blast
  obtain r d' where a: "appendEvent reference_host demo_journal demo_call (demo_append ''e3'' ''RunStarted'' 2) demo_completed = (r, d')" by (metis surj_pair)
  have "append_room [e, e']" by (simp add: append_room_def MAX_SAFE_INTEGER_def)
  from terminal_run_is_final [OF reference_host_ok demo_run demo_lock_only this demo_payload d(1) a, of e'] d(2)
  show ?thesis using a by (auto simp: ROOT_TERMINAL_TYPES_def)
qed

text \<open>
  (C3) Acquiring the writer lease. A refused call changes neither history nor lease. A granted one
  either hands back the caller's own live lease unchanged, or no live lease existed and a new one
  is stored for the caller whose fencing token is one above every token ever granted, so that the
  previous holder is fenced off.
\<close>

theorem acquire_raises_token:
  assumes "host_ok P" "re_ID (j_runId J)" "lock_only C" "lease_token lease < MAX_SAFE_INTEGER"
    and "dir_state P J d es lease" "acquireWriterLease P J C proof' input d = (r, d')"
  shows "case r of Inl e \<Rightarrow> dir_state P J d' es lease
    | Inr x \<Rightarrow> (\<exists>L. lease = Some L \<and> own ''status'' L = JStr ''active'' \<and> \<not> isExpired P L (c_at C)
          \<and> own ''writerId'' L = own ''writerId'' input \<and> x = L \<and> dir_state P J d' es lease)
      \<or> (\<not> (\<exists>L. lease = Some L \<and> own ''status'' L = JStr ''active'' \<and> \<not> isExpired P L (c_at C))
         \<and> (\<exists>L'. dir_state P J d' es (Some L') \<and> lease_token (Some L') = lease_token lease + 1
              \<and> own ''status'' L' = JStr ''active'' \<and> own ''writerId'' L' = own ''writerId'' input
              \<and> (\<forall>i now. holds_lease P lease i now \<longrightarrow> \<not> holds_lease P (Some L') i now)))"
proof (cases r)
  case (Inl e)
  then show ?thesis using valid_opD [OF acquire_valid [OF assms(1-4)] assms(5,6)] by (simp add: acquire_outcome_def)
next
  case (Inr x)
  have fenced: "\<not> holds_lease P (Some L') i now"
    if "lease_token (Some L') = lease_token lease + 1" "holds_lease P lease i now" for L' i now
    using that by (auto simp: holds_lease_def lease_token_def split: jsval.splits jsnum.splits)
  from valid_opD [OF acquire_valid [OF assms(1-4)] assms(5,6)]
  show ?thesis unfolding Inr sum.case acquire_outcome_def
    using fenced by (elim disjE) blast+
qed

theorem acquire_raises_token_witness:
  "\<exists>L. dir_state reference_host demo_journal demo_leased [] (Some L) \<and> lease_token (Some L) = 1 \<and> own ''writerId'' L = JStr ''writer-a''"
proof -
  have d: "dir_state reference_host demo_journal empty_dir [] None" by (simp add: dir_state_def clean_journal_def empty_dir_def)
  obtain r where a: "acquireWriterLease reference_host demo_journal demo_call None demo_acquire empty_dir = (r, demo_leased)"
    by (metis demo_leased_def prod.collapse)
  obtain x where x: "r = Inr x" using demo_leased_eval(1) a by (cases r) auto
  have "lease_token None < MAX_SAFE_INTEGER" by (simp add: lease_token_def MAX_SAFE_INTEGER_def)
  from acquire_raises_token [OF reference_host_ok demo_run demo_lock_only this d a]
  show ?thesis using x by (auto simp: demo_acquire_def lease_token_def [of None])
qed

text \<open>
  (C6) Every directory reachable from the empty one by any sequence of acquiring, renewing,
  releasing, appending, recovering and publishing recovers cleanly, without repair and without
  change, to one chain of events.
\<close>

theorem reachable_directory_recovers:
  assumes "run_dir P J d" "host_ok P" "re_ID (j_runId J)"
  shows "\<exists>es. recoverUnsafe P J b d = (Inr (recovered P es ''CLEAN'' 0), d) \<and> event_chain P (j_runId J) es"
proof -
  obtain es l where "dir_state P J d es l" using run_dir_state [OF assms] by blast
  then show ?thesis using dir_recover dir_chain by blast
qed

theorem reachable_directory_recovers_witness:
  "\<exists>es. recoverUnsafe reference_host demo_journal False demo_leased = (Inr (recovered reference_host es ''CLEAN'' 0), demo_leased)"
  using reachable_directory_recovers [OF run_dir_leased reference_host_ok demo_run, of False] by blast

lemma createLock_busy:
  assumes "\<And>k d. c_world C k d = d" "d_lock d = Some t" "json_parse P t = Some lock"
    and "\<not> (isSafeInteger (own ''fencingToken'' lock) \<and> js_less P (own ''fencingToken'' lock) (li_fencingToken i))"
  shows "createLock P C (staleLockForLease P i) metadata n k False () d = (failRun ''STATE_LOCK_BUSY'', d)"
proof (induction n arbitrary: k)
  case (Suc n)
  have "staleLockForLease P i k () lock d = Inr (False, ())" using assms(4) by (auto simp: staleLockForLease_def)
  then show ?case using Suc assms(1-3) by (simp add: Let_def)
qed simp

text \<open>
  A lock that another operation holds is never taken away by an operation whose fencing token is
  not higher: after the configured number of attempts the caller gives up with \<open>STATE_LOCK_BUSY\<close>
  and the directory, lock included, is untouched.
\<close>

theorem held_lock_is_kept:
  assumes "\<And>k d. c_world C k d = d" "d_lock d = Some t" "json_parse P t = Some lock"
    and "\<not> (isSafeInteger (own ''fencingToken'' lock) \<and> js_less P (own ''fencingToken'' lock) (li_fencingToken i))"
  shows "withLock P J C (staleLockForLease P i) () metadata operation d = (failRun ''STATE_LOCK_BUSY'', d)"
  using createLock_busy [OF assms] by (simp add: withLock_def failRun_def)

theorem held_lock_is_kept_witness:
  "withLock reference_host demo_journal demo_call (staleLockForLease reference_host \<lparr> li_writerId = JStr ''writer-a'', li_fencingToken = jint 1 \<rparr>) ()
     JNull (\<lambda>_ d. (Inr (), d)) (empty_dir\<lparr>d_lock := Some ''{}''\<rparr>) = (failRun ''STATE_LOCK_BUSY'', empty_dir\<lparr>d_lock := Some ''{}''\<rparr>)"
proof (rule held_lock_is_kept)
  show "c_world demo_call k d = d" for k d by (simp add: demo_call_def)
  show "d_lock (empty_dir\<lparr>d_lock := Some ''{}''\<rparr>) = Some ''{}''" by simp
  show "json_parse reference_host ''{}'' = Some (JObj [])" by code_simp
qed simp

lemma validateSnapshot_facts:
  assumes "validateSnapshot P v run = Inr w"
  shows "w = v" "isObj v" "\<exists>n. own ''lastAppliedSeq'' v = jint (int n)" "\<exists>x. own ''lastEventDigest'' v = JStr x"
proof -
  have f: "w = v \<and> isObj v \<and> validateInteger 0 (own ''lastAppliedSeq'' v) = Inr () \<and> validateDigest ''INVALID_SNAPSHOT'' (own ''lastEventDigest'' v) = Inr ()"
    using assms unfolding validateSnapshot_def run_inv by auto
  then show "w = v" "isObj v" by blast+
  from f obtain n where "own ''lastAppliedSeq'' v = jint n" "0 \<le> n" by (auto simp: validateInteger_Inr)
  then show "\<exists>n. own ''lastAppliedSeq'' v = jint (int n)" by (intro exI [of _ "nat n"]) simp
  show "\<exists>x. own ''lastEventDigest'' v = JStr x" using f by (auto simp: validateDigest_Inr)
qed

text \<open>
  A snapshot that is loaded with verification is never ahead of the journal: it names a
  position the recovered journal has, and the digest of the event at that position.
\<close>

theorem snapshot_matches_journal:
  assumes load: "loadSnapshot P J True d = Inr s" "s \<noteq> JNull"
    and parsed_object: "\<And>t v. d_snapshot d = Some t \<Longrightarrow> json_parse P t = Some v \<Longrightarrow> distinct (keys v)"
  shows "\<exists>state n. fst (recoverUnsafe P J False d) = Inr state \<and> own ''lastAppliedSeq'' s = jint (int n)
     \<and> n \<le> length (rc_events state)
     \<and> own ''lastEventDigest'' s = (if n = 0 then JStr (GENESIS_EVENT_DIGEST P) else own ''eventDigest'' (rc_events state ! (n - 1)))"
proof -
  have c: "((if u = JNull then Inr JNull else k) = Inr s) = (u \<noteq> JNull \<and> k = Inr s)" for u and k :: "jsval res"
    using load(2) by auto
  obtain v w state and u :: unit where v: "readJson P (d_snapshot d) ''INVALID_SNAPSHOT'' = Inr v" "v \<noteq> JNull"
    and val': "validateSnapshot P v (j_runId J) = Inr w" and cl': "jsonClone w = Inr s"
    and rec: "fst (recoverUnsafe P J False d) = Inr state" and agrees: "snapshotAgrees P w state = Inr u"
    using load(1) unfolding loadSnapshot_def rbind_eq_Inr c not_True_eq_False if_False by blast
  have w: "w = v" using validateSnapshot_facts(1) [OF val'] .
  note val = val' [unfolded w] and cl = cl' [unfolded w]
  note f = validateSnapshot_facts [OF val]
  obtain n x where n: "own ''lastAppliedSeq'' v = jint (int n)" and x: "own ''lastEventDigest'' v = JStr x" using f by blast
  obtain ps where ps: "v = JObj ps" using f(2) by (auto simp: isObj_iff)
  have dk: "distinct (map fst ps)"
    using v parsed_object [of _ v] ps by (auto simp: readJson_def failRun_def split: option.splits)
  have cl2: "canonicalValue (JObj ps) = Inr s" using cl by (simp add: jsonClone_def ps)
  have "canonicalValue (own ''lastAppliedSeq'' v) = Inr (own ''lastAppliedSeq'' s)" "canonicalValue (own ''lastEventDigest'' v) = Inr (own ''lastEventDigest'' s)"
    unfolding ps by (rule canonicalValue_own [OF cl2 dk], use n x in \<open>simp add: ps\<close>)+
  then have s: "own ''lastAppliedSeq'' s = jint (int n)" "own ''lastEventDigest'' s = JStr x" unfolding n x by simp_all
  have "rc_lastSeq state = jint (int (length (rc_events state)))"
    using recoverUnsafe_chain [of P J False d state] rec by (metis prod.collapse)
  then have le: "n \<le> length (rc_events state)" using agrees n by (simp add: snapshotAgrees_def w)
  have "JStr x = (if n = 0 then JStr (GENESIS_EVENT_DIGEST P) else own ''eventDigest'' (rc_events state ! (n - 1)))"
    using agrees le n x by (auto simp: snapshotAgrees_def w Let_def js_eq_def split: if_splits)
  then show ?thesis using rec s le by (intro exI [of _ state] exI [of _ n]) simp
qed

definition demo_publish :: jsval where
  "demo_publish = JObj [(''lease'', demo_lease), (''expectedSeq'', jint 0), (''expectedDigest'', zero_digest),
     (''activeRevision'', jint 0), (''state'', JObj [(''phase'', JStr ''draft'')])]"

definition demo_snapshot :: disk where
  "demo_snapshot = snd (publishSnapshot reference_host demo_journal demo_call demo_publish demo_leased)"

lemma demo_snapshot_eval:
  "case d_snapshot demo_snapshot of None \<Rightarrow> False
     | Some t \<Rightarrow> (case json_parse reference_host t of None \<Rightarrow> False | Some v \<Rightarrow> distinct (keys v))"
  "case loadSnapshot reference_host demo_journal True demo_snapshot of Inl e \<Rightarrow> False | Inr s \<Rightarrow> s \<noteq> JNull \<and> own ''activeRevision'' s = jint 0"
  by code_simp+

theorem snapshot_matches_journal_witness:
  "\<exists>s n state. loadSnapshot reference_host demo_journal True demo_snapshot = Inr s
     \<and> fst (recoverUnsafe reference_host demo_journal False demo_snapshot) = Inr state
     \<and> own ''lastAppliedSeq'' s = jint (int n) \<and> n \<le> length (rc_events state)"
proof -
  obtain s where s: "loadSnapshot reference_host demo_journal True demo_snapshot = Inr s" "s \<noteq> JNull"
    using demo_snapshot_eval(2) by (auto split: sum.splits)
  have "\<exists>state n. fst (recoverUnsafe reference_host demo_journal False demo_snapshot) = Inr state \<and> own ''lastAppliedSeq'' s = jint (int n)
     \<and> n \<le> length (rc_events state)
     \<and> own ''lastEventDigest'' s = (if n = 0 then JStr (GENESIS_EVENT_DIGEST reference_host) else own ''eventDigest'' (rc_events state ! (n - 1)))"
  proof (rule snapshot_matches_journal [OF s])
    show "distinct (keys v)" if "d_snapshot demo_snapshot = Some t" "json_parse reference_host t = Some v" for t v
      using demo_snapshot_eval(1) unfolding that(1) option.case that(2) .
  qed
  then show ?thesis using s(1) by blast
qed

text \<open>
  Any sequence of recoveries and appends, by any writers in any order, only extends the
  history: the events that were there stay there, in their order, as a prefix of the new history.
\<close>

theorem history_only_grows:
  assumes "journal_log.session P J d d'" "journal_hist P J d es"
  shows "\<exists>more. journal_hist P J d' (es @ more)"
  using assms by (rule journal_log.session_extends)

theorem history_only_grows_witness:
  "\<exists>e more. journal_hist reference_host demo_journal demo_completed ([e] @ more)"
proof -
  obtain e l where e: "dir_state reference_host demo_journal demo_started [e] l" using demo_states(2) by blast
  then have h: "journal_hist reference_host demo_journal demo_started [e]"
    using reference_host_ok demo_run by (auto simp: journal_hist_def)
  have "journal_log.session reference_host demo_journal demo_started demo_completed"
  proof (rule journal_log.session.adds [OF journal_log.session.opened])
    show "journal_add reference_host demo_journal (demo_call, demo_append ''e2'' ''RunCompleted'' 1) demo_started =
      (fst (appendEvent reference_host demo_journal demo_call (demo_append ''e2'' ''RunCompleted'' 1) demo_started), demo_completed)"
      by (simp add: journal_add_def demo_completed_def)
    show "journal_fits (demo_call, demo_append ''e2'' ''RunCompleted'' 1) es" if "journal_hist reference_host demo_journal demo_started es" for es
    proof -
      have "es = [e]" using that dir_events_unique [OF e] by (auto simp: journal_hist_def)
      then show ?thesis using demo_lock_only demo_payload by (simp add: journal_fits_def append_room_def MAX_SAFE_INTEGER_def)
    qed
  qed
  from history_only_grows [OF this h] show ?thesis by blast
qed

end
