(* ===== verification/Budget_Vectors.thy ===== *)
theory Budget_Vectors
  imports Journal_Records
begin

text \<open>
  The first part of \<open>packages/subagents/policy/budget-ledger.mjs\<close> (lines 1 to 189): the budget
  resources and their aliases, resource vectors, limits and metering, and the split of a
  reservation into what was consumed and what is refunded. A vector is the list of its entries
  in the order the code inserts them; its numbers are the binary64 numbers of the code.
\<close>

section \<open>Resources\<close>

definition BUDGET_RESOURCE_LIMITS :: "(string \<times> string list) list" where
  "BUDGET_RESOURCE_LIMITS = [
     (''workflowRuns'', [''maxWorkflowRuns'']), (''phases'', [''maxPhases'']), (''planRevisions'', [''maxPlanRevisions'']),
     (''assignments'', [''maxTotalAssignments'', ''maxAssignments'']), (''iterations'', [''maxIterations'']),
     (''retries'', [''maxRetries'']), (''elapsedMs'', [''maxElapsedMs'', ''maxWallTimeMs'']), (''turns'', [''maxTurns'']),
     (''toolCalls'', [''maxToolCalls'']), (''tokens'', [''maxTokens'']), (''cost'', [''maxCost'', ''maxCostUsd'']),
     (''rawOutputBytes'', [''maxRawOutputBytes'', ''maxOutputBytes'']), (''artifactBytes'', [''maxArtifactBytes'']),
     (''writerWorktrees'', [''maxWriterWorktrees''])]"

definition RESOURCES :: "string list" where
  "RESOURCES = map fst BUDGET_RESOURCE_LIMITS"

definition DISCRETE_RESOURCES :: "string list" where
  "DISCRETE_RESOURCES = filter (\<lambda>resource. resource \<noteq> ''cost'') RESOURCES"

definition RESOURCE_ALIASES :: "(string \<times> string) list" where
  "RESOURCE_ALIASES = [
     (''wallTimeMs'', ''elapsedMs''), (''timeoutMs'', ''elapsedMs''), (''outputBytes'', ''rawOutputBytes''), (''costUsd'', ''cost''),
     (''maxAssignments'', ''assignments''), (''maxWallTimeMs'', ''elapsedMs''), (''maxElapsedMs'', ''elapsedMs''),
     (''maxTurns'', ''turns''), (''maxToolCalls'', ''toolCalls''), (''maxTokens'', ''tokens''), (''maxCost'', ''cost''),
     (''maxCostUsd'', ''cost''), (''maxOutputBytes'', ''rawOutputBytes''), (''maxRawOutputBytes'', ''rawOutputBytes''),
     (''maxArtifactBytes'', ''artifactBytes'')]"

text \<open>\<open>Number.EPSILON * 16\<close>.\<close>

definition EPSILON :: jsnum where
  "EPSILON = Fin (1 / 2 ^ 48)"

definition failBudget :: "string \<Rightarrow> 'a res" where
  "failBudget code = Inl (Thrown ''BudgetLedgerError'' code)"

definition validateBudgetId :: "jsval \<Rightarrow> string res" where
  "validateBudgetId v = (case v of JStr s \<Rightarrow> (if re_ID s then Inr s else failBudget ''INVALID_BUDGET_ID'')
     | _ \<Rightarrow> failBudget ''INVALID_BUDGET_ID'')"

definition numeric :: "string \<Rightarrow> jsval \<Rightarrow> jsnum res" where
  "numeric resource v = (case v of
     JNum n \<Rightarrow> (if \<not> num_isFinite n \<or> num_less n (Fin 0) then failBudget ''INVALID_BUDGET_VECTOR''
       else if resource \<in> set DISCRETE_RESOURCES \<and> \<not> num_isSafeInteger n then failBudget ''INVALID_BUDGET_VECTOR''
       else Inr n)
   | _ \<Rightarrow> failBudget ''INVALID_BUDGET_VECTOR'')"

section \<open>Vectors\<close>

type_synonym vector = "(string \<times> jsnum) list"

definition vecJ :: "vector \<Rightarrow> jsval" where
  "vecJ v = JObj (map (\<lambda>(resource, n). (resource, JNum n)) v)"

text \<open>\<open>v[resource] ?? 0\<close>.\<close>

definition vget :: "vector \<Rightarrow> string \<Rightarrow> jsnum" where
  "vget v resource = (case map_of v resource of None \<Rightarrow> Fin 0 | Some n \<Rightarrow> n)"

definition vectorEntry :: "vector \<Rightarrow> string \<times> jsval \<Rightarrow> vector res" where
  "vectorEntry result entry = (case entry of (inputResource, raw) \<Rightarrow>
     let resource = (case map_of RESOURCE_ALIASES inputResource of None \<Rightarrow> inputResource | Some r \<Rightarrow> r) in
     rbind (numeric resource raw) (\<lambda>value.
     case map_of result resource of
       Some old \<Rightarrow> (if old \<noteq> value then failBudget ''INVALID_BUDGET_VECTOR'' else Inr (AList.update resource value result))
     | None \<Rightarrow> Inr (AList.update resource value result)))"

definition normalizeVector :: "bool \<Rightarrow> jsval \<Rightarrow> vector res" where
  "normalizeVector allowEmpty input =
     (if \<not> isObj input then failBudget ''INVALID_BUDGET_VECTOR'' else
      if filter (\<lambda>key. key \<notin> set RESOURCES \<and> map_of RESOURCE_ALIASES key = None) (keys input) \<noteq> [] then failBudget ''INVALID_BUDGET_VECTOR'' else
      rbind (foldR vectorEntry [] (entries input)) (\<lambda>result.
      if \<not> allowEmpty \<and> \<not> list_ex (\<lambda>(resource, n). num_less (Fin 0) n) result then failBudget ''INVALID_BUDGET_VECTOR''
      else Inr result))"

text \<open>One resource of the envelope: the direct fields and the entry of \<open>hard\<close> must agree.\<close>

definition limitEntry :: "jsval \<Rightarrow> vector \<Rightarrow> string \<times> string list \<Rightarrow> vector res" where
  "limitEntry envelope limits entry = (case entry of (resource, names) \<Rightarrow>
     let nested = own resource (own ''hard'' envelope);
         directValues = filter (\<lambda>x. \<not> nullish x) (map (\<lambda>field. own field envelope) names);
         direct = (case directValues of [] \<Rightarrow> JUndef | x # _ \<Rightarrow> x) in
     if list_ex (\<lambda>x. \<not> js_eq x direct) directValues then failBudget ''INVALID_BUDGET_ENVELOPE'' else
     if direct \<noteq> JUndef \<and> nested \<noteq> JUndef \<and> \<not> js_eq direct nested then failBudget ''INVALID_BUDGET_ENVELOPE'' else
     let value = coalesce direct nested in
     if nullish value then Inr limits
     else rbind (numeric resource value) (\<lambda>n. Inr (AList.update resource n limits)))"

definition normalizeLimits :: "jsval \<Rightarrow> vector res" where
  "normalizeLimits input =
     (let envelope = (if input = JUndef then JObj [] else input) in
      if \<not> isObj envelope then failBudget ''INVALID_BUDGET_ENVELOPE''
      else foldR (limitEntry envelope) [] BUDGET_RESOURCE_LIMITS)"

section \<open>Metering\<close>

definition meteringAvailable :: "jsval \<Rightarrow> string \<Rightarrow> bool" where
  "meteringAvailable metering resource =
     (let value = coalesce (own resource metering) (if resource = ''cost'' then own ''costUsd'' metering else JUndef) in
      value = JBool True \<or> value = JStr ''AVAILABLE'' \<or> value = JStr ''METERED'')"

definition ensureMetering :: "vector \<Rightarrow> vector \<Rightarrow> jsval \<Rightarrow> unit res" where
  "ensureMetering limits vec metering =
     (if list_ex (\<lambda>resource. (map_of limits resource \<noteq> None \<or> map_of vec resource \<noteq> None) \<and> \<not> meteringAvailable metering resource)
           [''tokens'', ''cost'']
      then failBudget ''METERING_UNAVAILABLE'' else Inr ())"

definition ensureHardMeteredReservation :: "vector \<Rightarrow> vector \<Rightarrow> unit res" where
  "ensureHardMeteredReservation limits vec =
     (if list_ex (\<lambda>resource. map_of limits resource \<noteq> None \<and> map_of vec resource = None) [''tokens'', ''cost'']
      then failBudget ''BUDGET_RESERVATION_INCOMPLETE'' else Inr ())"

section \<open>Arithmetic on vectors\<close>

definition addVector :: "vector \<Rightarrow> vector \<Rightarrow> vector" where
  "addVector target vec = foldl (\<lambda>acc (resource, n). AList.update resource (num_add (vget acc resource) n) acc) target vec"

definition equalVector :: "platform \<Rightarrow> vector \<Rightarrow> vector \<Rightarrow> bool res" where
  "equalVector P left right = rbind (canonicalJson P (vecJ left)) (\<lambda>a. rbind (canonicalJson P (vecJ right)) (\<lambda>b. Inr (a = b)))"

definition closeNumber :: "jsnum \<Rightarrow> jsnum \<Rightarrow> bool" where
  "closeNumber left right =
     num_le (num_abs (num_sub left right)) (num_mul EPSILON (num_max (num_max (Fin 1) (num_abs left)) (num_abs right)))"

definition closeVector :: "vector \<Rightarrow> vector \<Rightarrow> bool" where
  "closeVector left right = list_all (\<lambda>resource. closeNumber (vget left resource) (vget right resource)) (map fst left @ map fst right)"

definition zeroVectorLike :: "vector \<Rightarrow> vector" where
  "zeroVectorLike vec = map (\<lambda>(resource, n). (resource, Fin 0)) vec"

text \<open>The test of every limit: above it, and not only by rounding.\<close>

definition exceeds :: "jsnum \<Rightarrow> jsnum \<Rightarrow> bool" where
  "exceeds value limit \<longleftrightarrow> num_less limit value \<and> \<not> closeNumber value limit"

definition completeActual :: "vector \<Rightarrow> jsval \<Rightarrow> (vector \<times> vector) res" where
  "completeActual reserved actualInput =
     rbind (normalizeVector True (coalesce actualInput (JObj []))) (\<lambda>actual.
     if filter (\<lambda>resource. map_of reserved resource = None) (map fst actual) \<noteq> [] then failBudget ''ACTUAL_OUTSIDE_RESERVATION'' else
     if list_ex (\<lambda>(resource, reservedValue). exceeds (vget actual resource) reservedValue) reserved then failBudget ''ACTUAL_EXCEEDS_RESERVATION'' else
     Inr (map (\<lambda>(resource, reservedValue). (resource, vget actual resource)) reserved,
          map (\<lambda>(resource, reservedValue). (resource, num_max (Fin 0) (num_sub reservedValue (vget actual resource)))) reserved))"

end
