(* ===== verification/Budget_Ledger.thy ===== *)
theory Budget_Ledger
  imports Budget_Vectors Event_Journal
begin

text \<open>
  The reservation ledger, \<open>packages/subagents/policy/budget-ledger.mjs\<close>, lines 191 to 588. The
  ledger has no state of its own: every operation recovers the run's journal, rebuilds the budget
  from its events and appends one event, guarded by the journal's compare-and-set. An operation
  is therefore a journal operation (\<open>'a op\<close>); \<open>K n\<close> is what its \<open>n\<close>-th journal call meets,
  three per attempt.
\<close>

section \<open>Rebuilding the budget from events\<close>

datatype budget_event =
    BudgetReserved (be_id: string) (be_owner: string) (be_worstCase: vector)
  | BudgetSettled (be_id: string) (be_owner: string) (be_refund: bool) (be_reserved: vector) (be_consumed: vector) (be_refunded: vector)

definition BUDGET_EVENT_TYPES :: "string list" where
  "BUDGET_EVENT_TYPES = [''BudgetReserved'', ''BudgetConsumed'', ''BudgetRefunded'']"

definition validateBudgetEvent :: "jsval \<Rightarrow> budget_event res" where
  "validateBudgetEvent event =
     (let payload = own ''payload'' event in
      if \<not> isObj payload then failBudget ''BUDGET_JOURNAL_CORRUPT'' else
      rbind (validateBudgetId (own ''reservationId'' payload)) (\<lambda>reservationId.
      rbind (validateBudgetId (own ''ownerId'' payload)) (\<lambda>ownerId.
      if own ''type'' event = JStr ''BudgetReserved'' then
        (if sort (keys payload) \<noteq> [''ownerId'', ''reservationId'', ''worstCase''] then failBudget ''BUDGET_JOURNAL_CORRUPT'' else
         rbind (normalizeVector False (own ''worstCase'' payload)) (\<lambda>worstCase. Inr (BudgetReserved reservationId ownerId worstCase)))
      else if own ''type'' event \<in> {JStr ''BudgetConsumed'', JStr ''BudgetRefunded''} then
        (if sort (keys payload) \<noteq> [''consumed'', ''ownerId'', ''refunded'', ''reservationId'', ''reserved'']
         then failBudget ''BUDGET_JOURNAL_CORRUPT'' else
         rbind (normalizeVector False (own ''reserved'' payload)) (\<lambda>reserved.
         rbind (normalizeVector True (own ''consumed'' payload)) (\<lambda>consumed.
         rbind (normalizeVector True (own ''refunded'' payload)) (\<lambda>refunded.
         Inr (BudgetSettled reservationId ownerId (own ''type'' event = JStr ''BudgetRefunded'') reserved consumed refunded)))))
      else failBudget ''BUDGET_JOURNAL_CORRUPT'')))"

record reservation =
  r_id :: string
  r_owner :: string
  r_worstCase :: vector
  r_status :: string
  r_reservedSeq :: jsval
  r_settledSeq :: jsval
  r_consumed :: "vector option"
  r_refunded :: "vector option"

type_synonym account = "reservation list \<times> vector"

definition byId :: "reservation list \<Rightarrow> string \<Rightarrow> reservation option" where
  "byId rs i = find (\<lambda>r. r_id r = i) rs"

definition settleIn :: "string \<Rightarrow> (reservation \<Rightarrow> reservation) \<Rightarrow> reservation list \<Rightarrow> reservation list" where
  "settleIn i f rs = map (\<lambda>r. if r_id r = i then f r else r) rs"

text \<open>One event of the loop: new reservations are added at the end, a settlement changes its own.\<close>

definition applyBudgetEvent :: "platform \<Rightarrow> account \<Rightarrow> jsval \<Rightarrow> account res" where
  "applyBudgetEvent P acc event = (case acc of (reservations, consumed) \<Rightarrow>
     if \<not> truthy event \<or> own ''type'' event \<notin> set (map JStr BUDGET_EVENT_TYPES) then Inr (reservations, consumed) else
     rbind (validateBudgetEvent event) (\<lambda>payload.
     case payload of
       BudgetReserved reservationId ownerId worstCase \<Rightarrow>
         (if byId reservations reservationId \<noteq> None then failBudget ''BUDGET_JOURNAL_CORRUPT'' else
          Inr (reservations @ [\<lparr> r_id = reservationId, r_owner = ownerId, r_worstCase = worstCase, r_status = ''reserved'',
                 r_reservedSeq = own ''seq'' event, r_settledSeq = JNull, r_consumed = None, r_refunded = None \<rparr>], consumed))
     | BudgetSettled reservationId ownerId refund reserved consumedNow refundedNow \<Rightarrow>
         (case byId reservations reservationId of
            None \<Rightarrow> failBudget ''BUDGET_JOURNAL_CORRUPT''
          | Some current \<Rightarrow>
              if r_status current \<noteq> ''reserved'' then failBudget ''BUDGET_JOURNAL_CORRUPT'' else
              rbind (if ownerId \<noteq> r_owner current then Inr False else equalVector P reserved (r_worstCase current)) (\<lambda>same.
              if \<not> same then failBudget ''BUDGET_JOURNAL_CORRUPT'' else
              if \<not> closeVector (addVector (addVector [] consumedNow) refundedNow) (r_worstCase current) then failBudget ''BUDGET_JOURNAL_CORRUPT'' else
              Inr (settleIn reservationId (\<lambda>r. r\<lparr> r_status := (if refund then ''refunded'' else ''consumed''),
                     r_settledSeq := own ''seq'' event, r_consumed := Some consumedNow, r_refunded := Some refundedNow \<rparr>) reservations,
                   addVector consumed consumedNow)))))"

record budget =
  b_limits :: vector
  b_consumed :: vector
  b_outstanding :: vector
  b_committed :: vector
  b_available :: vector
  b_reservations :: "reservation list"

text \<open>\<open>jsonClone\<close> of a reservation: the entries of its vectors come out in key order.\<close>

definition cloneVector :: "vector \<Rightarrow> vector res" where
  "cloneVector v = (if list_all (\<lambda>(resource, n). num_isFinite n) v then Inr (sort_key fst v) else Inl TypeError)"

definition cloneVectorOption :: "vector option \<Rightarrow> vector option res" where
  "cloneVectorOption o' = (case o' of None \<Rightarrow> Inr None | Some v \<Rightarrow> rbind (cloneVector v) (\<lambda>w. Inr (Some w)))"

definition cloneReservation :: "reservation \<Rightarrow> reservation res" where
  "cloneReservation r =
     rbind (cloneVector (r_worstCase r)) (\<lambda>worstCase.
     rbind (jsonClone (r_reservedSeq r)) (\<lambda>reservedSeq.
     rbind (jsonClone (r_settledSeq r)) (\<lambda>settledSeq.
     rbind (cloneVectorOption (r_consumed r)) (\<lambda>consumed.
     rbind (cloneVectorOption (r_refunded r)) (\<lambda>refunded.
     Inr (r\<lparr> r_worstCase := worstCase, r_reservedSeq := reservedSeq, r_settledSeq := settledSeq,
             r_consumed := consumed, r_refunded := refunded \<rparr>))))))"

definition outstandingOf :: "reservation list \<Rightarrow> vector" where
  "outstandingOf rs = foldl (\<lambda>acc r. if r_status r = ''reserved'' then addVector acc (r_worstCase r) else acc) [] rs"

definition availableOf :: "vector \<Rightarrow> vector \<Rightarrow> vector" where
  "availableOf limits committed = List.map_filter (\<lambda>resource. case map_of limits resource of None \<Rightarrow> None
     | Some limit \<Rightarrow> Some (resource, num_max (Fin 0) (num_sub limit (vget committed resource)))) RESOURCES"

definition rebuildBudgetStateFromEvents :: "platform \<Rightarrow> jsval list \<Rightarrow> jsval \<Rightarrow> budget res" where
  "rebuildBudgetStateFromEvents P events envelope =
     rbind (normalizeLimits envelope) (\<lambda>limits.
     rbind (foldR (applyBudgetEvent P) ([], []) events) (\<lambda>(reservations, consumed).
     let outstanding = outstandingOf reservations;
         committed = addVector (addVector [] consumed) outstanding in
     if list_ex (\<lambda>(resource, limit). exceeds (vget committed resource) limit) limits then failBudget ''BUDGET_JOURNAL_OVERSPENT'' else
     rbind (mapR cloneReservation (sort_by (\<lambda>a b. locale_le P (r_id a) (r_id b)) reservations)) (\<lambda>ordered.
     Inr \<lparr> b_limits = limits, b_consumed = consumed, b_outstanding = outstanding, b_committed = committed,
           b_available = availableOf limits committed, b_reservations = ordered \<rparr>)))"

definition reservationById :: "budget \<Rightarrow> string \<Rightarrow> reservation option" where
  "reservationById state reservationId = byId (b_reservations state) reservationId"

definition assertCapacity :: "budget \<Rightarrow> vector \<Rightarrow> unit res" where
  "assertCapacity state worstCase =
     (let upcoming = addVector (b_committed state) worstCase in
      if list_ex (\<lambda>(resource, limit). exceeds (vget upcoming resource) limit) (b_limits state)
      then failBudget ''BUDGET_EXHAUSTED'' else Inr ())"

definition expectedMatches :: "jsval \<Rightarrow> recovery \<Rightarrow> bool res" where
  "expectedMatches expectedVersion journalState =
     (if nullish expectedVersion then Inr True else
      if isSafeInteger expectedVersion then Inr (js_eq (rc_lastSeq journalState) expectedVersion) else
      if isObj expectedVersion then
        (let seq = coalesce (own ''seq'' expectedVersion) (own ''lastSeq'' expectedVersion);
             digest = coalesce (own ''digest'' expectedVersion) (own ''lastEventDigest'' expectedVersion) in
         Inr (js_eq (rc_lastSeq journalState) seq \<and> (digest = JUndef \<or> js_eq (rc_lastEventDigest journalState) digest)))
      else failBudget ''INVALID_EXPECTED_VERSION'')"

section \<open>The ledger of a run\<close>

record ledger =
  lg_envelope :: jsval
  lg_limits :: vector
  lg_metering :: jsval
  lg_retries :: nat

definition createBudgetReservationLedger :: "jsval \<Rightarrow> jsval \<Rightarrow> jsval \<Rightarrow> ledger res" where
  "createBudgetReservationLedger envelopeInput meteringInput maxCasRetriesInput =
     rbind (jsonClone (coalesce envelopeInput (JObj []))) (\<lambda>envelope.
     rbind (normalizeLimits envelope) (\<lambda>limits.
     let metering = spread (JObj []) (coalesce meteringInput (JObj []));
         maxCasRetries = coalesce maxCasRetriesInput (jint 8) in
     case maxCasRetries of
       JNum (Fin a) \<Rightarrow> (if \<not> num_isSafeInteger (Fin a) \<or> a < 1 then Inl TypeError
         else Inr \<lparr> lg_envelope = envelope, lg_limits = limits, lg_metering = metering, lg_retries = nat \<lfloor>a\<rfloor> \<rparr>)
     | _ \<Rightarrow> Inl TypeError))"

record budget_result =
  br_status :: string
  br_reservation :: "reservation option"
  br_seq :: jsval
  br_digest :: jsval
  br_budget :: budget

definition durableState :: "platform \<Rightarrow> journal \<Rightarrow> ledger \<Rightarrow> call \<Rightarrow> jsval \<Rightarrow> (recovery \<times> budget) op" where
  "durableState P J L C lease =
     obind (recover P J C True lease) (\<lambda>recovered.
     obind (olift (rebuildBudgetStateFromEvents P (rc_events recovered) (lg_envelope L))) (\<lambda>budget.
     olift (Inr (recovered, budget))))"

definition budgetSnapshot :: "platform \<Rightarrow> journal \<Rightarrow> ledger \<Rightarrow> call \<Rightarrow> jsval \<Rightarrow> (jsval \<times> jsval \<times> budget) op" where
  "budgetSnapshot P J L C input =
     obind (recover P J C (js_eq (own ''repairTrailingPartial'' input) (JBool True)) (own ''lease'' input)) (\<lambda>recovered.
     obind (olift (rebuildBudgetStateFromEvents P (rc_events recovered) (lg_envelope L))) (\<lambda>budget.
     olift (Inr (rc_lastSeq recovered, rc_lastEventDigest recovered, budget))))"

text \<open>A result read off a recovered state.\<close>

definition resultOf :: "string \<Rightarrow> reservation option \<Rightarrow> jsval \<Rightarrow> jsval \<Rightarrow> budget \<Rightarrow> budget_result" where
  "resultOf status reservation seq digest budget =
     \<lparr> br_status = status, br_reservation = reservation, br_seq = seq, br_digest = digest, br_budget = budget \<rparr>"

text \<open>
  The \<open>try\<close> block of both operations: append the event, then read the outcome. \<open>late\<close>, \<open>duplicate\<close>
  and \<open>done\<close> are the three status words of the caller.
\<close>

definition appendBudgetEvent :: "platform \<Rightarrow> journal \<Rightarrow> ledger \<Rightarrow> call \<Rightarrow> call \<Rightarrow> jsval \<Rightarrow> recovery \<Rightarrow> jsval \<Rightarrow> string \<Rightarrow> string \<Rightarrow> string
    \<Rightarrow> budget_result op" where
  "appendBudgetEvent P J L C1 C2 lease found event reservationId duplicate fresh =
     obind (appendEvent P J C1 (JObj [(''lease'', lease), (''expectedSeq'', rc_lastSeq found),
              (''expectedDigest'', rc_lastEventDigest found), (''event'', event)])) (\<lambda>result.
     if ar_status result = ''LATE_EVENT'' then olift (failBudget ''BUDGET_EVENT_LATE'') else
     if ar_status result = ''DUPLICATE_EVENT'' then
       obind (durableState P J L C2 lease) (\<lambda>(again, budget).
       olift (Inr (resultOf duplicate (reservationById budget reservationId) (rc_lastSeq again) (rc_lastEventDigest again) budget)))
     else
       obind (olift (rebuildBudgetStateFromEvents P (filter truthy (rc_events found @ [ar_event result])) (lg_envelope L))) (\<lambda>upcoming.
       olift (Inr (resultOf fresh (reservationById upcoming reservationId) (ar_lastSeq result) (ar_lastEventDigest result) upcoming))))"

text \<open>The \<open>catch\<close> block: a lost compare-and-set race is retried, when the caller did not fix a version.\<close>

definition casLost :: "jsval \<Rightarrow> nat \<Rightarrow> js_error \<Rightarrow> bool" where
  "casLost expectedVersion remaining e \<longleftrightarrow>
     (case e of Thrown c code \<Rightarrow> code = ''JOURNAL_CAS_MISMATCH'' | TypeError \<Rightarrow> False) \<and> nullish expectedVersion \<and> 0 < remaining"

definition retrying :: "jsval \<Rightarrow> nat \<Rightarrow> 'a op \<Rightarrow> 'a op \<Rightarrow> 'a op" where
  "retrying expectedVersion remaining attempt again d =
     (case attempt d of (Inl e, d') \<Rightarrow> (if casLost expectedVersion remaining e then again d' else (Inl e, d'))
      | (Inr x, d') \<Rightarrow> (Inr x, d'))"

section \<open>Reserving\<close>

definition reserve_event :: "jsval \<Rightarrow> jsval \<Rightarrow> string \<Rightarrow> string \<Rightarrow> vector \<Rightarrow> jsval" where
  "reserve_event reservation input reservationId ownerId worstCase = JObj [
     (''eventId'', JStr (''budget-reserved:'' @ reservationId)), (''type'', JStr ''BudgetReserved''),
     (''revision'', coalesce (own ''revision'' input) (jint 0)),
     (''nodeId'', coalesce (own ''nodeId'' reservation) JNull), (''attemptId'', coalesce (own ''attemptId'' reservation) JNull),
     (''payload'', JObj [(''reservationId'', JStr reservationId), (''ownerId'', JStr ownerId), (''worstCase'', vecJ worstCase)])]"

fun reserveLoop :: "platform \<Rightarrow> journal \<Rightarrow> ledger \<Rightarrow> (nat \<Rightarrow> call) \<Rightarrow> jsval \<Rightarrow> jsval \<Rightarrow> string \<Rightarrow> string \<Rightarrow> vector
    \<Rightarrow> nat \<Rightarrow> nat \<Rightarrow> budget_result op" where
  "reserveLoop P J L K reservation input reservationId ownerId worstCase 0 k = olift (failBudget ''BUDGET_CAS_RETRY_EXHAUSTED'')"
| "reserveLoop P J L K reservation input reservationId ownerId worstCase (Suc n) k =
     obind (olift (prop_of ''lease'' input)) (\<lambda>lease.
     obind (durableState P J L (K k) lease) (\<lambda>(recovered, budget).
     obind (olift (expectedMatches (own ''expectedVersion'' input) recovered)) (\<lambda>matches.
     if \<not> matches then olift (failBudget ''BUDGET_VERSION_MISMATCH'') else
     case reservationById budget reservationId of
       Some existing \<Rightarrow>
         obind (olift (if r_owner existing \<noteq> ownerId then Inr False else equalVector P (r_worstCase existing) worstCase)) (\<lambda>same.
         if \<not> same then olift (failBudget ''RESERVATION_CONFLICT'') else
         olift (Inr (resultOf (if r_status existing = ''reserved'' then ''ALREADY_RESERVED'' else ''ALREADY_SETTLED'') (Some existing)
           (rc_lastSeq recovered) (rc_lastEventDigest recovered) budget)))
     | None \<Rightarrow>
         obind (olift (assertCapacity budget worstCase)) (\<lambda>_.
         retrying (own ''expectedVersion'' input) n
           (appendBudgetEvent P J L (K (k + 1)) (K (k + 2)) lease recovered
              (reserve_event reservation input reservationId ownerId worstCase) reservationId ''ALREADY_RESERVED'' ''RESERVED'')
           (reserveLoop P J L K reservation input reservationId ownerId worstCase n (k + 3))))))"

definition reserve :: "platform \<Rightarrow> journal \<Rightarrow> ledger \<Rightarrow> (nat \<Rightarrow> call) \<Rightarrow> jsval \<Rightarrow> jsval \<Rightarrow> budget_result op" where
  "reserve P J L K reservation input =
     (if \<not> isObj reservation then olift (failBudget ''INVALID_RESERVATION'') else
      obind (olift (validateBudgetId (own ''reservationId'' reservation))) (\<lambda>reservationId.
      obind (olift (validateBudgetId (own ''ownerId'' reservation))) (\<lambda>ownerId.
      obind (olift (normalizeVector False (own ''worstCase'' reservation))) (\<lambda>worstCase.
      obind (olift (ensureMetering (lg_limits L) worstCase (lg_metering L))) (\<lambda>_.
      obind (olift (ensureHardMeteredReservation (lg_limits L) worstCase)) (\<lambda>_.
      reserveLoop P J L K reservation (defaulted input) reservationId ownerId worstCase (lg_retries L) 0))))))"

section \<open>Settling\<close>

definition settle_event :: "jsval \<Rightarrow> string \<Rightarrow> reservation \<Rightarrow> vector \<Rightarrow> vector \<Rightarrow> bool \<Rightarrow> jsval" where
  "settle_event input reservationId existing consumed refunded fullyRefunded = JObj [
     (''eventId'', JStr (''budget-settled:'' @ reservationId)),
     (''type'', JStr (if fullyRefunded then ''BudgetRefunded'' else ''BudgetConsumed'')),
     (''revision'', coalesce (own ''revision'' input) (jint 0)),
     (''nodeId'', coalesce (own ''nodeId'' input) JNull), (''attemptId'', coalesce (own ''attemptId'' input) JNull),
     (''payload'', JObj [(''reservationId'', JStr reservationId), (''ownerId'', JStr (r_owner existing)),
        (''reserved'', vecJ (r_worstCase existing)), (''consumed'', vecJ consumed), (''refunded'', vecJ refunded)])]"

text \<open>What the settlement asks for: the completed vectors, checked against an explicit refund.\<close>

definition settlementTerminal :: "platform \<Rightarrow> reservation \<Rightarrow> jsval \<Rightarrow> (vector \<times> vector) res" where
  "settlementTerminal P existing settlement =
     rbind (prop_of ''consumed'' settlement) (\<lambda>actualInput.
     rbind (completeActual (r_worstCase existing) (coalesce actualInput (JObj []))) (\<lambda>(consumed, refunded).
     if own ''refunded'' settlement = JUndef then Inr (consumed, refunded) else
     rbind (normalizeVector True (own ''refunded'' settlement)) (\<lambda>explicitRefund.
     rbind (equalVector P explicitRefund refunded) (\<lambda>same.
     if \<not> same then failBudget ''INVALID_SETTLEMENT'' else Inr (consumed, refunded)))))"

fun settleLoop :: "platform \<Rightarrow> journal \<Rightarrow> ledger \<Rightarrow> (nat \<Rightarrow> call) \<Rightarrow> string \<Rightarrow> jsval \<Rightarrow> jsval \<Rightarrow> nat \<Rightarrow> nat \<Rightarrow> budget_result op" where
  "settleLoop P J L K reservationId settlement input 0 k = olift (failBudget ''BUDGET_CAS_RETRY_EXHAUSTED'')"
| "settleLoop P J L K reservationId settlement input (Suc n) k =
     obind (olift (prop_of ''lease'' input)) (\<lambda>lease.
     obind (durableState P J L (K k) lease) (\<lambda>(recovered, budget).
     obind (olift (expectedMatches (own ''expectedVersion'' input) recovered)) (\<lambda>matches.
     if \<not> matches then olift (failBudget ''BUDGET_VERSION_MISMATCH'') else
     case reservationById budget reservationId of
       None \<Rightarrow> olift (failBudget ''RESERVATION_NOT_FOUND'')
     | Some existing \<Rightarrow>
         obind (olift (settlementTerminal P existing settlement)) (\<lambda>(consumed, refunded).
         if r_status existing \<noteq> ''reserved'' then
           obind (olift (rbind (equalVector P (case r_consumed existing of None \<Rightarrow> [] | Some v \<Rightarrow> v) consumed) (\<lambda>a.
              if \<not> a then Inr False else equalVector P (case r_refunded existing of None \<Rightarrow> [] | Some v \<Rightarrow> v) refunded))) (\<lambda>same.
           if same then olift (Inr (resultOf ''ALREADY_SETTLED'' (Some existing) (rc_lastSeq recovered) (rc_lastEventDigest recovered) budget))
           else olift (failBudget ''RESERVATION_ALREADY_SETTLED''))
         else
           obind (olift (ensureMetering (lg_limits L) consumed (lg_metering L))) (\<lambda>_.
           obind (olift (equalVector P consumed (zeroVectorLike (r_worstCase existing)))) (\<lambda>fullyRefunded.
           retrying (own ''expectedVersion'' input) n
             (appendBudgetEvent P J L (K (k + 1)) (K (k + 2)) lease recovered
                (settle_event input reservationId existing consumed refunded fullyRefunded) reservationId
                ''ALREADY_SETTLED'' (if fullyRefunded then ''REFUNDED'' else ''CONSUMED''))
             (settleLoop P J L K reservationId settlement input n (k + 3))))))))"

definition settle :: "platform \<Rightarrow> journal \<Rightarrow> ledger \<Rightarrow> (nat \<Rightarrow> call) \<Rightarrow> jsval \<Rightarrow> jsval \<Rightarrow> jsval \<Rightarrow> budget_result op" where
  "settle P J L K reservationId settlement input =
     obind (olift (validateBudgetId reservationId)) (\<lambda>i.
     settleLoop P J L K i (defaulted settlement) (defaulted input) (lg_retries L) 0)"

definition refund :: "platform \<Rightarrow> journal \<Rightarrow> ledger \<Rightarrow> (nat \<Rightarrow> call) \<Rightarrow> jsval \<Rightarrow> jsval \<Rightarrow> budget_result op" where
  "refund P J L K reservationId input = settle P J L K reservationId (JObj [(''consumed'', JObj [])]) input"

section \<open>The manager of the ledgers\<close>

text \<open>\<open>controlsForRun\<close>, with the lease the provider or the journal manager hands out.\<close>

definition controlsForRun :: "jsval \<Rightarrow> jsval \<Rightarrow> jsval res" where
  "controlsForRun providedLease input =
     (let input' = defaulted input in
      rbind (prop_of ''lease'' input') (\<lambda>lease.
      if lease \<noteq> JUndef then Inr input' else Inr (oset ''lease'' providedLease (spread (JObj []) input'))))"

definition managedReserve :: "platform \<Rightarrow> journal \<Rightarrow> ledger \<Rightarrow> (nat \<Rightarrow> call) \<Rightarrow> jsval \<Rightarrow> jsval \<Rightarrow> jsval \<Rightarrow> budget_result op" where
  "managedReserve P J L K providedLease reservation input =
     obind (olift (controlsForRun providedLease input)) (\<lambda>controls. reserve P J L K reservation controls)"

definition inlineControls :: "jsval \<Rightarrow> jsval \<Rightarrow> jsval" where
  "inlineControls settlement input =
     JObj (List.map_filter (\<lambda>key. if own key settlement \<noteq> JUndef \<and> own key input = JUndef then Some (key, own key settlement) else None)
       [''lease'', ''expectedVersion'', ''revision'', ''nodeId'', ''attemptId''])"

definition managedSettle :: "platform \<Rightarrow> journal \<Rightarrow> ledger \<Rightarrow> (nat \<Rightarrow> call) \<Rightarrow> jsval \<Rightarrow> jsval \<Rightarrow> jsval \<Rightarrow> jsval \<Rightarrow> budget_result op" where
  "managedSettle P J L K providedLease reservationId settlement input =
     (let settlement' = defaulted settlement; input' = defaulted input in
      obind (olift (prop_of ''lease'' settlement')) (\<lambda>_.
      obind (olift (if list_ex (\<lambda>key. own key settlement' \<noteq> JUndef) [''lease'', ''expectedVersion'', ''revision'', ''nodeId'', ''attemptId'']
                    then prop_of ''lease'' input' else Inr JUndef)) (\<lambda>_.
      obind (olift (controlsForRun providedLease (spread (inlineControls settlement' input') input'))) (\<lambda>controls.
      settle P J L K reservationId
        (JObj ((''consumed'', own ''consumed'' settlement')
               # (if own ''refunded'' settlement' = JUndef then [] else [(''refunded'', own ''refunded'' settlement')]))) controls))))"

definition managedRefund :: "platform \<Rightarrow> journal \<Rightarrow> ledger \<Rightarrow> (nat \<Rightarrow> call) \<Rightarrow> jsval \<Rightarrow> jsval \<Rightarrow> jsval \<Rightarrow> budget_result op" where
  "managedRefund P J L K providedLease reservationId input =
     obind (olift (controlsForRun providedLease input)) (\<lambda>controls. refund P J L K reservationId controls)"

end
