(* ===== verification/Budget_Proofs.thy ===== *)
theory Budget_Proofs
  imports Budget_Ledger
begin

text \<open>
  Facts about the budget that a journal rebuilds to. The numbers of the ledger are binary64, so a
  sum may round; \<open>tracks\<close> relates such a sum to the exact integer it stands for, and the tolerance
  of \<open>closeNumber\<close> is shown to be harmless for discrete resources below \<open>2 ^ 46\<close>. On top of it:
  the well-formedness of every rebuilt account, the total of what it charges, and the
  conservation of a reservation by its settlement.
\<close>

section \<open>Exactness of discrete amounts\<close>

lemma ilog2_four: "0 < x \<Longrightarrow> ilog2 x + 2 \<le> ilog2 (4 * x)"
proof -
  assume x: "0 < x"
  have "(2::rat) powi (ilog2 x + 2) = 4 * 2 powi (ilog2 x)" by (simp add: power_int_add)
  also have "\<dots> \<le> 4 * x" using ilog2_bounds(1) [OF x] by simp
  also have "\<dots> < 2 powi (ilog2 (4 * x) + 1)" using ilog2_bounds(2) [of "4 * x"] x by simp
  finally show ?thesis by (simp add: powi_two_less_iff)
qed

lemma ilog2_ge: "0 < x \<Longrightarrow> 2 powi k \<le> x \<Longrightarrow> k \<le> ilog2 x"
  using ilog2_bounds(2) [of x] by (meson le_less_trans powi_two_less_iff zless_add1_eq linorder_not_le order_less_le_trans zle_add1_eq_le)

lemma ilog2_less: "0 < x \<Longrightarrow> x < 2 powi k \<Longrightarrow> ilog2 x < k"
  using ilog2_bounds(1) [of x] by (meson le_less_trans powi_two_less_iff)

text \<open>Rounding keeps a factor of four apart.\<close>

lemma fl_pos_quadruple:
  assumes "2 powi (- 48) \<le> x" "4 * x \<le> y"
  shows "fl_pos x < fl_pos y"
proof -
  have x: "0 < x" using assms(1) by (meson less_le_trans zero_less_numeral zero_less_power_int)
  have n: "- 48 \<le> ilog2 x" using ilog2_ge [OF x assms(1)] .
  have "ilog2 x + 2 \<le> ilog2 y" using ilog2_four [OF x] ilog2_mono [of "4 * x" y] x assms(2) by linarith
  have "fl_pos x \<le> 2 powi (ulp_exp x + 53)" using significand_upper [OF x] .
  also have "ulp_exp x + 53 = ilog2 x + 1" using n by (simp add: ulp_exp_def)
  also have "(2::rat) powi (ilog2 x + 1) < 2 powi (ilog2 y)" using \<open>ilog2 x + 2 \<le> ilog2 y\<close> by (simp add: powi_two_less_iff)
  also have "\<dots> \<le> fl_pos y" by (rule significand_lower) (use x assms(2) n \<open>ilog2 x + 2 \<le> ilog2 y\<close> in \<open>auto simp: ulp_exp_def\<close>)
  finally show ?thesis .
qed

lemma num_abs_fl: "num_abs (fl z) = fl \<bar>z\<bar>"
  using fl_pos_nonneg [of z] fl_pos_nonneg [of "- z"] by (auto simp: fl_def Let_def)

lemma not_closeNumber:
  assumes "0 \<le> a" "0 \<le> b" and gap: "1 \<le> \<bar>a - b\<bar>" and rel: "max 1 (max a b) \<le> 2 ^ 46 * \<bar>a - b\<bar>" and fin: "max 1 (max a b) < 2 ^ 1024"
  shows "\<not> closeNumber (Fin a) (Fin b)"
proof -
  define M where "M = max 1 (max a b)"
  have M: "1 \<le> M" by (simp add: M_def)
  have mx: "num_max (num_max (Fin 1) (num_abs (Fin a))) (num_abs (Fin b)) = Fin M"
    using assms(1,2) by (auto simp: num_max_def M_def)
  define x where "x = 1 / 2 ^ 48 * M"
  have "(2::rat) powi (- 48) = 1 / 2 ^ 48 * 1" unfolding power_int_minus power_int_numeral inverse_eq_divide by (simp only: mult_1_right)
  also have "\<dots> \<le> x" unfolding x_def using M by (intro mult_left_mono) simp_all
  finally have x: "2 powi (- 48) \<le> x" .
  have x0: "0 < x" using M by (simp add: x_def)
  have "4 * x \<le> \<bar>a - b\<bar>" using rel by (simp add: x_def M_def)
  from fl_pos_quadruple [OF x this] have lt: "fl_pos x < fl_pos \<bar>a - b\<bar>" .
  have "x < 2 powi 1000"
  proof -
    define K :: rat where "K = 2 ^ 976"
    have "(2::rat) ^ 1024 = 2 ^ 48 * K" unfolding K_def by (simp only: power_add [symmetric]) simp
    then have "M < 2 ^ 48 * K" using fin by (simp add: M_def)
    then have "x < K" by (simp add: x_def)
    also have "K = 2 powi 976" unfolding K_def by (simp only: power_int_numeral)
    also have "(2::rat) powi 976 < 2 powi 1000" by (simp only: powi_two_less_iff)
    finally show ?thesis .
  qed
  then have "ilog2 x < 1022" using ilog2_less [OF x0] by fastforce
  then have right: "num_mul EPSILON (Fin M) = Fin (fl_pos x)"
    using fl_pos_no_overflow [OF x0] x0 by (simp add: EPSILON_def fl_def Let_def x_def)
  have left: "num_abs (num_sub (Fin a) (Fin b)) = fl \<bar>a - b\<bar>" by (simp add: num_sub_def num_abs_fl)
  have "\<not> num_le (fl \<bar>a - b\<bar>) (Fin (fl_pos x))" using gap lt by (auto simp: fl_def Let_def)
  then show ?thesis unfolding closeNumber_def mx right left .
qed

text \<open>
  \<open>tracks S x\<close>: the number \<open>x\<close> that the code computed stands for the exact sum \<open>S\<close>: equal to it up
  to \<open>2 ^ 53\<close>, and from there on at least \<open>2 ^ 53\<close>.
\<close>

definition tracks :: "int \<Rightarrow> jsnum \<Rightarrow> bool" where
  "tracks S x \<longleftrightarrow> 0 \<le> S \<and> (if S \<le> 2 ^ 53 then x = num_of_int S else x = PInf \<or> (\<exists>a. x = Fin a \<and> 2 ^ 53 \<le> a \<and> a < 2 ^ 1024))"

lemma tracks_zero: "tracks 0 (Fin 0)"
  by (simp add: tracks_def)

lemma fl_large:
  assumes "2 ^ 53 \<le> q"
  shows "fl q = PInf \<or> (\<exists>a. fl q = Fin a \<and> 2 ^ 53 \<le> a \<and> a < 2 ^ 1024)"
proof -
  have q: "0 < q" using assms by (meson less_le_trans zero_less_numeral zero_less_power)
  have "fl_pos (of_int (2 ^ 53)) \<le> fl_pos q" by (rule fl_pos_mono) (use assms in simp_all)
  moreover have "fl_pos (of_int (2 ^ 53)) = 2 ^ 53" using fl_pos_int [of "2 ^ 53"] by simp
  ultimately have "2 ^ 53 \<le> fl_pos q" by simp
  then show ?thesis using q by (auto simp: fl_def Let_def)
qed

lemma tracks_value: "tracks S x \<Longrightarrow> x = PInf \<or> (\<exists>a. x = Fin a \<and> 0 \<le> a \<and> (2 ^ 53 < S \<longrightarrow> 2 ^ 53 \<le> a) \<and> (S \<le> 2 ^ 53 \<longrightarrow> a = of_int S) \<and> a < 2 ^ 1024)"
proof -
  assume t: "tracks S x"
  show ?thesis
  proof (cases "S \<le> 2 ^ 53")
    case True
    have "(of_int S :: rat) \<le> of_int (2 ^ 53)" using True by (simp only: of_int_le_iff)
    also have "(of_int (2 ^ 53) :: rat) < 2 ^ 1024" by simp
    finally show ?thesis using t True by (simp add: tracks_def)
  next
    case False
    have "(0::rat) \<le> 2 ^ 53" by simp
    then show ?thesis using t False unfolding tracks_def by (auto intro: order_trans)
  qed
qed

lemma tracks_add:
  assumes "tracks S x" "tracks T y"
  shows "tracks (S + T) (num_add x y)"
proof (cases "S + T \<le> 2 ^ 53")
  case True
  then have "x = num_of_int S" "y = num_of_int T" "0 \<le> S" "0 \<le> T" using assms by (auto simp: tracks_def split: if_splits)
  then show ?thesis using True num_add_ints [of S T] by (simp add: tracks_def)
next
  case False
  have pos: "0 \<le> S" "0 \<le> T" using assms by (auto simp: tracks_def)
  have "num_add x y = PInf \<or> (\<exists>a. num_add x y = Fin a \<and> 2 ^ 53 \<le> a \<and> a < 2 ^ 1024)"
  proof (cases "x = PInf \<or> y = PInf")
    case True
    then show ?thesis using tracks_value [OF assms(1)] tracks_value [OF assms(2)] by auto
  next
    case noinf: False
    then obtain a b where ab: "x = Fin a" "y = Fin b" "0 \<le> a" "0 \<le> b"
      and a: "2 ^ 53 < S \<longrightarrow> 2 ^ 53 \<le> a" "S \<le> 2 ^ 53 \<longrightarrow> a = of_int S" and b: "2 ^ 53 < T \<longrightarrow> 2 ^ 53 \<le> b" "T \<le> 2 ^ 53 \<longrightarrow> b = of_int T"
      using tracks_value [OF assms(1)] tracks_value [OF assms(2)] by auto
    have "2 ^ 53 \<le> a + b"
    proof (cases "S \<le> 2 ^ 53 \<and> T \<le> 2 ^ 53")
      case True
      have "(of_int (2 ^ 53) :: rat) \<le> of_int (S + T)" using False by (simp only: of_int_le_iff)
      then show ?thesis using True a b by simp
    next
      case False
      then show ?thesis using a(1) b(1) ab(3,4) by fastforce
    qed
    then show ?thesis using fl_large ab by simp
  qed
  then show ?thesis using False pos by (simp add: tracks_def)
qed

lemma tracks_limit:
  assumes "tracks S x" "num_isFinite x" "\<not> exceeds x (num_of_int n)" "0 \<le> n" "n < 2 ^ 46"
  shows "S \<le> n"
proof (rule ccontr)
  assume "\<not> S \<le> n"
  then have S: "n + 1 \<le> S" by simp
  obtain a where x: "x = Fin a" "2 ^ 53 < S \<longrightarrow> 2 ^ 53 \<le> a" "S \<le> 2 ^ 53 \<longrightarrow> a = of_int S" "a < 2 ^ 1024"
    using tracks_value [OF assms(1)] assms(2) by auto
  have n53: "(of_int n :: rat) + 1 \<le> 2 ^ 46"
  proof -
    have "(of_int (n + 1) :: rat) \<le> of_int (2 ^ 46)" using assms(5) by (simp only: of_int_le_iff)
    then show ?thesis by simp
  qed
  have a: "of_int n + 1 \<le> a"
  proof (cases "S \<le> 2 ^ 53")
    case True
    have "(of_int (n + 1) :: rat) \<le> of_int S" using S by (simp only: of_int_le_iff)
    then show ?thesis using x(3) True by simp
  next
    case False
    then show ?thesis using x(2) n53 by simp
  qed
  have n0: "(0::rat) \<le> of_int n" using assms(4) by simp
  have "\<not> closeNumber (Fin a) (Fin (of_int n))"
  proof (rule not_closeNumber)
    have "max 1 (max a (of_int n)) = a" using a n0 by simp
    moreover have "a \<le> 2 ^ 46 * (a - of_int n)" using a n53 by (simp add: algebra_simps)
    ultimately show "max 1 (max a (of_int n)) \<le> 2 ^ 46 * \<bar>a - of_int n\<bar>" "max 1 (max a (of_int n)) < 2 ^ 1024"
      using a x(4) by simp_all
  qed (use a n0 in simp_all)
  then show False using assms(3) a x(1) by (simp add: exceeds_def)
qed

lemma tracks_equal:
  assumes "tracks S x" "num_isFinite x" "closeNumber x (num_of_int n)" "0 \<le> n" "n < 2 ^ 46"
  shows "S = n"
proof (rule ccontr)
  assume "S \<noteq> n"
  have "S \<le> n" using tracks_limit [OF assms(1,2) _ assms(4,5)] assms(3) by (simp add: exceeds_def)
  then have lt: "S + 1 \<le> n" using \<open>S \<noteq> n\<close> by simp
  have S0: "0 \<le> S" using assms(1) by (simp add: tracks_def)
  have "S \<le> 2 ^ 53" using lt assms(5) by simp
  then have x: "x = Fin (of_int S)" using assms(1) by (simp add: tracks_def)
  have n: "(of_int S :: rat) + 1 \<le> of_int n" using lt by (metis of_int_1 of_int_add of_int_le_iff)
  have n46: "(of_int n :: rat) \<le> 2 ^ 46"
  proof -
    have "(of_int n :: rat) \<le> of_int (2 ^ 46)" using assms(5) by (simp only: of_int_le_iff)
    then show ?thesis by simp
  qed
  have s0: "(0::rat) \<le> of_int S" using S0 by simp
  have "\<not> closeNumber (Fin (of_int S)) (Fin (of_int n))"
  proof (rule not_closeNumber)
    have m: "max 1 (max (of_int S) (of_int n)) = (of_int n :: rat)" using n s0 by simp
    have g: "1 \<le> \<bar>of_int S - of_int n :: rat\<bar>" using n by simp
    show "max 1 (max (of_int S) (of_int n)) \<le> 2 ^ 46 * \<bar>of_int S - of_int n :: rat\<bar>"
      unfolding m using n46 g by simp
    show "max 1 (max (of_int S) (of_int n)) < (2::rat) ^ 1024" unfolding m using n46
      by (rule le_less_trans) simp
  qed (use n s0 in simp_all)
  then show False using assms(3) x by simp
qed



section \<open>Normalised vectors\<close>

definition good_vec :: "vector \<Rightarrow> bool" where
  "good_vec v \<longleftrightarrow> distinct (map fst v) \<and> (\<forall>(k, n) \<in> set v. num_isFinite n \<and> \<not> num_less n (Fin 0)
     \<and> (k \<in> set DISCRETE_RESOURCES \<longrightarrow> num_isSafeInteger n))"

text \<open>The exact amount of a discrete resource.\<close>

definition amount :: "vector \<Rightarrow> string \<Rightarrow> int" where
  "amount v k = (case vget v k of Fin a \<Rightarrow> \<lfloor>a\<rfloor> | _ \<Rightarrow> 0)"

lemma failBudget_neq_Inr [simp]: "failBudget c = Inr x \<longleftrightarrow> False"
  by (simp add: failBudget_def)

lemma if_failBudget_eq_Inr [simp]: "((if c then failBudget e else r) = Inr y) \<longleftrightarrow> \<not> c \<and> r = Inr y"
  by simp

lemmas budget_inv = rbind_eq_Inr if_failBudget_eq_Inr prop_of_Inr Let_def not_not

lemma numeric_Inr: "numeric k v = Inr n \<Longrightarrow> v = JNum n \<and> num_isFinite n \<and> \<not> num_less n (Fin 0)
    \<and> (k \<in> set DISCRETE_RESOURCES \<longrightarrow> num_isSafeInteger n)"
  by (auto simp: numeric_def split: jsval.splits if_splits)

lemma good_vec_update:
  assumes "good_vec v" "numeric k x = Inr n"
  shows "good_vec (AList.update k n v)"
proof -
  have "set (AList.update k n v) \<subseteq> insert (k, n) (set v)"
    by (induction v) auto
  then show ?thesis using assms numeric_Inr [OF assms(2)] unfolding good_vec_def by (auto simp: distinct_update)
qed

lemma good_vec_Nil [simp]: "good_vec []"
  by (simp add: good_vec_def)

lemma normalizeVector_good:
  assumes "normalizeVector b v = Inr w"
  shows "good_vec w"
proof -
  obtain ps where "foldR vectorEntry [] ps = Inr w" using assms unfolding normalizeVector_def budget_inv by blast
  then show ?thesis
  proof (rule foldR_inv)
    show "good_vec s'" if "good_vec s" "vectorEntry s x = Inr s'" for s x s'
      using that by (auto simp: vectorEntry_def rbind_eq_Inr intro!: good_vec_update split: prod.splits option.splits if_splits)
  qed simp
qed

lemma good_vec_vget:
  assumes "good_vec v" "k \<in> set DISCRETE_RESOURCES"
  shows "vget v k = num_of_int (amount v k) \<and> 0 \<le> amount v k \<and> amount v k \<le> MAX_SAFE_INTEGER"
proof (cases "map_of v k")
  case None
  then show ?thesis by (simp add: vget_def amount_def MAX_SAFE_INTEGER_def)
next
  case (Some n)
  then have "(k, n) \<in> set v" by (rule map_of_SomeD)
  then have "num_isSafeInteger n" "\<not> num_less n (Fin 0)" using assms by (auto simp: good_vec_def)
  then obtain i where "n = num_of_int i" "\<bar>i\<bar> \<le> MAX_SAFE_INTEGER" "0 \<le> i" by (auto simp: num_isSafeInteger_iff)
  then show ?thesis using Some by (simp add: vget_def amount_def)
qed

lemma good_vec_tracks: "good_vec v \<Longrightarrow> k \<in> set DISCRETE_RESOURCES \<Longrightarrow> tracks (amount v k) (vget v k)"
  using good_vec_vget [of v k] by (auto simp: tracks_def MAX_SAFE_INTEGER_def)

lemma vget_update: "vget (AList.update k n v) j = (if j = k then n else vget v j)"
  by (simp add: vget_def update_conv')

lemma vget_addVector:
  "distinct (map fst v) \<Longrightarrow> vget (addVector t v) k = (if k \<in> fst ` set v then num_add (vget t k) (vget v k) else vget t k)"
proof (induction v arbitrary: t)
  case (Cons p v)
  obtain j n where p: "p = (j, n)" by (cases p)
  have s: "addVector t ((j, n) # v) = addVector (AList.update j (num_add (vget t j) n) t) v" by (simp add: addVector_def p)
  have "vget (p # v) k = (if k = j then n else vget v k)" by (simp add: vget_def p)
  moreover have "j \<notin> fst ` set v" using Cons.prems by (simp add: p)
  moreover have "vget (addVector (AList.update j (num_add (vget t j) n) t) v) k =
      (if k \<in> fst ` set v then num_add (vget (AList.update j (num_add (vget t j) n) t) k) (vget v k)
       else vget (AList.update j (num_add (vget t j) n) t) k)"
    by (rule Cons.IH) (use Cons.prems in simp)
  ultimately show ?case by (auto simp: s vget_update p)
qed (simp add: addVector_def)

lemma addVector_tracks:
  assumes "good_vec v" "k \<in> set DISCRETE_RESOURCES" "tracks S (vget t k)"
  shows "tracks (S + amount v k) (vget (addVector t v) k)"
proof -
  have d: "distinct (map fst v)" using assms(1) by (simp add: good_vec_def)
  show ?thesis
  proof (cases "k \<in> fst ` set v")
    case True
    then show ?thesis using tracks_add [OF assms(3) good_vec_tracks [OF assms(1,2)]] by (simp add: vget_addVector [OF d])
  next
    case False
    then have "map_of v k = None" by (simp add: map_of_eq_None_iff)
    then have "amount v k = 0" by (simp add: amount_def vget_def)
    then show ?thesis using False assms(3) by (simp add: vget_addVector [OF d])
  qed
qed

section \<open>The account of a run\<close>

definition settled_ok :: "reservation \<Rightarrow> bool" where
  "settled_ok r \<longleftrightarrow> (\<exists>c f. r_consumed r = Some c \<and> r_refunded r = Some f \<and> good_vec c \<and> good_vec f
     \<and> closeVector (addVector (addVector [] c) f) (r_worstCase r))"

definition reservation_ok :: "reservation \<Rightarrow> bool" where
  "reservation_ok r \<longleftrightarrow> good_vec (r_worstCase r) \<and> (if r_status r = ''reserved'' then r_consumed r = None \<and> r_refunded r = None
     else r_status r \<in> {''consumed'', ''refunded''} \<and> settled_ok r)"

text \<open>What a reservation costs: its worst case until it is settled, then what was consumed.\<close>

definition charge :: "string \<Rightarrow> reservation \<Rightarrow> int" where
  "charge k r = (case r_consumed r of None \<Rightarrow> amount (r_worstCase r) k | Some c \<Rightarrow> amount c k)"

definition spent :: "string \<Rightarrow> reservation \<Rightarrow> int" where
  "spent k r = (case r_consumed r of None \<Rightarrow> 0 | Some c \<Rightarrow> amount c k)"

definition account_ok :: "account \<Rightarrow> bool" where
  "account_ok acc = (case acc of (rs, consumed) \<Rightarrow> distinct (map r_id rs) \<and> list_all reservation_ok rs \<and> distinct (map fst consumed)
     \<and> (\<forall>k \<in> set DISCRETE_RESOURCES. tracks (sum_list (map (spent k) rs)) (vget consumed k)))"

lemma distinct_addVector: "distinct (map fst t) \<Longrightarrow> distinct (map fst (addVector t v))"
  by (induction v arbitrary: t) (auto simp: addVector_def distinct_update)

lemma byId_None: "byId rs i = None \<longleftrightarrow> i \<notin> set (map r_id rs)"
  by (auto simp: byId_def find_None_iff)

lemma byId_Some: "byId rs i = Some r \<Longrightarrow> r \<in> set rs \<and> r_id r = i"
  by (auto simp: byId_def find_Some_iff)

lemma byId_split:
  assumes "byId rs i = Some r" "distinct (map r_id rs)"
  obtains us vs where "rs = us @ r # vs" "i \<notin> set (map r_id us)" "i \<notin> set (map r_id vs)" "r_id r = i"
proof -
  have r: "r \<in> set rs" "r_id r = i" using byId_Some [OF assms(1)] by auto
  then obtain us vs where s: "rs = us @ r # vs" by (meson split_list)
  show ?thesis by (rule that [OF s]) (use assms(2) r(2) s in auto)
qed

lemma settleIn_split: "i \<notin> set (map r_id us) \<Longrightarrow> i \<notin> set (map r_id vs) \<Longrightarrow> r_id r = i
    \<Longrightarrow> settleIn i f (us @ r # vs) = us @ f r # vs"
  unfolding settleIn_def by (auto intro!: map_idI) (metis imageI)+

lemma validateBudgetEvent_good:
  assumes "validateBudgetEvent e = Inr p"
  shows "case p of BudgetReserved i ow w \<Rightarrow> good_vec w | BudgetSettled i ow b w c f \<Rightarrow> good_vec c \<and> good_vec f"
  using assms unfolding validateBudgetEvent_def Let_def
  by (auto simp: rbind_eq_Inr dest: normalizeVector_good split: if_splits)

lemma applyBudgetEvent_ok:
  assumes "account_ok acc" "applyBudgetEvent P acc e = Inr acc'"
  shows "account_ok acc'"
proof -
  obtain rs c where acc: "acc = (rs, c)" by (cases acc)
  have ok: "distinct (map r_id rs)" "list_all reservation_ok rs"
    "\<And>k. k \<in> set DISCRETE_RESOURCES \<Longrightarrow> tracks (sum_list (map (spent k) rs)) (vget c k)"
    and dc: "distinct (map fst c)"
    using assms(1) by (auto simp: account_ok_def acc)
  show ?thesis
  proof (cases "\<not> truthy e \<or> own ''type'' e \<notin> set (map JStr BUDGET_EVENT_TYPES)")
    case True
    then show ?thesis using assms by (auto simp: applyBudgetEvent_def acc)
  next
    case False
    obtain p where p: "validateBudgetEvent e = Inr p" using assms(2) False by (auto simp: applyBudgetEvent_def acc rbind_eq_Inr)
    show ?thesis
    proof (cases p)
      case (BudgetReserved i ow w)
      have new: "byId rs i = None" and acc': "acc' = (rs @ [\<lparr> r_id = i, r_owner = ow, r_worstCase = w, r_status = ''reserved'',
                 r_reservedSeq = own ''seq'' e, r_settledSeq = JNull, r_consumed = None, r_refunded = None \<rparr>], c)"
        using assms(2) False p BudgetReserved by (auto simp: applyBudgetEvent_def acc split: if_splits)
      have "good_vec w" using validateBudgetEvent_good [OF p] BudgetReserved by simp
      then show ?thesis using ok dc new unfolding acc'
        by (auto simp: account_ok_def byId_None reservation_ok_def spent_def)
    next
      case (BudgetSettled i ow b w cn fn)
      have g: "good_vec cn" "good_vec fn" using validateBudgetEvent_good [OF p] BudgetSettled by simp_all
      obtain cur where cur: "byId rs i = Some cur" and st: "r_status cur = ''reserved''"
        and cl: "closeVector (addVector (addVector [] cn) fn) (r_worstCase cur)"
        and acc': "acc' = (settleIn i (\<lambda>r. r\<lparr> r_status := (if b then ''refunded'' else ''consumed''),
                     r_settledSeq := own ''seq'' e, r_consumed := Some cn, r_refunded := Some fn \<rparr>) rs, addVector c cn)"
        using assms(2) False p BudgetSettled by (auto simp: applyBudgetEvent_def acc rbind_eq_Inr split: option.splits if_splits)
      define cur' where "cur' = cur\<lparr> r_status := (if b then ''refunded'' else ''consumed''),
                     r_settledSeq := own ''seq'' e, r_consumed := Some cn, r_refunded := Some fn \<rparr>"
      obtain us vs where s: "rs = us @ cur # vs" "i \<notin> set (map r_id us)" "i \<notin> set (map r_id vs)" "r_id cur = i"
        by (rule byId_split [OF cur ok(1)])
      have rs': "settleIn i (\<lambda>r. r\<lparr> r_status := (if b then ''refunded'' else ''consumed''),
                     r_settledSeq := own ''seq'' e, r_consumed := Some cn, r_refunded := Some fn \<rparr>) rs = us @ cur' # vs"
        unfolding s(1) cur'_def by (rule settleIn_split [OF s(2-4)])
      have cok: "reservation_ok cur" using ok(2) by (simp add: s(1))
      have c': "reservation_ok cur'" "r_id cur' = i"
        using cok cl g s(4) by (simp_all add: cur'_def reservation_ok_def settled_ok_def)
      have "r_consumed cur = None" using cok st by (simp add: reservation_ok_def)
      then have sp: "sum_list (map (spent k) (us @ cur' # vs)) = sum_list (map (spent k) rs) + amount cn k" for k
        by (simp add: s(1) spent_def cur'_def)
      have "\<forall>k \<in> set DISCRETE_RESOURCES. tracks (sum_list (map (spent k) (us @ cur' # vs))) (vget (addVector c cn) k)"
        unfolding sp using addVector_tracks [OF g(1) _ ok(3)] by blast
      moreover have "distinct (map r_id (us @ cur' # vs)) \<and> list_all reservation_ok (us @ cur' # vs) \<and> distinct (map fst (addVector c cn))"
        using ok c' s distinct_addVector [OF dc] by auto
      ultimately show ?thesis unfolding acc' rs' account_ok_def by blast
    qed
  qed
qed

lemma rebuild_account_ok: "foldR (applyBudgetEvent P) ([], []) es = Inr acc \<Longrightarrow> account_ok acc"
proof (erule foldR_inv)
  have "vget [] k = Fin 0" for k by (simp add: vget_def)
  then show "account_ok ([], [])" by (simp add: account_ok_def tracks_zero)
qed (rule applyBudgetEvent_ok)

lemma outstanding_tracks:
  assumes "list_all reservation_ok rs" "k \<in> set DISCRETE_RESOURCES"
  shows "tracks (sum_list (map (\<lambda>r. charge k r - spent k r) rs)) (vget (outstandingOf rs) k)"
  using assms(1)
proof (induction rs rule: rev_induct)
  case Nil
  then show ?case by (simp add: outstandingOf_def vget_def tracks_zero)
next
  case (snoc r rs)
  then have IH: "tracks (sum_list (map (\<lambda>r. charge k r - spent k r) rs)) (vget (outstandingOf rs) k)" and ok: "reservation_ok r" by simp_all
  show ?case
  proof (cases "r_status r = ''reserved''")
    case True
    then have "charge k r - spent k r = amount (r_worstCase r) k" "good_vec (r_worstCase r)"
      using ok by (simp_all add: reservation_ok_def charge_def spent_def)
    then show ?thesis using True addVector_tracks [OF _ assms(2) IH] by (simp add: outstandingOf_def)
  next
    case False
    then have "charge k r = spent k r" using ok by (auto simp: reservation_ok_def settled_ok_def charge_def spent_def)
    then show ?thesis using False IH by (simp add: outstandingOf_def)
  qed
qed

lemma sum_list_insert_by: "sum_list (map f (insert_by le x xs)) = f x + (sum_list (map f xs) :: int)"
  by (induction xs) auto

lemma sum_list_sort_by: "sum_list (map f (sort_by le xs)) = (sum_list (map f xs) :: int)"
  by (induction xs) (simp_all add: sort_by_def sum_list_insert_by)

lemma vget_sort: "vget (sort_key fst v) k = vget v k"
  by (simp add: vget_def map_of_stable_sort)

lemma amount_sort: "amount (sort_key fst v) k = amount v k"
  by (simp add: amount_def vget_sort)

lemma cloneReservation_fields:
  assumes "cloneReservation r = Inr r'"
  shows "r_id r' = r_id r" "r_owner r' = r_owner r" "r_status r' = r_status r"
    "r_worstCase r' = sort_key fst (r_worstCase r)" "r_consumed r' = map_option (sort_key fst) (r_consumed r)"
    "r_refunded r' = map_option (sort_key fst) (r_refunded r)"
  using assms by (auto simp: cloneReservation_def cloneVector_def cloneVectorOption_def rbind_eq_Inr split: option.splits if_splits)

lemma clone_charge: "cloneReservation r = Inr r' \<Longrightarrow> charge k r' = charge k r"
  by (cases "r_consumed r") (simp_all add: charge_def cloneReservation_fields amount_sort)

lemma rebuild_facts:
  assumes "rebuildBudgetStateFromEvents P es env = Inr b"
  obtains rs c where "foldR (applyBudgetEvent P) ([], []) es = Inr (rs, c)" "account_ok (rs, c)"
    "b_committed b = addVector (addVector [] c) (outstandingOf rs)" "normalizeLimits env = Inr (b_limits b)"
    "\<forall>(k, l) \<in> set (b_limits b). \<not> exceeds (vget (b_committed b) k) l"
    "mapR cloneReservation (sort_by (\<lambda>a b. locale_le P (r_id a) (r_id b)) rs) = Inr (b_reservations b)"
proof -
  from assms obtain l rs c where r: "normalizeLimits env = Inr l" "foldR (applyBudgetEvent P) ([], []) es = Inr (rs, c)"
    "\<not> list_ex (\<lambda>(k, l). exceeds (vget (addVector (addVector [] c) (outstandingOf rs)) k) l) l"
    "\<exists>os. mapR cloneReservation (sort_by (\<lambda>a b. locale_le P (r_id a) (r_id b)) rs) = Inr os
       \<and> b = \<lparr> b_limits = l, b_consumed = c, b_outstanding = outstandingOf rs, b_committed = addVector (addVector [] c) (outstandingOf rs),
           b_available = availableOf l (addVector (addVector [] c) (outstandingOf rs)), b_reservations = os \<rparr>"
    unfolding rebuildBudgetStateFromEvents_def by (auto simp: rbind_eq_Inr Let_def)
  show ?thesis by (rule that [of rs c]) (use r rebuild_account_ok in \<open>auto simp: list_ex_iff\<close>)
qed

lemma outstanding_distinct: "distinct (map fst (outstandingOf rs))"
  by (induction rs rule: rev_induct) (simp_all add: outstandingOf_def distinct_addVector)



lemma tracks_Fin0: "tracks T (Fin 0) \<Longrightarrow> T = 0"
  using tracks_value [of T "Fin 0"] by (cases "T \<le> 2 ^ 53") (auto simp: tracks_def)

lemma addVector_tracks_sum:
  assumes "distinct (map fst v)" "tracks S (vget t k)" "tracks T (vget v k)"
  shows "tracks (S + T) (vget (addVector t v) k)"
proof (cases "k \<in> fst ` set v")
  case True
  then show ?thesis using tracks_add [OF assms(2,3)] by (simp add: vget_addVector [OF assms(1)])
next
  case False
  then have "vget v k = Fin 0" by (simp add: vget_def map_of_eq_None_iff [symmetric])
  then have "T = 0" using assms(3) tracks_Fin0 by simp
  then show ?thesis using False assms(2) by (simp add: vget_addVector [OF assms(1)])
qed

lemma committed_tracks:
  assumes "rebuildBudgetStateFromEvents P es env = Inr b" "k \<in> set DISCRETE_RESOURCES"
  shows "tracks (sum_list (map (charge k) (b_reservations b))) (vget (b_committed b) k)"
proof -
  from rebuild_facts [OF assms(1)] obtain rs c where r: "foldR (applyBudgetEvent P) ([], []) es = Inr (rs, c)" "account_ok (rs, c)"
    "b_committed b = addVector (addVector [] c) (outstandingOf rs)"
    "mapR cloneReservation (sort_by (\<lambda>a b. locale_le P (r_id a) (r_id b)) rs) = Inr (b_reservations b)" by metis
  have t: "tracks (sum_list (map (spent k) rs)) (vget c k)" "list_all reservation_ok rs" "distinct (map fst c)" using r(2) assms(2) by (auto simp: account_ok_def)
  have "tracks (0 + sum_list (map (spent k) rs)) (vget (addVector [] c) k)"
    by (rule addVector_tracks_sum [OF t(3) _ t(1)]) (simp add: vget_def tracks_zero)
  from addVector_tracks_sum [OF outstanding_distinct this outstanding_tracks [OF t(2) assms(2)]]
  have "tracks (sum_list (map (charge k) rs)) (vget (b_committed b) k)" by (simp add: r(3) sum_list_subtractf)
  moreover have "map (charge k) (b_reservations b) = map (charge k) (sort_by (\<lambda>a b. locale_le P (r_id a) (r_id b)) rs)"
  proof -
    have "list_all2 (\<lambda>r r'. charge k r' = charge k r) (sort_by (\<lambda>a b. locale_le P (r_id a) (r_id b)) rs) (b_reservations b)"
      using r(4) unfolding mapR_eq_Inr by (rule list_all2_mono) (rule clone_charge)
    then show ?thesis by (simp add: list_all2_conv_all_nth list_eq_iff_nth_eq)
  qed
  ultimately show ?thesis by (simp add: sum_list_sort_by)
qed

text \<open>The reservations of a rebuilt budget are well formed and have distinct ids.\<close>

lemma settled_tracks:
  assumes "good_vec c" "good_vec f" "k \<in> set DISCRETE_RESOURCES"
  shows "tracks (amount c k + amount f k) (vget (addVector (addVector [] c) f) k)"
proof -
  have "tracks (0 + amount c k) (vget (addVector [] c) k)"
    by (rule addVector_tracks [OF assms(1,3)]) (simp add: vget_def tracks_zero)
  from addVector_tracks [OF assms(2,3) this] show ?thesis by simp
qed

lemma closeVector_at:
  assumes "closeVector u v"
  shows "closeNumber (vget u k) (vget v k)"
proof (cases "k \<in> fst ` set u \<union> fst ` set v")
  case True
  then show ?thesis using assms by (auto simp: closeVector_def list_all_iff)
next
  case False
  then have "vget u k = Fin 0" "vget v k = Fin 0" by (auto simp: vget_def map_of_eq_None_iff [symmetric])
  moreover have "closeNumber (Fin 0) (Fin 0)"
    using fl_pos_nonneg [of "1 / 2 ^ 48"] by (simp add: closeNumber_def num_sub_def num_max_def EPSILON_def fl_def Let_def)
  ultimately show ?thesis by simp
qed

lemma fl_finite: "0 \<le> q \<Longrightarrow> q < 2 powi 1000 \<Longrightarrow> num_isFinite (fl q)"
  using ilog2_less [of q 1000] fl_pos_no_overflow [of q] by (cases "q = 0") (auto simp: fl_def Let_def)

lemma num_add_safe:
  assumes "0 \<le> a" "a \<le> MAX_SAFE_INTEGER" "0 \<le> b" "b \<le> MAX_SAFE_INTEGER"
  shows "num_isFinite (num_add (num_of_int a) (num_of_int b))"
proof -
  have "(of_int (a + b) :: rat) \<le> of_int (2 ^ 54)" unfolding of_int_le_iff using assms by (simp add: MAX_SAFE_INTEGER_def)
  also have "(of_int (2 ^ 54) :: rat) = 2 powi 54" by (simp only: power_int_numeral of_int_power of_int_numeral)
  also have "\<dots> < 2 powi 1000" by (simp only: powi_two_less_iff)
  finally have "num_isFinite (fl (of_int a + of_int b))" using assms fl_finite [of "of_int a + of_int b"] by simp
  then show ?thesis by simp
qed

lemma settled_finite:
  assumes "good_vec c" "good_vec f" "k \<in> set DISCRETE_RESOURCES"
  shows "num_isFinite (vget (addVector (addVector [] c) f) k)"
proof -
  have d: "distinct (map fst f)" using assms(2) by (simp add: good_vec_def)
  have g: "0 \<le> amount c k" "amount c k \<le> MAX_SAFE_INTEGER" "vget f k = num_of_int (amount f k)" "0 \<le> amount f k" "amount f k \<le> MAX_SAFE_INTEGER"
    using good_vec_vget [OF assms(1,3)] good_vec_vget [OF assms(2,3)] by auto
  have "tracks (0 + amount c k) (vget (addVector [] c) k)"
    by (rule addVector_tracks [OF assms(1,3)]) (simp add: vget_def tracks_zero)
  then have "vget (addVector [] c) k = num_of_int (amount c k)" using g(2) by (simp add: tracks_def MAX_SAFE_INTEGER_def)
  then show ?thesis using num_add_safe [OF g(1,2,4,5)] g(3) by (simp add: vget_addVector [OF d])
qed

lemma settled_conserves:
  assumes "reservation_ok r" "r_status r \<noteq> ''reserved''" "k \<in> set DISCRETE_RESOURCES" "amount (r_worstCase r) k < 2 ^ 46"
  shows "\<exists>c f. r_consumed r = Some c \<and> r_refunded r = Some f \<and> amount c k + amount f k = amount (r_worstCase r) k
     \<and> 0 \<le> amount c k \<and> 0 \<le> amount f k"
proof -
  obtain c f where cf: "r_consumed r = Some c" "r_refunded r = Some f" "good_vec c" "good_vec f"
    "closeVector (addVector (addVector [] c) f) (r_worstCase r)" and w: "good_vec (r_worstCase r)"
    using assms(1,2) by (auto simp: reservation_ok_def settled_ok_def)
  note t = settled_tracks [OF cf(3,4) assms(3)]
  have wv: "vget (r_worstCase r) k = num_of_int (amount (r_worstCase r) k)" "0 \<le> amount (r_worstCase r) k"
    using good_vec_vget [OF w assms(3)] by auto
  have cl: "closeNumber (vget (addVector (addVector [] c) f) k) (num_of_int (amount (r_worstCase r) k))"
    using closeVector_at [OF cf(5), of k] by (simp only: wv(1))
  have pos: "0 \<le> amount c k" "amount c k \<le> MAX_SAFE_INTEGER" "0 \<le> amount f k" "amount f k \<le> MAX_SAFE_INTEGER"
    using good_vec_vget [OF cf(3) assms(3)] good_vec_vget [OF cf(4) assms(3)] by blast+
  have fin: "num_isFinite (vget (addVector (addVector [] c) f) k)" by (rule settled_finite [OF cf(3,4) assms(3)])
  show ?thesis using tracks_equal [OF t fin cl wv(2) assms(4)] cf(1,2) pos by auto
qed

lemma good_vec_sort: "good_vec v \<Longrightarrow> good_vec (sort_key fst v)"
  unfolding good_vec_def by (simp add: distinct_map)

lemma closeVector_sort:
  assumes "closeVector (addVector (addVector [] c) f) w" "good_vec c" "good_vec f"
  shows "closeVector (addVector (addVector [] (sort_key fst c)) (sort_key fst f)) (sort_key fst w)"
proof -
  have d: "distinct (map fst c)" "distinct (map fst f)" "distinct (map fst (sort_key fst c))" "distinct (map fst (sort_key fst f))"
    using assms(2,3) good_vec_sort [OF assms(2)] good_vec_sort [OF assms(3)] by (simp_all add: good_vec_def)
  have "vget (addVector (addVector [] (sort_key fst c)) (sort_key fst f)) k = vget (addVector (addVector [] c) f) k" for k
    by (simp add: vget_addVector d vget_sort)
  then show ?thesis using closeVector_at [OF assms(1)] by (simp add: closeVector_def list_all_iff vget_sort)
qed

lemma clone_ok:
  assumes "cloneReservation r = Inr r'" "reservation_ok r"
  shows "reservation_ok r'"
proof -
  note f = cloneReservation_fields [OF assms(1)]
  have w: "good_vec (r_worstCase r')" using assms(2) f(4) good_vec_sort by (simp add: reservation_ok_def)
  show ?thesis
  proof (cases "r_status r = ''reserved''")
    case True
    then show ?thesis using assms(2) f w by (simp add: reservation_ok_def)
  next
    case False
    then have st: "r_status r \<in> {''consumed'', ''refunded''}" and "settled_ok r" using assms(2) by (auto simp: reservation_ok_def)
    then obtain c g where c: "r_consumed r = Some c" "r_refunded r = Some g" "good_vec c" "good_vec g"
      "closeVector (addVector (addVector [] c) g) (r_worstCase r)" by (auto simp: settled_ok_def)
    have "settled_ok r'" using c closeVector_sort [OF c(5,3,4)] good_vec_sort f by (simp add: settled_ok_def)
    then show ?thesis using st w f False by (simp add: reservation_ok_def)
  qed
qed

lemma budget_reservations_ok:
  assumes "rebuildBudgetStateFromEvents P es env = Inr b"
  shows "distinct (map r_id (b_reservations b)) \<and> list_all reservation_ok (b_reservations b)"
proof -
  from rebuild_facts [OF assms] obtain rs c where r: "account_ok (rs, c)"
    "mapR cloneReservation (sort_by (\<lambda>a b. locale_le P (r_id a) (r_id b)) rs) = Inr (b_reservations b)" by metis
  have l: "list_all2 (\<lambda>r r'. cloneReservation r = Inr r') (sort_by (\<lambda>a b. locale_le P (r_id a) (r_id b)) rs) (b_reservations b)"
    using r(2) by (simp add: mapR_eq_Inr)
  then have "list_all2 (\<lambda>r r'. r_id r' = r_id r) (sort_by (\<lambda>a b. locale_le P (r_id a) (r_id b)) rs) (b_reservations b)"
    by (rule list_all2_mono) (rule cloneReservation_fields(1))
  then have "map r_id (b_reservations b) = map r_id (sort_by (\<lambda>a b. locale_le P (r_id a) (r_id b)) rs)"
    by (simp add: list_all2_conv_all_nth list_eq_iff_nth_eq)
  then have "distinct (map r_id (b_reservations b))" using r(1) by (simp add: account_ok_def)
  moreover have "reservation_ok r'" if m: "r' \<in> set (b_reservations b)" for r'
  proof -
    obtain q where "q \<in> set (sort_by (\<lambda>a b. locale_le P (r_id a) (r_id b)) rs)" "cloneReservation q = Inr r'"
      using mapR_member [OF r(2) m] by blast
    then show ?thesis using clone_ok r(1) by (auto simp: account_ok_def list_all_iff)
  qed
  ultimately show ?thesis by (simp add: list_all_iff)
qed


end
