(* ===== verification/Budget_Spec.thy ===== *)
theory Budget_Spec
  imports Budget_Proofs Journal_Properties
begin

text \<open>
  The operations of the ledger against the history of the journal. Reserving and settling are
  shown to implement one abstract step (\<open>ledger_outcome\<close>): fail, report a known reservation and
  add nothing, or add one event after which the returned budget is the one the new history
  rebuilds to. The retry loop is covered by induction on the remaining attempts; the journal is
  used only through its interface (\<open>journal_hist\<close> and the facts of \<open>Journal_Properties\<close>).
\<close>

section \<open>Errors of the rebuild\<close>

text \<open>No check of the ledger itself reports a lost compare-and-set race.\<close>

definition no_cas :: "'a res \<Rightarrow> bool" where
  "no_cas r \<longleftrightarrow> (\<forall>c. r \<noteq> Inl (Thrown c ''JOURNAL_CAS_MISMATCH''))"

named_theorems no_cas_intro

lemma no_cas_basic [no_cas_intro, simp]: "no_cas (Inr x)" "no_cas (Inl TypeError)"
  by (simp_all add: no_cas_def)

lemma no_cas_fail [no_cas_intro]: "code \<noteq> ''JOURNAL_CAS_MISMATCH'' \<Longrightarrow> no_cas (failBudget code)"
  by (simp add: no_cas_def failBudget_def)

lemma no_cas_rbind [no_cas_intro]: "no_cas m \<Longrightarrow> (\<And>x. no_cas (f x)) \<Longrightarrow> no_cas (rbind m f)"
  by (auto simp: no_cas_def rbind_def split: sum.splits)

lemma no_cas_if [no_cas_intro]: "no_cas a \<Longrightarrow> no_cas b \<Longrightarrow> no_cas (if c then a else b)"
  by simp

lemma no_cas_foldR [no_cas_intro]: "(\<And>s x. no_cas (f s x)) \<Longrightarrow> no_cas (foldR f s xs)"
proof (induction xs arbitrary: s)
  case (Cons x xs)
  then show ?case by (simp add: no_cas_rbind)
qed simp

lemma no_cas_mapR [no_cas_intro]: "(\<And>x. no_cas (f x)) \<Longrightarrow> no_cas (mapR f xs)"
  by (induction xs) (auto intro!: no_cas_rbind)

lemma no_cas_canonicalValue [no_cas_intro]:
  "no_cas (canonicalValue v)" "no_cas (canonicalValues vs)" "no_cas (canonicalMembers ps)"
  by (induction v and vs and ps rule: canonicalValue_canonicalValues_canonicalMembers.induct) (auto intro!: no_cas_rbind)

lemma no_cas_equalVector [no_cas_intro]: "no_cas (equalVector P u v)"
proof -
  have "no_cas (json_text P v)" for v by (cases "stringify P v") (simp_all add: json_text_def)
  then have "no_cas (canonicalJson P v)" for v by (auto simp: canonicalJson_def intro!: no_cas_intro)
  then show ?thesis by (auto simp: equalVector_def intro!: no_cas_intro)
qed

lemma no_cas_numeric [no_cas_intro]: "no_cas (numeric k v)"
  by (cases v) (auto simp: numeric_def intro!: no_cas_intro)

lemma no_cas_id [no_cas_intro]: "no_cas (validateBudgetId v)"
  by (cases v) (auto simp: validateBudgetId_def intro!: no_cas_intro)

lemma no_cas_normalizeVector [no_cas_intro]: "no_cas (normalizeVector b v)"
proof -
  have "no_cas (vectorEntry s x)" for s x
    by (auto simp: vectorEntry_def Let_def intro!: no_cas_intro split: prod.splits option.splits)
  then show ?thesis by (auto simp: normalizeVector_def intro!: no_cas_intro)
qed

lemma no_cas_normalizeLimits [no_cas_intro]: "no_cas (normalizeLimits v)"
proof -
  have "no_cas (limitEntry s x y)" for s x y
    by (auto simp: limitEntry_def Let_def intro!: no_cas_intro split: prod.splits)
  then show ?thesis by (auto simp: normalizeLimits_def Let_def intro!: no_cas_intro)
qed

lemma no_cas_applyBudgetEvent [no_cas_intro]: "no_cas (applyBudgetEvent P acc e)"
proof -
  have "no_cas (validateBudgetEvent e)" by (auto simp: validateBudgetEvent_def Let_def intro!: no_cas_intro)
  then show ?thesis
    by (auto simp: applyBudgetEvent_def intro!: no_cas_intro split: prod.splits budget_event.splits option.splits)
qed

lemma no_cas_rebuild: "no_cas (rebuildBudgetStateFromEvents P es env)"
proof -
  have "no_cas (cloneReservation r)" for r
    by (auto simp: cloneReservation_def cloneVector_def cloneVectorOption_def jsonClone_def intro!: no_cas_intro split: option.splits)
  then show ?thesis by (auto simp: rebuildBudgetStateFromEvents_def Let_def intro!: no_cas_intro split: prod.splits)
qed

section \<open>The operations on the history\<close>

lemma durable_hist:
  assumes "journal_hist P J d es" "lock_only C" "durableState P J L C lease d = (r, d')"
  shows "journal_hist P J d' es \<and> (\<forall>rc b. r = Inr (rc, b) \<longrightarrow>
     rc = recovered P es ''CLEAN'' 0 \<and> rebuildBudgetStateFromEvents P es (lg_envelope L) = Inr b)"
proof -
  obtain r1 d1 where r1: "recover P J C True lease d = (r1, d1)" by (metis surj_pair)
  have h: "journal_hist P J d1 es" "\<forall>x. r1 = Inr x \<longrightarrow> x = recovered P es ''CLEAN'' 0"
    using journal_read_hist [OF assms(1), of "(C, True, lease)" r1 d1] assms(2) r1 by (simp_all add: journal_read_def)
  have "rc_events (recovered P es ''CLEAN'' 0) = es" by (simp add: recovered_def)
  then show ?thesis using assms(3) h r1
    by (cases r1) (auto simp: durableState_def obind_def olift_def split: sum.splits)
qed

lemma append_hist:
  assumes h: "journal_hist P J d es" and C: "lock_only C" and room: "append_room es"
    and dn: "distinct_names (own ''payload'' event)"
    and a: "appendEvent P J C (JObj [(''lease'', lease), (''expectedSeq'', s), (''expectedDigest'', g), (''event'', event)]) d = (r, d')"
  shows "(\<exists>e. r = Inl e \<and> journal_hist P J d' es)
    \<or> (\<exists>x. r = Inr x \<and> \<not> ar_appended x \<and> ar_status x \<in> {''DUPLICATE_EVENT'', ''LATE_EVENT''} \<and> journal_hist P J d' es)
    \<or> (\<exists>x n. r = Inr x \<and> ar_appended x \<and> ar_status x = ''APPENDED'' \<and> journal_hist P J d' (es @ [ar_event x])
         \<and> normalizeEventInput event = Inr n \<and> own ''type'' (ar_event x) = own ''type'' n \<and> own ''payload'' (ar_event x) = own ''payload'' n
         \<and> truthy (ar_event x))"
proof -
  obtain lease0 where d: "host_ok P" "re_ID (j_runId J)" "dir_state P J d es lease0" using h by (auto simp: journal_hist_def)
  let ?input = "JObj [(''lease'', lease), (''expectedSeq'', s), (''expectedDigest'', g), (''event'', event)]"
  have "own ''event'' ?input = event" by simp
  note v = valid_opD [OF appendEvent_valid [OF d(1,2) C room] d(3) a, unfolded this, OF dn]
  show ?thesis
  proof (cases r)
    case (Inl e)
    then show ?thesis using v d(1,2) by (auto simp: journal_hist_def)
  next
    case (Inr x)
    then obtain i n where n: "normalizeEventInput event = Inr n"
      and o: "append_outcome P J es lease0 i (c_at C) (own ''expectedSeq'' ?input) (own ''expectedDigest'' ?input) n (Inr x) d'"
      using v by auto
    show ?thesis
    proof (cases "ar_appended x")
      case False
      then show ?thesis using o Inr d(1,2) by (auto simp: append_outcome_def journal_hist_def)
    next
      case True
      then have st: "dir_state P J d' (es @ [ar_event x]) lease0" "own ''type'' (ar_event x) = own ''type'' n"
        "own ''payload'' (ar_event x) = own ''payload'' n" "ar_status x = ''APPENDED''"
        using o unfolding append_outcome_def sum.case by simp_all
      have "isObj (ar_event x)" using chain_nth(1) [OF dir_chain [OF st(1)], of "length es"] by simp
      then have "truthy (ar_event x)" by (auto simp: isObj_iff)
      moreover have "journal_hist P J d' (es @ [ar_event x])" using st(1) d(1,2) by (auto simp: journal_hist_def)
      ultimately show ?thesis using Inr True n st(2-4) by blast
    qed
  qed
qed

lemma hist_truthy: "journal_hist P J d es \<Longrightarrow> filter truthy es = es"
proof -
  assume "journal_hist P J d es"
  then obtain l where d: "dir_state P J d es l" by (auto simp: journal_hist_def)
  have "truthy e" if "e \<in> set es" for e
    using that chain_nth(1) [OF dir_chain [OF d]] by (auto simp: in_set_conv_nth isObj_iff) (metis truthy.simps(7))
  then show ?thesis by (simp add: filter_id_conv)
qed

text \<open>The stored event carries the type and, in canonical form, the payload of the input.\<close>

definition wrote :: "jsval \<Rightarrow> jsval \<Rightarrow> bool" where
  "wrote event e \<longleftrightarrow> own ''type'' e = own ''type'' event \<and> canonicalValue (own ''payload'' event) = Inr (own ''payload'' e)"

lemma normalizeEventInput_wrote:
  assumes "normalizeEventInput event = Inr n" "\<not> nullish (own ''payload'' event)"
    and "own ''type'' e = own ''type'' n" "own ''payload'' e = own ''payload'' n"
  shows "wrote event e"
proof -
  obtain p where n: "n = normalized_event event p" and p: "assertPlainJson (own ''payload'' event) = Inr p"
    using assms(1,2) unfolding normalizeEventInput_def run_inv by (auto simp: coalesce_def)
  have "canonicalValue (own ''payload'' event) = Inr p"
    using p by (auto simp: assertPlainJson_def jsonClone_def split: sum.splits)
  moreover have "own ''type'' n = own ''type'' event" "own ''payload'' n = p" by (simp_all add: n normalized_event_def)
  ultimately show ?thesis using assms(3,4) by (simp add: wrote_def)
qed

text \<open>
  What an operation of the ledger may do: fail, with at most one event added; report a known
  reservation and add nothing; or add one event, after which the budget it returns is the one the
  new history rebuilds to.
\<close>

definition ledger_outcome :: "platform \<Rightarrow> journal \<Rightarrow> ledger \<Rightarrow> jsval list \<Rightarrow> string \<Rightarrow> string set \<Rightarrow> (string \<Rightarrow> jsval \<Rightarrow> bool)
    \<Rightarrow> budget_result res \<Rightarrow> disk \<Rightarrow> bool" where
  "ledger_outcome P J L es i olds news r d' = (case r of
       Inl e \<Rightarrow> \<exists>more. journal_hist P J d' (es @ more) \<and> length more \<le> 1
     | Inr x \<Rightarrow> br_reservation x = reservationById (br_budget x) i \<and>
        ((br_status x \<in> olds \<and> journal_hist P J d' es \<and> rebuildBudgetStateFromEvents P es (lg_envelope L) = Inr (br_budget x))
         \<or> (\<exists>e. journal_hist P J d' (es @ [e]) \<and> news (br_status x) e
              \<and> rebuildBudgetStateFromEvents P (es @ [e]) (lg_envelope L) = Inr (br_budget x))))"

lemma ledger_fails: "journal_hist P J d' es \<Longrightarrow> ledger_outcome P J L es i olds news (Inl e) d'"
  by (auto simp: ledger_outcome_def intro: exI [of _ "[]"])

lemma appendBudget_outcome:
  assumes h: "journal_hist P J d es" and C: "lock_only C1" "lock_only C2" and room: "append_room es"
    and dn: "distinct_names (own ''payload'' event)" and pl: "\<not> nullish (own ''payload'' event)"
    and a: "appendBudgetEvent P J L C1 C2 lease (recovered P es ''CLEAN'' 0) event i dup fresh d = (r, d')"
  shows "ledger_outcome P J L es i {dup} (\<lambda>s e. s = fresh \<and> wrote event e) r d'
    \<and> (\<forall>e. r = Inl e \<longrightarrow> casLost ev n e \<longrightarrow> journal_hist P J d' es)"
proof -
  define st where "st = recovered P es ''CLEAN'' 0"
  have ev: "rc_events st = es" by (simp add: st_def recovered_def)
  obtain r1 d1 where r1: "appendEvent P J C1 (JObj [(''lease'', lease), (''expectedSeq'', rc_lastSeq st),
              (''expectedDigest'', rc_lastEventDigest st), (''event'', event)]) d = (r1, d1)" by (metis surj_pair)
  from append_hist [OF h C(1) room dn r1] consider
      (failed) e where "r1 = Inl e" "journal_hist P J d1 es"
    | (known) x where "r1 = Inr x" "ar_status x \<in> {''DUPLICATE_EVENT'', ''LATE_EVENT''}" "journal_hist P J d1 es"
    | (new) x where "r1 = Inr x" "ar_status x = ''APPENDED''" "journal_hist P J d1 (es @ [ar_event x])" "wrote event (ar_event x)" "truthy (ar_event x)"
    using normalizeEventInput_wrote [OF _ pl] by blast
  then show ?thesis
  proof cases
    case failed
    then have "r = Inl e" "d' = d1" using a r1 by (simp_all add: appendBudgetEvent_def obind_def st_def)
    then show ?thesis using failed ledger_fails by blast
  next
    case known
    show ?thesis
    proof (cases "ar_status x = ''LATE_EVENT''")
      case True
      then have "r = failBudget ''BUDGET_EVENT_LATE''" "d' = d1"
        using a r1 known by (simp_all add: appendBudgetEvent_def obind_def olift_def st_def)
      then show ?thesis using known(3) ledger_fails by (auto simp: failBudget_def)
    next
      case False
      obtain r2 d2 where r2: "durableState P J L C2 lease d1 = (r2, d2)" by (metis surj_pair)
      note d2 = durable_hist [OF known(3) C(2) r2]
      have dup: "ar_status x = ''DUPLICATE_EVENT''" using False known(2) by simp
      show ?thesis
      proof (cases r2)
        case (Inl e)
        then have "r = Inl e" "d' = d2" using a r1 known(1) dup r2 by (simp_all add: appendBudgetEvent_def obind_def olift_def st_def)
        then show ?thesis using d2 ledger_fails by blast
      next
        case (Inr y)
        obtain rc b where y: "y = (rc, b)" by (cases y)
        have "r = Inr (resultOf dup (reservationById b i) (rc_lastSeq rc) (rc_lastEventDigest rc) b)" "d' = d2"
          using a r1 known(1) dup r2 Inr y by (simp_all add: appendBudgetEvent_def obind_def olift_def st_def)
        then show ?thesis using d2 Inr y by (simp add: ledger_outcome_def resultOf_def)
      qed
    qed
  next
    case new
    define nx where "nx = rebuildBudgetStateFromEvents P (es @ [ar_event x]) (lg_envelope L)"
    have "filter truthy (rc_events st @ [ar_event x]) = es @ [ar_event x]"
      using hist_truthy [OF h] new(5) by (simp add: ev)
    then have a': "obind (olift nx) (\<lambda>u. olift (Inr (resultOf fresh (reservationById u i) (ar_lastSeq x) (ar_lastEventDigest x) u))) d1 = (r, d')"
      using a r1 new(1,2) unfolding appendBudgetEvent_def st_def [symmetric] obind_def [of "appendEvent P J C1 I" for I] nx_def by simp
    show ?thesis
    proof (cases nx)
      case (Inl e)
      then have r: "r = Inl e" "d' = d1" using a' by (simp_all add: obind_def olift_def)
      have "\<not> casLost ev n e" using no_cas_rebuild [of P "es @ [ar_event x]" "lg_envelope L"] Inl
        by (cases e) (auto simp: no_cas_def nx_def casLost_def)
      then show ?thesis using r new(3) by (auto simp: ledger_outcome_def intro!: exI [of _ "[ar_event x]"])
    next
      case (Inr b)
      then have "r = Inr (resultOf fresh (reservationById b i) (ar_lastSeq x) (ar_lastEventDigest x) b)" "d' = d1"
        using a' by (simp_all add: obind_def olift_def)
      then show ?thesis using new(3,4) Inr by (auto simp: ledger_outcome_def resultOf_def nx_def)
    qed
  qed
qed

lemma retrying_outcome:
  assumes "attempt d = (r1, d1)" "Q r1 d1" "\<And>e. r1 = Inl e \<Longrightarrow> casLost ev n e \<Longrightarrow> H d1"
    and "\<And>d r d'. H d \<Longrightarrow> again d = (r, d') \<Longrightarrow> Q r d'" and "retrying ev n attempt again d = (r, d')"
  shows "Q r d'"
  using assms by (cases r1) (auto simp: retrying_def split: if_splits)



definition durable_ok :: "platform \<Rightarrow> journal \<Rightarrow> ledger \<Rightarrow> jsval list \<Rightarrow> (recovery \<times> budget) res \<Rightarrow> disk \<Rightarrow> bool" where
  "durable_ok P J L es r d \<longleftrightarrow> journal_hist P J d es \<and> (\<forall>rc b. r = Inr (rc, b) \<longrightarrow>
     rc = recovered P es ''CLEAN'' 0 \<and> rebuildBudgetStateFromEvents P es (lg_envelope L) = Inr b)"

lemma durable_valid: "lock_only C \<Longrightarrow> valid_op (\<lambda>d. journal_hist P J d es) (durableState P J L C lease) (durable_ok P J L es)"
  using durable_hist by (fastforce simp: valid_op_def durable_ok_def)

lemma valid_durable:
  assumes "lock_only C" "\<And>e d. journal_hist P J d es \<Longrightarrow> Q (Inl e) d"
    and "\<And>b. rebuildBudgetStateFromEvents P es (lg_envelope L) = Inr b
      \<Longrightarrow> valid_op (\<lambda>d. journal_hist P J d es) (f (recovered P es ''CLEAN'' 0, b)) Q"
  shows "valid_op (\<lambda>d. journal_hist P J d es) (obind (durableState P J L C lease) f) Q"
proof (rule valid_obind [OF durable_valid [OF assms(1)]])
  show "Q (Inl e) d" if "durable_ok P J L es (Inl e) d" for e d using that assms(2) by (simp add: durable_ok_def)
  show "valid_op (durable_ok P J L es (Inr x)) (f x) Q" for x
  proof (cases x)
    case (Pair rc b)
    show ?thesis
    proof (cases "rc = recovered P es ''CLEAN'' 0 \<and> rebuildBudgetStateFromEvents P es (lg_envelope L) = Inr b")
      case True
      then show ?thesis using Pair by (auto intro!: valid_pre [OF assms(3)] simp: durable_ok_def)
    next
      case False
      then show ?thesis using Pair by (auto simp: valid_op_def durable_ok_def)
    qed
  qed
qed

lemma valid_retrying:
  assumes "\<And>d r d'. I d \<Longrightarrow> attempt d = (r, d') \<Longrightarrow> Q r d' \<and> (\<forall>e. r = Inl e \<longrightarrow> casLost ev n e \<longrightarrow> I d')" "valid_op I again Q"
  shows "valid_op I (retrying ev n attempt again) Q"
  unfolding valid_op_def
proof (intro allI impI)
  fix d r d' assume I: "I d" and r: "retrying ev n attempt again d = (r, d')"
  obtain r1 d1 where a: "attempt d = (r1, d1)" by (metis surj_pair)
  show "Q r d'"
    by (rule retrying_outcome [where Q = Q and H = I, OF a _ _ _ r]) (use assms I a in \<open>auto simp: valid_op_def\<close>)
qed

text \<open>The vectors of the ledger have distinct keys, so their objects have too.\<close>

lemma vecJ_names: "distinct (map fst v) \<Longrightarrow> distinct_names (vecJ v)"
  by (auto simp: vecJ_def list_all_iff comp_def case_prod_unfold)

abbreviation known_reserve :: "string set" where
  "known_reserve \<equiv> {''ALREADY_RESERVED'', ''ALREADY_SETTLED''}"

abbreviation new_reserve :: "jsval \<Rightarrow> jsval \<Rightarrow> string \<Rightarrow> string \<Rightarrow> vector \<Rightarrow> string \<Rightarrow> jsval \<Rightarrow> bool" where
  "new_reserve reservation input i ow w \<equiv> \<lambda>s e. s = ''RESERVED'' \<and> wrote (reserve_event reservation input i ow w) e"

lemma ledger_outcome_mono:
  "ledger_outcome P J L es i olds news r d \<Longrightarrow> olds \<subseteq> olds' \<Longrightarrow> (\<And>s e. news s e \<Longrightarrow> news' s e) \<Longrightarrow> ledger_outcome P J L es i olds' news' r d"
  by (cases r) (auto simp: ledger_outcome_def)

lemma reserveLoop_valid:
  assumes K: "\<And>k. lock_only (K k)" and room: "append_room es" and w: "good_vec w"
  shows "valid_op (\<lambda>d. journal_hist P J d es) (reserveLoop P J L K reservation input i ow w n k)
     (ledger_outcome P J L es i known_reserve (new_reserve reservation input i ow w))"
proof (induction n arbitrary: k)
  case 0
  show ?case by (simp add: valid_olift ledger_fails failBudget_def)
next
  case (Suc n)
  let ?Q = "ledger_outcome P J L es i known_reserve (new_reserve reservation input i ow w)"
  let ?I = "\<lambda>d. journal_hist P J d es"
  have fail: "valid_op ?I (olift (failBudget c)) ?Q" for c by (simp add: valid_olift ledger_fails failBudget_def)
  have dn: "distinct_names (own ''payload'' (reserve_event reservation input i ow w))"
    using w vecJ_names by (simp add: reserve_event_def good_vec_def)
  have pl: "\<not> nullish (own ''payload'' (reserve_event reservation input i ow w))" by (simp add: reserve_event_def)
  show ?case unfolding reserveLoop.simps
  proof (rule valid_check, simp add: ledger_fails, rule valid_durable [OF K], simp add: ledger_fails, unfold prod.case, rule valid_check, simp add: ledger_fails)
    fix lease b m assume b: "rebuildBudgetStateFromEvents P es (lg_envelope L) = Inr b"
    show "valid_op ?I (if \<not> m then olift (failBudget ''BUDGET_VERSION_MISMATCH'') else
     case reservationById b i of
       Some existing \<Rightarrow>
         obind (olift (if r_owner existing \<noteq> ow then Inr False else equalVector P (r_worstCase existing) w)) (\<lambda>same.
         if \<not> same then olift (failBudget ''RESERVATION_CONFLICT'') else
         olift (Inr (resultOf (if r_status existing = ''reserved'' then ''ALREADY_RESERVED'' else ''ALREADY_SETTLED'') (Some existing)
           (rc_lastSeq (recovered P es ''CLEAN'' 0)) (rc_lastEventDigest (recovered P es ''CLEAN'' 0)) b)))
     | None \<Rightarrow>
         obind (olift (assertCapacity b w)) (\<lambda>_.
         retrying (own ''expectedVersion'' input) n
           (appendBudgetEvent P J L (K (k + 1)) (K (k + 2)) lease (recovered P es ''CLEAN'' 0)
              (reserve_event reservation input i ow w) i ''ALREADY_RESERVED'' ''RESERVED'')
           (reserveLoop P J L K reservation input i ow w n (k + 3)))) ?Q"
    proof (rule valid_if, rule fail)
      show "valid_op ?I (case reservationById b i of
       Some existing \<Rightarrow>
         obind (olift (if r_owner existing \<noteq> ow then Inr False else equalVector P (r_worstCase existing) w)) (\<lambda>same.
         if \<not> same then olift (failBudget ''RESERVATION_CONFLICT'') else
         olift (Inr (resultOf (if r_status existing = ''reserved'' then ''ALREADY_RESERVED'' else ''ALREADY_SETTLED'') (Some existing)
           (rc_lastSeq (recovered P es ''CLEAN'' 0)) (rc_lastEventDigest (recovered P es ''CLEAN'' 0)) b)))
     | None \<Rightarrow>
         obind (olift (assertCapacity b w)) (\<lambda>_.
         retrying (own ''expectedVersion'' input) n
           (appendBudgetEvent P J L (K (k + 1)) (K (k + 2)) lease (recovered P es ''CLEAN'' 0)
              (reserve_event reservation input i ow w) i ''ALREADY_RESERVED'' ''RESERVED'')
           (reserveLoop P J L K reservation input i ow w n (k + 3)))) ?Q"
      proof (cases "reservationById b i")
        case (Some existing)
        show ?thesis unfolding Some option.case
        proof (rule valid_check, simp add: ledger_fails, rule valid_if, rule fail)
          show "valid_op ?I (olift (Inr (resultOf (if r_status existing = ''reserved'' then ''ALREADY_RESERVED'' else ''ALREADY_SETTLED'') (Some existing)
           (rc_lastSeq (recovered P es ''CLEAN'' 0)) (rc_lastEventDigest (recovered P es ''CLEAN'' 0)) b))) ?Q"
            by (rule valid_olift) (simp add: ledger_outcome_def resultOf_def Some b)
        qed
      next
        case None
        show ?thesis unfolding None option.case
        proof (rule valid_check, simp add: ledger_fails, rule valid_retrying [OF _ Suc.IH])
          fix d r d' assume "journal_hist P J d es" and "appendBudgetEvent P J L (K (k + 1)) (K (k + 2)) lease (recovered P es ''CLEAN'' 0)
              (reserve_event reservation input i ow w) i ''ALREADY_RESERVED'' ''RESERVED'' d = (r, d')"
          from appendBudget_outcome [OF this(1) K K room dn pl this(2)]
          show "?Q r d' \<and> (\<forall>e. r = Inl e \<longrightarrow> casLost (own ''expectedVersion'' input) n e \<longrightarrow> journal_hist P J d' es)"
            by (auto intro: ledger_outcome_mono)
        qed
      qed
    qed
  qed
qed

lemma reserve_valid:
  assumes "\<And>k. lock_only (K k)" "append_room es"
  shows "valid_op (\<lambda>d. journal_hist P J d es) (reserve P J L K reservation input)
    (\<lambda>r d'. case r of Inl e \<Rightarrow> \<exists>more. journal_hist P J d' (es @ more) \<and> length more \<le> 1
      | Inr x \<Rightarrow> \<exists>i ow w. own ''reservationId'' reservation = JStr i \<and> own ''ownerId'' reservation = JStr ow
          \<and> normalizeVector False (own ''worstCase'' reservation) = Inr w
          \<and> ledger_outcome P J L es i known_reserve (new_reserve reservation (defaulted input) i ow w) (Inr x) d')"
  (is "valid_op ?I _ ?Q")
proof -
  define Q where "Q = ?Q"
  have f: "Q (Inl e) d" if "journal_hist P J d es" for e d using that by (auto simp: Q_def intro: exI [of _ "[]"])
  have id: "v = JStr s" if "validateBudgetId v = Inr s" for v s using that by (auto simp: validateBudgetId_def split: jsval.splits if_splits)
  have "valid_op ?I (reserve P J L K reservation input) Q" unfolding reserve_def
  proof (rule valid_if, rule valid_olift, simp add: f failBudget_def, rule valid_check, simp add: f, rule valid_check, simp add: f,
      rule valid_check, simp add: f, rule valid_check, simp add: f, rule valid_check, simp add: f)
    fix i ow w assume n: "validateBudgetId (own ''reservationId'' reservation) = Inr i" "validateBudgetId (own ''ownerId'' reservation) = Inr ow"
      "normalizeVector False (own ''worstCase'' reservation) = Inr w"
    have v: "valid_op ?I (reserveLoop P J L K reservation (defaulted input) i ow w (lg_retries L) 0)
        (ledger_outcome P J L es i known_reserve (new_reserve reservation (defaulted input) i ow w))"
      by (rule reserveLoop_valid [OF assms normalizeVector_good [OF n(3)]])
    show "valid_op ?I (reserveLoop P J L K reservation (defaulted input) i ow w (lg_retries L) 0) Q"
      unfolding valid_op_def
    proof (intro allI impI)
      fix d r d' assume "journal_hist P J d es" "reserveLoop P J L K reservation (defaulted input) i ow w (lg_retries L) 0 d = (r, d')"
      from valid_opD [OF v this] show "Q r d'" using id n unfolding Q_def by (cases r) (auto simp: ledger_outcome_def)
    qed
  qed
  then show ?thesis unfolding Q_def .
qed



section \<open>Settling\<close>

abbreviation new_settle :: "string \<Rightarrow> jsval \<Rightarrow> bool" where
  "new_settle \<equiv> \<lambda>s e. (s = ''REFUNDED'' \<and> own ''type'' e = JStr ''BudgetRefunded'') \<or> (s = ''CONSUMED'' \<and> own ''type'' e = JStr ''BudgetConsumed'')"

lemma settlementTerminal_keys:
  assumes "settlementTerminal P r s = Inr (c, f)"
  shows "map fst c = map fst (r_worstCase r)" "map fst f = map fst (r_worstCase r)"
proof -
  obtain a where "completeActual (r_worstCase r) a = Inr (c, f)"
    using assms unfolding settlementTerminal_def budget_inv by (auto split: if_splits simp: rbind_eq_Inr)
  then have "map fst c = map fst (r_worstCase r) \<and> map fst f = map fst (r_worstCase r)"
    unfolding completeActual_def budget_inv by (auto simp: comp_def case_prod_unfold)
  then show "map fst c = map fst (r_worstCase r)" "map fst f = map fst (r_worstCase r)" by blast+
qed

lemma settleLoop_valid:
  assumes K: "\<And>k. lock_only (K k)" and room: "append_room es"
  shows "valid_op (\<lambda>d. journal_hist P J d es) (settleLoop P J L K i settlement input n k)
     (ledger_outcome P J L es i {''ALREADY_SETTLED''} new_settle)"
proof (induction n arbitrary: k)
  case 0
  show ?case by (simp add: valid_olift ledger_fails failBudget_def)
next
  case (Suc n)
  let ?Q = "ledger_outcome P J L es i {''ALREADY_SETTLED''} new_settle"
  let ?I = "\<lambda>d. journal_hist P J d es"
  define st where "st = recovered P es ''CLEAN'' 0"
  have fail: "valid_op ?I (olift (failBudget c)) ?Q" for c by (simp add: valid_olift ledger_fails failBudget_def)
  have fl: "journal_hist P J d es \<Longrightarrow> ?Q (Inl e) d" for d e by (rule ledger_fails)
  show ?case unfolding settleLoop.simps
  proof (rule valid_check, erule fl, rule valid_durable [OF K], erule fl, unfold prod.case st_def [symmetric], rule valid_check, erule fl,
      rule valid_if, rule fail)
    fix lease b m assume b: "rebuildBudgetStateFromEvents P es (lg_envelope L) = Inr b"
    show "valid_op ?I (case reservationById b i of None \<Rightarrow> olift (failBudget ''RESERVATION_NOT_FOUND'')
     | Some existing \<Rightarrow>
         obind (olift (settlementTerminal P existing settlement)) (\<lambda>(consumed, refunded).
         if r_status existing \<noteq> ''reserved'' then
           obind (olift (rbind (equalVector P (case r_consumed existing of None \<Rightarrow> [] | Some v \<Rightarrow> v) consumed) (\<lambda>a.
              if \<not> a then Inr False else equalVector P (case r_refunded existing of None \<Rightarrow> [] | Some v \<Rightarrow> v) refunded))) (\<lambda>same.
           if same then olift (Inr (resultOf ''ALREADY_SETTLED'' (Some existing) (rc_lastSeq st) (rc_lastEventDigest st) b))
           else olift (failBudget ''RESERVATION_ALREADY_SETTLED''))
         else
           obind (olift (ensureMetering (lg_limits L) consumed (lg_metering L))) (\<lambda>_.
           obind (olift (equalVector P consumed (zeroVectorLike (r_worstCase existing)))) (\<lambda>fullyRefunded.
           retrying (own ''expectedVersion'' input) n
             (appendBudgetEvent P J L (K (k + 1)) (K (k + 2)) lease st
                (settle_event input i existing consumed refunded fullyRefunded) i
                ''ALREADY_SETTLED'' (if fullyRefunded then ''REFUNDED'' else ''CONSUMED''))
             (settleLoop P J L K i settlement input n (k + 3)))))) ?Q"
    proof (cases "reservationById b i")
      case None
      show ?thesis unfolding None option.case by (rule fail)
    next
      case (Some r)
      have r: "reservation_ok r" using Some byId_Some [of "b_reservations b" i r] budget_reservations_ok [OF b]
        by (auto simp: reservationById_def list_all_iff)
      show ?thesis unfolding Some option.case
      proof (rule valid_check, erule fl, unfold split_paired_all prod.case, rule valid_if)
        show "valid_op ?I (obind (olift (rbind (equalVector P (case r_consumed r of None \<Rightarrow> [] | Some v \<Rightarrow> v) c) (\<lambda>a.
              if \<not> a then Inr False else equalVector P (case r_refunded r of None \<Rightarrow> [] | Some v \<Rightarrow> v) f))) (\<lambda>same.
           if same then olift (Inr (resultOf ''ALREADY_SETTLED'' (Some r) (rc_lastSeq st) (rc_lastEventDigest st) b))
           else olift (failBudget ''RESERVATION_ALREADY_SETTLED''))) ?Q" for c f
        proof (rule valid_check, erule fl, rule valid_if)
          show "valid_op ?I (olift (Inr (resultOf ''ALREADY_SETTLED'' (Some r) (rc_lastSeq st) (rc_lastEventDigest st) b))) ?Q"
            by (rule valid_olift) (simp add: ledger_outcome_def resultOf_def Some b)
        qed (rule fail)
        fix c f assume t: "settlementTerminal P r settlement = Inr (c, f)"
        show "valid_op ?I (obind (olift (ensureMetering (lg_limits L) c (lg_metering L))) (\<lambda>_.
           obind (olift (equalVector P c (zeroVectorLike (r_worstCase r)))) (\<lambda>fullyRefunded.
           retrying (own ''expectedVersion'' input) n
             (appendBudgetEvent P J L (K (k + 1)) (K (k + 2)) lease st
                (settle_event input i r c f fullyRefunded) i
                ''ALREADY_SETTLED'' (if fullyRefunded then ''REFUNDED'' else ''CONSUMED''))
             (settleLoop P J L K i settlement input n (k + 3))))) ?Q"
        proof (rule valid_check, erule fl, rule valid_check, erule fl, rule valid_retrying [OF _ Suc.IH])
          fix full d q d' assume "journal_hist P J d es" and a: "appendBudgetEvent P J L (K (k + 1)) (K (k + 2)) lease st
              (settle_event input i r c f full) i ''ALREADY_SETTLED'' (if full then ''REFUNDED'' else ''CONSUMED'') d = (q, d')"
          have dk: "distinct (map fst (r_worstCase r))" using r by (simp add: reservation_ok_def good_vec_def)
          have dn: "distinct_names (own ''payload'' (settle_event input i r c f full))"
            using vecJ_names [OF dk] vecJ_names [of c] vecJ_names [of f] settlementTerminal_keys [OF t] dk by (simp add: settle_event_def)
          have pl: "\<not> nullish (own ''payload'' (settle_event input i r c f full))" by (simp add: settle_event_def)
          have ty: "own ''type'' (settle_event input i r c f full) = JStr (if full then ''BudgetRefunded'' else ''BudgetConsumed'')"
            by (simp add: settle_event_def)
          note o = appendBudget_outcome [OF \<open>journal_hist P J d es\<close> K K room dn pl a [unfolded st_def], of "own ''expectedVersion'' input" n]
          have "?Q q d'" by (rule ledger_outcome_mono [OF conjunct1 [OF o]]) (auto simp: wrote_def ty split: if_splits)
          then show "?Q q d' \<and> (\<forall>e. q = Inl e \<longrightarrow> casLost (own ''expectedVersion'' input) n e \<longrightarrow> journal_hist P J d' es)"
            using o by blast
        qed
      qed
    qed
  qed
qed

section \<open>Normalised vectors are fixed points\<close>

lemma resources_no_alias: "k \<in> set RESOURCES \<Longrightarrow> map_of RESOURCE_ALIASES k = None"
proof -
  have "\<forall>k \<in> set RESOURCES. map_of RESOURCE_ALIASES k = None" by code_simp
  then show "k \<in> set RESOURCES \<Longrightarrow> map_of RESOURCE_ALIASES k = None" by blast
qed

lemma alias_targets: "map_of RESOURCE_ALIASES k = Some r \<Longrightarrow> r \<in> set RESOURCES"
proof -
  have "\<forall>(k, r) \<in> set RESOURCE_ALIASES. r \<in> set RESOURCES" by code_simp
  then show "map_of RESOURCE_ALIASES k = Some r \<Longrightarrow> r \<in> set RESOURCES" by (auto dest: map_of_SomeD)
qed

lemma keys_update: "fst ` set (AList.update k n v) = insert k (fst ` set v)"
  by (induction v) auto

lemma normalizeVector_keys:
  assumes "normalizeVector b v = Inr w"
  shows "fst ` set w \<subseteq> set RESOURCES"
proof -
  obtain ps where ps: "v = JObj ps" and unk: "\<forall>k \<in> fst ` set ps. k \<in> set RESOURCES \<or> map_of RESOURCE_ALIASES k \<noteq> None"
    and f: "foldR vectorEntry [] ps = Inr w"
    using assms unfolding normalizeVector_def budget_inv by (cases v) (auto simp: filter_empty_conv)
  show ?thesis
  proof (rule foldR_inv [OF f, where I = "\<lambda>s. fst ` set s \<subseteq> set RESOURCES"])
    fix s x s' assume x: "x \<in> set ps" "fst ` set s \<subseteq> set RESOURCES" "vectorEntry s x = Inr s'"
    obtain k raw where xk: "x = (k, raw)" by (cases x)
    define r where "r = (case map_of RESOURCE_ALIASES k of None \<Rightarrow> k | Some r \<Rightarrow> r)"
    have "k \<in> fst ` set ps" using x(1) xk by force
    then have "r \<in> set RESOURCES" using unk alias_targets by (auto simp: r_def split: option.splits)
    moreover have "\<exists>n. s' = AList.update r n s"
      using x(3) unfolding vectorEntry_def xk prod.case r_def [symmetric] Let_def rbind_eq_Inr by (auto split: option.splits if_splits)
    then obtain n where "s' = AList.update r n s" by blast
    ultimately show "fst ` set s' \<subseteq> set RESOURCES" using x(2) by (simp add: keys_update)
  qed simp
qed

lemma numeric_good: "good_vec w \<Longrightarrow> (k, n) \<in> set w \<Longrightarrow> numeric k (JNum n) = Inr n"
  by (auto simp: good_vec_def numeric_def)

lemma vectorEntries_id:
  assumes "good_vec (u @ w)" "fst ` set w \<subseteq> set RESOURCES"
  shows "foldR vectorEntry u (map (\<lambda>(k, n). (k, JNum n)) w) = Inr (u @ w)"
  using assms
proof (induction w arbitrary: u)
  case (Cons p w)
  obtain k n where p: "p = (k, n)" by (cases p)
  have "k \<notin> fst ` set u" using Cons.prems(1) by (auto simp: good_vec_def p)
  then have new: "map_of u k = None" "AList.update k n u = u @ [(k, n)]" by (simp_all add: map_of_eq_None_iff update_new)
  have "numeric k (JNum n) = Inr n" by (rule numeric_good [OF Cons.prems(1)]) (simp add: p)
  then have "vectorEntry u (k, JNum n) = Inr (u @ [(k, n)])"
    using Cons.prems(2) resources_no_alias [of k] new by (simp add: vectorEntry_def p)
  moreover have "foldR vectorEntry (u @ [(k, n)]) (map (\<lambda>(k, n). (k, JNum n)) w) = Inr ((u @ [(k, n)]) @ w)"
    by (rule Cons.IH) (use Cons.prems in \<open>simp_all add: p\<close>)
  ultimately show ?case by (simp add: p)
qed simp

lemma normalizeVector_id:
  assumes "good_vec w" "fst ` set w \<subseteq> set RESOURCES" "b \<or> list_ex (\<lambda>(k, n). num_less (Fin 0) n) w"
  shows "normalizeVector b (vecJ w) = Inr w"
proof -
  have "filter (\<lambda>key. key \<notin> set RESOURCES \<and> map_of RESOURCE_ALIASES key = None) (keys (vecJ w)) = []"
    using assms(2) by (auto simp: filter_empty_conv vecJ_def)
  moreover have "foldR vectorEntry [] (entries (vecJ w)) = Inr w"
    using vectorEntries_id [of "[]" w] assms(1,2) by (simp add: vecJ_def)
  ultimately show ?thesis using assms(3) by (auto simp: normalizeVector_def vecJ_def)
qed



section \<open>The reservation that was asked for is the one recorded\<close>

lemma sort_key_map_snd: "sort_key fst (map (\<lambda>(k, n). (k, g n)) v) = map (\<lambda>(k, n). (k, g n)) (sort_key fst v)"
proof (induction v)
  case (Cons p v)
  have "insort_key fst (k, g n) (map (\<lambda>(k, n). (k, g n)) u) = map (\<lambda>(k, n). (k, g n)) (insort_key fst (k, n) u)" for k n u
    by (induction u) auto
  then show ?case using Cons by (cases p) simp
qed simp

lemma canonical_vecJ:
  assumes "list_all (\<lambda>(k, n). num_isFinite n) w"
  shows "canonicalValue (vecJ w) = Inr (vecJ (sort_key fst w))"
proof -
  have "canonicalMembers (map (\<lambda>(k, n). (k, JNum n)) w) = Inr (map (\<lambda>(k, n). (k, JNum n)) w)"
    by (rule canonicalMembers_id) (use assms in \<open>auto simp: list_all_iff canonical_def\<close>)
  then show ?thesis by (simp add: vecJ_def sort_key_map_snd)
qed

lemma good_finite: "good_vec w \<Longrightarrow> list_all (\<lambda>(k, n). num_isFinite n) w"
  by (auto simp: good_vec_def list_all_iff)

lemma normalizeVector_positive: "normalizeVector False v = Inr w \<Longrightarrow> list_ex (\<lambda>(k, n). num_less (Fin 0) n) w"
  unfolding normalizeVector_def budget_inv by auto

lemma reserved_event_applied:
  assumes w: "normalizeVector False v = Inr w" and e: "wrote (reserve_event reservation input i ow w) e"
    and a: "applyBudgetEvent P (rs, c) e = Inr acc"
  shows "byId rs i = None \<and> acc = (rs @ [\<lparr> r_id = i, r_owner = ow, r_worstCase = sort_key fst w, r_status = ''reserved'',
           r_reservedSeq = own ''seq'' e, r_settledSeq = JNull, r_consumed = None, r_refunded = None \<rparr>], c)"
proof -
  define ps where "ps = [(''reservationId'', JStr i), (''ownerId'', JStr ow), (''worstCase'', vecJ w)]"
  have ty: "own ''type'' e = JStr ''BudgetReserved''" and pl: "canonicalValue (JObj ps) = Inr (own ''payload'' e)"
    using e by (simp_all add: wrote_def reserve_event_def ps_def)
  have d: "distinct (map fst ps)" by (simp add: ps_def)
  have oi: "own ''reservationId'' (JObj ps) = JStr i" "own ''ownerId'' (JObj ps) = JStr ow" "own ''worstCase'' (JObj ps) = vecJ w" by (simp_all add: ps_def)
  note g = normalizeVector_good [OF w]
  have f: "own ''reservationId'' (own ''payload'' e) = JStr i" "own ''ownerId'' (own ''payload'' e) = JStr ow"
    "own ''worstCase'' (own ''payload'' e) = vecJ (sort_key fst w)"
    using canonicalValue_own [OF pl d, of "''reservationId''"] canonicalValue_own [OF pl d, of "''ownerId''"]
      canonicalValue_own [OF pl d, of "''worstCase''"] canonical_vecJ [OF good_finite [OF g]] unfolding oi by (simp_all add: vecJ_def)
  have wv: "normalizeVector False (vecJ (sort_key fst w)) = Inr (sort_key fst w)"
    by (rule normalizeVector_id) (use good_vec_sort [OF g] normalizeVector_keys [OF w] normalizeVector_positive [OF w] in \<open>auto simp: list_ex_iff\<close>)
  have tr: "truthy e" "JStr ''BudgetReserved'' \<in> set (map JStr BUDGET_EVENT_TYPES)" using ty by (cases e; simp) (simp add: BUDGET_EVENT_TYPES_def)
  obtain p where p: "validateBudgetEvent e = Inr p" using a tr ty by (auto simp: applyBudgetEvent_def rbind_eq_Inr)
  have "p = BudgetReserved i ow (sort_key fst w)"
    using p ty f wv by (auto simp: validateBudgetEvent_def validateBudgetId_def rbind_eq_Inr Let_def split: if_splits)
  then show ?thesis using a tr ty p by (auto simp: applyBudgetEvent_def split: if_splits)
qed

lemma byId_mem: "distinct (map r_id os) \<Longrightarrow> r \<in> set os \<Longrightarrow> byId os (r_id r) = Some r"
proof (induction os)
  case (Cons q os)
  then show ?case by (cases "q = r") (force simp: byId_def)+
qed simp

lemma reserved_recorded:
  assumes b: "rebuildBudgetStateFromEvents P (es @ [e]) env = Inr b"
    and w: "normalizeVector False v = Inr w" and e: "wrote (reserve_event reservation input i ow w) e"
  shows "\<exists>r \<in> set (b_reservations b). reservationById b i = Some r \<and> r_id r = i \<and> r_owner r = ow \<and> r_status r = ''reserved''
    \<and> (\<forall>k. vget (r_worstCase r) k = vget w k)"
proof -
  from rebuild_facts [OF b] obtain rs c where r: "foldR (applyBudgetEvent P) ([], []) (es @ [e]) = Inr (rs, c)"
    "mapR cloneReservation (sort_by (\<lambda>a b. locale_le P (r_id a) (r_id b)) rs) = Inr (b_reservations b)" by metis
  obtain rs0 c0 where s: "applyBudgetEvent P (rs0, c0) e = Inr (rs, c)"
    using r(1) by (auto simp: foldR_append rbind_eq_Inr)
  define q where "q = \<lparr> r_id = i, r_owner = ow, r_worstCase = sort_key fst w, r_status = ''reserved'',
           r_reservedSeq = own ''seq'' e, r_settledSeq = JNull, r_consumed = None, r_refunded = None \<rparr>"
  have "q \<in> set (sort_by (\<lambda>a b. locale_le P (r_id a) (r_id b)) rs)" using reserved_event_applied [OF w e s] by (simp add: q_def)
  then obtain r' where r': "r' \<in> set (b_reservations b)" "cloneReservation q = Inr r'" using mapR_member_in [OF r(2)] by blast
  note f = cloneReservation_fields [OF r'(2)]
  have "reservationById b i = Some r'"
    using byId_mem [OF _ r'(1)] budget_reservations_ok [OF b] f(1) by (simp add: reservationById_def q_def)
  then show ?thesis using r'(1) f by (intro bexI [of _ r']) (simp_all add: q_def vget_sort)
qed

end
