(* ===== verification/Budget_Properties.thy ===== *)
theory Budget_Properties
  imports Budget_Spec
begin

text \<open>
  The properties of the budget ledger: what reserving and settling do to the journal and to the
  budget, the exact bound on discrete resources, conservation by settlements, refusals, and two
  places where rounding defeats the checks.
\<close>

section \<open>Reserving\<close>

lemma rebuild_limit:
  assumes "rebuildBudgetStateFromEvents P es env = Inr b" "map_of (b_limits b) k = Some l"
  shows "\<not> exceeds (vget (b_committed b) k) l"
proof -
  have "\<forall>(k, l) \<in> set (b_limits b). \<not> exceeds (vget (b_committed b) k) l" using rebuild_facts [OF assms(1)] by metis
  then show ?thesis using map_of_SomeD [OF assms(2)] by fast
qed


definition demo_ledger :: ledger where
  "demo_ledger = \<lparr> lg_envelope = JObj [(''maxTurns'', jint 10)], lg_limits = [(''turns'', num_of_int 10)], lg_metering = JObj [], lg_retries = 2 \<rparr>"

definition demo_reservation :: "string \<Rightarrow> int \<Rightarrow> jsval" where
  "demo_reservation i n = JObj [(''reservationId'', JStr i), (''ownerId'', JStr ''node-1''), (''worstCase'', JObj [(''turns'', jint n)])]"

definition demo_input :: jsval where
  "demo_input = JObj [(''lease'', demo_lease)]"

definition demo_reserved :: disk where
  "demo_reserved = snd (reserve reference_host demo_journal demo_ledger (\<lambda>_. demo_call) (demo_reservation ''r1'' 4) demo_input demo_leased)"

lemma demo_reserve_eval:
  "case fst (reserve reference_host demo_journal demo_ledger (\<lambda>_. demo_call) (demo_reservation ''r1'' 4) demo_input demo_leased) of
     Inl e \<Rightarrow> False | Inr x \<Rightarrow> br_status x = ''RESERVED'' \<and> map_of (b_limits (br_budget x)) ''turns'' = Some (num_of_int 10)
       \<and> num_isFinite (vget (b_committed (br_budget x)) ''turns'')"
  by code_simp

lemma demo_ledger_created:
  "createBudgetReservationLedger (JObj [(''maxTurns'', jint 10)]) JUndef (jint 2) = Inr demo_ledger"
  by code_simp

lemma demo_leased_hist: "journal_hist reference_host demo_journal demo_leased []"
  using demo_states(1) reference_host_ok demo_run by (auto simp: journal_hist_def)

lemma demo_reserve_result:
  obtains x where "reserve reference_host demo_journal demo_ledger (\<lambda>_. demo_call) (demo_reservation ''r1'' 4) demo_input demo_leased = (Inr x, demo_reserved)"
    "br_status x = ''RESERVED''" "map_of (b_limits (br_budget x)) ''turns'' = Some (num_of_int 10)"
    "num_isFinite (vget (b_committed (br_budget x)) ''turns'')"
proof -
  obtain q where q: "reserve reference_host demo_journal demo_ledger (\<lambda>_. demo_call) (demo_reservation ''r1'' 4) demo_input demo_leased = (q, demo_reserved)"
    by (metis demo_reserved_def prod.collapse)
  then show ?thesis using demo_reserve_eval that by (cases q) auto
qed


text \<open>
  Replaying a reservation is safe: when the budget already holds the id, reserving it again
  adds no event. It reports the recorded reservation and the current budget, or fails.
\<close>

theorem reserve_never_doubles:
  assumes "journal_hist P J d es" "\<And>k. lock_only (K k)"
    and "rebuildBudgetStateFromEvents P es (lg_envelope L) = Inr b" "reservationById b i = Some r"
    and "own ''reservationId'' reservation = JStr i" "reserve P J L K reservation input d = (q, d')"
  shows "journal_hist P J d' es \<and> (\<forall>x. q = Inr x \<longrightarrow> br_status x \<in> {''ALREADY_RESERVED'', ''ALREADY_SETTLED''}
     \<and> br_reservation x = Some r \<and> br_budget x = b)"
proof -
  define Q where "Q = (\<lambda>(q :: budget_result res) d'. journal_hist P J d' es \<and> (\<forall>x. q = Inr x \<longrightarrow> br_status x \<in> {''ALREADY_RESERVED'', ''ALREADY_SETTLED''}
     \<and> br_reservation x = Some r \<and> br_budget x = b))"
  let ?I = "\<lambda>d. journal_hist P J d es"
  have f: "Q (Inl e) d" if "journal_hist P J d es" for e d using that by (simp add: Q_def)
  have fail: "valid_op ?I (olift (failBudget c)) Q" for c by (simp add: valid_olift f failBudget_def)
  have loop: "valid_op ?I (reserveLoop P J L K reservation inp i ow w n k) Q" for inp ow w n k
  proof (cases n)
    case 0
    then show ?thesis using fail by simp
  next
    case (Suc m)
    show ?thesis unfolding Suc reserveLoop.simps
    proof (rule valid_check, erule f, rule valid_durable [OF assms(2)], erule f, unfold prod.case, rule valid_check, erule f, rule valid_if, rule fail)
      fix lease b' u assume "rebuildBudgetStateFromEvents P es (lg_envelope L) = Inr b'"
      then have b': "b' = b" using assms(3) by simp
      show "valid_op ?I (case reservationById b' i of
       Some existing \<Rightarrow>
         obind (olift (if r_owner existing \<noteq> ow then Inr False else equalVector P (r_worstCase existing) w)) (\<lambda>same.
         if \<not> same then olift (failBudget ''RESERVATION_CONFLICT'') else
         olift (Inr (resultOf (if r_status existing = ''reserved'' then ''ALREADY_RESERVED'' else ''ALREADY_SETTLED'') (Some existing)
           (rc_lastSeq (recovered P es ''CLEAN'' 0)) (rc_lastEventDigest (recovered P es ''CLEAN'' 0)) b')))
     | None \<Rightarrow>
         obind (olift (assertCapacity b' w)) (\<lambda>_.
         retrying (own ''expectedVersion'' inp) m
           (appendBudgetEvent P J L (K (k + 1)) (K (k + 2)) lease (recovered P es ''CLEAN'' 0)
              (reserve_event reservation inp i ow w) i ''ALREADY_RESERVED'' ''RESERVED'')
           (reserveLoop P J L K reservation inp i ow w m (k + 3)))) Q"
        unfolding b' assms(4) option.case
      proof (rule valid_check, erule f, rule valid_if, rule fail)
        show "valid_op ?I (olift (Inr (resultOf (if r_status r = ''reserved'' then ''ALREADY_RESERVED'' else ''ALREADY_SETTLED'') (Some r)
           (rc_lastSeq (recovered P es ''CLEAN'' 0)) (rc_lastEventDigest (recovered P es ''CLEAN'' 0)) b))) Q"
          by (rule valid_olift) (simp add: Q_def resultOf_def)
      qed
    qed
  qed
  have "valid_op ?I (reserve P J L K reservation input) Q" unfolding reserve_def
  proof (rule valid_if, rule fail, rule valid_check, erule f, rule valid_check, erule f, rule valid_check, erule f, rule valid_check, erule f,
      rule valid_check, erule f)
    fix i' ow w assume "validateBudgetId (own ''reservationId'' reservation) = Inr i'"
    then have "i' = i" using assms(5) by (auto simp: validateBudgetId_def split: if_splits)
    then show "valid_op ?I (reserveLoop P J L K reservation (defaulted input) i' ow w (lg_retries L) 0) Q" using loop by simp
  qed
  from valid_opD [OF this assms(1,6)] show ?thesis by (simp add: Q_def)
qed

theorem reserve_never_doubles_witness:
  "\<exists>e. journal_hist reference_host demo_journal (snd (reserve reference_host demo_journal demo_ledger (\<lambda>_. demo_call) (demo_reservation ''r1'' 4) demo_input demo_reserved)) [e]"
proof -
  obtain x where x: "reserve reference_host demo_journal demo_ledger (\<lambda>_. demo_call) (demo_reservation ''r1'' 4) demo_input demo_leased = (Inr x, demo_reserved)"
    "br_status x = ''RESERVED''" by (rule demo_reserve_result)
  have room: "append_room []" by (simp add: append_room_def MAX_SAFE_INTEGER_def)
  have id: "own ''reservationId'' (demo_reservation ''r1'' 4) = JStr ''r1''" by (simp add: demo_reservation_def)
  from valid_opD [OF reserve_valid [OF demo_lock_only room] demo_leased_hist x(1)] obtain ow w where
    w: "normalizeVector False (own ''worstCase'' (demo_reservation ''r1'' 4)) = Inr w"
    and o: "ledger_outcome reference_host demo_journal demo_ledger [] ''r1'' known_reserve
      (new_reserve (demo_reservation ''r1'' 4) (defaulted demo_input) ''r1'' ow w) (Inr x) demo_reserved" by (auto simp: id)
  then obtain e where e: "journal_hist reference_host demo_journal demo_reserved [e]"
    "wrote (reserve_event (demo_reservation ''r1'' 4) (defaulted demo_input) ''r1'' ow w) e"
    "rebuildBudgetStateFromEvents reference_host [e] (lg_envelope demo_ledger) = Inr (br_budget x)"
    using x(2) by (auto simp: ledger_outcome_def)
  have e3: "rebuildBudgetStateFromEvents reference_host ([] @ [e]) (lg_envelope demo_ledger) = Inr (br_budget x)" using e(3) by simp
  from reserved_recorded [OF e3 w e(2)] obtain r where r: "reservationById (br_budget x) ''r1'' = Some r" by blast
  obtain q d' where q: "reserve reference_host demo_journal demo_ledger (\<lambda>_. demo_call) (demo_reservation ''r1'' 4) demo_input demo_reserved = (q, d')"
    by (metis surj_pair)
  from reserve_never_doubles [OF e(1) demo_lock_only e(3) r id q] show ?thesis using q by auto
qed

text \<open>
  A run with a hard token or cost limit, or a reservation of these resources, without reliable
  metering is refused before the journal is touched.
\<close>

theorem unmetered_reservation_refused:
  assumes "resource \<in> {''tokens'', ''cost''}" "\<not> meteringAvailable (lg_metering L) resource"
    and "map_of (lg_limits L) resource \<noteq> None"
    and "reserve P J L K reservation input d = (q, d')"
  shows "d' = d \<and> (\<exists>e. q = Inl e)"
proof -
  have "ensureMetering (lg_limits L) w (lg_metering L) = failBudget ''METERING_UNAVAILABLE''" for w
    using assms(1-3) by (auto simp: ensureMetering_def)
  then show ?thesis using assms(4)
    by (auto simp: reserve_def obind_def olift_def failBudget_def split: sum.splits if_splits)
qed

theorem unmetered_reservation_refused_witness:
  "snd (reserve plain_host demo_journal (demo_ledger\<lparr>lg_limits := [(''tokens'', num_of_int 100)]\<rparr>) (\<lambda>_. demo_call) (demo_reservation ''r1'' 4) demo_input demo_leased) = demo_leased"
proof -
  obtain q d' where q: "reserve plain_host demo_journal (demo_ledger\<lparr>lg_limits := [(''tokens'', num_of_int 100)]\<rparr>) (\<lambda>_. demo_call) (demo_reservation ''r1'' 4) demo_input demo_leased = (q, d')"
    by (metis surj_pair)
  from unmetered_reservation_refused [OF _ _ _ q, of "''tokens''"] show ?thesis
    using q by (simp add: demo_ledger_def meteringAvailable_def)
qed

section \<open>Settling\<close>

text \<open>
  (C10) Settling implements the abstract step: a failed settlement adds at most the settlement event;
  an already settled reservation is reported without adding anything; a settlement that
  succeeds adds exactly one event, refunding or consuming as reported, and returns the budget
  the new history rebuilds to.
\<close>

theorem settle_implements_ledger:
  assumes "journal_hist P J d es" "\<And>k. lock_only (K k)" "append_room es"
    and "settle P J L K reservationId settlement input d = (q, d')"
  shows "case q of Inl e \<Rightarrow> \<exists>more. journal_hist P J d' (es @ more) \<and> length more \<le> 1
    | Inr x \<Rightarrow> (br_status x = ''ALREADY_SETTLED'' \<and> journal_hist P J d' es
          \<and> rebuildBudgetStateFromEvents P es (lg_envelope L) = Inr (br_budget x))
      \<or> (\<exists>e. journal_hist P J d' (es @ [e]) \<and> rebuildBudgetStateFromEvents P (es @ [e]) (lg_envelope L) = Inr (br_budget x)
          \<and> ((br_status x = ''REFUNDED'' \<and> own ''type'' e = JStr ''BudgetRefunded'')
             \<or> (br_status x = ''CONSUMED'' \<and> own ''type'' e = JStr ''BudgetConsumed'')))"
proof (cases "validateBudgetId reservationId")
  case (Inl e)
  then have "q = Inl e" "d' = d" using assms(4) by (simp_all add: settle_def obind_def olift_def)
  then show ?thesis using assms(1) by (auto intro: exI [of _ "[]"])
next
  case (Inr i)
  then have "settleLoop P J L K i (defaulted settlement) (defaulted input) (lg_retries L) 0 d = (q, d')"
    using assms(4) by (simp add: settle_def obind_def olift_def)
  from valid_opD [OF settleLoop_valid [OF assms(2,3)] assms(1) this]
  show ?thesis by (cases q) (auto simp: ledger_outcome_def)
qed

theorem settle_implements_ledger_witness:
  "\<exists>es. journal_hist reference_host demo_journal
     (snd (settle reference_host demo_journal demo_ledger (\<lambda>_. demo_call) (JStr ''r1'') (JObj []) demo_input demo_leased)) es \<and> length es \<le> 1"
proof -
  obtain q d' where q: "settle reference_host demo_journal demo_ledger (\<lambda>_. demo_call) (JStr ''r1'') (JObj []) demo_input demo_leased = (q, d')"
    by (metis surj_pair)
  have room: "append_room []" by (simp add: append_room_def MAX_SAFE_INTEGER_def)
  from settle_implements_ledger [OF demo_leased_hist demo_lock_only room q] show ?thesis
    using q by (cases q) fastforce+
qed

section \<open>Exactness\<close>

definition ledger_event :: "string \<Rightarrow> int \<Rightarrow> (string \<times> jsval) list \<Rightarrow> jsval" where
  "ledger_event type seq parts = JObj [(''type'', JStr type), (''seq'', jint seq),
     (''payload'', JObj ([(''reservationId'', JStr ''a''), (''ownerId'', JStr ''node-1'')] @ parts))]"

definition settled_events :: "jsval list" where
  "settled_events = (let v = (\<lambda>n. JObj [(''turns'', jint n)]) in
     [ledger_event ''BudgetReserved'' 1 [(''worstCase'', v 4)],
      ledger_event ''BudgetConsumed'' 2 [(''reserved'', v 4), (''consumed'', v 3), (''refunded'', v 1)]])"

lemma settled_eval:
  "case rebuildBudgetStateFromEvents reference_host settled_events (JObj [(''maxTurns'', jint 10)]) of Inl e \<Rightarrow> False
     | Inr b \<Rightarrow> map (\<lambda>r. (r_status r, amount (r_worstCase r) ''turns'')) (b_reservations b) = [(''consumed'', 4)]
         \<and> map_of (b_limits b) ''turns'' = Some (num_of_int 10) \<and> num_isFinite (vget (b_committed b) ''turns'')"
  by code_simp





text \<open>
  Normalising is idempotent: a vector that \<open>normalizeVector\<close> accepted, written back as an
  object, is accepted again and is itself; aliases are gone.
\<close>

theorem normalized_vector_fixed:
  assumes "normalizeVector b v = Inr w"
  shows "normalizeVector b (vecJ w) = Inr w"
proof (rule normalizeVector_id [OF normalizeVector_good [OF assms] normalizeVector_keys [OF assms]])
  show "b \<or> list_ex (\<lambda>(k, n). num_less (Fin 0) n) w"
    using assms unfolding normalizeVector_def budget_inv by auto
qed

theorem normalized_vector_fixed_witness:
  "normalizeVector False (vecJ [(''cost'', num_of_int 2), (''elapsedMs'', num_of_int 5)]) = Inr [(''cost'', num_of_int 2), (''elapsedMs'', num_of_int 5)]"
proof -
  have "normalizeVector False (JObj [(''maxCostUsd'', jint 2), (''timeoutMs'', jint 5), (''wallTimeMs'', jint 5)])
      = Inr [(''cost'', num_of_int 2), (''elapsedMs'', num_of_int 5)]" by code_simp
  then show ?thesis by (rule normalized_vector_fixed)
qed

section \<open>Where rounding defeats the checks\<close>

definition edge_events :: "jsval list" where
  "edge_events = (let v = (\<lambda>n. JObj [(''cost'', jint n)]) in
     [ledger_event ''BudgetReserved'' 1 [(''worstCase'', v 2)],
      ledger_event ''BudgetConsumed'' 2 [(''reserved'', v 2), (''consumed'', v 2), (''refunded'', v 0)],
      JObj [(''type'', JStr ''BudgetReserved''), (''seq'', jint 3),
        (''payload'', JObj [(''reservationId'', JStr ''b''), (''ownerId'', JStr ''node-1''), (''worstCase'', v 32)])]])"

definition edge_request :: jsval where
  "edge_request = JObj [(''type'', JStr ''BudgetReserved''), (''seq'', jint 4),
     (''payload'', JObj [(''reservationId'', JStr ''c''), (''ownerId'', JStr ''node-1''), (''worstCase'', JObj [(''cost'', jint 9007199254740991)])])]"


text \<open>
  A sum that overflows to infinity passes the check: against an infinite total every finite
  limit counts as close, because the tolerance is relative to the total and infinite as well.
\<close>

theorem infinite_total_passes_limit:
  assumes "vget (addVector (b_committed b) w) k = PInf" "b_limits b = [(k, Fin limit)]"
  shows "assertCapacity b w = Inr ()"
  using assms by (simp add: assertCapacity_def exceeds_def closeNumber_def num_sub_def num_max_def EPSILON_def)

lemma fl_pos_powi:
  assumes x: "x = 2 powi k" and k: "0 \<le> k"
  shows "fl_pos x = x"
proof -
  have "0 < x" by (simp add: x)
  then have "2 powi ilog2 x \<le> x" "x < 2 powi (ilog2 x + 1)" using ilog2_bounds by blast+
  then have l: "ilog2 x = k" unfolding x powi_two_le_iff powi_two_less_iff by simp
  then have u: "ulp_exp x = k - 52" using k by (simp add: ulp_exp_def)
  have q: "x / 2 powi (k - 52) = of_int (2 ^ 52)" by (simp add: x power_int_diff)
  have "fl_pos x = x / 2 powi (k - 52) * 2 powi (k - 52)"
    unfolding fl_pos_def u q by (simp only: round_half_even_int)
  then show ?thesis by simp
qed

definition huge :: rat where
  "huge = 2 ^ 1023"

lemma double_of_huge: "num_add (Fin huge) (Fin huge) = PInf"
proof -
  have "huge + huge = 2 ^ Suc 1023" unfolding huge_def by (subst power_Suc) simp
  then have e: "huge + huge = 2 powi int (Suc 1023)" by (simp only: power_int_of_nat)
  define x where "x = huge + huge"
  have f: "fl_pos x = x" by (rule fl_pos_powi [OF e [folded x_def]]) simp
  have x: "0 < x" "2 ^ 1024 \<le> x" by (simp_all add: x_def huge_def)
  have "fl x = PInf" unfolding fl_def Let_def f using x by simp
  then show ?thesis by (simp only: num_add.simps x_def)
qed

definition full_budget :: budget where
  "full_budget = \<lparr>b_limits = [(''cost'', Fin 1)], b_consumed = [(''cost'', Fin huge)], b_outstanding = [],
     b_committed = [(''cost'', Fin huge)], b_available = [], b_reservations = []\<rparr>"

theorem infinite_total_passes_limit_witness:
  "assertCapacity full_budget [(''cost'', Fin huge)] = Inr ()"
proof -
  have 1: "vget (addVector (b_committed full_budget) [(''cost'', Fin huge)]) ''cost'' = PInf"
    by (simp add: full_budget_def addVector_def vget_def double_of_huge del: num_add.simps)
  show ?thesis by (rule infinite_total_passes_limit [OF 1, of 1]) (simp add: full_budget_def)
qed

end
