(* ===== verification/Plan_Policy.thy ===== *)
theory Plan_Policy
  imports State_Codec
begin

text \<open>
  The policies of a workflow plan, from \<open>packages/subagents/workflow/plan-compiler/index.mjs\<close>
  (lines 8 to 191): a policy is normalised, a complete policy is one that equals its own
  normal form, a node's policy must be covered by the root policy, and the effective policy of
  a node combines both. \<open>canonical\<close> and \<open>digest\<close> of this file are the same functions as
  \<open>canonicalize\<close> and \<open>digestValue\<close> of the domain.
\<close>

section \<open>Vocabulary\<close>

definition PLAN_ID :: "string \<Rightarrow> bool" where
  "PLAN_ID = re_ident (\<lambda>c. lower_alnum c \<or> c = CHR ''-'') 63"

definition COMPOSITES :: "string list" where
  "COMPOSITES = [''sequence'', ''pipeline'', ''parallel'', ''workflow'']"

definition PRIMITIVES :: "string list" where
  "PRIMITIVES = [''agent'', ''batch-swarm'', ''gate'', ''checkpoint'', ''approval'', ''loop-controller'']"

definition PLAN_MUTATING_TOOLS :: "string list" where
  "PLAN_MUTATING_TOOLS = [''bash'', ''edit'', ''write'']"

definition PLAN_WORKSPACE_RANK :: "(string \<times> nat) list" where
  "PLAN_WORKSPACE_RANK = [(''shared-read-only'', 0), (''shared-guarded'', 1), (''managed-worktree'', 2)]"

definition PLAN_EGRESS_RANK :: "(string \<times> nat) list" where
  "PLAN_EGRESS_RANK = [(''deny'', 0), (''ask'', 1), (''allow'', 2)]"

definition SURFACES :: "string list" where
  "SURFACES = [''web'', ''mcp'', ''provider'']"

definition failPlan :: "string \<Rightarrow> 'a res" where
  "failPlan code = Inl (Thrown ''WorkflowPlanError'' code)"

definition plan_canonicalId :: "platform \<Rightarrow> jsval \<Rightarrow> jsval res" where
  "plan_canonicalId P v = (if \<not> PLAN_ID (js_string P (coalesce v (JStr ''''))) then failPlan ''INVALID_ID'' else Inr v)"

section \<open>Normal form\<close>

definition workflow_policy :: "jsval \<Rightarrow> jsval \<Rightarrow> jsval \<Rightarrow> jsval \<Rightarrow> jsval \<Rightarrow> jsval list \<Rightarrow> jsval list \<Rightarrow> jsval" where
  "workflow_policy workspace mutation web mcp provider allow deny = JObj [
     (''workspace'', workspace), (''mutation'', mutation),
     (''egress'', JObj [(''web'', web), (''mcp'', mcp), (''provider'', provider)]),
     (''tools'', JObj [(''allow'', JArr allow), (''deny'', JArr deny)])]"

text \<open>\<open>const tool = list.find(p); if (tool) fail(...)\<close>: a found tool that is falsy does not fail.\<close>

definition finds_truthy :: "(jsval \<Rightarrow> bool) \<Rightarrow> jsval list \<Rightarrow> bool" where
  "finds_truthy p xs = (case find p xs of None \<Rightarrow> False | Some tool \<Rightarrow> truthy tool)"

definition toolList :: "platform \<Rightarrow> string \<Rightarrow> jsval \<Rightarrow> jsval list res" where
  "toolList P field tools = rbind (iterate (coalesce (own field tools) (JArr []))) (\<lambda>xs. Inr (js_sort P xs))"

definition checkWorkflowPolicy :: "jsval \<Rightarrow> jsval \<Rightarrow> jsval list \<Rightarrow> jsval list \<Rightarrow> jsval list \<Rightarrow> unit res" where
  "checkWorkflowPolicy workspace mutation egress allow deny =
     (if workspace \<notin> set (map JStr [''shared-read-only'', ''shared-guarded'', ''managed-worktree'']) then failPlan ''INVALID_POLICY'' else
      if mutation \<notin> set (map JStr [''none'', ''guarded'']) then failPlan ''INVALID_POLICY'' else
      if list_ex (\<lambda>v. v \<notin> set (map JStr [''allow'', ''deny'', ''ask''])) egress then failPlan ''INVALID_POLICY'' else
      if finds_truthy (\<lambda>tool. tool \<in> set deny) allow then failPlan ''POLICY_ESCALATION'' else
      if (mutation = JStr ''none'' \<or> workspace = JStr ''shared-read-only'')
         \<and> finds_truthy (\<lambda>tool. tool \<in> set (map JStr PLAN_MUTATING_TOOLS)) allow then failPlan ''POLICY_ESCALATION'' else
      Inr ())"

definition normalizeWorkflowPolicy :: "platform \<Rightarrow> jsval \<Rightarrow> jsval res" where
  "normalizeWorkflowPolicy P value =
     (let input = defaulted value in
      if \<not> isObj input then failPlan ''INVALID_POLICY'' else
      let workspace = coalesce (own ''workspace'' input) (JStr ''shared-read-only'');
          mutation = coalesce (own ''mutation'' input) (JStr ''none'');
          egress = own ''egress'' input;
          web = coalesce (own ''web'' egress) (JStr ''deny'');
          mcp = coalesce (own ''mcp'' egress) (JStr ''deny'');
          provider = coalesce (own ''provider'' egress) (JStr ''allow'') in
      rbind (toolList P ''allow'' (own ''tools'' input)) (\<lambda>allow.
      rbind (toolList P ''deny'' (own ''tools'' input)) (\<lambda>deny.
      rbind (checkWorkflowPolicy workspace mutation [web, mcp, provider] allow deny) (\<lambda>_.
      Inr (workflow_policy workspace mutation web mcp provider allow deny)))))"

definition completePolicy :: "platform \<Rightarrow> jsval \<Rightarrow> jsval res" where
  "completePolicy P input = rbind (normalizeWorkflowPolicy P input) (\<lambda>normalized.
     if stringify P (canonicalize input) \<noteq> stringify P (canonicalize normalized) then failPlan ''INVALID_POLICY'' else Inr normalized)"

section \<open>Coverage by the root policy\<close>

definition plan_rank :: "(string \<times> nat) list \<Rightarrow> jsval \<Rightarrow> nat option" where
  "plan_rank table v = (case v of JStr s \<Rightarrow> map_of table s | _ \<Rightarrow> None)"

text \<open>\<open>RANK[a] > RANK[b]\<close>, false when one of them has no rank.\<close>

definition ranks_above :: "(string \<times> nat) list \<Rightarrow> jsval \<Rightarrow> jsval \<Rightarrow> bool" where
  "ranks_above table a b = (case (plan_rank table a, plan_rank table b) of (Some x, Some y) \<Rightarrow> y < x | _ \<Rightarrow> False)"

definition allowed_tools :: "jsval \<Rightarrow> jsval list" where
  "allowed_tools policy = items (own ''allow'' (own ''tools'' policy))"

definition denied_tools :: "jsval \<Rightarrow> jsval list" where
  "denied_tools policy = items (own ''deny'' (own ''tools'' policy))"

definition assertPolicyCovered :: "jsval \<Rightarrow> jsval \<Rightarrow> unit res" where
  "assertPolicyCovered outer candidate =
     (if ranks_above PLAN_WORKSPACE_RANK (own ''workspace'' candidate) (own ''workspace'' outer) then failPlan ''ROOT_POLICY_ESCALATION'' else
      if own ''mutation'' outer = JStr ''none'' \<and> own ''mutation'' candidate \<noteq> JStr ''none'' then failPlan ''ROOT_POLICY_ESCALATION'' else
      if list_ex (\<lambda>surface. ranks_above PLAN_EGRESS_RANK (own surface (own ''egress'' candidate)) (own surface (own ''egress'' outer))) SURFACES
      then failPlan ''ROOT_POLICY_ESCALATION'' else
      if list_ex (\<lambda>tool. tool \<notin> set (allowed_tools outer)) (allowed_tools candidate) then failPlan ''ROOT_POLICY_ESCALATION'' else
      Inr ())"

definition narrower :: "(string \<times> nat) list \<Rightarrow> jsval \<Rightarrow> jsval \<Rightarrow> jsval" where
  "narrower table a b = (case (plan_rank table a, plan_rank table b) of (Some x, Some y) \<Rightarrow> (if x \<le> y then a else b) | _ \<Rightarrow> b)"

definition effectiveNodePolicy :: "platform \<Rightarrow> jsval \<Rightarrow> jsval \<Rightarrow> jsval" where
  "effectiveNodePolicy P outer candidate =
     (let denied = js_uniq (denied_tools outer @ denied_tools candidate);
          surface = (\<lambda>s. narrower PLAN_EGRESS_RANK (own s (own ''egress'' outer)) (own s (own ''egress'' candidate))) in
      canonicalize (workflow_policy
        (narrower PLAN_WORKSPACE_RANK (own ''workspace'' outer) (own ''workspace'' candidate))
        (JStr (if own ''mutation'' outer = JStr ''none'' \<or> own ''mutation'' candidate = JStr ''none'' then ''none'' else ''guarded''))
        (surface ''web'') (surface ''mcp'') (surface ''provider'')
        (js_sort P (filter (\<lambda>tool. tool \<in> set (allowed_tools outer) \<and> tool \<notin> set denied) (allowed_tools candidate)))
        (js_sort P denied)))"

text \<open>
  \<open>nodes.sort((left, right) => left.id.localeCompare(right.id))\<close>. Comparing calls a method of the
  id, so with two or more nodes an id that is no string makes it throw.
\<close>

definition sortById :: "platform \<Rightarrow> jsval list \<Rightarrow> jsval list res" where
  "sortById P xs = (if 2 \<le> length xs \<and> list_ex (\<lambda>x. \<not> isStr (own ''id'' x)) xs then Inl TypeError
     else Inr (sort_by (\<lambda>a b. locale_le P (js_string P (own ''id'' a)) (js_string P (own ''id'' b))) xs))"

definition envelopeNode :: "platform \<Rightarrow> jsval \<Rightarrow> jsval \<Rightarrow> jsval res" where
  "envelopeNode P outer node =
     rbind (prop_of ''policy'' node) (\<lambda>p.
     rbind (completePolicy P p) (\<lambda>policy.
     rbind (assertPolicyCovered outer policy) (\<lambda>_.
     Inr (JObj [(''id'', own ''id'' node), (''policy'', effectiveNodePolicy P outer policy)]))))"

definition effectiveWorkflowPolicyEnvelope :: "platform \<Rightarrow> jsval \<Rightarrow> jsval res" where
  "effectiveWorkflowPolicyEnvelope P plan =
     (if \<not> isObj plan \<or> \<not> isArr (own ''nodes'' plan) then failPlan ''INVALID_PLAN'' else
      rbind (completePolicy P (own ''policy'' plan)) (\<lambda>outer.
      rbind (mapR (envelopeNode P outer) (items (own ''nodes'' plan))) (\<lambda>nodes.
      rbind (sortById P nodes) (\<lambda>sorted.
      Inr (canonicalize (JObj [(''root'', outer), (''nodes'', JArr sorted)]))))))"

definition digestWorkflowPolicyEnvelope :: "platform \<Rightarrow> jsval \<Rightarrow> string res" where
  "digestWorkflowPolicyEnvelope P plan = rbind (effectiveWorkflowPolicyEnvelope P plan) (digestValue P)"

end
