(* ===== verification/Plan_Graph.thy ===== *)
theory Plan_Graph
  imports Plan_Policy
begin

text \<open>
  The dependency graph of a plan, from \<open>packages/subagents/workflow/plan-compiler/index.mjs\<close>
  (lines 193 to 242): \<open>graphFacts\<close> visits every node depth first, rejects cycles and unknown
  dependencies, and returns the order, the depth and the width of the graph;
  \<open>worstCaseCriticalPathMs\<close> sums the node budgets along the dependencies in that order.
  The set \<open>visiting\<close> of the code is the set of the \<open>trail\<close> parameter: an id is in it exactly
  while its visit runs; \<open>visited\<close> is the domain of the depth map. Maps are association lists in
  insertion order.
\<close>

record walk =
  w_order :: "jsval list"
  w_depth :: "(jsval \<times> nat) list"

record plan_facts =
  pf_byId :: "(jsval \<times> jsval) list"
  pf_order :: "jsval list"
  pf_depth :: nat
  pf_width :: nat

definition unvisited :: "(jsval \<times> jsval) list \<Rightarrow> jsval list \<Rightarrow> nat" where
  "unvisited byId trail = card (fst ` set byId - set trail)"

lemma unvisited_less: "i \<notin> set trail \<Longrightarrow> map_of byId i = Some node \<Longrightarrow> unvisited byId (trail @ [i]) < unvisited byId trail"
proof -
  assume i: "i \<notin> set trail" "map_of byId i = Some node"
  have "i \<in> fst ` set byId" using map_of_SomeD [OF i(2)] by force
  then have "fst ` set byId - set (trail @ [i]) \<subset> fst ` set byId - set trail" using i(1) by auto
  then show ?thesis unfolding unvisited_def by (rule psubset_card_mono [rotated]) simp
qed

function (sequential) visit :: "(jsval \<times> jsval) list \<Rightarrow> jsval list \<Rightarrow> jsval \<Rightarrow> walk \<Rightarrow> (nat \<times> walk) res"
  and visitAll :: "(jsval \<times> jsval) list \<Rightarrow> jsval list \<Rightarrow> jsval list \<Rightarrow> walk \<Rightarrow> (nat list \<times> walk) res" where
  "visit byId trail i st =
     (if i \<in> set trail then failPlan ''WORKFLOW_CYCLE'' else
      case map_of (w_depth st) i of Some d \<Rightarrow> Inr (d, st) | None \<Rightarrow>
      case map_of byId i of None \<Rightarrow> failPlan ''UNKNOWN_NODE'' | Some node \<Rightarrow>
      if \<not> truthy node then failPlan ''UNKNOWN_NODE'' else
      rbind (arr_of (own ''needs'' node)) (\<lambda>needs.
      rbind (visitAll byId (trail @ [i]) needs st) (\<lambda>(parentDepths, st').
      let value = (if parentDepths = [] then 1 else fold max parentDepths 0 + 1) in
      Inr (value, st'\<lparr>w_depth := w_depth st' @ [(i, value)], w_order := w_order st' @ [i]\<rparr>))))"
| "visitAll byId trail [] st = Inr ([], st)"
| "visitAll byId trail (x # xs) st =
     rbind (visit byId trail x st) (\<lambda>(d, st').
     rbind (visitAll byId trail xs st') (\<lambda>(ds, st''). Inr (d # ds, st'')))"
  by pat_completeness auto
termination
  by (relation "measures [\<lambda>c. case c of Inl (byId, trail, i, st) \<Rightarrow> unvisited byId trail | Inr (byId, trail, xs, st) \<Rightarrow> unvisited byId trail,
      \<lambda>c. case c of Inl (byId, trail, i, st) \<Rightarrow> 0 | Inr (byId, trail, xs, st) \<Rightarrow> Suc (length xs)]")
    (auto simp: unvisited_less)

definition addNode :: "(jsval \<times> jsval) list \<Rightarrow> jsval \<Rightarrow> (jsval \<times> jsval) list res" where
  "addNode byId node =
     rbind (prop_of ''id'' node) (\<lambda>i.
     if map_of byId i \<noteq> None then failPlan ''DUPLICATE_NODE'' else Inr (byId @ [(i, node)]))"

definition levelCounts :: "(jsval \<times> nat) list \<Rightarrow> (nat \<times> nat) list" where
  "levelCounts depth = foldl (\<lambda>levels (i, value). AList.update value ((case map_of levels value of None \<Rightarrow> 0 | Some n \<Rightarrow> n) + 1) levels) [] depth"

definition graphFacts :: "platform \<Rightarrow> jsval list \<Rightarrow> plan_facts res" where
  "graphFacts P nodes =
     rbind (foldR addNode [] nodes) (\<lambda>byId.
     rbind (visitAll byId [] (js_sort P (map fst byId)) \<lparr>w_order = [], w_depth = []\<rparr>) (\<lambda>(_, st).
     Inr \<lparr>pf_byId = byId, pf_order = w_order st, pf_depth = fold max (map snd (w_depth st)) 0,
          pf_width = fold max (map snd (levelCounts (w_depth st))) 0\<rparr>))"

text \<open>The cost of the nodes in visiting order: their own budget after the most expensive dependency.\<close>

definition nodeCost :: "platform \<Rightarrow> jsval \<Rightarrow> jsnum" where
  "nodeCost P node = num_mul (js_number P (own ''timeoutMs'' (own ''budget'' node))) (js_number P (own ''maxAttempts'' (own ''budget'' node)))"

definition upstreamCost :: "(jsval \<times> jsnum) list \<Rightarrow> jsval list \<Rightarrow> jsnum" where
  "upstreamCost cost needs =
     (case map (\<lambda>dependency. case map_of cost dependency of None \<Rightarrow> Fin 0 | Some c \<Rightarrow> c) needs of
        [] \<Rightarrow> Fin 0 | c # cs \<Rightarrow> fold (\<lambda>x m. num_max m x) cs c)"

definition addCost :: "platform \<Rightarrow> (jsval \<times> jsval) list \<Rightarrow> (jsval \<times> jsnum) list \<Rightarrow> jsval \<Rightarrow> (jsval \<times> jsnum) list" where
  "addCost P byId cost i = (case map_of byId i of None \<Rightarrow> cost | Some node \<Rightarrow>
     cost @ [(i, num_add (nodeCost P node) (upstreamCost cost (items (own ''needs'' node))))])"

definition worstCaseCriticalPathMs :: "platform \<Rightarrow> plan_facts \<Rightarrow> jsnum" where
  "worstCaseCriticalPathMs P facts =
     fold (\<lambda>(i, c) m. num_max m c) (foldl (addCost P (pf_byId facts)) [] (pf_order facts)) (Fin 0)"

end
