(* ===== verification/Batch_Definition.thy ===== *)
theory Batch_Definition
  imports State_Codec
begin

text \<open>
  The definition contract of \<open>packages/subagents/batch-swarm/index.mjs\<close> (lines 9 to 149): which
  BatchSwarm definitions are accepted, and the digest that binds one. The plan compiler resolves
  and embeds these. A list of findings is modelled by the list of their codes.
\<close>

definition BATCH_ID :: "string \<Rightarrow> bool" where
  "BATCH_ID = re_ident id_char 127"

definition BATCH_ARTIFACT :: "string \<Rightarrow> bool" where
  "BATCH_ARTIFACT s \<longleftrightarrow> prefix ''artifact://'' s \<and> re_ident (\<lambda>c. id_char c \<or> c = CHR ''/'') 511 (drop 11 s)"

definition MAX_PHYSICAL_ASSIGNMENTS :: int where
  "MAX_PHYSICAL_ASSIGNMENTS = 1000"

definition DEFINITION_KEYS :: "string list" where
  "DEFINITION_KEYS = [''$schema'', ''agentSpecHash'', ''agentSpecRef'', ''budgetRef'', ''concurrency'', ''contractStatus'',
     ''failurePolicy'', ''formatVersion'', ''id'', ''itemsFrom'', ''kind'', ''maxItems'', ''outputSchemaHash'',
     ''outputSchemaRef'', ''policyHash'', ''promptTemplateHash'', ''promptTemplateRef'', ''retryPolicy'']"

definition failBatch :: "string \<Rightarrow> 'a res" where
  "failBatch code = Inl (Thrown ''BatchSwarmError'' code)"

definition digestBatchSwarmDefinition :: "platform \<Rightarrow> jsval \<Rightarrow> string res" where
  "digestBatchSwarmDefinition P d = sha256 P (withoutKey d ''$schema'')"

definition batchExactKeys :: "jsval \<Rightarrow> string list \<Rightarrow> bool" where
  "batchExactKeys v expected \<longleftrightarrow> isObj v \<and> sort (keys v) = sort expected"

text \<open>\<open>Number.isSafeInteger(v) && v >= low && v <= high\<close>.\<close>

definition safe_between :: "platform \<Rightarrow> int \<Rightarrow> int \<Rightarrow> jsval \<Rightarrow> bool" where
  "safe_between P low high v \<longleftrightarrow> isSafeInteger v \<and> \<not> js_less P v (jint low) \<and> \<not> js_less P (jint high) v"

definition batchConcurrencyOk :: "platform \<Rightarrow> jsval \<Rightarrow> bool" where
  "batchConcurrencyOk P concurrency \<longleftrightarrow> batchExactKeys concurrency [''adaptiveRateLimit'', ''initial'', ''max'', ''rampEveryMs'']
     \<and> safe_between P 1 16 (own ''initial'' concurrency) \<and> safe_between P 1 16 (own ''max'' concurrency)
     \<and> \<not> js_less P (own ''max'' concurrency) (own ''initial'' concurrency)
     \<and> safe_between P 1 3600000 (own ''rampEveryMs'' concurrency) \<and> isBool (own ''adaptiveRateLimit'' concurrency)"

definition batchFailureErrors :: "platform \<Rightarrow> jsval \<Rightarrow> jsval \<Rightarrow> string list" where
  "batchFailureErrors P maxItems failure =
     (if \<not> isObj failure \<or> own ''kind'' failure \<notin> set (map JStr [''fail-fast'', ''continue'', ''quorum'', ''minimum-success'', ''all-required''])
         \<or> \<not> list_all (\<lambda>key. key \<in> {''kind'', ''threshold''}) (keys failure)
      then [''INVALID_BATCH_FAILURE_POLICY'']
      else let thresholdKind = own ''kind'' failure \<in> {JStr ''quorum'', JStr ''minimum-success''}; threshold = own ''threshold'' failure in
        (if thresholdKind \<and> (\<not> isSafeInteger threshold \<or> js_less P threshold (jint 1) \<or> js_less P maxItems threshold)
         then [''INVALID_BATCH_FAILURE_THRESHOLD''] else [])
        @ (if \<not> thresholdKind \<and> threshold \<noteq> JUndef then [''INVALID_BATCH_FAILURE_THRESHOLD''] else []))"

definition batchRetryOk :: "platform \<Rightarrow> jsval \<Rightarrow> bool" where
  "batchRetryOk P retry \<longleftrightarrow> batchExactKeys retry [''deadlineMs'', ''maxAttempts'', ''maxDelayMs'']
     \<and> safe_between P 1 8 (own ''maxAttempts'' retry) \<and> safe_between P 0 3600000 (own ''maxDelayMs'' retry)
     \<and> safe_between P 1 86400000 (own ''deadlineMs'' retry) \<and> \<not> js_less P (own ''deadlineMs'' retry) (own ''maxDelayMs'' retry)"

definition validateBatchDefinition :: "platform \<Rightarrow> jsval \<Rightarrow> string list" where
  "validateBatchDefinition P d =
     (if \<not> isObj d then [''INVALID_BATCH_DEFINITION''] else
      (if \<not> batchExactKeys d DEFINITION_KEYS then [''INVALID_BATCH_DEFINITION''] else [])
      @ (if own ''$schema'' d \<noteq> JStr ''https://github.com/Ricardo121380/only-my-pi/schemas/batch-swarm-v1.schema.json'' then [''INVALID_BATCH_SCHEMA''] else [])
      @ (if \<not> js_eq (own ''formatVersion'' d) (jint 1) \<or> own ''contractStatus'' d \<notin> {JStr ''contract-preview'', JStr ''runtime-ready''}
            \<or> own ''kind'' d \<noteq> JStr ''batch-swarm'' then [''INVALID_BATCH_VERSION''] else [])
      @ concat (map (\<lambda>field. case own field d of JStr s \<Rightarrow> (if BATCH_ID s then [] else [''INVALID_BATCH_ID'']) | _ \<Rightarrow> [''INVALID_BATCH_ID''])
          [''id'', ''agentSpecRef'', ''promptTemplateRef'', ''outputSchemaRef'', ''budgetRef''])
      @ concat (map (\<lambda>field. case own field d of JStr s \<Rightarrow> (if SHA256 s then [] else [''INVALID_BATCH_DIGEST'']) | _ \<Rightarrow> [''INVALID_BATCH_DIGEST''])
          [''agentSpecHash'', ''policyHash'', ''promptTemplateHash'', ''outputSchemaHash''])
      @ (case own ''itemsFrom'' d of JStr s \<Rightarrow> (if BATCH_ARTIFACT s then [] else [''INVALID_BATCH_ITEMS'']) | _ \<Rightarrow> [''INVALID_BATCH_ITEMS''])
      @ (if \<not> safe_between P 1 300 (own ''maxItems'' d) then [''INVALID_BATCH_MAX_ITEMS''] else [])
      @ (if \<not> batchConcurrencyOk P (own ''concurrency'' d) then [''INVALID_BATCH_CONCURRENCY''] else [])
      @ batchFailureErrors P (own ''maxItems'' d) (own ''failurePolicy'' d)
      @ (if \<not> batchRetryOk P (own ''retryPolicy'' d) then [''INVALID_BATCH_RETRY_POLICY''] else [])
      @ (let attempts = own ''maxAttempts'' (own ''retryPolicy'' d) in
         if isSafeInteger (own ''maxItems'' d) \<and> isSafeInteger attempts
            \<and> num_less (num_of_int MAX_PHYSICAL_ASSIGNMENTS) (num_mul (js_number P (own ''maxItems'' d)) (js_number P attempts))
         then [''INVALID_BATCH_ASSIGNMENT_ENVELOPE''] else []))"

definition assertBatchSwarmDefinition :: "platform \<Rightarrow> jsval \<Rightarrow> jsval res" where
  "assertBatchSwarmDefinition P d = (case validateBatchDefinition P d of [] \<Rightarrow> Inr d | code # _ \<Rightarrow> failBatch code)"

section \<open>What an accepted definition guarantees\<close>

lemma safe_between_iff: "safe_between P low high v \<longleftrightarrow> (\<exists>n. v = jint n \<and> low \<le> n \<and> n \<le> high \<and> \<bar>n\<bar> \<le> MAX_SAFE_INTEGER)"
  by (auto simp: safe_between_def isSafeInteger_iff)

lemma if_Nil [simp]: "(if c then [x] else []) = [] \<longleftrightarrow> \<not> c"
  by simp

lemma accepted_batch:
  assumes "assertBatchSwarmDefinition P d = Inr w"
  shows "w = d \<and> isObj d \<and> (\<exists>i. own ''id'' d = JStr i \<and> BATCH_ID i) \<and> safe_between P 1 300 (own ''maxItems'' d)
     \<and> safe_between P 1 8 (own ''maxAttempts'' (own ''retryPolicy'' d))"
proof -
  have v: "validateBatchDefinition P d = []" "w = d"
    using assms by (auto simp: assertBatchSwarmDefinition_def failBatch_def split: list.splits)
  then have o': "isObj d" by (auto simp: validateBatchDefinition_def split: if_splits)
  have "safe_between P 1 300 (own ''maxItems'' d)" "batchRetryOk P (own ''retryPolicy'' d)"
    "(case own ''id'' d of JStr s \<Rightarrow> (if BATCH_ID s then [] else [''INVALID_BATCH_ID'']) | _ \<Rightarrow> [''INVALID_BATCH_ID'']) = []"
    using v(1) o' by (simp_all add: validateBatchDefinition_def)
  then show ?thesis using v(2) o' by (auto simp: batchRetryOk_def split: jsval.splits if_splits)
qed

end
