(* ===== verification/Plan_Compiler.thy ===== *)
theory Plan_Compiler
  imports Plan_Graph Batch_Definition
begin

text \<open>
  The plan compiler, \<open>packages/subagents/workflow/plan-compiler/index.mjs\<close> (lines 56 to 487):
  budgets, node names, the compilation of a workflow tree into primitive nodes with their
  dependencies, the validation of a plan, and the difference between two revisions. The
  resolvers of nested workflows and of batch definitions are the caller's; they are parameters
  (\<open>compile_env\<close>). Nested workflows are compiled under a nesting bound; \<open>compileTree_fuel\<close> in
  Plan_Termination shows that a bound above the number of resolvable workflows is never reached.
\<close>

section \<open>Names and budgets\<close>

text \<open>\<open>joined.slice(0, 47).replace(/-+$/u, "")\<close>.\<close>

definition strip_dashes :: "string \<Rightarrow> string" where
  "strip_dashes s = rev (dropWhile (\<lambda>c. c = CHR ''-'') (rev s))"

definition planNamespace :: "platform \<Rightarrow> jsval \<Rightarrow> jsval \<Rightarrow> jsval res" where
  "planNamespace P outer i =
     (let joined = (if truthy outer then JStr (js_string P outer @ ''--'' @ js_string P i) else i) in
      rbind (prop_of ''length'' joined) (\<lambda>len.
      if js_le P len (jint 64) \<and> PLAN_ID (js_string P joined) then Inr joined else
      case joined of
        JStr s \<Rightarrow> rbind (digestValue P (JStr s)) (\<lambda>h. Inr (JStr (strip_dashes (take 47 s) @ ''-'' @ take 16 (drop 7 h))))
      | _ \<Rightarrow> Inl TypeError))"

definition normalizePlanBudget :: "platform \<Rightarrow> jsval \<Rightarrow> jsval res" where
  "normalizePlanBudget P value =
     (let input = defaulted value in
      if nullish input then Inl TypeError else
      let budget = JObj [
        (''maxNodes'', coalesce (own ''maxNodes'' input) (jint 64)), (''maxParallel'', coalesce (own ''maxParallel'' input) (jint 8)),
        (''maxDepth'', coalesce (own ''maxDepth'' input) (jint 4)), (''maxAttemptsPerNode'', coalesce (own ''maxAttemptsPerNode'' input) (jint 1)),
        (''maxWallTimeMs'', coalesce (own ''maxWallTimeMs'' input) (jint 3600000)),
        (''maxOutputBytes'', coalesce (own ''maxOutputBytes'' input) (jint 1048576)),
        (''maxAssignments'', coalesce (own ''maxAssignments'' input) (jint 64)),
        (''maxTokens'', coalesce (own ''maxTokens'' input) JNull), (''maxCostUsd'', coalesce (own ''maxCostUsd'' input) JNull)] in
      if list_ex (\<lambda>key. \<not> isSafeInteger (own key budget) \<or> js_less P (own key budget) (jint 1))
           [''maxNodes'', ''maxParallel'', ''maxDepth'', ''maxAttemptsPerNode'', ''maxWallTimeMs'', ''maxOutputBytes'', ''maxAssignments'']
      then failPlan ''INVALID_BUDGET'' else
      if list_ex (\<lambda>key. own key budget \<noteq> JNull \<and> (\<not> isFiniteNumber (own key budget) \<or> js_le P (own key budget) (jint 0))) [''maxTokens'', ''maxCostUsd'']
      then failPlan ''INVALID_BUDGET'' else Inr budget)"

section \<open>Primitive nodes\<close>

record compile_env =
  ce_resolveWorkflow :: "jsval \<Rightarrow> jsval res"
  ce_resolveBatch :: "(jsval \<Rightarrow> jsval res) option"
  ce_planBudget :: jsval

record compile_ctx =
  cx_prefix :: jsval
  cx_needs :: "jsval list"
  cx_stack :: "jsval list"

definition nodeBudget :: "platform \<Rightarrow> jsval \<Rightarrow> jsval \<Rightarrow> jsval" where
  "nodeBudget P source planBudget = (let b = own ''budget'' source in JObj [
     (''maxAttempts'', coalesce (own ''maxAttempts'' b) (jint 1)),
     (''timeoutMs'', coalesce (own ''timeoutMs'' b) (JNum (num_min (Fin 900000) (js_number P (own ''maxWallTimeMs'' planBudget))))),
     (''maxOutputBytes'', coalesce (own ''maxOutputBytes'' b) (JNum (num_min (Fin 65536) (js_number P (own ''maxOutputBytes'' planBudget))))),
     (''maxTokens'', coalesce (own ''maxTokens'' b) JNull), (''maxCostUsd'', coalesce (own ''maxCostUsd'' b) JNull)])"

text \<open>The fields every primitive has, and their checks.\<close>

definition primitiveBase :: "platform \<Rightarrow> jsval \<Rightarrow> jsval \<Rightarrow> jsval list \<Rightarrow> jsval \<Rightarrow> (string \<times> jsval) list res" where
  "primitiveBase P source i inheritedNeeds planBudget =
     rbind (iterate (coalesce (own ''needs'' source) (JArr []))) (\<lambda>needs.
     rbind (normalizeWorkflowPolicy P (own ''policy'' source)) (\<lambda>policy.
     rbind (iterate (coalesce (own ''keyInputs'' (own ''cache'' source)) (JArr []))) (\<lambda>keyInputs.
     let budget = nodeBudget P source planBudget;
         mode = coalesce (own ''mode'' (own ''cache'' source)) (JStr ''never'');
         idempotency = coalesce (own ''idempotency'' source) (JStr ''none'') in
     if list_ex (\<lambda>key. \<not> isInteger (own key budget) \<or> js_less P (own key budget) (jint 1)) [''maxAttempts'', ''timeoutMs'', ''maxOutputBytes'']
     then failPlan ''INVALID_NODE_BUDGET'' else
     if mode \<notin> set (map JStr [''never'', ''content-addressed'']) then failPlan ''INVALID_CACHE_POLICY'' else
     if idempotency \<notin> set (map JStr [''none'', ''receipt'', ''content-addressed'']) then failPlan ''INVALID_IDEMPOTENCY_POLICY'' else
     Inr [(''id'', i), (''kind'', own ''kind'' source), (''needs'', JArr (js_sort P (js_uniq (inheritedNeeds @ needs)))),
          (''policy'', policy), (''budget'', budget), (''cache'', JObj [(''mode'', mode), (''keyInputs'', JArr (js_sort P keyInputs))]),
          (''idempotency'', idempotency)])))"

definition batchFields :: "platform \<Rightarrow> (jsval \<Rightarrow> jsval res) option \<Rightarrow> jsval \<Rightarrow> jsval \<Rightarrow> (string \<times> jsval) list res" where
  "batchFields P resolveBatch source budget =
     rbind (plan_canonicalId P (own ''batchRef'' source)) (\<lambda>batchRef.
     if \<not> js_eq (own ''maxAttempts'' budget) (jint 1) then failPlan ''BATCH_ROOT_RETRY_FORBIDDEN'' else
     case resolveBatch of None \<Rightarrow> failPlan ''BATCH_RESOLVER_REQUIRED'' | Some resolve \<Rightarrow>
     rbind (resolve batchRef) (\<lambda>found.
     rbind (assertBatchSwarmDefinition P found) (\<lambda>batch.
     if \<not> js_eq (own ''id'' batch) batchRef then failPlan ''BATCH_REFERENCE_DRIFT'' else
     rbind (digestBatchSwarmDefinition P batch) (\<lambda>batchDigest.
     Inr [(''batchRef'', batchRef), (''batchDigest'', JStr batchDigest), (''batchMaxItems'', own ''maxItems'' batch),
          (''batchMaxAttempts'', own ''maxAttempts'' (own ''retryPolicy'' batch))]))))"

definition approvalFields :: "platform \<Rightarrow> jsval \<Rightarrow> (string \<times> jsval) list res" where
  "approvalFields P source =
     (let approval = coalesce (own ''approval'' source) (JObj []); scopeDigest = own ''scopeDigest'' approval in
      if \<not> truthy scopeDigest \<or> \<not> SHA256 (js_string P scopeDigest) then failPlan ''INVALID_APPROVAL'' else Inr [(''approval'', approval)])"

definition loopFields :: "platform \<Rightarrow> jsval \<Rightarrow> (string \<times> jsval) list res" where
  "loopFields P source =
     (let loop = coalesce (own ''loop'' source) (JObj []); maxIterations = own ''maxIterations'' loop; body = own ''bodyDefinitionDigest'' loop in
      if \<not> isInteger maxIterations \<or> js_less P maxIterations (jint 1) \<or> js_less P (jint 64) maxIterations then failPlan ''UNBOUNDED_LOOP'' else
      rbind (plan_canonicalId P (own ''conditionRef'' loop)) (\<lambda>_.
      if \<not> SHA256 (js_string P (coalesce body (JStr ''''))) then failPlan ''INVALID_LOOP'' else
      Inr [(''loop'', oset ''bodyDefinitionDigest'' body loop)]))"

text \<open>The fields of each kind.\<close>

definition kindFields :: "platform \<Rightarrow> (jsval \<Rightarrow> jsval res) option \<Rightarrow> jsval \<Rightarrow> jsval \<Rightarrow> (string \<times> jsval) list res" where
  "kindFields P resolveBatch source budget =
     (let kind = own ''kind'' source in
      if kind = JStr ''agent'' then
        rbind (plan_canonicalId P (own ''agentTemplateRef'' source)) (\<lambda>agentTemplateRef.
        Inr [(''agentTemplateRef'', agentTemplateRef), (''assignment'', coalesce (own ''assignment'' source) (JObj [])),
             (''outputSchemaRef'', coalesce (own ''outputSchemaRef'' source) JNull)])
      else if kind = JStr ''batch-swarm'' then batchFields P resolveBatch source budget
      else if kind = JStr ''gate'' then rbind (plan_canonicalId P (own ''gateId'' source)) (\<lambda>gateId. Inr [(''gateId'', gateId)])
      else if kind = JStr ''checkpoint'' then
        Inr [(''checkpoint'', coalesce (own ''checkpoint'' source) (JObj [(''scope'', JStr ''workspace''), (''restore'', JStr ''review-plan-only'')]))]
      else if kind = JStr ''approval'' then approvalFields P source
      else if kind = JStr ''loop-controller'' then loopFields P source
      else Inr [])"

definition unsafeReplay :: "jsval \<Rightarrow> bool" where
  "unsafeReplay node \<longleftrightarrow>
     (own ''mutation'' (own ''policy'' node) \<noteq> JStr ''none'' \<or> list_ex (\<lambda>tool. tool \<in> set (map JStr PLAN_MUTATING_TOOLS)) (allowed_tools (own ''policy'' node)))
     \<and> own ''idempotency'' node = JStr ''none'' \<and> own ''mode'' (own ''cache'' node) \<noteq> JStr ''never''"

definition normalizePrimitive :: "platform \<Rightarrow> compile_env \<Rightarrow> jsval \<Rightarrow> jsval \<Rightarrow> jsval list \<Rightarrow> jsval res" where
  "normalizePrimitive P E source i inheritedNeeds =
     (if own ''kind'' source \<notin> set (map JStr PRIMITIVES) then failPlan ''UNKNOWN_NODE_KIND'' else
      rbind (primitiveBase P source i inheritedNeeds (ce_planBudget E)) (\<lambda>base.
      rbind (kindFields P (ce_resolveBatch E) source (own ''budget'' (JObj base))) (\<lambda>extra.
      let node = JObj (base @ extra) in
      if unsafeReplay node then failPlan ''UNSAFE_REPLAY'' else Inr node)))"

section \<open>The tree\<close>

text \<open>What a subtree adds: its entries and exits, and the nodes pushed so far.\<close>

type_synonym compiled = "jsval list \<times> jsval list \<times> jsval list"

definition childrenOf :: "jsval \<Rightarrow> jsval" where
  "childrenOf source = coalesce (coalesce (own ''steps'' source) (own ''stages'' source)) (own ''branches'' source)"

lemma size_childrenOf: "childrenOf source = JArr children \<Longrightarrow> size_list size children < size source"
proof -
  assume c: "childrenOf source = JArr children"
  then have "size (JArr children) < size source"
    using size_own [of "''steps''" source] size_own [of "''stages''" source] size_own [of "''branches''" source]
    by (auto simp: childrenOf_def coalesce_def split: if_splits)
  then show ?thesis by simp
qed

definition NESTING_BOUND :: js_error where
  "NESTING_BOUND = Thrown ''NestingBound'' ''''"

function (sequential) compileTree :: "platform \<Rightarrow> compile_env \<Rightarrow> nat \<Rightarrow> compile_ctx \<Rightarrow> jsval \<Rightarrow> jsval list \<Rightarrow> compiled res"
  and compileParallel :: "platform \<Rightarrow> compile_env \<Rightarrow> nat \<Rightarrow> compile_ctx \<Rightarrow> jsval list \<Rightarrow> jsval list \<Rightarrow> compiled res"
  and compileSequence :: "platform \<Rightarrow> compile_env \<Rightarrow> nat \<Rightarrow> compile_ctx \<Rightarrow> jsval list \<Rightarrow> jsval list \<Rightarrow> compiled res" where
  "compileTree P E n C source nodes =
     (if \<not> isObj source then failPlan ''INVALID_DEFINITION'' else
      let kind = own ''kind'' source in
      if kind \<in> set (map JStr PRIMITIVES) then
        rbind (plan_canonicalId P (own ''id'' source)) (\<lambda>rawId.
        rbind (planNamespace P (cx_prefix C) rawId) (\<lambda>i.
        rbind (normalizePrimitive P E source i (cx_needs C)) (\<lambda>node. Inr ([i], [i], nodes @ [node]))))
      else if kind \<notin> set (map JStr COMPOSITES) then failPlan ''UNKNOWN_COMBINATOR''
      else if kind = JStr ''workflow'' then
        rbind (plan_canonicalId P (own ''workflowRef'' source)) (\<lambda>ref.
        if ref \<in> set (cx_stack C) then failPlan ''WORKFLOW_CYCLE'' else
        rbind (ce_resolveWorkflow E ref) (\<lambda>nested.
        if \<not> truthy nested then failPlan ''UNKNOWN_WORKFLOW'' else
        rbind (planNamespace P (cx_prefix C) (coalesce (own ''id'' source) ref)) (\<lambda>nestedPrefix.
        case n of 0 \<Rightarrow> Inl NESTING_BOUND
        | Suc m \<Rightarrow> compileTree P E m (C\<lparr>cx_prefix := nestedPrefix, cx_stack := cx_stack C @ [ref]\<rparr>) (own ''flow'' nested) nodes)))
      else case childrenOf source of
        JArr children \<Rightarrow>
          if children = [] then failPlan ''INVALID_DEFINITION''
          else if kind = JStr ''parallel'' then compileParallel P E n C children nodes
          else compileSequence P E n C children nodes
      | _ \<Rightarrow> failPlan ''INVALID_DEFINITION'')"
| "compileParallel P E n C [] nodes = Inr ([], [], nodes)"
| "compileParallel P E n C (child # rest) nodes =
     rbind (compileTree P E n C child nodes) (\<lambda>(entries1, exits1, nodes1).
     rbind (compileParallel P E n C rest nodes1) (\<lambda>(entries2, exits2, nodes2).
     Inr (entries1 @ entries2, exits1 @ exits2, nodes2)))"
| "compileSequence P E n C [] nodes = Inr ([], [], nodes)"
| "compileSequence P E n C (child # rest) nodes =
     rbind (compileTree P E n C child nodes) (\<lambda>(entries1, exits1, nodes1).
     if rest = [] then Inr (entries1, exits1, nodes1) else
     rbind (compileSequence P E n (C\<lparr>cx_needs := exits1\<rparr>) rest nodes1) (\<lambda>(entries2, exits2, nodes2).
     Inr (entries1, exits2, nodes2)))"
  by pat_completeness auto
termination
  by (relation "measures [\<lambda>c. case c of Inl (P, E, n, C, s, ns) \<Rightarrow> n | Inr (Inl (P, E, n, C, cs, ns)) \<Rightarrow> n | Inr (Inr (P, E, n, C, cs, ns)) \<Rightarrow> n,
      \<lambda>c. case c of Inl (P, E, n, C, s, ns) \<Rightarrow> size s | Inr (Inl (P, E, n, C, cs, ns)) \<Rightarrow> size_list size cs
        | Inr (Inr (P, E, n, C, cs, ns)) \<Rightarrow> size_list size cs]")
    (auto simp: size_childrenOf)

section \<open>Validation\<close>

definition planIdentityCheck :: "platform \<Rightarrow> jsval \<Rightarrow> unit res" where
  "planIdentityCheck P plan =
     (let revision = own ''revision'' plan; number = own ''number'' revision in
      if \<not> isObj plan \<or> \<not> js_eq (own ''formatVersion'' plan) (jint 1) \<or> \<not> isArr (own ''nodes'' plan) then failPlan ''INVALID_PLAN'' else
      if \<not> PLAN_ID (js_string P (coalesce (own ''id'' plan) (JStr ''''))) \<or> \<not> isInteger number \<or> js_less P number (jint 0) then failPlan ''INVALID_PLAN'' else
      if js_eq number (jint 0) \<and> own ''parentPlanDigest'' revision \<noteq> JNull then failPlan ''INVALID_REVISION'' else
      if js_less P (jint 0) number \<and> \<not> SHA256 (js_string P (coalesce (own ''parentPlanDigest'' revision) (JStr ''''))) then failPlan ''INVALID_REVISION'' else
      Inr ())"

definition batchEnvelopeOk :: "platform \<Rightarrow> jsval \<Rightarrow> bool" where
  "batchEnvelopeOk P node \<longleftrightarrow> SHA256 (js_string P (coalesce (own ''batchDigest'' node) (JStr '''')))
     \<and> safe_between P 1 300 (own ''batchMaxItems'' node) \<and> safe_between P 1 8 (own ''batchMaxAttempts'' node)"

definition planNodeCheck :: "platform \<Rightarrow> jsval \<Rightarrow> plan_facts \<Rightarrow> jsval \<Rightarrow> unit res" where
  "planNodeCheck P budget facts node =
     (if own ''kind'' node \<notin> set (map JStr PRIMITIVES) then failPlan ''UNKNOWN_NODE_KIND'' else
      rbind (prop_of ''maxAttempts'' (own ''budget'' node)) (\<lambda>maxAttempts.
      if js_less P (own ''maxAttemptsPerNode'' budget) maxAttempts then failPlan ''BUDGET_EXCEEDED'' else
      if js_less P (own ''maxWallTimeMs'' budget) (own ''timeoutMs'' (own ''budget'' node)) then failPlan ''BUDGET_EXCEEDED'' else
      if own ''kind'' node = JStr ''batch-swarm'' \<and> \<not> batchEnvelopeOk P node then failPlan ''INVALID_BATCH_NODE'' else
      if own ''kind'' node = JStr ''batch-swarm'' \<and> \<not> js_eq maxAttempts (jint 1) then failPlan ''BATCH_ROOT_RETRY_FORBIDDEN'' else
      rbind (iterate (own ''needs'' node)) (\<lambda>needs.
      if list_ex (\<lambda>dependency. map_of (pf_byId facts) dependency = None) needs then failPlan ''UNKNOWN_NODE'' else Inr ())))"

definition nodeAssignments :: "platform \<Rightarrow> jsval \<Rightarrow> jsnum" where
  "nodeAssignments P node = (if own ''kind'' node = JStr ''agent'' then Fin 1 else if own ''kind'' node = JStr ''batch-swarm''
     then num_mul (num_mul (js_number P (own ''batchMaxItems'' node)) (js_number P (own ''batchMaxAttempts'' node)))
            (js_number P (own ''maxAttempts'' (own ''budget'' node)))
     else Fin 0)"

definition assignmentEnvelope :: "platform \<Rightarrow> jsval list \<Rightarrow> jsnum" where
  "assignmentEnvelope P nodes = foldl (\<lambda>sum node. num_add sum (nodeAssignments P node)) (Fin 0) nodes"

definition planWithoutDigest :: "jsval \<Rightarrow> jsval" where
  "planWithoutDigest plan = odelete ''planDigest'' plan"

text \<open>The body of the \<open>try\<close> block.\<close>

definition checkWorkflowPlan :: "platform \<Rightarrow> jsval \<Rightarrow> plan_facts res" where
  "checkWorkflowPlan P plan =
     rbind (planIdentityCheck P plan) (\<lambda>_.
     let nodes = items (own ''nodes'' plan); budget = own ''budget'' plan in
     rbind (graphFacts P nodes) (\<lambda>facts.
     rbind (effectiveWorkflowPolicyEnvelope P plan) (\<lambda>_.
     if map_of (pf_byId facts) (own ''terminalNodeId'' plan) = None then failPlan ''UNKNOWN_TERMINAL'' else
     rbind (prop_of ''maxNodes'' budget) (\<lambda>maxNodes.
     if js_less P maxNodes (jnat (length (pf_order facts))) \<or> js_less P (own ''maxParallel'' budget) (jnat (pf_width facts))
        \<or> js_less P (own ''maxDepth'' budget) (jnat (pf_depth facts)) then failPlan ''BUDGET_EXCEEDED'' else
     rbind (forR (planNodeCheck P budget facts) nodes) (\<lambda>_.
     if js_less P (own ''maxAssignments'' budget) (JNum (assignmentEnvelope P nodes)) then failPlan ''BUDGET_EXCEEDED'' else
     if js_less P (own ''maxWallTimeMs'' budget) (JNum (worstCaseCriticalPathMs P facts)) then failPlan ''BUDGET_EXCEEDED'' else
     rbind (digestValue P (planWithoutDigest plan)) (\<lambda>h.
     if own ''planDigest'' plan \<noteq> JStr h then failPlan ''PLAN_DIGEST_MISMATCH'' else Inr facts))))))"

text \<open>The verdict: the facts of a valid plan, or the code of the first error. Foreign errors are rethrown.\<close>

definition validateWorkflowPlan :: "platform \<Rightarrow> jsval \<Rightarrow> (string + plan_facts) res" where
  "validateWorkflowPlan P plan = (case checkWorkflowPlan P plan of
     Inr facts \<Rightarrow> Inr (Inr facts)
   | Inl (Thrown c code) \<Rightarrow> (if c = ''WorkflowPlanError'' then Inr (Inl code) else Inl (Thrown c code))
   | Inl TypeError \<Rightarrow> Inl TypeError)"

section \<open>Compilation\<close>

definition sourceWithoutSchema :: "jsval \<Rightarrow> jsval" where
  "sourceWithoutSchema definition' = odelete ''$schema'' definition'"

definition compileRevision :: "platform \<Rightarrow> jsval \<Rightarrow> jsval res" where
  "compileRevision P options =
     rbind (prop_of ''revision'' (defaulted options)) (\<lambda>r.
     let number = coalesce (own ''number'' r) (jint 0); parent = coalesce (own ''parentPlanDigest'' r) JNull;
         activation = coalesce (own ''activationPolicy'' r) (JStr ''drain'') in
     if \<not> isInteger number \<or> js_less P number (jint 0) then failPlan ''INVALID_REVISION'' else
     if js_eq number (jint 0) \<and> parent \<noteq> JNull then failPlan ''INVALID_REVISION'' else
     if js_less P (jint 0) number \<and> \<not> SHA256 (js_string P (coalesce parent (JStr ''''))) then failPlan ''INVALID_REVISION'' else
     if activation \<notin> set (map JStr [''drain'', ''stop'']) then failPlan ''INVALID_REVISION'' else
     Inr (JObj [(''number'', number), (''parentPlanDigest'', parent),
                (''reason'', coalesce (own ''reason'' r) (JStr ''initial-compile'')), (''activationPolicy'', activation)]))"

definition compileBudgetCheck :: "platform \<Rightarrow> jsval \<Rightarrow> plan_facts \<Rightarrow> jsval list \<Rightarrow> unit res" where
  "compileBudgetCheck P budget facts nodes =
     (if js_less P (own ''maxNodes'' budget) (jnat (length nodes)) then failPlan ''BUDGET_EXCEEDED'' else
      if js_less P (own ''maxParallel'' budget) (jnat (pf_width facts)) then failPlan ''BUDGET_EXCEEDED'' else
      if js_less P (own ''maxDepth'' budget) (jnat (pf_depth facts)) then failPlan ''BUDGET_EXCEEDED'' else
      if list_ex (\<lambda>node. js_less P (own ''maxAttemptsPerNode'' budget) (own ''maxAttempts'' (own ''budget'' node))) nodes then failPlan ''BUDGET_EXCEEDED'' else
      if list_ex (\<lambda>node. js_less P (own ''maxWallTimeMs'' budget) (own ''timeoutMs'' (own ''budget'' node))) nodes then failPlan ''BUDGET_EXCEEDED'' else
      if js_less P (own ''maxWallTimeMs'' budget) (JNum (worstCaseCriticalPathMs P facts)) then failPlan ''BUDGET_EXCEEDED'' else
      if js_less P (own ''maxAssignments'' budget) (JNum (assignmentEnvelope P nodes)) then failPlan ''BUDGET_EXCEEDED'' else Inr ())"

text \<open>The plan record before its digest is set.\<close>

definition plan_fields :: "jsval \<Rightarrow> string \<Rightarrow> jsval \<Rightarrow> jsval \<Rightarrow> string \<Rightarrow> jsval \<Rightarrow> jsval list \<Rightarrow> jsval list \<Rightarrow> jsval \<Rightarrow> (string \<times> jsval) list" where
  "plan_fields definition' sourceDigest revision policy policyDigest budget nodes entryIds terminal = [
     (''$schema'', JStr ''https://github.com/Ricardo121380/only-my-pi/schemas/workflow-plan-v1.schema.json''),
     (''formatVersion'', jint 1), (''contractStatus'', JStr ''contract-preview''), (''id'', own ''id'' definition'),
     (''definitionVersion'', own ''version'' definition'), (''definitionDigest'', JStr sourceDigest), (''revision'', revision),
     (''policy'', policy), (''policyDigest'', JStr policyDigest), (''budget'', budget), (''nodes'', JArr nodes),
     (''entryNodeIds'', JArr entryIds), (''terminalNodeId'', terminal)]"

definition terminalNode :: "platform \<Rightarrow> jsval \<Rightarrow> jsval list \<Rightarrow> jsval res" where
  "terminalNode P definition' exits =
     (if truthy (own ''terminalNodeId'' definition') then planNamespace P (JStr '''') (own ''terminalNodeId'' definition')
      else Inr (if exits = [] then JUndef else last exits))"

definition checkCompiled :: "platform \<Rightarrow> jsval \<Rightarrow> jsval res" where
  "checkCompiled P plan = rbind (validateWorkflowPlan P plan) (\<lambda>verdict.
     case verdict of Inl code \<Rightarrow> failPlan code | Inr facts \<Rightarrow> Inr plan)"

text \<open>From the compiled tree to the plan.\<close>

definition assemblePlan :: "platform \<Rightarrow> jsval \<Rightarrow> jsval \<Rightarrow> jsval \<Rightarrow> jsval \<Rightarrow> compiled \<Rightarrow> jsval res" where
  "assemblePlan P definition' revision policy budget compiled = (case compiled of (entryIds, exits, nodes) \<Rightarrow>
     rbind (graphFacts P nodes) (\<lambda>facts.
     rbind (forR (\<lambda>node. assertPolicyCovered policy (own ''policy'' node)) nodes) (\<lambda>_.
     rbind (compileBudgetCheck P budget facts nodes) (\<lambda>_.
     rbind (terminalNode P definition' exits) (\<lambda>terminal.
     if map_of (pf_byId facts) terminal = None then failPlan ''UNKNOWN_TERMINAL'' else
     rbind (digestValue P (sourceWithoutSchema definition')) (\<lambda>sourceDigest.
     rbind (digestValue P policy) (\<lambda>policyDigest.
     rbind (sortById P (map canonicalize nodes)) (\<lambda>sortedNodes.
     let parts = plan_fields definition' sourceDigest revision policy policyDigest budget sortedNodes (js_sort P entryIds) terminal in
     rbind (digestValue P (JObj (parts @ [(''planDigest'', JUndef)]))) (\<lambda>planDigest.
     checkCompiled P (JObj (parts @ [(''planDigest'', JStr planDigest)])))))))))))"

definition compileWorkflowDefinition :: "platform \<Rightarrow> (jsval \<Rightarrow> jsval res) \<Rightarrow> (jsval \<Rightarrow> jsval res) option \<Rightarrow> nat \<Rightarrow> jsval \<Rightarrow> jsval \<Rightarrow> jsval res" where
  "compileWorkflowDefinition P resolveWorkflow resolveBatch n definition' options =
     (if \<not> isObj definition' \<or> \<not> js_eq (own ''formatVersion'' definition') (jint 2) then failPlan ''INVALID_DEFINITION'' else
      rbind (plan_canonicalId P (own ''id'' definition')) (\<lambda>i.
      if \<not> isObj (own ''flow'' definition') then failPlan ''INVALID_DEFINITION'' else
      rbind (normalizePlanBudget P (own ''budget'' definition')) (\<lambda>budget.
      rbind (normalizeWorkflowPolicy P (own ''policy'' definition')) (\<lambda>policy.
      rbind (compileRevision P options) (\<lambda>revision.
      rbind (compileTree P \<lparr>ce_resolveWorkflow = resolveWorkflow, ce_resolveBatch = resolveBatch, ce_planBudget = budget\<rparr> n
               \<lparr>cx_prefix = JStr '''', cx_needs = [], cx_stack = [i]\<rparr> (own ''flow'' definition') [])
        (assemblePlan P definition' revision policy budget))))))"

section \<open>Differences between revisions\<close>

definition indexById :: "jsval \<Rightarrow> (jsval \<times> jsval) list" where
  "indexById plan = foldl (\<lambda>m node. AList.update (own ''id'' node) node m) [] (items (own ''nodes'' plan))"

definition widensMutation :: "(jsval \<times> jsval) list \<Rightarrow> jsval \<Rightarrow> bool" where
  "widensMutation previousNodes node =
     (let mutation = own ''mutation'' (own ''policy'' node) in
      case map_of previousNodes (own ''id'' node) of
        None \<Rightarrow> mutation \<noteq> JStr ''none''
      | Some before \<Rightarrow> own ''mutation'' (own ''policy'' before) = JStr ''none'' \<and> mutation \<noteq> JStr ''none'')"

definition widensEgress :: "(jsval \<times> jsval) list \<Rightarrow> jsval \<Rightarrow> bool" where
  "widensEgress previousNodes node =
     (let egress = own ''egress'' (own ''policy'' node) in
      case map_of previousNodes (own ''id'' node) of
        None \<Rightarrow> list_ex (\<lambda>(k, v). v \<noteq> JStr ''deny'') (entries egress)
      | Some before \<Rightarrow> list_ex (\<lambda>key. own key (own ''egress'' (own ''policy'' before)) = JStr ''deny'' \<and> own key egress \<noteq> JStr ''deny'') (keys egress))"

definition changedNodes :: "platform \<Rightarrow> (jsval \<times> jsval) list \<Rightarrow> (jsval \<times> jsval) list \<Rightarrow> jsval list res" where
  "changedNodes P previousNodes nextNodes =
     filterR (\<lambda>i. case (map_of previousNodes i, map_of nextNodes i) of
        (Some before, Some after) \<Rightarrow> rbind (digestValue P before) (\<lambda>a. rbind (digestValue P after) (\<lambda>b. Inr (a \<noteq> b)))
      | _ \<Rightarrow> Inr False) (map fst nextNodes)"

text \<open>Both plans are validated before the first verdict is looked at.\<close>

definition bothValid :: "platform \<Rightarrow> jsval \<Rightarrow> jsval \<Rightarrow> unit res" where
  "bothValid P previous after =
     rbind (validateWorkflowPlan P previous) (\<lambda>b. rbind (validateWorkflowPlan P after) (\<lambda>a.
     case b of Inl code \<Rightarrow> failPlan code | Inr _ \<Rightarrow> (case a of Inl code \<Rightarrow> failPlan code | Inr _ \<Rightarrow> Inr ())))"

definition diffWorkflowPlans :: "platform \<Rightarrow> jsval \<Rightarrow> jsval \<Rightarrow> jsval res" where
  "diffWorkflowPlans P previous after =
     rbind (bothValid P previous after) (\<lambda>_.
     if \<not> js_eq (own ''parentPlanDigest'' (own ''revision'' after)) (own ''planDigest'' previous)
        \<or> \<not> js_eq (own ''number'' (own ''revision'' after)) (JNum (num_add (js_number P (own ''number'' (own ''revision'' previous))) (Fin 1)))
     then failPlan ''INVALID_REVISION_ANCESTRY'' else
     let previousNodes = indexById previous; nextNodes = indexById after;
         added = js_sort P (filter (\<lambda>i. map_of previousNodes i = None) (map fst nextNodes));
         removed = js_sort P (filter (\<lambda>i. map_of nextNodes i = None) (map fst previousNodes)) in
     rbind (changedNodes P previousNodes nextNodes) (\<lambda>changed0.
     let changed = js_sort P changed0;
         mutation = JBool (list_ex (widensMutation previousNodes) (items (own ''nodes'' after)));
         egress = JBool (list_ex (widensEgress previousNodes) (items (own ''nodes'' after))) in
     rbind (digestValue P (JObj [(''added'', JArr added), (''removed'', JArr removed), (''changed'', JArr changed),
                                 (''widensMutation'', mutation), (''widensEgress'', egress)])) (\<lambda>diffDigest.
     Inr (JObj [(''formatVersion'', jint 1), (''previousPlanDigest'', own ''planDigest'' previous), (''nextPlanDigest'', own ''planDigest'' after),
       (''added'', JArr added), (''removed'', JArr removed), (''changed'', JArr changed),
       (''approvalRequired'', JBool (added \<noteq> [] \<or> removed \<noteq> [] \<or> changed \<noteq> [])),
       (''widensMutation'', mutation), (''widensEgress'', egress), (''diffDigest'', JStr diffDigest)]))))"

end
