(* ===== verification/Approval_Receipt.thy ===== *)
theory Approval_Receipt
  imports Plan_Compiler
begin

text \<open>
  \<open>packages/subagents/policy/approval-receipt.mjs\<close>: the receipt with which a user approves a plan.
  It binds the plan digest and revision, the repository evidence with its allowed paths and
  writer claims, the effective policy, the budget and the scope. The list of semantic findings
  is modelled by the list of their codes; a verdict is the code of the first failed check or the
  digest of the accepted receipt.
\<close>

section \<open>Shapes\<close>

definition APPROVAL_SCHEMA :: string where
  "APPROVAL_SCHEMA = ''https://github.com/Ricardo121380/only-my-pi/schemas/approval-receipt-v1.schema.json''"

definition TOP_LEVEL_KEYS :: "string list" where
  "TOP_LEVEL_KEYS = [''$schema'', ''formatVersion'', ''contractStatus'', ''kind'', ''planDigest'', ''parentRevisionDigest'', ''repo'',
     ''effectivePolicyHash'', ''capabilityEnvelopeHash'', ''executionEnvelopeDigest'', ''budgetEnvelopeHash'', ''scope'', ''origin'',
     ''approvedAt'', ''approvedPlanRevision'', ''replanEnvelopeDigest'', ''receiptId'']"

definition REPO_KEYS :: "string list" where
  "REPO_KEYS = [''identity'', ''baseCommit'', ''allowedPaths'', ''writerClaims'']"

definition SCOPE_KEYS :: "string list" where
  "SCOPE_KEYS = [''mutation'', ''integration'', ''delivery'', ''maxAssignments'', ''maxActiveChildren'']"

definition approvalExactKeys :: "jsval \<Rightarrow> string list \<Rightarrow> bool" where
  "approvalExactKeys v expected \<longleftrightarrow> isObj v \<and> length (keys v) = length expected \<and> list_all (\<lambda>key. key \<in> set expected) (keys v)"

text \<open>
  \<open>RELATIVE_PATH\<close>. Its two look-aheads for a parent part and for an empty part start with \<open>.*\<close>,
  and a dot does not match a line terminator: they see the path only up to its first line break.
\<close>

definition line_end :: "char \<Rightarrow> bool" where
  "line_end c \<longleftrightarrow> c \<in> {CHR 0x0A, CHR 0x0D}"

definition dots_segment :: "string \<Rightarrow> bool" where
  "dots_segment s \<longleftrightarrow> prefix ''..'' s \<and> (length s = 2 \<or> s ! 2 = CHR ''/'')"

fun sees_slash_dots :: "string \<Rightarrow> bool" where
  "sees_slash_dots [] = False"
| "sees_slash_dots (c # cs) = (\<not> line_end c \<and> ((c = CHR ''/'' \<and> dots_segment cs) \<or> sees_slash_dots cs))"

fun sees_slash_slash :: "string \<Rightarrow> bool" where
  "sees_slash_slash [] = False"
| "sees_slash_slash (c # cs) = (\<not> line_end c \<and> ((c = CHR ''/'' \<and> prefix ''/'' cs) \<or> sees_slash_slash cs))"

definition RELATIVE_PATH :: "string \<Rightarrow> bool" where
  "RELATIVE_PATH s \<longleftrightarrow> \<not> prefix ''/'' s \<and> \<not> (3 \<le> length s \<and> is_alpha (s ! 0) \<and> s ! 1 = CHR '':'' \<and> s ! 2 = CHR ''/'')
     \<and> \<not> dots_segment s \<and> \<not> sees_slash_dots s \<and> \<not> sees_slash_slash s \<and> s \<noteq> [] \<and> CHR 0x00 \<notin> set s"

text \<open>\<open>RFC3339_DATE_TIME\<close>.\<close>

definition digit_pattern :: "string \<Rightarrow> string \<Rightarrow> bool" where
  "digit_pattern pattern s \<longleftrightarrow> length s = length pattern
     \<and> list_all2 (\<lambda>p c. if p = CHR ''d'' then is_digit c else c = p) pattern s"

definition zone_text :: "string \<Rightarrow> bool" where
  "zone_text s \<longleftrightarrow> s = ''Z'' \<or> digit_pattern ''+dd:dd'' s \<or> digit_pattern ''-dd:dd'' s"

definition RFC3339_DATE_TIME :: "string \<Rightarrow> bool" where
  "RFC3339_DATE_TIME s \<longleftrightarrow> digit_pattern ''dddd-dd-ddTdd:dd:dd'' (take 19 s) \<and>
     (case drop 19 s of
        c # rest \<Rightarrow> (if c = CHR ''.'' then takeWhile is_digit rest \<noteq> [] \<and> zone_text (dropWhile is_digit rest) else zone_text (c # rest))
      | [] \<Rightarrow> False)"

definition pathEntry :: "jsval \<Rightarrow> bool" where
  "pathEntry v = (case v of JStr s \<Rightarrow> 0 < length s \<and> length s \<le> 1024 \<and> RELATIVE_PATH s | _ \<Rightarrow> False)"

definition pathEntries :: "jsval \<Rightarrow> bool" where
  "pathEntries v = (case v of JArr xs \<Rightarrow> length xs \<le> 256 \<and> list_all pathEntry xs | _ \<Rightarrow> False)"

section \<open>Paths\<close>

definition normalizedPath :: "jsval \<Rightarrow> string res" where
  "normalizedPath v = (case v of JStr s \<Rightarrow> Inr (strip_slash s) | _ \<Rightarrow> Inl TypeError)"

definition paths_overlap :: "string \<Rightarrow> string \<Rightarrow> bool" where
  "paths_overlap a b \<longleftrightarrow> a = b \<or> prefix (b @ ''/'') a \<or> prefix (a @ ''/'') b"

fun overlapsLater :: "string \<Rightarrow> jsval list \<Rightarrow> bool res" where
  "overlapsLater a [] = Inr False"
| "overlapsLater a (y # ys) = rbind (normalizedPath y) (\<lambda>b. if paths_overlap a b then Inr True else overlapsLater a ys)"

fun overlapIn :: "jsval list \<Rightarrow> bool res" where
  "overlapIn [] = Inr False"
| "overlapIn (x # xs) = rbind (normalizedPath x) (\<lambda>a. rbind (overlapsLater a xs) (\<lambda>b. if b then Inr True else overlapIn xs))"

definition pathPrefixOverlap :: "jsval \<Rightarrow> bool res" where
  "pathPrefixOverlap v = (case v of JArr xs \<Rightarrow> overlapIn xs | _ \<Rightarrow> Inr False)"

definition approvalPaths :: "jsval \<Rightarrow> bool res" where
  "approvalPaths v = (if \<not> pathEntries v \<or> \<not> distinct (items v) then Inr False else rbind (pathPrefixOverlap v) (\<lambda>b. Inr (\<not> b)))"

text \<open>One allowed path against a claim: equal to it, or a directory above it.\<close>

definition claimWithin :: "jsval \<Rightarrow> jsval \<Rightarrow> bool res" where
  "claimWithin claim allowed = (case allowed of
     JStr a \<Rightarrow> (case claim of JStr c \<Rightarrow> Inr (c = a \<or> prefix (strip_slash a @ ''/'') c) | _ \<Rightarrow> Inl TypeError)
   | _ \<Rightarrow> Inl TypeError)"

definition pathClaimCovered :: "jsval \<Rightarrow> jsval \<Rightarrow> bool res" where
  "pathClaimCovered claim allowedPaths =
     rbind (arr_of allowedPaths) (\<lambda>xs. rbind (findR (claimWithin claim) xs) (\<lambda>hit. Inr (hit \<noteq> None)))"

section \<open>Semantic findings\<close>

definition lengthOf :: "jsval \<Rightarrow> jsval" where
  "lengthOf v = coalesce (own ''length'' v) (jint 0)"

definition overlapFinding :: "jsval \<Rightarrow> string \<Rightarrow> string list res" where
  "overlapFinding v code = rbind (pathPrefixOverlap v) (\<lambda>b. Inr (if b then [code] else []))"

definition claimFindings :: "jsval \<Rightarrow> string list res" where
  "claimFindings repo =
     rbind (arr_of (coalesce (own ''writerClaims'' repo) (JArr []))) (\<lambda>claims.
     rbind (mapR (\<lambda>claim. pathClaimCovered claim (coalesce (own ''allowedPaths'' repo) (JArr []))) claims) (\<lambda>covered.
     Inr (map (\<lambda>_. ''APPROVAL_WRITER_CLAIM_OUTSIDE_PATHS'') (filter Not covered))))"

definition approvalReceiptSemanticFindings :: "platform \<Rightarrow> jsval \<Rightarrow> string list res" where
  "approvalReceiptSemanticFindings P receipt =
     (let scope = own ''scope'' receipt; repo = own ''repo'' receipt; mutation = own ''mutation'' scope;
          when = (\<lambda>c code. if c then [code] else []) in
      rbind (overlapFinding (own ''allowedPaths'' repo) ''APPROVAL_ALLOWED_PATHS_OVERLAP'') (\<lambda>allowedOverlap.
      rbind (overlapFinding (own ''writerClaims'' repo) ''APPROVAL_WRITER_CLAIMS_OVERLAP'') (\<lambda>claimsOverlap.
      rbind (claimFindings repo) (\<lambda>outside.
      Inr (when (js_less P (own ''maxAssignments'' scope) (own ''maxActiveChildren'' scope)) ''APPROVAL_ACTIVE_CHILDREN_EXCEED_ASSIGNMENTS''
        @ allowedOverlap @ claimsOverlap
        @ when (mutation = JStr ''guarded'' \<and> js_eq (lengthOf (own ''allowedPaths'' repo)) (jint 0)) ''APPROVAL_MUTATING_ALLOWED_PATHS_REQUIRED''
        @ when (mutation = JStr ''guarded'' \<and> js_eq (lengthOf (own ''writerClaims'' repo)) (jint 0)) ''APPROVAL_MUTATING_WRITER_CLAIMS_REQUIRED''
        @ outside
        @ when (mutation = JStr ''none'' \<and> js_less P (jint 0) (lengthOf (own ''writerClaims'' repo))) ''APPROVAL_READ_ONLY_WRITER_CLAIMS''
        @ when (mutation = JStr ''none'' \<and> own ''delivery'' scope \<noteq> JStr ''local'') ''APPROVAL_READ_ONLY_DELIVERY'')))))"

section \<open>The scope a plan requires\<close>

definition defaultScope :: "platform \<Rightarrow> jsval \<Rightarrow> jsval res" where
  "defaultScope P plan =
     rbind (effectiveWorkflowPolicyEnvelope P plan) (\<lambda>envelope.
     let guarded = list_ex (\<lambda>node. own ''mutation'' (own ''policy'' node) = JStr ''guarded'') (items (own ''nodes'' envelope));
         budget = own ''budget'' plan in
     rbind (prop_of ''maxAssignments'' budget) (\<lambda>maxAssignments.
     Inr (JObj [(''mutation'', JStr (if guarded then ''guarded'' else ''none'')), (''integration'', JStr (if guarded then ''serial'' else ''none'')),
       (''delivery'', JStr ''local''), (''maxAssignments'', maxAssignments),
       (''maxActiveChildren'', JNum (num_min (js_number P (own ''maxParallel'' budget)) (js_number P maxAssignments)))])))"

definition planScopeDrift :: "platform \<Rightarrow> jsval \<Rightarrow> jsval \<Rightarrow> bool res" where
  "planScopeDrift P plan scope = rbind (defaultScope P plan) (\<lambda>required.
     Inr (list_ex (\<lambda>key. \<not> js_eq (own key scope) (own key required)) [''mutation'', ''integration'', ''maxAssignments'', ''maxActiveChildren'']))"

section \<open>Validation\<close>

definition receiptPayload :: "jsval \<Rightarrow> jsval" where
  "receiptPayload receipt = withoutKey receipt ''receiptId''"

definition approvalReceiptId :: "platform \<Rightarrow> jsval \<Rightarrow> string res" where
  "approvalReceiptId P receipt = rbind (canonicalJson P (receiptPayload receipt)) (\<lambda>t. sha256 P (JStr t))"

definition validSchemaReference :: "jsval \<Rightarrow> bool" where
  "validSchemaReference v \<longleftrightarrow> v = JStr APPROVAL_SCHEMA \<or> v = JStr ''approval-receipt-v1.schema.json''"

definition validApprovedAt :: "platform \<Rightarrow> jsval \<Rightarrow> bool" where
  "validApprovedAt P v = (case v of JStr s \<Rightarrow> RFC3339_DATE_TIME s \<and> num_isFinite (date_parse P s) | _ \<Rightarrow> False)"

type_synonym verdict = "(string + jsval) res"

definition reject :: "string \<Rightarrow> verdict" where
  "reject code = Inr (Inl code)"

definition sha_value :: "platform \<Rightarrow> jsval \<Rightarrow> bool" where
  "sha_value P v \<longleftrightarrow> SHA256 (js_string P (coalesce v (JStr '''')))"

definition repoShapeOk :: "platform \<Rightarrow> jsval \<Rightarrow> bool" where
  "repoShapeOk P repo \<longleftrightarrow> approvalExactKeys repo REPO_KEYS
     \<and> (case own ''identity'' repo of JStr s \<Rightarrow> length s \<noteq> 0 \<and> length s \<le> 512 | _ \<Rightarrow> False)
     \<and> GIT_COMMIT (js_string P (coalesce (own ''baseCommit'' repo) (JStr '''')))
     \<and> pathEntries (own ''allowedPaths'' repo) \<and> pathEntries (own ''writerClaims'' repo)"

definition scopeShapeOk :: "platform \<Rightarrow> jsval \<Rightarrow> bool" where
  "scopeShapeOk P scope \<longleftrightarrow> approvalExactKeys scope SCOPE_KEYS
     \<and> own ''mutation'' scope \<in> set (map JStr [''none'', ''guarded'']) \<and> own ''integration'' scope \<in> set (map JStr [''none'', ''serial''])
     \<and> own ''delivery'' scope \<in> set (map JStr [''local'', ''commit'', ''push''])
     \<and> isSafeInteger (own ''maxAssignments'' scope) \<and> \<not> js_less P (own ''maxAssignments'' scope) (jint 0)
     \<and> isSafeInteger (own ''maxActiveChildren'' scope) \<and> \<not> js_less P (own ''maxActiveChildren'' scope) (jint 0)"

definition receiptShapeOk :: "jsval \<Rightarrow> bool" where
  "receiptShapeOk receipt \<longleftrightarrow> approvalExactKeys receipt TOP_LEVEL_KEYS \<and> validSchemaReference (own ''$schema'' receipt)
     \<and> js_eq (own ''formatVersion'' receipt) (jint 1) \<and> own ''contractStatus'' receipt = JStr ''contract-preview''
     \<and> own ''kind'' receipt = JStr ''approval-receipt''"

record approval_context =
  ac_repo :: jsval
  ac_capability :: jsval
  ac_execution :: jsval
  ac_scope :: jsval

text \<open>The comparison with the runtime's evidence, the last part of the validation.\<close>

definition approvalContextCheck :: "platform \<Rightarrow> jsval \<Rightarrow> jsval \<Rightarrow> approval_context \<Rightarrow> verdict" where
  "approvalContextCheck P receipt plan C =
     (if ac_repo C = JUndef \<or> ac_capability C = JUndef \<or> ac_execution C = JUndef then reject ''APPROVAL_CONTEXT_UNAVAILABLE'' else
      rbind (canonicalJson P (own ''repo'' receipt)) (\<lambda>repo.
      rbind (canonicalJson P (ac_repo C)) (\<lambda>expectedRepo.
      if repo \<noteq> expectedRepo then reject ''APPROVAL_REPO_DRIFT'' else
      if \<not> js_eq (own ''capabilityEnvelopeHash'' receipt) (ac_capability C) then reject ''APPROVAL_CAPABILITY_DRIFT'' else
      if \<not> js_eq (own ''executionEnvelopeDigest'' receipt) (ac_execution C) then reject ''APPROVAL_EXECUTION_DRIFT'' else
      rbind (if nullish (ac_scope C) then defaultScope P plan else Inr (ac_scope C)) (\<lambda>resolvedScope.
      rbind (canonicalJson P (own ''scope'' receipt)) (\<lambda>scope.
      rbind (canonicalJson P resolvedScope) (\<lambda>expectedScope.
      if scope \<noteq> expectedScope then reject ''APPROVAL_SCOPE_DRIFT'' else Inr (Inr (own ''receiptId'' receipt))))))))"

text \<open>The comparison of the receipt with the plan it names.\<close>

definition approvalPlanCheck :: "platform \<Rightarrow> jsval \<Rightarrow> jsval \<Rightarrow> approval_context \<Rightarrow> verdict" where
  "approvalPlanCheck P receipt plan C =
     rbind (approvalReceiptId P receipt) (\<lambda>i.
     if own ''receiptId'' receipt \<noteq> JStr i then reject ''APPROVAL_RECEIPT_TAMPERED'' else
     if \<not> js_eq (own ''planDigest'' receipt) (own ''planDigest'' plan) then reject ''APPROVAL_PLAN_DRIFT'' else
     if \<not> js_eq (own ''parentRevisionDigest'' receipt) (own ''parentPlanDigest'' (own ''revision'' plan))
        \<or> \<not> js_eq (own ''approvedPlanRevision'' receipt) (own ''number'' (own ''revision'' plan)) then reject ''APPROVAL_REVISION_DRIFT'' else
     rbind (digestWorkflowPolicyEnvelope P plan) (\<lambda>policyHash.
     if own ''effectivePolicyHash'' receipt \<noteq> JStr policyHash then reject ''APPROVAL_POLICY_DRIFT'' else
     rbind (digestValue P (own ''budget'' plan)) (\<lambda>budgetHash.
     if own ''budgetEnvelopeHash'' receipt \<noteq> JStr budgetHash then reject ''APPROVAL_BUDGET_DRIFT'' else
     approvalContextCheck P receipt plan C)))"

definition approvalValueCheck :: "platform \<Rightarrow> jsval \<Rightarrow> jsval \<Rightarrow> approval_context \<Rightarrow> verdict" where
  "approvalValueCheck P receipt plan C =
     (if \<not> list_all (\<lambda>key. sha_value P (own key receipt)) [''planDigest'', ''effectivePolicyHash'', ''capabilityEnvelopeHash'',
           ''executionEnvelopeDigest'', ''budgetEnvelopeHash'', ''receiptId''] then reject ''APPROVAL_DIGEST_INVALID'' else
      if own ''parentRevisionDigest'' receipt \<noteq> JNull \<and> \<not> sha_value P (own ''parentRevisionDigest'' receipt) then reject ''APPROVAL_DIGEST_INVALID'' else
      if own ''replanEnvelopeDigest'' receipt \<noteq> JNull \<and> \<not> sha_value P (own ''replanEnvelopeDigest'' receipt) then reject ''APPROVAL_DIGEST_INVALID'' else
      if own ''origin'' receipt \<notin> set (map JStr [''interactive-user'', ''explicit-cli-yes'']) \<or> \<not> validApprovedAt P (own ''approvedAt'' receipt)
      then reject ''APPROVAL_ORIGIN_INVALID'' else
      approvalPlanCheck P receipt plan C)"

definition validateApprovalReceipt :: "platform \<Rightarrow> jsval \<Rightarrow> jsval \<Rightarrow> approval_context \<Rightarrow> verdict" where
  "validateApprovalReceipt P receipt plan C =
     rbind (validateWorkflowPlan P plan) (\<lambda>checked.
     if isl checked then reject ''APPROVAL_PLAN_INVALID'' else
     if \<not> receiptShapeOk receipt then reject ''APPROVAL_SHAPE_INVALID'' else
     if \<not> repoShapeOk P (own ''repo'' receipt) then reject ''APPROVAL_REPO_INVALID'' else
     if \<not> scopeShapeOk P (own ''scope'' receipt) then reject ''APPROVAL_SCOPE_INVALID'' else
     rbind (approvalReceiptSemanticFindings P receipt) (\<lambda>findings.
     if findings \<noteq> [] then reject (hd findings) else
     rbind (approvalPaths (own ''allowedPaths'' (own ''repo'' receipt))) (\<lambda>allowedOk.
     rbind (if allowedOk then approvalPaths (own ''writerClaims'' (own ''repo'' receipt)) else Inr False) (\<lambda>pathsOk.
     if \<not> pathsOk then reject ''APPROVAL_REPO_INVALID'' else
     rbind (planScopeDrift P plan (own ''scope'' receipt)) (\<lambda>drift.
     if drift then reject ''APPROVAL_SCOPE_PLAN_DRIFT'' else approvalValueCheck P receipt plan C)))))"

section \<open>Creation and verification\<close>

definition receipt_fields :: "jsval \<Rightarrow> jsval \<Rightarrow> string \<Rightarrow> jsval \<Rightarrow> jsval \<Rightarrow> string \<Rightarrow> jsval \<Rightarrow> jsval \<Rightarrow> jsval \<Rightarrow> jsval \<Rightarrow> (string \<times> jsval) list" where
  "receipt_fields plan repo policyHash capability execution budgetHash scope origin approvedAt replan = [
     (''$schema'', JStr APPROVAL_SCHEMA), (''formatVersion'', jint 1), (''contractStatus'', JStr ''contract-preview''), (''kind'', JStr ''approval-receipt''),
     (''planDigest'', own ''planDigest'' plan), (''parentRevisionDigest'', own ''parentPlanDigest'' (own ''revision'' plan)), (''repo'', repo),
     (''effectivePolicyHash'', JStr policyHash), (''capabilityEnvelopeHash'', capability), (''executionEnvelopeDigest'', execution),
     (''budgetEnvelopeHash'', JStr budgetHash), (''scope'', scope), (''origin'', origin), (''approvedAt'', approvedAt),
     (''approvedPlanRevision'', own ''number'' (own ''revision'' plan)), (''replanEnvelopeDigest'', replan)]"

text \<open>The arguments of \<open>createApprovalReceipt\<close>; \<open>instant\<close> is what \<open>new Date().toISOString()\<close> gives.\<close>

definition approvalParameter :: "string \<Rightarrow> jsval \<Rightarrow> jsval \<Rightarrow> jsval" where
  "approvalParameter key args default' = (if own key args = JUndef then default' else own key args)"

definition createApprovalReceipt :: "platform \<Rightarrow> string \<Rightarrow> jsval \<Rightarrow> jsval res" where
  "createApprovalReceipt P instant input =
     (let args = defaulted input; plan = own ''plan'' args; repo = own ''repo'' args; capability = own ''capabilityEnvelopeHash'' args;
          execution = own ''executionEnvelopeDigest'' args in
      if nullish args then Inl TypeError else
      rbind (validateWorkflowPlan P plan) (\<lambda>checked.
      if isl checked \<or> \<not> repoShapeOk P repo \<or> \<not> sha_value P capability \<or> \<not> sha_value P execution then Inl TypeError else
      rbind (if nullish (own ''scope'' args) then defaultScope P plan else Inr (own ''scope'' args)) (\<lambda>resolvedScope.
      if \<not> approvalExactKeys resolvedScope SCOPE_KEYS then Inl TypeError else
      rbind (jsonClone repo) (\<lambda>repoCopy.
      rbind (digestWorkflowPolicyEnvelope P plan) (\<lambda>policyHash.
      rbind (digestValue P (own ''budget'' plan)) (\<lambda>budgetHash.
      rbind (jsonClone resolvedScope) (\<lambda>scopeCopy.
      let parts = receipt_fields plan repoCopy policyHash capability execution budgetHash scopeCopy
            (approvalParameter ''origin'' args (JStr ''interactive-user'')) (approvalParameter ''approvedAt'' args (JStr instant))
            (approvalParameter ''replanEnvelopeDigest'' args JNull) in
      rbind (approvalReceiptId P (JObj parts)) (\<lambda>i.
      let receipt = JObj (parts @ [(''receiptId'', JStr i)]) in
      rbind (validateApprovalReceipt P receipt plan \<lparr>ac_repo = repo, ac_capability = capability, ac_execution = execution, ac_scope = resolvedScope\<rparr>) (\<lambda>v.
      if isl v then Inl TypeError else Inr receipt)))))))))"

text \<open>\<open>createApprovalVerifier\<close>: the configured evidence, which the runtime's own replaces.\<close>

definition verifierContext :: "jsval \<Rightarrow> jsval \<Rightarrow> approval_context res" where
  "verifierContext config input =
     (let runtime = defaulted input; execution = coalesce (own ''expectedExecutionEnvelopeDigest'' config) (own ''executionEnvelopeDigest'' config) in
      if nullish runtime then Inl TypeError else
      Inr \<lparr>ac_repo = coalesce (coalesce (own ''expectedRepo'' runtime) (own ''repo'' runtime)) (own ''repo'' config),
           ac_capability = coalesce (coalesce (own ''expectedCapabilityEnvelopeHash'' runtime) (own ''capabilityEnvelopeHash'' runtime)) (own ''capabilityEnvelopeHash'' config),
           ac_execution = coalesce (coalesce (own ''expectedExecutionEnvelopeDigest'' runtime) (own ''executionEnvelopeDigest'' runtime)) execution,
           ac_scope = coalesce (coalesce (own ''expectedScope'' runtime) (own ''scope'' runtime)) (own ''scope'' config)\<rparr>)"

definition verifyApproval :: "platform \<Rightarrow> jsval \<Rightarrow> jsval \<Rightarrow> jsval \<Rightarrow> jsval \<Rightarrow> verdict" where
  "verifyApproval P config receipt plan runtime =
     rbind (verifierContext config runtime) (\<lambda>C.
     rbind (if \<not> nullish (ac_scope C) then Inr (ac_scope C) else if truthy plan then defaultScope P plan else Inr JUndef) (\<lambda>scope.
     validateApprovalReceipt P receipt plan (C\<lparr>ac_scope := scope\<rparr>)))"

definition verifyNodeApproval :: "platform \<Rightarrow> jsval \<Rightarrow> jsval \<Rightarrow> jsval \<Rightarrow> jsval \<Rightarrow> jsval \<Rightarrow> verdict" where
  "verifyNodeApproval P config receipt approval plan runtime =
     rbind (verifyApproval P config receipt plan runtime) (\<lambda>verdict.
     if isl verdict then Inr verdict else
     if list_ex (\<lambda>node. own ''kind'' node = JStr ''approval'' \<and> js_eq (own ''scopeDigest'' (own ''approval'' node)) (own ''scopeDigest'' approval))
          (items (own ''nodes'' plan))
     then Inr verdict else reject ''NODE_APPROVAL_SCOPE_DRIFT'')"

end
