(* ===== verification/Plan_Graph_Proofs.thy ===== *)
theory Plan_Graph_Proofs
  imports Plan_Graph
begin

text \<open>
  The dependency graph: \<open>graphFacts\<close> succeeds exactly on graphs whose ids are distinct, whose
  dependencies are known and that have no cycle; its order is topological and its depth is the
  length of the longest dependency chain.
\<close>

section \<open>The graph of an index\<close>

lemma failPlan_neq_Inr [simp]: "failPlan c = Inr x \<longleftrightarrow> False"
  by (simp add: failPlan_def)

lemma if_failPlan_eq_Inr [simp]: "((if c then failPlan e else r) = Inr y) \<longleftrightarrow> \<not> c \<and> r = Inr y"
  by simp

lemmas plan_inv = rbind_eq_Inr option_throw_eq_Inr if_throw_eq_Inr if_failPlan_eq_Inr arr_of_Inr prop_of_Inr Let_def

type_synonym index = "(jsval \<times> jsval) list"

definition dependencies :: "jsval \<Rightarrow> jsval list" where
  "dependencies node = items (own ''needs'' node)"

definition known_node :: "index \<Rightarrow> jsval \<Rightarrow> jsval \<Rightarrow> bool" where
  "known_node byId i node \<longleftrightarrow> map_of byId i = Some node \<and> truthy node \<and> isArr (own ''needs'' node)"

definition edges :: "index \<Rightarrow> (jsval \<times> jsval) set" where
  "edges byId = {(x, y). \<exists>node. map_of byId x = Some node \<and> y \<in> set (dependencies node)}"

definition closed_index :: "index \<Rightarrow> bool" where
  "closed_index byId \<longleftrightarrow> (\<forall>i \<in> fst ` set byId. \<exists>node. known_node byId i node \<and> set (dependencies node) \<subseteq> fst ` set byId)"

text \<open>Each entry of the order comes after everything it depends on, with its depth one above theirs.\<close>

definition depth_of :: "walk \<Rightarrow> jsval \<Rightarrow> nat" where
  "depth_of st i = (case map_of (w_depth st) i of None \<Rightarrow> 0 | Some d \<Rightarrow> d)"

definition level_of :: "walk \<Rightarrow> jsval list \<Rightarrow> nat" where
  "level_of st needs = (if needs = [] then 1 else fold max (map (depth_of st) needs) 0 + 1)"

definition topological :: "index \<Rightarrow> jsval list \<Rightarrow> bool" where
  "topological byId order \<longleftrightarrow> distinct order \<and>
     (\<forall>before i after. order = before @ i # after \<longrightarrow> (\<exists>node. known_node byId i node \<and> set (dependencies node) \<subseteq> set before))"

definition walk_ok :: "index \<Rightarrow> walk \<Rightarrow> bool" where
  "walk_ok byId st \<longleftrightarrow> topological byId (w_order st) \<and> map fst (w_depth st) = w_order st
     \<and> (\<forall>(i, d) \<in> set (w_depth st). \<exists>node. known_node byId i node \<and> d = level_of st (dependencies node))"

lemma topological_snoc:
  assumes "topological byId order" "known_node byId i node" "set (dependencies node) \<subseteq> set order" "i \<notin> set order"
  shows "topological byId (order @ [i])"
proof -
  have "\<exists>node. known_node byId j node \<and> set (dependencies node) \<subseteq> set before" if e: "order @ [i] = before @ j # after" for before j after
  proof (cases "after" rule: rev_cases)
    case Nil
    then show ?thesis using e assms(2,3) by auto
  next
    case (snoc ys y)
    then have "order = before @ j # ys" using e by simp
    then show ?thesis using assms(1) by (auto simp: topological_def)
  qed
  then show ?thesis using assms(1,4) by (auto simp: topological_def)
qed

lemma topological_known: "topological byId order \<Longrightarrow> i \<in> set order \<Longrightarrow> \<exists>node. known_node byId i node \<and> set (dependencies node) \<subseteq> set order"
  by (fastforce simp: topological_def dest!: split_list)

lemma depth_of_snoc: "j \<noteq> i \<Longrightarrow> depth_of (st\<lparr>w_depth := w_depth st @ [(i, v)], w_order := ord\<rparr>) j = depth_of st j"
  by (auto simp: depth_of_def map_add_def split: option.splits)

lemma level_of_cong: "(\<And>j. j \<in> set needs \<Longrightarrow> depth_of a j = depth_of b j) \<Longrightarrow> level_of a needs = level_of b needs"
  by (simp add: level_of_def cong: map_cong)

lemma entry_in_order: "walk_ok byId st \<Longrightarrow> (j, d) \<in> set (w_depth st) \<Longrightarrow> j \<in> set (w_order st)"
proof -
  assume a: "walk_ok byId st" "(j, d) \<in> set (w_depth st)"
  have "fst (j, d) \<in> set (map fst (w_depth st))" unfolding set_map using a(2) by (rule imageI)
  moreover have "map fst (w_depth st) = w_order st" using a(1) by (simp only: walk_ok_def)
  ultimately show ?thesis by (simp only: fst_conv)
qed

lemma walk_ok_snoc:
  assumes ok: "walk_ok byId st" and node: "known_node byId i node" "set (dependencies node) \<subseteq> set (w_order st)"
    and i: "i \<notin> set (w_order st)" and v: "v = level_of st (dependencies node)"
  shows "walk_ok byId (st\<lparr>w_depth := w_depth st @ [(i, v)], w_order := w_order st @ [i]\<rparr>)" (is "walk_ok byId ?st")
proof -
  have top: "topological byId (w_order st)" using ok by (simp add: walk_ok_def)
  have level: "level_of ?st (dependencies n) = level_of st (dependencies n)" if "set (dependencies n) \<subseteq> set (w_order st)" for n
    by (rule level_of_cong, rule depth_of_snoc) (use that i in auto)
  have "\<exists>n. known_node byId j n \<and> d = level_of ?st (dependencies n)" if jd: "(j, d) \<in> set (w_depth ?st)" for j d
  proof (cases "j = i \<and> d = v")
    case True
    then show ?thesis using node v level by auto
  next
    case False
    then have old: "(j, d) \<in> set (w_depth st)" using jd by auto
    then obtain n where n: "known_node byId j n" "d = level_of st (dependencies n)" using ok by (auto simp: walk_ok_def)
    have "j \<in> set (w_order st)" by (rule entry_in_order [OF ok old])
    from topological_known [OF top this] obtain n' where "known_node byId j n'" "set (dependencies n') \<subseteq> set (w_order st)" by blast
    then have "set (dependencies n) \<subseteq> set (w_order st)" using n(1) by (simp add: known_node_def)
    then show ?thesis using n level by metis
  qed
  then show ?thesis using topological_snoc [OF top node i] ok by (auto simp: walk_ok_def)
qed

text \<open>What a visit does: it keeps the walk well formed, adds nothing of its trail, and reaches the id.\<close>

lemma map_of_depth: "map fst xs = ks \<Longrightarrow> map_of xs i = None \<longleftrightarrow> i \<notin> set ks"
  by (metis map_of_eq_None_iff set_map)

lemma map_Some_member: "map f xs = map Some ys \<Longrightarrow> x \<in> set xs \<Longrightarrow> \<exists>y. f x = Some y"
  by (induction xs arbitrary: ys) (auto simp: Cons_eq_map_conv)

lemma visit_walk:
  "visit byId trail i st = Inr (d, st') \<Longrightarrow> walk_ok byId st \<Longrightarrow>
     walk_ok byId st' \<and> (\<exists>ys. w_order st' = w_order st @ ys \<and> set ys \<inter> set trail = {}) \<and> map_of (w_depth st') i = Some d
     \<and> (\<forall>j e. map_of (w_depth st) j = Some e \<longrightarrow> map_of (w_depth st') j = Some e)"
  "visitAll byId trail xs st = Inr (ds, st') \<Longrightarrow> walk_ok byId st \<Longrightarrow>
     walk_ok byId st' \<and> (\<exists>ys. w_order st' = w_order st @ ys \<and> set ys \<inter> set trail = {}) \<and> map (map_of (w_depth st')) xs = map Some ds
     \<and> (\<forall>j e. map_of (w_depth st) j = Some e \<longrightarrow> map_of (w_depth st') j = Some e)"
proof (induction byId trail i st and byId trail xs st arbitrary: d st' and ds st' rule: visit_visitAll.induct)
  case (1 byId trail i st)
  show ?case
  proof (cases "map_of (w_depth st) i")
    case (Some e)
    then show ?thesis using "1.prems" by (auto split: if_splits)
  next
    case None
    obtain node needs ds s where n: "i \<notin> set trail" "map_of byId i = Some node" "truthy node" "own ''needs'' node = JArr needs"
      and v: "visitAll byId (trail @ [i]) needs st = Inr (ds, s)"
      and d: "d = (if ds = [] then 1 else fold max ds 0 + 1)" and s': "st' = s\<lparr>w_depth := w_depth s @ [(i, d)], w_order := w_order s @ [i]\<rparr>"
      using "1.prems"(1) None by (auto simp: plan_inv failPlan_def split: if_splits option.splits)
    from "1.IH" [OF n(1) None n(2) _ v "1.prems"(2)] n(3) obtain ys where ih: "walk_ok byId s" "w_order s = w_order st @ ys" "set ys \<inter> set (trail @ [i]) = {}"
      "map (map_of (w_depth s)) needs = map Some ds" "\<forall>j e. map_of (w_depth st) j = Some e \<longrightarrow> map_of (w_depth s) j = Some e" by auto
    have known: "known_node byId i node" "dependencies node = needs" using n by (simp_all add: known_node_def dependencies_def)
    have fsts: "map fst (w_depth s) = w_order s" "map fst (w_depth st) = w_order st" using ih(1) "1.prems"(2) by (simp_all add: walk_ok_def)
    have i: "i \<notin> set (w_order s)" using None ih(2,3) map_of_depth [OF fsts(2)] by auto
    have ds: "depth_of s j = the (map_of (w_depth s) j)" "j \<in> set (w_order s)" if jn: "j \<in> set needs" for j
    proof -
      obtain e where "map_of (w_depth s) j = Some e" using map_Some_member [OF ih(4) jn] by blast
      then show "depth_of s j = the (map_of (w_depth s) j)" "j \<in> set (w_order s)"
        using map_of_depth [OF fsts(1), of j] by (auto simp: depth_of_def)
    qed
    have "map (depth_of s) needs = map the (map (map_of (w_depth s)) needs)" using ds(1) by simp
    also have "\<dots> = ds" unfolding ih(4) by simp
    finally have "map (depth_of s) needs = ds" .
    then have dv: "d = level_of s (dependencies node)" by (auto simp: d level_of_def known(2))
    have "walk_ok byId st'" unfolding s' by (rule walk_ok_snoc [OF ih(1) known(1) _ i dv]) (use ds(2) known(2) in auto)
    moreover have "map_of (w_depth st') i = Some d" using i map_of_depth [OF fsts(1), of i] by (simp add: s' map_add_def)
    moreover have "map_of (w_depth st') j = Some e" if "map_of (w_depth st) j = Some e" for j e
      using that ih(5) i map_of_depth [OF fsts(1), of i] by (auto simp: s' map_add_def)
    ultimately show ?thesis using ih(2,3) n(1) by (auto simp: s')
  qed
next
  case (3 byId trail x xs st)
  from "3.prems"(1) obtain d1 s1 ds1 where v: "visit byId trail x st = Inr (d1, s1)" "visitAll byId trail xs s1 = Inr (ds1, st')" "ds = d1 # ds1"
    by (auto simp: plan_inv)
  from "3.IH"(1) [OF v(1) "3.prems"(2)] obtain ys where a: "walk_ok byId s1" "w_order s1 = w_order st @ ys" "set ys \<inter> set trail = {}"
    "map_of (w_depth s1) x = Some d1" "\<forall>j e. map_of (w_depth st) j = Some e \<longrightarrow> map_of (w_depth s1) j = Some e" by auto
  from "3.IH"(2) [OF v(2) a(1)] obtain zs where b: "walk_ok byId st'" "w_order st' = w_order s1 @ zs" "set zs \<inter> set trail = {}"
    "map (map_of (w_depth st')) xs = map Some ds1" "\<forall>j e. map_of (w_depth s1) j = Some e \<longrightarrow> map_of (w_depth st') j = Some e" by auto
  show ?case using a b v(3) by auto
qed auto

section \<open>Success means a closed graph without cycles\<close>

lemma addNode_Inr: "addNode byId node = Inr m \<longleftrightarrow> \<not> nullish node \<and> map_of byId (own ''id'' node) = None \<and> m = byId @ [(own ''id'' node, node)]"
  by (auto simp: addNode_def plan_inv failPlan_def)

lemma addNodes_Inr:
  "foldR addNode byId nodes = Inr m \<longleftrightarrow> list_all (\<lambda>n. \<not> nullish n) nodes \<and> distinct (map (own ''id'') nodes)
     \<and> set (map (own ''id'') nodes) \<inter> fst ` set byId = {} \<and> m = byId @ map (\<lambda>n. (own ''id'' n, n)) nodes"
proof (induction nodes arbitrary: byId)
  case (Cons n nodes)
  show ?case using Cons [of "byId @ [(own ''id'' n, n)]"]
    by (auto simp: rbind_eq_Inr addNode_Inr map_of_eq_None_iff)
qed auto

definition index_of :: "jsval list \<Rightarrow> index" where
  "index_of nodes = map (\<lambda>n. (own ''id'' n, n)) nodes"

lemma index_of_fst [simp]: "map fst (index_of nodes) = map (own ''id'') nodes"
  by (simp add: index_of_def)

lemma index_lookup: "distinct (map (own ''id'') nodes) \<Longrightarrow> map_of (index_of nodes) i = Some n \<longleftrightarrow> n \<in> set nodes \<and> own ''id'' n = i"
  by (subst map_of_eq_Some_iff) (auto simp: index_of_def comp_def)

lemma walk_start: "walk_ok byId \<lparr>w_order = [], w_depth = []\<rparr>"
  by (simp add: walk_ok_def topological_def)

lemma fold_max_ge: "n \<le> fold max xs (n :: nat)" "x \<in> set xs \<Longrightarrow> x \<le> fold max xs n"
proof -
  have "n \<le> fold max xs n \<and> (\<forall>x \<in> set xs. x \<le> fold max xs n)"
  proof (induction xs arbitrary: n)
    case (Cons y ys)
    have "max y n \<le> fold max ys (max y n)" using Cons.IH by blast
    then show ?case using Cons.IH [of "max y n"] by auto
  qed simp
  then show "n \<le> fold max xs n" "x \<in> set xs \<Longrightarrow> x \<le> fold max xs n" by blast+
qed

lemma fold_max_le: "n \<le> b \<Longrightarrow> (\<And>x. x \<in> set xs \<Longrightarrow> x \<le> b) \<Longrightarrow> fold max xs (n :: nat) \<le> b"
  by (induction xs arbitrary: n) auto

lemma graphFacts_order:
  assumes "graphFacts P nodes = Inr f"
  shows "pf_byId f = index_of nodes \<and> distinct (map (own ''id'') nodes) \<and> list_all (\<lambda>n. \<not> nullish n) nodes
    \<and> topological (index_of nodes) (pf_order f) \<and> set (pf_order f) = set (map (own ''id'') nodes)
    \<and> (\<exists>st. walk_ok (index_of nodes) st \<and> w_order st = pf_order f \<and> pf_depth f = fold max (map snd (w_depth st)) 0
         \<and> pf_width f = fold max (map snd (levelCounts (w_depth st))) 0)"
proof -
  from assms obtain byId ds st where b: "foldR addNode [] nodes = Inr byId"
    and v: "visitAll byId [] (js_sort P (map fst byId)) \<lparr>w_order = [], w_depth = []\<rparr> = Inr (ds, st)"
    and f: "f = \<lparr>pf_byId = byId, pf_order = w_order st, pf_depth = fold max (map snd (w_depth st)) 0,
          pf_width = fold max (map snd (levelCounts (w_depth st))) 0\<rparr>"
    by (auto simp: graphFacts_def plan_inv)
  from b have byId: "byId = index_of nodes" and d: "distinct (map (own ''id'') nodes)" and nn: "list_all (\<lambda>n. \<not> nullish n) nodes"
    unfolding addNodes_Inr by (auto simp: index_of_def)
  from visit_walk(2) [OF v walk_start] have w: "walk_ok byId st" "map (map_of (w_depth st)) (js_sort P (map fst byId)) = map Some ds" by auto
  have "set (w_order st) = fst ` set byId"
  proof
    show "set (w_order st) \<subseteq> fst ` set byId"
    proof
      fix i assume "i \<in> set (w_order st)"
      then obtain node where "map_of byId i = Some node"
        using topological_known [of byId "w_order st" i] w(1) unfolding walk_ok_def known_node_def by blast
      then show "i \<in> fst ` set byId" by (force dest: map_of_SomeD)
    qed
    show "fst ` set byId \<subseteq> set (w_order st)"
    proof
      fix i assume "i \<in> fst ` set byId"
      then have "i \<in> set (js_sort P (map fst byId))" by simp
      then obtain e where "map_of (w_depth st) i = Some e" using map_Some_member [OF w(2)] by blast
      moreover have "map fst (w_depth st) = w_order st" using w(1) by (simp add: walk_ok_def)
      ultimately show "i \<in> set (w_order st)" using map_of_depth [of "w_depth st" "w_order st" i] by auto
    qed
  qed
  moreover have "fst ` set byId = set (map (own ''id'') nodes)" by (simp add: byId index_of_def image_image)
  ultimately show ?thesis using w(1) d nn by (auto simp: f byId walk_ok_def)
qed

section \<open>Success is exactly a closed graph without cycles\<close>

definition position :: "jsval list \<Rightarrow> jsval \<Rightarrow> nat" where
  "position order i = length (takeWhile (\<lambda>j. j \<noteq> i) order)"

lemma position_split: "i \<notin> set before \<Longrightarrow> position (before @ i # after) i = length before"
  by (induction before) (auto simp: position_def)

lemma position_less: "j \<in> set before \<Longrightarrow> position (before @ after) j < length before"
  by (induction before) (auto simp: position_def)

lemma topological_edge:
  assumes "topological byId order" "x \<in> set order" "(x, y) \<in> edges byId"
  shows "y \<in> set order \<and> position order y < position order x"
proof -
  from split_list [OF assms(2)] obtain before after where o': "order = before @ x # after" by blast
  then obtain node where n: "known_node byId x node" "set (dependencies node) \<subseteq> set before" using assms(1) unfolding topological_def by blast
  then have "y \<in> set before" using assms(3) by (auto simp: edges_def known_node_def)
  moreover have "x \<notin> set before" using assms(1) o' by (simp add: topological_def)
  ultimately show ?thesis using position_less [of y before "x # after"] position_split [of x before after] by (simp add: o')
qed

lemma topological_acyclic:
  assumes "topological byId order" "fst ` set byId \<subseteq> set order"
  shows "acyclic (edges byId)"
proof -
  have "edges byId \<subseteq> (measure (position order))\<inverse>"
  proof (rule subrelI)
    fix x y assume e: "(x, y) \<in> edges byId"
    then have "x \<in> fst ` set byId" by (force simp: edges_def dest: map_of_SomeD)
    then have "x \<in> set order" using assms(2) by blast
    from topological_edge [OF assms(1) this e] show "(x, y) \<in> (measure (position order))\<inverse>" by simp
  qed
  moreover have "acyclic ((measure (position order))\<inverse>)" by (simp add: wf_acyclic)
  ultimately show ?thesis by (rule acyclic_subset [rotated])
qed

text \<open>On a closed graph without cycles no visit fails: its trail is a path to the id.\<close>

lemma visit_succeeds:
  "closed_index byId \<Longrightarrow> acyclic (edges byId) \<Longrightarrow> i \<in> fst ` set byId \<Longrightarrow> \<forall>t \<in> set trail. (t, i) \<in> (edges byId)\<^sup>+
     \<Longrightarrow> \<exists>r. visit byId trail i st = Inr r"
  "closed_index byId \<Longrightarrow> acyclic (edges byId) \<Longrightarrow> set xs \<subseteq> fst ` set byId \<Longrightarrow> \<forall>x \<in> set xs. \<forall>t \<in> set trail. (t, x) \<in> (edges byId)\<^sup>+
     \<Longrightarrow> \<exists>r. visitAll byId trail xs st = Inr r"
proof (induction byId trail i st and byId trail xs st rule: visit_visitAll.induct)
  case (1 byId trail i st)
  obtain node where node: "known_node byId i node" "set (dependencies node) \<subseteq> fst ` set byId"
    using "1.prems"(1,3) by (auto simp: closed_index_def)
  then obtain needs where n: "map_of byId i = Some node" "truthy node" "own ''needs'' node = JArr needs" "dependencies node = needs"
    by (auto simp: known_node_def dependencies_def isArr_iff)
  have trail: "i \<notin> set trail" using "1.prems"(2,4) by (auto simp: acyclic_def)
  have "(t, x) \<in> (edges byId)\<^sup>+" if "x \<in> set needs" "t \<in> set (trail @ [i])" for x t
  proof -
    have e: "(i, x) \<in> edges byId" using n that(1) by (auto simp: edges_def)
    show ?thesis using that(2) "1.prems"(4) e by (auto intro: trancl_into_trancl)
  qed
  then have "\<exists>r. visitAll byId (trail @ [i]) needs st = Inr r" if "map_of (w_depth st) i = None"
    using "1.IH" [OF trail that n(1) _ "1.prems"(1,2)] n node(2) by auto
  then show ?case using trail n by (cases "map_of (w_depth st) i") (auto simp: Let_def)
next
  case (3 byId trail x xs st)
  then obtain d s where v: "visit byId trail x st = Inr (d, s)" by fastforce
  have "\<exists>r. visitAll byId trail xs s = Inr r" using "3.IH"(2) [of s] "3.prems" by auto
  then show ?case using v by auto
qed auto

definition graph_ok :: "jsval list \<Rightarrow> bool" where
  "graph_ok nodes \<longleftrightarrow> list_all (\<lambda>n. \<not> nullish n) nodes \<and> distinct (map (own ''id'') nodes)
     \<and> closed_index (index_of nodes) \<and> acyclic (edges (index_of nodes))"

lemma index_of_keys: "fst ` set (index_of nodes) = set (map (own ''id'') nodes)"
  by (simp add: index_of_def image_image)

lemma graphFacts_graph_ok: "graphFacts P nodes = Inr f \<Longrightarrow> graph_ok nodes"
proof -
  assume "graphFacts P nodes = Inr f"
  from graphFacts_order [OF this] have f: "distinct (map (own ''id'') nodes)" "list_all (\<lambda>n. \<not> nullish n) nodes"
    "topological (index_of nodes) (pf_order f)" "set (pf_order f) = fst ` set (index_of nodes)" unfolding index_of_keys by blast+
  have "closed_index (index_of nodes)" using topological_known [OF f(3)] f(4) by (auto simp: closed_index_def)
  then show ?thesis using f topological_acyclic [OF f(3)] by (simp add: graph_ok_def)
qed

lemma graph_ok_graphFacts: "graph_ok nodes \<Longrightarrow> \<exists>f. graphFacts P nodes = Inr f"
proof -
  assume ok: "graph_ok nodes"
  have b: "foldR addNode [] nodes = Inr (index_of nodes)"
    unfolding addNodes_Inr using ok by (simp add: graph_ok_def index_of_def)
  have "\<exists>r. visitAll (index_of nodes) [] (js_sort P (map fst (index_of nodes))) \<lparr>w_order = [], w_depth = []\<rparr> = Inr r"
    by (rule visit_succeeds(2)) (use ok index_of_keys in \<open>auto simp: graph_ok_def\<close>)
  then show ?thesis using b by (auto simp: graphFacts_def)
qed

section \<open>Chains\<close>

definition chain :: "index \<Rightarrow> jsval list \<Rightarrow> bool" where
  "chain byId xs \<longleftrightarrow> set xs \<subseteq> fst ` set byId \<and> successively (\<lambda>x y. (x, y) \<in> edges byId) xs"

lemma chain_Cons: "chain byId (x # y # xs) \<longleftrightarrow> x \<in> fst ` set byId \<and> (x, y) \<in> edges byId \<and> chain byId (y # xs)"
  by (auto simp: chain_def)

lemma depth_of_node:
  assumes "walk_ok byId st" "known_node byId i node" "i \<in> set (w_order st)"
  shows "depth_of st i = level_of st (dependencies node)"
proof -
  have f: "map fst (w_depth st) = w_order st" using assms(1) by (simp only: walk_ok_def)
  then obtain d where d: "map_of (w_depth st) i = Some d" using assms(3) map_of_depth [OF f, of i] by auto
  then have "(i, d) \<in> set (w_depth st)" by (rule map_of_SomeD)
  then obtain n where "known_node byId i n" "d = level_of st (dependencies n)" using assms(1) unfolding walk_ok_def by blast
  then show ?thesis using assms(2) d by (simp add: depth_of_def known_node_def)
qed

lemma chain_depth:
  assumes ok: "walk_ok byId st" "fst ` set byId \<subseteq> set (w_order st)" "closed_index byId"
  shows "chain byId (x # xs) \<Longrightarrow> length (x # xs) \<le> depth_of st x"
proof (induction xs arbitrary: x)
  case Nil
  then have x: "x \<in> fst ` set byId" by (simp add: chain_def)
  then obtain node where n: "known_node byId x node" using ok(3) by (auto simp: closed_index_def)
  from depth_of_node [OF ok(1) n] x ok(2) show ?case by (auto simp: level_of_def)
next
  case (Cons y ys)
  then have x: "x \<in> fst ` set byId" and e: "(x, y) \<in> edges byId" and c: "chain byId (y # ys)" by (simp_all add: chain_Cons)
  from x obtain node where n: "known_node byId x node" using ok(3) by (auto simp: closed_index_def)
  have y: "y \<in> set (dependencies node)" using e n by (auto simp: edges_def known_node_def)
  have "depth_of st y \<le> fold max (map (depth_of st) (dependencies node)) 0" by (rule fold_max_ge(2)) (use y in simp)
  moreover have "depth_of st x = level_of st (dependencies node)" using depth_of_node [OF ok(1) n] x ok(2) by auto
  ultimately show ?case using Cons.IH [OF c] y by (auto simp: level_of_def)
qed

lemma fold_max_member: "fold max xs (n :: nat) = n \<or> fold max xs n \<in> set xs"
proof (induction xs arbitrary: n)
  case (Cons x xs)
  show ?case using Cons [of "max x n"] by (auto simp: max_def split: if_splits)
qed simp

lemma depth_attained:
  assumes ok: "walk_ok byId st" "set (w_order st) = fst ` set byId" "closed_index byId"
  shows "i \<in> fst ` set byId \<Longrightarrow> depth_of st i = Suc n \<Longrightarrow> \<exists>xs. chain byId (i # xs) \<and> length xs = n"
proof (induction n arbitrary: i)
  case 0
  then have "chain byId [i]" by (simp add: chain_def)
  then show ?case by auto
next
  case (Suc n)
  from Suc.prems(1) obtain node where n: "known_node byId i node" "set (dependencies node) \<subseteq> fst ` set byId" using ok(3) by (auto simp: closed_index_def)
  have "depth_of st i = level_of st (dependencies node)" using depth_of_node [OF ok(1) n(1)] Suc.prems(1) ok(2) by auto
  then have m: "fold max (map (depth_of st) (dependencies node)) 0 = Suc n" using Suc.prems(2) by (auto simp: level_of_def split: if_splits)
  from fold_max_member [of "map (depth_of st) (dependencies node)" 0] obtain y where y: "y \<in> set (dependencies node)" "depth_of st y = Suc n"
    unfolding m by auto
  have "y \<in> fst ` set byId" using y(1) n(2) by blast
  from Suc.IH [OF this y(2)] obtain xs where xs: "chain byId (y # xs)" "length xs = n" by blast
  have "(i, y) \<in> edges byId" using n(1) y(1) by (auto simp: edges_def known_node_def)
  then have "chain byId (i # y # xs)" using xs(1) Suc.prems(1) by (simp add: chain_Cons)
  then show ?case using xs(2) by force
qed

lemma depth_of_pf:
  assumes "map fst (w_depth st) = w_order st" "distinct (w_order st)"
  shows "fold max (map snd (w_depth st)) 0 = fold max (map (depth_of st) (w_order st)) 0"
proof -
  have "map snd (w_depth st) = map (depth_of st) (map fst (w_depth st))"
    unfolding map_map by (rule map_cong [OF refl]) (use assms in \<open>auto simp: depth_of_def\<close>)
  then show ?thesis using assms(1) by simp
qed

lemma pf_depth_longest:
  assumes f: "graphFacts P nodes = Inr f"
  shows "chain (index_of nodes) xs \<Longrightarrow> length xs \<le> pf_depth f"
    and "\<exists>xs. chain (index_of nodes) xs \<and> length xs = pf_depth f"
proof -
  from graphFacts_order [OF f] obtain st where st: "walk_ok (index_of nodes) st" "w_order st = pf_order f"
    "pf_depth f = fold max (map snd (w_depth st)) 0" and o': "set (pf_order f) = fst ` set (index_of nodes)" unfolding index_of_keys by blast
  have cl: "closed_index (index_of nodes)" using graphFacts_graph_ok [OF f] by (simp add: graph_ok_def)
  have w: "map fst (w_depth st) = w_order st" "distinct (w_order st)" using st(1) by (simp_all add: walk_ok_def topological_def)
  have d: "pf_depth f = fold max (map (depth_of st) (w_order st)) 0" unfolding st(3) by (rule depth_of_pf [OF w])
  have top: "set (w_order st) = fst ` set (index_of nodes)" using st(2) o' by simp
  show "length xs \<le> pf_depth f" if c: "chain (index_of nodes) xs"
  proof (cases xs)
    case (Cons x ys)
    have x: "x \<in> set (w_order st)" using c top Cons by (auto simp: chain_def)
    have "length (x # ys) \<le> depth_of st x" by (rule chain_depth [OF st(1) _ cl]) (use top c Cons in auto)
    also have "\<dots> \<le> pf_depth f" unfolding d by (rule fold_max_ge(2)) (use x in simp)
    finally show ?thesis using Cons by simp
  qed simp
  show "\<exists>xs. chain (index_of nodes) xs \<and> length xs = pf_depth f"
  proof (cases "pf_depth f")
    case 0
    then show ?thesis by (intro exI [of _ "[]"]) (simp add: chain_def)
  next
    case (Suc n)
    then obtain i where i: "i \<in> set (w_order st)" "depth_of st i = Suc n"
      using fold_max_member [of "map (depth_of st) (w_order st)" 0] d by auto
    have "i \<in> fst ` set (index_of nodes)" using i(1) top by simp
    from depth_attained [OF st(1) top cl this i(2)] obtain ys where "chain (index_of nodes) (i # ys)" "length ys = n" by blast
    then show ?thesis using Suc by (intro exI [of _ "i # ys"]) simp
  qed
qed

end
