(* ===== verification/Plan_Policy_Proofs.thy ===== *)
theory Plan_Policy_Proofs
  imports Plan_Graph_Proofs Domain_Agent
begin

text \<open>
  Policies of a plan: a normalised policy names known ranks, a covered policy is within the root
  policy, and the effective policy of a node is within both and allows no denied tool and, when
  it does not mutate, no mutating tool. The rank tables of the plan are two more interpretations
  of \<open>rank_table\<close>.
\<close>

interpretation plan_workspace: rank_table "map_of PLAN_WORKSPACE_RANK" "[''shared-read-only'', ''shared-guarded'', ''managed-worktree'']"
  by unfold_locales (auto simp: PLAN_WORKSPACE_RANK_def split: if_splits)

interpretation plan_egress: rank_table "map_of PLAN_EGRESS_RANK" "[''deny'', ''ask'', ''allow'']"
  by unfold_locales (auto simp: PLAN_EGRESS_RANK_def split: if_splits)

section \<open>Reading through canonical forms\<close>

lemma map_of_canonicalize_members: "map_of (canonicalize_members ps) k = map_option canonicalize (map_of ps k)"
  by (induction ps) auto

lemma own_canonicalize: "own k (canonicalize v) = canonicalize (own k v)"
  by (cases v) (auto simp: own.simps(1) map_of_stable_sort map_of_canonicalize_members split: option.splits)

lemma items_canonicalize: "items (canonicalize v) = map canonicalize (items v)"
  by (cases v) auto

lemma canonicalize_atom [simp]: "canonicalize v = JStr s \<longleftrightarrow> v = JStr s" "canonicalize v = JUndef \<longleftrightarrow> v = JUndef"
  "canonicalize v = JNum n \<longleftrightarrow> v = JNum n" "canonicalize v = JNull \<longleftrightarrow> v = JNull"
  by (cases v; simp)+

definition str_of :: "jsval \<Rightarrow> string" where
  "str_of v = (case v of JStr s \<Rightarrow> s | _ \<Rightarrow> [])"

lemma str_of_simps [simp]: "str_of (JStr s) = s" "str_of (canonicalize v) = str_of v"
  by (simp add: str_of_def, cases v, simp_all add: str_of_def)

definition allows :: "jsval \<Rightarrow> string \<Rightarrow> bool" where
  "allows policy tool \<longleftrightarrow> JStr tool \<in> set (allowed_tools policy)"

definition denies :: "jsval \<Rightarrow> string \<Rightarrow> bool" where
  "denies policy tool \<longleftrightarrow> JStr tool \<in> set (denied_tools policy)"

lemma allows_canonicalize [simp]: "allows (canonicalize p) t = allows p t"
proof -
  have "JStr t = canonicalize v \<longleftrightarrow> v = JStr t" for v by (metis canonicalize_atom(1))
  then show ?thesis by (auto simp: allows_def allowed_tools_def own_canonicalize items_canonicalize image_iff)
qed

section \<open>Normalised policies\<close>

definition plan_policy_ok :: "jsval \<Rightarrow> bool" where
  "plan_policy_ok p \<longleftrightarrow> (\<exists>ws mu web mcp provider allow deny. p = workflow_policy ws mu web mcp provider allow deny
     \<and> checkWorkflowPolicy ws mu [web, mcp, provider] allow deny = Inr ())"

lemma workflow_policy_own [simp]:
  "own ''workspace'' (workflow_policy ws mu web mcp pr al de) = ws" "own ''mutation'' (workflow_policy ws mu web mcp pr al de) = mu"
  "own ''egress'' (workflow_policy ws mu web mcp pr al de) = JObj [(''web'', web), (''mcp'', mcp), (''provider'', pr)]"
  "allowed_tools (workflow_policy ws mu web mcp pr al de) = al" "denied_tools (workflow_policy ws mu web mcp pr al de) = de"
  by (simp_all add: workflow_policy_def allowed_tools_def denied_tools_def)

lemma plan_policy_okI: "checkWorkflowPolicy ws mu [web, mcp, provider] al de = Inr u \<Longrightarrow> plan_policy_ok (workflow_policy ws mu web mcp provider al de)"
  unfolding plan_policy_ok_def by (cases u) blast

lemma normalizeWorkflowPolicy_ok: "normalizeWorkflowPolicy P v = Inr p \<Longrightarrow> plan_policy_ok p"
  unfolding normalizeWorkflowPolicy_def plan_inv by (auto intro: plan_policy_okI)

lemma completePolicy_ok: "completePolicy P v = Inr p \<Longrightarrow> plan_policy_ok p"
  by (auto simp: completePolicy_def plan_inv dest: normalizeWorkflowPolicy_ok)

lemma checkWorkflowPolicy_Inr:
  "checkWorkflowPolicy ws mu eg al de = Inr () \<longleftrightarrow> ws \<in> set (map JStr [''shared-read-only'', ''shared-guarded'', ''managed-worktree''])
     \<and> mu \<in> set (map JStr [''none'', ''guarded'']) \<and> (\<forall>v \<in> set eg. v \<in> set (map JStr [''allow'', ''deny'', ''ask'']))
     \<and> \<not> finds_truthy (\<lambda>tool. tool \<in> set de) al
     \<and> \<not> ((mu = JStr ''none'' \<or> ws = JStr ''shared-read-only'') \<and> finds_truthy (\<lambda>tool. tool \<in> set (map JStr PLAN_MUTATING_TOOLS)) al)"
  unfolding checkWorkflowPolicy_def if_failPlan_eq_Inr list_ex_iff by auto

definition plan_within :: "jsval \<Rightarrow> jsval \<Rightarrow> bool" where
  "plan_within a b \<longleftrightarrow> narrows (map_of PLAN_WORKSPACE_RANK) (str_of (own ''workspace'' a)) (str_of (own ''workspace'' b))
     \<and> (own ''mutation'' b = JStr ''none'' \<longrightarrow> own ''mutation'' a = JStr ''none'')
     \<and> (\<forall>s \<in> set SURFACES. narrows (map_of PLAN_EGRESS_RANK) (str_of (own s (own ''egress'' a))) (str_of (own s (own ''egress'' b))))
     \<and> (\<forall>tool. allows a tool \<longrightarrow> allows b tool)"

lemma plan_within_trans: "plan_within a b \<Longrightarrow> plan_within b c \<Longrightarrow> plan_within a c"
  unfolding plan_within_def by (blast intro: plan_workspace.narrows_trans plan_egress.narrows_trans)

lemma plan_within_canonicalize [simp]: "plan_within (canonicalize a) b = plan_within a b"
  by (simp add: plan_within_def own_canonicalize)

lemma policy_ok_names:
  assumes "plan_policy_ok p"
  shows "\<exists>s. own ''workspace'' p = JStr s \<and> s \<in> set [''shared-read-only'', ''shared-guarded'', ''managed-worktree'']"
    and "own ''mutation'' p \<in> {JStr ''none'', JStr ''guarded''}"
    and "surface \<in> set SURFACES \<Longrightarrow> \<exists>s. own surface (own ''egress'' p) = JStr s \<and> s \<in> set [''deny'', ''ask'', ''allow'']"
proof -
  from assms obtain ws mu web mcp pr al de where p: "p = workflow_policy ws mu web mcp pr al de"
    and c: "ws \<in> set (map JStr [''shared-read-only'', ''shared-guarded'', ''managed-worktree''])" "mu \<in> set (map JStr [''none'', ''guarded''])"
      "\<forall>v \<in> set [web, mcp, pr]. v \<in> set (map JStr [''allow'', ''deny'', ''ask''])"
    unfolding plan_policy_ok_def checkWorkflowPolicy_Inr by blast
  show "\<exists>s. own ''workspace'' p = JStr s \<and> s \<in> set [''shared-read-only'', ''shared-guarded'', ''managed-worktree'']"
    using c(1) unfolding p workflow_policy_own set_map by blast
  show "own ''mutation'' p \<in> {JStr ''none'', JStr ''guarded''}" using c(2) unfolding p workflow_policy_own by simp
  show "\<exists>s. own surface (own ''egress'' p) = JStr s \<and> s \<in> set [''deny'', ''ask'', ''allow'']" if "surface \<in> set SURFACES"
  proof -
    have "own surface (own ''egress'' p) \<in> set [web, mcp, pr]" using that by (auto simp: p SURFACES_def)
    with c(3) obtain s where "own surface (own ''egress'' p) = JStr s" "s \<in> set [''allow'', ''deny'', ''ask'']" unfolding set_map by blast
    then show ?thesis by auto
  qed
qed

lemma finds_truthy_iff: "(\<And>x. p x \<Longrightarrow> truthy x) \<Longrightarrow> finds_truthy p xs \<longleftrightarrow> (\<exists>x \<in> set xs. p x)"
  by (induction xs) (auto simp: finds_truthy_def)

lemma mutating_truthy: "x \<in> JStr ` set PLAN_MUTATING_TOOLS \<Longrightarrow> truthy x"
  by (auto simp: PLAN_MUTATING_TOOLS_def)

lemma finds_mutating: "finds_truthy (\<lambda>tool. tool \<in> set (map JStr PLAN_MUTATING_TOOLS)) xs \<longleftrightarrow> (\<exists>t \<in> set PLAN_MUTATING_TOOLS. JStr t \<in> set xs)"
  unfolding set_map by (subst finds_truthy_iff) (blast intro: mutating_truthy)+

text \<open>A policy that does not mutate allows no mutating tool.\<close>

lemma policy_ok_readonly:
  assumes "plan_policy_ok p" "own ''mutation'' p = JStr ''none'' \<or> own ''workspace'' p = JStr ''shared-read-only''" "t \<in> set PLAN_MUTATING_TOOLS"
  shows "\<not> allows p t"
proof -
  from assms(1) obtain ws mu web mcp pr al de where p: "p = workflow_policy ws mu web mcp pr al de"
    and c: "checkWorkflowPolicy ws mu [web, mcp, pr] al de = Inr ()" unfolding plan_policy_ok_def by blast
  have "\<not> (\<exists>t \<in> set PLAN_MUTATING_TOOLS. JStr t \<in> set al)"
    using c assms(2) unfolding checkWorkflowPolicy_Inr finds_mutating p workflow_policy_own by blast
  then show ?thesis using assms(3) by (auto simp: allows_def p)
qed

section \<open>Coverage and the effective policy\<close>

lemma not_above_narrows:
  assumes "\<not> ranks_above table (JStr a) (JStr b)" "map_of table a \<noteq> None" "map_of table b \<noteq> None"
  shows "narrows (map_of table) a b"
  using assms by (auto simp: ranks_above_def plan_rank_def narrows_def)

lemma covered_within:
  assumes "plan_policy_ok outer" "plan_policy_ok candidate" "assertPolicyCovered outer candidate = Inr ()"
  shows "plan_within candidate outer"
proof -
  from assms(3) have c: "\<not> ranks_above PLAN_WORKSPACE_RANK (own ''workspace'' candidate) (own ''workspace'' outer)"
    "own ''mutation'' outer = JStr ''none'' \<Longrightarrow> own ''mutation'' candidate = JStr ''none''"
    "\<forall>s \<in> set SURFACES. \<not> ranks_above PLAN_EGRESS_RANK (own s (own ''egress'' candidate)) (own s (own ''egress'' outer))"
    "set (allowed_tools candidate) \<subseteq> set (allowed_tools outer)"
    unfolding assertPolicyCovered_def if_failPlan_eq_Inr list_ex_iff by auto
  have w: "narrows (map_of PLAN_WORKSPACE_RANK) (str_of (own ''workspace'' candidate)) (str_of (own ''workspace'' outer))"
    using policy_ok_names(1) [OF assms(1)] policy_ok_names(1) [OF assms(2)] c(1) not_above_narrows plan_workspace.rank_known by fastforce
  have "narrows (map_of PLAN_EGRESS_RANK) (str_of (own s (own ''egress'' candidate))) (str_of (own s (own ''egress'' outer)))" if s: "s \<in> set SURFACES" for s
  proof -
    obtain a b where ab: "own s (own ''egress'' candidate) = JStr a" "own s (own ''egress'' outer) = JStr b"
      "a \<in> set [''deny'', ''ask'', ''allow'']" "b \<in> set [''deny'', ''ask'', ''allow'']"
      using policy_ok_names(3) [OF assms(1) s] policy_ok_names(3) [OF assms(2) s] by blast
    show ?thesis unfolding ab str_of_simps
      by (rule not_above_narrows) (use c(3) s ab plan_egress.rank_known in metis)+
  qed
  then show ?thesis using w c(2,4) by (auto simp: plan_within_def allows_def)
qed

lemma narrower_both:
  assumes "map_of table a \<noteq> None" "map_of table b \<noteq> None"
  shows "\<exists>s. narrower table (JStr a) (JStr b) = JStr s \<and> narrows (map_of table) s a \<and> narrows (map_of table) s b"
  using assms by (auto simp: narrower_def plan_rank_def narrows_def)

lemma effective_policy_facts:
  assumes ok: "plan_policy_ok outer" "plan_policy_ok candidate" and within: "plan_within candidate outer"
    and e: "e = effectiveNodePolicy P outer candidate"
  shows "plan_within e outer \<and> plan_within e candidate \<and> (\<forall>tool. allows e tool \<longrightarrow> \<not> denies outer tool \<and> \<not> denies candidate tool)
     \<and> (own ''mutation'' e = JStr ''none'' \<longrightarrow> (\<forall>tool \<in> set PLAN_MUTATING_TOOLS. \<not> allows e tool))"
proof -
  let ?denied = "js_uniq (denied_tools outer @ denied_tools candidate)"
  let ?allow = "js_sort P (filter (\<lambda>tool. tool \<in> set (allowed_tools outer) \<and> tool \<notin> set ?denied) (allowed_tools candidate))"
  let ?ws = "narrower PLAN_WORKSPACE_RANK (own ''workspace'' outer) (own ''workspace'' candidate)"
  let ?mu = "JStr (if own ''mutation'' outer = JStr ''none'' \<or> own ''mutation'' candidate = JStr ''none'' then ''none'' else ''guarded'')"
  let ?eg = "\<lambda>s. narrower PLAN_EGRESS_RANK (own s (own ''egress'' outer)) (own s (own ''egress'' candidate))"
  let ?w = "workflow_policy ?ws ?mu (?eg ''web'') (?eg ''mcp'') (?eg ''provider'') ?allow (js_sort P ?denied)"
  have e': "e = canonicalize ?w" by (simp add: e effectiveNodePolicy_def Let_def)
  have al: "allows ?w tool \<longleftrightarrow> allows outer tool \<and> allows candidate tool \<and> \<not> denies outer tool \<and> \<not> denies candidate tool" for tool
    by (auto simp: allows_def denies_def)
  obtain a b where ws: "own ''workspace'' outer = JStr a" "own ''workspace'' candidate = JStr b"
    "map_of PLAN_WORKSPACE_RANK a \<noteq> None" "map_of PLAN_WORKSPACE_RANK b \<noteq> None"
    using policy_ok_names(1) [OF ok(1)] policy_ok_names(1) [OF ok(2)] plan_workspace.rank_known by metis
  obtain s where s: "?ws = JStr s" "narrows (map_of PLAN_WORKSPACE_RANK) s a" "narrows (map_of PLAN_WORKSPACE_RANK) s b"
    unfolding ws(1,2) using narrower_both [OF ws(3,4)] by blast
  have eg: "narrows (map_of PLAN_EGRESS_RANK) (str_of (?eg x)) (str_of (own x (own ''egress'' outer)))
      \<and> narrows (map_of PLAN_EGRESS_RANK) (str_of (?eg x)) (str_of (own x (own ''egress'' candidate)))" if x: "x \<in> set SURFACES" for x
  proof -
    obtain c d where cd: "own x (own ''egress'' outer) = JStr c" "own x (own ''egress'' candidate) = JStr d"
      "map_of PLAN_EGRESS_RANK c \<noteq> None" "map_of PLAN_EGRESS_RANK d \<noteq> None"
      using policy_ok_names(3) [OF ok(1) x] policy_ok_names(3) [OF ok(2) x] plan_egress.rank_known by metis
    show ?thesis unfolding cd(1,2) using narrower_both [OF cd(3,4)] by auto
  qed
  have egw: "own x (own ''egress'' ?w) = ?eg x" if "x \<in> set SURFACES" for x
    using that by (auto simp: SURFACES_def)
  have in1: "plan_within ?w outer" unfolding plan_within_def using s ws eg egw al by auto
  have in2: "plan_within ?w candidate" unfolding plan_within_def using s ws eg egw al by auto
  have mut: "\<not> allows ?w tool" if "own ''mutation'' ?w = JStr ''none''" "tool \<in> set PLAN_MUTATING_TOOLS" for tool
  proof -
    have "own ''mutation'' candidate = JStr ''none''" using that(1) within by (auto simp: plan_within_def split: if_splits)
    then show ?thesis using policy_ok_readonly [OF ok(2) _ that(2)] al by blast
  qed
  show ?thesis unfolding e' plan_within_canonicalize allows_canonicalize own_canonicalize canonicalize_atom
    using in1 in2 mut al by blast
qed

text \<open>Every entry of the envelope belongs to a node of the plan and is within both policies.\<close>

definition envelope_entry_ok :: "platform \<Rightarrow> jsval \<Rightarrow> jsval \<Rightarrow> jsval \<Rightarrow> bool" where
  "envelope_entry_ok P outer node entry \<longleftrightarrow> (\<exists>c. completePolicy P (own ''policy'' node) = Inr c \<and> own ''id'' entry = canonicalize (own ''id'' node)
     \<and> (let e = own ''policy'' entry in plan_within e outer \<and> plan_within e c
          \<and> (\<forall>tool. allows e tool \<longrightarrow> \<not> denies outer tool \<and> \<not> denies c tool)
          \<and> (own ''mutation'' e = JStr ''none'' \<longrightarrow> (\<forall>tool \<in> set PLAN_MUTATING_TOOLS. \<not> allows e tool))))"

lemma envelopeNode_ok:
  assumes "plan_policy_ok outer" "envelopeNode P outer node = Inr entry"
  shows "envelope_entry_ok P outer node (canonicalize entry)"
proof -
  from assms(2) obtain c where c: "completePolicy P (own ''policy'' node) = Inr c" "assertPolicyCovered outer c = Inr ()"
    "entry = JObj [(''id'', own ''id'' node), (''policy'', effectiveNodePolicy P outer c)]"
    unfolding envelopeNode_def plan_inv by auto
  note ok = completePolicy_ok [OF c(1)]
  from effective_policy_facts [OF assms(1) ok covered_within [OF assms(1) ok c(2)] refl, of P] c(1)
  show ?thesis unfolding envelope_entry_ok_def c(3) Let_def own_canonicalize by simp
qed

lemma envelope_facts:
  assumes "effectiveWorkflowPolicyEnvelope P plan = Inr env"
  shows "\<exists>outer. completePolicy P (own ''policy'' plan) = Inr outer \<and> own ''root'' env = canonicalize outer
     \<and> (\<forall>node \<in> set (items (own ''nodes'' plan)). \<exists>entry \<in> set (items (own ''nodes'' env)). envelope_entry_ok P outer node entry)
     \<and> (\<forall>entry \<in> set (items (own ''nodes'' env)). \<exists>node \<in> set (items (own ''nodes'' plan)). envelope_entry_ok P outer node entry)"
proof -
  from assms obtain outer entries sorted where o': "completePolicy P (own ''policy'' plan) = Inr outer"
    and m: "mapR (envelopeNode P outer) (items (own ''nodes'' plan)) = Inr entries" and s: "sortById P entries = Inr sorted"
    and env: "env = canonicalize (JObj [(''root'', outer), (''nodes'', JArr sorted)])"
    unfolding effectiveWorkflowPolicyEnvelope_def plan_inv by blast
  have set: "set (items (own ''nodes'' env)) = canonicalize ` set entries"
    using s by (auto simp: env own_canonicalize sortById_def split: if_splits simp del: canonicalize.simps) (auto simp: items_canonicalize)
  have ok: "envelope_entry_ok P outer node (canonicalize entry)" if "envelopeNode P outer node = Inr entry" for node entry
    by (rule envelopeNode_ok [OF completePolicy_ok [OF o'] that])
  show ?thesis unfolding set
    using o' mapR_member_in [OF m] mapR_member [OF m] ok by (intro exI [of _ outer]) (fastforce simp: env own_canonicalize simp del: canonicalize.simps)
qed

end
