(* ===== verification/Plan_Cost.thy ===== *)
theory Plan_Cost
  imports Plan_Graph_Proofs Plan_Compiler
begin

text \<open>
  The critical path: \<open>worstCaseCriticalPathMs\<close> works in binary64 numbers. Rounding never brings a
  sum below an integer bound, so the exact total of the node budgets along any dependency chain
  is at most the computed cost, as long as that stays below \<open>2 ^ 53\<close>.
\<close>

section \<open>Integer lower bounds survive rounding\<close>

definition at_least :: "int \<Rightarrow> jsnum \<Rightarrow> bool" where
  "at_least k x \<longleftrightarrow> num_le (num_of_int (min k (2 ^ 53))) x"

lemma at_least_fl:
  assumes "0 \<le> k" "of_int k \<le> x"
  shows "at_least k (fl x)"
proof (cases "x = 0")
  case True
  then have "k = 0" using assms by simp
  then show ?thesis using True by (simp add: at_least_def fl_def)
next
  case False
  let ?k = "min k (2 ^ 53)"
  have k: "0 \<le> ?k" "?k \<le> 2 ^ 53" "(of_int ?k :: rat) \<le> x" using assms by (auto simp: min_def intro: order_trans)
  have x: "0 < x" using assms False by (metis le_less of_int_0_le_iff order_trans)
  have "(of_int ?k :: rat) \<le> fl_pos x"
  proof (cases "?k = 0")
    case True
    then show ?thesis using fl_pos_nonneg [of x] x by simp
  next
    case False
    then have "(of_int ?k :: rat) = fl_pos (of_int ?k)" using fl_pos_int [of ?k] k by simp
    also have "\<dots> \<le> fl_pos x" using False k x by (intro fl_pos_mono) auto
    finally show ?thesis .
  qed
  then show ?thesis using x by (simp add: at_least_def fl_def Let_def)
qed

lemma at_least_cases: "at_least k x \<longleftrightarrow> x = PInf \<or> (\<exists>a. x = Fin a \<and> of_int (min k (2 ^ 53)) \<le> a)"
  by (cases x) (auto simp: at_least_def)

lemma at_least_le: "at_least k (Fin a) \<Longrightarrow> a \<le> of_int b \<Longrightarrow> b < 2 ^ 53 \<Longrightarrow> k \<le> b"
proof -
  assume a: "at_least k (Fin a)" "a \<le> of_int b" "b < 2 ^ 53"
  then have "(of_int (min k (2 ^ 53)) :: rat) \<le> of_int b" unfolding at_least_cases by (metis jsnum.distinct(1) jsnum.inject order_trans)
  then have "min k (2 ^ 53) \<le> b" by (simp only: of_int_le_iff)
  then show ?thesis using a(3) by (simp add: min_def split: if_splits)
qed

lemma at_least_add:
  assumes "0 \<le> a" "0 \<le> b" "at_least a x" "at_least b y"
  shows "at_least (a + b) (num_add x y)"
proof (cases "x = PInf \<or> y = PInf")
  case True
  then show ?thesis using assms(3,4) unfolding at_least_cases [of a] at_least_cases [of b] by (auto simp: at_least_def)
next
  case False
  then obtain u v where u: "x = Fin u" "of_int (min a (2 ^ 53)) \<le> u" and v: "y = Fin v" "of_int (min b (2 ^ 53)) \<le> v"
    using assms(3,4) unfolding at_least_cases by blast
  let ?s = "min a (2 ^ 53) + min b (2 ^ 53)"
  have "(of_int ?s :: rat) \<le> u + v" using u(2) v(2) by (simp only: of_int_add add_mono)
  moreover have "0 \<le> ?s" using assms(1,2) by simp
  ultimately have "at_least ?s (fl (u + v))" by (intro at_least_fl)
  moreover have "min (min a (2 ^ 53) + min b (2 ^ 53)) (2 ^ 53) = min (a + b) (2 ^ 53 :: int)" using assms(1,2) by (auto simp: min_def)
  ultimately show ?thesis by (simp add: u(1) v(1) at_least_def)
qed

lemma at_least_mono: "at_least k x \<Longrightarrow> j \<le> k \<Longrightarrow> at_least j x"
proof -
  assume a: "at_least k x" "j \<le> k"
  have "(of_int (min j (2 ^ 53)) :: rat) \<le> of_int (min k (2 ^ 53))" unfolding of_int_le_iff using a(2) by simp
  then show ?thesis using a(1) unfolding at_least_cases by (metis order_trans)
qed

lemma at_least_max: "at_least 0 x \<Longrightarrow> at_least 0 y \<Longrightarrow> at_least k x \<or> at_least k y \<Longrightarrow> at_least k (num_max x y)"
  by (cases x; cases y) (auto simp: num_max_def at_least_cases)

lemma at_least_fold_max:
  assumes "at_least 0 c" "\<forall>x \<in> set cs. at_least 0 x" "at_least k c \<or> (\<exists>x \<in> set cs. at_least k x)"
  shows "at_least k (fold (\<lambda>x m. num_max m x) cs c)"
  using assms
proof (induction cs arbitrary: c)
  case (Cons y ys)
  show ?case unfolding fold_Cons comp_apply
    by (rule Cons.IH) (use Cons.prems in \<open>auto intro: at_least_max\<close>)
qed auto

section \<open>The cost of a chain\<close>

definition integer_budget :: "jsval \<Rightarrow> bool" where
  "integer_budget node \<longleftrightarrow> (\<exists>t a. own ''timeoutMs'' (own ''budget'' node) = jint t \<and> own ''maxAttempts'' (own ''budget'' node) = jint a \<and> 0 \<le> t \<and> 0 \<le> a)"

definition num_floor :: "jsval \<Rightarrow> int" where
  "num_floor v = (case v of JNum (Fin a) \<Rightarrow> \<lfloor>a\<rfloor> | _ \<Rightarrow> 0)"

text \<open>The exact budget of a node and of a list of ids.\<close>

definition node_ms :: "jsval \<Rightarrow> int" where
  "node_ms node = num_floor (own ''timeoutMs'' (own ''budget'' node)) * num_floor (own ''maxAttempts'' (own ''budget'' node))"

definition path_ms :: "index \<Rightarrow> jsval list \<Rightarrow> int" where
  "path_ms byId xs = sum_list (map (\<lambda>i. case map_of byId i of None \<Rightarrow> 0 | Some node \<Rightarrow> node_ms node) xs)"

lemma nodeCost_at_least: "integer_budget node \<Longrightarrow> 0 \<le> node_ms node \<and> at_least (node_ms node) (nodeCost P node)"
  by (auto simp: integer_budget_def node_ms_def num_floor_def nodeCost_def intro!: at_least_fl)

lemma path_ms_nonneg: "\<forall>(i, n) \<in> set byId. integer_budget n \<Longrightarrow> 0 \<le> path_ms byId xs"
  using nodeCost_at_least by (induction xs) (fastforce simp: path_ms_def split: option.splits dest: map_of_SomeD)+

definition cost_ok :: "index \<Rightarrow> jsval list \<Rightarrow> (jsval \<times> jsnum) list \<Rightarrow> bool" where
  "cost_ok byId order cost \<longleftrightarrow> map fst cost = order \<and> (\<forall>(i, c) \<in> set cost. at_least 0 c)
     \<and> (\<forall>i xs c. map_of cost i = Some c \<longrightarrow> chain byId (i # xs) \<longrightarrow> at_least (path_ms byId (i # xs)) c)"

lemma upstream_at_least:
  assumes "cost_ok byId order cost" "set needs \<subseteq> set order"
  shows "at_least 0 (upstreamCost cost needs)" and "y \<in> set needs \<Longrightarrow> map_of cost y = Some c \<Longrightarrow> at_least k c \<Longrightarrow> at_least k (upstreamCost cost needs)"
proof -
  let ?g = "\<lambda>dependency. case map_of cost dependency of None \<Rightarrow> Fin 0 | Some c \<Rightarrow> c"
  have z: "at_least 0 (?g d)" for d
    using assms(1) by (auto simp: cost_ok_def at_least_def split: option.splits dest: map_of_SomeD)
  show "at_least 0 (upstreamCost cost needs)"
  proof (cases needs)
    case Nil
    then show ?thesis by (simp add: upstreamCost_def at_least_def)
  next
    case (Cons d ds)
    have "at_least 0 (fold (\<lambda>x m. num_max m x) (map ?g ds) (?g d))" by (rule at_least_fold_max) (use z in auto)
    then show ?thesis by (simp add: upstreamCost_def Cons)
  qed
  show "at_least k (upstreamCost cost needs)" if "y \<in> set needs" "map_of cost y = Some c" "at_least k c"
  proof (cases needs)
    case (Cons d ds)
    have "at_least k (fold (\<lambda>x m. num_max m x) (map ?g ds) (?g d))"
      by (rule at_least_fold_max) (use z that Cons in \<open>auto intro!: bexI [of _ y]\<close>)
    then show ?thesis by (simp add: upstreamCost_def Cons)
  qed (use that in simp)
qed

lemma cost_ok_fold:
  assumes int: "\<forall>(i, n) \<in> set byId. integer_budget n"
  shows "topological byId order \<Longrightarrow> cost_ok byId order (foldl (addCost P byId) [] order)"
proof (induction order rule: rev_induct)
  case Nil
  then show ?case by (simp add: cost_ok_def)
next
  case (snoc i order)
  let ?cost = "foldl (addCost P byId) [] order"
  have top: "topological byId order" using snoc.prems unfolding topological_def by (metis append.assoc append_Cons distinct_append)
  then have IH: "cost_ok byId order ?cost" by (rule snoc.IH)
  obtain node where n: "known_node byId i node" "set (dependencies node) \<subseteq> set order" using snoc.prems unfolding topological_def by blast
  have i: "i \<notin> set order" using snoc.prems by (simp add: topological_def)
  have keys: "map fst ?cost = order" using IH by (simp add: cost_ok_def)
  have m: "map_of byId i = Some node" using n(1) by (simp add: known_node_def)
  then have ib: "integer_budget node" using int by (auto dest: map_of_SomeD)
  define c where "c = num_add (nodeCost P node) (upstreamCost ?cost (dependencies node))"
  have cost: "foldl (addCost P byId) [] (order @ [i]) = ?cost @ [(i, c)]" using m by (simp add: addCost_def c_def dependencies_def)
  note nc = nodeCost_at_least [OF ib, of P]
  have c0: "at_least (node_ms node + 0) c" unfolding c_def
    by (rule at_least_add) (use nc upstream_at_least(1) [OF IH n(2)] in auto)
  have new: "at_least (path_ms byId (i # xs)) c" if ch: "chain byId (i # xs)" for xs
  proof (cases xs)
    case Nil
    then show ?thesis using c0 m by (simp add: path_ms_def)
  next
    case (Cons y ys)
    have y: "y \<in> set (dependencies node)" "chain byId (y # ys)" using ch Cons m by (auto simp: chain_Cons edges_def)
    then have "y \<in> set (map fst ?cost)" using n(2) keys by auto
    then obtain d where d: "map_of ?cost y = Some d" by (metis map_of_eq_None_iff not_None_eq set_map)
    have "at_least (path_ms byId (y # ys)) d" using IH d y(2) unfolding cost_ok_def by blast
    from upstream_at_least(2) [OF IH n(2) y(1) d this] have "at_least (path_ms byId (y # ys)) (upstreamCost ?cost (dependencies node))" .
    then have "at_least (node_ms node + path_ms byId (y # ys)) c" unfolding c_def
      by (intro at_least_add) (use nc path_ms_nonneg [OF int] in auto)
    then show ?thesis using m Cons by (simp add: path_ms_def)
  qed
  have "at_least 0 c" by (rule at_least_mono [OF c0]) (use nc in simp)
  moreover have "map_of (?cost @ [(i, c)]) j = (if j = i then Some c else map_of ?cost j)" for j
    using i keys map_of_eq_None_iff [of ?cost i] by (auto simp: map_add_def simp flip: set_map split: option.splits)
  ultimately show ?case unfolding cost cost_ok_def using IH new keys by (auto simp: cost_ok_def)
qed

lemma chain_within_worst_case:
  assumes f: "graphFacts P nodes = Inr f" and int: "list_all integer_budget nodes" and ch: "chain (index_of nodes) xs"
  shows "at_least (path_ms (index_of nodes) xs) (worstCaseCriticalPathMs P f)"
proof -
  let ?byId = "index_of nodes" and ?cost = "foldl (addCost P (index_of nodes)) [] (pf_order f)"
  from graphFacts_order [OF f] have p: "pf_byId f = ?byId" "topological ?byId (pf_order f)" "set (pf_order f) = fst ` set ?byId"
    unfolding index_of_keys by blast+
  have ib: "\<forall>(i, n) \<in> set ?byId. integer_budget n" using int by (auto simp: index_of_def list_all_iff)
  note ok = cost_ok_fold [OF ib p(2), of P]
  have w: "worstCaseCriticalPathMs P f = fold (\<lambda>x m. num_max m x) (map snd ?cost) (Fin 0)"
    by (simp add: worstCaseCriticalPathMs_def p(1) fold_map comp_def case_prod_unfold)
  have z: "\<forall>c \<in> set (map snd ?cost). at_least 0 c" "at_least 0 (Fin 0)" using ok by (auto simp: cost_ok_def at_least_def)
  show ?thesis unfolding w
  proof (rule at_least_fold_max [OF z(2,1)])
    show "at_least (path_ms ?byId xs) (Fin 0) \<or> (\<exists>c \<in> set (map snd ?cost). at_least (path_ms ?byId xs) c)"
    proof (cases xs)
      case Nil
      then show ?thesis by (simp add: path_ms_def at_least_def)
    next
      case (Cons x ys)
      have "x \<in> set (map fst ?cost)" using ch Cons p(3) ok by (auto simp: chain_def cost_ok_def)
      then obtain c where c: "map_of ?cost x = Some c" by (metis map_of_eq_None_iff not_None_eq set_map)
      have "at_least (path_ms ?byId (x # ys)) c" using ok c ch Cons unfolding cost_ok_def by blast
      moreover have "c \<in> set (map snd ?cost)" using map_of_SomeD [OF c] by force
      ultimately show ?thesis using Cons by blast
    qed
  qed
qed

end
