(* ===== verification/Plan_Tree_Proofs.thy ===== *)
theory Plan_Tree_Proofs
  imports Plan_Policy_Proofs Plan_Cost
begin

text \<open>
  What the compilation of a workflow tree pushes: primitive nodes with a replay-safe policy and an
  integer budget, exits through which every pushed node is reached, and dependencies on everything
  the context requires. For a sequence this gives the barrier between its steps.
\<close>

section \<open>A primitive node\<close>

definition node_id :: "jsval \<Rightarrow> jsval" where
  "node_id node = own ''id'' node"

text \<open>An id and one of the ids the node with that id waits for.\<close>

definition waits_for :: "jsval list \<Rightarrow> (jsval \<times> jsval) set" where
  "waits_for nodes = {(node_id n, d) |n d. n \<in> set nodes \<and> d \<in> set (dependencies n)}"

lemma waits_for_mono: "set xs \<subseteq> set ys \<Longrightarrow> waits_for xs \<subseteq> waits_for ys"
  by (auto simp: waits_for_def)

lemma waits_for_trancl_mono: "set xs \<subseteq> set ys \<Longrightarrow> r \<in> (waits_for xs)\<^sup>+ \<Longrightarrow> r \<in> (waits_for ys)\<^sup>+"
  using trancl_mono waits_for_mono by blast

definition primitive_ok :: "jsval \<Rightarrow> bool" where
  "primitive_ok node \<longleftrightarrow> own ''kind'' node \<in> set (map JStr PRIMITIVES) \<and> plan_policy_ok (own ''policy'' node)
     \<and> \<not> unsafeReplay node \<and> integer_budget node"

lemma positive_integer:
  assumes "isInteger v" "\<not> js_less P v (jint 1)"
  shows "\<exists>n. v = jint n \<and> 0 \<le> n"
proof -
  obtain n where v: "v = jint n" using assms(1) by (cases v) (auto simp: num_isInteger_iff)
  then show ?thesis using assms(2) by (intro exI [of _ n]) simp
qed

lemma normalizePrimitive_ok:
  assumes "normalizePrimitive P E source i inherited = Inr node"
  shows "primitive_ok node \<and> node_id node = i \<and> set inherited \<subseteq> set (dependencies node)"
proof -
  from assms obtain base extra where kind: "own ''kind'' source \<in> set (map JStr PRIMITIVES)"
    and b: "primitiveBase P source i inherited (ce_planBudget E) = Inr base" and node: "node = JObj (base @ extra)" and safe: "\<not> unsafeReplay node"
    unfolding normalizePrimitive_def plan_inv not_not by blast
  obtain needs policy keyInputs budget mode idem where pol: "normalizeWorkflowPolicy P (own ''policy'' source) = Inr policy"
    and bud: "\<not> list_ex (\<lambda>key. \<not> isInteger (own key budget) \<or> js_less P (own key budget) (jint 1)) [''maxAttempts'', ''timeoutMs'', ''maxOutputBytes'']"
    and base: "base = [(''id'', i), (''kind'', own ''kind'' source), (''needs'', JArr (js_sort P (js_uniq (inherited @ needs)))),
          (''policy'', policy), (''budget'', budget), (''cache'', JObj [(''mode'', mode), (''keyInputs'', JArr (js_sort P keyInputs))]),
          (''idempotency'', idem)]"
    using b unfolding primitiveBase_def plan_inv by blast
  have "integer_budget node"
    using bud positive_integer [of "own ''timeoutMs'' budget" P] positive_integer [of "own ''maxAttempts'' budget" P]
    by (fastforce simp: integer_budget_def node base)
  then show ?thesis using kind safe normalizeWorkflowPolicy_ok [OF pol] by (auto simp: primitive_ok_def node base node_id_def dependencies_def)
qed

section \<open>A subtree\<close>

text \<open>What a subtree adds under a context.\<close>

definition added_ok :: "compile_ctx \<Rightarrow> jsval list \<Rightarrow> jsval list \<Rightarrow> bool" where
  "added_ok C exits added \<longleftrightarrow> list_all primitive_ok added \<and> set exits \<subseteq> node_id ` set added
     \<and> (\<forall>x \<in> set added. \<forall>k \<in> set (cx_needs C). (node_id x, k) \<in> (waits_for added)\<^sup>+)
     \<and> (\<forall>x \<in> set added. \<exists>e \<in> set exits. e = node_id x \<or> (e, node_id x) \<in> (waits_for added)\<^sup>+)"

lemma added_ok_cong: "cx_needs C = cx_needs D \<Longrightarrow> added_ok C exits added = added_ok D exits added"
  by (simp add: added_ok_def)

lemma added_ok_Nil [simp]: "added_ok C [] []"
  by (simp add: added_ok_def)

lemma added_ok_primitive:
  assumes "primitive_ok node" "set (cx_needs C) \<subseteq> set (dependencies node)"
  shows "added_ok C [node_id node] [node]"
  using assms by (auto simp: added_ok_def waits_for_def intro!: r_into_trancl)

lemma added_ok_parallel:
  assumes "added_ok C e1 a1" "added_ok C e2 a2"
  shows "added_ok C (e1 @ e2) (a1 @ a2)"
proof -
  have up1: "r \<in> (waits_for (a1 @ a2))\<^sup>+" if "r \<in> (waits_for a1)\<^sup>+" for r using waits_for_trancl_mono [OF _ that, of "a1 @ a2"] by simp
  have up2: "r \<in> (waits_for (a1 @ a2))\<^sup>+" if "r \<in> (waits_for a2)\<^sup>+" for r using waits_for_trancl_mono [OF _ that, of "a1 @ a2"] by simp
  have "list_all primitive_ok (a1 @ a2)" "set (e1 @ e2) \<subseteq> node_id ` set (a1 @ a2)" using assms unfolding added_ok_def by auto
  moreover have "\<forall>x \<in> set (a1 @ a2). \<forall>k \<in> set (cx_needs C). (node_id x, k) \<in> (waits_for (a1 @ a2))\<^sup>+"
    using assms up1 up2 unfolding added_ok_def set_append ball_Un by blast
  moreover have "\<exists>e \<in> set (e1 @ e2). e = node_id x \<or> (e, node_id x) \<in> (waits_for (a1 @ a2))\<^sup>+" if x: "x \<in> set a1 \<union> set a2" for x
  proof (cases "x \<in> set a1")
    case True
    then obtain e where "e \<in> set e1" "e = node_id x \<or> (e, node_id x) \<in> (waits_for a1)\<^sup>+" using assms(1) unfolding added_ok_def by blast
    then show ?thesis using up1 by (intro bexI [of _ e]) auto
  next
    case False
    then obtain e where "e \<in> set e2" "e = node_id x \<or> (e, node_id x) \<in> (waits_for a2)\<^sup>+" using x assms(2) unfolding added_ok_def by blast
    then show ?thesis using up2 by (intro bexI [of _ e]) auto
  qed
  ultimately show ?thesis unfolding added_ok_def by simp
qed

text \<open>The step after waits for every node of the step before.\<close>

lemma barrier:
  assumes "added_ok C e1 a1" "added_ok (D\<lparr>cx_needs := e1\<rparr>) e2 a2" "x \<in> set a2" "y \<in> set a1"
  shows "(node_id x, node_id y) \<in> (waits_for (a1 @ a2))\<^sup>+"
proof -
  obtain e where e: "e \<in> set e1" "e = node_id y \<or> (e, node_id y) \<in> (waits_for a1)\<^sup>+" using assms(1,4) unfolding added_ok_def by blast
  have x: "(node_id x, e) \<in> (waits_for a2)\<^sup>+" using assms(2,3) e(1) unfolding added_ok_def by simp
  show ?thesis using e(2) waits_for_trancl_mono [OF _ x, of "a1 @ a2"] waits_for_trancl_mono [of a1 "a1 @ a2"] by (auto intro: trancl_trans)
qed

lemma added_ok_sequence:
  assumes a1: "added_ok C e1 a1" "a1 \<noteq> []" and a2: "added_ok (C\<lparr>cx_needs := e1\<rparr>) e2 a2" "a2 \<noteq> []"
  shows "added_ok C e2 (a1 @ a2)"
proof -
  let ?w = "(waits_for (a1 @ a2))\<^sup>+"
  obtain y where y: "y \<in> set a1" using a1(2) by (cases a1) auto
  obtain z where z: "z \<in> set a2" using a2(2) by (cases a2) auto
  have up1: "r \<in> ?w" if "r \<in> (waits_for a1)\<^sup>+" for r using waits_for_trancl_mono [OF _ that, of "a1 @ a2"] by simp
  have up2: "r \<in> ?w" if "r \<in> (waits_for a2)\<^sup>+" for r using waits_for_trancl_mono [OF _ that, of "a1 @ a2"] by simp
  note b = barrier [OF a1(1) a2(1)]
  have needs: "(node_id x, k) \<in> ?w" if x: "x \<in> set a1 \<union> set a2" and k: "k \<in> set (cx_needs C)" for x k
  proof (cases "x \<in> set a1")
    case True
    then show ?thesis using a1(1) k up1 unfolding added_ok_def by blast
  next
    case False
    then have "(node_id x, node_id y) \<in> ?w" using b [OF _ y] x by blast
    moreover have "(node_id y, k) \<in> ?w" using a1(1) y k up1 unfolding added_ok_def by blast
    ultimately show ?thesis by (rule trancl_trans)
  qed
  have exits: "\<exists>e \<in> set e2. e = node_id x \<or> (e, node_id x) \<in> ?w" if x: "x \<in> set a1 \<union> set a2" for x
  proof (cases "x \<in> set a2")
    case True
    then show ?thesis using a2(1) up2 unfolding added_ok_def by blast
  next
    case False
    then have x1: "x \<in> set a1" using x by blast
    obtain e where e: "e \<in> set e2" using a2(1) z unfolding added_ok_def by blast
    then obtain n where n: "n \<in> set a2" "e = node_id n" using a2(1) unfolding added_ok_def by blast
    show ?thesis using b [OF n(1) x1] e n(2) by blast
  qed
  have lists: "list_all primitive_ok (a1 @ a2)" "set e2 \<subseteq> node_id ` set (a1 @ a2)" using a1(1) a2(1) unfolding added_ok_def by auto
  show ?thesis unfolding added_ok_def using lists needs exits by auto
qed

declare compileTree.simps [simp del]

lemma compile_added:
  "compileTree P E n C source nodes = Inr (entryIds, exits, nodes') \<Longrightarrow>
     \<exists>added. nodes' = nodes @ added \<and> added \<noteq> [] \<and> added_ok C exits added"
  "compileParallel P E n C children nodes = Inr (entryIds, exits, nodes') \<Longrightarrow>
     \<exists>added. nodes' = nodes @ added \<and> (children \<noteq> [] \<longrightarrow> added \<noteq> []) \<and> added_ok C exits added"
  "compileSequence P E n C children nodes = Inr (entryIds, exits, nodes') \<Longrightarrow>
     \<exists>added. nodes' = nodes @ added \<and> (children \<noteq> [] \<longrightarrow> added \<noteq> []) \<and> added_ok C exits added"
proof (induction P E n C source nodes and P E n C children nodes and P E n C children nodes
    arbitrary: entryIds exits nodes' and entryIds exits nodes' and entryIds exits nodes' rule: compileTree_compileParallel_compileSequence.induct)
  case (1 P E n C source nodes)
  have o': "isObj source" using "1.prems" by (auto simp: failPlan_def compileTree.simps)
  let ?kind = "own ''kind'' source"
  consider (primitive) "?kind \<in> set (map JStr PRIMITIVES)" | (nested) "?kind \<notin> set (map JStr PRIMITIVES)" "?kind = JStr ''workflow''"
    | (composite) "?kind \<notin> set (map JStr PRIMITIVES)" "?kind \<noteq> JStr ''workflow''" by blast
  then show ?case
  proof cases
    case primitive
    then obtain i node where n: "normalizePrimitive P E source i (cx_needs C) = Inr node" "exits = [i]" "nodes' = nodes @ [node]"
      using "1.prems" o' unfolding compileTree.simps [of P E n C source nodes] by (auto simp: plan_inv simp del: set_map)
    from normalizePrimitive_ok [OF n(1)] show ?thesis using n added_ok_primitive by auto
  next
    case nested
    have k: "?kind \<in> set (map JStr COMPOSITES)" using nested by (simp add: COMPOSITES_def)
    from "1.prems" o' nested k obtain ref v pre m where r: "plan_canonicalId P (own ''workflowRef'' source) = Inr ref" "ref \<notin> set (cx_stack C)"
      "ce_resolveWorkflow E ref = Inr v" "truthy v" "planNamespace P (cx_prefix C) (coalesce (own ''id'' source) ref) = Inr pre" "n = Suc m"
      "compileTree P E m (C\<lparr>cx_prefix := pre, cx_stack := cx_stack C @ [ref]\<rparr>) (own ''flow'' v) nodes = Inr (entryIds, exits, nodes')"
      unfolding compileTree.simps [of P E n C source nodes] by (cases n) (auto simp: plan_inv NESTING_BOUND_def simp del: set_map)
    from "1.IH"(1) [OF _ refl nested(1) _ nested(2) r(2) _ r(6,7)] o' k r(4) show ?thesis
      using added_ok_cong [of "C\<lparr>cx_prefix := pre, cx_stack := cx_stack C @ [ref]\<rparr>" C] by simp
  next
    case composite
    from "1.prems" o' composite have k: "?kind \<in> set (map JStr COMPOSITES)"
      unfolding compileTree.simps [of P E n C source nodes] by (auto simp: Let_def simp del: set_map)
    from "1.prems" o' composite k obtain children where c: "childrenOf source = JArr children" "children \<noteq> []"
      "(if ?kind = JStr ''parallel'' then compileParallel P E n C children nodes else compileSequence P E n C children nodes) = Inr (entryIds, exits, nodes')"
      unfolding compileTree.simps [of P E n C source nodes] by (cases "childrenOf source") (auto simp: Let_def simp del: set_map)
    show ?thesis
    proof (cases "?kind = JStr ''parallel''")
      case True
      then have p: "compileParallel P E n C children nodes = Inr (entryIds, exits, nodes')" using c(3) by simp
      from "1.IH"(2) [OF _ refl composite(1) _ composite(2) c(1,2) True p] o' k c(2) show ?thesis by simp
    next
      case False
      then have s: "compileSequence P E n C children nodes = Inr (entryIds, exits, nodes')" using c(3) by simp
      from "1.IH"(3) [OF _ refl composite(1) _ composite(2) c(1,2) False s] o' k c(2) show ?thesis by simp
    qed
  qed
next
  case (3 P E n C child rest nodes)
  from "3.prems" obtain e1 x1 n1 e2 x2 where a: "compileTree P E n C child nodes = Inr (e1, x1, n1)"
    "compileParallel P E n C rest n1 = Inr (e2, x2, nodes')" "exits = x1 @ x2" by (auto simp: plan_inv)
  from "3.IH"(1) [OF a(1)] obtain a1 where a1: "n1 = nodes @ a1" "a1 \<noteq> []" "added_ok C x1 a1" by blast
  from "3.IH"(2) [OF a(2)] obtain a2 where a2: "nodes' = n1 @ a2" "added_ok C x2 a2" by blast
  show ?case using a1 a2 added_ok_parallel [OF a1(3) a2(2)] a(3) by auto
next
  case (5 P E n C child rest nodes)
  from "5.prems" obtain e1 x1 n1 where a: "compileTree P E n C child nodes = Inr (e1, x1, n1)" by (auto simp: plan_inv)
  from "5.IH"(1) [OF a] obtain a1 where a1: "n1 = nodes @ a1" "a1 \<noteq> []" "added_ok C x1 a1" by blast
  show ?case
  proof (cases "rest = []")
    case True
    then show ?thesis using "5.prems" a a1 by auto
  next
    case False
    then obtain e2 where s: "compileSequence P E n (C\<lparr>cx_needs := x1\<rparr>) rest n1 = Inr (e2, exits, nodes')"
      using "5.prems" a by (auto simp: plan_inv)
    from "5.IH"(2) [OF False s] False obtain a2 where a2: "nodes' = n1 @ a2" "a2 \<noteq> []" "added_ok (C\<lparr>cx_needs := x1\<rparr>) exits a2" by blast
    show ?thesis using a1 a2 added_ok_sequence [OF a1(3,2) a2(3,2)] by auto
  qed
qed auto

end
