(* ===== verification/Plan_Termination.thy ===== *)
theory Plan_Termination
  imports Plan_Tree_Proofs
begin

text \<open>
  Nested workflows are compiled under a bound on their nesting. The stack holds the names being
  compiled and a name on it is refused, so with finitely many resolvable names a bound of their
  number is never reached, and the result does not depend on the bound.
\<close>

section \<open>Nothing else reports the bound\<close>

definition bound_free :: "'a res \<Rightarrow> bool" where
  "bound_free r \<longleftrightarrow> r \<noteq> Inl NESTING_BOUND"

lemma bound_free_Inr [simp]: "bound_free (Inr x)" "bound_free (Inl TypeError)" "bound_free (failPlan code)" "bound_free (failBatch code)"
  by (simp_all add: bound_free_def NESTING_BOUND_def failPlan_def failBatch_def)

lemma bound_free_rbind [intro!]: "bound_free m \<Longrightarrow> (\<And>x. m = Inr x \<Longrightarrow> bound_free (f x)) \<Longrightarrow> bound_free (rbind m f)"
  by (cases m) (auto simp: bound_free_def)

lemma bound_free_if: "(c \<Longrightarrow> bound_free a) \<Longrightarrow> (\<not> c \<Longrightarrow> bound_free b) \<Longrightarrow> bound_free (if c then a else b)"
  by simp

lemma bound_free_basic [simp]: "bound_free (iterate v)" "bound_free (prop_of k v)" "bound_free (arr_of v)" "bound_free (json_text P v)"
    "bound_free (plan_canonicalId P v)" "bound_free (checkWorkflowPolicy ws mu eg al de)"
  subgoal by (cases v) (simp_all add: bound_free_def NESTING_BOUND_def)
  subgoal by (simp add: prop_of_def)
  subgoal by (cases v) simp_all
  subgoal by (simp add: json_text_def split: option.splits)
  subgoal by (simp add: plan_canonicalId_def)
  subgoal by (simp add: checkWorkflowPolicy_def del: set_map)
  done

lemma bound_free_canonicalValue: "bound_free (canonicalValue v)" "bound_free (canonicalValues vs)" "bound_free (canonicalMembers ps)"
  by (induction v and vs and ps rule: canonicalValue_canonicalValues_canonicalMembers.induct) auto

lemma bound_free_digest [simp]: "bound_free (digestValue P v)" "bound_free (sha256 P v)" "bound_free (planNamespace P outer i)"
proof -
  show d: "bound_free (digestValue P v)" for v by (cases v) (auto simp: digestValue_def)
  show "bound_free (sha256 P v)" using bound_free_canonicalValue(1) by (auto simp: sha256_def canonicalJson_def simp del: canonicalValue.simps split: jsval.splits)
  show "bound_free (planNamespace P outer i)"
    unfolding planNamespace_def Let_def by (rule bound_free_rbind) (auto split: jsval.splits intro!: d)
qed

lemma bound_free_policy [simp]: "bound_free (normalizeWorkflowPolicy P v)"
  by (auto simp: normalizeWorkflowPolicy_def toolList_def Let_def)

lemma bound_free_kind [simp]:
  assumes "\<And>f r. resolveBatch = Some f \<Longrightarrow> bound_free (f r)"
  shows "bound_free (kindFields P resolveBatch source budget)"
proof -
  have "bound_free (assertBatchSwarmDefinition P d)" "bound_free (digestBatchSwarmDefinition P d)" for d
    by (simp_all add: assertBatchSwarmDefinition_def digestBatchSwarmDefinition_def split: list.splits)
  then have b: "bound_free (batchFields P resolveBatch source budget)"
    using assms by (auto simp: batchFields_def split: option.splits)
  have "bound_free (approvalFields P source)" "bound_free (loopFields P source)"
    by (auto simp: approvalFields_def loopFields_def Let_def)
  with b show ?thesis by (auto simp: kindFields_def Let_def)
qed

lemma bound_free_primitive [simp]:
  assumes "\<And>f r. ce_resolveBatch E = Some f \<Longrightarrow> bound_free (f r)"
  shows "bound_free (normalizePrimitive P E source i needs)"
proof -
  have "bound_free (primitiveBase P source i needs budget)" for budget by (auto simp: primitiveBase_def Let_def simp del: set_map)
  then show ?thesis using assms by (auto simp: normalizePrimitive_def Let_def simp del: set_map)
qed

section \<open>The bound is not reached\<close>

definition resolves_only :: "compile_env \<Rightarrow> jsval set \<Rightarrow> bool" where
  "resolves_only E names \<longleftrightarrow> finite names \<and> (\<forall>ref v. ce_resolveWorkflow E ref = Inr v \<longrightarrow> truthy v \<longrightarrow> ref \<in> names)
     \<and> (\<forall>ref. bound_free (ce_resolveWorkflow E ref)) \<and> (\<forall>f ref. ce_resolveBatch E = Some f \<longrightarrow> bound_free (f ref))"

definition remaining :: "jsval set \<Rightarrow> compile_ctx \<Rightarrow> nat" where
  "remaining names C = card (names - set (cx_stack C))"

lemma remaining_less:
  assumes "finite names" "ref \<in> names" "ref \<notin> set (cx_stack C)"
  shows "remaining names (C\<lparr>cx_prefix := pre, cx_stack := cx_stack C @ [ref]\<rparr>) < remaining names C"
proof -
  have "names - set (cx_stack C @ [ref]) \<subset> names - set (cx_stack C)" using assms(2,3) by auto
  then show ?thesis unfolding remaining_def using assms(1) by (simp add: psubset_card_mono)
qed

lemma case_nat_if: "(case j of 0 \<Rightarrow> a | Suc i \<Rightarrow> f i) = (if j = 0 then a else f (j - 1))"
  by (cases j) simp_all

lemma compileTree_fuel:
  "resolves_only E names \<Longrightarrow> remaining names C \<le> n \<Longrightarrow> remaining names C \<le> m \<Longrightarrow>
     compileTree P E n C source nodes = compileTree P E m C source nodes \<and> bound_free (compileTree P E n C source nodes)"
  "resolves_only E names \<Longrightarrow> remaining names C \<le> n \<Longrightarrow> remaining names C \<le> m \<Longrightarrow>
     compileParallel P E n C children nodes = compileParallel P E m C children nodes \<and> bound_free (compileParallel P E n C children nodes)"
  "resolves_only E names \<Longrightarrow> remaining names C \<le> n \<Longrightarrow> remaining names C \<le> m \<Longrightarrow>
     compileSequence P E n C children nodes = compileSequence P E m C children nodes \<and> bound_free (compileSequence P E n C children nodes)"
proof (induction P E n C source nodes and P E n C children nodes and P E n C children nodes
    arbitrary: m and m and m rule: compileTree_compileParallel_compileSequence.induct)
  case (1 P E n C source nodes)
  let ?kind = "own ''kind'' source"
  have prim: "bound_free (normalizePrimitive P E source i (cx_needs C))" for i
    by (rule bound_free_primitive) (use "1.prems"(1) in \<open>auto simp: resolves_only_def\<close>)
  have nested: "compileTree P E (n - 1) D (own ''flow'' v) nodes = compileTree P E (m - 1) D (own ''flow'' v) nodes
      \<and> bound_free (compileTree P E (n - 1) D (own ''flow'' v) nodes) \<and> n \<noteq> 0 \<and> m \<noteq> 0"
    if k: "isObj source" "?kind \<notin> set (map JStr PRIMITIVES)" "?kind = JStr ''workflow''" and r: "ref \<notin> set (cx_stack C)"
      "ce_resolveWorkflow E ref = Inr v" "truthy v" and D: "D = C\<lparr>cx_prefix := pre, cx_stack := cx_stack C @ [ref]\<rparr>" for ref v pre D
  proof -
    have c: "?kind \<in> set (map JStr COMPOSITES)" using k(3) by (simp add: COMPOSITES_def)
    have "ref \<in> names" "finite names" using "1.prems"(1) r(2,3) by (auto simp: resolves_only_def)
    then have less: "remaining names D < remaining names C" unfolding D using remaining_less r(1) by blast
    then obtain n' where n: "n = Suc n'" using "1.prems"(2) by (cases n) auto
    have "remaining names D \<le> n'" "remaining names D \<le> m - 1" using less "1.prems"(2,3) n by linarith+
    with "1.IH"(1) [OF _ refl k(2) _ k(3) r(1) _ n, of v pre "m - 1"] k(1) c r(3) "1.prems"(1)
    have ih: "compileTree P E n' D (own ''flow'' v) nodes = compileTree P E (m - 1) D (own ''flow'' v) nodes
      \<and> bound_free (compileTree P E n' D (own ''flow'' v) nodes)" unfolding D by blast
    have pos: "n - 1 = n'" "n \<noteq> 0" "m \<noteq> 0" using n less "1.prems"(3) by simp_all
    show ?thesis unfolding pos(1) using ih pos(2,3) by blast
  qed
  show ?case
  proof (cases "isObj source \<and> ?kind \<notin> set (map JStr PRIMITIVES) \<and> ?kind \<in> set (map JStr COMPOSITES)")
    case False
    then show ?thesis unfolding compileTree.simps [of P E n C source nodes] compileTree.simps [of P E m C source nodes] using prim
      by (auto simp: Let_def simp del: set_map)
  next
    case True
    then have k: "isObj source" "?kind \<notin> set (map JStr PRIMITIVES)" "?kind \<in> set (map JStr COMPOSITES)" by blast+
    show ?thesis
    proof (cases "?kind = JStr ''workflow''")
      case True
      have e: "compileTree P E j C source nodes = rbind (plan_canonicalId P (own ''workflowRef'' source)) (\<lambda>ref.
          if ref \<in> set (cx_stack C) then failPlan ''WORKFLOW_CYCLE'' else
          rbind (ce_resolveWorkflow E ref) (\<lambda>v.
          if \<not> truthy v then failPlan ''UNKNOWN_WORKFLOW'' else
          rbind (planNamespace P (cx_prefix C) (coalesce (own ''id'' source) ref)) (\<lambda>pre.
          if j = 0 then Inl NESTING_BOUND else
          compileTree P E (j - 1) (C\<lparr>cx_prefix := pre, cx_stack := cx_stack C @ [ref]\<rparr>) (own ''flow'' v) nodes)))" for j
        unfolding compileTree.simps [of P E j C source nodes] case_nat_if using k True by (simp add: Let_def del: set_map)
      have r: "bound_free (ce_resolveWorkflow E ref)" for ref using "1.prems"(1) by (simp add: resolves_only_def)
      have "compileTree P E n C source nodes = compileTree P E m C source nodes"
        unfolding e using nested [OF k(1,2) True _ _ _ refl] by (intro rbind_cong if_cong refl) auto
      moreover have free: "n \<noteq> 0 \<and> bound_free (compileTree P E (n - 1) (C\<lparr>cx_prefix := pre, cx_stack := cx_stack C @ [ref]\<rparr>) (own ''flow'' v) nodes)"
        if "ref \<notin> set (cx_stack C)" "ce_resolveWorkflow E ref = Inr v" "truthy v" for ref v pre
        using nested [OF k(1,2) True that refl] by blast
      moreover have "bound_free (compileTree P E n C source nodes)"
        unfolding e using free r by (intro bound_free_rbind bound_free_if) auto
      ultimately show ?thesis by blast
    next
      case False
      have c: "compileTree P E j C source nodes = (case childrenOf source of
          JArr children \<Rightarrow>
            if children = [] then failPlan ''INVALID_DEFINITION''
            else if ?kind = JStr ''parallel'' then compileParallel P E j C children nodes
            else compileSequence P E j C children nodes
          | _ \<Rightarrow> failPlan ''INVALID_DEFINITION'')" for j
        unfolding compileTree.simps [of P E j C source nodes] using k False by (simp add: Let_def del: set_map)
      show ?thesis
      proof (cases "\<exists>children. childrenOf source = JArr children \<and> children \<noteq> []")
        case True
        then obtain children where ch: "childrenOf source = JArr children" "children \<noteq> []" by blast
        have p: "compileParallel P E n C children nodes = compileParallel P E m C children nodes \<and> bound_free (compileParallel P E n C children nodes)"
          if "?kind = JStr ''parallel''" using "1.IH"(2) [OF _ refl k(2) _ False ch that "1.prems"] k(1,3) by blast
        have s: "compileSequence P E n C children nodes = compileSequence P E m C children nodes \<and> bound_free (compileSequence P E n C children nodes)"
          if "?kind \<noteq> JStr ''parallel''" using "1.IH"(3) [OF _ refl k(2) _ False ch that "1.prems"] k(1,3) by blast
        have e: "compileTree P E j C source nodes = (if ?kind = JStr ''parallel'' then compileParallel P E j C children nodes
            else compileSequence P E j C children nodes)" for j unfolding c using ch by simp
        show ?thesis
        proof (cases "?kind = JStr ''parallel''")
          case True
          show ?thesis unfolding e if_P [OF True] by (rule p [OF True])
        next
          case False
          show ?thesis unfolding e if_not_P [OF False] by (rule s [OF False])
        qed
      next
        case False
        then show ?thesis unfolding c by (auto split: jsval.splits)
      qed
    qed
  qed
next
  case (3 P E n C child rest nodes)
  note c = "3.IH"(1) [OF "3.prems"]
  have r: "compileParallel P E n C rest ns = compileParallel P E m C rest ns \<and> bound_free (compileParallel P E n C rest ns)" for ns
    using "3.IH"(2) "3.prems" by blast
  have f: "bound_free (compileParallel P E m C rest ns)" for ns using r [of ns] by metis
  have e: "compileParallel P E n C rest = compileParallel P E m C rest" using r by blast
  show ?case unfolding compileParallel.simps e using c f by (auto split: prod.splits)
next
  case (5 P E n C child rest nodes)
  note c = "5.IH"(1) [OF "5.prems"]
  have d: "remaining names (C\<lparr>cx_needs := x\<rparr>) = remaining names C" for x by (simp add: remaining_def)
  have r: "compileSequence P E n (C\<lparr>cx_needs := x\<rparr>) rest ns = compileSequence P E m (C\<lparr>cx_needs := x\<rparr>) rest ns
      \<and> bound_free (compileSequence P E n (C\<lparr>cx_needs := x\<rparr>) rest ns)" if "rest \<noteq> []" for ns x
    by (rule "5.IH"(2) [OF that "5.prems"(1)]) (use "5.prems"(2,3) d in simp_all)
  have f: "bound_free (compileSequence P E m (C\<lparr>cx_needs := x\<rparr>) rest ns)" if "rest \<noteq> []" for ns x using r [OF that, of x ns] by metis
  have "compileSequence P E n (C\<lparr>cx_needs := x\<rparr>) rest = compileSequence P E m (C\<lparr>cx_needs := x\<rparr>) rest" if "rest \<noteq> []" for x
    using r [OF that] by blast
  then show ?case using c f by (cases "rest = []") (auto split: prod.splits)
qed auto

end
