(* ===== verification/Plan_Properties.thy ===== *)
theory Plan_Properties
  imports Plan_Termination Json_Reader
begin

text \<open>
  The properties of the plan compiler: which graphs it accepts, the order and depth it computes,
  the termination of nested workflows, the barrier between the steps of a sequence, what a
  compiled plan guarantees, the effective policies, and the difference of two revisions.
\<close>

section \<open>A compiled plan\<close>

lemma integer_budget_canonicalize [simp]: "integer_budget (canonicalize n) = integer_budget n"
  by (simp add: integer_budget_def own_canonicalize)

lemma unsafeReplay_canonicalize [simp]: "unsafeReplay (canonicalize n) = unsafeReplay n"
proof -
  have m: "canonicalize v \<in> JStr ` A \<longleftrightarrow> v \<in> JStr ` A" for v A by (metis (no_types, opaque_lifting) canonicalize_atom(1) image_iff)
  have "list_ex (\<lambda>tool. tool \<in> JStr ` A) (map canonicalize xs) = list_ex (\<lambda>tool. tool \<in> JStr ` A) xs" for A xs
    by (induction xs) (simp_all add: m)
  then show ?thesis by (simp add: unsafeReplay_def allowed_tools_def own_canonicalize items_canonicalize)
qed

lemma plan_fields_own:
  "own ''policy'' (JObj (plan_fields d sd r p pd b ns en t @ [(''planDigest'', h)])) = p"
  "own ''budget'' (JObj (plan_fields d sd r p pd b ns en t @ [(''planDigest'', h)])) = b"
  "own ''nodes'' (JObj (plan_fields d sd r p pd b ns en t @ [(''planDigest'', h)])) = JArr ns"
  by (simp_all add: plan_fields_def)

lemma sortById_set: "sortById P xs = Inr ys \<Longrightarrow> set ys = set xs"
  by (auto simp: sortById_def split: if_splits)

lemma validateWorkflowPlan_Inr: "validateWorkflowPlan P plan = Inr (Inr facts) \<longleftrightarrow> checkWorkflowPlan P plan = Inr facts"
proof (cases "checkWorkflowPlan P plan")
  case (Inl e)
  then show ?thesis by (cases e) (simp_all add: validateWorkflowPlan_def)
qed (simp add: validateWorkflowPlan_def)

lemma checkCompiled_Inr: "checkCompiled P plan = Inr q \<longleftrightarrow> q = plan \<and> (\<exists>facts. checkWorkflowPlan P plan = Inr facts)"
proof -
  have "checkCompiled P plan = Inr q \<longleftrightarrow> q = plan \<and> (\<exists>facts. validateWorkflowPlan P plan = Inr (Inr facts))"
  proof (cases "validateWorkflowPlan P plan")
    case (Inr v)
    then show ?thesis by (cases v) (auto simp: checkCompiled_def)
  qed (simp add: checkCompiled_def)
  then show ?thesis unfolding validateWorkflowPlan_Inr .
qed

lemma compiled_plan_parts:
  assumes "compileWorkflowDefinition P rw rb n d options = Inr plan"
  shows "\<exists>nodes facts w. plan_policy_ok (own ''policy'' plan) \<and> own ''maxWallTimeMs'' (own ''budget'' plan) = jint w \<and> \<bar>w\<bar> \<le> MAX_SAFE_INTEGER
     \<and> list_all primitive_ok nodes \<and> (\<forall>node \<in> set nodes. assertPolicyCovered (own ''policy'' plan) (own ''policy'' node) = Inr ())
     \<and> set (items (own ''nodes'' plan)) = canonicalize ` set nodes \<and> checkWorkflowPlan P plan = Inr facts"
proof -
  from assms obtain budget policy rev compiled where b: "normalizePlanBudget P (own ''budget'' d) = Inr budget"
    and p: "normalizeWorkflowPolicy P (own ''policy'' d) = Inr policy"
    and t: "compileTree P \<lparr>ce_resolveWorkflow = rw, ce_resolveBatch = rb, ce_planBudget = budget\<rparr> n
               \<lparr>cx_prefix = JStr '''', cx_needs = [], cx_stack = [own ''id'' d]\<rparr> (own ''flow'' d) [] = Inr compiled"
    and a: "assemblePlan P d rev policy budget compiled = Inr plan"
    unfolding compileWorkflowDefinition_def plan_inv plan_canonicalId_def by (auto split: if_splits)
  obtain en ex nodes where c: "compiled = (en, ex, nodes)" by (cases compiled)
  from compile_added(1) [OF t [unfolded c]] have prim: "list_all primitive_ok nodes" by (auto simp: added_ok_def)
  from a obtain u where f: "forR (\<lambda>node. assertPolicyCovered policy (own ''policy'' node)) nodes = Inr u"
    unfolding assemblePlan_def c plan_inv prod.case by blast
  from a obtain sd r pd ns en' t' h where s: "sortById P (map canonicalize nodes) = Inr ns"
    and plan: "checkCompiled P (JObj (plan_fields d sd r policy pd budget ns en' t' @ [(''planDigest'', JStr h)])) = Inr plan"
    unfolding assemblePlan_def c plan_inv prod.case by blast
  have v: "own ''policy'' plan = policy" "own ''budget'' plan = budget" "own ''nodes'' plan = JArr ns" "\<exists>facts. checkWorkflowPlan P plan = Inr facts"
    using plan unfolding checkCompiled_Inr by (auto simp del: own.simps simp: plan_fields_own)
  from b have "isSafeInteger (own ''maxWallTimeMs'' budget)" unfolding normalizePlanBudget_def plan_inv by auto
  then show ?thesis using prim f v sortById_set [OF s] normalizeWorkflowPolicy_ok [OF p]
    by (auto simp: isSafeInteger_iff forR_eq_Inr)
qed

lemma valid_plan_chain:
  assumes v: "checkWorkflowPlan P plan = Inr facts" and int: "list_all integer_budget (items (own ''nodes'' plan))"
    and w: "own ''maxWallTimeMs'' (own ''budget'' plan) = jint w" "\<bar>w\<bar> \<le> MAX_SAFE_INTEGER"
    and ch: "chain (index_of (items (own ''nodes'' plan))) xs"
  shows "path_ms (index_of (items (own ''nodes'' plan))) xs \<le> w"
proof -
  from v have f: "graphFacts P (items (own ''nodes'' plan)) = Inr facts"
    and le: "\<not> js_less P (own ''maxWallTimeMs'' (own ''budget'' plan)) (JNum (worstCaseCriticalPathMs P facts))"
    unfolding checkWorkflowPlan_def plan_inv by auto
  note least = chain_within_worst_case [OF f int ch]
  then obtain a where a: "worstCaseCriticalPathMs P facts = Fin a" "a \<le> of_int w"
    using le w(1) unfolding at_least_cases by auto
  have "w < 2 ^ 53" using w(2) by (simp add: MAX_SAFE_INTEGER_def)
  then show ?thesis using at_least_le least a by metis
qed

section \<open>Differences\<close>

lemma index_update:
  "distinct (map (own ''id'') nodes) \<Longrightarrow> set (map (own ''id'') nodes) \<inter> fst ` set m = {} \<Longrightarrow>
     foldl (\<lambda>m node. AList.update (own ''id'' node) node m) m nodes = m @ index_of nodes"
proof (induction nodes arbitrary: m)
  case (Cons n ns)
  have new: "AList.update k v xs = xs @ [(k, v)]" if "k \<notin> fst ` set xs" for k v and xs :: index
    using that by (induction xs) auto
  have "AList.update (own ''id'' n) n m = m @ [(own ''id'' n, n)]" by (rule new) (use Cons.prems in auto)
  moreover have "foldl (\<lambda>m node. AList.update (own ''id'' node) node m) (m @ [(own ''id'' n, n)]) ns = (m @ [(own ''id'' n, n)]) @ index_of ns"
    by (rule Cons.IH) (use Cons.prems in auto)
  ultimately show ?case by (simp add: index_of_def)
qed (simp add: index_of_def)

lemma validated_index:
  assumes "validateWorkflowPlan P plan = Inr (Inr facts)"
  shows "indexById plan = index_of (items (own ''nodes'' plan)) \<and> distinct (map (own ''id'') (items (own ''nodes'' plan)))"
proof -
  from assms have "checkWorkflowPlan P plan = Inr facts" unfolding validateWorkflowPlan_Inr .
  then have "graphFacts P (items (own ''nodes'' plan)) = Inr facts" unfolding checkWorkflowPlan_def plan_inv by auto
  from graphFacts_order [OF this] show ?thesis using index_update [of "items (own ''nodes'' plan)" "[]"] by (simp add: indexById_def)
qed

definition plan_nodes :: "jsval \<Rightarrow> jsval list" where
  "plan_nodes plan = items (own ''nodes'' plan)"

definition same_nodes :: "platform \<Rightarrow> jsval list \<Rightarrow> jsval list \<Rightarrow> bool" where
  "same_nodes P xs ys \<longleftrightarrow> node_id ` set xs = node_id ` set ys
     \<and> (\<forall>x \<in> set xs. \<forall>y \<in> set ys. node_id x = node_id y \<longrightarrow> digestValue P x = digestValue P y)"

lemma js_sort_Nil: "js_sort P xs = [] \<longleftrightarrow> xs = []"
  by (metis set_js_sort set_empty)

lemma changedNodes_Nil:
  assumes "changedNodes P (index_of xs) (index_of ys) = Inr zs" "distinct (map (own ''id'') xs)" "distinct (map (own ''id'') ys)"
  shows "zs = [] \<longleftrightarrow> (\<forall>x \<in> set xs. \<forall>y \<in> set ys. node_id x = node_id y \<longrightarrow> digestValue P x = digestValue P y)"
proof -
  let ?p = "\<lambda>i. case (map_of (index_of xs) i, map_of (index_of ys) i) of
        (Some before, Some after) \<Rightarrow> rbind (digestValue P before) (\<lambda>a. rbind (digestValue P after) (\<lambda>b. Inr (a \<noteq> b)))
      | _ \<Rightarrow> Inr False"
  have z: "filterR ?p (map (own ''id'') ys) = Inr zs" using assms(1) by (simp add: changedNodes_def)
  have pair: "\<exists>b. ?p (node_id y) = Inr b \<and> (b \<longleftrightarrow> digestValue P x \<noteq> digestValue P y)"
    if x0: "x \<in> set xs" and y0: "y \<in> set ys" and xy: "node_id x = node_id y" for x y
  proof -
    have m: "map_of (index_of xs) (node_id y) = Some x" "map_of (index_of ys) (node_id y) = Some y"
      using index_lookup assms(2,3) x0 y0 xy by (auto simp: node_id_def)
    obtain b where "?p (node_id y) = Inr b" using filterR_ok [OF z, of "node_id y"] y0 by (auto simp: node_id_def)
    then show ?thesis using m by (auto simp: rbind_eq_Inr)
  qed
  have "set zs = {} \<longleftrightarrow> (\<forall>i \<in> set (map (own ''id'') ys). ?p i \<noteq> Inr True)" unfolding filterR_set [OF z] by blast
  then have "zs = [] \<longleftrightarrow> (\<forall>y \<in> set ys. ?p (node_id y) \<noteq> Inr True)" unfolding set_empty set_map node_id_def by blast
  also have "\<dots> \<longleftrightarrow> (\<forall>x \<in> set xs. \<forall>y \<in> set ys. node_id x = node_id y \<longrightarrow> digestValue P x = digestValue P y)"
  proof
    assume l: "\<forall>y \<in> set ys. ?p (node_id y) \<noteq> Inr True"
    show "\<forall>x \<in> set xs. \<forall>y \<in> set ys. node_id x = node_id y \<longrightarrow> digestValue P x = digestValue P y"
    proof (intro ballI impI)
      fix x y assume xy: "x \<in> set xs" "y \<in> set ys" "node_id x = node_id y"
      obtain b where b: "?p (node_id y) = Inr b" "b \<longleftrightarrow> digestValue P x \<noteq> digestValue P y" using pair [OF xy] by blast
      then have "\<not> b" using bspec [OF l xy(2)] by (cases b) simp_all
      then show "digestValue P x = digestValue P y" using b(2) by blast
    qed
  next
    assume r: "\<forall>x \<in> set xs. \<forall>y \<in> set ys. node_id x = node_id y \<longrightarrow> digestValue P x = digestValue P y"
    show "\<forall>y \<in> set ys. ?p (node_id y) \<noteq> Inr True"
    proof
      fix y assume y: "y \<in> set ys"
      show "?p (node_id y) \<noteq> Inr True"
      proof (cases "map_of (index_of xs) (node_id y)")
        case (Some x)
        then have x: "x \<in> set xs" "node_id x = node_id y" using index_lookup [OF assms(2)] by (auto simp: node_id_def)
        then show ?thesis using pair [OF x(1) y x(2)] r y by fastforce
      qed simp
    qed
  qed
  finally show ?thesis .
qed

lemma diff_facts:
  assumes "diffWorkflowPlans P a b = Inr d"
  shows "own ''approvalRequired'' d = JBool (\<not> same_nodes P (plan_nodes a) (plan_nodes b))
     \<and> js_eq (own ''parentPlanDigest'' (own ''revision'' b)) (own ''planDigest'' a)
     \<and> set (items (own ''added'' d)) = node_id ` set (plan_nodes b) - node_id ` set (plan_nodes a)
     \<and> set (items (own ''removed'' d)) = node_id ` set (plan_nodes a) - node_id ` set (plan_nodes b)"
proof -
  from assms have "bothValid P a b = Inr ()" unfolding diffWorkflowPlans_def plan_inv by auto
  then obtain va vb where v: "validateWorkflowPlan P a = Inr va" "validateWorkflowPlan P b = Inr vb"
      "(case va of Inl code \<Rightarrow> failPlan code | Inr _ \<Rightarrow> (case vb of Inl code \<Rightarrow> failPlan code | Inr _ \<Rightarrow> Inr ())) = Inr ()"
    unfolding bothValid_def plan_inv by blast
  then obtain fa fb where "validateWorkflowPlan P a = Inr (Inr fa)" "validateWorkflowPlan P b = Inr (Inr fb)"
    by (cases va; cases vb) auto
  note ia = validated_index [OF this(1)] and ib = validated_index [OF this(2)]
  let ?pa = "index_of (plan_nodes a)" and ?pb = "index_of (plan_nodes b)"
  let ?added = "filter (\<lambda>i. map_of ?pa i = None) (map fst ?pb)" and ?removed = "filter (\<lambda>i. map_of ?pb i = None) (map fst ?pa)"
  from assms obtain changed h m e where c: "changedNodes P ?pa ?pb = Inr changed"
    and par: "js_eq (own ''parentPlanDigest'' (own ''revision'' b)) (own ''planDigest'' a)"
    and d: "d = JObj [(''formatVersion'', jint 1), (''previousPlanDigest'', own ''planDigest'' a), (''nextPlanDigest'', own ''planDigest'' b),
       (''added'', JArr (js_sort P ?added)), (''removed'', JArr (js_sort P ?removed)), (''changed'', JArr (js_sort P changed)),
       (''approvalRequired'', JBool (js_sort P ?added \<noteq> [] \<or> js_sort P ?removed \<noteq> [] \<or> js_sort P changed \<noteq> [])),
       (''widensMutation'', m), (''widensEgress'', e), (''diffDigest'', JStr h)]"
    unfolding diffWorkflowPlans_def plan_inv ia [THEN conjunct1] ib [THEN conjunct1] plan_nodes_def by blast
  have ids: "set ?added = node_id ` set (plan_nodes b) - node_id ` set (plan_nodes a)"
    "set ?removed = node_id ` set (plan_nodes a) - node_id ` set (plan_nodes b)"
    by (auto simp: map_of_eq_None_iff index_of_keys node_id_def image_iff)
  have "changed = [] \<longleftrightarrow> (\<forall>x \<in> set (plan_nodes a). \<forall>y \<in> set (plan_nodes b). node_id x = node_id y \<longrightarrow> digestValue P x = digestValue P y)"
    by (rule changedNodes_Nil [OF c]) (use ia ib in \<open>auto simp: plan_nodes_def\<close>)
  moreover have "?added = [] \<and> ?removed = [] \<longleftrightarrow> node_id ` set (plan_nodes a) = node_id ` set (plan_nodes b)"
    using ids by (metis Diff_eq_empty_iff set_empty subset_antisym order_refl)
  ultimately have "(js_sort P ?added \<noteq> [] \<or> js_sort P ?removed \<noteq> [] \<or> js_sort P changed \<noteq> []) \<longleftrightarrow> \<not> same_nodes P (plan_nodes a) (plan_nodes b)"
    unfolding js_sort_Nil same_nodes_def by blast
  then show ?thesis using par ids by (simp add: d)
qed

section \<open>A small workflow\<close>

definition demo_step :: "string \<Rightarrow> jsval" where
  "demo_step name = JObj [(''kind'', JStr ''agent''), (''id'', JStr name), (''agentTemplateRef'', JStr ''scout'')]"

definition demo_steps :: "jsval list" where
  "demo_steps = [demo_step ''scan'', JObj [(''kind'', JStr ''workflow''), (''workflowRef'', JStr ''checks'')]]"

definition demo_checks :: jsval where
  "demo_checks = JObj [(''flow'', JObj [(''kind'', JStr ''parallel''), (''branches'', JArr [demo_step ''lint''])])]"

definition demo_env :: compile_env where
  "demo_env = \<lparr>ce_resolveWorkflow = (\<lambda>ref. Inr (if ref = JStr ''checks'' then demo_checks else JUndef)), ce_resolveBatch = None,
     ce_planBudget = JObj [(''maxWallTimeMs'', jint 3600000), (''maxOutputBytes'', jint 65536)]\<rparr>"

definition demo_ctx :: compile_ctx where
  "demo_ctx = \<lparr>cx_prefix = JStr '''', cx_needs = [], cx_stack = [JStr ''review'']\<rparr>"

definition demo_definition :: "jsval \<Rightarrow> jsval" where
  "demo_definition flow = JObj [(''formatVersion'', jint 2), (''id'', JStr ''review''), (''version'', JStr ''1''), (''flow'', flow)]"

definition demo_compile :: "jsval \<Rightarrow> jsval \<Rightarrow> jsval res" where
  "demo_compile flow revision = compileWorkflowDefinition reference_host (ce_resolveWorkflow demo_env) None 1 (demo_definition flow)
     (JObj [(''revision'', revision)])"

definition demo_flow :: jsval where
  "demo_flow = JObj [(''kind'', JStr ''sequence''), (''steps'', JArr demo_steps)]"

definition demo_plan :: jsval where
  "demo_plan = (case demo_compile demo_flow (JObj []) of Inl e \<Rightarrow> JUndef | Inr plan \<Rightarrow> plan)"

definition demo_revision :: "jsval \<Rightarrow> jsval" where
  "demo_revision plan = JObj [(''number'', jint 1), (''parentPlanDigest'', own ''planDigest'' plan)]"

lemma demo_eval: "case demo_compile demo_flow (JObj []) of Inl e \<Rightarrow> False | Inr plan \<Rightarrow>
    map (own ''id'') (plan_nodes plan) = [JStr ''checks--lint'', JStr ''scan''] \<and> map (own ''needs'') (plan_nodes plan) = [JArr [JStr ''scan''], JArr []]"
  by code_simp

lemma demo_compiled: "demo_compile demo_flow (JObj []) = Inr demo_plan"
  using demo_eval unfolding demo_plan_def by (cases "demo_compile demo_flow (JObj [])") simp_all

lemma demo_nodes: "map (own ''id'') (plan_nodes demo_plan) = [JStr ''checks--lint'', JStr ''scan'']"
    "map (own ''needs'') (plan_nodes demo_plan) = [JArr [JStr ''scan''], JArr []]"
  using demo_eval unfolding demo_compiled by simp_all

text \<open>Two revisions with one node each.\<close>

lemma demo_diff: "case demo_compile (demo_step ''scan'') (JObj []) of Inl e \<Rightarrow> False | Inr plan \<Rightarrow>
    (case demo_compile (demo_step ''lint'') (demo_revision plan) of Inl e \<Rightarrow> False | Inr next_plan \<Rightarrow> \<not> isl (diffWorkflowPlans reference_host plan next_plan))"
  by code_simp

lemma demo_resolves: "resolves_only demo_env {JStr ''checks''}"
  by (simp add: resolves_only_def demo_env_def)

section \<open>Properties\<close>

text \<open>(C28) The graph check accepts a list of nodes exactly when the ids are distinct, every
  dependency is a node of the list, and no node depends on itself through a chain of dependencies.\<close>

theorem graph_accepted_iff_acyclic: "(\<exists>facts. graphFacts P nodes = Inr facts) \<longleftrightarrow> graph_ok nodes"
  using graphFacts_graph_ok graph_ok_graphFacts by blast

text \<open>The order of an accepted graph lists every node once, after everything it depends on, and
  its depth is the length of the longest chain of dependencies.\<close>

theorem graph_order_and_depth:
  assumes "graphFacts P nodes = Inr facts"
  shows "topological (index_of nodes) (pf_order facts) \<and> set (pf_order facts) = node_id ` set nodes
     \<and> (\<exists>xs. chain (index_of nodes) xs \<and> length xs = pf_depth facts) \<and> (\<forall>xs. chain (index_of nodes) xs \<longrightarrow> length xs \<le> pf_depth facts)"
proof -
  have "own ''id'' = node_id" by (rule ext) (simp add: node_id_def)
  then show ?thesis using graphFacts_order [OF assms] pf_depth_longest [OF assms] by simp
qed

lemma demo_checked: "\<exists>facts. checkWorkflowPlan reference_host demo_plan = Inr facts"
  using compiled_plan_parts [OF demo_compiled [unfolded demo_compile_def]] by blast

lemma demo_graph: "\<exists>facts. graphFacts reference_host (plan_nodes demo_plan) = Inr facts"
  using demo_checked unfolding checkWorkflowPlan_def plan_inv plan_nodes_def by blast

theorem graph_order_and_depth_witness:
  "\<exists>facts. graphFacts reference_host (plan_nodes demo_plan) = Inr facts \<and> topological (index_of (plan_nodes demo_plan)) (pf_order facts)"
  using demo_graph graph_order_and_depth by blast

text \<open>(C29) Compilation ends on every definition. When only finitely many workflow names resolve, a
  nesting bound of their number is never reached and every larger bound gives the same result,
  whatever refers to what: the stack refuses a workflow that contains itself.\<close>

theorem nested_workflows_terminate:
  assumes "resolves_only E names" "card names \<le> n" "card names \<le> m"
  shows "compileTree P E n C source nodes \<noteq> Inl NESTING_BOUND
     \<and> compileWorkflowDefinition P (ce_resolveWorkflow E) (ce_resolveBatch E) n d options
       = compileWorkflowDefinition P (ce_resolveWorkflow E) (ce_resolveBatch E) m d options"
proof -
  have fin: "finite names" using assms(1) by (simp add: resolves_only_def)
  have le: "remaining names D \<le> n" "remaining names D \<le> m" for D
    using card_mono [OF fin, of "names - set (cx_stack D)"] assms(2,3) by (auto simp: remaining_def)
  have E: "resolves_only (E\<lparr>ce_planBudget := b\<rparr>) names" for b using assms(1) by (simp add: resolves_only_def)
  have e: "compileTree P \<lparr>ce_resolveWorkflow = ce_resolveWorkflow E, ce_resolveBatch = ce_resolveBatch E, ce_planBudget = b\<rparr> n D s ns
      = compileTree P \<lparr>ce_resolveWorkflow = ce_resolveWorkflow E, ce_resolveBatch = ce_resolveBatch E, ce_planBudget = b\<rparr> m D s ns" for b D s ns
    using compileTree_fuel(1) [OF E [of b] le] by (cases E) simp
  have "bound_free (compileTree P E n C source nodes)" using compileTree_fuel(1) [OF assms(1) le] by blast
  then show ?thesis unfolding compileWorkflowDefinition_def e by (simp add: bound_free_def)
qed

theorem nested_workflows_terminate_witness:
  "compileTree reference_host demo_env 1 demo_ctx (JArr []) [] \<noteq> Inl NESTING_BOUND
     \<and> compileWorkflowDefinition reference_host (ce_resolveWorkflow demo_env) (ce_resolveBatch demo_env) 1 (demo_definition demo_flow) JUndef
       = compileWorkflowDefinition reference_host (ce_resolveWorkflow demo_env) (ce_resolveBatch demo_env) 7 (demo_definition demo_flow) JUndef"
  by (rule nested_workflows_terminate [OF demo_resolves]) simp_all

text \<open>Steps run in order: every node compiled from the later steps of a sequence depends,
  directly or through other nodes, on every node compiled from the step before.\<close>

theorem later_steps_wait:
  assumes "compileSequence P E n C (step # steps) nodes = Inr (entryIds, exits, nodes')" "steps \<noteq> []"
  shows "\<exists>stepExits laterEntries before later. compileTree P E n C step nodes = Inr (entryIds, stepExits, nodes @ before)
     \<and> compileSequence P E n (C\<lparr>cx_needs := stepExits\<rparr>) steps (nodes @ before) = Inr (laterEntries, exits, nodes @ before @ later)
     \<and> nodes' = nodes @ before @ later \<and> before \<noteq> [] \<and> later \<noteq> []
     \<and> (\<forall>x \<in> set later. \<forall>y \<in> set before. (node_id x, node_id y) \<in> (waits_for (before @ later))\<^sup>+)"
proof -
  from assms obtain stepExits n1 laterEntries where c: "compileTree P E n C step nodes = Inr (entryIds, stepExits, n1)"
    "compileSequence P E n (C\<lparr>cx_needs := stepExits\<rparr>) steps n1 = Inr (laterEntries, exits, nodes')" by (auto simp: plan_inv)
  from compile_added(1) [OF c(1)] obtain before where b: "n1 = nodes @ before" "before \<noteq> []" "added_ok C stepExits before" by blast
  from compile_added(3) [OF c(2)] assms(2) obtain later where l: "nodes' = n1 @ later" "later \<noteq> []" "added_ok (C\<lparr>cx_needs := stepExits\<rparr>) exits later" by blast
  show ?thesis using c b(1,2) l(1,2) barrier [OF b(3) l(3)] by (intro exI [of _ stepExits] exI [of _ laterEntries] exI [of _ before] exI [of _ later]) simp
qed

theorem later_steps_wait_witness:
  "\<exists>entryIds exits nodes' before later. compileSequence reference_host demo_env 1 demo_ctx demo_steps [] = Inr (entryIds, exits, nodes')
     \<and> nodes' = before @ later \<and> before \<noteq> [] \<and> later \<noteq> []
     \<and> (\<forall>x \<in> set later. \<forall>y \<in> set before. (node_id x, node_id y) \<in> (waits_for (before @ later))\<^sup>+)"
proof -
  have "\<not> isl (compileSequence reference_host demo_env 1 demo_ctx demo_steps [])" by code_simp
  then obtain r where "compileSequence reference_host demo_env 1 demo_ctx demo_steps [] = Inr r"
    by (cases "compileSequence reference_host demo_env 1 demo_ctx demo_steps []") simp_all
  moreover obtain entryIds exits nodes' where "r = (entryIds, exits, nodes')" by (cases r)
  ultimately have s: "compileSequence reference_host demo_env 1 demo_ctx (demo_step ''scan'' # tl demo_steps) [] = Inr (entryIds, exits, nodes')"
    by (simp add: demo_steps_def)
  have "demo_steps = demo_step ''scan'' # tl demo_steps" "tl demo_steps \<noteq> []" by (simp_all add: demo_steps_def)
  then show ?thesis using s later_steps_wait [OF s] unfolding append_Nil by metis
qed

text \<open>(C30) A plan the compiler returns is a valid plan, and each of its nodes is a primitive whose
  policy is within the policy of the plan and which is safe to replay: it does not mutate, or it
  is idempotent, or its result is never cached.\<close>

theorem compiled_plan_is_safe:
  assumes "compileWorkflowDefinition P resolveWorkflow resolveBatch n d options = Inr plan"
  shows "(\<exists>facts. validateWorkflowPlan P plan = Inr (Inr facts))
     \<and> (\<forall>node \<in> set (plan_nodes plan). own ''kind'' node \<in> JStr ` set PRIMITIVES
          \<and> plan_within (own ''policy'' node) (own ''policy'' plan) \<and> \<not> unsafeReplay node)"
proof -
  from compiled_plan_parts [OF assms] obtain nodes facts where p: "plan_policy_ok (own ''policy'' plan)" "list_all primitive_ok nodes"
    "\<forall>node \<in> set nodes. assertPolicyCovered (own ''policy'' plan) (own ''policy'' node) = Inr ()"
    "set (plan_nodes plan) = canonicalize ` set nodes" "checkWorkflowPlan P plan = Inr facts" unfolding plan_nodes_def by blast
  have "own ''kind'' node \<in> JStr ` set PRIMITIVES \<and> plan_within (own ''policy'' node) (own ''policy'' plan) \<and> \<not> unsafeReplay node"
    if node: "node \<in> set (plan_nodes plan)" for node
  proof -
    obtain n where n: "n \<in> set nodes" "node = canonicalize n" using node p(4) by blast
    then have ok: "primitive_ok n" using p(2) by (simp add: list_all_iff)
    have "plan_within (own ''policy'' n) (own ''policy'' plan)"
      by (rule covered_within [OF p(1)]) (use ok p(3) n in \<open>auto simp: primitive_ok_def\<close>)
    then show ?thesis using ok by (auto simp: n(2) primitive_ok_def own_canonicalize)
  qed
  then show ?thesis using p(5) by (auto simp: validateWorkflowPlan_Inr)
qed

theorem compiled_plan_is_safe_witness:
  "\<exists>facts. validateWorkflowPlan reference_host demo_plan = Inr (Inr facts)"
  using compiled_plan_is_safe [OF demo_compiled [unfolded demo_compile_def]] by blast

text \<open>(C31) A compiled plan meets its deadline in the worst case: along any chain of dependencies the
  timeouts of the nodes times their attempts, added exactly, stay within \<open>maxWallTimeMs\<close>, although
  the check itself computes in rounded numbers.\<close>

theorem compiled_plan_meets_deadline:
  assumes "compileWorkflowDefinition P resolveWorkflow resolveBatch n d options = Inr plan" "chain (index_of (plan_nodes plan)) xs"
  shows "\<exists>w. own ''maxWallTimeMs'' (own ''budget'' plan) = jint w \<and> path_ms (index_of (plan_nodes plan)) xs \<le> w"
proof -
  from compiled_plan_parts [OF assms(1)] obtain nodes facts w where p: "own ''maxWallTimeMs'' (own ''budget'' plan) = jint w" "\<bar>w\<bar> \<le> MAX_SAFE_INTEGER"
    "list_all primitive_ok nodes" "set (plan_nodes plan) = canonicalize ` set nodes" "checkWorkflowPlan P plan = Inr facts"
    unfolding plan_nodes_def by blast
  have "list_all integer_budget (plan_nodes plan)" using p(3,4) by (auto simp: list_all_iff primitive_ok_def)
  from valid_plan_chain [OF p(5) this [unfolded plan_nodes_def] p(1,2)] show ?thesis using p(1) assms(2) by (simp add: plan_nodes_def)
qed

theorem compiled_plan_meets_deadline_witness:
  "\<exists>w. own ''maxWallTimeMs'' (own ''budget'' demo_plan) = jint w \<and> path_ms (index_of (plan_nodes demo_plan)) [JStr ''checks--lint'', JStr ''scan''] \<le> w"
proof (rule compiled_plan_meets_deadline [OF demo_compiled [unfolded demo_compile_def]])
  obtain a c where "plan_nodes demo_plan = [a, c]" "own ''id'' a = JStr ''checks--lint''" "own ''id'' c = JStr ''scan''"
    "own ''needs'' a = JArr [JStr ''scan'']" using demo_nodes by (auto simp: map_eq_Cons_conv)
  then show "chain (index_of (plan_nodes demo_plan)) [JStr ''checks--lint'', JStr ''scan'']"
    by (auto simp: chain_def index_of_def edges_def dependencies_def)
qed

text \<open>(C32) The policy a node runs under is within the policy of the plan and within the node's own:
  no wider workspace, no wider egress, no mutation that either forbids. It allows no tool that
  either denies, and no mutating tool when it does not mutate.\<close>

theorem effective_policy_narrows:
  assumes "effectiveWorkflowPolicyEnvelope P plan = Inr envelope"
  shows "\<exists>outer. completePolicy P (own ''policy'' plan) = Inr outer
     \<and> (\<forall>node \<in> set (plan_nodes plan). \<exists>entry \<in> set (plan_nodes envelope). envelope_entry_ok P outer node entry)
     \<and> (\<forall>entry \<in> set (plan_nodes envelope). \<exists>node \<in> set (plan_nodes plan). envelope_entry_ok P outer node entry)"
  using envelope_facts [OF assms] unfolding plan_nodes_def by blast

theorem effective_policy_narrows_witness:
  "\<exists>envelope outer. effectiveWorkflowPolicyEnvelope reference_host demo_plan = Inr envelope
     \<and> (\<forall>entry \<in> set (plan_nodes envelope). \<exists>node \<in> set (plan_nodes demo_plan). envelope_entry_ok reference_host outer node entry)"
proof -
  obtain envelope where "effectiveWorkflowPolicyEnvelope reference_host demo_plan = Inr envelope"
    using demo_checked unfolding checkWorkflowPlan_def plan_inv by blast
  then show ?thesis using effective_policy_narrows by blast
qed

text \<open>The difference of two valid revisions asks for approval exactly when the two plans do not
  have the same nodes with the same digests; it names every added and every removed node, and it
  exists only for a plan whose parent digest is the digest of the plan before.\<close>

theorem diff_reports_every_change:
  assumes "diffWorkflowPlans P a b = Inr d"
  shows "own ''approvalRequired'' d = JBool (\<not> same_nodes P (plan_nodes a) (plan_nodes b))
     \<and> js_eq (own ''parentPlanDigest'' (own ''revision'' b)) (own ''planDigest'' a)
     \<and> set (items (own ''added'' d)) = node_id ` set (plan_nodes b) - node_id ` set (plan_nodes a)
     \<and> set (items (own ''removed'' d)) = node_id ` set (plan_nodes a) - node_id ` set (plan_nodes b)"
  using diff_facts [OF assms] .

theorem diff_reports_every_change_witness:
  "\<exists>plan next_plan d. diffWorkflowPlans reference_host plan next_plan = Inr d
     \<and> own ''approvalRequired'' d = JBool (\<not> same_nodes reference_host (plan_nodes plan) (plan_nodes next_plan))"
proof -
  obtain plan next_plan where "\<not> isl (diffWorkflowPlans reference_host plan next_plan)" using demo_diff by (auto split: sum.splits)
  then obtain d where "diffWorkflowPlans reference_host plan next_plan = Inr d"
    by (cases "diffWorkflowPlans reference_host plan next_plan") simp_all
  then show ?thesis using diff_reports_every_change by blast
qed

end
