(* ===== verification/Approval_Properties.thy ===== *)
theory Approval_Properties
  imports Approval_Receipt Plan_Properties
begin

text \<open>
  Approval receipts: an accepted receipt is bound to one valid plan, its revision, its effective
  policy and budget and to the evidence of the repository and of the capabilities; a receipt for a
  read-only scope is only accepted for a plan none of whose nodes can mutate, and one for a guarded
  scope only with writer claims inside its allowed paths.
\<close>

lemma reject_neq [simp]: "reject c = Inr (Inr v) \<longleftrightarrow> False"
  by (simp add: reject_def)

lemma if_reject_eq_Inr [simp]: "((if c then reject e else r) = Inr (Inr v)) \<longleftrightarrow> \<not> c \<and> r = Inr (Inr v)"
  by simp

lemmas approval_inv = rbind_eq_Inr if_reject_eq_Inr Let_def

section \<open>What an accepted receipt binds\<close>

definition receipt_bound :: "platform \<Rightarrow> jsval \<Rightarrow> jsval \<Rightarrow> approval_context \<Rightarrow> bool" where
  "receipt_bound P receipt plan C \<longleftrightarrow>
     (\<exists>i. approvalReceiptId P receipt = Inr i \<and> own ''receiptId'' receipt = JStr i)
     \<and> js_eq (own ''planDigest'' receipt) (own ''planDigest'' plan)
     \<and> js_eq (own ''parentRevisionDigest'' receipt) (own ''parentPlanDigest'' (own ''revision'' plan))
     \<and> js_eq (own ''approvedPlanRevision'' receipt) (own ''number'' (own ''revision'' plan))
     \<and> (\<exists>h. digestWorkflowPolicyEnvelope P plan = Inr h \<and> own ''effectivePolicyHash'' receipt = JStr h)
     \<and> (\<exists>h. digestValue P (own ''budget'' plan) = Inr h \<and> own ''budgetEnvelopeHash'' receipt = JStr h)
     \<and> (\<exists>t. canonicalJson P (own ''repo'' receipt) = Inr t \<and> canonicalJson P (ac_repo C) = Inr t)
     \<and> js_eq (own ''capabilityEnvelopeHash'' receipt) (ac_capability C)
     \<and> js_eq (own ''executionEnvelopeDigest'' receipt) (ac_execution C)
     \<and> (\<exists>required t. (if nullish (ac_scope C) then defaultScope P plan else Inr (ac_scope C)) = Inr required
          \<and> canonicalJson P (own ''scope'' receipt) = Inr t \<and> canonicalJson P required = Inr t)"

lemma accepted_context:
  assumes "approvalContextCheck P receipt plan C = Inr (Inr v)"
  shows "(\<exists>t. canonicalJson P (own ''repo'' receipt) = Inr t \<and> canonicalJson P (ac_repo C) = Inr t)
     \<and> js_eq (own ''capabilityEnvelopeHash'' receipt) (ac_capability C)
     \<and> js_eq (own ''executionEnvelopeDigest'' receipt) (ac_execution C)
     \<and> (\<exists>required t. (if nullish (ac_scope C) then defaultScope P plan else Inr (ac_scope C)) = Inr required
          \<and> canonicalJson P (own ''scope'' receipt) = Inr t \<and> canonicalJson P required = Inr t)
     \<and> v = own ''receiptId'' receipt"
  using assms unfolding approvalContextCheck_def approval_inv not_not by auto

lemma accepted_plan:
  assumes "approvalPlanCheck P receipt plan C = Inr (Inr v)"
  shows "receipt_bound P receipt plan C \<and> v = own ''receiptId'' receipt"
proof -
  from assms have c: "approvalContextCheck P receipt plan C = Inr (Inr v)" unfolding approvalPlanCheck_def approval_inv by blast
  from assms show ?thesis using accepted_context [OF c] unfolding approvalPlanCheck_def approval_inv receipt_bound_def de_Morgan_disj not_not
    by (elim exE conjE) (intro conjI exI; assumption)
qed

lemma accepted_parts:
  assumes "validateApprovalReceipt P receipt plan C = Inr (Inr v)"
  shows "(\<exists>facts. validateWorkflowPlan P plan = Inr (Inr facts)) \<and> receiptShapeOk receipt \<and> repoShapeOk P (own ''repo'' receipt)
     \<and> scopeShapeOk P (own ''scope'' receipt) \<and> approvalReceiptSemanticFindings P receipt = Inr []
     \<and> approvalPaths (own ''writerClaims'' (own ''repo'' receipt)) = Inr True
     \<and> planScopeDrift P plan (own ''scope'' receipt) = Inr False \<and> approvalPlanCheck P receipt plan C = Inr (Inr v)"
proof -
  from assms obtain checked b1 b2 where a: "validateWorkflowPlan P plan = Inr checked" "\<not> isl checked" "receiptShapeOk receipt" "repoShapeOk P (own ''repo'' receipt)"
      "scopeShapeOk P (own ''scope'' receipt)" "approvalReceiptSemanticFindings P receipt = Inr []"
      "(if b1 then approvalPaths (own ''writerClaims'' (own ''repo'' receipt)) else Inr False) = Inr True"
      "planScopeDrift P plan (own ''scope'' receipt) = Inr b2" "\<not> b2" "approvalValueCheck P receipt plan C = Inr (Inr v)"
    unfolding validateApprovalReceipt_def approval_inv not_not by auto
  then show ?thesis by (cases checked) (auto simp: approvalValueCheck_def split: if_splits)
qed

section \<open>Scope and claims\<close>

lemma findings_none:
  assumes "approvalReceiptSemanticFindings P receipt = Inr []" "pathEntries (own ''writerClaims'' (own ''repo'' receipt))"
    "pathEntries (own ''allowedPaths'' (own ''repo'' receipt))"
  shows "(own ''mutation'' (own ''scope'' receipt) = JStr ''none'' \<longrightarrow> items (own ''writerClaims'' (own ''repo'' receipt)) = [] \<and> own ''delivery'' (own ''scope'' receipt) = JStr ''local'')
     \<and> (own ''mutation'' (own ''scope'' receipt) = JStr ''guarded'' \<longrightarrow> items (own ''writerClaims'' (own ''repo'' receipt)) \<noteq> [])
     \<and> (\<forall>c \<in> set (items (own ''writerClaims'' (own ''repo'' receipt))). pathClaimCovered c (own ''allowedPaths'' (own ''repo'' receipt)) = Inr True)"
proof -
  let ?repo = "own ''repo'' receipt"
  obtain claims where c: "own ''writerClaims'' ?repo = JArr claims" using assms(2) by (auto simp: pathEntries_def split: jsval.splits)
  obtain allowed where al: "own ''allowedPaths'' ?repo = JArr allowed" using assms(3) by (auto simp: pathEntries_def split: jsval.splits)
  have len: "js_less P (jint 0) (lengthOf (JArr claims)) \<longleftrightarrow> claims \<noteq> []" "js_eq (lengthOf (JArr claims)) (jint 0) \<longleftrightarrow> claims = []"
    by (auto simp: lengthOf_def)
  from assms(1) obtain outside where o': "claimFindings ?repo = Inr outside" "outside = []"
    and f: "\<not> (own ''mutation'' (own ''scope'' receipt) = JStr ''guarded'' \<and> claims = [])"
      "\<not> (own ''mutation'' (own ''scope'' receipt) = JStr ''none'' \<and> claims \<noteq> [])"
      "\<not> (own ''mutation'' (own ''scope'' receipt) = JStr ''none'' \<and> own ''delivery'' (own ''scope'' receipt) \<noteq> JStr ''local'')"
    unfolding approvalReceiptSemanticFindings_def approval_inv c len by (auto split: if_splits)
  from o' obtain covered where m: "mapR (\<lambda>claim. pathClaimCovered claim (JArr allowed)) claims = Inr covered" "filter Not covered = []"
    by (auto simp: claimFindings_def approval_inv c al)
  have "pathClaimCovered x (JArr allowed) = Inr True" if x: "x \<in> set claims" for x
  proof -
    obtain y where "y \<in> set covered" "pathClaimCovered x (JArr allowed) = Inr y" using mapR_member_in [OF m(1) x] by blast
    then show ?thesis using m(2) by (auto simp: filter_empty_conv)
  qed
  then show ?thesis using f by (auto simp: c al)
qed

text \<open>A plan whose required scope is read-only has no node that may mutate.\<close>

lemma required_scope:
  assumes "defaultScope P plan = Inr required" "own ''mutation'' required \<noteq> JStr ''guarded''" "effectiveWorkflowPolicyEnvelope P plan = Inr envelope"
    "entry \<in> set (plan_nodes envelope)"
  shows "own ''mutation'' (own ''policy'' entry) \<noteq> JStr ''guarded''"
  using assms by (auto simp: defaultScope_def approval_inv plan_nodes_def list_ex_iff split: if_splits)

lemma effective_mutation:
  assumes "effectiveWorkflowPolicyEnvelope P plan = Inr envelope" "entry \<in> set (plan_nodes envelope)"
  shows "own ''mutation'' (own ''policy'' entry) \<in> {JStr ''none'', JStr ''guarded''}"
proof -
  from assms(1) obtain outer entries sorted where m: "mapR (envelopeNode P outer) (items (own ''nodes'' plan)) = Inr entries" and s: "sortById P entries = Inr sorted"
    and env: "envelope = canonicalize (JObj [(''root'', outer), (''nodes'', JArr sorted)])"
    unfolding effectiveWorkflowPolicyEnvelope_def plan_inv by blast
  from assms(2) obtain e where e: "e \<in> set entries" "entry = canonicalize e"
    using sortById_set [OF s] by (auto simp: env plan_nodes_def own_canonicalize items_canonicalize simp del: canonicalize.simps)
  then obtain node where "envelopeNode P outer node = Inr e" using mapR_member [OF m] by blast
  then obtain c where c: "own ''policy'' e = effectiveNodePolicy P outer c" unfolding envelopeNode_def plan_inv by auto
  have "own ''mutation'' (own ''policy'' e) \<in> {JStr ''none'', JStr ''guarded''}"
    unfolding c by (simp add: effectiveNodePolicy_def Let_def own_canonicalize)
  then show ?thesis unfolding e(2) own_canonicalize insert_iff canonicalize_atom empty_iff .
qed

lemma paths_disjoint:
  "overlapIn xs = Inr False \<Longrightarrow> list_all pathEntry xs \<Longrightarrow> i < j \<Longrightarrow> j < length xs \<Longrightarrow> xs ! i = JStr a \<Longrightarrow> xs ! j = JStr b \<Longrightarrow>
     \<not> paths_overlap (strip_slash a) (strip_slash b)"
proof (induction xs arbitrary: i j)
  case (Cons x xs)
  have later: "overlapsLater p ys = Inr False \<Longrightarrow> JStr q \<in> set ys \<Longrightarrow> \<not> paths_overlap p (strip_slash q)" for p q ys
    by (induction ys) (auto simp: rbind_eq_Inr normalizedPath_def split: if_splits jsval.splits)
  from Cons.prems(1) obtain p where p: "normalizedPath x = Inr p" "overlapsLater p xs = Inr False" "overlapIn xs = Inr False"
    by (auto simp: approval_inv split: if_splits)
  show ?case
  proof (cases i)
    case 0
    then have "p = strip_slash a" "JStr b \<in> set xs" using Cons.prems p(1) by (auto simp: normalizedPath_def nth_Cons' in_set_conv_nth intro!: exI [of _ "j - 1"])
    then show ?thesis using later p(2) by blast
  next
    case (Suc k)
    then show ?thesis using Cons.IH [OF p(3), of k "j - 1"] Cons.prems by (cases j) auto
  qed
qed simp

section \<open>Properties\<close>

text \<open>(C35) An accepted approval receipt belongs to this plan as it is: the plan validates, the receipt
  names its digest, parent and revision, carries the digests of its effective policy and of its
  budget, was made for the repository, capability and execution evidence of the verifier and for
  the scope it expects, and its id is the digest of all its other fields.\<close>

theorem accepted_receipt_binds_plan:
  assumes "validateApprovalReceipt P receipt plan C = Inr (Inr i)"
  shows "(\<exists>facts. validateWorkflowPlan P plan = Inr (Inr facts)) \<and> receipt_bound P receipt plan C \<and> i = own ''receiptId'' receipt"
proof -
  note parts = accepted_parts [OF assms]
  then have "approvalPlanCheck P receipt plan C = Inr (Inr i)" by blast
  from accepted_plan [OF this] parts show ?thesis by blast
qed

text \<open>(C36) What an accepted receipt says about mutation is true of the plan. If it approves no mutation,
  then no node of the plan mutates or is allowed a mutating tool under its effective policy, and
  there are no writer claims and nothing is delivered. If it approves guarded mutation, there are
  writer claims. Every claim is inside an allowed path and no two claims overlap.\<close>

theorem receipt_limits_mutation:
  assumes "validateApprovalReceipt P receipt plan C = Inr (Inr i)"
  defines "claims \<equiv> items (own ''writerClaims'' (own ''repo'' receipt))"
  shows "(\<exists>envelope. effectiveWorkflowPolicyEnvelope P plan = Inr envelope
       \<and> (own ''mutation'' (own ''scope'' receipt) = JStr ''none'' \<longrightarrow> claims = [] \<and> own ''delivery'' (own ''scope'' receipt) = JStr ''local''
            \<and> (\<forall>entry \<in> set (plan_nodes envelope). own ''mutation'' (own ''policy'' entry) = JStr ''none''
                 \<and> (\<forall>tool \<in> set PLAN_MUTATING_TOOLS. \<not> allows (own ''policy'' entry) tool))))
     \<and> (own ''mutation'' (own ''scope'' receipt) = JStr ''guarded'' \<longrightarrow> claims \<noteq> [])
     \<and> (\<forall>claim \<in> set claims. pathClaimCovered claim (own ''allowedPaths'' (own ''repo'' receipt)) = Inr True)
     \<and> (\<forall>k j a b. k < j \<longrightarrow> j < length claims \<longrightarrow> claims ! k = JStr a \<longrightarrow> claims ! j = JStr b \<longrightarrow> \<not> paths_overlap (strip_slash a) (strip_slash b))"
proof -
  note parts = accepted_parts [OF assms(1)]
  have shape: "pathEntries (own ''writerClaims'' (own ''repo'' receipt))" "pathEntries (own ''allowedPaths'' (own ''repo'' receipt))"
    using parts by (simp_all add: repoShapeOk_def)
  have findings: "approvalReceiptSemanticFindings P receipt = Inr []" using parts by blast
  note f = findings_none [OF findings shape]
  obtain cs where cs: "own ''writerClaims'' (own ''repo'' receipt) = JArr cs" "list_all pathEntry cs"
    using shape(1) by (auto simp: pathEntries_def split: jsval.splits)
  have "overlapIn cs = Inr False" using parts cs by (auto simp: approvalPaths_def pathPrefixOverlap_def approval_inv split: if_splits)
  then have disj: "\<forall>k j a b. k < j \<longrightarrow> j < length claims \<longrightarrow> claims ! k = JStr a \<longrightarrow> claims ! j = JStr b \<longrightarrow> \<not> paths_overlap (strip_slash a) (strip_slash b)"
    using paths_disjoint [OF _ cs(2)] by (simp add: claims_def cs(1))
  from parts obtain required where req: "defaultScope P plan = Inr required" "own ''mutation'' (own ''scope'' receipt) = own ''mutation'' required"
    by (auto simp: planScopeDrift_def approval_inv js_eq_def)
  then obtain envelope where e: "effectiveWorkflowPolicyEnvelope P plan = Inr envelope" by (auto simp: defaultScope_def approval_inv)
  have read: "own ''mutation'' (own ''policy'' entry) = JStr ''none'' \<and> (\<forall>tool \<in> set PLAN_MUTATING_TOOLS. \<not> allows (own ''policy'' entry) tool)"
    if m: "own ''mutation'' (own ''scope'' receipt) = JStr ''none''" and entry: "entry \<in> set (plan_nodes envelope)" for entry
  proof -
    have none: "own ''mutation'' (own ''policy'' entry) = JStr ''none''"
      using required_scope [OF req(1) _ e entry] effective_mutation [OF e entry] m req(2) by auto
    from envelope_facts [OF e] entry obtain outer node where "envelope_entry_ok P outer node entry" unfolding plan_nodes_def by blast
    then show ?thesis using none by (auto simp: envelope_entry_ok_def Let_def)
  qed
  show ?thesis using f disj e read unfolding claims_def by blast
qed

text \<open>A plan with one checkpoint and a receipt for it, for the witnesses.\<close>

definition demo_sha :: jsval where
  "demo_sha = JStr (''sha256:'' @ replicate 64 (CHR ''0''))"

definition demo_policy :: jsval where
  "demo_policy = workflow_policy (JStr ''shared-read-only'') (JStr ''none'') (JStr ''deny'') (JStr ''deny'') (JStr ''deny'') [] []"

definition demo_approved_plan :: jsval where
  "demo_approved_plan = JObj [(''formatVersion'', jint 1), (''id'', JStr ''p''), (''revision'', JObj [(''number'', jint 0), (''parentPlanDigest'', JNull)]),
     (''policy'', demo_policy),
     (''budget'', JObj [(''maxNodes'', jint 1), (''maxParallel'', jint 1), (''maxDepth'', jint 1), (''maxAttemptsPerNode'', jint 1), (''maxWallTimeMs'', jint 9), (''maxAssignments'', jint 1)]),
     (''nodes'', JArr [JObj [(''id'', JStr ''n''), (''kind'', JStr ''checkpoint''), (''needs'', JArr []), (''policy'', demo_policy),
        (''budget'', JObj [(''maxAttempts'', jint 1), (''timeoutMs'', jint 9)])]]),
     (''terminalNodeId'', JStr ''n''), (''planDigest'', demo_sha)]"

definition demo_repo :: jsval where
  "demo_repo = JObj [(''identity'', JStr ''r''), (''baseCommit'', JStr (replicate 40 (CHR ''a''))), (''allowedPaths'', JArr []), (''writerClaims'', JArr [])]"

definition demo_scope :: jsval where
  "demo_scope = JObj [(''mutation'', JStr ''none''), (''integration'', JStr ''none''), (''delivery'', JStr ''local''), (''maxAssignments'', jint 1), (''maxActiveChildren'', jint 1)]"

definition demo_receipt :: jsval where
  "demo_receipt = JObj (receipt_fields demo_approved_plan demo_repo (''sha256:'' @ replicate 64 (CHR ''0'')) demo_sha demo_sha (''sha256:'' @ replicate 64 (CHR ''0''))
     demo_scope (JStr ''interactive-user'') (JStr ''2026-01-01T00:00:00Z'') JNull @ [(''receiptId'', demo_sha)])"

definition demo_context :: approval_context where
  "demo_context = \<lparr>ac_repo = demo_repo, ac_capability = demo_sha, ac_execution = demo_sha, ac_scope = JUndef\<rparr>"

text \<open>The reference host with a calendar that knows the date of the receipt.\<close>

definition demo_host :: platform where
  "demo_host = reference_host\<lparr>date_parse := (\<lambda>_. Fin 0)\<rparr>"

lemma demo_verdict_1: "case validateWorkflowPlan demo_host demo_approved_plan of Inl e \<Rightarrow> False | Inr v \<Rightarrow> \<not> isl v"
  by code_simp

lemma demo_verdict_2: "receiptShapeOk demo_receipt"
  by code_simp

lemma demo_verdict_3: "repoShapeOk demo_host demo_repo"
  by code_simp

lemma demo_verdict_4: "scopeShapeOk demo_host demo_scope"
  by code_simp

lemma demo_verdict_5: "approvalReceiptSemanticFindings demo_host demo_receipt = Inr []"
  by code_simp

lemma demo_verdict_6: "planScopeDrift demo_host demo_approved_plan demo_scope = Inr False"
  by code_simp

lemma demo_verdict_7: "case approvalValueCheck demo_host demo_receipt demo_approved_plan demo_context of Inl e \<Rightarrow> False | Inr v \<Rightarrow> \<not> isl v"
  by code_simp

lemmas demo_verdicts = demo_verdict_1 demo_verdict_2 demo_verdict_3 demo_verdict_4 demo_verdict_5 demo_verdict_6 demo_verdict_7

lemma demo_accepted: "\<exists>i. validateApprovalReceipt demo_host demo_receipt demo_approved_plan demo_context = Inr (Inr i)"
proof -
  obtain v where v: "validateWorkflowPlan demo_host demo_approved_plan = Inr v" "\<not> isl v" using demo_verdicts(1) by (auto split: sum.splits)
  obtain w where w: "approvalValueCheck demo_host demo_receipt demo_approved_plan demo_context = Inr w" "\<not> isl w"
    using demo_verdicts(7) by (auto split: sum.splits)
  have fields: "own ''repo'' demo_receipt = demo_repo" "own ''scope'' demo_receipt = demo_scope"
    by (simp_all add: demo_receipt_def receipt_fields_def)
  have paths: "approvalPaths (own ''allowedPaths'' demo_repo) = Inr True" "approvalPaths (own ''writerClaims'' demo_repo) = Inr True"
    by (simp_all add: demo_repo_def approvalPaths_def pathEntries_def pathPrefixOverlap_def)
  have "validateApprovalReceipt demo_host demo_receipt demo_approved_plan demo_context = Inr w"
    unfolding validateApprovalReceipt_def v(1) rbind_simps fields demo_verdicts(5,6) paths using v(2) demo_verdicts(2,3,4) w(1) by simp
  then show ?thesis using w(2) by (cases w) auto
qed

theorem accepted_receipt_binds_plan_witness: "receipt_bound demo_host demo_receipt demo_approved_plan demo_context"
  using demo_accepted accepted_receipt_binds_plan by blast

theorem receipt_limits_mutation_witness:
  "\<exists>envelope. effectiveWorkflowPolicyEnvelope demo_host demo_approved_plan = Inr envelope
     \<and> (\<forall>entry \<in> set (plan_nodes envelope). \<forall>tool \<in> set PLAN_MUTATING_TOOLS. \<not> allows (own ''policy'' entry) tool)"
proof -
  obtain i where v: "validateApprovalReceipt demo_host demo_receipt demo_approved_plan demo_context = Inr (Inr i)" using demo_accepted by blast
  have m: "own ''mutation'' (own ''scope'' demo_receipt) = JStr ''none''"
    by (simp add: demo_receipt_def receipt_fields_def demo_scope_def)
  from receipt_limits_mutation [OF v, THEN conjunct1] obtain envelope where e: "effectiveWorkflowPolicyEnvelope demo_host demo_approved_plan = Inr envelope"
    "own ''mutation'' (own ''scope'' demo_receipt) = JStr ''none'' \<longrightarrow> items (own ''writerClaims'' (own ''repo'' demo_receipt)) = []
      \<and> own ''delivery'' (own ''scope'' demo_receipt) = JStr ''local''
      \<and> (\<forall>entry \<in> set (plan_nodes envelope). own ''mutation'' (own ''policy'' entry) = JStr ''none''
           \<and> (\<forall>tool \<in> set PLAN_MUTATING_TOOLS. \<not> allows (own ''policy'' entry) tool))" by (elim exE conjE) (rule that)
  show ?thesis using e(1) e(2) [rule_format, OF m] by (intro exI [of _ envelope]) simp
qed

text \<open>
  The pattern for relative paths looks for a parent part only before the first line break: a path
  that climbs out after one is accepted.
\<close>

lemma newline_path_escapes:
  "RELATIVE_PATH (''a'' @ [CHR 0x0A] @ ''/../../b'') \<and> ''..'' \<in> set (split_on (CHR ''/'') (''a'' @ [CHR 0x0A] @ ''/../../b''))"
  by code_simp

end
