(* ===== verification/Goal_Authority.thy ===== *)
theory Goal_Authority
  imports State_Codec
begin

text \<open>
  \<open>packages/subagents/policy/goal-revision-authority.mjs\<close>: what a goal run was granted (roles,
  models, overlays, scope, web, revisions, budget), the projection of a proposed revision, the
  assessment of the one against the other, and the approval of an expansion. The authorizer's
  state is its grant: \<open>approve\<close> returns the new one.
\<close>

definition GOAL_ID :: "string \<Rightarrow> bool" where
  "GOAL_ID = re_ident id_char 127"

definition BUDGET_FIELDS :: "string list" where
  "BUDGET_FIELDS = [''maxAssignments'', ''maxCostUsd'', ''maxDepth'', ''maxNodes'', ''maxOutputBytes'', ''maxParallel'', ''maxTokens'', ''maxWallTimeMs'']"

definition failGoal :: "string \<Rightarrow> 'a res" where
  "failGoal code = Inl (Thrown ''Error'' code)"

definition goalDigest :: "platform \<Rightarrow> jsval \<Rightarrow> string res" where
  "goalDigest P v = rbind (json_text P (canonicalize v)) (\<lambda>t. Inr (sha256_text P t))"

definition goal_id_value :: "jsval \<Rightarrow> bool" where
  "goal_id_value v = (case v of JStr s \<Rightarrow> GOAL_ID s | _ \<Rightarrow> False)"

definition idSet :: "platform \<Rightarrow> jsval \<Rightarrow> jsval list res" where
  "idSet P values = (case values of
     JArr xs \<Rightarrow> (if list_ex (\<lambda>v. \<not> goal_id_value v) xs then failGoal ''GOAL_AUTHORITY_INVALID'' else Inr (js_sort P (js_uniq xs)))
   | _ \<Rightarrow> failGoal ''GOAL_AUTHORITY_INVALID'')"

definition goalBudgetField :: "jsval \<Rightarrow> (string \<times> jsval) list \<Rightarrow> string \<Rightarrow> (string \<times> jsval) list res" where
  "goalBudgetField v result field =
     (let raw = own field v in
      if nullish raw then Inr result else
      case raw of JNum n \<Rightarrow> (if \<not> num_isFinite n \<or> num_less n (Fin 0) then failGoal ''GOAL_AUTHORITY_INVALID'' else Inr (result @ [(field, raw)]))
      | _ \<Rightarrow> failGoal ''GOAL_AUTHORITY_INVALID'')"

definition normalizeGoalBudget :: "jsval \<Rightarrow> jsval res" where
  "normalizeGoalBudget v = (if \<not> isObj v then failGoal ''GOAL_AUTHORITY_INVALID'' else
     rbind (foldR (goalBudgetField v) [] BUDGET_FIELDS) (\<lambda>result. Inr (JObj result)))"

definition grant_value :: "jsval \<Rightarrow> jsval \<Rightarrow> jsval list \<Rightarrow> jsval list \<Rightarrow> jsval list \<Rightarrow> jsval list \<Rightarrow> bool \<Rightarrow> jsval \<Rightarrow> jsval \<Rightarrow> (string \<times> jsval) list" where
  "grant_value runId objectiveDigest roles models overlays scope web maxRevisions budget = [
     (''formatVersion'', jint 1), (''kind'', JStr ''goal-authority-grant''), (''runId'', runId), (''objectiveDigest'', objectiveDigest),
     (''allowedRoles'', JArr roles), (''allowedModels'', JArr models), (''overlays'', JArr overlays), (''scope'', JArr scope),
     (''web'', JBool web), (''mutation'', JStr ''none''), (''maxRevisions'', maxRevisions), (''budget'', budget)]"

definition digested :: "platform \<Rightarrow> (string \<times> jsval) list \<Rightarrow> string \<Rightarrow> jsval res" where
  "digested P value name = rbind (goalDigest P (JObj value)) (\<lambda>h. Inr (JObj (value @ [(name, JStr h)])))"

definition createGoalAuthorityGrant :: "platform \<Rightarrow> jsval \<Rightarrow> jsval res" where
  "createGoalAuthorityGrant P value =
     (let input = defaulted value; runId = own ''runId'' input; objectiveDigest = own ''objectiveDigest'' input; maxRevisions = own ''maxRevisions'' input in
      if nullish input then Inl TypeError else
      if \<not> goal_id_value runId \<or> \<not> (case objectiveDigest of JStr s \<Rightarrow> SHA256 s | _ \<Rightarrow> False) then failGoal ''GOAL_AUTHORITY_INVALID'' else
      if \<not> isSafeInteger maxRevisions \<or> js_less P maxRevisions (jint 1) \<or> js_less P (jint 16) maxRevisions then failGoal ''GOAL_AUTHORITY_INVALID'' else
      rbind (idSet P (coalesce (own ''allowedRoles'' input) (JArr []))) (\<lambda>roles.
      rbind (idSet P (coalesce (own ''allowedModels'' input) (JArr []))) (\<lambda>models.
      rbind (idSet P (coalesce (own ''overlays'' input) (JArr []))) (\<lambda>overlays.
      rbind (idSet P (coalesce (own ''scope'' input) (JArr []))) (\<lambda>scope.
      if own ''mutation'' input \<noteq> JStr ''none'' then failGoal ''GOAL_AUTHORITY_INVALID'' else
      rbind (normalizeGoalBudget (coalesce (own ''budget'' input) (JObj []))) (\<lambda>budget.
      digested P (grant_value runId objectiveDigest roles models overlays scope (own ''web'' input = JBool True) maxRevisions budget) ''grantDigest''))))))"

text \<open>The model of a proposed agent: provider and id, or the role it inherits from.\<close>

definition specModel :: "platform \<Rightarrow> jsval \<Rightarrow> jsval" where
  "specModel P spec = (let model = own ''model'' spec; provider = own ''provider'' model; i = own ''id'' model in
     if truthy provider \<and> truthy i then JStr (js_string P provider @ '':'' @ js_string P i)
     else JStr (''role:'' @ js_string P (coalesce (own ''role'' model) (JStr ''inherit''))))"

definition projectGoalRevisionAuthority :: "platform \<Rightarrow> jsval \<Rightarrow> jsval \<Rightarrow> jsval res" where
  "projectGoalRevisionAuthority P proposal options =
     (if \<not> truthy (own ''plan'' proposal) \<or> \<not> isArr (own ''agentSpecs'' proposal) then failGoal ''GOAL_REVISION_AUTHORITY_INVALID'' else
      let plan = own ''plan'' proposal; specs = items (own ''agentSpecs'' proposal); policy = own ''policy'' plan in
      rbind (mapR (prop_of ''templateId'') specs) (\<lambda>roles.
      rbind (prop_of ''overlays'' (defaulted options)) (\<lambda>overlayInput.
      rbind (idSet P (coalesce overlayInput (JArr []))) (\<lambda>overlays.
      rbind (idSet P (coalesce (own ''scope'' (defaulted options)) (JArr []))) (\<lambda>scope.
      rbind (normalizeGoalBudget (coalesce (own ''budget'' plan) (JObj []))) (\<lambda>budget.
      Inr (JObj [(''revision'', own ''revision'' proposal), (''roles'', JArr (js_sort P (js_uniq roles))),
        (''models'', JArr (js_sort P (js_uniq (map (specModel P) specs)))), (''overlays'', JArr overlays), (''scope'', JArr scope),
        (''web'', JBool (own ''web'' (own ''egress'' policy) \<noteq> JStr ''deny'')),
        (''mutation'', coalesce (own ''mutation'' policy) (JStr ''none'')), (''budget'', budget)])))))))"

section \<open>Assessment\<close>

definition expansion :: "string \<Rightarrow> jsval \<Rightarrow> jsval" where
  "expansion kind v = JObj [(''kind'', JStr kind), (''value'', v)]"

text \<open>\<open>subset\<close>: the values that the grant does not list.\<close>

definition beyondSet :: "string \<Rightarrow> jsval \<Rightarrow> jsval \<Rightarrow> jsval list res" where
  "beyondSet kind values allowed =
     rbind (arr_of values) (\<lambda>xs.
     rbind (filterR (\<lambda>v. rbind (js_includes allowed v) (\<lambda>b. Inr (\<not> b))) xs) (\<lambda>ys. Inr (map (expansion kind) ys)))"

definition beyondBudget :: "platform \<Rightarrow> jsval \<Rightarrow> string \<times> jsval \<Rightarrow> jsval list res" where
  "beyondBudget P limits entry = (case entry of (field, v) \<Rightarrow>
     rbind (prop_of field limits) (\<lambda>limit.
     if limit = JUndef \<or> js_less P limit v
     then Inr [JObj [(''kind'', JStr ''budget''), (''value'', JStr field), (''requested'', v), (''allowed'', coalesce limit JNull)]]
     else Inr []))"

definition goalExpansions :: "platform \<Rightarrow> jsval \<Rightarrow> jsval \<Rightarrow> jsval list res" where
  "goalExpansions P grant projection =
     rbind (beyondSet ''role'' (own ''roles'' projection) (own ''allowedRoles'' grant)) (\<lambda>roles.
     rbind (beyondSet ''model'' (own ''models'' projection) (own ''allowedModels'' grant)) (\<lambda>models.
     rbind (beyondSet ''overlay'' (own ''overlays'' projection) (own ''overlays'' grant)) (\<lambda>overlays.
     rbind (beyondSet ''scope'' (own ''scope'' projection) (own ''scope'' grant)) (\<lambda>scope.
     let web = (if truthy (own ''web'' projection) \<and> \<not> truthy (own ''web'' grant) then [expansion ''web'' (JBool True)] else []);
         mutation = (if own ''mutation'' projection \<noteq> JStr ''none'' then [expansion ''mutation'' (own ''mutation'' projection)] else []);
         r = own ''revision'' projection;
         revision = (if \<not> isSafeInteger r \<or> js_less P r (jint 0) \<or> js_le P (own ''maxRevisions'' grant) r then [expansion ''revision'' r] else []) in
     rbind (if nullish (own ''budget'' projection) then Inl TypeError else mapR (beyondBudget P (own ''budget'' grant)) (entries (own ''budget'' projection))) (\<lambda>budget.
     Inr (roles @ models @ overlays @ scope @ web @ mutation @ revision @ concat budget))))))"

definition assessGoalRevisionAuthority :: "platform \<Rightarrow> jsval \<Rightarrow> jsval \<Rightarrow> jsval res" where
  "assessGoalRevisionAuthority P grant projection =
     (if nullish grant \<or> nullish projection then Inl TypeError else
      rbind (goalExpansions P grant projection) (\<lambda>expansions.
      rbind (goalDigest P projection) (\<lambda>h.
      Inr (JObj [(''ok'', JBool (expansions = [])),
        (''status'', JStr (if expansions = [] then ''GOAL_REVISION_AUTHORIZED'' else ''GOAL_REVISION_REAPPROVAL_REQUIRED'')),
        (''requiresApproval'', JBool (expansions \<noteq> [])), (''expansions'', JArr expansions), (''projectionDigest'', JStr h),
        (''grantDigest'', own ''grantDigest'' grant)]))))"

section \<open>Approval\<close>

definition createGoalRevisionApproval :: "platform \<Rightarrow> jsval \<Rightarrow> jsval \<Rightarrow> jsval \<Rightarrow> jsval res" where
  "createGoalRevisionApproval P grant projection nonce =
     (if \<not> goal_id_value nonce then failGoal ''GOAL_REVISION_APPROVAL_INVALID'' else
      rbind (prop_of ''grantDigest'' grant) (\<lambda>prior.
      rbind (goalDigest P projection) (\<lambda>h.
      digested P [(''formatVersion'', jint 1), (''kind'', JStr ''goal-revision-approval''), (''priorGrantDigest'', prior),
        (''projectionDigest'', JStr h), (''nonce'', nonce)] ''approvalDigest'')))"

definition newAuthorizer :: "platform \<Rightarrow> jsval \<Rightarrow> jsval res" where
  "newAuthorizer P grant = createGoalAuthorityGrant P grant"

definition goalAssess :: "platform \<Rightarrow> jsval \<Rightarrow> jsval \<Rightarrow> jsval \<Rightarrow> jsval res" where
  "goalAssess P grant proposal options =
     rbind (projectGoalRevisionAuthority P proposal options) (\<lambda>projection.
     rbind (assessGoalRevisionAuthority P grant projection) (\<lambda>assessment.
     Inr (spread (JObj [(''projection'', projection)]) assessment)))"

definition goalCreateApproval :: "platform \<Rightarrow> jsval \<Rightarrow> jsval \<Rightarrow> jsval \<Rightarrow> jsval \<Rightarrow> jsval res" where
  "goalCreateApproval P grant proposal nonce options =
     rbind (projectGoalRevisionAuthority P proposal options) (\<lambda>projection. createGoalRevisionApproval P grant projection nonce)"

definition mergedSet :: "jsval \<Rightarrow> jsval \<Rightarrow> jsval res" where
  "mergedSet a b = rbind (iterate a) (\<lambda>xs. rbind (iterate b) (\<lambda>ys. Inr (JArr (js_uniq (xs @ ys)))))"

definition mergedBudget :: "platform \<Rightarrow> jsval \<Rightarrow> jsval \<Rightarrow> jsval" where
  "mergedBudget P a b = JObj (map (\<lambda>field. (field,
     JNum (num_max (js_number P (coalesce (own field a) (jint 0))) (js_number P (coalesce (own field b) (jint 0)))))) BUDGET_FIELDS)"

text \<open>The grant after an approved expansion, before it is checked and digested again.\<close>

definition expandedGrant :: "platform \<Rightarrow> jsval \<Rightarrow> jsval \<Rightarrow> jsval res" where
  "expandedGrant P grant projection =
     rbind (mergedSet (own ''allowedRoles'' grant) (own ''roles'' projection)) (\<lambda>roles.
     rbind (mergedSet (own ''allowedModels'' grant) (own ''models'' projection)) (\<lambda>models.
     rbind (mergedSet (own ''overlays'' grant) (own ''overlays'' projection)) (\<lambda>overlays.
     rbind (mergedSet (own ''scope'' grant) (own ''scope'' projection)) (\<lambda>scope.
     Inr (JObj [(''runId'', own ''runId'' grant), (''objectiveDigest'', own ''objectiveDigest'' grant), (''allowedRoles'', roles),
       (''allowedModels'', models), (''overlays'', overlays), (''scope'', scope),
       (''web'', if truthy (own ''web'' grant) then own ''web'' grant else own ''web'' projection), (''mutation'', JStr ''none''),
       (''maxRevisions'', own ''maxRevisions'' grant), (''budget'', mergedBudget P (own ''budget'' grant) (own ''budget'' projection))])))))"

definition goalApprove :: "platform \<Rightarrow> jsval \<Rightarrow> jsval \<Rightarrow> jsval \<Rightarrow> jsval \<Rightarrow> jsval res" where
  "goalApprove P grant proposal approval options =
     rbind (projectGoalRevisionAuthority P proposal options) (\<lambda>projection.
     rbind (createGoalRevisionApproval P grant projection (own ''nonce'' approval)) (\<lambda>expected.
     if \<not> js_eq (own ''approvalDigest'' expected) (own ''approvalDigest'' approval) then failGoal ''GOAL_REVISION_APPROVAL_DRIFT'' else
     rbind (expandedGrant P grant projection) (createGoalAuthorityGrant P)))"

end
