(* ===== verification/Goal_Properties.thy ===== *)
theory Goal_Properties
  imports Goal_Authority Json_Reader
begin

text \<open>
  Goal revisions: a revision is authorised exactly when everything it uses is within the grant;
  an approval adds what the approved revision uses and nothing else, so that afterwards only a
  mutation or the number of revisions can still be refused. Models whose ids are no identifiers
  can be put up for approval but never be approved.
\<close>

lemma failGoal_neq_Inr [simp]: "failGoal c = Inr x \<longleftrightarrow> False"
  by (simp add: failGoal_def)

lemma if_failGoal_eq_Inr [simp]: "((if c then failGoal e else r) = Inr y) \<longleftrightarrow> \<not> c \<and> r = Inr y"
  by simp

lemmas goal_inv = rbind_eq_Inr option_throw_eq_Inr if_throw_eq_Inr if_failGoal_eq_Inr arr_of_Inr prop_of_Inr Let_def

section \<open>Normal forms\<close>

lemma idSet_Inr: "idSet P v = Inr xs \<Longrightarrow> \<exists>ys. v = JArr ys \<and> set xs = set ys \<and> list_all goal_id_value xs"
  by (cases v) (auto simp: idSet_def goal_inv list_ex_iff list_all_iff)

definition budget_entry :: "jsval \<Rightarrow> bool" where
  "budget_entry x \<longleftrightarrow> (\<exists>a. x = JNum (Fin a) \<and> 0 \<le> a)"

definition goal_budget :: "jsval \<Rightarrow> bool" where
  "goal_budget b \<longleftrightarrow> isObj b \<and> (\<forall>(k, x) \<in> set (entries b). k \<in> set BUDGET_FIELDS \<and> own k b = x \<and> budget_entry x) \<and> (\<forall>k. own k b = JUndef \<or> budget_entry (own k b))"

lemma goalBudgetField_Inr:
  "goalBudgetField v result field = Inr r \<longleftrightarrow> (nullish (own field v) \<and> r = result) \<or> (budget_entry (own field v) \<and> r = result @ [(field, own field v)])"
proof (cases "own field v")
  case (JNum n)
  then show ?thesis by (cases n) (auto simp: goalBudgetField_def budget_entry_def)
qed (auto simp: goalBudgetField_def budget_entry_def)

lemma budget_fields_distinct: "distinct BUDGET_FIELDS"
  by (simp add: BUDGET_FIELDS_def)

lemma budget_fold:
  "foldR (goalBudgetField v) result fs = Inr r \<Longrightarrow> distinct fs \<Longrightarrow> fst ` set result \<inter> set fs = {} \<Longrightarrow>
     \<exists>ps. r = result @ ps \<and> (\<forall>(k, x) \<in> set ps. k \<in> set fs \<and> x = own k v \<and> budget_entry x)
       \<and> (\<forall>k \<in> set fs. own k (JObj r) = (if nullish (own k v) then JUndef else own k v) \<and> (nullish (own k v) \<or> budget_entry (own k v)))"
proof (induction fs arbitrary: result)
  case (Cons f fs)
  then obtain mid where m: "goalBudgetField v result f = Inr mid" "foldR (goalBudgetField v) mid fs = Inr r" by (auto simp: goal_inv)
  define new where "new = (if nullish (own f v) then [] else [(f, own f v)])"
  have mid: "mid = result @ new" "nullish (own f v) \<or> budget_entry (own f v)"
    using m(1) unfolding goalBudgetField_Inr new_def budget_entry_def by auto
  have "fst ` set mid \<inter> set fs = {}" using Cons.prems(2,3) by (auto simp: mid new_def)
  from Cons.IH [OF m(2) _ this] Cons.prems(2) obtain ps where ps: "r = mid @ ps" "\<forall>(k, x) \<in> set ps. k \<in> set fs \<and> x = own k v \<and> budget_entry x"
    "\<forall>k \<in> set fs. own k (JObj r) = (if nullish (own k v) then JUndef else own k v) \<and> (nullish (own k v) \<or> budget_entry (own k v))" by auto
  have f: "own f (JObj r) = (if nullish (own f v) then JUndef else own f v)"
  proof -
    have "f \<notin> fst ` set result" "f \<notin> fst ` set ps" using Cons.prems(2,3) ps(2) by auto
    then show ?thesis unfolding ps(1) mid(1) append_assoc
      using own_append(2) [of f result "new @ ps"] own_append(2) [of f ps "[]"] by (auto simp: new_def)
  qed
  show ?case using ps f mid Cons.prems(2) by (intro exI [of _ "new @ ps"]) (auto simp: new_def)
qed auto

lemma normalizeGoalBudget_ok:
  assumes "normalizeGoalBudget v = Inr b"
  shows "goal_budget b \<and> (\<forall>k \<in> set BUDGET_FIELDS. own k b = (if nullish (own k v) then JUndef else own k v))"
proof -
  from assms obtain r where r: "foldR (goalBudgetField v) [] BUDGET_FIELDS = Inr r" "b = JObj r" by (auto simp: normalizeGoalBudget_def goal_inv)
  from budget_fold [OF r(1) budget_fields_distinct] have f: "\<forall>(k, x) \<in> set r. k \<in> set BUDGET_FIELDS \<and> x = own k v \<and> budget_entry x"
    "\<forall>k \<in> set BUDGET_FIELDS. own k (JObj r) = (if nullish (own k v) then JUndef else own k v)" by auto
  have "own k (JObj r) = JUndef \<or> budget_entry (own k (JObj r))" for k
    using f(1) by (auto simp: own.simps(1) split: option.splits dest!: map_of_SomeD)
  moreover have "own k (JObj r) = x" if "(k, x) \<in> set r" for k x using f that by (fastforce simp: budget_entry_def)
  ultimately show ?thesis using f r(2) by (auto simp: goal_budget_def simp del: own.simps)
qed

section \<open>Grants and projections\<close>

definition strings_at :: "string \<Rightarrow> jsval \<Rightarrow> jsval set" where
  "strings_at k v = set (items (own k v))"

definition goal_grant :: "jsval \<Rightarrow> bool" where
  "goal_grant g \<longleftrightarrow> isObj g \<and> (\<forall>k \<in> {''allowedRoles'', ''allowedModels'', ''overlays'', ''scope''}. isArr (own k g) \<and> (\<forall>x \<in> strings_at k g. goal_id_value x))
     \<and> isBool (own ''web'' g) \<and> own ''mutation'' g = JStr ''none'' \<and> (\<exists>m. own ''maxRevisions'' g = jint m \<and> 1 \<le> m \<and> m \<le> 16) \<and> goal_budget (own ''budget'' g)"

lemma createGoalAuthorityGrant_ok:
  assumes "createGoalAuthorityGrant P v = Inr g"
  shows "goal_grant g \<and> own ''runId'' g = own ''runId'' v \<and> own ''maxRevisions'' g = own ''maxRevisions'' v
     \<and> (\<forall>k \<in> {''allowedRoles'', ''allowedModels'', ''overlays'', ''scope''}. strings_at k g = set (items (coalesce (own k v) (JArr []))))
     \<and> own ''web'' g = JBool (own ''web'' v = JBool True)
     \<and> (\<forall>k \<in> set BUDGET_FIELDS. own k (own ''budget'' g) = (if nullish (own k (own ''budget'' v)) then JUndef else own k (own ''budget'' v)))"
proof -
  have un: "own k (defaulted v) = own k v" for k by (cases v) (simp_all add: defaulted_def)
  from assms obtain roles models overlays scope budget h where m: "isSafeInteger (own ''maxRevisions'' v)" "\<not> js_less P (own ''maxRevisions'' v) (jint 1)"
      "\<not> js_less P (jint 16) (own ''maxRevisions'' v)"
    and ids: "idSet P (coalesce (own ''allowedRoles'' v) (JArr [])) = Inr roles" "idSet P (coalesce (own ''allowedModels'' v) (JArr [])) = Inr models"
      "idSet P (coalesce (own ''overlays'' v) (JArr [])) = Inr overlays" "idSet P (coalesce (own ''scope'' v) (JArr [])) = Inr scope"
    and b: "normalizeGoalBudget (coalesce (own ''budget'' v) (JObj [])) = Inr budget"
    and g: "g = JObj (grant_value (own ''runId'' v) (own ''objectiveDigest'' v) roles models overlays scope (own ''web'' v = JBool True)
        (own ''maxRevisions'' v) budget @ [(''grantDigest'', JStr h)])"
    unfolding createGoalAuthorityGrant_def un digested_def goal_inv by (auto simp: un)
  have own: "own ''allowedRoles'' g = JArr roles" "own ''allowedModels'' g = JArr models" "own ''overlays'' g = JArr overlays" "own ''scope'' g = JArr scope"
    "own ''web'' g = JBool (own ''web'' v = JBool True)" "own ''mutation'' g = JStr ''none''" "own ''maxRevisions'' g = own ''maxRevisions'' v"
    "own ''budget'' g = budget" "own ''runId'' g = own ''runId'' v" "isObj g" by (simp_all add: g grant_value_def)
  obtain n where n: "own ''maxRevisions'' v = jint n" "1 \<le> n" "n \<le> 16" using m by (auto simp: isSafeInteger_iff)
  have sets: "set roles = set (items (coalesce (own ''allowedRoles'' v) (JArr [])))" "set models = set (items (coalesce (own ''allowedModels'' v) (JArr [])))"
    "set overlays = set (items (coalesce (own ''overlays'' v) (JArr [])))" "set scope = set (items (coalesce (own ''scope'' v) (JArr [])))"
    "list_all goal_id_value roles" "list_all goal_id_value models" "list_all goal_id_value overlays" "list_all goal_id_value scope"
    using ids [THEN idSet_Inr] by auto
  have bud: "own k (coalesce (own ''budget'' v) (JObj [])) = own k (own ''budget'' v)" for k by (cases "own ''budget'' v") simp_all
  show ?thesis using own n sets normalizeGoalBudget_ok [OF b] unfolding bud by (simp add: goal_grant_def strings_at_def list_all_iff)
qed

definition goal_projection :: "jsval \<Rightarrow> bool" where
  "goal_projection p \<longleftrightarrow> isObj p \<and> (\<forall>k \<in> {''roles'', ''models'', ''overlays'', ''scope''}. isArr (own k p)) \<and> isBool (own ''web'' p) \<and> goal_budget (own ''budget'' p)"

lemma projectGoalRevisionAuthority_ok: "projectGoalRevisionAuthority P proposal options = Inr p \<Longrightarrow> goal_projection p"
  unfolding projectGoalRevisionAuthority_def goal_inv using normalizeGoalBudget_ok by (auto simp: goal_projection_def)

section \<open>Assessment\<close>

definition goal_within :: "platform \<Rightarrow> jsval \<Rightarrow> jsval \<Rightarrow> bool" where
  "goal_within P grant p \<longleftrightarrow> strings_at ''roles'' p \<subseteq> strings_at ''allowedRoles'' grant \<and> strings_at ''models'' p \<subseteq> strings_at ''allowedModels'' grant
     \<and> strings_at ''overlays'' p \<subseteq> strings_at ''overlays'' grant \<and> strings_at ''scope'' p \<subseteq> strings_at ''scope'' grant
     \<and> (own ''web'' p = JBool True \<longrightarrow> own ''web'' grant = JBool True)
     \<and> (\<forall>(k, x) \<in> set (entries (own ''budget'' p)). own k (own ''budget'' grant) \<noteq> JUndef \<and> \<not> js_less P (own k (own ''budget'' grant)) x)"

definition revision_in_range :: "jsval \<Rightarrow> jsval \<Rightarrow> bool" where
  "revision_in_range grant p \<longleftrightarrow> (\<exists>r m. own ''revision'' p = jint r \<and> own ''maxRevisions'' grant = jint m \<and> 0 \<le> r \<and> r < m)"

lemma beyondSet_arrays: "isArr v \<Longrightarrow> isArr w \<Longrightarrow> beyondSet kind v w = Inr (map (expansion kind) (filter (\<lambda>x. x \<notin> set (items w)) (items v)))"
proof -
  assume "isArr v" "isArr w"
  then obtain xs ys where v: "v = JArr xs" "w = JArr ys" by (auto simp: isArr_iff)
  have "filterR (\<lambda>x. rbind (js_includes (JArr ys) x) (\<lambda>b. Inr (\<not> b))) xs = Inr (filter (\<lambda>x. x \<notin> set ys) xs)" by (induction xs) simp_all
  then show ?thesis by (simp add: v beyondSet_def)
qed

lemma mapR_concat_Nil: "mapR f xs = Inr yss \<Longrightarrow> concat yss = [] \<longleftrightarrow> (\<forall>x \<in> set xs. f x = Inr [])"
  by (induction xs arbitrary: yss) (auto simp: goal_inv)

lemma if_list_Nil: "(if c then [x] else []) = [] \<longleftrightarrow> \<not> c"
  by simp

lemma goalExpansions_Nil:
  assumes "goal_grant g" "goal_projection p" "goalExpansions P g p = Inr es"
  shows "es = [] \<longleftrightarrow> goal_within P g p \<and> own ''mutation'' p = JStr ''none'' \<and> revision_in_range g p"
proof -
  let ?budget = "mapR (beyondBudget P (own ''budget'' g)) (entries (own ''budget'' p))"
  have arr: "isArr (own ''allowedRoles'' g)" "isArr (own ''allowedModels'' g)" "isArr (own ''overlays'' g)" "isArr (own ''scope'' g)"
    "isArr (own ''roles'' p)" "isArr (own ''models'' p)" "isArr (own ''overlays'' p)" "isArr (own ''scope'' p)"
    using assms(1,2) by (simp_all add: goal_grant_def goal_projection_def)
  have nn: "\<not> nullish (own ''budget'' p)" "\<not> nullish (own ''budget'' g)" using assms(1,2) by (auto simp: goal_projection_def goal_grant_def goal_budget_def isObj_iff)
  let ?past = "\<not> isSafeInteger (own ''revision'' p) \<or> js_less P (own ''revision'' p) (jint 0) \<or> js_le P (own ''maxRevisions'' g) (own ''revision'' p)"
  let ?all = "\<lambda>b. map (expansion ''role'') (filter (\<lambda>x. x \<notin> set (items (own ''allowedRoles'' g))) (items (own ''roles'' p)))
      @ map (expansion ''model'') (filter (\<lambda>x. x \<notin> set (items (own ''allowedModels'' g))) (items (own ''models'' p)))
      @ map (expansion ''overlay'') (filter (\<lambda>x. x \<notin> set (items (own ''overlays'' g))) (items (own ''overlays'' p)))
      @ map (expansion ''scope'') (filter (\<lambda>x. x \<notin> set (items (own ''scope'' g))) (items (own ''scope'' p)))
      @ (if truthy (own ''web'' p) \<and> \<not> truthy (own ''web'' g) then [expansion ''web'' (JBool True)] else [])
      @ (if own ''mutation'' p \<noteq> JStr ''none'' then [expansion ''mutation'' (own ''mutation'' p)] else [])
      @ (if ?past then [expansion ''revision'' (own ''revision'' p)] else []) @ concat b"
  have step: "goalExpansions P g p = rbind ?budget (\<lambda>b. Inr (?all b))"
    unfolding goalExpansions_def Let_def beyondSet_arrays [OF arr(5,1)] beyondSet_arrays [OF arr(6,2)] beyondSet_arrays [OF arr(7,3)]
      beyondSet_arrays [OF arr(8,4)] rbind_simps if_not_P [OF nn(1)] by (rule refl)
  obtain bs where b: "?budget = Inr bs" and "Inr (?all bs) = (Inr es :: jsval list res)"
    using assms(3) [unfolded step rbind_eq_Inr] by (elim exE conjE) (rule that)
  then have e: "es = ?all bs" by (simp only: sum.inject)
  have es: "es = [] \<longleftrightarrow> strings_at ''roles'' p \<subseteq> strings_at ''allowedRoles'' g
      \<and> strings_at ''models'' p \<subseteq> strings_at ''allowedModels'' g \<and> strings_at ''overlays'' p \<subseteq> strings_at ''overlays'' g
      \<and> strings_at ''scope'' p \<subseteq> strings_at ''scope'' g \<and> \<not> (truthy (own ''web'' p) \<and> \<not> truthy (own ''web'' g)) \<and> own ''mutation'' p = JStr ''none''
      \<and> \<not> ?past \<and> concat bs = []"
    unfolding e append_is_Nil_conv map_is_Nil_conv filter_empty_conv not_not strings_at_def if_list_Nil by blast
  have web: "\<not> (truthy (own ''web'' p) \<and> \<not> truthy (own ''web'' g)) \<longleftrightarrow> (own ''web'' p = JBool True \<longrightarrow> own ''web'' g = JBool True)"
    using assms(1,2) by (auto simp: goal_grant_def goal_projection_def isBool_iff)
  obtain m where m: "own ''maxRevisions'' g = jint m" "1 \<le> m" "m \<le> 16" using assms(1) by (auto simp: goal_grant_def)
  have rev: "\<not> (\<not> isSafeInteger (own ''revision'' p) \<or> js_less P (own ''revision'' p) (jint 0) \<or> js_le P (own ''maxRevisions'' g) (own ''revision'' p))
      \<longleftrightarrow> revision_in_range g p"
    using m by (auto simp: isSafeInteger_iff revision_in_range_def MAX_SAFE_INTEGER_def)
  have "concat bs = [] \<longleftrightarrow> (\<forall>(k, x) \<in> set (entries (own ''budget'' p)). own k (own ''budget'' g) \<noteq> JUndef \<and> \<not> js_less P (own k (own ''budget'' g)) x)"
    unfolding mapR_concat_Nil [OF b] by (auto simp: beyondBudget_def prop_of_def nn(2))
  then show ?thesis unfolding es web rev goal_within_def by blast
qed

lemma assess_ok:
  assumes "goal_grant g" "goal_projection p" "assessGoalRevisionAuthority P g p = Inr a"
  shows "own ''ok'' a = JBool (goal_within P g p \<and> own ''mutation'' p = JStr ''none'' \<and> revision_in_range g p)
     \<and> own ''requiresApproval'' a = JBool (\<not> (goal_within P g p \<and> own ''mutation'' p = JStr ''none'' \<and> revision_in_range g p))"
proof -
  from assms(3) obtain es h where e: "goalExpansions P g p = Inr es" and a: "a = JObj [(''ok'', JBool (es = [])),
        (''status'', JStr (if es = [] then ''GOAL_REVISION_AUTHORIZED'' else ''GOAL_REVISION_REAPPROVAL_REQUIRED'')),
        (''requiresApproval'', JBool (es \<noteq> [])), (''expansions'', JArr es), (''projectionDigest'', JStr h), (''grantDigest'', own ''grantDigest'' g)]"
    unfolding assessGoalRevisionAuthority_def goal_inv by blast
  show ?thesis using goalExpansions_Nil [OF assms(1,2) e] by (simp add: a)
qed

section \<open>Approval\<close>

lemma mergedSet_Inr: "isArr a \<Longrightarrow> isArr b \<Longrightarrow> mergedSet a b = Inr v \<longleftrightarrow> v = JArr (js_uniq (items a @ items b))"
  by (auto simp: mergedSet_def isArr_iff)

lemma num_max_nonneg: "0 \<le> a \<Longrightarrow> 0 \<le> b \<Longrightarrow> num_max (Fin a) (Fin b) = Fin (max a b)"
  by (auto simp: num_max_def max_def)

lemma entry_or_zero: "v = JUndef \<or> budget_entry v \<Longrightarrow> \<exists>a. coalesce v (jint 0) = JNum (Fin a) \<and> 0 \<le> a"
  by (auto simp: budget_entry_def)

lemma own_map: "k \<in> set ks \<Longrightarrow> own k (JObj (map (\<lambda>field. (field, f field)) ks)) = f k"
  by (induction ks) auto

lemma mergedBudget_entry:
  assumes "goal_budget a" "goal_budget b" "k \<in> set BUDGET_FIELDS"
  shows "\<exists>x y. coalesce (own k a) (jint 0) = JNum (Fin x) \<and> coalesce (own k b) (jint 0) = JNum (Fin y) \<and> 0 \<le> x \<and> 0 \<le> y
     \<and> own k (mergedBudget P a b) = JNum (Fin (max x y))"
proof -
  obtain x y where x: "coalesce (own k a) (jint 0) = JNum (Fin x)" "0 \<le> x" and y: "coalesce (own k b) (jint 0) = JNum (Fin y)" "0 \<le> y"
    using assms(1,2) entry_or_zero [of "own k a"] entry_or_zero [of "own k b"] unfolding goal_budget_def by blast
  have "own k (mergedBudget P a b) = JNum (num_max (Fin x) (Fin y))"
    unfolding mergedBudget_def own_map [OF assms(3)] x(1) y(1) by simp
  then show ?thesis using x y num_max_nonneg by auto
qed

lemma approve_facts:
  assumes g: "goal_grant g" and a: "goalApprove P g proposal approval options = Inr g'"
  shows "\<exists>p. projectGoalRevisionAuthority P proposal options = Inr p \<and> goal_projection p \<and> goal_grant g'
     \<and> (\<exists>expected. createGoalRevisionApproval P g p (own ''nonce'' approval) = Inr expected \<and> js_eq (own ''approvalDigest'' expected) (own ''approvalDigest'' approval))
     \<and> own ''runId'' g' = own ''runId'' g \<and> own ''maxRevisions'' g' = own ''maxRevisions'' g
     \<and> strings_at ''allowedRoles'' g' = strings_at ''allowedRoles'' g \<union> strings_at ''roles'' p
     \<and> strings_at ''allowedModels'' g' = strings_at ''allowedModels'' g \<union> strings_at ''models'' p
     \<and> strings_at ''overlays'' g' = strings_at ''overlays'' g \<union> strings_at ''overlays'' p
     \<and> strings_at ''scope'' g' = strings_at ''scope'' g \<union> strings_at ''scope'' p
     \<and> own ''web'' g' = JBool (own ''web'' g = JBool True \<or> own ''web'' p = JBool True)
     \<and> (\<forall>k \<in> set BUDGET_FIELDS. own k (own ''budget'' g') = own k (mergedBudget P (own ''budget'' g) (own ''budget'' p)))"
proof -
  from a obtain p expected w where p: "projectGoalRevisionAuthority P proposal options = Inr p"
    and e: "createGoalRevisionApproval P g p (own ''nonce'' approval) = Inr expected" "js_eq (own ''approvalDigest'' expected) (own ''approvalDigest'' approval)"
    and w: "expandedGrant P g p = Inr w" and c: "createGoalAuthorityGrant P w = Inr g'"
    unfolding goalApprove_def goal_inv not_not by blast
  note pp = projectGoalRevisionAuthority_ok [OF p]
  have arr: "isArr (own ''allowedRoles'' g)" "isArr (own ''allowedModels'' g)" "isArr (own ''overlays'' g)" "isArr (own ''scope'' g)"
    "isArr (own ''roles'' p)" "isArr (own ''models'' p)" "isArr (own ''overlays'' p)" "isArr (own ''scope'' p)"
    using g pp by (simp_all add: goal_grant_def goal_projection_def)
  let ?w = "JObj [(''runId'', own ''runId'' g), (''objectiveDigest'', own ''objectiveDigest'' g), (''allowedRoles'', JArr (js_uniq (items (own ''allowedRoles'' g) @ items (own ''roles'' p)))),
       (''allowedModels'', JArr (js_uniq (items (own ''allowedModels'' g) @ items (own ''models'' p)))),
       (''overlays'', JArr (js_uniq (items (own ''overlays'' g) @ items (own ''overlays'' p)))),
       (''scope'', JArr (js_uniq (items (own ''scope'' g) @ items (own ''scope'' p)))),
       (''web'', if truthy (own ''web'' g) then own ''web'' g else own ''web'' p), (''mutation'', JStr ''none''),
       (''maxRevisions'', own ''maxRevisions'' g), (''budget'', mergedBudget P (own ''budget'' g) (own ''budget'' p))]"
  have w': "w = ?w" using w arr unfolding expandedGrant_def goal_inv by (auto simp: mergedSet_Inr)
  have own: "own ''allowedRoles'' w = JArr (js_uniq (items (own ''allowedRoles'' g) @ items (own ''roles'' p)))"
    "own ''allowedModels'' w = JArr (js_uniq (items (own ''allowedModels'' g) @ items (own ''models'' p)))"
    "own ''overlays'' w = JArr (js_uniq (items (own ''overlays'' g) @ items (own ''overlays'' p)))"
    "own ''scope'' w = JArr (js_uniq (items (own ''scope'' g) @ items (own ''scope'' p)))"
    "own ''runId'' w = own ''runId'' g" "own ''maxRevisions'' w = own ''maxRevisions'' g"
    "own ''budget'' w = mergedBudget P (own ''budget'' g) (own ''budget'' p)"
    "own ''web'' w = (if truthy (own ''web'' g) then own ''web'' g else own ''web'' p)" by (simp_all add: w')
  have web: "own ''web'' w = JBool True \<longleftrightarrow> own ''web'' g = JBool True \<or> own ''web'' p = JBool True"
    using g pp by (auto simp: own goal_grant_def goal_projection_def isBool_iff)
  have bud: "(if nullish (own k (own ''budget'' w)) then JUndef else own k (own ''budget'' w)) = own k (mergedBudget P (own ''budget'' g) (own ''budget'' p))"
    if "k \<in> set BUDGET_FIELDS" for k
    using mergedBudget_entry [OF _ _ that, of "own ''budget'' g" "own ''budget'' p" P] g pp by (auto simp: own goal_grant_def goal_projection_def)
  note f = createGoalAuthorityGrant_ok [OF c]
  show ?thesis using p pp e f bud by (intro exI [of _ p]) (auto simp: own(1-6) web strings_at_def)
qed

lemma approved_within:
  assumes g: "goal_grant g" and a: "goalApprove P g proposal approval options = Inr g'" and p: "projectGoalRevisionAuthority P proposal options = Inr p"
  shows "goal_within P g' p"
proof -
  from approve_facts [OF g a] p have f: "goal_projection p" "strings_at ''roles'' p \<subseteq> strings_at ''allowedRoles'' g'"
    "strings_at ''models'' p \<subseteq> strings_at ''allowedModels'' g'" "strings_at ''overlays'' p \<subseteq> strings_at ''overlays'' g'"
    "strings_at ''scope'' p \<subseteq> strings_at ''scope'' g'" "own ''web'' p = JBool True \<longrightarrow> own ''web'' g' = JBool True"
    "\<forall>k \<in> set BUDGET_FIELDS. own k (own ''budget'' g') = own k (mergedBudget P (own ''budget'' g) (own ''budget'' p))" by auto
  have "own k (own ''budget'' g') \<noteq> JUndef \<and> \<not> js_less P (own k (own ''budget'' g')) x" if x: "(k, x) \<in> set (entries (own ''budget'' p))" for k x
  proof -
    have b: "goal_budget (own ''budget'' g)" "goal_budget (own ''budget'' p)" using g f(1) by (simp_all add: goal_grant_def goal_projection_def)
    then have k: "k \<in> set BUDGET_FIELDS" "own k (own ''budget'' p) = x" "budget_entry x" using x by (auto simp: goal_budget_def)
    from mergedBudget_entry [OF b k(1), of P] show ?thesis using f(7) k by (auto simp: budget_entry_def)
  qed
  then show ?thesis using f(2-6) by (auto simp: goal_within_def)
qed

section \<open>Properties\<close>

text \<open>(C34) A revision is authorised exactly when its roles, models, overlays and scope are among those
  of the grant, it uses the web only if granted, it does not mutate, its number is below the granted
  number of revisions, and no budget it asks for is absent from the grant or above it.\<close>

theorem goal_authorization:
  assumes "createGoalAuthorityGrant P v = Inr grant" "projectGoalRevisionAuthority P proposal options = Inr projection"
    and "assessGoalRevisionAuthority P grant projection = Inr assessment"
  shows "own ''ok'' assessment = JBool (goal_within P grant projection \<and> own ''mutation'' projection = JStr ''none'' \<and> revision_in_range grant projection)"
  using assess_ok [OF _ projectGoalRevisionAuthority_ok [OF assms(2)] assms(3)] createGoalAuthorityGrant_ok [OF assms(1)] by blast

text \<open>An approval widens the grant by what the approved revision uses and by nothing else: it needs
  the digest of the grant, the projection and the nonce, it never grants a mutation or more
  revisions, and afterwards everything but a mutation and the revision number is within the grant.\<close>

theorem goal_approval_extends:
  assumes "createGoalAuthorityGrant P v = Inr grant" "goalApprove P grant proposal approval options = Inr extended"
  shows "\<exists>projection expected. projectGoalRevisionAuthority P proposal options = Inr projection
     \<and> createGoalRevisionApproval P grant projection (own ''nonce'' approval) = Inr expected
     \<and> js_eq (own ''approvalDigest'' expected) (own ''approvalDigest'' approval)
     \<and> strings_at ''allowedRoles'' extended = strings_at ''allowedRoles'' grant \<union> strings_at ''roles'' projection
     \<and> strings_at ''allowedModels'' extended = strings_at ''allowedModels'' grant \<union> strings_at ''models'' projection
     \<and> own ''mutation'' extended = JStr ''none'' \<and> own ''maxRevisions'' extended = own ''maxRevisions'' grant
     \<and> goal_within P extended projection"
proof -
  have g: "goal_grant grant" using createGoalAuthorityGrant_ok [OF assms(1)] by blast
  from approve_facts [OF g assms(2)] obtain p expected where p: "projectGoalRevisionAuthority P proposal options = Inr p" "goal_grant extended"
    "createGoalRevisionApproval P grant p (own ''nonce'' approval) = Inr expected" "js_eq (own ''approvalDigest'' expected) (own ''approvalDigest'' approval)"
    "own ''maxRevisions'' extended = own ''maxRevisions'' grant"
    "strings_at ''allowedRoles'' extended = strings_at ''allowedRoles'' grant \<union> strings_at ''roles'' p"
    "strings_at ''allowedModels'' extended = strings_at ''allowedModels'' grant \<union> strings_at ''models'' p" by (elim exE conjE) (rule that)
  have "own ''mutation'' extended = JStr ''none''" using p(2) by (simp add: goal_grant_def)
  then show ?thesis using p approved_within [OF g assms(2) p(1)] by (intro exI [of _ p] exI [of _ expected]) simp
qed

text \<open>A grant and a revision that uses a second model, for the witnesses.\<close>

definition demo_grant_input :: jsval where
  "demo_grant_input = JObj [(''runId'', JStr ''run-1''), (''objectiveDigest'', JStr (''sha256:'' @ replicate 64 (CHR ''0''))),
     (''maxRevisions'', jint 3), (''allowedRoles'', JArr [JStr ''scout'']), (''allowedModels'', JArr [JStr ''role:inherit'']), (''mutation'', JStr ''none''),
     (''budget'', JObj [(''maxNodes'', jint 4)])]"

definition demo_proposal :: "string \<Rightarrow> jsval" where
  "demo_proposal model = JObj [(''revision'', jint 1), (''plan'', JObj [(''budget'', JObj [(''maxNodes'', jint 6)]), (''policy'', JObj [(''egress'', JObj [(''web'', JStr ''deny'')])])]),
     (''agentSpecs'', JArr [JObj [(''templateId'', JStr ''scout''), (''model'', JObj [(''provider'', JStr ''openrouter''), (''id'', JStr model)])]])]"

definition demo_grant :: jsval where
  "demo_grant = (case createGoalAuthorityGrant reference_host demo_grant_input of Inl e \<Rightarrow> JUndef | Inr g \<Rightarrow> g)"

lemma demo_goal_eval:
  "case createGoalAuthorityGrant reference_host demo_grant_input of Inl e \<Rightarrow> False | Inr grant \<Rightarrow>
     (case projectGoalRevisionAuthority reference_host (demo_proposal ''fast'') (JObj []) of Inl e \<Rightarrow> False | Inr p \<Rightarrow>
        (case assessGoalRevisionAuthority reference_host grant p of Inl e \<Rightarrow> False | Inr a \<Rightarrow> own ''ok'' a = JBool False))
     \<and> (case goalCreateApproval reference_host grant (demo_proposal ''fast'') (JStr ''n1'') (JObj []) of Inl e \<Rightarrow> False | Inr approval \<Rightarrow>
          \<not> isl (goalApprove reference_host grant (demo_proposal ''fast'') approval (JObj [])))
     \<and> \<not> isl (goalCreateApproval reference_host grant (demo_proposal ''org/fast'') (JStr ''n1'') (JObj []))
     \<and> (case projectGoalRevisionAuthority reference_host (demo_proposal ''org/fast'') (JObj []) of Inl e \<Rightarrow> False | Inr p \<Rightarrow>
          own ''models'' p = JArr [JStr ''openrouter:org/fast''])"
  by code_simp

lemma demo_granted: "createGoalAuthorityGrant reference_host demo_grant_input = Inr demo_grant"
  using demo_goal_eval unfolding demo_grant_def by (cases "createGoalAuthorityGrant reference_host demo_grant_input") simp_all

theorem goal_authorization_witness:
  "\<exists>projection assessment. assessGoalRevisionAuthority reference_host demo_grant projection = Inr assessment
     \<and> JBool False = JBool (goal_within reference_host demo_grant projection \<and> own ''mutation'' projection = JStr ''none'' \<and> revision_in_range demo_grant projection)"
proof -
  obtain p a where p: "projectGoalRevisionAuthority reference_host (demo_proposal ''fast'') (JObj []) = Inr p"
    "assessGoalRevisionAuthority reference_host demo_grant p = Inr a" "own ''ok'' a = JBool False"
    using demo_goal_eval unfolding demo_granted by (auto split: sum.splits)
  show ?thesis using goal_authorization [OF demo_granted p(1,2)] p(2,3) by metis
qed

theorem goal_approval_extends_witness:
  "\<exists>projection approval extended. goalApprove reference_host demo_grant (demo_proposal ''fast'') approval (JObj []) = Inr extended
     \<and> goal_within reference_host extended projection"
proof -
  obtain approval extended where "goalApprove reference_host demo_grant (demo_proposal ''fast'') approval (JObj []) = Inr extended"
    using demo_goal_eval unfolding demo_granted by (auto split: sum.splits dest!: not_isl_Inr)
  from goal_approval_extends [OF demo_granted this] this show ?thesis by blast
qed

text \<open>
  A model whose id has a slash is projected, and an approval for it is issued, but no approval of
  it is ever accepted: the extended grant would list a model that is no identifier.
\<close>

lemma slash_model_never_approved:
  "(\<exists>approval. goalCreateApproval reference_host demo_grant (demo_proposal ''org/fast'') (JStr ''n1'') (JObj []) = Inr approval)
     \<and> (\<nexists>approval extended. goalApprove reference_host demo_grant (demo_proposal ''org/fast'') approval (JObj []) = Inr extended)"
proof
  have "\<not> isl (goalCreateApproval reference_host demo_grant (demo_proposal ''org/fast'') (JStr ''n1'') (JObj []))"
    using demo_goal_eval unfolding demo_granted by simp
  then show "\<exists>approval. goalCreateApproval reference_host demo_grant (demo_proposal ''org/fast'') (JStr ''n1'') (JObj []) = Inr approval"
    by (cases "goalCreateApproval reference_host demo_grant (demo_proposal ''org/fast'') (JStr ''n1'') (JObj [])") simp_all
  have g: "goal_grant demo_grant" using createGoalAuthorityGrant_ok [OF demo_granted] by blast
  have m: "own ''models'' p = JArr [JStr ''openrouter:org/fast'']" if "projectGoalRevisionAuthority reference_host (demo_proposal ''org/fast'') (JObj []) = Inr p" for p
    using demo_goal_eval that unfolding demo_granted by simp
  show "\<nexists>approval extended. goalApprove reference_host demo_grant (demo_proposal ''org/fast'') approval (JObj []) = Inr extended"
  proof
    assume "\<exists>approval extended. goalApprove reference_host demo_grant (demo_proposal ''org/fast'') approval (JObj []) = Inr extended"
    then obtain approval extended where "goalApprove reference_host demo_grant (demo_proposal ''org/fast'') approval (JObj []) = Inr extended" by blast
    from approve_facts [OF g this] obtain p where p: "projectGoalRevisionAuthority reference_host (demo_proposal ''org/fast'') (JObj []) = Inr p" "goal_grant extended"
      "strings_at ''allowedModels'' extended = strings_at ''allowedModels'' demo_grant \<union> strings_at ''models'' p" by (elim exE conjE) (rule that)
    then have "JStr ''openrouter:org/fast'' \<in> strings_at ''allowedModels'' extended" using m by (simp add: strings_at_def)
    then have "goal_id_value (JStr ''openrouter:org/fast'')" using p(2) by (auto simp: goal_grant_def)
    moreover have "\<not> goal_id_value (JStr ''openrouter:org/fast'')" by code_simp
    ultimately show False by blast
  qed
qed

end
