(* ===== verification/Writer_Handoff.thy ===== *)
theory Writer_Handoff
  imports Domain_Assignment
begin

text \<open>
  \<open>packages/subagents/policy/writer-handoff.mjs\<close>: parallel writers must claim disjoint parts of
  the tree (\<open>assertWriterClaimIsolation\<close>), the handoff of a finished writer records what it
  changed inside its claims (\<open>createWriterHandoff\<close>), and the parent checks the handoff before it
  integrates (\<open>validateIntegrationHandoff\<close>).
\<close>

section \<open>Operations\<close>

definition failHandoff :: "string \<Rightarrow> 'a res" where
  "failHandoff code = Inl (Thrown ''WriterHandoffError'' code)"

definition pathClaim :: "jsval \<Rightarrow> string res" where
  "pathClaim v = (case assertRelativePath v of Inr p \<Rightarrow> Inr p | Inl _ \<Rightarrow> failHandoff ''WRITER_PATH_INVALID'')"

definition path_overlaps :: "string \<Rightarrow> string \<Rightarrow> bool" where
  "path_overlaps left right \<longleftrightarrow> left = right \<or> prefix (right @ ''/'') left \<or> prefix (left @ ''/'') right"

type_synonym claim = "jsval \<times> string"

text \<open>One claim of an assignment, added to the claims so far.\<close>

definition addClaim :: "jsval \<Rightarrow> claim list \<Rightarrow> jsval \<Rightarrow> claim list res" where
  "addClaim assignmentId claims raw =
     rbind (pathClaim raw) (\<lambda>claim.
     if list_ex (\<lambda>(owner, other). \<not> js_eq owner assignmentId \<and> path_overlaps other claim) claims
     then failHandoff ''WRITER_CLAIM_CONFLICT'' else Inr (claims @ [(assignmentId, claim)]))"

definition addAssignmentClaims :: "claim list \<Rightarrow> jsval \<Rightarrow> claim list res" where
  "addAssignmentClaims claims assignment =
     (if own ''kind'' assignment \<noteq> JStr ''task-assignment'' \<or> own ''writer'' (own ''ownership'' assignment) \<noteq> JBool True then Inr claims else
      rbind (iterate (coalesce (own ''fileClaims'' (own ''ownership'' assignment)) (JArr []))) (\<lambda>raws.
      foldR (addClaim (own ''assignmentId'' assignment)) claims raws))"

definition claim_value :: "claim \<Rightarrow> jsval" where
  "claim_value c = JObj [(''assignmentId'', fst c), (''claim'', JStr (snd c))]"

definition assertWriterClaimIsolation :: "platform \<Rightarrow> jsval \<Rightarrow> jsval res" where
  "assertWriterClaimIsolation P assignments =
     rbind (arr_of assignments) (\<lambda>list.
     rbind (foldR addAssignmentClaims [] list) (\<lambda>claims.
     Inr (immutable (JObj [(''ok'', JBool True),
       (''claims'', JArr (map claim_value (sort_by (\<lambda>a b. locale_le P (snd a) (snd b)) claims)))]))))"

definition gateReceipt :: "platform \<Rightarrow> jsval \<Rightarrow> (string \<times> jsval \<times> jsval) res" where
  "gateReceipt P receipt = (case assertDomainId (own ''gateId'' receipt) of Inl _ \<Rightarrow> failHandoff ''WRITER_GATE_RECEIPT_INVALID'' | Inr gateId \<Rightarrow>
     if own ''status'' receipt \<notin> set (map JStr [''PASS'', ''FAIL'', ''BLOCKED''])
        \<or> \<not> SHA256 (js_string P (coalesce (own ''receiptDigest'' receipt) (JStr '''')))
     then failHandoff ''WRITER_GATE_RECEIPT_INVALID'' else Inr (gateId, own ''status'' receipt, own ''receiptDigest'' receipt))"

definition gate_value :: "string \<times> jsval \<times> jsval \<Rightarrow> jsval" where
  "gate_value g = (case g of (gateId, status, digest) \<Rightarrow>
     JObj [(''gateId'', JStr gateId), (''status'', status), (''receiptDigest'', digest)])"

definition normalizeGateReceipts :: "platform \<Rightarrow> jsval \<Rightarrow> jsval list res" where
  "normalizeGateReceipts P receipts =
     rbind (arr_of receipts) (\<lambda>list.
     rbind (mapR (gateReceipt P) list) (\<lambda>gates.
     let result = sort_by (\<lambda>a b. locale_le P (fst a) (fst b)) gates in
     if \<not> distinct (map fst result) then failHandoff ''WRITER_GATE_RECEIPT_INVALID'' else Inr (map gate_value result)))"

text \<open>\<open>assignmentPathClaimCovered\<close> on a value: the paths default to the empty list.\<close>

definition claimCovered :: "platform \<Rightarrow> string \<Rightarrow> jsval \<Rightarrow> bool res" where
  "claimCovered P claim allowed = (if allowed = JUndef then Inr False else
     rbind (arr_of allowed) (\<lambda>list. Inr (assignmentPathClaimCovered P claim list)))"

definition changedPathCheck :: "platform \<Rightarrow> jsval \<Rightarrow> string \<Rightarrow> unit res" where
  "changedPathCheck P ownership changed =
     rbind (claimCovered P changed (own ''allowedPaths'' ownership)) (\<lambda>a.
     if \<not> a then failHandoff ''WRITER_CHANGED_PATH_OUTSIDE_CLAIMS'' else
     rbind (claimCovered P changed (own ''fileClaims'' ownership)) (\<lambda>b.
     if \<not> b then failHandoff ''WRITER_CHANGED_PATH_OUTSIDE_CLAIMS'' else Inr ()))"

definition handoff_value :: "jsval \<Rightarrow> string list \<Rightarrow> jsval \<Rightarrow> jsval \<Rightarrow> jsval \<Rightarrow> jsval list \<Rightarrow> string list \<Rightarrow> (string \<times> jsval) list" where
  "handoff_value assignment changedPaths patchDigest terminalReceiptId enforcementDigest gateReceipts artifactRefs = [
     (''formatVersion'', jint 1), (''kind'', JStr ''writer-handoff''),
     (''assignmentId'', own ''assignmentId'' assignment), (''assignmentHash'', own ''assignmentHash'' assignment),
     (''baseCommit'', own ''baseCommit'' (own ''ownership'' assignment)), (''fileClaims'', own ''fileClaims'' (own ''ownership'' assignment)),
     (''changedPaths'', JArr (map JStr changedPaths)), (''patchDigest'', patchDigest), (''terminalReceiptId'', terminalReceiptId),
     (''pathEnforcement'', JObj [(''state'', JStr ''ENFORCED''), (''mechanism'', JStr ''parent-diff-verification''), (''receiptDigest'', enforcementDigest)]),
     (''gateReceipts'', JArr gateReceipts), (''artifactRefs'', JArr (map JStr artifactRefs)),
     (''integration'', JObj [(''state'', JStr ''HANDOFF_ONLY''), (''automatic'', JBool False)])]"

text \<open>The checks on the assignment, the enforcement evidence and the terminal receipt, in order.\<close>

definition handoffEvidenceCheck :: "platform \<Rightarrow> jsval \<Rightarrow> unit res" where
  "handoffEvidenceCheck P input =
     (let assignment = own ''assignment'' input; ownership = own ''ownership'' assignment;
          enforcement = own ''pathEnforcement'' input; terminal = own ''terminalReceipt'' input;
          sha = (\<lambda>v. SHA256 (js_string P (coalesce v (JStr '''')))) in
      if own ''kind'' assignment \<noteq> JStr ''task-assignment'' \<or> own ''writer'' ownership \<noteq> JBool True then failHandoff ''WRITER_ASSIGNMENT_REQUIRED'' else
      if own ''workspace'' ownership \<noteq> JStr ''managed-worktree'' then failHandoff ''WRITER_WORKTREE_REQUIRED'' else
      if \<not> GIT_COMMIT (js_string P (coalesce (own ''baseCommit'' ownership) (JStr ''''))) then failHandoff ''WRITER_BASE_COMMIT_INVALID'' else
      if own ''state'' enforcement \<noteq> JStr ''ENFORCED'' \<or> own ''mechanism'' enforcement \<noteq> JStr ''parent-diff-verification''
         \<or> \<not> sha (own ''receiptDigest'' enforcement) then failHandoff ''WRITER_PATH_ENFORCEMENT_UNAVAILABLE'' else
      if own ''authoritative'' terminal \<noteq> JBool True \<or> own ''outcome'' terminal \<notin> {JStr ''completed'', JStr ''succeeded''}
         \<or> \<not> sha (own ''receiptId'' terminal) then failHandoff ''WRITER_TERMINAL_PROOF_REQUIRED'' else Inr ())"

definition createWriterHandoff :: "platform \<Rightarrow> jsval \<Rightarrow> jsval res" where
  "createWriterHandoff P input =
     (let assignment = own ''assignment'' input; ownership = own ''ownership'' assignment in
      rbind (handoffEvidenceCheck P input) (\<lambda>_.
      rbind (arr_of (coalesce (own ''changedPaths'' input) (JArr []))) (\<lambda>changedInput.
      rbind (mapR pathClaim changedInput) (\<lambda>changed0.
      let changedPaths = sort changed0 in
      if changedPaths = [] \<or> \<not> distinct changedPaths then failHandoff ''WRITER_CHANGED_PATHS_INVALID'' else
      rbind (forR (changedPathCheck P ownership) changedPaths) (\<lambda>_.
      if \<not> SHA256 (js_string P (coalesce (own ''patchDigest'' input) (JStr ''''))) then failHandoff ''WRITER_PATCH_DIGEST_INVALID'' else
      rbind (normalizeGateReceipts P (coalesce (own ''gateReceipts'' input) (JArr []))) (\<lambda>gateReceipts.
      rbind (normalizeStringSet True 256 (coalesce (own ''artifactRefs'' input) (JArr []))) (\<lambda>artifactRefs.
      sealed P (handoff_value assignment changedPaths (own ''patchDigest'' input) (own ''receiptId'' (own ''terminalReceipt'' input))
        (own ''receiptDigest'' (own ''pathEnforcement'' input)) gateReceipts artifactRefs) ''handoffDigest'')))))))"

definition requiredGate :: "jsval \<Rightarrow> jsval \<Rightarrow> unit res" where
  "requiredGate handoff gateId =
     rbind (arr_of (own ''gateReceipts'' handoff)) (\<lambda>receipts.
     rbind (findR (\<lambda>entry. rbind (prop_of ''gateId'' entry) (\<lambda>g. Inr (js_eq g gateId))) receipts) (\<lambda>found.
     case found of None \<Rightarrow> failHandoff ''WRITER_GATE_FAILED''
     | Some receipt \<Rightarrow> if \<not> truthy receipt \<or> own ''status'' receipt \<noteq> JStr ''PASS'' then failHandoff ''WRITER_GATE_FAILED'' else Inr ()))"

definition validateIntegrationHandoff :: "platform \<Rightarrow> jsval \<Rightarrow> jsval \<Rightarrow> jsval res" where
  "validateIntegrationHandoff P handoff options =
     (let handoffDigest = own ''handoffDigest'' handoff in
      if own ''kind'' handoff \<noteq> JStr ''writer-handoff'' \<or> \<not> SHA256 (js_string P (coalesce handoffDigest (JStr '''')))
      then failHandoff ''WRITER_HANDOFF_INVALID'' else
      rbind (digestValue P (odelete ''handoffDigest'' handoff)) (\<lambda>h.
      if handoffDigest \<noteq> JStr h then failHandoff ''WRITER_HANDOFF_TAMPERED'' else
      rbind (prop_of ''currentBaseCommit'' (defaulted options)) (\<lambda>currentBaseCommit.
      if \<not> js_eq (own ''baseCommit'' handoff) currentBaseCommit then failHandoff ''WRITER_BASE_COMMIT_DRIFT'' else
      rbind (iterate (coalesce (own ''requiredGateIds'' (defaulted options)) (JArr []))) (\<lambda>gateIds.
      rbind (forR (requiredGate handoff) (js_sort P (js_uniq gateIds))) (\<lambda>_.
      Inr (immutable (JObj [(''ok'', JBool True), (''status'', JStr ''READY_FOR_PARENT_INTEGRATION''), (''handoffDigest'', handoffDigest),
        (''patchDigest'', own ''patchDigest'' handoff), (''baseCommit'', own ''baseCommit'' handoff),
        (''changedPaths'', own ''changedPaths'' handoff), (''automaticIntegration'', JBool False)])))))))"

end
