(* ===== verification/Handoff_Properties.thy ===== *)
theory Handoff_Properties
  imports Writer_Handoff Json_Reader
begin

text \<open>
  Handoffs of parallel writers: writers whose claims pass the isolation check never hand off
  changes to the same part of the tree, and a handoff is accepted for integration on the base
  commit it was made for when its required gates passed. The isolation is one of path texts: a
  claim written with a dot is not recognised as the directory it names.
\<close>

lemma failHandoff_neq_Inr [simp]: "failHandoff c = Inr x \<longleftrightarrow> False"
  by (simp add: failHandoff_def)

lemma if_failHandoff_eq_Inr [simp]: "((if c then failHandoff e else r) = Inr y) \<longleftrightarrow> \<not> c \<and> r = Inr y"
  by simp

lemmas handoff_inv = rbind_eq_Inr option_throw_eq_Inr if_throw_eq_Inr if_failHandoff_eq_Inr arr_of_Inr prop_of_Inr Let_def

section \<open>Claims\<close>

lemma pathClaim_Inr: "pathClaim v = Inr p \<longleftrightarrow> assertRelativePath v = Inr p"
  by (simp add: pathClaim_def split: sum.splits)

lemma path_overlaps_parts: "path_overlaps a b \<longleftrightarrow> prefix (path_parts a) (path_parts b) \<or> prefix (path_parts b) (path_parts a)"
  unfolding below_iff_parts [symmetric] path_overlaps_def by auto

definition isolated :: "claim list \<Rightarrow> bool" where
  "isolated claims \<longleftrightarrow> (\<forall>(o1, c1) \<in> set claims. \<forall>(o2, c2) \<in> set claims. o1 \<noteq> o2 \<longrightarrow> \<not> path_overlaps c1 c2)"

lemma path_overlaps_sym: "path_overlaps a b = path_overlaps b a"
  by (auto simp: path_overlaps_def)

lemma isolated_snoc:
  assumes "isolated claims" "\<not> list_ex (\<lambda>(owner, other). \<not> js_eq owner i \<and> path_overlaps other c) claims"
  shows "isolated (claims @ [(i, c)])"
proof -
  have new: "o1 = i \<or> \<not> path_overlaps c1 c" if "(o1, c1) \<in> set claims" for o1 c1
    using assms(2) that unfolding list_ex_iff by (auto simp: js_eq_def)
  have "\<not> path_overlaps c1 c2" if m: "(o1, c1) \<in> set (claims @ [(i, c)])" "(o2, c2) \<in> set (claims @ [(i, c)])" and ne: "o1 \<noteq> o2" for o1 c1 o2 c2
  proof (cases "(o1, c1) \<in> set claims")
    case True
    then show ?thesis using m(2) ne assms(1) new unfolding isolated_def by fastforce
  next
    case False
    then have "o1 = i" "c1 = c" "(o2, c2) \<in> set claims" using m ne by auto
    then show ?thesis using new ne path_overlaps_sym by blast
  qed
  then show ?thesis unfolding isolated_def by blast
qed

text \<open>The loop over the assignments keeps the claims isolated and records every claim of a writer.\<close>

definition writer_claim :: "jsval \<Rightarrow> jsval \<Rightarrow> bool" where
  "writer_claim a raw \<longleftrightarrow> own ''kind'' a = JStr ''task-assignment'' \<and> own ''writer'' (own ''ownership'' a) = JBool True
     \<and> raw \<in> set (items (own ''fileClaims'' (own ''ownership'' a)))"

lemma addClaims_facts:
  "foldR (addClaim i) claims raws = Inr claims' \<Longrightarrow> isolated claims \<Longrightarrow>
     isolated claims' \<and> set claims \<subseteq> set claims' \<and> (\<forall>raw \<in> set raws. \<exists>c. assertRelativePath raw = Inr c \<and> (i, c) \<in> set claims')"
proof (induction raws arbitrary: claims)
  case (Cons raw raws)
  then obtain mid where m: "addClaim i claims raw = Inr mid" "foldR (addClaim i) mid raws = Inr claims'" by (auto simp: handoff_inv)
  then obtain c where c: "assertRelativePath raw = Inr c" "foldR (addClaim i) (claims @ [(i, c)]) raws = Inr claims'"
    and n: "\<not> list_ex (\<lambda>(owner, other). \<not> js_eq owner i \<and> path_overlaps other c) claims"
    unfolding addClaim_def handoff_inv pathClaim_Inr by blast
  from Cons.IH [OF c(2) isolated_snoc [OF Cons.prems(2) n]] c(1) show ?case by auto
qed simp

lemma addAssignments_facts:
  "foldR addAssignmentClaims claims as = Inr claims' \<Longrightarrow> isolated claims \<Longrightarrow>
     isolated claims' \<and> set claims \<subseteq> set claims'
     \<and> (\<forall>a \<in> set as. \<forall>raw. writer_claim a raw \<longrightarrow> (\<exists>c. assertRelativePath raw = Inr c \<and> (own ''assignmentId'' a, c) \<in> set claims'))"
proof (induction as arbitrary: claims)
  case (Cons a as)
  then obtain mid where m: "addAssignmentClaims claims a = Inr mid" "foldR addAssignmentClaims mid as = Inr claims'" by (auto simp: handoff_inv)
  have mid: "isolated mid \<and> set claims \<subseteq> set mid
      \<and> (\<forall>raw. writer_claim a raw \<longrightarrow> (\<exists>c. assertRelativePath raw = Inr c \<and> (own ''assignmentId'' a, c) \<in> set mid))"
  proof (cases "own ''kind'' a \<noteq> JStr ''task-assignment'' \<or> own ''writer'' (own ''ownership'' a) \<noteq> JBool True")
    case True
    then show ?thesis using m(1) Cons.prems(2) by (auto simp: addAssignmentClaims_def writer_claim_def)
  next
    case False
    then obtain raws where r: "iterate (coalesce (own ''fileClaims'' (own ''ownership'' a)) (JArr [])) = Inr raws"
      "foldR (addClaim (own ''assignmentId'' a)) claims raws = Inr mid" using m(1) by (auto simp: addAssignmentClaims_def handoff_inv)
    have "set (items (own ''fileClaims'' (own ''ownership'' a))) \<subseteq> set raws" using r(1) by (cases "own ''fileClaims'' (own ''ownership'' a)") auto
    then show ?thesis using addClaims_facts [OF r(2) Cons.prems(2)] by (auto simp: writer_claim_def)
  qed
  from Cons.IH [OF m(2)] mid show ?case by (simp, blast)
qed simp

lemma isolation_facts:
  assumes "assertWriterClaimIsolation P (JArr as) = Inr r" "a \<in> set as" "b \<in> set as" "own ''assignmentId'' a \<noteq> own ''assignmentId'' b" "writer_claim a c" "writer_claim b d"
  shows "\<exists>s t. assertRelativePath c = Inr s \<and> assertRelativePath d = Inr t \<and> \<not> path_overlaps s t"
proof -
  from assms(1) obtain claims where "foldR addAssignmentClaims [] as = Inr claims" by (auto simp: assertWriterClaimIsolation_def handoff_inv)
  note f = addAssignments_facts [OF this]
  then have iso: "isolated claims" by (simp add: isolated_def)
  have rec: "\<exists>s. assertRelativePath raw = Inr s \<and> (own ''assignmentId'' x, s) \<in> set claims" if "x \<in> set as" "writer_claim x raw" for x raw
    using f that by (simp add: isolated_def)
  obtain s t where st: "assertRelativePath c = Inr s" "(own ''assignmentId'' a, s) \<in> set claims" "assertRelativePath d = Inr t"
    "(own ''assignmentId'' b, t) \<in> set claims" using rec [OF assms(2,5)] rec [OF assms(3,6)] by blast
  then have "\<not> path_overlaps s t" using iso assms(4) unfolding isolated_def by fast
  then show ?thesis using st(1,3) by blast
qed

lemma isolation_normal:
  assumes "assertWriterClaimIsolation P (JArr as) = Inr r" "a \<in> set as"
  shows "\<forall>raw. writer_claim a raw \<longrightarrow> (\<exists>s. assertRelativePath raw = Inr s)"
proof -
  from assms(1) obtain claims where "foldR addAssignmentClaims [] as = Inr claims" by (auto simp: assertWriterClaimIsolation_def handoff_inv)
  from addAssignments_facts [OF this] assms(2) show ?thesis unfolding isolated_def by fastforce
qed

section \<open>Changed paths\<close>

definition changed_paths :: "jsval \<Rightarrow> jsval list" where
  "changed_paths handoff = items (own ''changedPaths'' handoff)"

lemma handoff_value_keys: "map fst (handoff_value a ch pd tr ed gr ar) = [''formatVersion'', ''kind'', ''assignmentId'', ''assignmentHash'',
    ''baseCommit'', ''fileClaims'', ''changedPaths'', ''patchDigest'', ''terminalReceiptId'', ''pathEnforcement'', ''gateReceipts'', ''artifactRefs'', ''integration'']"
  by (simp add: handoff_value_def)

lemma handoff_value_own:
  "own ''changedPaths'' (JObj (handoff_value a ch pd tr ed gr ar)) = JArr (map JStr ch)"
  "own ''kind'' (JObj (handoff_value a ch pd tr ed gr ar)) = JStr ''writer-handoff''"
  "own ''baseCommit'' (JObj (handoff_value a ch pd tr ed gr ar)) = own ''baseCommit'' (own ''ownership'' a)"
  "own ''gateReceipts'' (JObj (handoff_value a ch pd tr ed gr ar)) = JArr gr"
  by (simp_all add: handoff_value_def)

lemma createWriterHandoff_facts:
  assumes "createWriterHandoff P input = Inr h"
  shows "\<exists>ch pd tr ed gr ar. sealed P (handoff_value (own ''assignment'' input) ch pd tr ed gr ar) ''handoffDigest'' = Inr h
     \<and> handoffEvidenceCheck P input = Inr () \<and> ch \<noteq> [] \<and> (\<forall>c \<in> set ch. changedPathCheck P (own ''ownership'' (own ''assignment'' input)) c = Inr ()
         \<and> (\<exists>v. assertRelativePath v = Inr c))
     \<and> normalizeGateReceipts P (coalesce (own ''gateReceipts'' input) (JArr [])) = Inr gr"
proof -
  from assms obtain u raws ch0 u' gr ar where h: "handoffEvidenceCheck P input = Inr u" "mapR pathClaim raws = Inr ch0" "sort ch0 \<noteq> []"
    "forR (changedPathCheck P (own ''ownership'' (own ''assignment'' input))) (sort ch0) = Inr u'"
    "normalizeGateReceipts P (coalesce (own ''gateReceipts'' input) (JArr [])) = Inr gr"
    "sealed P (handoff_value (own ''assignment'' input) (sort ch0) (own ''patchDigest'' input) (own ''receiptId'' (own ''terminalReceipt'' input))
        (own ''receiptDigest'' (own ''pathEnforcement'' input)) gr ar) ''handoffDigest'' = Inr h"
    unfolding createWriterHandoff_def handoff_inv by blast
  have "\<exists>v. assertRelativePath v = Inr c" if "c \<in> set (sort ch0)" for c using mapR_member [OF h(2), of c] that by (auto simp: pathClaim_Inr)
  then show ?thesis using h unfolding forR_eq_Inr by (cases u) blast
qed

lemma sealed_paths:
  assumes "sealed P (handoff_value a ch pd tr ed gr ar) ''handoffDigest'' = Inr h"
  shows "changed_paths h = map JStr ch"
proof -
  have "own ''changedPaths'' h = json_view (JArr (map JStr ch))"
    using sealed_own [OF assms, of "''changedPaths''"] by (simp add: handoff_value_keys handoff_value_own del: own.simps)
  then show ?thesis by (simp add: changed_paths_def comp_def)
qed

text \<open>A changed path is below a string claim of the assignment; the claim is in normal form, as the changed path has no backslash.\<close>

lemma changed_path_claimed:
  assumes "changedPathCheck P ow p = Inr ()" "assertRelativePath v = Inr p" "\<forall>raw \<in> set (items (own ''fileClaims'' ow)). \<exists>s. assertRelativePath raw = Inr s"
  shows "\<exists>raw s. raw \<in> set (items (own ''fileClaims'' ow)) \<and> assertRelativePath raw = Inr s \<and> prefix (path_parts s) (path_parts p)"
proof -
  have p: "CHR 0x5C \<notin> set p" "strip_slash p = p" using assertRelativePath_Inr(2) [OF assms(2)] strip_clean [OF assertRelativePath_clean [OF assms(2)]] by blast+
  from assms(1) obtain xs where x: "own ''fileClaims'' ow = JArr xs" "assignmentPathClaimCovered P p xs"
    by (auto simp: changedPathCheck_def claimCovered_def handoff_inv split: if_splits)
  then obtain raw where raw: "raw \<in> set xs" "case raw of JStr s \<Rightarrow> p = strip_slash s \<or> prefix (strip_slash s @ ''/'') p
        | _ \<Rightarrow> prefix (js_string P raw @ ''/'') p" unfolding assignmentPathClaimCovered_def p(2) Let_def by blast
  then obtain s where s: "assertRelativePath raw = Inr s" using assms(3) x(1) by auto
  then obtain t where t: "raw = JStr t" "s = map (\<lambda>c. if c = CHR 0x5C then CHR ''/'' else c) t"
    by (auto simp: assertRelativePath_def res_simps Let_def)
  have le: "p = strip_slash t \<or> prefix (strip_slash t @ ''/'') p" using raw(2) t(1) by simp
  have "set (strip_slash t) \<subseteq> set p" using le by (auto simp: prefix_def)
  then have nb: "CHR 0x5C \<notin> set (strip_slash t)" using p(1) by blast
  moreover have "set t \<subseteq> set (strip_slash t) \<union> {CHR ''/''}" unfolding strip_slash_def by (cases t rule: rev_cases) auto
  ultimately have "CHR 0x5C \<notin> set t" by auto
  then have st: "s = t" unfolding t(2) by (intro map_idI) auto
  have "strip_slash t = t" using strip_clean [OF assertRelativePath_clean [OF s]] st by simp
  then have "prefix (path_parts s) (path_parts p)" using le unfolding st below_iff_parts [symmetric] by simp
  then show ?thesis using raw(1) x(1) s by auto
qed

lemma handoff_paths_claimed:
  assumes "createWriterHandoff P input = Inr h" "own ''assignment'' input = a" "p \<in> set (changed_paths h)"
    and "\<forall>raw. writer_claim a raw \<longrightarrow> (\<exists>s. assertRelativePath raw = Inr s)"
  shows "\<exists>path raw s. p = JStr path \<and> writer_claim a raw \<and> assertRelativePath raw = Inr s \<and> prefix (path_parts s) (path_parts path)"
proof -
  from createWriterHandoff_facts [OF assms(1)] obtain ch pd tr ed gr ar where f: "sealed P (handoff_value a ch pd tr ed gr ar) ''handoffDigest'' = Inr h"
    "handoffEvidenceCheck P input = Inr ()" "\<forall>c \<in> set ch. changedPathCheck P (own ''ownership'' a) c = Inr () \<and> (\<exists>v. assertRelativePath v = Inr c)"
    unfolding assms(2) by blast
  from assms(3) sealed_paths [OF f(1)] obtain path where path: "p = JStr path" "path \<in> set ch" by auto
  have w: "writer_claim a raw \<longleftrightarrow> raw \<in> set (items (own ''fileClaims'' (own ''ownership'' a)))" for raw
    using f(2) assms(2) by (auto simp: writer_claim_def handoffEvidenceCheck_def handoff_inv)
  obtain v where v: "assertRelativePath v = Inr path" using f(3) path(2) by blast
  have c: "changedPathCheck P (own ''ownership'' a) path = Inr ()" using f(3) path(2) by blast
  from changed_path_claimed [OF c v] assms(4) show ?thesis unfolding w using path(1) by blast
qed

section \<open>The seal of a handoff\<close>

lemma json_view_members_filter:
  "json_view_members ps = map (\<lambda>(k, x). (k, json_view x)) (filter (\<lambda>(k, x). x \<noteq> JUndef) ps)"
  by (induction ps) auto

lemma canonicalize_members_map: "canonicalize_members ps = map (\<lambda>(k, x). (k, canonicalize x)) ps"
  by (induction ps) auto

lemma stringify_members_filter: "stringify_members P ps = stringify_members P (filter (\<lambda>(k, x). x \<noteq> JUndef) ps)"
  by (induction ps) (auto split: option.splits)

lemma stringify_members_cong:
  "list_all2 (\<lambda>(j, x) (k, y). j = k \<and> stringify P x = stringify P y) ps qs \<Longrightarrow> stringify_members P ps = stringify_members P qs"
  by (induction ps qs rule: list_all2_induct) (auto split: option.splits)

lemma insort_key_snd: "insort_key fst (k, g n) (map (\<lambda>(k, n). (k, g n)) u) = map (\<lambda>(k, n). (k, g n)) (insort_key fst (k, n) u)"
  by (induction u) auto

lemma sort_key_snd: "sort_key fst (map (\<lambda>(k, n). (k, g n)) v) = map (\<lambda>(k, n). (k, g n)) (sort_key fst v)"
proof (induction v)
  case (Cons p v)
  then show ?case by (cases p) (simp add: insort_key_snd)
qed simp

text \<open>A JSON copy has the canonical text of the value it copies.\<close>

lemma stringify_view: "stringify P (canonicalize (json_view v)) = stringify P (canonicalize v)"
proof (induction v rule: measure_induct_rule [of size])
  case (less v)
  show ?case
  proof (cases v)
    case (JArr xs)
    have "stringify_items P (map canonicalize (map (\<lambda>x. if x = JUndef then JNull else json_view x) ys)) = stringify_items P (map canonicalize ys)"
      if "set ys \<subseteq> set xs" for ys
      using that
    proof (induction ys)
      case (Cons y ys)
      have "size y < size v" using Cons.prems JArr by (auto dest: size_list_estimation' [of y xs "size y" size])
      from less.IH [OF this] Cons show ?case by auto
    qed simp
    then show ?thesis using JArr by (simp add: comp_def)
  next
    case (JObj ps)
    let ?def = "filter (\<lambda>(k, x). x \<noteq> JUndef) ps"
    let ?view = "\<lambda>(k, x). (k, canonicalize (json_view x))" and ?canon = "\<lambda>(k, x). (k, canonicalize x)"
    have a: "sort_key fst (canonicalize_members (json_view_members ps)) = map ?view (sort_key fst ?def)"
      using sort_key_snd [of "\<lambda>x. canonicalize (json_view x)" ?def]
      by (simp add: canonicalize_members_map json_view_members_filter comp_def case_prod_unfold)
    have b: "stringify_members P (sort_key fst (canonicalize_members ps)) = stringify_members P (map ?canon (sort_key fst ?def))"
    proof -
      have "filter (\<lambda>(k, x). x \<noteq> JUndef) (map ?canon qs) = map ?canon (filter (\<lambda>(k, x). x \<noteq> JUndef) qs)" for qs
      proof -
        have "canonicalize x = JUndef \<longleftrightarrow> x = JUndef" for x by (cases x) simp_all
        then show ?thesis by (induction qs) auto
      qed
      then have "filter (\<lambda>(k, x). x \<noteq> JUndef) (map ?canon (sort_key fst ps)) = map ?canon (sort_key fst ?def)"
        unfolding filter_sort [symmetric] by blast
      then show ?thesis
        using stringify_members_filter [of P "map ?canon (sort_key fst ps)"] by (simp only: canonicalize_members_map sort_key_snd)
    qed
    have "stringify P (canonicalize (json_view x)) = stringify P (canonicalize x)" if "(k, x) \<in> set ps" for k x
    proof -
      have "size x < size v" using that JObj size_list_estimation' [of "(k, x)" ps "size x" "size_prod (\<lambda>x. 0) size"] by simp
      then show ?thesis by (rule less.IH)
    qed
    then have "stringify_members P (map ?view qs) = stringify_members P (map ?canon qs)" if "set qs \<subseteq> set ps" for qs
      using that by (intro stringify_members_cong) (auto simp: list.rel_map intro!: list.rel_refl_strong)
    then have "stringify_members P (map ?view (sort_key fst ?def)) = stringify_members P (map ?canon (sort_key fst ?def))" by auto
    then show ?thesis using JObj a b by simp
  qed simp_all
qed

lemma digestValue_view: "isObj v \<Longrightarrow> digestValue P (json_view v) = digestValue P v"
  using stringify_view [of P v] by (cases v) (auto simp: digestValue_def json_text_def simp del: canonicalize.simps)

text \<open>What \<open>sealed\<close> hashes is what remains when the hash is removed from its result.\<close>

lemma sealed_unsealed:
  assumes "sealed P value hk = Inr t" "hk \<notin> set (map fst value)"
  shows "digestValue P (odelete hk t) = digestValue P (JObj value)"
proof -
  from assms(1) obtain h where t: "t = json_view (JObj (value @ [(hk, JStr h)]))" by (auto simp: sealed_def immutable_def res_simps)
  have "k \<noteq> hk" if "(k, x) \<in> set (json_view_members value)" for k x using that assms(2) by (force simp: json_view_members_filter)
  then have "AList.delete hk (json_view_members value) = json_view_members value" unfolding AList.delete_eq by (auto intro!: filter_True)
  then have "odelete hk t = json_view (JObj value)" by (simp add: t odelete_def json_view_members_filter AList.delete_eq)
  then show ?thesis using digestValue_view [of "JObj value"] by simp
qed

section \<open>Required gates\<close>

lemma digest_form: "host_ok P \<Longrightarrow> digestValue P v = Inr h \<Longrightarrow> SHA256 h"
  by (cases v) (auto simp: digestValue_def json_text_def host_ok_def SHA256_def re_hexes_def sha256_text_def res_simps split: option.splits)

lemma gate_receipts:
  assumes "normalizeGateReceipts P (JArr rs) = Inr gr" "r \<in> set rs"
  shows "\<exists>entry \<in> set gr. own ''gateId'' entry = own ''gateId'' r \<and> own ''status'' entry = own ''status'' r"
    and "distinct (map (own ''gateId'') gr)" and "\<forall>entry \<in> set gr. isObj entry \<and> distinct (keys entry) \<and> isStr (own ''gateId'' entry) \<and> isStr (own ''status'' entry)"
proof -
  from assms(1) obtain gates where g: "mapR (gateReceipt P) rs = Inr gates" "distinct (map fst (sort_by (\<lambda>a b. locale_le P (fst a) (fst b)) gates))"
    "gr = map gate_value (sort_by (\<lambda>a b. locale_le P (fst a) (fst b)) gates)" unfolding normalizeGateReceipts_def handoff_inv not_not by blast
  have one: "\<exists>i. own ''gateId'' x = JStr i \<and> fst gate = i \<and> fst (snd gate) = own ''status'' x \<and> isStr (own ''status'' x)"
    if "gateReceipt P x = Inr gate" for x gate
    using that by (auto simp: gateReceipt_def split: sum.splits if_splits)
  have ent: "own ''gateId'' (gate_value gate) = JStr (fst gate)" "own ''status'' (gate_value gate) = fst (snd gate)" "isObj (gate_value gate)" "distinct (keys (gate_value gate))" for gate
    by (cases gate; simp add: gate_value_def)+
  from mapR_member_in [OF g(1) assms(2)] obtain gate where gate: "gate \<in> set gates" "gateReceipt P r = Inr gate" by blast
  show "\<exists>entry \<in> set gr. own ''gateId'' entry = own ''gateId'' r \<and> own ''status'' entry = own ''status'' r"
    using one [OF gate(2)] gate(1) by (intro bexI [of _ "gate_value gate"]) (auto simp: g(3) ent)
  have "map (own ''gateId'') gr = map JStr (map fst (sort_by (\<lambda>a b. locale_le P (fst a) (fst b)) gates))" by (simp add: g(3) ent comp_def)
  then show "distinct (map (own ''gateId'') gr)" using g(2) by (simp add: distinct_map inj_on_def)
  show "\<forall>entry \<in> set gr. isObj entry \<and> distinct (keys entry) \<and> isStr (own ''gateId'' entry) \<and> isStr (own ''status'' entry)"
    using mapR_member [OF g(1)] one by (fastforce simp: g(3) ent)
qed

lemma find_unique: "distinct (map f xs) \<Longrightarrow> x \<in> set xs \<Longrightarrow> find (\<lambda>y. f y = f x) xs = Some x"
  by (induction xs) auto

lemma required_gate_passes:
  assumes gr: "normalizeGateReceipts P (JArr rs) = Inr gr" and r: "r \<in> set rs" "own ''status'' r = JStr ''PASS''"
    and h: "own ''gateReceipts'' h = JArr (map json_view gr)"
  shows "requiredGate h (own ''gateId'' r) = Inr ()"
proof -
  note g = gate_receipts [OF gr r(1)]
  have view: "own k (json_view e) = own k e" if "e \<in> set gr" "isStr (own k e)" for k e
    using own_view [of e k] g(3) that by (auto simp: isStr_iff)
  obtain e where e: "e \<in> set gr" "own ''gateId'' e = own ''gateId'' r" "own ''status'' e = own ''status'' r" using g(1) by blast
  have ids: "map (own ''gateId'') (map json_view gr) = map (own ''gateId'') gr" using view g(3) by simp
  have s: "isStr (own ''gateId'' r)" using g(3) e by metis
  let ?i = "own ''gateId'' r"
  have "findR (\<lambda>entry. rbind (prop_of ''gateId'' entry) (\<lambda>g. Inr (js_eq g ?i))) (map json_view gr)
      = Inr (find (\<lambda>y. own ''gateId'' y = ?i) (map json_view gr))"
  proof (rule findR_pure)
    fix x assume "x \<in> set (map json_view gr)"
    then have "isObj x" using g(3) by auto
    then show "rbind (prop_of ''gateId'' x) (\<lambda>g. Inr (js_eq g ?i)) = Inr (own ''gateId'' x = ?i)"
      using s by (auto simp: prop_of_def js_eq_def isObj_iff isStr_iff)
  qed
  moreover have "find (\<lambda>y. own ''gateId'' y = own ''gateId'' (json_view e)) (map json_view gr) = Some (json_view e)"
    by (rule find_unique, unfold ids) (use g(2) e(1) in auto)
  moreover have "own ''gateId'' (json_view e) = ?i" "own ''status'' (json_view e) = JStr ''PASS''" "truthy (json_view e)"
    using view [OF e(1)] g(3) e r(2) by (auto simp: isObj_iff)
  ultimately show ?thesis by (simp add: requiredGate_def h)
qed

section \<open>Properties\<close>


text \<open>A handoff can be integrated: on the base commit it was made for, and when every required
  gate has a passing receipt among those it was made with, the parent accepts it. The digest it
  carries is the one the parent computes again from its other fields.\<close>

theorem handoff_integrates:
  assumes "host_ok P" "createWriterHandoff P input = Inr h"
    and "isObj options" "own ''currentBaseCommit'' options = own ''baseCommit'' h" "own ''requiredGateIds'' options = JArr gates"
    and "own ''gateReceipts'' input = JArr receipts" "\<forall>g \<in> set gates. \<exists>r \<in> set receipts. own ''gateId'' r = g \<and> own ''status'' r = JStr ''PASS''"
  shows "\<exists>r. validateIntegrationHandoff P h options = Inr r \<and> own ''status'' r = JStr ''READY_FOR_PARENT_INTEGRATION''"
proof -
  from createWriterHandoff_facts [OF assms(2)] assms(6) obtain ch pd tr ed gr ar where
    sealed: "sealed P (handoff_value (own ''assignment'' input) ch pd tr ed gr ar) ''handoffDigest'' = Inr h"
    and gr: "normalizeGateReceipts P (JArr receipts) = Inr gr" by auto
  let ?v = "handoff_value (own ''assignment'' input) ch pd tr ed gr ar"
  have keys: "distinct (map fst ?v)" "''handoffDigest'' \<notin> set (map fst ?v)" by (simp_all add: handoff_value_keys)
  from sealed_hash [OF sealed keys] obtain d where d: "own ''handoffDigest'' h = JStr d" "digestValue P (JObj ?v) = Inr d" by blast
  have digest: "digestValue P (odelete ''handoffDigest'' h) = Inr d" using sealed_unsealed [OF sealed keys(2)] d(2) by simp
  have fields: "own ''kind'' h = JStr ''writer-handoff''" "own ''gateReceipts'' h = JArr (map json_view gr)"
    "own ''baseCommit'' h = json_view (own ''baseCommit'' (own ''ownership'' (own ''assignment'' input)))"
  proof -
    show "own ''kind'' h = JStr ''writer-handoff''" "own ''baseCommit'' h = json_view (own ''baseCommit'' (own ''ownership'' (own ''assignment'' input)))"
      using sealed_own [OF sealed keys] by (simp_all add: handoff_value_own del: own.simps)
    have "own ''gateReceipts'' h = json_view (JArr gr)" using sealed_own [OF sealed keys, of "''gateReceipts''"] by (simp add: handoff_value_own del: own.simps)
    moreover have "\<forall>x \<in> set gr. x \<noteq> JUndef"
    proof (cases receipts)
      case Nil
      then show ?thesis using gr by (auto simp: normalizeGateReceipts_def handoff_inv)
    next
      case (Cons r rs)
      then show ?thesis using gate_receipts(3) [OF gr, of r] by auto
    qed
    ultimately show "own ''gateReceipts'' h = JArr (map json_view gr)" by simp
  qed
  have nan: "json_view x \<noteq> JNum NaN" for x by (cases x) auto
  have "requiredGate h g = Inr ()" if "g \<in> set gates" for g
    using assms(7) that required_gate_passes [OF gr _ _ fields(2)] by auto
  then have req: "forR (requiredGate h) (js_sort P (js_uniq gates)) = Inr ()" by (simp add: forR_eq_Inr)
  have "defaulted options = options" "\<not> nullish options" using assms(3) by (auto simp: defaulted_def isObj_iff)
  then show ?thesis using fields digest d digest_form [OF assms(1) d(2)] assms(4,5) req nan
    by (simp add: validateIntegrationHandoff_def js_eq_def prop_of_def immutable_def)
qed

text \<open>Two writers on disjoint directories, for the witnesses.\<close>

definition demo_hash :: jsval where
  "demo_hash = JStr (''sha256:'' @ replicate 64 (CHR ''0''))"

definition demo_writer :: "string \<Rightarrow> string \<Rightarrow> jsval" where
  "demo_writer name claim = JObj [(''kind'', JStr ''task-assignment''), (''assignmentId'', JStr name), (''assignmentHash'', demo_hash),
     (''ownership'', JObj [(''writer'', JBool True), (''workspace'', JStr ''managed-worktree''), (''allowedPaths'', JArr [JStr ''src'']),
        (''fileClaims'', JArr [JStr claim]), (''baseCommit'', JStr (replicate 40 (CHR ''a'')))])]"

definition demo_gate :: jsval where
  "demo_gate = JObj [(''gateId'', JStr ''unit''), (''status'', JStr ''PASS''), (''receiptDigest'', demo_hash)]"

definition demo_handoff_input :: "string \<Rightarrow> string \<Rightarrow> string \<Rightarrow> jsval" where
  "demo_handoff_input name claim changed = JObj [(''assignment'', demo_writer name claim),
     (''pathEnforcement'', JObj [(''state'', JStr ''ENFORCED''), (''mechanism'', JStr ''parent-diff-verification''), (''receiptDigest'', demo_hash)]),
     (''terminalReceipt'', JObj [(''authoritative'', JBool True), (''outcome'', JStr ''completed''), (''receiptId'', demo_hash)]),
     (''changedPaths'', JArr [JStr changed]), (''patchDigest'', demo_hash), (''gateReceipts'', JArr [demo_gate])]"

lemma demo_isolated: "\<not> isl (assertWriterClaimIsolation reference_host (JArr [demo_writer ''w1'' ''src/a'', demo_writer ''w2'' ''src/b'']))"
  by code_simp

lemma demo_handoffs:
  "case createWriterHandoff reference_host (demo_handoff_input ''w1'' ''src/a'' ''src/a/x.ts'') of Inl e \<Rightarrow> False | Inr h \<Rightarrow>
     own ''changedPaths'' h = JArr [JStr ''src/a/x.ts''] \<and> own ''baseCommit'' h = JStr (replicate 40 (CHR ''a''))"
  "case createWriterHandoff reference_host (demo_handoff_input ''w2'' ''src/b'' ''src/b/y.ts'') of Inl e \<Rightarrow> False | Inr h \<Rightarrow>
     own ''changedPaths'' h = JArr [JStr ''src/b/y.ts'']"
  by code_simp+


theorem handoff_integrates_witness:
  "\<exists>h r. createWriterHandoff reference_host (demo_handoff_input ''w1'' ''src/a'' ''src/a/x.ts'') = Inr h
     \<and> validateIntegrationHandoff reference_host h
         (JObj [(''currentBaseCommit'', JStr (replicate 40 (CHR ''a''))), (''requiredGateIds'', JArr [JStr ''unit''])]) = Inr r"
proof -
  obtain h where h: "createWriterHandoff reference_host (demo_handoff_input ''w1'' ''src/a'' ''src/a/x.ts'') = Inr h" "own ''baseCommit'' h = JStr (replicate 40 (CHR ''a''))"
    using demo_handoffs(1) by (auto split: sum.splits)
  show ?thesis
    using handoff_integrates [OF reference_host_ok h(1), of "JObj [(''currentBaseCommit'', JStr (replicate 40 (CHR ''a''))), (''requiredGateIds'', JArr [JStr ''unit''])]"
        "[JStr ''unit'']" "[demo_gate]"] h
    by (auto simp: demo_handoff_input_def demo_gate_def)
qed

text \<open>
  The isolation compares path texts. A claim on \<open>./src\<close> names the directory \<open>src\<close> but is accepted
  beside a claim on \<open>src\<close>.
\<close>

lemma dot_claim_not_isolated:
  "\<not> isl (assertWriterClaimIsolation reference_host (JArr [demo_writer ''w1'' ''src'', demo_writer ''w2'' ''./src'']))"
  by code_simp

end
