(* ===== verification/Plan_Store.thy ===== *)
theory Plan_Store
  imports Plan_Compiler
begin

text \<open>
  The durable plan store, \<open>packages/subagents/state/plan-store.mjs\<close>: the immutable record that
  binds a run to its plan, its execution envelope and its input, and the request to cancel it. A
  run's directory holds two files (\<open>run_files\<close>), each absent or a text. A file is created by
  linking a written temporary, which fails when the file exists; \<open>publication\<close> says how the host's
  file system answered. An operation first reads and later creates: \<open>putPrepare\<close> and \<open>putCommit\<close>,
  \<open>cancelPrepare\<close> and \<open>cancelCommit\<close> are the two halves, and other processes may act between them.
  The guards against symbolic links and the flushes to disk are left out.
\<close>

section \<open>Checks\<close>

definition RUN_ID :: "string \<Rightarrow> bool" where
  "RUN_ID = re_ident id_char 127"

definition REQUEST_ID :: "string \<Rightarrow> bool" where
  "REQUEST_ID = re_ident id_char 191"

definition PLAN_SCHEMA :: string where
  "PLAN_SCHEMA = ''https://github.com/Ricardo121380/only-my-pi/schemas/workflow-run-plan-v1.schema.json''"

definition CANCEL_SCHEMA :: string where
  "CANCEL_SCHEMA = ''https://github.com/Ricardo121380/only-my-pi/schemas/workflow-cancel-request-v1.schema.json''"

definition EXECUTION_ENVELOPE_KEYS :: "string list" where
  "EXECUTION_ENVELOPE_KEYS = [''conditions'', ''executionEnvelopeDigest'', ''formatVersion'', ''planDigest'', ''runId'', ''runInputDigest'', ''sourceHash'', ''target'']"

definition EXECUTION_TARGET_KEYS :: "string list" where
  "EXECUTION_TARGET_KEYS = [''id'', ''kind'']"

definition PLAN_KEYS :: "string list" where
  "PLAN_KEYS = [''$schema'', ''contractStatus'', ''createdAt'', ''digest'', ''executionEnvelope'', ''executionEnvelopeDigest'', ''formatVersion'',
     ''inputDigest'', ''inputPolicy'', ''plan'', ''planDigest'', ''runId'', ''sourceHash'', ''updatedAt'']"

definition CANCEL_KEYS :: "string list" where
  "CANCEL_KEYS = [''$schema'', ''createdAt'', ''digest'', ''formatVersion'', ''reason'', ''requestId'', ''runId'', ''status'', ''updatedAt'']"

definition failStore :: "string \<Rightarrow> 'a res" where
  "failStore code = Inl (Thrown ''PlanStoreError'' code)"

definition storeExactKeys :: "jsval \<Rightarrow> string list \<Rightarrow> unit res" where
  "storeExactKeys v expected = (if \<not> isObj v \<or> sort (keys v) \<noteq> sort expected then failStore ''PLAN_RECORD_INVALID'' else Inr ())"

definition text_matches :: "(string \<Rightarrow> bool) \<Rightarrow> jsval \<Rightarrow> bool" where
  "text_matches p v = (case v of JStr s \<Rightarrow> p s | _ \<Rightarrow> False)"

definition validateRunId :: "jsval \<Rightarrow> jsval res" where
  "validateRunId v = (if \<not> text_matches RUN_ID v then failStore ''INVALID_RUN_ID'' else Inr v)"

definition validateRequestId :: "jsval \<Rightarrow> jsval res" where
  "validateRequestId v = (if \<not> text_matches REQUEST_ID v then failStore ''INVALID_CANCEL_REQUEST'' else Inr v)"

definition storeDigest :: "jsval \<Rightarrow> jsval res" where
  "storeDigest v = (if \<not> text_matches SHA256 v then failStore ''PLAN_RECORD_INVALID'' else Inr v)"

definition storeInstant :: "platform \<Rightarrow> jsval \<Rightarrow> jsval res" where
  "storeInstant P v = (if \<not> text_matches (\<lambda>s. num_isFinite (date_parse P s)) v then failStore ''PLAN_RECORD_INVALID'' else Inr v)"

definition one_line :: "string \<Rightarrow> bool" where
  "one_line s \<longleftrightarrow> CHR 0x00 \<notin> set s \<and> CHR 0x0D \<notin> set s \<and> CHR 0x0A \<notin> set s"

definition bounded_line :: "nat \<Rightarrow> string \<Rightarrow> bool" where
  "bounded_line n s \<longleftrightarrow> 1 \<le> length s \<and> length s \<le> n \<and> one_line s"

section \<open>The execution envelope\<close>

definition digestEnvelope :: "platform \<Rightarrow> jsval \<Rightarrow> string res" where
  "digestEnvelope P envelope = (if \<not> isObj envelope then failStore ''PLAN_RECORD_INVALID'' else
     digestValue P (withoutKey envelope ''executionEnvelopeDigest''))"

definition envelopeConditions :: "platform \<Rightarrow> jsval \<Rightarrow> unit res" where
  "envelopeConditions P conditions = (case conditions of
     JArr xs \<Rightarrow>
       if 128 < length xs then failStore ''PLAN_RECORD_INVALID'' else
       if \<not> distinct xs then failStore ''PLAN_RECORD_INVALID'' else
       rbind (canonicalJson P (JArr (js_sort P xs))) (\<lambda>a.
       rbind (canonicalJson P (JArr xs)) (\<lambda>b.
       if a \<noteq> b then failStore ''PLAN_RECORD_INVALID'' else
       if list_ex (\<lambda>x. \<not> text_matches (bounded_line 256) x) xs then failStore ''PLAN_RECORD_INVALID'' else Inr ()))
   | _ \<Rightarrow> failStore ''PLAN_RECORD_INVALID'')"

definition validateExecutionEnvelope :: "platform \<Rightarrow> jsval \<Rightarrow> jsval \<Rightarrow> jsval \<Rightarrow> jsval \<Rightarrow> jsval \<Rightarrow> jsval res" where
  "validateExecutionEnvelope P envelope runId planDigest inputDigest sourceHash =
     rbind (storeExactKeys envelope EXECUTION_ENVELOPE_KEYS) (\<lambda>_.
     let target = own ''target'' envelope in
     rbind (storeExactKeys target EXECUTION_TARGET_KEYS) (\<lambda>_.
     if \<not> js_eq (own ''formatVersion'' envelope) (jint 1) then failStore ''PLAN_RECORD_INVALID'' else
     if \<not> js_eq (own ''runId'' envelope) runId \<or> \<not> js_eq (own ''planDigest'' envelope) planDigest
        \<or> \<not> js_eq (own ''runInputDigest'' envelope) inputDigest \<or> \<not> js_eq (own ''sourceHash'' envelope) sourceHash then failStore ''PLAN_RECORD_DRIFT'' else
     if own ''kind'' target \<notin> {JStr ''workflow'', JStr ''swarm''} \<or> \<not> text_matches RUN_ID (own ''id'' target) then failStore ''PLAN_RECORD_INVALID'' else
     rbind (envelopeConditions P (own ''conditions'' envelope)) (\<lambda>_.
     rbind (storeDigest (own ''executionEnvelopeDigest'' envelope)) (\<lambda>_.
     rbind (digestEnvelope P envelope) (\<lambda>h.
     if own ''executionEnvelopeDigest'' envelope \<noteq> JStr h then failStore ''PLAN_RECORD_TAMPERED'' else Inr envelope)))))"

section \<open>The plan record\<close>

text \<open>\<open>validatePlan\<close>: the error carries the code of the verdict.\<close>

definition validatePlan :: "platform \<Rightarrow> jsval \<Rightarrow> jsval res" where
  "validatePlan P plan = rbind (validateWorkflowPlan P plan) (\<lambda>checked.
     case checked of Inl code \<Rightarrow> failStore code | Inr _ \<Rightarrow> if plan = JUndef then Inr JUndef else jsonClone plan)"

definition plan_record :: "jsval \<Rightarrow> jsval \<Rightarrow> jsval \<Rightarrow> jsval \<Rightarrow> jsval \<Rightarrow> jsval \<Rightarrow> jsval \<Rightarrow> jsval \<Rightarrow> jsval \<Rightarrow> jsval \<Rightarrow> (string \<times> jsval) list" where
  "plan_record createdAt digest envelope envelopeDigest inputDigest plan planDigest runId sourceHash updatedAt = [
     (''$schema'', JStr PLAN_SCHEMA), (''contractStatus'', JStr ''contract-preview''), (''createdAt'', createdAt), (''digest'', digest),
     (''executionEnvelope'', envelope), (''executionEnvelopeDigest'', envelopeDigest), (''formatVersion'', jint 1), (''inputDigest'', inputDigest),
     (''inputPolicy'', JStr ''caller-must-reprovide''), (''plan'', plan), (''planDigest'', planDigest), (''runId'', runId),
     (''sourceHash'', sourceHash), (''updatedAt'', updatedAt)]"

definition normalizePlanRecord :: "platform \<Rightarrow> jsval \<Rightarrow> jsval res" where
  "normalizePlanRecord P input =
     (if \<not> isObj input then failStore ''PLAN_RECORD_INVALID'' else
      rbind (storeExactKeys input PLAN_KEYS) (\<lambda>_.
      rbind (validatePlan P (own ''plan'' input)) (\<lambda>plan.
      rbind (validateRunId (own ''runId'' input)) (\<lambda>runId.
      if \<not> js_eq (own ''formatVersion'' input) (jint 1) \<or> own ''contractStatus'' input \<noteq> JStr ''contract-preview'' then failStore ''PLAN_RECORD_INVALID'' else
      if own ''$schema'' input \<noteq> JStr PLAN_SCHEMA then failStore ''PLAN_RECORD_INVALID'' else
      if \<not> js_eq (own ''planDigest'' input) (own ''planDigest'' plan) then failStore ''PLAN_RECORD_DRIFT'' else
      rbind (storeDigest (own ''sourceHash'' input)) (\<lambda>_.
      rbind (storeDigest (own ''inputDigest'' input)) (\<lambda>_.
      rbind (storeDigest (own ''executionEnvelopeDigest'' input)) (\<lambda>_.
      if own ''inputPolicy'' input \<noteq> JStr ''caller-must-reprovide'' then failStore ''PLAN_RECORD_INVALID'' else
      rbind (assertPlainJson (own ''executionEnvelope'' input)) (\<lambda>plain.
      rbind (validateExecutionEnvelope P plain runId (own ''planDigest'' plan) (own ''inputDigest'' input) (own ''sourceHash'' input)) (\<lambda>envelope.
      if \<not> js_eq (own ''sourceHash'' envelope) (own ''sourceHash'' input)
         \<or> \<not> js_eq (own ''executionEnvelopeDigest'' envelope) (own ''executionEnvelopeDigest'' input) then failStore ''PLAN_RECORD_DRIFT'' else
      rbind (storeInstant P (own ''createdAt'' input)) (\<lambda>_.
      rbind (storeInstant P (own ''updatedAt'' input)) (\<lambda>_.
      rbind (sha256 P (withoutKey input ''digest'')) (\<lambda>h.
      if own ''digest'' input \<noteq> JStr h then failStore ''PLAN_RECORD_TAMPERED'' else
      Inr (JObj (plan_record (own ''createdAt'' input) (own ''digest'' input) envelope (own ''executionEnvelopeDigest'' input) (own ''inputDigest'' input)
        plan (own ''planDigest'' input) runId (own ''sourceHash'' input) (own ''updatedAt'' input)))))))))))))))"

definition samePlanBinding :: "jsval \<Rightarrow> jsval \<Rightarrow> bool" where
  "samePlanBinding a b \<longleftrightarrow> list_all (\<lambda>k. js_eq (own k a) (own k b)) [''runId'', ''planDigest'', ''sourceHash'', ''inputDigest'', ''executionEnvelopeDigest'']"

definition normalizeCancelRequest :: "platform \<Rightarrow> jsval \<Rightarrow> jsval res" where
  "normalizeCancelRequest P input =
     (if \<not> isObj input then failStore ''CANCEL_REQUEST_INVALID'' else
      rbind (storeExactKeys input CANCEL_KEYS) (\<lambda>_.
      if own ''$schema'' input \<noteq> JStr CANCEL_SCHEMA \<or> \<not> js_eq (own ''formatVersion'' input) (jint 1) \<or> own ''status'' input \<noteq> JStr ''PENDING''
      then failStore ''CANCEL_REQUEST_INVALID'' else
      rbind (validateRunId (own ''runId'' input)) (\<lambda>_.
      rbind (validateRequestId (own ''requestId'' input)) (\<lambda>_.
      if \<not> text_matches (bounded_line 512) (own ''reason'' input) then failStore ''CANCEL_REQUEST_INVALID'' else
      rbind (storeInstant P (own ''createdAt'' input)) (\<lambda>_.
      rbind (storeInstant P (own ''updatedAt'' input)) (\<lambda>_.
      rbind (sha256 P (withoutKey input ''digest'')) (\<lambda>h.
      if own ''digest'' input \<noteq> JStr h then failStore ''CANCEL_REQUEST_TAMPERED'' else jsonClone input)))))))"

section \<open>Files\<close>

record run_files =
  rf_plan :: "string option"
  rf_cancel :: "string option"

definition readStored :: "platform \<Rightarrow> string option \<Rightarrow> jsval res" where
  "readStored P file = (case file of None \<Rightarrow> Inr JNull | Some text \<Rightarrow>
     (case json_parse P text of None \<Rightarrow> failStore ''PLAN_STORE_CORRUPT'' | Some v \<Rightarrow> Inr v))"

text \<open>
  How a creation went: the host failed before the link, the link was made, or the link was made and
  a later step failed. The link itself fails when the file exists.
\<close>

datatype publication = NotPublished | Published | PublishedNotConfirmed

definition atomicCreate :: "publication \<Rightarrow> string \<Rightarrow> string option \<Rightarrow> unit res \<times> string option" where
  "atomicCreate p text file =
     (if p = NotPublished then (failStore ''PLAN_STORE_WRITE_FAILED'', file) else
      case file of Some _ \<Rightarrow> (failStore ''PLAN_STORE_EXISTS'', file)
      | None \<Rightarrow> (if p = Published then Inr () else failStore ''PLAN_STORE_WRITE_FAILED'', Some text))"

section \<open>Operations\<close>

definition storeGet :: "platform \<Rightarrow> jsval \<Rightarrow> run_files \<Rightarrow> jsval res" where
  "storeGet P runId files =
     rbind (validateRunId runId) (\<lambda>_.
     rbind (readStored P (rf_plan files)) (\<lambda>raw.
     if raw = JNull then Inr JNull else
     case normalizePlanRecord P raw of Inr r \<Rightarrow> Inr r
     | Inl (Thrown c code) \<Rightarrow> (if c = ''PlanStoreError'' then failStore code else failStore ''PLAN_RECORD_CORRUPT'')
     | Inl TypeError \<Rightarrow> failStore ''PLAN_RECORD_CORRUPT''))"

definition storeRequire :: "platform \<Rightarrow> jsval \<Rightarrow> run_files \<Rightarrow> jsval res" where
  "storeRequire P runId files = rbind (storeGet P runId files) (\<lambda>r. if r = JNull then failStore ''PLAN_NOT_FOUND'' else Inr r)"

definition statused :: "string \<Rightarrow> string \<Rightarrow> jsval \<Rightarrow> jsval" where
  "statused status key v = JObj [(''status'', JStr status), (key, v)]"

text \<open>
  The first half of \<open>put\<close>: the record to create, or the result when the run is already bound. The
  clock gives \<open>instant\<close>, an ISO text.
\<close>

definition putRecord :: "platform \<Rightarrow> jsval \<Rightarrow> jsval \<Rightarrow> jsval \<Rightarrow> jsval \<Rightarrow> jsval \<Rightarrow> jsval \<Rightarrow> jsval \<Rightarrow> string \<Rightarrow> jsval res" where
  "putRecord P existing envelope envelopeDigest inputDigest plan runId sourceHash instant =
     (let record = (\<lambda>digest. JObj (plan_record (coalesce (own ''createdAt'' existing) (JStr instant)) digest envelope envelopeDigest inputDigest plan
            (own ''planDigest'' plan) runId sourceHash (coalesce (own ''updatedAt'' existing) (JStr instant)))) in
      rbind (sha256 P (withoutKey (record JUndef) ''digest'')) (\<lambda>h. normalizePlanRecord P (record (JStr h))))"

definition putPrepare :: "platform \<Rightarrow> string \<Rightarrow> jsval \<Rightarrow> run_files \<Rightarrow> (jsval + jsval) res" where
  "putPrepare P instant args files =
     (let input = defaulted args in
      if nullish input then Inl TypeError else
      rbind (validateRunId (own ''runId'' input)) (\<lambda>runId.
      rbind (validatePlan P (own ''plan'' input)) (\<lambda>plan.
      rbind (assertPlainJson (own ''executionEnvelope'' input)) (\<lambda>envelope.
      rbind (if nullish (own ''inputDigest'' input) then prop_of ''runInputDigest'' envelope else Inr (own ''inputDigest'' input)) (\<lambda>i.
      rbind (storeDigest i) (\<lambda>inputDigest.
      rbind (if nullish (own ''sourceHash'' input) then prop_of ''sourceHash'' envelope else Inr (own ''sourceHash'' input)) (\<lambda>s.
      rbind (storeDigest s) (\<lambda>sourceHash.
      rbind (if nullish (own ''executionEnvelopeDigest'' input) then prop_of ''executionEnvelopeDigest'' envelope
             else Inr (own ''executionEnvelopeDigest'' input)) (\<lambda>e.
      rbind (storeDigest e) (\<lambda>envelopeDigest.
      rbind (storeGet P runId files) (\<lambda>existing.
      rbind (putRecord P existing envelope envelopeDigest inputDigest plan runId sourceHash instant) (\<lambda>record.
      if existing = JNull then Inr (Inl record) else
      if \<not> js_eq (own ''digest'' existing) (own ''digest'' record) then failStore ''PLAN_STORE_CONFLICT'' else
      Inr (Inr (statused ''DUPLICATE'' ''record'' existing))))))))))))))"

definition storedText :: "platform \<Rightarrow> jsval \<Rightarrow> string res" where
  "storedText P v = rbind (canonicalJson P v) (\<lambda>t. Inr (t @ [CHR 0x0A]))"

text \<open>The second half of \<open>put\<close>; the files are those at the time of the link.\<close>

definition putCommit :: "platform \<Rightarrow> publication \<Rightarrow> jsval \<Rightarrow> run_files \<Rightarrow> jsval res \<times> run_files" where
  "putCommit P p record files = (case storedText P record of Inl e \<Rightarrow> (Inl e, files) | Inr text \<Rightarrow>
     (case atomicCreate p text (rf_plan files) of (created, file) \<Rightarrow>
        let files' = files\<lparr>rf_plan := file\<rparr> in
        (case created of
           Inr _ \<Rightarrow> Inr (statused ''CREATED'' ''record'' record)
         | Inl e \<Rightarrow>
             if e \<noteq> Thrown ''PlanStoreError'' ''PLAN_STORE_EXISTS'' then Inl e else
             rbind (storeGet P (own ''runId'' record) files') (\<lambda>raced.
             if js_eq (own ''digest'' raced) (own ''digest'' record) \<or> samePlanBinding raced record
             then Inr (statused ''DUPLICATE'' ''record'' raced) else failStore ''PLAN_STORE_CONFLICT''), files')))"

definition getCancelRequest :: "platform \<Rightarrow> jsval \<Rightarrow> run_files \<Rightarrow> jsval res" where
  "getCancelRequest P runId files =
     rbind (validateRunId runId) (\<lambda>_.
     rbind (readStored P (rf_cancel files)) (\<lambda>raw.
     if raw = JNull then Inr JNull else normalizeCancelRequest P raw))"

definition cancel_fields :: "string \<Rightarrow> jsval \<Rightarrow> jsval \<Rightarrow> jsval \<Rightarrow> (string \<times> jsval) list" where
  "cancel_fields instant reason requestId runId = [
     (''$schema'', JStr CANCEL_SCHEMA), (''createdAt'', JStr instant), (''formatVersion'', jint 1), (''reason'', reason), (''requestId'', requestId),
     (''runId'', runId), (''status'', JStr ''PENDING''), (''updatedAt'', JStr instant)]"

text \<open>\<open>generated\<close> is what the id factory or the host's random id gives.\<close>

definition cancelPrepare :: "platform \<Rightarrow> string \<Rightarrow> string \<Rightarrow> jsval \<Rightarrow> jsval \<Rightarrow> run_files \<Rightarrow> (jsval + jsval) res" where
  "cancelPrepare P instant generated runId options files =
     (let args = defaulted options; reason = (if own ''reason'' args = JUndef then JStr ''cancel-requested'' else own ''reason'' args) in
      if nullish args then Inl TypeError else
      rbind (validateRunId runId) (\<lambda>i.
      if \<not> text_matches (bounded_line 512) reason then failStore ''INVALID_CANCEL_REQUEST'' else
      rbind (readStored P (rf_cancel files)) (\<lambda>raw.
      if raw \<noteq> JNull then rbind (normalizeCancelRequest P raw) (\<lambda>existing. Inr (Inr (statused ''DUPLICATE'' ''request'' existing))) else
      rbind (if nullish (own ''requestId'' args) then validateRequestId (JStr generated) else Inr (own ''requestId'' args)) (\<lambda>candidate.
      rbind (validateRequestId candidate) (\<lambda>requestId.
      let fields = cancel_fields instant reason requestId i in
      rbind (sha256 P (JObj fields)) (\<lambda>h.
      rbind (normalizeCancelRequest P (JObj (fields @ [(''digest'', JStr h)]))) (\<lambda>request. Inr (Inl request))))))))"

definition cancelCommit :: "platform \<Rightarrow> publication \<Rightarrow> jsval \<Rightarrow> run_files \<Rightarrow> jsval res \<times> run_files" where
  "cancelCommit P p request files = (case storedText P request of Inl e \<Rightarrow> (Inl e, files) | Inr text \<Rightarrow>
     (case atomicCreate p text (rf_cancel files) of (created, file) \<Rightarrow>
        let files' = files\<lparr>rf_cancel := file\<rparr> in
        (case created of
           Inr _ \<Rightarrow> Inr (statused ''CREATED'' ''request'' request)
         | Inl e \<Rightarrow>
             if e \<noteq> Thrown ''PlanStoreError'' ''PLAN_STORE_EXISTS'' then Inl e else
             rbind (getCancelRequest P (own ''runId'' request) files') (\<lambda>raced. Inr (statused ''DUPLICATE'' ''request'' raced)), files')))"

end
