(* ===== verification/Plan_Store_Properties.thy ===== *)
theory Plan_Store_Properties
  imports Plan_Store Journal_Properties Plan_Properties
begin

text \<open>
  The plan store keeps the first plan and the first cancel request of a run, whatever the
  interleaving of the two halves of concurrent \<open>put\<close> and \<open>requestCancel\<close> calls: \<open>store_run\<close> is the
  step relation of the calls on one run, \<open>store_ok\<close> its invariant. A record the store accepts and
  writes is read back as it is.
\<close>

section \<open>Inversion\<close>

lemma failStore_neq_Inr [simp]: "failStore c = Inr x \<longleftrightarrow> False"
  by (simp add: failStore_def)

lemma if_failStore_eq_Inr [simp]: "((if c then failStore e else r) = Inr y) \<longleftrightarrow> \<not> c \<and> r = Inr y"
  by simp

lemmas store_inv = rbind_eq_Inr if_throw_eq_Inr if_failStore_eq_Inr prop_of_Inr Let_def

lemma text_matches_Str: "text_matches p v \<Longrightarrow> \<exists>s. v = JStr s \<and> p s"
  by (cases v) (auto simp: text_matches_def)

lemma storeDigest_Inr: "storeDigest v = Inr w \<Longrightarrow> w = v \<and> (\<exists>s. v = JStr s)"
  by (auto simp: storeDigest_def dest: text_matches_Str split: if_splits)

lemma storeInstant_Inr: "storeInstant P v = Inr w \<Longrightarrow> w = v \<and> (\<exists>s. v = JStr s)"
  by (auto simp: storeInstant_def dest: text_matches_Str split: if_splits)

lemma storeRunId_Inr: "validateRunId v = Inr w \<Longrightarrow> w = v \<and> (\<exists>s. v = JStr s)"
  by (auto simp: validateRunId_def dest: text_matches_Str split: if_splits)

lemma assertPlainJson_Inr: "assertPlainJson v = Inr w \<longleftrightarrow> canonicalValue v = Inr w"
  by (auto simp: assertPlainJson_def jsonClone_def split: sum.splits)

lemma validatePlan_Inr:
  "validatePlan P plan = Inr q \<Longrightarrow> (\<exists>facts. validateWorkflowPlan P plan = Inr (Inr facts)) \<and> (plan = JUndef \<and> q = JUndef \<or> canonicalValue plan = Inr q)"
proof -
  assume "validatePlan P plan = Inr q"
  then obtain v where v: "validateWorkflowPlan P plan = Inr v" "(case v of Inl c \<Rightarrow> failStore c | Inr _ \<Rightarrow> if plan = JUndef then Inr JUndef else jsonClone plan) = Inr q"
    unfolding validatePlan_def rbind_eq_Inr by blast
  then show ?thesis by (cases v) (auto simp: jsonClone_def split: if_splits)
qed

lemma valid_plan_digest: "validateWorkflowPlan P plan = Inr (Inr facts) \<Longrightarrow> \<exists>h. own ''planDigest'' plan = JStr h"
  unfolding validateWorkflowPlan_Inr checkWorkflowPlan_def plan_inv by (auto split: if_splits)

section \<open>The stored record\<close>

lemma plan_record_own [simp]:
  "own ''plan'' (JObj (plan_record c d en ed i p pd r s u)) = p"
  "own ''runId'' (JObj (plan_record c d en ed i p pd r s u)) = r"
  "own ''planDigest'' (JObj (plan_record c d en ed i p pd r s u)) = pd"
  "own ''sourceHash'' (JObj (plan_record c d en ed i p pd r s u)) = s"
  "own ''inputDigest'' (JObj (plan_record c d en ed i p pd r s u)) = i"
  "own ''executionEnvelope'' (JObj (plan_record c d en ed i p pd r s u)) = en"
  "own ''executionEnvelopeDigest'' (JObj (plan_record c d en ed i p pd r s u)) = ed"
  "own ''createdAt'' (JObj (plan_record c d en ed i p pd r s u)) = c"
  "own ''updatedAt'' (JObj (plan_record c d en ed i p pd r s u)) = u"
  "own ''digest'' (JObj (plan_record c d en ed i p pd r s u)) = d"
  by (simp_all add: plan_record_def own.simps(1))

lemma plan_record_keys: "map fst (plan_record c d en ed i p pd r s u) = PLAN_KEYS"
  by (simp add: plan_record_def PLAN_KEYS_def)

lemma plan_keys_order: "distinct PLAN_KEYS" "sorted PLAN_KEYS"
  by code_simp+

lemma record_canonical:
  assumes "\<forall>(k, x) \<in> set ps. canonical x \<and> distinct_names x" "distinct (map fst ps)" "sorted (map fst ps)"
  shows "canonical (JObj ps) \<and> distinct_names (JObj ps)"
proof -
  have "canonicalMembers ps = Inr ps" by (rule canonicalMembers_id) (use assms(1) in auto)
  then show ?thesis using assms by (auto simp: canonical_def sort_key_sorted list_all_iff)
qed

lemma normalizePlanRecord_fields:
  assumes n: "normalizePlanRecord P (JObj (plan_record c d en ed i p pd rid s u)) = Inr r" and can: "canonical en" "canonical p"
  shows "r = JObj (plan_record c d en ed i p pd rid s u)"
    and "\<forall>x \<in> {c, d, ed, i, pd, rid, s, u}. \<exists>t. x = JStr t"
proof -
  obtain q u1 u2 u3 u4 u5 rid' plain en' h where f: "validatePlan P p = Inr q" "validateRunId rid = Inr rid'" "js_eq pd (own ''planDigest'' q)"
    "storeDigest s = Inr u1" "storeDigest i = Inr u2" "storeDigest ed = Inr u3" "assertPlainJson en = Inr plain"
    "validateExecutionEnvelope P plain rid' (own ''planDigest'' q) i s = Inr en'"
    "storeInstant P c = Inr u4" "storeInstant P u = Inr u5" "d = JStr h"
    "Inr (JObj (plan_record c d en' ed i q pd rid' s u)) = (Inr r :: jsval res)"
    using n unfolding normalizePlanRecord_def store_inv plan_record_own not_not de_Morgan_disj by (elim exE conjE) (rule that; assumption)
  have "plain = en" using f(7) can(1) by (simp add: assertPlainJson_Inr canonical_def)
  moreover have "en' = plain" using f(8) unfolding validateExecutionEnvelope_def store_inv by auto
  moreover have q: "(\<exists>facts. validateWorkflowPlan P p = Inr (Inr facts)) \<and> q = p"
    using validatePlan_Inr [OF f(1)] can(2) by (auto simp: canonical_def)
  ultimately show "r = JObj (plan_record c d en ed i p pd rid s u)" using f(12) storeRunId_Inr [OF f(2)] by simp
  show "\<forall>x \<in> {c, d, ed, i, pd, rid, s, u}. \<exists>t. x = JStr t"
    using q valid_plan_digest f(3,11) storeRunId_Inr [OF f(2)] storeDigest_Inr [OF f(4)] storeDigest_Inr [OF f(5)] storeDigest_Inr [OF f(6)]
      storeInstant_Inr [OF f(9)] storeInstant_Inr [OF f(10)] by fastforce
qed

text \<open>A record ready to be stored: it is its own normal form and its own canonical value.\<close>

definition storable :: "platform \<Rightarrow> jsval \<Rightarrow> bool" where
  "storable P r \<longleftrightarrow> normalizePlanRecord P r = Inr r \<and> canonical r \<and> distinct_names r \<and> isObj r
     \<and> (\<exists>h. own ''digest'' r = JStr h)"

lemma putRecord_storable:
  assumes "putRecord P existing en ed i p rid s now = Inr r" "canonical en" "canonical p" "distinct_names en" "distinct_names p"
  shows "storable P r \<and> own ''runId'' r = rid \<and> own ''plan'' r = p \<and> own ''planDigest'' r = own ''planDigest'' p
     \<and> own ''executionEnvelope'' r = en \<and> own ''inputDigest'' r = i \<and> own ''sourceHash'' r = s"
proof -
  define c u where "c = coalesce (own ''createdAt'' existing) (JStr now)" and "u = coalesce (own ''updatedAt'' existing) (JStr now)"
  obtain h where n: "normalizePlanRecord P (JObj (plan_record c (JStr h) en ed i p (own ''planDigest'' p) rid s u)) = Inr r"
    using assms(1) unfolding putRecord_def store_inv c_def u_def by blast
  note f = normalizePlanRecord_fields [OF n assms(2,3)]
  have "canonical r \<and> distinct_names r" unfolding f(1)
  proof (rule record_canonical)
    show "\<forall>(k, x) \<in> set (plan_record c (JStr h) en ed i p (own ''planDigest'' p) rid s u). canonical x \<and> distinct_names x"
      using f(2) assms(2-5) by (auto simp: plan_record_def)
  qed (simp_all add: plan_record_keys plan_keys_order)
  then show ?thesis using n f(1) by (simp add: storable_def)
qed

text \<open>What was written is read rd.\<close>

lemma stored_record_read:
  assumes "host_ok P" "storable P r" "storedText P r = Inr t"
  shows "readStored P (Some t) = Inr r \<and> r \<noteq> JNull"
proof -
  from assms(2,3) obtain t' where "stringify P r = Some t'" "t = t' @ [CHR 0x0A]"
    by (auto simp: storable_def storedText_def rbind_eq_Inr canonicalJson_def canonical_def json_text_def split: option.splits)
  then show ?thesis using assms(1,2) by (auto simp: readStored_def host_ok_def storable_def)
qed

lemma storable_get:
  assumes "host_ok P" "storable P r" "storedText P r = Inr t" "validateRunId rid = Inr x" "rf_plan files = Some t"
  shows "storeGet P rid files = Inr r"
  using stored_record_read [OF assms(1-3)] assms(2,4,5) by (simp add: storeGet_def storable_def)


section \<open>The halves of the operations\<close>

lemma distinct_names_own: "distinct_names v \<Longrightarrow> distinct_names (own k v)"
  by (cases v) (auto simp: own.simps(1) list_all_iff dest: map_of_SomeD split: option.splits)

lemma distinct_names_clone: "canonicalValue v = Inr w \<Longrightarrow> distinct_names v \<Longrightarrow> distinct_names w"
  using distinct_names_canonical(1) by blast

lemma putPrepare_Inr:
  assumes p: "putPrepare P now args files = Inr out" and dn: "distinct_names args"
  shows "\<exists>existing r. storeGet P (own ''runId'' args) files = Inr existing \<and> storable P r \<and> own ''runId'' r = own ''runId'' args
     \<and> canonicalValue (own ''plan'' args) = Inr (own ''plan'' r) \<and> own ''planDigest'' r = own ''planDigest'' (own ''plan'' r)
     \<and> canonicalValue (own ''executionEnvelope'' args) = Inr (own ''executionEnvelope'' r)
     \<and> (if existing = JNull then out = Inl r else js_eq (own ''digest'' existing) (own ''digest'' r) \<and> out = Inr (statused ''DUPLICATE'' ''record'' existing))"
proof -
  define input where "input = defaulted args"
  obtain rid plan en id' i sh' sh ed' ed existing r where f: "\<not> nullish input" "validateRunId (own ''runId'' input) = Inr rid"
    "validatePlan P (own ''plan'' input) = Inr plan" "assertPlainJson (own ''executionEnvelope'' input) = Inr en"
    "storeDigest id' = Inr i" "storeDigest sh' = Inr sh" "storeDigest ed' = Inr ed" "storeGet P rid files = Inr existing"
    "putRecord P existing en ed i plan rid sh now = Inr r"
    "(if existing = JNull then Inr (Inl r) else if \<not> js_eq (own ''digest'' existing) (own ''digest'' r) then failStore ''PLAN_STORE_CONFLICT'' else
      Inr (Inr (statused ''DUPLICATE'' ''record'' existing))) = (Inr out :: (jsval + jsval) res)"
    using p unfolding putPrepare_def Let_def input_def [symmetric] rbind_eq_Inr if_throw_eq_Inr
    by (elim exE conjE) (rule that; assumption)
  have "args = input"
  proof (cases "args = JUndef")
    case True
    then show ?thesis using storeRunId_Inr [OF f(2)] f(2) by (auto simp: input_def defaulted_def)
  qed (simp add: input_def defaulted_def)
  have en: "canonicalValue (own ''executionEnvelope'' input) = Inr en" using f(4) by (simp add: assertPlainJson_Inr)
  have rid: "rid = own ''runId'' input" using storeRunId_Inr [OF f(2)] by simp
  have pl: "canonicalValue (own ''plan'' input) = Inr plan"
  proof -
    obtain facts where v: "validateWorkflowPlan P (own ''plan'' input) = Inr (Inr facts)" using validatePlan_Inr [OF f(3)] by auto
    from valid_plan_digest [OF v] have "own ''plan'' input \<noteq> JUndef" by auto
    then show ?thesis using validatePlan_Inr [OF f(3)] by auto
  qed
  have d: "distinct_names en" "distinct_names plan"
    using distinct_names_clone [OF en] distinct_names_clone [OF pl] distinct_names_own dn \<open>args = input\<close> by auto
  note st = putRecord_storable [OF f(9) canonicalValue_canonical [OF en] canonicalValue_canonical [OF pl] d]
  show ?thesis
    by (intro exI [of _ existing] exI [of _ r]) (use st f(8,10) rid pl en \<open>args = input\<close> in \<open>auto split: if_splits\<close>)
qed

text \<open>A creation leaves an existing file as it is, and a record it created is read rd.\<close>

lemma putCommit_outcome:
  assumes c: "putCommit P p r files = (res, files')" and host: "host_ok P" and st: "storable P r" and rid: "validateRunId (own ''runId'' r) = Inr x"
  shows "(files' = files \<and> rf_plan files \<noteq> None \<or> files' = files \<and> (\<exists>e. res = Inl e)
        \<or> rf_plan files = None \<and> rf_cancel files' = rf_cancel files \<and> storeGet P (own ''runId'' r) files' = Inr r)
     \<and> (\<forall>out. res = Inr out \<longrightarrow> storeGet P (own ''runId'' r) files' = Inr (own ''record'' out)
          \<and> (js_eq (own ''digest'' (own ''record'' out)) (own ''digest'' r) \<or> samePlanBinding (own ''record'' out) r))"
proof (cases "storedText P r")
  case (Inl e)
  then show ?thesis using c by (auto simp: putCommit_def)
next
  case (Inr t)
  show ?thesis
  proof (cases "p = NotPublished")
    case True
    then show ?thesis using c Inr by (auto simp: putCommit_def atomicCreate_def failStore_def Let_def)
  next
    case published: False
    show ?thesis
    proof (cases "rf_plan files")
      case None
      have "storeGet P (own ''runId'' r) (files\<lparr>rf_plan := Some t\<rparr>) = Inr r"
        by (rule storable_get [OF host st Inr rid]) simp
      moreover obtain h where "own ''digest'' r = JStr h" using st by (auto simp: storable_def)
      ultimately show ?thesis using c Inr None published
        by (auto simp: putCommit_def atomicCreate_def failStore_def statused_def Let_def js_eq_def split: if_splits)
    next
      case (Some t0)
      have "files\<lparr>rf_plan := Some t0\<rparr> = files" using Some by simp
      then show ?thesis using c Inr Some published
        by (auto simp: putCommit_def atomicCreate_def failStore_def statused_def Let_def rbind_eq_Inr split: if_splits)
    qed
  qed
qed

section \<open>Cancel requests\<close>

definition storable_cancel :: "platform \<Rightarrow> jsval \<Rightarrow> bool" where
  "storable_cancel P c \<longleftrightarrow> isObj c \<and> (\<forall>t. storedText P c = Inr t \<longrightarrow> readStored P (Some t) = Inr c \<and> normalizeCancelRequest P c = Inr c)"

lemma cancel_fields_names: "''digest'' # map fst (cancel_fields now reason req rid) = ''digest'' # filter (\<lambda>k. k \<noteq> ''digest'') CANCEL_KEYS"
  by (simp add: cancel_fields_def CANCEL_KEYS_def)

lemma cancelled_storable:
  assumes n: "normalizeCancelRequest P (JObj (cancel_fields now (JStr reason) (JStr req) (JStr rid) @ [(''digest'', JStr h)])) = Inr c"
    and h: "sha256 P (JObj (cancel_fields now (JStr reason) (JStr req) (JStr rid))) = Inr h" and host: "host_ok P"
  shows "storable_cancel P c \<and> own ''runId'' c = JStr rid"
proof -
  define ps where "ps = cancel_fields now (JStr reason) (JStr req) (JStr rid)"
  define v where "v = JObj (ps @ [(''digest'', JStr h)])"
  have cv: "canonicalValue v = Inr c"
    using n unfolding normalizeCancelRequest_def store_inv v_def ps_def jsonClone_def by auto
  have names: "map fst ps = filter (\<lambda>k. k \<noteq> ''digest'') CANCEL_KEYS" using cancel_fields_names by (simp add: ps_def)
  have d: "distinct (map fst ps)" "''digest'' \<notin> fst ` set ps"
    unfolding set_map [symmetric] names by (simp_all add: CANCEL_KEYS_def)
  have all: "\<forall>(k, x) \<in> set ps. canonical x \<and> distinct_names x" by (auto simp: ps_def cancel_fields_def)
  have norm: "readStored P (Some t) = Inr c \<and> normalizeCancelRequest P c = Inr c" if t: "storedText P c = Inr t" for t
  proof -
    have can: "canonicalValue c = Inr c" using canonicalValue_canonical [OF cv] by (simp add: canonical_def)
    obtain t' where t': "canonicalJson P v = Inr t'" "t = t' @ NL"
      using t cv can by (auto simp: storedText_def canonicalJson_def rbind_eq_Inr NL_def)
    obtain c' where c': "canonicalValue v = Inr c'" "json_parse P (t' @ NL) = Some c'" "isObj c'" "canonical c'"
      "\<forall>k. own k c' = own k v" "sort (keys c') = sort (''digest'' # map fst ps)" "sha256 P (withoutKey c' ''digest'') = Inr h"
      using stored_record [OF d(1) all d(2) h [folded ps_def] t'(1) [unfolded v_def] host] unfolding v_def by blast
    have cc: "c' = c" using c'(1) cv by simp
    have ks: "sort (keys c) = sort CANCEL_KEYS"
      using c'(6) by (simp add: cc names CANCEL_KEYS_def)
    have "own k v = own k c" for k using c'(5) cc by simp
    moreover have "own ''digest'' v = JStr h" using own_append(2) [OF d(2)] by (simp add: v_def)
    ultimately have "normalizeCancelRequest P c = Inr c"
      using n c'(3,7) ks can unfolding normalizeCancelRequest_def store_inv v_def [symmetric] ps_def [symmetric]
      by (auto simp: cc storeExactKeys_def jsonClone_def rbind_eq_Inr)
    then show ?thesis using c'(2) t'(2) by (simp add: cc readStored_def)
  qed
  have "isObj c" using canonicalValue_isObj [OF cv] by (simp add: v_def)
  moreover have "own ''runId'' v = JStr rid" by (simp add: v_def ps_def cancel_fields_def)
  then have "own ''runId'' c = JStr rid" using canonicalValue_own [OF cv [unfolded v_def], of "''runId''"] d by (simp add: v_def)
  ultimately show ?thesis using norm by (simp add: storable_cancel_def)
qed

lemma cancelPrepare_Inr:
  assumes p: "cancelPrepare P now gen rid options files = Inr out" and host: "host_ok P"
  shows "(\<exists>c. out = Inl c \<and> storable_cancel P c \<and> own ''runId'' c = rid \<and> (\<exists>x. validateRunId rid = Inr x)) \<or> (\<exists>c. out = Inr (statused ''DUPLICATE'' ''request'' c) \<and> c \<noteq> JNull \<and> getCancelRequest P rid files = Inr c)"
proof -
  define reason where "reason = (if own ''reason'' (defaulted options) = JUndef then JStr ''cancel-requested'' else own ''reason'' (defaulted options))"
  obtain i raw where f: "validateRunId rid = Inr i" "text_matches (bounded_line 512) reason" "readStored P (rf_cancel files) = Inr raw"
    "(if raw \<noteq> JNull then rbind (normalizeCancelRequest P raw) (\<lambda>existing. Inr (Inr (statused ''DUPLICATE'' ''request'' existing))) else
      rbind (if nullish (own ''requestId'' (defaulted options)) then validateRequestId (JStr gen) else Inr (own ''requestId'' (defaulted options))) (\<lambda>candidate.
      rbind (validateRequestId candidate) (\<lambda>requestId.
      rbind (sha256 P (JObj (cancel_fields now reason requestId i))) (\<lambda>h.
      rbind (normalizeCancelRequest P (JObj (cancel_fields now reason requestId i @ [(''digest'', JStr h)]))) (\<lambda>request. Inr (Inl request)))))) = Inr out"
    using p unfolding cancelPrepare_def Let_def reason_def [symmetric] rbind_eq_Inr if_throw_eq_Inr if_failStore_eq_Inr not_not
    by (elim exE conjE) (rule that; assumption)
  show ?thesis
  proof (cases "raw = JNull")
    case False
    then obtain c where c: "normalizeCancelRequest P raw = Inr c" "out = Inr (statused ''DUPLICATE'' ''request'' c)" using f(4) by (auto simp: rbind_eq_Inr)
    then have "isObj raw" "canonicalValue raw = Inr c" unfolding normalizeCancelRequest_def store_inv jsonClone_def by auto
    then have "c \<noteq> JNull" using canonicalValue_isObj by fastforce
    then show ?thesis using f(1,3) c False by (auto simp: getCancelRequest_def rbind_eq_Inr)
  next
    case True
    obtain req h c where g: "text_matches REQUEST_ID req" "sha256 P (JObj (cancel_fields now reason req i)) = Inr h"
      "normalizeCancelRequest P (JObj (cancel_fields now reason req i @ [(''digest'', JStr h)])) = Inr c" "out = Inl c"
      using f(4) True by (auto simp: rbind_eq_Inr validateRequestId_def split: if_splits)
    obtain a b d where s: "i = JStr a" "reason = JStr b" "req = JStr d" using storeRunId_Inr [OF f(1)] text_matches_Str [OF f(2)] text_matches_Str [OF g(1)] by auto
    show ?thesis using cancelled_storable [OF g(3) [unfolded s] g(2) [unfolded s] host] g(4) f(1) storeRunId_Inr [OF f(1)] s by simp
  qed
qed

lemma cancelCommit_outcome:
  assumes c: "cancelCommit P p r files = (res, files')" and st: "storable_cancel P r" and rid: "own ''runId'' r = rid" "validateRunId rid = Inr x"
  shows "rf_plan files' = rf_plan files \<and> (files' = files \<or> rf_cancel files = None)
     \<and> (\<forall>out. res = Inr out \<longrightarrow> rf_cancel files' \<noteq> None \<and> getCancelRequest P rid files' = Inr (own ''request'' out))"
proof (cases "storedText P r")
  case (Inl e)
  then show ?thesis using c by (auto simp: cancelCommit_def)
next
  case (Inr t)
  have rd: "readStored P (Some t) = Inr r" "normalizeCancelRequest P r = Inr r" "r \<noteq> JNull" using st Inr by (auto simp: storable_cancel_def)
  show ?thesis
  proof (cases "rf_cancel files")
    case None
    then show ?thesis using c Inr rd rid
      by (auto simp: cancelCommit_def atomicCreate_def failStore_def statused_def getCancelRequest_def Let_def split: if_splits)
  next
    case (Some t0)
    have "files\<lparr>rf_cancel := Some t0\<rparr> = files" using Some by simp
    then show ?thesis using c Inr Some rid
      by (auto simp: cancelCommit_def atomicCreate_def failStore_def statused_def Let_def rbind_eq_Inr split: if_splits)
  qed
qed

section \<open>Runs of the store\<close>

text \<open>
  The calls of any number of processes on the files of one run. \<open>st_puts\<close> and \<open>st_requests\<close> are
  the calls that have done their first half, \<open>st_records\<close> and \<open>st_cancels\<close> the values the calls
  have returned, the last one first.
\<close>

record store_trace =
  st_files :: run_files
  st_puts :: "jsval list"
  st_requests :: "jsval list"
  st_records :: "jsval list"
  st_cancels :: "jsval list"

definition returned :: "string \<Rightarrow> jsval res \<Rightarrow> jsval list" where
  "returned k res = (case res of Inl _ \<Rightarrow> [] | Inr out \<Rightarrow> [own k out])"

inductive store_step :: "platform \<Rightarrow> jsval \<Rightarrow> store_trace \<Rightarrow> store_trace \<Rightarrow> bool" for P rid where
  put_bound: "\<lbrakk>putPrepare P now args (st_files s) = Inr (Inr out); distinct_names args; own ''runId'' args = rid\<rbrakk>
     \<Longrightarrow> store_step P rid s (s\<lparr>st_records := own ''record'' out # st_records s\<rparr>)"
| put_prepared: "\<lbrakk>putPrepare P now args (st_files s) = Inr (Inl r); distinct_names args; own ''runId'' args = rid\<rbrakk>
     \<Longrightarrow> store_step P rid s (s\<lparr>st_puts := r # st_puts s\<rparr>)"
| put_done: "\<lbrakk>r \<in> set (st_puts s); putCommit P p r (st_files s) = (res, files)\<rbrakk>
     \<Longrightarrow> store_step P rid s (s\<lparr>st_files := files, st_puts := remove1 r (st_puts s), st_records := returned ''record'' res @ st_records s\<rparr>)"
| get: "\<lbrakk>storeGet P rid (st_files s) = Inr r; r \<noteq> JNull\<rbrakk> \<Longrightarrow> store_step P rid s (s\<lparr>st_records := r # st_records s\<rparr>)"
| cancel_bound: "cancelPrepare P now gen rid options (st_files s) = Inr (Inr out)
     \<Longrightarrow> store_step P rid s (s\<lparr>st_cancels := own ''request'' out # st_cancels s\<rparr>)"
| cancel_prepared: "cancelPrepare P now gen rid options (st_files s) = Inr (Inl c)
     \<Longrightarrow> store_step P rid s (s\<lparr>st_requests := c # st_requests s\<rparr>)"
| cancel_done: "\<lbrakk>c \<in> set (st_requests s); cancelCommit P p c (st_files s) = (res, files)\<rbrakk>
     \<Longrightarrow> store_step P rid s (s\<lparr>st_files := files, st_requests := remove1 c (st_requests s), st_cancels := returned ''request'' res @ st_cancels s\<rparr>)"
| get_cancel: "\<lbrakk>getCancelRequest P rid (st_files s) = Inr c; c \<noteq> JNull\<rbrakk> \<Longrightarrow> store_step P rid s (s\<lparr>st_cancels := c # st_cancels s\<rparr>)"

inductive store_run :: "platform \<Rightarrow> jsval \<Rightarrow> run_files \<Rightarrow> store_trace \<Rightarrow> bool" for P rid files where
  start: "store_run P rid files \<lparr>st_files = files, st_puts = [], st_requests = [], st_records = [], st_cancels = []\<rparr>"
| step: "store_run P rid files s \<Longrightarrow> store_step P rid s s' \<Longrightarrow> store_run P rid files s'"

definition store_ok :: "platform \<Rightarrow> jsval \<Rightarrow> store_trace \<Rightarrow> bool" where
  "store_ok P rid s \<longleftrightarrow> (\<forall>r \<in> set (st_puts s). storable P r \<and> own ''runId'' r = rid \<and> (\<exists>x. validateRunId rid = Inr x))
     \<and> (\<forall>c \<in> set (st_requests s). storable_cancel P c \<and> own ''runId'' c = rid \<and> (\<exists>x. validateRunId rid = Inr x))
     \<and> (\<forall>r \<in> set (st_records s). r \<noteq> JNull \<and> storeGet P rid (st_files s) = Inr r)
     \<and> (\<forall>c \<in> set (st_cancels s). rf_cancel (st_files s) \<noteq> None \<and> getCancelRequest P rid (st_files s) = Inr c)"

lemma storeGet_cong: "rf_plan a = rf_plan b \<Longrightarrow> storeGet P rid a = storeGet P rid b"
  by (simp add: storeGet_def)

lemma getCancel_cong: "rf_cancel a = rf_cancel b \<Longrightarrow> getCancelRequest P rid a = getCancelRequest P rid b"
  by (simp add: getCancelRequest_def)

lemma storeGet_absent: "storeGet P rid files = Inr r \<Longrightarrow> rf_plan files = None \<Longrightarrow> r = JNull"
  by (auto simp: storeGet_def readStored_def rbind_eq_Inr)

lemma getCancel_absent: "getCancelRequest P rid files = Inr r \<Longrightarrow> rf_cancel files = None \<Longrightarrow> r = JNull"
  by (auto simp: getCancelRequest_def readStored_def rbind_eq_Inr)

lemma storeGet_id: "storeGet P rid files = Inr r \<Longrightarrow> \<exists>x. validateRunId rid = Inr x"
  by (auto simp: storeGet_def rbind_eq_Inr)

lemma getCancel_id: "getCancelRequest P rid files = Inr r \<Longrightarrow> \<exists>x. validateRunId rid = Inr x"
  by (auto simp: getCancelRequest_def rbind_eq_Inr)

text \<open>The records returned stay the records read, whatever a creation does.\<close>

lemma put_done_ok:
  assumes ok: "store_ok P rid s" and host: "host_ok P" and r: "r \<in> set (st_puts s)" and c: "putCommit P p r (st_files s) = (res, files)"
  shows "store_ok P rid (s\<lparr>st_files := files, st_puts := remove1 r (st_puts s), st_records := returned ''record'' res @ st_records s\<rparr>)"
proof -
  from ok r obtain x where st: "storable P r" "own ''runId'' r = rid" "validateRunId (own ''runId'' r) = Inr x" by (auto simp: store_ok_def)
  note out = putCommit_outcome [OF c host st(1,3), unfolded st(2)]
  have same: "rf_cancel files = rf_cancel (st_files s)" "rf_plan (st_files s) \<noteq> None \<Longrightarrow> rf_plan files = rf_plan (st_files s)" using out by auto
  have old: "storeGet P rid files = Inr q" if "q \<in> set (st_records s)" for q
  proof -
    have q: "storeGet P rid (st_files s) = Inr q" "q \<noteq> JNull" using ok that by (auto simp: store_ok_def)
    then show ?thesis using storeGet_absent [OF q(1)] same(2) storeGet_cong [of "st_files s" files P rid] by fastforce
  qed
  have new: "q \<noteq> JNull \<and> storeGet P rid files = Inr q" if "q \<in> set (returned ''record'' res)" for q
  proof -
    from that obtain o' where o': "res = Inr o'" "q = own ''record'' o'" by (auto simp: returned_def split: sum.splits)
    obtain h where h: "own ''digest'' r = JStr h" using st(1) by (auto simp: storable_def)
    obtain i where i: "own ''runId'' r = JStr i" using st(3) storeRunId_Inr by blast
    have "storeGet P rid files = Inr q \<and> (js_eq (own ''digest'' q) (own ''digest'' r) \<or> samePlanBinding q r)" using out o' by simp
    then show ?thesis using h i by (cases "q = JNull") (simp_all add: samePlanBinding_def)
  qed
  show ?thesis using ok old new getCancel_cong [OF same(1)] same(1) unfolding store_ok_def by (simp add: ball_Un) (meson notin_set_remove1)
qed

lemma cancel_done_ok:
  assumes ok: "store_ok P rid s" and r: "c \<in> set (st_requests s)" and d: "cancelCommit P p c (st_files s) = (res, files)"
  shows "store_ok P rid (s\<lparr>st_files := files, st_requests := remove1 c (st_requests s), st_cancels := returned ''request'' res @ st_cancels s\<rparr>)"
proof -
  from ok r obtain x where st: "storable_cancel P c" "own ''runId'' c = rid" "validateRunId rid = Inr x" by (auto simp: store_ok_def)
  note out = cancelCommit_outcome [OF d st]
  have old: "rf_cancel files \<noteq> None \<and> getCancelRequest P rid files = Inr q" if "q \<in> set (st_cancels s)" for q
  proof -
    have q: "getCancelRequest P rid (st_files s) = Inr q" "rf_cancel (st_files s) \<noteq> None" using ok that by (auto simp: store_ok_def)
    then show ?thesis using out by auto
  qed
  have new: "rf_cancel files \<noteq> None \<and> getCancelRequest P rid files = Inr q" if "q \<in> set (returned ''request'' res)" for q
    using that out by (auto simp: returned_def split: sum.splits)
  have "storeGet P rid files = storeGet P rid (st_files s)" using out storeGet_cong by blast
  then show ?thesis using ok old new unfolding store_ok_def by (simp add: ball_Un) (meson notin_set_remove1)
qed

lemma prepared_ok:
  assumes p: "putPrepare P now args files = Inr out" and dn: "distinct_names args" and rid: "own ''runId'' args = rid"
  shows "(\<exists>x. validateRunId rid = Inr x) \<and> (case out of Inl r \<Rightarrow> storable P r \<and> own ''runId'' r = rid
     | Inr o' \<Rightarrow> own ''record'' o' \<noteq> JNull \<and> storeGet P rid files = Inr (own ''record'' o'))"
proof -
  from putPrepare_Inr [OF p dn, unfolded rid] obtain e r where f: "storeGet P rid files = Inr e" "storable P r" "own ''runId'' r = rid"
    "if e = JNull then out = Inl r else js_eq (own ''digest'' e) (own ''digest'' r) \<and> out = Inr (statused ''DUPLICATE'' ''record'' e)" by blast
  then show ?thesis using storeGet_id [OF f(1)] by (auto simp: statused_def split: if_splits)
qed

lemma store_step_ok: "store_step P rid s s' \<Longrightarrow> host_ok P \<Longrightarrow> store_ok P rid s \<Longrightarrow> store_ok P rid s'"
proof (induction rule: store_step.induct)
  case (put_bound now args s out)
  then show ?case using prepared_ok [OF put_bound(1-3)] by (auto simp: store_ok_def)
next
  case (put_prepared now args s r)
  then show ?case using prepared_ok [OF put_prepared(1-3)] by (auto simp: store_ok_def)
next
  case (put_done r s p res files)
  then show ?case using put_done_ok by blast
next
  case (cancel_bound now gen options s out)
  then show ?case using cancelPrepare_Inr [OF cancel_bound(1,2)] getCancel_absent [of P rid "st_files s"] by (auto simp: store_ok_def statused_def)
next
  case (cancel_prepared now gen options s c)
  then show ?case using cancelPrepare_Inr [OF cancel_prepared(1,2)] by (auto simp: store_ok_def)
next
  case (cancel_done c s p res files)
  then show ?case using cancel_done_ok by blast
next
  case (get_cancel s c)
  then show ?case using getCancel_absent [OF get_cancel(1)] by (auto simp: store_ok_def)
qed (auto simp: store_ok_def)

lemma store_run_ok: "store_run P rid files s \<Longrightarrow> host_ok P \<Longrightarrow> store_ok P rid s"
proof (induction rule: store_run.induct)
  case (step s s')
  then show ?case using store_step_ok by blast
qed (simp add: store_ok_def)

section \<open>What an accepted record says\<close>

lemma normalizePlanRecord_bound:
  assumes n: "normalizePlanRecord P input = Inr r"
  shows "isObj r \<and> keys r = PLAN_KEYS \<and> text_matches RUN_ID (own ''runId'' r)
     \<and> (\<exists>plan facts. validateWorkflowPlan P plan = Inr (Inr facts) \<and> canonicalValue plan = Inr (own ''plan'' r))
     \<and> own ''planDigest'' r = own ''planDigest'' (own ''plan'' r)
     \<and> (let e = own ''executionEnvelope'' r in own ''runId'' e = own ''runId'' r \<and> own ''planDigest'' e = own ''planDigest'' r
          \<and> own ''runInputDigest'' e = own ''inputDigest'' r \<and> own ''sourceHash'' e = own ''sourceHash'' r
          \<and> (\<exists>h. digestEnvelope P e = Inr h \<and> own ''executionEnvelopeDigest'' e = JStr h \<and> own ''executionEnvelopeDigest'' r = JStr h))"
proof -
  define pd rid i sh ed where "pd = own ''planDigest'' input" and "rid = own ''runId'' input" and "i = own ''inputDigest'' input"
    and "sh = own ''sourceHash'' input" and "ed = own ''executionEnvelopeDigest'' input"
  obtain q rid' plain e where f: "validatePlan P (own ''plan'' input) = Inr q" "validateRunId rid = Inr rid'" "js_eq pd (own ''planDigest'' q)"
    "validateExecutionEnvelope P plain rid' (own ''planDigest'' q) i sh = Inr e" "js_eq ed (own ''executionEnvelopeDigest'' e)"
    "r = JObj (plan_record (own ''createdAt'' input) (own ''digest'' input) e ed i q pd rid' sh (own ''updatedAt'' input))"
    using n unfolding normalizePlanRecord_def store_inv not_not de_Morgan_disj pd_def rid_def i_def sh_def ed_def by (auto simp: js_eq_def)
  obtain facts where v: "validateWorkflowPlan P (own ''plan'' input) = Inr (Inr facts)" using validatePlan_Inr [OF f(1)] by auto
  from valid_plan_digest [OF v] have "own ''plan'' input \<noteq> JUndef" by auto
  then have q: "canonicalValue (own ''plan'' input) = Inr q" using validatePlan_Inr [OF f(1)] by auto
  obtain h where e: "js_eq (own ''runId'' e) rid'" "js_eq (own ''planDigest'' e) (own ''planDigest'' q)" "js_eq (own ''runInputDigest'' e) i"
    "js_eq (own ''sourceHash'' e) sh" "digestEnvelope P e = Inr h" "own ''executionEnvelopeDigest'' e = JStr h"
    using f(4) unfolding validateExecutionEnvelope_def store_inv not_not de_Morgan_disj by auto
  have "keys r = PLAN_KEYS" by (simp add: f(6) plan_record_keys)
  moreover have "text_matches RUN_ID rid'" using f(2) by (auto simp: validateRunId_def split: if_splits)
  ultimately show ?thesis using v q e f(3,5) by (auto simp: f(6) js_eq_def)
qed

section \<open>An example\<close>

text \<open>One put of a plan with one checkpoint, for the witnesses.\<close>

definition stored_sha :: jsval where
  "stored_sha = JStr (''sha256:'' @ replicate 64 (CHR ''0''))"

definition stored_policy :: jsval where
  "stored_policy = JObj [(''egress'', JObj [(''mcp'', JStr ''deny''), (''provider'', JStr ''deny''), (''web'', JStr ''deny'')]), (''mutation'', JStr ''none''),
     (''tools'', JObj [(''allow'', JArr []), (''deny'', JArr [])]), (''workspace'', JStr ''shared-read-only'')]"

definition stored_plan :: jsval where
  "stored_plan = JObj [
     (''budget'', JObj [(''maxAssignments'', jint 1), (''maxAttemptsPerNode'', jint 1), (''maxDepth'', jint 1), (''maxNodes'', jint 1), (''maxParallel'', jint 1), (''maxWallTimeMs'', jint 9)]),
     (''formatVersion'', jint 1), (''id'', JStr ''p''),
     (''nodes'', JArr [JObj [(''budget'', JObj [(''maxAttempts'', jint 1), (''timeoutMs'', jint 9)]), (''id'', JStr ''n''), (''kind'', JStr ''checkpoint''),
        (''needs'', JArr []), (''policy'', stored_policy)]]),
     (''planDigest'', stored_sha), (''policy'', stored_policy), (''revision'', JObj [(''number'', jint 0), (''parentPlanDigest'', JNull)]),
     (''terminalNodeId'', JStr ''n'')]"

definition stored_envelope :: jsval where
  "stored_envelope = JObj [(''conditions'', JArr []), (''executionEnvelopeDigest'', stored_sha), (''formatVersion'', jint 1), (''planDigest'', stored_sha),
     (''runId'', JStr ''r''), (''runInputDigest'', stored_sha), (''sourceHash'', stored_sha), (''target'', JObj [(''id'', JStr ''w''), (''kind'', JStr ''workflow'')])]"

definition stored_args :: jsval where
  "stored_args = JObj [(''runId'', JStr ''r''), (''plan'', stored_plan), (''executionEnvelope'', stored_envelope)]"

definition no_files :: run_files where
  "no_files = \<lparr>rf_plan = None, rf_cancel = None\<rparr>"

lemma stored_put: "case putPrepare reference_host ''0'' stored_args no_files of Inl e \<Rightarrow> False | Inr (Inr v) \<Rightarrow> False
   | Inr (Inl r) \<Rightarrow> \<not> isl (fst (putCommit reference_host Published r no_files))"
  by code_simp

lemma stored_demo:
  obtains r out files where "putPrepare reference_host ''0'' stored_args no_files = Inr (Inl r)" "putCommit reference_host Published r no_files = (Inr out, files)"
proof -
  from stored_put obtain r where r: "putPrepare reference_host ''0'' stored_args no_files = Inr (Inl r)" "\<not> isl (fst (putCommit reference_host Published r no_files))"
    by (auto split: sum.splits)
  obtain res files where c: "putCommit reference_host Published r no_files = (res, files)" by (cases "putCommit reference_host Published r no_files")
  with r(2) obtain out where "res = Inr out" by (cases res) auto
  with that [OF r(1)] c show ?thesis by blast
qed

lemma stored_args_ok: "distinct_names stored_args" "own ''runId'' stored_args = JStr ''r''"
  by code_simp+

lemma stored_demo_get:
  obtains r files where "storeGet reference_host (JStr ''r'') files = Inr r" "r \<noteq> JNull"
proof -
  obtain r out files where d: "putPrepare reference_host ''0'' stored_args no_files = Inr (Inl r)" "putCommit reference_host Published r no_files = (Inr out, files)"
    by (rule stored_demo)
  have s: "storable reference_host r" "own ''runId'' r = JStr ''r''" "\<exists>x. validateRunId (JStr ''r'') = Inr x" using prepared_ok [OF d(1) stored_args_ok] by auto
  then obtain x where x: "validateRunId (own ''runId'' r) = Inr x" by auto
  have "storeGet reference_host (JStr ''r'') files = Inr r"
    using putCommit_outcome [OF d(2) reference_host_ok s(1) x] s(2) by (simp add: no_files_def)
  moreover have "r \<noteq> JNull" using s(1) by (auto simp: storable_def)
  ultimately show ?thesis by (rule that)
qed

section \<open>Properties\<close>

text \<open>
  (C38) Whatever text a run's plan file holds, a record \<open>get\<close> returns has exactly the record's fields
  and is bound: its plan is the clone of a valid plan whose digest it carries, and its execution
  envelope has the record's run id, plan digest, input digest and source hash and the digest the
  record names, computed from the envelope.
\<close>

theorem stored_record_bound:
  assumes "storeGet P rid files = Inr r" "r \<noteq> JNull"
  shows "keys r = PLAN_KEYS \<and> text_matches RUN_ID (own ''runId'' r)
     \<and> (\<exists>plan facts. validateWorkflowPlan P plan = Inr (Inr facts) \<and> canonicalValue plan = Inr (own ''plan'' r))
     \<and> own ''planDigest'' r = own ''planDigest'' (own ''plan'' r)
     \<and> (let e = own ''executionEnvelope'' r in own ''runId'' e = own ''runId'' r \<and> own ''planDigest'' e = own ''planDigest'' r
          \<and> own ''runInputDigest'' e = own ''inputDigest'' r \<and> own ''sourceHash'' e = own ''sourceHash'' r
          \<and> (\<exists>h. digestEnvelope P e = Inr h \<and> own ''executionEnvelopeDigest'' e = JStr h \<and> own ''executionEnvelopeDigest'' r = JStr h))"
proof -
  obtain raw where "normalizePlanRecord P raw = Inr r"
    using assms unfolding storeGet_def rbind_eq_Inr by (auto simp: failStore_def split: if_splits sum.splits js_error.splits)
  from normalizePlanRecord_bound [OF this] show ?thesis by blast
qed

theorem stored_record_bound_witness:
  "\<exists>files r. storeGet reference_host (JStr ''r'') files = Inr r \<and> keys r = PLAN_KEYS \<and> own ''planDigest'' r = own ''planDigest'' (own ''plan'' r)"
proof -
  obtain r files where g: "storeGet reference_host (JStr ''r'') files = Inr r" "r \<noteq> JNull" by (rule stored_demo_get)
  from stored_record_bound [OF g] g(1) show ?thesis by blast
qed

text \<open>
  Put and get: the record prepared for a run is exactly the requested plan and envelope, and when
  its creation succeeds a later \<open>get\<close> returns what \<open>put\<close> returned: that record when this call
  created the file, or else the record of the call that won the race, which has the same digest or
  the same binding.
\<close>

theorem put_then_get:
  assumes "host_ok P" "distinct_names args" "putPrepare P now args files = Inr (Inl r)" "putCommit P p r files' = (Inr out, files'')"
  shows "canonicalValue (own ''plan'' args) = Inr (own ''plan'' r) \<and> canonicalValue (own ''executionEnvelope'' args) = Inr (own ''executionEnvelope'' r)
     \<and> storeGet P (own ''runId'' args) files'' = Inr (own ''record'' out)
     \<and> (if rf_plan files' = None then out = statused ''CREATED'' ''record'' r
        else files'' = files' \<and> (js_eq (own ''digest'' (own ''record'' out)) (own ''digest'' r) \<or> samePlanBinding (own ''record'' out) r))"
proof -
  from putPrepare_Inr [OF assms(3,2)] have r: "storable P r" "own ''runId'' r = own ''runId'' args"
    "canonicalValue (own ''plan'' args) = Inr (own ''plan'' r)" "canonicalValue (own ''executionEnvelope'' args) = Inr (own ''executionEnvelope'' r)"
    by (auto split: if_splits)
  from prepared_ok [OF assms(3,2) refl] obtain x where x: "validateRunId (own ''runId'' r) = Inr x" using r(2) by auto
  have "rf_plan files' = None \<longrightarrow> out = statused ''CREATED'' ''record'' r"
    using assms(4) by (auto simp: putCommit_def atomicCreate_def failStore_def Let_def split: sum.splits prod.splits if_splits)
  then show ?thesis using putCommit_outcome [OF assms(4,1) r(1) x] r by auto
qed

theorem put_then_get_witness:
  "\<exists>r files. putPrepare reference_host ''0'' stored_args no_files = Inr (Inl r)
     \<and> putCommit reference_host Published r no_files = (Inr (statused ''CREATED'' ''record'' r), files) \<and> own ''plan'' r = stored_plan"
proof -
  obtain r out files where d: "putPrepare reference_host ''0'' stored_args no_files = Inr (Inl r)" "putCommit reference_host Published r no_files = (Inr out, files)"
    by (rule stored_demo)
  note p = put_then_get [OF reference_host_ok stored_args_ok(1) d]
  have c: "canonicalValue (own ''plan'' stored_args) = Inr stored_plan" by code_simp
  have "out = statused ''CREATED'' ''record'' r" using p by (simp add: no_files_def)
  moreover have "own ''plan'' r = stored_plan" using p c by simp
  ultimately show ?thesis using d by blast
qed

text \<open>
  (C37) However the calls of several processes interleave, the store binds a run to one plan: every
  record that any \<open>put\<close> or \<open>get\<close> of the run has returned is the one \<open>get\<close> returns now, so all of
  them are equal, and the same holds for the cancel request of the run.
\<close>

theorem stored_plan_never_changes:
  assumes "store_run P rid files s" "host_ok P"
  shows "(\<forall>r \<in> set (st_records s). storeGet P rid (st_files s) = Inr r) \<and> (\<forall>c \<in> set (st_cancels s). getCancelRequest P rid (st_files s) = Inr c)"
  using store_run_ok [OF assms] by (simp add: store_ok_def)

theorem stored_plan_never_changes_witness:
  "\<exists>s r. store_run reference_host (JStr ''r'') no_files s \<and> st_records s = [r] \<and> storeGet reference_host (JStr ''r'') (st_files s) = Inr r"
proof -
  obtain r out files where d: "putPrepare reference_host ''0'' stored_args no_files = Inr (Inl r)" "putCommit reference_host Published r no_files = (Inr out, files)"
    by (rule stored_demo)
  let ?a = "\<lparr>st_files = no_files, st_puts = [], st_requests = [], st_records = [], st_cancels = []\<rparr>"
  let ?b = "?a\<lparr>st_puts := r # st_puts ?a\<rparr>"
  let ?c = "?b\<lparr>st_files := files, st_puts := remove1 r (st_puts ?b), st_records := returned ''record'' (Inr out) @ st_records ?b\<rparr>"
  have b: "store_run reference_host (JStr ''r'') no_files ?b"
    by (rule store_run.step [OF store_run.start store_step.put_prepared]) (use d(1) stored_args_ok in simp_all)
  have c: "store_run reference_host (JStr ''r'') no_files ?c"
    by (rule store_run.step [OF b store_step.put_done]) (use d(2) in simp_all)
  show ?thesis using c stored_plan_never_changes [OF c reference_host_ok] by (intro exI [of _ ?c]) (simp add: returned_def)
qed

end
