(* ===== verification/Run_Terminal.thy ===== *)
theory Run_Terminal
  imports Plan_Store Domain_Shared
begin

text \<open>
  The pure part of \<open>packages/subagents/workflow/run-coordinator/index.mjs\<close> before the projection of
  a run: the input and the execution envelope of a run, what is kept of the output of a child
  (\<open>boundedOutputProjection\<close> with its scanning loop, \<open>safeProjection\<close>), the terminal record of an
  attempt and its budget vectors.
\<close>

definition RUN_MUTATING_TOOLS :: "string list" where
  "RUN_MUTATING_TOOLS = [''bash'', ''edit'', ''write'']"

definition SUCCESS_NODE_OUTCOMES :: "string list" where
  "SUCCESS_NODE_OUTCOMES = [''completed'', ''pass'']"

definition TERMINAL_RUN_STATES :: "string list" where
  "TERMINAL_RUN_STATES = [''completed'', ''failed'', ''cancelled'', ''interrupted'', ''orphaned'', ''timed-out'', ''budget-exhausted'', ''unavailable'']"

definition MAX_RUN_INPUT_BYTES :: int where
  "MAX_RUN_INPUT_BYTES = 256 * 1024"

definition EXECUTION_TARGET_KINDS :: "string list" where
  "EXECUTION_TARGET_KINDS = [''workflow'', ''swarm'']"

definition failCoord :: "string \<Rightarrow> 'a res" where
  "failCoord code = Inl (Thrown ''RunCoordinatorError'' code)"

text \<open>\<open>Buffer.byteLength(JSON.stringify(value ?? null), "utf8")\<close>.\<close>

definition byteLength :: "platform \<Rightarrow> jsval \<Rightarrow> int" where
  "byteLength P v = (case stringify P (coalesce v JNull) of None \<Rightarrow> 0 | Some t \<Rightarrow> int (utf8_length t))"

section \<open>Input and execution envelope\<close>

definition normalizeRunInput :: "platform \<Rightarrow> jsval \<Rightarrow> jsval res" where
  "normalizeRunInput P v = (case assertPlainJson (coalesce v (JObj [])) of
     Inl e \<Rightarrow> failCoord ''INVALID_RUN_INPUT''
   | Inr input \<Rightarrow> (if byteLength P input > MAX_RUN_INPUT_BYTES then failCoord ''RUN_INPUT_TOO_LARGE'' else Inr input))"

definition normalizeConditions :: "platform \<Rightarrow> jsval \<Rightarrow> jsval res" where
  "normalizeConditions P v = (case v of
     JArr xs \<Rightarrow>
       if length xs > 128 then failCoord ''INVALID_EXECUTION_ENVELOPE'' else
       if list_ex (\<lambda>x. \<not> text_matches (bounded_line 256) x) xs then failCoord ''INVALID_EXECUTION_ENVELOPE'' else
       if \<not> distinct xs then failCoord ''INVALID_EXECUTION_ENVELOPE'' else Inr (JArr (js_sort P xs))
   | _ \<Rightarrow> failCoord ''INVALID_EXECUTION_ENVELOPE'')"

definition executionEnvelopePayload :: "jsval \<Rightarrow> jsval \<Rightarrow> jsval \<Rightarrow> jsval \<Rightarrow> jsval \<Rightarrow> jsval \<Rightarrow> (string \<times> jsval) list" where
  "executionEnvelopePayload runId planDigest sourceHash runInputDigest target conditions = [
     (''formatVersion'', jint 1), (''runId'', runId), (''planDigest'', planDigest), (''sourceHash'', sourceHash),
     (''runInputDigest'', runInputDigest), (''target'', target), (''conditions'', conditions)]"

definition canonicalRunId :: "jsval \<Rightarrow> jsval res" where
  "canonicalRunId v = (if \<not> text_matches RUN_ID v then failCoord ''INVALID_RUN_ID'' else Inr v)"

definition executionTargetOk :: "jsval \<Rightarrow> bool" where
  "executionTargetOk target \<longleftrightarrow> isObj target \<and> own ''kind'' target \<in> set (map JStr EXECUTION_TARGET_KINDS)
     \<and> text_matches (\<lambda>s. s \<noteq> [] \<and> length s \<le> 128) (own ''id'' target) \<and> set (keys target) \<subseteq> {''kind'', ''id''}"

text \<open>\<open>SHA256.test(value ?? "")\<close>, which converts what is no string.\<close>

definition sha_text :: "platform \<Rightarrow> jsval \<Rightarrow> bool" where
  "sha_text P v \<longleftrightarrow> SHA256 (js_string P (coalesce v (JStr '''')))"

definition createExecutionEnvelope :: "platform \<Rightarrow> jsval \<Rightarrow> jsval \<Rightarrow> jsval res" where
  "createExecutionEnvelope P plan args =
     (let options = defaulted args in
      rbind (validateWorkflowPlan P plan) (\<lambda>checked.
      case checked of Inl code \<Rightarrow> failCoord code | Inr _ \<Rightarrow>
      rbind (prop_of ''runInputDigest'' options) (\<lambda>given.
      rbind (if nullish given then rbind (normalizeRunInput P (own ''input'' options)) (\<lambda>input. rbind (digestValue P input) (\<lambda>h. Inr (JStr h)))
             else Inr given) (\<lambda>inputDigest.
      rbind (canonicalRunId (own ''runId'' options)) (\<lambda>runId.
      let target = coalesce (own ''target'' options) (JObj [(''kind'', JStr ''workflow''), (''id'', own ''id'' plan)]) in
      if \<not> executionTargetOk target then failCoord ''INVALID_EXECUTION_ENVELOPE'' else
      rbind (normalizeConditions P (coalesce (own ''conditions'' options) (JArr []))) (\<lambda>conditions.
      let planDigest = coalesce (own ''planDigest'' options) (own ''planDigest'' plan);
          sourceHash = coalesce (own ''sourceHash'' options) (own ''definitionDigest'' plan);
          payload = executionEnvelopePayload runId planDigest sourceHash inputDigest
            (JObj [(''kind'', own ''kind'' target), (''id'', own ''id'' target)]) conditions in
      if \<not> js_eq planDigest (own ''planDigest'' plan) then failCoord ''EXECUTION_PLAN_DRIFT'' else
      if \<not> sha_text P sourceHash then failCoord ''INVALID_EXECUTION_ENVELOPE'' else
      if \<not> sha_text P inputDigest then failCoord ''INVALID_EXECUTION_ENVELOPE'' else
      rbind (digestValue P (JObj payload)) (\<lambda>h.
      let expected = own ''executionEnvelopeDigest'' options in
      if expected \<noteq> JUndef \<and> expected \<noteq> JStr h then failCoord ''EXECUTION_ENVELOPE_DRIFT'' else
      Inr (JObj (payload @ [(''executionEnvelopeDigest'', JStr h)])))))))))"

section \<open>Bounded output\<close>

definition SCRUBBED :: "string list" where
  "SCRUBBED = [''prompt'', ''promptText'', ''reasoning'', ''rawOutput'', ''credentials'', ''token'', ''secret'', ''env'', ''task'', ''content'']"

fun scrub :: "jsval \<Rightarrow> jsval"
  and scrub_members :: "(string \<times> jsval) list \<Rightarrow> (string \<times> jsval) list" where
  "scrub (JArr xs) = JArr (map scrub xs)"
| "scrub (JObj ps) = JObj (scrub_members ps)"
| "scrub v = v"
| "scrub_members [] = []"
| "scrub_members ((k, x) # ps) = (if k \<in> set SCRUBBED then scrub_members ps else (k, scrub x) # scrub_members ps)"

definition safeProjection :: "platform \<Rightarrow> int \<Rightarrow> jsval \<Rightarrow> jsval res" where
  "safeProjection P maxBytes v =
     (if \<not> isObj v \<and> \<not> isArr v then Inr (coalesce v JNull) else
      let scrubbed = scrub v in
      if byteLength P scrubbed \<le> maxBytes then Inr scrubbed else
      rbind (digestValue P scrubbed) (\<lambda>h.
      Inr (JObj [(''truncated'', JBool True), (''digest'', JStr h), (''bytes'', jint (byteLength P scrubbed))])))"

text \<open>
  One run of the scanning loop, which walks the value with a stack and adds up the length of its
  JSON text: the failure, the bytes and the nodes seen. The first ten thousand nodes bound the loop.
\<close>

type_synonym frame = "jsval \<times> int"

definition OUTPUT_LIMIT :: string where
  "OUTPUT_LIMIT = ''OUTPUT_LIMIT_EXCEEDED''"

definition separators :: "'a list \<Rightarrow> int" where
  "separators xs = 2 + max 0 (int (length xs) - 1)"

definition children :: "jsval \<Rightarrow> int \<Rightarrow> frame list" where
  "children v depth = (case v of JArr xs \<Rightarrow> map (\<lambda>x. (x, depth + 1)) xs | JObj ps \<Rightarrow> map (\<lambda>(_, x). (x, depth + 1)) ps | _ \<Rightarrow> [])"

text \<open>What a node adds: \<open>None\<close> for what has no JSON text.\<close>

definition own_bytes :: "platform \<Rightarrow> jsval \<Rightarrow> int option" where
  "own_bytes P v = (case v of
     JNull \<Rightarrow> Some 4
   | JStr s \<Rightarrow> Some (int (utf8_length (json_quote s)))
   | JNum n \<Rightarrow> map_option (int \<circ> utf8_length) (stringify P v)
   | JBool b \<Rightarrow> map_option (int \<circ> utf8_length) (stringify P v)
   | JArr xs \<Rightarrow> Some (separators xs)
   | JObj ps \<Rightarrow> Some (separators ps + sum_list (map (\<lambda>(k, _). int (utf8_length (json_quote k)) + 1) ps))
   | JUndef \<Rightarrow> None)"

function boundedScan :: "platform \<Rightarrow> int \<Rightarrow> frame list \<Rightarrow> int \<Rightarrow> int \<Rightarrow> string option \<times> int \<times> int" where
  "boundedScan P limit [] bytes nodes = (None, bytes, nodes)"
| "boundedScan P limit ((candidate, depth) # stack) bytes nodes =
     (let nodes' = nodes + 1 in
      if nodes' > 10000 \<or> depth > 64 then (Some OUTPUT_LIMIT, bytes, nodes') else
      case own_bytes P candidate of
        None \<Rightarrow> (Some OUTPUT_LIMIT, bytes, nodes')
      | Some amount \<Rightarrow>
          let raw = (case candidate of JStr s \<Rightarrow> int (utf8_length s) | _ \<Rightarrow> 0) in
          if isStr candidate \<and> raw > limit - bytes then (Some OUTPUT_LIMIT, max (limit + 1) (bytes + raw + 2), nodes') else
          if bytes + amount > limit then (Some OUTPUT_LIMIT, bytes + amount, nodes') else
          boundedScan P limit (children candidate depth @ stack) (bytes + amount) nodes')"
  by pat_completeness auto

termination
  by (relation "measure (\<lambda>(P, limit, stack, bytes, nodes). nat (10001 - nodes))") (auto simp: Let_def)

definition js_typeof :: "jsval \<Rightarrow> string" where
  "js_typeof v = (case v of JUndef \<Rightarrow> ''undefined'' | JNull \<Rightarrow> ''object'' | JBool _ \<Rightarrow> ''boolean'' | JNum _ \<Rightarrow> ''number''
     | JStr _ \<Rightarrow> ''string'' | JArr _ \<Rightarrow> ''object'' | JObj _ \<Rightarrow> ''object'')"

record bounded_output =
  out_projection :: jsval
  out_rawBytes :: int
  out_errorCode :: jsval
  out_digest :: string

definition boundedOutputProjection :: "platform \<Rightarrow> jsval \<Rightarrow> int \<Rightarrow> bounded_output res" where
  "boundedOutputProjection P v maxOutputBytes = (case boundedScan P maxOutputBytes [(v, 0)] 0 0 of
     (Some failure, bytes, nodes) \<Rightarrow>
       let observed = max (maxOutputBytes + 1) bytes in
       rbind (digestValue P (JObj [(''code'', JStr failure), (''observedBytes'', jint observed), (''nodes'', jint nodes),
          (''type'', JStr (if isArr v then ''array'' else js_typeof v))])) (\<lambda>h.
       Inr \<lparr> out_projection = JObj [(''truncated'', JBool True), (''code'', JStr failure), (''observedBytes'', jint observed), (''digest'', JStr h)],
             out_rawBytes = observed, out_errorCode = JStr failure, out_digest = h \<rparr>)
   | (None, bytes, nodes) \<Rightarrow>
       rbind (safeProjection P (32 * 1024) v) (\<lambda>projection.
       rbind (digestValue P v) (\<lambda>h.
       Inr \<lparr> out_projection = projection, out_rawBytes = bytes, out_errorCode = JNull, out_digest = h \<rparr>)))"

section \<open>Terminals\<close>

definition is_one_of :: "string list \<Rightarrow> jsval \<Rightarrow> bool" where
  "is_one_of names v \<longleftrightarrow> v \<in> set (map JStr names)"

text \<open>\<open>mapping[outcome] ?? "failed"\<close>; the names inherited by every object are left out.\<close>

definition terminalRunStatus :: "jsval \<Rightarrow> string" where
  "terminalRunStatus outcome = (case outcome of JStr s \<Rightarrow>
     (case map_of [(''completed'', ''completed''), (''pass'', ''completed''), (''failed'', ''failed''), (''fail'', ''failed''), (''cancelled'', ''cancelled''),
        (''interrupted'', ''interrupted''), (''orphaned'', ''orphaned''), (''timed-out'', ''timed-out''), (''budget-exhausted'', ''budget-exhausted''),
        (''unavailable'', ''unavailable'')] s of Some t \<Rightarrow> t | None \<Rightarrow> ''failed'')
   | _ \<Rightarrow> ''failed'')"

definition terminalEventType :: "string \<Rightarrow> string" where
  "terminalEventType status =
     (case map_of [(''completed'', ''RunCompleted''), (''failed'', ''RunFailed''), (''cancelled'', ''RunCancelled''), (''interrupted'', ''RunInterrupted''),
        (''orphaned'', ''RunOrphaned''), (''timed-out'', ''RunFailed''), (''budget-exhausted'', ''RunFailed''), (''unavailable'', ''RunFailed'')] status
      of Some t \<Rightarrow> t | None \<Rightarrow> ''RunFailed'')"

definition nodeMutates :: "jsval \<Rightarrow> bool res" where
  "nodeMutates node = (let policy = own ''policy'' node; allow = own ''allow'' (own ''tools'' policy) in
     if own ''mutation'' policy \<noteq> JStr ''none'' then Inr True else
     if nullish allow then Inr False else
     rbind (arr_of allow) (\<lambda>tools. Inr (list_ex (is_one_of RUN_MUTATING_TOOLS) tools)))"

definition planNeedsApproval :: "jsval \<Rightarrow> bool res" where
  "planNeedsApproval plan = rbind (arr_of (own ''nodes'' plan)) (\<lambda>nodes.
     rbind (findR (\<lambda>node. if own ''kind'' node = JStr ''approval'' then Inr True else nodeMutates node) nodes) (\<lambda>found.
     Inr (found \<noteq> None)))"

record observation =
  ob_rawOutputBytes :: jsnum
  ob_elapsedMs :: jsnum
  ob_assignments :: jsnum
  ob_tokens :: jsnum
  ob_cost :: jsnum

record run_terminal =
  tm_outcome :: jsval
  tm_authoritative :: bool
  tm_receiptId :: string
  tm_result :: jsval
  tm_usage :: jsval
  tm_error :: jsval
  tm_handle :: jsval
  tm_observed :: observation
  tm_budgetOverrun :: bool
  tm_outputErrorCode :: jsval
  tm_outputDigest :: string

text \<open>\<open>finiteMetric(...values) ?? fallback\<close>.\<close>

fun finiteMetric :: "jsval list \<Rightarrow> jsnum \<Rightarrow> jsnum" where
  "finiteMetric [] d = d"
| "finiteMetric (JNum n # vs) d = (if num_isFinite n then n else finiteMetric vs d)"
| "finiteMetric (_ # vs) d = finiteMetric vs d"

definition observedUsage :: "jsval \<Rightarrow> jsval \<Rightarrow> int \<Rightarrow> observation" where
  "observedUsage receipt rawUsage rawOutputBytes =
     (let total = own ''totalTokens'' (own ''completion'' receipt); cost = own ''totalCost'' (own ''completion'' receipt) in
      \<lparr> ob_rawOutputBytes = num_of_int rawOutputBytes,
        ob_elapsedMs = finiteMetric [own ''elapsedMs'' rawUsage, own ''durationMs'' rawUsage] (Fin 0),
        ob_assignments = finiteMetric [own ''assignments'' rawUsage] (Fin 1),
        ob_tokens = finiteMetric [own ''tokens'' rawUsage, own ''total'' rawUsage, own ''total'' total, own ''totalTokens'' cost] (Fin 0),
        ob_cost = finiteMetric [own ''costUsd'' rawUsage, own ''cost'' rawUsage, own ''costUsd'' cost] (Fin 0) \<rparr>)"

definition correlated :: "string \<Rightarrow> jsval \<Rightarrow> jsval \<Rightarrow> bool" where
  "correlated key receipt expected \<longleftrightarrow> own key receipt = JUndef \<or> js_eq (own key receipt) expected"

record terminal_options =
  to_runId :: jsval
  to_nodeId :: jsval
  to_attemptId :: jsval
  to_fallback :: string
  to_maxOutputBytes :: int

definition normalizeTerminal :: "platform \<Rightarrow> jsval \<Rightarrow> terminal_options \<Rightarrow> run_terminal res" where
  "normalizeTerminal P v A =
     (let receipt = coalesce (own ''terminal'' v) (coalesce (own ''receipt'' v) v);
          rawResult = coalesce (own ''result'' receipt) (coalesce (own ''data'' receipt) JNull);
          rawUsage = coalesce (own ''usage'' receipt) (coalesce (own ''usage'' (own ''completion'' receipt)) (coalesce (own ''usage'' v) JNull)) in
      rbind (boundedOutputProjection P rawResult (to_maxOutputBytes A)) (\<lambda>output'.
      rbind (boundedOutputProjection P rawUsage 4096) (\<lambda>usage.
      rbind (boundedOutputProjection P (coalesce (own ''error'' receipt) (coalesce (own ''error'' v) JNull)) 4096) (\<lambda>err.
      rbind (boundedOutputProjection P (coalesce (own ''handle'' v) (coalesce (own ''handle'' receipt) JNull)) (16 * 1024)) (\<lambda>handle.
      let outcome = coalesce (own ''outcome'' receipt) (JStr (if own ''status'' receipt = JStr ''PASS'' then ''completed''
            else if own ''status'' receipt = JStr ''FAIL'' then ''failed'' else to_fallback A));
          authoritative = (own ''authoritative'' receipt = JBool True) in
      if \<not> correlated ''runId'' receipt (to_runId A) \<or> \<not> correlated ''nodeId'' receipt (to_nodeId A)
         \<or> \<not> correlated ''attemptId'' receipt (to_attemptId A) then failCoord ''TERMINAL_CORRELATION_MISMATCH'' else
      rbind (if text_matches SHA256 (own ''receiptId'' receipt) then Inr (js_string P (own ''receiptId'' receipt)) else
         digestValue P (JObj [(''runId'', to_runId A), (''nodeId'', to_nodeId A), (''attemptId'', to_attemptId A), (''outcome'', outcome),
           (''authoritative'', JBool authoritative), (''resultDigest'', JStr (out_digest output')), (''usageDigest'', JStr (out_digest usage)),
           (''errorDigest'', JStr (out_digest err))])) (\<lambda>receiptId.
      Inr \<lparr> tm_outcome = outcome, tm_authoritative = authoritative, tm_receiptId = receiptId, tm_result = out_projection output',
            tm_usage = out_projection usage, tm_error = out_projection err,
            tm_handle = (if out_errorCode handle = JNull then out_projection handle else JNull),
            tm_observed = observedUsage receipt rawUsage (out_rawBytes output'), tm_budgetOverrun = False,
            tm_outputErrorCode = out_errorCode output', tm_outputDigest = out_digest output' \<rparr>))))))"

section \<open>Budget of an attempt\<close>

definition observedOf :: "string \<Rightarrow> observation \<Rightarrow> jsnum" where
  "observedOf resource observed = (if resource = ''elapsedMs'' then ob_elapsedMs observed else if resource = ''rawOutputBytes'' then ob_rawOutputBytes observed
     else if resource = ''tokens'' then ob_tokens observed else ob_cost observed)"

definition usageVector :: "jsval \<Rightarrow> run_terminal \<Rightarrow> jsval" where
  "usageVector node terminal = (let observed = tm_observed terminal; budget = own ''budget'' node in
     JObj ((if own ''kind'' node = JStr ''agent'' then [(''assignments'', jint 1)] else [])
       @ (if own ''kind'' node = JStr ''batch-swarm'' then [(''assignments'', JNum (ob_assignments observed))] else [])
       @ [(''rawOutputBytes'', JNum (ob_rawOutputBytes observed)), (''elapsedMs'', JNum (ob_elapsedMs observed))]
       @ (if own ''maxTokens'' budget \<noteq> JNull then [(''tokens'', JNum (ob_tokens observed))] else [])
       @ (if own ''maxCostUsd'' budget \<noteq> JNull then [(''cost'', JNum (ob_cost observed))] else [])))"

definition attemptLimits :: "jsval \<Rightarrow> (string \<times> jsval) list" where
  "attemptLimits node = (let budget = own ''budget'' node in
     [(''elapsedMs'', own ''timeoutMs'' budget), (''rawOutputBytes'', own ''maxOutputBytes'' budget)]
     @ (if own ''maxTokens'' budget = JNull then [] else [(''tokens'', own ''maxTokens'' budget)])
     @ (if own ''maxCostUsd'' budget = JNull then [] else [(''cost'', own ''maxCostUsd'' budget)]))"

definition overrun :: "platform \<Rightarrow> observation \<Rightarrow> string \<times> jsval \<Rightarrow> jsval list" where
  "overrun P observed entry = (case entry of (resource, limit) \<Rightarrow>
     let n = observedOf resource observed in
     if \<not> num_isFinite n \<or> num_less n (Fin 0) \<or> resource \<noteq> ''cost'' \<and> \<not> num_isSafeInteger n \<or> js_less P limit (JNum n)
     then [JObj [(''resource'', JStr resource), (''limit'', limit), (''observed'', if num_isFinite n then JNum n else JNull)]] else [])"

definition budgetOverruns :: "platform \<Rightarrow> jsval \<Rightarrow> run_terminal \<Rightarrow> jsval list" where
  "budgetOverruns P node terminal = concat (map (overrun P (tm_observed terminal)) (attemptLimits node))"

definition asBudgetOverrunTerminal :: "platform \<Rightarrow> run_terminal \<Rightarrow> string \<Rightarrow> jsval list \<Rightarrow> run_terminal res" where
  "asBudgetOverrunTerminal P terminal outcome overruns =
     (if tm_budgetOverrun terminal \<or> overruns = [] then Inr terminal else
      let err = JObj [(''code'', JStr ''BUDGET_OVERRUN''), (''causeCode'', tm_outputErrorCode terminal), (''outcome'', JStr outcome), (''overruns'', JArr overruns)] in
      rbind (digestValue P (JObj [(''priorReceiptId'', JStr (tm_receiptId terminal)), (''outcome'', JStr outcome), (''error'', err)])) (\<lambda>h.
      Inr (terminal\<lparr> tm_outcome := JStr outcome, tm_receiptId := h, tm_error := err, tm_budgetOverrun := True \<rparr>)))"

definition reservationVector :: "platform \<Rightarrow> jsval \<Rightarrow> jsval \<Rightarrow> jsval" where
  "reservationVector P node preparation = (let budget = own ''budget'' node; prepared = own ''assignments'' (own ''reservation'' preparation) in
     JObj ([(''elapsedMs'', own ''timeoutMs'' budget), (''rawOutputBytes'', own ''maxOutputBytes'' budget)]
       @ (if own ''kind'' node = JStr ''agent'' then [(''assignments'', jint 1)] else [])
       @ (if own ''kind'' node = JStr ''batch-swarm'' then [(''assignments'',
            if isSafeInteger prepared \<and> js_le P (jint 0) prepared then prepared
            else JNum (num_mul (js_number P (own ''batchMaxItems'' node)) (js_number P (own ''batchMaxAttempts'' node))))] else [])
       @ (if own ''maxTokens'' budget \<noteq> JNull then [(''tokens'', own ''maxTokens'' budget)] else [])
       @ (if own ''maxCostUsd'' budget \<noteq> JNull then [(''cost'', own ''maxCostUsd'' budget)] else [])))"

text \<open>What an attempt settles with (\<open>#runNode\<close>): the outcome of the node, whether it is tried again, and the charge.\<close>

definition settledOutcome :: "run_terminal \<Rightarrow> jsval" where
  "settledOutcome terminal = (if tm_authoritative terminal \<or> is_one_of [''orphaned'', ''interrupted'', ''unavailable''] (tm_outcome terminal)
     then tm_outcome terminal else JStr ''orphaned'')"

definition retryable :: "platform \<Rightarrow> jsval \<Rightarrow> run_terminal \<Rightarrow> int \<Rightarrow> bool" where
  "retryable P node terminal attemptNumber \<longleftrightarrow> \<not> is_one_of SUCCESS_NODE_OUTCOMES (tm_outcome terminal)
     \<and> settledOutcome terminal = JStr ''failed'' \<and> js_less P (jint attemptNumber) (own ''maxAttempts'' (own ''budget'' node))
     \<and> own ''idempotency'' node \<noteq> JStr ''none''"

definition attemptCharge :: "jsval \<Rightarrow> jsval \<Rightarrow> run_terminal \<Rightarrow> jsval" where
  "attemptCharge node worstCase terminal = (if tm_budgetOverrun terminal then worstCase else usageVector node terminal)"

end
