(* ===== verification/Run_Output_Proofs.thy ===== *)
theory Run_Output_Proofs
  imports Run_Terminal
begin

text \<open>
  The scanning loop of \<open>boundedOutputProjection\<close> against the length of the JSON text it stands for:
  when it reports no failure it has counted exactly the bytes of the text, and it reports none
  for every value that is within its limits.
\<close>

definition text_bytes :: "platform \<Rightarrow> jsval \<Rightarrow> int" where
  "text_bytes P v = (case stringify P v of None \<Rightarrow> 0 | Some t \<Rightarrow> int (utf8_length t))"

definition frames_bytes :: "platform \<Rightarrow> frame list \<Rightarrow> int" where
  "frames_bytes P stack = sum_list (map (\<lambda>f. text_bytes P (fst f)) stack)"

lemma frames_bytes_simps [simp]: "frames_bytes P [] = 0" "frames_bytes P (f # fs) = text_bytes P (fst f) + frames_bytes P fs"
  "frames_bytes P (xs @ ys) = frames_bytes P xs + frames_bytes P ys"
  by (simp_all add: frames_bytes_def)

lemma utf8_length_append [simp]: "utf8_length (a @ b) = utf8_length a + utf8_length b" "utf8_length [] = 0"
  by (simp_all add: utf8_length_def)

lemma utf8_length_Cons: "utf8_length (c # s) = (if (of_char c :: nat) < 128 then 1 else 2) + utf8_length s"
  by (simp add: utf8_length_def)

lemma join_bytes: "int (utf8_length (join_on '','' ts)) = sum_list (map (int \<circ> utf8_length) ts) + max 0 (int (length ts) - 1)"
  by (induction "'',''" ts rule: join_on.induct) (auto simp: utf8_length_Cons)

lemma items_bytes: "list_all (\<lambda>x. x \<noteq> JUndef) xs \<Longrightarrow> sum_list (map (int \<circ> utf8_length) (stringify_items P xs)) = sum_list (map (text_bytes P) xs)
    \<and> length (stringify_items P xs) = length xs"
proof (induction xs)
  case (Cons x xs)
  then show ?case by (cases x) (auto simp: text_bytes_def)
qed simp

lemma members_bytes: "list_all (\<lambda>(_, x). x \<noteq> JUndef) ps \<Longrightarrow>
   sum_list (map (int \<circ> utf8_length) (stringify_members P ps)) = sum_list (map (\<lambda>(k, _). int (utf8_length (json_quote k)) + 1) ps) + sum_list (map (\<lambda>(_, x). text_bytes P x) ps)
    \<and> length (stringify_members P ps) = length ps"
proof (induction ps)
  case (Cons p ps)
  obtain k x where p: "p = (k, x)" by (cases p)
  then obtain t where "stringify P x = Some t" using Cons.prems by (cases x) auto
  then show ?case using Cons p by (auto simp: text_bytes_def utf8_length_Cons)
qed simp

text \<open>The text of a value is what the value adds itself and the texts of its children.\<close>

lemma text_bytes_array: "text_bytes P (JArr xs) = 2 + int (utf8_length (join_on '','' (stringify_items P xs)))"
  and text_bytes_object: "text_bytes P (JObj ps) = 2 + int (utf8_length (join_on '','' (stringify_members P ps)))"
  by (simp_all add: text_bytes_def utf8_length_Cons)

lemma text_split:
  assumes "own_bytes P v = Some a" "list_all (\<lambda>f. fst f \<noteq> JUndef) (children v d)"
  shows "text_bytes P v = a + frames_bytes P (children v d)"
proof (cases v)
  case (JArr xs)
  have "list_all (\<lambda>x. x \<noteq> JUndef) xs" using assms(2) by (simp add: JArr children_def list_all_iff)
  from items_bytes [OF this, of P] show ?thesis
    using assms(1) join_bytes [of "stringify_items P xs"]
    by (auto simp: JArr children_def own_bytes_def text_bytes_array frames_bytes_def separators_def comp_def)
next
  case (JObj ps)
  have "list_all (\<lambda>(_, x). x \<noteq> JUndef) ps" using assms(2) by (auto simp: JObj children_def list_all_iff)
  from members_bytes [OF this, of P] show ?thesis
    using assms(1) join_bytes [of "stringify_members P ps"]
    by (auto simp: JObj children_def own_bytes_def text_bytes_object frames_bytes_def separators_def comp_def case_prod_unfold)
qed (use assms in \<open>auto simp: own_bytes_def text_bytes_def children_def utf8_length_Cons\<close>)

lemma own_bytes_None: "own_bytes P v = None \<longleftrightarrow> v = JUndef"
  by (cases v) (auto simp: own_bytes_def)

lemma scan_exact:
  "boundedScan P limit stack bytes nodes = (None, b, n) \<Longrightarrow>
     list_all (\<lambda>f. fst f \<noteq> JUndef) stack \<and> b = bytes + frames_bytes P stack \<and> (bytes \<le> limit \<longrightarrow> b \<le> limit)"
proof (induction P limit stack bytes nodes rule: boundedScan.induct)
  case (2 P limit v d stack bytes nodes)
  from "2.prems" obtain a where a: "own_bytes P v = Some a" "\<not> (nodes + 1 > 10000 \<or> d > 64)"
    "\<not> (isStr v \<and> (case v of JStr s \<Rightarrow> int (utf8_length s) | _ \<Rightarrow> 0) > limit - bytes)" "\<not> bytes + a > limit"
    "boundedScan P limit (children v d @ stack) (bytes + a) (nodes + 1) = (None, b, n)"
    by (auto simp: Let_def split: if_splits option.splits)
  from "2.IH" [OF refl a(2,1) refl a(3,4,5)] have ih: "list_all (\<lambda>f. fst f \<noteq> JUndef) (children v d @ stack)"
    "b = bytes + a + frames_bytes P (children v d @ stack)" "bytes + a \<le> limit \<longrightarrow> b \<le> limit" by auto
  have "v \<noteq> JUndef" using a(1) own_bytes_None [of P v] by auto
  then show ?case using ih a(4) text_split [OF a(1), of d] by simp
qed simp

text \<open>A value without an undefined part, of bounded depth; and its number of nodes.\<close>

fun shallow :: "nat \<Rightarrow> jsval \<Rightarrow> bool" where
  "shallow d JUndef = False"
| "shallow 0 (JArr xs) = (xs = [])"
| "shallow (Suc d) (JArr xs) = list_all (shallow d) xs"
| "shallow 0 (JObj ps) = (ps = [])"
| "shallow (Suc d) (JObj ps) = list_all (shallow d) (map snd ps)"
| "shallow d v = True"

fun node_count :: "jsval \<Rightarrow> int" and members_count :: "(string \<times> jsval) list \<Rightarrow> int" where
  "node_count (JArr xs) = 1 + sum_list (map node_count xs)"
| "node_count (JObj ps) = 1 + members_count ps"
| "node_count v = 1"
| "members_count [] = 0"
| "members_count ((k, x) # ps) = node_count x + members_count ps"

lemma members_count_sum: "members_count ps = sum_list (map (\<lambda>(_, x). node_count x) ps)"
  by (induction ps) auto

lemma node_count_children: "node_count v = 1 + sum_list (map (\<lambda>f. node_count (fst f)) (children v d))"
  by (cases v) (auto simp: children_def members_count_sum comp_def case_prod_unfold)

lemma node_count_pos: "0 < node_count v" and "0 \<le> members_count ps"
proof (induction v and ps rule: node_count_members_count.induct)
  case (1 xs)
  have "0 \<le> sum_list (map node_count xs)" by (rule sum_list_nonneg) (use 1 in \<open>auto intro: less_imp_le\<close>)
  then show ?case by simp
qed (auto intro: less_imp_le add_nonneg_nonneg)

lemma text_bytes_nonneg: "0 \<le> text_bytes P v"
  by (simp add: text_bytes_def split: option.splits)

lemma frames_bytes_nonneg: "0 \<le> frames_bytes P fs"
  unfolding frames_bytes_def by (rule sum_list_nonneg) (auto simp: text_bytes_nonneg)

lemma shallow_children: "shallow k v \<Longrightarrow> f \<in> set (children v d) \<Longrightarrow> \<exists>j. k = Suc j \<and> shallow j (fst f) \<and> snd f = d + 1"
  by (cases k; cases v) (auto simp: children_def list_all_iff)

lemma shallow_defined: "shallow k v \<Longrightarrow> v \<noteq> JUndef"
  by (cases v) auto

lemma json_char_bytes: "(if (of_char c :: nat) < 128 then 1 else 2) \<le> utf8_length (json_char c)"
  by (auto simp: json_char_def Let_def utf8_length_Cons)

lemma quote_bytes: "int (utf8_length s) \<le> int (utf8_length (json_quote s))"
proof -
  have "utf8_length s \<le> utf8_length (concat (map json_char s))"
  proof (induction s)
    case (Cons c s)
    then show ?case using json_char_bytes [of c] by (simp add: utf8_length_Cons add_mono)
  qed simp
  then show ?thesis by (simp add: json_quote_def utf8_length_Cons)
qed

lemma scan_succeeds:
  "list_all (\<lambda>(v, d). 0 \<le> d \<and> d \<le> 64 \<and> shallow (nat (64 - d)) v) stack \<Longrightarrow> bytes + frames_bytes P stack \<le> limit
     \<Longrightarrow> nodes + sum_list (map (\<lambda>f. node_count (fst f)) stack) \<le> 10000
     \<Longrightarrow> fst (boundedScan P limit stack bytes nodes) = None"
proof (induction P limit stack bytes nodes rule: boundedScan.induct)
  case (2 P limit v d stack bytes nodes)
  have d: "0 \<le> d" "d \<le> 64" "shallow (nat (64 - d)) v" and rest: "list_all (\<lambda>(v, d). 0 \<le> d \<and> d \<le> 64 \<and> shallow (nat (64 - d)) v) stack"
    using "2.prems"(1) by auto
  obtain a where a: "own_bytes P v = Some a" using own_bytes_None [of P v] shallow_defined [OF d(3)] by (cases "own_bytes P v") auto
  have ch: "0 \<le> e \<and> e \<le> 64 \<and> shallow (nat (64 - e)) x" if "(x, e) \<in> set (children v d)" for x e
  proof -
    from shallow_children [OF d(3) that] obtain j where j: "nat (64 - d) = Suc j" "shallow j x" "e = d + 1" by auto
    then have "nat (64 - e) = j" "e \<le> 64" by auto
    then show ?thesis using j d(1) by auto
  qed
  then have ch': "list_all (\<lambda>(v, d). 0 \<le> d \<and> d \<le> 64 \<and> shallow (nat (64 - d)) v) (children v d @ stack)" using rest by (auto simp: list_all_iff)
  have "list_all (\<lambda>f. fst f \<noteq> JUndef) (children v d)" using ch shallow_defined by (fastforce simp: list_all_iff)
  note split = text_split [OF a this]
  have pos: "0 \<le> sum_list (map (\<lambda>f. node_count (fst f)) fs)" for fs :: "frame list"
    by (rule sum_list_nonneg) (use node_count_pos in \<open>auto intro: less_imp_le\<close>)
  have n: "nodes + 1 + sum_list (map (\<lambda>f. node_count (fst f)) (children v d @ stack)) \<le> 10000"
    using "2.prems"(3) node_count_children [of v d] by simp
  have b: "bytes + a + frames_bytes P (children v d @ stack) \<le> limit" using "2.prems"(2) split by simp
  have c1: "\<not> (nodes + 1 > 10000 \<or> d > 64)" using n pos [of "children v d @ stack"] d(2) by linarith
  have c3: "\<not> bytes + a > limit" using b frames_bytes_nonneg [of P "children v d @ stack"] by linarith
  have c2: "\<not> (isStr v \<and> (case v of JStr s \<Rightarrow> int (utf8_length s) | _ \<Rightarrow> 0) > limit - bytes)"
  proof (cases v)
    case (JStr s)
    then show ?thesis using a c3 quote_bytes [of s] by (auto simp: own_bytes_def)
  qed auto
  from "2.IH" [OF refl c1 a refl c2 c3 ch' b n] show ?case using a c1 c2 c3 by (simp add: Let_def)
qed simp

end
