(* ===== verification/Run_Projection.thy ===== *)
theory Run_Projection
  imports Run_Terminal
begin

text \<open>
  The projection of a run from its journal, \<open>projectWorkflowRun\<close> of
  \<open>workflow/run-coordinator/index.mjs\<close>: the state a coordinator rebuilds from the events, one
  step per event (\<open>projectEvent\<close>), and what the scheduler and the recovery read off it. The records
  have the fields of the JavaScript objects; \<open>nodes\<close> is the object from node id to node state.
\<close>

record attempt =
  at_attemptId :: jsval
  at_status :: jsval
  at_childId :: jsval
  at_reservationId :: jsval
  at_attemptNumber :: jsval
  at_terminal :: jsval

record batch_item =
  bi_index :: int
  bi_itemId :: jsval
  bi_itemDigest :: jsval
  bi_status :: jsval
  bi_attempts :: jsnum
  bi_assignmentId :: jsval
  bi_assignmentHash :: jsval
  bi_handleId :: jsval
  bi_receiptId :: jsval
  bi_authoritative :: jsval
  bi_result :: jsval
  bi_error :: jsval
  bi_usage :: jsval

record batch_state =
  bs_batchId :: jsval
  bs_batchDigest :: jsval
  bs_itemCount :: jsval
  bs_preparationDigest :: jsval
  bs_status :: jsval
  bs_items :: "batch_item list"
  bs_terminal :: jsval
  bs_capacityChanges :: "jsval list"

record node_state =
  ns_nodeId :: jsval
  ns_kind :: jsval
  ns_status :: jsval
  ns_attempts :: "attempt list"
  ns_resultDigest :: jsval
  ns_artifactRefs :: "jsval list"
  ns_artifacts :: "jsval list"
  ns_outcome :: jsval
  ns_batch :: "batch_state option"

record run_projection =
  rp_runId :: jsval
  rp_planId :: jsval
  rp_planDigest :: jsval
  rp_activeRevision :: jsval
  rp_status :: jsval
  rp_admissionClosed :: bool
  rp_approval :: jsval
  rp_runInputDigest :: jsval
  rp_executionEnvelopeDigest :: jsval
  rp_executionEnvelope :: jsval
  rp_nodes :: "(string \<times> node_state) list"
  rp_terminal :: jsval

definition planned_node :: "jsval \<Rightarrow> node_state" where
  "planned_node node = \<lparr> ns_nodeId = own ''id'' node, ns_kind = own ''kind'' node, ns_status = JStr ''planned'', ns_attempts = [],
     ns_resultDigest = JNull, ns_artifactRefs = [], ns_artifacts = [], ns_outcome = JNull, ns_batch = None \<rparr>"

definition emptyProjection :: "platform \<Rightarrow> jsval \<Rightarrow> jsval \<Rightarrow> run_projection res" where
  "emptyProjection P runId plan =
     rbind (prop_of ''id'' plan) (\<lambda>planId.
     rbind (prop_of ''number'' (own ''revision'' plan)) (\<lambda>revision.
     rbind (arr_of (own ''nodes'' plan)) (\<lambda>nodes.
     if list_ex nullish nodes then Inl TypeError else
     Inr \<lparr> rp_runId = runId, rp_planId = planId, rp_planDigest = own ''planDigest'' plan, rp_activeRevision = revision, rp_status = JStr ''planned'',
       rp_admissionClosed = False, rp_approval = JNull, rp_runInputDigest = JNull, rp_executionEnvelopeDigest = JNull, rp_executionEnvelope = JNull,
       rp_nodes = foldl (\<lambda>m node. AList.update (js_string P (own ''id'' node)) (planned_node node) m) [] nodes, rp_terminal = JNull \<rparr>)))"

section \<open>Events of a node\<close>

definition is_true :: "jsval \<Rightarrow> bool" where
  "is_true v \<longleftrightarrow> v = JBool True"

text \<open>A node put back into the queue by the recovery forgets its outcome.\<close>

definition requeued :: "node_state \<Rightarrow> node_state" where
  "requeued n = n\<lparr> ns_status := JStr ''queued'', ns_outcome := JNull, ns_resultDigest := JNull \<rparr>"

definition nodeQueued :: "jsval \<Rightarrow> node_state \<Rightarrow> node_state res" where
  "nodeQueued event n = rbind (prop_of ''recovery'' (own ''payload'' event)) (\<lambda>recovery.
     Inr (if is_true recovery then requeued n else if ns_status n = JStr ''planned'' then n\<lparr> ns_status := JStr ''queued'' \<rparr> else n))"

definition nodeAdmitted :: "jsval \<Rightarrow> node_state \<Rightarrow> node_state res" where
  "nodeAdmitted event n = (let running = n\<lparr> ns_status := JStr ''running'' \<rparr>; payload = own ''payload'' event in
     if list_ex (\<lambda>a. js_eq (at_attemptId a) (own ''attemptId'' event)) (ns_attempts n) then Inr running else
     rbind (prop_of ''reservationId'' payload) (\<lambda>reservationId.
     Inr (running\<lparr> ns_attempts := ns_attempts n @ [\<lparr> at_attemptId = own ''attemptId'' event, at_status = JStr ''admitted'', at_childId = JNull,
       at_reservationId = coalesce reservationId JNull, at_attemptNumber = coalesce (own ''attemptNumber'' payload) JNull, at_terminal = JNull \<rparr>] \<rparr>)))"

text \<open>The first element with the property is changed, as \<open>find\<close> and an assignment do.\<close>

fun change_first :: "('a \<Rightarrow> bool) \<Rightarrow> ('a \<Rightarrow> 'a) \<Rightarrow> 'a list \<Rightarrow> 'a list option" where
  "change_first p f [] = None"
| "change_first p f (x # xs) = (if p x then Some (f x # xs) else map_option ((#) x) (change_first p f xs))"

definition changeAttempt :: "jsval \<Rightarrow> (attempt \<Rightarrow> attempt) \<Rightarrow> node_state \<Rightarrow> node_state res" where
  "changeAttempt event f n = (case change_first (\<lambda>a. js_eq (at_attemptId a) (own ''attemptId'' event)) f (ns_attempts n) of
     None \<Rightarrow> failCoord ''ATTEMPT_EVENT_ORDER'' | Some attempts \<Rightarrow> Inr (n\<lparr> ns_attempts := attempts \<rparr>))"

definition childTerminal :: "jsval \<Rightarrow> node_state \<Rightarrow> node_state res" where
  "childTerminal event n = (if find (\<lambda>a. js_eq (at_attemptId a) (own ''attemptId'' event)) (ns_attempts n) = None then failCoord ''ATTEMPT_EVENT_ORDER'' else
     rbind (prop_of ''outcome'' (own ''payload'' event)) (\<lambda>outcome.
     changeAttempt event (\<lambda>a. a\<lparr> at_status := outcome, at_terminal := own ''payload'' event \<rparr>) n))"

definition nodeArtifactPublished :: "platform \<Rightarrow> jsval \<Rightarrow> node_state \<Rightarrow> node_state res" where
  "nodeArtifactPublished P event n = (let ref = own ''artifactRef'' (own ''payload'' event) in
     if \<not> isObj ref \<or> own ''kind'' ref \<noteq> JStr ''artifact-ref'' \<or> \<not> isStr (own ''id'' ref) \<or> \<not> isStr (own ''digest'' ref)
     then failCoord ''ARTIFACT_EVENT_INVALID'' else
     case find (\<lambda>a. js_eq (own ''id'' a) (own ''id'' ref)) (ns_artifacts n) of
       Some existing \<Rightarrow> rbind (digestValue P existing) (\<lambda>a. rbind (digestValue P ref) (\<lambda>b.
         if a \<noteq> b then failCoord ''ARTIFACT_EVENT_CONFLICT'' else Inr n))
     | None \<Rightarrow> Inr (n\<lparr> ns_artifacts := ns_artifacts n @ [ref], ns_artifactRefs := ns_artifactRefs n @ [own ''id'' ref] \<rparr>))"

definition nodeSettled :: "jsval \<Rightarrow> node_state \<Rightarrow> node_state res" where
  "nodeSettled event n = rbind (prop_of ''recovery'' (own ''payload'' event)) (\<lambda>recovery.
     let payload = own ''payload'' event in
     Inr (if is_true recovery then requeued n
       else n\<lparr> ns_status := own ''outcome'' payload, ns_outcome := own ''outcome'' payload, ns_resultDigest := coalesce (own ''resultDigest'' payload) JNull \<rparr>))"

definition gateEvaluated :: "jsval \<Rightarrow> node_state \<Rightarrow> node_state res" where
  "gateEvaluated event n = rbind (prop_of ''outcome'' (own ''payload'' event)) (\<lambda>outcome.
     Inr (n\<lparr> ns_status := (if outcome = JStr ''completed'' then JStr ''running'' else JStr ''failed'') \<rparr>))"

section \<open>Events of a batch\<close>

definition new_batch :: "jsval \<Rightarrow> batch_state" where
  "new_batch payload = \<lparr> bs_batchId = own ''batchId'' payload, bs_batchDigest = own ''batchDigest'' payload, bs_itemCount = own ''itemCount'' payload,
     bs_preparationDigest = own ''preparationDigest'' payload, bs_status = JStr ''running'', bs_items = [], bs_terminal = JNull, bs_capacityChanges = [] \<rparr>"

text \<open>A recovered controller attempt keeps the items of the attempt before.\<close>

definition batchStarted :: "jsval \<Rightarrow> node_state \<Rightarrow> node_state res" where
  "batchStarted event n =
     (if ns_kind n \<noteq> JStr ''batch-swarm'' then failCoord ''BATCH_EVENT_CORRELATION_MISMATCH'' else
      rbind (prop_of ''batchId'' (own ''payload'' event)) (\<lambda>batchId.
      let payload = own ''payload'' event in
      case ns_batch n of
        None \<Rightarrow> Inr (n\<lparr> ns_batch := Some (new_batch payload) \<rparr>)
      | Some b \<Rightarrow>
          if \<not> js_eq (bs_batchId b) batchId \<or> \<not> js_eq (bs_batchDigest b) (own ''batchDigest'' payload)
             \<or> \<not> js_eq (bs_itemCount b) (own ''itemCount'' payload) \<or> \<not> js_eq (bs_preparationDigest b) (own ''preparationDigest'' payload)
          then failCoord ''BATCH_EVENT_CORRELATION_MISMATCH''
          else Inr (n\<lparr> ns_batch := Some (b\<lparr> bs_status := JStr ''running'', bs_terminal := JNull \<rparr>) \<rparr>)))"

definition withBatch :: "(batch_state \<Rightarrow> batch_state res) \<Rightarrow> node_state \<Rightarrow> node_state res" where
  "withBatch f n = (if ns_kind n \<noteq> JStr ''batch-swarm'' then failCoord ''BATCH_EVENT_CORRELATION_MISMATCH'' else
     case ns_batch n of None \<Rightarrow> failCoord ''BATCH_EVENT_CORRELATION_MISMATCH''
     | Some b \<Rightarrow> rbind (f b) (\<lambda>b'. Inr (n\<lparr> ns_batch := Some b' \<rparr>)))"

definition queued_item :: "int \<Rightarrow> jsval \<Rightarrow> batch_item" where
  "queued_item index payload = \<lparr> bi_index = index, bi_itemId = own ''itemId'' payload, bi_itemDigest = own ''itemDigest'' payload, bi_status = JStr ''queued'',
     bi_attempts = Fin 0, bi_assignmentId = JNull, bi_assignmentHash = JNull, bi_handleId = JNull, bi_receiptId = JNull, bi_authoritative = JNull,
     bi_result = JNull, bi_error = JNull, bi_usage = JNull \<rparr>"

text \<open>\<open>items.push(item); items.sort((left, right) => left.index - right.index)\<close>.\<close>

definition add_item :: "batch_item \<Rightarrow> batch_item list \<Rightarrow> batch_item list" where
  "add_item item old = sort_key bi_index (old @ [item])"

definition item_event :: "platform \<Rightarrow> jsval \<Rightarrow> jsval \<Rightarrow> batch_item \<Rightarrow> batch_item" where
  "item_event P type' payload item =
     (let counted = item\<lparr> bi_attempts := num_max (bi_attempts item) (js_number P (coalesce (own ''itemAttempt'' payload) (jint 0))) \<rparr> in
      if type' = JStr ''BatchItemQueued'' then counted\<lparr> bi_status := JStr ''queued'' \<rparr> else
      if type' = JStr ''BatchItemStarted'' then
        counted\<lparr> bi_status := JStr ''running'', bi_assignmentId := own ''assignmentId'' payload, bi_assignmentHash := own ''assignmentHash'' payload,
          bi_handleId := coalesce (own ''handleId'' payload) JNull \<rparr>
      else
        counted\<lparr> bi_status := own ''status'' payload, bi_assignmentId := coalesce (own ''assignmentId'' payload) (bi_assignmentId item),
          bi_assignmentHash := coalesce (own ''assignmentHash'' payload) (bi_assignmentHash item),
          bi_handleId := coalesce (own ''handleId'' payload) (bi_handleId item), bi_receiptId := coalesce (own ''receiptId'' payload) JNull,
          bi_authoritative := JBool (is_true (own ''authoritative'' payload)), bi_result := coalesce (own ''result'' payload) JNull,
          bi_error := coalesce (own ''error'' payload) JNull, bi_usage := coalesce (own ''usage'' payload) JNull \<rparr>)"

fun safe_index :: "jsval \<Rightarrow> int option" where
  "safe_index (JNum (Fin a)) = (if isSafeInteger (JNum (Fin a)) then Some \<lfloor>a\<rfloor> else None)"
| "safe_index _ = None"

definition batchItemEvent :: "platform \<Rightarrow> jsval \<Rightarrow> batch_state \<Rightarrow> batch_state res" where
  "batchItemEvent P event b =
     rbind (prop_of ''index'' (own ''payload'' event)) (\<lambda>raw.
     let payload = own ''payload'' event in
     case safe_index raw of None \<Rightarrow> failCoord ''BATCH_EVENT_CORRELATION_MISMATCH'' | Some index \<Rightarrow>
     if index < 0 \<or> js_le P (bs_itemCount b) (jint index) then failCoord ''BATCH_EVENT_CORRELATION_MISMATCH'' else
     let all = (if find (\<lambda>i. bi_index i = index) (bs_items b) = None then add_item (queued_item index payload) (bs_items b) else bs_items b) in
     case find (\<lambda>i. bi_index i = index) all of None \<Rightarrow> Inl TypeError | Some item \<Rightarrow>
     if \<not> js_eq (bi_itemId item) (own ''itemId'' payload) \<or> \<not> js_eq (bi_itemDigest item) (own ''itemDigest'' payload)
     then failCoord ''BATCH_EVENT_CORRELATION_MISMATCH'' else
     case change_first (\<lambda>i. bi_index i = index) (item_event P (own ''type'' event) payload) all of None \<Rightarrow> Inl TypeError
     | Some changed \<Rightarrow> Inr (b\<lparr> bs_items := changed \<rparr>))"

definition batchSettled :: "jsval \<Rightarrow> batch_state \<Rightarrow> batch_state res" where
  "batchSettled event b = rbind (prop_of ''status'' (own ''payload'' event)) (\<lambda>status.
     Inr (b\<lparr> bs_status := status, bs_terminal := own ''payload'' event \<rparr>))"

section \<open>Events of the run\<close>

text \<open>\<open>RunPlanned\<close>: the envelope of the event is created again for this plan and this run.\<close>

definition runPlanned :: "platform \<Rightarrow> jsval \<Rightarrow> jsval \<Rightarrow> jsval \<Rightarrow> run_projection \<Rightarrow> run_projection res" where
  "runPlanned P plan runId event state =
     rbind (prop_of ''planDigest'' (own ''payload'' event)) (\<lambda>planDigest.
     let payload = own ''payload'' event; inputDigest = coalesce (own ''runInputDigest'' payload) JNull; given = own ''executionEnvelope'' payload in
     if \<not> js_eq planDigest (own ''planDigest'' plan) then failCoord ''PLAN_DRIFT'' else
     if inputDigest = JNull then failCoord ''RUN_INPUT_UNBOUND'' else
     if \<not> isObj given \<or> \<not> truthy (own ''executionEnvelopeDigest'' payload) then failCoord ''EXECUTION_ENVELOPE_UNBOUND'' else
     if \<not> js_eq (own ''runId'' given) runId then failCoord ''RUN_ID_DRIFT'' else
     rbind (createExecutionEnvelope P plan (oset ''executionEnvelopeDigest'' (own ''executionEnvelopeDigest'' payload)
       (oset ''runInputDigest'' inputDigest (oset ''runId'' runId (spread (JObj []) given))))) (\<lambda>envelope.
     Inr (state\<lparr> rp_runInputDigest := inputDigest, rp_executionEnvelope := envelope,
       rp_executionEnvelopeDigest := own ''executionEnvelopeDigest'' envelope, rp_status := JStr ''planned'' \<rparr>)))"

definition runApproved :: "jsval \<Rightarrow> run_projection \<Rightarrow> run_projection res" where
  "runApproved event state = rbind (prop_of ''executionEnvelopeDigest'' (own ''payload'' event)) (\<lambda>digest.
     if \<not> js_eq digest (rp_executionEnvelopeDigest state) then failCoord ''EXECUTION_ENVELOPE_DRIFT''
     else Inr (state\<lparr> rp_approval := own ''payload'' event, rp_status := JStr ''admitted'' \<rparr>))"

definition runTerminal :: "jsval \<Rightarrow> run_projection \<Rightarrow> run_projection res" where
  "runTerminal event state = rbind (prop_of ''status'' (own ''payload'' event)) (\<lambda>status.
     Inr (state\<lparr> rp_status := status, rp_terminal := own ''payload'' event, rp_admissionClosed := True \<rparr>))"

text \<open>The node named by the event; a step on no node is a TypeError.\<close>

definition onNode :: "(string \<times> node_state) option \<Rightarrow> (node_state \<Rightarrow> node_state res) \<Rightarrow> run_projection \<Rightarrow> run_projection res" where
  "onNode target f state = (case target of None \<Rightarrow> Inl TypeError | Some (k, n) \<Rightarrow>
     rbind (f n) (\<lambda>n'. Inr (state\<lparr> rp_nodes := AList.update k n' (rp_nodes state) \<rparr>)))"

definition NODE_STEPS :: "string list" where
  "NODE_STEPS = [''NodeQueued'', ''NodeAdmitted'', ''ChildStarted'', ''ChildTerminal'', ''NodeArtifactPublished'', ''BatchStarted'', ''BatchCapacityChanged'',
     ''BatchItemQueued'', ''BatchItemStarted'', ''BatchItemTerminal'', ''BatchSettled'', ''GateEvaluated'', ''NodeSettled'']"

definition nodeStep :: "platform \<Rightarrow> string \<Rightarrow> jsval \<Rightarrow> node_state \<Rightarrow> node_state res" where
  "nodeStep P t event n =
     (if t = ''NodeQueued'' then nodeQueued event n else
      if t = ''NodeAdmitted'' then nodeAdmitted event n else
      if t = ''ChildStarted'' then changeAttempt event (\<lambda>a. a\<lparr> at_status := JStr ''running'', at_childId := own ''childId'' event \<rparr>) n else
      if t = ''ChildTerminal'' then childTerminal event n else
      if t = ''NodeArtifactPublished'' then nodeArtifactPublished P event n else
      if t = ''BatchStarted'' then batchStarted event n else
      if t = ''BatchCapacityChanged'' then
        withBatch (\<lambda>b. Inr (b\<lparr> bs_capacityChanges := bs_capacityChanges b @ [own ''payload'' event] \<rparr>)) n else
      if t \<in> {''BatchItemQueued'', ''BatchItemStarted'', ''BatchItemTerminal''} then withBatch (batchItemEvent P event) n else
      if t = ''BatchSettled'' then withBatch (batchSettled event) n else
      if t = ''GateEvaluated'' then gateEvaluated event n else nodeSettled event n)"

definition runStep :: "platform \<Rightarrow> jsval \<Rightarrow> jsval \<Rightarrow> string \<Rightarrow> jsval \<Rightarrow> run_projection \<Rightarrow> run_projection res" where
  "runStep P plan runId t event state =
     (if t = ''RunPlanned'' then runPlanned P plan runId event state else
      if t = ''ApprovalRequested'' then Inr (state\<lparr> rp_status := JStr ''awaiting-approval'' \<rparr>) else
      if t = ''RunApproved'' then runApproved event state else
      if t = ''RevisionActivated'' then Inr (state\<lparr> rp_activeRevision := own ''revision'' event \<rparr>) else
      if t = ''RunStarted'' then Inr (state\<lparr> rp_status := JStr ''running'' \<rparr>) else
      if t = ''RunPaused'' then Inr (state\<lparr> rp_status := JStr ''paused'', rp_admissionClosed := True \<rparr>) else
      if t = ''RunResumed'' then Inr (state\<lparr> rp_status := JStr ''running'', rp_admissionClosed := False \<rparr>) else
      if t = ''RunStopping'' then Inr (state\<lparr> rp_status := JStr ''stopping'', rp_admissionClosed := True \<rparr>) else
      if t \<in> {''RunCompleted'', ''RunFailed'', ''RunCancelled'', ''RunInterrupted'', ''RunOrphaned''} then runTerminal event state else
      Inr state)"

definition projectEvent :: "platform \<Rightarrow> jsval \<Rightarrow> jsval \<Rightarrow> run_projection \<Rightarrow> jsval \<Rightarrow> run_projection res" where
  "projectEvent P plan runId state event =
     rbind (prop_of ''runId'' event) (\<lambda>eventRun.
     if \<not> js_eq eventRun runId then failCoord ''RUN_EVENT_CORRELATION_MISMATCH'' else
     if js_less P (rp_activeRevision state) (own ''revision'' event) \<and> own ''type'' event \<noteq> JStr ''RevisionActivated''
     then failCoord ''INACTIVE_REVISION_EVENT'' else
     let key = js_string P (own ''nodeId'' event);
         target = (if own ''nodeId'' event = JNull then None else map_option (\<lambda>n. (key, n)) (map_of (rp_nodes state) key)) in
     if own ''nodeId'' event \<noteq> JNull \<and> target = None then failCoord ''UNKNOWN_NODE_EVENT'' else
     case own ''type'' event of
       JStr t \<Rightarrow> (if t \<in> set NODE_STEPS then onNode target (nodeStep P t event) state else runStep P plan runId t event state)
     | _ \<Rightarrow> Inr state)"

definition projectWorkflowRun :: "platform \<Rightarrow> jsval list \<Rightarrow> jsval \<Rightarrow> jsval \<Rightarrow> run_projection res" where
  "projectWorkflowRun P events plan runId = rbind (emptyProjection P runId plan) (\<lambda>start. foldR (projectEvent P plan runId) start events)"

section \<open>Scheduling\<close>

text \<open>The nodes that have succeeded, and the nodes the loop of \<open>execute\<close> starts next.\<close>

definition settledNodes :: "run_projection \<Rightarrow> jsval list" where
  "settledNodes state = map ns_nodeId (filter (\<lambda>n. is_one_of SUCCESS_NODE_OUTCOMES (ns_outcome n)) (map snd (rp_nodes state)))"

definition nodeReady :: "platform \<Rightarrow> run_projection \<Rightarrow> jsval \<Rightarrow> bool res" where
  "nodeReady P state node = (case map_of (rp_nodes state) (js_string P (own ''id'' node)) of None \<Rightarrow> Inl TypeError
   | Some current \<Rightarrow>
       if truthy (ns_outcome current) \<or> ns_status current = JStr ''running'' then Inr False else
       rbind (arr_of (own ''needs'' node)) (\<lambda>needs. Inr (list_all (\<lambda>d. d \<in> set (settledNodes state)) needs)))"

definition readyNodes :: "platform \<Rightarrow> run_projection \<Rightarrow> jsval list \<Rightarrow> jsval list res" where
  "readyNodes P state nodes = filterR (nodeReady P state) nodes"

datatype round = RunDone | NoReadyNode | StartNodes "jsval list"

definition schedule :: "platform \<Rightarrow> jsval \<Rightarrow> run_projection \<Rightarrow> round res" where
  "schedule P plan state = rbind (arr_of (own ''nodes'' plan)) (\<lambda>nodes.
     if length (js_uniq (settledNodes state)) = length nodes then Inr RunDone else
     rbind (readyNodes P state nodes) (\<lambda>ready. Inr (if ready = [] then NoReadyNode else StartNodes ready)))"

end
