(* ===== verification/Run_Projection_Proofs.thy ===== *)
theory Run_Projection_Proofs
  imports Run_Projection Plan_Graph_Proofs Journal_Proofs
begin

text \<open>
  Invariants of the projection: every step on a node keeps its identity and its shape
  (\<open>node_wf\<close>), so the projected nodes are those of the plan; the envelope of a projected run is one
  created for its plan; and a run with an accepted graph always has something to start.
\<close>

section \<open>Inversion\<close>

lemma failCoord_neq_Inr [simp]: "failCoord c = Inr x \<longleftrightarrow> False"
  by (simp add: failCoord_def)

lemma if_failCoord_eq_Inr [simp]: "((if c then failCoord e else r) = Inr y) \<longleftrightarrow> \<not> c \<and> r = Inr y"
  by simp

lemmas coord_inv = rbind_eq_Inr if_throw_eq_Inr if_failCoord_eq_Inr prop_of_Inr arr_of_Inr Let_def

section \<open>Well-formed nodes\<close>

definition batch_wf :: "platform \<Rightarrow> batch_state \<Rightarrow> bool" where
  "batch_wf P b \<longleftrightarrow> sorted_wrt (<) (map bi_index (bs_items b))
     \<and> (\<forall>i \<in> set (bs_items b). 0 \<le> bi_index i \<and> \<not> js_le P (bs_itemCount b) (jint (bi_index i)))"

definition node_wf :: "platform \<Rightarrow> node_state \<Rightarrow> bool" where
  "node_wf P n \<longleftrightarrow> sorted_wrt (\<lambda>a b. \<not> js_eq a b) (map at_attemptId (ns_attempts n))
     \<and> ns_artifactRefs n = map (own ''id'') (ns_artifacts n) \<and> distinct (ns_artifactRefs n)
     \<and> (\<forall>b. ns_batch n = Some b \<longrightarrow> ns_kind n = JStr ''batch-swarm'' \<and> batch_wf P b)"

definition node_kept :: "platform \<Rightarrow> node_state \<Rightarrow> node_state \<Rightarrow> bool" where
  "node_kept P n n' \<longleftrightarrow> ns_nodeId n' = ns_nodeId n \<and> ns_kind n' = ns_kind n \<and> (node_wf P n \<longrightarrow> node_wf P n')"

lemma change_first_map: "change_first p f xs = Some ys \<Longrightarrow> (\<And>x. g (f x) = g x) \<Longrightarrow> map g ys = map g xs"
  by (induction xs arbitrary: ys) (auto split: if_splits)

lemma change_first_set: "change_first p f xs = Some ys \<Longrightarrow> set ys \<subseteq> set xs \<union> f ` set xs"
  by (induction xs arbitrary: ys) (auto split: if_splits)

lemma changeAttempt_kept:
  assumes "changeAttempt event f n = Inr n'" "\<And>a. at_attemptId (f a) = at_attemptId a"
  shows "node_kept P n n'"
  using assms(1) change_first_map [where f = f and g = at_attemptId, OF _ assms(2)]
  by (auto simp: changeAttempt_def node_kept_def node_wf_def failCoord_def split: option.splits)

lemma nodeAdmitted_kept:
  assumes "nodeAdmitted event n = Inr n'"
  shows "node_kept P n n'"
proof (cases "list_ex (\<lambda>a. js_eq (at_attemptId a) (own ''attemptId'' event)) (ns_attempts n)")
  case True
  then show ?thesis using assms by (auto simp: nodeAdmitted_def node_kept_def node_wf_def)
next
  case False
  then obtain x y where "n' = n\<lparr> ns_status := JStr ''running'', ns_attempts := ns_attempts n @ [\<lparr> at_attemptId = own ''attemptId'' event,
      at_status = JStr ''admitted'', at_childId = JNull, at_reservationId = x, at_attemptNumber = y, at_terminal = JNull \<rparr>] \<rparr>"
    using assms False unfolding nodeAdmitted_def Let_def if_not_P [OF False] rbind_eq_Inr by blast
  then show ?thesis using False by (auto simp: node_kept_def node_wf_def sorted_wrt_append list_ex_iff)
qed

lemma nodeArtifact_kept: "nodeArtifactPublished P' event n = Inr n' \<Longrightarrow> node_kept P n n'"
  by (auto simp: nodeArtifactPublished_def coord_inv node_kept_def node_wf_def find_None_iff isStr_iff split: if_splits option.splits) (blast+)?

lemma add_item_wf:
  assumes "sorted_wrt (<) (map bi_index xs)" "\<forall>i \<in> set xs. bi_index i \<noteq> bi_index x"
  shows "sorted_wrt (<) (map bi_index (add_item x xs))"
proof -
  have "distinct (map bi_index (xs @ [x]))" using assms by (auto simp: strict_sorted_iff)
  then have "distinct (xs @ [x]) \<and> inj_on bi_index (set (xs @ [x]))" unfolding distinct_map .
  then have "distinct (map bi_index (add_item x xs))" unfolding add_item_def distinct_map distinct_sort set_sort .
  then show ?thesis by (simp add: add_item_def strict_sorted_iff)
qed

lemma item_event_index [simp]: "bi_index (item_event P t payload i) = bi_index i"
  by (simp add: item_event_def Let_def)

lemma batchItemEvent_wf:
  assumes e: "batchItemEvent P event b = Inr b'" and wf: "batch_wf P b"
  shows "batch_wf P b'"
proof -
  define payload where "payload = own ''payload'' event"
  obtain raw index item changed where f: "safe_index raw = Some index" "\<not> (index < 0 \<or> js_le P (bs_itemCount b) (jint index))"
    and c: "change_first (\<lambda>i. bi_index i = index) (item_event P (own ''type'' event) payload)
       (if find (\<lambda>i. bi_index i = index) (bs_items b) = None then add_item (queued_item index payload) (bs_items b) else bs_items b) = Some changed"
    and b': "b' = b\<lparr> bs_items := changed \<rparr>"
    using e unfolding batchItemEvent_def coord_inv payload_def by (auto split: option.splits)
  define all where "all = (if find (\<lambda>i. bi_index i = index) (bs_items b) = None then add_item (queued_item index payload) (bs_items b) else bs_items b)"
  have all: "sorted_wrt (<) (map bi_index all) \<and> (\<forall>i \<in> set all. 0 \<le> bi_index i \<and> \<not> js_le P (bs_itemCount b) (jint (bi_index i)))"
  proof (cases "find (\<lambda>i. bi_index i = index) (bs_items b)")
    case None
    then have "\<forall>i \<in> set (bs_items b). bi_index i \<noteq> bi_index (queued_item index payload)" by (auto simp: find_None_iff queued_item_def)
    from add_item_wf [OF _ this] show ?thesis using wf f(2) None
      by (auto simp: all_def batch_wf_def add_item_def queued_item_def)
  next
    case (Some i)
    then show ?thesis using wf by (simp add: all_def batch_wf_def)
  qed
  have m: "map bi_index changed = map bi_index all" using change_first_map [OF c, of bi_index] by (simp add: all_def)
  have "bi_index ` set changed = bi_index ` set all" using m by (metis set_map)
  then have "\<forall>i \<in> set changed. 0 \<le> bi_index i \<and> \<not> js_le P (bs_itemCount b) (jint (bi_index i))" using all by (metis (no_types, lifting) imageE imageI)
  then show ?thesis using all m by (simp add: batch_wf_def b')
qed

lemma withBatch_kept:
  assumes "withBatch f n = Inr n'" "\<And>b b'. f b = Inr b' \<Longrightarrow> batch_wf P b \<Longrightarrow> batch_wf P b'"
  shows "node_kept P n n'"
  using assms by (auto simp: withBatch_def coord_inv node_kept_def node_wf_def failCoord_def split: if_splits option.splits)

lemma batchStarted_kept: "batchStarted event n = Inr n' \<Longrightarrow> node_kept P n n'"
  by (auto simp: batchStarted_def coord_inv node_kept_def node_wf_def batch_wf_def new_batch_def failCoord_def split: if_splits option.splits)

lemma nodeStep_kept:
  assumes "nodeStep P t event n = Inr n'"
  shows "node_kept P n n'"
proof -
  have child: "childTerminal event n = Inr n' \<Longrightarrow> node_kept P n n'"
    unfolding childTerminal_def coord_inv by (auto intro: changeAttempt_kept)
  have started: "changeAttempt event (\<lambda>a. a\<lparr> at_status := JStr ''running'', at_childId := c \<rparr>) n = Inr n' \<Longrightarrow> node_kept P n n'" for c
    by (erule changeAttempt_kept) simp
  have capacity: "withBatch (\<lambda>b. Inr (b\<lparr> bs_capacityChanges := bs_capacityChanges b @ [x] \<rparr>)) n = Inr n' \<Longrightarrow> node_kept P n n'" for x
    by (erule withBatch_kept) (auto simp: batch_wf_def)
  have items: "withBatch (batchItemEvent P event) n = Inr n' \<Longrightarrow> node_kept P n n'"
    by (erule withBatch_kept) (use batchItemEvent_wf in auto)
  have settled: "withBatch (batchSettled event) n = Inr n' \<Longrightarrow> node_kept P n n'"
    by (erule withBatch_kept) (auto simp: batchSettled_def coord_inv batch_wf_def)
  have plain: "nodeQueued event n = Inr n' \<Longrightarrow> node_kept P n n'" "nodeSettled event n = Inr n' \<Longrightarrow> node_kept P n n'"
    "gateEvaluated event n = Inr n' \<Longrightarrow> node_kept P n n'"
    by (auto simp: nodeQueued_def nodeSettled_def gateEvaluated_def coord_inv requeued_def node_kept_def node_wf_def split: if_splits)
  show ?thesis using assms child started capacity items settled plain nodeAdmitted_kept nodeArtifact_kept batchStarted_kept
    unfolding nodeStep_def by (auto split: if_splits)
qed

section \<open>The nodes of a projection\<close>

definition identities :: "run_projection \<Rightarrow> (string \<times> jsval \<times> jsval) list" where
  "identities state = map (\<lambda>(k, n). (k, ns_nodeId n, ns_kind n)) (rp_nodes state)"

definition nodes_wf :: "platform \<Rightarrow> run_projection \<Rightarrow> bool" where
  "nodes_wf P state \<longleftrightarrow> (\<forall>n \<in> snd ` set (rp_nodes state). node_wf P n)"

definition nodes_kept :: "platform \<Rightarrow> run_projection \<Rightarrow> run_projection \<Rightarrow> bool" where
  "nodes_kept P s s' \<longleftrightarrow> identities s' = identities s \<and> (nodes_wf P s \<longrightarrow> nodes_wf P s')"

lemma update_identities:
  "map_of m k = Some n \<Longrightarrow> g n' = g n \<Longrightarrow> map (\<lambda>(k, n). (k, g n)) (AList.update k n' m) = map (\<lambda>(k, n). (k, g n)) m"
  by (induction m) (auto split: if_splits)

lemma update_values: "snd ` set (AList.update k v m) \<subseteq> insert v (snd ` set m)"
  by (induction m) auto

lemma onNode_kept:
  assumes s: "onNode target f state = Inr state'" and t: "target = map_option (\<lambda>n. (k, n)) (map_of (rp_nodes state) k) \<or> target = None"
    and f: "\<And>n n'. f n = Inr n' \<Longrightarrow> node_kept P n n'"
  shows "nodes_kept P state state'"
proof -
  from s obtain j n n' where n: "target = Some (j, n)" "f n = Inr n'" "state' = state\<lparr> rp_nodes := AList.update j n' (rp_nodes state) \<rparr>"
    by (auto simp: onNode_def coord_inv split: option.splits)
  then have m: "j = k" "map_of (rp_nodes state) k = Some n" using t by (cases "map_of (rp_nodes state) k"; simp)+
  have kept: "node_kept P n n'" using f n(2) by blast
  have "identities state' = identities state"
    using update_identities [OF m(2), of "\<lambda>n. (ns_nodeId n, ns_kind n)" n'] kept by (simp add: identities_def n(3) m(1) node_kept_def)
  moreover have "nodes_wf P state'" if "nodes_wf P state"
  proof -
    have "n \<in> snd ` set (rp_nodes state)" using m(2) by (force dest: map_of_SomeD)
    then have "node_wf P n'" using that kept unfolding nodes_wf_def node_kept_def by blast
    moreover have "rp_nodes state' = AList.update k n' (rp_nodes state)" by (simp add: n(3) m(1))
    ultimately show ?thesis using that update_values [of k n' "rp_nodes state"] unfolding nodes_wf_def by (metis insertE subsetD)
  qed
  ultimately show ?thesis by (simp add: nodes_kept_def)
qed

text \<open>The envelope of a planned run is one created for its plan.\<close>

lemma runPlanned_Inr:
  assumes "runPlanned P plan runId event state = Inr state'"
  shows "\<exists>i e options. state' = state\<lparr> rp_runInputDigest := i, rp_executionEnvelope := e,
       rp_executionEnvelopeDigest := own ''executionEnvelopeDigest'' e, rp_status := JStr ''planned'' \<rparr>
     \<and> i \<noteq> JNull \<and> createExecutionEnvelope P plan options = Inr e \<and> own ''runId'' options = runId \<and> own ''runInputDigest'' options = i \<and> options \<noteq> JUndef \<and> i \<noteq> JUndef"
proof -
  define payload where "payload = own ''payload'' event"
  define i where "i = coalesce (own ''runInputDigest'' payload) JNull"
  define options where "options = oset ''executionEnvelopeDigest'' (own ''executionEnvelopeDigest'' payload)
       (oset ''runInputDigest'' i (oset ''runId'' runId (spread (JObj []) (own ''executionEnvelope'' payload))))"
  obtain e where e: "i \<noteq> JNull" "createExecutionEnvelope P plan options = Inr e" "Inr (state\<lparr> rp_runInputDigest := i, rp_executionEnvelope := e,
       rp_executionEnvelopeDigest := own ''executionEnvelopeDigest'' e, rp_status := JStr ''planned'' \<rparr>) = (Inr state' :: run_projection res)"
    using assms unfolding runPlanned_def Let_def payload_def [symmetric] i_def [symmetric] options_def [symmetric] rbind_eq_Inr if_failCoord_eq_Inr by blast
  have o: "own ''runId'' options = runId" "own ''runInputDigest'' options = i" "options \<noteq> JUndef"
    using isObj_oset by (auto simp: options_def own_oset dest: arg_cong [of _ JUndef isObj])
  have "i \<noteq> JUndef" by (auto simp: i_def coalesce_def)
  then show ?thesis using e o by blast
qed

lemma runStep_nodes:
  assumes "runStep P plan runId t event state = Inr state'"
  shows "rp_nodes state' = rp_nodes state"
proof -
  have "runPlanned P plan runId event state = Inr state' \<Longrightarrow> rp_nodes state' = rp_nodes state" using runPlanned_Inr by fastforce
  moreover have "runApproved event state = Inr state' \<Longrightarrow> rp_nodes state' = rp_nodes state" by (auto simp: runApproved_def coord_inv)
  moreover have "runTerminal event state = Inr state' \<Longrightarrow> rp_nodes state' = rp_nodes state" by (auto simp: runTerminal_def coord_inv)
  ultimately show ?thesis using assms unfolding runStep_def by (auto split: if_split_asm)
qed

lemma projectEvent_kept:
  assumes "projectEvent P plan runId state event = Inr state'"
  shows "nodes_kept P state state'"
proof -
  define key where "key = js_string P (own ''nodeId'' event)"
  define target where "target = (if own ''nodeId'' event = JNull then None else map_option (\<lambda>n. (key, n)) (map_of (rp_nodes state) key))"
  have c: "(case own ''type'' event of JStr t \<Rightarrow> (if t \<in> set NODE_STEPS then onNode target (nodeStep P t event) state else runStep P plan runId t event state)
     | _ \<Rightarrow> Inr state) = Inr state'"
    using assms unfolding projectEvent_def coord_inv key_def [symmetric] target_def [symmetric] by blast
  show ?thesis
  proof (cases "state' = state")
    case True
    then show ?thesis by (simp add: nodes_kept_def)
  next
    case False
    with c obtain t where t: "own ''type'' event = JStr t" by (auto split: jsval.splits)
    show ?thesis
    proof (cases "t \<in> set NODE_STEPS")
      case True
      then have "onNode target (nodeStep P t event) state = Inr state'" using c t by simp
      then show ?thesis by (rule onNode_kept [of _ _ _ _ key]) (auto simp: target_def intro: nodeStep_kept)
    next
      case False
      then have "rp_nodes state' = rp_nodes state" using c t runStep_nodes by auto
      then show ?thesis by (simp add: nodes_kept_def identities_def nodes_wf_def)
    qed
  qed
qed

lemma projectEvents_kept: "foldR (projectEvent P plan runId) s events = Inr s' \<Longrightarrow> nodes_kept P s s'"
proof (induction events arbitrary: s)
  case (Cons e es)
  then obtain s1 where s1: "projectEvent P plan runId s e = Inr s1" "foldR (projectEvent P plan runId) s1 es = Inr s'" by (auto simp: rbind_eq_Inr)
  then show ?case using Cons.IH [OF s1(2)] projectEvent_kept [OF s1(1)] by (auto simp: nodes_kept_def)
qed (simp add: nodes_kept_def)

lemma foldl_update_new:
  "distinct (map f xs @ map fst m) \<Longrightarrow> foldl (\<lambda>m x. AList.update (f x) (g x) m) m xs = m @ map (\<lambda>x. (f x, g x)) xs"
proof (induction xs arbitrary: m)
  case (Cons x xs)
  then have "AList.update (f x) (g x) m = m @ [(f x, g x)]" by (intro update_new) auto
  with Cons show ?case by simp
qed simp

text \<open>A projection has one well-formed node state for each node of the plan, under its id.\<close>

lemma projected_nodes:
  assumes p: "projectWorkflowRun P events plan runId = Inr state" and nodes: "own ''nodes'' plan = JArr nodes"
    and ids: "list_all (\<lambda>n. isStr (own ''id'' n)) nodes" "distinct (map (own ''id'') nodes)"
  shows "nodes_wf P state \<and> identities state = map (\<lambda>n. (js_string P (own ''id'' n), own ''id'' n, own ''kind'' n)) nodes"
proof -
  obtain s0 where s0: "emptyProjection P runId plan = Inr s0" "foldR (projectEvent P plan runId) s0 events = Inr state"
    using p by (auto simp: projectWorkflowRun_def rbind_eq_Inr)
  have n0: "rp_nodes s0 = foldl (\<lambda>m node. AList.update (js_string P (own ''id'' node)) (planned_node node) m) [] nodes"
    using s0(1) nodes unfolding emptyProjection_def coord_inv by auto
  have "\<exists>t. own ''id'' n = JStr t" if "n \<in> set nodes" for n using that ids(1) by (simp add: list_all_iff isStr_iff)
  then have "inj_on (js_string P) (set (map (own ''id'') nodes))" by (intro inj_onI) (auto, metis js_string.simps(5))
  then have "distinct (map (\<lambda>n. js_string P (own ''id'' n)) nodes)"
    using ids(2) distinct_map [of "js_string P" "map (own ''id'') nodes"] by (simp add: comp_def)
  then have "rp_nodes s0 = map (\<lambda>n. (js_string P (own ''id'' n), planned_node n)) nodes"
    using foldl_update_new [where m = "[]" and f = "\<lambda>n. js_string P (own ''id'' n)" and g = planned_node and xs = nodes] by (simp add: n0)
  then show ?thesis using projectEvents_kept [OF s0(2)]
    by (auto simp: nodes_kept_def identities_def nodes_wf_def planned_node_def node_wf_def)
qed

section \<open>What a projected run is bound to\<close>

text \<open>A created envelope names the run, the plan and the input it was created for, and carries its own digest.\<close>

lemma createExecutionEnvelope_Inr:
  assumes "createExecutionEnvelope P plan args = Inr e"
  shows "\<exists>inputDigest sourceHash target conditions h facts options. options = defaulted args \<and> validateWorkflowPlan P plan = Inr (Inr facts)
     \<and> e = JObj (executionEnvelopePayload (own ''runId'' options) (own ''planDigest'' plan) sourceHash inputDigest
          (JObj [(''kind'', own ''kind'' target), (''id'', own ''id'' target)]) conditions @ [(''executionEnvelopeDigest'', JStr h)])
     \<and> digestValue P (JObj (executionEnvelopePayload (own ''runId'' options) (own ''planDigest'' plan) sourceHash inputDigest
          (JObj [(''kind'', own ''kind'' target), (''id'', own ''id'' target)]) conditions)) = Inr h
     \<and> (own ''runInputDigest'' options \<noteq> JNull \<longrightarrow> own ''runInputDigest'' options \<noteq> JUndef \<longrightarrow> inputDigest = own ''runInputDigest'' options)
     \<and> text_matches RUN_ID (own ''runId'' options) \<and> sha_text P sourceHash \<and> sha_text P inputDigest
     \<and> executionTargetOk target \<and> normalizeConditions P (coalesce (own ''conditions'' options) (JArr [])) = Inr conditions"
proof -
  define options where "options = defaulted args"
  define target where "target = coalesce (own ''target'' options) (JObj [(''kind'', JStr ''workflow''), (''id'', own ''id'' plan)])"
  define pd sh where "pd = coalesce (own ''planDigest'' options) (own ''planDigest'' plan)" and "sh = coalesce (own ''sourceHash'' options) (own ''definitionDigest'' plan)"
  let ?payload = "(\<lambda>runId inputDigest conditions. executionEnvelopePayload runId pd sh inputDigest
    (JObj [(''kind'', own ''kind'' target), (''id'', own ''id'' target)]) conditions)"
  obtain checked where v: "validateWorkflowPlan P plan = Inr checked"
    and rest: "(case checked of Inl code \<Rightarrow> failCoord code | Inr facts \<Rightarrow>
      rbind (prop_of ''runInputDigest'' options) (\<lambda>given.
      rbind (if nullish given then rbind (normalizeRunInput P (own ''input'' options)) (\<lambda>input. rbind (digestValue P input) (\<lambda>h. Inr (JStr h)))
             else Inr given) (\<lambda>inputDigest.
      rbind (canonicalRunId (own ''runId'' options)) (\<lambda>runId.
      if \<not> executionTargetOk target then failCoord ''INVALID_EXECUTION_ENVELOPE'' else
      rbind (normalizeConditions P (coalesce (own ''conditions'' options) (JArr []))) (\<lambda>conditions.
      if \<not> js_eq pd (own ''planDigest'' plan) then failCoord ''EXECUTION_PLAN_DRIFT'' else
      if \<not> sha_text P sh then failCoord ''INVALID_EXECUTION_ENVELOPE'' else
      if \<not> sha_text P inputDigest then failCoord ''INVALID_EXECUTION_ENVELOPE'' else
      rbind (digestValue P (JObj (?payload runId inputDigest conditions))) (\<lambda>h.
      if own ''executionEnvelopeDigest'' options \<noteq> JUndef \<and> own ''executionEnvelopeDigest'' options \<noteq> JStr h then failCoord ''EXECUTION_ENVELOPE_DRIFT'' else
      Inr (JObj (?payload runId inputDigest conditions @ [(''executionEnvelopeDigest'', JStr h)])))))))) = Inr e"
    using assms unfolding createExecutionEnvelope_def Let_def options_def [symmetric] target_def [symmetric] pd_def [symmetric] sh_def [symmetric]
      rbind_eq_Inr [of "validateWorkflowPlan P plan"] by (elim exE conjE) (rule that; assumption)
  obtain facts where facts: "checked = Inr facts" using rest by (cases checked) auto
  obtain given i runId conditions h where f: "prop_of ''runInputDigest'' options = Inr given"
    "(if nullish given then rbind (normalizeRunInput P (own ''input'' options)) (\<lambda>input. rbind (digestValue P input) (\<lambda>h. Inr (JStr h))) else Inr given) = Inr i"
    "canonicalRunId (own ''runId'' options) = Inr runId" "executionTargetOk target"
    "normalizeConditions P (coalesce (own ''conditions'' options) (JArr [])) = Inr conditions" "js_eq pd (own ''planDigest'' plan)"
    "sha_text P sh" "sha_text P i" "digestValue P (JObj (?payload runId i conditions)) = Inr h"
    "Inr (JObj (?payload runId i conditions @ [(''executionEnvelopeDigest'', JStr h)])) = (Inr e :: jsval res)"
    using rest unfolding facts sum.case rbind_eq_Inr if_failCoord_eq_Inr not_not by (elim exE conjE) (rule that; assumption)
  have r: "runId = own ''runId'' options" "text_matches RUN_ID (own ''runId'' options)" using f(3) by (auto simp: canonicalRunId_def split: if_splits)
  have g: "own ''runInputDigest'' options \<noteq> JNull \<longrightarrow> own ''runInputDigest'' options \<noteq> JUndef \<longrightarrow> i = own ''runInputDigest'' options"
    using f(1,2) by (auto simp: prop_of_Inr nullish_def split: if_splits)
  have pd: "pd = own ''planDigest'' plan" using f(6) by (simp add: js_eq_def)
  show ?thesis
    by (intro exI [of _ i] exI [of _ sh] exI [of _ target] exI [of _ conditions] exI [of _ h] exI [of _ facts] exI [of _ options])
      (use v facts f(4,5,7,8,9,10) r g in \<open>simp add: options_def [symmetric] pd\<close>)
qed

end
