(* ===== verification/Run_Scheduling.thy ===== *)
theory Run_Scheduling
  imports Run_Projection_Proofs
begin

text \<open>
  The rounds of the scheduling loop: with an accepted graph (\<open>Plan_Graph_Proofs\<close>) and the projected
  nodes of the plan (\<open>Run_Projection_Proofs\<close>), \<open>schedule\<close> ends the run exactly when every node has
  succeeded and otherwise finds a node whose dependencies have all succeeded.
\<close>

section \<open>Scheduling\<close>

lemma filterR_total:
  assumes "\<And>x. x \<in> set xs \<Longrightarrow> p x = Inr (q x)"
  shows "filterR p xs = Inr (filter q xs)"
  using assms by (induction xs) auto

text \<open>The first entry of the order that is not settled has all its dependencies settled.\<close>

lemma first_unsettled:
  assumes "topological byId order" "x \<in> set order" "x \<notin> S"
  shows "\<exists>i node. i \<in> set order \<and> i \<notin> S \<and> known_node byId i node \<and> set (dependencies node) \<subseteq> S"
proof -
  from split_list_first_prop [of order "\<lambda>i. i \<notin> S"] assms(2,3) obtain before i after
    where s: "order = before @ i # after" "i \<notin> S" "\<forall>y \<in> set before. \<not> y \<notin> S" by blast
  from assms(1) s(1) obtain node where "known_node byId i node" "set (dependencies node) \<subseteq> set before" unfolding topological_def by blast
  then show ?thesis using s by (intro exI [of _ i] exI [of _ node]) auto
qed

lemma identities_lookup:
  assumes "identities state = map (\<lambda>n. (js_string P (own ''id'' n), own ''id'' n, own ''kind'' n)) nodes"
    and "list_all (\<lambda>n. isStr (own ''id'' n)) nodes" "distinct (map (own ''id'') nodes)" "node \<in> set nodes"
  shows "\<exists>s. map_of (rp_nodes state) (js_string P (own ''id'' node)) = Some s \<and> ns_nodeId s = own ''id'' node"
proof -
  have k: "map fst (rp_nodes state) = map (\<lambda>n. js_string P (own ''id'' n)) nodes"
    using arg_cong [OF assms(1), of "map fst"] by (simp add: identities_def comp_def case_prod_unfold)
  have "set (map fst (rp_nodes state)) = set (map (\<lambda>n. js_string P (own ''id'' n)) nodes)" by (simp only: k)
  then have "js_string P (own ''id'' node) \<in> fst ` set (rp_nodes state)" using assms(4) unfolding set_map by blast
  then obtain s where s: "map_of (rp_nodes state) (js_string P (own ''id'' node)) = Some s" by (meson map_of_eq_None_iff not_None_eq)
  have "(js_string P (own ''id'' node), ns_nodeId s, ns_kind s) \<in> set (identities state)"
    using map_of_SomeD [OF s] by (force simp: identities_def)
  then obtain n where n: "n \<in> set nodes" "js_string P (own ''id'' n) = js_string P (own ''id'' node)" "ns_nodeId s = own ''id'' n"
    unfolding assms(1) by auto
  obtain a b where "own ''id'' n = JStr a" "own ''id'' node = JStr b" using assms(2,4) n(1) unfolding list_all_iff isStr_iff by blast
  with n(2,3) s show ?thesis by simp
qed

lemma settled_ids:
  assumes "identities state = map (\<lambda>n. (js_string P (own ''id'' n), own ''id'' n, own ''kind'' n)) nodes"
  shows "set (settledNodes state) \<subseteq> set (map (own ''id'') nodes)"
proof -
  have "map ns_nodeId (map snd (rp_nodes state)) = map (own ''id'') nodes"
    using arg_cong [OF assms, of "map (fst \<circ> snd)"] by (simp add: identities_def comp_def case_prod_unfold)
  then have "ns_nodeId ` set (map snd (rp_nodes state)) = set (map (own ''id'') nodes)" by (metis list.set_map)
  then show ?thesis unfolding settledNodes_def by auto
qed

text \<open>No node of the run is running, and none has ended without success.\<close>

definition undisturbed :: "run_projection \<Rightarrow> bool" where
  "undisturbed state \<longleftrightarrow> list_all (\<lambda>(_, n). ns_status n \<noteq> JStr ''running'' \<and> (truthy (ns_outcome n) \<longrightarrow> is_one_of SUCCESS_NODE_OUTCOMES (ns_outcome n)))
     (rp_nodes state)"

lemma schedule_progress:
  assumes g: "graphFacts P nodes = Inr facts" and nodes: "own ''nodes'' plan = JArr nodes" and ids: "list_all (\<lambda>n. isStr (own ''id'' n)) nodes"
    and p: "projectWorkflowRun P events plan runId = Inr state" and u: "undisturbed state"
  shows "schedule P plan state = Inr RunDone \<and> set (settledNodes state) = own ''id'' ` set nodes
     \<or> (\<exists>ready. schedule P plan state = Inr (StartNodes ready) \<and> ready \<noteq> [] \<and> set ready \<subseteq> set nodes
         \<and> (\<forall>node \<in> set ready. own ''id'' node \<notin> set (settledNodes state) \<and> set (dependencies node) \<subseteq> set (settledNodes state)))"
proof -
  let ?S = "set (settledNodes state)"
  note order = graphFacts_order [OF g]
  have d: "distinct (map (own ''id'') nodes)" using order by simp
  have id: "identities state = map (\<lambda>n. (js_string P (own ''id'' n), own ''id'' n, own ''kind'' n)) nodes"
    using projected_nodes [OF p nodes ids d] by simp
  have sub: "?S \<subseteq> own ''id'' ` set nodes" using settled_ids [OF id] by simp
  have arr: "\<exists>ys. own ''needs'' n = JArr ys" if n: "n \<in> set nodes" for n
  proof -
    have "own ''id'' n \<in> set (pf_order facts)" using order n by auto
    then obtain m where m: "known_node (index_of nodes) (own ''id'' n) m" using topological_known order by blast
    then have "m = n" using index_lookup [OF d] n d by (auto simp: known_node_def distinct_map inj_on_def)
    then show ?thesis using m by (auto simp: known_node_def isArr_iff)
  qed
  define q where "q = (\<lambda>n. own ''id'' n \<notin> ?S \<and> set (dependencies n) \<subseteq> ?S)"
  have ready: "nodeReady P state n = Inr (q n)" if n: "n \<in> set nodes" for n
  proof -
    obtain s where s: "map_of (rp_nodes state) (js_string P (own ''id'' n)) = Some s" "ns_nodeId s = own ''id'' n"
      using identities_lookup [OF id ids d n] by blast
    obtain ys where ys: "own ''needs'' n = JArr ys" using arr [OF n] by blast
    have mem: "(js_string P (own ''id'' n), s) \<in> set (rp_nodes state)" using map_of_SomeD [OF s(1)] .
    have st: "ns_status s \<noteq> JStr ''running''" "truthy (ns_outcome s) \<Longrightarrow> is_one_of SUCCESS_NODE_OUTCOMES (ns_outcome s)"
      using u mem by (auto simp: undisturbed_def list_all_iff)
    have succ: "truthy (ns_outcome s) \<longleftrightarrow> own ''id'' n \<in> ?S"
    proof
      assume "truthy (ns_outcome s)"
      then have "is_one_of SUCCESS_NODE_OUTCOMES (ns_outcome s)" using st(2) by simp
      then show "own ''id'' n \<in> ?S" using mem s(2) by (force simp: settledNodes_def)
    next
      assume "own ''id'' n \<in> ?S"
      then obtain k s' where s': "(k, s') \<in> set (rp_nodes state)" "is_one_of SUCCESS_NODE_OUTCOMES (ns_outcome s')" "ns_nodeId s' = own ''id'' n"
        by (auto simp: settledNodes_def)
      have "(k, own ''id'' n, ns_kind s') \<in> set (identities state)" using s' by (force simp: identities_def)
      then have "k = js_string P (own ''id'' n)" unfolding id by auto
      moreover have "distinct (map fst (rp_nodes state))"
      proof -
        have "map fst (rp_nodes state) = map (\<lambda>n. js_string P (own ''id'' n)) nodes"
          using arg_cong [OF id, of "map fst"] by (simp add: identities_def comp_def case_prod_unfold)
        moreover have "inj_on (js_string P) (own ''id'' ` set nodes)"
          using ids unfolding list_all_iff isStr_iff by (intro inj_onI) (auto, metis js_string.simps(5))
        ultimately show ?thesis using d distinct_map [of "js_string P" "map (own ''id'') nodes"] by (simp add: comp_def)
      qed
      ultimately have "s' = s" using s'(1) s(1) by (metis Some_eq_map_of_iff option.inject)
      then show "truthy (ns_outcome s)" using s'(2) by (auto simp: is_one_of_def SUCCESS_NODE_OUTCOMES_def)
    qed
    show ?thesis using s(1) st(1) succ ys by (auto simp: nodeReady_def q_def dependencies_def list_all_iff)
  qed
  have sched: "schedule P plan state = (if length (js_uniq (settledNodes state)) = length nodes then Inr RunDone else
     Inr (if filter q nodes = [] then NoReadyNode else StartNodes (filter q nodes)))"
    using filterR_total [of nodes "nodeReady P state" q] ready by (simp add: schedule_def nodes readyNodes_def)
  have card: "length (js_uniq (settledNodes state)) = card ?S" by (metis distinct_card distinct_js_uniq set_js_uniq)
  have cn: "length nodes = card (own ''id'' ` set nodes)" using d distinct_card [of "map (own ''id'') nodes"] by simp
  show ?thesis
  proof (cases "own ''id'' ` set nodes \<subseteq> ?S")
    case True
    then have "?S = own ''id'' ` set nodes" using sub by blast
    then show ?thesis using sched card cn by simp
  next
    case False
    then obtain x where x: "x \<in> set (pf_order facts)" "x \<notin> ?S" using order by auto
    from first_unsettled [of "index_of nodes" _ x ?S] order x obtain i node
      where n: "i \<notin> ?S" "known_node (index_of nodes) i node" "set (dependencies node) \<subseteq> ?S" by blast
    have node: "node \<in> set nodes" "own ''id'' node = i" using n(2) index_lookup [OF d] by (auto simp: known_node_def)
    have "?S \<subset> own ''id'' ` set nodes" using False sub by blast
    then have "card ?S < card (own ''id'' ` set nodes)" by (intro psubset_card_mono) auto
    then have ne: "length (js_uniq (settledNodes state)) \<noteq> length nodes" using card cn by simp
    have "node \<in> set (filter q nodes)" using n node by (simp add: q_def)
    then have "filter q nodes \<noteq> []" by force
    then have "schedule P plan state = Inr (StartNodes (filter q nodes))" using sched ne by simp
    then show ?thesis using \<open>filter q nodes \<noteq> []\<close> by (intro disjI2 exI [of _ "filter q nodes"]) (auto simp: q_def)
  qed
qed

end
