(* ===== verification/Run_Binding.thy ===== *)
theory Run_Binding
  imports Run_Projection_Proofs Plan_Store_Properties Handoff_Properties
begin

text \<open>
  The execution envelope across the components: the envelope \<open>createExecutionEnvelope\<close> makes is one
  the plan store's \<open>validateExecutionEnvelope\<close> accepts, and a projected run is bound to one that was
  created for its plan, its input and its run, which its approval names.
\<close>

section \<open>The execution envelope\<close>

lemma sort_key_unique:
  assumes "set ps = set qs" "distinct (map fst ps)" "distinct (map fst qs)"
  shows "sort_key fst ps = sort_key fst qs"
proof (rule map_sorted_distinct_set_unique [of fst])
  show "inj_on fst (set (sort_key fst ps) \<union> set (sort_key fst qs))" using assms(1,3) by (simp add: distinct_map)
  show "distinct (map fst (sort_key fst ps))" "distinct (map fst (sort_key fst qs))" using assms(2,3) by (simp_all add: distinct_map)
qed (simp_all add: assms(1))

lemma canonicalize_order:
  assumes "set ps = set qs" "distinct (map fst ps)" "distinct (map fst qs)"
  shows "canonicalize (JObj ps) = canonicalize (JObj qs)"
proof -
  have "canonicalize_members xs = map (\<lambda>(k, x). (k, canonicalize x)) xs" for xs by (induction xs) auto
  then show ?thesis using assms sort_key_unique [of "map (\<lambda>(k, x). (k, canonicalize x)) ps" "map (\<lambda>(k, x). (k, canonicalize x)) qs"]
    by (simp add: comp_def case_prod_unfold)
qed

lemma digestValue_order: "canonicalize (JObj ps) = canonicalize (JObj qs) \<Longrightarrow> digestValue P (JObj ps) = digestValue P (JObj qs)"
  by (simp add: digestValue_def del: canonicalize.simps)

lemma canonicalValues_strings: "canonicalValues (map JStr ss) = Inr (map JStr ss)"
  by (induction ss) (auto simp: res_simps)

definition envelope_fields :: "jsval \<Rightarrow> jsval \<Rightarrow> jsval \<Rightarrow> jsval \<Rightarrow> jsval \<Rightarrow> jsval \<Rightarrow> (string \<times> jsval) list" where
  "envelope_fields conditions planDigest runId inputDigest sourceHash target = [(''conditions'', conditions), (''formatVersion'', jint 1),
     (''planDigest'', planDigest), (''runId'', runId), (''runInputDigest'', inputDigest), (''sourceHash'', sourceHash), (''target'', target)]"

text \<open>The clone of an envelope: the same fields in canonical order.\<close>

definition stored_envelope_of :: "jsval \<Rightarrow> string \<Rightarrow> string \<Rightarrow> string \<Rightarrow> string \<Rightarrow> string \<Rightarrow> string \<Rightarrow> string list \<Rightarrow> jsval" where
  "stored_envelope_of pd h r i s kind tid cs = JObj [(''conditions'', JArr (map JStr cs)), (''executionEnvelopeDigest'', JStr h), (''formatVersion'', jint 1),
     (''planDigest'', pd), (''runId'', JStr r), (''runInputDigest'', JStr i), (''sourceHash'', JStr s), (''target'', JObj [(''id'', JStr tid), (''kind'', JStr kind)])]"

lemma envelope_names:
  "sorted [''conditions'', ''executionEnvelopeDigest'', ''formatVersion'', ''planDigest'', ''runId'', ''runInputDigest'', ''sourceHash'', ''target'']"
  "sorted [''id'', ''kind'']"
  by code_simp+

lemma js_sort_strings: "js_sort P (map JStr ss) = map JStr (sort ss)"
proof -
  have "filter (\<lambda>v. v \<noteq> JUndef) (map JStr ss) = map JStr ss" "filter (\<lambda>v. v = JUndef) (map JStr ss) = []" by (induction ss) auto
  moreover have "sort_key (js_string P) (map JStr ss) = map JStr (sort ss)"
  proof (induction ss)
    case (Cons s ss)
    have "insort_key (js_string P) (JStr s) (map JStr ts) = map JStr (insort s ts)" for ts by (induction ts) auto
    with Cons show ?case by simp
  qed simp
  ultimately show ?thesis by (simp add: js_sort_def)
qed

lemma normalizeConditions_Inr:
  assumes "normalizeConditions P v = Inr w"
  shows "\<exists>ss. w = JArr (map JStr (sort ss)) \<and> length ss \<le> 128 \<and> distinct ss \<and> (\<forall>s \<in> set ss. bounded_line 256 s)"
proof -
  obtain xs where xs: "v = JArr xs" "length xs \<le> 128" "list_all (text_matches (bounded_line 256)) xs" "distinct xs" "w = JArr (js_sort P xs)"
    using assms by (auto simp: normalizeConditions_def list_all_iff list_ex_iff split: jsval.splits if_splits)
  have "\<exists>ss. xs = map JStr ss"
    using xs(3) by (induction xs) (auto dest!: text_matches_Str intro: exI [of _ "_ # _"] simp: Cons_eq_map_conv)
  then obtain ss where ss: "xs = map JStr ss" by blast
  then show ?thesis using xs by (intro exI [of _ ss]) (auto simp: js_sort_strings distinct_map list_all_iff text_matches_def)
qed

lemma envelope_accepted:
  assumes host: "host_ok P" and c: "createExecutionEnvelope P plan args = Inr e"
    and str: "isStr (own ''sourceHash'' e)" "isStr (own ''runInputDigest'' e)" and target: "text_matches RUN_ID (own ''id'' (own ''target'' e))"
  shows "\<exists>w. assertPlainJson e = Inr w \<and> validateExecutionEnvelope P w (own ''runId'' e) (own ''planDigest'' plan) (own ''runInputDigest'' e) (own ''sourceHash'' e) = Inr w"
proof -
  obtain inputDigest sourceHash tgt conditions h facts options where f: "validateWorkflowPlan P plan = Inr (Inr facts)"
    "e = JObj (executionEnvelopePayload (own ''runId'' options) (own ''planDigest'' plan) sourceHash inputDigest
          (JObj [(''kind'', own ''kind'' tgt), (''id'', own ''id'' tgt)]) conditions @ [(''executionEnvelopeDigest'', JStr h)])"
    "digestValue P (JObj (executionEnvelopePayload (own ''runId'' options) (own ''planDigest'' plan) sourceHash inputDigest
          (JObj [(''kind'', own ''kind'' tgt), (''id'', own ''id'' tgt)]) conditions)) = Inr h"
    "text_matches RUN_ID (own ''runId'' options)" "sha_text P sourceHash" "sha_text P inputDigest"
    "executionTargetOk tgt" "normalizeConditions P (coalesce (own ''conditions'' options) (JArr [])) = Inr conditions"
    using createExecutionEnvelope_Inr [OF c] by blast
  obtain cs where cs: "conditions = JArr (map JStr (sort cs))" "length cs \<le> 128" "distinct cs" "\<forall>s \<in> set cs. bounded_line 256 s"
    using normalizeConditions_Inr [OF f(8)] by blast
  obtain r where r: "own ''runId'' options = JStr r" "RUN_ID r" using text_matches_Str [OF f(4)] by blast
  obtain kind where kind: "own ''kind'' tgt = JStr kind" "kind \<in> set EXECUTION_TARGET_KINDS" using f(7) by (auto simp: executionTargetOk_def)
  have fields: "own ''target'' e = JObj [(''kind'', own ''kind'' tgt), (''id'', own ''id'' tgt)]" "own ''sourceHash'' e = sourceHash"
    "own ''runInputDigest'' e = inputDigest" "own ''runId'' e = JStr r"
    by (simp_all add: f(2) r(1) executionEnvelopePayload_def own.simps(1))
  obtain tid where tid: "own ''id'' tgt = JStr tid" "RUN_ID tid" using target fields(1) by (auto simp: own.simps(1) dest: text_matches_Str)
  obtain s i where si: "sourceHash = JStr s" "inputDigest = JStr i" using str fields by (auto simp: isStr_iff)
  obtain d where d: "own ''planDigest'' plan = JStr d" using valid_plan_digest [OF f(1)] by blast
  define w where "w = stored_envelope_of (JStr d) h r i s kind tid (sort cs)"
  define tg where "tg = JObj [(''id'', JStr tid), (''kind'', JStr kind)]"
  have ctg: "canonicalValue (JObj [(''kind'', JStr kind), (''id'', JStr tid)]) = Inr tg"
  proof (rule canonicalValue_order [of _ "[(''id'', JStr tid), (''kind'', JStr kind)]"])
    show "canonicalValue (JObj [(''id'', JStr tid), (''kind'', JStr kind)]) = Inr tg"
      using envelope_names(2) by (simp add: tg_def res_simps sort_key_sorted)
  qed auto
  define qs where "qs = [(''conditions'', JArr (map JStr (sort cs))), (''executionEnvelopeDigest'', JStr h), (''formatVersion'', jint 1),
     (''planDigest'', JStr d), (''runId'', JStr r), (''runInputDigest'', JStr i), (''sourceHash'', JStr s), (''target'', JObj [(''kind'', JStr kind), (''id'', JStr tid)])]"
  define ws where "ws = [(''conditions'', JArr (map JStr (sort cs))), (''executionEnvelopeDigest'', JStr h), (''formatVersion'', jint 1),
     (''planDigest'', JStr d), (''runId'', JStr r), (''runInputDigest'', JStr i), (''sourceHash'', JStr s), (''target'', tg)]"
  have w: "w = JObj ws" by (simp add: w_def ws_def stored_envelope_of_def tg_def)
  have "canonicalMembers qs = Inr ws"
    using ctg canonicalValues_strings [of "sort cs"] by (simp add: qs_def ws_def res_simps del: canonicalValue.simps(7))
  moreover have names: "map fst ws = [''conditions'', ''executionEnvelopeDigest'', ''formatVersion'', ''planDigest'', ''runId'', ''runInputDigest'', ''sourceHash'', ''target'']"
    by (simp add: ws_def)
  have "sort_key fst ws = ws" by (rule sort_key_sorted) (simp only: names envelope_names)
  ultimately have qw: "canonicalValue (JObj qs) = Inr w" by (simp add: w)
  have e: "e = JObj (executionEnvelopePayload (JStr r) (JStr d) (JStr s) (JStr i) (JObj [(''kind'', JStr kind), (''id'', JStr tid)]) (JArr (map JStr (sort cs)))
     @ [(''executionEnvelopeDigest'', JStr h)])" using f(2) by (simp add: r d si kind tid cs)
  have ew: "canonicalValue e = Inr w" unfolding e
    by (rule canonicalValue_order [OF _ _ _ qw]) (auto simp: executionEnvelopePayload_def qs_def)
  have "digestEnvelope P w = digestValue P (JObj (filter (\<lambda>(n, _). n \<noteq> ''executionEnvelopeDigest'') ws))"
    by (simp add: digestEnvelope_def w withoutKey_def)
  also have "\<dots> = Inr h"
  proof -
    have "canonicalize (JObj (filter (\<lambda>(n, _). n \<noteq> ''executionEnvelopeDigest'') ws))
      = canonicalize (JObj (executionEnvelopePayload (JStr r) (JStr d) (JStr s) (JStr i) tg (JArr (map JStr (sort cs)))))"
      by (rule canonicalize_order) (auto simp: ws_def executionEnvelopePayload_def)
    also have "\<dots> = canonicalize (JObj (executionEnvelopePayload (JStr r) (JStr d) (JStr s) (JStr i) (JObj [(''kind'', JStr kind), (''id'', JStr tid)]) (JArr (map JStr (sort cs)))))"
    proof -
      have "canonicalize tg = canonicalize (JObj [(''kind'', JStr kind), (''id'', JStr tid)])" unfolding tg_def by (rule canonicalize_order) auto
      then have "canonicalize_members (executionEnvelopePayload (JStr r) (JStr d) (JStr s) (JStr i) tg (JArr (map JStr (sort cs))))
        = canonicalize_members (executionEnvelopePayload (JStr r) (JStr d) (JStr s) (JStr i) (JObj [(''kind'', JStr kind), (''id'', JStr tid)]) (JArr (map JStr (sort cs))))"
        by (simp add: executionEnvelopePayload_def del: canonicalize.simps(1,2))
      then show ?thesis by (simp only: canonicalize.simps(2))
    qed
    finally have "digestValue P (JObj (filter (\<lambda>(n, _). n \<noteq> ''executionEnvelopeDigest'') ws))
      = digestValue P (JObj (executionEnvelopePayload (JStr r) (JStr d) (JStr s) (JStr i) (JObj [(''kind'', JStr kind), (''id'', JStr tid)]) (JArr (map JStr (sort cs)))))"
      by (rule digestValue_order)
    then show ?thesis using f(3) [unfolded r(1) d si kind(1) tid(1) cs(1)] by (rule trans)
  qed
  finally have digest: "digestEnvelope P w = Inr h" .
  have own_w: "own ''formatVersion'' w = jint 1" "own ''runId'' w = JStr r" "own ''planDigest'' w = JStr d" "own ''runInputDigest'' w = JStr i"
    "own ''sourceHash'' w = JStr s" "own ''target'' w = tg" "own ''conditions'' w = JArr (map JStr (sort cs))" "own ''executionEnvelopeDigest'' w = JStr h"
    by (simp_all add: w ws_def own.simps(1))
  have keys_w: "storeExactKeys w EXECUTION_ENVELOPE_KEYS = Inr ()" by (simp add: storeExactKeys_def w names EXECUTION_ENVELOPE_KEYS_def)
  have keys_t: "storeExactKeys tg EXECUTION_TARGET_KEYS = Inr ()" by (simp add: storeExactKeys_def tg_def EXECUTION_TARGET_KEYS_def)
  have target: "own ''kind'' tg \<in> {JStr ''workflow'', JStr ''swarm''}" "text_matches RUN_ID (own ''id'' tg)"
    using kind tid by (auto simp: tg_def own.simps(1) EXECUTION_TARGET_KINDS_def text_matches_def)
  have sorted: "js_sort P (map JStr (sort cs)) = map JStr (sort cs)" by (simp add: js_sort_strings sorted_sort_id)
  obtain a where "canonicalJson P (JArr (map JStr (sort cs))) = Inr a"
    using canonicalJson_ok [of "JArr (map JStr (sort cs))"] canonicalValues_strings [of "sort cs"] by (auto simp: res_simps)
  then have conds: "envelopeConditions P (JArr (map JStr (sort cs))) = Inr ()"
    using cs by (auto simp: envelopeConditions_def sorted distinct_map inj_on_def list_ex_iff text_matches_def)
  have hd: "storeDigest (JStr h) = Inr (JStr h)" using digest_form [OF host f(3)] by (simp add: storeDigest_def text_matches_def)
  have "validateExecutionEnvelope P w (JStr r) (JStr d) (JStr i) (JStr s) = Inr w"
    using keys_w keys_t target conds hd digest unfolding validateExecutionEnvelope_def Let_def own_w by simp
  then show ?thesis using ew d si fields by (auto simp: assertPlainJson_Inr)
qed

section \<open>Binding of a run\<close>

definition same_binding :: "run_projection \<Rightarrow> run_projection \<Rightarrow> bool" where
  "same_binding s s' \<longleftrightarrow> rp_runInputDigest s' = rp_runInputDigest s \<and> rp_executionEnvelope s' = rp_executionEnvelope s
     \<and> rp_executionEnvelopeDigest s' = rp_executionEnvelopeDigest s"

lemma runStep_cases:
  assumes "runStep P plan runId t event s = Inr s'"
  shows "t = ''RunPlanned'' \<and> runPlanned P plan runId event s = Inr s'
     \<or> t = ''RunApproved'' \<and> runApproved event s = Inr s' \<or> same_binding s s' \<and> rp_approval s' = rp_approval s"
proof (cases "t = ''RunPlanned'' \<or> t = ''RunApproved''")
  case True
  then show ?thesis using assms by (auto simp: runStep_def)
next
  case False
  have out: "runTerminal event s = Inr s' \<Longrightarrow> same_binding s s' \<and> rp_approval s' = rp_approval s"
    by (auto simp: runTerminal_def rbind_eq_Inr same_binding_def)
  have "(if c then m else r) = Inr x \<longleftrightarrow> c \<and> m = Inr x \<or> \<not> c \<and> r = Inr x" for c :: bool and m r and x :: run_projection by simp
  note if_cases = this
  have "same_binding s s' \<and> rp_approval s' = rp_approval s"
    using assms False unfolding runStep_def if_cases by (elim disjE conjE) (simp_all add: same_binding_def out [unfolded same_binding_def], (auto simp: same_binding_def)?)
  then show ?thesis by blast
qed

lemma projectEvent_cases:
  assumes "projectEvent P plan runId s event = Inr s'"
  shows "own ''type'' event = JStr ''RunPlanned'' \<and> runPlanned P plan runId event s = Inr s'
     \<or> own ''type'' event = JStr ''RunApproved'' \<and> runApproved event s = Inr s' \<or> same_binding s s' \<and> rp_approval s' = rp_approval s"
proof -
  define target where "target = (if own ''nodeId'' event = JNull then None else map_option (\<lambda>n. (js_string P (own ''nodeId'' event), n))
    (map_of (rp_nodes s) (js_string P (own ''nodeId'' event))))"
  have c: "(case own ''type'' event of JStr t \<Rightarrow> (if t \<in> set NODE_STEPS then onNode target (nodeStep P t event) s else runStep P plan runId t event s)
     | _ \<Rightarrow> Inr s) = Inr s'"
    using assms unfolding projectEvent_def coord_inv target_def [symmetric] by blast
  have node: "onNode target f s = Inr s' \<Longrightarrow> same_binding s s' \<and> rp_approval s' = rp_approval s" for f
    by (auto simp: onNode_def rbind_eq_Inr same_binding_def split: option.splits prod.splits)
  have other: "\<lbrakk>s' = s\<rbrakk> \<Longrightarrow> same_binding s s' \<and> rp_approval s' = rp_approval s" by (simp add: same_binding_def)
  show ?thesis
  proof (cases "own ''type'' event")
    case (JStr t)
    then show ?thesis using c node runStep_cases [of P plan runId t event s s'] by (auto split: if_split_asm)
  qed (use c other in auto)
qed

text \<open>The envelope of a projected run is absent or created for the run, its plan and its input.\<close>

definition run_bound :: "platform \<Rightarrow> jsval \<Rightarrow> jsval \<Rightarrow> run_projection \<Rightarrow> bool" where
  "run_bound P plan runId s \<longleftrightarrow> rp_executionEnvelope s = JNull \<or>
     (let e = rp_executionEnvelope s in own ''runId'' e = runId \<and> own ''planDigest'' e = own ''planDigest'' plan
        \<and> own ''runInputDigest'' e = rp_runInputDigest s \<and> sha_text P (rp_runInputDigest s)
        \<and> (\<exists>h. digestEnvelope P e = Inr h \<and> own ''executionEnvelopeDigest'' e = JStr h \<and> rp_executionEnvelopeDigest s = JStr h))"

lemma runPlanned_bound:
  assumes "runPlanned P plan runId event s = Inr s'"
  shows "run_bound P plan runId s'"
proof -
  obtain i e options where f: "s' = s\<lparr> rp_runInputDigest := i, rp_executionEnvelope := e,
       rp_executionEnvelopeDigest := own ''executionEnvelopeDigest'' e, rp_status := JStr ''planned'' \<rparr>" "i \<noteq> JNull"
    "createExecutionEnvelope P plan options = Inr e" "own ''runId'' options = runId" "own ''runInputDigest'' options = i" "options \<noteq> JUndef" "i \<noteq> JUndef"
    using runPlanned_Inr [OF assms] by blast
  have d: "defaulted options = options" using f(6) by (simp add: defaulted_def)
  obtain sourceHash target conditions h where c: "e = JObj (executionEnvelopePayload runId (own ''planDigest'' plan) sourceHash i target conditions
      @ [(''executionEnvelopeDigest'', JStr h)])" "sha_text P i"
    "digestValue P (JObj (executionEnvelopePayload runId (own ''planDigest'' plan) sourceHash i target conditions)) = Inr h"
    using createExecutionEnvelope_Inr [OF f(3)] f(2,4,5,7) unfolding d by blast
  have "withoutKey e ''executionEnvelopeDigest'' = JObj (executionEnvelopePayload runId (own ''planDigest'' plan) sourceHash i target conditions)"
    by (simp add: c(1) withoutKey_def executionEnvelopePayload_def)
  then have "digestEnvelope P e = Inr h" using c(1,3) by (simp add: digestEnvelope_def)
  moreover have "own ''runId'' e = runId" "own ''planDigest'' e = own ''planDigest'' plan" "own ''runInputDigest'' e = i" "own ''executionEnvelopeDigest'' e = JStr h"
    by (simp_all add: c(1) executionEnvelopePayload_def own.simps(1))
  ultimately show ?thesis using c(2) by (simp add: run_bound_def f(1))
qed

lemma runApproved_Inr: "runApproved event s = Inr s' \<Longrightarrow> same_binding s s' \<and> rp_approval s' = own ''payload'' event
    \<and> js_eq (own ''executionEnvelopeDigest'' (rp_approval s')) (rp_executionEnvelopeDigest s)"
  by (auto simp: runApproved_def coord_inv same_binding_def)

lemma projectEvent_bound: "projectEvent P plan runId s event = Inr s' \<Longrightarrow> run_bound P plan runId s \<Longrightarrow> run_bound P plan runId s'"
  using projectEvent_cases [of P plan runId s event s'] runPlanned_bound [of P plan runId event s s'] runApproved_Inr [of event s s']
  by (auto simp: run_bound_def same_binding_def)

text \<open>The approval of a run names its envelope, as long as the run is not planned again.\<close>

definition approval_bound :: "run_projection \<Rightarrow> bool" where
  "approval_bound s \<longleftrightarrow> rp_approval s = JNull \<or> own ''executionEnvelopeDigest'' (rp_approval s) = rp_executionEnvelopeDigest s"

lemma projectEvent_approval:
  assumes "projectEvent P plan runId s event = Inr s'" "own ''type'' event \<noteq> JStr ''RunPlanned''" "approval_bound s"
  shows "approval_bound s'"
  using projectEvent_cases [OF assms(1)] assms(2,3) runApproved_Inr [of event s s'] by (auto simp: approval_bound_def same_binding_def js_eq_def)

lemma project_bound:
  "foldR (projectEvent P plan runId) s events = Inr s' \<Longrightarrow> run_bound P plan runId s \<Longrightarrow> run_bound P plan runId s'"
  "foldR (projectEvent P plan runId) s events = Inr s' \<Longrightarrow> list_all (\<lambda>e. own ''type'' e \<noteq> JStr ''RunPlanned'') events \<Longrightarrow> approval_bound s \<Longrightarrow> approval_bound s'"
proof (induction events arbitrary: s)
  case (Cons e es)
  { case 1
    then show ?case using Cons.IH(1) projectEvent_bound by (auto simp: rbind_eq_Inr)
  next
    case 2
    then obtain s1 where s1: "projectEvent P plan runId s e = Inr s1" "foldR (projectEvent P plan runId) s1 es = Inr s'" by (auto simp: rbind_eq_Inr)
    then have "approval_bound s1" using projectEvent_approval [OF s1(1)] 2 by simp
    then show ?case using Cons.IH(2) [OF s1(2)] 2 by simp }
qed simp_all

lemma emptyProjection_bound: "emptyProjection P runId plan = Inr s \<Longrightarrow> rp_executionEnvelope s = JNull \<and> rp_approval s = JNull"
  by (auto simp: emptyProjection_def coord_inv)

lemma projected_bound:
  assumes "projectWorkflowRun P events plan runId = Inr s"
  shows "run_bound P plan runId s"
    and "events = e # rest \<Longrightarrow> own ''type'' e \<noteq> JStr ''RunApproved'' \<Longrightarrow> list_all (\<lambda>e. own ''type'' e \<noteq> JStr ''RunPlanned'') rest \<Longrightarrow> approval_bound s"
proof -
  obtain s0 where s0: "emptyProjection P runId plan = Inr s0" "foldR (projectEvent P plan runId) s0 events = Inr s"
    using assms by (auto simp: projectWorkflowRun_def rbind_eq_Inr)
  note start = emptyProjection_bound [OF s0(1)]
  show "run_bound P plan runId s" using project_bound(1) [OF s0(2)] start by (simp add: run_bound_def)
  assume e: "events = e # rest" "own ''type'' e \<noteq> JStr ''RunApproved''" "list_all (\<lambda>e. own ''type'' e \<noteq> JStr ''RunPlanned'') rest"
  obtain s1 where s1: "projectEvent P plan runId s0 e = Inr s1" "foldR (projectEvent P plan runId) s1 rest = Inr s" using s0(2) e(1) by (auto simp: rbind_eq_Inr)
  have "runPlanned P plan runId e s0 = Inr s1 \<Longrightarrow> rp_approval s1 = rp_approval s0" using runPlanned_Inr by fastforce
  then have "approval_bound s1" using projectEvent_cases [OF s1(1)] e(2) start by (auto simp: approval_bound_def)
  then show "approval_bound s" using project_bound(2) [OF s1(2) e(3)] by simp
qed

end
