(* ===== verification/Run_Properties.thy ===== *)
theory Run_Properties
  imports Run_Output_Proofs Run_Scheduling Run_Binding
begin

text \<open>The properties of the run coordinator, with one planned and approved run for the witnesses.\<close>

lemma valid_plan_graph:
  assumes "validateWorkflowPlan P plan = Inr (Inr facts)"
  shows "own ''nodes'' plan = JArr (items (own ''nodes'' plan)) \<and> graphFacts P (items (own ''nodes'' plan)) = Inr facts"
proof -
  have c: "checkWorkflowPlan P plan = Inr facts" using assms unfolding validateWorkflowPlan_Inr .
  obtain u f where p: "planIdentityCheck P plan = Inr u" "graphFacts P (items (own ''nodes'' plan)) = Inr f" "f = facts"
    using c unfolding checkWorkflowPlan_def plan_inv by (auto split: if_splits)
  then have "isArr (own ''nodes'' plan)" by (auto simp: planIdentityCheck_def Let_def)
  then show ?thesis using p by (auto simp: isArr_iff)
qed

section \<open>An example\<close>

definition planned_event :: jsval where
  "planned_event = JObj [(''runId'', JStr ''r''), (''type'', JStr ''RunPlanned''), (''revision'', jint 0), (''nodeId'', JNull),
     (''payload'', JObj [(''planDigest'', stored_sha), (''runInputDigest'', stored_sha), (''executionEnvelopeDigest'', stored_sha), (''executionEnvelope'', stored_envelope)])]"

definition approved_event :: jsval where
  "approved_event = JObj [(''runId'', JStr ''r''), (''type'', JStr ''RunApproved''), (''revision'', jint 0), (''nodeId'', JNull),
     (''payload'', JObj [(''executionEnvelopeDigest'', stored_sha)])]"

lemma stored_plan_valid: "case validateWorkflowPlan reference_host stored_plan of Inl e \<Rightarrow> False | Inr v \<Rightarrow> \<not> isl v"
  by code_simp

lemma stored_plan_facts: "\<exists>facts. validateWorkflowPlan reference_host stored_plan = Inr (Inr facts)"
  using stored_plan_valid by (auto split: sum.splits elim: not_isl_Inr)

lemma stored_plan_ids: "list_all (\<lambda>n. isStr (own ''id'' n)) (items (own ''nodes'' stored_plan))"
  by code_simp

lemma stored_run_eval: "case projectWorkflowRun reference_host [planned_event, approved_event] stored_plan (JStr ''r'') of Inl e \<Rightarrow> False
   | Inr s \<Rightarrow> undisturbed s \<and> settledNodes s = [] \<and> rp_approval s \<noteq> JNull \<and> rp_executionEnvelope s \<noteq> JNull"
  by code_simp

lemma stored_run:
  obtains s where "projectWorkflowRun reference_host [planned_event, approved_event] stored_plan (JStr ''r'') = Inr s" "undisturbed s" "settledNodes s = []"
    "rp_approval s \<noteq> JNull" "rp_executionEnvelope s \<noteq> JNull"
  using stored_run_eval by (auto split: sum.splits)

lemma stored_options_eval: "case createExecutionEnvelope reference_host stored_plan (JObj [(''runId'', JStr ''r''), (''sourceHash'', stored_sha)]) of Inl e \<Rightarrow> False
   | Inr e \<Rightarrow> isStr (own ''sourceHash'' e) \<and> isStr (own ''runInputDigest'' e) \<and> text_matches RUN_ID (own ''id'' (own ''target'' e))"
  by code_simp

section \<open>Properties\<close>

text \<open>
  (C39) The scheduler makes progress: whatever the journal holds, when no node of the projected run is
  running or has ended without success, a round either finds every node of the plan successful or
  starts at least one node, and it only starts nodes that have not succeeded and whose
  dependencies all have; the verdict \<open>no-ready-node\<close> is never reached.
\<close>

theorem scheduler_progress:
  assumes "validateWorkflowPlan P plan = Inr (Inr facts)" "list_all (\<lambda>n. isStr (own ''id'' n)) (items (own ''nodes'' plan))"
    and "projectWorkflowRun P events plan runId = Inr state" "undisturbed state"
  shows "schedule P plan state = Inr RunDone \<and> set (settledNodes state) = own ''id'' ` set (items (own ''nodes'' plan))
     \<or> (\<exists>ready. schedule P plan state = Inr (StartNodes ready) \<and> ready \<noteq> [] \<and> set ready \<subseteq> set (items (own ''nodes'' plan))
         \<and> (\<forall>node \<in> set ready. own ''id'' node \<notin> set (settledNodes state) \<and> set (dependencies node) \<subseteq> set (settledNodes state)))"
  using valid_plan_graph [OF assms(1)] schedule_progress [OF _ _ assms(2,3,4)] by blast

theorem scheduler_progress_witness:
  "\<exists>s ready. projectWorkflowRun reference_host [planned_event, approved_event] stored_plan (JStr ''r'') = Inr s
     \<and> schedule reference_host stored_plan s = Inr (StartNodes ready) \<and> ready \<noteq> []"
proof -
  obtain facts where v: "validateWorkflowPlan reference_host stored_plan = Inr (Inr facts)" using stored_plan_facts by blast
  obtain s where s: "projectWorkflowRun reference_host [planned_event, approved_event] stored_plan (JStr ''r'') = Inr s" "undisturbed s" "settledNodes s = []"
    by (rule stored_run)
  have "own ''id'' ` set (items (own ''nodes'' stored_plan)) \<noteq> set []" by code_simp
  with scheduler_progress [OF v stored_plan_ids s(1,2)] s(1,3) show ?thesis by auto
qed

text \<open>
  Whatever the journal holds, a projection has exactly one state for each node of the plan, with
  the node's id and kind, and every state is well formed: no attempt is recorded twice, the
  artifact references are the ids of the artifacts and are distinct, only a batch node has a batch,
  and the items of a batch are ordered by distinct indices below the item count.
\<close>

theorem projected_nodes_wf:
  assumes "validateWorkflowPlan P plan = Inr (Inr facts)" "list_all (\<lambda>n. isStr (own ''id'' n)) (items (own ''nodes'' plan))"
    and "projectWorkflowRun P events plan runId = Inr state"
  shows "nodes_wf P state \<and> identities state = map (\<lambda>n. (js_string P (own ''id'' n), own ''id'' n, own ''kind'' n)) (items (own ''nodes'' plan))"
  using valid_plan_graph [OF assms(1)] graphFacts_order projected_nodes [OF assms(3) _ assms(2)] by blast

theorem projected_nodes_wf_witness:
  "\<exists>s. projectWorkflowRun reference_host [planned_event, approved_event] stored_plan (JStr ''r'') = Inr s \<and> nodes_wf reference_host s"
proof -
  obtain facts where v: "validateWorkflowPlan reference_host stored_plan = Inr (Inr facts)" using stored_plan_facts by blast
  obtain s where s: "projectWorkflowRun reference_host [planned_event, approved_event] stored_plan (JStr ''r'') = Inr s" by (rule stored_run)
  show ?thesis using projected_nodes_wf [OF v stored_plan_ids s] s by blast
qed

text \<open>
  A projected run is bound: its execution envelope, when it has one, names this run, the digest
  of this plan and the input digest of the run, and carries the digest computed from it; and when
  only the first event plans the run, the approval of the run names the digest of that envelope.
\<close>

theorem projected_run_bound:
  assumes "projectWorkflowRun P (event # events) plan runId = Inr state"
  shows "run_bound P plan runId state
     \<and> (own ''type'' event \<noteq> JStr ''RunApproved'' \<longrightarrow> list_all (\<lambda>e. own ''type'' e \<noteq> JStr ''RunPlanned'') events \<longrightarrow> rp_approval state \<noteq> JNull
          \<longrightarrow> own ''executionEnvelopeDigest'' (rp_approval state) = rp_executionEnvelopeDigest state)"
  using projected_bound [OF assms] by (auto simp: approval_bound_def)

theorem projected_run_bound_witness:
  "\<exists>s. projectWorkflowRun reference_host [planned_event, approved_event] stored_plan (JStr ''r'') = Inr s \<and> rp_executionEnvelope s \<noteq> JNull
     \<and> own ''planDigest'' (rp_executionEnvelope s) = own ''planDigest'' stored_plan
     \<and> own ''executionEnvelopeDigest'' (rp_approval s) = rp_executionEnvelopeDigest s"
proof -
  obtain s where s: "projectWorkflowRun reference_host [planned_event, approved_event] stored_plan (JStr ''r'') = Inr s"
    "rp_approval s \<noteq> JNull" "rp_executionEnvelope s \<noteq> JNull" by (rule stored_run)
  have t: "own ''type'' planned_event \<noteq> JStr ''RunApproved''" "list_all (\<lambda>e. own ''type'' e \<noteq> JStr ''RunPlanned'') [approved_event]" by code_simp+
  show ?thesis using projected_run_bound [OF s(1)] t s unfolding run_bound_def Let_def by blast
qed

text \<open>
  The coordinator and the plan store agree on execution envelopes: the envelope the coordinator
  creates, when its target has an id the store admits and its digests are texts, is cloned
  and accepted by the store's check for the same run, plan, input and source.
\<close>

theorem store_accepts_created_envelope:
  assumes "host_ok P" "createExecutionEnvelope P plan options = Inr e"
    and "isStr (own ''sourceHash'' e)" "isStr (own ''runInputDigest'' e)" "text_matches RUN_ID (own ''id'' (own ''target'' e))"
  shows "\<exists>w. assertPlainJson e = Inr w
     \<and> validateExecutionEnvelope P w (own ''runId'' e) (own ''planDigest'' plan) (own ''runInputDigest'' e) (own ''sourceHash'' e) = Inr w"
  by (rule envelope_accepted [OF assms])

theorem store_accepts_created_envelope_witness:
  "\<exists>e w. createExecutionEnvelope reference_host stored_plan (JObj [(''runId'', JStr ''r''), (''sourceHash'', stored_sha)]) = Inr e
     \<and> assertPlainJson e = Inr w
     \<and> validateExecutionEnvelope reference_host w (own ''runId'' e) (own ''planDigest'' stored_plan) (own ''runInputDigest'' e) (own ''sourceHash'' e) = Inr w"
proof -
  obtain e where e: "createExecutionEnvelope reference_host stored_plan (JObj [(''runId'', JStr ''r''), (''sourceHash'', stored_sha)]) = Inr e"
    "isStr (own ''sourceHash'' e)" "isStr (own ''runInputDigest'' e)" "text_matches RUN_ID (own ''id'' (own ''target'' e))"
    using stored_options_eval by (auto split: sum.splits)
  show ?thesis using e(1) store_accepts_created_envelope [OF reference_host_ok e] by blast
qed



section \<open>The second recovery of a node\<close>

text \<open>
  \<open>execute\<close> puts an interrupted node back into the queue with an event whose id is made of the
  revision and the node only. The journal drops an event with a known id and the same content, so
  the second recovery of the same node leaves it running, and the scheduler starts nothing.
\<close>

lemma replayed_event_dropped:
  assumes "find (\<lambda>event. js_eq (own ''eventId'' event) (own ''eventId'' n)) es = Some e" "own ''inputDigest'' e = JStr h" "sha256 P (inputShape n) = Inr h"
  shows "\<exists>c. classifyIncoming P es n = Inr c \<and> cl_status c = ''DUPLICATE_EVENT''"
  using assms by (simp add: classifyIncoming_def)

definition node_event :: "string \<Rightarrow> jsval \<Rightarrow> (string \<times> jsval) list \<Rightarrow> jsval" where
  "node_event type' attempt payload = JObj [(''runId'', JStr ''r''), (''type'', JStr type'), (''revision'', jint 0), (''nodeId'', JStr ''n''),
     (''attemptId'', attempt), (''payload'', JObj payload)]"

definition requeue_event :: jsval where
  "requeue_event = node_event ''NodeQueued'' JNull [(''recovery'', JBool True)]"

lemma second_recovery_stuck:
  "case projectWorkflowRun reference_host [planned_event, node_event ''NodeAdmitted'' (JStr ''a1'') [], requeue_event, node_event ''NodeAdmitted'' (JStr ''a2'') []]
     stored_plan (JStr ''r'') of Inl e \<Rightarrow> False | Inr s \<Rightarrow> schedule reference_host stored_plan s = Inr NoReadyNode"
  by code_simp

end
