(* ===== verification/Run_Calls.thy ===== *)
theory Run_Calls
  imports Run_Projection Approval_Receipt
begin

text \<open>
  Programs that call services. The methods of \<open>RunCoordinator\<close> in
  \<open>workflow/run-coordinator/index.mjs\<close> await the journal, the ledger, the executors and the approval
  evidence; \<open>'a io\<close> is such a method as the tree of its calls, with a branch for every answer.
  A trace is the list of the calls with their answers, and \<open>replay\<close> runs a program on a trace. What holds for
  every trace holds whatever the services do. \<open>safe\<close> follows an automaton over the calls
  through a program; \<open>safe_replay\<close> says what that proves of the traces, and the locale \<open>call_monitor\<close> is the contract of such an automaton.
\<close>

section \<open>Programs\<close>

datatype request =
    AssertLease                                   \<comment> \<open>\<open>#assertLeaseHealthy\<close>\<close>
  | EnsureLease                                   \<comment> \<open>\<open>#ensureLeaseForWrite\<close>, which renews a lease that runs out\<close>
  | JournalAppend jsval jsval jsval               \<comment> \<open>event, expected sequence number and digest\<close>
  | WriteSnapshot jsval run_projection jsval jsval
  | NewId string
  | ApprovalEvidence jsval string
  | VerifyWith jsval jsval string                 \<comment> \<open>a verifier that comes with the evidence\<close>
  | PrepareBatch jsval jsval jsval "jsval list"
  | ReserveBudget jsval jsval jsval jsval         \<comment> \<open>reservation, node, attempt, worst case\<close>
  | SettleBudget jsval jsval jsval jsval          \<comment> \<open>reservation, consumed, node, attempt\<close>
  | RefundBudget jsval jsval jsval
  | StartAgent jsval jsval jsval "jsval list"     \<comment> \<open>node, attempt, authorization, artifacts\<close>
  | AwaitTerminal jsval jsval
  | RunAgent jsval jsval jsval "jsval list"
  | RunBatch jsval jsval jsval "jsval list" jsval "jsval list"
  | RunGate jsval "jsval list"
  | CreateCheckpoint jsval
  | EvaluateLoop jsval
  | PublishArtifact jsval
  | CountAttempt jsval
  | KeepHandle jsval jsval
  | DropHandle jsval
  | DropReservation jsval
  | PollCancel
  | CancelReason
  | PutPlan jsval
  | GetPlan
  | AcquireLease
  | ReleaseLease
  | RunNodes "jsval list" "(jsval \<times> int) list" "(jsval \<times> jsval \<times> jsval) list"
      \<comment> \<open>\<open>#runNode\<close> of several nodes at once, with the attempts made and the reservations taken over\<close>

datatype 'a io =
    Return 'a
  | Raise js_error
  | Ask request "jsval res \<Rightarrow> 'a io"
  | Read "jsval list res \<Rightarrow> 'a io"               \<comment> \<open>the events of the journal, after a repair\<close>
  | Flags "bool \<times> bool \<Rightarrow> 'a io"             \<comment> \<open>\<open>cancelRequested\<close> and \<open>pauseRequested\<close> now\<close>

primrec bindIO :: "'a io \<Rightarrow> ('a \<Rightarrow> 'b io) \<Rightarrow> 'b io" where
  "bindIO (Return x) f = f x"
| "bindIO (Raise e) f = Raise e"
| "bindIO (Ask q k) f = Ask q (\<lambda>a. bindIO (k a) f)"
| "bindIO (Read k) f = Read (\<lambda>a. bindIO (k a) f)"
| "bindIO (Flags k) f = Flags (\<lambda>a. bindIO (k a) f)"

text \<open>\<open>try { ... } catch (cause) { ... }\<close> as a program that returns the error as a value.\<close>

primrec attemptIO :: "'a io \<Rightarrow> 'a res io" where
  "attemptIO (Return x) = Return (Inr x)"
| "attemptIO (Raise e) = Return (Inl e)"
| "attemptIO (Ask q k) = Ask q (\<lambda>a. attemptIO (k a))"
| "attemptIO (Read k) = Read (\<lambda>a. attemptIO (k a))"
| "attemptIO (Flags k) = Flags (\<lambda>a. attemptIO (k a))"

definition liftIO :: "'a res \<Rightarrow> 'a io" where
  "liftIO r = (case r of Inl e \<Rightarrow> Raise e | Inr x \<Rightarrow> Return x)"

definition ask :: "request \<Rightarrow> jsval io" where
  "ask q = Ask q liftIO"

definition readEvents :: "jsval list io" where
  "readEvents = Read liftIO"

section \<open>Traces\<close>

datatype called = Asked request "jsval res" | DidRead "jsval list res" | SawFlags "bool \<times> bool"

fun replay :: "'a io \<Rightarrow> called list \<Rightarrow> 'a res option" where
  "replay (Return x) tr = (if tr = [] then Some (Inr x) else None)"
| "replay (Raise e) tr = (if tr = [] then Some (Inl e) else None)"
| "replay (Ask q k) (Asked q' a # tr) = (if q = q' then replay (k a) tr else None)"
| "replay (Read k) (DidRead a # tr) = replay (k a) tr"
| "replay (Flags k) (SawFlags a # tr) = replay (k a) tr"
| "replay _ _ = None"

text \<open>Every program has a trace for every way to answer its calls.\<close>

record answers =
  an_call :: "request \<Rightarrow> jsval res"
  an_read :: "jsval list res"
  an_flags :: "bool \<times> bool"

primrec answered :: "answers \<Rightarrow> 'a io \<Rightarrow> called list \<times> 'a res" where
  "answered A (Return x) = ([], Inr x)"
| "answered A (Raise e) = ([], Inl e)"
| "answered A (Ask q k) = (let (tr, r) = answered A (k (an_call A q)) in (Asked q (an_call A q) # tr, r))"
| "answered A (Read k) = (let (tr, r) = answered A (k (an_read A)) in (DidRead (an_read A) # tr, r))"
| "answered A (Flags k) = (let (tr, r) = answered A (k (an_flags A)) in (SawFlags (an_flags A) # tr, r))"

lemma replay_answered: "answered A m = (tr, r) \<Longrightarrow> replay m tr = Some r"
  by (induction m arbitrary: tr) (auto split: prod.splits)

text \<open>An automaton over the calls refuses a call by having no next state.\<close>

fun watch :: "('s \<Rightarrow> called \<Rightarrow> 's option) \<Rightarrow> 's \<Rightarrow> called list \<Rightarrow> 's option" where
  "watch d s [] = Some s"
| "watch d s (c # cs) = (case d s c of None \<Rightarrow> None | Some s' \<Rightarrow> watch d s' cs)"

primrec safe :: "('s \<Rightarrow> called \<Rightarrow> 's option) \<Rightarrow> 'a io \<Rightarrow> ('a res \<Rightarrow> 's \<Rightarrow> bool) \<Rightarrow> 's \<Rightarrow> bool" where
  "safe d (Return x) Q s = Q (Inr x) s"
| "safe d (Raise e) Q s = Q (Inl e) s"
| "safe d (Ask q k) Q s = (\<forall>a. case d s (Asked q a) of None \<Rightarrow> False | Some s' \<Rightarrow> safe d (k a) Q s')"
| "safe d (Read k) Q s = (\<forall>a. case d s (DidRead a) of None \<Rightarrow> False | Some s' \<Rightarrow> safe d (k a) Q s')"
| "safe d (Flags k) Q s = (\<forall>a. case d s (SawFlags a) of None \<Rightarrow> False | Some s' \<Rightarrow> safe d (k a) Q s')"

lemma safe_mono: "safe d m Q s \<Longrightarrow> (\<And>r s. Q r s \<Longrightarrow> Q' r s) \<Longrightarrow> safe d m Q' s"
  by (induction m arbitrary: s) (fastforce split: option.splits)+

lemma safe_bind [simp]: "safe d (bindIO m f) Q s = safe d m (\<lambda>r s'. case r of Inl e \<Rightarrow> Q (Inl e) s' | Inr x \<Rightarrow> safe d (f x) Q s') s"
  by (induction m arbitrary: s) (auto split: option.splits)

lemma safe_attempt [simp]: "safe d (attemptIO m) Q s = safe d m (\<lambda>r s'. Q (Inr r) s') s"
  by (induction m arbitrary: s) (auto split: option.splits)

lemma safe_lift [simp]: "safe d (liftIO r) Q s = Q r s"
  by (simp add: liftIO_def split: sum.split)

lemma safe_call [simp]: "safe d (ask q) Q s = (\<forall>a. case d s (Asked q a) of None \<Rightarrow> False | Some s' \<Rightarrow> Q a s')"
  by (simp add: ask_def cong: option.case_cong)

lemma safe_read [simp]: "safe d readEvents Q s = (\<forall>a. case d s (DidRead a) of None \<Rightarrow> False | Some s' \<Rightarrow> Q a s')"
  by (simp add: readEvents_def cong: option.case_cong)

text \<open>What \<open>safe\<close> means for the traces.\<close>

lemma safe_replay: "safe d m Q s \<Longrightarrow> replay m tr = Some r \<Longrightarrow> \<exists>s'. watch d s tr = Some s' \<and> Q r s'"
proof (induction m arbitrary: s tr)
  case (Return x)
  then show ?case by (auto split: if_splits)
next
  case (Raise e)
  then show ?case by (auto split: if_splits)
next
  case (Ask q k)
  then obtain a tr' where tr: "tr = Asked q a # tr'" "replay (k a) tr' = Some r" by (cases "(Ask q k, tr)" rule: replay.cases) (auto split: if_splits)
  then obtain s' where s': "d s (Asked q a) = Some s'" "safe d (k a) Q s'" using Ask.prems(1) by (auto split: option.splits dest!: spec [of _ a])
  then show ?case using Ask.IH [OF rangeI s'(2) tr(2)] tr(1) by simp
next
  case (Read k)
  then obtain a tr' where tr: "tr = DidRead a # tr'" "replay (k a) tr' = Some r" by (cases "(Read k, tr)" rule: replay.cases) auto
  then obtain s' where s': "d s (DidRead a) = Some s'" "safe d (k a) Q s'" using Read.prems(1) by (auto split: option.splits dest!: spec [of _ a])
  then show ?case using Read.IH [OF rangeI s'(2) tr(2)] tr(1) by simp
next
  case (Flags k)
  then obtain a tr' where tr: "tr = SawFlags a # tr'" "replay (k a) tr' = Some r" by (cases "(Flags k, tr)" rule: replay.cases) auto
  then obtain s' where s': "d s (SawFlags a) = Some s'" "safe d (k a) Q s'" using Flags.prems(1) by (auto simp del: split_paired_All split: option.splits dest!: spec [of _ a])
  then show ?case using Flags.IH [OF rangeI s'(2) tr(2)] tr(1) by simp
qed

section \<open>Monitors\<close>

text \<open>A program that makes only calls of a kind and never looks at the flags.\<close>

primrec only :: "(request \<Rightarrow> bool) \<Rightarrow> 'a io \<Rightarrow> bool" where
  "only ok (Return x) = True"
| "only ok (Raise e) = True"
| "only ok (Ask q k) = (ok q \<and> (\<forall>a. only ok (k a)))"
| "only ok (Read k) = (\<forall>a. only ok (k a))"
| "only ok (Flags k) = False"

lemma only_bind [intro]: "only ok m \<Longrightarrow> (\<And>x. only ok (f x)) \<Longrightarrow> only ok (bindIO m f)"
  by (induction m) auto

lemma only_attempt [simp]: "only ok (attemptIO m) = only ok m"
  by (induction m) auto

lemma only_lift [simp]: "only ok (liftIO r)"
  by (simp add: liftIO_def split: sum.split)

lemma only_call [simp]: "only ok (ask q) = ok q"
  by (simp add: ask_def)

lemma only_readEvents [simp]: "only ok readEvents"
  by (simp add: readEvents_def)

text \<open>
  The contract of an automaton: the calls it calls quiet and the reads do not move it. A program
  of quiet calls then leaves its state alone, whatever it is answered.
\<close>

locale call_monitor =
  fixes step :: "'s \<Rightarrow> called \<Rightarrow> 's option" and quiet :: "request \<Rightarrow> bool"
  assumes quiet_call: "quiet q \<Longrightarrow> step s (Asked q a) = Some s"
    and quiet_read: "step s (DidRead a') = Some s"
begin

lemma safe_steady: "only ok m \<Longrightarrow> (\<And>q a. ok q \<Longrightarrow> step s (Asked q a) = Some s) \<Longrightarrow> (\<And>r. Q r s) \<Longrightarrow> safe step m Q s"
  by (induction m) (auto simp: quiet_read)

lemma safe_quiet: "only quiet m \<Longrightarrow> (\<And>r. Q r s) \<Longrightarrow> safe step m Q s"
  by (rule safe_steady [where ok = quiet]) (auto simp: quiet_call)

text \<open>A program whose calls no state refuses.\<close>

lemma safe_accepting: "only ok m \<Longrightarrow> (\<And>q a s. ok q \<Longrightarrow> \<exists>s'. step s (Asked q a) = Some s') \<Longrightarrow> (\<And>r s. Q r s) \<Longrightarrow> safe step m Q s"
proof (induction m arbitrary: s)
  case (Ask q k s)
  have "case step s (Asked q a) of None \<Rightarrow> False | Some s' \<Rightarrow> safe step (k a) Q s'" for a
  proof -
    obtain s' where "step s (Asked q a) = Some s'" by (meson Ask.prems(1,2) only.simps(3))
    moreover have "safe step (k a) Q s'" by (rule Ask.IH [OF rangeI _ Ask.prems(2,3)]) (use Ask.prems(1) in simp_all)
    ultimately show ?thesis by simp
  qed
  then show ?case by simp
qed (auto simp: quiet_read)

lemma safe_quiet_bind: "only quiet m \<Longrightarrow> (\<And>e. Q (Inl e) s) \<Longrightarrow> (\<And>x. safe step (f x) Q s) \<Longrightarrow> safe step (bindIO m f) Q s"
  by (simp, rule safe_quiet) (auto split: sum.split)

end

text \<open>A program that may look at the flags as well.\<close>

primrec calls :: "(request \<Rightarrow> bool) \<Rightarrow> 'a io \<Rightarrow> bool" where
  "calls ok (Return x) = True"
| "calls ok (Raise e) = True"
| "calls ok (Ask q k) = (ok q \<and> (\<forall>a. calls ok (k a)))"
| "calls ok (Read k) = (\<forall>a. calls ok (k a))"
| "calls ok (Flags k) = (\<forall>a. calls ok (k a))"

lemma calls_bind: "calls ok m \<Longrightarrow> (\<And>x. calls ok (f x)) \<Longrightarrow> calls ok (bindIO m f)"
  by (induction m) auto

lemma calls_attempt [simp]: "calls ok (attemptIO m) = calls ok m"
  by (induction m) auto

lemma calls_lift [simp]: "calls ok (liftIO r)"
  by (simp add: liftIO_def split: sum.split)

lemma calls_call [simp]: "calls ok (ask q) = ok q"
  by (simp add: ask_def)

lemma calls_readEvents [simp]: "calls ok readEvents"
  by (simp add: readEvents_def)

lemma calls_of_only: "only ok m \<Longrightarrow> calls ok m"
  by (induction m) auto

locale flag_monitor = call_monitor +
  assumes quiet_flags: "step s (SawFlags f) = Some s"
begin

lemma safe_calls: "calls ok m \<Longrightarrow> (\<And>q a. ok q \<Longrightarrow> step s (Asked q a) = Some s) \<Longrightarrow> (\<And>r. Q r s) \<Longrightarrow> safe step m Q s"
  by (induction m) (auto simp: quiet_read quiet_flags)

end

end
