(* ===== verification/Run_Node.thy ===== *)
theory Run_Node
  imports Run_Calls Event_Journal
begin

text \<open>
  One node of a run: \<open>#append\<close>, \<open>#event\<close>, \<open>#project\<close>, \<open>#snapshot\<close>, \<open>#verifyApproval\<close>, \<open>#runPrimitive\<close> and
  \<open>#runNode\<close> of \<open>workflow/run-coordinator/index.mjs\<close>, as programs of \<open>Run_Calls\<close>. The fields of
  the coordinator that never change during a run, and which services it was given, are in
  \<open>run_ctx\<close>. The timer of \<open>#nodeDeadline\<close> shows as an executor call that answers with
  \<open>NODE_TIMEOUT\<close>; it is seen at the calls, not in the middle of an append.
\<close>

record run_services =
  sv_evidence :: bool
  sv_pathEnforcement :: jsval
  sv_startAgent :: bool
  sv_runAgent :: bool
  sv_runBatch :: bool
  sv_prepareBatch :: bool
  sv_gates :: bool
  sv_checkpoints :: bool
  sv_loops :: bool
  sv_artifacts :: bool

record run_ctx =
  cx_host :: platform
  cx_runId :: jsval
  cx_plan :: jsval
  cx_envelope :: jsval
  cx_services :: run_services
  cx_message :: "js_error \<Rightarrow> string"   \<comment> \<open>the message of an error\<close>
  cx_digestOf :: "run_projection \<Rightarrow> string res"   \<comment> \<open>\<open>digestWorkflowValue\<close> of the projection as an object\<close>

text \<open>\<open>cause?.code\<close>.\<close>

fun errorCode :: "js_error \<Rightarrow> jsval" where
  "errorCode (Thrown cls code) = JStr code"
| "errorCode TypeError = JUndef"

section \<open>The journal\<close>

fun appendTries :: "platform \<Rightarrow> nat \<Rightarrow> jsval \<Rightarrow> jsval io" where
  "appendTries P 0 event = liftIO (failCoord ''EVENT_APPEND_RETRY_EXHAUSTED'')"
| "appendTries P (Suc n) event =
     bindIO (ask EnsureLease) (\<lambda>_.
     bindIO readEvents (\<lambda>events.
     let current = recovered P events '''' 0 in
     bindIO (attemptIO (ask (JournalAppend event (rc_lastSeq current) (rc_lastEventDigest current)))) (\<lambda>r.
     case r of Inr result \<Rightarrow> Return result
     | Inl cause \<Rightarrow> (if errorCode cause \<noteq> JStr ''JOURNAL_CAS_MISMATCH'' \<or> n = 0 then Raise cause else appendTries P n event))))"

definition appendRunEvent :: "run_ctx \<Rightarrow> jsval \<Rightarrow> jsval io" where
  "appendRunEvent C event = bindIO (ask AssertLease) (\<lambda>_. bindIO (ask EnsureLease) (\<lambda>_. appendTries (cx_host C) 8 event))"

record event_values =
  vl_eventId :: jsval
  vl_nodeId :: jsval
  vl_attemptId :: jsval
  vl_childId :: jsval
  vl_swarmRunId :: jsval
  vl_payload :: jsval

definition revisionOf :: "run_ctx \<Rightarrow> jsval" where
  "revisionOf C = own ''number'' (own ''revision'' (cx_plan C))"

definition runEvent :: "run_ctx \<Rightarrow> string \<Rightarrow> event_values \<Rightarrow> jsval res" where
  "runEvent C type' V = rbind (safeProjection (cx_host C) (48 * 1024) (vl_payload V)) (\<lambda>payload.
     Inr (JObj [(''eventId'', vl_eventId V), (''type'', JStr type'), (''revision'', revisionOf C), (''nodeId'', vl_nodeId V), (''attemptId'', vl_attemptId V),
       (''childId'', vl_childId V), (''swarmRunId'', vl_swarmRunId V), (''payload'', payload)]))"

definition emitEvent :: "run_ctx \<Rightarrow> string \<Rightarrow> event_values \<Rightarrow> unit io" where
  "emitEvent C type' V = bindIO (liftIO (runEvent C type' V)) (\<lambda>event. bindIO (appendRunEvent C event) (\<lambda>_. Return ()))"

definition projectRun :: "run_ctx \<Rightarrow> (jsval list \<times> run_projection) io" where
  "projectRun C = bindIO (ask EnsureLease) (\<lambda>_. bindIO readEvents (\<lambda>events.
     bindIO (liftIO (projectWorkflowRun (cx_host C) events (cx_plan C) (cx_runId C))) (\<lambda>projection. Return (events, projection))))"

definition snapshotRun :: "run_ctx \<Rightarrow> run_projection \<Rightarrow> jsval io" where
  "snapshotRun C projection = bindIO (ask EnsureLease) (\<lambda>_. bindIO readEvents (\<lambda>events.
     let current = recovered (cx_host C) events '''' 0 in
     ask (WriteSnapshot (revisionOf C) projection (rc_lastSeq current) (rc_lastEventDigest current))))"

text \<open>Identifiers made of the ids of nodes, attempts and revisions.\<close>

definition idText :: "run_ctx \<Rightarrow> string \<Rightarrow> jsval list \<Rightarrow> jsval" where
  "idText C prefix' parts = JStr (prefix' @ concat (map (\<lambda>v. '':'' @ js_string (cx_host C) v) parts))"

definition ofNode :: "run_ctx \<Rightarrow> string \<Rightarrow> jsval \<Rightarrow> (string \<times> jsval) list \<Rightarrow> event_values" where
  "ofNode C prefix' node payload = \<lparr> vl_eventId = idText C prefix' [revisionOf C, own ''id'' node], vl_nodeId = own ''id'' node, vl_attemptId = JNull, vl_childId = JNull,
     vl_swarmRunId = JNull, vl_payload = JObj payload \<rparr>"

definition ofAttempt :: "run_ctx \<Rightarrow> string \<Rightarrow> jsval \<Rightarrow> jsval \<Rightarrow> jsval \<Rightarrow> (string \<times> jsval) list \<Rightarrow> event_values" where
  "ofAttempt C prefix' node attemptId childId payload = \<lparr> vl_eventId = idText C prefix' [attemptId], vl_nodeId = own ''id'' node, vl_attemptId = attemptId,
     vl_childId = childId, vl_swarmRunId = JNull, vl_payload = JObj payload \<rparr>"

section \<open>Approval\<close>

definition refusal :: "jsval \<Rightarrow> jsval" where
  "refusal code = JObj [(''ok'', JBool False), (''code'', code)]"

definition contextRefusal :: "js_error \<Rightarrow> jsval" where
  "contextRefusal cause = refusal (coalesce (errorCode cause) (JStr ''APPROVAL_CONTEXT_UNAVAILABLE''))"

fun fields_of :: "jsval \<Rightarrow> (string \<times> jsval) list" where
  "fields_of (JObj ps) = ps"
| "fields_of _ = []"

definition setFields :: "(string \<times> jsval) list \<Rightarrow> jsval \<Rightarrow> jsval" where
  "setFields ps v = foldl (\<lambda>w (k, x). oset k x w) v ps"

definition envelopeDigestOf :: "run_ctx \<Rightarrow> jsval" where
  "envelopeDigestOf C = own ''executionEnvelopeDigest'' (cx_envelope C)"

text \<open>The verdict of the verifier made from the evidence.\<close>

definition evidenceVerdict :: "run_ctx \<Rightarrow> jsval \<Rightarrow> jsval \<Rightarrow> jsval \<Rightarrow> string \<Rightarrow> bool \<Rightarrow> jsval res" where
  "evidenceVerdict C evidence receipt node stage nodeApproval =
     (let P = cx_host C;
          config = JObj [(''repo'', own ''repo'' evidence), (''capabilityEnvelopeHash'', own ''capabilityEnvelopeHash'' evidence), (''scope'', own ''scope'' evidence),
            (''executionEnvelopeDigest'', envelopeDigestOf C)];
          context' = setFields [(''expectedExecutionEnvelopeDigest'', envelopeDigestOf C), (''executionEnvelopeDigest'', envelopeDigestOf C), (''runId'', cx_runId C),
            (''node'', node), (''stage'', JStr stage)] (JObj (fields_of evidence)) in
      rbind (if nodeApproval \<and> truthy node then verifyNodeApproval P config receipt (own ''approval'' node) (cx_plan C) context'
             else verifyApproval P config receipt (cx_plan C) context') (\<lambda>verdict.
      case verdict of Inl code \<Rightarrow> Inr (refusal (JStr code))
      | Inr receiptDigest \<Rightarrow> Inr (JObj [(''ok'', JBool True), (''receiptDigest'', receiptDigest)])))"

definition authorized :: "run_ctx \<Rightarrow> jsval \<Rightarrow> jsval \<Rightarrow> jsval res" where
  "authorized C receipt verdict = (if nullish receipt then Inl TypeError else
     Inr (setFields [(''authorization'', JObj [(''formatVersion'', jint 1), (''repo'', own ''repo'' receipt), (''scope'', own ''scope'' receipt),
       (''receiptId'', own ''receiptId'' receipt), (''executionEnvelopeDigest'', envelopeDigestOf C)])] (JObj (fields_of verdict))))"

definition verifyRun :: "run_ctx \<Rightarrow> jsval \<Rightarrow> jsval \<Rightarrow> string \<Rightarrow> bool \<Rightarrow> jsval io" where
  "verifyRun C receipt node stage nodeApproval =
     (if \<not> sv_evidence (cx_services C) then Return (refusal (JStr ''APPROVAL_CONTEXT_UNAVAILABLE'')) else
      bindIO (attemptIO (ask (ApprovalEvidence node stage))) (\<lambda>r. case r of
        Inl cause \<Rightarrow> Return (contextRefusal cause)
      | Inr evidence \<Rightarrow>
          if \<not> isObj evidence \<and> \<not> isArr evidence then Return (refusal (JStr ''APPROVAL_CONTEXT_UNAVAILABLE'')) else
          bindIO (attemptIO (bindIO
            (if truthy (own ''approvalVerifier'' evidence) then ask (VerifyWith receipt node stage)
             else liftIO (evidenceVerdict C evidence receipt node stage nodeApproval))
            (\<lambda>verdict. if \<not> truthy (own ''ok'' verdict) then Return verdict else liftIO (authorized C receipt verdict))))
          (\<lambda>r. case r of Inl cause \<Rightarrow> Return (contextRefusal cause) | Inr verdict \<Rightarrow> Return verdict)))"

section \<open>One attempt\<close>

definition terminalOptions :: "run_ctx \<Rightarrow> jsval \<Rightarrow> jsval \<Rightarrow> string \<Rightarrow> terminal_options" where
  "terminalOptions C node attemptId fallback = \<lparr> to_runId = cx_runId C, to_nodeId = own ''id'' node, to_attemptId = attemptId, to_fallback = fallback,
     to_maxOutputBytes = (case own ''maxOutputBytes'' (own ''budget'' node) of JNum (Fin a) \<Rightarrow> \<lfloor>a\<rfloor> | _ \<Rightarrow> 0) \<rparr>"

definition terminalOf :: "run_ctx \<Rightarrow> jsval \<Rightarrow> jsval \<Rightarrow> string \<Rightarrow> jsval \<Rightarrow> run_terminal io" where
  "terminalOf C node attemptId fallback v = liftIO (normalizeTerminal (cx_host C) v (terminalOptions C node attemptId fallback))"

definition unavailable :: "run_ctx \<Rightarrow> jsval \<Rightarrow> jsval \<Rightarrow> run_terminal io" where
  "unavailable C node attemptId = terminalOf C node attemptId ''unavailable'' (JObj [(''outcome'', JStr ''unavailable''), (''authoritative'', JBool False)])"

definition childIdOf :: "run_ctx \<Rightarrow> jsval \<Rightarrow> jsval \<Rightarrow> jsval" where
  "childIdOf C node attemptId = JStr (js_string (cx_host C) (own ''id'' node) @ '':'' @ js_string (cx_host C) attemptId)"

record node_inputs =
  ni_receipt :: jsval
  ni_artifactRefs :: "jsval list"

definition runAgentNode :: "run_ctx \<Rightarrow> jsval \<Rightarrow> jsval \<Rightarrow> jsval list \<Rightarrow> jsval \<Rightarrow> run_terminal io" where
  "runAgentNode C node attemptId refs authorization =
     (let S = cx_services C; childId = childIdOf C node attemptId;
          started = (\<lambda>payload. emitEvent C ''ChildStarted'' (ofAttempt C ''child-started'' node attemptId childId payload)) in
      if sv_startAgent S then
        bindIO (started [(''handleId'', JNull), (''backendId'', JNull), (''startRequested'', JBool True)]) (\<lambda>_.
        bindIO (ask (CountAttempt (own ''id'' node))) (\<lambda>_.
        bindIO (ask (StartAgent node attemptId authorization refs)) (\<lambda>start.
        let handle = coalesce (own ''handle'' start) JNull in
        bindIO (if truthy handle then ask (KeepHandle (own ''id'' node) handle) else Return JUndef) (\<lambda>_.
        if nullish start then Raise TypeError else
        bindIO (ask (AwaitTerminal (own ''id'' node) attemptId)) (terminalOf C node attemptId ''failed'')))))
      else if \<not> sv_runAgent S then unavailable C node attemptId else
        bindIO (started [(''localOnly'', JBool True)]) (\<lambda>_.
        bindIO (ask (CountAttempt (own ''id'' node))) (\<lambda>_.
        bindIO (ask (RunAgent node attemptId authorization refs)) (terminalOf C node attemptId ''failed''))))"

definition runBatchNode :: "run_ctx \<Rightarrow> jsval \<Rightarrow> jsval \<Rightarrow> jsval list \<Rightarrow> jsval \<Rightarrow> jsval \<Rightarrow> jsval list \<Rightarrow> run_terminal io" where
  "runBatchNode C node attemptId refs authorization prepared prior =
     (if \<not> sv_runBatch (cx_services C) then unavailable C node attemptId else
      bindIO (emitEvent C ''ChildStarted'' (ofAttempt C ''child-started'' node attemptId (childIdOf C node attemptId) [(''localOnly'', JBool True), (''batch'', JBool True)])) (\<lambda>_.
      bindIO (ask (RunBatch node attemptId authorization refs prepared prior)) (terminalOf C node attemptId ''failed'')))"

text \<open>\<open>recordBatchEvent\<close>, which the batch executor calls while it runs.\<close>

definition recordBatchEvent :: "run_ctx \<Rightarrow> jsval \<Rightarrow> jsval \<Rightarrow> jsval \<Rightarrow> jsval \<Rightarrow> unit io" where
  "recordBatchEvent C node attemptId prepared event =
     (case (own ''eventId'' event, own ''type'' event) of
        (JStr eventId, JStr type') \<Rightarrow>
          if isObj event \<and> type' \<in> {''BatchStarted'', ''BatchCapacityChanged'', ''BatchItemQueued'', ''BatchItemStarted'', ''BatchItemTerminal'', ''BatchSettled''} then
            emitEvent C type' \<lparr> vl_eventId = JStr eventId, vl_nodeId = own ''id'' node, vl_attemptId = attemptId, vl_childId = coalesce (own ''childId'' event) JNull,
              vl_swarmRunId = coalesce (own ''swarmRunId'' event) (coalesce (own ''batchRunId'' prepared) JNull), vl_payload = coalesce (own ''payload'' event) (JObj []) \<rparr>
          else liftIO (failCoord ''INVALID_BATCH_EVENT'')
      | _ \<Rightarrow> liftIO (failCoord ''INVALID_BATCH_EVENT''))"

definition runGateNode :: "run_ctx \<Rightarrow> jsval \<Rightarrow> jsval \<Rightarrow> jsval list \<Rightarrow> run_terminal io" where
  "runGateNode C node attemptId refs = (let P = cx_host C in
     if \<not> sv_gates (cx_services C) then
       terminalOf C node attemptId ''failed'' (JObj [(''status'', JStr ''FAIL''), (''error'', JObj [(''code'', JStr ''GATE_RUNNER_UNAVAILABLE'')])]) else
     bindIO (ask (RunGate (own ''gateId'' node) refs)) (\<lambda>result.
     let outcome = JStr (if own ''status'' result = JStr ''PASS'' then ''completed'' else ''failed'');
         given = coalesce (own ''digest'' result) (own ''receiptDigest'' result) in
     bindIO (liftIO (if \<not> nullish given then Inr given else
       rbind (safeProjection P (32 * 1024) result) (\<lambda>v. rbind (digestValue P v) (\<lambda>h. Inr (JStr h))))) (\<lambda>receiptDigest.
     bindIO (emitEvent C ''GateEvaluated'' (ofAttempt C ''gate-evaluated'' node attemptId JNull
       [(''outcome'', outcome), (''gateId'', own ''gateId'' node), (''receiptDigest'', receiptDigest)])) (\<lambda>_.
     terminalOf C node attemptId ''failed'' (setFields [(''outcome'', outcome), (''authoritative'', JBool True)] (JObj (fields_of result)))))))"

definition settledResult :: "run_ctx \<Rightarrow> jsval \<Rightarrow> jsval \<Rightarrow> bool \<Rightarrow> jsval \<Rightarrow> run_terminal io" where
  "settledResult C node attemptId succeeded result = terminalOf C node attemptId ''failed''
     (JObj [(''outcome'', JStr (if succeeded then ''completed'' else ''failed'')), (''authoritative'', JBool True), (''result'', result)])"

definition runPrimitive :: "run_ctx \<Rightarrow> jsval \<Rightarrow> jsval \<Rightarrow> node_inputs \<Rightarrow> jsval \<Rightarrow> jsval \<Rightarrow> jsval list \<Rightarrow> run_terminal io" where
  "runPrimitive C node attemptId N authorization prepared prior =
     bindIO (ask AssertLease) (\<lambda>_. let S = cx_services C; kind = own ''kind'' node; refs = ni_artifactRefs N in
      if kind = JStr ''agent'' then runAgentNode C node attemptId refs authorization else
      if kind = JStr ''batch-swarm'' then runBatchNode C node attemptId refs authorization prepared prior else
      if kind = JStr ''gate'' then runGateNode C node attemptId refs else
      if kind = JStr ''checkpoint'' then
        (if \<not> sv_checkpoints S then unavailable C node attemptId
         else bindIO (ask (CreateCheckpoint (own ''checkpoint'' node))) (settledResult C node attemptId True)) else
      if kind = JStr ''approval'' then
        bindIO (verifyRun C (ni_receipt N) node ''approval-node'' True) (\<lambda>verdict. settledResult C node attemptId (truthy (own ''ok'' verdict)) verdict) else
      if kind = JStr ''loop-controller'' then
        (if \<not> sv_loops S then unavailable C node attemptId
         else bindIO (ask (EvaluateLoop (own ''loop'' node))) (\<lambda>result. settledResult C node attemptId (truthy (own ''settled'' result)) result))
      else unavailable C node attemptId)"

section \<open>The attempts of a node\<close>

record node_result =
  nr_outcome :: jsval
  nr_terminal :: "run_terminal option"
  nr_verdict :: jsval

definition ended :: "jsval \<Rightarrow> run_terminal option \<Rightarrow> node_result" where
  "ended outcome terminal = \<lparr> nr_outcome = outcome, nr_terminal = terminal, nr_verdict = JUndef \<rparr>"

text \<open>A reservation left by a batch that was interrupted: its id and worst case.\<close>

type_synonym reusable = "(jsval \<times> jsval) option"

definition settleUnavailable :: "run_ctx \<Rightarrow> jsval \<Rightarrow> (string \<times> jsval) list \<Rightarrow> jsval \<Rightarrow> unit io" where
  "settleUnavailable C node extra code = emitEvent C ''NodeSettled'' (ofNode C ''node-settled'' node
     ([(''outcome'', JStr ''unavailable'')] @ extra @ [(''resultDigest'', JNull), (''errorCode'', code)]))"

definition unavailableTerminal :: "run_ctx \<Rightarrow> jsval \<Rightarrow> jsval \<Rightarrow> jsval \<Rightarrow> run_terminal io" where
  "unavailableTerminal C node attemptId code = terminalOf C node attemptId ''failed''
     (JObj [(''outcome'', JStr ''unavailable''), (''authoritative'', JBool True), (''error'', JObj [(''code'', code)])])"

text \<open>The approval of a node that mutates, and what its writer is authorized to: \<open>Inl\<close> ends the node.\<close>

definition authorizeAttempt :: "run_ctx \<Rightarrow> jsval \<Rightarrow> jsval \<Rightarrow> (node_result + jsval) io" where
  "authorizeAttempt C node receipt =
     bindIO (liftIO (nodeMutates node)) (\<lambda>mutates. if \<not> mutates then Return (Inr JNull) else
     bindIO (verifyRun C receipt node ''mutating-node-admission'' False) (\<lambda>verdict.
     if \<not> truthy (own ''ok'' verdict) then Return (Inl \<lparr> nr_outcome = JStr ''awaiting-approval'', nr_terminal = None, nr_verdict = verdict \<rparr>) else
     if sv_pathEnforcement (cx_services C) \<noteq> JStr ''ENFORCED'' then
       bindIO (unavailableTerminal C node (idText C (js_string (cx_host C) (own ''id'' node)) [JStr ''path-enforcement-unavailable'']) (JStr ''WRITER_PATH_ENFORCEMENT_UNAVAILABLE'')) (\<lambda>terminal.
       bindIO (settleUnavailable C node [] (JStr ''WRITER_PATH_ENFORCEMENT_UNAVAILABLE'')) (\<lambda>_. Return (Inl (ended (JStr ''unavailable'') (Some terminal)))))
     else Return (Inr (own ''authorization'' verdict))))"

definition batchEventsOf :: "jsval \<Rightarrow> jsval list \<Rightarrow> jsval list" where
  "batchEventsOf nodeId events = filter (\<lambda>event. js_eq (own ''nodeId'' event) nodeId \<and> (case own ''type'' event of JStr t \<Rightarrow> prefix ''Batch'' t | _ \<Rightarrow> False)) events"

text \<open>The preparation of a batch and the events of the batch so far.\<close>

definition prepareAttempt :: "run_ctx \<Rightarrow> jsval \<Rightarrow> jsval \<Rightarrow> jsval \<Rightarrow> reusable \<Rightarrow> (node_result + jsval \<times> jsval list) io" where
  "prepareAttempt C node attemptId authorization reusable =
     (if own ''kind'' node \<noteq> JStr ''batch-swarm'' \<or> \<not> sv_prepareBatch (cx_services C) then Return (Inr (JNull, [])) else
      bindIO (attemptIO (bindIO readEvents (\<lambda>events.
        bindIO (ask (PrepareBatch node attemptId authorization (batchEventsOf (own ''id'' node) events))) (\<lambda>preparation.
        Return (preparation, batchEventsOf (own ''id'' node) events))))) (\<lambda>r. case r of
      Inr prepared \<Rightarrow> Return (Inr prepared)
    | Inl cause \<Rightarrow>
        bindIO (case reusable of None \<Rightarrow> Return JUndef | Some (reservationId, worstCase) \<Rightarrow>
          bindIO (ask EnsureLease) (\<lambda>_. bindIO (ask (SettleBudget reservationId worstCase (own ''id'' node) attemptId)) (\<lambda>_.
          ask (DropReservation (own ''id'' node))))) (\<lambda>_.
        let code = coalesce (errorCode cause) (JStr ''BATCH_PREPARATION_FAILED'') in
        bindIO (unavailableTerminal C node attemptId code) (\<lambda>terminal.
        bindIO (settleUnavailable C node [(''authoritative'', JBool True)] code) (\<lambda>_.
        Return (Inl (ended (JStr ''unavailable'') (Some terminal))))))))"

text \<open>The reservation of an attempt: \<open>Some\<close> ends the node.\<close>

definition reserveAttempt :: "run_ctx \<Rightarrow> jsval \<Rightarrow> jsval \<Rightarrow> jsval \<Rightarrow> jsval \<Rightarrow> reusable \<Rightarrow> node_result option io" where
  "reserveAttempt C node attemptId reservationId worstCase reusable =
     (if reusable \<noteq> None then Return None else
      bindIO (attemptIO (bindIO (ask EnsureLease) (\<lambda>_. ask (ReserveBudget reservationId (own ''id'' node) attemptId worstCase)))) (\<lambda>r. case r of
        Inr _ \<Rightarrow> Return None
      | Inl cause \<Rightarrow>
          if errorCode cause \<in> {JStr ''BUDGET_EXHAUSTED'', JStr ''METERING_UNAVAILABLE''} then
            let outcome = JStr (if errorCode cause = JStr ''BUDGET_EXHAUSTED'' then ''budget-exhausted'' else ''unavailable'') in
            bindIO (emitEvent C ''NodeSettled'' (ofNode C ''node-settled'' node
              [(''outcome'', outcome), (''resultDigest'', JNull), (''errorCode'', errorCode cause)])) (\<lambda>_. Return (Some (ended outcome None)))
          else Raise cause))"

text \<open>The error of an attempt that threw. Its \<open>reason\<close> is \<open>undefined\<close> unless the node timed out.\<close>

definition thrownError :: "run_ctx \<Rightarrow> js_error \<Rightarrow> jsval" where
  "thrownError C cause = (let timedOut = (errorCode cause = JStr ''NODE_TIMEOUT'') in
     JObj [(''code'', if timedOut then JStr ''BUDGET_OVERRUN'' else coalesce (errorCode cause) (JStr ''NODE_EXECUTION_ERROR'')),
       (''reason'', if timedOut then JStr ''NODE_TIMEOUT'' else JUndef), (''message'', JStr (cx_message C cause))])"

definition failedTerminal :: "run_ctx \<Rightarrow> jsval \<Rightarrow> jsval \<Rightarrow> bool \<Rightarrow> js_error \<Rightarrow> run_terminal res" where
  "failedTerminal C node attemptId cancelled cause = (let P = cx_host C; timedOut = (errorCode cause = JStr ''NODE_TIMEOUT'') in
     rbind (normalizeTerminal P (JObj [(''outcome'', JStr (if timedOut then ''timed-out'' else if cancelled then ''orphaned'' else ''failed'')),
       (''authoritative'', JBool False), (''error'', thrownError C cause)]) (terminalOptions C node attemptId ''failed'')) (\<lambda>terminal.
     if \<not> timedOut then Inr terminal else
     asBudgetOverrunTerminal P terminal ''timed-out''
       [JObj [(''resource'', JStr ''elapsedMs''), (''limit'', own ''timeoutMs'' (own ''budget'' node)), (''observed'', JNull)]]))"

definition executeAttempt :: "run_ctx \<Rightarrow> jsval \<Rightarrow> jsval \<Rightarrow> node_inputs \<Rightarrow> jsval \<Rightarrow> jsval \<Rightarrow> jsval list \<Rightarrow> run_terminal io" where
  "executeAttempt C node attemptId N authorization preparation prior =
     bindIO (bindIO (attemptIO (runPrimitive C node attemptId N authorization preparation prior)) (\<lambda>r. case r of
       Inr terminal \<Rightarrow> Return terminal
     | Inl cause \<Rightarrow> Flags (\<lambda>(cancelled, paused). liftIO (failedTerminal C node attemptId cancelled cause)))) (\<lambda>terminal.
     liftIO (asBudgetOverrunTerminal (cx_host C) terminal ''budget-exhausted'' (budgetOverruns (cx_host C) node terminal)))"

definition overrunsOf :: "run_terminal \<Rightarrow> jsval" where
  "overrunsOf terminal = coalesce (own ''overruns'' (tm_error terminal)) (JArr [])"

definition errorCodeOf :: "run_terminal \<Rightarrow> jsval" where
  "errorCodeOf terminal = coalesce (own ''code'' (tm_error terminal)) JNull"

definition childEnded :: "run_ctx \<Rightarrow> jsval \<Rightarrow> jsval \<Rightarrow> run_terminal \<Rightarrow> unit io" where
  "childEnded C node attemptId terminal =
     (if \<not> is_one_of [''agent'', ''batch-swarm''] (own ''kind'' node) then Return () else
      bindIO (liftIO (digestValue (cx_host C) (tm_result terminal))) (\<lambda>h.
      emitEvent C ''ChildTerminal'' (ofAttempt C ''child-terminal'' node attemptId (coalesce (own ''handleId'' (tm_handle terminal)) (childIdOf C node attemptId))
        [(''outcome'', tm_outcome terminal), (''authoritative'', JBool (tm_authoritative terminal)), (''receiptId'', JStr (tm_receiptId terminal)),
         (''resultDigest'', JStr h), (''errorCode'', errorCodeOf terminal), (''budgetOverruns'', overrunsOf terminal)])))"

text \<open>The artifact of a node that has succeeded with proof.\<close>

definition publishResult :: "run_ctx \<Rightarrow> jsval \<Rightarrow> jsval \<Rightarrow> run_terminal \<Rightarrow> jsval io" where
  "publishResult C node attemptId terminal =
     (if \<not> sv_artifacts (cx_services C) \<or> \<not> tm_authoritative terminal \<or> \<not> is_one_of SUCCESS_NODE_OUTCOMES (settledOutcome terminal) then Return JNull else
      bindIO (liftIO (digestValue (cx_host C) (JObj [(''runId'', cx_runId C), (''nodeId'', own ''id'' node), (''attemptId'', attemptId), (''resultDigest'', JStr (tm_outputDigest terminal))]))) (\<lambda>h.
      bindIO (ask (PublishArtifact (JObj [(''id'', JStr (''art-'' @ take 32 (drop 7 h))),
        (''contents'', JObj [(''formatVersion'', jint 1), (''kind'', JStr ''agent-result''), (''result'', tm_result terminal), (''usage'', tm_usage terminal),
           (''receiptId'', JStr (tm_receiptId terminal)), (''outputDigest'', JStr (tm_outputDigest terminal))]),
        (''mediaType'', JStr ''application/json''),
        (''producer'', JObj [(''runId'', cx_runId C), (''revision'', revisionOf C), (''nodeId'', own ''id'' node), (''attemptId'', attemptId)]),
        (''provenance'', JObj [(''sourceDigest'', own ''definitionDigest'' (cx_plan C)), (''policyDigest'', own ''policyDigest'' (cx_plan C)), (''redaction'', JStr ''bounded'')])]))) (\<lambda>ref.
      bindIO (emitEvent C ''NodeArtifactPublished'' ((ofNode C ''node-artifact'' node [(''artifactRef'', ref)])\<lparr> vl_attemptId := attemptId \<rparr>)) (\<lambda>_. Return ref))))"

definition nodeEnded :: "run_ctx \<Rightarrow> jsval \<Rightarrow> int \<Rightarrow> jsval \<Rightarrow> run_terminal \<Rightarrow> unit io" where
  "nodeEnded C node attemptNumber artifactRef terminal =
     bindIO (liftIO (digestValue (cx_host C) (tm_result terminal))) (\<lambda>h.
     emitEvent C ''NodeSettled'' (ofNode C ''node-settled'' node
       [(''outcome'', settledOutcome terminal), (''authoritative'', JBool (tm_authoritative terminal)), (''receiptId'', JStr (tm_receiptId terminal)),
        (''resultDigest'', JStr h), (''artifactIds'', JArr (if truthy artifactRef then [own ''id'' artifactRef] else [])), (''attempts'', jint attemptNumber),
        (''errorCode'', errorCodeOf terminal), (''budgetOverruns'', overrunsOf terminal)]))"

text \<open>Everything after the execution: \<open>Inr\<close> is the terminal of an attempt that is tried again.\<close>

definition settleAttempt :: "run_ctx \<Rightarrow> jsval \<Rightarrow> jsval \<Rightarrow> int \<Rightarrow> jsval \<Rightarrow> jsval \<Rightarrow> run_terminal \<Rightarrow> (node_result + run_terminal) io" where
  "settleAttempt C node attemptId attemptNumber reservationId worstCase terminal =
     bindIO (childEnded C node attemptId terminal) (\<lambda>_.
     bindIO (publishResult C node attemptId terminal) (\<lambda>artifactRef.
     bindIO (ask EnsureLease) (\<lambda>_.
     bindIO (ask (SettleBudget reservationId (attemptCharge node worstCase terminal) (own ''id'' node) attemptId)) (\<lambda>_.
     bindIO (ask (DropReservation (own ''id'' node))) (\<lambda>_.
     if retryable (cx_host C) node terminal attemptNumber then Return (Inr terminal) else
     bindIO (nodeEnded C node attemptNumber artifactRef terminal) (\<lambda>_.
     bindIO (ask (DropHandle (own ''id'' node))) (\<lambda>_. Return (Inl (ended (settledOutcome terminal) (Some terminal))))))))))"

text \<open>\<open>idFactory("attempt").slice(-12)\<close> and the ids built from it.\<close>

definition lastPart :: "string \<Rightarrow> string" where
  "lastPart s = rev (take 12 (rev s))"

definition attemptIdOf :: "run_ctx \<Rightarrow> jsval \<Rightarrow> int \<Rightarrow> jsval \<Rightarrow> jsval" where
  "attemptIdOf C node number fresh = JStr (js_string (cx_host C) (own ''id'' node) @ '':attempt-'' @ num_text (cx_host C) (num_of_int number) @ '':''
     @ lastPart (js_string (cx_host C) fresh))"

definition reservationIdOf :: "run_ctx \<Rightarrow> jsval \<Rightarrow> int \<Rightarrow> jsval \<Rightarrow> jsval" where
  "reservationIdOf C node number attemptId = JStr (js_string (cx_host C) (own ''id'' node) @ '':reservation-'' @ num_text (cx_host C) (num_of_int number) @ '':''
     @ lastPart (js_string (cx_host C) attemptId))"

definition admitted :: "run_ctx \<Rightarrow> jsval \<Rightarrow> jsval \<Rightarrow> int \<Rightarrow> jsval \<Rightarrow> unit io" where
  "admitted C node attemptId number reservationId =
     emitEvent C ''NodeAdmitted'' (ofAttempt C ''node-admitted'' node attemptId JNull [(''reservationId'', reservationId), (''attemptNumber'', jint number)])"

definition oneAttempt :: "run_ctx \<Rightarrow> jsval \<Rightarrow> node_inputs \<Rightarrow> int \<Rightarrow> reusable \<Rightarrow> (node_result + run_terminal) io" where
  "oneAttempt C node N number reusable = Flags (\<lambda>(cancelled, paused).
     if cancelled \<or> paused then Return (Inl (ended (JStr (if cancelled then ''cancelled'' else ''interrupted'')) None)) else
     bindIO (authorizeAttempt C node (ni_receipt N)) (\<lambda>a. case a of Inl result \<Rightarrow> Return (Inl result) | Inr authorization \<Rightarrow>
     bindIO (ask (NewId ''attempt'')) (\<lambda>fresh.
     let attemptId = attemptIdOf C node number fresh;
         reservationId = (case reusable of Some (i, _) \<Rightarrow> i | None \<Rightarrow> reservationIdOf C node number attemptId) in
     bindIO (prepareAttempt C node attemptId authorization reusable) (\<lambda>p. case p of Inl result \<Rightarrow> Return (Inl result) | Inr (preparation, prior) \<Rightarrow>
     let worstCase = (case reusable of Some (_, w) \<Rightarrow> w | None \<Rightarrow> reservationVector (cx_host C) node preparation) in
     bindIO (reserveAttempt C node attemptId reservationId worstCase reusable) (\<lambda>refused. case refused of Some result \<Rightarrow> Return (Inl result) | None \<Rightarrow>
     bindIO (admitted C node attemptId number reservationId) (\<lambda>_.
     bindIO (executeAttempt C node attemptId N authorization preparation prior) (\<lambda>terminal.
     settleAttempt C node attemptId number reservationId worstCase terminal)))))))"

text \<open>The loop over the attempts that are left.\<close>

primrec attemptLoop :: "run_ctx \<Rightarrow> jsval \<Rightarrow> node_inputs \<Rightarrow> nat \<Rightarrow> int \<Rightarrow> reusable \<Rightarrow> run_terminal option \<Rightarrow> node_result io" where
  "attemptLoop C node N 0 number reusable last' = Return (ended (case last' of Some terminal \<Rightarrow> coalesce (tm_outcome terminal) (JStr ''failed'') | None \<Rightarrow> JStr ''failed'') last')"
| "attemptLoop C node N (Suc left) number reusable last' =
     bindIO (oneAttempt C node N number reusable) (\<lambda>r. case r of
       Inl result \<Rightarrow> Return result
     | Inr terminal \<Rightarrow> attemptLoop C node N left (number + 1) None (Some terminal))"

definition maxAttemptsOf :: "jsval \<Rightarrow> int" where
  "maxAttemptsOf node = (case own ''maxAttempts'' (own ''budget'' node) of JNum (Fin a) \<Rightarrow> \<lfloor>a\<rfloor> | _ \<Rightarrow> 0)"

definition artifactsOf :: "run_ctx \<Rightarrow> run_projection \<Rightarrow> jsval \<Rightarrow> jsval list" where
  "artifactsOf C projection node = concat (map (\<lambda>d. case map_of (rp_nodes projection) (js_string (cx_host C) d) of
     Some n \<Rightarrow> ns_artifacts n | None \<Rightarrow> []) (items (own ''needs'' node)))"

definition queuedPayload :: "run_ctx \<Rightarrow> jsval \<Rightarrow> (string \<times> jsval) list \<Rightarrow> (string \<times> jsval) list res" where
  "queuedPayload C node extra = rbind (digestValue (cx_host C) node) (\<lambda>h. Inr ([(''nodeDigest'', JStr h), (''needs'', own ''needs'' node)] @ extra))"

definition runNode :: "run_ctx \<Rightarrow> jsval \<Rightarrow> jsval \<Rightarrow> int \<Rightarrow> reusable \<Rightarrow> node_result io" where
  "runNode C node receipt historical reusable =
     bindIO (liftIO (queuedPayload C node [])) (\<lambda>payload.
     bindIO (emitEvent C ''NodeQueued'' (ofNode C ''node-queued'' node payload)) (\<lambda>_.
     bindIO (projectRun C) (\<lambda>(events, projection).
     attemptLoop C node \<lparr> ni_receipt = receipt, ni_artifactRefs = artifactsOf C projection node \<rparr> (nat (maxAttemptsOf node - historical)) (historical + 1) reusable None)))"

end
