(* ===== verification/Run_Protocol.thy ===== *)
theory Run_Protocol
  imports Run_Node
begin

text \<open>
  The protocol a node owes the ledger, the journal and the executors, as an automaton over its calls: an
  attempt holds a reservation before it is admitted, is admitted in the journal before its executor is
  called, is called once, and gives its reservation back before the node is settled or tried again. The proofs
  that \<open>runNode\<close> keeps it, whatever its calls answer, are in \<open>Run_Node_Proofs\<close>.
\<close>

section \<open>The automaton\<close>

text \<open>\<open>Holding r a\<close> holds reservation \<open>r\<close> for attempt \<open>a\<close>; a reservation taken over has no attempt yet.\<close>

datatype node_phase = Waiting | Holding jsval "jsval option" | Admitted jsval jsval | Working jsval jsval | Closed

fun reservationIn :: "node_phase \<Rightarrow> jsval option" where
  "reservationIn (Holding r a) = Some r"
| "reservationIn (Admitted r a) = Some r"
| "reservationIn (Working r a) = Some r"
| "reservationIn ph = None"

fun attemptIn :: "node_phase \<Rightarrow> jsval option" where
  "attemptIn (Admitted r a) = Some a"
| "attemptIn (Working r a) = Some a"
| "attemptIn ph = None"

fun isStart :: "request \<Rightarrow> bool" where
  "isStart (StartAgent n a u rs) = True"
| "isStart (RunAgent n a u rs) = True"
| "isStart (RunBatch n a u rs p es) = True"
| "isStart (RunGate g rs) = True"
| "isStart (CreateCheckpoint c) = True"
| "isStart (EvaluateLoop l) = True"
| "isStart q = False"

text \<open>The attempt a start names; gates, checkpoints and loops name none.\<close>

fun startNames :: "request \<Rightarrow> jsval option" where
  "startNames (StartAgent n a u rs) = Some a"
| "startNames (RunAgent n a u rs) = Some a"
| "startNames (RunBatch n a u rs p es) = Some a"
| "startNames q = None"

fun onAppend :: "node_phase \<Rightarrow> string \<Rightarrow> jsval \<Rightarrow> node_phase option" where
  "onAppend ph type' attempt =
     (if type' = ''NodeAdmitted'' then
        (case ph of Holding r a \<Rightarrow> (if a = None \<or> a = Some attempt then Some (Admitted r attempt) else None) | _ \<Rightarrow> None)
      else if type' = ''ChildStarted'' then (case ph of Admitted r a \<Rightarrow> (if a = attempt then Some ph else None) | _ \<Rightarrow> None)
      else if type' = ''ChildTerminal'' then (if attemptIn ph = Some attempt then Some ph else None)
      else if type' = ''NodeSettled'' then (if ph = Waiting then Some Closed else None)
      else Some ph)"

fun onCall :: "node_phase \<Rightarrow> request \<Rightarrow> node_phase option" where
  "onCall ph (ReserveBudget r n a w) = (if ph = Waiting then Some (Holding r (Some a)) else None)"
| "onCall ph (SettleBudget r c n a) = (if reservationIn ph = Some r then Some Waiting else None)"
| "onCall ph (RefundBudget r n a) = None"
| "onCall ph (JournalAppend e s d) = (case own ''type'' e of JStr t \<Rightarrow> onAppend ph t (own ''attemptId'' e) | _ \<Rightarrow> Some ph)"
| "onCall ph q = (if \<not> isStart q then Some ph else
     case ph of Admitted r a \<Rightarrow> (if startNames q \<in> {None, Some a} then Some (Working r a) else None) | _ \<Rightarrow> None)"

text \<open>A call that fails changes nothing, but a start that fails may have started.\<close>

fun node_protocol :: "nat \<times> node_phase \<Rightarrow> called \<Rightarrow> (nat \<times> node_phase) option" where
  "node_protocol (n, ph) (Asked q a) = (case onCall ph q of None \<Rightarrow> None
     | Some ph' \<Rightarrow> Some (if isStart q then (Suc n, ph') else (n, case a of Inl e \<Rightarrow> ph | Inr v \<Rightarrow> ph')))"
| "node_protocol s (DidRead a') = Some s"
| "node_protocol s (SawFlags f) = Some s"

fun off_protocol :: "request \<Rightarrow> bool" where
  "off_protocol (ReserveBudget r n a w) = False"
| "off_protocol (SettleBudget r c n a) = False"
| "off_protocol (RefundBudget r n a) = False"
| "off_protocol (JournalAppend e s d) = (case own ''type'' e of
     JStr t \<Rightarrow> t \<notin> {''NodeAdmitted'', ''ChildStarted'', ''ChildTerminal'', ''NodeSettled''} | _ \<Rightarrow> True)"
| "off_protocol q = (\<not> isStart q)"

lemma off_protocol_quiet: "off_protocol q \<Longrightarrow> onCall ph q = Some ph \<and> \<not> isStart q"
  by (cases q) (auto split: jsval.splits)

interpretation node_monitor: call_monitor node_protocol off_protocol
proof
  show "off_protocol q \<Longrightarrow> node_protocol s (Asked q a) = Some s" for q s a
    using off_protocol_quiet [of q "snd s"] by (cases s) (auto split: sum.split)
qed simp_all

end
