(* ===== verification/Run_Node_Proofs.thy ===== *)
theory Run_Node_Proofs
  imports Run_Protocol
begin

text \<open>
  \<open>runNode\<close> keeps the protocol of \<open>Run_Protocol\<close>: one lemma for each of its parts says in which phases the part may
  leave the node. A lemma of the form \<open>Q at every such phase \<Longrightarrow> safe node_protocol part Q s\<close> is a step of the next part's proof.
\<close>

section \<open>Appending\<close>

context call_monitor
begin

lemma safe_append:
  assumes "quiet AssertLease" "quiet EnsureLease"
    and acked: "\<And>x y v. step s (Asked (JournalAppend event x y) (Inr v)) = Some after"
    and refused: "\<And>x y e. step s (Asked (JournalAppend event x y) (Inl e)) = Some s"
    and post: "\<And>v. Q (Inr v) after" "\<And>e. Q (Inl e) s"
  shows "safe step (appendRunEvent C event) Q s"
proof -
  have tries: "safe step (appendTries P n event) Q s" for P n
  proof (induction n)
    case 0
    show ?case using post by (simp add: failCoord_def)
  next
    case (Suc n)
    show ?case using Suc.IH post assms(2)
      by (auto simp: Let_def quiet_call quiet_read acked refused split: sum.split)
  qed
  show ?thesis unfolding appendRunEvent_def using assms(1,2) post tries by (auto simp: quiet_call split: sum.split)
qed

end

lemma runEvent_fields:
  assumes "runEvent C t V = Inr e"
  shows "own ''type'' e = JStr t" "own ''attemptId'' e = vl_attemptId V" "own ''nodeId'' e = vl_nodeId V"
  using assms by (auto simp: runEvent_def rbind_eq_Inr)

lemma emit_phase:
  assumes "onAppend ph t (vl_attemptId V) = Some ph'" "Q (Inr ()) (n, ph')" "\<And>e. Q (Inl e) (n, ph)"
  shows "safe node_protocol (emitEvent C t V) Q (n, ph)"
proof (cases "runEvent C t V")
  case (Inl e)
  then show ?thesis using assms by (simp add: emitEvent_def)
next
  case (Inr e)
  note fields = runEvent_fields [OF Inr]
  have "safe node_protocol (appendRunEvent C e) (\<lambda>r s. case r of Inl e \<Rightarrow> Q (Inl e) s | Inr v \<Rightarrow> Q (Inr ()) s) (n, ph)"
    by (rule node_monitor.safe_append [where after = "(n, ph')"]) (use assms fields in \<open>auto simp del: onAppend.simps\<close>)
  then show ?thesis using Inr by (simp add: emitEvent_def cong: sum.case_cong)
qed

text \<open>All an append calls.\<close>

lemma only_emit:
  assumes "ok AssertLease" "ok EnsureLease" "\<And>e x y. ok (JournalAppend e x y)"
  shows "only ok (emitEvent C t V)"
proof -
  have "only ok (appendTries P n e)" for P n e
    by (induction n) (use assms in \<open>auto simp: failCoord_def Let_def intro!: only_bind split: sum.split\<close>)
  then show ?thesis using assms by (auto simp: emitEvent_def appendRunEvent_def intro!: only_bind)
qed

section \<open>One attempt\<close>

lemma verifyRun_quiet: "only off_protocol (verifyRun C receipt node stage nodeApproval)"
  by (auto simp: verifyRun_def intro!: only_bind split: sum.split)

text \<open>While an attempt runs: its executor has not been called, or has been called once.\<close>

abbreviation ran :: "nat \<Rightarrow> jsval \<Rightarrow> jsval \<Rightarrow> (nat \<times> node_phase) set" where
  "ran n r a \<equiv> {(n, Admitted r a), (Suc n, Working r a)}"

lemma terminalOf_safe: "(\<And>r. Q r s) \<Longrightarrow> safe node_protocol (terminalOf C node a f v) Q s"
  by (simp add: terminalOf_def)

lemma unavailable_safe: "(\<And>r. Q r s) \<Longrightarrow> safe node_protocol (unavailable C node a) Q s"
  by (simp add: unavailable_def terminalOf_safe)

lemma runAgentNode_safe:
  assumes "\<And>x s. s \<in> ran n r a \<Longrightarrow> Q x s"
  shows "safe node_protocol (runAgentNode C node a refs u) Q (n, Admitted r a)"
proof -
  have started: "safe node_protocol (emitEvent C ''ChildStarted'' (ofAttempt C ''child-started'' node a c p)) Q' (n, Admitted r a)"
    if "\<And>x. Q' x (n, Admitted r a)" for c p Q' using that by (intro emit_phase [where ph' = "Admitted r a"]) (simp_all add: ofAttempt_def)
  show ?thesis unfolding runAgentNode_def Let_def
    using assms by (auto intro!: started unavailable_safe terminalOf_safe split: sum.split)
qed

lemma runBatchNode_safe:
  assumes "\<And>x s. s \<in> ran n r a \<Longrightarrow> Q x s"
  shows "safe node_protocol (runBatchNode C node a refs u p es) Q (n, Admitted r a)"
proof -
  have started: "safe node_protocol (emitEvent C ''ChildStarted'' (ofAttempt C ''child-started'' node a c p)) Q' (n, Admitted r a)"
    if "\<And>x. Q' x (n, Admitted r a)" for c p Q' using that by (intro emit_phase [where ph' = "Admitted r a"]) (simp_all add: ofAttempt_def)
  show ?thesis unfolding runBatchNode_def
    using assms by (auto intro!: started unavailable_safe terminalOf_safe split: sum.split)
qed

lemma runGateNode_safe:
  assumes "\<And>x s. s \<in> ran n r a \<Longrightarrow> Q x s"
  shows "safe node_protocol (runGateNode C node a refs) Q (n, Admitted r a)"
proof -
  have evaluated: "safe node_protocol (emitEvent C ''GateEvaluated'' V) Q' (n, Working r a)"
    if "\<And>x. Q' x (n, Working r a)" for n V Q' using that by (intro emit_phase [where ph' = "Working r a"]) simp_all
  show ?thesis unfolding runGateNode_def Let_def
    using assms by (auto intro!: evaluated terminalOf_safe split: sum.split)
qed

lemma runPrimitive_safe:
  assumes "\<And>x s. s \<in> ran n r a \<Longrightarrow> Q x s"
  shows "safe node_protocol (runPrimitive C node a N u p es) Q (n, Admitted r a)"
  unfolding runPrimitive_def Let_def settledResult_def
  using assms by (auto intro!: runAgentNode_safe runBatchNode_safe runGateNode_safe unavailable_safe terminalOf_safe
      node_monitor.safe_quiet [OF verifyRun_quiet] split: sum.split)

lemma executeAttempt_safe:
  assumes "\<And>x s. s \<in> ran n r a \<Longrightarrow> Q x s"
  shows "safe node_protocol (executeAttempt C node a N u p es) Q (n, Admitted r a)"
  unfolding executeAttempt_def using assms by (auto intro!: runPrimitive_safe split: sum.split)

lemma childEnded_safe:
  assumes "s \<in> ran n r a" "\<And>x. Q x s"
  shows "safe node_protocol (childEnded C node a terminal) Q s"
proof -
  have "safe node_protocol (emitEvent C ''ChildTerminal'' (ofAttempt C ''child-terminal'' node a c p)) Q s" for c p
    using assms by (auto intro!: emit_phase simp: ofAttempt_def)
  then show ?thesis using assms(2) by (auto simp: childEnded_def split: sum.split)
qed

lemma publishResult_safe: "(\<And>x. Q x s) \<Longrightarrow> safe node_protocol (publishResult C node a terminal) Q s"
  by (cases s) (auto simp: publishResult_def intro!: emit_phase split: sum.split)

lemma nodeEnded_safe: "Q (Inr ()) (n, Closed) \<Longrightarrow> (\<And>e. Q (Inl e) (n, Waiting)) \<Longrightarrow> safe node_protocol (nodeEnded C node k ref terminal) Q (n, Waiting)"
  by (auto simp: nodeEnded_def ofNode_def intro!: emit_phase split: sum.split)

lemma settleAttempt_safe:
  assumes s: "s \<in> ran n r a"
    and raised: "\<And>e ph. Q (Inl e) (fst s, ph)"
    and settled: "Q (Inr (Inl (ended (settledOutcome terminal) (Some terminal)))) (fst s, Closed)"
    and again: "retryable (cx_host C) node terminal k \<Longrightarrow> Q (Inr (Inr terminal)) (fst s, Waiting)"
  shows "safe node_protocol (settleAttempt C node a k r w terminal) Q s"
proof -
  obtain m ph where m: "s = (m, ph)" "reservationIn ph = Some r" using s by auto
  have Q_eqs: "Q (Inl e) s" for e using raised m by simp
  show ?thesis unfolding settleAttempt_def safe_bind
    by (rule childEnded_safe [OF s], use m Q_eqs raised settled again in
      \<open>auto simp: nodeEnded_safe intro!: publishResult_safe nodeEnded_safe split: sum.split\<close>)
qed

section \<open>Before the executor\<close>

text \<open>The phase an attempt starts in: a reservation taken over from an interrupted batch is held already.\<close>

fun entry_phase :: "reusable \<Rightarrow> node_phase" where
  "entry_phase None = Waiting"
| "entry_phase (Some (r, w)) = Holding r None"

lemma emit_settled:
  "Q (Inr ()) (n, Closed) \<Longrightarrow> (\<And>e. Q (Inl e) (n, Waiting)) \<Longrightarrow> safe node_protocol (emitEvent C ''NodeSettled'' V) Q (n, Waiting)"
  by (rule emit_phase [where ph' = Closed]) simp_all

lemma settleUnavailable_safe:
  "Q (Inr ()) (n, Closed) \<Longrightarrow> (\<And>e. Q (Inl e) (n, Waiting)) \<Longrightarrow> safe node_protocol (settleUnavailable C node ps code) Q (n, Waiting)"
  by (auto simp: settleUnavailable_def intro!: emit_settled)

lemma authorizeAttempt_safe:
  assumes mutation: "nodeMutates node = Inr False \<or> ph = Waiting"
    and raised: "\<And>e. Q (Inl e) (n, ph)" and granted: "\<And>u. Q (Inr (Inr u)) (n, ph)"
    and refused: "\<And>v. ph = Waiting \<Longrightarrow> Q (Inr (Inl \<lparr> nr_outcome = JStr ''awaiting-approval'', nr_terminal = None, nr_verdict = v \<rparr>)) (n, ph)"
    and closed: "\<And>t. Q (Inr (Inl (ended (JStr ''unavailable'') (Some t)))) (n, Closed)"
  shows "safe node_protocol (authorizeAttempt C node receipt) Q (n, ph)"
proof (cases "nodeMutates node = Inr False")
  case True
  then show ?thesis using granted by (simp add: authorizeAttempt_def)
next
  case False
  then have "ph = Waiting" using mutation by simp
  then show ?thesis using raised granted refused closed
    by (auto simp: authorizeAttempt_def unavailableTerminal_def intro!: node_monitor.safe_quiet [OF verifyRun_quiet] terminalOf_safe settleUnavailable_safe
        split: sum.split)
qed

lemma prepareAttempt_safe:
  assumes raised: "\<And>e ph. Q (Inl e) (n, ph)" and prepared: "\<And>p. Q (Inr (Inr p)) (n, entry_phase reusable)"
    and closed: "\<And>t. Q (Inr (Inl (ended (JStr ''unavailable'') (Some t)))) (n, Closed)"
  shows "safe node_protocol (prepareAttempt C node a u reusable) Q (n, entry_phase reusable)"
  using assms
  by (cases reusable) (auto simp: prepareAttempt_def unavailableTerminal_def Let_def intro!: terminalOf_safe settleUnavailable_safe split: sum.split)

lemma reserveAttempt_safe:
  assumes raised: "\<And>e ph. Q (Inl e) (n, ph)"
    and reserved: "Q (Inr None) (n, Holding r (if reusable = None then Some a else None))"
    and closed: "\<And>outcome. \<not> is_one_of SUCCESS_NODE_OUTCOMES outcome \<Longrightarrow> Q (Inr (Some (ended outcome None))) (n, Closed)"
    and r: "\<And>i w. reusable = Some (i, w) \<Longrightarrow> r = i"
  shows "safe node_protocol (reserveAttempt C node a r w reusable) Q (n, entry_phase reusable)"
proof (cases reusable)
  case None
  then show ?thesis using assms
    by (auto simp: reserveAttempt_def SUCCESS_NODE_OUTCOMES_def is_one_of_def Let_def intro!: emit_settled split: sum.split)
next
  case (Some x)
  then show ?thesis using assms by (cases x) (auto simp: reserveAttempt_def)
qed

lemma admitted_safe:
  assumes "h \<in> {None, Some a}" "\<And>e. Q (Inl e) (n, Holding r h)" "Q (Inr ()) (n, Admitted r a)"
  shows "safe node_protocol (admitted C node a k r') Q (n, Holding r h)"
  using assms by (auto simp: admitted_def ofAttempt_def intro!: emit_phase)

section \<open>The attempts\<close>

text \<open>A success is a terminal with proof.\<close>

definition proven_result :: "node_result \<Rightarrow> bool" where
  "proven_result res \<longleftrightarrow> (is_one_of SUCCESS_NODE_OUTCOMES (nr_outcome res) \<longrightarrow> (\<exists>t. nr_terminal res = Some t \<and> tm_authoritative t \<and> tm_outcome t = nr_outcome res))"

definition attempt_post :: "run_ctx \<Rightarrow> jsval \<Rightarrow> nat \<Rightarrow> int \<Rightarrow> reusable \<Rightarrow> (node_result + run_terminal) res \<Rightarrow> nat \<times> node_phase \<Rightarrow> bool" where
  "attempt_post C node n k reusable r s \<longleftrightarrow> fst s \<in> {n, Suc n} \<and> (case r of
       Inl e \<Rightarrow> True
     | Inr (Inr t) \<Rightarrow> snd s = Waiting \<and> retryable (cx_host C) node t k
     | Inr (Inl res) \<Rightarrow> snd s = Closed \<and> proven_result res
         \<or> s = (n, entry_phase reusable) \<and> (nr_outcome res \<in> {JStr ''cancelled'', JStr ''interrupted''} \<or> reusable = None \<and> nr_outcome res = JStr ''awaiting-approval''))"

lemma proven_ended [simp]: "proven_result (ended (settledOutcome t) (Some t))"
  by (auto simp: proven_result_def ended_def settledOutcome_def SUCCESS_NODE_OUTCOMES_def is_one_of_def split: if_splits)

lemma proven_unavailable [simp]: "proven_result (ended (JStr ''unavailable'') t)"
  by (simp add: proven_result_def ended_def SUCCESS_NODE_OUTCOMES_def is_one_of_def)

lemma proven_failure [simp]: "\<not> is_one_of SUCCESS_NODE_OUTCOMES outcome \<Longrightarrow> proven_result (ended outcome t)"
  by (simp add: proven_result_def ended_def)

lemma oneAttempt_safe:
  assumes "reusable = None \<or> nodeMutates node = Inr False"
  shows "safe node_protocol (oneAttempt C node N k reusable) (attempt_post C node n k reusable) (n, entry_phase reusable)"
proof -
  have raised: "attempt_post C node n k R (Inl e) (m, ph)" if "m \<in> {n, Suc n}" for e m ph R using that by (auto simp: attempt_post_def)
  have closed: "proven_result res \<Longrightarrow> attempt_post C node n k R (Inr (Inl res)) (n, Closed)" for res R by (simp add: attempt_post_def)
  have stopped: "attempt_post C node n k R (Inr (Inl (ended (JStr ''cancelled'') t))) (n, entry_phase R)"
    "attempt_post C node n k R (Inr (Inl (ended (JStr ''interrupted'') t))) (n, entry_phase R)" for t R
    by (simp_all add: attempt_post_def ended_def)
  have waits: "entry_phase R = Waiting \<Longrightarrow> attempt_post C node n k R (Inr (Inl \<lparr> nr_outcome = JStr ''awaiting-approval'', nr_terminal = None, nr_verdict = v \<rparr>)) (n, Waiting)" for v R
    by (cases R) (auto simp: attempt_post_def)
  have settles: "safe node_protocol (settleAttempt C node a k r w t) (attempt_post C node n k R) s" if "s \<in> ran n r a" for a r w t s R
    using that by (intro settleAttempt_safe) (auto simp: attempt_post_def)
  have mutation: "nodeMutates node = Inr False \<or> entry_phase reusable = Waiting" using assms by auto
  show ?thesis unfolding oneAttempt_def Let_def
    by (auto simp: raised closed stopped waits assms settles simp del: entry_phase.simps
        intro!: authorizeAttempt_safe [OF mutation] prepareAttempt_safe reserveAttempt_safe admitted_safe executeAttempt_safe split: sum.split option.split prod.split)
qed

text \<open>
  What a node owes when it returns after at most \<open>left\<close> attempts: its journal entry is closed and a success has
  a terminal with proof, or it stopped between two attempts and holds no reservation of its own.
\<close>

definition node_post :: "jsval \<Rightarrow> nat \<Rightarrow> nat \<Rightarrow> reusable \<Rightarrow> node_result res \<Rightarrow> nat \<times> node_phase \<Rightarrow> bool" where
  "node_post node n left reusable r s \<longleftrightarrow> fst s \<le> n + (if own ''idempotency'' node = JStr ''none'' then min 1 left else left) \<and> (case r of
       Inl e \<Rightarrow> True
     | Inr res \<Rightarrow> snd s = Closed \<and> proven_result res
         \<or> snd s = Waiting \<and> nr_outcome res \<in> {JStr ''cancelled'', JStr ''interrupted'', JStr ''awaiting-approval''}
         \<or> s = (n, entry_phase reusable) \<and> nr_outcome res \<in> {JStr ''cancelled'', JStr ''interrupted''}
         \<or> s = (n, entry_phase reusable) \<and> left = 0 \<and> nr_outcome res = JStr ''failed'')"

lemma retryable_failed: "retryable P node t k \<Longrightarrow> own ''idempotency'' node \<noteq> JStr ''none''"
  by (simp add: retryable_def)

lemma retryable_left: "retryable P node t k \<Longrightarrow> own ''maxAttempts'' (own ''budget'' node) = jint m \<Longrightarrow> k < m"
  by (simp add: retryable_def)

lemma attemptLoop_safe:
  assumes "reusable = None \<or> nodeMutates node = Inr False" "own ''maxAttempts'' (own ''budget'' node) = jint m"
    and "left = nat (m + 1 - k)" "left = 0 \<Longrightarrow> last' = None"
  shows "safe node_protocol (attemptLoop C node N left k reusable last') (node_post node n left reusable) (n, entry_phase reusable)"
  using assms(1,3,4)
proof (induction left arbitrary: n k reusable last')
  case 0
  then show ?case by (simp add: node_post_def ended_def)
next
  case (Suc left)
  have "safe node_protocol (case r of Inl res \<Rightarrow> Return res | Inr t \<Rightarrow> attemptLoop C node N left (k + 1) None (Some t)) (node_post node n (Suc left) reusable) s"
    if post: "attempt_post C node n k reusable (Inr r) s" for r s
  proof (cases r)
    case (Inl res)
    then show ?thesis using post by (cases s) (auto simp: attempt_post_def node_post_def)
  next
    case (Inr t)
    then have t: "retryable (cx_host C) node t k" "s = (fst s, Waiting)" "fst s \<le> Suc n" using post by (cases s; auto simp: attempt_post_def)+
    have more: "left \<noteq> 0" using retryable_left [OF t(1) assms(2)] Suc.prems(2) by auto
    have "safe node_protocol (attemptLoop C node N left (k + 1) None (Some t)) (node_post node (fst s) left None) (fst s, entry_phase None)"
      by (rule Suc.IH) (use Suc.prems(2) more in auto)
    then have "safe node_protocol (attemptLoop C node N left (k + 1) None (Some t)) (node_post node n (Suc left) reusable) (fst s, entry_phase None)"
      by (rule safe_mono) (use t(3) more retryable_failed [OF t(1)] in \<open>auto simp: node_post_def split: sum.splits\<close>)
    then show ?thesis using Inr t(2) by simp
  qed
  moreover have "node_post node n (Suc left) reusable (Inl e) s" if "attempt_post C node n k reusable (Inl e) s" for e s
    using that by (auto simp: attempt_post_def node_post_def)
  ultimately have "case r of Inl e \<Rightarrow> node_post node n (Suc left) reusable (Inl e) s
      | Inr x \<Rightarrow> safe node_protocol (case x of Inl res \<Rightarrow> Return res | Inr t \<Rightarrow> attemptLoop C node N left (k + 1) None (Some t)) (node_post node n (Suc left) reusable) s"
    if "attempt_post C node n k reusable r s" for r s using that by (cases r) (simp_all only: sum.case)
  then show ?case unfolding attemptLoop.simps safe_bind by (rule safe_mono [OF oneAttempt_safe [OF Suc.prems(1)]])
qed

lemma projectRun_quiet: "only off_protocol (projectRun C)"
  by (auto simp: projectRun_def intro!: only_bind)

lemma runNode_safe:
  assumes "own ''maxAttempts'' (own ''budget'' node) = jint m" "reusable = None \<or> nodeMutates node = Inr False"
  shows "safe node_protocol (runNode C node receipt historical reusable) (node_post node 0 (nat (m - historical)) reusable) (0, entry_phase reusable)"
proof -
  have raised: "node_post node 0 (nat (m - historical)) reusable (Inl e) (0, ph)" for e ph by (simp add: node_post_def)
  have "maxAttemptsOf node = m" using assms(1) by (simp add: maxAttemptsOf_def)
  then have attempts: "safe node_protocol (attemptLoop C node N (nat (maxAttemptsOf node - historical)) (historical + 1) reusable None)
      (node_post node 0 (nat (m - historical)) reusable) (0, entry_phase reusable)" for N
    by (intro attemptLoop_safe [OF assms(2,1), THEN safe_mono]) auto
  show ?thesis unfolding runNode_def
    by (auto intro!: emit_phase [where ph' = "entry_phase reusable"] node_monitor.safe_quiet [OF projectRun_quiet] raised attempts split: sum.split)
qed

section \<open>What the protocol says of the traces\<close>

definition started :: "called \<Rightarrow> bool" where
  "started c \<longleftrightarrow> (case c of Asked q a \<Rightarrow> isStart q | _ \<Rightarrow> False)"

lemma starts_counted: "watch node_protocol s tr = Some s' \<Longrightarrow> fst s' = fst s + length (filter started tr)"
proof (induction tr arbitrary: s)
  case (Cons c tr)
  then obtain s1 where s1: "node_protocol s c = Some s1" "watch node_protocol s1 tr = Some s'" by (auto split: option.splits)
  have "fst s1 = fst s + (if started c then 1 else 0)"
    using s1(1) by (cases "(s, c)" rule: node_protocol.cases) (auto simp: started_def split: option.splits if_splits sum.splits)
  then show ?case using Cons.IH [OF s1(2)] by simp
qed simp

lemma closed_only_by_settling:
  assumes "onCall ph q = Some Closed" "ph \<noteq> Closed"
  shows "\<exists>e x y. q = JournalAppend e x y \<and> own ''type'' e = JStr ''NodeSettled''"
  using assms by (cases q) (auto split: if_splits jsval.splits node_phase.splits)

lemma closing_step:
  assumes "node_protocol s c = Some s1" "snd s \<noteq> Closed" "snd s1 = Closed"
  shows "\<exists>e x y v. c = Asked (JournalAppend e x y) (Inr v) \<and> own ''type'' e = JStr ''NodeSettled''"
proof (cases c)
  case (Asked q a)
  then obtain ph where ph: "onCall (snd s) q = Some ph" using assms(1) by (cases s) (auto split: option.splits)
  then have "ph = Closed \<and> (isStart q \<or> (\<exists>v. a = Inr v))" using assms Asked by (cases s) (auto split: if_splits sum.splits)
  then show ?thesis using closed_only_by_settling [of "snd s" q] ph assms(2) Asked by fastforce
qed (use assms in auto)

lemma closed_was_settled:
  "watch node_protocol s tr = Some s' \<Longrightarrow> snd s \<noteq> Closed \<Longrightarrow> snd s' = Closed
    \<Longrightarrow> \<exists>e x y v. Asked (JournalAppend e x y) (Inr v) \<in> set tr \<and> own ''type'' e = JStr ''NodeSettled''"
proof (induction tr arbitrary: s)
  case (Cons c tr)
  then obtain s1 where s1: "node_protocol s c = Some s1" "watch node_protocol s1 tr = Some s'" by (auto split: option.splits)
  show ?case
  proof (cases "snd s1 = Closed")
    case True
    then show ?thesis using closing_step [OF s1(1) Cons.prems(2)] by fastforce
  next
    case False
    then show ?thesis using Cons.IH [OF s1(2) False Cons.prems(3)] by auto
  qed
qed simp

end
