(* ===== verification/Run_Verdict.thy ===== *)
theory Run_Verdict
  imports Run_Node
begin

text \<open>
  What an automaton over calls may know of an approval. \<open>verifyRun\<close> asks for evidence and for a verdict on it; a monitor of
  the locale \<open>approval_monitor\<close> reads the grant off the answers, and then holds a grant exactly when \<open>verifyRun\<close> says ok.
\<close>

text \<open>What a verdict authorizes.\<close>

definition grantOf :: "run_ctx \<Rightarrow> jsval \<Rightarrow> jsval res \<Rightarrow> jsval option" where
  "grantOf C receipt r = (case r of Inl e \<Rightarrow> None
     | Inr verdict \<Rightarrow> if \<not> truthy (own ''ok'' verdict) then None else
         (case authorized C receipt verdict of Inl e \<Rightarrow> None | Inr v \<Rightarrow> Some (own ''authorization'' v)))"

text \<open>What evidence authorizes that brings no verifier of its own.\<close>

definition evidenceGrant :: "run_ctx \<Rightarrow> jsval \<Rightarrow> jsval \<Rightarrow> string \<Rightarrow> jsval res \<Rightarrow> jsval option" where
  "evidenceGrant C receipt node stage r = (case r of Inl e \<Rightarrow> None
     | Inr evidence \<Rightarrow> if truthy (own ''approvalVerifier'' evidence) then None else grantOf C receipt (evidenceVerdict C evidence receipt node stage False))"

lemma authorized_ok: "authorized C receipt v = Inr v' \<Longrightarrow> truthy (own ''ok'' v) \<Longrightarrow> truthy (own ''ok'' v')"
  by (cases v) (auto simp: authorized_def setFields_def own_oset simp del: oset.simps split: if_splits)

locale approval_monitor = call_monitor step quiet for step :: "'s \<Rightarrow> called \<Rightarrow> 's option" and quiet +
  fixes C :: run_ctx and receipt node :: jsval and stage :: string and grant :: "jsval option \<Rightarrow> 's \<Rightarrow> 's"
  assumes on_evidence: "step s (Asked (ApprovalEvidence node stage) r) = Some (grant (evidenceGrant C receipt node stage r) s)"
    and on_verdict: "step s (Asked (VerifyWith receipt node stage) r) = Some (grant (grantOf C receipt r) s)"
    and grant_again: "grant g (grant h s) = grant g s"
begin

lemma verifyRun_grant:
  assumes granted: "\<And>v. truthy (own ''ok'' v) \<Longrightarrow> Q (Inr v) (grant (Some (own ''authorization'' v)) s)"
    and refused: "\<And>v s'. \<not> truthy (own ''ok'' v) \<Longrightarrow> s' = s \<or> (\<exists>g. s' = grant g s) \<Longrightarrow> Q (Inr v) s'"
  shows "safe step (verifyRun C receipt node stage False) Q s"
proof -
  have [simp]: "Q (Inr (contextRefusal e)) (grant g s)" "Q (Inr (refusal c)) (grant g s)" "Q (Inr (refusal c)) s" for e c g
    by (rule refused; fastforce simp: contextRefusal_def refusal_def)+
  have other [simp]: "\<not> truthy (own ''ok'' v) \<Longrightarrow> Q (Inr v) (grant g s)" for v g using refused by blast
  show ?thesis using granted
    by (auto simp: verifyRun_def on_evidence on_verdict grant_again evidenceGrant_def grantOf_def authorized_ok cong: sum.case_cong split: sum.split)
qed

end

end
