(* ===== verification/Run_Writer.thy ===== *)
theory Run_Writer
  imports Run_Node_Proofs Run_Verdict
begin

text \<open>
  Nodes that mutate: an executor is only called with the authorization of a verdict that approval evidence gave
  for this attempt, and only where the executor enforces the writer's paths.
\<close>

section \<open>The automaton\<close>

fun startGrant :: "request \<Rightarrow> jsval option" where
  "startGrant (StartAgent n a u rs) = Some u"
| "startGrant (RunAgent n a u rs) = Some u"
| "startGrant (RunBatch n a u rs p es) = Some u"
| "startGrant q = None"

abbreviation writer_stage :: string where
  "writer_stage \<equiv> ''mutating-node-admission''"

text \<open>The state is the authorization in force. It ends with the attempt, when its budget is settled.\<close>

fun onWriterCall :: "run_ctx \<Rightarrow> jsval \<Rightarrow> jsval \<Rightarrow> jsval option \<Rightarrow> request \<Rightarrow> jsval res \<Rightarrow> jsval option option" where
  "onWriterCall C node receipt g (ApprovalEvidence n stage) a =
     Some (if stage \<noteq> writer_stage then g else if n \<noteq> node then None else evidenceGrant C receipt node stage a)"
| "onWriterCall C node receipt g (VerifyWith r n stage) a =
     Some (if stage \<noteq> writer_stage then g else if n \<noteq> node \<or> r \<noteq> receipt then None else grantOf C receipt a)"
| "onWriterCall C node receipt g (SettleBudget r c n k) a = Some None"
| "onWriterCall C node receipt g q a = (if \<not> isStart q then Some g
     else if g \<noteq> None \<and> startGrant q \<in> {None, g} \<and> sv_pathEnforcement (cx_services C) = JStr ''ENFORCED'' then Some g else None)"

fun writer_protocol :: "run_ctx \<Rightarrow> jsval \<Rightarrow> jsval \<Rightarrow> jsval option \<Rightarrow> called \<Rightarrow> jsval option option" where
  "writer_protocol C node receipt g (Asked q a) = onWriterCall C node receipt g q a"
| "writer_protocol C node receipt g (DidRead es) = Some g"
| "writer_protocol C node receipt g (SawFlags f) = Some g"

fun off_writer :: "request \<Rightarrow> bool" where
  "off_writer (ApprovalEvidence n stage) = (stage \<noteq> writer_stage)"
| "off_writer (VerifyWith r n stage) = (stage \<noteq> writer_stage)"
| "off_writer (SettleBudget r c n a) = False"
| "off_writer q = (\<not> isStart q)"

interpretation writer_monitor: call_monitor "writer_protocol C node receipt" off_writer for C node receipt
proof
  show "off_writer q \<Longrightarrow> writer_protocol C node receipt s (Asked q a) = Some s" for q s a
    by (cases q) auto
qed simp_all

interpretation writer_approval: approval_monitor "writer_protocol C node receipt" off_writer C receipt node writer_stage "\<lambda>g s. g" for C node receipt
  by unfold_locales simp_all

section \<open>The proof\<close>

text \<open>What an attempt under authorization \<open>u\<close> may call: everything but another verdict.\<close>

fun under_grant :: "jsval \<Rightarrow> request \<Rightarrow> bool" where
  "under_grant u (ApprovalEvidence n stage) = (stage \<noteq> writer_stage)"
| "under_grant u (VerifyWith r n stage) = (stage \<noteq> writer_stage)"
| "under_grant u (SettleBudget r c n k) = False"
| "under_grant u q = (startGrant q \<in> {None, Some u})"

lemma under_grant_step:
  assumes "sv_pathEnforcement (cx_services C) = JStr ''ENFORCED''" "under_grant u q"
  shows "writer_protocol C node receipt (Some u) (Asked q a) = Some (Some u)"
  using assms by (cases q) auto

lemma verifyRun_only: "stage \<noteq> writer_stage \<Longrightarrow> only (under_grant u) (verifyRun C receipt node stage b)"
  by (auto simp: verifyRun_def intro!: only_bind split: sum.split)

lemma terminalOf_only: "only ok (terminalOf C node a f v)"
  by (simp add: terminalOf_def)

lemma unavailable_only: "only ok (unavailable C node a)"
  by (simp add: unavailable_def terminalOf_only)

lemma settledResult_only: "only ok (settledResult C node a b v)"
  by (simp add: settledResult_def terminalOf_only)

lemma runAgentNode_only: "only (under_grant u) (runAgentNode C node a refs u)"
  by (simp add: runAgentNode_def Let_def unavailable_only only_emit terminalOf_only only_bind)

lemma runBatchNode_only: "only (under_grant u) (runBatchNode C node a refs u p es)"
  by (simp add: runBatchNode_def unavailable_only only_emit terminalOf_only only_bind)

lemma runGateNode_only: "only (under_grant u) (runGateNode C node a refs)"
  by (simp add: runGateNode_def Let_def only_emit terminalOf_only only_bind)

lemma runPrimitive_only: "only (under_grant u) (runPrimitive C node a N u p es)"
  by (simp add: runPrimitive_def Let_def only_bind runAgentNode_only runBatchNode_only runGateNode_only unavailable_only settledResult_only verifyRun_only)

lemma settleAttempt_only: "only (\<lambda>q. \<not> isStart q) (settleAttempt C node a k r w t)"
  by (auto simp: settleAttempt_def childEnded_def publishResult_def nodeEnded_def intro!: only_bind only_emit)

lemma no_start_accepted: "\<not> isStart q \<Longrightarrow> \<exists>s'. writer_protocol C node receipt s (Asked q a) = Some s'"
  by (cases q) (auto split: sum.split)

lemma unavailableTerminal_only: "only ok (unavailableTerminal C node a code)"
  by (simp add: unavailableTerminal_def terminalOf_only)

lemma settleUnavailable_only: "only off_writer (settleUnavailable C node ps code)"
  by (simp add: settleUnavailable_def only_emit)

lemma authorizeAttempt_grant:
  assumes "nodeMutates node = Inr True" "\<And>u. sv_pathEnforcement (cx_services C) = JStr ''ENFORCED'' \<Longrightarrow> Q (Inr (Inr u)) (Some u)"
    and "\<And>res g. Q (Inr (Inl res)) g" "\<And>e g. Q (Inl e) g"
  shows "safe (writer_protocol C node receipt) (authorizeAttempt C node receipt) Q g"
proof -
  have settles: "safe (writer_protocol C node receipt) (settleUnavailable C node [] c) Q' h" if "\<And>r. Q' r h" for c Q' h
    by (rule writer_monitor.safe_quiet [OF settleUnavailable_only]) (rule that)
  have ends: "safe (writer_protocol C node receipt) (unavailableTerminal C node a c) Q' h" if "\<And>r. Q' r h" for a c Q' h
    by (rule writer_monitor.safe_quiet [OF unavailableTerminal_only]) (rule that)
  show ?thesis using assms by (auto simp: authorizeAttempt_def intro!: writer_approval.verifyRun_grant ends settles split: sum.split)
qed

lemma prepareAttempt_only: "only off_writer (prepareAttempt C node a u None)"
  by (simp add: prepareAttempt_def Let_def only_bind unavailableTerminal_only settleUnavailable_only split: sum.split)

lemma reserveAttempt_only: "only off_writer (reserveAttempt C node a r w None)"
  by (simp add: reserveAttempt_def Let_def only_bind only_emit split: sum.split)

lemma admitted_only: "only off_writer (admitted C node a k r)"
  by (simp add: admitted_def only_emit)

lemma oneAttempt_grant:
  assumes "nodeMutates node = Inr True"
  shows "safe (writer_protocol C node (ni_receipt N)) (oneAttempt C node N k None) (\<lambda>r s. True) g"
proof -
  have settles: "safe (writer_protocol C node (ni_receipt N)) (settleAttempt C node a k r w t) (\<lambda>r s. True) g" for a r w t g
    by (rule writer_monitor.safe_accepting [OF settleAttempt_only no_start_accepted]) auto
  have runs: "safe (writer_protocol C node (ni_receipt N)) (executeAttempt C node a N u p es) Q (Some u)"
    if "sv_pathEnforcement (cx_services C) = JStr ''ENFORCED''" "\<And>r. Q r (Some u)" for a u p es Q
    using that by (auto simp: executeAttempt_def intro!: writer_monitor.safe_steady [OF runPrimitive_only under_grant_step] split: sum.split)
  show ?thesis unfolding oneAttempt_def Let_def
    by (auto simp: settles intro!: authorizeAttempt_grant [OF assms] runs writer_monitor.safe_quiet [OF prepareAttempt_only]
        writer_monitor.safe_quiet [OF reserveAttempt_only] writer_monitor.safe_quiet [OF admitted_only] split: sum.split option.split prod.split)
qed

lemma attemptLoop_grant:
  assumes "nodeMutates node = Inr True"
  shows "safe (writer_protocol C node (ni_receipt N)) (attemptLoop C node N left k None last') (\<lambda>r s. True) g"
proof (induction left arbitrary: k last' g)
  case (Suc left)
  show ?case unfolding attemptLoop.simps safe_bind
    by (rule safe_mono [OF oneAttempt_grant [OF assms]]) (use Suc.IH in \<open>auto split: sum.split\<close>)
qed simp

lemma runNode_grant:
  assumes "nodeMutates node = Inr True"
  shows "safe (writer_protocol C node receipt) (runNode C node receipt historical None) (\<lambda>r s. True) None"
proof -
  have emits: "only off_writer (emitEvent C t V)" for t V by (simp add: only_emit)
  have projects: "only off_writer (projectRun C)" by (simp add: projectRun_def only_bind)
  show ?thesis unfolding runNode_def
    using attemptLoop_grant [OF assms, of C "\<lparr> ni_receipt = receipt, ni_artifactRefs = refs \<rparr>" for refs]
    by (auto intro!: writer_monitor.safe_quiet [OF emits] writer_monitor.safe_quiet [OF projects] split: sum.split)
qed

end
