(* ===== verification/Run_Execute.thy ===== *)
theory Run_Execute
  imports Run_Node
begin

text \<open>
  A run: \<open>execute\<close>, \<open>inspect\<close> and \<open>resume\<close> of \<open>workflow/run-coordinator/index.mjs\<close> with \<open>#settleRoot\<close>,
  \<open>#settleCancellation\<close>, \<open>#requestApproval\<close>, the recovery of an interrupted run and the scheduling
  loop, as programs of \<open>Run_Calls\<close>. The nodes of a round are one call, \<open>RunNodes\<close>; each of them is a
  \<open>runNode\<close> of \<open>Run_Node\<close>. The loop has fuel: \<open>None\<close> is a loop that goes on after that many rounds.
\<close>

section \<open>Ends of a run\<close>

definition ofRun :: "jsval \<Rightarrow> (string \<times> jsval) list \<Rightarrow> event_values" where
  "ofRun eventId payload = \<lparr> vl_eventId = eventId, vl_nodeId = JNull, vl_attemptId = JNull, vl_childId = JNull, vl_swarmRunId = JNull, vl_payload = JObj payload \<rparr>"

definition revisionId :: "run_ctx \<Rightarrow> string \<Rightarrow> jsval" where
  "revisionId C prefix' = idText C prefix' [revisionOf C]"

definition currentProjection :: "run_ctx \<Rightarrow> run_projection io" where
  "currentProjection C = bindIO (projectRun C) (\<lambda>(events, projection). Return projection)"

definition snapshotNow :: "run_ctx \<Rightarrow> run_projection io" where
  "snapshotNow C = bindIO (currentProjection C) (\<lambda>projection. bindIO (snapshotRun C projection) (\<lambda>_. Return projection))"

definition settleRoot :: "run_ctx \<Rightarrow> jsval \<Rightarrow> (string \<times> jsval) list \<Rightarrow> run_projection io" where
  "settleRoot C outcome details = (let status = terminalRunStatus outcome in
     bindIO (liftIO (safeProjection (cx_host C) 8192 (JObj details))) (\<lambda>kept.
     bindIO (emitEvent C (terminalEventType status) (ofRun (revisionId C ''run-terminal'')
       [(''status'', JStr status), (''outcome'', outcome), (''planDigest'', own ''planDigest'' (cx_plan C)), (''details'', kept)])) (\<lambda>_.
     snapshotNow C)))"

definition settleCancellation :: "run_ctx \<Rightarrow> run_projection \<Rightarrow> run_projection io" where
  "settleCancellation C projection =
     bindIO (if rp_status projection = JStr ''stopping'' then Return () else
       bindIO (ask CancelReason) (\<lambda>reason. emitEvent C ''RunStopping'' (ofRun (revisionId C ''run-stopping'') [(''reason'', coalesce reason (JStr ''cancel-requested''))]))) (\<lambda>_.
     bindIO (ask CancelReason) (\<lambda>reason.
     settleRoot C (JStr ''orphaned'') [(''reason'', coalesce reason (JStr ''terminal-proof-unavailable-after-cancel''))]))"

definition requestApproval :: "run_ctx \<Rightarrow> jsval \<Rightarrow> jsval \<Rightarrow> string \<Rightarrow> run_projection io" where
  "requestApproval C verdict nodeId stage =
     bindIO (ask (NewId ''approval-requested'')) (\<lambda>eventId. let plan = cx_plan C in
     bindIO (emitEvent C ''ApprovalRequested'' (ofRun eventId
       [(''planDigest'', own ''planDigest'' plan), (''policyDigest'', own ''policyDigest'' plan), (''revision'', revisionOf C),
        (''executionEnvelopeDigest'', envelopeDigestOf C), (''nodeId'', nodeId), (''stage'', JStr stage),
        (''code'', coalesce (own ''code'' verdict) (JStr ''APPROVAL_REQUIRED''))])) (\<lambda>_.
     snapshotNow C))"

section \<open>Recovery\<close>

definition is_type :: "string \<Rightarrow> jsval \<Rightarrow> bool" where
  "is_type t event \<longleftrightarrow> own ''type'' event = JStr t"

definition reservationOf :: "jsval \<Rightarrow> jsval" where
  "reservationOf event = own ''reservationId'' (own ''payload'' event)"

text \<open>The reservations that were neither consumed nor refunded, and the attempts whose executor was called.\<close>

definition openReservations :: "jsval list \<Rightarrow> (jsval \<times> jsval) list" where
  "openReservations events = (let settled = map reservationOf (filter (\<lambda>e. is_type ''BudgetConsumed'' e \<or> is_type ''BudgetRefunded'' e) events) in
     foldl (\<lambda>m e. AList.update (reservationOf e) e m) [] (filter (\<lambda>e. is_type ''BudgetReserved'' e \<and> reservationOf e \<notin> set settled) events))"

definition admittedAttemptIds :: "jsval list \<Rightarrow> jsval list" where
  "admittedAttemptIds events = map (own ''attemptId'') (filter (is_type ''NodeAdmitted'') events)"

definition physicalAttempts :: "jsval list \<Rightarrow> (jsval \<times> int) list" where
  "physicalAttempts events = foldl (\<lambda>m e. AList.update (own ''nodeId'' e) (case map_of m (own ''nodeId'' e) of None \<Rightarrow> 1 | Some n \<Rightarrow> n + 1) m) []
     (filter (\<lambda>e. is_type ''ChildStarted'' e \<and> own ''batch'' (own ''payload'' e) \<noteq> JBool True) events)"

record run_recovery =
  rv_outstanding :: "(jsval \<times> jsval) list"
  rv_physical :: "(jsval \<times> int) list"
  rv_reusable :: "(jsval \<times> jsval \<times> jsval) list"

definition forget :: "jsval \<Rightarrow> run_recovery \<Rightarrow> run_recovery" where
  "forget reservationId R = R\<lparr> rv_outstanding := AList.delete reservationId (rv_outstanding R) \<rparr>"

text \<open>A reservation without an admitted attempt is refunded.\<close>

fun refundUnadmitted :: "jsval list \<Rightarrow> (jsval \<times> jsval) list \<Rightarrow> run_recovery \<Rightarrow> run_recovery io" where
  "refundUnadmitted admittedIds [] R = Return R"
| "refundUnadmitted admittedIds ((reservationId, event) # rest) R =
     (if own ''attemptId'' event \<in> set admittedIds then refundUnadmitted admittedIds rest R else
      bindIO (ask EnsureLease) (\<lambda>_.
      bindIO (ask (RefundBudget reservationId (own ''nodeId'' event) (own ''attemptId'' event))) (\<lambda>_.
      refundUnadmitted admittedIds rest (forget reservationId R))))"

definition itemIdentity :: "platform \<Rightarrow> jsval \<Rightarrow> string" where
  "itemIdentity P event = js_string P (own ''itemId'' (own ''payload'' event)) @ '':'' @ js_string P (own ''itemAttempt'' (own ''payload'' event))"

text \<open>Every item that was started has a terminal with proof.\<close>

definition safeToResume :: "platform \<Rightarrow> jsval \<Rightarrow> jsval \<Rightarrow> jsval list \<Rightarrow> bool" where
  "safeToResume P nodeId attemptId events =
     (let batch = filter (\<lambda>e. js_eq (own ''attemptId'' e) attemptId) (batchEventsOf nodeId events);
          proven = map (itemIdentity P) (filter (\<lambda>e. is_type ''BatchItemTerminal'' e \<and> own ''authoritative'' (own ''payload'' e) = JBool True) batch) in
      list_all (\<lambda>e. itemIdentity P e \<in> set proven) (filter (is_type ''BatchItemStarted'') batch))"

definition recoveryTerminal :: "run_ctx \<Rightarrow> jsval \<Rightarrow> attempt \<Rightarrow> jsval \<Rightarrow> string \<Rightarrow> unit io" where
  "recoveryTerminal C node a childId reason = emitEvent C ''ChildTerminal'' (ofAttempt C ''recovery-terminal'' node (at_attemptId a) childId
     [(''outcome'', JStr ''interrupted''), (''authoritative'', JBool False), (''receiptId'', JNull), (''resultDigest'', JNull), (''reason'', JStr reason)])"

definition heldBy :: "run_recovery \<Rightarrow> attempt \<Rightarrow> jsval option" where
  "heldBy R a = (if truthy (at_reservationId a) then map_of (rv_outstanding R) (at_reservationId a) else None)"

definition unfinished :: "run_recovery \<Rightarrow> attempt \<Rightarrow> bool" where
  "unfinished R a \<longleftrightarrow> at_status a \<in> {JStr ''admitted'', JStr ''running''} \<or> heldBy R a \<noteq> None"

definition worstCaseOf :: "jsval \<Rightarrow> jsval" where
  "worstCaseOf event = own ''worstCase'' (own ''payload'' event)"

definition recoverBatch :: "run_ctx \<Rightarrow> jsval \<Rightarrow> attempt \<Rightarrow> run_recovery \<Rightarrow> run_recovery io" where
  "recoverBatch C node a R = bindIO (recoveryTerminal C node a (at_childId a) ''batch-controller-recovery'') (\<lambda>_.
     Return (case heldBy R a of None \<Rightarrow> R
       | Some event \<Rightarrow> forget (at_reservationId a) (R\<lparr> rv_reusable := AList.update (own ''id'' node) (at_reservationId a, worstCaseOf event) (rv_reusable R) \<rparr>)))"

definition recoverAttempt :: "run_ctx \<Rightarrow> jsval list \<Rightarrow> jsval \<Rightarrow> attempt \<Rightarrow> run_recovery \<Rightarrow> run_recovery io" where
  "recoverAttempt C events node a R =
     (let P = cx_host C; childStarted = (at_childId a \<noteq> JNull); batch = (childStarted \<and> own ''kind'' node = JStr ''batch-swarm'') in
      if batch \<and> safeToResume P (own ''id'' node) (at_attemptId a) events then recoverBatch C node a R else
      let R' = (if batch then R\<lparr> rv_physical := AList.update (own ''id'' node) (maxAttemptsOf node) (rv_physical R) \<rparr> else R) in
      bindIO (if childStarted \<and> at_status a \<noteq> JStr ''interrupted'' then recoveryTerminal C node a (coalesce (at_childId a) (childIdOf C node (at_attemptId a))) ''coordinator-recovery'' else Return ()) (\<lambda>_.
      case heldBy R a of None \<Rightarrow> Return R'
      | Some event \<Rightarrow>
          bindIO (ask EnsureLease) (\<lambda>_.
          bindIO (ask (if childStarted then SettleBudget (at_reservationId a) (worstCaseOf event) (own ''id'' node) (at_attemptId a)
                        else RefundBudget (at_reservationId a) (own ''id'' node) (at_attemptId a))) (\<lambda>_.
          Return (forget (at_reservationId a) R')))))"

primrec recoverAttempts :: "run_ctx \<Rightarrow> jsval list \<Rightarrow> jsval \<Rightarrow> attempt list \<Rightarrow> run_recovery \<Rightarrow> run_recovery io" where
  "recoverAttempts C events node [] R = Return R"
| "recoverAttempts C events node (a # as) R = bindIO (recoverAttempt C events node a R) (recoverAttempts C events node as)"

definition attemptsExhausted :: "platform \<Rightarrow> jsval \<Rightarrow> run_recovery \<Rightarrow> bool" where
  "attemptsExhausted P node R \<longleftrightarrow> map_of (rv_reusable R) (own ''id'' node) = None
     \<and> js_le P (own ''maxAttempts'' (own ''budget'' node)) (jint (case map_of (rv_physical R) (own ''id'' node) of None \<Rightarrow> 0 | Some n \<Rightarrow> n))"

text \<open>\<open>Inl\<close> is the projection of a run that ends here.\<close>

definition requeueNode :: "run_ctx \<Rightarrow> jsval \<Rightarrow> run_recovery \<Rightarrow> (run_projection + run_recovery) io" where
  "requeueNode C node R =
     bindIO (liftIO (if own ''idempotency'' node = JStr ''content-addressed'' then rbind (nodeMutates node) (\<lambda>m. Inr (\<not> m)) else Inr False)) (\<lambda>replayable.
     if \<not> replayable \<or> attemptsExhausted (cx_host C) node R then
       let reason = JStr (if \<not> replayable then ''side-effect-replay-forbidden'' else ''max-attempts-exhausted-after-recovery'') in
       bindIO (emitEvent C ''NodeSettled'' (ofNode C ''recovery-node-settled'' node
         [(''outcome'', JStr ''interrupted''), (''authoritative'', JBool False), (''receiptId'', JNull), (''resultDigest'', JNull), (''reason'', reason)])) (\<lambda>_.
       bindIO (settleRoot C (JStr ''interrupted'') [(''nodeId'', own ''id'' node), (''reason'', reason)]) (\<lambda>projection. Return (Inl projection)))
     else
       bindIO (liftIO (queuedPayload C node [(''recovery'', JBool True)])) (\<lambda>payload.
       bindIO (emitEvent C ''NodeQueued'' (ofNode C ''recovery-node-requeued'' node payload)) (\<lambda>_. Return (Inr R))))"

definition planNode :: "run_ctx \<Rightarrow> jsval \<Rightarrow> jsval res" where
  "planNode C nodeId = (case find (\<lambda>n. js_eq (own ''id'' n) nodeId) (items (own ''nodes'' (cx_plan C))) of None \<Rightarrow> Inl TypeError | Some node \<Rightarrow> Inr node)"

primrec recoverNodes :: "run_ctx \<Rightarrow> jsval list \<Rightarrow> node_state list \<Rightarrow> run_recovery \<Rightarrow> (run_projection + run_recovery) io" where
  "recoverNodes C events [] R = Return (Inr R)"
| "recoverNodes C events (n # ns) R =
     bindIO (liftIO (planNode C (ns_nodeId n))) (\<lambda>node.
     bindIO (recoverAttempts C events node (filter (unfinished R) (ns_attempts n)) R) (\<lambda>R'.
     bindIO (requeueNode C node R') (\<lambda>r. case r of Inl projection \<Rightarrow> Return (Inl projection) | Inr R'' \<Rightarrow> recoverNodes C events ns R'')))"

definition recoveryNodes :: "run_projection \<Rightarrow> node_state list" where
  "recoveryNodes projection = filter (\<lambda>n. ns_status n = JStr ''running'' \<and> ns_outcome n = JNull) (map snd (rp_nodes projection))"

section \<open>Starting and scheduling\<close>

text \<open>\<open>#pollCancel\<close> and the two flags after it; \<open>cancel\<close> and \<open>pause\<close> set them at any time.\<close>

definition polled :: "(bool \<times> bool \<Rightarrow> 'a io) \<Rightarrow> 'a io" where
  "polled k = bindIO (attemptIO (ask PollCancel)) (\<lambda>_. Flags k)"

text \<open>The approval of the run; \<open>Inl\<close> ends it waiting for one.\<close>

definition approveRun :: "run_ctx \<Rightarrow> jsval \<Rightarrow> run_projection \<Rightarrow> (run_projection + unit) io" where
  "approveRun C receipt projection =
     bindIO (liftIO (planNeedsApproval (cx_plan C))) (\<lambda>needs. if \<not> needs then Return (Inr ()) else
     bindIO (verifyRun C receipt JNull ''resume'' False) (\<lambda>verdict.
     if \<not> truthy (own ''ok'' verdict) then bindIO (requestApproval C verdict JNull ''resume'') (\<lambda>projection. Return (Inl projection)) else
     let plan = cx_plan C; given = coalesce (own ''receiptDigest'' verdict) (coalesce (own ''receiptId'' receipt) JNull) in
     if js_eq (own ''receiptDigest'' (rp_approval projection)) given then Return (Inr ()) else
     bindIO (ask (NewId ''run-approved'')) (\<lambda>eventId.
     bindIO (liftIO (if given = JNull then rbind (digestValue (cx_host C) receipt) (\<lambda>h. Inr (JStr h)) else Inr given)) (\<lambda>receiptDigest.
     bindIO (emitEvent C ''RunApproved'' (ofRun eventId
       [(''planDigest'', own ''planDigest'' plan), (''policyDigest'', own ''policyDigest'' plan), (''revision'', revisionOf C),
        (''receiptDigest'', receiptDigest), (''executionEnvelopeDigest'', envelopeDigestOf C)])) (\<lambda>_. Return (Inr ()))))))"

definition startRun :: "run_ctx \<Rightarrow> jsval list \<Rightarrow> run_projection \<Rightarrow> unit io" where
  "startRun C events projection =
     (let planDigest = (''planDigest'', own ''planDigest'' (cx_plan C)); bound = [planDigest, (''executionEnvelopeDigest'', envelopeDigestOf C)] in
      if rp_status projection = JStr ''paused'' \<or> list_ex (is_type ''RunStarted'') events then
        bindIO (ask (NewId ''run-resumed'')) (\<lambda>eventId. emitEvent C ''RunResumed'' (ofRun eventId bound))
      else if rp_status projection \<noteq> JStr ''running'' then
        bindIO (emitEvent C ''RevisionActivated'' (ofRun (revisionId C ''revision-activated'') [planDigest])) (\<lambda>_.
        emitEvent C ''RunStarted'' (ofRun (revisionId C ''run-started'') bound))
      else Return ())"

text \<open>What the results of a round mean: the run goes on, waits for an approval, or has failed.\<close>

definition nodeOutcome :: "jsval \<Rightarrow> jsval" where
  "nodeOutcome result = own ''outcome'' result"

definition roundEnd :: "run_ctx \<Rightarrow> jsval list \<Rightarrow> jsval list \<Rightarrow> run_projection option io" where
  "roundEnd C ready results = (case find (\<lambda>(node, r). nodeOutcome r = JStr ''awaiting-approval'') (zip ready results) of
       Some (node, r) \<Rightarrow> bindIO (requestApproval C (own ''verdict'' r) (coalesce (own ''id'' node) JNull) ''mutating-node-admission'') (\<lambda>projection. Return (Some projection))
     | None \<Rightarrow> (case find (\<lambda>r. \<not> is_one_of SUCCESS_NODE_OUTCOMES (nodeOutcome r)) results of
         Some r \<Rightarrow> bindIO (settleRoot C (nodeOutcome r) [(''receiptId'', coalesce (own ''receiptId'' (own ''terminal'' r)) JNull),
             (''errorCode'', coalesce (own ''code'' (own ''error'' (own ''terminal'' r))) JNull)]) (\<lambda>projection. Return (Some projection))
       | None \<Rightarrow> Return None))"

definition pauseRun :: "run_ctx \<Rightarrow> run_projection io" where
  "pauseRun C = bindIO (emitEvent C ''RunPaused'' (ofRun (revisionId C ''run-paused'') [(''reason'', JStr ''pause-requested'')])) (\<lambda>_. snapshotNow C)"

primrec scheduleLoop :: "run_ctx \<Rightarrow> run_recovery \<Rightarrow> nat \<Rightarrow> run_projection option io" where
  "scheduleLoop C R 0 = Return None"
| "scheduleLoop C R (Suc fuel) =
     bindIO (currentProjection C) (\<lambda>projection. polled (\<lambda>(cancelled, paused).
     if cancelled then bindIO (settleCancellation C projection) (\<lambda>p. Return (Some p)) else
     if paused then bindIO (pauseRun C) (\<lambda>p. Return (Some p)) else
     bindIO (liftIO (schedule (cx_host C) (cx_plan C) projection)) (\<lambda>next. case next of
       RunDone \<Rightarrow> bindIO (settleRoot C (JStr ''completed'') [(''terminalNodeId'', own ''terminalNodeId'' (cx_plan C))]) (\<lambda>p. Return (Some p))
     | NoReadyNode \<Rightarrow> bindIO (liftIO (cx_digestOf C projection)) (\<lambda>h.
         bindIO (settleRoot C (JStr ''failed'') [(''reason'', JStr ''no-ready-node''), (''projectionDigest'', JStr h)]) (\<lambda>p. Return (Some p)))
     | StartNodes ready \<Rightarrow> bindIO (ask (RunNodes ready (rv_physical R) (rv_reusable R))) (\<lambda>results.
         bindIO (roundEnd C ready (items results)) (\<lambda>e. case e of Some p \<Rightarrow> Return (Some p) | None \<Rightarrow> scheduleLoop C R fuel)))))"

text \<open>After the recovery: the poll, the approval, the start and the rounds.\<close>

definition admitRun :: "run_ctx \<Rightarrow> jsval \<Rightarrow> nat \<Rightarrow> run_projection \<Rightarrow> run_recovery \<Rightarrow> run_projection option io" where
  "admitRun C receipt fuel projection R = polled (\<lambda>(cancelled, paused).
     if cancelled then bindIO (currentProjection C) (\<lambda>p. bindIO (settleCancellation C p) (\<lambda>p. Return (Some p))) else
     bindIO (approveRun C receipt projection) (\<lambda>a. case a of Inl p \<Rightarrow> Return (Some p) | Inr _ \<Rightarrow>
     bindIO (projectRun C) (\<lambda>(events, projection). polled (\<lambda>(cancelled, paused).
     if cancelled then bindIO (settleCancellation C projection) (\<lambda>p. Return (Some p)) else
     bindIO (startRun C events projection) (\<lambda>_. scheduleLoop C R fuel)))))"

definition recoverRun :: "run_ctx \<Rightarrow> jsval \<Rightarrow> nat \<Rightarrow> jsval list \<Rightarrow> run_projection option io" where
  "recoverRun C receipt fuel events =
     (let outstanding = openReservations events;
          R = \<lparr> rv_outstanding = outstanding, rv_physical = physicalAttempts events, rv_reusable = [] \<rparr> in
      bindIO (refundUnadmitted (admittedAttemptIds events) outstanding R) (\<lambda>R.
      bindIO (projectRun C) (\<lambda>(events, projection).
      bindIO (recoverNodes C events (recoveryNodes projection) R) (\<lambda>r. case r of
        Inl p \<Rightarrow> Return (Some p) | Inr R \<Rightarrow> admitRun C receipt fuel projection R))))"

text \<open>The checks on a run that has a journal already.\<close>

definition boundRun :: "run_ctx \<Rightarrow> jsval \<Rightarrow> run_projection \<Rightarrow> unit res" where
  "boundRun C inputDigest projection =
     (if \<not> js_eq (rp_planDigest projection) (own ''planDigest'' (cx_plan C)) then failCoord ''PLAN_DRIFT'' else
      if rp_runInputDigest projection = JNull then failCoord ''RUN_INPUT_UNBOUND'' else
      if \<not> js_eq (rp_runInputDigest projection) inputDigest then failCoord ''RUN_INPUT_DRIFT'' else
      if rp_executionEnvelopeDigest projection = JNull then failCoord ''EXECUTION_ENVELOPE_UNBOUND'' else
      if \<not> js_eq (rp_executionEnvelopeDigest projection) (envelopeDigestOf C) then failCoord ''EXECUTION_ENVELOPE_DRIFT'' else Inr ())"

definition planRun :: "run_ctx \<Rightarrow> jsval \<Rightarrow> (jsval list \<times> run_projection) io" where
  "planRun C inputDigest = (let plan = cx_plan C in
     bindIO (emitEvent C ''RunPlanned'' (ofRun (revisionId C ''run-planned'')
       [(''planId'', own ''id'' plan), (''planDigest'', own ''planDigest'' plan), (''policyDigest'', own ''policyDigest'' plan), (''runInputDigest'', inputDigest),
        (''executionEnvelopeDigest'', envelopeDigestOf C), (''executionEnvelope'', cx_envelope C)])) (\<lambda>_. projectRun C))"

definition leasedRun :: "run_ctx \<Rightarrow> jsval \<Rightarrow> jsval \<Rightarrow> nat \<Rightarrow> run_projection option io" where
  "leasedRun C inputDigest receipt fuel =
     bindIO (projectRun C) (\<lambda>(events, projection).
     bindIO (attemptIO (ask PollCancel)) (\<lambda>_.
     bindIO (if events = [] then planRun C inputDigest else bindIO (liftIO (boundRun C inputDigest projection)) (\<lambda>_. Return (events, projection))) (\<lambda>(events, projection).
     if is_one_of TERMINAL_RUN_STATES (rp_status projection) then Return (Some projection) else
     Flags (\<lambda>(cancelled, paused). if cancelled then bindIO (settleCancellation C projection) (\<lambda>p. Return (Some p))
       else recoverRun C receipt fuel events))))"

text \<open>The whole of \<open>execute\<close>: its checks, the stored plan, the lease, the run, and the release of the lease on every path.\<close>

record run_request =
  rq_runId :: jsval
  rq_input :: jsval
  rq_envelope :: jsval     \<comment> \<open>\<open>options.executionEnvelope ?? options.execution\<close>\<close>
  rq_approval :: jsval
  rq_active :: bool        \<comment> \<open>the coordinator runs this run already\<close>
  rq_planStore :: bool     \<comment> \<open>the coordinator has a plan store\<close>

definition releasing :: "'a io \<Rightarrow> 'a io" where
  "releasing m = bindIO (attemptIO m) (\<lambda>r. bindIO (attemptIO (ask ReleaseLease)) (\<lambda>_. liftIO r))"

definition executeRun :: "run_ctx \<Rightarrow> run_request \<Rightarrow> nat \<Rightarrow> run_projection option io" where
  "executeRun C0 Q fuel = (let P = cx_host C0; plan = cx_plan C0; supplied = coalesce (rq_envelope Q) JNull in
     bindIO (liftIO (validateWorkflowPlan P plan)) (\<lambda>checked.
     bindIO (liftIO (case checked of Inl code \<Rightarrow> failCoord code | Inr facts \<Rightarrow> Inr ())) (\<lambda>_.
     bindIO (if nullish (rq_runId Q) then ask (NewId ''workflow-run'') else Return (rq_runId Q)) (\<lambda>given.
     bindIO (liftIO (canonicalRunId given)) (\<lambda>runId.
     bindIO (liftIO (normalizeRunInput P (rq_input Q))) (\<lambda>input.
     bindIO (liftIO (digestValue P input)) (\<lambda>h. let inputDigest = JStr h in
     if own ''runId'' supplied \<noteq> JUndef \<and> own ''runId'' supplied \<noteq> runId then liftIO (failCoord ''RUN_ID_DRIFT'') else
     bindIO (liftIO (createExecutionEnvelope P plan (oset ''runInputDigest'' inputDigest (oset ''runId'' runId (spread (JObj []) supplied))))) (\<lambda>envelope.
     let C = C0\<lparr> cx_runId := runId, cx_envelope := envelope \<rparr> in
     if rq_active Q then liftIO (failCoord ''RUN_ALREADY_ACTIVE'') else
     bindIO (if \<not> rq_planStore Q then Return JUndef else ask (PutPlan (JObj
       [(''runId'', runId), (''plan'', plan), (''inputDigest'', inputDigest), (''sourceHash'', own ''sourceHash'' envelope), (''executionEnvelope'', envelope),
        (''executionEnvelopeDigest'', own ''executionEnvelopeDigest'' envelope)]))) (\<lambda>_.
     bindIO (ask AcquireLease) (\<lambda>_. releasing (leasedRun C inputDigest (coalesce (rq_approval Q) JNull) fuel)))))))))))"

section \<open>Other operations\<close>

definition inspectRun :: "run_ctx \<Rightarrow> jsval \<Rightarrow> bool \<Rightarrow> jsval \<Rightarrow> (jsval list \<times> run_projection) io" where
  "inspectRun C runId planStore given = (let P = cx_host C in
     bindIO (liftIO (canonicalRunId runId)) (\<lambda>_.
     bindIO (if given \<noteq> JUndef then Return given else if \<not> planStore then liftIO (failCoord ''PLAN_STORE_UNAVAILABLE'') else
       bindIO (ask GetPlan) (\<lambda>record. if record = JNull then liftIO (failCoord ''PLAN_NOT_FOUND'') else liftIO (prop_of ''plan'' record))) (\<lambda>plan.
     bindIO (liftIO (validateWorkflowPlan P plan)) (\<lambda>checked.
     bindIO (liftIO (case checked of Inl code \<Rightarrow> failCoord code | Inr facts \<Rightarrow> Inr ())) (\<lambda>_.
     bindIO readEvents (\<lambda>events.
     bindIO (liftIO (projectWorkflowRun P events plan runId)) (\<lambda>projection. Return (events, projection))))))))"

text \<open>\<open>options\<close> of \<open>resume\<close>: an input that is \<open>None\<close> was not given.\<close>

definition resumeRun :: "run_ctx \<Rightarrow> run_request \<Rightarrow> jsval option \<Rightarrow> nat \<Rightarrow> run_projection option io" where
  "resumeRun C Q input fuel =
     bindIO (liftIO (canonicalRunId (rq_runId Q))) (\<lambda>runId.
     if \<not> rq_planStore Q then liftIO (failCoord ''PLAN_STORE_UNAVAILABLE'') else
     case input of None \<Rightarrow> liftIO (failCoord ''RUN_INPUT_REQUIRED_FOR_RESUME'') | Some input' \<Rightarrow>
     bindIO (ask GetPlan) (\<lambda>record. if record = JNull then liftIO (failCoord ''PLAN_NOT_FOUND'') else
     let envelope = coalesce (rq_envelope Q) (own ''executionEnvelope'' record) in
     if nullish envelope then Raise TypeError else
     if \<not> js_eq (own ''executionEnvelopeDigest'' envelope) (own ''executionEnvelopeDigest'' record) then liftIO (failCoord ''EXECUTION_ENVELOPE_DRIFT'') else
     executeRun (C\<lparr> cx_plan := own ''plan'' record \<rparr>) (Q\<lparr> rq_runId := runId, rq_input := input', rq_envelope := envelope \<rparr>) fuel))"

end
