(* ===== verification/Run_Admission.thy ===== *)
theory Run_Admission
  imports Run_Execute Run_Node_Proofs Run_Verdict
begin

text \<open>
  The protocol of a run: nodes are only run after a poll that saw neither cancel nor pause, and, in a plan that
  needs one, after an approval of this execution; once an end of the run is in the journal no event, refund or node
  follows.
\<close>

section \<open>The automaton of a run\<close>

record run_guard =
  rg_approved :: bool   \<comment> \<open>this execution has an approval\<close>
  rg_clear :: bool      \<comment> \<open>the last look at the flags saw neither cancel nor pause\<close>
  rg_over :: bool       \<comment> \<open>the run has ended, paused or asked for an approval\<close>

definition CLOSING_EVENTS :: "string list" where
  "CLOSING_EVENTS = [''RunCompleted'', ''RunFailed'', ''RunCancelled'', ''RunInterrupted'', ''RunOrphaned'', ''RunPaused'', ''ApprovalRequested'']"

definition onRunAppend :: "run_guard \<Rightarrow> string \<Rightarrow> run_guard option" where
  "onRunAppend g type' = (if rg_over g then None
     else if type' \<in> set CLOSING_EVENTS then Some (g\<lparr> rg_over := True \<rparr>)
     else if type' = ''RunApproved'' \<and> \<not> rg_approved g then None else Some g)"

abbreviation run_stage :: string where
  "run_stage \<equiv> ''resume''"

definition granting :: "jsval option \<Rightarrow> run_guard \<Rightarrow> run_guard" where
  "granting a g = g\<lparr> rg_approved := (a \<noteq> None) \<rparr>"

fun onRunCall :: "run_ctx \<Rightarrow> jsval \<Rightarrow> run_guard \<Rightarrow> request \<Rightarrow> jsval res \<Rightarrow> run_guard option" where
  "onRunCall C receipt g (JournalAppend e s d) a = (case own ''type'' e of
     JStr t \<Rightarrow> (case onRunAppend g t of None \<Rightarrow> None | Some g' \<Rightarrow> Some (case a of Inl err \<Rightarrow> g | Inr v \<Rightarrow> g'))
   | _ \<Rightarrow> Some g)"
| "onRunCall C receipt g (RunNodes ns ps rs) a =
     (if rg_over g \<or> \<not> rg_clear g \<or> (planNeedsApproval (cx_plan C) = Inr True \<and> \<not> rg_approved g) then None else Some (g\<lparr> rg_clear := False \<rparr>))"
| "onRunCall C receipt g (RefundBudget r n k) a = (if rg_over g then None else Some g)"
| "onRunCall C receipt g (SettleBudget r c n k) a = (if rg_over g then None else Some g)"
| "onRunCall C receipt g (ApprovalEvidence n stage) a =
     Some (if n \<noteq> JNull \<or> stage \<noteq> run_stage then g else granting (evidenceGrant C receipt JNull stage a) g)"
| "onRunCall C receipt g (VerifyWith r n stage) a =
     Some (if r \<noteq> receipt \<or> n \<noteq> JNull \<or> stage \<noteq> run_stage then g else granting (grantOf C receipt a) g)"
| "onRunCall C receipt g q a = Some g"

fun run_protocol :: "run_ctx \<Rightarrow> jsval \<Rightarrow> run_guard \<Rightarrow> called \<Rightarrow> run_guard option" where
  "run_protocol C receipt g (Asked q a) = onRunCall C receipt g q a"
| "run_protocol C receipt g (DidRead es) = Some g"
| "run_protocol C receipt g (SawFlags f) = Some (g\<lparr> rg_clear := (f = (False, False)) \<rparr>)"

fun off_run :: "request \<Rightarrow> bool" where
  "off_run (JournalAppend e s d) = False"
| "off_run (RunNodes ns ps rs) = False"
| "off_run (RefundBudget r n k) = False"
| "off_run (SettleBudget r c n k) = False"
| "off_run (ApprovalEvidence n stage) = False"
| "off_run (VerifyWith r n stage) = False"
| "off_run q = True"

interpretation run_monitor: call_monitor "run_protocol C receipt" off_run for C receipt
proof
  show "off_run q \<Longrightarrow> run_protocol C receipt s (Asked q a) = Some s" for q s a
    by (cases q) auto
qed simp_all

interpretation run_approval: approval_monitor "run_protocol C receipt" off_run C receipt JNull run_stage granting for C receipt
  by unfold_locales (simp_all add: granting_def)

section \<open>Events\<close>

lemma emit_plain:
  assumes "\<not> rg_over g" "t \<notin> set CLOSING_EVENTS" "t = ''RunApproved'' \<Longrightarrow> rg_approved g" "\<And>r. Q r g"
  shows "safe (run_protocol C receipt) (emitEvent C' t V) Q g"
proof (cases "runEvent C' t V")
  case (Inr e)
  have "safe (run_protocol C receipt) (appendRunEvent C' e) (\<lambda>r s. case r of Inl e \<Rightarrow> Q (Inl e) s | Inr v \<Rightarrow> Q (Inr ()) s) g"
    by (rule run_monitor.safe_append [where after = g]) (use assms runEvent_fields [OF Inr] in \<open>auto simp: onRunAppend_def\<close>)
  then show ?thesis using Inr by (simp add: emitEvent_def cong: sum.case_cong)
qed (use assms in \<open>simp add: emitEvent_def\<close>)

lemma emit_closing:
  assumes "\<not> rg_over g" "t \<in> set CLOSING_EVENTS" "\<And>e. Q (Inl e) g" "Q (Inr ()) (g\<lparr> rg_over := True \<rparr>)"
  shows "safe (run_protocol C receipt) (emitEvent C' t V) Q g"
proof (cases "runEvent C' t V")
  case (Inr e)
  have "safe (run_protocol C receipt) (appendRunEvent C' e) (\<lambda>r s. case r of Inl e \<Rightarrow> Q (Inl e) s | Inr v \<Rightarrow> Q (Inr ()) s) g"
    by (rule run_monitor.safe_append [where after = "g\<lparr> rg_over := True \<rparr>"]) (use assms runEvent_fields [OF Inr] in \<open>auto simp: onRunAppend_def\<close>)
  then show ?thesis using Inr by (simp add: emitEvent_def cong: sum.case_cong)
qed (use assms in \<open>simp add: emitEvent_def\<close>)

lemma terminal_closes: "terminalEventType status \<in> set CLOSING_EVENTS"
  by (auto simp: terminalEventType_def CLOSING_EVENTS_def split: option.split)

lemma plain_events [simp]:
  "t \<in> {''RunPlanned'', ''RunStopping'', ''ChildTerminal'', ''NodeSettled'', ''NodeQueued'', ''RunApproved'', ''RunResumed'', ''RevisionActivated'', ''RunStarted''} \<Longrightarrow> t \<notin> set CLOSING_EVENTS"
  by (auto simp: CLOSING_EVENTS_def)

lemma closing_events [simp]: "''RunPaused'' \<in> set CLOSING_EVENTS" "''ApprovalRequested'' \<in> set CLOSING_EVENTS"
  by (simp_all add: CLOSING_EVENTS_def)

lemma projectRun_only: "only off_run (projectRun C)"
  by (simp add: projectRun_def only_bind)

lemma currentProjection_only: "only off_run (currentProjection C)"
  by (auto simp: currentProjection_def intro!: only_bind projectRun_only)

lemma snapshotNow_only: "only off_run (snapshotNow C)"
  by (auto simp: snapshotNow_def snapshotRun_def Let_def intro!: only_bind currentProjection_only)

lemmas reads_safe = run_monitor.safe_quiet [OF projectRun_only] run_monitor.safe_quiet [OF currentProjection_only] run_monitor.safe_quiet [OF snapshotNow_only]

section \<open>Ends of a run\<close>

text \<open>What a program owes that ends the run: a result is returned only after the end is in the journal.\<close>

definition ends_run :: "run_projection res \<Rightarrow> run_guard \<Rightarrow> bool" where
  "ends_run r g \<longleftrightarrow> (case r of Inl e \<Rightarrow> True | Inr p \<Rightarrow> rg_over g)"

lemma ends_run_simps [simp]: "ends_run (Inl e) g" "ends_run (Inr p) g = rg_over g" "rg_over g \<Longrightarrow> ends_run r g"
  by (simp_all add: ends_run_def split: sum.split)

lemma settleRoot_safe: "\<not> rg_over g \<Longrightarrow> safe (run_protocol C receipt) (settleRoot C' outcome details) ends_run g"
  by (auto simp: settleRoot_def Let_def intro!: emit_closing terminal_closes reads_safe split: sum.split)

lemma settleCancellation_safe: "\<not> rg_over g \<Longrightarrow> safe (run_protocol C receipt) (settleCancellation C' p) ends_run g"
  by (auto simp: settleCancellation_def intro!: emit_plain settleRoot_safe split: sum.split)

lemma requestApproval_safe: "\<not> rg_over g \<Longrightarrow> safe (run_protocol C receipt) (requestApproval C' v n stage) ends_run g"
  by (auto simp: requestApproval_def Let_def intro!: emit_closing reads_safe split: sum.split)

lemma pauseRun_safe: "\<not> rg_over g \<Longrightarrow> safe (run_protocol C receipt) (pauseRun C') ends_run g"
  by (auto simp: pauseRun_def intro!: emit_closing reads_safe split: sum.split)

section \<open>Recovery\<close>

lemma refundUnadmitted_safe:
  assumes "\<not> rg_over g" "\<And>r. Q r g"
  shows "safe (run_protocol C receipt) (refundUnadmitted ids rs R) Q g"
  using assms by (induction ids rs R rule: refundUnadmitted.induct) (auto split: sum.split)

lemma recoveryTerminal_safe: "\<not> rg_over g \<Longrightarrow> (\<And>r. Q r g) \<Longrightarrow> safe (run_protocol C receipt) (recoveryTerminal C' node a c reason) Q g"
  by (auto simp: recoveryTerminal_def intro!: emit_plain)

lemma recoverAttempt_safe:
  assumes "\<not> rg_over g" "\<And>r. Q r g"
  shows "safe (run_protocol C receipt) (recoverAttempt C' events node a R) Q g"
  using assms by (auto simp: recoverAttempt_def recoverBatch_def Let_def intro!: recoveryTerminal_safe split: sum.split option.split)

lemma recoverAttempts_safe:
  assumes "\<not> rg_over g" "\<And>r. Q r g"
  shows "safe (run_protocol C receipt) (recoverAttempts C' events node as R) Q g"
  using assms by (induction as arbitrary: R) (auto intro!: recoverAttempt_safe split: sum.split)

text \<open>A part of a run that may end it.\<close>

definition ends_or_goes_on :: "run_guard \<Rightarrow> (run_projection + 'a) res \<Rightarrow> run_guard \<Rightarrow> bool" where
  "ends_or_goes_on g r s \<longleftrightarrow> (case r of Inl e \<Rightarrow> True | Inr (Inl p) \<Rightarrow> rg_over s | Inr (Inr x) \<Rightarrow> s = g)"

lemma ends_or_goes_on_simps [simp]:
  "ends_or_goes_on g (Inl e) s" "ends_or_goes_on g (Inr (Inl p)) s = rg_over s" "ends_or_goes_on g (Inr (Inr x)) s = (s = g)"
  by (simp_all add: ends_or_goes_on_def)

lemma settleRoot_then:
  assumes "\<not> rg_over g" "\<And>e s. Q (Inl e) s" "\<And>p s. rg_over s \<Longrightarrow> Q (Inr p) s"
  shows "safe (run_protocol C receipt) (settleRoot C' outcome details) Q g"
  by (rule safe_mono [OF settleRoot_safe [OF assms(1)]]) (auto simp: ends_run_def assms split: sum.splits)

lemma requestApproval_then:
  assumes "\<not> rg_over g" "\<And>e s. Q (Inl e) s" "\<And>p s. rg_over s \<Longrightarrow> Q (Inr p) s"
  shows "safe (run_protocol C receipt) (requestApproval C' v n stage) Q g"
  by (rule safe_mono [OF requestApproval_safe [OF assms(1)]]) (auto simp: ends_run_def assms split: sum.splits)

lemma settleCancellation_then:
  assumes "\<not> rg_over g" "\<And>e s. Q (Inl e) s" "\<And>p s. rg_over s \<Longrightarrow> Q (Inr p) s"
  shows "safe (run_protocol C receipt) (settleCancellation C' p) Q g"
  by (rule safe_mono [OF settleCancellation_safe [OF assms(1)]]) (auto simp: ends_run_def assms split: sum.splits)

lemma pauseRun_then:
  assumes "\<not> rg_over g" "\<And>e s. Q (Inl e) s" "\<And>p s. rg_over s \<Longrightarrow> Q (Inr p) s"
  shows "safe (run_protocol C receipt) (pauseRun C') Q g"
  by (rule safe_mono [OF pauseRun_safe [OF assms(1)]]) (auto simp: ends_run_def assms split: sum.splits)

lemmas ends_then = settleRoot_then requestApproval_then settleCancellation_then pauseRun_then

lemma requeueNode_safe: "\<not> rg_over g \<Longrightarrow> safe (run_protocol C receipt) (requeueNode C' node R) (ends_or_goes_on g) g"
  by (auto simp: requeueNode_def Let_def intro!: emit_plain ends_then split: sum.split)

lemma recoverNodes_safe: "\<not> rg_over g \<Longrightarrow> safe (run_protocol C receipt) (recoverNodes C' events ns R) (ends_or_goes_on g) g"
proof (induction ns arbitrary: R)
  case (Cons n ns)
  have "case r of Inl e \<Rightarrow> ends_or_goes_on g (Inl e) s
      | Inr x \<Rightarrow> safe (run_protocol C receipt) (case x of Inl p \<Rightarrow> Return (Inl p) | Inr R \<Rightarrow> recoverNodes C' events ns R) (ends_or_goes_on g) s"
    if "ends_or_goes_on g r s" for r s using that Cons by (auto split: sum.split)
  then have "safe (run_protocol C receipt) (bindIO (requeueNode C' node R) (\<lambda>r. case r of Inl p \<Rightarrow> Return (Inl p) | Inr R \<Rightarrow> recoverNodes C' events ns R)) (ends_or_goes_on g) g"
    for node R unfolding safe_bind by (rule safe_mono [OF requeueNode_safe [OF Cons.prems]])
  then have "safe (run_protocol C receipt) (bindIO (recoverAttempts C' events node as R) (\<lambda>R. bindIO (requeueNode C' node R) (\<lambda>r. case r of Inl p \<Rightarrow> Return (Inl p) | Inr R \<Rightarrow> recoverNodes C' events ns R)))
      (ends_or_goes_on g) g" for node as R
    by (subst safe_bind) (rule recoverAttempts_safe [OF Cons.prems], simp del: safe_bind split: sum.split)
  then show ?case by (cases "planNode C' (ns_nodeId n)") (simp_all del: safe_bind add: liftIO_def)
qed simp

section \<open>Admission and rounds\<close>

text \<open>What \<open>execute\<close> owes when it returns, with or without fuel left.\<close>

definition run_post :: "run_projection option res \<Rightarrow> run_guard \<Rightarrow> bool" where
  "run_post r g \<longleftrightarrow> (case r of Inr (Some p) \<Rightarrow> rg_over g \<or> is_one_of TERMINAL_RUN_STATES (rp_status p) | _ \<Rightarrow> True)"

lemma run_post_simps [simp]: "run_post (Inl e) g" "run_post (Inr None) g" "rg_over g \<Longrightarrow> run_post r g"
  "is_one_of TERMINAL_RUN_STATES (rp_status p) \<Longrightarrow> run_post (Inr (Some p)) g"
  by (auto simp: run_post_def split: sum.split option.split)

abbreviation may_run :: "run_ctx \<Rightarrow> run_guard \<Rightarrow> bool" where
  "may_run C g \<equiv> \<not> rg_over g \<and> (planNeedsApproval (cx_plan C) = Inr True \<longrightarrow> rg_approved g)"

lemma scheduleLoop_safe: "may_run C g \<Longrightarrow> safe (run_protocol C receipt) (scheduleLoop C R fuel) run_post g"
proof (induction fuel arbitrary: g)
  case (Suc fuel)
  show ?case using Suc by (auto simp: polled_def roundEnd_def intro!: reads_safe ends_then split: sum.split round.split option.split)
qed simp

lemma startRun_safe:
  assumes "\<not> rg_over g" "\<And>r. Q r g"
  shows "safe (run_protocol C receipt) (startRun C' events p) Q g"
  using assms by (auto simp: startRun_def Let_def intro!: emit_plain split: sum.split)

lemma approveRun_safe:
  assumes "\<not> rg_over g" "\<And>e s. Q (Inl e) s" "\<And>p s. rg_over s \<Longrightarrow> Q (Inr (Inl p)) s" "\<And>s. may_run C s \<Longrightarrow> Q (Inr (Inr ())) s"
  shows "safe (run_protocol C receipt) (approveRun C receipt p) Q g"
  using assms by (auto simp: approveRun_def Let_def granting_def intro!: run_approval.verifyRun_grant emit_plain ends_then split: sum.split)

lemma admitRun_safe: "\<not> rg_over g \<Longrightarrow> safe (run_protocol C receipt) (admitRun C receipt fuel p R) run_post g"
  by (auto simp: admitRun_def polled_def intro!: approveRun_safe reads_safe ends_then startRun_safe scheduleLoop_safe split: sum.split)

lemma recoverRun_safe: "\<not> rg_over g \<Longrightarrow> safe (run_protocol C receipt) (recoverRun C receipt fuel events) run_post g"
  by (auto simp: recoverRun_def Let_def ends_or_goes_on_def intro!: refundUnadmitted_safe reads_safe safe_mono [OF recoverNodes_safe] admitRun_safe split: sum.splits)

lemma leasedRun_safe: "\<not> rg_over g \<Longrightarrow> safe (run_protocol C receipt) (leasedRun C inputDigest receipt fuel) run_post g"
  by (auto simp: leasedRun_def planRun_def Let_def intro!: emit_plain reads_safe ends_then recoverRun_safe split: sum.split)

end
