(* ===== verification/Run_Lease.thy ===== *)
theory Run_Lease
  imports Run_Execute Run_Node_Proofs
begin

text \<open>
  The writer lease of \<open>execute\<close>: every call that writes to the journal, moves the budget or runs a node is made while
  the lease is held, and the lease is given back on every path, whatever the calls answer.
\<close>

fun needs_lease :: "request \<Rightarrow> bool" where
  "needs_lease (JournalAppend e s d) = True"
| "needs_lease (WriteSnapshot r p s d) = True"
| "needs_lease (ReserveBudget r n a w) = True"
| "needs_lease (SettleBudget r c n a) = True"
| "needs_lease (RefundBudget r n a) = True"
| "needs_lease (RunNodes ns ps rs) = True"
| "needs_lease q = isStart q"

text \<open>The state is whether the lease is held. A release that fails gives it up as well.\<close>

fun lease_protocol :: "bool \<Rightarrow> called \<Rightarrow> bool option" where
  "lease_protocol held (Asked q a) =
     (if q = AcquireLease then (if held then None else Some (case a of Inl e \<Rightarrow> False | Inr v \<Rightarrow> True))
      else if q = ReleaseLease then (if held then Some False else None)
      else if needs_lease q \<and> \<not> held then None else Some held)"
| "lease_protocol held (DidRead es) = Some held"
| "lease_protocol held (SawFlags f) = Some held"

definition off_lease :: "request \<Rightarrow> bool" where
  "off_lease q \<longleftrightarrow> q \<noteq> AcquireLease \<and> q \<noteq> ReleaseLease \<and> \<not> needs_lease q"

interpretation lease_monitor: flag_monitor lease_protocol off_lease
  by unfold_locales (auto simp: off_lease_def)

definition under_lease :: "request \<Rightarrow> bool" where
  "under_lease q \<longleftrightarrow> q \<noteq> AcquireLease \<and> q \<noteq> ReleaseLease"

lemma under_lease_simps [simp]:
  "under_lease AssertLease" "under_lease EnsureLease" "under_lease (JournalAppend e s d)" "under_lease (WriteSnapshot r p s d)" "under_lease (NewId x)"
  "under_lease (ApprovalEvidence n t')" "under_lease (VerifyWith v n t')" "under_lease (SettleBudget i c n a)" "under_lease (RefundBudget i n a)"
  "under_lease PollCancel" "under_lease CancelReason" "under_lease (RunNodes ns ps rs)"
  by (simp_all add: under_lease_def)

lemma emit_calls: "calls under_lease (emitEvent C t V)"
  by (rule calls_of_only) (simp add: only_emit)

lemma projectRun_calls: "calls under_lease (projectRun C)"
  by (auto simp: projectRun_def intro!: calls_bind)

lemma snapshot_calls: "calls under_lease (snapshotNow C)" "calls under_lease (currentProjection C)"
  by (auto simp: snapshotNow_def currentProjection_def snapshotRun_def Let_def intro!: calls_bind projectRun_calls)

lemma settleRoot_calls: "calls under_lease (settleRoot C outcome d)"
  by (auto simp: settleRoot_def Let_def intro!: calls_bind emit_calls snapshot_calls)

lemma settleCancellation_calls: "calls under_lease (settleCancellation C p)"
  by (auto simp: settleCancellation_def intro!: calls_bind emit_calls settleRoot_calls)

lemma requestApproval_calls: "calls under_lease (requestApproval C v n t)"
  by (auto simp: requestApproval_def Let_def intro!: calls_bind emit_calls snapshot_calls)

lemma pauseRun_calls: "calls under_lease (pauseRun C)"
  by (auto simp: pauseRun_def intro!: calls_bind emit_calls snapshot_calls)

lemmas end_calls = settleRoot_calls settleCancellation_calls requestApproval_calls pauseRun_calls

lemma refundUnadmitted_calls: "calls under_lease (refundUnadmitted ids rs R)"
  by (induction ids rs R rule: refundUnadmitted.induct) (auto intro!: calls_bind)

lemma recoverAttempts_calls: "calls under_lease (recoverAttempts C events node as R)"
  by (induction as arbitrary: R) (auto simp: recoverAttempt_def recoverBatch_def recoveryTerminal_def Let_def intro!: calls_bind emit_calls split: option.split)

lemma requeueNode_calls: "calls under_lease (requeueNode C node R)"
  by (auto simp: requeueNode_def Let_def intro!: calls_bind emit_calls end_calls)

lemma recoverNodes_calls: "calls under_lease (recoverNodes C events ns R)"
  by (induction ns arbitrary: R) (auto intro!: calls_bind recoverAttempts_calls requeueNode_calls split: sum.split)

lemma verifyRun_calls: "calls under_lease (verifyRun C receipt node stage b)"
  by (auto simp: verifyRun_def intro!: calls_bind split: sum.split)

lemma approveRun_calls: "calls under_lease (approveRun C receipt p)"
  by (auto simp: approveRun_def Let_def intro!: calls_bind verifyRun_calls emit_calls end_calls)

lemma startRun_calls: "calls under_lease (startRun C events p)"
  by (auto simp: startRun_def Let_def intro!: calls_bind emit_calls)

lemma roundEnd_calls: "calls under_lease (roundEnd C ready results)"
  by (auto simp: roundEnd_def intro!: calls_bind end_calls split: option.split)

lemma scheduleLoop_calls: "calls under_lease (scheduleLoop C R fuel)"
  by (induction fuel) (auto simp: polled_def intro!: calls_bind snapshot_calls end_calls roundEnd_calls split: round.split option.split)

lemma admitRun_calls: "calls under_lease (admitRun C receipt fuel p R)"
  by (auto simp: admitRun_def polled_def intro!: calls_bind snapshot_calls projectRun_calls end_calls approveRun_calls startRun_calls scheduleLoop_calls split: sum.split)

lemma recoverRun_calls: "calls under_lease (recoverRun C receipt fuel events)"
  by (auto simp: recoverRun_def Let_def intro!: calls_bind refundUnadmitted_calls projectRun_calls recoverNodes_calls admitRun_calls split: sum.split)

lemma leasedRun_calls: "calls under_lease (leasedRun C h receipt fuel)"
  by (auto simp: leasedRun_def planRun_def Let_def intro!: calls_bind emit_calls projectRun_calls end_calls recoverRun_calls)

lemma releasing_safe:
  assumes "calls under_lease m" "\<And>r. Q r False"
  shows "safe lease_protocol (releasing m) Q True"
proof -
  have "safe lease_protocol m (\<lambda>r s. s) True"
    by (rule lease_monitor.safe_calls [OF assms(1)]) (auto simp: under_lease_def)
  then show ?thesis unfolding releasing_def using assms(2) by (auto intro: safe_mono)
qed

lemma executeRun_lease: "safe lease_protocol (executeRun C Q fuel) (\<lambda>r held. \<not> held) False"
  unfolding executeRun_def Let_def by (auto intro!: releasing_safe leasedRun_calls split: sum.split)

end
