(* ===== verification/Coordinator_Properties.thy ===== *)
theory Coordinator_Properties
  imports Run_Writer Run_Admission Run_Lease Json_Reader
begin

text \<open>
  The properties of the programs of the run coordinator. \<open>safe d m Q s\<close> says of every trace of \<open>m\<close> that the automaton \<open>d\<close>
  accepts it from state \<open>s\<close> and that \<open>Q\<close> holds of the result and the state it ends in (\<open>safe_replay\<close> in \<open>Run_Calls\<close>).
\<close>

section \<open>An example\<close>

definition agent_node :: "string \<Rightarrow> jsval" where
  "agent_node mutation = JObj [(''id'', JStr ''n''), (''kind'', JStr ''agent''), (''idempotency'', JStr ''content-addressed''), (''needs'', JArr []),
     (''policy'', JObj [(''mutation'', JStr mutation)]),
     (''budget'', JObj [(''maxAttempts'', jint 2), (''timeoutMs'', jint 9), (''maxOutputBytes'', jint 99), (''maxTokens'', JNull), (''maxCostUsd'', JNull)])]"

definition agent_services :: run_services where
  "agent_services = \<lparr> sv_evidence = True, sv_pathEnforcement = JStr ''ENFORCED'', sv_startAgent = True, sv_runAgent = False, sv_runBatch = False,
     sv_prepareBatch = False, sv_gates = False, sv_checkpoints = False, sv_loops = False, sv_artifacts = False \<rparr>"

definition agent_ctx :: run_ctx where
  "agent_ctx = \<lparr> cx_host = reference_host, cx_runId = JStr ''r'',
     cx_plan = JObj [(''id'', JStr ''p''), (''revision'', JObj [(''number'', jint 0)]), (''nodes'', JArr [agent_node ''none''])], cx_envelope = JObj [],
     cx_services = agent_services, cx_message = (\<lambda>e. ''''), cx_digestOf = (\<lambda>p. Inr '''') \<rparr>"

fun agent_call :: "request \<Rightarrow> jsval res" where
  "agent_call (NewId p) = Inr (JStr ''x'')"
| "agent_call (StartAgent n a u rs) = Inr (JObj [])"
| "agent_call (AwaitTerminal n a) = Inr (JObj [(''outcome'', JStr ''completed''), (''authoritative'', JBool True)])"
| "agent_call q = Inr JNull"

definition agent_answers :: answers where
  "agent_answers = \<lparr> an_call = agent_call, an_read = Inr [], an_flags = (False, False) \<rparr>"

lemma agent_limits: "own ''maxAttempts'' (own ''budget'' (agent_node m)) = jint 2" "nodeMutates (agent_node ''repository'') = Inr True"
  by (simp_all add: agent_node_def nodeMutates_def)

lemma agent_eval: "case answered agent_answers (runNode agent_ctx (agent_node ''none'') JNull 0 None) of
    (tr, Inr res) \<Rightarrow> nr_outcome res = JStr ''completed'' \<and> length (filter started tr) = 1 | _ \<Rightarrow> False"
  by code_simp

lemma agent_trace:
  obtains tr res where "replay (runNode agent_ctx (agent_node ''none'') JNull 0 None) tr = Some (Inr res)" "nr_outcome res = JStr ''completed''"
    "length (filter started tr) = 1"
proof -
  obtain tr r where a: "answered agent_answers (runNode agent_ctx (agent_node ''none'') JNull 0 None) = (tr, r)" by fastforce
  then show thesis using agent_eval replay_answered [OF a] that by (auto split: sum.splits)
qed

text \<open>The scan stops at a member that is \<open>undefined\<close>.\<close>

lemma scan_undefined: "fst (boundedScan P limit [(JObj ((j, JStr s) # (k, JUndef) # ps), 0)] 0 0) = Some OUTPUT_LIMIT"
proof -
  obtain amount where "own_bytes P (JObj ((j, JStr s) # (k, JUndef) # ps)) = Some amount" by (simp add: own_bytes_def)
  moreover have "children (JObj ((j, JStr s) # (k, JUndef) # ps)) 0 = (JStr s, 1) # (JUndef, 1) # map (\<lambda>(_, x). (x, 1)) ps" by (simp add: children_def)
  moreover have "fst (boundedScan P limit ((JStr s, 1) # (JUndef, 1) # stack) b n) = Some OUTPUT_LIMIT" for stack b n
    by (simp add: boundedScan.simps Let_def own_bytes_def children_def)
  ultimately show ?thesis by (subst boundedScan.simps(2)) (simp add: Let_def del: boundedScan.simps)
qed

lemma terminal_error:
  assumes "normalizeTerminal P v A = Inr t" "own ''terminal'' v = JUndef" "own ''receipt'' v = JUndef" "\<not> nullish v" "own ''error'' v = e" "\<not> nullish e"
  shows "\<exists>err. boundedOutputProjection P e 4096 = Inr err \<and> tm_error t = out_projection err"
proof -
  have v: "coalesce (own ''terminal'' v) (coalesce (own ''receipt'' v) v) = v" "coalesce (own ''error'' v) (coalesce (own ''error'' v) JNull) = e"
    using assms(2-6) by (simp_all add: coalesce_def)
  show ?thesis using assms(1) unfolding normalizeTerminal_def Let_def v rbind_eq_Inr by (elim exE conjE) (auto simp: rbind_eq_Inr failCoord_def split: if_splits)
qed

section \<open>Properties\<close>

text \<open>
  (C13) A node keeps the protocol it owes the ledger, the journal and the executors, whatever its calls answer and
  wherever it is cut off: no executor is called outside an attempt that holds a reservation and has been admitted in the
  journal, none is called twice in an attempt, every reservation is settled once, before the node is settled or tried again,
  and a node that returns has closed its entry in the journal, with proof for a success, or has
  stopped between two attempts.
\<close>

theorem node_keeps_protocol:
  assumes "own ''maxAttempts'' (own ''budget'' node) = jint m" "reusable = None \<or> nodeMutates node = Inr False"
  shows "safe node_protocol (runNode C node receipt historical reusable) (node_post node 0 (nat (m - historical)) reusable) (0, entry_phase reusable)"
  by (rule runNode_safe [OF assms])

theorem node_keeps_protocol_witness:
  "safe node_protocol (runNode agent_ctx (agent_node ''none'') JNull 0 None) (node_post (agent_node ''none'') 0 2 None) (0, Waiting)"
  using node_keeps_protocol [of "agent_node ''none''" 2 None agent_ctx JNull 0] by (simp add: agent_limits)

text \<open>
  (C17) The executor of a node is called at most once for each attempt the plan leaves it after those
  made before, and at most once altogether when the node is not safe to repeat.
\<close>

theorem node_starts_bounded:
  assumes "replay (runNode C node receipt historical None) trace = Some r" "own ''maxAttempts'' (own ''budget'' node) = jint m"
  shows "length (filter started trace) \<le> nat (m - historical)
     \<and> (own ''idempotency'' node = JStr ''none'' \<longrightarrow> length (filter started trace) \<le> 1)"
proof -
  obtain s where s: "watch node_protocol (0, Waiting) trace = Some s" "node_post node 0 (nat (m - historical)) None r s"
    using safe_replay [OF runNode_safe [OF assms(2)] assms(1)] by auto
  show ?thesis using starts_counted [OF s(1)] s(2) by (auto simp: node_post_def split: if_splits)
qed

theorem node_starts_bounded_witness:
  "\<exists>tr r. replay (runNode agent_ctx (agent_node ''none'') JNull 0 None) tr = Some r \<and> length (filter started tr) = 1 \<and> length (filter started tr) \<le> 2"
proof -
  obtain tr res where t: "replay (runNode agent_ctx (agent_node ''none'') JNull 0 None) tr = Some (Inr res)" "length (filter started tr) = 1" by (rule agent_trace)
  show ?thesis using node_starts_bounded [OF t(1) agent_limits(1)] t by auto
qed

text \<open>
  (C18) A node is only reported as successful with an authoritative terminal of that outcome, and after the journal has
  acknowledged the event that settles it.
\<close>

theorem success_is_proven_and_recorded:
  assumes "replay (runNode C node receipt historical None) trace = Some (Inr res)" "own ''maxAttempts'' (own ''budget'' node) = jint m"
    and "is_one_of SUCCESS_NODE_OUTCOMES (nr_outcome res)"
  shows "(\<exists>t. nr_terminal res = Some t \<and> tm_authoritative t \<and> tm_outcome t = nr_outcome res)
     \<and> (\<exists>e x y v. Asked (JournalAppend e x y) (Inr v) \<in> set trace \<and> own ''type'' e = JStr ''NodeSettled'')"
proof -
  obtain s where s: "watch node_protocol (0, Waiting) trace = Some s" "node_post node 0 (nat (m - historical)) None (Inr res) s"
    using safe_replay [OF runNode_safe [OF assms(2)] assms(1)] by auto
  have "snd s = Closed \<and> proven_result res"
    using s(2) assms(3) by (auto simp: node_post_def SUCCESS_NODE_OUTCOMES_def is_one_of_def)
  then show ?thesis using closed_was_settled [OF s(1)] assms(3) by (simp add: proven_result_def)
qed

theorem success_is_proven_and_recorded_witness:
  "\<exists>tr res t. replay (runNode agent_ctx (agent_node ''none'') JNull 0 None) tr = Some (Inr res) \<and> nr_outcome res = JStr ''completed''
     \<and> nr_terminal res = Some t \<and> tm_authoritative t"
proof -
  obtain tr res where t: "replay (runNode agent_ctx (agent_node ''none'') JNull 0 None) tr = Some (Inr res)" "nr_outcome res = JStr ''completed''"
    by (rule agent_trace)
  then have "is_one_of SUCCESS_NODE_OUTCOMES (nr_outcome res)" by (simp add: SUCCESS_NODE_OUTCOMES_def is_one_of_def)
  then show ?thesis using success_is_proven_and_recorded [OF t(1) agent_limits(1)] t by blast
qed

text \<open>
  (C15) An executor of a node that mutates is only called with the authorization of a verdict that was reached for this
  node and this receipt, in this attempt, from approval evidence of the moment, and only where the executor enforces
  the paths of a writer.
\<close>

theorem writer_needs_grant:
  assumes "nodeMutates node = Inr True"
  shows "safe (writer_protocol C node receipt) (runNode C node receipt historical None) (\<lambda>r s. True) None"
  by (rule runNode_grant [OF assms])

theorem writer_needs_grant_witness:
  "safe (writer_protocol agent_ctx (agent_node ''repository'') JNull) (runNode agent_ctx (agent_node ''repository'') JNull 0 None) (\<lambda>r s. True) None"
  by (rule writer_needs_grant [OF agent_limits(2)])

text \<open>
  (C14) A run keeps its protocol, whatever the journal, the approval evidence and the nodes answer and however
  often it is cancelled or paused: nodes are run only after a look at the flags that saw neither cancel nor pause and, in
  a plan that needs one, after an approval given in this execution; no event, no budget operation and
  no node follows the end of the run, its pause or its request for an approval; and it returns only after one
  of these is in the journal, or because the journal had ended the run before.
\<close>

theorem run_keeps_protocol:
  "safe (run_protocol C receipt) (leasedRun C inputDigest receipt fuel) run_post \<lparr> rg_approved = False, rg_clear = False, rg_over = False \<rparr>"
  by (rule leasedRun_safe) simp


text \<open>
  (C19) The error of an attempt that throws is lost: its \<open>reason\<close> is \<open>undefined\<close> unless the node timed
  out, the output scan takes that for an output beyond the limit, and the terminal, the events and the report of the run
  carry \<open>OUTPUT_LIMIT_EXCEEDED\<close> in place of the code of the error.
\<close>

theorem thrown_error_code_lost:
  assumes "failedTerminal C node attemptId cancelled cause = Inr t" "errorCode cause \<noteq> JStr ''NODE_TIMEOUT''"
  shows "errorCodeOf t = JStr ''OUTPUT_LIMIT_EXCEEDED''"
proof -
  let ?e = "thrownError C cause"
  obtain code where e: "?e = JObj [(''code'', JStr code), (''reason'', JUndef), (''message'', JStr (cx_message C cause))]"
    using assms(2) by (cases cause) (auto simp: thrownError_def)
  have "fst (boundedScan (cx_host C) 4096 [(?e, 0)] 0 0) = Some OUTPUT_LIMIT" unfolding e by (rule scan_undefined)
  then obtain bytes nodes where scan: "boundedScan (cx_host C) 4096 [(?e, 0)] 0 0 = (Some OUTPUT_LIMIT, bytes, nodes)" by (metis prod.exhaust_sel)
  obtain v where v: "normalizeTerminal (cx_host C) (JObj [(''outcome'', v), (''authoritative'', JBool False), (''error'', ?e)]) (terminalOptions C node attemptId ''failed'') = Inr t"
    using assms by (auto simp: failedTerminal_def Let_def rbind_eq_Inr)
  obtain err where "boundedOutputProjection (cx_host C) ?e 4096 = Inr err" "tm_error t = out_projection err"
    using terminal_error [OF v, of ?e] by (auto simp: thrownError_def Let_def)
  then show ?thesis using scan by (auto simp: boundedOutputProjection_def Let_def rbind_eq_Inr errorCodeOf_def OUTPUT_LIMIT_def)
qed

theorem thrown_error_code_lost_witness:
  "\<exists>t. failedTerminal agent_ctx (agent_node ''none'') (JStr ''a'') False (Thrown ''Error'' ''ENOENT'') = Inr t \<and> errorCodeOf t = JStr ''OUTPUT_LIMIT_EXCEEDED''"
proof -
  have "case failedTerminal agent_ctx (agent_node ''none'') (JStr ''a'') False (Thrown ''Error'' ''ENOENT'') of Inl e \<Rightarrow> False | Inr t \<Rightarrow> True" by code_simp
  then obtain t where t: "failedTerminal agent_ctx (agent_node ''none'') (JStr ''a'') False (Thrown ''Error'' ''ENOENT'') = Inr t" by (auto split: sum.splits)
  then show ?thesis using thrown_error_code_lost [OF t] by simp
qed

end
