(* ===== verification/Batch_Items.thy ===== *)
theory Batch_Items
  imports Batch_Definition Domain_Assignment Run_Terminal
begin

text \<open>
  The items of a batch, \<open>packages/subagents/batch-swarm/index.mjs\<close> (lines 150 to 256): what binds a
  definition to its agent and its prompt template, and the items and their prompts.
\<close>

section \<open>Bindings\<close>

definition capabilityState :: "jsval \<Rightarrow> string \<Rightarrow> jsval" where
  "capabilityState matrix name' = coalesce (own ''state'' (own name' (own ''capabilities'' matrix))) (JStr ''UNAVAILABLE'')"

definition assertCapabilityEnvelope :: "jsval \<Rightarrow> jsval \<Rightarrow> unit res" where
  "assertCapabilityEnvelope d matrix =
     (if capabilityState matrix ''perItemResult'' = JStr ''UNAVAILABLE'' then failBatch ''PER_ITEM_RESULT_UNAVAILABLE'' else
      if truthy (own ''adaptiveRateLimit'' (own ''concurrency'' d))
         \<and> (capabilityState matrix ''rateLimitSignal'' \<noteq> JStr ''SUPPORTED'' \<or> capabilityState matrix ''dynamicConcurrency'' \<noteq> JStr ''SUPPORTED'')
      then failBatch ''ADAPTIVE_CAPACITY_UNAVAILABLE'' else Inr ())"

definition outputValue :: "jsval \<Rightarrow> jsval" where
  "outputValue output' = coalesce (own ''value'' output') (coalesce (own ''schema'' output') (own ''ref'' output'))"

definition assertAgentBinding :: "platform \<Rightarrow> jsval \<Rightarrow> jsval \<Rightarrow> unit res" where
  "assertAgentBinding P d spec =
     (if own ''kind'' spec \<noteq> JStr ''resolved-agent-spec'' \<or> \<not> js_eq (own ''formatVersion'' spec) (jint 1) then failBatch ''BATCH_AGENT_SPEC_INVALID'' else
      rbind (if \<not> isStr (own ''specHash'' spec) then failBatch ''BATCH_AGENT_SPEC_TAMPERED'' else sha256 P (odelete ''specHash'' spec)) (\<lambda>h.
      if JStr h \<noteq> own ''specHash'' spec then failBatch ''BATCH_AGENT_SPEC_TAMPERED'' else
      rbind (sha256 P (own ''effectivePolicy'' spec)) (\<lambda>h.
      if JStr h \<noteq> own ''effectivePolicyHash'' spec then failBatch ''BATCH_AGENT_SPEC_TAMPERED'' else
      let output' = own ''outputSchema'' spec in
      rbind (if outputValue output' = JUndef then failBatch ''BATCH_AGENT_SPEC_TAMPERED'' else sha256 P (outputValue output')) (\<lambda>h.
      if JStr h \<noteq> own ''hash'' output' then failBatch ''BATCH_AGENT_SPEC_TAMPERED'' else
      if \<not> js_eq (own ''id'' spec) (own ''agentSpecRef'' d) \<or> \<not> js_eq (own ''specHash'' spec) (own ''agentSpecHash'' d) then failBatch ''BATCH_AGENT_SPEC_HASH_MISMATCH'' else
      if \<not> js_eq (own ''effectivePolicyHash'' spec) (own ''policyHash'' d) then failBatch ''BATCH_POLICY_HASH_MISMATCH'' else
      if \<not> js_eq (own ''hash'' output') (own ''outputSchemaHash'' d) then failBatch ''BATCH_OUTPUT_SCHEMA_HASH_MISMATCH'' else
      if truthy (own ''writer'' spec) \<or> own ''mutation'' (own ''effectivePolicy'' spec) \<noteq> JStr ''none''
         \<or> \<not> is_one_of [''none'', ''shared-read-only''] (own ''workspace'' (own ''effectivePolicy'' spec))
      then failBatch ''BATCH_WRITER_UNAVAILABLE'' else Inr ()))))"

text \<open>
  The text of a template read with \<open>TEMPLATE_TOKEN\<close>, \<open>{{name}}\<close>: the first match from the left is
  taken and the search goes on behind it.
\<close>

datatype piece = Literal char | Token string

definition alnum :: "char \<Rightarrow> bool" where
  "alnum c \<longleftrightarrow> is_alpha c \<or> is_digit c"

definition token_at :: "string \<Rightarrow> (string \<times> string) option" where
  "token_at s = (if take 2 s \<noteq> ''{{'' then None else
     let name' = takeWhile alnum (drop 2 s); rest = dropWhile alnum (drop 2 s) in
     if name' = [] \<or> \<not> is_alpha (hd name') \<or> take 2 rest \<noteq> ''}}'' then None else Some (name', drop 2 rest))"

lemma token_at_shorter: "token_at s = Some (name', rest) \<Longrightarrow> length rest < length s"
  using length_dropWhile_le [of alnum "drop 2 s"]
  by (cases s) (auto simp: token_at_def Let_def split: if_splits)

function template_pieces :: "string \<Rightarrow> piece list" where
  "template_pieces [] = []"
| "template_pieces (c # cs) = (case token_at (c # cs) of
     Some (name', rest) \<Rightarrow> Token name' # template_pieces rest
   | None \<Rightarrow> Literal c # template_pieces cs)"
  by pat_completeness auto

termination
  by (relation "measure length") (auto dest: token_at_shorter)

definition template_tokens :: "string \<Rightarrow> string list" where
  "template_tokens s = concat (map (\<lambda>p. case p of Token t \<Rightarrow> [t] | Literal _ \<Rightarrow> []) (template_pieces s))"

definition ALLOWED_TEMPLATE_TOKENS :: "string list" where
  "ALLOWED_TEMPLATE_TOKENS = [''batchId'', ''index'', ''item'', ''itemId'']"

definition assertTemplateBinding :: "platform \<Rightarrow> jsval \<Rightarrow> jsval \<Rightarrow> string res" where
  "assertTemplateBinding P d template = (case template of
     JStr s \<Rightarrow>
       (if length s < 1 \<or> length s > 131072 \<or> CHR 0x00 \<in> set s then failBatch ''BATCH_PROMPT_TEMPLATE_INVALID'' else
        if JStr (sha256_text P s) \<noteq> own ''promptTemplateHash'' d then failBatch ''BATCH_PROMPT_TEMPLATE_HASH_MISMATCH'' else
        if \<not> list_all (\<lambda>t. t \<in> set ALLOWED_TEMPLATE_TOKENS) (template_tokens s) then failBatch ''BATCH_PROMPT_TEMPLATE_INVALID'' else
        if ''item'' \<notin> set (template_tokens s) then failBatch ''BATCH_PROMPT_TEMPLATE_INVALID'' else Inr s)
   | _ \<Rightarrow> failBatch ''BATCH_PROMPT_TEMPLATE_INVALID'')"

definition assertBatchSwarmResources :: "platform \<Rightarrow> jsval \<Rightarrow> jsval \<Rightarrow> jsval \<Rightarrow> jsval res" where
  "assertBatchSwarmResources P d spec template =
     rbind (assertBatchSwarmDefinition P d) (\<lambda>normalized.
     rbind (assertAgentBinding P normalized spec) (\<lambda>_.
     rbind (assertTemplateBinding P normalized template) (\<lambda>text'.
     rbind (digestBatchSwarmDefinition P normalized) (\<lambda>h.
     Inr (JObj [(''definition'', normalized), (''definitionDigest'', JStr h), (''agentSpec'', spec), (''promptTemplate'', JStr text')])))))"

section \<open>Items\<close>

record prepared_item =
  pi_index :: nat
  pi_itemId :: string
  pi_item :: jsval
  pi_itemDigest :: string

definition HETEROGENEOUS_ITEM_KEYS :: "string list" where
  "HETEROGENEOUS_ITEM_KEYS = [''agentSpec'', ''agentSpecHash'', ''agentSpecRef'', ''outputSchemaHash'', ''outputSchemaRef'',
     ''policy'', ''policyHash'', ''promptTemplateHash'', ''promptTemplateRef'']"

definition batchCanonicalId :: "jsval \<Rightarrow> string res" where
  "batchCanonicalId v = (case v of JStr s \<Rightarrow> (if BATCH_ID s then Inr s else failBatch ''INVALID_BATCH_ID'') | _ \<Rightarrow> failBatch ''INVALID_BATCH_ID'')"

text \<open>\<open>String(index).padStart(3, "0")\<close>.\<close>

definition padded :: "nat \<Rightarrow> string" where
  "padded index = (let t = digits10 index in replicate (3 - length t) (CHR ''0'') @ t)"

definition batchItemId :: "platform \<Rightarrow> jsval \<Rightarrow> nat \<Rightarrow> string res" where
  "batchItemId P item index = (let explicit = (if isObj item then own ''itemId'' item else JUndef) in
     if explicit \<noteq> JUndef then batchCanonicalId explicit else
     rbind (sha256 P item) (\<lambda>h. Inr (''item-'' @ padded index @ ''-'' @ take 12 (drop 7 h))))"

definition assertNoHeterogeneousOverride :: "jsval \<Rightarrow> unit res" where
  "assertNoHeterogeneousOverride item =
     (if isObj item \<and> list_ex (\<lambda>key. key \<in> set HETEROGENEOUS_ITEM_KEYS) (keys item) then failBatch ''BATCH_HETEROGENEOUS_ITEM_OVERRIDE'' else Inr ())"

definition defaultResolveItems :: "jsval \<Rightarrow> jsval \<Rightarrow> jsval res" where
  "defaultResolveItems d input = (case own ''itemsFrom'' d of
     JStr s \<Rightarrow> (let key = drop 11 s; artifacts = own ''artifacts'' input in
       if \<not> isObj artifacts \<or> \<not> hasOwn artifacts key then failBatch ''BATCH_ITEMS_UNAVAILABLE'' else Inr (own key artifacts))
   | _ \<Rightarrow> Inl TypeError)"

definition normalizeItem :: "platform \<Rightarrow> prepared_item list \<Rightarrow> jsval \<Rightarrow> prepared_item list res" where
  "normalizeItem P done candidate =
     rbind (assertPlainJson candidate) (\<lambda>item.
     rbind (assertNoHeterogeneousOverride item) (\<lambda>_.
     rbind (batchItemId P item (length done)) (\<lambda>i.
     if i \<in> set (map pi_itemId done) then failBatch ''BATCH_ITEM_ID_DUPLICATE'' else
     rbind (sha256 P item) (\<lambda>h.
     Inr (done @ [\<lparr> pi_index = length done, pi_itemId = i, pi_item = item, pi_itemDigest = h \<rparr>])))))"

definition normalizeItems :: "platform \<Rightarrow> jsval \<Rightarrow> jsval \<Rightarrow> prepared_item list res" where
  "normalizeItems P d raw = (case raw of
     JArr xs \<Rightarrow> (if js_less P (own ''maxItems'' d) (jnat (length xs)) then failBatch ''BATCH_ITEMS_EXCEEDED'' else foldR (normalizeItem P) [] xs)
   | _ \<Rightarrow> failBatch ''BATCH_ITEMS_INVALID'')"

definition render_piece :: "(string \<times> string) list \<Rightarrow> piece \<Rightarrow> string" where
  "render_piece replacements p = (case p of Literal c \<Rightarrow> [c]
     | Token t \<Rightarrow> (case map_of replacements t of Some s \<Rightarrow> s | None \<Rightarrow> ''undefined''))"

definition renderPrompt :: "platform \<Rightarrow> string \<Rightarrow> string \<Rightarrow> prepared_item \<Rightarrow> string res" where
  "renderPrompt P template batchId item =
     rbind (canonicalJson P (pi_item item)) (\<lambda>text'.
     let replacements = [(''batchId'', batchId), (''index'', digits10 (pi_index item)), (''item'', text'), (''itemId'', pi_itemId item)];
         rendered = concat (map (render_piece replacements) (template_pieces template)) in
     if length rendered > 131072 then failBatch ''BATCH_PROMPT_TOO_LARGE'' else Inr rendered)"

end
