(* ===== verification/Batch_Slots.thy ===== *)
theory Batch_Slots
  imports Batch_Items
begin

text \<open>
  The slots of a batch: what \<open>projectBatchSwarmEvents\<close> rebuilds from a journal, what is kept of the
  result of an item (\<open>normalizeItemTerminal\<close>), and the usage of the runs before. The fields of a
  slot are those of the JavaScript object.
\<close>

record slot =
  sl_index :: nat
  sl_itemId :: string
  sl_itemDigest :: string
  sl_status :: string
  sl_attempts :: jsnum
  sl_assignmentId :: jsval
  sl_assignmentHash :: jsval
  sl_handleId :: jsval
  sl_receiptId :: jsval
  sl_authoritative :: jsval
  sl_result :: jsval
  sl_error :: jsval
  sl_usage :: jsval

definition ITEM_TERMINAL_STATUSES :: "string list" where
  "ITEM_TERMINAL_STATUSES = [''succeeded'', ''failed'', ''cancelled'', ''skipped'', ''budget-exhausted'']"

definition newItemSlot :: "prepared_item \<Rightarrow> slot" where
  "newItemSlot item = \<lparr> sl_index = pi_index item, sl_itemId = pi_itemId item, sl_itemDigest = pi_itemDigest item, sl_status = ''queued'',
     sl_attempts = Fin 0, sl_assignmentId = JNull, sl_assignmentHash = JNull, sl_handleId = JNull, sl_receiptId = JNull,
     sl_authoritative = JNull, sl_result = JNull, sl_error = JNull, sl_usage = JNull \<rparr>"

section \<open>Slots from a journal\<close>

text \<open>What a journal is read against: the batch and its items.\<close>

record batch_key =
  bk_batchId :: string
  bk_batchDigest :: string

definition eventPayload :: "jsval \<Rightarrow> jsval" where
  "eventPayload event = coalesce (own ''payload'' event) (JObj [])"

definition eventMatchesPrepared :: "batch_key \<Rightarrow> jsval \<Rightarrow> bool" where
  "eventMatchesPrepared key event \<longleftrightarrow> (case own ''type'' event of JStr t \<Rightarrow> prefix ''Batch'' t | _ \<Rightarrow> False)
     \<and> own ''batchId'' (eventPayload event) = JStr (bk_batchId key) \<and> own ''batchDigest'' (eventPayload event) = JStr (bk_batchDigest key)"

record batch_projection =
  bp_status :: jsval
  bp_items :: "slot list"
  bp_capacityChanges :: "jsval list"

definition countAttempt :: "platform \<Rightarrow> jsval \<Rightarrow> slot \<Rightarrow> slot" where
  "countAttempt P payload s = s\<lparr> sl_attempts := num_max (sl_attempts s) (js_number P (coalesce (own ''itemAttempt'' payload) (jint 0))) \<rparr>"

definition slotStarted :: "platform \<Rightarrow> jsval \<Rightarrow> slot \<Rightarrow> slot" where
  "slotStarted P payload s = (countAttempt P payload s)\<lparr> sl_status := ''running'', sl_assignmentId := own ''assignmentId'' payload,
     sl_assignmentHash := own ''assignmentHash'' payload, sl_handleId := coalesce (own ''handleId'' payload) JNull \<rparr>"

definition slotTerminal :: "platform \<Rightarrow> string \<Rightarrow> jsval \<Rightarrow> slot \<Rightarrow> slot" where
  "slotTerminal P status payload s = (countAttempt P payload s)\<lparr> sl_status := status,
     sl_assignmentId := coalesce (own ''assignmentId'' payload) (sl_assignmentId s),
     sl_assignmentHash := coalesce (own ''assignmentHash'' payload) (sl_assignmentHash s),
     sl_handleId := coalesce (own ''handleId'' payload) (sl_handleId s), sl_receiptId := coalesce (own ''receiptId'' payload) JNull,
     sl_authoritative := JBool (own ''authoritative'' payload = JBool True), sl_result := coalesce (own ''result'' payload) JNull,
     sl_error := coalesce (own ''error'' payload) JNull, sl_usage := coalesce (own ''usage'' payload) JNull \<rparr>"

definition slotEvent :: "platform \<Rightarrow> jsval \<Rightarrow> jsval \<Rightarrow> slot \<Rightarrow> slot res" where
  "slotEvent P type' payload s =
     (if type' = JStr ''BatchItemQueued'' then Inr ((countAttempt P payload s)\<lparr> sl_status := ''queued'' \<rparr>) else
      if type' = JStr ''BatchItemStarted'' then Inr (slotStarted P payload s) else
      if type' = JStr ''BatchItemTerminal'' then
        (case own ''status'' payload of
           JStr status \<Rightarrow> (if status \<in> set ITEM_TERMINAL_STATUSES then Inr (slotTerminal P status payload s) else failBatch ''BATCH_EVENT_CORRELATION_MISMATCH'')
         | _ \<Rightarrow> failBatch ''BATCH_EVENT_CORRELATION_MISMATCH'')
      else Inr s)"

fun slot_index :: "jsval \<Rightarrow> int option" where
  "slot_index (JNum (Fin a)) = (if isSafeInteger (JNum (Fin a)) then Some \<lfloor>a\<rfloor> else None)"
| "slot_index _ = None"

definition projectBatchEvent :: "platform \<Rightarrow> batch_key \<Rightarrow> batch_projection \<Rightarrow> jsval \<Rightarrow> batch_projection res" where
  "projectBatchEvent P key state event =
     (if \<not> eventMatchesPrepared key event then Inr state else
      let payload = eventPayload event; type' = own ''type'' event in
      if type' = JStr ''BatchSettled'' then Inr (state\<lparr> bp_status := own ''status'' payload \<rparr>) else
      if type' = JStr ''BatchStarted'' then Inr state else
      if type' = JStr ''BatchCapacityChanged'' then Inr (state\<lparr> bp_capacityChanges := bp_capacityChanges state @ [payload] \<rparr>) else
      case slot_index (own ''index'' payload) of None \<Rightarrow> failBatch ''BATCH_EVENT_CORRELATION_MISMATCH'' | Some i \<Rightarrow>
      if i < 0 \<or> i \<ge> int (length (bp_items state)) then failBatch ''BATCH_EVENT_CORRELATION_MISMATCH'' else
      let s = bp_items state ! nat i in
      if JStr (sl_itemId s) \<noteq> own ''itemId'' payload \<or> JStr (sl_itemDigest s) \<noteq> own ''itemDigest'' payload then failBatch ''BATCH_EVENT_CORRELATION_MISMATCH'' else
      rbind (slotEvent P type' payload s) (\<lambda>s'. Inr (state\<lparr> bp_items := (bp_items state)[nat i := s'] \<rparr>)))"

definition newProjection :: "prepared_item list \<Rightarrow> batch_projection" where
  "newProjection xs = \<lparr> bp_status = JStr (if xs = [] then ''completed'' else ''running''), bp_items = map newItemSlot xs, bp_capacityChanges = [] \<rparr>"

definition projectBatchSwarmEvents :: "platform \<Rightarrow> jsval list \<Rightarrow> batch_key \<Rightarrow> prepared_item list \<Rightarrow> batch_projection res" where
  "projectBatchSwarmEvents P events key xs = foldR (projectBatchEvent P key) (newProjection xs) events"

section \<open>Results of items\<close>

text \<open>
  The loop of \<open>boundedValue\<close>: whether it failed, the bytes and the nodes counted. It differs from
  the loop of the run coordinator in its limits and in where it compares the bytes with the limit.
\<close>

function valueScan :: "platform \<Rightarrow> int \<Rightarrow> frame list \<Rightarrow> int \<Rightarrow> int \<Rightarrow> bool \<times> int \<times> int" where
  "valueScan P limit [] bytes nodes = (False, bytes, nodes)"
| "valueScan P limit ((candidate, depth) # stack) bytes nodes =
     (let nodes' = nodes + 1 in
      if nodes' > 4096 \<or> depth > 32 then (True, bytes, nodes') else
      case own_bytes P candidate of
        None \<Rightarrow> (True, bytes, nodes')
      | Some amount \<Rightarrow>
          if (case candidate of JStr s \<Rightarrow> int (utf8_length s) > limit - bytes | _ \<Rightarrow> False) then (True, limit + 1, nodes') else
          if (isArr candidate \<or> isObj candidate) \<and> bytes + amount > limit then (True, bytes + amount, nodes') else
          valueScan P limit (children candidate depth @ stack) (bytes + amount) nodes')"
  by pat_completeness auto

termination
  by (relation "measure (\<lambda>(P, limit, stack, bytes, nodes). nat (4097 - nodes))") (auto simp: Let_def)

record bounded_value =
  bv_projection :: jsval
  bv_bytes :: int
  bv_digest :: string
  bv_truncated :: bool

definition boundedValue :: "platform \<Rightarrow> jsval \<Rightarrow> int \<Rightarrow> bounded_value res" where
  "boundedValue P v maximumBytes = (case valueScan P maximumBytes [(v, 0)] 0 0 of (failed, bytes, nodes) \<Rightarrow>
     if failed \<or> bytes > maximumBytes then
       let observed = max bytes (maximumBytes + 1) in
       rbind (sha256 P (JObj [(''code'', JStr ''OUTPUT_LIMIT_EXCEEDED''), (''bytes'', jint observed), (''nodes'', jint nodes)])) (\<lambda>h.
       Inr \<lparr> bv_projection = JObj [(''truncated'', JBool True), (''code'', JStr ''OUTPUT_LIMIT_EXCEEDED''), (''observedBytes'', jint observed)],
             bv_bytes = observed, bv_digest = h, bv_truncated = True \<rparr>)
     else
       rbind (assertPlainJson v) (\<lambda>projection.
       rbind (sha256 P projection) (\<lambda>h.
       Inr \<lparr> bv_projection = projection, bv_bytes = bytes, bv_digest = h, bv_truncated = False \<rparr>)))"

record item_usage =
  iu_elapsedMs :: jsnum
  iu_rawOutputBytes :: jsnum
  iu_tokens :: jsnum
  iu_costUsd :: jsnum

text \<open>\<open>Math.trunc\<close> of a number that is not negative.\<close>

fun num_trunc :: "jsnum \<Rightarrow> jsnum" where
  "num_trunc (Fin a) = num_of_int \<lfloor>a\<rfloor>"
| "num_trunc n = n"

definition usable :: "jsval \<Rightarrow> jsnum \<Rightarrow> jsnum" where
  "usable v d = (case v of JNum n \<Rightarrow> if num_isFinite n \<and> num_le (Fin 0) n then n else d | _ \<Rightarrow> d)"

definition readUsage :: "jsval \<Rightarrow> string \<Rightarrow> jsnum \<Rightarrow> jsnum" where
  "readUsage usage field fallback = usable (own field usage) (usable (JNum fallback) (Fin 0))"

definition batchNormalizeUsage :: "jsval \<Rightarrow> item_usage" where
  "batchNormalizeUsage v = (let usage = (if isObj v then v else JObj []); read = (\<lambda>field. readUsage usage field (Fin 0)) in
     \<lparr> iu_elapsedMs = num_trunc (readUsage usage ''elapsedMs'' (read ''durationMs'')), iu_rawOutputBytes = num_trunc (read ''rawOutputBytes''),
       iu_tokens = num_trunc (readUsage usage ''tokens'' (read ''total'')), iu_costUsd = readUsage usage ''costUsd'' (read ''cost'') \<rparr>)"

definition usage_value :: "item_usage \<Rightarrow> jsval" where
  "usage_value u = JObj [(''elapsedMs'', JNum (iu_elapsedMs u)), (''rawOutputBytes'', JNum (iu_rawOutputBytes u)), (''tokens'', JNum (iu_tokens u)), (''costUsd'', JNum (iu_costUsd u))]"

record item_terminal =
  im_outcome :: string
  im_authoritative :: bool
  im_receiptId :: string
  im_result :: jsval
  im_error :: jsval
  im_usage :: item_usage
  im_handleId :: jsval
  im_retryable :: bool
  im_rateLimited :: bool
  im_retryAfterMs :: jsnum

definition ITEM_OUTCOMES :: "string list" where
  "ITEM_OUTCOMES = [''completed'', ''failed'', ''cancelled'', ''interrupted'', ''orphaned'', ''timed-out'', ''budget-exhausted'', ''unavailable'']"

definition RETRYABLE_CODES :: "string list" where
  "RETRYABLE_CODES = [''429'', ''BACKEND_BUSY'', ''RATE_LIMITED'', ''TEMPORARY_UNAVAILABLE'', ''TRANSIENT_BACKEND_ERROR'']"

definition normalizeItemTerminal :: "platform \<Rightarrow> jsval \<Rightarrow> int \<Rightarrow> item_terminal res" where
  "normalizeItemTerminal P v maximumBytes =
     (let terminal = coalesce (own ''terminal'' v) (coalesce (own ''receipt'' v) (coalesce v (JObj [])));
          outcome = coalesce (own ''outcome'' terminal) (JStr ''failed'');
          normalizedOutcome = (if is_one_of ITEM_OUTCOMES outcome then js_string P outcome else ''failed'');
          err = own ''error'' terminal; code = js_string P (coalesce (own ''code'' err) (JStr ''''));
          authoritative = (own ''authoritative'' terminal = JBool True) in
      rbind (boundedValue P (coalesce (own ''result'' terminal) (coalesce (own ''data'' terminal) JNull)) maximumBytes) (\<lambda>result.
      rbind (boundedValue P (coalesce err JNull) (min 4096 maximumBytes)) (\<lambda>error'.
      let reported = batchNormalizeUsage (coalesce (own ''usage'' terminal) (coalesce (own ''usage'' (own ''completion'' terminal)) (own ''usage'' v)));
          handleId = coalesce (own ''handleId'' (own ''handle'' v)) (coalesce (own ''handleId'' (own ''handle'' terminal)) JNull) in
      rbind (if text_matches SHA256 (own ''receiptId'' terminal) then Inr (js_string P (own ''receiptId'' terminal))
         else sha256 P (JObj [(''outcome'', JStr normalizedOutcome), (''authoritative'', JBool authoritative),
           (''resultDigest'', JStr (bv_digest result)), (''errorDigest'', JStr (bv_digest error'))])) (\<lambda>receiptId.
      Inr \<lparr> im_outcome = normalizedOutcome, im_authoritative = authoritative, im_receiptId = receiptId,
            im_result = bv_projection result, im_error = bv_projection error',
            im_usage = reported\<lparr> iu_rawOutputBytes := num_of_int (bv_bytes result) \<rparr>,
            im_handleId = (case handleId of JStr s \<Rightarrow> JStr (take 512 s) | _ \<Rightarrow> JNull),
            im_retryable = (own ''retryable'' err = JBool True \<or> code \<in> set RETRYABLE_CODES),
            im_rateLimited = (code \<in> {''429'', ''RATE_LIMITED''}),
            im_retryAfterMs = (case own ''retryAfterMs'' err of JNum n \<Rightarrow> if num_isSafeInteger n \<and> num_le (Fin 0) n then n else Fin 0 | _ \<Rightarrow> Fin 0) \<rparr>))))"

definition itemStatus :: "item_terminal \<Rightarrow> string" where
  "itemStatus terminal = (if im_outcome terminal = ''completed'' then ''succeeded'' else if im_outcome terminal = ''cancelled'' then ''cancelled''
     else if im_outcome terminal = ''budget-exhausted'' then ''budget-exhausted'' else ''failed'')"

section \<open>Usage before a resume\<close>

record prior_usage =
  pu_eventIds :: "jsval list"
  pu_started :: "string list"
  pu_elapsedFromTerminals :: jsnum
  pu_elapsedFromSettlement :: jsnum
  pu_rawOutputBytes :: jsnum
  pu_tokens :: jsnum
  pu_costUsd :: jsnum

definition terminalUsage :: "platform \<Rightarrow> int \<Rightarrow> jsval \<Rightarrow> prior_usage \<Rightarrow> prior_usage res" where
  "terminalUsage P maximumItemOutputBytes payload u = (let usage = batchNormalizeUsage (own ''usage'' payload) in
     rbind (if num_less (Fin 0) (iu_rawOutputBytes usage) then Inr (iu_rawOutputBytes usage)
            else rbind (boundedValue P (coalesce (own ''result'' payload) JNull) maximumItemOutputBytes) (\<lambda>b. Inr (num_of_int (bv_bytes b)))) (\<lambda>raw.
     Inr (u\<lparr> pu_elapsedFromTerminals := num_add (pu_elapsedFromTerminals u) (iu_elapsedMs usage), pu_rawOutputBytes := num_add (pu_rawOutputBytes u) raw,
       pu_tokens := num_add (pu_tokens u) (iu_tokens usage), pu_costUsd := num_add (pu_costUsd u) (iu_costUsd usage) \<rparr>)))"

definition priorUsageEvent :: "platform \<Rightarrow> batch_key \<Rightarrow> int \<Rightarrow> prior_usage \<Rightarrow> jsval \<Rightarrow> prior_usage res" where
  "priorUsageEvent P key maximumItemOutputBytes u event =
     (if \<not> eventMatchesPrepared key event \<or> own ''eventId'' event \<in> set (pu_eventIds u) then Inr u else
      let seen = u\<lparr> pu_eventIds := own ''eventId'' event # pu_eventIds u \<rparr>; payload = eventPayload event in
      if own ''type'' event = JStr ''BatchItemStarted'' then
        Inr (seen\<lparr> pu_started := List.insert (js_string P (own ''itemId'' payload) @ '':'' @ js_string P (own ''itemAttempt'' payload)) (pu_started u) \<rparr>) else
      if own ''type'' event = JStr ''BatchItemTerminal'' then terminalUsage P maximumItemOutputBytes payload seen else
      if own ''type'' event = JStr ''BatchSettled'' then
        Inr (seen\<lparr> pu_elapsedFromSettlement := num_max (pu_elapsedFromSettlement u) (iu_elapsedMs (batchNormalizeUsage (own ''usage'' payload))) \<rparr>)
      else Inr seen)"

definition summarizePriorUsage :: "platform \<Rightarrow> jsval list \<Rightarrow> batch_key \<Rightarrow> int \<Rightarrow> prior_usage res" where
  "summarizePriorUsage P events key maximumItemOutputBytes = foldR (priorUsageEvent P key maximumItemOutputBytes)
     \<lparr> pu_eventIds = [], pu_started = [], pu_elapsedFromTerminals = Fin 0, pu_elapsedFromSettlement = Fin 0, pu_rawOutputBytes = Fin 0,
       pu_tokens = Fin 0, pu_costUsd = Fin 0 \<rparr> events"

definition priorAssignments :: "prior_usage \<Rightarrow> int" where
  "priorAssignments u = int (length (pu_started u))"

definition priorElapsed :: "prior_usage \<Rightarrow> jsnum" where
  "priorElapsed u = (if num_less (Fin 0) (pu_elapsedFromSettlement u) then pu_elapsedFromSettlement u else pu_elapsedFromTerminals u)"

end
