(* ===== verification/Batch_Prepare.thy ===== *)
theory Batch_Prepare
  imports Batch_Slots
begin

text \<open>
  The events and the outcome of a batch and \<open>prepareBatch\<close> of
  \<open>packages/subagents/batch-swarm/index.mjs\<close>: everything a run of the batch is fixed to before its
  first item starts. \<open>batch_services\<close> are the functions and values injected into the executor.
\<close>

section \<open>Events\<close>

text \<open>\<open>type.replace(/([a-z])([A-Z])/gu, "$1-$2").toLowerCase()\<close>.\<close>

fun kebab :: "string \<Rightarrow> string" where
  "kebab (a # b # cs) = (if is_alpha a \<and> \<not> is_upper a \<and> is_upper b then ascii_lower a # CHR ''-'' # kebab (b # cs) else ascii_lower a # kebab (b # cs))"
| "kebab cs = map ascii_lower cs"

record prepared_batch =
  pb_key :: batch_key
  pb_batchRunId :: string
  pb_executionAttemptId :: string
  pb_definition :: jsval
  pb_agentSpec :: jsval
  pb_promptTemplate :: string
  pb_items :: "prepared_item list"
  pb_reservation :: jsval
  pb_prior :: batch_projection
  pb_priorUsage :: prior_usage
  pb_preparationDigest :: string

record batch_event =
  ev_eventId :: string
  ev_type :: string
  ev_childId :: jsval
  ev_payload :: jsval

definition EVENT_ID_TEXT :: "string \<Rightarrow> bool" where
  "EVENT_ID_TEXT s \<longleftrightarrow> length s \<le> 191 \<and> re_ident id_char 190 s"

definition batchEventId :: "platform \<Rightarrow> string \<Rightarrow> prepared_batch \<Rightarrow> string \<Rightarrow> string" where
  "batchEventId P type' prepared suffix' =
     (let raw = kebab type' @ '':'' @ bk_batchId (pb_key prepared) @ '':'' @ pb_executionAttemptId prepared @ '':'' @ suffix' in
      if EVENT_ID_TEXT raw then raw else ''batch-event:'' @ drop 7 (sha256_text P raw))"

text \<open>\<open>batchEvent(type, prepared, null, { payload })\<close> and \<open>batchEvent(type, prepared, slot, values)\<close>.\<close>

definition wholeBatchEvent :: "platform \<Rightarrow> string \<Rightarrow> prepared_batch \<Rightarrow> (string \<times> jsval) list \<Rightarrow> batch_event" where
  "wholeBatchEvent P type' prepared payload =
     \<lparr> ev_eventId = batchEventId P type' prepared ''batch'', ev_type = type', ev_childId = JNull,
       ev_payload = JObj ([(''batchId'', JStr (bk_batchId (pb_key prepared))), (''batchDigest'', JStr (bk_batchDigest (pb_key prepared)))] @ payload) \<rparr>"

definition slotBatchEvent :: "platform \<Rightarrow> string \<Rightarrow> prepared_batch \<Rightarrow> slot \<Rightarrow> jsnum \<Rightarrow> jsval \<Rightarrow> (string \<times> jsval) list \<Rightarrow> batch_event" where
  "slotBatchEvent P type' prepared s itemAttempt childId payload =
     \<lparr> ev_eventId = batchEventId P type' prepared (sl_itemId s @ '':'' @ num_text P itemAttempt), ev_type = type', ev_childId = childId,
       ev_payload = JObj ([(''batchId'', JStr (bk_batchId (pb_key prepared))), (''batchDigest'', JStr (bk_batchDigest (pb_key prepared))),
         (''index'', jnat (sl_index s)), (''itemId'', JStr (sl_itemId s)), (''itemDigest'', JStr (sl_itemDigest s)), (''itemAttempt'', JNum itemAttempt)] @ payload) \<rparr>"

definition batchAssignmentId :: "platform \<Rightarrow> prepared_batch \<Rightarrow> slot \<Rightarrow> jsnum \<Rightarrow> string" where
  "batchAssignmentId P prepared s itemAttempt =
     (let raw = bk_batchId (pb_key prepared) @ '':'' @ sl_itemId s @ '':a'' @ num_text P itemAttempt in
      if BATCH_ID raw then raw else ''batch-assignment:'' @ take 32 (drop 7 (sha256_text P raw)))"

text \<open>The event as the run coordinator appends it for the node (\<open>recordBatchEvent\<close>), as far as the batch reads it back.\<close>

definition recorded_event :: "batch_event \<Rightarrow> jsval" where
  "recorded_event event = JObj [(''eventId'', JStr (ev_eventId event)), (''type'', JStr (ev_type event)), (''childId'', ev_childId event), (''payload'', ev_payload event)]"

section \<open>Outcome\<close>

definition countStatus :: "string \<Rightarrow> slot list \<Rightarrow> nat" where
  "countStatus status slots = length (filter (\<lambda>s. sl_status s = status) slots)"

definition aggregateOutcome :: "platform \<Rightarrow> jsval \<Rightarrow> slot list \<Rightarrow> bool \<Rightarrow> string" where
  "aggregateOutcome P d slots aborted =
     (let kind = own ''kind'' (own ''failurePolicy'' d); succeeded = countStatus ''succeeded'' slots;
          failed = countStatus ''failed'' slots + countStatus ''budget-exhausted'' slots in
      if aborted \<or> countStatus ''cancelled'' slots > 0 then ''cancelled'' else
      if kind = JStr ''continue'' then ''completed'' else
      if is_one_of [''quorum'', ''minimum-success''] kind then
        (if js_le P (own ''threshold'' (own ''failurePolicy'' d)) (jnat succeeded) then ''completed'' else ''failed'') else
      if failed = 0 \<and> succeeded = length slots then ''completed'' else ''failed'')"

definition aggregateStatus :: "string \<Rightarrow> slot list \<Rightarrow> string" where
  "aggregateStatus outcome slots = (if outcome = ''cancelled'' then ''cancelled'' else if outcome \<noteq> ''completed'' then ''failed''
     else if list_ex (\<lambda>s. sl_status s \<noteq> ''succeeded'') slots then ''partial'' else ''completed'')"

section \<open>Preparation\<close>

record batch_services =
  bx_resolveBatch :: "jsval \<Rightarrow> jsval res"
  bx_resolveAgentSpec :: "jsval \<Rightarrow> jsval res"
  bx_resolvePromptTemplate :: "jsval \<Rightarrow> jsval res"
  bx_resolveItems :: "jsval \<Rightarrow> jsval \<Rightarrow> jsval res"
  bx_capabilityMatrix :: jsval
  bx_maximumItemOutputBytes :: int

record batch_context =
  bc_runId :: jsval
  bc_attemptId :: jsval
  bc_input :: jsval
  bc_priorBatchEvents :: "jsval list"

definition remainingAttempts :: "platform \<Rightarrow> jsval \<Rightarrow> slot list \<Rightarrow> jsnum" where
  "remainingAttempts P d slots = foldl (\<lambda>sum s. num_add sum (num_max (Fin 0) (num_sub (js_number P (own ''maxAttempts'' (own ''retryPolicy'' d))) (sl_attempts s))))
     (Fin 0) (filter (\<lambda>s. sl_status s \<noteq> ''succeeded'') slots)"

definition planAgrees :: "jsval \<Rightarrow> string \<Rightarrow> jsval \<Rightarrow> bool" where
  "planAgrees node field expected \<longleftrightarrow> own field node = JUndef \<or> js_eq (own field node) expected"

definition batchReservation :: "platform \<Rightarrow> jsval \<Rightarrow> jsval \<Rightarrow> slot list \<Rightarrow> jsval" where
  "batchReservation P node d slots = (let budget = own ''budget'' node in
     JObj ([(''assignments'', JNum (remainingAttempts P d slots)),
       (''elapsedMs'', coalesce (own ''timeoutMs'' budget) (own ''deadlineMs'' (own ''retryPolicy'' d))),
       (''rawOutputBytes'', coalesce (own ''maxOutputBytes'' budget) (jint 1048576))]
      @ (if nullish (own ''maxTokens'' budget) then [] else [(''tokens'', own ''maxTokens'' budget)])
      @ (if nullish (own ''maxCostUsd'' budget) then [] else [(''cost'', own ''maxCostUsd'' budget)])))"

definition batchRunId :: "platform \<Rightarrow> jsval \<Rightarrow> jsval \<Rightarrow> string" where
  "batchRunId P runId nodeId = (let raw = js_string P (coalesce runId (JStr ''batch-run'')) @ '':'' @ js_string P nodeId in
     if BATCH_ID raw then raw else ''batch:'' @ take 32 (drop 7 (sha256_text P raw)))"

definition item_binding :: "prepared_item \<Rightarrow> jsval" where
  "item_binding i = JObj [(''index'', jnat (pi_index i)), (''itemId'', JStr (pi_itemId i)), (''itemDigest'', JStr (pi_itemDigest i))]"

definition assertPlanNode :: "jsval \<Rightarrow> jsval \<Rightarrow> string \<Rightarrow> unit res" where
  "assertPlanNode node d batchDigest =
     (if \<not> planAgrees node ''batchDigest'' (JStr batchDigest) \<or> \<not> planAgrees node ''batchMaxItems'' (own ''maxItems'' d)
         \<or> \<not> planAgrees node ''batchMaxAttempts'' (own ''maxAttempts'' (own ''retryPolicy'' d)) then failBatch ''BATCH_PLAN_DRIFT'' else Inr ())"

definition prepareBatch :: "platform \<Rightarrow> batch_services \<Rightarrow> jsval \<Rightarrow> batch_context \<Rightarrow> prepared_batch res" where
  "prepareBatch P X node C =
     (if own ''kind'' node \<noteq> JStr ''batch-swarm'' then failBatch ''BATCH_NODE_INVALID'' else
      rbind (rbind (bx_resolveBatch X (own ''batchRef'' node)) (assertBatchSwarmDefinition P)) (\<lambda>d.
      rbind (digestBatchSwarmDefinition P d) (\<lambda>batchDigest.
      rbind (assertPlanNode node d batchDigest) (\<lambda>_.
      rbind (assertCapabilityEnvelope d (bx_capabilityMatrix X)) (\<lambda>_.
      rbind (bx_resolveAgentSpec X (own ''agentSpecRef'' d)) (\<lambda>spec.
      rbind (assertAgentBinding P d spec) (\<lambda>_.
      rbind (rbind (bx_resolvePromptTemplate X (own ''promptTemplateRef'' d)) (assertTemplateBinding P d)) (\<lambda>template.
      rbind (rbind (bx_resolveItems X d (coalesce (bc_input C) (JObj []))) (normalizeItems P d)) (\<lambda>xs.
      let key = \<lparr> bk_batchId = js_string P (own ''id'' d), bk_batchDigest = batchDigest \<rparr> in
      rbind (projectBatchSwarmEvents P (bc_priorBatchEvents C) key xs) (\<lambda>prior.
      rbind (summarizePriorUsage P (bc_priorBatchEvents C) key (bx_maximumItemOutputBytes X)) (\<lambda>priorUsage.
      rbind (batchCanonicalId (coalesce (bc_attemptId C) (JStr ''batch-attempt''))) (\<lambda>attemptId.
      rbind (sha256 P (JObj [(''batchDigest'', JStr batchDigest), (''agentSpecHash'', own ''specHash'' spec),
          (''promptTemplateHash'', JStr (sha256_text P template)), (''items'', JArr (map item_binding xs))])) (\<lambda>preparationDigest.
      Inr \<lparr> pb_key = key, pb_batchRunId = batchRunId P (bc_runId C) (own ''id'' node), pb_executionAttemptId = attemptId, pb_definition = d, pb_agentSpec = spec,
            pb_promptTemplate = template, pb_items = xs, pb_reservation = batchReservation P node d (bp_items prior), pb_prior = prior,
            pb_priorUsage = priorUsage, pb_preparationDigest = preparationDigest \<rparr>)))))))))))))"

end
