(* ===== verification/Batch_Run.thy ===== *)
theory Batch_Run
  imports Batch_Prepare
begin

text \<open>
  \<open>runBatch\<close> of \<open>packages/subagents/batch-swarm/index.mjs\<close> as a state machine. JavaScript runs one
  continuation at a time, so a step is the code from one \<open>await\<close> to the next; \<open>rn_tasks\<close> holds the
  continuations that wait, each with what it waits for. A label says which of them goes on and with
  which answer of the journal, the backend or the timer, or that the ramp timer, the deadline or
  the caller's abort signal fires. \<open>batch_step\<close> is defined by the functions of \<open>runBatch\<close>: \<open>pump\<close>,
  \<open>runSlot\<close>, \<open>closeQueued\<close>, \<open>applyRateLimit\<close>, \<open>failRun\<close> (\<open>batchFailRun\<close>) and the others.
\<close>

section \<open>State\<close>

text \<open>Who called \<open>closeQueued\<close>: a finished slot, which then pumps, or the pump and the abort listener.\<close>

datatype origin = FromSlot | FromPump

datatype task =
    AwaitQueued nat                      \<comment> \<open>the event of the admission\<close>
  | AwaitStarted nat                     \<comment> \<open>the event of the start\<close>
  | AwaitItem nat bool                   \<comment> \<open>the executor; true when the signal had aborted before\<close>
  | AwaitTerminal nat item_terminal      \<comment> \<open>the event of the result\<close>
  | AwaitCapacity nat item_terminal bool \<comment> \<open>\<open>applyRateLimit\<close>; true when it appends an event\<close>
  | AwaitRequeue nat item_terminal       \<comment> \<open>the event of a retry\<close>
  | AwaitDelay nat jsnum                 \<comment> \<open>the delay before a retry\<close>
  | AwaitCancelled nat                   \<comment> \<open>the event of a cancelled slot\<close>
  | Failing js_error                     \<comment> \<open>a rejection on its way to \<open>failRun\<close>\<close>
  | Closing origin string nat            \<comment> \<open>\<open>closeQueued\<close>, at the event of this slot\<close>
  | Closed origin                        \<comment> \<open>\<open>closeQueued\<close> at its end\<close>
  | AwaitSettled jsval                   \<comment> \<open>the event of the settled batch\<close>

record batch_run =
  rn_slots :: "slot list"
  rn_active :: int
  rn_maximumActive :: int
  rn_capacity :: int
  rn_nextIndex :: nat
  rn_admissionClosed :: bool
  rn_aborted :: bool
  rn_deadlineExceeded :: bool
  rn_rampArmed :: bool
  rn_completed :: int
  rn_totalAttempts :: jsnum
  rn_executionAttempts :: int
  rn_usage :: item_usage
  rn_fatal :: "js_error option"
  rn_done :: "unit res option"
  rn_finished :: bool
  rn_result :: "jsval res option"
  rn_tasks :: "task list"
  rn_emitted :: "batch_event list"

text \<open>What does not change during a run: the host, the prepared batch, the output limit and the input digest.\<close>

record batch_env =
  ex_host :: platform
  ex_batch :: prepared_batch
  ex_maximumItemOutputBytes :: int
  ex_inputDigest :: jsval

text \<open>An integer field of an accepted definition.\<close>

fun count_of :: "jsval \<Rightarrow> int" where
  "count_of (JNum (Fin a)) = \<lfloor>a\<rfloor>"
| "count_of _ = 0"

definition concurrencyOf :: "batch_env \<Rightarrow> string \<Rightarrow> int" where
  "concurrencyOf E field = count_of (own field (own ''concurrency'' (pb_definition (ex_batch E))))"

definition retryOf :: "batch_env \<Rightarrow> string \<Rightarrow> jsnum" where
  "retryOf E field = js_number (ex_host E) (own field (own ''retryPolicy'' (pb_definition (ex_batch E))))"

definition isFailFast :: "batch_env \<Rightarrow> bool" where
  "isFailFast E \<longleftrightarrow> own ''kind'' (own ''failurePolicy'' (pb_definition (ex_batch E))) = JStr ''fail-fast''"

definition isAdaptive :: "batch_env \<Rightarrow> bool" where
  "isAdaptive E \<longleftrightarrow> truthy (own ''adaptiveRateLimit'' (own ''concurrency'' (pb_definition (ex_batch E))))"

definition addTask :: "task \<Rightarrow> batch_run \<Rightarrow> batch_run" where
  "addTask t st = st\<lparr> rn_tasks := rn_tasks st @ [t] \<rparr>"

definition emitThen :: "batch_event \<Rightarrow> task \<Rightarrow> batch_run \<Rightarrow> batch_run" where
  "emitThen event t st = addTask t (st\<lparr> rn_emitted := rn_emitted st @ [event] \<rparr>)"

definition changeSlot :: "nat \<Rightarrow> (slot \<Rightarrow> slot) \<Rightarrow> batch_run \<Rightarrow> batch_run" where
  "changeSlot i f st = st\<lparr> rn_slots := (rn_slots st)[i := f (rn_slots st ! i)] \<rparr>"

definition emitSlot :: "batch_env \<Rightarrow> string \<Rightarrow> nat \<Rightarrow> jsval \<Rightarrow> (string \<times> jsval) list \<Rightarrow> task \<Rightarrow> batch_run \<Rightarrow> batch_run" where
  "emitSlot E type' i childId payload t st =
     emitThen (slotBatchEvent (ex_host E) type' (ex_batch E) (rn_slots st ! i) (sl_attempts (rn_slots st ! i)) childId payload) t st"

section \<open>Closing and completion\<close>

definition settleDone :: "unit res \<Rightarrow> batch_run \<Rightarrow> batch_run" where
  "settleDone r st = (if rn_done st = None then st\<lparr> rn_done := Some r \<rparr> else st)"

definition maybeComplete :: "batch_run \<Rightarrow> batch_run" where
  "maybeComplete st = (case rn_fatal st of
     Some e \<Rightarrow> if rn_active st = 0 then settleDone (Inl e) st else st
   | None \<Rightarrow> if rn_completed st \<ge> int (length (rn_slots st)) \<and> rn_active st = 0 then settleDone (Inr ()) st else st)"

definition noUsage :: jsval where
  "noUsage = JObj [(''elapsedMs'', jint 0), (''tokens'', jint 0), (''costUsd'', jint 0)]"

definition unstartedPayload :: "string \<Rightarrow> bool \<Rightarrow> string \<Rightarrow> (string \<times> jsval) list" where
  "unstartedPayload status authoritative code = [(''status'', JStr status), (''authoritative'', JBool authoritative), (''receiptId'', JNull),
     (''result'', JNull), (''error'', JObj [(''code'', JStr code)]), (''usage'', noUsage)]"

definition closePayload :: "string \<Rightarrow> (string \<times> jsval) list" where
  "closePayload status = unstartedPayload status True (if status = ''skipped'' then ''FAIL_FAST_ADMISSION_CLOSED'' else ''BATCH_CANCELLED_BEFORE_ADMISSION'')"

definition nextQueued :: "slot list \<Rightarrow> nat \<Rightarrow> nat option" where
  "nextQueued slots from' = find (\<lambda>j. sl_status (slots ! j) = ''queued'') [from'..<length slots]"

text \<open>The loop of \<open>closeQueued\<close> from an index to its next \<open>await\<close>.\<close>

definition closeQueued :: "batch_env \<Rightarrow> origin \<Rightarrow> string \<Rightarrow> nat \<Rightarrow> batch_run \<Rightarrow> batch_run" where
  "closeQueued E origin' status from' st = (case nextQueued (rn_slots st) from' of
     None \<Rightarrow> addTask (Closed origin') st
   | Some j \<Rightarrow> emitSlot E ''BatchItemTerminal'' j JNull (closePayload status) (Closing origin' status j)
       ((changeSlot j (\<lambda>s. s\<lparr> sl_status := status \<rparr>) st)\<lparr> rn_completed := rn_completed st + 1 \<rparr>))"

definition closeStatus :: "batch_run \<Rightarrow> string" where
  "closeStatus st = (if rn_aborted st then ''cancelled'' else ''skipped'')"

definition appendFailed :: jsval where
  "appendFailed = JObj [(''code'', JStr ''BATCH_EVENT_APPEND_FAILED'')]"

definition markQueuedWithoutEvents :: "batch_run \<Rightarrow> batch_run" where
  "markQueuedWithoutEvents st = st\<lparr>
     rn_slots := map (\<lambda>s. if sl_status s = ''queued'' then s\<lparr> sl_status := ''cancelled'', sl_authoritative := JBool False, sl_error := appendFailed \<rparr> else s) (rn_slots st),
     rn_completed := rn_completed st + int (length (filter (\<lambda>s. sl_status s = ''queued'') (rn_slots st))) \<rparr>"

text \<open>The abort listener, which the main function removes when the batch is done, and \<open>controller.abort\<close>.\<close>

definition abortAdmission :: "batch_env \<Rightarrow> batch_run \<Rightarrow> batch_run" where
  "abortAdmission E st = (let closed = st\<lparr> rn_admissionClosed := True \<rparr> in
     if rn_fatal st \<noteq> None then maybeComplete (markQueuedWithoutEvents closed) else closeQueued E FromPump ''cancelled'' 0 closed)"

definition abortRun :: "batch_env \<Rightarrow> batch_run \<Rightarrow> batch_run" where
  "abortRun E st = (if rn_aborted st then st else
     let aborted = st\<lparr> rn_aborted := True \<rparr> in if rn_finished st then aborted else abortAdmission E aborted)"

definition fatalOf :: "js_error \<Rightarrow> js_error" where
  "fatalOf cause = (case cause of Thrown cls code \<Rightarrow> (if cls = ''BatchSwarmError'' then cause else Thrown ''BatchSwarmError'' ''BATCH_EVENT_APPEND_FAILED'')
     | TypeError \<Rightarrow> Thrown ''BatchSwarmError'' ''BATCH_EVENT_APPEND_FAILED'')"

definition batchFailRun :: "batch_env \<Rightarrow> js_error \<Rightarrow> batch_run \<Rightarrow> batch_run" where
  "batchFailRun E cause st =
     (let failed = (if rn_fatal st \<noteq> None then st else
        markQueuedWithoutEvents (abortRun E (st\<lparr> rn_fatal := Some (fatalOf cause), rn_admissionClosed := True \<rparr>)))
      in if rn_active failed = 0 then settleDone (Inl (the (rn_fatal failed))) failed else failed)"

section \<open>Admission\<close>

definition scheduleRamp :: "batch_env \<Rightarrow> batch_run \<Rightarrow> batch_run" where
  "scheduleRamp E st = (if rn_rampArmed st \<or> rn_admissionClosed st \<or> rn_capacity st \<ge> concurrencyOf E ''max'' \<or> rn_nextIndex st \<ge> length (rn_slots st)
     then st else st\<lparr> rn_rampArmed := True \<rparr>)"

definition admitSlot :: "batch_env \<Rightarrow> batch_run \<Rightarrow> batch_run" where
  "admitSlot E st = (let i = rn_nextIndex st; taken = st\<lparr> rn_nextIndex := Suc i \<rparr>; s = rn_slots st ! i in
     if sl_status s = ''succeeded'' then taken\<lparr> rn_completed := rn_completed st + 1 \<rparr> else
     emitSlot E ''BatchItemQueued'' i JNull [(''reason'', JStr (if num_less (Fin 0) (sl_attempts s) then ''resume'' else ''initial''))] (AwaitQueued i)
       (taken\<lparr> rn_active := rn_active st + 1, rn_maximumActive := max (rn_maximumActive st) (rn_active st + 1) \<rparr>))"

text \<open>The \<open>while\<close> loop of \<open>pump\<close>; every round takes one more slot, so the slots left bound it.\<close>

fun admitSlots :: "batch_env \<Rightarrow> nat \<Rightarrow> batch_run \<Rightarrow> batch_run" where
  "admitSlots E 0 st = st"
| "admitSlots E (Suc k) st = (if rn_admissionClosed st \<or> rn_active st \<ge> rn_capacity st \<or> rn_nextIndex st \<ge> length (rn_slots st)
     then st else admitSlots E k (admitSlot E st))"

definition pump :: "batch_env \<Rightarrow> batch_run \<Rightarrow> batch_run" where
  "pump E st =
     (let checked = (if rn_aborted st then st\<lparr> rn_admissionClosed := True \<rparr> else st);
          admitted = admitSlots E (length (rn_slots checked) - rn_nextIndex checked) checked;
          closed = (if rn_admissionClosed admitted \<and> rn_fatal admitted = None then closeQueued E FromPump (closeStatus admitted) 0 admitted else admitted)
      in maybeComplete (scheduleRamp E closed))"

section \<open>One slot\<close>

text \<open>The \<open>finally\<close> of \<open>runSlot\<close> with the rejection on its way to \<open>failRun\<close>.\<close>

definition slotFails :: "js_error \<Rightarrow> batch_run \<Rightarrow> batch_run" where
  "slotFails e st = addTask (Failing e) (st\<lparr> rn_active := rn_active st - 1, rn_completed := rn_completed st + 1 \<rparr>)"

definition afterLoop :: "batch_env \<Rightarrow> nat \<Rightarrow> batch_run \<Rightarrow> batch_run" where
  "afterLoop E i st =
     (let decided = (if isFailFast E \<and> sl_status (rn_slots st ! i) \<noteq> ''succeeded'' then st\<lparr> rn_admissionClosed := True \<rparr> else st);
          released = decided\<lparr> rn_active := rn_active decided - 1, rn_completed := rn_completed decided + 1 \<rparr> in
      if rn_admissionClosed released then closeQueued E FromSlot (closeStatus released) 0 released else maybeComplete (pump E released))"

definition endLoop :: "batch_env \<Rightarrow> nat \<Rightarrow> batch_run \<Rightarrow> batch_run" where
  "endLoop E i st =
     (if rn_aborted st \<and> rn_fatal st = None \<and> sl_status (rn_slots st ! i) \<notin> set ITEM_TERMINAL_STATUSES then
        emitSlot E ''BatchItemTerminal'' i JNull (unstartedPayload ''cancelled'' False (if rn_deadlineExceeded st then ''BATCH_DEADLINE_EXCEEDED'' else ''BATCH_CANCELLED''))
          (AwaitCancelled i) (changeSlot i (\<lambda>s. s\<lparr> sl_status := ''cancelled'' \<rparr>) st)
      else afterLoop E i st)"

definition assignmentInput :: "batch_env \<Rightarrow> slot \<Rightarrow> string \<Rightarrow> jsval" where
  "assignmentInput E s prompt = (let spec = pb_agentSpec (ex_batch E) in
     JObj [(''assignmentId'', JStr (batchAssignmentId (ex_host E) (ex_batch E) s (sl_attempts s))), (''agentSpec'', spec), (''task'', JStr prompt),
       (''ownership'', JObj [(''writer'', JBool False), (''workspace'', own ''workspace'' (own ''effectivePolicy'' spec)), (''allowedPaths'', JArr [])]),
       (''idempotency'', JObj [(''class'', JStr ''read-only'')]),
       (''context'', JObj [(''mode'', JStr ''fresh''), (''artifactRefs'', JArr [own ''itemsFrom'' (pb_definition (ex_batch E))])]),
       (''budget'', JObj [(''maxElapsedMs'', JNum (num_min (js_number (ex_host E) (own ''timeoutMs'' spec)) (retryOf E ''deadlineMs''))),
          (''maxOutputBytes'', jint (ex_maximumItemOutputBytes E))])])"

definition slotAssignment :: "batch_env \<Rightarrow> slot \<Rightarrow> jsval res" where
  "slotAssignment E s = rbind (renderPrompt (ex_host E) (pb_promptTemplate (ex_batch E)) (bk_batchId (pb_key (ex_batch E))) (pb_items (ex_batch E) ! sl_index s))
     (\<lambda>prompt. createTaskAssignment (ex_host E) (assignmentInput E s prompt))"

definition startAttempt :: "batch_env \<Rightarrow> nat \<Rightarrow> batch_run \<Rightarrow> batch_run" where
  "startAttempt E i st =
     (let counted = (changeSlot i (\<lambda>s. s\<lparr> sl_attempts := num_add (sl_attempts s) (Fin 1) \<rparr>) st)\<lparr>
            rn_totalAttempts := num_add (rn_totalAttempts st) (Fin 1), rn_executionAttempts := rn_executionAttempts st + 1 \<rparr> in
      case slotAssignment E (rn_slots counted ! i) of
        Inl e \<Rightarrow> slotFails e counted
      | Inr a \<Rightarrow> emitSlot E ''BatchItemStarted'' i JNull [(''assignmentId'', own ''assignmentId'' a), (''assignmentHash'', own ''assignmentHash'' a), (''handleId'', JNull)]
          (AwaitStarted i) (changeSlot i (\<lambda>s. s\<lparr> sl_assignmentId := own ''assignmentId'' a, sl_assignmentHash := own ''assignmentHash'' a, sl_status := ''running'' \<rparr>) counted))"

definition loopHead :: "batch_env \<Rightarrow> nat \<Rightarrow> batch_run \<Rightarrow> batch_run" where
  "loopHead E i st = (if \<not> rn_aborted st \<and> num_less (sl_attempts (rn_slots st ! i)) (retryOf E ''maxAttempts'') then startAttempt E i st else endLoop E i st)"

definition finishedSlot :: "item_terminal \<Rightarrow> slot \<Rightarrow> slot" where
  "finishedSlot terminal s = s\<lparr> sl_status := itemStatus terminal, sl_handleId := im_handleId terminal, sl_receiptId := JStr (im_receiptId terminal),
     sl_authoritative := JBool (im_authoritative terminal), sl_result := im_result terminal, sl_error := im_error terminal, sl_usage := usage_value (im_usage terminal) \<rparr>"

definition terminalPayload :: "slot \<Rightarrow> item_terminal \<Rightarrow> (string \<times> jsval) list" where
  "terminalPayload s terminal = [(''status'', JStr (itemStatus terminal)), (''assignmentId'', sl_assignmentId s), (''assignmentHash'', sl_assignmentHash s),
     (''handleId'', im_handleId terminal), (''receiptId'', JStr (im_receiptId terminal)), (''authoritative'', JBool (im_authoritative terminal)),
     (''result'', im_result terminal), (''error'', im_error terminal), (''usage'', usage_value (im_usage terminal))]"

definition addUsage :: "item_usage \<Rightarrow> item_usage \<Rightarrow> item_usage" where
  "addUsage before u = before\<lparr> iu_rawOutputBytes := num_add (iu_rawOutputBytes before) (iu_rawOutputBytes u), iu_tokens := num_add (iu_tokens before) (iu_tokens u),
     iu_costUsd := num_add (iu_costUsd before) (iu_costUsd u) \<rparr>"

definition finishItem :: "batch_env \<Rightarrow> nat \<Rightarrow> item_terminal \<Rightarrow> batch_run \<Rightarrow> batch_run" where
  "finishItem E i terminal st = emitSlot E ''BatchItemTerminal'' i (im_handleId terminal) (terminalPayload (rn_slots st ! i) terminal) (AwaitTerminal i terminal)
     ((changeSlot i (finishedSlot terminal) st)\<lparr> rn_usage := addUsage (rn_usage st) (im_usage terminal) \<rparr>)"

text \<open>The answer of the executor, and the \<open>catch\<close> around it.\<close>

definition itemThrows :: "batch_env \<Rightarrow> nat \<Rightarrow> jsval \<Rightarrow> bool \<Rightarrow> batch_run \<Rightarrow> batch_run" where
  "itemThrows E i code retryable' st =
     (case normalizeItemTerminal (ex_host E) (JObj [(''outcome'', JStr (if rn_aborted st then ''cancelled'' else ''failed'')), (''authoritative'', JBool False),
         (''error'', JObj [(''code'', coalesce code (JStr ''BATCH_ITEM_EXECUTION_ERROR'')), (''retryable'', JBool retryable')])]) (ex_maximumItemOutputBytes E)
      of Inl e \<Rightarrow> slotFails e st | Inr terminal \<Rightarrow> finishItem E i terminal st)"

definition itemReturns :: "batch_env \<Rightarrow> nat \<Rightarrow> jsval \<Rightarrow> batch_run \<Rightarrow> batch_run" where
  "itemReturns E i v st = (case normalizeItemTerminal (ex_host E) v (ex_maximumItemOutputBytes E) of
     Inr terminal \<Rightarrow> finishItem E i terminal st
   | Inl (Thrown cls code) \<Rightarrow> itemThrows E i (JStr code) False st
   | Inl TypeError \<Rightarrow> itemThrows E i JUndef False st)"

definition requeueSlot :: "batch_env \<Rightarrow> nat \<Rightarrow> item_terminal \<Rightarrow> batch_run \<Rightarrow> batch_run" where
  "requeueSlot E i terminal st = emitSlot E ''BatchItemQueued'' i JNull [(''reason'', JStr ''finite-retry'')] (AwaitRequeue i terminal)
     (changeSlot i (\<lambda>s. s\<lparr> sl_status := ''queued'' \<rparr>) st)"

definition applyRateLimit :: "batch_env \<Rightarrow> nat \<Rightarrow> item_terminal \<Rightarrow> batch_run \<Rightarrow> batch_run" where
  "applyRateLimit E i terminal st =
     (if \<not> isAdaptive E then addTask (AwaitCapacity i terminal False) st else
      let previous = rn_capacity st; halved = st\<lparr> rn_capacity := max 1 (previous div 2), rn_rampArmed := False \<rparr> in
      if rn_capacity halved \<noteq> previous then
        emitSlot E ''BatchCapacityChanged'' i JNull [(''previous'', jint previous), (''current'', jint (rn_capacity halved)), (''reason'', JStr ''rate-limit'')]
          (AwaitCapacity i terminal True) halved
      else addTask (AwaitCapacity i terminal False) (scheduleRamp E halved))"

definition isFinal :: "batch_env \<Rightarrow> slot \<Rightarrow> item_terminal \<Rightarrow> bool" where
  "isFinal E s terminal \<longleftrightarrow> itemStatus terminal \<in> {''succeeded'', ''cancelled'', ''budget-exhausted''} \<or> \<not> im_authoritative terminal
     \<or> \<not> im_retryable terminal \<or> num_le (retryOf E ''maxAttempts'') (sl_attempts s)"

definition afterTerminal :: "batch_env \<Rightarrow> nat \<Rightarrow> item_terminal \<Rightarrow> batch_run \<Rightarrow> batch_run" where
  "afterTerminal E i terminal st =
     (if isFinal E (rn_slots st ! i) terminal then endLoop E i st else
      if im_rateLimited terminal then applyRateLimit E i terminal st else requeueSlot E i terminal st)"

text \<open>\<open>2 ** n\<close> for the number of an attempt, an integer, and the delay before the next attempt.\<close>

fun num_pow2 :: "jsnum \<Rightarrow> jsnum" where
  "num_pow2 (Fin a) = fl (2 ^ nat \<lfloor>a\<rfloor>)"
| "num_pow2 n = n"

definition retryDelay :: "batch_env \<Rightarrow> jsnum \<Rightarrow> jsnum \<Rightarrow> jsnum" where
  "retryDelay E itemAttempt retryAfterMs =
     (let maxDelay = retryOf E ''maxDelayMs'';
          exponential = num_min maxDelay (num_mul (num_of_int 250) (num_pow2 (num_max (Fin 0) (num_sub itemAttempt (Fin 1)))))
      in num_min maxDelay (num_max exponential retryAfterMs))"

section \<open>The result\<close>

definition slot_value :: "slot \<Rightarrow> jsval" where
  "slot_value s = JObj [(''index'', jnat (sl_index s)), (''itemId'', JStr (sl_itemId s)), (''itemDigest'', JStr (sl_itemDigest s)), (''status'', JStr (sl_status s)),
     (''attempts'', JNum (sl_attempts s)), (''assignmentId'', sl_assignmentId s), (''assignmentHash'', sl_assignmentHash s), (''handleId'', sl_handleId s),
     (''receiptId'', sl_receiptId s), (''authoritative'', sl_authoritative s), (''result'', sl_result s), (''error'', sl_error s), (''usage'', sl_usage s)]"

definition batchOutcome :: "batch_env \<Rightarrow> batch_run \<Rightarrow> string" where
  "batchOutcome E st = aggregateOutcome (ex_host E) (pb_definition (ex_batch E)) (rn_slots st) (rn_aborted st)"

definition resultValue :: "batch_env \<Rightarrow> batch_run \<Rightarrow> jsval" where
  "resultValue E st = (let prepared = ex_batch E; slots = rn_slots st in
     JObj [(''formatVersion'', jint 1), (''kind'', JStr ''batch-swarm-result''), (''batchId'', JStr (bk_batchId (pb_key prepared))),
       (''batchDigest'', JStr (bk_batchDigest (pb_key prepared))), (''agentSpecHash'', own ''specHash'' (pb_agentSpec prepared)),
       (''policyHash'', own ''effectivePolicyHash'' (pb_agentSpec prepared)), (''promptTemplateHash'', JStr (sha256_text (ex_host E) (pb_promptTemplate prepared))),
       (''inputDigest'', ex_inputDigest E), (''status'', JStr (aggregateStatus (batchOutcome E st) slots)),
       (''degradedToAgent'', JBool (length (pb_items prepared) = 1)), (''total'', jnat (length slots)),
       (''succeeded'', jnat (countStatus ''succeeded'' slots)), (''failed'', jnat (countStatus ''failed'' slots)), (''cancelled'', jnat (countStatus ''cancelled'' slots)),
       (''skipped'', jnat (countStatus ''skipped'' slots)), (''budgetExhausted'', jnat (countStatus ''budget-exhausted'' slots)),
       (''attempts'', JNum (rn_totalAttempts st)), (''maximumActive'', jint (rn_maximumActive st)), (''items'', JArr (map slot_value slots))])"

definition settledUsage :: "batch_env \<Rightarrow> jsnum \<Rightarrow> batch_run \<Rightarrow> jsval" where
  "settledUsage E elapsed st = (let prior = pb_priorUsage (ex_batch E); used = rn_usage st in
     JObj [(''assignments'', jint (priorAssignments prior + rn_executionAttempts st)),
       (''elapsedMs'', JNum (num_add (priorElapsed prior) (num_max (Fin 0) (num_trunc elapsed)))),
       (''rawOutputBytes'', JNum (num_add (pu_rawOutputBytes prior) (iu_rawOutputBytes used))), (''tokens'', JNum (num_add (pu_tokens prior) (iu_tokens used))),
       (''costUsd'', JNum (num_add (pu_costUsd prior) (iu_costUsd used)))])"

definition isAuthoritative :: "slot list \<Rightarrow> bool" where
  "isAuthoritative slots \<longleftrightarrow> list_all (\<lambda>s. sl_status s = ''skipped'' \<or> sl_authoritative s = JBool True) slots"

definition receipt_items :: "slot list \<Rightarrow> jsval" where
  "receipt_items slots = JArr (map (\<lambda>s. JObj [(''itemId'', JStr (sl_itemId s)), (''receiptId'', sl_receiptId s), (''status'', JStr (sl_status s))]) slots)"

definition outcomeError :: "string \<Rightarrow> bool \<Rightarrow> jsval" where
  "outcomeError outcome deadlineExceeded = (if outcome = ''completed'' then JNull else
     JObj [(''code'', JStr (if deadlineExceeded then ''BATCH_DEADLINE_EXCEEDED'' else if outcome = ''cancelled'' then ''BATCH_CANCELLED'' else ''BATCH_FAILURE_POLICY_UNSATISFIED''))])"

text \<open>The end of \<open>runBatch\<close> after \<open>done\<close>: the event of the settled batch and the value that is returned after it.\<close>

definition settleBatch :: "batch_env \<Rightarrow> jsnum \<Rightarrow> batch_run \<Rightarrow> batch_run" where
  "settleBatch E elapsed st =
     (let finished = st\<lparr> rn_finished := True, rn_rampArmed := False \<rparr>; outcome = batchOutcome E st; result = resultValue E st; slots = rn_slots st;
          status = own ''status'' result; usage = settledUsage E elapsed st; authoritative = isAuthoritative slots in
      case rbind (sha256 (ex_host E) (JObj [(''batchDigest'', JStr (bk_batchDigest (pb_key (ex_batch E)))), (''inputDigest'', ex_inputDigest E), (''status'', status), (''items'', receipt_items slots)]))
             (\<lambda>receiptId. rbind (sha256 (ex_host E) result) (\<lambda>resultDigest. Inr (receiptId, resultDigest)))
      of Inl e \<Rightarrow> finished\<lparr> rn_result := Some (Inl e) \<rparr>
       | Inr (receiptId, resultDigest) \<Rightarrow>
          emitThen (wholeBatchEvent (ex_host E) ''BatchSettled'' (ex_batch E) [(''status'', status), (''outcome'', JStr outcome), (''authoritative'', JBool authoritative),
              (''receiptId'', JStr receiptId), (''resultDigest'', JStr resultDigest), (''usage'', usage)])
            (AwaitSettled (JObj [(''outcome'', JStr (if rn_deadlineExceeded st then ''timed-out'' else outcome)),
               (''authoritative'', JBool (\<not> rn_deadlineExceeded st \<and> authoritative)), (''receiptId'', JStr receiptId), (''result'', result), (''usage'', usage),
               (''error'', outcomeError outcome (rn_deadlineExceeded st)), (''handle'', JObj [(''handleId'', JStr (pb_batchRunId (ex_batch E)))])]))
            finished)"

section \<open>Steps\<close>

datatype label =
    Resumes nat                  \<comment> \<open>what the task waits for has succeeded\<close>
  | Rejects nat js_error         \<comment> \<open>the journal has refused the event the task waits for\<close>
  | ItemReturns nat jsval        \<comment> \<open>the executor has returned\<close>
  | ItemThrows nat jsval bool    \<comment> \<open>it has thrown, with a code and perhaps \<open>retryable\<close>, or the signal has aborted\<close>
  | RampFires
  | DeadlineFires
  | CallerAborts
  | Finishes jsnum               \<comment> \<open>the main function goes on after \<open>done\<close>, with the time it took\<close>

definition dropTask :: "nat \<Rightarrow> batch_run \<Rightarrow> batch_run" where
  "dropTask k st = st\<lparr> rn_tasks := take k (rn_tasks st) @ drop (Suc k) (rn_tasks st) \<rparr>"

fun resumeTask :: "batch_env \<Rightarrow> task \<Rightarrow> batch_run \<Rightarrow> batch_run option" where
  "resumeTask E (AwaitQueued i) st = Some (loopHead E i st)"
| "resumeTask E (AwaitStarted i) st = Some (addTask (AwaitItem i (rn_aborted st)) st)"
| "resumeTask E (AwaitItem i aborted) st = None"
| "resumeTask E (AwaitTerminal i terminal) st = Some (afterTerminal E i terminal st)"
| "resumeTask E (AwaitCapacity i terminal emitted) st = Some (requeueSlot E i terminal (if emitted then scheduleRamp E st else st))"
| "resumeTask E (AwaitRequeue i terminal) st = Some (addTask (AwaitDelay i (retryDelay E (sl_attempts (rn_slots st ! i)) (im_retryAfterMs terminal))) st)"
| "resumeTask E (AwaitDelay i ms) st = Some (loopHead E i st)"
| "resumeTask E (AwaitCancelled i) st = Some (afterLoop E i st)"
| "resumeTask E (Failing e) st = Some (batchFailRun E e st)"
| "resumeTask E (Closing origin' status j) st = Some (closeQueued E origin' status (Suc j) st)"
| "resumeTask E (Closed FromSlot) st = Some (maybeComplete (pump E st))"
| "resumeTask E (Closed FromPump) st = Some (maybeComplete st)"
| "resumeTask E (AwaitSettled result) st = Some (st\<lparr> rn_result := Some (Inr result) \<rparr>)"

definition admissionFails :: "batch_env \<Rightarrow> nat \<Rightarrow> js_error \<Rightarrow> batch_run \<Rightarrow> batch_run" where
  "admissionFails E i e st = maybeComplete (batchFailRun E e ((changeSlot i (\<lambda>s. s\<lparr> sl_status := ''failed'', sl_authoritative := JBool False, sl_error := appendFailed \<rparr>) st)
     \<lparr> rn_active := rn_active st - 1, rn_completed := rn_completed st + 1 \<rparr>))"

fun rejectTask :: "batch_env \<Rightarrow> task \<Rightarrow> js_error \<Rightarrow> batch_run \<Rightarrow> batch_run option" where
  "rejectTask E (AwaitQueued i) e st = Some (admissionFails E i e st)"
| "rejectTask E (AwaitStarted i) e st = Some (slotFails e st)"
| "rejectTask E (AwaitTerminal i terminal) e st = Some (slotFails e st)"
| "rejectTask E (AwaitCapacity i terminal emitted) e st = (if emitted then Some (slotFails e st) else None)"
| "rejectTask E (AwaitRequeue i terminal) e st = Some (slotFails e st)"
| "rejectTask E (AwaitCancelled i) e st = Some (slotFails e st)"
| "rejectTask E (Closing origin' status j) e st = Some (addTask (Failing e) st)"
| "rejectTask E (AwaitSettled result) e st = Some (st\<lparr> rn_result := Some (Inl e) \<rparr>)"
| "rejectTask E t e st = None"

definition onTask :: "nat \<Rightarrow> (task \<Rightarrow> batch_run \<Rightarrow> batch_run option) \<Rightarrow> batch_run \<Rightarrow> batch_run option" where
  "onTask k f st = (if k < length (rn_tasks st) then f (rn_tasks st ! k) (dropTask k st) else None)"

definition rampFires :: "batch_env \<Rightarrow> batch_run \<Rightarrow> batch_run" where
  "rampFires E st = (let fired = st\<lparr> rn_rampArmed := False \<rparr>;
       raised = (if rn_admissionClosed fired then fired
         else fired\<lparr> rn_capacity := min (concurrencyOf E ''max'') (min (rn_capacity fired + 1) (int (length (rn_slots fired)))) \<rparr>)
     in scheduleRamp E (pump E raised))"

fun batch_step :: "batch_env \<Rightarrow> label \<Rightarrow> batch_run \<Rightarrow> batch_run option" where
  "batch_step E (Resumes k) st = onTask k (resumeTask E) st"
| "batch_step E (Rejects k e) st = onTask k (\<lambda>t. rejectTask E t e) st"
| "batch_step E (ItemReturns k v) st = onTask k (\<lambda>t s. case t of AwaitItem i False \<Rightarrow> Some (itemReturns E i v s) | _ \<Rightarrow> None) st"
| "batch_step E (ItemThrows k code r) st = onTask k (\<lambda>t s. case t of AwaitItem i b \<Rightarrow> Some (itemThrows E i code r s) | _ \<Rightarrow> None) st"
| "batch_step E RampFires st = (if rn_rampArmed st then Some (rampFires E st) else None)"
| "batch_step E DeadlineFires st = (if rn_finished st \<or> rn_deadlineExceeded st then None else Some (abortRun E (st\<lparr> rn_deadlineExceeded := True \<rparr>)))"
| "batch_step E CallerAborts st = (if rn_finished st \<or> rn_aborted st then None else Some (abortRun E st))"
| "batch_step E (Finishes elapsed) st = (if rn_finished st then None else case rn_done st of
     None \<Rightarrow> None
   | Some (Inl e) \<Rightarrow> Some (st\<lparr> rn_finished := True, rn_rampArmed := False, rn_result := Some (Inl e) \<rparr>)
   | Some (Inr _) \<Rightarrow> Some (settleBatch E elapsed st))"

text \<open>
  The state after the event of the start is recorded and \<open>pump\<close> has run for the first time; the
  caller's signal or the deadline may have aborted before. A batch without items never gets here.
\<close>

definition batch_start :: "batch_env \<Rightarrow> bool \<Rightarrow> bool \<Rightarrow> batch_run" where
  "batch_start E aborted deadlineExceeded =
     (let slots = bp_items (pb_prior (ex_batch E)) in
      pump E \<lparr> rn_slots = slots, rn_active = 0, rn_maximumActive = 0, rn_capacity = min (concurrencyOf E ''initial'') (int (length slots)), rn_nextIndex = 0,
        rn_admissionClosed = aborted, rn_aborted = aborted, rn_deadlineExceeded = deadlineExceeded, rn_rampArmed = False, rn_completed = 0,
        rn_totalAttempts = foldl (\<lambda>sum s. num_add sum (sl_attempts s)) (Fin 0) slots, rn_executionAttempts = 0,
        rn_usage = \<lparr> iu_elapsedMs = Fin 0, iu_rawOutputBytes = Fin 0, iu_tokens = Fin 0, iu_costUsd = Fin 0 \<rparr>, rn_fatal = None, rn_done = None,
        rn_finished = False, rn_result = None, rn_tasks = [], rn_emitted = [] \<rparr>)"

text \<open>
  The beginning of \<open>runBatch\<close>: the event of the start, which must be recorded before anything runs; a batch
  without items is settled at once, with the result below.
\<close>

definition batchStartedEvent :: "batch_env \<Rightarrow> batch_event" where
  "batchStartedEvent E = wholeBatchEvent (ex_host E) ''BatchStarted'' (ex_batch E)
     [(''itemCount'', jnat (length (bp_items (pb_prior (ex_batch E))))), (''preparationDigest'', JStr (pb_preparationDigest (ex_batch E)))]"

definition emptyResult :: "batch_env \<Rightarrow> jsval" where
  "emptyResult E = (let prepared = ex_batch E in
     JObj [(''formatVersion'', jint 1), (''kind'', JStr ''batch-swarm-result''), (''batchId'', JStr (bk_batchId (pb_key prepared))),
       (''batchDigest'', JStr (bk_batchDigest (pb_key prepared))), (''agentSpecHash'', own ''specHash'' (pb_agentSpec prepared)),
       (''policyHash'', own ''effectivePolicyHash'' (pb_agentSpec prepared)), (''promptTemplateHash'', JStr (sha256_text (ex_host E) (pb_promptTemplate prepared))),
       (''inputDigest'', ex_inputDigest E), (''status'', JStr ''completed''), (''degradedToAgent'', JBool False), (''total'', jint 0), (''succeeded'', jint 0),
       (''failed'', jint 0), (''cancelled'', jint 0), (''skipped'', jint 0), (''budgetExhausted'', jint 0), (''attempts'', jint 0), (''maximumActive'', jint 0),
       (''items'', JArr [])])"

definition settleEmpty :: "batch_env \<Rightarrow> (batch_event \<times> jsval) res" where
  "settleEmpty E = rbind (sha256 (ex_host E) (emptyResult E)) (\<lambda>h. Inr
     (wholeBatchEvent (ex_host E) ''BatchSettled'' (ex_batch E) [(''status'', JStr ''completed''), (''resultDigest'', JStr h)],
      JObj [(''outcome'', JStr ''completed''), (''authoritative'', JBool True), (''receiptId'', JStr h), (''result'', emptyResult E),
        (''usage'', JObj [(''assignments'', jint 0), (''elapsedMs'', jint 0), (''rawOutputBytes'', jint 0), (''tokens'', jint 0), (''costUsd'', jint 0)]),
        (''handle'', JObj [(''handleId'', JStr (pb_batchRunId (ex_batch E)))])]))"

datatype begun =
    NotBegun js_error                      \<comment> \<open>the event of the start was refused\<close>
  | Empty "(batch_event \<times> jsval) res"    \<comment> \<open>the event and the value of a batch without items\<close>
  | Running batch_run

definition beginBatch :: "batch_env \<Rightarrow> bool \<Rightarrow> bool \<Rightarrow> bool \<Rightarrow> begun" where
  "beginBatch E recorded aborted deadlineExceeded =
     (if \<not> recorded then NotBegun (Thrown ''BatchSwarmError'' ''BATCH_EVENT_APPEND_FAILED'') else
      if bp_items (pb_prior (ex_batch E)) = [] then Empty (settleEmpty E) else Running (batch_start E aborted deadlineExceeded))"

end
