(* ===== verification/Batch_Invariant.thy ===== *)
theory Batch_Invariant
  imports Batch_Run
begin

text \<open>
  Invariants of a batch run. \<open>batch_reach\<close> are the states of a run. The locale \<open>batch_invariant\<close> is
  the contract of an invariant: it holds at the start, and if it holds with a task taken out of the
  list then what the task does restores it. Its first interpretation is the pool: the slots at work are counted by
  \<open>rn_active\<close>, which stays within the concurrency of the definition.
\<close>

inductive batch_reach :: "batch_env \<Rightarrow> batch_run \<Rightarrow> bool" for E where
  batch_starts: "late \<longrightarrow> aborted \<Longrightarrow> batch_reach E (batch_start E aborted late)"
| batch_goes_on: "batch_reach E st \<Longrightarrow> batch_step E l st = Some st' \<Longrightarrow> batch_reach E st'"

inductive_cases batch_reachE: "batch_reach E st"

lemma onTask_Some: "onTask k f st = Some st' \<longleftrightarrow> k < length (rn_tasks st) \<and> f (rn_tasks st ! k) (dropTask k st) = Some st'"
  by (simp add: onTask_def)

section \<open>The contract of an invariant\<close>

text \<open>\<open>I None\<close> holds between steps, \<open>I (Some t)\<close> when the task \<open>t\<close> has been taken out of the list.\<close>

locale batch_invariant =
  fixes E :: batch_env and I :: "task option \<Rightarrow> batch_run \<Rightarrow> bool"
  assumes start: "late \<longrightarrow> aborted \<Longrightarrow> I None (batch_start E aborted late)"
    and taken: "I None st \<Longrightarrow> k < length (rn_tasks st) \<Longrightarrow> I (Some (rn_tasks st ! k)) (dropTask k st)"
    and resumed: "I (Some t) st \<Longrightarrow> resumeTask E t st = Some st' \<Longrightarrow> I None st'"
    and rejected: "I (Some t) st \<Longrightarrow> rejectTask E t e st = Some st' \<Longrightarrow> I None st'"
    and returned: "I (Some (AwaitItem i b)) st \<Longrightarrow> I None (itemReturns E i v st)"
    and thrown: "I (Some (AwaitItem i b)) st \<Longrightarrow> I None (itemThrows E i code r st)"
    and ramp: "I None st \<Longrightarrow> rn_rampArmed st \<Longrightarrow> I None (rampFires E st)"
    and late: "I None st \<Longrightarrow> I None (st\<lparr> rn_deadlineExceeded := True \<rparr>)"
    and abort: "I None st \<Longrightarrow> \<not> rn_finished st \<Longrightarrow> I None (abortRun E st)"
    and settled: "I None st \<Longrightarrow> rn_done st = Some (Inr u) \<Longrightarrow> I None (settleBatch E elapsed st)"
    and broken: "I None st \<Longrightarrow> rn_done st = Some (Inl e) \<Longrightarrow> I None (st\<lparr> rn_finished := True, rn_rampArmed := False, rn_result := r' \<rparr>)"
begin

lemma step: "batch_step E l st = Some st' \<Longrightarrow> I None st \<Longrightarrow> I None st'"
proof (cases l)
  case (ItemReturns k v)
  then show "batch_step E l st = Some st' \<Longrightarrow> I None st \<Longrightarrow> I None st'"
    using taken [of st k] by (auto simp: onTask_Some split: task.splits bool.splits intro!: returned)
next
  case (ItemThrows k code r)
  then show "batch_step E l st = Some st' \<Longrightarrow> I None st \<Longrightarrow> I None st'"
    using taken [of st k] by (auto simp: onTask_Some split: task.splits intro!: thrown)
next
  case DeadlineFires
  then show "batch_step E l st = Some st' \<Longrightarrow> I None st \<Longrightarrow> I None st'"
    using abort [OF late, of st] by (auto split: if_splits)
qed (auto simp: onTask_Some intro: resumed rejected taken ramp abort settled broken split: if_splits option.splits sum.splits)

theorem reached: "batch_reach E st \<Longrightarrow> I None st"
  by (induction rule: batch_reach.induct) (auto intro: start step)

end

section \<open>The pool\<close>

fun is_live :: "task \<Rightarrow> bool" where
  "is_live (Failing e) = False"
| "is_live (Closing origin' status j) = False"
| "is_live (Closed origin') = False"
| "is_live (AwaitSettled result) = False"
| "is_live _ = True"

definition live :: "batch_run \<Rightarrow> int" where
  "live st = int (length (filter is_live (rn_tasks st)))"

definition pool_ok :: "batch_env \<Rightarrow> int \<Rightarrow> batch_run \<Rightarrow> bool" where
  "pool_ok E d st \<longleftrightarrow> rn_active st = live st + d \<and> rn_active st \<le> concurrencyOf E ''max'' \<and> rn_maximumActive st \<le> concurrencyOf E ''max''
     \<and> rn_active st \<le> rn_maximumActive st \<and> 1 \<le> rn_capacity st \<and> rn_capacity st \<le> concurrencyOf E ''max'' \<and> rn_capacity st \<le> int (length (rn_slots st)) \<and> rn_slots st \<noteq> []"

lemmas run_updates = addTask_def emitThen_def emitSlot_def changeSlot_def settleDone_def

lemma pool_closeQueued: "pool_ok E d st \<Longrightarrow> pool_ok E d (closeQueued E o' status from' st)"
  by (auto simp: closeQueued_def run_updates pool_ok_def live_def split: option.splits)

lemma pool_maybeComplete: "pool_ok E d st \<Longrightarrow> pool_ok E d (maybeComplete st)"
  by (auto simp: maybeComplete_def run_updates pool_ok_def live_def split: option.splits)

lemma pool_markQueued: "pool_ok E d st \<Longrightarrow> pool_ok E d (markQueuedWithoutEvents st)"
  by (auto simp: markQueuedWithoutEvents_def pool_ok_def live_def)

lemma pool_flags [simp]:
  "pool_ok E d (st\<lparr> rn_admissionClosed := b \<rparr>) = pool_ok E d st" "pool_ok E d (st\<lparr> rn_aborted := b \<rparr>) = pool_ok E d st"
  "pool_ok E d (st\<lparr> rn_fatal := f \<rparr>) = pool_ok E d st" "pool_ok E d (st\<lparr> rn_rampArmed := b \<rparr>) = pool_ok E d st"
  "pool_ok E d (st\<lparr> rn_completed := c \<rparr>) = pool_ok E d st" "pool_ok E d (st\<lparr> rn_deadlineExceeded := b \<rparr>) = pool_ok E d st"
  "pool_ok E d (st\<lparr> rn_done := r \<rparr>) = pool_ok E d st" "pool_ok E d (st\<lparr> rn_usage := u \<rparr>) = pool_ok E d st"
  "pool_ok E d (st\<lparr> rn_nextIndex := i \<rparr>) = pool_ok E d st"
  "pool_ok E d (st\<lparr> rn_result := v \<rparr>) = pool_ok E d st" "pool_ok E d (st\<lparr> rn_finished := b \<rparr>) = pool_ok E d st"
  by (auto simp: pool_ok_def live_def)

lemma pool_abortRun: "pool_ok E d st \<Longrightarrow> pool_ok E d (abortRun E st)"
  by (simp add: abortRun_def abortAdmission_def Let_def pool_closeQueued pool_maybeComplete pool_markQueued)

lemma pool_failRun: "pool_ok E d st \<Longrightarrow> pool_ok E d (batchFailRun E e st)"
  by (simp add: batchFailRun_def Let_def settleDone_def pool_abortRun pool_markQueued)

lemma pool_admitSlot: "pool_ok E d st \<Longrightarrow> rn_active st < rn_capacity st \<Longrightarrow> pool_ok E d (admitSlot E st)"
  by (auto simp: admitSlot_def Let_def run_updates pool_ok_def live_def)

lemma pool_admitSlots: "pool_ok E d st \<Longrightarrow> pool_ok E d (admitSlots E k st)"
  by (induction k arbitrary: st) (simp_all add: pool_admitSlot not_le)

lemma pool_scheduleRamp: "pool_ok E d st \<Longrightarrow> pool_ok E d (scheduleRamp E st)"
  by (simp add: scheduleRamp_def)

lemma pool_pump: "pool_ok E d st \<Longrightarrow> pool_ok E d (pump E st)"
  by (simp add: pump_def Let_def pool_admitSlots pool_closeQueued pool_scheduleRamp pool_maybeComplete)

lemma pool_release: "pool_ok E 1 st \<Longrightarrow> pool_ok E 0 (st\<lparr> rn_active := rn_active st - 1, rn_completed := c \<rparr>)"
  by (auto simp: pool_ok_def live_def)

lemma pool_slotFails: "pool_ok E 1 st \<Longrightarrow> pool_ok E 0 (slotFails e st)"
  by (auto simp: slotFails_def addTask_def pool_ok_def live_def)

lemma pool_afterLoop: "pool_ok E 1 st \<Longrightarrow> pool_ok E 0 (afterLoop E i st)"
  using pool_release [of E st "rn_completed st + 1"] pool_release [of E "st\<lparr> rn_admissionClosed := True \<rparr>" "rn_completed st + 1"]
  by (auto simp: afterLoop_def Let_def intro!: pool_closeQueued pool_maybeComplete pool_pump)

text \<open>A slot at work puts itself back among the tasks.\<close>

lemma pool_emitSlot: "pool_ok E 1 st \<Longrightarrow> is_live t \<Longrightarrow> pool_ok E 0 (emitSlot E type' i c p t st)"
  by (auto simp: run_updates pool_ok_def live_def)

lemma pool_addTask: "pool_ok E 1 st \<Longrightarrow> is_live t \<Longrightarrow> pool_ok E 0 (addTask t st)"
  by (auto simp: run_updates pool_ok_def live_def)

lemma changeSlot_simps [simp]:
  "rn_active (changeSlot i f st) = rn_active st" "rn_completed (changeSlot i f st) = rn_completed st" "rn_tasks (changeSlot i f st) = rn_tasks st"
  by (simp_all add: changeSlot_def)

lemma pool_changeSlot [simp]: "pool_ok E d (changeSlot i f st) = pool_ok E d st"
  by (auto simp: run_updates pool_ok_def live_def)

lemma pool_endLoop: "pool_ok E 1 st \<Longrightarrow> pool_ok E 0 (endLoop E i st)"
  by (auto simp: endLoop_def intro!: pool_emitSlot pool_afterLoop)

lemma pool_startAttempt: "pool_ok E 1 st \<Longrightarrow> pool_ok E 0 (startAttempt E i st)"
proof -
  assume "pool_ok E 1 st"
  then have "pool_ok E 1 (changeSlot i f st\<lparr> rn_totalAttempts := a, rn_executionAttempts := b \<rparr>)" for f a b
    by (auto simp: run_updates pool_ok_def live_def)
  then show ?thesis by (auto simp: startAttempt_def Let_def intro!: pool_emitSlot pool_slotFails split: sum.splits)
qed

lemma pool_loopHead: "pool_ok E 1 st \<Longrightarrow> pool_ok E 0 (loopHead E i st)"
  by (simp add: loopHead_def pool_startAttempt pool_endLoop)

lemma pool_item: "pool_ok E 1 st \<Longrightarrow> pool_ok E 0 (itemThrows E i code r st)" "pool_ok E 1 st \<Longrightarrow> pool_ok E 0 (itemReturns E i v st)"
proof -
  have f: "pool_ok E 1 st \<Longrightarrow> pool_ok E 0 (finishItem E i t st)" for t st
    by (auto simp: finishItem_def intro!: pool_emitSlot)
  show t: "pool_ok E 1 st \<Longrightarrow> pool_ok E 0 (itemThrows E i code r st)" for code r
    by (auto simp: itemThrows_def f pool_slotFails split: sum.splits)
  show "pool_ok E 1 st \<Longrightarrow> pool_ok E 0 (itemReturns E i v st)"
    by (auto simp: itemReturns_def f t split: sum.splits js_error.splits)
qed

lemma pool_requeueSlot: "pool_ok E 1 st \<Longrightarrow> pool_ok E 0 (requeueSlot E i t st)"
  by (auto simp: requeueSlot_def intro!: pool_emitSlot)

lemma pool_applyRateLimit: "pool_ok E 1 st \<Longrightarrow> pool_ok E 0 (applyRateLimit E i t st)"
proof -
  assume p: "pool_ok E 1 st"
  then have "pool_ok E 1 (st\<lparr> rn_capacity := max 1 (rn_capacity st div 2), rn_rampArmed := False \<rparr>)"
    by (auto simp: pool_ok_def live_def)
  then show ?thesis using p by (auto simp: applyRateLimit_def Let_def intro!: pool_emitSlot pool_addTask pool_scheduleRamp)
qed

lemma pool_afterTerminal: "pool_ok E 1 st \<Longrightarrow> pool_ok E 0 (afterTerminal E i t st)"
  by (simp add: afterTerminal_def pool_endLoop pool_applyRateLimit pool_requeueSlot)

text \<open>Taking a task out of the list.\<close>

lemma filter_drop_nth:
  "k < length xs \<Longrightarrow> length (filter p xs) = length (filter p (take k xs @ drop (Suc k) xs)) + (if p (xs ! k) then 1 else 0)"
proof -
  assume k: "k < length xs"
  have "xs = take k xs @ xs ! k # drop (Suc k) xs" using k by (rule id_take_nth_drop)
  then have "length (filter p xs) = length (filter p (take k xs @ xs ! k # drop (Suc k) xs))" by simp
  then show ?thesis by simp
qed

lemma pool_dropTask:
  assumes "pool_ok E 0 st" "k < length (rn_tasks st)"
  shows "pool_ok E (if is_live (rn_tasks st ! k) then 1 else 0) (dropTask k st)"
  using assms filter_drop_nth [OF assms(2), of is_live] by (auto simp: pool_ok_def live_def dropTask_def)

lemma pool_admissionFails: "pool_ok E 1 st \<Longrightarrow> pool_ok E 0 (admissionFails E i e st)"
  using pool_release [of E "changeSlot i (\<lambda>s. s\<lparr> sl_status := ''failed'', sl_authoritative := JBool False, sl_error := appendFailed \<rparr>) st"]
  by (simp add: admissionFails_def pool_maybeComplete pool_failRun)

lemma pool_addOther: "pool_ok E 0 st \<Longrightarrow> \<not> is_live t \<Longrightarrow> pool_ok E 0 (addTask t st)"
  by (auto simp: addTask_def pool_ok_def live_def)

lemma pool_resumeTask: "pool_ok E (if is_live t then 1 else 0) st \<Longrightarrow> resumeTask E t st = Some st' \<Longrightarrow> pool_ok E 0 st'"
  by (cases "(E, t, st)" rule: resumeTask.cases)
    (auto intro!: pool_loopHead pool_addTask pool_afterTerminal pool_requeueSlot pool_scheduleRamp pool_afterLoop pool_failRun pool_closeQueued pool_maybeComplete pool_pump)

lemma pool_rejectTask: "pool_ok E (if is_live t then 1 else 0) st \<Longrightarrow> rejectTask E t e st = Some st' \<Longrightarrow> pool_ok E 0 st'"
  by (cases "(E, t, e, st)" rule: rejectTask.cases) (auto intro!: pool_admissionFails pool_slotFails pool_addOther split: if_splits)

lemma pool_settleBatch: "pool_ok E 0 st \<Longrightarrow> pool_ok E 0 (settleBatch E elapsed st)"
  by (auto simp: settleBatch_def Let_def emitThen_def addTask_def pool_ok_def live_def split: sum.splits)

lemma pool_rampFires: "pool_ok E 0 st \<Longrightarrow> pool_ok E 0 (rampFires E st)"
proof -
  assume p: "pool_ok E 0 st"
  then have "1 \<le> length (rn_slots st)" by (cases "rn_slots st") (auto simp: pool_ok_def)
  then have "pool_ok E 0 (st\<lparr> rn_rampArmed := False, rn_capacity := min (concurrencyOf E ''max'') (min (rn_capacity st + 1) (int (length (rn_slots st)))) \<rparr>)"
    using p by (auto simp: pool_ok_def live_def)
  then show ?thesis using p by (simp add: rampFires_def Let_def pool_scheduleRamp pool_pump)
qed

text \<open>The start of a batch with items, whose definition was accepted.\<close>

definition startable :: "batch_env \<Rightarrow> bool" where
  "startable E \<longleftrightarrow> bp_items (pb_prior (ex_batch E)) \<noteq> [] \<and> 1 \<le> concurrencyOf E ''initial'' \<and> concurrencyOf E ''initial'' \<le> concurrencyOf E ''max''"

lemma pool_start: "startable E \<Longrightarrow> pool_ok E 0 (batch_start E aborted late)"
  unfolding batch_start_def Let_def
  by (rule pool_pump) (cases "bp_items (pb_prior (ex_batch E))", auto simp: startable_def pool_ok_def live_def)

definition pool_inv :: "batch_env \<Rightarrow> task option \<Rightarrow> batch_run \<Rightarrow> bool" where
  "pool_inv E taken st \<longleftrightarrow> startable E \<longrightarrow> pool_ok E (case taken of Some t \<Rightarrow> if is_live t then 1 else 0 | None \<Rightarrow> 0) st"

interpretation pool: batch_invariant E "pool_inv E" for E
proof (unfold_locales, unfold pool_inv_def option.case, goal_cases)
  case (1 late aborted) then show ?case by (simp add: pool_start)
next
  case (2 st k) then show ?case by (blast intro: pool_dropTask)
next
  case (3 t st st') then show ?case by (blast intro: pool_resumeTask)
next
  case (4 t st e st') then show ?case by (blast intro: pool_rejectTask)
qed (simp_all add: pool_item pool_rampFires pool_abortRun pool_settleBatch)

lemma startable_max: "startable E \<Longrightarrow> 1 \<le> concurrencyOf E ''max''"
  by (simp add: startable_def)

end
