(* ===== verification/Batch_Budget.thy ===== *)
theory Batch_Budget
  imports Batch_Invariant
begin

text \<open>
  The attempts of a batch run. Only slots that had not succeeded before are started; every start uses
  up one of the attempts that were left to the slot, so the attempts started and the attempts left
  always add up to what \<open>prepareBatch\<close> reserved.
\<close>

fun num_count :: "jsnum \<Rightarrow> int" where
  "num_count (Fin a) = \<lfloor>a\<rfloor>"
| "num_count _ = 0"

definition counted :: "jsnum \<Rightarrow> bool" where
  "counted n \<longleftrightarrow> (\<exists>k. n = num_of_int k \<and> 0 \<le> k \<and> k \<le> MAX_SAFE_INTEGER)"

definition attemptsLeft :: "int \<Rightarrow> jsnum \<Rightarrow> int" where
  "attemptsLeft m n = max 0 (m - num_count n)"

abbreviation prior_slots :: "batch_env \<Rightarrow> slot list" where
  "prior_slots E \<equiv> bp_items (pb_prior (ex_batch E))"

abbreviation prior_attempts :: "batch_env \<Rightarrow> jsnum list" where
  "prior_attempts E \<equiv> map sl_attempts (prior_slots E)"

definition todo :: "batch_env \<Rightarrow> nat set" where
  "todo E = {i. i < length (prior_slots E) \<and> sl_status (prior_slots E ! i) \<noteq> ''succeeded''}"

fun task_slot :: "task \<Rightarrow> nat" where
  "task_slot (AwaitQueued i) = i"
| "task_slot (AwaitStarted i) = i"
| "task_slot (AwaitItem i b) = i"
| "task_slot (AwaitTerminal i t) = i"
| "task_slot (AwaitCapacity i t b) = i"
| "task_slot (AwaitRequeue i t) = i"
| "task_slot (AwaitDelay i ms) = i"
| "task_slot (AwaitCancelled i) = i"
| "task_slot _ = 0"

definition busy_in :: "batch_env \<Rightarrow> task \<Rightarrow> bool" where
  "busy_in E t \<longleftrightarrow> is_live t \<longrightarrow> task_slot t \<in> todo E"

definition maxAttemptsIs :: "batch_env \<Rightarrow> int \<Rightarrow> bool" where
  "maxAttemptsIs E m \<longleftrightarrow> retryOf E ''maxAttempts'' = num_of_int m \<and> 1 \<le> m \<and> m \<le> 8 \<and> list_all counted (prior_attempts E)"

definition spent_ok :: "batch_env \<Rightarrow> int \<Rightarrow> jsnum list \<Rightarrow> int \<Rightarrow> bool" where
  "spent_ok E m ns spent \<longleftrightarrow> length ns = length (prior_slots E) \<and> list_all counted ns
     \<and> list_all2 (\<lambda>p n. num_count n \<le> max (num_count p) m) (prior_attempts E) ns
     \<and> spent + (\<Sum>i\<in>todo E. attemptsLeft m (ns ! i)) = (\<Sum>i\<in>todo E. attemptsLeft m (prior_attempts E ! i))"

definition budget_ok :: "batch_env \<Rightarrow> int \<Rightarrow> batch_run \<Rightarrow> bool" where
  "budget_ok E m st \<longleftrightarrow> spent_ok E m (map sl_attempts (rn_slots st)) (rn_executionAttempts st)
     \<and> (\<forall>i < length (rn_slots st). rn_nextIndex st \<le> i \<and> i \<notin> todo E \<longrightarrow> sl_status (rn_slots st ! i) = ''succeeded'')
     \<and> list_all (busy_in E) (rn_tasks st)"

section \<open>Slots and counts\<close>

lemma finite_todo [simp]: "finite (todo E)"
  by (simp add: todo_def)

lemma attemptsLeft_nonneg [simp]: "0 \<le> attemptsLeft m s"
  by (simp add: attemptsLeft_def)

lemma num_count_int [simp]: "num_count (num_of_int k) = k"
  by simp

text \<open>One more attempt of a slot that has one left.\<close>

lemma spent_attempt:
  assumes "spent_ok E m ns spent" "maxAttemptsIs E m" "i \<in> todo E" "num_less (ns ! i) (num_of_int m)"
  shows "spent_ok E m (ns[i := num_add (ns ! i) (Fin 1)]) (spent + 1)"
proof -
  have i: "i < length ns" using assms(1,3) by (simp add: spent_ok_def todo_def)
  have c: "counted (ns ! i)" using assms(1) i by (simp add: spent_ok_def list_all_length)
  then obtain k where k: "ns ! i = num_of_int k" "0 \<le> k" "k < m" using assms(4) by (auto simp: counted_def)
  have m: "m \<le> 8" using assms(2) by (simp add: maxAttemptsIs_def)
  have "num_add (num_of_int k) (num_of_int 1) = num_of_int (k + 1)" by (rule num_add_ints) (use k m in simp)
  then have n: "num_add (ns ! i) (Fin 1) = num_of_int (k + 1)" using k(1) by simp
  have cs: "counted (num_of_int (k + 1))" unfolding counted_def using k m by (intro exI [of _ "k + 1"]) (simp add: MAX_SAFE_INTEGER_def)
  have "(\<Sum>j\<in>todo E. attemptsLeft m (ns[i := num_of_int (k + 1)] ! j)) = attemptsLeft m (num_of_int (k + 1)) + (\<Sum>j\<in>todo E - {i}. attemptsLeft m (ns ! j))"
    using assms(3) i by (subst sum.remove [of _ i]) (auto intro!: sum.cong)
  moreover have "(\<Sum>j\<in>todo E. attemptsLeft m (ns ! j)) = attemptsLeft m (ns ! i) + (\<Sum>j\<in>todo E - {i}. attemptsLeft m (ns ! j))"
    using assms(3) by (subst sum.remove [of _ i]) auto
  moreover have "attemptsLeft m (ns ! i) = attemptsLeft m (num_of_int (k + 1)) + 1" using k by (simp add: attemptsLeft_def del: of_int_add)
  ultimately have sum: "spent + 1 + (\<Sum>j\<in>todo E. attemptsLeft m (ns[i := num_of_int (k + 1)] ! j)) = spent + (\<Sum>j\<in>todo E. attemptsLeft m (ns ! j))" by linarith
  have "num_count (num_of_int (k + 1)) \<le> max (num_count (prior_attempts E ! i)) m" using k by (simp del: of_int_add)
  then have "list_all2 (\<lambda>p n. num_count n \<le> max (num_count p) m) (prior_attempts E) (ns[i := num_of_int (k + 1)])"
    using assms(1) list_all2_update_cong [of "\<lambda>p n. num_count n \<le> max (num_count p) m" "prior_attempts E" ns "prior_attempts E ! i" "num_of_int (k + 1)" i]
    by (simp add: spent_ok_def del: of_int_add)
  moreover have "list_all counted (ns[i := num_of_int (k + 1)])"
    using assms(1) cs set_update_subset_insert [of ns i "num_of_int (k + 1)"] unfolding spent_ok_def list_all_iff by blast
  ultimately show ?thesis using assms(1) sum unfolding n by (simp add: spent_ok_def del: of_int_add)
qed

section \<open>The operations\<close>

lemma budget_fields:
  "budget_ok E m (st\<lparr> rn_admissionClosed := b \<rparr>) = budget_ok E m st" "budget_ok E m (st\<lparr> rn_aborted := b \<rparr>) = budget_ok E m st"
  "budget_ok E m (st\<lparr> rn_fatal := f \<rparr>) = budget_ok E m st" "budget_ok E m (st\<lparr> rn_rampArmed := b \<rparr>) = budget_ok E m st"
  "budget_ok E m (st\<lparr> rn_completed := c \<rparr>) = budget_ok E m st" "budget_ok E m (st\<lparr> rn_deadlineExceeded := b \<rparr>) = budget_ok E m st"
  "budget_ok E m (st\<lparr> rn_done := r \<rparr>) = budget_ok E m st" "budget_ok E m (st\<lparr> rn_usage := u \<rparr>) = budget_ok E m st"
  "budget_ok E m (st\<lparr> rn_result := v \<rparr>) = budget_ok E m st" "budget_ok E m (st\<lparr> rn_finished := b \<rparr>) = budget_ok E m st"
  "budget_ok E m (st\<lparr> rn_active := c \<rparr>) = budget_ok E m st" "budget_ok E m (st\<lparr> rn_capacity := c \<rparr>) = budget_ok E m st"
  "budget_ok E m (st\<lparr> rn_emitted := es \<rparr>) = budget_ok E m st" "budget_ok E m (st\<lparr> rn_maximumActive := c \<rparr>) = budget_ok E m st"
  by (auto simp: budget_ok_def)

declare budget_fields [simp]

lemma budget_tasks: "budget_ok E m (st\<lparr> rn_tasks := rn_tasks st @ [t] \<rparr>) \<longleftrightarrow> budget_ok E m st \<and> busy_in E t"
  by (auto simp: budget_ok_def)

lemma budget_addTask [simp]: "budget_ok E m (addTask t st) \<longleftrightarrow> budget_ok E m st \<and> busy_in E t"
  by (simp add: addTask_def budget_tasks)

lemma budget_emitSlot [simp]: "budget_ok E m (emitSlot E' type' i c p t st) \<longleftrightarrow> budget_ok E m st \<and> busy_in E t"
  by (simp add: emitSlot_def emitThen_def)

lemma changed_attempts: "(\<And>s. sl_attempts (f s) = sl_attempts s) \<Longrightarrow> map sl_attempts (rn_slots (changeSlot i f st)) = map sl_attempts (rn_slots st)"
  by (cases "i < length (rn_slots st)") (simp_all add: changeSlot_def map_update list_update_same_conv list_update_beyond)

lemma budget_changeSlot:
  assumes "budget_ok E m st" "i \<in> todo E \<or> sl_status (rn_slots st ! i) = ''queued''" "\<And>s. sl_attempts (f s) = sl_attempts s"
  shows "budget_ok E m (changeSlot i f st)"
proof -
  have "i \<noteq> j" if "j < length (rn_slots st)" "rn_nextIndex st \<le> j" "j \<notin> todo E" for j
    using assms(1,2) that by (auto simp: budget_ok_def)
  moreover have "map sl_attempts (rn_slots (changeSlot i f st)) = map sl_attempts (rn_slots st)" using assms(3) by (rule changed_attempts)
  ultimately show ?thesis using assms(1) by (auto simp: budget_ok_def changeSlot_def)
qed

lemma nextQueued_Some: "nextQueued slots from' = Some j \<Longrightarrow> from' \<le> j \<and> j < length slots \<and> sl_status (slots ! j) = ''queued''"
  by (auto simp: nextQueued_def find_Some_iff)

lemma budget_closeQueued: "budget_ok E m st \<Longrightarrow> budget_ok E m (closeQueued E o' status from' st)"
  by (auto simp: closeQueued_def busy_in_def intro!: budget_changeSlot dest!: nextQueued_Some split: option.splits)

lemma budget_maybeComplete [simp]: "budget_ok E m (maybeComplete st) = budget_ok E m st"
  by (auto simp: maybeComplete_def settleDone_def split: option.splits)

lemma marked_attempts [simp]: "map sl_attempts (rn_slots (markQueuedWithoutEvents st)) = map sl_attempts (rn_slots st)"
  by (simp add: markQueuedWithoutEvents_def comp_def if_distrib cong: map_cong)

lemma budget_markQueued: "budget_ok E m st \<Longrightarrow> budget_ok E m (markQueuedWithoutEvents st)"
  unfolding budget_ok_def marked_attempts by (auto simp: markQueuedWithoutEvents_def)

lemma budget_abortRun: "budget_ok E m st \<Longrightarrow> budget_ok E m (abortRun E st)"
  by (simp add: abortRun_def abortAdmission_def Let_def budget_closeQueued budget_markQueued)

lemma budget_failRun: "budget_ok E m st \<Longrightarrow> budget_ok E m (batchFailRun E e st)"
  by (simp add: batchFailRun_def Let_def settleDone_def budget_abortRun budget_markQueued)

lemma budget_admitSlot:
  assumes "budget_ok E m st" "rn_nextIndex st < length (rn_slots st)"
  shows "budget_ok E m (admitSlot E st)"
proof -
  have "budget_ok E m (st\<lparr> rn_nextIndex := Suc (rn_nextIndex st) \<rparr>)" using assms(1) by (auto simp: budget_ok_def)
  moreover have "sl_status (rn_slots st ! rn_nextIndex st) \<noteq> ''succeeded'' \<Longrightarrow> rn_nextIndex st \<in> todo E"
    using assms by (auto simp: budget_ok_def)
  ultimately show ?thesis by (simp add: admitSlot_def Let_def busy_in_def)
qed

lemma budget_admitSlots: "budget_ok E m st \<Longrightarrow> budget_ok E m (admitSlots E k st)"
  by (induction k arbitrary: st) (simp_all add: budget_admitSlot not_le)

lemma budget_scheduleRamp [simp]: "budget_ok E m (scheduleRamp E st) = budget_ok E m st"
  by (simp add: scheduleRamp_def)

lemma budget_pump: "budget_ok E m st \<Longrightarrow> budget_ok E m (pump E st)"
  by (simp add: pump_def Let_def budget_admitSlots budget_closeQueued)

lemma budget_slotFails [simp]: "budget_ok E m (slotFails e st) = budget_ok E m st"
  by (simp add: slotFails_def busy_in_def)

lemma budget_afterLoop: "budget_ok E m st \<Longrightarrow> budget_ok E m (afterLoop E i st)"
  by (simp add: afterLoop_def Let_def budget_closeQueued budget_pump)

lemma budget_endLoop: "budget_ok E m st \<Longrightarrow> i \<in> todo E \<Longrightarrow> budget_ok E m (endLoop E i st)"
  by (simp add: endLoop_def budget_afterLoop budget_changeSlot busy_in_def)

lemma budget_startAttempt:
  assumes "budget_ok E m st" "i \<in> todo E" "maxAttemptsIs E m" "num_less (sl_attempts (rn_slots st ! i)) (num_of_int m)"
  shows "budget_ok E m (startAttempt E i st)"
proof -
  let ?f = "\<lambda>s. s\<lparr> sl_attempts := num_add (sl_attempts s) (Fin 1) \<rparr>"
  have i: "i < length (rn_slots st)" using assms(1,2) by (simp add: budget_ok_def spent_ok_def todo_def)
  have "spent_ok E m ((map sl_attempts (rn_slots st))[i := num_add (map sl_attempts (rn_slots st) ! i) (Fin 1)]) (rn_executionAttempts st + 1)"
    using assms i by (intro spent_attempt) (auto simp: budget_ok_def)
  moreover have "i \<noteq> j" if "j \<notin> todo E" for j using assms(2) that by blast
  ultimately have "budget_ok E m (changeSlot i ?f st\<lparr> rn_totalAttempts := a, rn_executionAttempts := rn_executionAttempts st + 1 \<rparr>)" for a
    using assms(1) i by (auto simp: budget_ok_def changeSlot_def map_update)
  then show ?thesis using assms(2)
    by (auto simp: startAttempt_def Let_def busy_in_def intro!: budget_changeSlot split: sum.splits)
qed

lemma budget_loopHead: "budget_ok E m st \<Longrightarrow> i \<in> todo E \<Longrightarrow> maxAttemptsIs E m \<Longrightarrow> budget_ok E m (loopHead E i st)"
  using budget_startAttempt [of E m st i] budget_endLoop [of E m st i] by (auto simp: loopHead_def maxAttemptsIs_def)

lemma budget_item:
  assumes "budget_ok E m st" "i \<in> todo E"
  shows "budget_ok E m (itemThrows E i code r st)" "budget_ok E m (itemReturns E i v st)"
proof -
  have f: "budget_ok E m (finishItem E i t st)" for t
    using assms by (simp add: finishItem_def budget_changeSlot busy_in_def finishedSlot_def)
  show t: "budget_ok E m (itemThrows E i code r st)" for code r
    using assms by (auto simp: itemThrows_def f split: sum.splits)
  show "budget_ok E m (itemReturns E i v st)"
    by (auto simp: itemReturns_def f t split: sum.splits js_error.splits)
qed

lemma budget_requeueSlot: "budget_ok E m st \<Longrightarrow> i \<in> todo E \<Longrightarrow> budget_ok E m (requeueSlot E i t st)"
  by (simp add: requeueSlot_def budget_changeSlot busy_in_def)

lemma budget_afterTerminal: "budget_ok E m st \<Longrightarrow> i \<in> todo E \<Longrightarrow> budget_ok E m (afterTerminal E i t st)"
  by (simp add: afterTerminal_def applyRateLimit_def Let_def busy_in_def budget_endLoop budget_requeueSlot)

lemma budget_admissionFails: "budget_ok E m st \<Longrightarrow> i \<in> todo E \<Longrightarrow> budget_ok E m (admissionFails E i e st)"
  by (simp add: admissionFails_def budget_failRun budget_changeSlot)

lemma budget_dropTask:
  assumes "budget_ok E m st" "k < length (rn_tasks st)"
  shows "budget_ok E m (dropTask k st) \<and> busy_in E (rn_tasks st ! k)"
  using assms nth_mem [OF assms(2)] by (auto simp: budget_ok_def dropTask_def list_all_iff dest: in_set_takeD in_set_dropD)

lemma budget_resumeTask: "budget_ok E m st \<and> busy_in E t \<Longrightarrow> maxAttemptsIs E m \<Longrightarrow> resumeTask E t st = Some st' \<Longrightarrow> budget_ok E m st'"
  by (cases "(E, t, st)" rule: resumeTask.cases)
    (auto simp: busy_in_def intro!: budget_loopHead budget_afterTerminal budget_requeueSlot budget_afterLoop budget_failRun budget_closeQueued budget_pump)

lemma budget_rejectTask: "budget_ok E m st \<and> busy_in E t \<Longrightarrow> rejectTask E t e st = Some st' \<Longrightarrow> budget_ok E m st'"
  by (cases "(E, t, e, st)" rule: rejectTask.cases) (auto simp: busy_in_def intro!: budget_admissionFails split: if_splits)

lemma budget_settleBatch: "budget_ok E m st \<Longrightarrow> budget_ok E m (settleBatch E elapsed st)"
  by (auto simp: settleBatch_def Let_def emitThen_def busy_in_def split: sum.splits)

lemma budget_rampFires: "budget_ok E m st \<Longrightarrow> budget_ok E m (rampFires E st)"
  by (simp add: rampFires_def Let_def budget_pump)

lemma budget_start:
  assumes "maxAttemptsIs E m"
  shows "budget_ok E m (batch_start E aborted late)"
  unfolding batch_start_def Let_def
  by (rule budget_pump) (use assms in \<open>auto simp: maxAttemptsIs_def budget_ok_def spent_ok_def todo_def list_all2_conv_all_nth\<close>)

definition budget_inv :: "batch_env \<Rightarrow> int \<Rightarrow> task option \<Rightarrow> batch_run \<Rightarrow> bool" where
  "budget_inv E m taken st \<longleftrightarrow> maxAttemptsIs E m \<longrightarrow> budget_ok E m st \<and> (case taken of Some t \<Rightarrow> busy_in E t | None \<Rightarrow> True)"

interpretation attempts: batch_invariant E "budget_inv E m" for E m
proof (unfold_locales, unfold budget_inv_def option.case, goal_cases)
  case (2 st k) then show ?case by (blast dest: budget_dropTask)
next
  case (3 t st st') then show ?case by (blast intro: budget_resumeTask)
next
  case (4 t st e st') then show ?case by (blast intro: budget_rejectTask)
qed (simp_all add: budget_start budget_item budget_rampFires budget_abortRun budget_settleBatch busy_in_def)

end
