(* ===== verification/Batch_Progress.thy ===== *)
theory Batch_Progress
  imports Batch_Budget
begin

text \<open>
  A batch whose slots all start queued is never stuck: when no continuation waits any more, \<open>done\<close> has
  been settled. The invariant counts the slots: every slot is at work, counted as completed, or still queued
  and not admitted, and while the latter exist either the pump is saturated or a \<open>closeQueued\<close> loop
  has still to pass them.
\<close>

section \<open>The invariant\<close>

definition open_slots :: "batch_run \<Rightarrow> nat set" where
  "open_slots st = {i. rn_nextIndex st \<le> i \<and> i < length (rn_slots st) \<and> sl_status (rn_slots st ! i) = ''queued''}"

definition good_task :: "batch_run \<Rightarrow> task \<Rightarrow> bool" where
  "good_task st t \<longleftrightarrow> (is_live t \<longrightarrow> task_slot t < rn_nextIndex st) \<and> (\<forall>o' status j. t = Closing o' status j \<longrightarrow> status \<noteq> ''queued'')"

text \<open>Every slot is counted, and who aborts or fails closes the admission.\<close>

definition flow :: "batch_run \<Rightarrow> bool" where
  "flow st \<longleftrightarrow> rn_nextIndex st \<le> length (rn_slots st)
     \<and> int (length (rn_slots st)) \<le> rn_completed st + rn_active st + int (card (open_slots st))
     \<and> (rn_aborted st \<longrightarrow> rn_admissionClosed st) \<and> (rn_fatal st \<noteq> None \<longrightarrow> rn_admissionClosed st) \<and> list_all (good_task st) (rn_tasks st)"

text \<open>What still takes care of the open slots: a loop that has to pass them, or a failure of the run.\<close>

fun helps :: "batch_run \<Rightarrow> task \<Rightarrow> bool" where
  "helps st (Closing o' status j) = (\<forall>i\<in>open_slots st. j < i)"
| "helps st (Failing e) = True"
| "helps st _ = False"

fun is_failing :: "task \<Rightarrow> bool" where
  "is_failing (Failing e) = True"
| "is_failing _ = False"

definition closes :: "batch_run \<Rightarrow> bool" where
  "closes st \<longleftrightarrow> rn_admissionClosed st \<and> rn_fatal st = None \<longrightarrow> open_slots st = {} \<or> list_ex (helps st) (rn_tasks st)"

definition saturated :: "batch_run \<Rightarrow> bool" where
  "saturated st \<longleftrightarrow> rn_admissionClosed st \<or> rn_capacity st \<le> rn_active st \<or> length (rn_slots st) \<le> rn_nextIndex st \<or> list_ex is_failing (rn_tasks st)"

definition steady :: "batch_run \<Rightarrow> bool" where
  "steady st \<longleftrightarrow> flow st \<and> closes st \<and> saturated st"

text \<open>Only the event of the settled batch may still be on its way when the run is done.\<close>

fun is_settling :: "task \<Rightarrow> bool" where
  "is_settling (AwaitSettled result) = True"
| "is_settling _ = False"

definition settled_if_idle :: "batch_run \<Rightarrow> bool" where
  "settled_if_idle st \<longleftrightarrow> list_all is_settling (rn_tasks st) \<longrightarrow> rn_done st \<noteq> None"

lemma finite_open [simp]: "finite (open_slots st)"
  by (simp add: open_slots_def)

text \<open>An idle run that is steady is completed.\<close>

lemma settling_task: "is_settling t \<Longrightarrow> \<not> is_live t \<and> \<not> helps st t \<and> \<not> is_failing t"
  by (cases t) auto

lemma idle_completes:
  assumes "pool_ok E 0 st" "steady st"
  shows "settled_if_idle (maybeComplete st)"
  unfolding settled_if_idle_def
proof
  assume "list_all is_settling (rn_tasks (maybeComplete st))"
  then have "list_all is_settling (rn_tasks st)" by (simp add: maybeComplete_def settleDone_def split: option.splits if_splits)
  then have t: "filter is_live (rn_tasks st) = []" "\<not> list_ex (helps st) (rn_tasks st)" "\<not> list_ex is_failing (rn_tasks st)"
    using settling_task by (auto simp: list_all_iff list_ex_iff filter_empty_conv)
  then have a: "rn_active st = 0" "1 \<le> rn_capacity st" using assms(1) by (auto simp: pool_ok_def live_def)
  then have "open_slots st = {} \<or> rn_fatal st \<noteq> None"
    using assms(2) t by (auto simp: steady_def closes_def saturated_def open_slots_def)
  then show "rn_done (maybeComplete st) \<noteq> None"
    using assms(2) a by (auto simp: steady_def flow_def maybeComplete_def settleDone_def split: option.splits)
qed

section \<open>Updates\<close>

lemma open_fields [simp]:
  "open_slots (st\<lparr> rn_admissionClosed := b \<rparr>) = open_slots st" "open_slots (st\<lparr> rn_aborted := b \<rparr>) = open_slots st"
  "open_slots (st\<lparr> rn_fatal := f \<rparr>) = open_slots st" "open_slots (st\<lparr> rn_rampArmed := b \<rparr>) = open_slots st"
  "open_slots (st\<lparr> rn_completed := c \<rparr>) = open_slots st" "open_slots (st\<lparr> rn_deadlineExceeded := b \<rparr>) = open_slots st"
  "open_slots (st\<lparr> rn_done := r \<rparr>) = open_slots st" "open_slots (st\<lparr> rn_usage := u \<rparr>) = open_slots st"
  "open_slots (st\<lparr> rn_result := v \<rparr>) = open_slots st" "open_slots (st\<lparr> rn_finished := b \<rparr>) = open_slots st"
  "open_slots (st\<lparr> rn_active := c \<rparr>) = open_slots st" "open_slots (st\<lparr> rn_capacity := c \<rparr>) = open_slots st"
  "open_slots (st\<lparr> rn_emitted := es \<rparr>) = open_slots st" "open_slots (st\<lparr> rn_maximumActive := c \<rparr>) = open_slots st"
  "open_slots (st\<lparr> rn_tasks := ts \<rparr>) = open_slots st" "open_slots (st\<lparr> rn_totalAttempts := n \<rparr>) = open_slots st"
  "open_slots (st\<lparr> rn_executionAttempts := c \<rparr>) = open_slots st"
  by (auto simp: open_slots_def)

lemma helps_open: "open_slots st' = open_slots st \<Longrightarrow> helps st' = helps st"
  by (rule ext) (case_tac x; simp)

lemma good_task_next: "rn_nextIndex st' = rn_nextIndex st \<Longrightarrow> good_task st' = good_task st"
  by (rule ext) (simp add: good_task_def)

text \<open>An admitted slot does not matter to the open ones.\<close>

lemma open_changeSlot [simp]: "i < rn_nextIndex st \<Longrightarrow> open_slots (changeSlot i f st) = open_slots st"
  by (auto simp: open_slots_def changeSlot_def)

text \<open>Two states that agree on what the invariant reads.\<close>

lemma flow_same:
  assumes "open_slots st' = open_slots st" "rn_nextIndex st' = rn_nextIndex st" "length (rn_slots st') = length (rn_slots st)"
    "rn_completed st' + rn_active st' = rn_completed st + rn_active st" "rn_aborted st' = rn_aborted st" "rn_fatal st' = rn_fatal st"
    "rn_admissionClosed st' = rn_admissionClosed st" "rn_tasks st' = rn_tasks st @ ts" "list_all (good_task st) ts"
  shows "flow st \<Longrightarrow> flow st'"
  using assms good_task_next [OF assms(2)] by (simp add: flow_def)

lemma closes_same:
  assumes "open_slots st' = open_slots st" "rn_fatal st' = rn_fatal st" "rn_admissionClosed st' = rn_admissionClosed st" "rn_tasks st' = rn_tasks st @ ts"
  shows "closes st \<Longrightarrow> closes st'"
  using assms helps_open [OF assms(1)] by (auto simp: closes_def)

lemma saturated_same:
  assumes "rn_nextIndex st' = rn_nextIndex st" "length (rn_slots st') = length (rn_slots st)" "rn_capacity st' - rn_active st' \<le> rn_capacity st - rn_active st"
    "rn_admissionClosed st' = rn_admissionClosed st" "rn_tasks st' = rn_tasks st @ ts"
  shows "saturated st \<Longrightarrow> saturated st'"
  using assms by (auto simp: saturated_def)

lemmas steady_same = flow_same closes_same saturated_same

text \<open>A slot at work goes on to wait.\<close>

lemma steady_addTask: "steady st \<Longrightarrow> good_task st t \<Longrightarrow> steady (addTask t st)"
  unfolding steady_def by (auto intro!: steady_same [of _ st "[t]"] simp: addTask_def)

lemma steady_emitSlot: "steady st \<Longrightarrow> good_task st t \<Longrightarrow> steady (emitSlot E type' i c p t st)"
  unfolding steady_def by (auto intro!: steady_same [of _ st "[t]"] simp: emitSlot_def emitThen_def addTask_def)

lemma steady_changeSlot: "steady st \<Longrightarrow> i < rn_nextIndex st \<Longrightarrow> steady (changeSlot i f st)"
  unfolding steady_def by (auto intro!: steady_same [of _ st "[]"]) (auto simp: changeSlot_def)

text \<open>Fields without meaning for the invariant.\<close>

lemma steady_agree:
  assumes "open_slots st' = open_slots st" "rn_nextIndex st' = rn_nextIndex st" "rn_slots st' = rn_slots st" "rn_completed st' = rn_completed st"
    "rn_active st' = rn_active st" "rn_aborted st' = rn_aborted st" "rn_fatal st' = rn_fatal st" "rn_admissionClosed st' = rn_admissionClosed st"
    "rn_tasks st' = rn_tasks st" "rn_capacity st' = rn_capacity st"
  shows "steady st' = steady st"
  using assms helps_open [OF assms(1)] good_task_next [OF assms(2)] by (simp add: steady_def flow_def closes_def saturated_def)

lemma steady_fields [simp]:
  "steady (st\<lparr> rn_rampArmed := b \<rparr>) = steady st" "steady (st\<lparr> rn_deadlineExceeded := b \<rparr>) = steady st" "steady (st\<lparr> rn_done := r \<rparr>) = steady st"
  "steady (st\<lparr> rn_usage := u \<rparr>) = steady st" "steady (st\<lparr> rn_result := v \<rparr>) = steady st" "steady (st\<lparr> rn_finished := b \<rparr>) = steady st"
  "steady (st\<lparr> rn_emitted := es \<rparr>) = steady st" "steady (st\<lparr> rn_totalAttempts := n, rn_executionAttempts := c \<rparr>) = steady st"
  by (rule steady_agree; simp)+

lemma steady_maybeComplete [simp]: "steady (maybeComplete st) = steady st"
  by (simp add: maybeComplete_def settleDone_def split: option.splits)

lemma steady_scheduleRamp [simp]: "steady (scheduleRamp E st) = steady st"
  by (simp add: scheduleRamp_def)

section \<open>Closing\<close>

lemma open_marked: "status \<noteq> ''queued'' \<Longrightarrow> open_slots (changeSlot j (\<lambda>s. s\<lparr> sl_status := status \<rparr>) st) = open_slots st - {j}"
  by (cases "j < length (rn_slots st)") (auto simp: open_slots_def changeSlot_def nth_list_update list_update_beyond split: if_splits)

lemma nextQueued_None: "nextQueued slots from' = None \<Longrightarrow> from' \<le> i \<Longrightarrow> i < length slots \<Longrightarrow> sl_status (slots ! i) \<noteq> ''queued''"
  by (auto simp: nextQueued_def find_None_iff)

lemma nextQueued_first: "nextQueued slots from' = Some j \<Longrightarrow> from' \<le> i \<Longrightarrow> i < length slots \<Longrightarrow> sl_status (slots ! i) = ''queued'' \<Longrightarrow> j \<le> i"
  unfolding nextQueued_def find_Some_iff
proof (elim exE conjE)
  fix k assume k: "k < length [from'..<length slots]" "sl_status (slots ! ([from'..<length slots] ! k)) = ''queued''" "j = [from'..<length slots] ! k"
    and before: "\<forall>l<k. sl_status (slots ! ([from'..<length slots] ! l)) \<noteq> ''queued''" and i: "from' \<le> i" "i < length slots" "sl_status (slots ! i) = ''queued''"
  have "\<not> i - from' < k" using before i by auto
  then show "j \<le> i" using k i by simp
qed

lemma closeQueued_flow:
  assumes "flow st" "status \<noteq> ''queued''"
  shows "flow (closeQueued E o' status from' st)"
proof (cases "nextQueued (rn_slots st) from'")
  case None
  then show ?thesis using assms by (auto simp: closeQueued_def addTask_def good_task_def intro!: flow_same [of _ st "[Closed o']"])
next
  case (Some j)
  let ?m = "changeSlot j (\<lambda>s. s\<lparr> sl_status := status \<rparr>) st\<lparr> rn_completed := rn_completed st + 1 \<rparr>"
  have "int (card (open_slots st)) \<le> 1 + int (card (open_slots st - {j}))" by (cases "j \<in> open_slots st") (simp_all add: card_Diff_singleton)
  then have "flow ?m" using assms good_task_next [of ?m st] by (simp add: flow_def open_marked) (simp add: changeSlot_def)
  moreover have "good_task ?m (Closing o' status j)" using assms by (simp add: good_task_def)
  ultimately show ?thesis using Some
    by (auto simp: closeQueued_def emitSlot_def emitThen_def addTask_def intro!: flow_same [of _ ?m "[Closing o' status j]"])
qed

lemma closeQueued_closes:
  assumes "\<forall>i\<in>open_slots st. from' \<le> i" "status \<noteq> ''queued''"
  shows "closes (closeQueued E o' status from' st)"
proof (cases "nextQueued (rn_slots st) from'")
  case None
  then have "open_slots st = {}" using assms(1) nextQueued_None [OF None] by (auto simp: open_slots_def)
  then show ?thesis using None by (simp add: closeQueued_def closes_def addTask_def)
next
  case (Some j)
  then have "\<forall>i\<in>open_slots st - {j}. j < i" using assms(1) nextQueued_first [OF Some] by (fastforce simp: open_slots_def)
  then show ?thesis using Some assms(2) by (auto simp: closeQueued_def closes_def emitSlot_def emitThen_def addTask_def open_marked)
qed

lemma closeQueued_keeps_closes:
  assumes "closes st" "status \<noteq> ''queued''"
  shows "closes (closeQueued E o' status from' st)"
proof (cases "nextQueued (rn_slots st) from'")
  case None
  then show ?thesis using assms by (auto simp: closeQueued_def addTask_def intro!: closes_same [of _ st "[Closed o']"])
next
  case (Some j)
  let ?st = "closeQueued E o' status from' st"
  have o: "open_slots ?st = open_slots st - {j}" using Some assms(2) by (simp add: closeQueued_def emitSlot_def emitThen_def addTask_def open_marked)
  then have h: "helps st t \<Longrightarrow> helps ?st t" for t by (cases t) auto
  have "rn_tasks ?st = rn_tasks st @ [Closing o' status j]" "rn_fatal ?st = rn_fatal st" "rn_admissionClosed ?st = rn_admissionClosed st"
    using Some by (simp_all add: closeQueued_def emitSlot_def emitThen_def addTask_def changeSlot_def)
  then show ?thesis using assms(1) o h by (auto simp: closes_def list_ex_iff)
qed

lemma closeQueued_saturated: "saturated st \<Longrightarrow> saturated (closeQueued E o' status from' st)"
  by (auto simp: closeQueued_def saturated_def emitSlot_def emitThen_def addTask_def changeSlot_def split: option.splits)

lemma closed_saturated: "rn_admissionClosed st \<Longrightarrow> saturated st"
  by (simp add: saturated_def)

lemma closeQueued_simps [simp]:
  "rn_admissionClosed (closeQueued E o' status from' st) = rn_admissionClosed st" "\<not> list_all is_settling (rn_tasks (closeQueued E o' status from' st))"
  by (simp_all add: closeQueued_def emitSlot_def emitThen_def addTask_def changeSlot_def split: option.splits)

lemma closeStatus_not_queued [simp]: "closeStatus st \<noteq> ''queued''"
  by (simp add: closeStatus_def)

text \<open>A loop from the first slot takes care of every open slot.\<close>

lemma steady_closeQueued: "flow st \<Longrightarrow> rn_admissionClosed st \<Longrightarrow> status \<noteq> ''queued'' \<Longrightarrow> steady (closeQueued E o' status 0 st)"
  by (simp add: steady_def closeQueued_flow closeQueued_closes closed_saturated)

section \<open>Failing and aborting\<close>

lemma open_none [simp]: "open_slots (markQueuedWithoutEvents st) = {}"
  by (auto simp: open_slots_def markQueuedWithoutEvents_def)

lemma flow_markQueued: "flow st \<Longrightarrow> flow (markQueuedWithoutEvents st)"
proof -
  assume f: "flow st"
  have "open_slots st \<subseteq> {i. i < length (rn_slots st) \<and> sl_status (rn_slots st ! i) = ''queued''}" by (auto simp: open_slots_def)
  then have "card (open_slots st) \<le> length (filter (\<lambda>s. sl_status s = ''queued'') (rn_slots st))"
    unfolding length_filter_conv_card by (rule card_mono [rotated]) simp
  then show ?thesis using f good_task_next [of "markQueuedWithoutEvents st" st]
    by (simp add: flow_def) (simp add: markQueuedWithoutEvents_def)
qed

lemma flow_fatal: "flow st \<Longrightarrow> flow (st\<lparr> rn_fatal := Some e, rn_admissionClosed := True \<rparr>)"
  using good_task_next [of "st\<lparr> rn_fatal := Some e, rn_admissionClosed := True \<rparr>" st] by (simp add: flow_def)

lemma flow_aborted: "flow st \<Longrightarrow> flow (st\<lparr> rn_aborted := True, rn_admissionClosed := True \<rparr>)"
  using good_task_next [of "st\<lparr> rn_aborted := True, rn_admissionClosed := True \<rparr>" st] by (simp add: flow_def)

lemma fatal_steady: "flow st \<Longrightarrow> rn_fatal st \<noteq> None \<Longrightarrow> steady st"
  by (auto simp: steady_def closes_def saturated_def flow_def)

lemma abort_fields [simp]: "rn_fatal (abortRun E st) = rn_fatal st" "rn_fatal (markQueuedWithoutEvents st) = rn_fatal st"
  by (simp_all add: abortRun_def abortAdmission_def Let_def maybeComplete_def settleDone_def markQueuedWithoutEvents_def closeQueued_def emitSlot_def emitThen_def
     addTask_def changeSlot_def split: option.splits)

lemma flow_steady: "steady st \<Longrightarrow> flow st"
  by (simp add: steady_def)

lemma flow_maybeComplete: "flow st \<Longrightarrow> flow (maybeComplete st)"
  by (auto simp: maybeComplete_def settleDone_def intro!: flow_same [of _ st "[]"] split: option.splits)

lemma steady_abortRun:
  assumes "steady st" "\<not> rn_finished st"
  shows "steady (abortRun E st)"
proof -
  let ?a = "st\<lparr> rn_aborted := True, rn_admissionClosed := True \<rparr>"
  have f: "flow ?a" using assms(1) by (intro flow_aborted flow_steady)
  have "steady (closeQueued E FromPump ''cancelled'' 0 ?a)" by (rule steady_closeQueued) (simp_all add: f)
  moreover have "rn_fatal st \<noteq> None \<Longrightarrow> steady (markQueuedWithoutEvents ?a)" by (rule fatal_steady) (simp_all add: flow_markQueued f)
  ultimately show ?thesis using assms by (simp add: abortRun_def abortAdmission_def Let_def)
qed

lemma flow_failing:
  assumes "flow st"
  shows "flow (abortRun E (st\<lparr> rn_fatal := Some e, rn_admissionClosed := True \<rparr>))"
proof -
  let ?f = "st\<lparr> rn_fatal := Some e, rn_admissionClosed := True \<rparr>"
  have f: "flow ?f" using assms by (rule flow_fatal)
  show ?thesis
  proof (cases "rn_finished st")
    case True
    have "flow (?f\<lparr> rn_aborted := True \<rparr>)" using f good_task_next [of "?f\<lparr> rn_aborted := True \<rparr>" ?f] by (simp add: flow_def)
    then show ?thesis using f True by (simp add: abortRun_def)
  next
    case False
    then show ?thesis using steady_abortRun [OF fatal_steady [OF f]] by (simp add: flow_steady)
  qed
qed

lemma steady_failRun: "flow st \<Longrightarrow> steady (batchFailRun E e st)"
  using flow_markQueued [OF flow_failing [of st E "fatalOf e"]]
  by (auto simp: batchFailRun_def Let_def settleDone_def intro: fatal_steady)

lemma settled_failRun:
  assumes "pool_ok E 0 st"
  shows "settled_if_idle (batchFailRun E e st)"
proof -
  have "\<lbrakk> pool_ok E 0 f; list_all is_settling (rn_tasks f) \<rbrakk> \<Longrightarrow> rn_active f = 0" for f
    using settling_task by (auto simp: pool_ok_def live_def list_all_iff filter_empty_conv)
  then show ?thesis using assms
    by (auto simp: settled_if_idle_def batchFailRun_def Let_def settleDone_def pool_abortRun pool_markQueued)
qed

section \<open>Admission\<close>

lemma flow_admitSlot:
  assumes "flow st" "rn_nextIndex st < length (rn_slots st)"
  shows "flow (admitSlot E st)"
proof -
  let ?i = "rn_nextIndex st"
  have o: "open_slots (st\<lparr> rn_nextIndex := Suc ?i \<rparr>) = open_slots st - {?i}" by (auto simp: open_slots_def)
  have c: "int (card (open_slots st)) \<le> 1 + int (card (open_slots st - {?i}))" by (cases "?i \<in> open_slots st") (simp_all add: card_Diff_singleton)
  have s: "sl_status (rn_slots st ! ?i) = ''succeeded'' \<Longrightarrow> ?i \<notin> open_slots st" by (auto simp: open_slots_def)
  have "good_task st t \<Longrightarrow> rn_nextIndex st' = Suc ?i \<Longrightarrow> good_task st' t" for t st' by (auto simp: good_task_def)
  then have g: "list_all (good_task st') (rn_tasks st)" if "rn_nextIndex st' = Suc ?i" for st' using assms(1) that by (auto simp: flow_def list_all_iff)
  show ?thesis using assms o c s
    by (auto simp: admitSlot_def Let_def flow_def emitSlot_def emitThen_def addTask_def g good_task_def)
qed

lemma flow_admitSlots: "flow st \<Longrightarrow> flow (admitSlots E k st)"
  by (induction k arbitrary: st) (simp_all add: flow_admitSlot not_le)

lemma admitSlot_next: "rn_nextIndex (admitSlot E st) = Suc (rn_nextIndex st)" "length (rn_slots (admitSlot E st)) = length (rn_slots st)"
  by (simp_all add: admitSlot_def Let_def emitSlot_def emitThen_def addTask_def)

lemma admitSlots_saturated: "length (rn_slots st) - rn_nextIndex st \<le> k \<Longrightarrow> saturated (admitSlots E k st)"
proof (induction k arbitrary: st)
  case (Suc k)
  have "length (rn_slots (admitSlot E st)) - rn_nextIndex (admitSlot E st) \<le> k" using Suc.prems by (simp add: admitSlot_next)
  then show ?case using Suc.IH by (auto simp: saturated_def)
qed (simp add: saturated_def)

lemma flow_closed: "flow st \<Longrightarrow> rn_aborted st \<Longrightarrow> flow (st\<lparr> rn_admissionClosed := True \<rparr>)"
  using good_task_next [of "st\<lparr> rn_admissionClosed := True \<rparr>" st] by (simp add: flow_def)

text \<open>What \<open>pump\<close> hands to \<open>maybeComplete\<close>.\<close>

definition pumped :: "batch_env \<Rightarrow> batch_run \<Rightarrow> batch_run" where
  "pumped E st =
     (let checked = (if rn_aborted st then st\<lparr> rn_admissionClosed := True \<rparr> else st);
          admitted = admitSlots E (length (rn_slots checked) - rn_nextIndex checked) checked
      in if rn_admissionClosed admitted \<and> rn_fatal admitted = None then closeQueued E FromPump (closeStatus admitted) 0 admitted else admitted)"

lemma pump_pumped: "pump E st = maybeComplete (scheduleRamp E (pumped E st))"
  by (simp add: pump_def pumped_def Let_def)

lemma steady_pumped:
  assumes "flow st"
  shows "steady (pumped E st)"
proof -
  let ?c = "if rn_aborted st then st\<lparr> rn_admissionClosed := True \<rparr> else st"
  let ?a = "admitSlots E (length (rn_slots ?c) - rn_nextIndex ?c) ?c"
  have f: "flow ?a" using assms flow_closed by (intro flow_admitSlots) simp
  have s: "saturated ?a" by (rule admitSlots_saturated) simp
  have "steady (if rn_admissionClosed a \<and> rn_fatal a = None then closeQueued E FromPump (closeStatus a) 0 a else a)" if "flow a" "saturated a" for a
    using that steady_closeQueued by (auto simp: steady_def closes_def)
  from this [OF f s] show ?thesis by (simp only: pumped_def Let_def)
qed

lemma steady_pump: "flow st \<Longrightarrow> steady (pump E st)"
  by (simp add: pump_pumped steady_pumped)

lemma settled_pump:
  assumes "pool_ok E 0 st" "flow st"
  shows "settled_if_idle (pump E st)"
proof -
  have "pool_ok E 0 (pumped E st)" using assms(1) by (simp add: pumped_def Let_def pool_admitSlots pool_closeQueued)
  then show ?thesis unfolding pump_pumped
    by (intro idle_completes [of E]) (simp_all add: pool_scheduleRamp steady_pumped assms(2))
qed

section \<open>One slot\<close>

text \<open>A slot that leaves the pool.\<close>

lemma flow_released: "flow st \<Longrightarrow> flow (st\<lparr> rn_active := rn_active st - 1, rn_completed := rn_completed st + 1 \<rparr>)"
  by (auto intro: flow_same [of _ st "[]"])

lemma steady_slotFails: "flow st \<Longrightarrow> steady (slotFails e st)"
  using flow_released [of st] by (auto simp: slotFails_def steady_def closes_def saturated_def addTask_def good_task_def
    intro!: flow_same [of _ "st\<lparr> rn_active := rn_active st - 1, rn_completed := rn_completed st + 1 \<rparr>" "[Failing e]"])

lemma settled_task:
  "\<not> is_settling t \<Longrightarrow> settled_if_idle (addTask t st)" "\<not> is_settling t \<Longrightarrow> settled_if_idle (emitSlot E type' i c p t st)" "settled_if_idle (slotFails e st)"
  by (simp_all add: settled_if_idle_def addTask_def emitSlot_def emitThen_def slotFails_def)

lemma settled_closeQueued [simp]: "settled_if_idle (closeQueued E o' status from' st)"
  by (simp add: settled_if_idle_def)

lemma flow_decided: "flow st \<Longrightarrow> flow (st\<lparr> rn_admissionClosed := True \<rparr>)"
  using good_task_next [of "st\<lparr> rn_admissionClosed := True \<rparr>" st] by (simp add: flow_def)

definition released :: "batch_env \<Rightarrow> nat \<Rightarrow> batch_run \<Rightarrow> batch_run" where
  "released E i st = (let decided = (if isFailFast E \<and> sl_status (rn_slots st ! i) \<noteq> ''succeeded'' then st\<lparr> rn_admissionClosed := True \<rparr> else st)
     in decided\<lparr> rn_active := rn_active decided - 1, rn_completed := rn_completed decided + 1 \<rparr>)"

lemma afterLoop_released: "afterLoop E i st =
  (if rn_admissionClosed (released E i st) then closeQueued E FromSlot (closeStatus (released E i st)) 0 (released E i st) else maybeComplete (pump E (released E i st)))"
  by (simp add: afterLoop_def released_def Let_def)

lemma released_ok:
  assumes "flow st" "pool_ok E 1 st"
  shows "flow (released E i st)" "pool_ok E 0 (released E i st)"
proof -
  let ?d = "if isFailFast E \<and> sl_status (rn_slots st ! i) \<noteq> ''succeeded'' then st\<lparr> rn_admissionClosed := True \<rparr> else st"
  have d: "flow ?d" "pool_ok E 1 ?d" using assms flow_decided by auto
  show "flow (released E i st)" unfolding released_def Let_def by (rule flow_released [OF d(1)])
  show "pool_ok E 0 (released E i st)" unfolding released_def Let_def by (rule pool_release [OF d(2)])
qed

lemma progress_afterLoop:
  assumes "flow st" "pool_ok E 1 st"
  shows "steady (afterLoop E i st) \<and> settled_if_idle (afterLoop E i st)"
proof (cases "rn_admissionClosed (released E i st)")
  case True
  then show ?thesis using released_ok [OF assms] by (simp add: afterLoop_released steady_closeQueued)
next
  case False
  have "steady (pump E (released E i st))" "pool_ok E 0 (pump E (released E i st))" using released_ok [OF assms] by (auto intro: steady_pump pool_pump)
  then show ?thesis using False by (simp add: afterLoop_released idle_completes)
qed

text \<open>The state while a slot at work runs: steady, with its task taken out.\<close>

definition at_work :: "batch_env \<Rightarrow> nat \<Rightarrow> batch_run \<Rightarrow> bool" where
  "at_work E i st \<longleftrightarrow> steady st \<and> pool_ok E 1 st \<and> i < rn_nextIndex st"

definition going :: "batch_env \<Rightarrow> batch_run \<Rightarrow> bool" where
  "going E st \<longleftrightarrow> steady st \<and> settled_if_idle st"

lemma work_emitSlot: "at_work E i st \<Longrightarrow> is_live t \<Longrightarrow> task_slot t = i \<Longrightarrow> going E (emitSlot E' type' i c p t st)"
  using settling_task [of t] by (auto simp: at_work_def going_def good_task_def intro!: steady_emitSlot settled_task)

lemma work_addTask: "at_work E i st \<Longrightarrow> is_live t \<Longrightarrow> task_slot t = i \<Longrightarrow> going E (addTask t st)"
  using settling_task [of t] by (auto simp: at_work_def going_def good_task_def intro!: steady_addTask settled_task)

lemma work_changeSlot: "at_work E i st \<Longrightarrow> at_work E i (changeSlot i f st)"
  by (simp add: at_work_def steady_changeSlot) (simp add: changeSlot_def)

lemma work_slotFails: "at_work E i st \<Longrightarrow> going E (slotFails e st)"
  by (simp add: at_work_def going_def steady_slotFails flow_steady settled_task)

lemma work_endLoop: "at_work E i st \<Longrightarrow> going E (endLoop E i st)"
  using progress_afterLoop [of st E i] work_emitSlot [OF work_changeSlot, of E i st "AwaitCancelled i"]
  by (auto simp: endLoop_def going_def at_work_def flow_steady)

lemma work_counts: "at_work E i (st\<lparr> rn_totalAttempts := n, rn_executionAttempts := c \<rparr>) = at_work E i st"
  by (simp add: at_work_def pool_ok_def live_def)

lemma work_startAttempt: "at_work E i st \<Longrightarrow> going E (startAttempt E i st)"
  by (auto simp: startAttempt_def Let_def work_counts intro!: work_emitSlot work_slotFails work_changeSlot split: sum.splits)

lemma work_loopHead: "at_work E i st \<Longrightarrow> going E (loopHead E i st)"
  by (simp add: loopHead_def work_startAttempt work_endLoop)

lemma work_item:
  assumes "at_work E i st"
  shows "going E (itemThrows E i code r st)" "going E (itemReturns E i v st)"
proof -
  have "at_work E i (changeSlot i (finishedSlot t) st\<lparr> rn_usage := u \<rparr>)" for t u using work_changeSlot [OF assms] by (simp add: at_work_def)
  then have f: "going E (finishItem E i t st)" for t by (auto simp: finishItem_def intro!: work_emitSlot)
  show t: "going E (itemThrows E i code r st)" for code r using assms by (auto simp: itemThrows_def f work_slotFails split: sum.splits)
  show "going E (itemReturns E i v st)" by (auto simp: itemReturns_def f t split: sum.splits js_error.splits)
qed

lemma work_requeueSlot: "at_work E i st \<Longrightarrow> going E (requeueSlot E i t st)"
  by (auto simp: requeueSlot_def intro!: work_emitSlot work_changeSlot)

lemma work_scheduleRamp [simp]: "at_work E i (scheduleRamp E st) = at_work E i st"
  by (simp add: at_work_def scheduleRamp_def)

text \<open>Halving the capacity leaves a saturated pool saturated, since a capacity is at least one.\<close>

lemma work_halved:
  assumes "at_work E i st"
  shows "at_work E i (st\<lparr> rn_capacity := max 1 (rn_capacity st div 2), rn_rampArmed := False \<rparr>)"
proof -
  let ?h = "st\<lparr> rn_capacity := max 1 (rn_capacity st div 2), rn_rampArmed := False \<rparr>"
  have p: "pool_ok E 1 st" using assms by (simp add: at_work_def)
  have "steady ?h" using assms p unfolding at_work_def steady_def
    by (auto intro!: flow_same [of _ st "[]"] closes_same [of _ st "[]"] saturated_same [of _ st "[]"] simp: pool_ok_def)
  moreover have "pool_ok E 1 ?h" using p by (auto simp: pool_ok_def live_def)
  ultimately show ?thesis using assms by (simp add: at_work_def)
qed

lemma work_afterTerminal: "at_work E i st \<Longrightarrow> going E (afterTerminal E i t st)"
  using work_halved [of E i st]
  by (auto simp: afterTerminal_def applyRateLimit_def Let_def intro!: work_endLoop work_requeueSlot work_addTask work_emitSlot)

section \<open>Steps\<close>

definition taken_ok :: "batch_env \<Rightarrow> task \<Rightarrow> batch_run \<Rightarrow> bool" where
  "taken_ok E t st \<longleftrightarrow> flow st \<and> pool_ok E (if is_live t then 1 else 0) st \<and> good_task st t \<and> (closes st \<or> helps st t) \<and> (saturated st \<or> is_failing t)
     \<and> (is_settling t \<longrightarrow> settled_if_idle st)"

lemma taken_work: "taken_ok E t st \<Longrightarrow> is_live t \<Longrightarrow> at_work E (task_slot t) st"
  by (cases t) (auto simp: taken_ok_def at_work_def steady_def good_task_def)

lemma taken_dropTask:
  assumes "going E st" "pool_ok E 0 st" "k < length (rn_tasks st)"
  shows "taken_ok E (rn_tasks st ! k) (dropTask k st)"
proof -
  let ?t = "rn_tasks st ! k" and ?d = "dropTask k st"
  have split: "rn_tasks st = take k (rn_tasks st) @ ?t # drop (Suc k) (rn_tasks st)" using assms(3) by (rule id_take_nth_drop)
  have d: "rn_tasks ?d = take k (rn_tasks st) @ drop (Suc k) (rn_tasks st)" by (simp add: dropTask_def)
  have all: "list_all p (rn_tasks st) \<longleftrightarrow> list_all p (rn_tasks ?d) \<and> p ?t" for p by (subst split) (auto simp: d)
  have ex: "list_ex p (rn_tasks st) \<longleftrightarrow> list_ex p (rn_tasks ?d) \<or> p ?t" for p by (subst split) (auto simp: d)
  have o: "open_slots ?d = open_slots st" "good_task ?d = good_task st" by (auto simp: dropTask_def intro: good_task_next)
  have h: "helps ?d = helps st" by (rule helps_open) (rule o(1))
  have f: "flow ?d" "good_task ?d ?t" using assms(1) all [of "good_task st"] o unfolding going_def steady_def flow_def by (auto simp: dropTask_def)
  have c: "closes ?d \<or> helps ?d ?t" using assms(1) ex [of "helps st"] o h unfolding going_def steady_def closes_def by (auto simp: dropTask_def)
  have s: "saturated ?d \<or> is_failing ?t" using assms(1) ex [of is_failing] unfolding going_def steady_def saturated_def by (auto simp: dropTask_def)
  have i: "is_settling ?t \<longrightarrow> settled_if_idle ?d" using assms(1) all [of is_settling] unfolding going_def settled_if_idle_def by (auto simp: dropTask_def)
  show ?thesis using f c s i pool_dropTask [OF assms(2,3)] by (simp add: taken_ok_def)
qed

lemma going_maybeComplete: "pool_ok E 0 st \<Longrightarrow> steady st \<Longrightarrow> going E (maybeComplete st)"
  by (simp add: going_def idle_completes)

lemma going_failRun: "pool_ok E 0 st \<Longrightarrow> flow st \<Longrightarrow> going E (batchFailRun E e st)"
  by (simp add: going_def steady_failRun settled_failRun)

lemma going_closing:
  assumes "taken_ok E (Closing o' status j) st"
  shows "going E (closeQueued E o' status (Suc j) st)"
proof -
  have "status \<noteq> ''queued''" "flow st" "saturated st" using assms by (auto simp: taken_ok_def good_task_def)
  moreover have "closes (closeQueued E o' status (Suc j) st)"
    using assms calculation(1) by (auto simp: taken_ok_def Suc_le_eq intro: closeQueued_keeps_closes closeQueued_closes)
  ultimately show ?thesis by (simp add: going_def steady_def closeQueued_flow closeQueued_saturated)
qed

lemma going_waiting: "at_work E i st \<Longrightarrow> going E (addTask (AwaitItem i b) st)" "at_work E i st \<Longrightarrow> going E (addTask (AwaitDelay i ms) st)"
  by (auto intro: work_addTask)

lemma going_afterLoop: "at_work E i st \<Longrightarrow> going E (afterLoop E i st)"
  using progress_afterLoop [of st E i] by (simp add: at_work_def going_def flow_steady)

lemma going_result: "steady st \<Longrightarrow> settled_if_idle st \<Longrightarrow> going E (st\<lparr> rn_result := r \<rparr>)"
  by (simp add: going_def settled_if_idle_def)

lemma going_resumeTask:
  assumes "taken_ok E t st" "resumeTask E t st = Some st'"
  shows "going E st'"
proof (cases "is_live t")
  case True
  then have "at_work E (task_slot t) st" using assms(1) by (intro taken_work)
  then show ?thesis using True assms(2)
    by (cases "(E, t, st)" rule: resumeTask.cases) (auto intro!: work_loopHead going_waiting work_afterTerminal work_requeueSlot going_afterLoop)
next
  case False
  then have t: "pool_ok E 0 st" "flow st" using assms(1) by (auto simp: taken_ok_def)
  have s: "\<not> is_failing t \<Longrightarrow> \<not> helps st t \<Longrightarrow> steady st" using assms(1) by (auto simp: taken_ok_def steady_def)
  have i: "is_settling t \<Longrightarrow> settled_if_idle st" using assms(1) by (simp add: taken_ok_def)
  show ?thesis using False assms t s i
    by (cases "(E, t, st)" rule: resumeTask.cases) (auto intro!: going_failRun going_maybeComplete steady_pump pool_pump going_closing going_result)
qed

lemma going_admissionFails:
  assumes "at_work E i st"
  shows "going E (admissionFails E i e st)"
proof -
  let ?c = "changeSlot i (\<lambda>s. s\<lparr> sl_status := ''failed'', sl_authoritative := JBool False, sl_error := appendFailed \<rparr>) st"
  have "at_work E i ?c" using assms by (rule work_changeSlot)
  then have "flow (?c\<lparr> rn_active := rn_active ?c - 1, rn_completed := rn_completed ?c + 1 \<rparr>)" "pool_ok E 0 (?c\<lparr> rn_active := rn_active ?c - 1, rn_completed := rn_completed ?c + 1 \<rparr>)"
    unfolding at_work_def by (blast intro: flow_released flow_steady pool_release)+
  then show ?thesis unfolding admissionFails_def by (auto intro!: going_maybeComplete pool_failRun steady_failRun)
qed

lemma going_rejectTask:
  assumes "taken_ok E t st" "rejectTask E t e st = Some st'"
  shows "going E st'"
proof (cases "is_live t")
  case True
  then have "at_work E (task_slot t) st" using assms(1) by (intro taken_work)
  then show ?thesis using True assms(2)
    by (cases "(E, t, e, st)" rule: rejectTask.cases) (auto intro!: going_admissionFails work_slotFails split: if_splits)
next
  case False
  have "flow st \<Longrightarrow> steady (addTask (Failing e) st)"
    by (auto simp: steady_def closes_def saturated_def addTask_def good_task_def intro: flow_same [of _ st "[Failing e]"])
  moreover have "\<not> is_failing t \<Longrightarrow> \<not> helps st t \<Longrightarrow> steady st" "flow st" "is_settling t \<Longrightarrow> settled_if_idle st" using assms(1) by (auto simp: taken_ok_def steady_def)
  ultimately show ?thesis using False assms(2)
    by (cases "(E, t, e, st)" rule: rejectTask.cases) (auto intro: going_result, auto simp: going_def settled_task)
qed

lemma going_rampFires:
  assumes "pool_ok E 0 st" "going E st"
  shows "going E (rampFires E st)"
proof -
  let ?r = "if rn_admissionClosed st then st\<lparr> rn_rampArmed := False \<rparr>
    else st\<lparr> rn_rampArmed := False, rn_capacity := min (concurrencyOf E ''max'') (min (rn_capacity st + 1) (int (length (rn_slots st)))) \<rparr>"
  have "1 \<le> length (rn_slots st)" using assms(1) by (cases "rn_slots st") (auto simp: pool_ok_def)
  then have p: "pool_ok E 0 ?r" using assms(1) by (auto simp: pool_ok_def live_def)
  have f: "flow ?r" using assms(2) by (auto simp: going_def steady_def intro!: flow_same [of _ st "[]"])
  have "steady (pump E ?r)" "settled_if_idle (pump E ?r)" using f p by (auto intro: steady_pump settled_pump)
  moreover have "settled_if_idle (scheduleRamp E s) = settled_if_idle s" for s by (simp add: scheduleRamp_def settled_if_idle_def)
  moreover have "rampFires E st = scheduleRamp E (pump E ?r)" by (simp add: rampFires_def Let_def)
  ultimately show ?thesis by (simp add: going_def)
qed

lemma going_abortRun:
  assumes "pool_ok E 0 st" "going E st" "\<not> rn_finished st"
  shows "going E (abortRun E st)"
proof -
  let ?a = "st\<lparr> rn_aborted := True, rn_admissionClosed := True \<rparr>"
  have "steady (abortRun E st)" using assms by (intro steady_abortRun) (auto simp: going_def)
  moreover have "rn_fatal st \<noteq> None \<Longrightarrow> going E (maybeComplete (markQueuedWithoutEvents ?a))"
    using assms by (intro going_maybeComplete fatal_steady flow_markQueued flow_aborted) (auto simp: pool_markQueued going_def steady_def)
  ultimately show ?thesis using assms(2,3) by (auto simp: abortRun_def abortAdmission_def Let_def going_def)
qed

lemma going_fields: "going E (st\<lparr> rn_deadlineExceeded := b \<rparr>) = going E st"
  by (simp add: going_def settled_if_idle_def)

lemma going_settleBatch:
  assumes "going E st" "rn_done st = Some r"
  shows "going E (settleBatch E elapsed st)"
proof -
  let ?f = "st\<lparr> rn_finished := True, rn_rampArmed := False \<rparr>"
  have f: "steady ?f" "rn_done ?f = Some r" using assms by (simp_all add: going_def)
  have e: "steady (emitThen ev (AwaitSettled v) ?f)" for ev v
    using f(1) unfolding emitThen_def by (intro steady_addTask) (auto simp: good_task_def)
  show ?thesis using f e by (auto simp: settleBatch_def Let_def going_def settled_if_idle_def emitThen_def addTask_def split: sum.splits)
qed

text \<open>A batch none of whose slots was settled before.\<close>

definition fresh_batch :: "batch_env \<Rightarrow> bool" where
  "fresh_batch E \<longleftrightarrow> startable E \<and> list_all (\<lambda>s. sl_status s = ''queued'') (prior_slots E)"

lemma going_start:
  assumes "fresh_batch E"
  shows "going E (batch_start E aborted late)"
proof -
  have "{i. i < length xs \<and> sl_status (xs ! i) = ''queued''} = {..<length xs}" if "list_all (\<lambda>s. sl_status s = ''queued'') xs" for xs
    using that by (auto simp: list_all_length)
  from this [of "prior_slots E"] have o: "rn_nextIndex st = 0 \<Longrightarrow> rn_slots st = prior_slots E \<Longrightarrow> open_slots st = {..<length (prior_slots E)}" for st
    using assms by (simp add: open_slots_def fresh_batch_def)
  show ?thesis using assms unfolding batch_start_def Let_def going_def
    by (cases "prior_slots E") (auto intro!: steady_pump settled_pump [of E] simp: flow_def o fresh_batch_def startable_def pool_ok_def live_def)
qed

definition progress_inv :: "batch_env \<Rightarrow> task option \<Rightarrow> batch_run \<Rightarrow> bool" where
  "progress_inv E taken st \<longleftrightarrow> fresh_batch E \<longrightarrow> (case taken of None \<Rightarrow> going E st \<and> pool_ok E 0 st | Some t \<Rightarrow> taken_ok E t st)"

interpretation progress: batch_invariant E "progress_inv E" for E
proof (unfold_locales, unfold progress_inv_def option.case, goal_cases)
  case (1 late aborted) then show ?case by (simp add: going_start pool_start fresh_batch_def)
next
  case (2 st k) then show ?case by (blast intro: taken_dropTask)
next
  case (3 t st st') then show ?case unfolding taken_ok_def by (blast intro: going_resumeTask [unfolded taken_ok_def] pool_resumeTask)
next
  case (4 t st e st') then show ?case unfolding taken_ok_def by (blast intro: going_rejectTask [unfolded taken_ok_def] pool_rejectTask)
next
  case (5 i b st v) then show ?case using taken_work [of E "AwaitItem i b" st] work_item pool_item by (auto simp: taken_ok_def)
next
  case (6 i b st code r) then show ?case using taken_work [of E "AwaitItem i b" st] work_item pool_item by (auto simp: taken_ok_def)
next
  case (7 st) then show ?case by (simp add: going_rampFires pool_rampFires)
next
  case (8 st) then show ?case by (simp add: going_fields)
next
  case (9 st) then show ?case by (simp add: going_abortRun pool_abortRun)
next
  case (10 st u elapsed) then show ?case by (simp add: going_settleBatch pool_settleBatch)
next
  case (11 st e r') then show ?case by (simp add: going_def settled_if_idle_def)
qed

end
