(* ===== verification/Batch_Journal.thy ===== *)
theory Batch_Journal
  imports Batch_Progress
begin

text \<open>
  The journal of a batch run. The events a run emits, read back by \<open>projectBatchSwarmEvents\<close>, give
  the status and the attempts that the run has in memory, so a resume continues from where
  the run was. This holds for a batch whose slots start queued, as long as the run has not failed.
\<close>

definition same_slot :: "slot \<Rightarrow> slot \<Rightarrow> bool" where
  "same_slot p s \<longleftrightarrow> sl_index p = sl_index s \<and> sl_itemId p = sl_itemId s \<and> sl_itemDigest p = sl_itemDigest s
     \<and> sl_status p = sl_status s \<and> sl_attempts p = sl_attempts s"

definition journalled :: "batch_env \<Rightarrow> batch_event list \<Rightarrow> batch_projection res" where
  "journalled E events = foldR (projectBatchEvent (ex_host E) (pb_key (ex_batch E))) (pb_prior (ex_batch E)) (map recorded_event events)"

definition mirrors :: "batch_env \<Rightarrow> batch_event list \<Rightarrow> slot list \<Rightarrow> bool" where
  "mirrors E events slots \<longleftrightarrow> (\<exists>pr. journalled E events = Inr pr \<and> list_all2 same_slot (bp_items pr) slots)"

definition indexed :: "slot list \<Rightarrow> bool" where
  "indexed slots \<longleftrightarrow> (\<forall>i < length slots. sl_index (slots ! i) = i) \<and> length slots \<le> 300 \<and> list_all (counted \<circ> sl_attempts) slots"

lemma foldR_snoc: "foldR f s (xs @ [x]) = rbind (foldR f s xs) (\<lambda>t. f t x)"
  by (simp add: foldR_append) (simp add: rbind_def split: sum.splits)

lemma journalled_snoc: "journalled E (events @ [event]) = rbind (journalled E events) (\<lambda>pr. projectBatchEvent (ex_host E) (pb_key (ex_batch E)) pr (recorded_event event))"
  by (simp add: journalled_def foldR_snoc)

section \<open>One event\<close>

abbreviation event_payload :: "batch_env \<Rightarrow> slot \<Rightarrow> (string \<times> jsval) list \<Rightarrow> jsval" where
  "event_payload E s payload \<equiv> JObj ([(''batchId'', JStr (bk_batchId (pb_key (ex_batch E)))), (''batchDigest'', JStr (bk_batchDigest (pb_key (ex_batch E)))),
     (''index'', jnat (sl_index s)), (''itemId'', JStr (sl_itemId s)), (''itemDigest'', JStr (sl_itemDigest s)), (''itemAttempt'', JNum (sl_attempts s))] @ payload)"

lemma slot_index_nat: "i < 300 \<Longrightarrow> slot_index (jnat i) = Some (int i)"
  by (simp add: num_isSafeInteger_iff MAX_SAFE_INTEGER_def) (rule exI [of _ "int i"], simp)

text \<open>An event of a slot, with the effect \<open>slotEvent\<close> has on any slot that agrees with the one in memory.\<close>

lemma mirrors_slot:
  assumes "mirrors E events slots" "indexed slots" "i < length slots" "type' \<in> {''BatchItemQueued'', ''BatchItemStarted'', ''BatchItemTerminal''}"
    "sl_index s = i" "sl_itemId s = sl_itemId (slots ! i)" "sl_itemDigest s = sl_itemDigest (slots ! i)"
    "\<And>p. same_slot p (slots ! i) \<Longrightarrow> \<exists>p'. slotEvent (ex_host E) (JStr type') (event_payload E s payload) p = Inr p' \<and> same_slot p' s"
  shows "mirrors E (events @ [slotBatchEvent (ex_host E) type' (ex_batch E) s (sl_attempts s) child payload]) (slots[i := s])"
proof -
  obtain pr where pr: "journalled E events = Inr pr" "list_all2 same_slot (bp_items pr) slots" using assms(1) by (auto simp: mirrors_def)
  have p: "same_slot (bp_items pr ! i) (slots ! i)" "i < length (bp_items pr)" using pr(2) assms(3) by (auto simp: list_all2_conv_all_nth)
  obtain p' where p': "slotEvent (ex_host E) (JStr type') (event_payload E s payload) (bp_items pr ! i) = Inr p'" "same_slot p' s" using assms(8) [OF p(1)] by blast
  have i: "slot_index (jnat i) = Some (int i)" using assms(2,3) by (intro slot_index_nat) (simp add: indexed_def)
  have b: "prefix ''Batch'' type'" "type' \<noteq> ''BatchSettled''" "type' \<noteq> ''BatchStarted''" "type' \<noteq> ''BatchCapacityChanged''" using assms(4) by auto
  have "projectBatchEvent (ex_host E) (pb_key (ex_batch E)) pr (recorded_event (slotBatchEvent (ex_host E) type' (ex_batch E) s (sl_attempts s) child payload))
      = Inr (pr\<lparr> bp_items := (bp_items pr)[i := p'] \<rparr>)"
    using p p' assms(5-7) i b
    by (simp add: projectBatchEvent_def eventMatchesPrepared_def eventPayload_def recorded_event_def slotBatchEvent_def Let_def same_slot_def del: slot_index.simps)
  moreover have "list_all2 same_slot ((bp_items pr)[i := p']) (slots[i := s])" using pr(2) p'(2) by (rule list_all2_update_cong)
  ultimately show ?thesis using pr(1) by (simp add: mirrors_def journalled_snoc)
qed

text \<open>The events that leave the slots alone.\<close>

lemma mirrors_capacity:
  "mirrors E events slots \<Longrightarrow> mirrors E (events @ [slotBatchEvent (ex_host E) ''BatchCapacityChanged'' (ex_batch E) s n child payload]) slots"
  by (auto simp: mirrors_def journalled_snoc projectBatchEvent_def eventMatchesPrepared_def eventPayload_def recorded_event_def slotBatchEvent_def Let_def)

lemma mirrors_settled: "mirrors E events slots \<Longrightarrow> mirrors E (events @ [wholeBatchEvent (ex_host E) ''BatchSettled'' (ex_batch E) payload]) slots"
  by (auto simp: mirrors_def journalled_snoc projectBatchEvent_def eventMatchesPrepared_def eventPayload_def recorded_event_def wholeBatchEvent_def Let_def)

section \<open>The effects\<close>

lemma num_max_counted: "counted n \<Longrightarrow> num_max n n = n"
  by (auto simp: counted_def num_max_def)

lemma counted_next:
  assumes "counted n" "num_less n (num_of_int m)" "m \<le> 8"
  shows "counted (num_add n (Fin 1)) \<and> num_max n (num_add n (Fin 1)) = num_add n (Fin 1)"
proof -
  obtain k where k: "n = num_of_int k" "0 \<le> k" "k < m" using assms by (auto simp: counted_def)
  have "num_add (num_of_int k) (num_of_int 1) = num_of_int (k + 1)" by (rule num_add_ints) (use k assms(3) in simp)
  then have n: "num_add n (Fin 1) = num_of_int (k + 1)" using k(1) by simp
  have "counted (num_of_int (k + 1))" unfolding counted_def using k assms(3) by (intro exI [of _ "k + 1"]) (simp add: MAX_SAFE_INTEGER_def)
  then show ?thesis using k(1) unfolding n by (simp add: num_max_def)
qed

lemma effect_queued:
  assumes "same_slot p s" "counted (sl_attempts s)" "sl_attempts s' = sl_attempts s" "sl_index s' = sl_index s" "sl_itemId s' = sl_itemId s"
    "sl_itemDigest s' = sl_itemDigest s" "sl_status s' = ''queued''"
  shows "\<exists>p'. slotEvent P (JStr ''BatchItemQueued'') (event_payload E s' payload) p = Inr p' \<and> same_slot p' s'"
  using assms by (simp add: slotEvent_def countAttempt_def coalesce_def nullish_def same_slot_def num_max_counted)

lemma effect_started:
  assumes "same_slot p s" "num_max (sl_attempts s) (sl_attempts s') = sl_attempts s'" "sl_index s' = sl_index s" "sl_itemId s' = sl_itemId s"
    "sl_itemDigest s' = sl_itemDigest s" "sl_status s' = ''running''"
  shows "\<exists>p'. slotEvent P (JStr ''BatchItemStarted'') (event_payload E s' payload) p = Inr p' \<and> same_slot p' s'"
  using assms by (simp add: slotEvent_def slotStarted_def countAttempt_def coalesce_def nullish_def same_slot_def)

lemma effect_terminal:
  assumes "same_slot p s" "counted (sl_attempts s)" "sl_attempts s' = sl_attempts s" "sl_index s' = sl_index s" "sl_itemId s' = sl_itemId s"
    "sl_itemDigest s' = sl_itemDigest s" "sl_status s' \<in> set ITEM_TERMINAL_STATUSES"
  shows "\<exists>p'. slotEvent P (JStr ''BatchItemTerminal'') (event_payload E s' ((''status'', JStr (sl_status s')) # payload)) p = Inr p' \<and> same_slot p' s'"
  using assms by (simp add: slotEvent_def slotTerminal_def countAttempt_def coalesce_def nullish_def same_slot_def num_max_counted)

lemma itemStatus_terminal: "itemStatus t \<in> set ITEM_TERMINAL_STATUSES"
  by (simp add: itemStatus_def ITEM_TERMINAL_STATUSES_def)

section \<open>The invariant\<close>

definition journal_task :: "nat \<Rightarrow> task \<Rightarrow> bool" where
  "journal_task n t \<longleftrightarrow> (is_live t \<longrightarrow> task_slot t < n) \<and> (\<forall>o' status j. t = Closing o' status j \<longrightarrow> status \<in> {''cancelled'', ''skipped''})"

text \<open>No failure of the run has been recorded, and none is on its way.\<close>

definition unfailed :: "batch_run \<Rightarrow> bool" where
  "unfailed st \<longleftrightarrow> rn_fatal st = None \<and> \<not> list_ex is_failing (rn_tasks st)"

fun is_closing :: "task \<Rightarrow> bool" where
  "is_closing (Closing o' status j) = True"
| "is_closing _ = False"

definition journal_ok :: "batch_env \<Rightarrow> bool \<Rightarrow> batch_run \<Rightarrow> bool" where
  "journal_ok E b st \<longleftrightarrow> indexed (rn_slots st) \<and> rn_nextIndex st \<le> length (rn_slots st) \<and> (b \<and> unfailed st \<longrightarrow> mirrors E (rn_emitted st) (rn_slots st))
     \<and> (\<not> rn_admissionClosed st \<longrightarrow> (\<forall>i < length (rn_slots st). rn_nextIndex st \<le> i \<longrightarrow> sl_status (rn_slots st ! i) = ''queued''))
     \<and> list_all (journal_task (rn_nextIndex st)) (rn_tasks st) \<and> (list_ex is_closing (rn_tasks st) \<longrightarrow> rn_admissionClosed st)"

lemma journal_fields [simp]:
  "journal_ok E b st \<Longrightarrow> journal_ok E b (st\<lparr> rn_admissionClosed := True \<rparr>)" "journal_ok E b (st\<lparr> rn_aborted := v \<rparr>) = journal_ok E b st"
  "journal_ok E b (st\<lparr> rn_rampArmed := v \<rparr>) = journal_ok E b st"
  "journal_ok E b (st\<lparr> rn_completed := c \<rparr>) = journal_ok E b st" "journal_ok E b (st\<lparr> rn_deadlineExceeded := v \<rparr>) = journal_ok E b st"
  "journal_ok E b (st\<lparr> rn_done := r \<rparr>) = journal_ok E b st" "journal_ok E b (st\<lparr> rn_usage := u \<rparr>) = journal_ok E b st"
  "journal_ok E b (st\<lparr> rn_result := w \<rparr>) = journal_ok E b st" "journal_ok E b (st\<lparr> rn_finished := v \<rparr>) = journal_ok E b st"
  "journal_ok E b (st\<lparr> rn_active := c \<rparr>) = journal_ok E b st" "journal_ok E b (st\<lparr> rn_capacity := c \<rparr>) = journal_ok E b st"
  "journal_ok E b (st\<lparr> rn_maximumActive := c \<rparr>) = journal_ok E b st" "journal_ok E b (st\<lparr> rn_totalAttempts := n \<rparr>) = journal_ok E b st"
  "journal_ok E b (st\<lparr> rn_executionAttempts := c \<rparr>) = journal_ok E b st"
  by (auto simp: journal_ok_def unfailed_def)

lemma journal_fatal: "journal_ok E b st \<Longrightarrow> journal_ok E b' (st\<lparr> rn_fatal := Some e, rn_admissionClosed := True \<rparr>)"
  by (auto simp: journal_ok_def unfailed_def)

lemma journal_obliged: "journal_ok E b st \<Longrightarrow> \<not> unfailed st \<Longrightarrow> journal_ok E b' st"
  by (auto simp: journal_ok_def)

lemma journal_addTask: "journal_ok E b st \<Longrightarrow> journal_task (rn_nextIndex st) t \<Longrightarrow> \<not> is_closing t \<Longrightarrow> journal_ok E b (addTask t st)"
  by (auto simp: journal_ok_def addTask_def unfailed_def)

lemma journal_slotFails: "journal_ok E b st \<Longrightarrow> journal_ok E b' (slotFails e st)"
  by (auto simp: journal_ok_def addTask_def unfailed_def slotFails_def journal_task_def)

lemma indexed_update: "indexed slots \<Longrightarrow> i < length slots \<Longrightarrow> sl_index s = i \<Longrightarrow> counted (sl_attempts s) \<Longrightarrow> indexed (slots[i := s])"
  by (auto simp: indexed_def list_all_length nth_list_update)

lemma indexed_nth: "indexed slots \<Longrightarrow> i < length slots \<Longrightarrow> sl_index (slots ! i) = i \<and> counted (sl_attempts (slots ! i))"
  by (auto simp: indexed_def list_all_length)

text \<open>A slot changed together with its event; the change is \<open>s\<close>, and \<open>st'\<close> is the state it is made in.\<close>

lemma journal_emitSlot:
  assumes "journal_ok E b st" "i < length (rn_slots st)" "i < rn_nextIndex st' \<or> rn_admissionClosed st'" "type' \<in> {''BatchItemQueued'', ''BatchItemStarted'', ''BatchItemTerminal''}"
    "rn_slots st' = (rn_slots st)[i := s]" "rn_emitted st' = rn_emitted st" "rn_fatal st' = rn_fatal st" "rn_tasks st' = rn_tasks st"
    "rn_admissionClosed st' = rn_admissionClosed st" "rn_nextIndex st \<le> rn_nextIndex st'" "rn_nextIndex st' \<le> length (rn_slots st)" "journal_task (rn_nextIndex st') t"
    "is_closing t \<longrightarrow> rn_admissionClosed st'"
    "sl_index s = i" "sl_itemId s = sl_itemId (rn_slots st ! i)" "sl_itemDigest s = sl_itemDigest (rn_slots st ! i)" "counted (sl_attempts s)"
    "\<And>p. same_slot p (rn_slots st ! i) \<Longrightarrow> \<exists>p'. slotEvent (ex_host E) (JStr type') (event_payload E s payload) p = Inr p' \<and> same_slot p' s"
  shows "journal_ok E b (emitSlot E type' i c payload t st')"
proof -
  have "b \<and> unfailed st \<Longrightarrow> mirrors E (rn_emitted st @ [slotBatchEvent (ex_host E) type' (ex_batch E) s (sl_attempts s) c payload]) ((rn_slots st)[i := s])"
    using assms by (intro mirrors_slot) (auto simp: journal_ok_def)
  moreover have "indexed ((rn_slots st)[i := s])" using assms by (intro indexed_update) (auto simp: journal_ok_def)
  moreover have "list_all (journal_task (rn_nextIndex st')) (rn_tasks st)"
    using assms(1,10) by (auto simp: journal_ok_def journal_task_def list_all_iff)
  moreover have "unfailed (emitSlot E type' i c payload t st') \<Longrightarrow> unfailed st" using assms(7,8) by (auto simp: unfailed_def emitSlot_def emitThen_def addTask_def)
  ultimately show ?thesis using assms(1-13)
    by (auto simp: journal_ok_def emitSlot_def emitThen_def addTask_def nth_list_update)
qed

section \<open>The operations\<close>

lemma journal_nth:
  assumes "journal_ok E b st" "i < length (rn_slots st)"
  shows "sl_index (rn_slots st ! i) = i" "counted (sl_attempts (rn_slots st ! i))"
  using assms indexed_nth by (auto simp: journal_ok_def)

lemma journal_closeQueued:
  assumes "journal_ok E b st" "rn_admissionClosed st" "status \<in> {''cancelled'', ''skipped''}"
  shows "journal_ok E b (closeQueued E o' status from' st)"
proof (cases "nextQueued (rn_slots st) from'")
  case None
  then show ?thesis using assms by (simp add: closeQueued_def journal_addTask journal_task_def)
next
  case (Some j)
  then have j: "j < length (rn_slots st)" using nextQueued_Some by blast
  have "journal_ok E b (emitSlot E ''BatchItemTerminal'' j JNull ((''status'', JStr status) # tl (closePayload status)) (Closing o' status j)
       ((changeSlot j (\<lambda>s. s\<lparr> sl_status := status \<rparr>) st)\<lparr> rn_completed := rn_completed st + 1 \<rparr>))"
  proof (rule journal_emitSlot [OF assms(1) j])
    show "\<exists>p'. slotEvent (ex_host E) (JStr ''BatchItemTerminal'') (event_payload E ((rn_slots st ! j)\<lparr> sl_status := status \<rparr>) ((''status'', JStr status) # tl (closePayload status))) p = Inr p'
        \<and> same_slot p' ((rn_slots st ! j)\<lparr> sl_status := status \<rparr>)" if "same_slot p (rn_slots st ! j)" for p
      using effect_terminal [OF that, of "(rn_slots st ! j)\<lparr> sl_status := status \<rparr>"] journal_nth [OF assms(1) j] assms(3) by (auto simp: ITEM_TERMINAL_STATUSES_def)
  qed (use assms j journal_nth [OF assms(1) j] in \<open>auto simp: changeSlot_def journal_task_def journal_ok_def\<close>)
  then show ?thesis using Some by (simp add: closeQueued_def closePayload_def unstartedPayload_def)
qed

lemma closeStatus_cases: "closeStatus st \<in> {''cancelled'', ''skipped''}"
  by (simp add: closeStatus_def)

lemma journal_maybeComplete [simp]: "journal_ok E b (maybeComplete st) = journal_ok E b st"
  by (simp add: maybeComplete_def settleDone_def split: option.splits)

lemma journal_scheduleRamp [simp]: "journal_ok E b (scheduleRamp E st) = journal_ok E b st"
  by (simp add: scheduleRamp_def)

lemma scheduleRamp_next [simp]: "rn_nextIndex (scheduleRamp E st) = rn_nextIndex st"
  by (simp add: scheduleRamp_def)

lemma journal_markQueued: "journal_ok E b st \<Longrightarrow> rn_fatal st \<noteq> None \<Longrightarrow> rn_admissionClosed st \<Longrightarrow> journal_ok E b' (markQueuedWithoutEvents st)"
  by (auto simp: journal_ok_def markQueuedWithoutEvents_def indexed_def unfailed_def list_all_iff)

lemma journal_abortRun: "journal_ok E b st \<Longrightarrow> journal_ok E b (abortRun E st)"
  by (auto simp: abortRun_def abortAdmission_def Let_def intro!: journal_closeQueued journal_markQueued [of E b])

lemma abort_closed: "rn_admissionClosed st \<Longrightarrow> rn_admissionClosed (abortRun E st)"
  by (simp add: abortRun_def abortAdmission_def Let_def maybeComplete_def settleDone_def markQueuedWithoutEvents_def split: option.splits)

lemma journal_failRun:
  assumes "journal_ok E b st"
  shows "journal_ok E b' (batchFailRun E e st)"
proof -
  have "journal_ok E b' (markQueuedWithoutEvents (abortRun E (st\<lparr> rn_fatal := Some (fatalOf e), rn_admissionClosed := True \<rparr>)))"
    using journal_fatal [OF assms] by (intro journal_markQueued [of E b'] journal_abortRun) (auto intro: abort_closed)
  moreover have "rn_fatal st \<noteq> None \<Longrightarrow> journal_ok E b' st" using assms by (rule journal_obliged) (simp add: unfailed_def)
  ultimately show ?thesis by (simp add: batchFailRun_def Let_def settleDone_def)
qed

lemma journal_admitSlot:
  assumes "journal_ok E b st" "rn_nextIndex st < length (rn_slots st)" "\<not> rn_admissionClosed st"
  shows "journal_ok E b (admitSlot E st)"
proof -
  let ?i = "rn_nextIndex st"
  have q: "sl_status (rn_slots st ! ?i) = ''queued''" using assms by (auto simp: journal_ok_def)
  have "journal_ok E b (emitSlot E ''BatchItemQueued'' ?i JNull payload (AwaitQueued ?i) (st\<lparr> rn_nextIndex := Suc ?i, rn_active := a, rn_maximumActive := m \<rparr>))" for payload a m
    using assms(2,3) q journal_nth [OF assms(1,2)]
    by (intro journal_emitSlot [OF assms(1,2), where s = "rn_slots st ! ?i"] effect_queued) (auto simp: journal_task_def)
  then show ?thesis using q by (simp add: admitSlot_def Let_def)
qed

lemma journal_admitSlots: "journal_ok E b st \<Longrightarrow> journal_ok E b (admitSlots E k st)"
  by (induction k arbitrary: st) (simp_all add: journal_admitSlot not_le)

lemma journal_pump: "journal_ok E b st \<Longrightarrow> journal_ok E b (pump E st)"
  by (auto simp: pump_def Let_def intro!: journal_closeQueued journal_admitSlots closeStatus_cases)

lemma journal_afterLoop: "journal_ok E b st \<Longrightarrow> journal_ok E b (afterLoop E i st)"
  by (auto simp: afterLoop_def Let_def intro!: journal_closeQueued journal_pump closeStatus_cases)

lemma journal_next: "journal_ok E b st \<Longrightarrow> i < rn_nextIndex st \<Longrightarrow> i < length (rn_slots st)"
  by (auto simp: journal_ok_def)

text \<open>An admitted slot and the event of its change.\<close>

lemma journal_terminal:
  assumes "journal_ok E b st" "i < rn_nextIndex st" "sl_attempts (f (rn_slots st ! i)) = sl_attempts (rn_slots st ! i)" "sl_index (f (rn_slots st ! i)) = sl_index (rn_slots st ! i)"
    "sl_itemId (f (rn_slots st ! i)) = sl_itemId (rn_slots st ! i)" "sl_itemDigest (f (rn_slots st ! i)) = sl_itemDigest (rn_slots st ! i)"
    "sl_status (f (rn_slots st ! i)) \<in> set ITEM_TERMINAL_STATUSES" "is_live t" "task_slot t = i"
  shows "journal_ok E b (emitSlot E ''BatchItemTerminal'' i c ((''status'', JStr (sl_status (f (rn_slots st ! i)))) # payload) t (changeSlot i f st\<lparr> rn_usage := u \<rparr>))"
proof -
  have i: "i < length (rn_slots st)" using assms(1,2) by (rule journal_next)
  have "\<not> is_closing t" using assms(8) by (cases t) auto
  then show ?thesis using assms i journal_nth [OF assms(1) i]
    by (intro journal_emitSlot [OF assms(1) i, where s = "f (rn_slots st ! i)"] effect_terminal)
      (auto simp: changeSlot_def journal_task_def journal_ok_def)
qed

lemma journal_requeueSlot:
  assumes "journal_ok E b st" "i < rn_nextIndex st"
  shows "journal_ok E b (requeueSlot E i t st)"
proof -
  have i: "i < length (rn_slots st)" using assms by (rule journal_next)
  show ?thesis using assms i journal_nth [OF assms(1) i] unfolding requeueSlot_def
    by (intro journal_emitSlot [OF assms(1) i, where s = "(rn_slots st ! i)\<lparr> sl_status := ''queued'' \<rparr>"] effect_queued)
      (auto simp: changeSlot_def journal_task_def journal_ok_def)
qed

lemma journal_endLoop:
  assumes "journal_ok E b st" "i < rn_nextIndex st"
  shows "journal_ok E b (endLoop E i st)"
proof -
  have "journal_ok E b (emitSlot E ''BatchItemTerminal'' i JNull ((''status'', JStr ''cancelled'') # payload) (AwaitCancelled i)
       (changeSlot i (\<lambda>s. s\<lparr> sl_status := ''cancelled'' \<rparr>) st\<lparr> rn_usage := rn_usage st \<rparr>))" for payload
    using journal_terminal [OF assms, of "\<lambda>s. s\<lparr> sl_status := ''cancelled'' \<rparr>" "AwaitCancelled i"] by (simp add: ITEM_TERMINAL_STATUSES_def)
  moreover have "changeSlot i f st\<lparr> rn_usage := rn_usage st \<rparr> = changeSlot i f st" for f by (simp add: changeSlot_def)
  ultimately show ?thesis using journal_afterLoop [OF assms(1)] by (simp add: endLoop_def unstartedPayload_def)
qed

lemma journal_startAttempt:
  assumes "journal_ok E b st" "i < rn_nextIndex st" "num_less (sl_attempts (rn_slots st ! i)) (num_of_int m)" "m \<le> 8"
  shows "journal_ok E b (startAttempt E i st)"
proof -
  let ?n = "num_add (sl_attempts (rn_slots st ! i)) (Fin 1)"
  let ?c = "(changeSlot i (\<lambda>s. s\<lparr> sl_attempts := num_add (sl_attempts s) (Fin 1) \<rparr>) st)\<lparr>
     rn_totalAttempts := num_add (rn_totalAttempts st) (Fin 1), rn_executionAttempts := rn_executionAttempts st + 1 \<rparr>"
  have i: "i < length (rn_slots st)" using assms(1,2) by (rule journal_next)
  note nth = journal_nth [OF assms(1) i]
  have n: "counted ?n" "num_max (sl_attempts (rn_slots st ! i)) ?n = ?n" using counted_next [OF nth(2) assms(3,4)] by auto
  have "journal_ok E b (slotFails e ?c)" for e
  proof -
    have "indexed ((rn_slots st)[i := (rn_slots st ! i)\<lparr> sl_attempts := ?n \<rparr>])" using assms(1) i n(1) nth by (intro indexed_update) (auto simp: journal_ok_def)
    then show ?thesis using assms(1,2)
      by (auto simp: journal_ok_def slotFails_def addTask_def changeSlot_def unfailed_def journal_task_def)
  qed
  moreover have "journal_ok E b (emitSlot E ''BatchItemStarted'' i JNull payload (AwaitStarted i)
      (changeSlot i (\<lambda>s. s\<lparr> sl_assignmentId := a, sl_assignmentHash := h, sl_status := ''running'' \<rparr>) ?c))" for payload a h
    using assms(1,2) i n nth
    by (intro journal_emitSlot [OF assms(1) i, where s = "(rn_slots st ! i)\<lparr> sl_attempts := ?n, sl_assignmentId := a, sl_assignmentHash := h, sl_status := ''running'' \<rparr>"] effect_started)
      (auto simp: changeSlot_def journal_task_def journal_ok_def)
  ultimately show ?thesis by (simp add: startAttempt_def Let_def split: sum.splits)
qed

lemma journal_loopHead: "journal_ok E b st \<Longrightarrow> i < rn_nextIndex st \<Longrightarrow> maxAttemptsIs E m \<Longrightarrow> journal_ok E b (loopHead E i st)"
  using journal_startAttempt [of E b st i m] journal_endLoop [of E b st i] by (auto simp: loopHead_def maxAttemptsIs_def)

lemma journal_item:
  assumes "journal_ok E b st" "i < rn_nextIndex st"
  shows "journal_ok E b (itemThrows E i code r st)" "journal_ok E b (itemReturns E i v st)"
proof -
  have f: "journal_ok E b (finishItem E i t st)" for t
    using journal_terminal [OF assms, of "finishedSlot t" "AwaitTerminal i t"] by (simp add: finishItem_def terminalPayload_def finishedSlot_def itemStatus_terminal)
  show t: "journal_ok E b (itemThrows E i code r st)" for code r
    using assms(1) by (auto simp: itemThrows_def f intro: journal_slotFails split: sum.splits)
  show "journal_ok E b (itemReturns E i v st)" by (auto simp: itemReturns_def f t split: sum.splits js_error.splits)
qed

lemma journal_capacity:
  assumes "journal_ok E b st" "i < rn_nextIndex st" "rn_slots st' = rn_slots st" "rn_emitted st' = rn_emitted st" "rn_fatal st' = rn_fatal st" "rn_tasks st' = rn_tasks st"
    "rn_admissionClosed st' = rn_admissionClosed st" "rn_nextIndex st' = rn_nextIndex st"
  shows "journal_ok E b (emitSlot E ''BatchCapacityChanged'' i c payload (AwaitCapacity i t True) st')"
  using assms by (auto simp: journal_ok_def emitSlot_def emitThen_def addTask_def unfailed_def journal_task_def intro: mirrors_capacity)

lemma journal_afterTerminal: "journal_ok E b st \<Longrightarrow> i < rn_nextIndex st \<Longrightarrow> journal_ok E b (afterTerminal E i t st)"
  by (auto simp: afterTerminal_def applyRateLimit_def Let_def journal_task_def scheduleRamp_def intro!: journal_endLoop journal_requeueSlot journal_addTask journal_capacity)

lemma journal_admissionFails:
  assumes "journal_ok E b st" "i < rn_nextIndex st"
  shows "journal_ok E b (admissionFails E i e st)"
proof -
  let ?f = "\<lambda>s. s\<lparr> sl_status := ''failed'', sl_authoritative := JBool False, sl_error := appendFailed \<rparr>"
  have i: "i < length (rn_slots st)" using assms by (rule journal_next)
  have "indexed ((rn_slots st)[i := ?f (rn_slots st ! i)])" using assms(1) journal_nth [OF assms(1) i] i by (intro indexed_update) (auto simp: journal_ok_def)
  then have "journal_ok E False (changeSlot i ?f st\<lparr> rn_active := a, rn_completed := c \<rparr>)" for a c
    using assms by (auto simp: journal_ok_def changeSlot_def unfailed_def)
  then show ?thesis by (simp add: admissionFails_def journal_failRun)
qed

section \<open>Steps\<close>

definition journal_inv :: "batch_env \<Rightarrow> int \<Rightarrow> task option \<Rightarrow> batch_run \<Rightarrow> bool" where
  "journal_inv E m taken st \<longleftrightarrow> maxAttemptsIs E m \<and> indexed (prior_slots E) \<and> list_all (\<lambda>s. sl_status s = ''queued'') (prior_slots E) \<longrightarrow>
     (case taken of None \<Rightarrow> journal_ok E True st
      | Some t \<Rightarrow> journal_ok E (\<not> is_failing t) st \<and> journal_task (rn_nextIndex st) t \<and> (is_closing t \<longrightarrow> rn_admissionClosed st))"

lemma journal_dropTask:
  assumes "journal_ok E True st" "k < length (rn_tasks st)"
  shows "journal_ok E (\<not> is_failing (rn_tasks st ! k)) (dropTask k st) \<and> journal_task (rn_nextIndex (dropTask k st)) (rn_tasks st ! k)
     \<and> (is_closing (rn_tasks st ! k) \<longrightarrow> rn_admissionClosed (dropTask k st))"
proof -
  have split: "rn_tasks st = take k (rn_tasks st) @ rn_tasks st ! k # drop (Suc k) (rn_tasks st)" using assms(2) by (rule id_take_nth_drop)
  have all: "list_all p (rn_tasks st) \<longleftrightarrow> list_all p (rn_tasks (dropTask k st)) \<and> p (rn_tasks st ! k)" for p by (subst split) (auto simp: dropTask_def)
  have ex: "list_ex p (rn_tasks st) \<longleftrightarrow> list_ex p (rn_tasks (dropTask k st)) \<or> p (rn_tasks st ! k)" for p by (subst split) (auto simp: dropTask_def)
  show ?thesis using assms(1) all [of "journal_task (rn_nextIndex st)"] ex [of is_closing] ex [of is_failing]
    unfolding journal_ok_def unfailed_def by (auto simp: dropTask_def)
qed

lemma journal_resumeTask:
  assumes "journal_ok E (\<not> is_failing t) st" "journal_task (rn_nextIndex st) t" "is_closing t \<longrightarrow> rn_admissionClosed st" "maxAttemptsIs E m" "resumeTask E t st = Some st'"
  shows "journal_ok E True st'"
  using assms
  by (cases "(E, t, st)" rule: resumeTask.cases)
    (auto simp: journal_task_def intro!: journal_loopHead journal_addTask journal_afterTerminal journal_requeueSlot journal_afterLoop journal_failRun journal_closeQueued journal_pump)

lemma journal_rejectTask:
  assumes "journal_ok E (\<not> is_failing t) st" "journal_task (rn_nextIndex st) t" "rejectTask E t e st = Some st'"
  shows "journal_ok E True st'"
  using assms
  by (cases "(E, t, e, st)" rule: rejectTask.cases)
    (auto simp: journal_task_def intro!: journal_admissionFails journal_slotFails journal_addTask split: if_splits)

lemma journal_settleBatch: "journal_ok E True st \<Longrightarrow> journal_ok E True (settleBatch E elapsed st)"
  by (auto simp: settleBatch_def Let_def emitThen_def split: sum.splits intro!: journal_addTask)
    (auto simp: journal_ok_def unfailed_def journal_task_def intro: mirrors_settled)

lemma journal_rampFires: "journal_ok E b st \<Longrightarrow> journal_ok E b (rampFires E st)"
  by (simp add: rampFires_def Let_def journal_pump)

lemma journal_start:
  assumes "indexed (prior_slots E)" "list_all (\<lambda>s. sl_status s = ''queued'') (prior_slots E)"
  shows "journal_ok E True (batch_start E aborted late)"
  unfolding batch_start_def Let_def
  by (rule journal_pump) (use assms in \<open>auto simp: journal_ok_def mirrors_def journalled_def list_all_length same_slot_def intro!: list_all2_all_nthI\<close>)

interpretation journal: batch_invariant E "journal_inv E m" for E m
proof (unfold_locales, unfold journal_inv_def option.case, goal_cases)
  case (1 late aborted) then show ?case by (simp add: journal_start)
next
  case (2 st k) then show ?case by (blast dest: journal_dropTask)
next
  case (3 t st st') then show ?case by (blast intro: journal_resumeTask)
next
  case (4 t st e st') then show ?case by (blast intro: journal_rejectTask)
qed (auto simp: journal_task_def intro: journal_item journal_rampFires journal_abortRun journal_settleBatch)

end
