(* ===== verification/Batch_Exclusive.thy ===== *)
theory Batch_Exclusive
  imports Batch_Budget
begin

text \<open>
  Every slot of a batch run is in the hands of at most one continuation: the slots at work are distinct,
  so an item is never executed twice at the same time. The invariant carries the slot whose
  continuation is running, and keeps all of them below the next slot to admit.
\<close>

abbreviation slots_at_work :: "batch_run \<Rightarrow> nat list" where
  "slots_at_work st \<equiv> map task_slot (filter is_live (rn_tasks st))"

definition apart :: "nat list \<Rightarrow> batch_run \<Rightarrow> bool" where
  "apart own_slots st \<longleftrightarrow> distinct (own_slots @ slots_at_work st) \<and> (\<forall>i \<in> set (own_slots @ slots_at_work st). i < rn_nextIndex st)"

lemma apart_fields [simp]:
  "apart S (st\<lparr> rn_admissionClosed := b \<rparr>) = apart S st" "apart S (st\<lparr> rn_aborted := b \<rparr>) = apart S st" "apart S (st\<lparr> rn_fatal := f \<rparr>) = apart S st"
  "apart S (st\<lparr> rn_rampArmed := b \<rparr>) = apart S st" "apart S (st\<lparr> rn_completed := c \<rparr>) = apart S st" "apart S (st\<lparr> rn_deadlineExceeded := b \<rparr>) = apart S st"
  "apart S (st\<lparr> rn_done := r \<rparr>) = apart S st" "apart S (st\<lparr> rn_usage := u \<rparr>) = apart S st" "apart S (st\<lparr> rn_result := v \<rparr>) = apart S st"
  "apart S (st\<lparr> rn_finished := b \<rparr>) = apart S st" "apart S (st\<lparr> rn_active := n \<rparr>) = apart S st" "apart S (st\<lparr> rn_maximumActive := n \<rparr>) = apart S st"
  "apart S (st\<lparr> rn_slots := ss \<rparr>) = apart S st" "apart S (st\<lparr> rn_emitted := es \<rparr>) = apart S st" "apart S (st\<lparr> rn_capacity := n \<rparr>) = apart S st"
  "apart S (st\<lparr> rn_totalAttempts := a \<rparr>) = apart S st" "apart S (st\<lparr> rn_executionAttempts := n \<rparr>) = apart S st"
  by (simp_all add: apart_def)

lemma apart_release: "apart [i] st \<Longrightarrow> apart [] st"
  by (simp add: apart_def)

lemma apart_addTask: "\<not> is_live t \<Longrightarrow> apart S (addTask t st) = apart S st"
  by (simp add: apart_def addTask_def)

lemma apart_addLive: "apart [i] st \<Longrightarrow> is_live t \<Longrightarrow> task_slot t = i \<Longrightarrow> apart [] (addTask t st)"
  by (auto simp: apart_def addTask_def)

lemma apart_changeSlot [simp]: "apart S (changeSlot i f st) = apart S st"
  by (simp add: changeSlot_def)

lemma apart_emit: "\<not> is_live t \<Longrightarrow> apart S (emitSlot E type' i c p t st) = apart S st" "apart [i] st \<Longrightarrow> is_live t \<Longrightarrow> task_slot t = i \<Longrightarrow> apart [] (emitSlot E type' j c p t st)"
  by (simp_all add: emitSlot_def emitThen_def apart_addTask apart_addLive)

lemma apart_closeQueued [simp]: "apart S (closeQueued E o' status from' st) = apart S st"
  by (simp add: closeQueued_def apart_emit apart_addTask split: option.split)

lemma apart_maybeComplete [simp]: "apart S (maybeComplete st) = apart S st"
  by (simp add: maybeComplete_def settleDone_def split: option.split)

lemma apart_markQueued [simp]: "apart S (markQueuedWithoutEvents st) = apart S st"
  by (simp add: markQueuedWithoutEvents_def apart_def)

lemma apart_abortRun [simp]: "apart S (abortRun E st) = apart S st"
  by (simp add: abortRun_def abortAdmission_def Let_def)

lemma apart_failRun [simp]: "apart S (batchFailRun E e st) = apart S st"
  by (simp add: batchFailRun_def Let_def settleDone_def)

lemma apart_scheduleRamp [simp]: "apart S (scheduleRamp E st) = apart S st"
  by (simp add: scheduleRamp_def)

text \<open>The next slot is admitted: it is above all slots at work.\<close>

lemma apart_admitSlot: "apart S st \<Longrightarrow> apart S (admitSlot E st)"
  by (auto simp: admitSlot_def Let_def run_updates apart_def less_Suc_eq)

lemma apart_admitSlots: "apart S st \<Longrightarrow> apart S (admitSlots E k st)"
  by (induction k arbitrary: st) (simp_all add: apart_admitSlot)

lemma apart_pump: "apart S st \<Longrightarrow> apart S (pump E st)"
  by (simp add: pump_def Let_def apart_admitSlots)

lemma apart_slotFails: "apart [i] st \<Longrightarrow> apart [] (slotFails e st)"
  by (simp add: slotFails_def apart_addTask apart_release)

lemma apart_afterLoop: "apart [i] st \<Longrightarrow> apart [] (afterLoop E j st)"
  by (simp add: afterLoop_def Let_def apart_release apart_pump)

lemma apart_endLoop: "apart [i] st \<Longrightarrow> apart [] (endLoop E i st)"
  by (simp add: endLoop_def apart_emit apart_afterLoop)

lemma apart_startAttempt: "apart [i] st \<Longrightarrow> apart [] (startAttempt E i st)"
  by (auto simp: startAttempt_def Let_def intro!: apart_emit apart_slotFails [of i] split: sum.splits)

lemma apart_loopHead: "apart [i] st \<Longrightarrow> apart [] (loopHead E i st)"
  by (simp add: loopHead_def apart_startAttempt apart_endLoop)

lemma apart_item: "apart [i] st \<Longrightarrow> apart [] (itemThrows E i code r st)" "apart [i] st \<Longrightarrow> apart [] (itemReturns E i v st)"
proof -
  have f: "apart [i] st \<Longrightarrow> apart [] (finishItem E i t st)" for t st by (simp add: finishItem_def apart_emit)
  show t: "apart [i] st \<Longrightarrow> apart [] (itemThrows E i code r st)" for code r
    by (auto simp: itemThrows_def f intro: apart_slotFails split: sum.splits)
  show "apart [i] st \<Longrightarrow> apart [] (itemReturns E i v st)" by (auto simp: itemReturns_def f t split: sum.splits js_error.splits)
qed

lemma apart_requeueSlot: "apart [i] st \<Longrightarrow> apart [] (requeueSlot E i t st)"
  by (simp add: requeueSlot_def apart_emit)

lemma apart_afterTerminal: "apart [i] st \<Longrightarrow> apart [] (afterTerminal E i t st)"
  by (simp add: afterTerminal_def applyRateLimit_def Let_def apart_endLoop apart_requeueSlot apart_emit apart_addLive)

text \<open>A task is taken out of the list with its slot.\<close>

definition taken_slot :: "task \<Rightarrow> nat list" where
  "taken_slot t = (if is_live t then [task_slot t] else [])"

lemma apart_dropTask:
  assumes "apart [] st" "k < length (rn_tasks st)"
  shows "apart (taken_slot (rn_tasks st ! k)) (dropTask k st)"
proof -
  let ?slots = "\<lambda>ts. map task_slot (filter is_live ts)"
  have "?slots (rn_tasks st) = ?slots (take k (rn_tasks st) @ rn_tasks st ! k # drop (Suc k) (rn_tasks st))"
    by (rule arg_cong [of _ _ ?slots]) (rule id_take_nth_drop [OF assms(2)])
  then have "slots_at_work st = ?slots (take k (rn_tasks st)) @ taken_slot (rn_tasks st ! k) @ ?slots (drop (Suc k) (rn_tasks st))"
    by (simp add: taken_slot_def)
  then show ?thesis using assms(1) unfolding apart_def by (auto simp: dropTask_def)
qed

lemma apart_taken: "is_live t \<Longrightarrow> apart (taken_slot t) st = apart [task_slot t] st" "\<not> is_live t \<Longrightarrow> apart (taken_slot t) st = apart [] st"
  by (simp_all add: taken_slot_def)

lemma apart_admissionFails: "apart [i] st \<Longrightarrow> apart [] (admissionFails E i e st)"
  by (simp add: admissionFails_def apart_release)

lemma apart_resumeTask: "apart (taken_slot t) st \<Longrightarrow> resumeTask E t st = Some st' \<Longrightarrow> apart [] st'"
  by (cases "(E, t, st)" rule: resumeTask.cases)
    (auto simp: taken_slot_def intro!: apart_loopHead apart_addLive apart_afterTerminal apart_requeueSlot apart_afterLoop apart_pump)

lemma apart_rejectTask: "apart (taken_slot t) st \<Longrightarrow> rejectTask E t e st = Some st' \<Longrightarrow> apart [] st'"
  by (cases "(E, t, e, st)" rule: rejectTask.cases)
    (auto simp: taken_slot_def apart_addTask intro: apart_admissionFails apart_slotFails split: if_splits)

lemma apart_settleBatch: "apart S st \<Longrightarrow> apart S (settleBatch E elapsed st)"
  by (auto simp: settleBatch_def Let_def emitThen_def apart_addTask split: sum.splits)

lemma apart_rampFires: "apart S st \<Longrightarrow> apart S (rampFires E st)"
  by (simp add: rampFires_def Let_def apart_pump)

lemma apart_start: "apart [] (batch_start E aborted late)"
  unfolding batch_start_def Let_def by (rule apart_pump) (simp add: apart_def)

interpretation exclusive: batch_invariant E "\<lambda>taken. apart (case taken of Some t \<Rightarrow> taken_slot t | None \<Rightarrow> [])" for E
proof (unfold_locales, unfold option.case, goal_cases)
  case (2 st k) then show ?case by (rule apart_dropTask)
next
  case (3 t st st') then show ?case by (rule apart_resumeTask)
next
  case (4 t st e st') then show ?case by (rule apart_rejectTask)
next
  case (5 i b st v) then show ?case by (simp add: apart_taken apart_item)
next
  case (6 i b st code r) then show ?case by (simp add: apart_taken apart_item)
qed (simp_all add: apart_start apart_rampFires apart_settleBatch)

end
