(* ===== verification/Batch_Prepared.thy ===== *)
theory Batch_Prepared
  imports Batch_Progress Batch_Journal Batch_Exclusive
begin

text \<open>
  What \<open>prepareBatch\<close> guarantees to a run: limits within the contract, slots numbered like the items,
  and a reservation that is the number of attempts left to the slots that have not succeeded.
\<close>

section \<open>Limits\<close>

lemma prepared_inv:
  assumes "prepareBatch P X node C = Inr B"
  obtains w raw where "assertBatchSwarmDefinition P w = Inr (pb_definition B)" "normalizeItems P (pb_definition B) raw = Inr (pb_items B)"
    "projectBatchSwarmEvents P (bc_priorBatchEvents C) (pb_key B) (pb_items B) = Inr (pb_prior B)"
    "pb_reservation B = batchReservation P node (pb_definition B) (bp_items (pb_prior B))"
proof -
  have "\<exists>d w. assertBatchSwarmDefinition P w = Inr d \<and> pb_definition B = d
    \<and> (\<exists>raw. normalizeItems P d raw = Inr (pb_items B)) \<and> projectBatchSwarmEvents P (bc_priorBatchEvents C) (pb_key B) (pb_items B) = Inr (pb_prior B)
    \<and> pb_reservation B = batchReservation P node d (bp_items (pb_prior B))"
    using assms unfolding prepareBatch_def
    apply (simp add: rbind_eq_Inr failBatch_def Let_def split: if_splits)
    apply (elim exE conjE, hypsubst, simp)
    by (rule exI conjI | assumption)+
  then show thesis using that by blast
qed

lemma accepted_limits:
  assumes "assertBatchSwarmDefinition P w = Inr d"
  shows "batchConcurrencyOk P (own ''concurrency'' d)"
proof -
  have v: "validateBatchDefinition P d = []"
    using assms by (auto simp: assertBatchSwarmDefinition_def failBatch_def split: list.splits)
  moreover have "isObj d" using v by (auto simp: validateBatchDefinition_def split: if_splits)
  ultimately show ?thesis by (simp add: validateBatchDefinition_def)
qed

lemma prepared_limits:
  assumes "prepareBatch (ex_host E) X node C = Inr (ex_batch E)"
  shows "1 \<le> concurrencyOf E ''initial'' \<and> concurrencyOf E ''initial'' \<le> concurrencyOf E ''max'' \<and> concurrencyOf E ''max'' \<le> 16"
    and "\<exists>m. retryOf E ''maxAttempts'' = num_of_int m \<and> 1 \<le> m \<and> m \<le> 8"
proof -
  obtain w where w: "assertBatchSwarmDefinition (ex_host E) w = Inr (pb_definition (ex_batch E))" using assms by (rule prepared_inv)
  show "1 \<le> concurrencyOf E ''initial'' \<and> concurrencyOf E ''initial'' \<le> concurrencyOf E ''max'' \<and> concurrencyOf E ''max'' \<le> 16"
    using accepted_limits [OF w] by (auto simp: batchConcurrencyOk_def safe_between_iff concurrencyOf_def)
  show "\<exists>m. retryOf E ''maxAttempts'' = num_of_int m \<and> 1 \<le> m \<and> m \<le> 8"
    using accepted_batch [OF w] by (auto simp: safe_between_iff retryOf_def)
qed

section \<open>Items\<close>

lemma projected_items:
  assumes "projectBatchSwarmEvents P events key xs = Inr pr"
  shows "map sl_index (bp_items pr) = map pi_index xs"
  unfolding projectBatchSwarmEvents_def
proof (rule foldR_inv [OF assms [unfolded projectBatchSwarmEvents_def], where I = "\<lambda>s. map sl_index (bp_items s) = map pi_index xs"])
  show "map sl_index (bp_items (newProjection xs)) = map pi_index xs" by (simp add: newProjection_def newItemSlot_def comp_def)
next
  fix s x s' assume s: "map sl_index (bp_items s) = map pi_index xs" and p: "projectBatchEvent P key s x = Inr s'"
  have i: "sl_index t' = sl_index t" if "slotEvent P ty pl t = Inr t'" for ty pl t t'
    using that by (auto simp: slotEvent_def slotStarted_def slotTerminal_def countAttempt_def failBatch_def split: if_splits jsval.splits)
  show "map sl_index (bp_items s') = map pi_index xs"
    using p s unfolding projectBatchEvent_def
    by (auto simp: Let_def failBatch_def rbind_eq_Inr map_update split: if_splits option.splits dest!: i)
       (metis list_update_id nth_map map_update)+
qed

lemma normalized_items:
  assumes "normalizeItems P d raw = Inr xs"
  shows "map pi_index xs = [0..<length xs]"
    and "safe_between P 1 300 (own ''maxItems'' d) \<Longrightarrow> length xs \<le> 300"
proof -
  obtain raws where r: "raw = JArr raws" "\<not> js_less P (own ''maxItems'' d) (jnat (length raws))" "foldR (normalizeItem P) [] raws = Inr xs"
    using assms by (auto simp: normalizeItems_def failBatch_def split: jsval.splits if_splits)
  have n: "foldR (normalizeItem P) done ys = Inr zs \<Longrightarrow> map pi_index done = [0..<length done] \<Longrightarrow> map pi_index zs = [0..<length zs] \<and> length zs = length done + length ys" for ys zs "done"
  proof (induction ys arbitrary: "done")
    case (Cons y ys)
    then obtain d1 where d: "normalizeItem P done y = Inr d1" "foldR (normalizeItem P) d1 ys = Inr zs" by (auto simp: res_simps)
    have "map pi_index d1 = [0..<length d1] \<and> length d1 = Suc (length done)"
      using d(1) Cons.prems(2) by (auto simp: normalizeItem_def rbind_eq_Inr failBatch_def split: if_splits)
    then show ?case using Cons.IH [OF d(2)] by simp
  qed simp
  show "map pi_index xs = [0..<length xs]" using n [OF r(3)] by simp
  show "length xs \<le> 300" if "safe_between P 1 300 (own ''maxItems'' d)"
    using n [OF r(3)] r(2) that by (auto simp: safe_between_iff)
qed

lemma prepared_indexed:
  assumes "prepareBatch (ex_host E) X node C = Inr (ex_batch E)" "list_all counted (prior_attempts E)"
  shows "indexed (prior_slots E)" "length (prior_slots E) = length (pb_items (ex_batch E))"
proof -
  obtain w raw where w: "assertBatchSwarmDefinition (ex_host E) w = Inr (pb_definition (ex_batch E))"
    "normalizeItems (ex_host E) (pb_definition (ex_batch E)) raw = Inr (pb_items (ex_batch E))"
    "projectBatchSwarmEvents (ex_host E) (bc_priorBatchEvents C) (pb_key (ex_batch E)) (pb_items (ex_batch E)) = Inr (pb_prior (ex_batch E))"
    using assms(1) by (rule prepared_inv)
  have m: "map sl_index (prior_slots E) = [0..<length (pb_items (ex_batch E))]" using projected_items [OF w(3)] normalized_items(1) [OF w(2)] by simp
  then show l: "length (prior_slots E) = length (pb_items (ex_batch E))" by (metis length_map length_upt diff_zero)
  have "sl_index (prior_slots E ! i) = i" if "i < length (prior_slots E)" for i
    using m that l by (metis nth_map nth_upt add_0)
  then show "indexed (prior_slots E)"
    using normalized_items(2) [OF w(2)] accepted_batch [OF w(1)] l assms(2) by (simp add: indexed_def list.pred_map)
qed

section \<open>The reservation\<close>

lemma attempts_left_num:
  assumes "counted n" "1 \<le> m" "m \<le> 8"
  shows "num_max (Fin 0) (num_sub (num_of_int m) n) = num_of_int (attemptsLeft m n)"
proof -
  obtain k where k: "n = num_of_int k" "0 \<le> k" "k \<le> MAX_SAFE_INTEGER" using assms(1) by (auto simp: counted_def)
  have "num_sub (num_of_int m) (num_of_int k) = num_of_int (m - k)" by (rule num_sub_ints) (use k assms in \<open>auto simp: MAX_SAFE_INTEGER_def\<close>)
  then show ?thesis using k(1) by (cases "m \<le> k") (auto simp: attemptsLeft_def max_def num_max_def)
qed

lemma remaining_sum:
  assumes "\<And>s. s \<in> set ss \<Longrightarrow> counted (sl_attempts s)" "js_number P (own ''maxAttempts'' (own ''retryPolicy'' d)) = num_of_int m" "1 \<le> m" "m \<le> 8"
    "0 \<le> a" "a + 8 * int (length ss) \<le> 2 ^ 53"
  shows "foldl (\<lambda>sum s. num_add sum (num_max (Fin 0) (num_sub (js_number P (own ''maxAttempts'' (own ''retryPolicy'' d))) (sl_attempts s)))) (num_of_int a) ss
     = num_of_int (a + (\<Sum>s\<leftarrow>ss. attemptsLeft m (sl_attempts s)))"
  using assms
proof (induction ss arbitrary: a)
  case (Cons s ss)
  have l: "0 \<le> attemptsLeft m (sl_attempts s) \<and> attemptsLeft m (sl_attempts s) \<le> 8"
    using Cons.prems(1) [of s] Cons.prems(4) by (auto simp: attemptsLeft_def counted_def)
  have "num_add (num_of_int a) (num_of_int (attemptsLeft m (sl_attempts s))) = num_of_int (a + attemptsLeft m (sl_attempts s))"
    by (rule num_add_ints) (use l Cons.prems(5,6) in simp)
  then show ?case using Cons.IH [of "a + attemptsLeft m (sl_attempts s)"] Cons.prems l
    by (simp add: attempts_left_num add.assoc del: of_int_add)
qed simp

lemma sum_filter_nth: "(\<Sum>s\<leftarrow>filter p xs. f s) = (\<Sum>i | i < length xs \<and> p (xs ! i). (f (xs ! i) :: int))"
proof -
  have "(\<Sum>s\<leftarrow>filter p xs. f s) = (\<Sum>s\<leftarrow>xs. if p s then f s else 0)" by (induction xs) simp_all
  also have "\<dots> = (\<Sum>i<length xs. if p (xs ! i) then f (xs ! i) else 0)" by (simp add: sum_list_sum_nth atLeast0LessThan)
  also have "\<dots> = (\<Sum>i\<in>{i. i < length xs \<and> p (xs ! i)}. f (xs ! i))"
    by (rule sum.mono_neutral_cong_right) auto
  finally show ?thesis .
qed

lemma reserved_attempts:
  assumes p: "prepareBatch (ex_host E) X node C = Inr (ex_batch E)" and r: "maxAttemptsIs E m"
  shows "own ''assignments'' (pb_reservation (ex_batch E)) = jint (\<Sum>i\<in>todo E. attemptsLeft m (prior_attempts E ! i))"
proof -
  let ?ss = "filter (\<lambda>s. sl_status s \<noteq> ''succeeded'') (prior_slots E)"
  have c: "list_all counted (prior_attempts E)" "js_number (ex_host E) (own ''maxAttempts'' (own ''retryPolicy'' (pb_definition (ex_batch E)))) = num_of_int m" "1 \<le> m" "m \<le> 8"
    using r by (simp_all add: maxAttemptsIs_def retryOf_def)
  have n: "length (prior_slots E) \<le> 300" using prepared_indexed(1) [OF p c(1)] by (simp add: indexed_def)
  have "length ?ss \<le> 300" using length_filter_le n by (rule le_trans)
  then have l: "0 + 8 * int (length ?ss) \<le> 2 ^ 53" by simp
  have "remainingAttempts (ex_host E) (pb_definition (ex_batch E)) (prior_slots E) = num_of_int (0 + (\<Sum>s\<leftarrow>?ss. attemptsLeft m (sl_attempts s)))"
    unfolding remainingAttempts_def
    using remaining_sum [of ?ss "ex_host E" "pb_definition (ex_batch E)" m 0] c l by (simp add: list_all_iff)
  moreover have "(\<Sum>s\<leftarrow>?ss. attemptsLeft m (sl_attempts s)) = (\<Sum>i\<in>todo E. attemptsLeft m (prior_attempts E ! i))"
    unfolding sum_filter_nth todo_def by (rule sum.cong) auto
  moreover have "own ''assignments'' (pb_reservation (ex_batch E)) = JNum (remainingAttempts (ex_host E) (pb_definition (ex_batch E)) (prior_slots E))"
    using p by (rule prepared_inv) (simp add: batchReservation_def Let_def)
  ultimately show ?thesis by simp
qed

lemma prepared_retries:
  assumes "prepareBatch (ex_host E) X node C = Inr (ex_batch E)" "list_all counted (prior_attempts E)"
  obtains m where "maxAttemptsIs E m"
  using prepared_limits(2) [OF assms(1)] assms(2) by (auto simp: maxAttemptsIs_def)

lemma prepared_startable:
  assumes "prepareBatch (ex_host E) X node C = Inr (ex_batch E)" "list_all counted (prior_attempts E)" "pb_items (ex_batch E) \<noteq> []"
  shows "startable E"
  using prepared_limits(1) [OF assms(1)] prepared_indexed(2) [OF assms(1,2)] assms(3) by (auto simp: startable_def)

end
