(* ===== verification/Batch_Termination.thy ===== *)
theory Batch_Termination
  imports Batch_Prepared
begin

text \<open>
  A batch run has boundedly many steps, whatever the executor, the journal and the timers answer. The
  measure gives every waiting continuation the steps it can still cause and adds what is left of the
  slots to admit, the reserved attempts, the ramp and the signals; a rate limit lowers the capacity, and the
  ramp steps this makes possible are paid for by the attempt that was limited.
\<close>

section \<open>The measure\<close>

definition slot_count :: "batch_env \<Rightarrow> int" where
  "slot_count E = int (length (prior_slots E))"

definition rampWeight :: "batch_env \<Rightarrow> int" where
  "rampWeight E = slot_count E + 3"

text \<open>All the steps of the ramp from the lowest capacity.\<close>

definition rampsWeight :: "batch_env \<Rightarrow> int" where
  "rampsWeight E = concurrencyOf E ''max'' * rampWeight E"

fun closedWeight :: "batch_env \<Rightarrow> origin \<Rightarrow> int" where
  "closedWeight E FromPump = 1"
| "closedWeight E FromSlot = 2 * slot_count E + 6"

definition attemptWeight :: "batch_env \<Rightarrow> int" where
  "attemptWeight E = 5 * slot_count E + 20 + rampsWeight E"

fun taskWeight :: "batch_env \<Rightarrow> task \<Rightarrow> int" where
  "taskWeight E (AwaitQueued i) = 3 * slot_count E + 9"
| "taskWeight E (AwaitStarted i) = attemptWeight E"
| "taskWeight E (AwaitItem i b) = attemptWeight E - 1"
| "taskWeight E (AwaitTerminal i t) = attemptWeight E - 2"
| "taskWeight E (AwaitCapacity i t b) = 4 * slot_count E + 14"
| "taskWeight E (AwaitRequeue i t) = 3 * slot_count E + 10"
| "taskWeight E (AwaitDelay i ms) = 3 * slot_count E + 9"
| "taskWeight E (AwaitCancelled i) = 3 * slot_count E + 8"
| "taskWeight E (Failing e) = 1"
| "taskWeight E (Closing o' status j) = closedWeight E o' + 1 + max 0 (slot_count E - int j)"
| "taskWeight E (Closed o') = closedWeight E o'"
| "taskWeight E (AwaitSettled result) = 1"

definition base :: "batch_env \<Rightarrow> int \<Rightarrow> batch_run \<Rightarrow> int" where
  "base E r st = (\<Sum>t\<leftarrow>rn_tasks st. taskWeight E t) + max 0 (slot_count E - int (rn_nextIndex st)) * (3 * slot_count E + 9)
     + (r - rn_executionAttempts st) * attemptWeight E + (concurrencyOf E ''max'' - rn_capacity st) * rampWeight E
     + (if rn_aborted st then 0 else slot_count E + 3) + (if rn_deadlineExceeded st then 0 else 1) + (if rn_finished st then 0 else 2)"

definition weight :: "batch_env \<Rightarrow> int \<Rightarrow> batch_run \<Rightarrow> int" where
  "weight E r st = base E r st + (if rn_rampArmed st then rampWeight E else 0)"

lemma slot_count_nonneg: "0 \<le> slot_count E"
  by (simp add: slot_count_def)

lemma base_fields [simp]:
  "base E r (st\<lparr> rn_admissionClosed := b \<rparr>) = base E r st" "base E r (st\<lparr> rn_fatal := f \<rparr>) = base E r st" "base E r (st\<lparr> rn_rampArmed := b \<rparr>) = base E r st"
  "base E r (st\<lparr> rn_completed := c \<rparr>) = base E r st" "base E r (st\<lparr> rn_done := d \<rparr>) = base E r st" "base E r (st\<lparr> rn_usage := u \<rparr>) = base E r st"
  "base E r (st\<lparr> rn_result := v \<rparr>) = base E r st" "base E r (st\<lparr> rn_active := a \<rparr>) = base E r st" "base E r (st\<lparr> rn_maximumActive := a \<rparr>) = base E r st"
  "base E r (st\<lparr> rn_slots := ss \<rparr>) = base E r st" "base E r (st\<lparr> rn_emitted := es \<rparr>) = base E r st" "base E r (st\<lparr> rn_totalAttempts := ta \<rparr>) = base E r st"
  by (simp_all add: base_def)

lemma base_addTask [simp]: "base E r (addTask t st) = base E r st + taskWeight E t"
  by (simp add: base_def addTask_def)

lemma base_changeSlot [simp]: "base E r (changeSlot i f st) = base E r st"
  by (simp add: changeSlot_def)

lemma base_emit [simp]: "base E r (emitSlot E' type' i c p t st) = base E r st + taskWeight E t"
  by (simp add: emitSlot_def emitThen_def)

lemma armed_same [simp]:
  "rn_rampArmed (addTask t st) = rn_rampArmed st" "rn_rampArmed (changeSlot i f st) = rn_rampArmed st" "rn_rampArmed (emitSlot E' type' i c p t st) = rn_rampArmed st"
  by (simp_all add: run_updates)

section \<open>Closing\<close>

lemma nextQueued_ge: "nextQueued slots i = Some j \<Longrightarrow> i \<le> j \<and> j < length slots"
  by (auto simp: nextQueued_def find_Some_iff)

lemma base_closeQueued: "base E r (closeQueued E o' status i st) \<le> base E r st + closedWeight E o' + 1 + max 0 (slot_count E - int i)"
  by (auto simp: closeQueued_def dest!: nextQueued_ge split: option.split)

lemma closeQueued_armed [simp]: "rn_rampArmed (closeQueued E o' status i st) = rn_rampArmed st"
  by (simp add: closeQueued_def split: option.split)

lemma base_maybeComplete [simp]: "base E r (maybeComplete st) = base E r st" "rn_rampArmed (maybeComplete st) = rn_rampArmed st"
  by (simp_all add: maybeComplete_def settleDone_def split: option.split)

lemma base_markQueued [simp]: "base E r (markQueuedWithoutEvents st) = base E r st" "rn_rampArmed (markQueuedWithoutEvents st) = rn_rampArmed st"
  by (simp_all add: markQueuedWithoutEvents_def base_def)

lemma base_aborted: "\<not> rn_aborted st \<Longrightarrow> base E r (st\<lparr> rn_aborted := True \<rparr>) = base E r st - (slot_count E + 3)"
  by (simp add: base_def)

lemma base_abortRun: "base E r (abortRun E st) \<le> base E r st - (if rn_aborted st then 0 else 1)"
  using base_closeQueued [of E r FromPump "''cancelled''" 0 "st\<lparr> rn_aborted := True, rn_admissionClosed := True \<rparr>"] slot_count_nonneg [of E]
  by (auto simp: abortRun_def abortAdmission_def Let_def base_aborted)

lemma abortRun_armed [simp]: "rn_rampArmed (abortRun E st) = rn_rampArmed st"
  by (simp add: abortRun_def abortAdmission_def Let_def)

lemma base_failRun: "base E r (batchFailRun E e st) \<le> base E r st" "rn_rampArmed (batchFailRun E e st) = rn_rampArmed st"
  using base_abortRun [of E r "st\<lparr> rn_fatal := Some (fatalOf e), rn_admissionClosed := True \<rparr>"]
  by (auto simp: batchFailRun_def Let_def settleDone_def split: if_splits)

section \<open>Admission\<close>

lemma base_scheduleRamp [simp]: "base E r (scheduleRamp E st) = base E r st"
  by (simp add: scheduleRamp_def)

lemma base_admitSlot:
  assumes "length (rn_slots st) = length (prior_slots E)" "rn_nextIndex st < length (rn_slots st)"
  shows "base E r (admitSlot E st) \<le> base E r st"
proof -
  have n: "max 0 (slot_count E - int (rn_nextIndex st)) = max 0 (slot_count E - int (Suc (rn_nextIndex st))) + 1" using assms by (simp add: slot_count_def)
  show ?thesis using slot_count_nonneg [of E] unfolding admitSlot_def Let_def
    by (simp add: base_def emitSlot_def emitThen_def addTask_def n [simplified] algebra_simps)
qed

lemma admitSlot_length [simp]: "length (rn_slots (admitSlot E st)) = length (rn_slots st)"
  by (simp add: admitSlot_def Let_def run_updates)

lemma admitSlots_length [simp]: "length (rn_slots (admitSlots E k st)) = length (rn_slots st)"
  by (induction k arbitrary: st) simp_all

lemma base_admitSlots: "length (rn_slots st) = length (prior_slots E) \<Longrightarrow> base E r (admitSlots E k st) \<le> base E r st"
proof (induction k arbitrary: st)
  case (Suc k)
  show ?case
  proof (cases "rn_admissionClosed st \<or> rn_active st \<ge> rn_capacity st \<or> rn_nextIndex st \<ge> length (rn_slots st)")
    case False
    then have "base E r (admitSlots E k (admitSlot E st)) \<le> base E r (admitSlot E st)" "base E r (admitSlot E st) \<le> base E r st"
      using Suc.IH [of "admitSlot E st"] base_admitSlot [of st E r] Suc.prems by simp_all
    then show ?thesis using False by simp
  qed simp
qed simp

lemma admitSlot_armed [simp]: "rn_rampArmed (admitSlot E st) = rn_rampArmed st"
  by (simp add: admitSlot_def Let_def)

lemma admitSlots_armed [simp]: "rn_rampArmed (admitSlots E k st) = rn_rampArmed st"
  by (induction k arbitrary: st) simp_all

lemma base_pump:
  assumes "length (rn_slots st) = length (prior_slots E)"
  shows "base E r (pump E st) \<le> base E r st + (slot_count E + 2)"
proof -
  let ?c = "if rn_aborted st then st\<lparr> rn_admissionClosed := True \<rparr> else st"
  let ?a = "admitSlots E (length (rn_slots ?c) - rn_nextIndex ?c) ?c"
  have "base E r ?a \<le> base E r st" using base_admitSlots [of ?c E r "length (rn_slots ?c) - rn_nextIndex ?c"] assms by auto
  then show ?thesis using base_closeQueued [of E r FromPump "closeStatus ?a" 0 ?a] slot_count_nonneg [of E] by (auto simp: pump_def Let_def)
qed

text \<open>The ramp is armed at most once, by \<open>scheduleRamp\<close>.\<close>

lemma weight_base: "base E r st \<le> weight E r st" "weight E r st \<le> base E r st + rampWeight E" "weight E r st = (if rn_rampArmed st then base E r st + rampWeight E else base E r st)"
  using slot_count_nonneg [of E] by (simp_all add: weight_def rampWeight_def)

lemma weight_same: "base E r st' \<le> base E r st + c \<Longrightarrow> rn_rampArmed st' = rn_rampArmed st \<Longrightarrow> weight E r st' \<le> weight E r st + c"
  by (simp add: weight_def)

lemma weight_armed: "base E r st' \<le> base E r st + c \<Longrightarrow> weight E r st' \<le> weight E r st + c + rampWeight E"
  using slot_count_nonneg [of E] by (simp add: weight_def rampWeight_def)

lemma weight_pump: "length (rn_slots st) = length (prior_slots E) \<Longrightarrow> weight E r (pump E st) \<le> weight E r st + 2 * slot_count E + 5"
  using weight_armed [OF base_pump, of st E r] by (simp add: rampWeight_def)

lemma weight_closeQueued: "weight E r (closeQueued E o' status i st) \<le> weight E r st + closedWeight E o' + 1 + max 0 (slot_count E - int i)"
  using base_closeQueued [of E r o' status i st] by (simp add: weight_def)

lemma weight_addTask [simp]: "weight E r (addTask t st) = weight E r st + taskWeight E t" "weight E r (emitSlot E' type' i c p t st) = weight E r st + taskWeight E t"
  by (simp_all add: weight_def)

lemma weight_fields [simp]:
  "weight E r (st\<lparr> rn_admissionClosed := b \<rparr>) = weight E r st" "weight E r (st\<lparr> rn_completed := c \<rparr>) = weight E r st" "weight E r (st\<lparr> rn_usage := u \<rparr>) = weight E r st"
  "weight E r (st\<lparr> rn_result := v \<rparr>) = weight E r st" "weight E r (st\<lparr> rn_active := a \<rparr>) = weight E r st" "weight E r (changeSlot i f st) = weight E r st"
  "weight E r (st\<lparr> rn_totalAttempts := ta \<rparr>) = weight E r st" "weight E r (maybeComplete st) = weight E r st" "weight E r (st\<lparr> rn_slots := ss \<rparr>) = weight E r st"
  by (simp_all add: weight_def)

lemma weight_failRun: "weight E r (batchFailRun E e st) \<le> weight E r st"
  by (simp add: weight_def base_failRun)

lemma weight_slotFails [simp]: "weight E r (slotFails e st) = weight E r st + 1"
  by (simp add: slotFails_def)

lemma weight_afterLoop:
  assumes "length (rn_slots st) = length (prior_slots E)"
  shows "weight E r (afterLoop E i st) \<le> weight E r st + 3 * slot_count E + 7"
proof -
  let ?r = "released E i st"
  have r: "weight E r ?r = weight E r st" "length (rn_slots ?r) = length (prior_slots E)" using assms by (simp_all add: released_def Let_def)
  have "weight E r (closeQueued E FromSlot (closeStatus ?r) 0 ?r) \<le> weight E r ?r + 3 * slot_count E + 7"
    using weight_closeQueued [of E r FromSlot "closeStatus ?r" 0 ?r] slot_count_nonneg [of E] by simp
  moreover have "weight E r (pump E ?r) \<le> weight E r ?r + 3 * slot_count E + 7"
    using weight_pump [OF r(2), of r] slot_count_nonneg [of E] by simp
  ultimately show ?thesis using r(1) by (simp add: afterLoop_released)
qed

section \<open>One slot\<close>

text \<open>The states in which the measure is compared: as many slots as items, the capacity within the definition.\<close>

definition measured :: "batch_env \<Rightarrow> batch_run \<Rightarrow> bool" where
  "measured E st \<longleftrightarrow> length (rn_slots st) = length (prior_slots E) \<and> 0 \<le> rn_capacity st \<and> rn_capacity st \<le> concurrencyOf E ''max''"

lemma measured_bounds: "measured E st \<Longrightarrow> 0 \<le> slot_count E \<and> 0 \<le> rampsWeight E"
  by (simp add: measured_def rampsWeight_def rampWeight_def slot_count_nonneg)

lemma weight_endLoop: "measured E st \<Longrightarrow> weight E r (endLoop E i st) \<le> weight E r st + 3 * slot_count E + 8"
  using weight_afterLoop [of st E r i] by (auto simp: endLoop_def measured_def)

lemma weight_startAttempt:
  assumes "measured E st"
  shows "weight E r (startAttempt E i st) \<le> weight E r st"
proof -
  let ?f = "\<lambda>s. s\<lparr> sl_attempts := num_add (sl_attempts s) (Fin 1) \<rparr>"
  let ?c = "(changeSlot i ?f st)\<lparr> rn_totalAttempts := num_add (rn_totalAttempts st) (Fin 1), rn_executionAttempts := rn_executionAttempts st + 1 \<rparr>"
  have "weight E r ?c = weight E r st - attemptWeight E" by (simp add: weight_def base_def changeSlot_def algebra_simps)
  then show ?thesis using measured_bounds [OF assms]
    by (auto simp: startAttempt_def Let_def attemptWeight_def simp del: weight_fields(7) split: sum.split)
qed

lemma weight_loopHead: "measured E st \<Longrightarrow> weight E r (loopHead E i st) \<le> weight E r st + 3 * slot_count E + 8"
  using weight_startAttempt [of E st r i] weight_endLoop [of E st r i] measured_bounds [of E st] by (simp add: loopHead_def)

lemma weight_item:
  assumes "measured E st"
  shows "weight E r (itemThrows E i code again st) \<le> weight E r st + attemptWeight E - 2" "weight E r (itemReturns E i v st) \<le> weight E r st + attemptWeight E - 2"
proof -
  have k: "3 \<le> attemptWeight E" using measured_bounds [OF assms] by (simp add: attemptWeight_def)
  have f: "weight E r (finishItem E i t st) = weight E r st + attemptWeight E - 2" for t by (simp add: finishItem_def)
  show t: "weight E r (itemThrows E i code again st) \<le> weight E r st + attemptWeight E - 2" for code again
    using k by (auto simp: itemThrows_def f split: sum.splits)
  show "weight E r (itemReturns E i v st) \<le> weight E r st + attemptWeight E - 2"
    by (auto simp: itemReturns_def f t split: sum.splits js_error.splits)
qed

lemma weight_requeueSlot: "weight E r (requeueSlot E i t st) = weight E r st + 3 * slot_count E + 10"
  by (simp add: requeueSlot_def)

lemma weight_scheduleRamp: "weight E r (scheduleRamp E st) \<le> weight E r st + slot_count E + 3"
  using slot_count_nonneg [of E] by (simp add: weight_def rampWeight_def)

lemma weight_halved:
  assumes "measured E st"
  shows "weight E r (st\<lparr> rn_capacity := max 1 (rn_capacity st div 2), rn_rampArmed := False \<rparr>) \<le> weight E r st + rampsWeight E"
proof -
  let ?M = "concurrencyOf E ''max''" and ?U = "rampWeight E"
  have u: "0 \<le> ?U" using slot_count_nonneg [of E] by (simp add: rampWeight_def)
  have "(?M - max 1 (rn_capacity st div 2)) * ?U \<le> ?M * ?U" by (rule mult_right_mono [OF _ u]) simp
  moreover have "0 \<le> (?M - rn_capacity st) * ?U" using assms u by (simp add: measured_def)
  ultimately show ?thesis using u by (simp add: weight_def base_def rampsWeight_def)
qed

lemma weight_applyRateLimit:
  assumes "measured E st"
  shows "weight E r (applyRateLimit E i t st) \<le> weight E r st + attemptWeight E - 3"
proof -
  let ?h = "st\<lparr> rn_capacity := max 1 (rn_capacity st div 2), rn_rampArmed := False \<rparr>"
  have "weight E r (scheduleRamp E ?h) \<le> weight E r st + rampsWeight E + slot_count E + 3"
    using weight_halved [OF assms, of r] weight_scheduleRamp [of E r ?h] by linarith
  then show ?thesis using weight_halved [OF assms, of r] measured_bounds [OF assms]
    by (auto simp: applyRateLimit_def Let_def attemptWeight_def)
qed

lemma weight_afterTerminal: "measured E st \<Longrightarrow> weight E r (afterTerminal E i t st) \<le> weight E r st + attemptWeight E - 3"
  using weight_endLoop [of E st r i] weight_applyRateLimit [of E st r i t] measured_bounds [of E st]
  by (auto simp: afterTerminal_def weight_requeueSlot attemptWeight_def)

section \<open>Every step costs\<close>

lemma weight_dropTask: "k < length (rn_tasks st) \<Longrightarrow> weight E r (dropTask k st) = weight E r st - taskWeight E (rn_tasks st ! k)"
proof -
  assume "k < length (rn_tasks st)"
  then have "(\<Sum>t\<leftarrow>rn_tasks st. taskWeight E t) = (\<Sum>t\<leftarrow>take k (rn_tasks st) @ rn_tasks st ! k # drop (Suc k) (rn_tasks st). taskWeight E t)"
    by (metis id_take_nth_drop)
  then show ?thesis by (simp add: weight_def base_def dropTask_def)
qed

lemma weight_closing:
  assumes "measured E st"
  shows "weight E r (closeQueued E o' status (Suc j) st) \<le> weight E r st + closedWeight E o' + max 0 (slot_count E - int j)"
  using assms by (auto simp: closeQueued_def measured_def slot_count_def dest!: nextQueued_ge split: option.split)

lemma weight_resumeTask:
  assumes "measured E st" "resumeTask E t st = Some st'"
  shows "weight E r st' < weight E r st + taskWeight E t"
proof (cases t)
  case (AwaitQueued i)
  then show ?thesis using assms weight_loopHead [OF assms(1), of r i] by auto
next
  case (AwaitStarted i)
  then show ?thesis using assms by auto
next
  case (AwaitTerminal i terminal)
  then show ?thesis using assms weight_afterTerminal [OF assms(1), of r i terminal] by auto
next
  case (AwaitCapacity i terminal emitted)
  then show ?thesis using assms weight_scheduleRamp [of E r st] slot_count_nonneg [of E] by (auto simp: weight_requeueSlot)
next
  case (AwaitDelay i ms)
  then show ?thesis using assms weight_loopHead [OF assms(1), of r i] by auto
next
  case (AwaitCancelled i)
  then show ?thesis using assms weight_afterLoop [of st E r i] by (auto simp: measured_def)
next
  case (Failing e)
  then show ?thesis using assms weight_failRun [of E r e st] by auto
next
  case (Closing o' status j)
  then show ?thesis using assms weight_closing [OF assms(1), of r o' status j] by auto
next
  case (Closed o')
  then show ?thesis using assms weight_pump [of st E r] by (cases o') (auto simp: measured_def)
qed (use assms in auto)

lemma closedWeight_pos: "0 < closedWeight E o'"
  using slot_count_nonneg [of E] by (cases o') auto

lemma taskWeight_pos: "measured E st \<Longrightarrow> 1 \<le> taskWeight E t \<and> (is_live t \<longrightarrow> 2 \<le> taskWeight E t)"
  using measured_bounds [of E st] by (cases "(E, t)" rule: taskWeight.cases; cases "(E, case t of Closing o' s j \<Rightarrow> o' | Closed o' \<Rightarrow> o' | _ \<Rightarrow> FromPump)" rule: closedWeight.cases) (auto simp: attemptWeight_def)

lemma weight_admissionFails: "weight E r (admissionFails E i e st) \<le> weight E r st"
  unfolding admissionFails_def weight_fields(8) by (rule order_trans [OF weight_failRun]) simp

lemma weight_rejectTask:
  assumes "measured E st" "rejectTask E t e st = Some st'"
  shows "weight E r st' < weight E r st + taskWeight E t"
proof (cases "\<exists>i. t = AwaitQueued i")
  case True
  then obtain i where "t = AwaitQueued i" by blast
  then show ?thesis using assms weight_admissionFails [of E r i e st] slot_count_nonneg [of E] by auto
next
  case False
  then show ?thesis using assms taskWeight_pos [OF assms(1), of t] closedWeight_pos [of E]
    by (cases "(E, t, e, st)" rule: rejectTask.cases) (auto simp: add_pos_nonneg split: if_splits)
qed

lemma weight_finished: "\<not> rn_finished st \<Longrightarrow> weight E r (st\<lparr> rn_finished := True, rn_rampArmed := False \<rparr>) \<le> weight E r st - 2"
  using slot_count_nonneg [of E] by (simp add: weight_def base_def rampWeight_def)

lemma weight_emitThen: "weight E r (emitThen event t st) = weight E r st + taskWeight E t"
  by (simp add: emitThen_def weight_def)

lemma weight_settleBatch: "\<not> rn_finished st \<Longrightarrow> weight E r (settleBatch E elapsed st) < weight E r st"
  using weight_finished [of st E r] by (auto simp: settleBatch_def Let_def weight_emitThen split: sum.split)

lemma weight_abortRun: "weight E r (abortRun E st) \<le> weight E r st - (if rn_aborted st then 0 else 1)"
  using base_abortRun [of E r st] by (simp add: weight_def)

section \<open>The ramp\<close>

lemma admitSlots_stops:
  "length (rn_slots st) - rn_nextIndex st \<le> k \<Longrightarrow> rn_admissionClosed (admitSlots E k st) \<or> rn_capacity (admitSlots E k st) \<le> rn_active (admitSlots E k st)
     \<or> length (rn_slots (admitSlots E k st)) \<le> rn_nextIndex (admitSlots E k st)"
proof (induction k arbitrary: st)
  case (Suc k)
  then show ?case using Suc.IH [of "admitSlot E st"] by (auto simp: admitSlot_next)
qed simp

lemma admitSlots_capacity [simp]: "rn_capacity (admitSlots E k st) = rn_capacity st"
  by (induction k arbitrary: st) (simp_all add: admitSlot_def Let_def run_updates)

text \<open>Slots at work are distinct and have been admitted, so there are at most as many as admitted slots.\<close>

lemma active_admitted:
  assumes "pool_ok E 0 st" "apart [] st"
  shows "rn_active st \<le> int (rn_nextIndex st)"
proof -
  have "distinct (slots_at_work st)" using assms(2) by (simp add: apart_def)
  then have "length (slots_at_work st) = card (set (slots_at_work st))" by (rule distinct_card [symmetric])
  also have "\<dots> \<le> card {..<rn_nextIndex st}" using assms(2) by (intro card_mono) (auto simp: apart_def)
  finally show ?thesis using assms(1) by (simp add: pool_ok_def live_def)
qed

lemma maybeComplete_fields [simp]:
  "rn_capacity (maybeComplete st) = rn_capacity st" "rn_nextIndex (maybeComplete st) = rn_nextIndex st" "rn_slots (maybeComplete st) = rn_slots st"
  "rn_admissionClosed (maybeComplete st) = rn_admissionClosed st"
  by (simp_all add: maybeComplete_def settleDone_def split: option.split)

lemma closeQueued_fields [simp]:
  "rn_capacity (closeQueued E o' status i st) = rn_capacity st" "rn_nextIndex (closeQueued E o' status i st) = rn_nextIndex st"
  "length (rn_slots (closeQueued E o' status i st)) = length (rn_slots st)"
  by (simp_all add: closeQueued_def run_updates split: option.split)

lemma scheduleRamp_fields [simp]:
  "rn_capacity (scheduleRamp E st) = rn_capacity st" "rn_slots (scheduleRamp E st) = rn_slots st" "rn_admissionClosed (scheduleRamp E st) = rn_admissionClosed st"
  by (simp_all add: scheduleRamp_def)

lemma scheduleRamp_armed: "rn_rampArmed (scheduleRamp E st) \<Longrightarrow> rn_rampArmed st \<or> \<not> rn_admissionClosed st \<and> rn_capacity st < concurrencyOf E ''max'' \<and> rn_nextIndex st < length (rn_slots st)"
  by (auto simp: scheduleRamp_def split: if_splits)

lemma admitSlots_open [simp]: "rn_admissionClosed (admitSlots E k st) = rn_admissionClosed st"
  by (induction k arbitrary: st) (simp_all add: admitSlot_def Let_def run_updates)

lemma rearmed:
  assumes "rn_rampArmed (scheduleRamp E (pump E st))" "\<not> rn_rampArmed st" "pool_ok E 0 st" "apart [] st"
  shows "\<not> rn_admissionClosed st \<and> rn_capacity st < concurrencyOf E ''max'' \<and> rn_capacity st < int (length (rn_slots st))"
proof -
  let ?c = "if rn_aborted st then st\<lparr> rn_admissionClosed := True \<rparr> else st"
  let ?a = "admitSlots E (length (rn_slots ?c) - rn_nextIndex ?c) ?c"
  have p: "pool_ok E 0 ?a" "apart [] ?a" using assms(3,4) by (simp_all add: pool_admitSlots apart_admitSlots)
  have f: "\<not> rn_rampArmed (pumped E st)" "rn_admissionClosed (pumped E st) = rn_admissionClosed ?a" "rn_capacity (pumped E st) = rn_capacity st"
    "rn_nextIndex (pumped E st) = rn_nextIndex ?a" "length (rn_slots (pumped E st)) = length (rn_slots st)"
    using assms(2) by (auto simp: pumped_def Let_def)
  have a: "\<not> rn_admissionClosed ?a \<and> rn_capacity st < concurrencyOf E ''max'' \<and> rn_nextIndex ?a < length (rn_slots st)"
    using assms(1) f scheduleRamp_armed [of E "pump E st"] scheduleRamp_armed [of E "pumped E st"] by (auto simp: pump_pumped)
  have "rn_capacity st \<le> rn_active ?a" using admitSlots_stops [of ?c "length (rn_slots ?c) - rn_nextIndex ?c" E] a by (auto split: if_splits)
  then have "rn_capacity st < int (length (rn_slots st))" using a active_admitted [OF p] by linarith
  moreover have "\<not> rn_admissionClosed st" using a unfolding admitSlots_open by (cases "rn_aborted st") simp_all
  ultimately show ?thesis using a by blast
qed

lemma base_raised:
  assumes "c \<le> rn_capacity st"
  shows "base E r st \<le> base E r (st\<lparr> rn_capacity := c \<rparr>)"
proof -
  have "(concurrencyOf E ''max'' - rn_capacity st) * rampWeight E \<le> (concurrencyOf E ''max'' - c) * rampWeight E"
    using assms slot_count_nonneg [of E] by (intro mult_right_mono) (simp_all add: rampWeight_def)
  then show ?thesis by (simp add: base_def)
qed

lemma base_increased: "base E r (st\<lparr> rn_capacity := rn_capacity st + 1 \<rparr>) = base E r st - rampWeight E"
  by (simp add: base_def algebra_simps)

lemma weight_rampFires:
  assumes "pool_ok E 0 st" "apart [] st" "rn_rampArmed st" "length (rn_slots st) = length (prior_slots E)"
  shows "weight E r (rampFires E st) < weight E r st"
proof -
  let ?f = "st\<lparr> rn_rampArmed := False \<rparr>"
  let ?cap = "min (concurrencyOf E ''max'') (min (rn_capacity st + 1) (int (length (rn_slots st))))"
  let ?s = "if rn_admissionClosed ?f then ?f else ?f\<lparr> rn_capacity := ?cap \<rparr>"
  have r: "rampFires E st = scheduleRamp E (pump E ?s)" by (simp add: rampFires_def Let_def)
  have c: "rn_capacity st \<le> ?cap" using assms(1) by (simp add: pool_ok_def)
  have s: "pool_ok E 0 ?s" "apart [] ?s" "length (rn_slots ?s) = length (prior_slots E)" "\<not> rn_rampArmed ?s"
    using assms by (auto simp: pool_ok_def live_def)
  have b: "base E r (rampFires E st) \<le> base E r ?s + (slot_count E + 2)" unfolding r using base_pump [OF s(3), of r] by simp
  have "base E r (?f\<lparr> rn_capacity := ?cap \<rparr>) \<le> base E r ?f" using base_raised [of "rn_capacity ?f" "?f\<lparr> rn_capacity := ?cap \<rparr>" E r] c by simp
  then have n: "base E r ?s \<le> base E r st" by simp
  show ?thesis
  proof (cases "rn_rampArmed (rampFires E st)")
    case False
    then show ?thesis using b n assms(3) by (simp add: weight_def rampWeight_def)
  next
    case True
    then have again: "\<not> rn_admissionClosed ?s \<and> rn_capacity ?s < concurrencyOf E ''max'' \<and> rn_capacity ?s < int (length (rn_slots ?s))"
      unfolding r using rearmed [OF _ s(4,1,2)] by blast
    then have "?s = ?f\<lparr> rn_capacity := rn_capacity ?f + 1 \<rparr>" by (auto split: if_splits)
    then have "base E r ?s = base E r (?f\<lparr> rn_capacity := rn_capacity ?f + 1 \<rparr>)" by (rule arg_cong)
    also have "\<dots> = base E r ?f - rampWeight E" by (rule base_increased)
    also have "base E r ?f = base E r st" by (rule base_fields(3))
    finally have "base E r ?s = base E r st - rampWeight E" .
    then show ?thesis using b True assms(3) by (simp add: weight_def rampWeight_def)
  qed
qed

section \<open>Runs\<close>

theorem step_costs:
  assumes "batch_step E l st = Some st'" "pool_ok E 0 st" "apart [] st" "length (rn_slots st) = length (prior_slots E)"
  shows "weight E r st' < weight E r st"
proof -
  have m: "measured E st" using assms(2,4) by (simp add: measured_def pool_ok_def)
  have d: "measured E (dropTask k st)" for k using m by (simp add: measured_def dropTask_def)
  note w = weight_dropTask [of _ st E r]
  show ?thesis
  proof (cases l)
    case (Resumes k)
    then have k: "k < length (rn_tasks st)" "resumeTask E (rn_tasks st ! k) (dropTask k st) = Some st'" using assms(1) by (simp_all add: onTask_Some)
    show ?thesis using weight_resumeTask [OF d k(2), of r] w [OF k(1)] by linarith
  next
    case (Rejects k e)
    then have k: "k < length (rn_tasks st)" "rejectTask E (rn_tasks st ! k) e (dropTask k st) = Some st'" using assms(1) by (simp_all add: onTask_Some)
    show ?thesis using weight_rejectTask [OF d k(2), of r] w [OF k(1)] by linarith
  next
    case (ItemReturns k v)
    then obtain i where k: "k < length (rn_tasks st)" "rn_tasks st ! k = AwaitItem i False" "st' = itemReturns E i v (dropTask k st)"
      using assms(1) by (auto simp: onTask_Some split: task.splits bool.splits)
    show ?thesis using weight_item(2) [OF d [of k], of r i v] w [OF k(1)] k(2,3) by simp
  next
    case (ItemThrows k code again)
    then obtain i b where k: "k < length (rn_tasks st)" "rn_tasks st ! k = AwaitItem i b" "st' = itemThrows E i code again (dropTask k st)"
      using assms(1) by (auto simp: onTask_Some split: task.splits)
    show ?thesis using weight_item(1) [OF d [of k], of r i code again] w [OF k(1)] k(2,3) by simp
  next
    case RampFires
    then show ?thesis using assms weight_rampFires [OF assms(2,3)] by (auto split: if_splits)
  next
    case DeadlineFires
    then have "weight E r (st\<lparr> rn_deadlineExceeded := True \<rparr>) = weight E r st - 1" using assms(1) by (simp add: weight_def base_def split: if_splits)
    then show ?thesis using assms(1) DeadlineFires weight_abortRun [of E r "st\<lparr> rn_deadlineExceeded := True \<rparr>"] by (auto split: if_splits)
  next
    case CallerAborts
    then show ?thesis using assms(1) weight_abortRun [of E r st] by (auto split: if_splits)
  next
    case (Finishes elapsed)
    then show ?thesis using assms(1) weight_settleBatch [of st E r elapsed] weight_finished [of st E r]
      by (auto simp: weight_fields split: if_splits option.splits sum.splits)
  qed
qed

lemma weight_nonneg:
  assumes "pool_ok E 0 st" "rn_executionAttempts st \<le> r"
  shows "0 \<le> weight E r st"
proof -
  have m: "0 \<le> slot_count E" "0 \<le> rampWeight E" "0 \<le> rampsWeight E" using assms(1) by (auto simp: rampsWeight_def rampWeight_def slot_count_nonneg pool_ok_def)
  then have "0 \<le> taskWeight E t" for t by (cases "(E, t)" rule: taskWeight.cases) (use closedWeight_pos [of E] in \<open>auto simp: attemptWeight_def less_imp_le\<close>)
  then have "0 \<le> (\<Sum>t\<leftarrow>rn_tasks st. taskWeight E t)" by (intro sum_list_nonneg) auto
  moreover have "0 \<le> (r - rn_executionAttempts st) * attemptWeight E" "0 \<le> (concurrencyOf E ''max'' - rn_capacity st) * rampWeight E"
    using assms m by (simp_all add: attemptWeight_def pool_ok_def)
  moreover have "0 \<le> max 0 (slot_count E - int (rn_nextIndex st)) * (3 * slot_count E + 9)" using m(1) by simp
  ultimately show ?thesis using m by (simp add: weight_def base_def)
qed

lemma reached_attempts:
  assumes "batch_reach E st" "maxAttemptsIs E m"
  shows "rn_executionAttempts st \<le> (\<Sum>i\<in>todo E. attemptsLeft m (prior_attempts E ! i))"
proof -
  have b: "budget_ok E m st" using attempts.reached [OF assms(1), of m] assms(2) by (simp add: budget_inv_def)
  have "0 \<le> (\<Sum>i\<in>todo E. attemptsLeft m (map sl_attempts (rn_slots st) ! i))" by (rule sum_nonneg) simp
  then show ?thesis using b unfolding budget_ok_def spent_ok_def by linarith
qed

text \<open>What is known of a state a prepared batch reaches.\<close>

lemma reached_measured:
  assumes "startable E" "maxAttemptsIs E m" "batch_reach E st"
  shows "pool_ok E 0 st" "apart [] st" "length (rn_slots st) = length (prior_slots E)" "rn_executionAttempts st \<le> (\<Sum>i\<in>todo E. attemptsLeft m (prior_attempts E ! i))"
proof -
  have b: "budget_ok E m st" using attempts.reached [OF assms(3), of m] assms(2) by (simp add: budget_inv_def)
  show "pool_ok E 0 st" using pool.reached [OF assms(3)] assms(1) by (simp add: pool_inv_def)
  show "apart [] st" using exclusive.reached [OF assms(3)] by simp
  show "length (rn_slots st) = length (prior_slots E)" using b by (simp add: budget_ok_def spent_ok_def)
  show "rn_executionAttempts st \<le> (\<Sum>i\<in>todo E. attemptsLeft m (prior_attempts E ! i))" using assms(3,2) by (rule reached_attempts)
qed

text \<open>A run given by its labels.\<close>

fun drive :: "batch_env \<Rightarrow> label list \<Rightarrow> batch_run \<Rightarrow> batch_run option" where
  "drive E [] st = Some st"
| "drive E (l # ls) st = (case batch_step E l st of None \<Rightarrow> None | Some st' \<Rightarrow> drive E ls st')"

lemma drive_reach: "batch_reach E st \<Longrightarrow> drive E labels st = Some st' \<Longrightarrow> batch_reach E st'"
  by (induction labels arbitrary: st) (auto split: option.splits intro: batch_goes_on)

lemma steps_bounded:
  assumes "startable E" "maxAttemptsIs E m" "batch_reach E st" "drive E labels st = Some st'"
  shows "int (length labels) \<le> weight E (\<Sum>i\<in>todo E. attemptsLeft m (prior_attempts E ! i)) st"
  using assms(3,4)
proof (induction labels arbitrary: st)
  case Nil
  then show ?case using weight_nonneg [OF reached_measured(1,4) [OF assms(1,2) Nil(1)]] by simp
next
  case (Cons l labels)
  then obtain st1 where st1: "batch_step E l st = Some st1" "drive E labels st1 = Some st'" by (auto split: option.splits)
  let ?r = "\<Sum>i\<in>todo E. attemptsLeft m (prior_attempts E ! i)"
  have "batch_reach E st1" using Cons.prems(1) st1(1) by (rule batch_goes_on)
  then have "int (length labels) \<le> weight E ?r st1" using st1(2) by (rule Cons.IH)
  moreover have "weight E ?r st1 < weight E ?r st" using st1(1) reached_measured(1,2,3) [OF assms(1,2) Cons.prems(1)] by (rule step_costs)
  ultimately show ?case by simp
qed

end
