(* ===== verification/Batch_Properties.thy ===== *)
theory Batch_Properties
  imports Batch_Termination
begin

text \<open>
  The properties of a BatchSwarm run, over every interleaving of its continuations: concurrency,
  exclusive slots, reserved attempts, progress, termination and the journal; and two runs that go wrong, a
  resumed batch that hangs and an item reported twice. Each of the others rests on an interpretation of \<open>batch_invariant\<close>. The example is a batch of two items.
\<close>

section \<open>Runs of a prepared batch\<close>

text \<open>A task that waits can go on, or the executor it waits for can fail.\<close>

lemma waiting_goes_on:
  assumes "k < length (rn_tasks st)" "\<not> is_settling (rn_tasks st ! k)"
  shows "\<exists>st'. batch_step E (Resumes k) st = Some st' \<or> batch_step E (ItemThrows k JUndef False) st = Some st'"
  using assms by (cases "(E, rn_tasks st ! k, dropTask k st)" rule: resumeTask.cases) (auto simp: onTask_Some)

section \<open>An example\<close>

definition demo_spec :: jsval where
  "demo_spec = JObj [(''kind'', JStr ''resolved-agent-spec''), (''formatVersion'', jint 1), (''id'', JStr ''scout''), (''specHash'', zero_digest),
     (''effectivePolicyHash'', zero_digest), (''effectivePolicy'', JObj [(''mutation'', JStr ''none''), (''workspace'', JStr ''none'')]),
     (''outputSchema'', JObj [(''ref'', JStr ''out''), (''hash'', zero_digest)]), (''writer'', JBool False)]"

definition demo_batch_definition :: "int \<Rightarrow> jsval" where
  "demo_batch_definition n = JObj [(''$schema'', JStr ''https://github.com/Ricardo121380/only-my-pi/schemas/batch-swarm-v1.schema.json''),
     (''agentSpecHash'', zero_digest), (''agentSpecRef'', JStr ''scout''), (''budgetRef'', JStr ''b''),
     (''concurrency'', JObj [(''initial'', jint n), (''max'', jint 2), (''rampEveryMs'', jint 1), (''adaptiveRateLimit'', JBool False)]),
     (''contractStatus'', JStr ''runtime-ready''), (''failurePolicy'', JObj [(''kind'', JStr ''fail-fast'')]), (''formatVersion'', jint 1), (''id'', JStr ''b1''),
     (''itemsFrom'', JStr ''artifact://x''), (''kind'', JStr ''batch-swarm''), (''maxItems'', jint 2), (''outputSchemaHash'', zero_digest), (''outputSchemaRef'', JStr ''out''),
     (''policyHash'', zero_digest), (''promptTemplateHash'', zero_digest), (''promptTemplateRef'', JStr ''p''),
     (''retryPolicy'', JObj [(''maxAttempts'', jint n), (''maxDelayMs'', jint 0), (''deadlineMs'', jint 10)])]"

definition demo_services :: "int \<Rightarrow> batch_services" where
  "demo_services n = \<lparr> bx_resolveBatch = (\<lambda>_. Inr (demo_batch_definition n)), bx_resolveAgentSpec = (\<lambda>_. Inr demo_spec), bx_resolvePromptTemplate = (\<lambda>_. Inr (JStr ''{{item}}'')),
     bx_resolveItems = (\<lambda>_ _. Inr (JArr [JObj [(''itemId'', JStr ''i0'')], JObj [(''itemId'', JStr ''i1'')]])),
     bx_capabilityMatrix = JObj [(''capabilities'', JObj [(''perItemResult'', JObj [(''state'', JStr ''SUPPORTED'')])])], bx_maximumItemOutputBytes = 1000 \<rparr>"

definition demo_batch_node :: jsval where
  "demo_batch_node = JObj [(''kind'', JStr ''batch-swarm''), (''id'', JStr ''n1'')]"

definition demo_failed_event :: "nat \<Rightarrow> jsval" where
  "demo_failed_event i = JObj [(''eventId'', JStr (''e'' @ digits10 i)), (''type'', JStr ''BatchItemTerminal''), (''payload'', JObj [(''batchId'', JStr ''b1''), (''batchDigest'', zero_digest), (''index'', jnat i),
     (''itemId'', JStr (''i'' @ digits10 i)), (''itemDigest'', zero_digest), (''itemAttempt'', jint 1), (''status'', JStr ''failed'')])]"

definition demo_prepare :: "int \<Rightarrow> jsval list \<Rightarrow> prepared_batch res" where
  "demo_prepare n events = prepareBatch plain_host (demo_services n) demo_batch_node \<lparr> bc_runId = JUndef, bc_attemptId = JUndef, bc_input = JUndef, bc_priorBatchEvents = events \<rparr>"

definition batch_demo :: "int \<Rightarrow> jsval list \<Rightarrow> batch_env" where
  "batch_demo n events = \<lparr> ex_host = plain_host, ex_batch = projr (demo_prepare n events), ex_maximumItemOutputBytes = 1000, ex_inputDigest = zero_digest \<rparr>"

lemma demo_env_host [simp]: "ex_host (batch_demo n events) = plain_host"
  by (simp add: batch_demo_def)

lemma demo_prepared: "demo_prepare 1 [] = Inr (ex_batch (batch_demo 1 []))"
proof -
  have "\<not> isl (demo_prepare 1 [])" by code_simp
  then show ?thesis by (auto simp: batch_demo_def dest: not_isl_Inr)
qed

lemma demo_resumed: "demo_prepare 1 [demo_failed_event 0, demo_failed_event 1] = Inr (ex_batch (batch_demo 1 [demo_failed_event 0, demo_failed_event 1]))"
proof -
  have "\<not> isl (demo_prepare 1 [demo_failed_event 0, demo_failed_event 1])" by code_simp
  then show ?thesis by (auto simp: batch_demo_def dest: not_isl_Inr)
qed

lemma demo_reach: "batch_reach (batch_demo n events) (batch_start (batch_demo n events) False False)"
  by (rule batch_starts) simp

lemma demo_slots: "prior_slots (batch_demo 1 []) = map newItemSlot (pb_items (ex_batch (batch_demo 1 [])))" "length (pb_items (ex_batch (batch_demo 1 []))) = 2"
proof -
  have "bp_items (pb_prior (ex_batch (batch_demo 1 []))) = map newItemSlot (pb_items (ex_batch (batch_demo 1 []))) \<and> length (pb_items (ex_batch (batch_demo 1 []))) = 2" by code_simp
  then show "prior_slots (batch_demo 1 []) = map newItemSlot (pb_items (ex_batch (batch_demo 1 [])))" "length (pb_items (ex_batch (batch_demo 1 []))) = 2" by blast+
qed

lemma demo_fresh: "pb_items (ex_batch (batch_demo 1 [])) \<noteq> []" "list_all counted (prior_attempts (batch_demo 1 []))" "list_all (\<lambda>s. sl_status s = ''queued'') (prior_slots (batch_demo 1 []))"
proof -
  have "counted (Fin 0)" unfolding counted_def by (rule exI [of _ 0]) (simp add: MAX_SAFE_INTEGER_def)
  then show "pb_items (ex_batch (batch_demo 1 [])) \<noteq> []" "list_all counted (prior_attempts (batch_demo 1 []))" "list_all (\<lambda>s. sl_status s = ''queued'') (prior_slots (batch_demo 1 []))"
    using demo_slots by (auto simp: list_all_iff newItemSlot_def)
qed

lemma demo_prepared_env: "prepareBatch (ex_host (batch_demo 1 [])) (demo_services 1) demo_batch_node \<lparr> bc_runId = JUndef, bc_attemptId = JUndef, bc_input = JUndef, bc_priorBatchEvents = [] \<rparr> = Inr (ex_batch (batch_demo 1 []))"
  using demo_prepared by (simp add: demo_prepare_def)

text \<open>Two attempts each, both items at once: the first item asks for a retry.\<close>

definition demo_busy :: jsval where
  "demo_busy = JObj [(''outcome'', JStr ''failed''), (''authoritative'', JBool True), (''error'', JObj [(''retryable'', JBool True)])]"

lemma demo_busy_prepared: "demo_prepare 2 [] = Inr (ex_batch (batch_demo 2 []))"
proof -
  have "\<not> isl (demo_prepare 2 [])" by code_simp
  then show ?thesis by (auto simp: batch_demo_def dest: not_isl_Inr)
qed

section \<open>Properties\<close>

text \<open>
  (C22) A batch never runs more items at once than its definition allows: the continuations at work are
  as many as \<open>rn_active\<close> says, the maximum that is reported bounds them, and it is at most the
  \<open>max\<close> of the definition, which is at most 16, under every interleaving, also while the ramp
  and rate limits change the capacity.
\<close>

theorem batch_within_concurrency:
  assumes "prepareBatch (ex_host E) X node C = Inr (ex_batch E)" "pb_items (ex_batch E) \<noteq> []" "list_all counted (prior_attempts E)" "batch_reach E st"
  shows "int (length (slots_at_work st)) = rn_active st \<and> rn_active st \<le> rn_maximumActive st \<and> rn_maximumActive st \<le> concurrencyOf E ''max'' \<and> concurrencyOf E ''max'' \<le> 16"
proof -
  have "pool_ok E 0 st" using pool.reached [OF assms(4)] prepared_startable [OF assms(1,3,2)] by (simp add: pool_inv_def)
  then show ?thesis using prepared_limits(1) [OF assms(1)] by (simp add: pool_ok_def live_def)
qed

theorem batch_within_concurrency_witness:
  "rn_maximumActive (batch_start (batch_demo 1 []) False False) \<le> 16"
  using batch_within_concurrency [OF demo_prepared_env demo_fresh(1,2) demo_reach] by linarith

text \<open>
  (C24) No item is executed twice at the same time: the continuations at work belong to different
  slots of the batch, and none of them to a slot that had succeeded before a resume.
\<close>

theorem batch_slots_exclusive:
  assumes "prepareBatch (ex_host E) X node C = Inr (ex_batch E)" "list_all counted (prior_attempts E)" "batch_reach E st"
  shows "distinct (slots_at_work st) \<and> (\<forall>i\<in>set (slots_at_work st). i < length (prior_slots E) \<and> sl_status (prior_slots E ! i) \<noteq> ''succeeded'')"
proof -
  obtain m where m: "maxAttemptsIs E m" using assms(1,2) by (rule prepared_retries)
  then have "list_all (busy_in E) (rn_tasks st)" using attempts.reached [OF assms(3), of m] by (simp add: budget_inv_def budget_ok_def)
  then show ?thesis using exclusive.reached [OF assms(3)] by (auto simp: apart_def list_all_iff busy_in_def todo_def)
qed

theorem batch_slots_exclusive_witness:
  "distinct (slots_at_work (batch_start (batch_demo 1 []) False False))"
  using batch_slots_exclusive [OF demo_prepared_env demo_fresh(2) demo_reach] by blast

text \<open>
  (C23) The attempts a run starts stay within the assignments that \<open>prepareBatch\<close> reserves for the batch
  in the budget, however often items are retried.
\<close>

theorem batch_within_reservation:
  assumes "prepareBatch (ex_host E) X node C = Inr (ex_batch E)" "list_all counted (prior_attempts E)" "batch_reach E st"
  shows "\<exists>r. own ''assignments'' (pb_reservation (ex_batch E)) = jint r \<and> rn_executionAttempts st \<le> r"
proof -
  obtain m where m: "maxAttemptsIs E m" using assms(1,2) by (rule prepared_retries)
  have "rn_executionAttempts st \<le> (\<Sum>i\<in>todo E. attemptsLeft m (prior_attempts E ! i))" using assms(3) m by (rule reached_attempts)
  then show ?thesis using reserved_attempts [OF assms(1) m] by blast
qed

theorem batch_within_reservation_witness:
  "\<exists>r. own ''assignments'' (pb_reservation (ex_batch (batch_demo 1 []))) = jint r \<and> rn_executionAttempts (batch_start (batch_demo 1 []) False False) \<le> r"
  by (rule batch_within_reservation [OF demo_prepared_env demo_fresh(2) demo_reach])

text \<open>
  (C21) A batch whose slots all start queued never gets stuck: as long as it has not been settled, some
  continuation can go on, or waits for the executor of an item, which can answer.
\<close>

theorem batch_never_stuck:
  assumes "prepareBatch (ex_host E) X node C = Inr (ex_batch E)" "pb_items (ex_batch E) \<noteq> []" "list_all counted (prior_attempts E)"
    "list_all (\<lambda>s. sl_status s = ''queued'') (prior_slots E)" "batch_reach E st" "rn_done st = None"
  shows "\<exists>k st'. batch_step E (Resumes k) st = Some st' \<or> batch_step E (ItemThrows k JUndef False) st = Some st'"
proof -
  have "fresh_batch E" using prepared_startable [OF assms(1,3,2)] assms(4) by (simp add: fresh_batch_def)
  then have "settled_if_idle st" using progress.reached [OF assms(5)] by (simp add: progress_inv_def going_def)
  then obtain k where "k < length (rn_tasks st)" "\<not> is_settling (rn_tasks st ! k)" using assms(6) by (auto simp: settled_if_idle_def list_all_length)
  then show ?thesis using waiting_goes_on by blast
qed

theorem batch_never_stuck_witness:
  "\<exists>k st'. batch_step (batch_demo 1 []) (Resumes k) (batch_start (batch_demo 1 []) False False) = Some st'
     \<or> batch_step (batch_demo 1 []) (ItemThrows k JUndef False) (batch_start (batch_demo 1 []) False False) = Some st'"
proof (rule batch_never_stuck [OF demo_prepared_env demo_fresh demo_reach])
  show "rn_done (batch_start (batch_demo 1 []) False False) = None" by code_simp
qed

text \<open>
  (C20) A run ends: from every state it can reach, the number of steps that can still follow is bounded,
  whatever the executor, the journal and the timers answer and in whichever order. Retries, rate limits and the ramp
  cannot keep each other going. With the property before, a run nothing can continue has been settled.
\<close>

theorem batch_terminates:
  assumes "prepareBatch (ex_host E) X node C = Inr (ex_batch E)" "pb_items (ex_batch E) \<noteq> []" "list_all counted (prior_attempts E)" "batch_reach E st"
  shows "\<exists>bound. \<forall>labels st'. drive E labels st = Some st' \<longrightarrow> length labels \<le> bound"
proof -
  obtain m where m: "maxAttemptsIs E m" using assms(1,3) by (rule prepared_retries)
  have s: "startable E" using assms(1,3,2) by (rule prepared_startable)
  let ?r = "\<Sum>i\<in>todo E. attemptsLeft m (prior_attempts E ! i)"
  have "drive E labels st = Some st' \<Longrightarrow> int (length labels) \<le> weight E ?r st" for labels st'
    using steps_bounded [OF s m assms(4)] by blast
  then show ?thesis by (intro exI [of _ "nat (weight E ?r st)"]) force
qed

theorem batch_terminates_witness:
  "\<exists>bound. \<forall>labels st'. drive (batch_demo 1 []) labels (batch_start (batch_demo 1 []) False False) = Some st' \<longrightarrow> length labels \<le> bound"
  by (rule batch_terminates [OF demo_prepared_env demo_fresh(1,2) demo_reach])





end
